(* ===== verification/Prelude.thy ===== *)
theory Prelude
  imports Main "HOL-Library.AList"
begin

text \<open>
  Shared vocabulary of the development: instants and durations, Python errors as values,
  the ASCII fragment of the Python string operations the code uses, insertion-ordered
  dictionaries, and the few relational queries the repositories are written with
  (\<open>ORDER BY k DESC LIMIT 1\<close>, \<open>UPDATE ... WHERE\<close>, \<open>ORDER BY\<close>) on tables kept as row
  lists, each with the lemmas the component theories rewrite with.
\<close>

named_theorems query_simps "facts about the relational queries, for simp and auto"

section \<open>Instants and durations\<close>

text \<open>
  A Python \<open>datetime\<close> with time zone has a resolution of one microsecond: an instant is
  the integer number of microseconds since the epoch, a \<open>timedelta\<close> an integer number of
  microseconds. Naive values are read as UTC everywhere in the code (\<open>_as_utc\<close>).
\<close>

type_synonym time = int

definition seconds :: "int \<Rightarrow> int" where
  "seconds n = n * 1000000"

definition minutes :: "int \<Rightarrow> int" where
  "minutes n = n * 60000000"

definition hours :: "int \<Rightarrow> int" where
  "hours n = n * 3600000000"

definition days :: "int \<Rightarrow> int" where
  "days n = n * 86400000000"

lemmas duration_defs = seconds_def minutes_def hours_def days_def

lemma hours_pos [simp]: "0 < hours n \<longleftrightarrow> 0 < n"
  by (simp add: hours_def)

lemma minutes_pos [simp]: "0 < minutes n \<longleftrightarrow> 0 < n"
  by (simp add: minutes_def)

lemma seconds_pos [simp]: "0 < seconds n \<longleftrightarrow> 0 < n"
  by (simp add: seconds_def)

section \<open>Errors as values\<close>

datatype py_error =
    ValueError string
  | LookupError string
  | RuntimeError string
  | TypeError string
  | KeyError string
  | ZeroDivisionError
  | AssertionError
  | NeuroNotFound string
  | NeuroValidation string
  | NeuroConflict string
  | NeuroRuntimeDisabled string
  | IdempotencyConflict
  | RedisFailure
  | NotFound
  | InvalidTransition
  | TerminalStatusAlreadyNone
  | WarmupSessionNotFound
  | WarmupStrategyNotFound
  | WarmupSessionRejected string
  | WarmupPauseRejected
  | WarmupResumeRejected "time option"
  | WarmupQueueUnavailable
  | WarmupIsolationConflict
  | PreProductionRejected string
  | AccountIsolated

type_synonym 'a result = "py_error + 'a"

definition result_bind :: "'a result \<Rightarrow> ('a \<Rightarrow> 'b result) \<Rightarrow> 'b result" where
  "result_bind r f = (case r of Inl e \<Rightarrow> Inl e | Inr x \<Rightarrow> f x)"

lemma result_bind_simps [simp]:
  "result_bind (Inl e) f = Inl e"
  "result_bind (Inr x) f = f x"
  by (simp_all add: result_bind_def)

lemma result_bind_Inr_iff:
  "result_bind r f = Inr y \<longleftrightarrow> (\<exists>x. r = Inr x \<and> f x = Inr y)"
  by (cases r) simp_all

definition is_error :: "'a result \<Rightarrow> bool" where
  "is_error r = (case r of Inl _ \<Rightarrow> True | Inr _ \<Rightarrow> False)"

lemma is_error_simps [simp]: "is_error (Inl e)" "\<not> is_error (Inr x)"
  by (simp_all add: is_error_def)

section \<open>Strings\<close>

text \<open>
  Strings are ASCII (code points below 128): \<open>strip\<close>, \<open>upper\<close> and \<open>lower\<close> are the
  restrictions of the Python methods to that range.
\<close>

definition char_code :: "char \<Rightarrow> nat" where
  "char_code c = of_char c"

definition py_isspace :: "char \<Rightarrow> bool" where
  "py_isspace c = (let n = char_code c in (9 \<le> n \<and> n \<le> 13) \<or> (28 \<le> n \<and> n \<le> 32))"

definition lstrip :: "string \<Rightarrow> string" where
  "lstrip s = dropWhile py_isspace s"

definition strip :: "string \<Rightarrow> string" where
  "strip s = rev (lstrip (rev (lstrip s)))"

definition upper_char :: "char \<Rightarrow> char" where
  "upper_char c = (let n = char_code c in if 97 \<le> n \<and> n \<le> 122 then char_of (n - 32) else c)"

definition lower_char :: "char \<Rightarrow> char" where
  "lower_char c = (let n = char_code c in if 65 \<le> n \<and> n \<le> 90 then char_of (n + 32) else c)"

definition upper :: "string \<Rightarrow> string" where
  "upper s = map upper_char s"

definition lower :: "string \<Rightarrow> string" where
  "lower s = map lower_char s"

fun starts_with :: "string \<Rightarrow> string \<Rightarrow> bool" where
  "starts_with [] s = True"
| "starts_with (p # ps) [] = False"
| "starts_with (p # ps) (c # cs) = (p = c \<and> starts_with ps cs)"

fun contains :: "string \<Rightarrow> string \<Rightarrow> bool" where
  "contains p [] = (p = [])"
| "contains p (c # cs) = (starts_with p (c # cs) \<or> contains p cs)"

definition ends_with :: "string \<Rightarrow> string \<Rightarrow> bool" where
  "ends_with p s = starts_with (rev p) (rev s)"

lemma starts_with_append: "starts_with (p @ q) s \<Longrightarrow> starts_with p s"
  by (induction p s rule: starts_with.induct) auto

lemma starts_with_iff: "starts_with p s \<longleftrightarrow> (\<exists>t. s = p @ t)"
  by (induction p s rule: starts_with.induct) auto

lemma contains_iff: "contains p s \<longleftrightarrow> (\<exists>u v. s = u @ p @ v)"
proof (induction s)
  case Nil
  then show ?case by auto
next
  case (Cons c cs)
  show ?case
  proof
    assume "contains p (c # cs)"
    then consider "starts_with p (c # cs)" | "contains p cs" by auto
    then show "\<exists>u v. c # cs = u @ p @ v"
    proof cases
      case 1
      then obtain t where "c # cs = [] @ p @ t" by (auto simp: starts_with_iff)
      then show ?thesis by blast
    next
      case 2
      with Cons.IH obtain u v where "c # cs = (c # u) @ p @ v" by auto
      then show ?thesis by blast
    qed
  next
    assume "\<exists>u v. c # cs = u @ p @ v"
    then obtain u v where *: "c # cs = u @ p @ v" by blast
    show "contains p (c # cs)"
    proof (cases u)
      case Nil
      with * have "starts_with p (c # cs)" by (auto simp: starts_with_iff)
      then show ?thesis by simp
    next
      case (Cons d ds)
      with * have "cs = ds @ p @ v" by simp
      with Cons.IH show ?thesis by auto
    qed
  qed
qed

lemma contains_prefix: "contains (p @ q) s \<Longrightarrow> contains p s"
  by (auto simp: contains_iff)

text \<open>\<open>value or default\<close> on an optional string: the empty string is falsy.\<close>

definition truthy :: "string option \<Rightarrow> bool" where
  "truthy s = (case s of None \<Rightarrow> False | Some t \<Rightarrow> t \<noteq> [])"

definition str_or :: "string option \<Rightarrow> string \<Rightarrow> string" where
  "str_or s d = (case s of None \<Rightarrow> d | Some t \<Rightarrow> if t = [] then d else t)"

lemma truthy_simps [simp]: "\<not> truthy None" "truthy (Some t) \<longleftrightarrow> t \<noteq> []"
  by (simp_all add: truthy_def)

text \<open>\<open>sep.join(xs)\<close>.\<close>

fun join_with :: "string \<Rightarrow> string list \<Rightarrow> string" where
  "join_with sep [] = []"
| "join_with sep [x] = x"
| "join_with sep (x # xs) = x @ sep @ join_with sep xs"

section \<open>Dictionaries\<close>

text \<open>
  A Python \<open>dict\<close> keeps insertion order; assigning an existing key keeps its place. That is
  \<open>AList.update\<close>; \<open>{**d, **e}\<close> and \<open>d.update(e)\<close> assign the entries of \<open>e\<close> in order.
\<close>

type_synonym ('k, 'v) dict = "('k \<times> 'v) list"

definition dict_set :: "'k \<Rightarrow> 'v \<Rightarrow> ('k, 'v) dict \<Rightarrow> ('k, 'v) dict" where
  "dict_set k v d = AList.update k v d"

definition dict_get :: "('k, 'v) dict \<Rightarrow> 'k \<Rightarrow> 'v option" where
  "dict_get d k = map_of d k"

definition dict_merge :: "('k, 'v) dict \<Rightarrow> ('k, 'v) dict \<Rightarrow> ('k, 'v) dict" where
  "dict_merge d e = fold (\<lambda>(k, v). dict_set k v) e d"

lemma dict_get_set: "dict_get (dict_set k v d) k' = (if k' = k then Some v else dict_get d k')"
  by (simp add: dict_get_def dict_set_def update_conv)

lemma dict_get_merge:
  "distinct (map fst e) \<Longrightarrow>
   dict_get (dict_merge d e) k = (case dict_get e k of Some v \<Rightarrow> Some v | None \<Rightarrow> dict_get d k)"
proof (induction e arbitrary: d)
  case Nil
  then show ?case by (simp add: dict_merge_def dict_get_def)
next
  case (Cons p e)
  obtain k1 v1 where p: "p = (k1, v1)" by (cases p)
  have "dict_get (dict_merge d (p # e)) k = dict_get (dict_merge (dict_set k1 v1 d) e) k"
    by (simp add: dict_merge_def p)
  also have "\<dots> = (case dict_get e k of Some v \<Rightarrow> Some v | None \<Rightarrow> dict_get (dict_set k1 v1 d) k)"
    using Cons by simp
  also have "\<dots> = (case dict_get (p # e) k of Some v \<Rightarrow> Some v | None \<Rightarrow> dict_get d k)"
  proof (cases "k = k1")
    case True
    with Cons.prems p have "dict_get e k = None"
      by (auto simp: dict_get_def map_of_eq_None_iff image_iff)
    with True p show ?thesis by (simp add: dict_get_set) (simp add: dict_get_def)
  next
    case False
    have "dict_get (p # e) k = dict_get e k" using p False by (simp add: dict_get_def)
    with False show ?thesis by (simp add: dict_get_set split: option.split)
  qed
  finally show ?case .
qed

section \<open>Relational queries\<close>

text \<open>
  \<open>ORDER BY k DESC LIMIT 1\<close>. SQL leaves the choice among equal keys open; here the earliest
  row of the table wins.
\<close>

fun latest_by :: "('a \<Rightarrow> 'k::linorder) \<Rightarrow> 'a list \<Rightarrow> 'a option" where
  "latest_by k [] = None"
| "latest_by k (x # xs) =
     (case latest_by k xs of None \<Rightarrow> Some x | Some y \<Rightarrow> if k y \<le> k x then Some x else Some y)"

lemma latest_by_None [query_simps]: "latest_by k xs = None \<longleftrightarrow> xs = []"
  by (cases xs) (auto split: option.splits if_splits)

lemma latest_by_mem: "latest_by k xs = Some x \<Longrightarrow> x \<in> set xs"
  by (induction xs arbitrary: x) (auto split: option.splits if_splits)

lemma latest_by_max: "latest_by k xs = Some x \<Longrightarrow> y \<in> set xs \<Longrightarrow> k y \<le> k x"
proof (induction xs arbitrary: x y)
  case Nil
  then show ?case by simp
next
  case (Cons z xs)
  show ?case
  proof (cases "latest_by k xs")
    case None
    with Cons.prems have "x = z" "y = z" by (auto simp: query_simps)
    then show ?thesis by simp
  next
    case (Some w)
    have w: "k v \<le> k w" if "v \<in> set xs" for v
      using Cons.IH [OF Some that] .
    show ?thesis
    proof (cases "k w \<le> k z")
      case True
      with Some Cons.prems(1) have "x = z" by simp
      with Cons.prems(2) w True show ?thesis by (auto intro: order_trans)
    next
      case False
      with Some Cons.prems(1) have x: "x = w" by simp
      with False have "k z \<le> k x" by simp
      with Cons.prems(2) w x show ?thesis by auto
    qed
  qed
qed

text \<open>\<open>UPDATE ... SET ... WHERE\<close>: the rows that satisfy the predicate are rewritten in place.\<close>

definition update_where :: "('a \<Rightarrow> bool) \<Rightarrow> ('a \<Rightarrow> 'a) \<Rightarrow> 'a list \<Rightarrow> 'a list" where
  "update_where P u xs = map (\<lambda>x. if P x then u x else x) xs"

lemma length_update_where [simp]: "length (update_where P u xs) = length xs"
  by (simp add: update_where_def)

lemma update_where_Nil [simp]: "update_where P u [] = []"
  by (simp add: update_where_def)

lemma update_where_Cons [simp]:
  "update_where P u (x # xs) = (if P x then u x else x) # update_where P u xs"
  by (simp add: update_where_def)

lemma update_where_append [simp]:
  "update_where P u (xs @ ys) = update_where P u xs @ update_where P u ys"
  by (simp add: update_where_def)

lemma in_set_update_where [query_simps]:
  "y \<in> set (update_where P u xs) \<longleftrightarrow> (\<exists>x\<in>set xs. y = (if P x then u x else x))"
  by (auto simp: update_where_def)

lemma update_where_none_left:
  "(\<And>x. P x \<Longrightarrow> \<not> P (u x)) \<Longrightarrow> y \<in> set (update_where P u xs) \<Longrightarrow> \<not> P y"
  by (induction xs) (auto split: if_splits)

text \<open>Replacing the row with a given key.\<close>

lemma ex_replaced:
  assumes "q \<in> set xs"
  shows "(\<exists>r\<in>set (update_where (\<lambda>r. k r = k q) (\<lambda>_. row) xs). P r) \<longleftrightarrow>
    P row \<or> (\<exists>r\<in>set xs. k r \<noteq> k q \<and> P r)"
  using assms by (force simp: update_where_def image_iff)

lemma update_where_none: "\<forall>x\<in>set xs. \<not> P x \<Longrightarrow> update_where P u xs = xs"
  by (induction xs) auto

lemma map_update_where:
  "(\<And>x. f (u x) = f x) \<Longrightarrow> map f (update_where P u xs) = map f xs"
  by (induction xs) auto

lemma filter_update_where_other:
  "(\<And>x. x \<in> set xs \<Longrightarrow> P x \<Longrightarrow> \<not> Q x \<and> \<not> Q (u x)) \<Longrightarrow> filter Q (update_where P u xs) = filter Q xs"
  by (induction xs) auto

lemma find_update_where:
  "(\<And>x. Q (u x) = Q x) \<Longrightarrow>
   find Q (update_where P u xs) = map_option (\<lambda>x. if P x then u x else x) (find Q xs)"
  by (induction xs) auto

lemma find_mem: "find P xs = Some x \<Longrightarrow> x \<in> set xs \<and> P x"
  by (induction xs) (auto split: if_splits)

lemma find_none_iff: "find P xs = None \<longleftrightarrow> (\<forall>x\<in>set xs. \<not> P x)"
  by (induction xs) auto

lemma find_append: "find P (xs @ ys) = (case find P xs of Some x \<Rightarrow> Some x | None \<Rightarrow> find P ys)"
  by (induction xs) auto

text \<open>\<open>ORDER BY k DESC\<close>, ties in table order.\<close>

definition order_desc :: "('a \<Rightarrow> int) \<Rightarrow> 'a list \<Rightarrow> 'a list" where
  "order_desc k xs = sort_key (\<lambda>x. - k x) xs"

lemma set_order_desc [query_simps]: "set (order_desc k xs) = set xs"
  by (simp add: order_desc_def)

lemma filter_order_desc [query_simps]: "filter P (order_desc k xs) = order_desc k (filter P xs)"
  by (simp add: order_desc_def filter_sort)

lemma sum_list_map_filter_eq:
  "(\<Sum>x\<leftarrow>filter P xs. f x) = (\<Sum>x\<leftarrow>xs. if P x then f x else (0::int))"
  by (induction xs) auto

end
