(* ===== verification/Models.thy ===== *)
theory Models
  imports Prelude Complex_Main
begin

text \<open>
  The data model: the enumerations of \<open>backend/app/models.py\<close> and
  \<open>account_lifecycle/transitions.py\<close> as datatypes, the SQLAlchemy tables of
  \<open>backend/app/model_defs\<close> as records with one field per column, and the database as a record
  of tables (lists of rows in insertion order). Identifiers are opaque values compared for
  equality and order only: natural numbers. A row related one-to-one to an account
  (\<open>runtime_state\<close>, \<open>profile_state\<close>, \<open>proxy\<close>) is an optional field of the account. Floating
  point columns are rationals. Columns restricted by a \<open>CHECK\<close> constraint to a fixed set of
  strings are enumerations; other strings stay strings.
\<close>

section \<open>JSON columns\<close>


datatype json =
    JNull
  | JBool bool
  | JInt int
  | JNum rat
  | JStr string
  | JTime time
  | JList "json list"
  | JObj "(string \<times> json) list"

type_synonym uuid = nat

definition json_of_str :: "string option \<Rightarrow> json" where
  "json_of_str s = (case s of None \<Rightarrow> JNull | Some t \<Rightarrow> JStr t)"

section \<open>Enumerations\<close>

datatype account_state =
    Registered
  | AuthPending
  | AwaitingCode
  | AwaitingPasscode
  | AuthorizedReady
  | ExecutionUsable
  | ReauthRequired
  | RuntimeBroken
  | ManualInterventionNeeded
  | AccountDisabled

datatype terminal_status = TermNone | TermBanned | TermDeleted | TermSuspended

datatype account_origin = OriginImported | OriginBought | OriginCreated

datatype lifecycle_state =
    LImported
  | LColdSoak
  | LWarming
  | LPreProduction
  | LActive
  | LIdle
  | LRetired
  | LBanned
  | LDeleted

datatype warmup_status =
    WDraft
  | WValidating
  | WScheduled
  | WColdSoak
  | WActive
  | WPausedRisk
  | WPausedManual
  | WCompleted
  | WFailed

datatype execution_mode = DryRun | Shadow | Passive | Network | Advanced

datatype pre_production_status = PPRunning | PPCompleted | PPFailed

datatype job_state =
    JobQueued
  | JobDedupBlocked
  | JobWaitingLock
  | JobRunning
  | JobPartiallyCompleted
  | JobCompleted
  | JobFailed
  | JobManualInterventionNeeded
  | JobCanceled

datatype step_status =
    StepPlanned
  | StepStarted
  | StepSucceeded
  | StepFailed
  | StepUncertain
  | StepSkipped

datatype safety_mode = Conservative | Balanced | Aggressive

datatype auto_action = ActPaused | ActQuarantine | ActCooldown | ActNone

datatype ggr_bucket = Strong | Medium | Weak

text \<open>The intents and reason codes of \<open>account_safety/gate_contracts.py\<close>.\<close>

datatype gate_intent = Editing | Warmup | Commenting

datatype reason_severity = Warning | Blocked

datatype gate_reason_code =
    ProxyUnhealthy
  | NoWarmup
  | WarmupIncomplete
  | AgeTooLow
  | FloodWaitStreak
  | FraudScoreHigh
  | GgrTooLow
  | StatusDegraded
  | ProfileIncomplete
  | ActiveQuarantine
  | CrossModuleOverload
  | TerminalStatus
  | IpChangeCooldown

text \<open>The string values of the enumerations that the code puts into metadata.\<close>

fun account_state_text :: "account_state \<Rightarrow> string" where
  "account_state_text Registered = ''registered''"
| "account_state_text AuthPending = ''auth_pending''"
| "account_state_text AwaitingCode = ''awaiting_code''"
| "account_state_text AwaitingPasscode = ''awaiting_password''"
| "account_state_text AuthorizedReady = ''authorized_ready''"
| "account_state_text ExecutionUsable = ''execution_usable''"
| "account_state_text ReauthRequired = ''reauth_required''"
| "account_state_text RuntimeBroken = ''runtime_broken''"
| "account_state_text ManualInterventionNeeded = ''manual_intervention_needed''"
| "account_state_text AccountDisabled = ''disabled''"

fun warmup_status_text :: "warmup_status \<Rightarrow> string" where
  "warmup_status_text WDraft = ''draft''"
| "warmup_status_text WValidating = ''validating''"
| "warmup_status_text WScheduled = ''scheduled''"
| "warmup_status_text WColdSoak = ''cold_soak''"
| "warmup_status_text WActive = ''active''"
| "warmup_status_text WPausedRisk = ''paused_risk''"
| "warmup_status_text WPausedManual = ''paused_manual''"
| "warmup_status_text WCompleted = ''completed''"
| "warmup_status_text WFailed = ''failed''"

section \<open>Account tables\<close>

record account_runtime_state =
  rs_session_present :: bool
  rs_authorized_last_confirmed_at :: "time option"
  rs_runtime_health :: string
  rs_reauth_required :: bool
  rs_lock_owner :: "string option"
  rs_lock_epoch :: int
  rs_recovery_marker :: "string option"
  rs_updated_at :: time

record account_profile_state =
  ps_telegram_user_id :: "string option"
  ps_first_name :: "string option"
  ps_last_name :: "string option"
  ps_username :: "string option"
  ps_bio :: "string option"
  ps_profile_photo_asset_id :: "uuid option"
  ps_bio_hash :: "string option"
  ps_photo_perceptual_hash :: "string option"
  ps_synced_at :: time

record account_proxy =
  px_proxy_type :: string
  px_proxy_category :: string
  px_host :: string
  px_port :: int
  px_username :: "string option"
  px_password_encrypted :: "string option"
  px_status :: string
  px_last_checked_at :: "time option"
  px_last_check_scope :: "string option"
  px_last_error_code :: "string option"
  px_last_error_message :: "string option"
  px_tdlib_verified_at :: "time option"
  px_tdlib_last_error_code :: "string option"
  px_tdlib_last_error_message :: "string option"
  px_created_at :: time
  px_updated_at :: time

record account =
  acc_id :: uuid
  acc_workspace_id :: uuid
  acc_external_ref :: string
  acc_telegram_user_id :: "string option"
  acc_pinned_channel_ref :: "string option"
  acc_auth_source :: string
  acc_origin :: account_origin
  acc_account_state :: account_state
  acc_terminal_status :: terminal_status
  acc_lifecycle_state :: lifecycle_state
  acc_lifecycle_updated_at :: "time option"
  acc_safety_grace_period_until :: "time option"
  acc_created_at :: time
  acc_updated_at :: time
  acc_runtime_state :: "account_runtime_state option"
  acc_profile_state :: "account_profile_state option"
  acc_proxy :: "account_proxy option"

record account_lifecycle_event =
  le_id :: uuid
  le_workspace_id :: uuid
  le_account_id :: uuid
  le_event_type :: string
  le_actor_user_id :: "uuid option"
  le_request_id :: "uuid option"
  le_from_state :: "lifecycle_state option"
  le_to_state :: "lifecycle_state option"
  le_reason :: "string option"
  le_payload_json :: "(string, json) dict"
  le_occurred_at :: "time option"
  le_created_at :: time

record account_survival_metric =
  sm_id :: uuid
  sm_workspace_id :: uuid
  sm_account_id :: uuid
  sm_warmup_strategy_id :: "uuid option"
  sm_warmup_strategy_name :: "string option"
  sm_imported_at :: time
  sm_warmup_started_at :: "time option"
  sm_warmup_completed_at :: "time option"
  sm_first_freeze_at :: "time option"
  sm_freeze_count :: "int option"
  sm_flood_wait_count :: "int option"
  sm_banned_at :: "time option"
  sm_deleted_at :: "time option"
  sm_created_at :: time
  sm_updated_at :: time

section \<open>Workspace tables\<close>

record app_user =
  usr_id :: uuid
  usr_email :: string
  usr_display_name :: "string option"
  usr_external_auth_provider :: string
  usr_external_auth_user_id :: string
  usr_status :: string
  usr_created_at :: time
  usr_updated_at :: time
  usr_disabled_at :: "time option"

record workspace_member =
  mem_id :: uuid
  mem_workspace_id :: uuid
  mem_user_id :: uuid
  mem_role :: string
  mem_created_at :: time
  mem_updated_at :: time

record workspace_plan =
  pln_workspace_id :: uuid
  pln_plan_code :: string
  pln_billing_status :: string
  pln_max_accounts :: int
  pln_max_jobs_per_day :: int
  pln_max_batch_size :: int
  pln_max_storage_mb :: int
  pln_max_team_members :: int
  pln_created_at :: time
  pln_updated_at :: time

record workspace =
  ws_id :: uuid
  ws_name :: string
  ws_slug :: string
  ws_owner_user_id :: uuid
  ws_status :: string
  ws_safety_pipeline_v2_enabled :: bool
  ws_notification_webhook_url :: "string option"
  ws_created_at :: time
  ws_updated_at :: time

record workspace_safety_policy =
  pol_id :: "uuid option"
  pol_workspace_id :: uuid
  pol_mode :: safety_mode
  pol_delay_multiplier :: rat
  pol_typing_chars_per_minute_min :: "int option"
  pol_typing_chars_per_minute_max :: "int option"
  pol_profile_view_probability :: rat
  pol_scroll_probability :: rat
  pol_typo_probability :: rat
  pol_message_deletion_probability :: rat
  pol_quiet_hours_local_start :: "int option"
  pol_quiet_hours_local_end :: "int option"
  pol_require_warmup_before_commenting :: bool
  pol_min_warmup_days :: int
  pol_require_healthy_proxy :: bool
  pol_min_account_age_hours :: int
  pol_auto_pause_on_flood_wait_count :: int
  pol_auto_pause_on_deleted_comments_count :: int
  pol_quarantine_hours_on_flood_wait :: int
  pol_consecutive_failure_threshold :: "int option"
  pol_created_at :: time
  pol_updated_at :: time

section \<open>Safety tables\<close>

record account_quarantine =
  q_id :: uuid
  q_workspace_id :: uuid
  q_account_id :: uuid
  q_reason :: string
  q_started_at :: time
  q_until :: time
  q_released_at :: "time option"
  q_released_by_user_id :: "uuid option"
  q_metadata_json :: "(string, json) dict"

record account_status_observation =
  ob_id :: uuid
  ob_workspace_id :: uuid
  ob_account_id :: uuid
  ob_observed_at :: time
  ob_proxy_healthy :: bool
  ob_proxy_ip_hash :: "string option"
  ob_tdlib_authorized :: bool
  ob_device_model_hash :: "string option"
  ob_consecutive_failures :: int
  ob_auto_action_taken :: "auto_action option"
  ob_details_json :: "(string, json) dict"

record cross_module_load_bucket =
  lb_id :: uuid
  lb_workspace_id :: uuid
  lb_account_id :: uuid
  lb_bucket_start :: time
  lb_warmup_actions :: int
  lb_commenting_actions :: int
  lb_editing_actions :: int
  lb_other_actions :: int

text \<open>The computed column \<open>total_actions\<close>.\<close>

definition total_actions :: "cross_module_load_bucket \<Rightarrow> int" where
  "total_actions b =
     lb_warmup_actions b + lb_commenting_actions b + lb_editing_actions b + lb_other_actions b"

record account_ggr_score =
  ggr_id :: uuid
  ggr_workspace_id :: uuid
  ggr_account_id :: uuid
  ggr_score :: rat
  ggr_bucket_of :: ggr_bucket
  ggr_breakdown_json :: "(string, rat) dict"
  ggr_previous_score :: "rat option"
  ggr_next_calculation_at :: "time option"
  ggr_last_calculated_at :: "time option"
  ggr_created_at :: time
  ggr_updated_at :: time

record account_operation_cooldown =
  cd_id :: uuid
  cd_account_id :: uuid
  cd_operation :: string
  cd_level :: string
  cd_reason_code :: string
  cd_started_at :: time
  cd_retry_after_at :: time
  cd_source :: string
  cd_source_job_id :: "uuid option"
  cd_source_step_id :: "uuid option"
  cd_created_at :: time
  cd_updated_at :: time

section \<open>Warmup, job and commenting tables\<close>

record warmup_session =
  wu_id :: uuid
  wu_workspace_id :: uuid
  wu_account_id :: uuid
  wu_strategy_id :: uuid
  wu_status :: warmup_status
  wu_current_day :: int
  wu_cadence_hours :: int
  wu_next_step_at :: "time option"
  wu_last_step_at :: "time option"
  wu_started_at :: "time option"
  wu_paused_at :: "time option"
  wu_completed_at :: "time option"
  wu_next_attempt_at :: "time option"
  wu_flood_wait_count :: int
  wu_consecutive_failures :: int
  wu_worker_id :: "string option"
  wu_duration_days :: int
  wu_timezone :: "string option"
  wu_last_micro_session_at :: "time option"
  wu_next_micro_session_at :: "time option"
  wu_cold_soak_until :: "time option"
  wu_execution_mode :: execution_mode
  wu_daily_counters_json :: "(string, json) dict"
  wu_proxy_snapshot_json :: "(string, json) dict option"
  wu_personality_seed_json :: "(string, json) dict"
  wu_disabled_actions_json :: "string list"
  wu_lifecycle_state :: string
  wu_strategy_snapshot_json :: "(string, json) dict option"
  wu_cycle_config_json :: "(string, json) dict option"
  wu_created_at :: time
  wu_updated_at :: time

record warmup_event =
  we_id :: uuid
  we_workspace_id :: uuid
  we_session_id :: uuid
  we_event_type :: string
  we_severity :: string
  we_payload_json :: "(string, json) dict"
  we_created_at :: time

record warmup_strategy =
  wst_id :: uuid
  wst_workspace_id :: "uuid option"
  wst_name :: string
  wst_description :: "string option"
  wst_tier_limits_json :: "(string, json) dict"
  wst_target_channels_json :: "(string, json) dict list"
  wst_is_preset :: bool
  wst_execution_mode :: execution_mode
  wst_preset_kind :: string
  wst_duration_days :: int
  wst_daily_action_limits_json :: "(string, json) dict"
  wst_session_window_config_json :: "(string, json) dict"
  wst_ui_summary_json :: "(string, json) dict"

record warmup_task_run =
  tr_id :: uuid
  tr_workspace_id :: uuid
  tr_session_id :: uuid
  tr_day :: int
  tr_task_type :: string
  tr_status :: string
  tr_worker_id :: "string option"
  tr_metadata_json :: "(string, json) dict"
  tr_started_at :: time
  tr_completed_at :: "time option"

record pre_production_session =
  pp_id :: uuid
  pp_workspace_id :: uuid
  pp_account_id :: uuid
  pp_source_warmup_session_id :: "uuid option"
  pp_status :: pre_production_status
  pp_duration_hours :: int
  pp_started_at :: time
  pp_ends_at :: time
  pp_completed_at :: "time option"
  pp_failure_code :: "string option"
  pp_failure_message :: "string option"
  pp_task_plan_json :: "(string, json) dict"
  pp_task_result_json :: "(string, json) dict"
  pp_created_at :: time
  pp_updated_at :: time

record trusted_peer =
  tp_id :: uuid
  tp_workspace_id :: uuid
  tp_account_id :: uuid
  tp_eligible_from :: time
  tp_max_active_contacts :: int
  tp_current_contacts :: int
  tp_revoked_at :: "time option"
  tp_created_at :: time
  tp_updated_at :: time

record friend_link =
  fl_id :: uuid
  fl_workspace_id :: uuid
  fl_account_id :: uuid
  fl_friend_account_id :: uuid
  fl_created_at :: time
  fl_last_interaction_at :: "time option"

record isolation_claim =
  ic_account_id :: uuid
  ic_workspace_id :: uuid
  ic_held_by :: string
  ic_reason :: string
  ic_acquired_at :: time

record channel_state =
  cs_workspace_id :: uuid
  cs_account_id :: uuid
  cs_channel_ref :: string
  cs_subscribed_at :: "time option"
  cs_last_feed_read_at :: "time option"
  cs_last_story_view_at :: "time option"
  cs_last_react_at :: "time option"
  cs_last_browse_at :: "time option"
  cs_has_stories :: "bool option"
  cs_has_reactions :: "bool option"
  cs_available_reactions_json :: "string list"
  cs_health_score :: rat
  cs_success_count :: int
  cs_fail_count :: int
  cs_created_at :: time
  cs_updated_at :: time

record bootstrap_channel =
  bc_id :: uuid
  bc_channel_ref :: string
  bc_category :: string
  bc_language :: string
  bc_country :: "string option"
  bc_verified_safe_at :: "time option"
  bc_added_by :: "uuid option"
  bc_is_active :: bool
  bc_updated_at :: time

record job =
  job_id :: uuid
  job_workspace_id :: uuid
  job_account_id :: uuid
  job_job_state :: job_state
  job_queued_at :: "time option"
  job_started_at :: "time option"
  job_finished_at :: "time option"

record job_step_result =
  st_id :: uuid
  st_job_id :: uuid
  st_step_key :: string
  st_step_type :: string
  st_status :: step_status
  st_started_at :: "time option"
  st_finished_at :: "time option"
  st_error_code :: "string option"
  st_error_class :: "string option"

section \<open>Neuro-commenting tables\<close>

text \<open>
  The enumerations of \<open>neuro_commenting/enums.py\<close> the code branches on. The modes of a campaign,
  which are validated text and otherwise only stored, stay text. Columns that only the mapper writes
  (\<open>onupdate\<close>) or that no modelled operation reads or writes are left out.
\<close>

datatype campaign_status =
  CDraft | CReady | CRunning | CPaused | CStopping | CStopped | CCompleted | CFailed | CArchived

datatype campaign_account_status = CAActive | CAPaused | CACooldown | CAFailed | CAArchived

datatype target_status = TActive | TPaused | TNoDiscussion | TBlacklisted | TFailed | TArchived

datatype approval_status = APending | AApproved | ARejected | AEdited | AExpired

datatype safety_status = SPassed | SBlocked | SNeedsReview

datatype attempt_status =
  AtCreated | AtReserved | AtSending | AtSent | AtFailed | AtFloodWait | AtCancelled | AtSkipped

datatype observed_post_status = OpSeen | OpProcessing | OpGenerated | OpSkipped | OpFailed

record neuro_campaign =
  nc_id :: uuid
  nc_workspace_id :: uuid
  nc_name :: string
  nc_description :: "string option"
  nc_status :: campaign_status
  nc_mode :: string
  nc_work_mode :: string
  nc_approval_mode :: string
  nc_send_mode :: string
  nc_send_strategy :: string
  nc_rotation_strategy :: string
  nc_max_comments_total :: "int option"
  nc_max_comments_per_hour :: "int option"
  nc_max_comments_per_day :: "int option"
  nc_delay_min_seconds :: int
  nc_delay_max_seconds :: int
  nc_dry_run :: bool
  nc_auto_send_enabled :: bool
  nc_safety_enabled :: bool
  nc_safety_preset :: string
  nc_started_at :: "time option"
  nc_stopped_at :: "time option"
  nc_created_at :: time
  nc_updated_at :: time

record campaign_account =
  ca_id :: uuid
  ca_campaign_id :: uuid
  ca_account_id :: uuid
  ca_status :: campaign_account_status
  ca_rotation_weight :: int
  ca_rotation_order :: int
  ca_comments_sent :: int
  ca_comments_failed :: int
  ca_last_used_at :: "time option"
  ca_cooldown_until :: "time option"
  ca_last_error_code :: "string option"

record neuro_target =
  nt_id :: uuid
  nt_campaign_id :: uuid
  nt_channel_ref :: string
  nt_discussion_chat_id :: "string option"
  nt_status :: target_status
  nt_last_commented_at :: "time option"
  nt_health_score :: rat
  nt_success_count :: int
  nt_fail_count :: int
  nt_deleted_comment_count :: int
  nt_flood_wait_count :: int

record observed_post =
  op_id :: uuid
  op_campaign_id :: uuid
  op_target_id :: uuid
  op_discussion_chat_id :: "string option"
  op_discussion_message_id :: "string option"
  op_status :: observed_post_status

record generated_comment =
  gc_id :: uuid
  gc_campaign_id :: uuid
  gc_target_id :: "uuid option"
  gc_account_id :: "uuid option"
  gc_observed_post_id :: "uuid option"
  gc_generated_text :: string
  gc_edited_text :: "string option"
  gc_final_text :: "string option"
  gc_safety_status :: safety_status
  gc_approval_status :: approval_status
  gc_approved_by :: "uuid option"
  gc_approved_at :: "time option"
  gc_rejected_reason :: "string option"
  gc_created_at :: time
  gc_updated_at :: time

record comment_attempt =
  at_id :: uuid
  at_campaign_id :: uuid
  at_generated_comment_id :: uuid
  at_account_id :: "uuid option"
  at_target_id :: "uuid option"
  at_observed_post_id :: "uuid option"
  at_status :: attempt_status
  at_telegram_message_id :: "string option"
  at_error_code :: "string option"
  at_error_message :: "string option"
  at_flood_wait_seconds :: "int option"
  at_sent_at :: "time option"
  at_failed_at :: "time option"
  at_idempotency_key :: "uuid option"
  at_external_message_id_provisional :: "int option"

record neuro_comment_event =
  ne_id :: uuid
  ne_workspace_id :: uuid
  ne_campaign_id :: "uuid option"
  ne_account_id :: "uuid option"
  ne_target_id :: "uuid option"
  ne_observed_post_id :: "uuid option"
  ne_generated_comment_id :: "uuid option"
  ne_attempt_id :: "uuid option"
  ne_event_type :: string
  ne_event_level :: string
  ne_message :: string
  ne_data_json :: "(string, json) dict"
  ne_is_published :: bool
  ne_created_at :: time

record neuro_limit =
  nl_id :: uuid
  nl_campaign_id :: uuid
  nl_scope_type :: string
  nl_scope_id :: "string option"
  nl_limit_type :: string
  nl_max_value :: int
  nl_window_seconds :: int
  nl_enabled :: bool
  nl_created_at :: time
  nl_updated_at :: time

record account_stats =
  as_id :: uuid
  as_campaign_id :: uuid
  as_account_id :: uuid
  as_comments_sent :: int
  as_comments_failed :: int
  as_flood_wait_count :: int
  as_success_rate :: rat
  as_last_success_at :: "time option"
  as_last_failure_at :: "time option"

record channel_rule =
  cr_id :: uuid
  cr_workspace_id :: uuid
  cr_target_ref :: string
  cr_rule_type :: string
  cr_reason :: "string option"
  cr_created_by :: "uuid option"
  cr_created_at :: time

section \<open>Audit\<close>

record sensitive_audit_event =
  sa_id :: uuid
  sa_workspace_id :: uuid
  sa_actor_user_id :: "uuid option"
  sa_actor_type :: string
  sa_action :: string
  sa_entity_type :: string
  sa_entity_id :: "uuid option"
  sa_account_id :: "uuid option"
  sa_request_id :: "string option"
  sa_ip_hash :: "string option"
  sa_user_agent_hash :: "string option"
  sa_reason :: "string option"
  sa_override_reason :: "string option"
  sa_risk_level :: "string option"
  sa_risk_score :: "int option"
  sa_metadata_json :: json
  sa_created_at :: time

section \<open>Metrics\<close>

text \<open>
  The samples sent to \<open>safety_metrics\<close> by the operations on the database, in the order they are
  emitted: counters, histograms and gauges alike.
\<close>

datatype metric =
    M_quarantine_opened uuid string
  | M_quarantine_released uuid string string
  | M_account_total uuid nat
  | M_quarantine_active uuid string nat
  | M_ggr_score uuid ggr_bucket rat
  | M_weak_ggr_transition uuid "ggr_bucket option"
  | M_weak_ggr_accounts_total uuid nat
  | M_flood_wait uuid uuid
  | M_gate_blocked uuid gate_intent gate_reason_code
  | M_cold_call_throttled gate_intent
  | M_cross_module_overload uuid reason_severity

section \<open>The database\<close>

text \<open>
  \<open>db_next_id\<close> is the supply of \<open>new_id()\<close>. The clock is not part of the database: every operation takes the
  instant it runs at as an argument, where the code calls \<open>utc_now()\<close>.
\<close>

record db =
  db_users :: "app_user list"
  db_members :: "workspace_member list"
  db_plans :: "workspace_plan list"
  db_workspaces :: "workspace list"
  db_accounts :: "account list"
  db_policies :: "workspace_safety_policy list"
  db_quarantines :: "account_quarantine list"
  db_observations :: "account_status_observation list"
  db_load_buckets :: "cross_module_load_bucket list"
  db_ggr_scores :: "account_ggr_score list"
  db_cooldowns :: "account_operation_cooldown list"
  db_warmups :: "warmup_session list"
  db_warmup_events :: "warmup_event list"
  db_strategies :: "warmup_strategy list"
  db_task_runs :: "warmup_task_run list"
  db_pre_productions :: "pre_production_session list"
  db_trusted_peers :: "trusted_peer list"
  db_friend_links :: "friend_link list"
  db_isolation_claims :: "isolation_claim list"
  db_channel_states :: "channel_state list"
  db_bootstrap_channels :: "bootstrap_channel list"
  db_jobs :: "job list"
  db_steps :: "job_step_result list"
  db_campaigns :: "neuro_campaign list"
  db_campaign_accounts :: "campaign_account list"
  db_targets :: "neuro_target list"
  db_observed_posts :: "observed_post list"
  db_comments :: "generated_comment list"
  db_attempts :: "comment_attempt list"
  db_neuro_events :: "neuro_comment_event list"
  db_limits :: "neuro_limit list"
  db_account_stats :: "account_stats list"
  db_channel_rules :: "channel_rule list"
  db_lifecycle_events :: "account_lifecycle_event list"
  db_survival_metrics :: "account_survival_metric list"
  db_audit_events :: "sensitive_audit_event list"
  db_metrics :: "metric list"
  db_next_id :: uuid

definition emit :: "metric \<Rightarrow> db \<Rightarrow> db" where
  "emit m s = s\<lparr>db_metrics := db_metrics s @ [m]\<rparr>"

definition new_id :: "db \<Rightarrow> uuid \<times> db" where
  "new_id s = (db_next_id s, s\<lparr>db_next_id := Suc (db_next_id s)\<rparr>)"

text \<open>The database before the first request.\<close>

definition empty_db :: db where
  "empty_db =
     \<lparr>db_users = [], db_members = [], db_plans = [], db_workspaces = [], db_accounts = [],
      db_policies = [], db_quarantines = [], db_observations = [], db_load_buckets = [],
      db_ggr_scores = [], db_cooldowns = [], db_warmups = [], db_warmup_events = [], db_strategies = [],
      db_task_runs = [], db_pre_productions = [], db_trusted_peers = [], db_friend_links = [],
      db_isolation_claims = [], db_channel_states = [], db_bootstrap_channels = [], db_jobs = [],
      db_steps = [], db_campaigns = [], db_campaign_accounts = [],
      db_targets = [], db_observed_posts = [], db_comments = [], db_attempts = [], db_neuro_events = [],
      db_limits = [], db_account_stats = [], db_channel_rules = [],
      db_lifecycle_events = [], db_survival_metrics = [], db_audit_events = [], db_metrics = [],
      db_next_id = 1\<rparr>"

text \<open>An account as the import leaves it, with neither runtime, profile nor proxy row.\<close>

definition imported_account :: "uuid \<Rightarrow> uuid \<Rightarrow> time \<Rightarrow> account" where
  "imported_account a w now =
     \<lparr>acc_id = a, acc_workspace_id = w, acc_external_ref = ''ref'', acc_telegram_user_id = None,
      acc_pinned_channel_ref = None, acc_auth_source = ''session'', acc_origin = OriginImported,
      acc_account_state = Registered, acc_terminal_status = TermNone,
      acc_lifecycle_state = LImported, acc_lifecycle_updated_at = None,
      acc_safety_grace_period_until = None, acc_created_at = now, acc_updated_at = now,
      acc_runtime_state = None, acc_profile_state = None, acc_proxy = None\<rparr>"

end
