(* ===== verification/Lifecycle.thy ===== *)
theory Lifecycle
  imports SecretRedaction
begin

text \<open>
  The account lifecycle: \<open>account_lifecycle/transitions.py\<close> (the transition table) and
  \<open>account_lifecycle/state_machine.py\<close> (\<open>advance\<close>). The states are \<open>lifecycle_state\<close>;
  \<open>InvalidTransitionError\<close> is an error value. An \<open>Account\<close> object is a row of the account
  table, found again by its identifier.
\<close>

section \<open>The transition table\<close>

fun ALLOWED_TRANSITIONS :: "lifecycle_state \<Rightarrow> lifecycle_state list" where
  "ALLOWED_TRANSITIONS LImported = [LColdSoak]"
| "ALLOWED_TRANSITIONS LColdSoak = [LWarming, LRetired, LBanned, LDeleted]"
| "ALLOWED_TRANSITIONS LWarming = [LPreProduction, LColdSoak]"
| "ALLOWED_TRANSITIONS LPreProduction = [LActive, LColdSoak]"
| "ALLOWED_TRANSITIONS LActive = [LIdle, LColdSoak, LRetired]"
| "ALLOWED_TRANSITIONS LIdle = [LActive, LRetired]"
| "ALLOWED_TRANSITIONS LRetired = []"
| "ALLOWED_TRANSITIONS LBanned = []"
| "ALLOWED_TRANSITIONS LDeleted = []"

definition MANUAL_ONLY_DESTINATIONS :: "lifecycle_state list" where
  "MANUAL_ONLY_DESTINATIONS = [LRetired, LBanned, LDeleted]"

definition MANUAL_ONLY_TRANSITIONS :: "(lifecycle_state \<times> lifecycle_state) list" where
  "MANUAL_ONLY_TRANSITIONS = [(LWarming, LColdSoak)]"

definition is_transition_allowed :: "lifecycle_state \<Rightarrow> lifecycle_state \<Rightarrow> bool \<Rightarrow> bool" where
  "is_transition_allowed source target manual =
     (if target \<notin> set (ALLOWED_TRANSITIONS source) then False
      else if \<not> manual \<and> target \<in> set MANUAL_ONLY_DESTINATIONS then False
      else manual \<or> (source, target) \<notin> set MANUAL_ONLY_TRANSITIONS)"

section \<open>Advancing an account\<close>

definition TRANSITION_EVENT_TYPE :: string where
  "TRANSITION_EVENT_TYPE = ''account.lifecycle.transition''"

definition advance ::
  "account \<Rightarrow> lifecycle_state \<Rightarrow> time \<Rightarrow> string \<Rightarrow> uuid option \<Rightarrow> bool \<Rightarrow> (string, json) dict \<Rightarrow>
   db \<Rightarrow> account_lifecycle_event option result \<times> db" where
  "advance a target now reason actor manual metadata s =
     (let source = acc_lifecycle_state a in
      if source = target then (Inr None, s)
      else if \<not> is_transition_allowed source target manual then (Inl InvalidTransition, s)
      else
        let s1 = s\<lparr>db_accounts := update_where (\<lambda>r. acc_id r = acc_id a)
                     (\<lambda>r. r\<lparr>acc_lifecycle_state := target, acc_lifecycle_updated_at := Some now\<rparr>)
                     (db_accounts s)\<rparr>;
            (i, s2) = new_id s1;
            event = \<lparr>le_id = i, le_workspace_id = acc_workspace_id a, le_account_id = acc_id a,
                     le_event_type = TRANSITION_EVENT_TYPE, le_actor_user_id = actor,
                     le_request_id = None, le_from_state = Some source, le_to_state = Some target,
                     le_reason = Some reason, le_payload_json = redact_dict metadata,
                     le_occurred_at = Some now, le_created_at = now\<rparr>
        in (Inr (Some event), s2\<lparr>db_lifecycle_events := db_lifecycle_events s2 @ [event]\<rparr>))"

definition account_by_id :: "db \<Rightarrow> uuid \<Rightarrow> account option" where
  "account_by_id s a = find (\<lambda>r. acc_id r = a) (db_accounts s)"

section \<open>The table\<close>

lemmas transition_defs =
  is_transition_allowed_def MANUAL_ONLY_DESTINATIONS_def MANUAL_ONLY_TRANSITIONS_def

lemma automatic_is_manual: "is_transition_allowed x y False \<Longrightarrow> is_transition_allowed x y True"
  by (auto simp: transition_defs split: if_splits)

lemma allowed_irreflexive: "\<not> is_transition_allowed x x m"
  by (cases x) (simp_all add: transition_defs)

definition terminal_state :: "lifecycle_state \<Rightarrow> bool" where
  "terminal_state x \<longleftrightarrow> x = LRetired \<or> x = LBanned \<or> x = LDeleted"

lemma terminal_absorbing: "terminal_state x \<Longrightarrow> \<not> is_transition_allowed x y m"
  by (auto simp: terminal_state_def transition_defs)

lemma automatic_not_terminal: "is_transition_allowed x y False \<Longrightarrow> \<not> terminal_state y"
  by (auto simp: terminal_state_def transition_defs split: if_splits)

lemma active_to_cold_soak [simp]: "is_transition_allowed LActive LColdSoak False"
  by (simp add: transition_defs)

section \<open>The effect of an advance\<close>

text \<open>An advance that succeeds, as a relation between the account, the event and the states.\<close>

definition moved :: "lifecycle_state \<Rightarrow> time \<Rightarrow> account \<Rightarrow> account" where
  "moved target now r = r\<lparr>acc_lifecycle_state := target, acc_lifecycle_updated_at := Some now\<rparr>"

lemma moved_simps [simp]:
  "acc_id (moved t now r) = acc_id r"
  "acc_workspace_id (moved t now r) = acc_workspace_id r"
  "acc_lifecycle_state (moved t now r) = t"
  "acc_terminal_status (moved t now r) = acc_terminal_status r"
  by (simp_all add: moved_def)

lemma advance_unchanged:
  "acc_lifecycle_state a = t \<Longrightarrow> advance a t now reason actor m md s = (Inr None, s)"
  "acc_lifecycle_state a \<noteq> t \<Longrightarrow> \<not> is_transition_allowed (acc_lifecycle_state a) t m \<Longrightarrow>
   advance a t now reason actor m md s = (Inl InvalidTransition, s)"
  by (simp_all add: advance_def)

lemma advance_moves:
  assumes "is_transition_allowed (acc_lifecycle_state a) t m"
  shows "\<exists>e. advance a t now reason actor m md s =
      (Inr (Some e), s\<lparr>db_accounts := update_where (\<lambda>r. acc_id r = acc_id a) (moved t now) (db_accounts s),
                     db_next_id := Suc (db_next_id s),
                     db_lifecycle_events := db_lifecycle_events s @ [e]\<rparr>) \<and>
    le_id e = db_next_id s \<and> le_workspace_id e = acc_workspace_id a \<and> le_account_id e = acc_id a \<and>
    le_event_type e = TRANSITION_EVENT_TYPE \<and>
    le_from_state e = Some (acc_lifecycle_state a) \<and> le_to_state e = Some t \<and>
    le_reason e = Some reason \<and> le_occurred_at e = Some now \<and> le_payload_json e = redact_dict md"
proof -
  have "acc_lifecycle_state a \<noteq> t" using assms allowed_irreflexive by auto
  moreover have "moved t now = (\<lambda>r. r\<lparr>acc_lifecycle_state := t, acc_lifecycle_updated_at := Some now\<rparr>)"
    by (simp add: moved_def fun_eq_iff)
  ultimately show ?thesis
    using assms by (simp add: advance_def Let_def new_id_def)
qed

text \<open>Everything an advance can do, for the callers that only need to know what it keeps.\<close>

lemma advance_cases:
  obtains (same) "snd (advance a t now reason actor m md s) = s"
  | (step) e where "is_transition_allowed (acc_lifecycle_state a) t m"
      and "snd (advance a t now reason actor m md s) =
        s\<lparr>db_accounts := update_where (\<lambda>r. acc_id r = acc_id a) (moved t now) (db_accounts s),
          db_next_id := Suc (db_next_id s), db_lifecycle_events := db_lifecycle_events s @ [e]\<rparr>"
      and "le_account_id e = acc_id a" and "le_event_type e = TRANSITION_EVENT_TYPE"
      and "le_from_state e = Some (acc_lifecycle_state a)" and "le_to_state e = Some t"
proof (cases "is_transition_allowed (acc_lifecycle_state a) t m")
  case True
  show ?thesis using advance_moves [OF True, of now reason actor md s] step [OF True] by fastforce
next
  case False
  show ?thesis
    using advance_unchanged [of a t] False same
    by (cases "acc_lifecycle_state a = t") auto
qed

section \<open>The audit trail\<close>

text \<open>
  Replaying the transition events of one account from a state: every event must start where the
  previous one ended and be allowed by the table.
\<close>

fun replay :: "lifecycle_state \<Rightarrow> account_lifecycle_event list \<Rightarrow> lifecycle_state option" where
  "replay x [] = Some x"
| "replay x (e # es) =
     (case le_to_state e of
        None \<Rightarrow> None
      | Some y \<Rightarrow> if le_from_state e = Some x \<and> is_transition_allowed x y True then replay y es else None)"

definition transitions_of :: "db \<Rightarrow> uuid \<Rightarrow> account_lifecycle_event list" where
  "transitions_of s a =
     filter (\<lambda>e. le_account_id e = a \<and> le_event_type e = TRANSITION_EVENT_TYPE) (db_lifecycle_events s)"

definition trail_ok :: "db \<Rightarrow> bool" where
  "trail_ok s \<longleftrightarrow>
     (\<forall>a\<in>set (db_accounts s). replay LImported (transitions_of s (acc_id a)) = Some (acc_lifecycle_state a))"

lemma replay_append:
  "replay x (es @ fs) = (case replay x es of None \<Rightarrow> None | Some y \<Rightarrow> replay y fs)"
  by (induction es arbitrary: x) (auto split: option.split)

lemma transitions_of_snoc:
  "le_event_type e = TRANSITION_EVENT_TYPE \<Longrightarrow>
   transitions_of (s\<lparr>db_lifecycle_events := db_lifecycle_events s @ [e]\<rparr>) a =
     transitions_of s a @ (if le_account_id e = a then [e] else [])"
  by (simp add: transitions_of_def)

lemma trail_ok_advance:
  assumes ok: "trail_ok s" and a: "a \<in> set (db_accounts s)"
  shows "trail_ok (snd (advance a t now reason actor m md s))"
proof (cases rule: advance_cases [of a t now reason actor m md s])
  case same
  with ok show ?thesis by simp
next
  case (step e)
  have "is_transition_allowed (acc_lifecycle_state a) t True"
    using step(1) automatic_is_manual by (cases m) auto
  moreover have "replay LImported (transitions_of s (acc_id a)) = Some (acc_lifecycle_state a)"
    using ok a by (simp add: trail_ok_def)
  ultimately have "replay LImported (transitions_of s (acc_id a) @ [e]) = Some t"
    using step by (simp add: replay_append)
  note replayed = this
  let ?s = "snd (advance a t now reason actor m md s)"
  have trail: "transitions_of ?s i = transitions_of s i @ (if i = acc_id a then [e] else [])" for i
    using step by (simp add: transitions_of_def)
  show ?thesis
    unfolding trail_ok_def
  proof
    fix r assume "r \<in> set (db_accounts ?s)"
    then obtain x where x: "x \<in> set (db_accounts s)" "r = (if acc_id x = acc_id a then moved t now x else x)"
      using step by (auto simp: in_set_update_where)
    then show "replay LImported (transitions_of ?s (acc_id r)) = Some (acc_lifecycle_state r)"
      using ok replayed by (auto simp: trail trail_ok_def)
  qed
qed

section \<open>Properties\<close>

text \<open>
  \<open>advance\<close> on every branch: a move to the current state does nothing and returns no event; a
  move the table forbids (given whether it is manual) raises and changes nothing; an allowed move
  rewrites the state and time of exactly that account and appends exactly one event, from the old
  state to the new one, with redacted metadata. Automatic moves never retire, ban or delete an
  account, and nothing leaves these three states.
\<close>

theorem advance_spec:
  fixes a :: account and s :: db
  defines "src \<equiv> acc_lifecycle_state a"
  shows "(if src = t then advance a t now reason actor m md s = (Inr None, s)
    else if is_transition_allowed src t m
    then \<not> terminal_state src \<and> (m \<or> \<not> terminal_state t) \<and>
      (\<exists>e. advance a t now reason actor m md s =
        (Inr (Some e), s\<lparr>db_accounts := update_where (\<lambda>r. acc_id r = acc_id a) (moved t now) (db_accounts s),
                       db_next_id := Suc (db_next_id s),
                       db_lifecycle_events := db_lifecycle_events s @ [e]\<rparr>) \<and>
        le_account_id e = acc_id a \<and> le_from_state e = Some src \<and> le_to_state e = Some t \<and>
        le_payload_json e = redact_dict md)
    else advance a t now reason actor m md s = (Inl InvalidTransition, s))"
proof (cases "is_transition_allowed src t m")
  case True
  then have "\<not> terminal_state src" by (auto dest: terminal_absorbing)
  moreover have "m \<or> \<not> terminal_state t"
    using True automatic_not_terminal [of src t] by (cases m) simp_all
  moreover have "src \<noteq> t" using True allowed_irreflexive [of t m] by auto
  moreover note True advance_moves [OF True [unfolded src_def], of now reason actor md s]
  ultimately show ?thesis
    by (simp add: src_def) blast
next
  case False
  then show ?thesis
    by (simp add: advance_unchanged src_def)
qed

theorem advance_spec_witness:
  "\<exists>e. fst (advance (imported_account 1 7 0) LColdSoak 5 ''soak'' None False [] empty_db) = Inr (Some e) \<and>
     le_from_state e = Some LImported \<and> le_to_state e = Some LColdSoak"
proof -
  have "acc_lifecycle_state (imported_account 1 7 0) = LImported" by (simp add: imported_account_def)
  moreover have "is_transition_allowed LImported LColdSoak False" by (simp add: transition_defs)
  ultimately show ?thesis
    using advance_spec [of "imported_account 1 7 0" LColdSoak 5 "''soak''" None False "[]" empty_db]
    by auto
qed

inductive lifecycle_reachable :: "db \<Rightarrow> bool" where
  fresh: "\<lbrakk>\<forall>a\<in>set (db_accounts s). acc_lifecycle_state a = LImported; db_lifecycle_events s = []\<rbrakk> \<Longrightarrow>
     lifecycle_reachable s"
| advanced: "\<lbrakk>lifecycle_reachable s; a \<in> set (db_accounts s)\<rbrakk> \<Longrightarrow>
     lifecycle_reachable (snd (advance a t now reason actor m md s))"

text \<open>
  C29. The audit trail is complete and truthful: after any sequence of \<open>advance\<close> calls, accepted
  or refused, manual or automatic, replaying the recorded transition events of an account from
  \<open>imported\<close> goes through legal transitions only and ends in its current state.
\<close>

theorem lifecycle_trail_replays:
  "lifecycle_reachable s \<Longrightarrow> a \<in> set (db_accounts s) \<Longrightarrow>
   replay LImported (transitions_of s (acc_id a)) = Some (acc_lifecycle_state a)"
proof -
  have "lifecycle_reachable s \<Longrightarrow> trail_ok s"
  proof (induction rule: lifecycle_reachable.induct)
    case (fresh s)
    then show ?case by (simp add: trail_ok_def transitions_of_def)
  next
    case (advanced s a t now reason actor m md)
    then show ?case by (intro trail_ok_advance)
  qed
  then show "lifecycle_reachable s \<Longrightarrow> a \<in> set (db_accounts s) \<Longrightarrow> ?thesis"
    by (simp add: trail_ok_def)
qed

definition one_account_db :: db where
  "one_account_db = empty_db\<lparr>db_accounts := [imported_account 1 7 0]\<rparr>"

theorem lifecycle_trail_replays_witness:
  "replay LImported (transitions_of
     (snd (advance (imported_account 1 7 0) LColdSoak 5 ''soak'' None False [] one_account_db)) 1) = Some LColdSoak"
proof -
  let ?s = "snd (advance (imported_account 1 7 0) LColdSoak 5 ''soak'' None False [] one_account_db)"
  have acc: "moved LColdSoak 5 (imported_account 1 7 0) \<in> set (db_accounts ?s)"
    by (simp add: advance_def one_account_db_def imported_account_def moved_def transition_defs new_id_def Let_def)
  have "lifecycle_reachable one_account_db"
    by (rule fresh) (simp_all add: one_account_db_def imported_account_def empty_db_def)
  then have "lifecycle_reachable ?s"
    by (rule advanced) (simp add: one_account_db_def)
  from lifecycle_trail_replays [OF this acc] show ?thesis by (simp add: imported_account_def)
qed

end
