(* ===== verification/Survival.thy ===== *)
theory Survival
  imports Lifecycle
begin

text \<open>
  Account survival metrics: \<open>account_survival/repository.py\<close> and the hooks of
  \<open>account_survival/events.py\<close>. A row that has not been flushed has no \<open>freeze_count\<close> and no
  \<open>flood_wait_count\<close> yet (the column default \<open>0\<close> is applied by the flush): adding to it raises
  \<open>TypeError\<close>, after the assignments before it have been made. The query of \<open>get_metric\<close> flushes
  pending rows first. The hooks swallow every exception but keep what was written before it.
\<close>

section \<open>The repository\<close>

definition flush_metric :: "account_survival_metric \<Rightarrow> account_survival_metric" where
  "flush_metric m =
     m\<lparr>sm_freeze_count := Some (case sm_freeze_count m of None \<Rightarrow> 0 | Some n \<Rightarrow> n),
       sm_flood_wait_count := Some (case sm_flood_wait_count m of None \<Rightarrow> 0 | Some n \<Rightarrow> n)\<rparr>"

definition flush_metrics :: "db \<Rightarrow> db" where
  "flush_metrics s = s\<lparr>db_survival_metrics := map flush_metric (db_survival_metrics s)\<rparr>"

definition metric_key :: "uuid \<Rightarrow> uuid \<Rightarrow> account_survival_metric \<Rightarrow> bool" where
  "metric_key w a m \<longleftrightarrow> sm_workspace_id m = w \<and> sm_account_id m = a"

definition get_metric :: "uuid \<Rightarrow> uuid \<Rightarrow> db \<Rightarrow> account_survival_metric option \<times> db" where
  "get_metric w a s =
     (let s' = flush_metrics s in (find (metric_key w a) (db_survival_metrics s'), s'))"

definition new_metric :: "uuid \<Rightarrow> uuid \<Rightarrow> uuid \<Rightarrow> time \<Rightarrow> time \<Rightarrow> account_survival_metric" where
  "new_metric i w a imported_at now =
     \<lparr>sm_id = i, sm_workspace_id = w, sm_account_id = a, sm_warmup_strategy_id = None,
      sm_warmup_strategy_name = None, sm_imported_at = imported_at, sm_warmup_started_at = None,
      sm_warmup_completed_at = None, sm_first_freeze_at = None, sm_freeze_count = None,
      sm_flood_wait_count = None, sm_banned_at = None, sm_deleted_at = None,
      sm_created_at = now, sm_updated_at = now\<rparr>"

definition ensure_metric ::
  "uuid \<Rightarrow> uuid \<Rightarrow> time \<Rightarrow> time \<Rightarrow> db \<Rightarrow> account_survival_metric \<times> db" where
  "ensure_metric w a imported_at now s =
     (case get_metric w a s of
        (Some row, s1) \<Rightarrow> (row, s1)
      | (None, s1) \<Rightarrow>
          let (i, s2) = new_id s1; row = new_metric i w a imported_at now
          in (row, s2\<lparr>db_survival_metrics := db_survival_metrics s2 @ [row]\<rparr>))"

definition list_metrics :: "uuid \<Rightarrow> db \<Rightarrow> account_survival_metric list" where
  "list_metrics w s =
     sort_key sm_imported_at
       (filter (\<lambda>m. sm_workspace_id m = w) (db_survival_metrics (flush_metrics s)))"

text \<open>Writing the attributes of the row object.\<close>

definition save_metric :: "uuid \<Rightarrow> uuid \<Rightarrow> account_survival_metric \<Rightarrow> db \<Rightarrow> db" where
  "save_metric w a row s =
     s\<lparr>db_survival_metrics := update_where (metric_key w a) (\<lambda>_. row) (db_survival_metrics s)\<rparr>"

definition first_time :: "time \<Rightarrow> time option \<Rightarrow> time option" where
  "first_time now t = (case t of None \<Rightarrow> Some now | Some u \<Rightarrow> Some u)"

definition mark_warmup_started ::
  "uuid \<Rightarrow> uuid \<Rightarrow> time \<Rightarrow> uuid option \<Rightarrow> string option \<Rightarrow> db \<Rightarrow> unit result \<times> db" where
  "mark_warmup_started w a now strategy_id strategy_name s =
     (let (row, s1) = ensure_metric w a now now s;
          row1 = row\<lparr>sm_warmup_started_at := first_time now (sm_warmup_started_at row),
                    sm_warmup_strategy_id :=
                      (case sm_warmup_strategy_id row of None \<Rightarrow> strategy_id | x \<Rightarrow> x),
                    sm_warmup_strategy_name :=
                      (case sm_warmup_strategy_name row of None \<Rightarrow> strategy_name | x \<Rightarrow> x),
                    sm_updated_at := now\<rparr>
      in (Inr (), save_metric w a row1 s1))"

definition mark_warmup_completed :: "uuid \<Rightarrow> uuid \<Rightarrow> time \<Rightarrow> db \<Rightarrow> unit result \<times> db" where
  "mark_warmup_completed w a now s =
     (let (row, s1) = ensure_metric w a now now s;
          row1 = row\<lparr>sm_warmup_completed_at := first_time now (sm_warmup_completed_at row),
                    sm_updated_at := now\<rparr>
      in (Inr (), save_metric w a row1 s1))"

definition mark_freeze :: "uuid \<Rightarrow> uuid \<Rightarrow> time \<Rightarrow> db \<Rightarrow> unit result \<times> db" where
  "mark_freeze w a now s =
     (let (row, s1) = ensure_metric w a now now s;
          row1 = row\<lparr>sm_first_freeze_at := first_time now (sm_first_freeze_at row)\<rparr>
      in case sm_freeze_count row1 of
        None \<Rightarrow> (Inl (TypeError ''unsupported operand''), save_metric w a row1 s1)
      | Some n \<Rightarrow>
          (Inr (), save_metric w a (row1\<lparr>sm_freeze_count := Some (n + 1), sm_updated_at := now\<rparr>) s1))"

definition mark_terminal :: "uuid \<Rightarrow> uuid \<Rightarrow> string \<Rightarrow> time \<Rightarrow> db \<Rightarrow> unit result \<times> db" where
  "mark_terminal w a terminal_status now s =
     (let (row, s1) = ensure_metric w a now now s;
          row1 = (if terminal_status = ''banned''
                  then row\<lparr>sm_banned_at := first_time now (sm_banned_at row)\<rparr> else row);
          row2 = (if terminal_status = ''deleted''
                  then row1\<lparr>sm_deleted_at := first_time now (sm_deleted_at row1)\<rparr> else row1)
      in (Inr (), save_metric w a (row2\<lparr>sm_updated_at := now\<rparr>) s1))"

definition increment_flood_wait :: "uuid \<Rightarrow> uuid \<Rightarrow> time \<Rightarrow> db \<Rightarrow> unit result \<times> db" where
  "increment_flood_wait w a now s =
     (let (row, s1) = ensure_metric w a now now s
      in case sm_flood_wait_count row of
        None \<Rightarrow> (Inl (TypeError ''unsupported operand''), s1)
      | Some n \<Rightarrow>
          (Inr (), save_metric w a (row\<lparr>sm_flood_wait_count := Some (n + 1), sm_updated_at := now\<rparr>) s1))"

section \<open>The hooks\<close>

definition safe_hook :: "(db \<Rightarrow> 'a result \<times> db) \<Rightarrow> db \<Rightarrow> db" where
  "safe_hook f s = snd (f s)"

definition on_account_imported :: "uuid \<Rightarrow> uuid \<Rightarrow> time \<Rightarrow> db \<Rightarrow> db" where
  "on_account_imported a w now = safe_hook (\<lambda>s. let (row, s') = ensure_metric w a now now s in (Inr row, s'))"

definition on_warmup_started ::
  "uuid \<Rightarrow> uuid \<Rightarrow> time \<Rightarrow> uuid option \<Rightarrow> string option \<Rightarrow> db \<Rightarrow> db" where
  "on_warmup_started a w now strategy_id strategy_name =
     safe_hook (mark_warmup_started w a now strategy_id strategy_name)"

definition on_warmup_completed :: "uuid \<Rightarrow> uuid \<Rightarrow> time \<Rightarrow> db \<Rightarrow> db" where
  "on_warmup_completed a w now = safe_hook (mark_warmup_completed w a now)"

definition on_account_frozen :: "uuid \<Rightarrow> uuid \<Rightarrow> time \<Rightarrow> db \<Rightarrow> db" where
  "on_account_frozen a w now = safe_hook (mark_freeze w a now)"

definition on_account_terminal :: "uuid \<Rightarrow> uuid \<Rightarrow> string \<Rightarrow> time \<Rightarrow> db \<Rightarrow> db" where
  "on_account_terminal a w terminal_status now = safe_hook (mark_terminal w a terminal_status now)"

definition on_flood_wait :: "uuid \<Rightarrow> uuid \<Rightarrow> time \<Rightarrow> db \<Rightarrow> db" where
  "on_flood_wait a w now = safe_hook (increment_flood_wait w a now)"

lemmas metric_op_defs =
  mark_warmup_started_def mark_warmup_completed_def mark_freeze_def mark_terminal_def
  increment_flood_wait_def

lemmas hook_defs =
  on_account_imported_def on_warmup_started_def on_warmup_completed_def on_account_frozen_def
  on_account_terminal_def on_flood_wait_def safe_hook_def

section \<open>One row per account\<close>

definition find_metric :: "db \<Rightarrow> uuid \<Rightarrow> uuid \<Rightarrow> account_survival_metric option" where
  "find_metric s w a = map_option flush_metric (find (metric_key w a) (db_survival_metrics s))"

lemma metric_key_flush [simp]: "metric_key w a (flush_metric m) = metric_key w a m"
  by (simp add: metric_key_def flush_metric_def)

lemma flush_metric_idem [simp]: "flush_metric (flush_metric m) = flush_metric m"
  by (simp add: flush_metric_def)

lemma find_map_inv: "(\<And>x. P (f x) = P x) \<Longrightarrow> find P (map f xs) = map_option f (find P xs)"
  by (induction xs) auto

lemma get_metric_found: "fst (get_metric w a s) = find_metric s w a"
  by (simp add: get_metric_def flush_metrics_def find_metric_def find_map_inv)

lemma find_metric_flush [simp]: "find_metric (flush_metrics s) w a = find_metric s w a"
  by (simp add: find_metric_def flush_metrics_def find_map_inv option.map_comp comp_def)

lemma find_metric_save:
  assumes "metric_key w a row"
  shows "find_metric (save_metric w a row s) w' a' =
    (if w' = w \<and> a' = a then map_option (\<lambda>_. flush_metric row) (find_metric s w a)
     else find_metric s w' a')"
proof -
  have "map_option flush_metric (find (metric_key w' a') (update_where (metric_key w a) (\<lambda>_. row) xs)) =
    (if w' = w \<and> a' = a then map_option (\<lambda>_. flush_metric row) (find (metric_key w a) xs)
     else map_option flush_metric (find (metric_key w' a') xs))" for xs
    using assms by (induction xs) (auto simp: metric_key_def)
  then show ?thesis
    by (simp add: find_metric_def save_metric_def option.map_comp comp_def)
qed

lemma find_metric_key: "find_metric s w a = Some m \<Longrightarrow> metric_key w a m \<and> flush_metric m = m"
  by (auto simp: find_metric_def dest!: find_mem)

text \<open>What \<open>ensure_metric\<close> returns and leaves: the flushed row, or a new row whose counters are unset.\<close>

lemma ensure_metric_found:
  assumes "find_metric s w a = Some m"
  shows "ensure_metric w a i now s = (m, flush_metrics s)"
  using assms get_metric_found [of w a s]
  by (auto simp: ensure_metric_def get_metric_def Let_def split: option.splits)

lemma find_metric_pending:
  assumes "find_metric s w a = None" and "metric_key w a row"
  shows "find_metric (s\<lparr>db_next_id := n, db_survival_metrics := map flush_metric (db_survival_metrics s) @ [row]\<rparr>) w' a' =
    (if w' = w \<and> a' = a then Some (flush_metric row) else find_metric s w' a')"
proof -
  have "metric_key w' a' row = (w' = w \<and> a' = a)" for w' a'
    using assms(2) by (auto simp: metric_key_def)
  then show ?thesis
    using assms(1) by (auto simp: find_metric_def find_append find_map_inv split: option.splits)
qed

lemma ensure_metric_new:
  assumes "find_metric s w a = None"
  shows "\<exists>i s'. ensure_metric w a imp now s = (new_metric i w a imp now, s') \<and>
    find_metric s' w a = Some (flush_metric (new_metric i w a imp now)) \<and>
    (\<forall>w' a'. (w', a') \<noteq> (w, a) \<longrightarrow> find_metric s' w' a' = find_metric s w' a')"
proof -
  have "fst (get_metric w a s) = None" using assms by (simp add: get_metric_found)
  then have "ensure_metric w a imp now s =
      (new_metric (db_next_id s) w a imp now,
       s\<lparr>db_next_id := Suc (db_next_id s),
         db_survival_metrics := map flush_metric (db_survival_metrics s) @ [new_metric (db_next_id s) w a imp now]\<rparr>)"
    by (auto simp: ensure_metric_def get_metric_def Let_def new_id_def flush_metrics_def split: option.splits)
  then show ?thesis
    using find_metric_pending [OF assms, of "new_metric (db_next_id s) w a imp now"]
    by (auto simp: metric_key_def new_metric_def)
qed

section \<open>Counting freezes\<close>

definition freeze_row :: "time \<Rightarrow> account_survival_metric \<Rightarrow> account_survival_metric" where
  "freeze_row now m =
     m\<lparr>sm_first_freeze_at := first_time now (sm_first_freeze_at m),
       sm_freeze_count := map_option (\<lambda>n. n + 1) (sm_freeze_count m), sm_updated_at := now\<rparr>"

lemma metric_key_freeze [simp]: "metric_key w a (freeze_row now m) = metric_key w a m"
  by (simp add: metric_key_def freeze_row_def)

lemma flushed_counts:
  assumes "flush_metric m = m"
  obtains n k where "sm_freeze_count m = Some n" and "sm_flood_wait_count m = Some k"
proof -
  have "\<exists>n. sm_freeze_count (flush_metric m) = Some n" "\<exists>k. sm_flood_wait_count (flush_metric m) = Some k"
    by (simp_all add: flush_metric_def)
  with assms that show thesis by auto
qed

lemma flush_metric_id:
  "sm_freeze_count m = Some n \<Longrightarrow> sm_flood_wait_count m = Some k \<Longrightarrow> flush_metric m = m"
  by (cases m) (simp add: flush_metric_def)

lemma flush_freeze: "flush_metric m = m \<Longrightarrow> flush_metric (freeze_row now m) = freeze_row now m"
  by (erule flushed_counts) (rule flush_metric_id, simp_all add: freeze_row_def)

lemma frozen_found:
  assumes "find_metric s w a = Some m"
  shows "find_metric (on_account_frozen a w now s) w a = Some (freeze_row now m)"
proof -
  have m: "metric_key w a m" "flush_metric m = m" using find_metric_key [OF assms] by auto
  then obtain n where n: "sm_freeze_count m = Some n"
    by (auto elim: flushed_counts)
  have "on_account_frozen a w now s = save_metric w a (freeze_row now m) (flush_metrics s)"
    using n by (simp add: hook_defs mark_freeze_def ensure_metric_found [OF assms] freeze_row_def)
  then show ?thesis
    using assms m by (simp add: find_metric_save flush_freeze)
qed

lemma frozen_new:
  assumes "find_metric s w a = None"
  shows "\<exists>m. find_metric (on_account_frozen a w now s) w a = Some m \<and>
    sm_freeze_count m = Some 0 \<and> sm_first_freeze_at m = Some now"
proof -
  obtain i s' where e: "ensure_metric w a now now s = (new_metric i w a now now, s')"
    and f: "find_metric s' w a = Some (flush_metric (new_metric i w a now now))"
    using ensure_metric_new [OF assms] by blast
  let ?row = "(new_metric i w a now now)\<lparr>sm_first_freeze_at := Some now\<rparr>"
  have "on_account_frozen a w now s = save_metric w a ?row s'"
    by (simp add: hook_defs mark_freeze_def e new_metric_def first_time_def)
  moreover have "metric_key w a ?row" by (simp add: metric_key_def new_metric_def)
  ultimately show ?thesis
    using f by (simp add: find_metric_save flush_metric_def new_metric_def)
qed

definition frozen_times :: "uuid \<Rightarrow> uuid \<Rightarrow> time list \<Rightarrow> db \<Rightarrow> db" where
  "frozen_times a w ts s = fold (on_account_frozen a w) ts s"

lemma frozen_times_found:
  assumes "find_metric s w a = Some m" and "sm_freeze_count m = Some n"
  shows "\<exists>m'. find_metric (frozen_times a w ts s) w a = Some m' \<and>
    sm_freeze_count m' = Some (n + int (length ts)) \<and>
    sm_first_freeze_at m' = (if ts = [] then sm_first_freeze_at m
                             else first_time (hd ts) (sm_first_freeze_at m))"
  using assms
proof (induction ts arbitrary: s m n)
  case Nil
  then show ?case by (simp add: frozen_times_def)
next
  case (Cons t ts)
  have "sm_freeze_count (freeze_row t m) = Some (n + 1)"
    using Cons.prems by (simp add: freeze_row_def)
  from Cons.IH [OF frozen_found [OF Cons.prems(1)] this] show ?case
    by (auto simp: frozen_times_def freeze_row_def first_time_def split: option.splits if_splits)
qed

lemma imported_row:
  assumes "find_metric s w a = None"
  shows "\<exists>m. find_metric (on_account_imported a w now s) w a = Some m \<and>
    sm_freeze_count m = Some 0 \<and> sm_first_freeze_at m = None"
  using ensure_metric_new [OF assms, of now now]
  by (auto simp: hook_defs flush_metric_def new_metric_def)

section \<open>Properties\<close>

text \<open>
  Counting freezes: for an account whose metric row was created by the import hook,
  \<open>freeze_count\<close> is the number of freeze events and \<open>first_freeze_at\<close> the time of the first; for
  an account without a row the first event creates the row but is not counted, the swallowed
  \<open>TypeError\<close> loses it: the count is one less than the number of events, for ever.
\<close>

theorem freeze_count_spec:
  assumes "find_metric s w a = None" and "ts \<noteq> []"
  shows "(\<exists>m. find_metric (frozen_times a w ts (on_account_imported a w t0 s)) w a = Some m \<and>
      sm_freeze_count m = Some (int (length ts)) \<and> sm_first_freeze_at m = Some (hd ts)) \<and>
    (\<exists>m. find_metric (frozen_times a w ts s) w a = Some m \<and>
      sm_freeze_count m = Some (int (length ts) - 1) \<and> sm_first_freeze_at m = Some (hd ts))"
proof
  obtain m where m: "find_metric (on_account_imported a w t0 s) w a = Some m"
    "sm_freeze_count m = Some 0" "sm_first_freeze_at m = None"
    using imported_row [OF assms(1)] by blast
  show "\<exists>m. find_metric (frozen_times a w ts (on_account_imported a w t0 s)) w a = Some m \<and>
      sm_freeze_count m = Some (int (length ts)) \<and> sm_first_freeze_at m = Some (hd ts)"
    using frozen_times_found [OF m(1,2), of ts] m(3) assms(2) by (auto simp: first_time_def)
  obtain t us where ts: "ts = t # us" using assms(2) by (cases ts) auto
  obtain m where m: "find_metric (on_account_frozen a w t s) w a = Some m"
    "sm_freeze_count m = Some 0" "sm_first_freeze_at m = Some t"
    using frozen_new [OF assms(1)] by blast
  show "\<exists>m. find_metric (frozen_times a w ts s) w a = Some m \<and>
      sm_freeze_count m = Some (int (length ts) - 1) \<and> sm_first_freeze_at m = Some (hd ts)"
    using frozen_times_found [OF m(1,2), of us] m(3)
    by (auto simp: ts frozen_times_def first_time_def)
qed

theorem freeze_count_spec_witness:
  "\<exists>m. find_metric (frozen_times 1 7 [5, 9] empty_db) 7 1 = Some m \<and> sm_freeze_count m = Some 1"
proof -
  have "find_metric empty_db 7 1 = None" by (simp add: find_metric_def empty_db_def)
  from freeze_count_spec [OF this, of "[5, 9]"] show ?thesis by auto
qed

end
