(* ===== verification/WorkspaceBootstrap.thy ===== *)
theory WorkspaceBootstrap
  imports Models
begin

text \<open>
  \<open>backend/app/workspace_bootstrap.py\<close>: the default local workspace with its owner, membership
  and plan, created on demand. Every row is created only when it is missing, so the operation is
  idempotent and never rewrites what is there.
\<close>

definition DEFAULT_LOCAL_USER_ID :: uuid where
  "DEFAULT_LOCAL_USER_ID = 302240678275694148452353"

definition DEFAULT_LOCAL_WORKSPACE_ID :: uuid where
  "DEFAULT_LOCAL_WORKSPACE_ID = 302240678275694148452354"

definition default_user :: "time \<Rightarrow> app_user" where
  "default_user now =
     \<lparr>usr_id = DEFAULT_LOCAL_USER_ID,
      usr_email = ''local@stylisttg.local'',
      usr_display_name = Some ''Local Operator'',
      usr_external_auth_provider = ''local'',
      usr_external_auth_user_id = ''local-operator'',
      usr_status = ''active'',
      usr_created_at = now,
      usr_updated_at = now,
      usr_disabled_at = None\<rparr>"

definition default_workspace :: "time \<Rightarrow> workspace" where
  "default_workspace now =
     \<lparr>ws_id = DEFAULT_LOCAL_WORKSPACE_ID,
      ws_name = ''Local Workspace'',
      ws_slug = ''local'',
      ws_owner_user_id = DEFAULT_LOCAL_USER_ID,
      ws_status = ''active'',
      ws_safety_pipeline_v2_enabled = False,
      ws_notification_webhook_url = None,
      ws_created_at = now,
      ws_updated_at = now\<rparr>"

definition default_plan :: "time \<Rightarrow> workspace_plan" where
  "default_plan now =
     \<lparr>pln_workspace_id = DEFAULT_LOCAL_WORKSPACE_ID,
      pln_plan_code = ''local'',
      pln_billing_status = ''active'',
      pln_max_accounts = 1000,
      pln_max_jobs_per_day = 10000,
      pln_max_batch_size = 1000,
      pln_max_storage_mb = 10240,
      pln_max_team_members = 10,
      pln_created_at = now,
      pln_updated_at = now\<rparr>"

definition default_membership :: "workspace_member \<Rightarrow> bool" where
  "default_membership m \<longleftrightarrow>
     mem_workspace_id m = DEFAULT_LOCAL_WORKSPACE_ID \<and> mem_user_id m = DEFAULT_LOCAL_USER_ID"

definition ensure_user :: "time \<Rightarrow> db \<Rightarrow> db" where
  "ensure_user now s =
     (if find (\<lambda>u. usr_id u = DEFAULT_LOCAL_USER_ID) (db_users s) = None
      then s\<lparr>db_users := db_users s @ [default_user now]\<rparr> else s)"

definition ensure_workspace :: "time \<Rightarrow> db \<Rightarrow> db" where
  "ensure_workspace now s =
     (if find (\<lambda>w. ws_id w = DEFAULT_LOCAL_WORKSPACE_ID) (db_workspaces s) = None
      then s\<lparr>db_workspaces := db_workspaces s @ [default_workspace now]\<rparr> else s)"

definition ensure_member :: "time \<Rightarrow> db \<Rightarrow> db" where
  "ensure_member now s =
     (if find default_membership (db_members s) = None
      then let (i, s') = new_id s in
        s'\<lparr>db_members := db_members s' @
            [\<lparr>mem_id = i,
              mem_workspace_id = DEFAULT_LOCAL_WORKSPACE_ID,
              mem_user_id = DEFAULT_LOCAL_USER_ID,
              mem_role = ''owner'',
              mem_created_at = now,
              mem_updated_at = now\<rparr>]\<rparr>
      else s)"

definition ensure_plan :: "time \<Rightarrow> db \<Rightarrow> db" where
  "ensure_plan now s =
     (if find (\<lambda>p. pln_workspace_id p = DEFAULT_LOCAL_WORKSPACE_ID) (db_plans s) = None
      then s\<lparr>db_plans := db_plans s @ [default_plan now]\<rparr> else s)"

definition ensure_default_workspace :: "time \<Rightarrow> db \<Rightarrow> db" where
  "ensure_default_workspace now s =
     ensure_plan now (ensure_member now (ensure_workspace now (ensure_user now s)))"

lemmas bootstrap_defs =
  ensure_default_workspace_def ensure_plan_def ensure_member_def ensure_workspace_def
  ensure_user_def new_id_def

lemma find_snoc_hit: "P x \<Longrightarrow> find P (xs @ [x]) \<noteq> None"
  by (simp add: find_none_iff)

lemma default_user_id [simp]: "usr_id (default_user now) = DEFAULT_LOCAL_USER_ID"
  by (simp add: default_user_def)

lemma default_workspace_id [simp]: "ws_id (default_workspace now) = DEFAULT_LOCAL_WORKSPACE_ID"
  by (simp add: default_workspace_def)

lemma default_plan_id [simp]: "pln_workspace_id (default_plan now) = DEFAULT_LOCAL_WORKSPACE_ID"
  by (simp add: default_plan_def)

text \<open>The tables the bootstrap writes, one at a time.\<close>

lemma ensure_default_workspace_frame [simp]:
  "db_policies (ensure_default_workspace now s) = db_policies s"
  "db_accounts (ensure_default_workspace now s) = db_accounts s"
  "db_quarantines (ensure_default_workspace now s) = db_quarantines s"
  "db_ggr_scores (ensure_default_workspace now s) = db_ggr_scores s"
  "db_observations (ensure_default_workspace now s) = db_observations s"
  by (simp_all add: bootstrap_defs)

definition bootstrapped :: "db \<Rightarrow> bool" where
  "bootstrapped s \<longleftrightarrow>
     find (\<lambda>u. usr_id u = DEFAULT_LOCAL_USER_ID) (db_users s) \<noteq> None \<and>
     find (\<lambda>w. ws_id w = DEFAULT_LOCAL_WORKSPACE_ID) (db_workspaces s) \<noteq> None \<and>
     find default_membership (db_members s) \<noteq> None \<and>
     find (\<lambda>p. pln_workspace_id p = DEFAULT_LOCAL_WORKSPACE_ID) (db_plans s) \<noteq> None"

lemma ensure_default_workspace_bootstraps: "bootstrapped (ensure_default_workspace now s)"
  by (auto simp: bootstrapped_def bootstrap_defs Let_def find_append default_membership_def
      split: option.splits)

lemma ensure_default_workspace_noop: "bootstrapped s \<Longrightarrow> ensure_default_workspace now s = s"
  by (auto simp: bootstrapped_def bootstrap_defs)

end
