(* ===== verification/SafetyPolicy.thy ===== *)
theory SafetyPolicy
  imports WorkspaceBootstrap
begin

text \<open>
  The workspace safety policy: \<open>account_safety/policy_rules.py\<close> (presets, kill-switch overlay,
  public snapshot, diff), \<open>account_safety/policy_repository.py\<close> (get, create, update, delete) and
  the field bounds of \<open>WorkspaceSafetyPolicyUpdate\<close> in \<open>account_safety/gate_contracts.py\<close>.

  A dictionary \<open>{field: value}\<close> over the public fields is a list of assignments, one
  constructor per field with the field's type: the type of the value is fixed by the key.
\<close>

section \<open>Assignments: field names with their values\<close>

datatype policy_field =
    F_mode
  | F_delay_multiplier
  | F_typing_chars_per_minute_min
  | F_typing_chars_per_minute_max
  | F_profile_view_probability
  | F_scroll_probability
  | F_typo_probability
  | F_message_deletion_probability
  | F_quiet_hours_local_start
  | F_quiet_hours_local_end
  | F_require_warmup_before_commenting
  | F_min_warmup_days
  | F_require_healthy_proxy
  | F_min_account_age_hours
  | F_auto_pause_on_flood_wait_count
  | F_auto_pause_on_deleted_comments_count
  | F_quarantine_hours_on_flood_wait
  | F_consecutive_failure_threshold

definition PUBLIC_POLICY_FIELDS :: "policy_field list" where
  "PUBLIC_POLICY_FIELDS =
     [F_mode, F_delay_multiplier, F_typing_chars_per_minute_min, F_typing_chars_per_minute_max,
      F_profile_view_probability, F_scroll_probability, F_typo_probability,
      F_message_deletion_probability, F_quiet_hours_local_start, F_quiet_hours_local_end,
      F_require_warmup_before_commenting, F_min_warmup_days, F_require_healthy_proxy,
      F_min_account_age_hours, F_auto_pause_on_flood_wait_count,
      F_auto_pause_on_deleted_comments_count, F_quarantine_hours_on_flood_wait,
      F_consecutive_failure_threshold]"

datatype assignment =
    A_mode safety_mode
  | A_delay_multiplier rat
  | A_typing_chars_per_minute_min "int option"
  | A_typing_chars_per_minute_max "int option"
  | A_profile_view_probability rat
  | A_scroll_probability rat
  | A_typo_probability rat
  | A_message_deletion_probability rat
  | A_quiet_hours_local_start "int option"
  | A_quiet_hours_local_end "int option"
  | A_require_warmup_before_commenting bool
  | A_min_warmup_days int
  | A_require_healthy_proxy bool
  | A_min_account_age_hours int
  | A_auto_pause_on_flood_wait_count int
  | A_auto_pause_on_deleted_comments_count int
  | A_quarantine_hours_on_flood_wait int
  | A_consecutive_failure_threshold "int option"

fun field_of :: "assignment \<Rightarrow> policy_field" where
  "field_of (A_mode _) = F_mode"
| "field_of (A_delay_multiplier _) = F_delay_multiplier"
| "field_of (A_typing_chars_per_minute_min _) = F_typing_chars_per_minute_min"
| "field_of (A_typing_chars_per_minute_max _) = F_typing_chars_per_minute_max"
| "field_of (A_profile_view_probability _) = F_profile_view_probability"
| "field_of (A_scroll_probability _) = F_scroll_probability"
| "field_of (A_typo_probability _) = F_typo_probability"
| "field_of (A_message_deletion_probability _) = F_message_deletion_probability"
| "field_of (A_quiet_hours_local_start _) = F_quiet_hours_local_start"
| "field_of (A_quiet_hours_local_end _) = F_quiet_hours_local_end"
| "field_of (A_require_warmup_before_commenting _) = F_require_warmup_before_commenting"
| "field_of (A_min_warmup_days _) = F_min_warmup_days"
| "field_of (A_require_healthy_proxy _) = F_require_healthy_proxy"
| "field_of (A_min_account_age_hours _) = F_min_account_age_hours"
| "field_of (A_auto_pause_on_flood_wait_count _) = F_auto_pause_on_flood_wait_count"
| "field_of (A_auto_pause_on_deleted_comments_count _) = F_auto_pause_on_deleted_comments_count"
| "field_of (A_quarantine_hours_on_flood_wait _) = F_quarantine_hours_on_flood_wait"
| "field_of (A_consecutive_failure_threshold _) = F_consecutive_failure_threshold"

text \<open>\<open>setattr(policy, field, value)\<close> and \<open>getattr(policy, field)\<close>.\<close>

fun policy_setattr :: "assignment \<Rightarrow> workspace_safety_policy \<Rightarrow> workspace_safety_policy" where
  "policy_setattr (A_mode v) p = p\<lparr>pol_mode := v\<rparr>"
| "policy_setattr (A_delay_multiplier v) p = p\<lparr>pol_delay_multiplier := v\<rparr>"
| "policy_setattr (A_typing_chars_per_minute_min v) p = p\<lparr>pol_typing_chars_per_minute_min := v\<rparr>"
| "policy_setattr (A_typing_chars_per_minute_max v) p = p\<lparr>pol_typing_chars_per_minute_max := v\<rparr>"
| "policy_setattr (A_profile_view_probability v) p = p\<lparr>pol_profile_view_probability := v\<rparr>"
| "policy_setattr (A_scroll_probability v) p = p\<lparr>pol_scroll_probability := v\<rparr>"
| "policy_setattr (A_typo_probability v) p = p\<lparr>pol_typo_probability := v\<rparr>"
| "policy_setattr (A_message_deletion_probability v) p = p\<lparr>pol_message_deletion_probability := v\<rparr>"
| "policy_setattr (A_quiet_hours_local_start v) p = p\<lparr>pol_quiet_hours_local_start := v\<rparr>"
| "policy_setattr (A_quiet_hours_local_end v) p = p\<lparr>pol_quiet_hours_local_end := v\<rparr>"
| "policy_setattr (A_require_warmup_before_commenting v) p =
     p\<lparr>pol_require_warmup_before_commenting := v\<rparr>"
| "policy_setattr (A_min_warmup_days v) p = p\<lparr>pol_min_warmup_days := v\<rparr>"
| "policy_setattr (A_require_healthy_proxy v) p = p\<lparr>pol_require_healthy_proxy := v\<rparr>"
| "policy_setattr (A_min_account_age_hours v) p = p\<lparr>pol_min_account_age_hours := v\<rparr>"
| "policy_setattr (A_auto_pause_on_flood_wait_count v) p = p\<lparr>pol_auto_pause_on_flood_wait_count := v\<rparr>"
| "policy_setattr (A_auto_pause_on_deleted_comments_count v) p =
     p\<lparr>pol_auto_pause_on_deleted_comments_count := v\<rparr>"
| "policy_setattr (A_quarantine_hours_on_flood_wait v) p = p\<lparr>pol_quarantine_hours_on_flood_wait := v\<rparr>"
| "policy_setattr (A_consecutive_failure_threshold v) p = p\<lparr>pol_consecutive_failure_threshold := v\<rparr>"

fun policy_getattr :: "policy_field \<Rightarrow> workspace_safety_policy \<Rightarrow> assignment" where
  "policy_getattr F_mode p = A_mode (pol_mode p)"
| "policy_getattr F_delay_multiplier p = A_delay_multiplier (pol_delay_multiplier p)"
| "policy_getattr F_typing_chars_per_minute_min p =
     A_typing_chars_per_minute_min (pol_typing_chars_per_minute_min p)"
| "policy_getattr F_typing_chars_per_minute_max p =
     A_typing_chars_per_minute_max (pol_typing_chars_per_minute_max p)"
| "policy_getattr F_profile_view_probability p =
     A_profile_view_probability (pol_profile_view_probability p)"
| "policy_getattr F_scroll_probability p = A_scroll_probability (pol_scroll_probability p)"
| "policy_getattr F_typo_probability p = A_typo_probability (pol_typo_probability p)"
| "policy_getattr F_message_deletion_probability p =
     A_message_deletion_probability (pol_message_deletion_probability p)"
| "policy_getattr F_quiet_hours_local_start p = A_quiet_hours_local_start (pol_quiet_hours_local_start p)"
| "policy_getattr F_quiet_hours_local_end p = A_quiet_hours_local_end (pol_quiet_hours_local_end p)"
| "policy_getattr F_require_warmup_before_commenting p =
     A_require_warmup_before_commenting (pol_require_warmup_before_commenting p)"
| "policy_getattr F_min_warmup_days p = A_min_warmup_days (pol_min_warmup_days p)"
| "policy_getattr F_require_healthy_proxy p = A_require_healthy_proxy (pol_require_healthy_proxy p)"
| "policy_getattr F_min_account_age_hours p = A_min_account_age_hours (pol_min_account_age_hours p)"
| "policy_getattr F_auto_pause_on_flood_wait_count p =
     A_auto_pause_on_flood_wait_count (pol_auto_pause_on_flood_wait_count p)"
| "policy_getattr F_auto_pause_on_deleted_comments_count p =
     A_auto_pause_on_deleted_comments_count (pol_auto_pause_on_deleted_comments_count p)"
| "policy_getattr F_quarantine_hours_on_flood_wait p =
     A_quarantine_hours_on_flood_wait (pol_quarantine_hours_on_flood_wait p)"
| "policy_getattr F_consecutive_failure_threshold p =
     A_consecutive_failure_threshold (pol_consecutive_failure_threshold p)"

text \<open>A dictionary of assignments: at most one per field; \<open>d.update(e)\<close>.\<close>

fun assign_set :: "assignment \<Rightarrow> assignment list \<Rightarrow> assignment list" where
  "assign_set a [] = [a]"
| "assign_set a (b # bs) = (if field_of b = field_of a then a # bs else b # assign_set a bs)"

definition assign_update :: "assignment list \<Rightarrow> assignment list \<Rightarrow> assignment list" where
  "assign_update d e = fold assign_set e d"

definition assign_get :: "assignment list \<Rightarrow> policy_field \<Rightarrow> assignment option" where
  "assign_get d f = find (\<lambda>a. field_of a = f) d"

definition setattrs :: "assignment list \<Rightarrow> workspace_safety_policy \<Rightarrow> workspace_safety_policy" where
  "setattrs d p = fold policy_setattr d p"

section \<open>Presets and the kill-switch overlay\<close>

fun PRESET_DEFAULTS :: "safety_mode \<Rightarrow> assignment list" where
  "PRESET_DEFAULTS Conservative =
     [A_delay_multiplier (3 / 2),
      A_typing_chars_per_minute_min (Some 40),
      A_typing_chars_per_minute_max (Some 60),
      A_profile_view_probability (9 / 10),
      A_scroll_probability (1 / 2),
      A_typo_probability (8 / 100),
      A_message_deletion_probability (3 / 100),
      A_quiet_hours_local_start (Some 60),
      A_quiet_hours_local_end (Some 420),
      A_require_warmup_before_commenting True,
      A_min_warmup_days 7,
      A_require_healthy_proxy True,
      A_min_account_age_hours 72,
      A_auto_pause_on_flood_wait_count 1,
      A_auto_pause_on_deleted_comments_count 2,
      A_quarantine_hours_on_flood_wait 24]"
| "PRESET_DEFAULTS Balanced =
     [A_delay_multiplier 1,
      A_typing_chars_per_minute_min (Some 100),
      A_typing_chars_per_minute_max (Some 150),
      A_profile_view_probability (7 / 10),
      A_scroll_probability (3 / 10),
      A_typo_probability (5 / 100),
      A_message_deletion_probability (2 / 100),
      A_quiet_hours_local_start (Some 120),
      A_quiet_hours_local_end (Some 360),
      A_require_warmup_before_commenting True,
      A_min_warmup_days 3,
      A_require_healthy_proxy True,
      A_min_account_age_hours 24,
      A_auto_pause_on_flood_wait_count 3,
      A_auto_pause_on_deleted_comments_count 5,
      A_quarantine_hours_on_flood_wait 24]"
| "PRESET_DEFAULTS Aggressive =
     [A_delay_multiplier (7 / 10),
      A_typing_chars_per_minute_min None,
      A_typing_chars_per_minute_max None,
      A_profile_view_probability (3 / 10),
      A_scroll_probability 0,
      A_typo_probability (2 / 100),
      A_message_deletion_probability (1 / 100),
      A_quiet_hours_local_start None,
      A_quiet_hours_local_end None,
      A_require_warmup_before_commenting False,
      A_min_warmup_days 1,
      A_require_healthy_proxy False,
      A_min_account_age_hours 0,
      A_auto_pause_on_flood_wait_count 5,
      A_auto_pause_on_deleted_comments_count 10,
      A_quarantine_hours_on_flood_wait 24]"

definition apply_preset_defaults :: "safety_mode \<Rightarrow> assignment list" where
  "apply_preset_defaults mode = A_mode mode # PRESET_DEFAULTS mode"

definition disabled_policy_overlay :: "assignment list" where
  "disabled_policy_overlay =
     [A_mode Balanced,
      A_delay_multiplier 1,
      A_typing_chars_per_minute_min None,
      A_typing_chars_per_minute_max None,
      A_profile_view_probability 0,
      A_scroll_probability 0,
      A_typo_probability 0,
      A_message_deletion_probability 0,
      A_quiet_hours_local_start None,
      A_quiet_hours_local_end None,
      A_require_warmup_before_commenting False,
      A_min_warmup_days 0,
      A_require_healthy_proxy False,
      A_min_account_age_hours 0,
      A_auto_pause_on_flood_wait_count 2147483647,
      A_auto_pause_on_deleted_comments_count 2147483647,
      A_quarantine_hours_on_flood_wait 0,
      A_consecutive_failure_threshold (Some 20)]"

definition DEFAULT_CONSECUTIVE_FAILURE_THRESHOLD :: int where
  "DEFAULT_CONSECUTIVE_FAILURE_THRESHOLD = 3"

definition get_consecutive_failure_threshold :: "workspace_safety_policy \<Rightarrow> int" where
  "get_consecutive_failure_threshold p =
     (case pol_consecutive_failure_threshold p of
        None \<Rightarrow> DEFAULT_CONSECUTIVE_FAILURE_THRESHOLD
      | Some t \<Rightarrow> if t = 0 then DEFAULT_CONSECUTIVE_FAILURE_THRESHOLD else t)"

definition policy_public_snapshot :: "workspace_safety_policy \<Rightarrow> assignment list" where
  "policy_public_snapshot p = map (\<lambda>f. policy_getattr f p) PUBLIC_POLICY_FIELDS"

record policy_diff =
  changed_fields :: "policy_field list"
  diff_old :: "assignment list"
  diff_new :: "assignment list"

definition compute_diff :: "workspace_safety_policy \<Rightarrow> workspace_safety_policy \<Rightarrow> policy_diff" where
  "compute_diff old new =
     (let changed = filter (\<lambda>f. policy_getattr f old \<noteq> policy_getattr f new) PUBLIC_POLICY_FIELDS
      in \<lparr>changed_fields = changed,
          diff_old = map (\<lambda>f. policy_getattr f old) changed,
          diff_new = map (\<lambda>f. policy_getattr f new) changed\<rparr>)"

section \<open>Field bounds of the update request\<close>

definition non_negative :: "int \<Rightarrow> bool" where
  "non_negative n \<longleftrightarrow> 0 \<le> n"

definition minute_of_day :: "int \<Rightarrow> bool" where
  "minute_of_day n \<longleftrightarrow> 0 \<le> n \<and> n \<le> 1439"

definition probability :: "rat \<Rightarrow> bool" where
  "probability x \<longleftrightarrow> 0 \<le> x \<and> x \<le> 1"

definition opt_all :: "('a \<Rightarrow> bool) \<Rightarrow> 'a option \<Rightarrow> bool" where
  "opt_all P v = (case v of None \<Rightarrow> True | Some x \<Rightarrow> P x)"

fun valid_assignment :: "assignment \<Rightarrow> bool" where
  "valid_assignment (A_mode _) = True"
| "valid_assignment (A_delay_multiplier v) = (0 < v)"
| "valid_assignment (A_typing_chars_per_minute_min v) = opt_all non_negative v"
| "valid_assignment (A_typing_chars_per_minute_max v) = opt_all non_negative v"
| "valid_assignment (A_profile_view_probability v) = probability v"
| "valid_assignment (A_scroll_probability v) = probability v"
| "valid_assignment (A_typo_probability v) = probability v"
| "valid_assignment (A_message_deletion_probability v) = probability v"
| "valid_assignment (A_quiet_hours_local_start v) = opt_all minute_of_day v"
| "valid_assignment (A_quiet_hours_local_end v) = opt_all minute_of_day v"
| "valid_assignment (A_require_warmup_before_commenting _) = True"
| "valid_assignment (A_min_warmup_days v) = non_negative v"
| "valid_assignment (A_require_healthy_proxy _) = True"
| "valid_assignment (A_min_account_age_hours v) = non_negative v"
| "valid_assignment (A_auto_pause_on_flood_wait_count v) = non_negative v"
| "valid_assignment (A_auto_pause_on_deleted_comments_count v) = non_negative v"
| "valid_assignment (A_quarantine_hours_on_flood_wait v) = non_negative v"
| "valid_assignment (A_consecutive_failure_threshold v) = opt_all (\<lambda>n. 1 \<le> n \<and> n \<le> 20) v"

definition valid_policy :: "workspace_safety_policy \<Rightarrow> bool" where
  "valid_policy p \<longleftrightarrow> (\<forall>a\<in>set (policy_public_snapshot p). valid_assignment a)"

section \<open>The repository\<close>

text \<open>The two settings the modelled code reads: the kill switch and the gate's fail-open switch.\<close>

record settings =
  workspace_safety_policy_temporarily_disabled :: bool
  safety_gate_redis_fail_open :: bool

text \<open>A row before its columns are set; the column values below are those of the table.\<close>

definition column_defaults :: "uuid option \<Rightarrow> uuid \<Rightarrow> time \<Rightarrow> workspace_safety_policy" where
  "column_defaults i w now =
     \<lparr>pol_id = i, pol_workspace_id = w, pol_mode = Balanced, pol_delay_multiplier = 1,
      pol_typing_chars_per_minute_min = None, pol_typing_chars_per_minute_max = None,
      pol_profile_view_probability = 7 / 10, pol_scroll_probability = 3 / 10,
      pol_typo_probability = 5 / 100, pol_message_deletion_probability = 2 / 100,
      pol_quiet_hours_local_start = None, pol_quiet_hours_local_end = None,
      pol_require_warmup_before_commenting = True, pol_min_warmup_days = 3,
      pol_require_healthy_proxy = True, pol_min_account_age_hours = 24,
      pol_auto_pause_on_flood_wait_count = 3, pol_auto_pause_on_deleted_comments_count = 5,
      pol_quarantine_hours_on_flood_wait = 24, pol_consecutive_failure_threshold = None,
      pol_created_at = now, pol_updated_at = now\<rparr>"

definition build_disabled_policy :: "uuid \<Rightarrow> time \<Rightarrow> workspace_safety_policy" where
  "build_disabled_policy w now = setattrs disabled_policy_overlay (column_defaults None w now)"

definition find_policy :: "db \<Rightarrow> uuid \<Rightarrow> workspace_safety_policy option" where
  "find_policy s w = find (\<lambda>p. pol_workspace_id p = w) (db_policies s)"

definition create_workspace_safety_policy ::
  "time \<Rightarrow> uuid \<Rightarrow> safety_mode \<Rightarrow> db \<Rightarrow> workspace_safety_policy \<times> db" where
  "create_workspace_safety_policy now w mode s =
     (let s1 = (if w = DEFAULT_LOCAL_WORKSPACE_ID then ensure_default_workspace now s else s);
          (i, s2) = new_id s1;
          policy = setattrs (apply_preset_defaults mode) (column_defaults (Some i) w now)
      in (policy, s2\<lparr>db_policies := db_policies s2 @ [policy]\<rparr>))"

definition get_workspace_safety_policy ::
  "settings \<Rightarrow> time \<Rightarrow> uuid \<Rightarrow> bool \<Rightarrow> db \<Rightarrow> workspace_safety_policy option \<times> db" where
  "get_workspace_safety_policy cfg now w create_if_missing s =
     (if workspace_safety_policy_temporarily_disabled cfg
      then (Some (build_disabled_policy w now), s)
      else case find_policy s w of
        Some p \<Rightarrow> (Some p, s)
      | None \<Rightarrow>
          if create_if_missing
          then let (p, s') = create_workspace_safety_policy now w Balanced s in (Some p, s')
          else (None, s))"

text \<open>\<open>explicit_values.pop("mode", None)\<close>, then the preset, then the explicit values.\<close>

definition update_values_of :: "assignment list \<Rightarrow> assignment list" where
  "update_values_of vals =
     (let explicit_values = filter (\<lambda>a. field_of a \<noteq> F_mode) vals in
      case assign_get vals F_mode of
        Some (A_mode m) \<Rightarrow> assign_update (apply_preset_defaults m) explicit_values
      | _ \<Rightarrow> explicit_values)"

definition changed_values_of ::
  "workspace_safety_policy \<Rightarrow> assignment list \<Rightarrow> assignment list" where
  "changed_values_of p update_values = filter (\<lambda>a. policy_getattr (field_of a) p \<noteq> a) update_values"

definition apply_update ::
  "time \<Rightarrow> assignment list \<Rightarrow> workspace_safety_policy \<Rightarrow> workspace_safety_policy" where
  "apply_update now vals p =
     (let changed = changed_values_of p (update_values_of vals)
      in if changed = [] then p else (setattrs changed p)\<lparr>pol_updated_at := now\<rparr>)"

definition update_workspace_safety_policy ::
  "settings \<Rightarrow> time \<Rightarrow> uuid \<Rightarrow> assignment list \<Rightarrow> db \<Rightarrow> workspace_safety_policy result \<times> db" where
  "update_workspace_safety_policy cfg now w vals s =
     (if workspace_safety_policy_temporarily_disabled cfg
      then (Inr (build_disabled_policy w now), s)
      else let (policy, s1) = get_workspace_safety_policy cfg now w True s in
        case policy of
          None \<Rightarrow> (Inl (RuntimeError ''workspace safety policy was not created''), s1)
        | Some p \<Rightarrow>
            (Inr (apply_update now vals p),
             s1\<lparr>db_policies :=
                  update_where (\<lambda>r. pol_workspace_id r = w) (apply_update now vals) (db_policies s1)\<rparr>))"

definition delete_workspace_safety_policy :: "settings \<Rightarrow> uuid \<Rightarrow> db \<Rightarrow> bool \<times> db" where
  "delete_workspace_safety_policy cfg w s =
     (if workspace_safety_policy_temporarily_disabled cfg then (False, s)
      else case find_policy s w of
        None \<Rightarrow> (False, s)
      | Some _ \<Rightarrow> (True, s\<lparr>db_policies := filter (\<lambda>p. pol_workspace_id p \<noteq> w) (db_policies s)\<rparr>))"

section \<open>Reading and writing public fields\<close>

lemma getattr_setattr:
  "policy_getattr f (policy_setattr a p) = (if f = field_of a then a else policy_getattr f p)"
  by (cases a; cases f) simp_all

lemma field_of_getattr [simp]: "field_of (policy_getattr f p) = f"
  by (cases f) simp_all

lemma setattr_frame [simp]:
  "pol_id (policy_setattr a p) = pol_id p"
  "pol_workspace_id (policy_setattr a p) = pol_workspace_id p"
  "pol_created_at (policy_setattr a p) = pol_created_at p"
  "pol_updated_at (policy_setattr a p) = pol_updated_at p"
  by (cases a; simp)+

lemma setattrs_Nil [simp]: "setattrs [] p = p"
  by (simp add: setattrs_def)

lemma setattrs_Cons [simp]: "setattrs (a # d) p = setattrs d (policy_setattr a p)"
  by (simp add: setattrs_def)

lemma setattrs_frame [simp]:
  "pol_id (setattrs d p) = pol_id p"
  "pol_workspace_id (setattrs d p) = pol_workspace_id p"
  "pol_created_at (setattrs d p) = pol_created_at p"
  "pol_updated_at (setattrs d p) = pol_updated_at p"
  by (induction d arbitrary: p) simp_all

lemma getattr_updated_at [simp]: "policy_getattr f (p\<lparr>pol_updated_at := t\<rparr>) = policy_getattr f p"
  by (cases f) simp_all

lemma assign_get_Nil [simp]: "assign_get [] f = None"
  by (simp add: assign_get_def)

lemma assign_get_Cons [simp]:
  "assign_get (a # d) f = (if field_of a = f then Some a else assign_get d f)"
  by (simp add: assign_get_def)

lemma assign_get_field: "assign_get d f = Some a \<Longrightarrow> field_of a = f \<and> a \<in> set d"
  by (induction d) (auto split: if_splits)

lemma assign_get_None: "assign_get d f = None \<longleftrightarrow> f \<notin> field_of ` set d"
  by (induction d) auto

lemma getattr_setattrs:
  "distinct (map field_of d) \<Longrightarrow>
   policy_getattr f (setattrs d p) =
     (case assign_get d f of Some a \<Rightarrow> a | None \<Rightarrow> policy_getattr f p)"
proof (induction d arbitrary: p)
  case Nil
  then show ?case by simp
next
  case (Cons a d)
  then have "assign_get d (field_of a) = None" by (simp add: assign_get_None)
  with Cons show ?case by (auto simp: getattr_setattr split: option.split)
qed

lemma assign_get_mem:
  "distinct (map field_of d) \<Longrightarrow> a \<in> set d \<Longrightarrow> assign_get d (field_of a) = Some a"
  by (induction d) auto

lemma assign_get_set:
  "assign_get (assign_set a d) f = (if f = field_of a then Some a else assign_get d f)"
  by (induction d) auto

lemma fields_assign_set:
  "field_of ` set (assign_set a d) = insert (field_of a) (field_of ` set d)"
  by (induction d) auto

lemma distinct_assign_set:
  "distinct (map field_of d) \<Longrightarrow> distinct (map field_of (assign_set a d))"
  by (induction d) (use fields_assign_set in \<open>force+\<close>)

lemma assign_update_simps [simp]:
  "assign_update d [] = d"
  "assign_update d (a # e) = assign_update (assign_set a d) e"
  by (simp_all add: assign_update_def)

lemma distinct_assign_update:
  "distinct (map field_of d) \<Longrightarrow> distinct (map field_of (assign_update d e))"
  by (induction e arbitrary: d) (simp_all add: distinct_assign_set)

lemma assign_get_update:
  "distinct (map field_of e) \<Longrightarrow>
   assign_get (assign_update d e) f =
     (case assign_get e f of Some a \<Rightarrow> Some a | None \<Rightarrow> assign_get d f)"
proof (induction e arbitrary: d)
  case Nil
  then show ?case by simp
next
  case (Cons a e)
  then have "assign_get e (field_of a) = None" by (simp add: assign_get_None)
  with Cons show ?case by (auto simp: assign_get_set split: option.split)
qed

lemma assign_get_filter:
  "assign_get (filter P d) f = assign_get d f" if "\<And>a. a \<in> set d \<Longrightarrow> field_of a = f \<Longrightarrow> P a"
  using that by (induction d) auto

lemma assign_get_filter_distinct:
  "distinct (map field_of d) \<Longrightarrow>
   assign_get (filter P d) f = (case assign_get d f of Some a \<Rightarrow> if P a then Some a else None | None \<Rightarrow> None)"
  by (induction d) (auto simp: assign_get_None split: option.split dest!: assign_get_field)

lemma distinct_filter_fields: "distinct (map field_of d) \<Longrightarrow> distinct (map field_of (filter P d))"
  by (induction d) auto

section \<open>The preset tables\<close>

lemma distinct_preset [simp]: "distinct (map field_of (apply_preset_defaults m))"
  by (cases m) (simp_all add: apply_preset_defaults_def)

lemma preset_mode [simp]: "assign_get (apply_preset_defaults m) F_mode = Some (A_mode m)"
  by (simp add: apply_preset_defaults_def)

lemma valid_preset: "a \<in> set (apply_preset_defaults m) \<Longrightarrow> valid_assignment a"
  by (cases m)
    (auto simp: apply_preset_defaults_def opt_all_def non_negative_def probability_def minute_of_day_def)

lemma distinct_overlay [simp]: "distinct (map field_of disabled_policy_overlay)"
  by (simp add: disabled_policy_overlay_def)

lemma getattr_setattrs_map:
  assumes "distinct fs"
  shows "policy_getattr f (setattrs (map (\<lambda>f. policy_getattr f q) fs) p) =
    (if f \<in> set fs then policy_getattr f q else policy_getattr f p)"
  using assms by (induction fs arbitrary: p) (auto simp: getattr_setattr)

lemma valid_overlay: "a \<in> set disabled_policy_overlay \<Longrightarrow> valid_assignment a"
  by (auto simp: disabled_policy_overlay_def opt_all_def non_negative_def probability_def)

lemma public_field [simp]: "f \<in> set PUBLIC_POLICY_FIELDS"
  by (cases f) (simp_all add: PUBLIC_POLICY_FIELDS_def)

lemma valid_policy_iff: "valid_policy p \<longleftrightarrow> (\<forall>f. valid_assignment (policy_getattr f p))"
  by (auto simp: valid_policy_def policy_public_snapshot_def)

lemma valid_setattr:
  "valid_policy p \<Longrightarrow> valid_assignment a \<Longrightarrow> valid_policy (policy_setattr a p)"
  by (simp add: valid_policy_iff getattr_setattr)

lemma valid_setattrs:
  "valid_policy p \<Longrightarrow> (\<And>a. a \<in> set d \<Longrightarrow> valid_assignment a) \<Longrightarrow> valid_policy (setattrs d p)"
  by (induction d arbitrary: p) (simp_all add: valid_setattr)

lemma valid_column_defaults: "valid_policy (column_defaults i w now)"
  by (auto simp: valid_policy_def policy_public_snapshot_def PUBLIC_POLICY_FIELDS_def
      column_defaults_def opt_all_def non_negative_def probability_def)

text \<open>The neutral policy of the kill switch, column by column.\<close>

lemma disabled_policy_simps [simp]:
  "pol_id (build_disabled_policy w now) = None"
  "pol_workspace_id (build_disabled_policy w now) = w"
  "pol_updated_at (build_disabled_policy w now) = now"
  "pol_mode (build_disabled_policy w now) = Balanced"
  "\<not> pol_require_warmup_before_commenting (build_disabled_policy w now)"
  "\<not> pol_require_healthy_proxy (build_disabled_policy w now)"
  "pol_min_warmup_days (build_disabled_policy w now) = 0"
  "pol_min_account_age_hours (build_disabled_policy w now) = 0"
  "pol_quiet_hours_local_start (build_disabled_policy w now) = None"
  "pol_quiet_hours_local_end (build_disabled_policy w now) = None"
  "pol_auto_pause_on_flood_wait_count (build_disabled_policy w now) = 2147483647"
  "pol_auto_pause_on_deleted_comments_count (build_disabled_policy w now) = 2147483647"
  "pol_quarantine_hours_on_flood_wait (build_disabled_policy w now) = 0"
  "get_consecutive_failure_threshold (build_disabled_policy w now) = 20"
  by (simp_all add: build_disabled_policy_def disabled_policy_overlay_def column_defaults_def
      get_consecutive_failure_threshold_def)

section \<open>What an update does to a row\<close>

text \<open>
  The specification of a PATCH: an explicit value wins, then the preset of an explicitly given
  mode, then the stored value.
\<close>

definition patched_value ::
  "workspace_safety_policy \<Rightarrow> assignment list \<Rightarrow> policy_field \<Rightarrow> assignment" where
  "patched_value p vals f =
     (case assign_get vals f of
        Some a \<Rightarrow> a
      | None \<Rightarrow>
          (case assign_get vals F_mode of
             Some (A_mode m) \<Rightarrow>
               (case assign_get (apply_preset_defaults m) f of
                  Some a \<Rightarrow> a
                | None \<Rightarrow> policy_getattr f p)
           | _ \<Rightarrow> policy_getattr f p))"

lemma assign_get_mode:
  "assign_get vals F_mode = None \<or> (\<exists>m. assign_get vals F_mode = Some (A_mode m))"
proof (cases "assign_get vals F_mode")
  case (Some a)
  then have "field_of a = F_mode" by (simp add: assign_get_field)
  with Some show ?thesis by (cases a) auto
qed simp

lemma distinct_update_values:
  "distinct (map field_of vals) \<Longrightarrow> distinct (map field_of (update_values_of vals))"
  using assign_get_mode [of vals]
  by (auto simp: update_values_of_def Let_def distinct_assign_update distinct_filter_fields)

lemma assign_get_update_values:
  assumes "distinct (map field_of vals)"
  shows "(case assign_get (update_values_of vals) f of Some a \<Rightarrow> a | None \<Rightarrow> policy_getattr f p) =
         patched_value p vals f"
proof (cases "f = F_mode")
  case True
  then show ?thesis
    using assign_get_mode [of vals] assms
    by (auto simp: update_values_of_def patched_value_def Let_def assign_get_update
        distinct_filter_fields assign_get_filter_distinct split: option.split)
next
  case False
  then have "assign_get (filter (\<lambda>a. field_of a \<noteq> F_mode) vals) f = assign_get vals f"
    by (auto intro: assign_get_filter)
  then show ?thesis
    using assign_get_mode [of vals] assms
    by (auto simp: update_values_of_def patched_value_def Let_def assign_get_update
        distinct_filter_fields split: option.split)
qed

lemma getattr_apply_update:
  assumes "distinct (map field_of vals)"
  shows "policy_getattr f (apply_update now vals p) = patched_value p vals f"
proof -
  let ?u = "update_values_of vals"
  have d: "distinct (map field_of ?u)" using assms by (rule distinct_update_values)
  have "policy_getattr f (apply_update now vals p) =
        policy_getattr f (setattrs (changed_values_of p ?u) p)"
    by (simp add: apply_update_def Let_def)
  also have "\<dots> = (case assign_get ?u f of Some a \<Rightarrow> a | None \<Rightarrow> policy_getattr f p)"
    unfolding changed_values_of_def
    using d by (auto simp: getattr_setattrs distinct_filter_fields assign_get_filter_distinct
        split: option.split dest: assign_get_field)
  also have "\<dots> = patched_value p vals f"
    using assms by (rule assign_get_update_values)
  finally show ?thesis .
qed

lemma apply_update_frame [simp]:
  "pol_id (apply_update now vals p) = pol_id p"
  "pol_workspace_id (apply_update now vals p) = pol_workspace_id p"
  "pol_created_at (apply_update now vals p) = pol_created_at p"
  by (simp_all add: apply_update_def Let_def)

lemma changed_values_empty:
  assumes "\<And>f. (case assign_get u f of Some a \<Rightarrow> a | None \<Rightarrow> policy_getattr f p) = g f"
    and "distinct (map field_of u)"
  shows "(changed_values_of p u = []) = (\<forall>f. g f = policy_getattr f p)"
proof -
  have "g (field_of a) = a" if "a \<in> set u" for a
    using assms(1) [of "field_of a"] assign_get_mem [OF assms(2) that] by simp
  moreover have "g f = policy_getattr f p \<or> (\<exists>a\<in>set u. field_of a = f \<and> g f = a)" for f
    using assms(1) [of f] by (auto split: option.splits dest: assign_get_field)
  ultimately show ?thesis
    by (auto simp: changed_values_of_def filter_empty_conv) metis
qed

lemma apply_update_updated_at:
  "pol_updated_at (apply_update now vals p) =
     (if changed_values_of p (update_values_of vals) = [] then pol_updated_at p else now)"
  by (simp add: apply_update_def Let_def)

lemma update_values_mem:
  "a \<in> set (assign_update d e) \<Longrightarrow> a \<in> set d \<union> set e"
proof (induction e arbitrary: d)
  case (Cons b e)
  moreover have "c \<in> set (assign_set b d) \<Longrightarrow> c = b \<or> c \<in> set d" for c d
    by (induction d) (auto split: if_splits)
  ultimately show ?case by fastforce
qed simp

lemma valid_apply_update:
  assumes "valid_policy p" and "\<And>a. a \<in> set vals \<Longrightarrow> valid_assignment a"
  shows "valid_policy (apply_update now vals p)"
proof -
  have "valid_assignment a" if "a \<in> set (update_values_of vals)" for a
    using that assms(2) valid_preset assign_get_mode [of vals]
    by (auto simp: update_values_of_def Let_def dest!: update_values_mem)
  then have "valid_policy (setattrs (changed_values_of p (update_values_of vals)) p)"
    using assms(1) by (intro valid_setattrs) (auto simp: changed_values_of_def)
  then show ?thesis
    using assms(1) by (simp add: apply_update_def Let_def valid_policy_iff)
qed

section \<open>The repository operations\<close>

lemma find_policy_created:
  assumes "find_policy s w = None" and "create_workspace_safety_policy now w m s = (p, s')"
  shows "find_policy s' w = Some p"
    and "\<And>w'. w' \<noteq> w \<Longrightarrow> find_policy s' w' = find_policy s w'"
    and "db_policies s' = db_policies s @ [p]"
    and "pol_workspace_id p = w"
  using assms
  by (auto simp: create_workspace_safety_policy_def find_policy_def Let_def new_id_def find_append
      column_defaults_def split: option.splits)

lemma valid_created:
  "create_workspace_safety_policy now w m s = (p, s') \<Longrightarrow> valid_policy p"
  by (auto simp: create_workspace_safety_policy_def Let_def new_id_def
      intro!: valid_setattrs valid_column_defaults valid_preset)

lemma getattr_created:
  "create_workspace_safety_policy now w m s = (p, s') \<Longrightarrow>
   policy_getattr f p =
     (case assign_get (apply_preset_defaults m) f of
        Some a \<Rightarrow> a | None \<Rightarrow> A_consecutive_failure_threshold None)"
  by (cases f; cases m)
    (auto simp: create_workspace_safety_policy_def Let_def new_id_def getattr_setattrs
      apply_preset_defaults_def column_defaults_def)

lemma find_policy_updated:
  "find_policy (s\<lparr>db_policies := update_where (\<lambda>r. pol_workspace_id r = w) (apply_update now vals)
       (db_policies s)\<rparr>) w' =
   (if w' = w then map_option (apply_update now vals) (find_policy s w) else find_policy s w')"
proof -
  have *: "find (\<lambda>p. pol_workspace_id p = w') (update_where (\<lambda>r. pol_workspace_id r = w)
             (apply_update now vals) (db_policies s)) =
           map_option (\<lambda>x. if pol_workspace_id x = w then apply_update now vals x else x)
             (find_policy s w')"
    by (subst find_update_where) (simp_all add: find_policy_def)
  show ?thesis
    by (cases "find_policy s w'") (use * in \<open>auto simp: find_policy_def dest: find_mem\<close>)
qed

lemma find_policy_some: "find_policy s w = Some p \<Longrightarrow> p \<in> set (db_policies s) \<and> pol_workspace_id p = w"
  by (auto simp: find_policy_def dest: find_mem)

text \<open>The row an update starts from: the stored one, or the one the repository creates.\<close>

definition policy_before :: "time \<Rightarrow> uuid \<Rightarrow> db \<Rightarrow> workspace_safety_policy" where
  "policy_before now w s =
     (case find_policy s w of
        Some p \<Rightarrow> p | None \<Rightarrow> fst (create_workspace_safety_policy now w Balanced s))"

lemma get_creating_policy:
  assumes "\<not> workspace_safety_policy_temporarily_disabled cfg"
    and "get_workspace_safety_policy cfg now w True s = (r, s')"
  shows "r = Some (policy_before now w s)" and "find_policy s' w = Some (policy_before now w s)"
    and "\<And>w'. w' \<noteq> w \<Longrightarrow> find_policy s' w' = find_policy s w'"
proof -
  obtain p t where c: "create_workspace_safety_policy now w Balanced s = (p, t)"
    by (cases "create_workspace_safety_policy now w Balanced s")
  show "r = Some (policy_before now w s)" "find_policy s' w = Some (policy_before now w s)"
    "\<And>w'. w' \<noteq> w \<Longrightarrow> find_policy s' w' = find_policy s w'"
    using assms c find_policy_created [OF _ c]
    by (cases "find_policy s w"; auto simp: get_workspace_safety_policy_def policy_before_def)+
qed

definition disabled_settings :: settings where
  "disabled_settings =
     \<lparr>workspace_safety_policy_temporarily_disabled = True, safety_gate_redis_fail_open = False\<rparr>"

definition enabled_settings :: settings where
  "enabled_settings =
     \<lparr>workspace_safety_policy_temporarily_disabled = False, safety_gate_redis_fail_open = False\<rparr>"

lemma settings_simps [simp]:
  "workspace_safety_policy_temporarily_disabled disabled_settings"
  "\<not> workspace_safety_policy_temporarily_disabled enabled_settings"
  by (simp_all add: disabled_settings_def enabled_settings_def)

section \<open>Histories of the policy table\<close>

text \<open>
  One request against the policy repository. A PATCH body has passed the request schema: its
  values are in range and its keys, the keys of a JSON object, are distinct.
\<close>

inductive policy_step :: "db \<Rightarrow> db \<Rightarrow> bool" where
  get_step: "get_workspace_safety_policy cfg now w create_if_missing s = (r, s') \<Longrightarrow> policy_step s s'"
| update_step:
    "update_workspace_safety_policy cfg now w vals s = (r, s') \<Longrightarrow>
     distinct (map field_of vals) \<Longrightarrow> list_all valid_assignment vals \<Longrightarrow> policy_step s s'"
| delete_step: "delete_workspace_safety_policy cfg w s = (r, s') \<Longrightarrow> policy_step s s'"

inductive policy_reachable :: "db \<Rightarrow> bool" where
  start: "policy_reachable empty_db"
| step: "policy_reachable s \<Longrightarrow> policy_step s s' \<Longrightarrow> policy_reachable s'"

inductive_cases policy_stepE: "policy_step s s'"

definition policies_ok :: "db \<Rightarrow> bool" where
  "policies_ok s \<longleftrightarrow>
     distinct (map pol_workspace_id (db_policies s)) \<and> (\<forall>p\<in>set (db_policies s). valid_policy p)"

lemma find_policy_None: "find_policy s w = None \<longleftrightarrow> w \<notin> pol_workspace_id ` set (db_policies s)"
  by (auto simp: find_policy_def find_none_iff)

lemma policies_ok_get:
  assumes ok: "policies_ok s" and get: "get_workspace_safety_policy cfg now w c s = (r, s')"
  shows "policies_ok s'"
proof (cases "db_policies s' = db_policies s")
  case True
  with ok show ?thesis by (simp add: policies_ok_def)
next
  case False
  obtain p t where c: "create_workspace_safety_policy now w Balanced s = (p, t)"
    by (cases "create_workspace_safety_policy now w Balanced s")
  from False get c have n: "find_policy s w = None" and s': "s' = t"
    by (auto simp: get_workspace_safety_policy_def split: if_splits option.splits)
  show ?thesis
    using ok find_policy_created [OF n c] valid_created [OF c] n
    by (auto simp: policies_ok_def find_policy_None s')
qed

lemma policies_ok_update:
  assumes ok: "policies_ok s" and upd: "update_workspace_safety_policy cfg now w vals s = (r, s')"
    and v: "list_all valid_assignment vals"
  shows "policies_ok s'"
proof (cases "workspace_safety_policy_temporarily_disabled cfg")
  case True
  with ok upd show ?thesis by (simp add: update_workspace_safety_policy_def)
next
  case False
  obtain q s1 where g: "get_workspace_safety_policy cfg now w True s = (q, s1)"
    by (cases "get_workspace_safety_policy cfg now w True s")
  have "policies_ok s1" using ok g by (rule policies_ok_get)
  then show ?thesis
    using upd False g v
    by (auto simp: update_workspace_safety_policy_def policies_ok_def map_update_where
        in_set_update_where list_all_iff intro!: valid_apply_update split: option.splits)
qed

lemma policies_ok_delete:
  "policies_ok s \<Longrightarrow> delete_workspace_safety_policy cfg w s = (r, s') \<Longrightarrow> policies_ok s'"
  by (auto simp: delete_workspace_safety_policy_def policies_ok_def distinct_map
      intro: inj_on_subset split: if_splits option.splits)

lemma policies_ok_step: "policy_step s s' \<Longrightarrow> policies_ok s \<Longrightarrow> policies_ok s'"
  by (elim policy_stepE) (blast intro: policies_ok_get policies_ok_update policies_ok_delete)+

section \<open>Properties\<close>

text \<open>
  C26. Whatever sequence of reads, PATCH requests and deletions the policy repository serves, with
  the kill switch on or off and on any workspaces, the policy table has at most one row per
  workspace and every row satisfies the field bounds of the request schema.
\<close>

theorem policy_table_invariant: "policy_reachable s \<Longrightarrow> policies_ok s"
proof (induction rule: policy_reachable.induct)
  case start
  show ?case by (simp add: policies_ok_def empty_db_def)
next
  case (step s s')
  then show ?case by (blast intro: policies_ok_step)
qed

theorem policy_table_invariant_witness:
  "policies_ok (snd (update_workspace_safety_policy enabled_settings 5 7
     [A_mode Aggressive, A_min_warmup_days 2] empty_db))"
  by (rule policy_table_invariant, rule policy_reachable.step, rule policy_reachable.start,
      rule update_step [where vals = "[A_mode Aggressive, A_min_warmup_days 2]"],
      rule prod.collapse [symmetric])
    (simp_all add: non_negative_def)

text \<open>
  With the kill switch off a PATCH on a workspace leaves in the table exactly the specified
  row: each public field holds the explicit value of the request, else the preset value of the
  requested mode, else the stored (or freshly created balanced) value; \<open>updated_at\<close> moves only if
  some public field really changed; the row keeps its identity and creation time, the returned
  row is the stored one, and no other workspace is affected.
\<close>

theorem update_policy_effect:
  assumes "\<not> workspace_safety_policy_temporarily_disabled cfg"
    and "distinct (map field_of vals)"
    and "update_workspace_safety_policy cfg now w vals s = (r, s')"
  shows "\<exists>p. r = Inr p \<and> find_policy s' w = Some p \<and>
    (\<forall>f. policy_getattr f p = patched_value (policy_before now w s) vals f) \<and>
    (pol_updated_at p =
       (if \<forall>f. patched_value (policy_before now w s) vals f =
             policy_getattr f (policy_before now w s)
        then pol_updated_at (policy_before now w s) else now)) \<and>
    pol_id p = pol_id (policy_before now w s) \<and>
    pol_created_at p = pol_created_at (policy_before now w s) \<and>
    (\<forall>w'. w' \<noteq> w \<longrightarrow> find_policy s' w' = find_policy s w')"
proof -
  let ?p = "policy_before now w s"
  obtain q s1 where g: "get_workspace_safety_policy cfg now w True s = (q, s1)"
    by (cases "get_workspace_safety_policy cfg now w True s")
  note before = get_creating_policy [OF assms(1) g]
  have r: "r = Inr (apply_update now vals ?p)"
    and s': "s' = s1\<lparr>db_policies := update_where (\<lambda>r. pol_workspace_id r = w)
                 (apply_update now vals) (db_policies s1)\<rparr>"
    using assms(1,3) g before(1) by (simp_all add: update_workspace_safety_policy_def)
  have "(changed_values_of ?p (update_values_of vals) = []) =
        (\<forall>f. patched_value ?p vals f = policy_getattr f ?p)"
    using assign_get_update_values [OF assms(2)] distinct_update_values [OF assms(2)]
    by (rule changed_values_empty)
  then show ?thesis
    using before by (auto simp: r s' find_policy_updated getattr_apply_update [OF assms(2)]
        apply_update_updated_at)
qed

theorem update_policy_effect_witness:
  "\<exists>p. fst (update_workspace_safety_policy enabled_settings 5 7 [A_mode Aggressive] empty_db) = Inr p \<and>
       pol_updated_at p = 5 \<and> pol_mode p = Aggressive"
  using update_policy_effect [where cfg = enabled_settings and now = 5 and w = 7 and s = empty_db
      and vals = "[A_mode Aggressive]", OF _ _ prod.collapse [symmetric]]
  by (auto simp: patched_value_def policy_before_def find_policy_def empty_db_def
      create_workspace_safety_policy_def DEFAULT_LOCAL_WORKSPACE_ID_def new_id_def Let_def
      column_defaults_def dest: spec [where x = F_mode])

text \<open>
  C27. The audit diff of two policies is exact and replayable: it names a field if and only if the
  two policies differ there, assigning the recorded new values to the old policy gives the public
  snapshot of the new one, and assigning the recorded old values to the new policy rolls it back.
\<close>

theorem compute_diff_replays:
  "policy_public_snapshot (setattrs (diff_new (compute_diff old new)) old) = policy_public_snapshot new \<and>
   policy_public_snapshot (setattrs (diff_old (compute_diff old new)) new) = policy_public_snapshot old \<and>
   (\<forall>f. f \<in> set (changed_fields (compute_diff old new)) \<longleftrightarrow>
        policy_getattr f old \<noteq> policy_getattr f new) \<and>
   (changed_fields (compute_diff old new) = [] \<longleftrightarrow>
        policy_public_snapshot old = policy_public_snapshot new)"
proof -
  let ?c = "filter (\<lambda>f. policy_getattr f old \<noteq> policy_getattr f new) PUBLIC_POLICY_FIELDS"
  have d: "distinct ?c" by (intro distinct_filter) (simp add: PUBLIC_POLICY_FIELDS_def)
  have get: "policy_getattr f (setattrs (map (\<lambda>f. policy_getattr f q) ?c) p) =
      (if policy_getattr f old \<noteq> policy_getattr f new then policy_getattr f q
       else policy_getattr f p)" for f p q
    using getattr_setattrs_map [OF d, of f q p] by simp
  have new: "policy_getattr f (setattrs (diff_new (compute_diff old new)) old) = policy_getattr f new"
    and old: "policy_getattr f (setattrs (diff_old (compute_diff old new)) new) = policy_getattr f old"
    for f
    by (simp_all add: compute_diff_def Let_def get)
  have fields: "f \<in> set (changed_fields (compute_diff old new)) \<longleftrightarrow>
      policy_getattr f old \<noteq> policy_getattr f new" for f
    by (simp add: compute_diff_def Let_def)
  then have "changed_fields (compute_diff old new) = [] \<longleftrightarrow>
      (\<forall>f. policy_getattr f old = policy_getattr f new)"
    by (metis list.set_intros(1) neq_Nil_conv empty_iff list.set(1))
  then show ?thesis
    using new old fields by (simp add: policy_public_snapshot_def Ball_def)
qed

text \<open>
  The kill switch: while it is on, reads return a valid neutral policy, every PATCH answers
  with that policy and every deletion answers \<open>False\<close>, and none of the three touches the
  database. The neutral policy has consecutive-failure threshold 20, never requires warmup or a
  healthy proxy, and has zero quarantine hours.
\<close>

theorem kill_switch_is_inert:
  assumes "workspace_safety_policy_temporarily_disabled cfg"
  shows "get_workspace_safety_policy cfg now w c s = (Some (build_disabled_policy w now), s) \<and>
    update_workspace_safety_policy cfg now w vals s = (Inr (build_disabled_policy w now), s) \<and>
    delete_workspace_safety_policy cfg w s = (False, s) \<and>
    valid_policy (build_disabled_policy w now) \<and>
    get_consecutive_failure_threshold (build_disabled_policy w now) = 20 \<and>
    \<not> pol_require_warmup_before_commenting (build_disabled_policy w now) \<and>
    \<not> pol_require_healthy_proxy (build_disabled_policy w now) \<and>
    pol_min_account_age_hours (build_disabled_policy w now) = 0 \<and>
    pol_quarantine_hours_on_flood_wait (build_disabled_policy w now) = 0"
proof -
  have "valid_policy (build_disabled_policy w now)"
    unfolding build_disabled_policy_def
    by (intro valid_setattrs valid_column_defaults valid_overlay)
  then show ?thesis
    using assms
    by (simp add: get_workspace_safety_policy_def update_workspace_safety_policy_def
        delete_workspace_safety_policy_def disabled_policy_simps)
qed

theorem kill_switch_is_inert_witness:
  "update_workspace_safety_policy disabled_settings 3 7 [A_mode Aggressive] empty_db =
     (Inr (build_disabled_policy 7 3), empty_db)"
  using kill_switch_is_inert [of disabled_settings] by simp

end
