(* ===== verification/Quarantine.thy ===== *)
theory Quarantine
  imports Lifecycle SafetyPolicy
begin

text \<open>
  Account quarantines: \<open>account_safety/quarantine.py\<close>. The query of the active quarantine, opening
  and extending, manual and admin release, and the flood-wait handler. Opening or extending moves
  an active account to cold soak through the lifecycle. \<open>datetime.isoformat\<close> in metadata is kept
  as a time value.
\<close>

section \<open>Queries\<close>

definition QUARANTINE_REASONS :: "string list" where
  "QUARANTINE_REASONS =
     [''flood_wait'', ''status_degraded'', ''manual'', ''bought_rest_period'', ''fraud_high'']"

definition unreleased_of :: "uuid \<Rightarrow> uuid \<Rightarrow> account_quarantine \<Rightarrow> bool" where
  "unreleased_of a w q \<longleftrightarrow> q_workspace_id q = w \<and> q_account_id q = a \<and> q_released_at q = None"

definition get_active_quarantine :: "time \<Rightarrow> uuid \<Rightarrow> uuid \<Rightarrow> db \<Rightarrow> account_quarantine option" where
  "get_active_quarantine now a w s =
     latest_by q_until (filter (\<lambda>q. unreleased_of a w q \<and> now < q_until q) (db_quarantines s))"

definition get_unreleased_quarantine :: "uuid \<Rightarrow> uuid \<Rightarrow> db \<Rightarrow> account_quarantine option" where
  "get_unreleased_quarantine a w s =
     latest_by q_until (filter (unreleased_of a w) (db_quarantines s))"

definition is_account_quarantined :: "time \<Rightarrow> uuid \<Rightarrow> uuid \<Rightarrow> db \<Rightarrow> bool" where
  "is_account_quarantined now a w s \<longleftrightarrow> get_active_quarantine now a w s \<noteq> None"

section \<open>Operations\<close>

definition refresh_quarantine_active :: "time \<Rightarrow> uuid \<Rightarrow> string \<Rightarrow> db \<Rightarrow> db" where
  "refresh_quarantine_active now w reason s =
     (let active_count = length (filter (\<lambda>q. q_workspace_id q = w \<and> q_reason q = reason \<and>
                           q_released_at q = None \<and> now < q_until q) (db_quarantines s));
          account_count = length (filter (\<lambda>a. acc_workspace_id a = w) (db_accounts s))
      in emit (M_quarantine_active w reason active_count) (emit (M_account_total w account_count) s))"

definition move_active_account_to_cold_soak ::
  "uuid \<Rightarrow> uuid \<Rightarrow> time \<Rightarrow> string \<Rightarrow> db \<Rightarrow> unit result \<times> db" where
  "move_active_account_to_cold_soak a w now reason s =
     (case find (\<lambda>r. acc_id r = a \<and> acc_workspace_id r = w) (db_accounts s) of
        None \<Rightarrow> (Inr (), s)
      | Some r \<Rightarrow>
          if acc_lifecycle_state r \<noteq> LActive then (Inr (), s)
          else case advance r LColdSoak now reason None False [] s of
            (Inl e, s') \<Rightarrow> (Inl e, s')
          | (Inr _, s') \<Rightarrow> (Inr (), s'))"

definition update_quarantine :: "uuid \<Rightarrow> account_quarantine \<Rightarrow> db \<Rightarrow> db" where
  "update_quarantine i row s =
     s\<lparr>db_quarantines := update_where (\<lambda>q. q_id q = i) (\<lambda>_. row) (db_quarantines s)\<rparr>"

definition create_quarantine ::
  "time \<Rightarrow> uuid \<Rightarrow> uuid \<Rightarrow> string \<Rightarrow> int \<Rightarrow> (string, json) dict \<Rightarrow> db \<Rightarrow>
   account_quarantine result \<times> db" where
  "create_quarantine now a w reason duration_hours metadata s =
     (if reason \<notin> set QUARANTINE_REASONS
      then (Inl (ValueError ''quarantine reason is not supported''), s)
      else if duration_hours \<le> 0 then (Inl (ValueError ''duration_hours must be positive''), s)
      else
        let until = now + hours duration_hours in
        case get_unreleased_quarantine a w s of
          Some existing \<Rightarrow>
            let row = existing\<lparr>q_until := max (q_until existing) until,
                               q_metadata_json :=
                                 (if metadata \<noteq> [] then dict_merge (q_metadata_json existing) metadata
                                  else q_metadata_json existing)\<rparr>;
                s1 = update_quarantine (q_id existing) row s
            in (case move_active_account_to_cold_soak a w now (''quarantine_extended:'' @ reason) s1 of
                  (Inl e, s2) \<Rightarrow> (Inl e, s2)
                | (Inr _, s2) \<Rightarrow> (Inr row, refresh_quarantine_active now w (q_reason row) s2))
        | None \<Rightarrow>
            let (i, s0) = new_id s;
                row = \<lparr>q_id = i, q_workspace_id = w, q_account_id = a, q_reason = reason,
                       q_started_at = now, q_until = until, q_released_at = None,
                       q_released_by_user_id = None, q_metadata_json = metadata\<rparr>;
                s1 = s0\<lparr>db_quarantines := db_quarantines s0 @ [row]\<rparr>
            in (case move_active_account_to_cold_soak a w now (''quarantine_opened:'' @ reason) s1 of
                  (Inl e, s2) \<Rightarrow> (Inl e, s2)
                | (Inr _, s2) \<Rightarrow>
                    (Inr row, refresh_quarantine_active now w reason
                                (emit (M_quarantine_opened w reason) s2))))"

definition release_quarantine ::
  "time \<Rightarrow> uuid \<Rightarrow> uuid \<Rightarrow> uuid \<Rightarrow> string option \<Rightarrow> db \<Rightarrow> account_quarantine result \<times> db" where
  "release_quarantine now quarantine_id w released_by reason s =
     (case find (\<lambda>q. q_id q = quarantine_id \<and> q_workspace_id q = w) (db_quarantines s) of
        None \<Rightarrow> (Inl NotFound, s)
      | Some q \<Rightarrow>
          let row = q\<lparr>q_released_at := Some now, q_released_by_user_id := Some released_by,
                      q_metadata_json :=
                        (case reason of
                           Some r \<Rightarrow> if r \<noteq> [] then dict_set ''release_reason'' (JStr r) (q_metadata_json q)
                                    else q_metadata_json q
                         | None \<Rightarrow> q_metadata_json q)\<rparr>
          in (Inr row, refresh_quarantine_active now w (q_reason row)
                (emit (M_quarantine_released w (q_reason row) ''manual'')
                  (update_quarantine (q_id q) row s))))"

definition admin_override_release ::
  "time \<Rightarrow> uuid \<Rightarrow> uuid \<Rightarrow> uuid \<Rightarrow> string \<Rightarrow> db \<Rightarrow> account_quarantine result \<times> db" where
  "admin_override_release now w a actor_user_id reason s =
     (if length (strip reason) < 10
      then (Inl (ValueError ''reason must be at least 10 characters''), s)
      else case get_active_quarantine now a w s of
        None \<Rightarrow> (Inl NotFound, s)
      | Some q \<Rightarrow>
          let row = q\<lparr>q_released_at := Some now, q_released_by_user_id := Some actor_user_id,
                      q_metadata_json :=
                        dict_set ''admin_override_released_at'' (JTime now)
                          (dict_set ''admin_override_release_reason'' (JStr (strip reason))
                            (q_metadata_json q))\<rparr>
          in (Inr row, refresh_quarantine_active now w (q_reason row)
                (emit (M_quarantine_released w (q_reason row) ''admin_override'')
                  (update_quarantine (q_id q) row s))))"

definition handle_flood_wait ::
  "settings \<Rightarrow> time \<Rightarrow> uuid \<Rightarrow> uuid \<Rightarrow> int \<Rightarrow> string option \<Rightarrow> db \<Rightarrow> account_quarantine result \<times> db" where
  "handle_flood_wait cfg now a w flood_wait_seconds source_attempt_id s =
     (let (policy, s1) = get_workspace_safety_policy cfg now w False s;
          quarantine_hours =
            (case policy of None \<Rightarrow> 24 | Some p \<Rightarrow> pol_quarantine_hours_on_flood_wait p)
      in create_quarantine now a w ''flood_wait'' quarantine_hours
           [(''original_flood_wait_seconds'', JInt flood_wait_seconds),
            (''source_attempt_id'', json_of_str source_attempt_id)] s1)"

section \<open>Lemmas on the queries\<close>

lemma active_quarantine_some:
  "get_active_quarantine now a w s = Some q \<Longrightarrow>
   q \<in> set (db_quarantines s) \<and> unreleased_of a w q \<and> now < q_until q"
  by (auto simp: get_active_quarantine_def dest!: latest_by_mem)

lemma quarantined_iff:
  "is_account_quarantined now a w s \<longleftrightarrow>
   (\<exists>q\<in>set (db_quarantines s). unreleased_of a w q \<and> now < q_until q)"
  by (simp add: is_account_quarantined_def get_active_quarantine_def latest_by_None filter_empty_conv)

lemma unreleased_quarantine_some:
  "get_unreleased_quarantine a w s = Some q \<Longrightarrow> q \<in> set (db_quarantines s) \<and> unreleased_of a w q"
  by (auto simp: get_unreleased_quarantine_def dest!: latest_by_mem)

lemma unreleased_quarantine_none:
  "get_unreleased_quarantine a w s = None \<longleftrightarrow> (\<forall>q\<in>set (db_quarantines s). \<not> unreleased_of a w q)"
  by (simp add: get_unreleased_quarantine_def latest_by_None filter_empty_conv)

lemma refresh_frame [simp]:
  "db_quarantines (refresh_quarantine_active now w r s) = db_quarantines s"
  "db_accounts (refresh_quarantine_active now w r s) = db_accounts s"
  "db_lifecycle_events (refresh_quarantine_active now w r s) = db_lifecycle_events s"
  "db_next_id (refresh_quarantine_active now w r s) = db_next_id s"
  by (simp_all add: refresh_quarantine_active_def emit_def Let_def)

lemma emit_frame [simp]:
  "db_quarantines (emit m s) = db_quarantines s"
  "db_accounts (emit m s) = db_accounts s"
  "db_lifecycle_events (emit m s) = db_lifecycle_events s"
  "db_next_id (emit m s) = db_next_id s"
  by (simp_all add: emit_def)

lemma update_quarantine_frame [simp]:
  "db_accounts (update_quarantine i row s) = db_accounts s"
  "db_lifecycle_events (update_quarantine i row s) = db_lifecycle_events s"
  "db_next_id (update_quarantine i row s) = db_next_id s"
  "db_quarantines (update_quarantine i row s) =
     update_where (\<lambda>q. q_id q = i) (\<lambda>_. row) (db_quarantines s)"
  by (simp_all add: update_quarantine_def)

section \<open>Moving the account\<close>

lemma move_never_fails:
  "fst (move_active_account_to_cold_soak a w now reason s) = Inr ()"
proof (cases "find (\<lambda>r. acc_id r = a \<and> acc_workspace_id r = w) (db_accounts s)")
  case None
  then show ?thesis by (simp add: move_active_account_to_cold_soak_def)
next
  case (Some r)
  show ?thesis
  proof (cases "acc_lifecycle_state r = LActive")
    case True
    then have "is_transition_allowed (acc_lifecycle_state r) LColdSoak False" by simp
    from advance_moves [OF this, of now reason None "[]" s] Some True show ?thesis
      by (auto simp: move_active_account_to_cold_soak_def)
  next
    case False
    with Some show ?thesis by (simp add: move_active_account_to_cold_soak_def)
  qed
qed

lemma move_cases:
  obtains (same) "snd (move_active_account_to_cold_soak a w now reason s) = s"
  | (moved) r where "r \<in> set (db_accounts s)" "acc_id r = a" "acc_workspace_id r = w"
      "acc_lifecycle_state r = LActive"
      "snd (move_active_account_to_cold_soak a w now reason s) =
       snd (advance r LColdSoak now reason None False [] s)"
proof (cases "find (\<lambda>r. acc_id r = a \<and> acc_workspace_id r = w) (db_accounts s)")
  case None
  then show ?thesis using same by (simp add: move_active_account_to_cold_soak_def)
next
  case (Some r)
  then show ?thesis
    using find_mem [OF Some] same moved [of r]
    by (cases "acc_lifecycle_state r = LActive")
      (auto simp: move_active_account_to_cold_soak_def split: prod.splits sum.splits)
qed

lemma move_frame [simp]:
  "db_quarantines (snd (move_active_account_to_cold_soak a w now reason s)) = db_quarantines s"
proof (cases rule: move_cases [of a w now reason s])
  case (moved r)
  then show ?thesis
    by (cases rule: advance_cases [of r LColdSoak now reason None False "[]" s]) auto
qed simp

lemma move_next_id: "db_next_id s \<le> db_next_id (snd (move_active_account_to_cold_soak a w now reason s))"
proof (cases rule: move_cases [of a w now reason s])
  case (moved r)
  then show ?thesis
    by (cases rule: advance_cases [of r LColdSoak now reason None False "[]" s]) auto
qed simp

lemma move_trail: "trail_ok s \<Longrightarrow> trail_ok (snd (move_active_account_to_cold_soak a w now reason s))"
  by (cases rule: move_cases [of a w now reason s]) (auto intro: trail_ok_advance)

lemma trail_ok_cong:
  "db_accounts s' = db_accounts s \<Longrightarrow> db_lifecycle_events s' = db_lifecycle_events s \<Longrightarrow>
   trail_ok s' = trail_ok s"
  by (simp add: trail_ok_def transitions_of_def)

section \<open>What opening does\<close>

definition extended_row ::
  "time \<Rightarrow> int \<Rightarrow> (string, json) dict \<Rightarrow> account_quarantine \<Rightarrow> account_quarantine" where
  "extended_row now h metadata q =
     q\<lparr>q_until := max (q_until q) (now + hours h),
       q_metadata_json := (if metadata \<noteq> [] then dict_merge (q_metadata_json q) metadata
                           else q_metadata_json q)\<rparr>"

lemma extended_row_simps [simp]:
  "q_id (extended_row now h md q) = q_id q"
  "q_workspace_id (extended_row now h md q) = q_workspace_id q"
  "q_account_id (extended_row now h md q) = q_account_id q"
  "q_reason (extended_row now h md q) = q_reason q"
  "q_released_at (extended_row now h md q) = q_released_at q"
  "q_until (extended_row now h md q) = max (q_until q) (now + hours h)"
  "unreleased_of a w (extended_row now h md q) = unreleased_of a w q"
  by (simp_all add: extended_row_def unreleased_of_def)

definition opened_row ::
  "time \<Rightarrow> uuid \<Rightarrow> uuid \<Rightarrow> string \<Rightarrow> int \<Rightarrow> (string, json) dict \<Rightarrow> uuid \<Rightarrow> account_quarantine" where
  "opened_row now a w reason h metadata i =
     \<lparr>q_id = i, q_workspace_id = w, q_account_id = a, q_reason = reason, q_started_at = now,
      q_until = now + hours h, q_released_at = None, q_released_by_user_id = None,
      q_metadata_json = metadata\<rparr>"

lemma opened_row_simps [simp]:
  "q_id (opened_row now a w reason h md i) = i"
  "q_reason (opened_row now a w reason h md i) = reason"
  "q_until (opened_row now a w reason h md i) = now + hours h"
  "unreleased_of a' w' (opened_row now a w reason h md i) \<longleftrightarrow> a' = a \<and> w' = w"
  by (auto simp: opened_row_def unreleased_of_def)

lemma create_rejected:
  "reason \<notin> set QUARANTINE_REASONS \<or> h \<le> 0 \<Longrightarrow>
   \<exists>m. create_quarantine now a w reason h md s = (Inl (ValueError m), s)"
  by (auto simp: create_quarantine_def)

lemma create_extends_eq:
  assumes "reason \<in> set QUARANTINE_REASONS" and "0 < h" and "get_unreleased_quarantine a w s = Some q"
  shows "create_quarantine now a w reason h md s =
    (Inr (extended_row now h md q),
     refresh_quarantine_active now w (q_reason q)
       (snd (move_active_account_to_cold_soak a w now (''quarantine_extended:'' @ reason)
         (update_quarantine (q_id q) (extended_row now h md q) s))))"
  using assms move_never_fails [of a w now "''quarantine_extended:'' @ reason"
      "update_quarantine (q_id q) (extended_row now h md q) s"]
  by (cases "move_active_account_to_cold_soak a w now (''quarantine_extended:'' @ reason)
      (update_quarantine (q_id q) (extended_row now h md q) s)")
    (simp add: create_quarantine_def extended_row_def Let_def)

lemma create_extends:
  assumes "reason \<in> set QUARANTINE_REASONS" and "0 < h" and "get_unreleased_quarantine a w s = Some q"
  shows "\<exists>s'. create_quarantine now a w reason h md s = (Inr (extended_row now h md q), s') \<and>
    db_quarantines s' = update_where (\<lambda>r. q_id r = q_id q) (\<lambda>_. extended_row now h md q) (db_quarantines s) \<and>
    db_next_id s \<le> db_next_id s' \<and> (trail_ok s \<longrightarrow> trail_ok s')"
proof -
  let ?s1 = "update_quarantine (q_id q) (extended_row now h md q) s"
  let ?move = "move_active_account_to_cold_soak a w now (''quarantine_extended:'' @ reason) ?s1"
  have "create_quarantine now a w reason h md s =
      (Inr (extended_row now h md q), refresh_quarantine_active now w (q_reason q) (snd ?move))"
    by (rule create_extends_eq [OF assms])
  then show ?thesis
    using move_trail [of ?s1 a w now "''quarantine_extended:'' @ reason"]
      move_next_id [of ?s1 a w now "''quarantine_extended:'' @ reason"]
      trail_ok_cong [of ?s1 s]
      trail_ok_cong [of "refresh_quarantine_active now w (q_reason q) (snd ?move)" "snd ?move"]
    by simp
qed

lemma create_opens_eq:
  assumes "reason \<in> set QUARANTINE_REASONS" and "0 < h" and "get_unreleased_quarantine a w s = None"
  shows "create_quarantine now a w reason h md s =
    (Inr (opened_row now a w reason h md (db_next_id s)),
     refresh_quarantine_active now w reason
       (emit (M_quarantine_opened w reason)
         (snd (move_active_account_to_cold_soak a w now (''quarantine_opened:'' @ reason)
           (s\<lparr>db_next_id := Suc (db_next_id s),
              db_quarantines := db_quarantines s @ [opened_row now a w reason h md (db_next_id s)]\<rparr>)))))"
  using assms move_never_fails [of a w now "''quarantine_opened:'' @ reason"
      "s\<lparr>db_next_id := Suc (db_next_id s),
         db_quarantines := db_quarantines s @ [opened_row now a w reason h md (db_next_id s)]\<rparr>"]
  by (cases "move_active_account_to_cold_soak a w now (''quarantine_opened:'' @ reason)
      (s\<lparr>db_next_id := Suc (db_next_id s),
         db_quarantines := db_quarantines s @ [opened_row now a w reason h md (db_next_id s)]\<rparr>)")
    (simp add: create_quarantine_def opened_row_def Let_def new_id_def)

lemma create_opens:
  assumes "reason \<in> set QUARANTINE_REASONS" and "0 < h" and "get_unreleased_quarantine a w s = None"
  shows "\<exists>s'. create_quarantine now a w reason h md s = (Inr (opened_row now a w reason h md (db_next_id s)), s') \<and>
    db_quarantines s' = db_quarantines s @ [opened_row now a w reason h md (db_next_id s)] \<and>
    db_next_id s < db_next_id s' \<and> (trail_ok s \<longrightarrow> trail_ok s')"
proof -
  let ?row = "opened_row now a w reason h md (db_next_id s)"
  let ?s1 = "s\<lparr>db_next_id := Suc (db_next_id s), db_quarantines := db_quarantines s @ [?row]\<rparr>"
  let ?move = "move_active_account_to_cold_soak a w now (''quarantine_opened:'' @ reason) ?s1"
  let ?s' = "refresh_quarantine_active now w reason (emit (M_quarantine_opened w reason) (snd ?move))"
  have "create_quarantine now a w reason h md s = (Inr ?row, ?s')"
    by (rule create_opens_eq [OF assms])
  then show ?thesis
    using move_trail [of ?s1 a w now "''quarantine_opened:'' @ reason"]
      move_next_id [of ?s1 a w now "''quarantine_opened:'' @ reason"]
      trail_ok_cong [of ?s1 s] trail_ok_cong [of ?s' "snd ?move"]
    by simp
qed

text \<open>What every step of the operation keeps, the operation keeps.\<close>

lemma create_quarantine_keeps:
  assumes "P s"
    and "\<And>t i row. P t \<Longrightarrow> P (update_quarantine i row t)"
    and "\<And>t n qs. P t \<Longrightarrow> P (t\<lparr>db_next_id := n, db_quarantines := qs\<rparr>)"
    and "\<And>t r. P t \<Longrightarrow> P (refresh_quarantine_active now w r t)"
    and "\<And>t m. P t \<Longrightarrow> P (emit m t)"
    and "\<And>t r. P t \<Longrightarrow> P (snd (move_active_account_to_cold_soak a w now r t))"
  shows "P (snd (create_quarantine now a w reason h md s))"
proof (cases "reason \<in> set QUARANTINE_REASONS \<and> 0 < h")
  case False
  then show ?thesis
    using assms(1) create_rejected [of reason h now a w md s] by fastforce
next
  case True
  show ?thesis
  proof (cases "get_unreleased_quarantine a w s")
    case None
    then show ?thesis
      using True assms by (simp add: create_opens_eq)
  next
    case (Some q)
    then show ?thesis
      using True assms by (simp add: create_extends_eq)
  qed
qed

section \<open>The quarantine table\<close>

definition quarantines_ok :: "db \<Rightarrow> bool" where
  "quarantines_ok s \<longleftrightarrow>
     distinct (map q_id (db_quarantines s)) \<and>
     (\<forall>q\<in>set (db_quarantines s). q_id q < db_next_id s) \<and>
     (\<forall>q\<in>set (db_quarantines s). \<forall>r\<in>set (db_quarantines s). \<forall>a w.
        unreleased_of a w q \<longrightarrow> unreleased_of a w r \<longrightarrow> q = r)"

lemma quarantines_ok_same:
  "quarantines_ok s \<Longrightarrow> db_quarantines s' = db_quarantines s \<Longrightarrow> db_next_id s \<le> db_next_id s' \<Longrightarrow>
   quarantines_ok s'"
  by (auto simp: quarantines_ok_def)

lemma quarantines_ok_append:
  assumes "quarantines_ok s" and "get_unreleased_quarantine a w s = None"
    and "db_quarantines s' = db_quarantines s @ [opened_row now a w reason h md (db_next_id s)]"
    and "db_next_id s < db_next_id s'"
  shows "quarantines_ok s'"
  using assms unfolding quarantines_ok_def unreleased_quarantine_none
  by (auto intro: less_trans)

text \<open>Rewriting one row, keeping its identity and at most releasing it.\<close>

lemma quarantines_ok_replace:
  assumes ok: "quarantines_ok s" and q: "q \<in> set (db_quarantines s)"
    and id: "q_id row = q_id q" and rel: "\<And>a w. unreleased_of a w row \<Longrightarrow> unreleased_of a w q"
    and s': "db_quarantines s' = update_where (\<lambda>r. q_id r = q_id q) (\<lambda>_. row) (db_quarantines s)"
    and fresh_id: "db_next_id s \<le> db_next_id s'"
  shows "quarantines_ok s'"
proof -
  have uniq: "r = q" if "r \<in> set (db_quarantines s)" "q_id r = q_id q" for r
    using ok q that by (auto simp: quarantines_ok_def distinct_map dest: inj_onD)
  have ids: "map q_id (db_quarantines s') = map q_id (db_quarantines s)"
    unfolding s' update_where_def using id by simp
  have mem: "r \<in> set (db_quarantines s') \<Longrightarrow> r = row \<or> (r \<in> set (db_quarantines s) \<and> q_id r \<noteq> q_id q)" for r
    by (auto simp: s' in_set_update_where split: if_splits)
  have "q_id r < db_next_id s'" if "r \<in> set (db_quarantines s')" for r
    using mem [OF that] ok q id fresh_id by (auto simp: quarantines_ok_def intro: less_le_trans)
  moreover have "r = t" if "r \<in> set (db_quarantines s')" "t \<in> set (db_quarantines s')"
    "unreleased_of a w r" "unreleased_of a w t" for r t a w
  proof -
    have one: "x = y" if "x \<in> set (db_quarantines s)" "y \<in> set (db_quarantines s)"
      "unreleased_of a w x" "unreleased_of a w y" for x y
      using ok that unfolding quarantines_ok_def by blast
    show ?thesis
      using mem [OF that(1)] mem [OF that(2)] that(3,4) rel [of a w] q one by metis
  qed
  ultimately show ?thesis
    using ok by (simp add: quarantines_ok_def ids)
qed

lemma create_quarantine_ok:
  assumes "quarantines_ok s"
  shows "quarantines_ok (snd (create_quarantine now a w reason h md s))"
proof (cases "reason \<in> set QUARANTINE_REASONS \<and> 0 < h")
  case False
  then show ?thesis
    using assms create_rejected [of reason h now a w md s] by fastforce
next
  case True
  show ?thesis
  proof (cases "get_unreleased_quarantine a w s")
    case None
    with create_opens [of reason h a w s now md] True assms show ?thesis
      by (auto intro: quarantines_ok_append)
  next
    case (Some q)
    then obtain s' where "snd (create_quarantine now a w reason h md s) = s'"
      and "db_quarantines s' = update_where (\<lambda>r. q_id r = q_id q) (\<lambda>_. extended_row now h md q) (db_quarantines s)"
      and "db_next_id s \<le> db_next_id s'"
      using create_extends [of reason h a w s q now md] True by auto
    with assms unreleased_quarantine_some [OF Some] show ?thesis
      using quarantines_ok_replace [of s q "extended_row now h md q" s'] by simp
  qed
qed

lemma create_quarantine_trail:
  assumes "trail_ok s"
  shows "trail_ok (snd (create_quarantine now a w reason h md s))"
proof (cases "reason \<in> set QUARANTINE_REASONS \<and> 0 < h")
  case False
  then show ?thesis using assms create_rejected [of reason h now a w md s] by fastforce
next
  case True
  with create_opens [of reason h a w s now md] create_extends [of reason h a w s _ now md] assms
  show ?thesis by (cases "get_unreleased_quarantine a w s") auto
qed

section \<open>Releases\<close>

definition released_row ::
  "time \<Rightarrow> uuid \<Rightarrow> (string, json) dict \<Rightarrow> account_quarantine \<Rightarrow> account_quarantine" where
  "released_row now who md q =
     q\<lparr>q_released_at := Some now, q_released_by_user_id := Some who, q_metadata_json := md\<rparr>"

lemma released_row_simps [simp]:
  "q_id (released_row now who md q) = q_id q"
  "\<not> unreleased_of a w (released_row now who md q)"
  by (simp_all add: released_row_def unreleased_of_def)

text \<open>A release either fails without touching the database or rewrites one row as released.\<close>

lemma release_cases:
  obtains (failed) "release_quarantine now i w by_user reason s = (Inl NotFound, s)"
      and "\<forall>q\<in>set (db_quarantines s). \<not> (q_id q = i \<and> q_workspace_id q = w)"
  | (released) q md s' where "q \<in> set (db_quarantines s)" and "q_id q = i" and "q_workspace_id q = w"
      and "release_quarantine now i w by_user reason s = (Inr (released_row now by_user md q), s')"
      and "db_quarantines s' = update_where (\<lambda>r. q_id r = q_id q) (\<lambda>_. released_row now by_user md q)
             (db_quarantines s)"
      and "db_next_id s' = db_next_id s" and "db_accounts s' = db_accounts s"
      and "db_lifecycle_events s' = db_lifecycle_events s"
proof (cases "find (\<lambda>q. q_id q = i \<and> q_workspace_id q = w) (db_quarantines s)")
  case None
  show ?thesis
    by (rule failed)
      (use None in \<open>simp add: release_quarantine_def\<close>, use None in \<open>auto simp: find_none_iff\<close>)
next
  case (Some q)
  show ?thesis
    by (rule released [of q _ "snd (release_quarantine now i w by_user reason s)"])
      (use Some find_mem [OF Some] in \<open>auto simp: release_quarantine_def released_row_def Let_def\<close>)
qed

lemma override_cases:
  obtains (rejected) e where "admin_override_release now w a actor reason s = (Inl e, s)"
      and "length (strip reason) < 10 \<and> (\<exists>m. e = ValueError m) \<or>
           \<not> is_account_quarantined now a w s \<and> e = NotFound"
  | (released) q md s' where "10 \<le> length (strip reason)"
      and "q \<in> set (db_quarantines s)" and "unreleased_of a w q" and "now < q_until q"
      and "admin_override_release now w a actor reason s = (Inr (released_row now actor md q), s')"
      and "db_quarantines s' = update_where (\<lambda>r. q_id r = q_id q) (\<lambda>_. released_row now actor md q)
             (db_quarantines s)"
      and "db_next_id s' = db_next_id s" and "db_accounts s' = db_accounts s"
      and "db_lifecycle_events s' = db_lifecycle_events s"
      and "dict_get md ''admin_override_release_reason'' = Some (JStr (strip reason))"
proof (cases "length (strip reason) < 10")
  case True
  show ?thesis by (rule rejected [OF _ disjI1]) (use True in \<open>auto simp: admin_override_release_def\<close>)
next
  case False
  show ?thesis
  proof (cases "get_active_quarantine now a w s")
    case None
    show ?thesis
      by (rule rejected [OF _ disjI2])
        (use False None in \<open>auto simp: admin_override_release_def is_account_quarantined_def\<close>)
  next
    case (Some q)
    show ?thesis
      by (rule released [of q _ "snd (admin_override_release now w a actor reason s)"])
        (use False Some active_quarantine_some [OF Some]
          in \<open>auto simp: admin_override_release_def released_row_def Let_def dict_get_set\<close>)
  qed
qed

lemma quarantines_ok_released:
  "quarantines_ok s \<Longrightarrow> q \<in> set (db_quarantines s) \<Longrightarrow>
   db_quarantines s' = update_where (\<lambda>r. q_id r = q_id q) (\<lambda>_. released_row now u md q) (db_quarantines s) \<Longrightarrow>
   db_next_id s' = db_next_id s \<Longrightarrow> quarantines_ok s'"
  using quarantines_ok_replace [of s q "released_row now u md q" s'] by simp

lemma release_ok: "quarantines_ok s \<Longrightarrow> quarantines_ok (snd (release_quarantine now i w u r s))"
  by (cases rule: release_cases [of now i w u r s])
    (simp_all add: quarantines_ok_released)

lemma override_ok: "quarantines_ok s \<Longrightarrow> quarantines_ok (snd (admin_override_release now w a u r s))"
  by (cases rule: override_cases [of now w a u r s])
    (simp_all add: quarantines_ok_released)

section \<open>Properties\<close>

text \<open>
  Opening a quarantine, on every branch: an unsupported reason or a non-positive duration is
  refused and changes nothing; otherwise the returned row lasts at least the requested time, never
  less than the quarantine that was already open (which is the row that is extended), and the
  account is quarantined at every instant before the end of the returned row.
\<close>

theorem create_quarantine_spec:
  assumes "quarantines_ok s"
  shows "(if reason \<notin> set QUARANTINE_REASONS \<or> h \<le> 0
    then \<exists>m. create_quarantine now a w reason h md s = (Inl (ValueError m), s)
    else \<exists>row s'. create_quarantine now a w reason h md s = (Inr row, s') \<and>
      now + hours h \<le> q_until row \<and>
      (\<forall>t. is_account_quarantined t a w s' \<longleftrightarrow> t < q_until row) \<and>
      (\<forall>t. is_account_quarantined t a w s \<longrightarrow> is_account_quarantined t a w s') \<and>
      (case get_unreleased_quarantine a w s of
         Some q \<Rightarrow> q_id row = q_id q \<and> q_until row = max (q_until q) (now + hours h)
       | None \<Rightarrow> q_id row = db_next_id s \<and> q_until row = now + hours h \<and> q_reason row = reason))"
proof (cases "reason \<in> set QUARANTINE_REASONS \<and> 0 < h")
  case False
  with create_rejected [of reason h now a w md s] show ?thesis by auto
next
  case True
  show ?thesis
  proof (cases "get_unreleased_quarantine a w s")
    case None
    then have none: "\<not> unreleased_of a w q" if "q \<in> set (db_quarantines s)" for q
      using that by (simp add: unreleased_quarantine_none)
    from create_opens [of reason h a w s now md] True None show ?thesis
      by (auto simp: quarantined_iff dest: none)
  next
    case (Some q)
    have "r = q" if "r \<in> set (db_quarantines s)" "unreleased_of a w r \<or> q_id r = q_id q" for r
      using assms that unreleased_quarantine_some [OF Some]
      by (auto simp: quarantines_ok_def distinct_map dest: inj_onD)
    then have "(\<exists>r\<in>set (update_where (\<lambda>r. q_id r = q_id q) (\<lambda>_. extended_row now h md q) (db_quarantines s)).
        unreleased_of a w r \<and> t < q_until r) \<longleftrightarrow> t < max (q_until q) (now + hours h)" for t
      using unreleased_quarantine_some [OF Some] by (auto simp: ex_replaced)
    moreover have "is_account_quarantined t a w s \<Longrightarrow> t < q_until q" for t
      using \<open>\<And>r. _ \<Longrightarrow> _ \<Longrightarrow> r = q\<close> by (auto simp: quarantined_iff)
    ultimately show ?thesis
      using create_extends [of reason h a w s q now md] True Some
      by (fastforce simp: quarantined_iff)
  qed
qed

theorem create_quarantine_spec_witness:
  "\<exists>row s'. create_quarantine 0 1 7 ''manual'' 2 [] empty_db = (Inr row, s') \<and>
     is_account_quarantined 7199999999 1 7 s' \<and> \<not> is_account_quarantined 7200000000 1 7 s'"
proof -
  have "quarantines_ok empty_db" by (simp add: quarantines_ok_def empty_db_def)
  moreover have "''manual'' \<in> set QUARANTINE_REASONS" by (simp add: QUARANTINE_REASONS_def)
  moreover have "get_unreleased_quarantine 1 7 empty_db = None"
    by (simp add: get_unreleased_quarantine_def empty_db_def)
  ultimately show ?thesis
    using create_quarantine_spec [of empty_db "''manual''" 2 0 1 7 "[]"]
    by (auto simp: hours_def)
qed

inductive quarantine_step :: "db \<Rightarrow> db \<Rightarrow> bool" where
  opened: "quarantine_step s (snd (create_quarantine now a w reason h md s))"
| released: "quarantine_step s (snd (release_quarantine now i w u r s))"
| overridden: "quarantine_step s (snd (admin_override_release now w a u r s))"
| moved_by_lifecycle:
    "acc \<in> set (db_accounts s) \<Longrightarrow> quarantine_step s (snd (advance acc t now reason actor m md s))"

inductive_cases quarantine_stepE: "quarantine_step s s'"

lemma advance_quarantines:
  "db_quarantines (snd (advance acc t now reason actor m md s)) = db_quarantines s \<and>
   db_next_id s \<le> db_next_id (snd (advance acc t now reason actor m md s))"
  by (cases rule: advance_cases [of acc t now reason actor m md s]) simp_all

lemma release_trail: "trail_ok s \<Longrightarrow> trail_ok (snd (release_quarantine now i w u r s))"
  by (cases rule: release_cases [of now i w u r s]) (simp_all add: trail_ok_def transitions_of_def)

lemma override_trail: "trail_ok s \<Longrightarrow> trail_ok (snd (admin_override_release now w a u r s))"
  by (cases rule: override_cases [of now w a u r s]) (simp_all add: trail_ok_def transitions_of_def)

lemma quarantine_step_ok:
  "quarantine_step s s' \<Longrightarrow> quarantines_ok s \<and> trail_ok s \<Longrightarrow> quarantines_ok s' \<and> trail_ok s'"
  by (elim quarantine_stepE)
    (auto intro: create_quarantine_ok create_quarantine_trail release_ok release_trail override_ok
      override_trail trail_ok_advance quarantines_ok_same simp: advance_quarantines)

text \<open>
  C30. In every history of openings, extensions, manual releases, admin overrides and lifecycle
  moves, accepted or refused, that starts from a consistent database: an account has at most one
  unreleased quarantine in a workspace, quarantine identifiers are unique, and the lifecycle audit
  trail still replays to the current state of every account.
\<close>

theorem quarantine_history_invariant:
  "quarantine_step\<^sup>*\<^sup>* s s' \<Longrightarrow> quarantines_ok s \<and> trail_ok s \<Longrightarrow>
   distinct (map q_id (db_quarantines s')) \<and> trail_ok s' \<and>
   (\<forall>q\<in>set (db_quarantines s'). \<forall>r\<in>set (db_quarantines s').
      unreleased_of a w q \<longrightarrow> unreleased_of a w r \<longrightarrow> q = r)"
proof -
  have "quarantine_step\<^sup>*\<^sup>* s s' \<Longrightarrow> quarantines_ok s \<and> trail_ok s \<Longrightarrow> quarantines_ok s' \<and> trail_ok s'"
    by (induction rule: rtranclp_induct) (auto dest: quarantine_step_ok)
  then show "quarantine_step\<^sup>*\<^sup>* s s' \<Longrightarrow> quarantines_ok s \<and> trail_ok s \<Longrightarrow> ?thesis"
    by (simp add: quarantines_ok_def)
qed

theorem quarantine_history_invariant_witness:
  "trail_ok (snd (create_quarantine 9 1 7 ''manual'' 2 []
     (snd (create_quarantine 0 1 7 ''flood_wait'' 1 [] one_account_db))))"
proof -
  have ok: "quarantines_ok one_account_db \<and> trail_ok one_account_db"
    by (simp add: quarantines_ok_def trail_ok_def one_account_db_def empty_db_def imported_account_def
        transitions_of_def)
  have "quarantine_step\<^sup>*\<^sup>* one_account_db (snd (create_quarantine 9 1 7 ''manual'' 2 []
     (snd (create_quarantine 0 1 7 ''flood_wait'' 1 [] one_account_db))))"
    by (rule rtranclp.rtrancl_into_rtrancl [OF r_into_rtranclp]) (rule opened)+
  from quarantine_history_invariant [OF this ok] show ?thesis by blast
qed

text \<open>
  The admin override works: with a reason of at least ten characters after stripping and an
  active quarantine, the account is free at every instant afterwards, the reason is recorded, and
  other accounts are unaffected; otherwise an error is returned and nothing changes.
\<close>

theorem admin_override_spec:
  assumes "quarantines_ok s"
  shows "(if 10 \<le> length (strip reason) \<and> is_account_quarantined now a w s
    then \<exists>row s'. admin_override_release now w a actor reason s = (Inr row, s') \<and>
      q_released_at row = Some now \<and>
      dict_get (q_metadata_json row) ''admin_override_release_reason'' = Some (JStr (strip reason)) \<and>
      (\<forall>t. \<not> is_account_quarantined t a w s') \<and>
      (\<forall>t a' w'. (a', w') \<noteq> (a, w) \<longrightarrow>
         is_account_quarantined t a' w' s' = is_account_quarantined t a' w' s)
    else \<exists>e. admin_override_release now w a actor reason s = (Inl e, s))"
proof (cases rule: override_cases [of now w a actor reason s])
  case (rejected e)
  then show ?thesis by auto
next
  case (released q md s')
  have uniq: "r = q" if "r \<in> set (db_quarantines s)" "unreleased_of a w r \<or> q_id r = q_id q" for r
    using assms that released(2,3) by (auto simp: quarantines_ok_def distinct_map dest: inj_onD)
  have "\<not> is_account_quarantined t a w s'" for t
    unfolding quarantined_iff released(6) ex_replaced [OF released(2)] using uniq by auto
  moreover have "is_account_quarantined t a' w' s' = is_account_quarantined t a' w' s"
    if "(a', w') \<noteq> (a, w)" for t a' w'
  proof -
    have "\<not> unreleased_of a' w' q" using released(3) that by (auto simp: unreleased_of_def)
    then show ?thesis
      unfolding quarantined_iff released(6) ex_replaced [OF released(2)] using uniq by auto
  qed
  moreover have "is_account_quarantined now a w s"
    using released(2-4) by (auto simp: quarantined_iff)
  ultimately show ?thesis
    using released by (simp add: released_row_def)
qed

theorem admin_override_spec_witness:
  "\<exists>row s'. admin_override_release 5 7 1 9 ''checked by hand''
     (snd (create_quarantine 0 1 7 ''manual'' 2 [] empty_db)) = (Inr row, s') \<and>
     \<not> is_account_quarantined 6 1 7 s'"
proof -
  let ?s = "snd (create_quarantine 0 1 7 ''manual'' 2 [] empty_db)"
  have "quarantines_ok ?s"
    by (rule create_quarantine_ok) (simp add: quarantines_ok_def empty_db_def)
  moreover have "is_account_quarantined 5 1 7 ?s"
    by (simp add: quarantined_iff create_quarantine_def QUARANTINE_REASONS_def new_id_def empty_db_def
        get_unreleased_quarantine_def move_active_account_to_cold_soak_def unreleased_of_def hours_def Let_def)
  moreover have "10 \<le> length (strip ''checked by hand'')" by code_simp
  ultimately show ?thesis
    using admin_override_spec [of ?s "''checked by hand''" 5 1 7 9] by auto
qed

text \<open>
  C31. The flood-wait handler opens or extends a quarantine of the hours the workspace policy
  gives (24 without a policy), unless these hours are not positive: a quarantine it opens ends exactly
  so many hours from now, and one that was open ends then or when it would have ended, whichever is
  later. While the kill switch is on the hours are zero: the handler then always raises
  \<open>ValueError\<close> and no quarantine is opened.
\<close>

theorem handle_flood_wait_spec:
  "(let hrs = (if workspace_safety_policy_temporarily_disabled cfg then 0
               else case find_policy s w of None \<Rightarrow> 24 | Some p \<Rightarrow> pol_quarantine_hours_on_flood_wait p)
    in if hrs \<le> 0
       then \<exists>m. handle_flood_wait cfg now a w secs src s = (Inl (ValueError m), s)
       else \<exists>row s'. handle_flood_wait cfg now a w secs src s = (Inr row, s') \<and>
              q_until row = (case get_unreleased_quarantine a w s of
                  None \<Rightarrow> now + hours hrs | Some q \<Rightarrow> max (q_until q) (now + hours hrs)) \<and>
              row \<in> set (db_quarantines s') \<and> unreleased_of a w row)"
proof -
  let ?hrs = "if workspace_safety_policy_temporarily_disabled cfg then 0
              else case find_policy s w of None \<Rightarrow> 24 | Some p \<Rightarrow> pol_quarantine_hours_on_flood_wait p"
  let ?md = "[(''original_flood_wait_seconds'', JInt secs), (''source_attempt_id'', json_of_str src)]"
  have eq: "handle_flood_wait cfg now a w secs src s = create_quarantine now a w ''flood_wait'' ?hrs ?md s"
    by (simp add: handle_flood_wait_def get_workspace_safety_policy_def split: option.split)
  have supported: "''flood_wait'' \<in> set QUARANTINE_REASONS" by (simp add: QUARANTINE_REASONS_def)
  have "\<exists>row s'. create_quarantine now a w ''flood_wait'' ?hrs ?md s = (Inr row, s') \<and>
      q_until row = (case get_unreleased_quarantine a w s of
          None \<Rightarrow> now + hours ?hrs | Some q \<Rightarrow> max (q_until q) (now + hours ?hrs)) \<and>
      row \<in> set (db_quarantines s') \<and> unreleased_of a w row"
    if pos: "0 < ?hrs"
  proof (cases "get_unreleased_quarantine a w s")
    case None
    from create_opens [OF supported pos None, of now ?md] show ?thesis by (auto simp: None)
  next
    case (Some q)
    from create_extends [OF supported pos Some, of now ?md] unreleased_quarantine_some [OF Some]
    show ?thesis by (fastforce simp: in_set_update_where Some)
  qed
  with create_rejected [of "''flood_wait''" ?hrs now a w ?md s] show ?thesis
    unfolding eq Let_def by (metis not_le)
qed

end
