(* ===== verification/StatusMonitor.thy ===== *)
theory StatusMonitor
  imports Survival Quarantine
begin

text \<open>
  The account status monitor: \<open>account_safety/status_monitor.py\<close>,
  \<open>account_safety/status_monitor_helpers.py\<close> and \<open>account_safety/terminal_status.py\<close>. The SHA-256
  digest of \<open>hashlib\<close> is a parameter \<open>sha\<close> of the operations (a function on strings), the probe a
  function from accounts to probe results. \<open>FOR UPDATE SKIP LOCKED\<close> and the Redis script that
  releases the lock are run without a concurrent process.
\<close>

section \<open>Probes\<close>

record probe_result =
  pb_proxy_healthy :: bool
  pb_proxy_host :: "string option"
  pb_tdlib_authorized :: bool
  pb_device_model :: "string option"
  pb_error_code :: "string option"
  pb_error_class :: "string option"

definition IP_CHANGE_COOLDOWN_MINUTES :: int where "IP_CHANGE_COOLDOWN_MINUTES = 30"
definition STICKY_IP_MAX_DISTINCT_HASHES :: nat where "STICKY_IP_MAX_DISTINCT_HASHES = 3"
definition TERMINAL_AUTH_FAILURE_THRESHOLD :: int where "TERMINAL_AUTH_FAILURE_THRESHOLD = 5"
definition STATUS_MONITOR_BATCH_SIZE :: nat where "STATUS_MONITOR_BATCH_SIZE = 500"

definition HEALTHY_PROXY_STATUSES :: "string list" where
  "HEALTHY_PROXY_STATUSES = [''ok'', ''tcp_working'', ''tdlib_working'']"

definition AUTHORIZED_STATES :: "account_state list" where
  "AUTHORIZED_STATES = [AuthorizedReady, ExecutionUsable]"

definition BANNED_TDLIB_ERROR_MARKERS :: "string list" where
  "BANNED_TDLIB_ERROR_MARKERS = [''USER_DEACTIVATED_BAN'', ''AUTH_KEY_UNREGISTERED'']"

definition DELETED_TDLIB_ERROR_MARKERS :: "string list" where
  "DELETED_TDLIB_ERROR_MARKERS = [''USER_DEACTIVATED'']"

definition AUTH_ERROR_CLASSES :: "string list" where
  "AUTH_ERROR_CLASSES = [''AUTH'', ''AUTH_STATE'', ''AUTHORIZATION'', ''TDLIB_AUTH'']"

definition AUTO_PAUSE_WARMUP_STATUSES :: "warmup_status list" where
  "AUTO_PAUSE_WARMUP_STATUSES = [WValidating, WScheduled, WActive]"

definition SENSITIVE_WARMUP_EVENT_KEYS :: "string list" where
  "SENSITIVE_WARMUP_EVENT_KEYS =
     [''api_hash'', ''api_key'', ''auth_key'', ''password'', ''proxy_password'', ''session'',
      ''session_string'', ''tdlib_path'']"

text \<open>\<open>DatabaseSnapshotStatusProbe.check\<close>.\<close>

definition snapshot_probe :: "account \<Rightarrow> probe_result" where
  "snapshot_probe a =
     \<lparr>pb_proxy_healthy = (case acc_proxy a of None \<Rightarrow> False | Some p \<Rightarrow> px_status p \<in> set HEALTHY_PROXY_STATUSES),
      pb_proxy_host = map_option px_host (acc_proxy a),
      pb_tdlib_authorized =
        (case acc_runtime_state a of
           None \<Rightarrow> False
         | Some r \<Rightarrow> rs_session_present r \<and> \<not> rs_reauth_required r \<and>
                    acc_account_state a \<in> set AUTHORIZED_STATES),
      pb_device_model = None, pb_error_code = None, pb_error_class = None\<rparr>"

definition hash_text :: "(string \<Rightarrow> string) \<Rightarrow> string option \<Rightarrow> string option" where
  "hash_text sha v = (if truthy v then Some (sha (lower (strip (the v)))) else None)"

section \<open>Helpers\<close>

definition observation_of :: "uuid \<Rightarrow> uuid \<Rightarrow> account_status_observation \<Rightarrow> bool" where
  "observation_of a w ob \<longleftrightarrow> ob_workspace_id ob = w \<and> ob_account_id ob = a"

definition latest_observation :: "uuid \<Rightarrow> uuid \<Rightarrow> db \<Rightarrow> account_status_observation option" where
  "latest_observation a w s = latest_by ob_observed_at (filter (observation_of a w) (db_observations s))"

definition next_consecutive_failures :: "account_status_observation option \<Rightarrow> probe_result \<Rightarrow> int" where
  "next_consecutive_failures previous p =
     (if pb_proxy_healthy p \<and> pb_tdlib_authorized p then 0
      else (case previous of None \<Rightarrow> 0 | Some ob \<Rightarrow> ob_consecutive_failures ob) + 1)"

definition changed :: "string option \<Rightarrow> string option \<Rightarrow> bool" where
  "changed previous_hash current_hash \<longleftrightarrow>
     truthy previous_hash \<and> truthy current_hash \<and> previous_hash \<noteq> current_hash"

definition distinct_proxy_hashes_last_hour :: "time \<Rightarrow> uuid \<Rightarrow> uuid \<Rightarrow> db \<Rightarrow> nat" where
  "distinct_proxy_hashes_last_hour now a w s =
     length (remdups (filter (\<lambda>h. h \<noteq> None)
       (map ob_proxy_ip_hash
         (filter (\<lambda>ob. observation_of a w ob \<and> now - minutes 60 \<le> ob_observed_at ob) (db_observations s)))))"

definition crossed_failure_threshold :: "account_status_observation option \<Rightarrow> int \<Rightarrow> int \<Rightarrow> bool" where
  "crossed_failure_threshold previous consecutive_failures threshold \<longleftrightarrow>
     (case previous of None \<Rightarrow> 0 | Some ob \<Rightarrow> ob_consecutive_failures ob) < threshold \<and>
     threshold \<le> consecutive_failures"

definition normalize_error_token :: "string option \<Rightarrow> string" where
  "normalize_error_token v = upper (strip (case v of None \<Rightarrow> [] | Some t \<Rightarrow> t))"

definition is_auth_class_error :: "probe_result \<Rightarrow> bool" where
  "is_auth_class_error p =
     (let error_class = normalize_error_token (pb_error_class p) in
      if error_class \<in> set AUTH_ERROR_CLASSES \<or> contains ''AUTH'' error_class then True
      else contains ''AUTH'' (normalize_error_token (pb_error_code p)))"

definition terminal_status_from_probe :: "probe_result \<Rightarrow> int \<Rightarrow> terminal_status option" where
  "terminal_status_from_probe p consecutive_failures =
     (let error_code = normalize_error_token (pb_error_code p) in
      if list_ex (\<lambda>m. contains m error_code) BANNED_TDLIB_ERROR_MARKERS then Some TermBanned
      else if list_ex (\<lambda>m. contains m error_code) DELETED_TDLIB_ERROR_MARKERS then Some TermDeleted
      else if TERMINAL_AUTH_FAILURE_THRESHOLD \<le> consecutive_failures \<and> is_auth_class_error p
      then Some TermBanned else None)"

fun terminal_text :: "terminal_status \<Rightarrow> string" where
  "terminal_text TermNone = ''none''"
| "terminal_text TermBanned = ''banned''"
| "terminal_text TermDeleted = ''deleted''"
| "terminal_text TermSuspended = ''suspended''"

fun sanitize_warmup_value :: "json \<Rightarrow> json" where
  "sanitize_warmup_value (JObj d) =
     JObj (map (\<lambda>(k, v). (k, if lower k \<in> set SENSITIVE_WARMUP_EVENT_KEYS then JStr ''[redacted]''
                            else sanitize_warmup_value v)) d)"
| "sanitize_warmup_value (JList xs) =
     JList (map (\<lambda>x. case x of JObj _ \<Rightarrow> sanitize_warmup_value x | _ \<Rightarrow> x) xs)"
| "sanitize_warmup_value v = v"

definition sanitize_warmup_event_payload :: "(string, json) dict \<Rightarrow> (string, json) dict" where
  "sanitize_warmup_event_payload d = (case sanitize_warmup_value (JObj d) of JObj e \<Rightarrow> e | _ \<Rightarrow> [])"

text \<open>The monitor writes warm-up events of its own, with the default severity of the column.\<close>

definition write_monitor_event ::
  "time \<Rightarrow> warmup_session \<Rightarrow> string \<Rightarrow> (string, json) dict \<Rightarrow> db \<Rightarrow> db" where
  "write_monitor_event now x event_type payload s =
     (let (i, s1) = new_id s in
      s1\<lparr>db_warmup_events := db_warmup_events s1 @
          [\<lparr>we_id = i, we_workspace_id = wu_workspace_id x, we_session_id = wu_id x,
            we_event_type = event_type, we_severity = ''info'',
            we_payload_json = sanitize_warmup_event_payload payload, we_created_at = now\<rparr>]\<rparr>)"

definition pausable_warmup :: "uuid \<Rightarrow> uuid \<Rightarrow> warmup_session \<Rightarrow> bool" where
  "pausable_warmup a w x \<longleftrightarrow>
     wu_workspace_id x = w \<and> wu_account_id x = a \<and> wu_status x \<in> set AUTO_PAUSE_WARMUP_STATUSES"

definition pause_warmup :: "time \<Rightarrow> warmup_session \<Rightarrow> warmup_session" where
  "pause_warmup now x =
     x\<lparr>wu_status := WPausedRisk, wu_paused_at := Some now, wu_updated_at := now,
       wu_next_micro_session_at := None, wu_next_step_at := None\<rparr>"

definition pausable_campaign_account :: "uuid \<Rightarrow> uuid \<Rightarrow> db \<Rightarrow> campaign_account \<Rightarrow> bool" where
  "pausable_campaign_account a w s c \<longleftrightarrow>
     (ca_campaign_id c, w) \<in> set (map (\<lambda>k. (nc_id k, nc_workspace_id k)) (db_campaigns s)) \<and>
     ca_account_id c = a \<and> ca_status c = CAActive"

definition auto_pause_account :: "uuid \<Rightarrow> uuid \<Rightarrow> time \<Rightarrow> int \<Rightarrow> int \<Rightarrow> db \<Rightarrow> db" where
  "auto_pause_account a w now consecutive_failures threshold s =
     (let warmups = filter (pausable_warmup a w) (db_warmups s);
          s1 = s\<lparr>db_warmups := update_where (pausable_warmup a w) (pause_warmup now) (db_warmups s)\<rparr>;
          s2 = fold (\<lambda>x. write_monitor_event now x ''paused_risk''
                       [(''reason'', JStr ''account_status_monitor_consecutive_failures'')]) warmups s1;
          paused = filter (pausable_campaign_account a w s2) (db_campaign_accounts s2);
          s3 = s2\<lparr>db_campaign_accounts :=
                 update_where (pausable_campaign_account a w s2) (\<lambda>c. c\<lparr>ca_status := CAPaused\<rparr>)
                   (db_campaign_accounts s2)\<rparr>;
          (i, s4) = new_id s3
      in s4\<lparr>db_neuro_events := db_neuro_events s4 @
          [\<lparr>ne_id = i, ne_workspace_id = w, ne_campaign_id = None, ne_account_id = Some a,
            ne_target_id = None, ne_observed_post_id = None, ne_generated_comment_id = None,
            ne_attempt_id = None,
            ne_event_type = ''account_auto_paused'', ne_event_level = ''warning'',
            ne_message = ''Account auto-paused after repeated status monitor failures'',
            ne_data_json =
              [(''source'', JStr ''account_status_monitor''),
               (''consecutive_failures'', JInt consecutive_failures),
               (''consecutive_failure_threshold'', JInt threshold),
               (''paused_warmup_session_ids'', JList (map (\<lambda>x. JInt (int (wu_id x))) warmups)),
               (''paused_campaign_accounts'', JInt (int (length paused)))],
            ne_is_published = False, ne_created_at = now\<rparr>]\<rparr>)"

section \<open>Observing one account\<close>

definition save_observation :: "account_status_observation \<Rightarrow> db \<Rightarrow> db" where
  "save_observation ob s =
     s\<lparr>db_observations := update_where (\<lambda>x. ob_id x = ob_id ob) (\<lambda>_. ob) (db_observations s)\<rparr>"

definition flood_wait_code :: "probe_result \<Rightarrow> bool" where
  "flood_wait_code p \<longleftrightarrow> truthy (pb_error_code p) \<and> contains ''FLOOD_WAIT'' (upper (the (pb_error_code p)))"

text \<open>The observation row before any automatic action other than the cooldown.\<close>

definition new_observation ::
  "(string \<Rightarrow> string) \<Rightarrow> uuid \<Rightarrow> time \<Rightarrow> uuid \<Rightarrow> uuid \<Rightarrow> int \<Rightarrow>
   account_status_observation option \<Rightarrow> probe_result \<Rightarrow> account_status_observation" where
  "new_observation sha i now a w threshold previous p =
     (let proxy_ip_hash = hash_text sha (pb_proxy_host p);
          device_model_hash = hash_text sha (pb_device_model p);
          prev_ip = Option.bind previous ob_proxy_ip_hash;
          prev_dev = Option.bind previous ob_device_model_hash;
          d0 = [(''proxy_host_present'', JBool (pb_proxy_host p \<noteq> None)), (''threshold'', JInt threshold)];
          d1 = (if truthy (pb_error_code p)
                then dict_set ''last_error_code'' (json_of_str (pb_error_code p)) d0 else d0);
          d2 = (if truthy (pb_error_class p)
                then dict_set ''last_error_class'' (json_of_str (pb_error_class p)) d1 else d1);
          d3 = (if changed prev_ip proxy_ip_hash
                then dict_merge d2 [(''reason'', JStr ''ip_change_detected''),
                                    (''cooldown_minutes'', JInt IP_CHANGE_COOLDOWN_MINUTES),
                                    (''previous_proxy_ip_hash'', json_of_str prev_ip)]
                else d2);
          d4 = (if changed prev_dev device_model_hash
                then dict_merge d3 [(''device_fingerprint_changed'', JBool True),
                                    (''previous_device_model_hash'', json_of_str prev_dev)]
                else d3)
      in \<lparr>ob_id = i, ob_workspace_id = w, ob_account_id = a, ob_observed_at = now,
          ob_proxy_healthy = pb_proxy_healthy p, ob_proxy_ip_hash = proxy_ip_hash,
          ob_tdlib_authorized = pb_tdlib_authorized p, ob_device_model_hash = device_model_hash,
          ob_consecutive_failures = next_consecutive_failures previous p,
          ob_auto_action_taken = Some (if changed prev_ip proxy_ip_hash then ActCooldown else ActNone),
          ob_details_json = d4\<rparr>)"

definition mark_paused :: "account_status_observation \<Rightarrow> (string, json) dict \<Rightarrow> account_status_observation" where
  "mark_paused ob d =
     ob\<lparr>ob_auto_action_taken :=
          (if ob_auto_action_taken ob = Some ActNone then Some ActPaused else ob_auto_action_taken ob),
        ob_details_json := dict_merge (ob_details_json ob) d\<rparr>"

text \<open>The three reactions of \<open>observe_account\<close>, in order: terminal status, sticky IP, failure threshold.\<close>

definition react_terminal ::
  "time \<Rightarrow> uuid \<Rightarrow> uuid \<Rightarrow> int \<Rightarrow> account \<Rightarrow> probe_result \<Rightarrow> account_status_observation \<Rightarrow> db \<Rightarrow>
   account_status_observation \<times> db" where
  "react_terminal now a w threshold account p ob s =
     (case terminal_status_from_probe p (ob_consecutive_failures ob) of
        None \<Rightarrow> (ob, s)
      | Some t \<Rightarrow>
          if acc_terminal_status account \<noteq> TermNone then (ob, s)
          else
            let s1 = s\<lparr>db_accounts := update_where (\<lambda>r. acc_id r = acc_id account)
                         (\<lambda>r. r\<lparr>acc_terminal_status := t\<rparr>) (db_accounts s)\<rparr>;
                s2 = on_account_terminal a w (terminal_text t) now s1;
                s3 = auto_pause_account a w now (ob_consecutive_failures ob) threshold s2;
                ob' = mark_paused ob [(''terminal_status'', JStr (terminal_text t)),
                        (''terminal_status_reason'', JStr ''tdlib_auth_error''),
                        (''auto_pause'', JStr ''terminal_status'')]
            in (ob', save_observation ob' s3))"

definition react_sticky_ip ::
  "time \<Rightarrow> uuid \<Rightarrow> uuid \<Rightarrow> account_status_observation \<Rightarrow> db \<Rightarrow>
   account_status_observation result \<times> db" where
  "react_sticky_ip now a w ob s =
     (if distinct_proxy_hashes_last_hour now a w s \<le> STICKY_IP_MAX_DISTINCT_HASHES then (Inr ob, s)
      else
        let (opened, s1) =
              (if get_active_quarantine now a w s = None
               then apfst (map_sum id (\<lambda>_. ()))
                      (create_quarantine now a w ''status_degraded'' 24
                        [(''source'', JStr ''account_status_monitor''), (''reason'', JStr ''sticky_ip_violation'')] s)
               else (Inr (), s));
            ob' = ob\<lparr>ob_auto_action_taken := Some ActQuarantine,
                     ob_details_json := dict_merge (ob_details_json ob) [(''reason'', JStr ''sticky_ip_violation'')]\<rparr>
        in (case opened of
              Inl e \<Rightarrow> (Inl e, s1)
            | Inr _ \<Rightarrow> (Inr ob', save_observation ob' s1)))"

definition react_failures ::
  "time \<Rightarrow> uuid \<Rightarrow> uuid \<Rightarrow> int \<Rightarrow> account_status_observation option \<Rightarrow> account_status_observation \<Rightarrow> db \<Rightarrow>
   account_status_observation \<times> db" where
  "react_failures now a w threshold previous ob s =
     (if \<not> crossed_failure_threshold previous (ob_consecutive_failures ob) threshold then (ob, s)
      else
        let s1 = auto_pause_account a w now (ob_consecutive_failures ob) threshold s;
            s2 = on_account_frozen a w now s1;
            ob' = mark_paused ob [(''auto_pause'', JStr ''consecutive_failures'')]
        in (ob', save_observation ob' s2))"

definition observe_account ::
  "settings \<Rightarrow> (string \<Rightarrow> string) \<Rightarrow> (account \<Rightarrow> probe_result) \<Rightarrow> time \<Rightarrow> uuid \<Rightarrow> uuid \<Rightarrow> account option \<Rightarrow>
   db \<Rightarrow> account_status_observation result \<times> db" where
  "observe_account cfg sha probe now a w given s =
     (case (case given of
              Some account \<Rightarrow> Some account
            | None \<Rightarrow> find (\<lambda>r. acc_id r = a \<and> acc_workspace_id r = w) (db_accounts s)) of
        None \<Rightarrow> (Inl (ValueError ''account not found''), s)
      | Some account \<Rightarrow>
          let (policy, s1) = get_workspace_safety_policy cfg now w True s in
          (case policy of
             None \<Rightarrow> (Inl (RuntimeError ''workspace safety policy was not created''), s1)
           | Some pol \<Rightarrow>
               let threshold = get_consecutive_failure_threshold pol;
                   previous = latest_observation a w s1;
                   p = probe account;
                   s2 = (if flood_wait_code p then emit (M_flood_wait w a) s1 else s1);
                   (i, s3) = new_id s2;
                   ob = new_observation sha i now a w threshold previous p;
                   s4 = s3\<lparr>db_observations := db_observations s3 @ [ob]\<rparr>;
                   (ob1, s5) = react_terminal now a w threshold account p ob s4
               in (case react_sticky_ip now a w ob1 s5 of
                     (Inl e, s6) \<Rightarrow> (Inl e, s6)
                   | (Inr ob2, s6) \<Rightarrow>
                       let (ob3, s7) = react_failures now a w threshold previous ob2 s6
                       in (Inr ob3, s7))))"

definition is_in_ip_change_cooldown :: "time \<Rightarrow> uuid \<Rightarrow> uuid \<Rightarrow> db \<Rightarrow> bool" where
  "is_in_ip_change_cooldown now a w s =
     (case latest_observation a w s of
        None \<Rightarrow> False
      | Some ob \<Rightarrow>
          if ob_auto_action_taken ob \<noteq> Some ActCooldown then False
          else now < ob_observed_at ob + minutes IP_CHANGE_COOLDOWN_MINUTES)"

section \<open>Clearing a terminal status\<close>

definition clear_terminal_status ::
  "uuid \<Rightarrow> uuid \<Rightarrow> string \<Rightarrow> db \<Rightarrow> terminal_status result \<times> db" where
  "clear_terminal_status w a reason s =
     (if length (strip reason) < 10
      then (Inl (ValueError ''reason must be at least 10 characters''), s)
      else case find (\<lambda>r. acc_id r = a \<and> acc_workspace_id r = w) (db_accounts s) of
        None \<Rightarrow> (Inl NotFound, s)
      | Some r \<Rightarrow>
          if acc_terminal_status r = TermNone then (Inl TerminalStatusAlreadyNone, s)
          else (Inr (acc_terminal_status r),
                s\<lparr>db_accounts := update_where (\<lambda>r. acc_id r = a \<and> acc_workspace_id r = w)
                     (\<lambda>r. r\<lparr>acc_terminal_status := TermNone\<rparr>) (db_accounts s)\<rparr>))"

section \<open>What the parts leave alone\<close>

text \<open>The tables the monitor reads and writes itself.\<close>

definition monitor_view ::
  "db \<Rightarrow> account_status_observation list \<times> warmup_session list \<times> neuro_campaign list \<times> campaign_account list" where
  "monitor_view s = (db_observations s, db_warmups s, db_campaigns s, db_campaign_accounts s)"

definition terminal_of :: "db \<Rightarrow> uuid \<Rightarrow> terminal_status option" where
  "terminal_of s a = map_option acc_terminal_status (account_by_id s a)"

lemma terminal_of_cong: "db_accounts s' = db_accounts s \<Longrightarrow> terminal_of s' a = terminal_of s a"
  by (simp add: terminal_of_def account_by_id_def)

lemma terminal_of_moved:
  "terminal_of (s\<lparr>db_accounts := update_where (\<lambda>r. acc_id r = i) (moved t now) (db_accounts s)\<rparr>) a = terminal_of s a"
  unfolding terminal_of_def account_by_id_def
  by (simp add: find_update_where option.map_comp comp_def)
    (auto intro: option.map_cong0 simp: if_distrib)

lemma advance_view:
  "monitor_view (snd (advance acc t now reason actor m md s)) = monitor_view s \<and>
   terminal_of (snd (advance acc t now reason actor m md s)) a = terminal_of s a"
proof (cases rule: advance_cases [of acc t now reason actor m md s])
  case (step e)
  then show ?thesis
    using terminal_of_moved [where s = s and i = "acc_id acc" and t = t and now = now and a = a]
    by (simp add: monitor_view_def terminal_of_def account_by_id_def)
qed simp

lemma move_view:
  "monitor_view (snd (move_active_account_to_cold_soak i w now reason s)) = monitor_view s \<and>
   terminal_of (snd (move_active_account_to_cold_soak i w now reason s)) a = terminal_of s a"
  by (cases rule: move_cases [of i w now reason s]) (simp_all add: advance_view)

lemma view_steps:
  "monitor_view (emit m s) = monitor_view s"
  "monitor_view (update_quarantine i row s) = monitor_view s"
  "monitor_view (refresh_quarantine_active now w r s) = monitor_view s"
  "monitor_view (s\<lparr>db_next_id := n, db_quarantines := qs\<rparr>) = monitor_view s"
  by (simp_all add: emit_def update_quarantine_def refresh_quarantine_active_def Let_def monitor_view_def)

lemma terminal_steps:
  "terminal_of (emit m s) a = terminal_of s a"
  "terminal_of (update_quarantine i row s) a = terminal_of s a"
  "terminal_of (refresh_quarantine_active now w r s) a = terminal_of s a"
  "terminal_of (s\<lparr>db_next_id := n, db_quarantines := qs\<rparr>) a = terminal_of s a"
  by (rule terminal_of_cong, simp)+

lemma create_quarantine_view:
  "monitor_view (snd (create_quarantine now i w reason h md s)) = monitor_view s \<and>
   terminal_of (snd (create_quarantine now i w reason h md s)) a = terminal_of s a"
  by (rule create_quarantine_keeps [where P = "\<lambda>t. monitor_view t = monitor_view s \<and> terminal_of t a = terminal_of s a"])
    (simp_all add: move_view view_steps terminal_steps)

text \<open>The survival hooks write their own table only.\<close>

definition without_metrics :: "db \<Rightarrow> db" where
  "without_metrics s = s\<lparr>db_survival_metrics := [], db_next_id := 0\<rparr>"

lemma ensure_metric_without: "without_metrics (snd (ensure_metric w a imp now s)) = without_metrics s"
  by (auto simp: ensure_metric_def get_metric_def flush_metrics_def new_id_def Let_def without_metrics_def
      split: option.splits)

lemma hooks_without:
  "without_metrics (on_account_terminal a w t now s) = without_metrics s"
  "without_metrics (on_account_frozen a w now s) = without_metrics s"
  using ensure_metric_without [of w a now now s]
  by (simp_all add: hook_defs metric_op_defs save_metric_def without_metrics_def split_def Let_def
      split: option.split)

lemma hooks_frame:
  assumes "without_metrics s' = without_metrics s"
  shows "monitor_view s' = monitor_view s" and "terminal_of s' a = terminal_of s a"
    and "db_quarantines s' = db_quarantines s" and "db_accounts s' = db_accounts s"
proof -
  have *: "f (without_metrics s') = f (without_metrics s)" for f :: "db \<Rightarrow> 'z"
    by (simp add: assms)
  show "monitor_view s' = monitor_view s" "db_quarantines s' = db_quarantines s"
    "db_accounts s' = db_accounts s" "terminal_of s' a = terminal_of s a"
    using * [of monitor_view] * [of db_quarantines] * [of db_accounts] * [of "\<lambda>s. terminal_of s a"]
    by (simp_all add: monitor_view_def without_metrics_def terminal_of_def account_by_id_def)
qed

section \<open>Pausing\<close>

lemma warmup_events_frame:
  fixes now et pl xs s
  defines "s' \<equiv> fold (\<lambda>x. write_monitor_event now x et pl) xs s"
  shows "db_observations s' = db_observations s" "db_warmups s' = db_warmups s"
    "db_campaigns s' = db_campaigns s" "db_campaign_accounts s' = db_campaign_accounts s"
    "db_accounts s' = db_accounts s" "db_quarantines s' = db_quarantines s"
  unfolding s'_def
  by (induction xs arbitrary: s) (simp_all add: write_monitor_event_def new_id_def Let_def)

definition nothing_to_pause :: "uuid \<Rightarrow> uuid \<Rightarrow> db \<Rightarrow> bool" where
  "nothing_to_pause a w s \<longleftrightarrow>
     (\<forall>x\<in>set (db_warmups s). \<not> pausable_warmup a w x) \<and>
     (\<forall>c\<in>set (db_campaign_accounts s). \<not> pausable_campaign_account a w s c)"

lemma pausable_campaign_cong:
  "db_campaigns s' = db_campaigns s \<Longrightarrow> pausable_campaign_account a w s' = pausable_campaign_account a w s"
  by (simp add: pausable_campaign_account_def fun_eq_iff)

lemma auto_pause_effect:
  fixes a w now n k s
  defines "s' \<equiv> auto_pause_account a w now n k s"
  shows "db_observations s' = db_observations s" and "db_accounts s' = db_accounts s"
    and "db_quarantines s' = db_quarantines s" and "db_campaigns s' = db_campaigns s"
    and "db_warmups s' = update_where (pausable_warmup a w) (pause_warmup now) (db_warmups s)"
    and "db_campaign_accounts s' =
      update_where (pausable_campaign_account a w s) (\<lambda>c. c\<lparr>ca_status := CAPaused\<rparr>) (db_campaign_accounts s)"
proof -
  have "pausable_campaign_account a w
      (fold (\<lambda>x. write_monitor_event now x et pl) xs (s\<lparr>db_warmups := ws\<rparr>)) = pausable_campaign_account a w s"
    for et pl xs ws
    by (rule pausable_campaign_cong) (simp add: warmup_events_frame)
  then show "db_observations s' = db_observations s" "db_accounts s' = db_accounts s"
    "db_quarantines s' = db_quarantines s" "db_campaigns s' = db_campaigns s"
    "db_warmups s' = update_where (pausable_warmup a w) (pause_warmup now) (db_warmups s)"
    "db_campaign_accounts s' =
      update_where (pausable_campaign_account a w s) (\<lambda>c. c\<lparr>ca_status := CAPaused\<rparr>) (db_campaign_accounts s)"
    by (simp_all add: s'_def auto_pause_account_def Let_def new_id_def warmup_events_frame)
qed

lemma auto_pause_nothing_left: "nothing_to_pause a w (auto_pause_account a w now n k s)"
proof -
  have c: "pausable_campaign_account a w (auto_pause_account a w now n k s) = pausable_campaign_account a w s"
    by (rule pausable_campaign_cong) (rule auto_pause_effect(4))
  have "\<not> pausable_warmup a w (pause_warmup now x)" for x
    by (simp add: pausable_warmup_def pause_warmup_def AUTO_PAUSE_WARMUP_STATUSES_def)
  moreover have "\<not> pausable_campaign_account a w s (x\<lparr>ca_status := CAPaused\<rparr>)" for x
    by (simp add: pausable_campaign_account_def)
  ultimately show ?thesis
    unfolding nothing_to_pause_def c auto_pause_effect by (blast dest: update_where_none_left [rotated])
qed

lemma nothing_to_pause_view: "monitor_view s' = monitor_view s \<Longrightarrow> nothing_to_pause a w s' = nothing_to_pause a w s"
  by (simp add: nothing_to_pause_def monitor_view_def pausable_campaign_account_def)

lemma nothing_to_pause_keeps:
  "nothing_to_pause a w s \<Longrightarrow> nothing_to_pause a w (auto_pause_account a w now n k s)"
  by (rule auto_pause_nothing_left)

section \<open>The saved observation\<close>

text \<open>The row being observed is the last one of the table, and its identifier is new.\<close>

definition last_row :: "account_status_observation list \<Rightarrow> account_status_observation \<Rightarrow> db \<Rightarrow> bool" where
  "last_row obs ob s \<longleftrightarrow> db_observations s = obs @ [ob] \<and> (\<forall>x\<in>set obs. ob_id x \<noteq> ob_id ob)"

lemma save_last_row:
  assumes "last_row obs ob s" and "ob_id ob' = ob_id ob"
  shows "last_row obs ob' (save_observation ob' s)"
  using assms by (auto simp: last_row_def save_observation_def update_where_none)

lemma save_observation_frame [simp]:
  "db_accounts (save_observation ob s) = db_accounts s"
  "db_quarantines (save_observation ob s) = db_quarantines s"
  "nothing_to_pause a w (save_observation ob s) = nothing_to_pause a w s"
  "terminal_of (save_observation ob s) i = terminal_of s i"
  by (simp_all add: save_observation_def nothing_to_pause_def pausable_campaign_account_def
      terminal_of_def account_by_id_def)

lemma mark_paused_simps [simp]:
  "ob_id (mark_paused ob d) = ob_id ob"
  "ob_workspace_id (mark_paused ob d) = ob_workspace_id ob"
  "ob_account_id (mark_paused ob d) = ob_account_id ob"
  "ob_observed_at (mark_paused ob d) = ob_observed_at ob"
  "ob_proxy_ip_hash (mark_paused ob d) = ob_proxy_ip_hash ob"
  "ob_consecutive_failures (mark_paused ob d) = ob_consecutive_failures ob"
  "ob_auto_action_taken (mark_paused ob d) =
     (if ob_auto_action_taken ob = Some ActNone then Some ActPaused else ob_auto_action_taken ob)"
  by (simp_all add: mark_paused_def)

definition newly_terminal :: "account \<Rightarrow> probe_result \<Rightarrow> int \<Rightarrow> terminal_status option" where
  "newly_terminal account p n =
     (if acc_terminal_status account = TermNone then terminal_status_from_probe p n else None)"

text \<open>The part of an observation that reactions never change.\<close>

definition ob_core :: "account_status_observation \<Rightarrow> uuid \<times> uuid \<times> uuid \<times> time \<times> string option \<times> int" where
  "ob_core ob = (ob_id ob, ob_workspace_id ob, ob_account_id ob, ob_observed_at ob, ob_proxy_ip_hash ob,
     ob_consecutive_failures ob)"

lemma ob_core_mark [simp]: "ob_core (mark_paused ob d) = ob_core ob"
  by (simp add: ob_core_def)

definition set_terminal :: "uuid \<Rightarrow> terminal_status \<Rightarrow> db \<Rightarrow> db" where
  "set_terminal i t s =
     s\<lparr>db_accounts := update_where (\<lambda>r. acc_id r = i) (\<lambda>r. r\<lparr>acc_terminal_status := t\<rparr>) (db_accounts s)\<rparr>"

lemma react_terminal_none:
  "newly_terminal account p (ob_consecutive_failures ob) = None \<Longrightarrow>
   react_terminal now a w k account p ob s = (ob, s)"
  by (auto simp: react_terminal_def newly_terminal_def split: option.split if_splits)

lemma react_terminal_some:
  "newly_terminal account p (ob_consecutive_failures ob) = Some t \<Longrightarrow>
   \<exists>d. react_terminal now a w k account p ob s =
     (mark_paused ob d, save_observation (mark_paused ob d)
        (auto_pause_account a w now (ob_consecutive_failures ob) k
          (on_account_terminal a w (terminal_text t) now (set_terminal (acc_id account) t s))))"
  by (auto simp: react_terminal_def newly_terminal_def set_terminal_def Let_def split: if_splits)

lemma last_row_cong: "db_observations s' = db_observations s \<Longrightarrow> last_row obs ob s' = last_row obs ob s"
  by (simp add: last_row_def)

lemma hook_fields:
  "db_observations (on_account_terminal a w x now s) = db_observations s"
  "db_accounts (on_account_terminal a w x now s) = db_accounts s"
  "db_quarantines (on_account_terminal a w x now s) = db_quarantines s"
  "db_observations (on_account_frozen a w now s) = db_observations s"
  "db_accounts (on_account_frozen a w now s) = db_accounts s"
  "db_quarantines (on_account_frozen a w now s) = db_quarantines s"
  "nothing_to_pause i v (on_account_frozen a w now s) = nothing_to_pause i v s"
  using hooks_frame [OF hooks_without(1) [of a w x now s]] hooks_frame [OF hooks_without(2) [of a w now s]]
  by (auto simp: monitor_view_def nothing_to_pause_def pausable_campaign_account_def)

text \<open>What the terminal reaction leaves: the observation, the pauses, the accounts, the quarantines.\<close>

lemma react_terminal_effect:
  assumes "react_terminal now a w k account p ob s = (ob', s')" and "last_row obs ob s"
  defines "newly \<equiv> newly_terminal account p (ob_consecutive_failures ob)"
  shows "last_row obs ob' s' \<and> db_quarantines s' = db_quarantines s \<and> ob_core ob' = ob_core ob \<and>
    ob_auto_action_taken ob' =
      (if newly \<noteq> None \<and> ob_auto_action_taken ob = Some ActNone then Some ActPaused else ob_auto_action_taken ob) \<and>
    (newly \<noteq> None \<longrightarrow> nothing_to_pause a w s') \<and>
    db_accounts s' = (case newly of None \<Rightarrow> db_accounts s | Some t \<Rightarrow> db_accounts (set_terminal (acc_id account) t s))"
proof (cases newly)
  case None
  then show ?thesis
    using assms(1,2) react_terminal_none [of account p ob now a w k s] by (simp add: newly_def)
next
  case (Some t)
  then obtain d where ob': "ob' = mark_paused ob d"
    and s': "s' = save_observation (mark_paused ob d) (auto_pause_account a w now (ob_consecutive_failures ob) k
          (on_account_terminal a w (terminal_text t) now (set_terminal (acc_id account) t s)))"
    using react_terminal_some [of account p ob t now a w k s] assms(1) by (auto simp: newly_def)
  have "last_row obs ob (auto_pause_account a w now (ob_consecutive_failures ob) k
          (on_account_terminal a w (terminal_text t) now (set_terminal (acc_id account) t s)))"
    using assms(2) by (simp add: last_row_def auto_pause_effect hook_fields set_terminal_def)
  then have "last_row obs ob' s'" unfolding ob' s' by (rule save_last_row) simp
  then show ?thesis
    using Some by (simp add: ob' s' auto_pause_effect hook_fields auto_pause_nothing_left)
      (simp add: set_terminal_def)
qed

lemma sticky_create:
  fixes now a w md s
  defines "r \<equiv> create_quarantine now a w ''status_degraded'' 24 md s"
  shows "(\<exists>q. fst r = Inr q) \<and> is_account_quarantined now a w (snd r)"
proof -
  have sup: "''status_degraded'' \<in> set QUARANTINE_REASONS" by (simp add: QUARANTINE_REASONS_def)
  have pos: "(0::int) < 24" by simp
  show ?thesis
  proof (cases "get_unreleased_quarantine a w s")
    case None
    from create_opens [OF sup pos None, of now md] show ?thesis
      by (auto simp: r_def quarantined_iff hours_def)
  next
    case (Some q)
    from create_extends [OF sup pos Some, of now md] unreleased_quarantine_some [OF Some] show ?thesis
      by (auto simp: r_def quarantined_iff ex_replaced hours_def)
  qed
qed

lemma quarantined_cong:
  "db_quarantines s' = db_quarantines s \<Longrightarrow> is_account_quarantined now a w s' = is_account_quarantined now a w s"
  by (simp add: quarantined_iff)

lemma react_sticky_effect:
  fixes now a w s obs ob
  assumes "last_row obs ob s"
  defines "sticky \<equiv> STICKY_IP_MAX_DISTINCT_HASHES < distinct_proxy_hashes_last_hour now a w s"
  shows "\<exists>ob' s'. react_sticky_ip now a w ob s = (Inr ob', s') \<and> last_row obs ob' s' \<and> ob_core ob' = ob_core ob \<and>
    ob_auto_action_taken ob' = (if sticky then Some ActQuarantine else ob_auto_action_taken ob) \<and>
    (sticky \<longrightarrow> is_account_quarantined now a w s') \<and>
    (\<forall>i. terminal_of s' i = terminal_of s i) \<and>
    (nothing_to_pause a w s \<longrightarrow> nothing_to_pause a w s')"
proof (cases sticky)
  case False
  then have "react_sticky_ip now a w ob s = (Inr ob, s)"
    by (simp add: react_sticky_ip_def sticky_def)
  with False assms(1) show ?thesis by simp
next
  case True
  let ?md = "[(''source'', JStr ''account_status_monitor''), (''reason'', JStr ''sticky_ip_violation'')]"
  let ?ob = "ob\<lparr>ob_auto_action_taken := Some ActQuarantine,
      ob_details_json := dict_merge (ob_details_json ob) [(''reason'', JStr ''sticky_ip_violation'')]\<rparr>"
  let ?c = "create_quarantine now a w ''status_degraded'' 24 ?md s"
  define s1 where "s1 = (if get_active_quarantine now a w s = None then snd ?c else s)"
  have eq: "react_sticky_ip now a w ob s = (Inr ?ob, save_observation ?ob s1)"
    using True sticky_create [of now a w ?md s]
    by (cases ?c) (auto simp: react_sticky_ip_def s1_def sticky_def Let_def not_le)
  have view: "monitor_view s1 = monitor_view s" and kept: "terminal_of s1 i = terminal_of s i" for i
    using create_quarantine_view [of now a w "''status_degraded''" 24 ?md s i] by (auto simp: s1_def)
  have "is_account_quarantined now a w s1"
    using sticky_create [of now a w ?md s] by (auto simp: s1_def is_account_quarantined_def)
  then have "is_account_quarantined now a w (save_observation ?ob s1)"
    by (subst quarantined_cong [of _ s1]) simp_all
  moreover have "last_row obs ?ob (save_observation ?ob s1)"
    by (rule save_last_row [of _ ob])
      (use assms(1) view in \<open>simp_all add: last_row_def monitor_view_def\<close>)
  ultimately show ?thesis
    using True kept nothing_to_pause_view [OF view]
    by (intro exI [of _ ?ob] exI [of _ "save_observation ?ob s1"] conjI eq)
      (simp_all add: ob_core_def)
qed

lemma react_failures_effect:
  assumes "react_failures now a w k previous ob s = (ob', s')" and "last_row obs ob s"
  defines "crossed \<equiv> crossed_failure_threshold previous (ob_consecutive_failures ob) k"
  shows "last_row obs ob' s' \<and> db_quarantines s' = db_quarantines s \<and> db_accounts s' = db_accounts s \<and>
    ob_core ob' = ob_core ob \<and>
    ob_auto_action_taken ob' =
      (if crossed \<and> ob_auto_action_taken ob = Some ActNone then Some ActPaused else ob_auto_action_taken ob) \<and>
    (crossed \<or> nothing_to_pause a w s \<longrightarrow> nothing_to_pause a w s')"
proof (cases crossed)
  case False
  then show ?thesis using assms by (simp add: react_failures_def)
next
  case True
  let ?d = "[(''auto_pause'', JStr ''consecutive_failures'')]"
  have ob': "ob' = mark_paused ob ?d"
    and s': "s' = save_observation (mark_paused ob ?d) (on_account_frozen a w now
        (auto_pause_account a w now (ob_consecutive_failures ob) k s))"
    using assms(1) True by (auto simp: react_failures_def crossed_def Let_def)
  have "last_row obs ob (on_account_frozen a w now
        (auto_pause_account a w now (ob_consecutive_failures ob) k s))"
    using assms(2) by (simp add: last_row_def auto_pause_effect hook_fields)
  then have "last_row obs ob' s'" unfolding ob' s' by (rule save_last_row) simp
  then show ?thesis
    using True by (simp add: ob' s' auto_pause_effect hook_fields auto_pause_nothing_left)
qed

section \<open>The policy read of the monitor\<close>

lemma get_policy_fields:
  assumes "get_workspace_safety_policy cfg now w c s = (r, s')"
  shows "db_observations s' = db_observations s" "db_accounts s' = db_accounts s"
    "db_quarantines s' = db_quarantines s" "db_next_id s \<le> db_next_id s'"
  using assms
  by (auto simp: get_workspace_safety_policy_def create_workspace_safety_policy_def Let_def bootstrap_defs
      split: if_splits option.splits)

definition monitor_threshold :: "settings \<Rightarrow> time \<Rightarrow> uuid \<Rightarrow> db \<Rightarrow> int" where
  "monitor_threshold cfg now w s =
     (if workspace_safety_policy_temporarily_disabled cfg then 20
      else get_consecutive_failure_threshold (policy_before now w s))"

lemma monitor_policy:
  obtains p s' where "get_workspace_safety_policy cfg now w True s = (Some p, s')"
    and "get_consecutive_failure_threshold p = monitor_threshold cfg now w s"
proof (cases "workspace_safety_policy_temporarily_disabled cfg")
  case True
  then show ?thesis
    using that by (auto simp: get_workspace_safety_policy_def monitor_threshold_def)
next
  case False
  obtain r s' where g: "get_workspace_safety_policy cfg now w True s = (r, s')"
    by (cases "get_workspace_safety_policy cfg now w True s")
  show ?thesis
    using that [of "policy_before now w s" s'] get_creating_policy(1) [OF False g] g False
    by (simp add: monitor_threshold_def)
qed

section \<open>Identifiers keep growing\<close>

lemma ids_hooks:
  "db_next_id s \<le> db_next_id (on_account_terminal a w t now s)"
  "db_next_id s \<le> db_next_id (on_account_frozen a w now s)"
proof -
  have "db_next_id s \<le> db_next_id (snd (ensure_metric w a now now s))"
    by (auto simp: ensure_metric_def get_metric_def flush_metrics_def new_id_def Let_def split: option.splits)
  then show "db_next_id s \<le> db_next_id (on_account_terminal a w t now s)"
    "db_next_id s \<le> db_next_id (on_account_frozen a w now s)"
    by (simp_all add: hook_defs metric_op_defs save_metric_def split_def Let_def split: option.split)
qed

lemma ids_events: "db_next_id s \<le> db_next_id (fold (\<lambda>x. write_monitor_event now x et pl) xs s)"
proof (induction xs arbitrary: s)
  case (Cons x xs)
  have "db_next_id s \<le> db_next_id (write_monitor_event now x et pl s)"
    by (simp add: write_monitor_event_def new_id_def Let_def)
  with Cons show ?case by (auto intro: le_trans)
qed simp

lemma ids_auto_pause: "db_next_id s \<le> db_next_id (auto_pause_account a w now n k s)"
  using ids_events [where s = "s\<lparr>db_warmups := update_where (pausable_warmup a w) (pause_warmup now) (db_warmups s)\<rparr>"]
  by (simp add: auto_pause_account_def new_id_def Let_def le_Suc_eq)

lemma ids_create: "db_next_id s \<le> db_next_id (snd (create_quarantine now a w reason h md s))"
proof (cases "reason \<in> set QUARANTINE_REASONS \<and> 0 < h")
  case False
  then show ?thesis using create_rejected [of reason h now a w md s] by fastforce
next
  case True
  then show ?thesis
    using create_opens [of reason h a w s now md] create_extends [of reason h a w s _ now md]
    by (cases "get_unreleased_quarantine a w s") (auto intro: less_imp_le)
qed

lemma ids_save [simp]: "db_next_id (save_observation ob s) = db_next_id s"
  by (simp add: save_observation_def)

lemma ids_reactions:
  "db_next_id s \<le> db_next_id (snd (react_terminal now a w k account p ob s))"
  "db_next_id s \<le> db_next_id (snd (react_sticky_ip now a w ob s))"
  "db_next_id s \<le> db_next_id (snd (react_failures now a w k previous ob s))"
proof -
  show "db_next_id s \<le> db_next_id (snd (react_terminal now a w k account p ob s))"
  proof (cases "newly_terminal account p (ob_consecutive_failures ob)")
    case None
    then show ?thesis by (simp add: react_terminal_none)
  next
    case (Some t)
    have "db_next_id s = db_next_id (set_terminal (acc_id account) t s)" by (simp add: set_terminal_def)
    also have "\<dots> \<le> db_next_id (on_account_terminal a w (terminal_text t) now (set_terminal (acc_id account) t s))"
      by (rule ids_hooks)
    also have "\<dots> \<le> db_next_id (auto_pause_account a w now (ob_consecutive_failures ob) k
        (on_account_terminal a w (terminal_text t) now (set_terminal (acc_id account) t s)))"
      by (rule ids_auto_pause)
    finally show ?thesis
      using react_terminal_some [OF Some, of now a w k s] by auto
  qed
  show "db_next_id s \<le> db_next_id (snd (react_sticky_ip now a w ob s))"
    using ids_create [of s now a w "''status_degraded''" 24]
    by (auto simp: react_sticky_ip_def Let_def split: prod.split sum.split) (metis snd_apfst snd_conv)+
  have "db_next_id s \<le> db_next_id (on_account_frozen a w now
      (auto_pause_account a w now (ob_consecutive_failures ob) k s))"
    by (rule le_trans [OF ids_auto_pause ids_hooks(2)])
  then show "db_next_id s \<le> db_next_id (snd (react_failures now a w k previous ob s))"
    by (simp add: react_failures_def Let_def)
qed

section \<open>The account list\<close>

text \<open>What the monitor selects accounts by: identifier, workspace and state.\<close>

definition idents :: "db \<Rightarrow> (uuid \<times> uuid \<times> account_state) list" where
  "idents s = map (\<lambda>r. (acc_id r, acc_workspace_id r, acc_account_state r)) (db_accounts s)"

lemma idents_cong: "db_accounts s' = db_accounts s \<Longrightarrow> idents s' = idents s"
  by (simp add: idents_def)

lemma idents_move: "idents (snd (move_active_account_to_cold_soak i w now reason s)) = idents s"
proof (cases rule: move_cases [of i w now reason s])
  case (moved r)
  show ?thesis
    unfolding moved(5)
    by (cases rule: advance_cases [of r LColdSoak now reason None False "[]" s])
      (simp_all add: idents_def map_update_where moved_def)
qed simp

lemma idents_create: "idents (snd (create_quarantine now i w reason h md s)) = idents s"
  by (rule create_quarantine_keeps [where P = "\<lambda>t. idents t = idents s"])
    (simp_all add: idents_move idents_cong [OF emit_frame(2)] idents_cong [OF update_quarantine_frame(1)]
      idents_cong [OF refresh_frame(2)], simp add: idents_def)

lemma idents_reactions:
  "idents (snd (react_terminal now a w k account p ob s)) = idents s"
  "idents (snd (react_sticky_ip now a w ob s)) = idents s"
  "idents (snd (react_failures now a w k previous ob s)) = idents s"
proof -
  show "idents (snd (react_terminal now a w k account p ob s)) = idents s"
  proof (cases "newly_terminal account p (ob_consecutive_failures ob)")
    case None
    then show ?thesis by (simp add: react_terminal_none)
  next
    case (Some t)
    have "idents (snd (react_terminal now a w k account p ob s)) = idents (set_terminal (acc_id account) t s)"
      using react_terminal_some [OF Some, of now a w k s]
      by (auto intro!: idents_cong simp: auto_pause_effect hook_fields)
    then show ?thesis by (simp add: idents_def set_terminal_def map_update_where)
  qed
  have save: "idents (save_observation ob s) = idents s" for ob s by (rule idents_cong) simp
  show "idents (snd (react_sticky_ip now a w ob s)) = idents s"
    using idents_create [of now a w "''status_degraded''" 24 _ s]
    by (auto simp: react_sticky_ip_def Let_def save split: prod.split sum.split) (metis snd_apfst snd_conv)+
  show "idents (snd (react_failures now a w k previous ob s)) = idents s"
    by (auto intro!: idents_cong simp: react_failures_def Let_def auto_pause_effect hook_fields)
qed

section \<open>Properties of one observation\<close>

definition observations_ok :: "db \<Rightarrow> bool" where
  "observations_ok s \<longleftrightarrow> (\<forall>x\<in>set (db_observations s). ob_id x < db_next_id s)"

lemma distinct_hashes_core:
  assumes "last_row obs ob s" and "last_row obs ob' s'" and "ob_core ob' = ob_core ob"
  shows "distinct_proxy_hashes_last_hour now a w s' = distinct_proxy_hashes_last_hour now a w s"
  using assms by (simp add: distinct_proxy_hashes_last_hour_def last_row_def observation_of_def ob_core_def)

lemma latest_observation_cong:
  "db_observations s' = db_observations s \<Longrightarrow> latest_observation a w s' = latest_observation a w s"
  by (simp add: latest_observation_def)

lemma new_observation_fields [simp]:
  "ob_id (new_observation sha i now a w k previous p) = i"
  "ob_observed_at (new_observation sha i now a w k previous p) = now"
  "ob_workspace_id (new_observation sha i now a w k previous p) = w"
  "ob_account_id (new_observation sha i now a w k previous p) = a"
  "ob_consecutive_failures (new_observation sha i now a w k previous p) = next_consecutive_failures previous p"
  "ob_proxy_ip_hash (new_observation sha i now a w k previous p) = hash_text sha (pb_proxy_host p)"
  "ob_auto_action_taken (new_observation sha i now a w k previous p) =
     Some (if changed (Option.bind previous ob_proxy_ip_hash) (hash_text sha (pb_proxy_host p))
           then ActCooldown else ActNone)"
  by (simp_all add: new_observation_def Let_def)

text \<open>Everything an observation does; the properties below are its consequences.\<close>

lemma observe_account_effect:
  fixes sha probe cfg now a w and account :: account and s :: db
  assumes "observations_ok s"
  defines "p \<equiv> probe account"
    and "previous \<equiv> latest_observation a w s"
    and "k \<equiv> monitor_threshold cfg now w s"
  defines "n \<equiv> next_consecutive_failures previous p"
  defines "newly \<equiv> newly_terminal account p n"
    and "crossed \<equiv> crossed_failure_threshold previous n k"
    and "moved_ip \<equiv> changed (Option.bind previous ob_proxy_ip_hash) (hash_text sha (pb_proxy_host p))"
  shows "\<exists>ob s'. observe_account cfg sha probe now a w (Some account) s = (Inr ob, s') \<and>
    db_observations s' = db_observations s @ [ob] \<and> observation_of a w ob \<and>
    ob_observed_at ob = now \<and> ob_consecutive_failures ob = n \<and>
    (let sticky = 3 < distinct_proxy_hashes_last_hour now a w s' in
      ob_auto_action_taken ob = Some (if sticky then ActQuarantine else if moved_ip then ActCooldown
        else if newly \<noteq> None \<or> crossed then ActPaused else ActNone) \<and>
      (sticky \<longrightarrow> is_account_quarantined now a w s')) \<and>
    (newly \<noteq> None \<or> crossed \<longrightarrow> nothing_to_pause a w s') \<and>
    observations_ok s' \<and> idents s' = idents s \<and>
    (\<forall>i. terminal_of s' i =
       (case newly of None \<Rightarrow> terminal_of s i
        | Some t \<Rightarrow> if i = acc_id account then map_option (\<lambda>_. t) (terminal_of s i) else terminal_of s i))"
proof -
  obtain pol s1 where pol: "get_workspace_safety_policy cfg now w True s = (Some pol, s1)"
    "get_consecutive_failure_threshold pol = k"
    unfolding k_def by (rule monitor_policy)
  note g = get_policy_fields [OF pol(1)]
  let ?s2 = "if flood_wait_code p then emit (M_flood_wait w a) s1 else s1"
  let ?i = "db_next_id s1"
  let ?ob = "new_observation sha ?i now a w k previous p"
  let ?s4 = "?s2\<lparr>db_next_id := Suc ?i, db_observations := db_observations s1 @ [?ob]\<rparr>"
  have s2: "db_observations ?s2 = db_observations s1" "db_next_id ?s2 = ?i" "db_accounts ?s2 = db_accounts s1"
    by (simp_all add: emit_def)
  have last4: "last_row (db_observations s) ?ob ?s4"
    using assms(1) g by (fastforce simp: last_row_def observations_ok_def)
  obtain ob1 s5 where r1: "react_terminal now a w k account p ?ob ?s4 = (ob1, s5)"
    by (cases "react_terminal now a w k account p ?ob ?s4")
  note e1 = react_terminal_effect [OF r1 last4]
  obtain ob2 s6 where r2: "react_sticky_ip now a w ob1 s5 = (Inr ob2, s6)" "last_row (db_observations s) ob2 s6"
    "ob_core ob2 = ob_core ob1"
    "ob_auto_action_taken ob2 = (if STICKY_IP_MAX_DISTINCT_HASHES < distinct_proxy_hashes_last_hour now a w s5
       then Some ActQuarantine else ob_auto_action_taken ob1)"
    "STICKY_IP_MAX_DISTINCT_HASHES < distinct_proxy_hashes_last_hour now a w s5 \<longrightarrow> is_account_quarantined now a w s6"
    "\<forall>i. terminal_of s6 i = terminal_of s5 i" "nothing_to_pause a w s5 \<longrightarrow> nothing_to_pause a w s6"
    using react_sticky_effect [of "db_observations s" ob1 s5 now a w] e1 by blast
  obtain ob3 s7 where r3: "react_failures now a w k previous ob2 s6 = (ob3, s7)"
    by (cases "react_failures now a w k previous ob2 s6")
  note e3 = react_failures_effect [OF r3 r2(2)]
  have prev: "latest_observation a w s1 = previous"
    unfolding previous_def by (rule latest_observation_cong) (rule g(1))
  have obs: "observe_account cfg sha probe now a w (Some account) s = (Inr ob3, s7)"
    using r1 r2(1) r3 s2
    by (simp add: observe_account_def pol Let_def new_id_def prev p_def [symmetric])
  have core: "ob_core ob3 = ob_core ?ob" using e1 e3 r2(3) by simp
  have n: "ob_consecutive_failures ?ob = n" "ob_consecutive_failures ob2 = n"
    using e1 r2(3) by (simp_all add: n_def ob_core_def)
  have "distinct_proxy_hashes_last_hour now a w s7 = distinct_proxy_hashes_last_hour now a w s5"
    using distinct_hashes_core e1 e3 r2(3) by metis
  note hashes = this [symmetric]
  have acc: "terminal_of s7 i = (case newly of None \<Rightarrow> terminal_of s i
        | Some t \<Rightarrow> if i = acc_id account then map_option (\<lambda>_. t) (terminal_of s i) else terminal_of s i)" for i
  proof -
    have "terminal_of s7 i = terminal_of s5 i" using r2(6) e3 by (metis terminal_of_cong)
    moreover have "db_accounts s5 = (case newly of None \<Rightarrow> db_accounts s
        | Some t \<Rightarrow> update_where (\<lambda>r. acc_id r = acc_id account) (\<lambda>r. r\<lparr>acc_terminal_status := t\<rparr>) (db_accounts s))"
      using e1 n(1) g(2) by (simp add: newly_def set_terminal_def emit_def split: option.splits)
    ultimately show ?thesis
      by (cases newly; cases "find (\<lambda>r. acc_id r = i) (db_accounts s)")
        (auto simp: terminal_of_def account_by_id_def find_update_where dest: find_mem)
  qed
  have action: "ob_auto_action_taken ob3 =
      Some (if 3 < distinct_proxy_hashes_last_hour now a w s7 then ActQuarantine
        else if moved_ip then ActCooldown else if newly \<noteq> None \<or> crossed then ActPaused else ActNone)"
    using e1 e3 r2(4) n hashes
    by (auto simp: STICKY_IP_MAX_DISTINCT_HASHES_def moved_ip_def newly_def crossed_def)
  have quarantined: "3 < distinct_proxy_hashes_last_hour now a w s7 \<longrightarrow> is_account_quarantined now a w s7"
    using r2(5) hashes e3 by (metis STICKY_IP_MAX_DISTINCT_HASHES_def quarantined_cong)
  have paused: "newly \<noteq> None \<or> crossed \<longrightarrow> nothing_to_pause a w s7"
    using e1 e3 r2(7) n by (auto simp: newly_def crossed_def)
  have ids: "db_next_id s1 < db_next_id s7"
    using ids_reactions(1) [of ?s4 now a w k account p ?ob] ids_reactions(2) [of s5 now a w ob1]
      ids_reactions(3) [of s6 now a w k previous ob2] by (simp add: r1 r2(1) r3)
  have rows: "db_observations s7 = db_observations s @ [ob3]" using e3 by (simp add: last_row_def)
  have "ob_id ob3 = ?i" using core by (simp add: ob_core_def)
  then have "observations_ok s7"
    using assms(1) ids g(4) by (auto simp: observations_ok_def rows)
  moreover have "idents s7 = idents s"
    using idents_reactions(1) [of now a w k account p ?ob ?s4] idents_reactions(2) [of now a w ob1 s5]
      idents_reactions(3) [of now a w k previous ob2 s6] s2(3) g(2)
    by (simp add: r1 r2(1) r3 idents_def)
  moreover note rows
  moreover have "observation_of a w ob3" "ob_observed_at ob3 = now" "ob_consecutive_failures ob3 = n"
    using core n(1) by (simp_all add: ob_core_def observation_of_def)
  ultimately show ?thesis
    using obs action quarantined paused acc by (auto simp: Let_def)
qed

text \<open>
  Observing an account never fails once the account is known, and appends exactly one
  observation. Its failure count is zero after a healthy and authorized probe and one more than the
  previous count otherwise; the recorded action is, in this order of precedence, \<open>quarantine\<close>
  when more than three distinct proxy addresses were seen within the hour, \<open>cooldown\<close> when the
  address changed since the previous observation, \<open>paused\<close> when a terminal status was detected or
  the failure count crossed the policy threshold, \<open>none\<close> otherwise. A terminal detection or a
  crossing leaves no warmup of the account running and no campaign membership active; a sticky-IP
  violation leaves the account quarantined. A terminal status is written only over \<open>none\<close>, and
  only for the observed account.
\<close>

theorem observe_account_spec:
  fixes sha probe cfg now a w and account :: account and s :: db
  assumes "observations_ok s"
  defines "p \<equiv> probe account"
    and "previous \<equiv> latest_observation a w s"
    and "k \<equiv> monitor_threshold cfg now w s"
  defines "n \<equiv> next_consecutive_failures previous p"
  defines "newly \<equiv> newly_terminal account p n"
    and "crossed \<equiv> crossed_failure_threshold previous n k"
    and "moved_ip \<equiv> changed (Option.bind previous ob_proxy_ip_hash) (hash_text sha (pb_proxy_host p))"
  shows "\<exists>ob s'. observe_account cfg sha probe now a w (Some account) s = (Inr ob, s') \<and>
    db_observations s' = db_observations s @ [ob] \<and> ob_consecutive_failures ob = n \<and>
    (let sticky = 3 < distinct_proxy_hashes_last_hour now a w s' in
      ob_auto_action_taken ob = Some (if sticky then ActQuarantine else if moved_ip then ActCooldown
        else if newly \<noteq> None \<or> crossed then ActPaused else ActNone) \<and>
      (sticky \<longrightarrow> is_account_quarantined now a w s')) \<and>
    (newly \<noteq> None \<or> crossed \<longrightarrow> nothing_to_pause a w s') \<and>
    (\<forall>i. terminal_of s' i =
       (case newly of None \<Rightarrow> terminal_of s i
        | Some t \<Rightarrow> if i = acc_id account then map_option (\<lambda>_. t) (terminal_of s i) else terminal_of s i))"
  using observe_account_effect [OF assms(1), of cfg sha probe now a w account]
  unfolding p_def previous_def k_def n_def newly_def crossed_def moved_ip_def by blast

theorem observe_account_spec_witness:
  "\<exists>ob s'. observe_account disabled_settings (\<lambda>x. x) snapshot_probe 0 1 7 (Some (imported_account 1 7 0))
     one_account_db = (Inr ob, s') \<and> ob_consecutive_failures ob = 1"
proof -
  have "observations_ok one_account_db" by (simp add: observations_ok_def one_account_db_def empty_db_def)
  from observe_account_spec [OF this, of disabled_settings "\<lambda>x. x" snapshot_probe 0 1 7 "imported_account 1 7 0"]
  show ?thesis
    by (auto simp: latest_observation_def one_account_db_def empty_db_def next_consecutive_failures_def
        snapshot_probe_def imported_account_def)
qed

section \<open>Later observations\<close>

lemma latest_by_append:
  "(\<And>x. x \<in> set xs \<Longrightarrow> k x < k y) \<Longrightarrow> latest_by k (xs @ [y]) = Some y"
proof (induction xs)
  case (Cons x xs)
  then have "latest_by k (xs @ [y]) = Some y" by simp
  with Cons.prems [of x] show ?case by (auto dest: leD)
qed simp

definition before :: "uuid \<Rightarrow> uuid \<Rightarrow> db \<Rightarrow> time \<Rightarrow> bool" where
  "before a w s t \<longleftrightarrow> (\<forall>x\<in>set (db_observations s). observation_of a w x \<longrightarrow> ob_observed_at x < t)"

lemma latest_observation_snoc:
  assumes "db_observations s' = db_observations s @ [ob]" and "observation_of a w ob"
    and "before a w s (ob_observed_at ob)"
  shows "latest_observation a w s' = Some ob"
proof -
  have "latest_observation a w s' = latest_by ob_observed_at (filter (observation_of a w) (db_observations s) @ [ob])"
    using assms(1,2) by (simp add: latest_observation_def)
  moreover have "latest_by ob_observed_at (filter (observation_of a w) (db_observations s) @ [ob]) = Some ob"
    using assms(3) by (intro latest_by_append) (simp add: before_def)
  ultimately show ?thesis by simp
qed

text \<open>
  The IP-change cooldown does not last thirty minutes: it is read from the latest observation
  only, so that the next observation of the account with an unchanged proxy address, however soon
  after the change, ends the cooldown for every later instant.
\<close>

theorem cooldown_ends_with_next_observation:
  assumes "observations_ok s"
    and "is_in_ip_change_cooldown now a w s"
    and "before a w s now"
    and "latest_observation a w s = Some previous"
    and "hash_text sha (pb_proxy_host (probe account)) = ob_proxy_ip_hash previous"
  shows "\<exists>ob s'. observe_account cfg sha probe now a w (Some account) s = (Inr ob, s') \<and>
    (\<forall>t. \<not> is_in_ip_change_cooldown t a w s')"
proof -
  have same: "\<not> changed (Option.bind (latest_observation a w s) ob_proxy_ip_hash)
      (hash_text sha (pb_proxy_host (probe account)))"
    by (simp add: assms(4,5) changed_def)
  obtain ob s' where e: "observe_account cfg sha probe now a w (Some account) s = (Inr ob, s')"
    "db_observations s' = db_observations s @ [ob]" "observation_of a w ob" "ob_observed_at ob = now"
    and action: "ob_auto_action_taken ob \<noteq> Some ActCooldown"
    using observe_account_effect [OF assms(1), of cfg sha probe now a w account]
    unfolding Let_def by (auto simp: same)
  have "latest_observation a w s' = Some ob"
    using latest_observation_snoc [OF e(2,3)] assms(3) e(4) by simp
  with e action show ?thesis by (auto simp: is_in_ip_change_cooldown_def)
qed

definition proxied :: "string \<Rightarrow> account" where
  "proxied host = (imported_account 1 7 0)\<lparr>acc_proxy := Some \<lparr>px_proxy_type = ''socks5'',
     px_proxy_category = ''mobile'', px_host = host, px_port = 1080, px_username = None,
     px_password_encrypted = None, px_status = ''ok'', px_last_checked_at = None,
     px_last_check_scope = None, px_last_error_code = None, px_last_error_message = None,
     px_tdlib_verified_at = None, px_tdlib_last_error_code = None,
     px_tdlib_last_error_message = None, px_created_at = 0, px_updated_at = 0\<rparr>\<rparr>"

definition cooled_observation :: account_status_observation where
  "cooled_observation = \<lparr>ob_id = 0, ob_workspace_id = 7, ob_account_id = 1, ob_observed_at = 0,
     ob_proxy_healthy = True, ob_proxy_ip_hash = Some ''b'', ob_tdlib_authorized = False,
     ob_device_model_hash = None, ob_consecutive_failures = 1,
     ob_auto_action_taken = Some ActCooldown, ob_details_json = []\<rparr>"

theorem cooldown_ends_with_next_observation_witness:
  "\<exists>ob s'. observe_account disabled_settings (\<lambda>x. x) snapshot_probe (minutes 1) 1 7 (Some (proxied ''b''))
      (one_account_db\<lparr>db_observations := [cooled_observation]\<rparr>) = (Inr ob, s') \<and>
    \<not> is_in_ip_change_cooldown (minutes 2) 1 7 s'"
proof -
  let ?s = "one_account_db\<lparr>db_observations := [cooled_observation]\<rparr>"
  have ok: "observations_ok ?s" by (simp add: observations_ok_def one_account_db_def empty_db_def cooled_observation_def)
  have latest: "latest_observation 1 7 ?s = Some cooled_observation"
    by (simp add: latest_observation_def observation_of_def cooled_observation_def)
  have cool: "is_in_ip_change_cooldown (minutes 1) 1 7 ?s"
    unfolding is_in_ip_change_cooldown_def latest
    by (simp add: cooled_observation_def minutes_def IP_CHANGE_COOLDOWN_MINUTES_def)
  have bef: "before 1 7 ?s (minutes 1)" by (simp add: before_def cooled_observation_def minutes_def)
  have "lower (strip ''b'') = ''b''" by code_simp
  then have hash: "hash_text (\<lambda>x. x) (pb_proxy_host (snapshot_probe (proxied ''b''))) = ob_proxy_ip_hash cooled_observation"
    by (simp add: hash_text_def snapshot_probe_def proxied_def cooled_observation_def)
  show ?thesis
    using cooldown_ends_with_next_observation [where probe = snapshot_probe and account = "proxied ''b''",
        OF ok cool bef latest hash, of disabled_settings] by blast
qed

section \<open>A run of probes\<close>

type_synonym probe_run = "(time \<times> probe_result) list"

definition observe_step ::
  "settings \<Rightarrow> (string \<Rightarrow> string) \<Rightarrow> account \<Rightarrow> uuid \<Rightarrow> uuid \<Rightarrow> time \<times> probe_result \<Rightarrow> db \<Rightarrow> db" where
  "observe_step cfg sha account a w tp s =
     snd (observe_account cfg sha (\<lambda>_. snd tp) (fst tp) a w (Some account) s)"

definition observe_run ::
  "settings \<Rightarrow> (string \<Rightarrow> string) \<Rightarrow> account \<Rightarrow> uuid \<Rightarrow> uuid \<Rightarrow> probe_run \<Rightarrow> db \<Rightarrow> db" where
  "observe_run cfg sha account a w run s = fold (observe_step cfg sha account a w) run s"

definition failed_probe :: "time \<times> probe_result \<Rightarrow> bool" where
  "failed_probe tp \<longleftrightarrow> \<not> (pb_proxy_healthy (snd tp) \<and> pb_tdlib_authorized (snd tp))"

text \<open>
  Failure counting over time: when an account without observations is probed at increasing
  instants, the stored failure count after any number of probes is the length of the unbroken run
  of failed probes at the end, whatever the monitor did in between; every probe left one
  observation.
\<close>

theorem failure_streak:
  assumes "observations_ok s" and "\<forall>x\<in>set (db_observations s). \<not> observation_of a w x"
    and "sorted_wrt (<) (map fst run)"
  shows "length (filter (observation_of a w) (db_observations (observe_run cfg sha account a w run s))) = length run \<and>
    (case latest_observation a w (observe_run cfg sha account a w run s) of
       None \<Rightarrow> run = []
     | Some ob \<Rightarrow> ob_consecutive_failures ob = int (length (takeWhile failed_probe (rev run))))"
proof -
  let ?r = "observe_run cfg sha account a w"
  have "observations_ok (?r run s) \<and>
    length (filter (observation_of a w) (db_observations (?r run s))) = length run \<and>
    (\<forall>x\<in>set (db_observations (?r run s)). observation_of a w x \<longrightarrow> ob_observed_at x \<in> set (map fst run)) \<and>
    (if run = [] then latest_observation a w (?r run s) = None
     else \<exists>ob. latest_observation a w (?r run s) = Some ob \<and>
       ob_consecutive_failures ob = int (length (takeWhile failed_probe (rev run))))"
    using assms(3)
  proof (induction run rule: rev_induct)
    case Nil
    then show ?case
      using assms(1,2) by (auto simp: observe_run_def latest_observation_def filter_empty_conv latest_by_None)
  next
    case (snoc tp run)
    let ?s = "?r run s"
    have IH: "observations_ok ?s" "length (filter (observation_of a w) (db_observations ?s)) = length run"
      "\<forall>x\<in>set (db_observations ?s). observation_of a w x \<longrightarrow> ob_observed_at x \<in> set (map fst run)"
      "if run = [] then latest_observation a w ?s = None
       else \<exists>ob. latest_observation a w ?s = Some ob \<and>
         ob_consecutive_failures ob = int (length (takeWhile failed_probe (rev run)))"
      using snoc by (auto simp: sorted_wrt_append)
    obtain ob s' where e: "observe_account cfg sha (\<lambda>_. snd tp) (fst tp) a w (Some account) ?s = (Inr ob, s')"
      "db_observations s' = db_observations ?s @ [ob]" "observation_of a w ob" "ob_observed_at ob = fst tp"
      "ob_consecutive_failures ob = next_consecutive_failures (latest_observation a w ?s) (snd tp)"
      "observations_ok s'"
      using observe_account_effect [OF IH(1), of cfg sha "\<lambda>_. snd tp" "fst tp" a w account] by blast
    have r: "?r (run @ [tp]) s = s'" using e(1) by (simp add: observe_run_def observe_step_def)
    have "\<forall>t\<in>set (map fst run). t < fst tp"
      using snoc.prems by (auto simp: sorted_wrt_append)
    then have "before a w ?s (fst tp)"
      using IH(3) unfolding before_def by blast
    then have latest: "latest_observation a w s' = Some ob"
      using latest_observation_snoc [OF e(2,3)] e(4) by simp
    have "ob_consecutive_failures ob = int (length (takeWhile failed_probe (rev (run @ [tp]))))"
      using IH(4) e(5) by (cases "run = []") (auto simp: next_consecutive_failures_def failed_probe_def)
    then show ?case using e(2,3,4,6) latest IH(2,3) by (auto simp: r)
  qed
  then show ?thesis by (cases "run = []") auto
qed

theorem failure_streak_witness:
  "case latest_observation 1 7 (observe_run disabled_settings (\<lambda>x. x) (imported_account 1 7 0) 1 7
      [(0, snapshot_probe (imported_account 1 7 0)), (5, snapshot_probe (imported_account 1 7 0))] one_account_db) of
     None \<Rightarrow> False | Some ob \<Rightarrow> ob_consecutive_failures ob = 2"
proof -
  have ok: "observations_ok one_account_db" "\<forall>x\<in>set (db_observations one_account_db). \<not> observation_of 1 7 x"
    by (simp_all add: observations_ok_def one_account_db_def empty_db_def)
  let ?run = "[(0 :: time, snapshot_probe (imported_account 1 7 0)), (5, snapshot_probe (imported_account 1 7 0))]"
  have "sorted_wrt (<) (map fst ?run)" by simp
  from failure_streak [OF ok this, of disabled_settings "\<lambda>x. x" "imported_account 1 7 0"] show ?thesis
    by (auto simp: failed_probe_def snapshot_probe_def imported_account_def split: option.splits)
qed

end
