(* ===== verification/MonitorTick.thy ===== *)
theory MonitorTick
  imports StatusMonitor "HOL-Library.Multiset"
begin

text \<open>
  The periodic runs of the status monitor: \<open>AccountStatusMonitor.tick\<close>,
  \<open>run_account_status_monitor_tick\<close> with its lock and checkpoints, and their helpers. The state
  store (Redis) is a map from its two kinds of keys to identifiers; the expiry of the lock is not
  modelled. Without a store the code takes no lock and keeps no checkpoint.
\<close>

section \<open>Definitions\<close>

datatype store_key = LockKey | CheckpointKey uuid

type_synonym state_store = "store_key \<Rightarrow> uuid option"

definition store_set_nx :: "store_key \<Rightarrow> uuid \<Rightarrow> state_store \<Rightarrow> bool \<times> state_store" where
  "store_set_nx k v st = (if st k \<noteq> None then (False, st) else (True, st(k \<mapsto> v)))"

definition monitored :: "account \<Rightarrow> bool" where
  "monitored a \<longleftrightarrow> acc_account_state a \<noteq> AccountDisabled"

definition status_monitor_workspace_ids :: "uuid option \<Rightarrow> db \<Rightarrow> uuid list" where
  "status_monitor_workspace_ids w s =
     (case w of
        Some x \<Rightarrow> [x]
      | None \<Rightarrow> sort (remdups (map acc_workspace_id (filter monitored (db_accounts s)))))"

definition status_monitor_accounts :: "uuid \<Rightarrow> uuid option \<Rightarrow> nat \<Rightarrow> db \<Rightarrow> account list" where
  "status_monitor_accounts w last_account_id limit s =
     take limit (sort_key acc_id
       (filter (\<lambda>a. monitored a \<and> acc_workspace_id a = w \<and>
                   (case last_account_id of None \<Rightarrow> True | Some l \<Rightarrow> l < acc_id a)) (db_accounts s)))"

fun observe_all ::
  "settings \<Rightarrow> (string \<Rightarrow> string) \<Rightarrow> (account \<Rightarrow> probe_result) \<Rightarrow> time \<Rightarrow> account list \<Rightarrow> db \<Rightarrow>
   account_status_observation list result \<times> db" where
  "observe_all cfg sha probe now [] s = (Inr [], s)"
| "observe_all cfg sha probe now (a # as) s =
     (case observe_account cfg sha probe now (acc_id a) (acc_workspace_id a) (Some a) s of
        (Inl e, s1) \<Rightarrow> (Inl e, s1)
      | (Inr ob, s1) \<Rightarrow>
          (case observe_all cfg sha probe now as s1 of
             (Inl e, s2) \<Rightarrow> (Inl e, s2)
           | (Inr obs, s2) \<Rightarrow> (Inr (ob # obs), s2)))"

text \<open>\<open>AccountStatusMonitor.tick\<close>: every monitored account, oldest update first.\<close>

fun monitor_tick_workspaces ::
  "settings \<Rightarrow> (string \<Rightarrow> string) \<Rightarrow> (account \<Rightarrow> probe_result) \<Rightarrow> time \<Rightarrow> uuid list \<Rightarrow> db \<Rightarrow>
   account_status_observation list result \<times> db" where
  "monitor_tick_workspaces cfg sha probe now [] s = (Inr [], s)"
| "monitor_tick_workspaces cfg sha probe now (w # ws) s =
     (case observe_all cfg sha probe now
             (sort_key acc_updated_at (filter (\<lambda>a. monitored a \<and> acc_workspace_id a = w) (db_accounts s))) s of
        (Inl e, s1) \<Rightarrow> (Inl e, s1)
      | (Inr obs, s1) \<Rightarrow>
          (case monitor_tick_workspaces cfg sha probe now ws s1 of
             (Inl e, s2) \<Rightarrow> (Inl e, s2)
           | (Inr obs', s2) \<Rightarrow> (Inr (obs @ obs'), s2)))"

definition monitor_tick ::
  "settings \<Rightarrow> (string \<Rightarrow> string) \<Rightarrow> (account \<Rightarrow> probe_result) \<Rightarrow> time \<Rightarrow> uuid option \<Rightarrow> db \<Rightarrow>
   account_status_observation list result \<times> db" where
  "monitor_tick cfg sha probe now w s =
     monitor_tick_workspaces cfg sha probe now (status_monitor_workspace_ids w s) s"

text \<open>The loop of \<open>run_account_status_monitor_tick\<close> over the workspaces.\<close>

fun tick_workspaces ::
  "settings \<Rightarrow> (string \<Rightarrow> string) \<Rightarrow> time \<Rightarrow> nat \<Rightarrow> uuid list \<Rightarrow> state_store option \<Rightarrow> db \<Rightarrow>
   account_status_observation list result \<times> state_store option \<times> db" where
  "tick_workspaces cfg sha now batch [] st s = (Inr [], st, s)"
| "tick_workspaces cfg sha now batch (w # ws) st s =
     (let last_account_id = (case st of None \<Rightarrow> None | Some m \<Rightarrow> m (CheckpointKey w));
          accounts = status_monitor_accounts w last_account_id batch s
      in if accounts = []
         then tick_workspaces cfg sha now batch ws (map_option (\<lambda>m. m(CheckpointKey w := None)) st) s
         else case observe_all cfg sha snapshot_probe now accounts s of
           (Inl e, s1) \<Rightarrow> (Inl e, st, s1)
         | (Inr obs, s1) \<Rightarrow>
             (case tick_workspaces cfg sha now batch ws
                     (map_option (\<lambda>m. m(CheckpointKey w \<mapsto> acc_id (last accounts))) st) s1 of
                (Inl e, st2, s2) \<Rightarrow> (Inl e, st2, s2)
              | (Inr obs', st2, s2) \<Rightarrow> (Inr (obs @ obs'), st2, s2)))"

record monitor_report =
  mr_observations :: "account_status_observation list"
  mr_processed_count :: nat
  mr_skipped_reason :: "string option"

definition release_status_monitor_lock :: "uuid \<Rightarrow> state_store \<Rightarrow> state_store" where
  "release_status_monitor_lock lock_token st =
     (if st LockKey = Some lock_token then st(LockKey := None) else st)"

definition run_account_status_monitor_tick ::
  "settings \<Rightarrow> (string \<Rightarrow> string) \<Rightarrow> state_store option \<Rightarrow> uuid option \<Rightarrow> time \<Rightarrow> nat \<Rightarrow> db \<Rightarrow>
   monitor_report result \<times> state_store option \<times> db" where
  "run_account_status_monitor_tick cfg sha store w now batch s =
     (let (lock_token, s0) = new_id s;
          (acquired, st0) =
            (case store of
               None \<Rightarrow> (True, None)
             | Some m \<Rightarrow> (let (ok, m') = store_set_nx LockKey lock_token m in (ok, Some m')))
      in if \<not> acquired
         then (Inr \<lparr>mr_observations = [], mr_processed_count = 0,
                    mr_skipped_reason = Some ''another tick in progress''\<rparr>, st0, s0)
         else
           let (res, st1, s1) = tick_workspaces cfg sha now batch (status_monitor_workspace_ids w s0) st0 s0;
               st2 = map_option (release_status_monitor_lock lock_token) st1
           in (map_sum id (\<lambda>obs. \<lparr>mr_observations = obs, mr_processed_count = length obs,
                                  mr_skipped_reason = None\<rparr>) res, st2, s1))"

section \<open>Selecting accounts\<close>

definition active_ids :: "uuid \<Rightarrow> db \<Rightarrow> uuid list" where
  "active_ids w s = sort (map acc_id (filter (\<lambda>a. monitored a \<and> acc_workspace_id a = w) (db_accounts s)))"

lemma map_sort_key: "map f (sort_key f xs) = sort (map f xs)"
  by (rule properties_for_sort [symmetric]) simp_all

lemma filter_sort_nat: "filter P (sort xs) = sort (filter P (xs :: nat list))"
  by (simp add: filter_sort)

lemma active_ids_idents: "idents s' = idents s \<Longrightarrow> active_ids w s' = active_ids w s"
proof -
  have "map acc_id (filter (\<lambda>a. monitored a \<and> acc_workspace_id a = w) (db_accounts t)) =
      map fst (filter (\<lambda>(i, x, st). st \<noteq> AccountDisabled \<and> x = w) (idents t))" for t
    by (simp add: idents_def filter_map comp_def monitored_def split_def)
  then show "idents s' = idents s \<Longrightarrow> ?thesis" by (simp add: active_ids_def)
qed

lemma selected_ids:
  "map acc_id (status_monitor_accounts w l limit s) =
   take limit (filter (\<lambda>i. case l of None \<Rightarrow> True | Some x \<Rightarrow> x < i) (active_ids w s))"
  by (simp add: status_monitor_accounts_def active_ids_def take_map [symmetric] map_sort_key filter_sort_nat
      filter_map comp_def conj_ac)

text \<open>In a strictly increasing list the elements after the m-th are the larger ones.\<close>

lemma filter_above:
  fixes xs :: "nat list"
  assumes "sorted_wrt (<) xs" and "0 < m" and "m \<le> length xs"
  shows "filter (\<lambda>i. xs ! (m - 1) < i) xs = drop m xs"
proof -
  have split: "xs = take m xs @ drop m xs" by simp
  have "x \<le> xs ! (m - 1)" if "x \<in> set (take m xs)" for x
  proof -
    from that obtain j where "j < length (take m xs)" "take m xs ! j = x"
      unfolding in_set_conv_nth by blast
    then have j: "j < m" "x = xs ! j" by auto
    show ?thesis
    proof (cases "j = m - 1")
      case False
      with j assms have "j < m - 1" "m - 1 < length xs" by auto
      then have "xs ! j < xs ! (m - 1)" by (rule sorted_wrt_nth_less [OF assms(1)])
      with j show ?thesis by simp
    qed (use j in simp)
  qed
  moreover have "xs ! (m - 1) < x" if "x \<in> set (drop m xs)" for x
  proof -
    from that obtain j where "j < length (drop m xs)" "drop m xs ! j = x"
      unfolding in_set_conv_nth by blast
    then have "j < length xs - m" "x = xs ! (m + j)" by auto
    with assms show ?thesis using sorted_wrt_nth_less [OF assms(1), of "m - 1" "m + j"] by auto
  qed
  ultimately have "filter (\<lambda>i. xs ! (m - 1) < i) (take m xs) = []"
    "filter (\<lambda>i. xs ! (m - 1) < i) (drop m xs) = drop m xs"
    by (auto simp: filter_empty_conv filter_id_conv not_less)
  then show ?thesis by (metis split append_Nil filter_append)
qed

section \<open>Observing a list of accounts\<close>

lemma observe_all_total:
  assumes "observations_ok s"
  shows "\<exists>obs s'. observe_all cfg sha probe now as s = (Inr obs, s') \<and> observations_ok s' \<and>
    idents s' = idents s \<and> map ob_account_id obs = map acc_id as \<and>
    db_observations s' = db_observations s @ obs"
  using assms
proof (induction as arbitrary: s)
  case (Cons a as)
  obtain ob s1 where ob: "observe_account cfg sha probe now (acc_id a) (acc_workspace_id a) (Some a) s = (Inr ob, s1)"
    "observations_ok s1" "idents s1 = idents s" "observation_of (acc_id a) (acc_workspace_id a) ob"
    "db_observations s1 = db_observations s @ [ob]"
    using observe_account_effect [OF Cons.prems, of cfg sha probe now "acc_id a" "acc_workspace_id a" a] by blast
  from Cons.IH [OF ob(2)] ob show ?case by (auto simp: observation_of_def)
qed simp

section \<open>Coverage of the accounts\<close>

definition checkpoint_after :: "nat \<Rightarrow> nat list \<Rightarrow> uuid option" where
  "checkpoint_after m ids = (if m = 0 then None else Some (ids ! (m - 1)))"

definition processed_ids :: "monitor_report result \<Rightarrow> uuid list" where
  "processed_ids r = (case r of Inl _ \<Rightarrow> [] | Inr rep \<Rightarrow> map ob_account_id (mr_observations rep))"

lemma active_ids_strict:
  assumes "distinct (map acc_id (db_accounts s))"
  shows "sorted_wrt (<) (active_ids w s)"
proof -
  have "distinct (active_ids w s)"
    using assms by (simp add: active_ids_def distinct_map_filter)
  then show ?thesis by (simp add: active_ids_def strict_sorted_iff)
qed

lemma selected_after:
  assumes "sorted_wrt (<) (active_ids w s)" and "m \<le> length (active_ids w s)"
  shows "map acc_id (status_monitor_accounts w (checkpoint_after m (active_ids w s)) batch s) =
    take batch (drop m (active_ids w s))"
  using filter_above [OF assms(1), of m] assms(2)
  by (cases "m = 0") (simp_all add: selected_ids checkpoint_after_def)

lemma last_map_ids: "as \<noteq> [] \<Longrightarrow> map f as = xs \<Longrightarrow> f (last as) = last xs"
  by (auto simp: last_map)

text \<open>One run with a store, from the checkpoint after the first \<open>m\<close> accounts.\<close>

lemma tick_with_store:
  fixes st :: state_store
  assumes ok: "observations_ok s" and dist: "distinct (map acc_id (db_accounts s))"
    and lock: "st LockKey = None" and cp: "st (CheckpointKey w) = checkpoint_after m (active_ids w s)"
    and m: "m \<le> length (active_ids w s)" and batch: "0 < batch"
  shows "\<exists>r st' s'. run_account_status_monitor_tick cfg sha (Some st) (Some w) now batch s = (r, Some st', s') \<and>
    processed_ids r = take batch (drop m (active_ids w s)) \<and> st' LockKey = None \<and>
    st' (CheckpointKey w) =
      (if m = length (active_ids w s) then None
       else checkpoint_after (min (m + batch) (length (active_ids w s))) (active_ids w s)) \<and>
    observations_ok s' \<and> idents s' = idents s"
proof -
  let ?ids = "active_ids w s"
  let ?tok = "db_next_id s"
  let ?s0 = "s\<lparr>db_next_id := Suc ?tok\<rparr>"
  let ?st0 = "st(LockKey \<mapsto> ?tok)"
  have ids0: "active_ids w ?s0 = ?ids" by (rule active_ids_idents) (simp add: idents_def)
  have strict: "sorted_wrt (<) (active_ids w ?s0)"
    using active_ids_strict [OF dist] by (simp add: ids0)
  let ?as = "status_monitor_accounts w (st (CheckpointKey w)) batch ?s0"
  have sel: "map acc_id ?as = take batch (drop m ?ids)"
    using selected_after [OF strict, of m batch] m by (simp add: cp ids0)
  have ok0: "observations_ok ?s0" using ok by (auto simp: observations_ok_def)
  have run: "run_account_status_monitor_tick cfg sha (Some st) (Some w) now batch s =
      (let (res, st1, s1) = tick_workspaces cfg sha now batch [w] (Some ?st0) ?s0
       in (map_sum id (\<lambda>obs. \<lparr>mr_observations = obs, mr_processed_count = length obs, mr_skipped_reason = None\<rparr>) res,
           map_option (release_status_monitor_lock ?tok) st1, s1))"
    using lock by (simp add: run_account_status_monitor_tick_def new_id_def store_set_nx_def
        status_monitor_workspace_ids_def Let_def del: tick_workspaces.simps)
  show ?thesis
  proof (cases "m = length ?ids")
    case True
    then have "?as = []" using sel by simp
    then show ?thesis
      using True ok0 by (simp add: run processed_ids_def release_status_monitor_lock_def)
        (simp add: idents_def)
  next
    case False
    then have "take batch (drop m ?ids) \<noteq> []" using m batch by simp
    then have ne: "?as \<noteq> []" using sel by (metis list.map_disc_iff)
    obtain obs s' where obs: "observe_all cfg sha snapshot_probe now ?as ?s0 = (Inr obs, s')" "observations_ok s'"
      "idents s' = idents ?s0" "map ob_account_id obs = map acc_id ?as"
      using observe_all_total [OF ok0, of cfg sha snapshot_probe now ?as] by blast
    have "acc_id (last ?as) = last (take batch (drop m ?ids))"
      using last_map_ids [OF ne sel] .
    also have "\<dots> = ?ids ! (min (m + batch) (length ?ids) - 1)"
    proof -
      define n where "n = min batch (length ?ids - m)"
      have n: "0 < n" "m + n = min (m + batch) (length ?ids)" using False m batch by (auto simp: n_def)
      have "last (take batch (drop m ?ids)) = take batch (drop m ?ids) ! (n - 1)"
        using False m batch by (subst last_conv_nth) (auto simp: n_def min.commute)
      also have "\<dots> = ?ids ! (m + (n - 1))"
        using n m by (subst nth_take) (auto simp: n_def)
      finally show ?thesis using n by (metis Nat.add_diff_assoc Suc_leI One_nat_def)
    qed
    finally have cp': "acc_id (last ?as) = ?ids ! (min (m + batch) (length ?ids) - 1)" .
    have "0 < min (m + batch) (length ?ids)" using False m batch by auto
    then show ?thesis
      using False ne obs sel cp' by (simp add: run processed_ids_def release_status_monitor_lock_def checkpoint_after_def)
        (simp add: idents_def)
  qed
qed

fun monitor_rounds ::
  "settings \<Rightarrow> (string \<Rightarrow> string) \<Rightarrow> uuid \<Rightarrow> nat \<Rightarrow> time list \<Rightarrow> state_store \<Rightarrow> db \<Rightarrow> uuid list \<times> state_store \<times> db" where
  "monitor_rounds cfg sha w batch [] st s = ([], st, s)"
| "monitor_rounds cfg sha w batch (now # ts) st s =
     (let (r, st1, s1) = run_account_status_monitor_tick cfg sha (Some st) (Some w) now batch s;
          (ids, st2, s2) = monitor_rounds cfg sha w batch ts (case st1 of None \<Rightarrow> st | Some m \<Rightarrow> m) s1
      in (processed_ids r @ ids, st2, s2))"

lemma idents_ids: "idents s' = idents s \<Longrightarrow> map acc_id (db_accounts s') = map acc_id (db_accounts s)"
proof -
  have "map acc_id (db_accounts t) = map fst (idents t)" for t by (simp add: idents_def)
  then show "idents s' = idents s \<Longrightarrow> ?thesis" by simp
qed

lemma rounds_from:
  assumes "observations_ok s" and "distinct (map acc_id (db_accounts s))"
    and "st LockKey = None" and "st (CheckpointKey w) = checkpoint_after m (active_ids w s)"
    and "m \<le> length (active_ids w s)" and "0 < batch"
    and "m + length ts * batch < length (active_ids w s) + batch"
  shows "fst (monitor_rounds cfg sha w batch ts st s) = take (length ts * batch) (drop m (active_ids w s)) \<and>
    fst (snd (monitor_rounds cfg sha w batch ts st s)) LockKey = None"
  using assms
proof (induction ts arbitrary: st s m)
  case (Cons now ts)
  let ?ids = "active_ids w s"
  let ?m = "min (m + batch) (length ?ids)"
  have m: "m < length ?ids" using Cons.prems(7) by auto
  obtain r st' s' where t: "run_account_status_monitor_tick cfg sha (Some st) (Some w) now batch s = (r, Some st', s')"
    "processed_ids r = take batch (drop m ?ids)" "st' LockKey = None"
    "st' (CheckpointKey w) = checkpoint_after ?m ?ids" "observations_ok s'" "idents s' = idents s"
    using tick_with_store [OF Cons.prems(1-6), of cfg sha now] m by auto
  have ids: "active_ids w s' = ?ids" using t(6) by (rule active_ids_idents)
  have bound: "?m + length ts * batch < length ?ids + batch"
  proof (cases "m + batch \<le> length ?ids")
    case True
    then show ?thesis using Cons.prems(7) by simp
  next
    case False
    moreover have "m + length ts * batch < length ?ids" using Cons.prems(7) by simp
    ultimately have "length ts * batch < batch" by linarith
    moreover have "?m = length ?ids" using False by simp
    ultimately show ?thesis by linarith
  qed
  obtain ids st2 s2 where rec: "monitor_rounds cfg sha w batch ts st' s' = (ids, st2, s2)"
    by (metis prod_cases3)
  have "ids = take (length ts * batch) (drop ?m ?ids) \<and> st2 LockKey = None"
    using Cons.IH [where s = s' and st = st' and m = ?m, unfolded ids rec fst_conv snd_conv,
        OF t(5) _ t(3) t(4) min.cobounded2 Cons.prems(6) bound] Cons.prems(2)
    by (simp only: idents_ids [OF t(6)])
  moreover have "drop ?m ?ids = drop batch (drop m ?ids)"
    by (cases "m + batch \<le> length ?ids") (simp_all add: add.commute)
  ultimately show ?case
    using t(1,2) rec by (simp add: take_add)
qed simp

text \<open>The observations of a run without a store, over several workspaces.\<close>

lemma tick_without_store:
  assumes "observations_ok s"
  shows "\<exists>obs s'. tick_workspaces cfg sha now batch ws None s = (Inr obs, None, s') \<and>
    map ob_account_id obs = concat (map (\<lambda>w. take batch (active_ids w s)) ws) \<and>
    observations_ok s' \<and> idents s' = idents s \<and> db_observations s' = db_observations s @ obs"
  using assms
proof (induction ws arbitrary: s)
  case (Cons w ws)
  let ?as = "status_monitor_accounts w None batch s"
  have sel: "map acc_id ?as = take batch (active_ids w s)" by (simp add: selected_ids)
  show ?case
  proof (cases "?as = []")
    case True
    then have none: "take batch (active_ids w s) = []" using sel by (simp only: list.map)
    obtain obs s' where ih: "tick_workspaces cfg sha now batch ws None s = (Inr obs, None, s')"
      "map ob_account_id obs = concat (map (\<lambda>w. take batch (active_ids w s)) ws)"
      "observations_ok s'" "idents s' = idents s" "db_observations s' = db_observations s @ obs"
      using Cons.IH [OF Cons.prems] by blast
    show ?thesis
      by (rule exI [of _ obs], rule exI [of _ s'])
        (simp only: tick_workspaces.simps option.case True Let_def if_True option.map ih
          list.map concat.simps none append_Nil simp_thms)
  next
    case False
    obtain obs s1 where obs: "observe_all cfg sha snapshot_probe now ?as s = (Inr obs, s1)" "observations_ok s1"
      "idents s1 = idents s" "map ob_account_id obs = map acc_id ?as" "db_observations s1 = db_observations s @ obs"
      using observe_all_total [OF Cons.prems, of cfg sha snapshot_probe now ?as] by blast
    have "active_ids v s1 = active_ids v s" for v using obs(3) by (rule active_ids_idents)
    with Cons.IH [OF obs(2)] False obs sel show ?thesis by auto
  qed
qed simp

fun scheduler_ticks :: "settings \<Rightarrow> (string \<Rightarrow> string) \<Rightarrow> time list \<Rightarrow> db \<Rightarrow> db" where
  "scheduler_ticks cfg sha [] s = s"
| "scheduler_ticks cfg sha (now # ts) s =
     scheduler_ticks cfg sha ts
       (snd (snd (run_account_status_monitor_tick cfg sha None None now STATUS_MONITOR_BATCH_SIZE s)))"

section \<open>Properties\<close>

text \<open>
  C36. With a state store the monitor covers a workspace completely and fairly: from an empty
  checkpoint, \<open>k\<close> consecutive runs observe the first \<open>k * batch\<close> monitored accounts in the order of
  their identifiers, each exactly once, until all are done, and the lock is free after every run.
\<close>

theorem monitor_covers_accounts:
  assumes "observations_ok s" and "distinct (map acc_id (db_accounts s))"
    and "st LockKey = None" and "st (CheckpointKey w) = None" and "0 < batch"
    and "length ts * batch < length (active_ids w s) + batch"
  shows "fst (monitor_rounds cfg sha w batch ts st s) = take (length ts * batch) (active_ids w s) \<and>
    distinct (fst (monitor_rounds cfg sha w batch ts st s)) \<and>
    (length (active_ids w s) \<le> length ts * batch \<longrightarrow>
       set (fst (monitor_rounds cfg sha w batch ts st s)) =
         {acc_id a |a. a \<in> set (db_accounts s) \<and> monitored a \<and> acc_workspace_id a = w}) \<and>
    fst (snd (monitor_rounds cfg sha w batch ts st s)) LockKey = None"
proof -
  have "distinct (active_ids w s)" using assms(2) by (simp add: active_ids_def distinct_map_filter)
  moreover have "set (active_ids w s) = {acc_id a |a. a \<in> set (db_accounts s) \<and> monitored a \<and> acc_workspace_id a = w}"
    by (auto simp: active_ids_def)
  ultimately show ?thesis
    using rounds_from [where s = s and st = st and w = w and m = 0 and batch = batch and ts = ts and cfg = cfg and sha = sha]
      assms
    by (simp add: checkpoint_after_def)
qed

theorem monitor_covers_accounts_witness:
  "fst (monitor_rounds disabled_settings (\<lambda>x. x) 7 2 [10, 20] (\<lambda>_. None)
     (empty_db\<lparr>db_accounts := [imported_account 5 7 0, imported_account 3 7 0, imported_account 4 7 0]\<rparr>)) = [3, 4, 5]"
proof -
  let ?s = "empty_db\<lparr>db_accounts := [imported_account 5 7 0, imported_account 3 7 0, imported_account 4 7 0]\<rparr>"
  have ids: "active_ids 7 ?s = [3, 4, 5]"
    by (simp add: active_ids_def monitored_def imported_account_def)
  have "observations_ok ?s" "distinct (map acc_id (db_accounts ?s))"
    by (simp_all add: observations_ok_def empty_db_def imported_account_def)
  from monitor_covers_accounts [OF this, of "\<lambda>_. None" 7 2 "[10, 20]" disabled_settings "\<lambda>x. x"]
  show ?thesis by (simp add: ids del: monitor_rounds.simps)
qed

text \<open>
  C40. Without a state store, which is how the scheduler calls it, the monitor never gets past the
  first batch: however often it runs, an account that 500 monitored accounts of its workspace
  precede in identifier order gets no observation at all.
\<close>

theorem scheduler_starves_late_accounts:
  assumes "observations_ok s"
    and "\<forall>w. i \<notin> set (take STATUS_MONITOR_BATCH_SIZE (active_ids w s))"
  shows "filter (\<lambda>ob. ob_account_id ob = i) (db_observations (scheduler_ticks cfg sha ts s)) =
    filter (\<lambda>ob. ob_account_id ob = i) (db_observations s)"
  using assms
proof (induction ts arbitrary: s)
  case (Cons now ts)
  let ?s0 = "s\<lparr>db_next_id := Suc (db_next_id s)\<rparr>"
  have ok0: "observations_ok ?s0" using Cons.prems(1) by (auto simp: observations_ok_def)
  obtain obs s' where t: "tick_workspaces cfg sha now STATUS_MONITOR_BATCH_SIZE (status_monitor_workspace_ids None ?s0) None ?s0 =
      (Inr obs, None, s')"
    "map ob_account_id obs = concat (map (\<lambda>w. take STATUS_MONITOR_BATCH_SIZE (active_ids w ?s0)) (status_monitor_workspace_ids None ?s0))"
    "observations_ok s'" "idents s' = idents ?s0" "db_observations s' = db_observations ?s0 @ obs"
    using tick_without_store [OF ok0] by blast
  have ids0: "active_ids w ?s0 = active_ids w s" for w by (rule active_ids_idents) (simp add: idents_def)
  have ids': "active_ids w s' = active_ids w s" for w
    using active_ids_idents [OF t(4)] ids0 by simp
  have "i \<notin> set (map ob_account_id obs)"
    unfolding t(2) using Cons.prems(2) by (auto simp: ids0)
  then have "filter (\<lambda>ob. ob_account_id ob = i) obs = []" by (auto simp: filter_empty_conv)
  moreover have "scheduler_ticks cfg sha (now # ts) s = scheduler_ticks cfg sha ts s'"
    using t(1) by (simp add: run_account_status_monitor_tick_def new_id_def Let_def)
  ultimately show ?case
    using Cons.IH [OF t(3)] Cons.prems(2) t(5) by (simp add: ids')
qed simp

definition many_accounts :: db where
  "many_accounts = empty_db\<lparr>db_accounts := map (\<lambda>i. imported_account i 7 0) [0..<501]\<rparr>"

theorem scheduler_starves_late_accounts_witness:
  "filter (\<lambda>ob. ob_account_id ob = 500) (db_observations (scheduler_ticks disabled_settings (\<lambda>x. x) [10, 20, 30] many_accounts)) = []"
proof -
  have ids: "active_ids w many_accounts = (if w = 7 then [0..<501] else [])" for w
    by (simp add: active_ids_def many_accounts_def monitored_def imported_account_def comp_def filter_map
        del: upt_conv_Cons upt_Suc)
  have "500 \<notin> set (take STATUS_MONITOR_BATCH_SIZE (active_ids w many_accounts))" for w
    by (simp add: ids STATUS_MONITOR_BATCH_SIZE_def take_upt del: upt_Suc)
  then show ?thesis
    using scheduler_starves_late_accounts [of many_accounts 500 disabled_settings "\<lambda>x. x" "[10, 20, 30]"]
    by (simp add: observations_ok_def many_accounts_def empty_db_def)
qed

end
