(* ===== verification/KeyedTable.thy ===== *)
theory KeyedTable
  imports Prelude
begin

text \<open>
  The interface of a table written by insert-or-update on a unique key, which the load buckets, the
  GGR scores and the operation cooldowns share. A provider gives its rows, their key, the write
  and the key of what is written, and promises that a write appends one row when the key is new
  and rewrites the row of the key, keeping the key, when it is there. \<open>counter_table\<close> adds rows
  that count: a write adds its amount.
\<close>

locale upsert_table =
  fixes rows :: "'st \<Rightarrow> 'row list"
    and key :: "'row \<Rightarrow> 'k"
    and put :: "'v \<Rightarrow> 'st \<Rightarrow> 'st"
    and vkey :: "'v \<Rightarrow> 'k"
    and merge :: "'v \<Rightarrow> 'row \<Rightarrow> 'row"
    and fresh :: "'v \<Rightarrow> 'st \<Rightarrow> 'row"
  assumes put_new: "vkey v \<notin> key ` set (rows s) \<Longrightarrow> rows (put v s) = rows s @ [fresh v s]"
    and put_old: "vkey v \<in> key ` set (rows s) \<Longrightarrow>
      rows (put v s) = update_where (\<lambda>r. key r = vkey v) (merge v) (rows s)"
    and key_fresh: "key (fresh v s) = vkey v"
    and key_merge: "key (merge v r) = key r"
begin

definition puts :: "'v list \<Rightarrow> 'st \<Rightarrow> 'st" where
  "puts vs s = fold put vs s"

definition lookup :: "'st \<Rightarrow> 'k \<Rightarrow> 'row option" where
  "lookup s k = find (\<lambda>r. key r = k) (rows s)"

lemma puts_simps [simp]: "puts [] s = s" "puts (v # vs) s = puts vs (put v s)"
  by (simp_all add: puts_def)

lemma lookup_none: "lookup s k = None \<longleftrightarrow> k \<notin> key ` set (rows s)"
  by (auto simp: lookup_def find_none_iff)

lemma put_keys: "key ` set (rows (put v s)) = insert (vkey v) (key ` set (rows s))"
proof (cases "vkey v \<in> key ` set (rows s)")
  case True
  have "map key (rows (put v s)) = map key (rows s)"
    unfolding put_old [OF True] by (rule map_update_where) (rule key_merge)
  then have "key ` set (rows (put v s)) = key ` set (rows s)"
    by (metis set_map)
  with True show ?thesis by (simp add: insert_absorb)
next
  case False
  then show ?thesis by (simp add: put_new key_fresh)
qed

lemma put_distinct:
  assumes "distinct (map key (rows s))"
  shows "distinct (map key (rows (put v s)))"
proof (cases "vkey v \<in> key ` set (rows s)")
  case True
  then show ?thesis using assms by (simp add: put_old map_update_where key_merge)
next
  case False
  then show ?thesis using assms by (simp add: put_new key_fresh)
qed

lemma puts_distinct: "distinct (map key (rows s)) \<Longrightarrow> distinct (map key (rows (puts vs s)))"
  by (induction vs arbitrary: s) (simp_all add: put_distinct)

text \<open>A write is visible at its own key and nowhere else.\<close>

lemma lookup_put:
  "lookup (put v s) k =
     (if k = vkey v then Some (case lookup s k of None \<Rightarrow> fresh v s | Some r \<Rightarrow> merge v r)
      else lookup s k)"
proof (cases "vkey v \<in> key ` set (rows s)")
  case True
  have "lookup (put v s) k = map_option (\<lambda>r. if key r = vkey v then merge v r else r) (lookup s k)"
    unfolding lookup_def put_old [OF True] by (rule find_update_where) (simp add: key_merge)
  moreover have "lookup s (vkey v) \<noteq> None" using True by (simp add: lookup_none)
  moreover have "lookup s k = Some r \<Longrightarrow> key r = k" for r
    by (auto simp: lookup_def dest: find_mem)
  ultimately show ?thesis by (cases "lookup s k") auto
next
  case False
  moreover from this have "lookup s (vkey v) = None" by (simp add: lookup_none)
  ultimately show ?thesis
    by (auto simp: lookup_def put_new find_append key_fresh split: option.split)
qed

lemma lookup_puts_other: "k \<notin> vkey ` set vs \<Longrightarrow> lookup (puts vs s) k = lookup s k"
  by (induction vs arbitrary: s) (simp_all add: lookup_put)

end

locale counter_table = upsert_table +
  fixes amount :: "'b \<Rightarrow> int"
    and inc :: "'d \<Rightarrow> int"
  assumes amount_fresh: "amount (fresh v s) = inc v"
    and amount_merge: "amount (merge v r) = amount r + inc v"
begin

lemma total_put:
  assumes "distinct (map key (rows s))"
  shows "(\<Sum>r\<leftarrow>filter (Q \<circ> key) (rows (put v s)). amount r) =
    (\<Sum>r\<leftarrow>filter (Q \<circ> key) (rows s). amount r) + (if Q (vkey v) then inc v else 0)"
proof (cases "vkey v \<in> key ` set (rows s)")
  case True
  have "distinct (map key xs) \<Longrightarrow> vkey v \<in> key ` set xs \<Longrightarrow>
      (\<Sum>r\<leftarrow>filter (Q \<circ> key) (update_where (\<lambda>r. key r = vkey v) (merge v) xs). amount r) =
      (\<Sum>r\<leftarrow>filter (Q \<circ> key) xs. amount r) + (if Q (vkey v) then inc v else 0)" for xs
  proof (induction xs)
    case (Cons x xs)
    show ?case
    proof (cases "key x = vkey v")
      case True
      from Cons.prems have "key x \<notin> key ` set xs" by simp
      with True have "\<forall>r\<in>set xs. key r \<noteq> vkey v" by (metis imageI)
      then have "update_where (\<lambda>r. key r = vkey v) (merge v) xs = xs"
        by (simp add: update_where_none)
      with True show ?thesis by (simp add: key_merge amount_merge)
    next
      case False
      with Cons show ?thesis by auto
    qed
  qed simp
  with True assms show ?thesis by (simp add: put_old)
next
  case False
  then show ?thesis by (simp add: put_new key_fresh amount_fresh)
qed

lemma total_puts:
  "distinct (map key (rows s)) \<Longrightarrow>
   (\<Sum>r\<leftarrow>filter (Q \<circ> key) (rows (puts vs s)). amount r) =
   (\<Sum>r\<leftarrow>filter (Q \<circ> key) (rows s). amount r) + (\<Sum>v\<leftarrow>filter (Q \<circ> vkey) vs. inc v)"
  by (induction vs arbitrary: s) (auto simp: put_distinct total_put)

end

end
