(* ===== verification/LoadTracker.thy ===== *)
theory LoadTracker
  imports KeyedTable Lifecycle
begin

text \<open>
  Cross-module load: \<open>services/cross_module_load_tracker.py\<close> and \<open>services/feature_flags.py\<close>.
  Actions are counted in one bucket per workspace, account and clock hour; the load of an account
  is read back as the current hour and the last 24 clock hours.
\<close>

section \<open>Definitions\<close>

datatype load_module = ModWarmup | ModCommenting | ModEditing | ModOther

datatype dialect = Postgresql | Sqlite | OtherDialect

datatype threshold_verdict = LoadOk | LoadWarning | LoadBlocked

record load_threshold =
  lt_hour :: int
  lt_day :: int

fun LOAD_THRESHOLDS :: "safety_mode \<Rightarrow> load_threshold" where
  "LOAD_THRESHOLDS Conservative = \<lparr>lt_hour = 12, lt_day = 80\<rparr>"
| "LOAD_THRESHOLDS Balanced = \<lparr>lt_hour = 25, lt_day = 200\<rparr>"
| "LOAD_THRESHOLDS Aggressive = \<lparr>lt_hour = 60, lt_day = 500\<rparr>"

definition current_bucket_start :: "time \<Rightarrow> time" where
  "current_bucket_start now = now - now mod hours 1"

fun module_column :: "load_module \<Rightarrow> cross_module_load_bucket \<Rightarrow> int" where
  "module_column ModWarmup b = lb_warmup_actions b"
| "module_column ModCommenting b = lb_commenting_actions b"
| "module_column ModEditing b = lb_editing_actions b"
| "module_column ModOther b = lb_other_actions b"

fun add_to_column :: "load_module \<Rightarrow> int \<Rightarrow> cross_module_load_bucket \<Rightarrow> cross_module_load_bucket" where
  "add_to_column ModWarmup n b = b\<lparr>lb_warmup_actions := lb_warmup_actions b + n\<rparr>"
| "add_to_column ModCommenting n b = b\<lparr>lb_commenting_actions := lb_commenting_actions b + n\<rparr>"
| "add_to_column ModEditing n b = b\<lparr>lb_editing_actions := lb_editing_actions b + n\<rparr>"
| "add_to_column ModOther n b = b\<lparr>lb_other_actions := lb_other_actions b + n\<rparr>"

definition empty_bucket :: "uuid \<Rightarrow> uuid \<Rightarrow> uuid \<Rightarrow> time \<Rightarrow> cross_module_load_bucket" where
  "empty_bucket i w a start =
     \<lparr>lb_id = i, lb_workspace_id = w, lb_account_id = a, lb_bucket_start = start,
      lb_warmup_actions = 0, lb_commenting_actions = 0, lb_editing_actions = 0, lb_other_actions = 0\<rparr>"

definition bucket_key :: "cross_module_load_bucket \<Rightarrow> uuid \<times> uuid \<times> time" where
  "bucket_key b = (lb_workspace_id b, lb_account_id b, lb_bucket_start b)"

text \<open>The tracked event: what the call of \<open>track\<close> adds, with the hour it falls in.\<close>

record load_event =
  ev_workspace :: uuid
  ev_account :: uuid
  ev_bucket :: time
  ev_module :: load_module
  ev_count :: int

definition event_key :: "load_event \<Rightarrow> uuid \<times> uuid \<times> time" where
  "event_key e = (ev_workspace e, ev_account e, ev_bucket e)"

text \<open>\<open>INSERT ... ON CONFLICT (workspace_id, account_id, bucket_start) DO UPDATE\<close>.\<close>

definition native_upsert :: "load_event \<Rightarrow> db \<Rightarrow> db" where
  "native_upsert e s =
     (let (i, s1) = new_id s in
      if list_ex (\<lambda>b. bucket_key b = event_key e) (db_load_buckets s1)
      then s1\<lparr>db_load_buckets := update_where (\<lambda>b. bucket_key b = event_key e)
                 (add_to_column (ev_module e) (ev_count e)) (db_load_buckets s1)\<rparr>
      else s1\<lparr>db_load_buckets := db_load_buckets s1 @
                 [add_to_column (ev_module e) (ev_count e)
                    (empty_bucket i (ev_workspace e) (ev_account e) (ev_bucket e))]\<rparr>)"

text \<open>
  The fallback adds to the attribute of the row object; a row that is only pending has no value
  there yet (its column default is applied by the flush), so that the addition raises.
\<close>

definition track_without_native_upsert :: "load_event \<Rightarrow> db \<Rightarrow> unit result \<times> db" where
  "track_without_native_upsert e s =
     (if list_ex (\<lambda>b. bucket_key b = event_key e) (db_load_buckets s)
      then (Inr (), s\<lparr>db_load_buckets := update_where (\<lambda>b. bucket_key b = event_key e)
                        (add_to_column (ev_module e) (ev_count e)) (db_load_buckets s)\<rparr>)
      else let (i, s1) = new_id s in
        (Inl (TypeError ''unsupported operand''),
         s1\<lparr>db_load_buckets := db_load_buckets s1 @
               [empty_bucket i (ev_workspace e) (ev_account e) (ev_bucket e)]\<rparr>))"

definition account_in_workspace :: "uuid \<Rightarrow> uuid \<Rightarrow> db \<Rightarrow> bool" where
  "account_in_workspace w a s \<longleftrightarrow>
     list_ex (\<lambda>r. acc_workspace_id r = w \<and> acc_id r = a) (db_accounts s)"

definition track ::
  "dialect \<Rightarrow> time \<Rightarrow> uuid \<Rightarrow> uuid \<Rightarrow> load_module \<Rightarrow> int \<Rightarrow> db \<Rightarrow> unit result \<times> db" where
  "track dia now w a m count s =
     (if count \<le> 0 then (Inl (ValueError ''count must be positive''), s)
      else if \<not> account_in_workspace w a s then (Inl NotFound, s)
      else let e = \<lparr>ev_workspace = w, ev_account = a, ev_bucket = current_bucket_start now,
                    ev_module = m, ev_count = count\<rparr>
        in if dia = OtherDialect then track_without_native_upsert e s
           else (Inr (), native_upsert e s))"

record cross_module_load =
  last_hour :: int
  last_24h :: int
  load_breakdown :: "(load_module \<times> int) list"

definition window_start :: "time \<Rightarrow> time" where
  "window_start now = current_bucket_start now - hours 23"

definition current_load :: "time \<Rightarrow> uuid \<Rightarrow> uuid \<Rightarrow> db \<Rightarrow> cross_module_load" where
  "current_load now w a s =
     (let rows = filter (\<lambda>b. lb_workspace_id b = w \<and> lb_account_id b = a \<and>
                    window_start now \<le> lb_bucket_start b) (db_load_buckets s)
      in \<lparr>last_hour = (\<Sum>b\<leftarrow>rows. if lb_bucket_start b = current_bucket_start now
                                 then total_actions b else 0),
          last_24h = (\<Sum>b\<leftarrow>rows. total_actions b),
          load_breakdown =
            [(ModWarmup, \<Sum>b\<leftarrow>rows. lb_warmup_actions b),
             (ModCommenting, \<Sum>b\<leftarrow>rows. lb_commenting_actions b),
             (ModEditing, \<Sum>b\<leftarrow>rows. lb_editing_actions b),
             (ModOther, \<Sum>b\<leftarrow>rows. lb_other_actions b)]\<rparr>)"

text \<open>\<open>thresholds.hour * 0.8\<close> and \<open>thresholds.day * 0.8\<close> compared with whole numbers.\<close>

definition evaluate_threshold :: "cross_module_load \<Rightarrow> safety_mode \<Rightarrow> threshold_verdict" where
  "evaluate_threshold load mode =
     (let t = LOAD_THRESHOLDS mode in
      if last_hour load \<ge> lt_hour t \<or> last_24h load \<ge> lt_day t then LoadBlocked
      else if 10 * last_hour load \<ge> 8 * lt_hour t \<or> 10 * last_24h load \<ge> 8 * lt_day t
      then LoadWarning else LoadOk)"

definition is_safety_pipeline_v2_enabled :: "db \<Rightarrow> uuid \<Rightarrow> bool" where
  "is_safety_pipeline_v2_enabled s w =
     (case find (\<lambda>x. ws_id x = w) (db_workspaces s) of
        None \<Rightarrow> False | Some x \<Rightarrow> ws_safety_pipeline_v2_enabled x)"

section \<open>The load buckets are a table of counters\<close>

lemma add_to_column_frame [simp]:
  "lb_id (add_to_column m n b) = lb_id b"
  "lb_workspace_id (add_to_column m n b) = lb_workspace_id b"
  "lb_account_id (add_to_column m n b) = lb_account_id b"
  "lb_bucket_start (add_to_column m n b) = lb_bucket_start b"
  "bucket_key (add_to_column m n b) = bucket_key b"
  by (cases m; simp add: bucket_key_def)+

lemma add_to_column_amount [simp]:
  "module_column m' (add_to_column m n b) = module_column m' b + (if m' = m then n else 0)"
  "total_actions (add_to_column m n b) = total_actions b + n"
  by (cases m; cases m'; simp add: total_actions_def)+

lemma empty_bucket_simps [simp]:
  "module_column m (empty_bucket i w a t) = 0" "total_actions (empty_bucket i w a t) = 0"
  "bucket_key (empty_bucket i w a t) = (w, a, t)"
  by (cases m; simp add: empty_bucket_def total_actions_def bucket_key_def)+

definition event_row :: "load_event \<Rightarrow> db \<Rightarrow> cross_module_load_bucket" where
  "event_row e s =
     add_to_column (ev_module e) (ev_count e)
       (empty_bucket (db_next_id s) (ev_workspace e) (ev_account e) (ev_bucket e))"

definition event_merge :: "load_event \<Rightarrow> cross_module_load_bucket \<Rightarrow> cross_module_load_bucket" where
  "event_merge e = add_to_column (ev_module e) (ev_count e)"

lemma has_bucket: "list_ex (\<lambda>b. bucket_key b = k) xs \<longleftrightarrow> k \<in> bucket_key ` set xs"
  by (auto simp: list_ex_iff)

interpretation buckets: counter_table db_load_buckets bucket_key native_upsert event_key
    event_merge event_row total_actions ev_count
  by unfold_locales
    (simp_all add: native_upsert_def new_id_def Let_def event_row_def event_merge_def has_bucket
      event_key_def)

interpretation column: counter_table db_load_buckets bucket_key native_upsert event_key
    event_merge event_row "module_column m" "\<lambda>e. if m = ev_module e then ev_count e else 0" for m
  by unfold_locales (auto simp: event_row_def event_merge_def)

section \<open>Histories of tracked actions\<close>

record track_call =
  tc_at :: time
  tc_workspace :: uuid
  tc_account :: uuid
  tc_module :: load_module
  tc_count :: int

definition run_track :: "dialect \<Rightarrow> track_call \<Rightarrow> db \<Rightarrow> db" where
  "run_track dia c s = snd (track dia (tc_at c) (tc_workspace c) (tc_account c) (tc_module c) (tc_count c) s)"

definition run_tracks :: "dialect \<Rightarrow> track_call list \<Rightarrow> db \<Rightarrow> db" where
  "run_tracks dia cs s = fold (run_track dia) cs s"

definition accepted :: "db \<Rightarrow> track_call \<Rightarrow> bool" where
  "accepted s c \<longleftrightarrow> 0 < tc_count c \<and> account_in_workspace (tc_workspace c) (tc_account c) s"

definition event_of :: "track_call \<Rightarrow> load_event" where
  "event_of c = \<lparr>ev_workspace = tc_workspace c, ev_account = tc_account c,
     ev_bucket = current_bucket_start (tc_at c), ev_module = tc_module c, ev_count = tc_count c\<rparr>"

lemma native_upsert_accounts [simp]: "db_accounts (native_upsert e s) = db_accounts s"
  by (simp add: native_upsert_def new_id_def Let_def)

lemma account_in_workspace_upsert [simp]:
  "account_in_workspace w a (native_upsert e s) = account_in_workspace w a s"
  by (simp add: account_in_workspace_def)

lemma run_track_native:
  "dia \<noteq> OtherDialect \<Longrightarrow>
   run_track dia c s = (if accepted s c then native_upsert (event_of c) s else s)"
  by (auto simp: run_track_def track_def accepted_def event_of_def Let_def)

text \<open>The accepted calls are exactly the writes to the table.\<close>

lemma run_tracks_puts:
  assumes "dia \<noteq> OtherDialect"
  shows "run_tracks dia cs s = buckets.puts (map event_of (filter (accepted s) cs)) s"
proof (induction cs arbitrary: s)
  case (Cons c cs)
  have "accepted (native_upsert e s) = accepted s" for e
    by (simp add: accepted_def fun_eq_iff)
  with Cons [of s] Cons [of "native_upsert (event_of c) s"] show ?case
    by (simp add: run_tracks_def run_track_native [OF assms])
qed (simp add: run_tracks_def)

definition in_window :: "time \<Rightarrow> uuid \<Rightarrow> uuid \<Rightarrow> uuid \<times> uuid \<times> time \<Rightarrow> bool" where
  "in_window now w a k \<longleftrightarrow> fst k = w \<and> fst (snd k) = a \<and> current_bucket_start now - hours 23 \<le> snd (snd k)"

definition in_hour :: "time \<Rightarrow> uuid \<Rightarrow> uuid \<Rightarrow> uuid \<times> uuid \<times> time \<Rightarrow> bool" where
  "in_hour now w a k \<longleftrightarrow> fst k = w \<and> fst (snd k) = a \<and> snd (snd k) = current_bucket_start now"

text \<open>The specification: sums over the calls themselves.\<close>

definition called ::
  "(uuid \<times> uuid \<times> time \<Rightarrow> bool) \<Rightarrow> (track_call \<Rightarrow> bool) \<Rightarrow> db \<Rightarrow> track_call list \<Rightarrow> int" where
  "called Q R s cs =
     (\<Sum>c\<leftarrow>cs. if accepted s c \<and> R c \<and> Q (tc_workspace c, tc_account c, current_bucket_start (tc_at c))
             then tc_count c else 0)"

lemma filter_key: "filter (\<lambda>b. lb_workspace_id b = w \<and> lb_account_id b = a \<and> window_start now \<le> lb_bucket_start b) xs =
    filter (in_window now w a \<circ> bucket_key) xs"
  by (rule filter_cong) (simp_all add: in_window_def window_start_def bucket_key_def)

lemma hour_in_window: "in_hour now w a k \<Longrightarrow> in_window now w a k"
  by (auto simp: in_hour_def in_window_def window_start_def hours_def)

lemma sum_hour:
  "(\<Sum>b\<leftarrow>filter (in_window now w a \<circ> bucket_key) xs.
      if lb_bucket_start b = current_bucket_start now then total_actions b else 0) =
   (\<Sum>b\<leftarrow>filter (in_hour now w a \<circ> bucket_key) xs. total_actions b)"
proof (induction xs)
  case (Cons b xs)
  have "in_hour now w a (bucket_key b) \<longleftrightarrow>
      in_window now w a (bucket_key b) \<and> lb_bucket_start b = current_bucket_start now"
    by (auto simp: in_hour_def in_window_def bucket_key_def window_start_def hours_def)
  with Cons show ?case by auto
qed simp

lemma called_filter:
  "called Q R s cs = (\<Sum>e\<leftarrow>filter (Q \<circ> event_key) (map event_of (filter (\<lambda>c. accepted s c \<and> R c) cs)). ev_count e)"
  by (induction cs) (auto simp: called_def event_key_def event_of_def)

lemma called_module:
  "called Q (\<lambda>c. tc_module c = m) s cs =
   (\<Sum>e\<leftarrow>filter (Q \<circ> event_key) (map event_of (filter (accepted s) cs)).
      if m = ev_module e then ev_count e else 0)"
  by (induction cs) (auto simp: called_def event_key_def event_of_def)

lemma module_column_fun:
  "module_column ModWarmup = lb_warmup_actions" "module_column ModCommenting = lb_commenting_actions"
  "module_column ModEditing = lb_editing_actions" "module_column ModOther = lb_other_actions"
  by (simp_all add: fun_eq_iff)

lemma current_load_rows:
  "last_hour (current_load now w a s) =
     (\<Sum>b\<leftarrow>filter (in_hour now w a \<circ> bucket_key) (db_load_buckets s). total_actions b)"
  "last_24h (current_load now w a s) =
     (\<Sum>b\<leftarrow>filter (in_window now w a \<circ> bucket_key) (db_load_buckets s). total_actions b)"
  "load_breakdown (current_load now w a s) =
     map (\<lambda>m. (m, \<Sum>b\<leftarrow>filter (in_window now w a \<circ> bucket_key) (db_load_buckets s). module_column m b))
       [ModWarmup, ModCommenting, ModEditing, ModOther]"
  by (simp_all add: current_load_def Let_def filter_key sum_hour module_column_fun)

section \<open>Properties\<close>

text \<open>
  C32. The load is exact: on a database without buckets, after any sequence of \<open>track\<close> calls on
  PostgreSQL or SQLite, \<open>last_24h\<close> is the sum of the counts of the accepted calls (positive count,
  account in the workspace) of that account whose clock hour is the current one or one of the 23
  before it, \<open>last_hour\<close> the same for the current clock hour, and the breakdown splits
  \<open>last_24h\<close> by module; there is one bucket per account and hour.
\<close>

theorem current_load_counts_calls:
  assumes "dia \<noteq> OtherDialect" and "db_load_buckets s = []"
  shows "last_24h (current_load now w a (run_tracks dia cs s)) = called (in_window now w a) (\<lambda>_. True) s cs \<and>
    last_hour (current_load now w a (run_tracks dia cs s)) = called (in_hour now w a) (\<lambda>_. True) s cs \<and>
    load_breakdown (current_load now w a (run_tracks dia cs s)) =
      map (\<lambda>m. (m, called (in_window now w a) (\<lambda>c. tc_module c = m) s cs))
        [ModWarmup, ModCommenting, ModEditing, ModOther] \<and>
    distinct (map bucket_key (db_load_buckets (run_tracks dia cs s)))"
proof -
  have d: "distinct (map bucket_key (db_load_buckets s))" by (simp add: assms(2))
  note rows = current_load_rows [of now w a] run_tracks_puts [OF assms(1), of cs s]
  have "(\<Sum>b\<leftarrow>filter (in_window now w a \<circ> bucket_key) (db_load_buckets (run_tracks dia cs s)). module_column m b) =
      called (in_window now w a) (\<lambda>c. tc_module c = m) s cs" for m
    using column.total_puts [OF d, where m = m and Q = "in_window now w a"
        and vs = "map event_of (filter (accepted s) cs)"]
    by (simp add: rows(4) called_module assms(2))
  then show ?thesis
    using buckets.total_puts [OF d, of "in_window now w a" "map event_of (filter (accepted s) cs)"]
      buckets.total_puts [OF d, of "in_hour now w a" "map event_of (filter (accepted s) cs)"]
      buckets.puts_distinct [OF d, of "map event_of (filter (accepted s) cs)"]
    by (simp add: rows(1-3) rows(4) called_filter assms(2))
qed

theorem current_load_counts_calls_witness:
  "last_24h (current_load (hours 5) 7 1 (run_tracks Sqlite
     [\<lparr>tc_at = hours 3, tc_workspace = 7, tc_account = 1, tc_module = ModWarmup, tc_count = 4\<rparr>,
      \<lparr>tc_at = hours 5, tc_workspace = 7, tc_account = 1, tc_module = ModOther, tc_count = 2\<rparr>]
     one_account_db)) = 6"
proof -
  have e: "db_load_buckets one_account_db = []" by (simp add: one_account_db_def empty_db_def)
  show ?thesis
    using current_load_counts_calls [OF _ e, of Sqlite "hours 5" 7 1
        "[\<lparr>tc_at = hours 3, tc_workspace = 7, tc_account = 1, tc_module = ModWarmup, tc_count = 4\<rparr>,
          \<lparr>tc_at = hours 5, tc_workspace = 7, tc_account = 1, tc_module = ModOther, tc_count = 2\<rparr>]"]
    by (simp add: called_def accepted_def account_in_workspace_def one_account_db_def imported_account_def
        in_window_def window_start_def current_bucket_start_def hours_def)
qed

text \<open>
  The fallback for other dialects loses the first action of every hour: when the account has
  no bucket for the hour yet, \<open>track\<close> raises \<open>TypeError\<close> and leaves a bucket of zeros; on
  PostgreSQL and SQLite the same call succeeds and the bucket holds the count.
\<close>

theorem track_fallback_diverges:
  assumes "0 < count" and "account_in_workspace w a s"
    and "\<forall>b\<in>set (db_load_buckets s). bucket_key b \<noteq> (w, a, current_bucket_start now)"
  shows "(\<exists>msg s'. track OtherDialect now w a m count s = (Inl (TypeError msg), s') \<and>
      (\<exists>b\<in>set (db_load_buckets s'). bucket_key b = (w, a, current_bucket_start now) \<and> total_actions b = 0)) \<and>
    (\<exists>s'. track Sqlite now w a m count s = (Inr (), s') \<and>
      (\<exists>b\<in>set (db_load_buckets s'). bucket_key b = (w, a, current_bucket_start now) \<and>
         total_actions b = count))"
  using assms
  by (auto simp: track_def track_without_native_upsert_def native_upsert_def new_id_def Let_def
      list_ex_iff event_key_def)

theorem track_fallback_diverges_witness:
  "\<exists>msg s'. track OtherDialect 0 7 1 ModWarmup 3 one_account_db = (Inl (TypeError msg), s')"
  using track_fallback_diverges [of 3 7 1 one_account_db 0 ModWarmup]
  by (auto simp: account_in_workspace_def one_account_db_def imported_account_def empty_db_def)

end
