(* ===== verification/Cooldowns.thy ===== *)
theory Cooldowns
  imports LoadTracker "HOL-Library.Product_Lexorder"
begin

text \<open>
  Operation cooldowns: \<open>account_safety/cooldown_rules.py\<close> and \<open>account_safety/cooldowns.py\<close>.
  Cooldowns are stored rows, or derived on the fly from recent failed and succeeded job steps; each
  query has a form for one account and a batch form. \<open>DESC\<close> puts NULL first on PostgreSQL and
  last on SQLite, so that the orders take the dialect.
\<close>

section \<open>Rules\<close>

record cooldown_settings =
  recent_failure_policy :: string
  profile_update_cooldown_seconds :: int
  username_cooldown_seconds :: int
  profile_photo_cooldown_seconds :: int
  profile_music_cooldown_seconds :: int
  story_post_cooldown_seconds :: int
  story_delete_cooldown_seconds :: int

definition OPERATION_KEYS :: "string list" where
  "OPERATION_KEYS =
     [''profile_update'', ''username'', ''profile_photo'', ''profile_music'', ''story_post'',
      ''story_delete'', ''sync'', ''batch_operation'']"

definition STEP_OPERATION_MAP :: "(string, string) dict" where
  "STEP_OPERATION_MAP =
     [(''set_name'', ''profile_update''), (''set_bio'', ''profile_update''), (''set_username'', ''username''),
      (''set_profile_photo'', ''profile_photo''), (''upload_profile_audio'', ''profile_music''),
      (''add_profile_audio'', ''profile_music''), (''remove_profile_audio'', ''profile_music''),
      (''post_story_image'', ''story_post''), (''post_story_video'', ''story_post''),
      (''delete_story'', ''story_delete'')]"

definition is_digit :: "char \<Rightarrow> bool" where
  "is_digit c \<longleftrightarrow> 48 \<le> char_code c \<and> char_code c \<le> 57"

definition digits_value :: "string \<Rightarrow> int" where
  "digits_value ds = foldl (\<lambda>n c. 10 * n + (int (char_code c) - 48)) 0 ds"

text \<open>The match of \<open>FLOOD_WAIT_?(\d+)\<close>, case ignored, at the start of a text; then anywhere.\<close>

definition flood_wait_here :: "string \<Rightarrow> int option" where
  "flood_wait_here s =
     (if starts_with ''flood_wait'' (lower s)
      then let rest = drop 10 s;
               ds = takeWhile is_digit (case rest of [] \<Rightarrow> [] | c # cs \<Rightarrow> if c = CHR ''_'' then cs else rest)
           in if ds = [] then None else Some (digits_value ds)
      else None)"

fun flood_wait_search :: "string \<Rightarrow> int option" where
  "flood_wait_search [] = None"
| "flood_wait_search (c # cs) =
     (case flood_wait_here (c # cs) of Some n \<Rightarrow> Some n | None \<Rightarrow> flood_wait_search cs)"

text \<open>The fields a rule determines.\<close>

record cooldown_fields =
  fc_operation :: string
  fc_level :: string
  fc_reason_code :: string
  fc_started_at :: time
  fc_retry_after_at :: time
  fc_source :: string

fun earliest_time :: "time option \<Rightarrow> time option \<Rightarrow> time option" where
  "earliest_time (Some t) u = Some t"
| "earliest_time None u = u"

definition product_cooldown_seconds :: "cooldown_settings \<Rightarrow> string \<Rightarrow> int" where
  "product_cooldown_seconds cfg operation =
     (case dict_get [(''profile_update'', profile_update_cooldown_seconds cfg),
                     (''username'', username_cooldown_seconds cfg),
                     (''profile_photo'', profile_photo_cooldown_seconds cfg),
                     (''profile_music'', profile_music_cooldown_seconds cfg),
                     (''story_post'', story_post_cooldown_seconds cfg),
                     (''story_delete'', story_delete_cooldown_seconds cfg)] operation of
        None \<Rightarrow> 0 | Some n \<Rightarrow> n)"

definition cooldown_from_failed_step ::
  "cooldown_settings \<Rightarrow> time \<Rightarrow> job_step_result \<Rightarrow> cooldown_fields option" where
  "cooldown_from_failed_step cfg now step =
     (let error_code = str_or (st_error_code step) [];
          operation = (case dict_get STEP_OPERATION_MAP (st_step_type step) of
                         None \<Rightarrow> ''profile_update'' | Some x \<Rightarrow> x);
          started_at = (case earliest_time (st_finished_at step) (st_started_at step) of None \<Rightarrow> now | Some t \<Rightarrow> t)
      in case flood_wait_search error_code of
           None \<Rightarrow>
             if recent_failure_policy cfg \<noteq> ''cooldown'' then None
             else let n = product_cooldown_seconds cfg operation in
               if n \<le> 0 then None
               else Some \<lparr>fc_operation = operation, fc_level = ''warning'',
                          fc_reason_code = ''recent_failure_cooldown'', fc_started_at = started_at,
                          fc_retry_after_at = started_at + seconds n, fc_source = ''job_step_result''\<rparr>
         | Some n \<Rightarrow>
             Some \<lparr>fc_operation = operation, fc_level = ''blocked'', fc_reason_code = ''recent_flood_wait'',
                   fc_started_at = started_at, fc_retry_after_at = started_at + seconds n,
                   fc_source = ''job_step_result''\<rparr>)"

text \<open>What the queries answer; the identifier tells where a cooldown comes from.\<close>

datatype cooldown_ref = StoredRow uuid | RecentStep uuid | ProductStep uuid

record cooldown_info =
  ci_id :: cooldown_ref
  ci_account_id :: uuid
  ci_fields :: cooldown_fields
  ci_source_job_id :: "uuid option"
  ci_source_step_id :: "uuid option"

definition cooldown_to_dict :: "account_operation_cooldown \<Rightarrow> cooldown_info" where
  "cooldown_to_dict row =
     \<lparr>ci_id = StoredRow (cd_id row), ci_account_id = cd_account_id row,
      ci_fields = \<lparr>fc_operation = cd_operation row, fc_level = cd_level row, fc_reason_code = cd_reason_code row,
                   fc_started_at = cd_started_at row, fc_retry_after_at = cd_retry_after_at row,
                   fc_source = cd_source row\<rparr>,
      ci_source_job_id = cd_source_job_id row, ci_source_step_id = cd_source_step_id row\<rparr>"

section \<open>Groups\<close>

type_synonym cooldown_map = "(string, cooldown_info list) dict"

definition empty_groups :: cooldown_map where
  "empty_groups = map (\<lambda>operation. (operation, [])) OPERATION_KEYS"

text \<open>\<open>result.setdefault(operation, []).extend(cooldowns)\<close>.\<close>

definition group_extend :: "string \<Rightarrow> cooldown_info list \<Rightarrow> cooldown_map \<Rightarrow> cooldown_map" where
  "group_extend operation cs groups =
     dict_set operation ((case dict_get groups operation of None \<Rightarrow> [] | Some xs \<Rightarrow> xs) @ cs) groups"

definition group_add :: "cooldown_info \<Rightarrow> cooldown_map \<Rightarrow> cooldown_map" where
  "group_add c groups = group_extend (fc_operation (ci_fields c)) [c] groups"

definition group_cooldowns :: "cooldown_info list \<Rightarrow> cooldown_map" where
  "group_cooldowns cs = fold group_add cs empty_groups"

definition merge_cooldowns :: "cooldown_map list \<Rightarrow> cooldown_map" where
  "merge_cooldowns groups =
     fold (fold (\<lambda>(operation, cooldowns). group_extend operation cooldowns)) groups empty_groups"

section \<open>Job steps\<close>

definition desc_key :: "dialect \<Rightarrow> time option \<Rightarrow> nat \<times> int" where
  "desc_key dia x =
     (case x of Some t \<Rightarrow> (1, - t) | None \<Rightarrow> (if dia = Sqlite then 2 else 0, 0))"

definition step_order :: "dialect \<Rightarrow> job_step_result \<Rightarrow> (nat \<times> int) \<times> (nat \<times> int)" where
  "step_order dia st = (desc_key dia (st_finished_at st), desc_key dia (st_started_at st))"

definition account_steps :: "db \<Rightarrow> (uuid \<times> job_step_result) list" where
  "account_steps s = [(job_account_id j, st). st \<leftarrow> db_steps s, j \<leftarrow> db_jobs s, job_id j = st_job_id st]"

definition failed_with_code :: "job_step_result \<Rightarrow> bool" where
  "failed_with_code st \<longleftrightarrow> st_status st = StepFailed \<and> st_error_code st \<noteq> None"

definition recent_failed_steps :: "dialect \<Rightarrow> uuid \<Rightarrow> db \<Rightarrow> job_step_result list" where
  "recent_failed_steps dia a s =
     take 20 (map snd (sort_key (\<lambda>x. step_order dia (snd x))
       (filter (\<lambda>(b, st). b = a \<and> failed_with_code st) (account_steps s))))"

definition latest_succeeded_step :: "dialect \<Rightarrow> uuid \<Rightarrow> string \<Rightarrow> db \<Rightarrow> job_step_result option" where
  "latest_succeeded_step dia a step_type s =
     (case sort_key (\<lambda>x. step_order dia (snd x))
        (filter (\<lambda>(b, st). b = a \<and> st_step_type st = step_type \<and> st_status st = StepSucceeded) (account_steps s))
      of [] \<Rightarrow> None | x # _ \<Rightarrow> Some (snd x))"

section \<open>Queries for one account\<close>

definition build_failure_cooldown_map ::
  "cooldown_settings \<Rightarrow> time \<Rightarrow> job_step_result list \<Rightarrow> uuid \<Rightarrow> cooldown_map" where
  "build_failure_cooldown_map cfg now steps a =
     group_cooldowns (List.map_filter (\<lambda>step. map_option (\<lambda>f.
         \<lparr>ci_id = RecentStep (st_id step), ci_account_id = a, ci_fields = f,
          ci_source_job_id = Some (st_job_id step), ci_source_step_id = Some (st_id step)\<rparr>)
       (cooldown_from_failed_step cfg now step)) steps)"

definition recent_failure_cooldowns_by_operation ::
  "cooldown_settings \<Rightarrow> dialect \<Rightarrow> time \<Rightarrow> uuid \<Rightarrow> db \<Rightarrow> cooldown_map" where
  "recent_failure_cooldowns_by_operation cfg dia now a s =
     build_failure_cooldown_map cfg now (recent_failed_steps dia a s) a"

definition active_cooldown_rows :: "uuid \<Rightarrow> time \<Rightarrow> db \<Rightarrow> account_operation_cooldown list" where
  "active_cooldown_rows a now s =
     order_desc cd_retry_after_at
       (filter (\<lambda>c. cd_account_id c = a \<and> now < cd_retry_after_at c) (db_cooldowns s))"

definition active_cooldowns_by_operation :: "uuid \<Rightarrow> time \<Rightarrow> db \<Rightarrow> cooldown_map" where
  "active_cooldowns_by_operation a now s =
     group_cooldowns (map cooldown_to_dict (active_cooldown_rows a now s))"

definition list_active_account_cooldowns :: "uuid \<Rightarrow> time \<Rightarrow> db \<Rightarrow> cooldown_info list" where
  "list_active_account_cooldowns a now s = map cooldown_to_dict (active_cooldown_rows a now s)"

text \<open>The cooldown of one step type, from the step that \<open>find_step\<close> answers.\<close>

definition product_cooldown ::
  "cooldown_settings \<Rightarrow> time \<Rightarrow> uuid \<Rightarrow> (string \<Rightarrow> job_step_result option) \<Rightarrow> string \<times> string \<Rightarrow>
   cooldown_info option" where
  "product_cooldown cfg now a find_step entry =
     (let (step_type, operation) = entry; n = product_cooldown_seconds cfg operation in
      if n \<le> 0 then None
      else case find_step step_type of
        None \<Rightarrow> None
      | Some step \<Rightarrow>
          (case earliest_time (st_finished_at step) (st_started_at step) of
             None \<Rightarrow> None
           | Some finished_at \<Rightarrow>
               let retry_after = finished_at + seconds n in
               if retry_after \<le> now then None
               else Some \<lparr>ci_id = ProductStep (st_id step), ci_account_id = a,
                          ci_fields = \<lparr>fc_operation = operation, fc_level = ''warning'',
                                       fc_reason_code = ''product_cooldown:'' @ operation,
                                       fc_started_at = finished_at, fc_retry_after_at = retry_after,
                                       fc_source = ''product_policy''\<rparr>,
                          ci_source_job_id = Some (st_job_id step), ci_source_step_id = Some (st_id step)\<rparr>))"

definition product_cooldowns_by_operation ::
  "cooldown_settings \<Rightarrow> dialect \<Rightarrow> time \<Rightarrow> uuid \<Rightarrow> db \<Rightarrow> cooldown_map" where
  "product_cooldowns_by_operation cfg dia now a s =
     group_cooldowns (List.map_filter
       (product_cooldown cfg now a (\<lambda>step_type. latest_succeeded_step dia a step_type s)) STEP_OPERATION_MAP)"

section \<open>Queries for many accounts\<close>

definition batch_active_cooldowns_by_operation :: "uuid list \<Rightarrow> time \<Rightarrow> db \<Rightarrow> (uuid, cooldown_map) dict" where
  "batch_active_cooldowns_by_operation account_ids now s =
     fold (\<lambda>row result.
         dict_set (cd_account_id row)
           (group_add (cooldown_to_dict row)
              (case dict_get result (cd_account_id row) of None \<Rightarrow> empty_groups | Some g \<Rightarrow> g)) result)
       (order_desc cd_retry_after_at
         (filter (\<lambda>c. cd_account_id c \<in> set account_ids \<and> now < cd_retry_after_at c) (db_cooldowns s))) []"

definition batch_recent_failed_steps ::
  "dialect \<Rightarrow> uuid list \<Rightarrow> db \<Rightarrow> (uuid, job_step_result list) dict" where
  "batch_recent_failed_steps dia account_ids s =
     fold (\<lambda>(a, step) result.
         let steps = (case dict_get result a of None \<Rightarrow> [] | Some xs \<Rightarrow> xs)
         in dict_set a (if length steps < 20 then steps @ [step] else steps) result)
       (sort_key (\<lambda>x. (fst x, step_order dia (snd x)))
         (filter (\<lambda>(b, st). b \<in> set account_ids \<and> failed_with_code st) (account_steps s))) []"

definition batch_latest_succeeded_steps ::
  "dialect \<Rightarrow> (string \<Rightarrow> nat) \<Rightarrow> uuid list \<Rightarrow> db \<Rightarrow> (uuid \<times> string, job_step_result) dict" where
  "batch_latest_succeeded_steps dia collation account_ids s =
     fold (\<lambda>(a, step) result.
         if dict_get result (a, st_step_type step) = None then dict_set (a, st_step_type step) step result else result)
       (sort_key (\<lambda>x. (fst x, collation (st_step_type (snd x)), step_order dia (snd x)))
         (filter (\<lambda>(b, st). b \<in> set account_ids \<and> st_step_type st \<in> set (map fst STEP_OPERATION_MAP) \<and>
                            st_status st = StepSucceeded) (account_steps s))) []"

definition recent_failure_cooldowns_from_steps ::
  "cooldown_settings \<Rightarrow> time \<Rightarrow> job_step_result list \<Rightarrow> uuid \<Rightarrow> cooldown_map" where
  "recent_failure_cooldowns_from_steps cfg now steps a = build_failure_cooldown_map cfg now steps a"

definition product_cooldowns_from_steps ::
  "cooldown_settings \<Rightarrow> time \<Rightarrow> (uuid \<times> string, job_step_result) dict \<Rightarrow> uuid \<Rightarrow> cooldown_map" where
  "product_cooldowns_from_steps cfg now succeeded_steps a =
     group_cooldowns (List.map_filter
       (product_cooldown cfg now a (\<lambda>step_type. dict_get succeeded_steps (a, step_type))) STEP_OPERATION_MAP)"

section \<open>Writing cooldowns\<close>

definition stored_fields :: "cooldown_fields \<Rightarrow> job_step_result \<Rightarrow> time \<Rightarrow> account_operation_cooldown \<Rightarrow> account_operation_cooldown" where
  "stored_fields f step now row =
     row\<lparr>cd_operation := fc_operation f, cd_level := fc_level f, cd_reason_code := fc_reason_code f,
         cd_started_at := fc_started_at f, cd_retry_after_at := fc_retry_after_at f, cd_source := fc_source f,
         cd_source_job_id := Some (st_job_id step), cd_source_step_id := Some (st_id step), cd_updated_at := now\<rparr>"

text \<open>\<open>updated_at\<close> is stamped by \<open>onupdate\<close>, when the assignments change a column.\<close>

definition upsert_cooldown :: "time \<Rightarrow> uuid \<Rightarrow> job_step_result \<Rightarrow> cooldown_fields \<Rightarrow> db \<Rightarrow> db" where
  "upsert_cooldown now a step f s =
     (case find (\<lambda>c. cd_account_id c = a \<and> cd_source_step_id c = Some (st_id step)) (db_cooldowns s) of
        None \<Rightarrow>
          let (i, s1) = new_id s in
          s1\<lparr>db_cooldowns := db_cooldowns s1 @
               [stored_fields f step now
                  \<lparr>cd_id = i, cd_account_id = a, cd_operation = [], cd_level = [], cd_reason_code = [],
                   cd_started_at = 0, cd_retry_after_at = 0, cd_source = [], cd_source_job_id = None,
                   cd_source_step_id = None, cd_created_at = now, cd_updated_at = now\<rparr>]\<rparr>
      | Some existing \<Rightarrow>
          let row = stored_fields f step (cd_updated_at existing) existing in
          s\<lparr>db_cooldowns := update_where (\<lambda>c. cd_id c = cd_id existing)
               (\<lambda>_. if row = existing then existing else row\<lparr>cd_updated_at := now\<rparr>) (db_cooldowns s)\<rparr>)"

definition ensure_cooldowns_from_recent_failures ::
  "cooldown_settings \<Rightarrow> dialect \<Rightarrow> time \<Rightarrow> uuid \<Rightarrow> db \<Rightarrow> db" where
  "ensure_cooldowns_from_recent_failures cfg dia now a s =
     fold (\<lambda>step s'. case cooldown_from_failed_step cfg now step of
                       None \<Rightarrow> s' | Some f \<Rightarrow> upsert_cooldown now a step f s')
       (recent_failed_steps dia a s) s"

definition create_cooldown_from_error ::
  "time \<Rightarrow> uuid \<Rightarrow> string \<Rightarrow> string \<Rightarrow> uuid option \<Rightarrow> db \<Rightarrow> account_operation_cooldown option \<times> db" where
  "create_cooldown_from_error now a operation error_code source_job_id s =
     (case flood_wait_search error_code of
        None \<Rightarrow> (None, s)
      | Some n \<Rightarrow>
          let secs = min (max n 1) (7 * 24 * 3600);
              (i, s1) = new_id s;
              row = \<lparr>cd_id = i, cd_account_id = a, cd_operation = operation, cd_level = ''blocked'',
                     cd_reason_code = ''recent_flood_wait'', cd_started_at = now,
                     cd_retry_after_at = now + seconds secs, cd_source = ''execution_error'',
                     cd_source_job_id = source_job_id, cd_source_step_id = None,
                     cd_created_at = now, cd_updated_at = now\<rparr>
          in (Some row, s1\<lparr>db_cooldowns := db_cooldowns s1 @ [row]\<rparr>))"

section \<open>Sorting and grouping\<close>

lemma insort_key_same:
  "(\<And>y. y \<in> set ys \<Longrightarrow> k x \<le> k y \<longleftrightarrow> f x \<le> f y) \<Longrightarrow> insort_key k x ys = insort_key f x ys"
  by (induction ys) auto

text \<open>A constant first component does not matter to the order.\<close>

lemma sort_key_prefix:
  fixes g :: "'a \<Rightarrow> 'b::linorder" and f :: "'a \<Rightarrow> 'c::linorder"
  shows "(\<And>x. x \<in> set xs \<Longrightarrow> g x = c) \<Longrightarrow> sort_key (\<lambda>x. (g x, f x)) xs = sort_key f xs"
proof (induction xs)
  case (Cons x xs)
  then have "sort_key (\<lambda>x. (g x, f x)) xs = sort_key f xs" by simp
  moreover have "insort_key (\<lambda>x. (g x, f x)) x (sort_key f xs) = insort_key f x (sort_key f xs)"
    by (rule insort_key_same) (use Cons.prems in \<open>auto simp: less_eq_prod_simp\<close>)
  ultimately show ?case by simp
qed simp

text \<open>Rows collected in a dictionary by key: each key's entry sees its own rows only, in order.\<close>

lemma dict_get_collected:
  assumes "\<And>row r k. dict_get (f row r) k = (if k = key row then Some (upd row (dict_get r k)) else dict_get r k)"
  shows "dict_get (fold f rows r) k =
    fold (\<lambda>row x. Some (upd row x)) (filter (\<lambda>row. key row = k) rows) (dict_get r k)"
  by (induction rows arbitrary: r) (simp_all add: assms)

lemma dict_get_nil [simp]: "dict_get [] k = None"
  by (simp add: dict_get_def)

lemma fold_keep: "fold (\<lambda>row x. Some (case x of None \<Rightarrow> row | Some y \<Rightarrow> y)) rows x =
    (case x of Some y \<Rightarrow> Some y | None \<Rightarrow> (case rows of [] \<Rightarrow> None | r # _ \<Rightarrow> Some r))"
  by (induction rows arbitrary: x) (auto split: option.splits)

lemma fold_append_limit:
  "fold (\<lambda>row x. Some (let ys = (case x of None \<Rightarrow> [] | Some zs \<Rightarrow> zs) in if length ys < n then ys @ [h row] else ys))
     rows x = (if rows = [] then x else
       Some (let ys = (case x of None \<Rightarrow> [] | Some zs \<Rightarrow> zs) in ys @ take (n - length ys) (map h rows)))"
proof (induction rows arbitrary: x)
  case (Cons row rows)
  let ?ys = "case x of None \<Rightarrow> [] | Some zs \<Rightarrow> zs"
  show ?case
  proof (cases "length ?ys < n")
    case True
    then have "n - length ?ys = Suc (n - Suc (length ?ys))" by simp
    then show ?thesis using True Cons by (simp add: Let_def)
  next
    case False
    then show ?thesis using Cons by (simp add: Let_def)
  qed
qed simp

lemma fold_group:
  "fold (\<lambda>row x. Some (g (h row) (case x of None \<Rightarrow> e | Some y \<Rightarrow> y))) rows x =
   (if rows = [] then x else Some (fold g (map h rows) (case x of None \<Rightarrow> e | Some y \<Rightarrow> y)))"
  by (induction rows arbitrary: x) auto

section \<open>Batch and single queries\<close>

lemma batch_active_get:
  assumes "a \<in> set ids"
  shows "dict_get (batch_active_cooldowns_by_operation ids now s) a =
    (if active_cooldown_rows a now s = [] then None else Some (active_cooldowns_by_operation a now s))"
proof -
  have "filter (\<lambda>c. cd_account_id c = a) (order_desc cd_retry_after_at
      (filter (\<lambda>c. cd_account_id c \<in> set ids \<and> now < cd_retry_after_at c) (db_cooldowns s))) =
    active_cooldown_rows a now s"
    using assms unfolding active_cooldown_rows_def filter_order_desc
    by (auto simp: conj_ac intro!: arg_cong [where f = "order_desc _"] filter_cong)
  then show ?thesis
    unfolding batch_active_cooldowns_by_operation_def
    by (subst dict_get_collected [where key = cd_account_id
          and upd = "\<lambda>row x. group_add (cooldown_to_dict row) (case x of None \<Rightarrow> empty_groups | Some g \<Rightarrow> g)"])
      (auto simp: dict_get_set fold_group active_cooldowns_by_operation_def group_cooldowns_def)
qed

lemma batch_failed_get:
  assumes "a \<in> set ids"
  shows "dict_get (batch_recent_failed_steps dia ids s) a =
    (if recent_failed_steps dia a s = [] then None else Some (recent_failed_steps dia a s))"
proof -
  let ?rows = "filter (\<lambda>(b, st). b \<in> set ids \<and> failed_with_code st) (account_steps s)"
  have "filter (\<lambda>x. fst x = a) ?rows = filter (\<lambda>(b, st). b = a \<and> failed_with_code st) (account_steps s)"
    using assms by (auto simp: split_def intro!: filter_cong)
  then have rows: "filter (\<lambda>x. fst x = a) (sort_key (\<lambda>x. (fst x, step_order dia (snd x))) ?rows) =
      sort_key (\<lambda>x. step_order dia (snd x)) (filter (\<lambda>(b, st). b = a \<and> failed_with_code st) (account_steps s))"
    by (simp add: filter_sort) (rule sort_key_prefix, auto)
  show ?thesis
    unfolding batch_recent_failed_steps_def
    by (subst dict_get_collected [where key = fst and upd = "\<lambda>x o'.
          (let ys = (case o' of None \<Rightarrow> [] | Some zs \<Rightarrow> zs) in if length ys < 20 then ys @ [snd x] else ys)"])
      (auto simp: dict_get_set Let_def rows fold_append_limit [unfolded Let_def] recent_failed_steps_def split: prod.splits)
qed

lemma batch_latest_get:
  assumes "a \<in> set ids" and "ty \<in> set (map fst STEP_OPERATION_MAP)"
  shows "dict_get (batch_latest_succeeded_steps dia collation ids s) (a, ty) = latest_succeeded_step dia a ty s"
proof -
  let ?key = "\<lambda>x. (fst x, st_step_type (snd x))"
  let ?rows = "filter (\<lambda>(b, st). b \<in> set ids \<and> st_step_type st \<in> set (map fst STEP_OPERATION_MAP) \<and>
      st_status st = StepSucceeded) (account_steps s)"
  let ?mine = "filter (\<lambda>(b, st). b = a \<and> st_step_type st = ty \<and> st_status st = StepSucceeded) (account_steps s)"
  have "filter (\<lambda>x. ?key x = (a, ty)) ?rows = ?mine"
    using assms by (auto simp: split_def intro!: filter_cong)
  then have "filter (\<lambda>x. ?key x = (a, ty))
        (sort_key (\<lambda>x. (fst x, collation (st_step_type (snd x)), step_order dia (snd x))) ?rows) =
      sort_key (\<lambda>x. (fst x, collation (st_step_type (snd x)), step_order dia (snd x))) ?mine"
    by (simp only: filter_sort)
  also have "\<dots> = sort_key (\<lambda>x. (collation (st_step_type (snd x)), step_order dia (snd x))) ?mine"
    by (rule sort_key_prefix [where c = a]) auto
  also have "\<dots> = sort_key (\<lambda>x. step_order dia (snd x)) ?mine"
    by (rule sort_key_prefix [where c = "collation ty"]) auto
  finally have rows: "filter (\<lambda>x. ?key x = (a, ty))
        (sort_key (\<lambda>x. (fst x, collation (st_step_type (snd x)), step_order dia (snd x))) ?rows) =
      sort_key (\<lambda>x. step_order dia (snd x)) ?mine" .
  have pick: "fold (\<lambda>x o'. Some (case o' of None \<Rightarrow> snd x | Some y \<Rightarrow> y)) xs o' =
      (case o' of Some y \<Rightarrow> Some y | None \<Rightarrow> (case xs of [] \<Rightarrow> None | x # _ \<Rightarrow> Some (snd x)))"
    for xs :: "(uuid \<times> job_step_result) list" and o'
    by (induction xs arbitrary: o') (auto split: option.splits)
  show ?thesis
    unfolding batch_latest_succeeded_steps_def
    by (subst dict_get_collected [where key = ?key and upd = "\<lambda>x o'. (case o' of None \<Rightarrow> snd x | Some y \<Rightarrow> y)"])
      (auto simp: dict_get_set rows [simplified] pick latest_succeeded_step_def split: option.splits prod.splits)
qed

lemma map_filter_cong: "(\<And>x. x \<in> set xs \<Longrightarrow> f x = g x) \<Longrightarrow> List.map_filter f xs = List.map_filter g xs"
  by (induction xs) (auto simp: List.map_filter_simps split: option.split)

section \<open>Properties\<close>

text \<open>
  The batch queries answer, for every requested account, what the queries for one account
  answer: the same active cooldowns by operation (no entry when there are none), the same recent
  failed steps, the same product-policy and recent-failure cooldowns.
\<close>

theorem batch_queries_agree:
  assumes "a \<in> set account_ids"
  shows "dict_get (batch_active_cooldowns_by_operation account_ids now s) a =
      (if active_cooldown_rows a now s = [] then None else Some (active_cooldowns_by_operation a now s)) \<and>
    recent_failure_cooldowns_from_steps cfg now
        (case dict_get (batch_recent_failed_steps dia account_ids s) a of None \<Rightarrow> [] | Some steps \<Rightarrow> steps) a =
      recent_failure_cooldowns_by_operation cfg dia now a s \<and>
    product_cooldowns_from_steps cfg now (batch_latest_succeeded_steps dia collation account_ids s) a =
      product_cooldowns_by_operation cfg dia now a s"
proof -
  have "product_cooldown cfg now a (\<lambda>ty. dict_get (batch_latest_succeeded_steps dia collation account_ids s) (a, ty)) e =
      product_cooldown cfg now a (\<lambda>ty. latest_succeeded_step dia a ty s) e" if "e \<in> set STEP_OPERATION_MAP" for e
  proof -
    have "fst e \<in> set (map fst STEP_OPERATION_MAP)" using that by simp
    note same = batch_latest_get [OF assms this, of dia collation s]
    show ?thesis unfolding product_cooldown_def split_def Let_def same ..
  qed
  then have "product_cooldowns_from_steps cfg now (batch_latest_succeeded_steps dia collation account_ids s) a =
      product_cooldowns_by_operation cfg dia now a s"
    unfolding product_cooldowns_from_steps_def product_cooldowns_by_operation_def
    by (simp cong: map_filter_cong)
  then show ?thesis
    by (simp add: batch_active_get [OF assms] batch_failed_get [OF assms] recent_failure_cooldowns_from_steps_def
        recent_failure_cooldowns_by_operation_def)
qed

definition failing_db :: db where
  "failing_db = one_account_db\<lparr>
     db_jobs := [\<lparr>job_id = 3, job_workspace_id = 7, job_account_id = 1, job_job_state = JobFailed,
       job_queued_at = None, job_started_at = None, job_finished_at = None\<rparr>],
     db_steps := [\<lparr>st_id = 4, st_job_id = 3, st_step_key = ''k'', st_step_type = ''set_bio'', st_status = StepFailed,
       st_started_at = Some 0, st_finished_at = None, st_error_code = Some ''Flood_wait_7'', st_error_class = None\<rparr>]\<rparr>"

theorem batch_queries_agree_witness:
  "dict_get (batch_active_cooldowns_by_operation [1, 2] 0 failing_db) 2 = None"
  using batch_queries_agree [of 2 "[1, 2]" 0 failing_db]
  by (simp add: active_cooldown_rows_def failing_db_def one_account_db_def empty_db_def order_desc_def)

text \<open>
  Cooldowns recorded from an execution error are bounded: there is one exactly when the error
  text has a flood wait, it blocks the operation from now for at least one second and at most seven
  days, and for the requested time if that lies in between. The same wait read from a failed step is
  not limited.
\<close>

theorem error_cooldown_bounds:
  "case create_cooldown_from_error now a operation error_code job s of
     (None, s') \<Rightarrow> flood_wait_search error_code = None \<and> s' = s
   | (Some row, s') \<Rightarrow>
       \<exists>n. flood_wait_search error_code = Some n \<and> db_cooldowns s' = db_cooldowns s @ [row] \<and>
         cd_account_id row = a \<and> cd_operation row = operation \<and> cd_started_at row = now \<and>
         now + seconds 1 \<le> cd_retry_after_at row \<and> cd_retry_after_at row \<le> now + days 7 \<and>
         (1 \<le> n \<and> n \<le> 604800 \<longrightarrow> cd_retry_after_at row = now + seconds n) \<and>
         (\<forall>step. st_error_code step = Some error_code \<longrightarrow>
            (\<exists>f. cooldown_from_failed_step cfg now step = Some f \<and>
               fc_retry_after_at f = fc_started_at f + seconds n))"
proof (cases "flood_wait_search error_code")
  case None
  then show ?thesis by (simp add: create_cooldown_from_error_def)
next
  case (Some n)
  then have "error_code \<noteq> []" by auto
  then show ?thesis
    using Some by (simp add: create_cooldown_from_error_def new_id_def cooldown_from_failed_step_def str_or_def
        seconds_def days_def Let_def)
qed

theorem error_cooldown_bounds_witness:
  "\<exists>row s'. create_cooldown_from_error 0 1 ''username'' ''FLOOD_WAIT_99999999'' None failing_db = (Some row, s') \<and>
     cd_retry_after_at row \<le> days 7"
proof -
  have f: "flood_wait_search ''FLOOD_WAIT_99999999'' = Some 99999999" by code_simp
  obtain r s' where e: "create_cooldown_from_error 0 1 ''username'' ''FLOOD_WAIT_99999999'' None failing_db = (r, s')"
    by (cases "create_cooldown_from_error 0 1 ''username'' ''FLOOD_WAIT_99999999'' None failing_db")
  note claim = error_cooldown_bounds [where now = 0 and a = 1 and operation = "''username''"
      and error_code = "''FLOOD_WAIT_99999999''" and job = None and s = failing_db, unfolded e prod.case f]
  show ?thesis
  proof (cases r)
    case None
    then show ?thesis using claim by simp
  next
    case (Some row)
    then have "cd_retry_after_at row \<le> days 7" using claim by simp
    then show ?thesis using e Some by blast
  qed
qed

end
