(* ===== verification/ReadinessRisk.thy ===== *)
theory ReadinessRisk
  imports Models
begin

text \<open>
  Account readiness risk: \<open>account_shared/readiness_risk.py\<close> and the account queries of
  \<open>account_shared/accounts.py\<close>. Stored signals of an account add points and reasons; the score
  gives a level and a recommended action. The workspace summary prefetches the two queries for all
  accounts.
\<close>

section \<open>Scoring\<close>

record risk_reason =
  rr_code :: string
  rr_severity :: string
  rr_message :: string

record risk_accumulator =
  ra_score :: int
  ra_reasons :: "risk_reason list"

definition READINESS_LEVELS :: "string list" where
  "READINESS_LEVELS = [''low'', ''medium'', ''high'', ''critical'']"

definition risk_reason_of :: "string \<Rightarrow> string \<Rightarrow> string \<Rightarrow> risk_reason" where
  "risk_reason_of code sev message = \<lparr>rr_code = code, rr_severity = sev, rr_message = message\<rparr>"

text \<open>A code is listed once, its points are added every time.\<close>

definition risk_add :: "int \<Rightarrow> string \<Rightarrow> string \<Rightarrow> string \<Rightarrow> risk_accumulator \<Rightarrow> risk_accumulator" where
  "risk_add points code sev message acc =
     acc\<lparr>ra_reasons := (if code \<in> rr_code ` set (ra_reasons acc) then ra_reasons acc
                        else ra_reasons acc @ [risk_reason_of code sev message]),
         ra_score := ra_score acc + points\<rparr>"

definition score_auth_state :: "account \<Rightarrow> risk_accumulator \<Rightarrow> risk_accumulator" where
  "score_auth_state a acc =
     (if acc_account_state a = ReauthRequired \<or>
         (case acc_runtime_state a of None \<Rightarrow> False | Some r \<Rightarrow> rs_reauth_required r)
      then risk_add 80 ''reauth_required'' ''critical'' ''Account requires reauthorization before profile jobs.'' acc
      else if acc_account_state a \<in> {AwaitingCode, AwaitingPasscode, AuthPending, Registered}
      then risk_add 45 ''auth_incomplete'' ''warning'' ''Account authorization is not complete.'' acc
      else acc)"

definition score_runtime_state :: "account \<Rightarrow> risk_accumulator \<Rightarrow> risk_accumulator" where
  "score_runtime_state a acc =
     (let acc1 = (if case acc_runtime_state a of None \<Rightarrow> True | Some r \<Rightarrow> \<not> rs_session_present r
                  then risk_add 65 ''missing_session'' ''critical'' ''Account has no usable TDLib session snapshot.'' acc
                  else acc);
          runtime_health = (case acc_runtime_state a of None \<Rightarrow> ''unknown'' | Some r \<Rightarrow> rs_runtime_health r)
      in if runtime_health \<notin> {''ready'', ''awaiting_code'', ''awaiting_password''}
         then let sev = (if runtime_health \<in> {''broken'', ''closed''} then ''critical'' else ''warning'') in
           risk_add (if sev = ''critical'' then 45 else 25) ''runtime_unhealthy'' sev ''Account runtime is not ready.'' acc1
         else acc1)"

definition score_account_state :: "account \<Rightarrow> risk_accumulator \<Rightarrow> risk_accumulator" where
  "score_account_state a acc =
     (if acc_account_state a \<in> {RuntimeBroken, AccountDisabled, ManualInterventionNeeded}
      then risk_add 45 ''account_locked'' ''critical'' ''Account state blocks automated work.'' acc
      else if acc_account_state a \<notin> {ExecutionUsable, AuthorizedReady, ReauthRequired}
      then risk_add 25 ''unknown_state'' ''warning'' ''Account state needs operator review.'' acc
      else acc)"

definition score_proxy_state :: "account \<Rightarrow> risk_accumulator \<Rightarrow> risk_accumulator" where
  "score_proxy_state a acc =
     (case acc_proxy a of
        None \<Rightarrow> acc
      | Some p \<Rightarrow>
          let acc1 = (if px_status p \<in> {''failed'', ''error''}
                      then risk_add 25 ''proxy_problem'' ''warning'' ''Proxy health check failed.'' acc else acc)
          in if truthy (px_tdlib_last_error_code p)
             then risk_add 25 ''proxy_problem'' ''warning'' ''TDLib proxy verification failed.'' acc1 else acc1)"

definition score_activity_state :: "account \<Rightarrow> bool \<Rightarrow> int \<Rightarrow> risk_accumulator \<Rightarrow> risk_accumulator" where
  "score_activity_state a has_cooldown failure_count acc =
     (let acc1 = (if has_cooldown
                  then risk_add 35 ''cooldown_active'' ''warning'' ''Account has active operation cooldowns.'' acc else acc);
          acc2 = (if failure_count \<ge> 2
                  then risk_add 25 ''recent_job_failures'' ''warning'' ''Recent jobs failed repeatedly.'' acc1 else acc1)
      in if acc_profile_state a = None \<and> acc_account_state a \<in> {ExecutionUsable, AuthorizedReady}
         then risk_add 10 ''profile_not_synced'' ''info'' ''Profile snapshot has not been synced yet.'' acc2
         else acc2)"

definition readiness_level :: "int \<Rightarrow> string" where
  "readiness_level score =
     (if score \<ge> 80 then ''critical'' else if score \<ge> 60 then ''high''
      else if score \<ge> 25 then ''medium'' else ''low'')"

definition recommended_action :: "string \<Rightarrow> risk_reason list \<Rightarrow> string option" where
  "recommended_action level reasons =
     (let codes = rr_code ` set reasons in
      if ''reauth_required'' \<in> codes \<or> ''auth_incomplete'' \<in> codes
      then Some ''Reauthorize account before running profile jobs.''
      else if ''missing_session'' \<in> codes
      then Some ''Restore or recreate the account session before enabling live work.''
      else if ''runtime_unhealthy'' \<in> codes
      then Some ''Refresh runtime diagnostics and review the account before running jobs.''
      else if ''proxy_problem'' \<in> codes then Some ''Review proxy configuration before live execution.''
      else if ''cooldown_active'' \<in> codes then Some ''Wait for the active cooldown to expire.''
      else if level = ''low'' then None
      else Some ''Review account readiness before running jobs.'')"

record readiness_risk =
  rk_account_id :: uuid
  rk_score :: int
  rk_level :: string
  rk_reasons :: "risk_reason list"
  rk_recommended_action :: "string option"
  rk_computed_at :: time

definition score_readiness_risk :: "account \<Rightarrow> time \<Rightarrow> bool \<Rightarrow> int \<Rightarrow> readiness_risk" where
  "score_readiness_risk a computed has_cooldown failure_count =
     (let acc = score_activity_state a has_cooldown failure_count (score_proxy_state a
                  (score_account_state a (score_runtime_state a (score_auth_state a
                    \<lparr>ra_score = 0, ra_reasons = []\<rparr>))));
          score = min (max (ra_score acc) 0) 100;
          reasons = (if ra_reasons acc = []
                     then [risk_reason_of ''ready'' ''info'' ''Account is ready based on stored app signals.'']
                     else ra_reasons acc);
          level = readiness_level score
      in \<lparr>rk_account_id = acc_id a, rk_score = score, rk_level = level, rk_reasons = reasons,
          rk_recommended_action = recommended_action level reasons, rk_computed_at = computed\<rparr>)"

section \<open>Queries\<close>

definition lookup_account :: "uuid \<Rightarrow> uuid option \<Rightarrow> db \<Rightarrow> account option" where
  "lookup_account a w s =
     (case w of
        None \<Rightarrow> find (\<lambda>r. acc_id r = a) (db_accounts s)
      | Some x \<Rightarrow> find (\<lambda>r. acc_id r = a \<and> acc_workspace_id r = x) (db_accounts s))"

definition list_workspace_accounts :: "uuid \<Rightarrow> db \<Rightarrow> account list" where
  "list_workspace_accounts w s =
     order_desc acc_updated_at
       (filter (\<lambda>a. acc_workspace_id a = w \<and>
          \<not> (acc_auth_source a = ''batch'' \<and>
             acc_account_state a \<in> {Registered, AuthPending, AwaitingCode, AwaitingPasscode})) (db_accounts s))"

definition active_cooldown_owner :: "time \<Rightarrow> uuid \<Rightarrow> db \<Rightarrow> uuid list" where
  "active_cooldown_owner now w s =
     [cd_account_id c. c \<leftarrow> db_cooldowns s, r \<leftarrow> db_accounts s,
        acc_id r = cd_account_id c \<and> acc_workspace_id r = w \<and> now < cd_retry_after_at c]"

definition has_active_cooldowns :: "uuid \<Rightarrow> uuid \<Rightarrow> time \<Rightarrow> db \<Rightarrow> bool" where
  "has_active_cooldowns a w now s \<longleftrightarrow> filter (\<lambda>i. i = a) (active_cooldown_owner now w s) \<noteq> []"

definition failed_job :: "uuid \<Rightarrow> job \<Rightarrow> bool" where
  "failed_job w j \<longleftrightarrow> job_workspace_id j = w \<and> job_job_state j \<in> {JobFailed, JobManualInterventionNeeded}"

definition count_recent_job_failures :: "uuid \<Rightarrow> uuid \<Rightarrow> db \<Rightarrow> int" where
  "count_recent_job_failures a w s =
     int (length (filter (\<lambda>j. job_account_id j = a \<and> failed_job w j) (db_jobs s)))"

definition batch_has_active_cooldowns :: "uuid list \<Rightarrow> uuid \<Rightarrow> time \<Rightarrow> db \<Rightarrow> (uuid, bool) dict" where
  "batch_has_active_cooldowns account_ids w now s =
     map (\<lambda>i. (i, True)) (remdups (filter (\<lambda>i. i \<in> set account_ids) (active_cooldown_owner now w s)))"

text \<open>\<open>GROUP BY account_id\<close>.\<close>

definition batch_count_recent_job_failures :: "uuid list \<Rightarrow> uuid \<Rightarrow> db \<Rightarrow> (uuid, int) dict" where
  "batch_count_recent_job_failures account_ids w s =
     (let rows = filter (\<lambda>j. job_account_id j \<in> set account_ids \<and> failed_job w j) (db_jobs s)
      in map (\<lambda>i. (i, int (length (filter (\<lambda>j. job_account_id j = i) rows)))) (remdups (map job_account_id rows)))"

definition build_account_readiness_risk :: "account \<Rightarrow> time \<Rightarrow> db \<Rightarrow> readiness_risk" where
  "build_account_readiness_risk a computed s =
     score_readiness_risk a computed (has_active_cooldowns (acc_id a) (acc_workspace_id a) computed s)
       (count_recent_job_failures (acc_id a) (acc_workspace_id a) s)"

record risk_summary =
  su_total :: nat
  su_counts :: "(string, nat) dict"
  su_reauth_required :: nat
  su_missing_session :: nat
  su_runtime_unhealthy :: nat
  su_proxy_problem :: nat
  su_items :: "readiness_risk list"
  su_computed_at :: time

definition count_items :: "(readiness_risk \<Rightarrow> bool) \<Rightarrow> readiness_risk list \<Rightarrow> nat" where
  "count_items P items = length (filter P items)"

definition has_code :: "string \<Rightarrow> readiness_risk \<Rightarrow> bool" where
  "has_code code item \<longleftrightarrow> code \<in> rr_code ` set (rk_reasons item)"

definition empty_risk_summary :: "time \<Rightarrow> risk_summary" where
  "empty_risk_summary computed_at =
     \<lparr>su_total = 0, su_counts = map (\<lambda>l. (l, 0)) READINESS_LEVELS, su_reauth_required = 0, su_missing_session = 0,
      su_runtime_unhealthy = 0, su_proxy_problem = 0, su_items = [], su_computed_at = computed_at\<rparr>"

definition build_account_readiness_risk_summary :: "uuid \<Rightarrow> time \<Rightarrow> db \<Rightarrow> risk_summary" where
  "build_account_readiness_risk_summary w computed_at s =
     (let accounts = list_workspace_accounts w s in
      if accounts = [] then empty_risk_summary computed_at
      else
        let account_ids = map acc_id accounts;
            cooldown_flags = batch_has_active_cooldowns account_ids w computed_at s;
            failure_counts = batch_count_recent_job_failures account_ids w s;
            items = map (\<lambda>a. score_readiness_risk a computed_at
                       (case dict_get cooldown_flags (acc_id a) of None \<Rightarrow> False | Some b \<Rightarrow> b)
                       (case dict_get failure_counts (acc_id a) of None \<Rightarrow> 0 | Some n \<Rightarrow> n)) accounts
        in \<lparr>su_total = length items,
            su_counts = map (\<lambda>l. (l, count_items (\<lambda>i. rk_level i = l) items)) READINESS_LEVELS,
            su_reauth_required = count_items (has_code ''reauth_required'') items,
            su_missing_session = count_items (has_code ''missing_session'') items,
            su_runtime_unhealthy = count_items (has_code ''runtime_unhealthy'') items,
            su_proxy_problem = count_items (has_code ''proxy_problem'') items,
            su_items = items, su_computed_at = computed_at\<rparr>)"

section \<open>Lemmas\<close>

lemma dict_get_map:
  "dict_get (map (\<lambda>i. (i, f i)) xs) k = (if k \<in> set xs then Some (f k) else None)"
  by (induction xs) (auto simp: dict_get_def)

lemma batch_cooldown_flag:
  assumes "a \<in> set ids"
  shows "(case dict_get (batch_has_active_cooldowns ids w now s) a of None \<Rightarrow> False | Some b \<Rightarrow> b) =
    has_active_cooldowns a w now s"
  using assms by (simp add: batch_has_active_cooldowns_def dict_get_map has_active_cooldowns_def filter_empty_conv)

lemma batch_failure_count:
  assumes "a \<in> set ids"
  shows "(case dict_get (batch_count_recent_job_failures ids w s) a of None \<Rightarrow> 0 | Some n \<Rightarrow> n) =
    count_recent_job_failures a w s"
proof -
  let ?rows = "filter (\<lambda>j. job_account_id j \<in> set ids \<and> failed_job w j) (db_jobs s)"
  have own: "filter (\<lambda>j. job_account_id j = a) ?rows = filter (\<lambda>j. job_account_id j = a \<and> failed_job w j) (db_jobs s)"
    using assms by (auto intro!: filter_cong)
  have "a \<notin> set (map job_account_id ?rows) \<Longrightarrow> filter (\<lambda>j. job_account_id j = a) ?rows = []"
    by (auto simp: filter_empty_conv)
  then show ?thesis
    unfolding batch_count_recent_job_failures_def Let_def count_recent_job_failures_def dict_get_map own [symmetric]
    by auto
qed

lemma level_counts:
  "list_all (\<lambda>i. rk_level i \<in> set READINESS_LEVELS) items \<Longrightarrow>
   (\<Sum>l\<leftarrow>READINESS_LEVELS. count_items (\<lambda>i. rk_level i = l) items) = length items"
  by (induction items) (auto simp: count_items_def READINESS_LEVELS_def)

lemma level_known: "rk_level (score_readiness_risk a t c n) \<in> set READINESS_LEVELS"
  by (simp add: score_readiness_risk_def Let_def readiness_level_def READINESS_LEVELS_def)

lemma score_add [simp]: "ra_score (risk_add n c v m acc) = ra_score acc + n"
  by (simp add: risk_add_def)

text \<open>The points of each signal.\<close>

definition auth_points :: "account \<Rightarrow> int" where
  "auth_points a =
     (if acc_account_state a = ReauthRequired \<or> (\<exists>r. acc_runtime_state a = Some r \<and> rs_reauth_required r) then 80
      else if acc_account_state a \<in> {AwaitingCode, AwaitingPasscode, AuthPending, Registered} then 45 else 0)"

definition runtime_points :: "account \<Rightarrow> int" where
  "runtime_points a =
     (case acc_runtime_state a of
        None \<Rightarrow> 90
      | Some r \<Rightarrow> (if rs_session_present r then 0 else 65) +
                  (if rs_runtime_health r \<in> {''ready'', ''awaiting_code'', ''awaiting_password''} then 0
                   else if rs_runtime_health r \<in> {''broken'', ''closed''} then 45 else 25))"

definition state_points :: "account \<Rightarrow> int" where
  "state_points a =
     (if acc_account_state a \<in> {RuntimeBroken, AccountDisabled, ManualInterventionNeeded} then 45
      else if acc_account_state a \<in> {ExecutionUsable, AuthorizedReady, ReauthRequired} then 0 else 25)"

definition proxy_points :: "account \<Rightarrow> int" where
  "proxy_points a =
     (case acc_proxy a of None \<Rightarrow> 0
      | Some p \<Rightarrow> (if px_status p \<in> {''failed'', ''error''} then 25 else 0) +
                  (if truthy (px_tdlib_last_error_code p) then 25 else 0))"

definition activity_points :: "account \<Rightarrow> bool \<Rightarrow> int \<Rightarrow> int" where
  "activity_points a c n = (if c then 35 else 0) + (if 2 \<le> n then 25 else 0) +
     (if acc_profile_state a = None \<and> acc_account_state a \<in> {ExecutionUsable, AuthorizedReady} then 10 else 0)"

lemma signal_points:
  "ra_score (score_auth_state a acc) = ra_score acc + auth_points a"
  "ra_score (score_runtime_state a acc) = ra_score acc + runtime_points a"
  "ra_score (score_account_state a acc) = ra_score acc + state_points a"
  "ra_score (score_proxy_state a acc) = ra_score acc + proxy_points a"
  "ra_score (score_activity_state a c n acc) = ra_score acc + activity_points a c n"
  by (auto simp: score_auth_state_def score_runtime_state_def score_account_state_def score_proxy_state_def
      score_activity_state_def auth_points_def runtime_points_def state_points_def proxy_points_def
      activity_points_def Let_def split: option.splits)

lemma point_sizes:
  "auth_points a = 0 \<or> 45 \<le> auth_points a" "runtime_points a = 0 \<or> 25 \<le> runtime_points a"
  "state_points a = 0 \<or> 25 \<le> state_points a" "proxy_points a = 0 \<or> 25 \<le> proxy_points a"
  "0 \<le> activity_points a c n"
  by (auto simp: auth_points_def runtime_points_def state_points_def proxy_points_def activity_points_def
      split: option.split)

definition proxy_fine :: "account \<Rightarrow> bool" where
  "proxy_fine a \<longleftrightarrow> (case acc_proxy a of None \<Rightarrow> True
     | Some p \<Rightarrow> px_status p \<notin> {''failed'', ''error''} \<and> \<not> truthy (px_tdlib_last_error_code p))"

definition runtime_fine :: "account \<Rightarrow> bool" where
  "runtime_fine a \<longleftrightarrow> (case acc_runtime_state a of None \<Rightarrow> False
     | Some r \<Rightarrow> rs_session_present r \<and> \<not> rs_reauth_required r \<and>
                 rs_runtime_health r \<in> {''ready'', ''awaiting_code'', ''awaiting_password''})"

lemma runtime_points_zero: "runtime_points a = 0 \<longleftrightarrow>
    (\<exists>r. acc_runtime_state a = Some r \<and> rs_session_present r \<and>
       rs_runtime_health r \<in> {''ready'', ''awaiting_code'', ''awaiting_password''})"
  by (simp add: runtime_points_def split: option.split)

lemma no_points:
  "auth_points a = 0 \<and> runtime_points a = 0 \<and> state_points a = 0 \<and> proxy_points a = 0 \<and>
      activity_points a c n < 25 \<longleftrightarrow>
   acc_account_state a \<in> {ExecutionUsable, AuthorizedReady} \<and> runtime_fine a \<and> proxy_fine a \<and> \<not> c \<and> n < 2"
proof -
  have "proxy_points a = 0 \<longleftrightarrow> proxy_fine a"
    by (simp add: proxy_points_def proxy_fine_def split: option.split)
  moreover have "activity_points a c n < 25 \<longleftrightarrow> \<not> c \<and> n < 2"
    by (simp add: activity_points_def)
  moreover have "auth_points a = 0 \<and> state_points a = 0 \<longleftrightarrow>
      acc_account_state a \<in> {ExecutionUsable, AuthorizedReady} \<and>
      (\<forall>r. acc_runtime_state a = Some r \<longrightarrow> \<not> rs_reauth_required r)"
    by (cases "acc_account_state a") (simp_all add: auth_points_def state_points_def)
  moreover have "runtime_fine a \<longleftrightarrow> runtime_points a = 0 \<and> (\<forall>r. acc_runtime_state a = Some r \<longrightarrow> \<not> rs_reauth_required r)"
    unfolding runtime_points_zero runtime_fine_def by (auto split: option.split)
  ultimately show ?thesis by blast
qed

section \<open>Properties\<close>

text \<open>
  The workspace summary is the list of the individual assessments: the prefetched cooldown
  flags and failure counts are what the queries for one account answer, the items are those of the
  listed accounts in order, and the level counts are exact and add up to the total.
\<close>

theorem summary_is_individual:
  "(let su = build_account_readiness_risk_summary w now s in
    su_items su = map (\<lambda>a. build_account_readiness_risk a now s) (list_workspace_accounts w s) \<and>
    su_total su = length (su_items su) \<and>
    (\<forall>l\<in>set READINESS_LEVELS. dict_get (su_counts su) l = Some (count_items (\<lambda>i. rk_level i = l) (su_items su))) \<and>
    (\<Sum>(l, n)\<leftarrow>su_counts su. n) = su_total su)"
proof (cases "list_workspace_accounts w s = []")
  case True
  then show ?thesis
    by (simp add: build_account_readiness_risk_summary_def empty_risk_summary_def count_items_def READINESS_LEVELS_def
        dict_get_def)
next
  case False
  let ?as = "list_workspace_accounts w s" and ?items = "su_items (build_account_readiness_risk_summary w now s)"
  have ws: "acc_workspace_id a = w" if "a \<in> set ?as" for a
    using that by (auto simp: list_workspace_accounts_def set_order_desc)
  have items: "?items = map (\<lambda>a. build_account_readiness_risk a now s) ?as"
    using False ws
    by (simp add: build_account_readiness_risk_summary_def Let_def build_account_readiness_risk_def
        batch_cooldown_flag batch_failure_count)
  have counts: "su_counts (build_account_readiness_risk_summary w now s) =
      map (\<lambda>l. (l, count_items (\<lambda>i. rk_level i = l) ?items)) READINESS_LEVELS"
    "su_total (build_account_readiness_risk_summary w now s) = length ?items"
    using False by (simp_all add: build_account_readiness_risk_summary_def Let_def)
  have "list_all (\<lambda>i. rk_level i \<in> set READINESS_LEVELS) ?items"
    by (auto simp: items list_all_iff build_account_readiness_risk_def level_known)
  from level_counts [OF this] show ?thesis
    unfolding Let_def by (simp add: counts dict_get_map items comp_def)
qed

theorem summary_is_individual_witness:
  "map rk_level (su_items (build_account_readiness_risk_summary 7 0 (empty_db\<lparr>db_accounts := [imported_account 2 7 0]\<rparr>))) =
    [''critical'']"
proof -
  let ?s = "empty_db\<lparr>db_accounts := [imported_account 2 7 0]\<rparr>"
  have "list_workspace_accounts 7 ?s = [imported_account 2 7 0]"
    by (simp add: list_workspace_accounts_def imported_account_def order_desc_def)
  then have "su_items (build_account_readiness_risk_summary 7 0 ?s) = [build_account_readiness_risk (imported_account 2 7 0) 0 ?s]"
    using summary_is_individual [of 7 0 ?s] by (simp add: Let_def)
  then show ?thesis
    by (simp add: build_account_readiness_risk_def score_readiness_risk_def Let_def signal_points readiness_level_def)
      (simp add: imported_account_def auth_points_def runtime_points_def state_points_def proxy_points_def activity_points_def)
qed

text \<open>
  The levels mean what they say: the score lies between 0 and 100; the level is low exactly
  when the account is authorized, its session is there and healthy, its proxy has no recorded
  problem, no cooldown is active and fewer than two jobs failed; an account that needs
  reauthorization is always critical.
\<close>

theorem readiness_levels_spec:
  "(let k = score_readiness_risk a now has_cooldown failure_count in
    0 \<le> rk_score k \<and> rk_score k \<le> 100 \<and> rk_level k \<in> set READINESS_LEVELS \<and>
    (rk_level k = ''low'' \<longleftrightarrow>
       acc_account_state a \<in> {ExecutionUsable, AuthorizedReady} \<and> runtime_fine a \<and> proxy_fine a \<and>
       \<not> has_cooldown \<and> failure_count < 2) \<and>
    (acc_account_state a = ReauthRequired \<longrightarrow> rk_level k = ''critical''))"
proof -
  define points where "points = ra_score (score_activity_state a has_cooldown failure_count (score_proxy_state a
    (score_account_state a (score_runtime_state a (score_auth_state a \<lparr>ra_score = 0, ra_reasons = []\<rparr>)))))"
  have k: "rk_score (score_readiness_risk a now has_cooldown failure_count) = min (max points 0) 100"
    "rk_level (score_readiness_risk a now has_cooldown failure_count) = readiness_level (min (max points 0) 100)"
    by (simp_all add: score_readiness_risk_def points_def Let_def)
  have low: "readiness_level x = ''low'' \<longleftrightarrow> x < 25" for x by (simp add: readiness_level_def)
  have sum: "points = auth_points a + runtime_points a + state_points a + proxy_points a +
      activity_points a has_cooldown failure_count"
    unfolding points_def signal_points auth_points_def runtime_points_def state_points_def proxy_points_def
      activity_points_def by simp
  have "points < 25 \<longleftrightarrow> auth_points a = 0 \<and> runtime_points a = 0 \<and> state_points a = 0 \<and> proxy_points a = 0 \<and>
      activity_points a has_cooldown failure_count < 25"
    using point_sizes(1-4) [of a] point_sizes(5) [of a has_cooldown failure_count] unfolding sum by linarith
  then have "points < 25 \<longleftrightarrow> acc_account_state a \<in> {ExecutionUsable, AuthorizedReady} \<and> runtime_fine a \<and> proxy_fine a \<and>
      \<not> has_cooldown \<and> failure_count < 2"
    using no_points by blast
  moreover have "80 \<le> points" if "acc_account_state a = ReauthRequired"
  proof -
    have "auth_points a = 80" using that by (simp add: auth_points_def)
    then show ?thesis
      using point_sizes(2-4) [of a] point_sizes(5) [of a has_cooldown failure_count] unfolding sum by linarith
  qed
  ultimately show ?thesis
    using level_known [of a now has_cooldown failure_count]
    by (auto simp: Let_def k low) (auto simp: readiness_level_def)
qed

theorem readiness_levels_spec_witness:
  "rk_level (score_readiness_risk ((imported_account 2 7 0)\<lparr>acc_account_state := ReauthRequired\<rparr>) 0 False 0) = ''critical''"
  using readiness_levels_spec [of "(imported_account 2 7 0)\<lparr>acc_account_state := ReauthRequired\<rparr>" 0 False 0]
  by (simp add: Let_def)

end
