(* ===== verification/ActionGate.thy ===== *)
theory ActionGate
  imports ReadinessRisk SecretRedaction
begin

text \<open>
  The action gate: \<open>account_safety/action_gate.py\<close>, which turns the readiness risk of an account
  into a decision on a sensitive action, and the audit trail of \<open>services/sensitive_audit.py\<close> it
  writes to. The SHA-256 digest is the parameter \<open>sha\<close>.
\<close>

section \<open>Audit events\<close>

definition hash_optional :: "(string \<Rightarrow> string) \<Rightarrow> string option \<Rightarrow> string option" where
  "hash_optional sha value' = (if truthy value' then map_option sha value' else None)"

record audit_request =
  aq_action :: string
  aq_entity_type :: string
  aq_actor_user_id :: "uuid option"
  aq_actor_type :: string
  aq_entity_id :: "uuid option"
  aq_account_id :: "uuid option"
  aq_request_id :: "string option"
  aq_ip :: "string option"
  aq_user_agent :: "string option"
  aq_reason :: "string option"
  aq_override_reason :: "string option"
  aq_risk_level :: "string option"
  aq_risk_score :: "int option"
  aq_metadata :: "(string, json) dict"

definition record_sensitive_audit_event ::
  "(string \<Rightarrow> string) \<Rightarrow> time \<Rightarrow> uuid \<Rightarrow> audit_request \<Rightarrow> db \<Rightarrow> sensitive_audit_event \<times> db" where
  "record_sensitive_audit_event sha now w q s =
     (let (i, s1) = new_id s;
          event = \<lparr>sa_id = i, sa_workspace_id = w, sa_actor_user_id = aq_actor_user_id q,
                   sa_actor_type = aq_actor_type q, sa_action = aq_action q, sa_entity_type = aq_entity_type q,
                   sa_entity_id = aq_entity_id q, sa_account_id = aq_account_id q, sa_request_id = aq_request_id q,
                   sa_ip_hash = hash_optional sha (aq_ip q), sa_user_agent_hash = hash_optional sha (aq_user_agent q),
                   sa_reason = (if truthy (aq_reason q) then map_option redact_text (aq_reason q) else None),
                   sa_override_reason =
                     (if truthy (aq_override_reason q) then map_option redact_text (aq_override_reason q) else None),
                   sa_risk_level = aq_risk_level q, sa_risk_score = aq_risk_score q,
                   sa_metadata_json = redact_pii (JObj (aq_metadata q)), sa_created_at = now\<rparr>
      in (event, s1\<lparr>db_audit_events := db_audit_events s1 @ [event]\<rparr>))"

definition list_sensitive_audit_events ::
  "uuid \<Rightarrow> uuid option \<Rightarrow> nat \<Rightarrow> nat \<Rightarrow> db \<Rightarrow> sensitive_audit_event list \<times> nat" where
  "list_sensitive_audit_events w a limit offset s =
     (let rows = filter (\<lambda>e. sa_workspace_id e = w \<and> (case a of None \<Rightarrow> True | Some x \<Rightarrow> sa_account_id e = Some x))
                   (db_audit_events s)
      in (take limit (drop offset (order_desc sa_created_at rows)), length rows))"

section \<open>The gate\<close>

definition ACTION_TYPES :: "string list" where
  "ACTION_TYPES =
     [''profile.update'', ''profile.photo_upload'', ''story.create'', ''music.add'', ''account.auth'',
      ''account.import'', ''account.delete'', ''account.export'', ''asset.upload'', ''job.enqueue'']"

definition OVERRIDE_ALLOWED_CRITICAL_ACTIONS :: "string list" where
  "OVERRIDE_ALLOWED_CRITICAL_ACTIONS = [''account.auth'', ''account.delete'', ''account.export'']"

record action_decision =
  ad_account_id :: uuid
  ad_action_type :: string
  ad_allowed :: bool
  ad_requires_override :: bool
  ad_blocked :: bool
  ad_risk_level :: string
  ad_risk_score :: int
  ad_reasons :: "risk_reason list"
  ad_required_override_reason :: bool

definition decision_for :: "account \<Rightarrow> string \<Rightarrow> readiness_risk \<Rightarrow> string option \<Rightarrow> action_decision" where
  "decision_for account action_type risk override_reason =
     (let level = rk_level risk;
          requires_override =
            (level = ''high'' \<or> level = ''critical'' \<and> action_type \<in> set OVERRIDE_ALLOWED_CRITICAL_ACTIONS);
          blocked = (level = ''critical'' \<and> action_type \<notin> set OVERRIDE_ALLOWED_CRITICAL_ACTIONS);
          allowed = (if action_type = ''account.delete'' then \<not> blocked
                     else \<not> blocked \<and> (level \<in> {''low'', ''medium''} \<or> truthy override_reason))
      in \<lparr>ad_account_id = acc_id account, ad_action_type = action_type, ad_allowed = allowed,
          ad_requires_override = requires_override,
          ad_blocked = (blocked \<or> requires_override \<and> \<not> truthy override_reason \<and> action_type \<noteq> ''account.delete''),
          ad_risk_level = level, ad_risk_score = rk_score risk, ad_reasons = rk_reasons risk,
          ad_required_override_reason = (requires_override \<and> action_type \<noteq> ''account.delete'')\<rparr>)"

definition gate_audit :: "uuid \<Rightarrow> uuid option \<Rightarrow> readiness_risk \<Rightarrow> string \<Rightarrow> (string, json) dict \<Rightarrow> string option \<Rightarrow> audit_request" where
  "gate_audit a actor risk action metadata override_reason =
     \<lparr>aq_action = action, aq_entity_type = ''account'', aq_actor_user_id = actor, aq_actor_type = ''user'',
      aq_entity_id = Some a, aq_account_id = Some a, aq_request_id = None, aq_ip = None, aq_user_agent = None,
      aq_reason = None, aq_override_reason = override_reason, aq_risk_level = Some (rk_level risk),
      aq_risk_score = Some (rk_score risk), aq_metadata = metadata\<rparr>"

definition audit_if :: "bool \<Rightarrow> (string \<Rightarrow> string) \<Rightarrow> time \<Rightarrow> uuid \<Rightarrow> audit_request \<Rightarrow> db \<Rightarrow> db" where
  "audit_if b sha now w q s = (if b then snd (record_sensitive_audit_event sha now w q s) else s)"

text \<open>The two events the gate records.\<close>

definition override_event :: "uuid \<Rightarrow> uuid option \<Rightarrow> readiness_risk \<Rightarrow> action_decision \<Rightarrow> string option \<Rightarrow> audit_request" where
  "override_event a actor risk decision override_reason =
     gate_audit a actor risk
       (if ad_action_type decision = ''job.enqueue'' then ''job.enqueue.override_used''
        else ''account.risk.override_requested'')
       [(''action_type'', JStr (ad_action_type decision)), (''allowed'', JBool (ad_allowed decision))]
       override_reason"

definition blocked_event :: "uuid \<Rightarrow> uuid option \<Rightarrow> readiness_risk \<Rightarrow> action_decision \<Rightarrow> audit_request" where
  "blocked_event a actor risk decision =
     gate_audit a actor risk
       (if ad_action_type decision = ''job.enqueue'' then ''job.enqueue.blocked_by_risk''
        else ad_action_type decision @ ''.blocked_by_risk'')
       [(''action_type'', JStr (ad_action_type decision)),
        (''reason_codes'', JList (map (\<lambda>r. JStr (rr_code r)) (rk_reasons risk)))]
       None"

definition evaluate_action_gate ::
  "(string \<Rightarrow> string) \<Rightarrow> time \<Rightarrow> uuid \<Rightarrow> uuid \<Rightarrow> string \<Rightarrow> uuid option \<Rightarrow> string option \<Rightarrow> bool \<Rightarrow> db \<Rightarrow>
   action_decision result \<times> db" where
  "evaluate_action_gate sha now w a action_type actor override_reason audit s =
     (if action_type \<notin> set ACTION_TYPES then (Inl (ValueError ''unsupported action type''), s)
      else case lookup_account a (Some w) s of
        None \<Rightarrow> (Inl (ValueError ''account not found''), s)
      | Some account \<Rightarrow>
          let risk = build_account_readiness_risk account now s;
              decision = decision_for account action_type risk override_reason
          in if truthy override_reason \<and> length (strip (the override_reason)) < 10
             then (Inl (ValueError ''override reason too short''), s)
             else
               let s1 = audit_if (truthy override_reason \<and> audit) sha now w
                          (override_event a actor risk decision override_reason) s;
                   s2 = audit_if (\<not> ad_allowed decision \<and> audit) sha now w
                          (blocked_event a actor risk decision) s1
               in (Inr decision, s2))"

section \<open>Properties\<close>

lemma audit_rows:
  "db_audit_events (snd (record_sensitive_audit_event sha now w q s)) =
   db_audit_events s @ [fst (record_sensitive_audit_event sha now w q s)]"
  by (simp add: record_sensitive_audit_event_def new_id_def Let_def)

lemma audit_if_rows:
  "\<exists>rows. db_audit_events (audit_if b sha now w (gate_audit a actor risk act md ov) s) = db_audit_events s @ rows \<and>
     length rows = (if b then 1 else 0) \<and>
     list_all (\<lambda>e. sa_workspace_id e = w \<and> sa_account_id e = Some a \<and> sa_created_at e = now) rows"
  by (simp add: audit_if_def audit_rows) (simp add: record_sensitive_audit_event_def gate_audit_def new_id_def Let_def)

lemma decision_blocked: "ad_blocked (decision_for acc act risk ov) \<longleftrightarrow> \<not> ad_allowed (decision_for acc act risk ov)"
  if "rk_level risk \<in> set READINESS_LEVELS"
  using that by (auto simp: decision_for_def Let_def READINESS_LEVELS_def OVERRIDE_ALLOWED_CRITICAL_ACTIONS_def)

text \<open>
  The decision of the action gate: a decision never both allows and blocks; low and medium risk
  allow everything, high risk needs an override reason except for deletion, critical risk blocks
  everything but authorization and export, which need one, and deletion. With auditing on, an
  override and a refusal leave one audit row each, without it none; an override reason of fewer than
  ten characters after trimming is an error and leaves no trace.
\<close>

theorem action_gate_spec:
  assumes "action_type \<in> set ACTION_TYPES" and "lookup_account a (Some w) s = Some account"
  shows "(if truthy override_reason \<and> length (strip (the override_reason)) < 10
     then evaluate_action_gate sha now w a action_type actor override_reason audit s =
       (Inl (ValueError ''override reason too short''), s)
     else \<exists>d s' rows. evaluate_action_gate sha now w a action_type actor override_reason audit s = (Inr d, s') \<and>
       (ad_blocked d \<longleftrightarrow> \<not> ad_allowed d) \<and>
       (ad_allowed d \<longleftrightarrow>
          (case rk_level (build_account_readiness_risk account now s) = ''critical'' of
             True \<Rightarrow> action_type = ''account.delete'' \<or>
               action_type \<in> {''account.auth'', ''account.export''} \<and> truthy override_reason
           | False \<Rightarrow> rk_level (build_account_readiness_risk account now s) \<noteq> ''high'' \<or>
               action_type = ''account.delete'' \<or> truthy override_reason)) \<and>
       db_audit_events s' = db_audit_events s @ rows \<and>
       length rows = (if audit then (if truthy override_reason then 1 else 0) + (if ad_allowed d then 0 else 1) else 0) \<and>
       list_all (\<lambda>e. sa_workspace_id e = w \<and> sa_account_id e = Some a \<and> sa_created_at e = now) rows)"
proof -
  let ?risk = "build_account_readiness_risk account now s"
  have lvl: "rk_level ?risk \<in> {''low'', ''medium'', ''high'', ''critical''}"
    using level_known by (simp add: build_account_readiness_risk_def READINESS_LEVELS_def)
  let ?d = "decision_for account action_type ?risk override_reason"
  have allowed: "ad_allowed ?d \<longleftrightarrow>
      (case rk_level ?risk = ''critical'' of
         True \<Rightarrow> action_type = ''account.delete'' \<or> action_type \<in> {''account.auth'', ''account.export''} \<and> truthy override_reason
       | False \<Rightarrow> rk_level ?risk \<noteq> ''high'' \<or> action_type = ''account.delete'' \<or> truthy override_reason)"
    using lvl by (auto simp: decision_for_def Let_def OVERRIDE_ALLOWED_CRITICAL_ACTIONS_def)
  have blocked: "ad_blocked ?d \<longleftrightarrow> \<not> ad_allowed ?d"
    using lvl by (intro decision_blocked) (simp add: READINESS_LEVELS_def)
  show ?thesis
  proof (cases "truthy override_reason \<and> length (strip (the override_reason)) < 10")
    case True
    then show ?thesis using assms by (simp add: evaluate_action_gate_def Let_def)
  next
    case False
    define q1 where "q1 = override_event a actor ?risk ?d override_reason"
    define q2 where "q2 = blocked_event a actor ?risk ?d"
    let ?s1 = "audit_if (truthy override_reason \<and> audit) sha now w q1 s"
    let ?s2 = "audit_if (\<not> ad_allowed ?d \<and> audit) sha now w q2 ?s1"
    have e: "evaluate_action_gate sha now w a action_type actor override_reason audit s = (Inr ?d, ?s2)"
    proof -
      have short: "\<not> (truthy override_reason \<and> length (strip (the override_reason)) < 10)" by (rule False)
      have known: "\<not> action_type \<notin> set ACTION_TYPES" using assms(1) by blast
      show ?thesis
        unfolding evaluate_action_gate_def Let_def q1_def q2_def assms(2) option.case if_not_P [OF known] if_not_P [OF short] ..
    qed
    obtain rows1 where rows1: "db_audit_events ?s1 = db_audit_events s @ rows1"
      "length rows1 = (if truthy override_reason \<and> audit then 1 else 0)"
      "list_all (\<lambda>e. sa_workspace_id e = w \<and> sa_account_id e = Some a \<and> sa_created_at e = now) rows1"
      unfolding q1_def override_event_def using audit_if_rows by blast
    obtain rows2 where rows2: "db_audit_events ?s2 = db_audit_events ?s1 @ rows2"
      "length rows2 = (if \<not> ad_allowed ?d \<and> audit then 1 else 0)"
      "list_all (\<lambda>e. sa_workspace_id e = w \<and> sa_account_id e = Some a \<and> sa_created_at e = now) rows2"
      unfolding q2_def blocked_event_def using audit_if_rows by blast
    have rows: "db_audit_events ?s2 = db_audit_events s @ (rows1 @ rows2) \<and>
      length (rows1 @ rows2) = (if audit then (if truthy override_reason then 1 else 0) + (if ad_allowed ?d then 0 else 1) else 0) \<and>
      list_all (\<lambda>e. sa_workspace_id e = w \<and> sa_account_id e = Some a \<and> sa_created_at e = now) (rows1 @ rows2)"
      using rows1 rows2 by simp
    show ?thesis
      unfolding if_not_P [OF False]
      by (rule exI [of _ ?d], rule exI [of _ ?s2], rule exI [of _ "rows1 @ rows2"],
          rule conjI [OF e conjI [OF blocked conjI [OF allowed rows]]])
  qed
qed

theorem action_gate_spec_witness:
  "\<exists>d s'. evaluate_action_gate (\<lambda>x. x) 0 7 2 ''story.create'' None None True
       (empty_db\<lparr>db_accounts := [imported_account 2 7 0]\<rparr>) = (Inr d, s') \<and> ad_blocked d \<and> length (db_audit_events s') = 1"
proof -
  let ?s = "empty_db\<lparr>db_accounts := [imported_account 2 7 0]\<rparr>"
  have found: "lookup_account 2 (Some 7) ?s = Some (imported_account 2 7 0)"
    by (simp add: lookup_account_def imported_account_def)
  have "rk_level (build_account_readiness_risk (imported_account 2 7 0) 0 ?s) = ''critical''"
    by (simp add: build_account_readiness_risk_def score_readiness_risk_def Let_def signal_points readiness_level_def)
      (simp add: imported_account_def auth_points_def runtime_points_def state_points_def proxy_points_def activity_points_def)
  then show ?thesis
    using action_gate_spec [OF _ found, where action_type = "''story.create''" and override_reason = None and sha = "\<lambda>x. x"
        and now = 0 and actor = None and audit = True]
    by (auto simp: ACTION_TYPES_def empty_db_def)
qed

end
