(* ===== verification/Decimals.thy ===== *)
theory Decimals
  imports Prelude
begin

text \<open>
  Decimal text: \<open>str(n)\<close> of a Python integer, \<open>int(text)\<close> on ASCII text (surrounding blanks, a
  sign, single underscores between digits), and \<open>text.split(c)\<close>, with the round trips the Redis
  keys rest on.
\<close>

definition digit_char :: "nat \<Rightarrow> char" where
  "digit_char n = char_of (n + 48)"

definition digit_of :: "char \<Rightarrow> nat" where
  "digit_of c = char_code c - 48"

definition decimal_digit :: "char \<Rightarrow> bool" where
  "decimal_digit c \<longleftrightarrow> 48 \<le> char_code c \<and> char_code c \<le> 57"

fun nat_text :: "nat \<Rightarrow> string" where
  "nat_text n = (if n < 10 then [digit_char n] else nat_text (n div 10) @ [digit_char (n mod 10)])"

declare nat_text.simps [simp del]

definition int_text :: "int \<Rightarrow> string" where
  "int_text i = (if i < 0 then CHR ''-'' # nat_text (nat (- i)) else nat_text (nat i))"

text \<open>The digits of \<open>int(text)\<close>: \<open>after\<close> says that the character before was a digit.\<close>

fun read_digits :: "nat \<Rightarrow> bool \<Rightarrow> string \<Rightarrow> nat option" where
  "read_digits n after [] = (if after then Some n else None)"
| "read_digits n after (c # cs) =
     (if decimal_digit c then read_digits (10 * n + digit_of c) True cs
      else if c = CHR ''_'' \<and> after then read_digits n False cs
      else None)"

definition int_of_text :: "string \<Rightarrow> int option" where
  "int_of_text s =
     (case strip s of
        [] \<Rightarrow> None
      | c # cs \<Rightarrow>
          if c = CHR ''-'' then map_option (\<lambda>n. - int n) (read_digits 0 False cs)
          else if c = CHR ''+'' then map_option int (read_digits 0 False cs)
          else map_option int (read_digits 0 False (c # cs)))"

fun split_at :: "char \<Rightarrow> string \<Rightarrow> string list" where
  "split_at d [] = [[]]"
| "split_at d (c # cs) =
     (if c = d then [] # split_at d cs
      else case split_at d cs of [] \<Rightarrow> [[c]] | p # ps \<Rightarrow> (c # p) # ps)"

section \<open>Lemmas\<close>

lemma digit_char_code [simp]: "n < 10 \<Longrightarrow> char_code (digit_char n) = n + 48"
  by (simp add: digit_char_def char_code_def)

lemma digit_char_props [simp]:
  "n < 10 \<Longrightarrow> decimal_digit (digit_char n)"
  "n < 10 \<Longrightarrow> digit_of (digit_char n) = n"
  by (simp_all add: decimal_digit_def digit_of_def)

lemma nat_text_digits: "list_all decimal_digit (nat_text n)"
  by (induction n rule: nat_text.induct) (simp add: nat_text.simps)

lemma nat_text_nonempty [simp]: "nat_text n \<noteq> []"
  by (simp add: nat_text.simps [of n])

lemma read_digits_append:
  assumes "list_all decimal_digit xs" and "xs \<noteq> []"
  shows "read_digits n after (xs @ ys) = read_digits (foldl (\<lambda>n c. 10 * n + digit_of c) n xs) True ys"
  using assms
proof (induction xs arbitrary: n after)
  case Nil
  then show ?case by simp
next
  case (Cons c cs)
  show ?case
  proof (cases "cs = []")
    case True
    then show ?thesis using Cons.prems by simp
  next
    case False
    then show ?thesis using Cons.prems Cons.IH [of "10 * n + digit_of c" True] by simp
  qed
qed

lemma nat_text_value: "foldl (\<lambda>n c. 10 * n + digit_of c) 0 (nat_text n) = n"
proof (induction n rule: nat_text.induct)
  case (1 n)
  show ?case
  proof (cases "n < 10")
    case True
    then show ?thesis by (simp add: nat_text.simps [of n])
  next
    case False
    then have "foldl (\<lambda>n c. 10 * n + digit_of c) 0 (nat_text n) = 10 * (n div 10) + n mod 10"
      using "1.IH" by (simp add: nat_text.simps [of n])
    then show ?thesis by simp
  qed
qed

lemma read_nat_text: "read_digits 0 False (nat_text n) = Some n"
  using read_digits_append [OF nat_text_digits nat_text_nonempty, of 0 False n "[]"]
  by (simp add: nat_text_value)

lemma digit_not_space: "decimal_digit c \<Longrightarrow> \<not> py_isspace c"
  by (simp add: decimal_digit_def py_isspace_def Let_def)

lemma lstrip_id: "(case s of [] \<Rightarrow> True | c # cs \<Rightarrow> \<not> py_isspace c) \<Longrightarrow> lstrip s = s"
  by (cases s) (simp_all add: lstrip_def)

lemma strip_id:
  assumes "list_all (\<lambda>c. \<not> py_isspace c) s"
  shows "strip s = s"
proof -
  have "lstrip t = t" if "list_all (\<lambda>c. \<not> py_isspace c) t" for t
    using that by (intro lstrip_id) (cases t, simp_all)
  then show ?thesis using assms by (simp add: strip_def list_all_iff)
qed

lemma int_text_chars: "c \<in> set (int_text i) \<Longrightarrow> decimal_digit c \<or> c = CHR ''-''"
  using nat_text_digits by (auto simp: int_text_def list_all_iff split: if_splits)

lemma int_of_text_of_int [simp]: "int_of_text (int_text i) = Some i"
proof -
  have "list_all (\<lambda>c. \<not> py_isspace c) (int_text i)"
    unfolding list_all_iff
  proof
    fix c assume "c \<in> set (int_text i)"
    then show "\<not> py_isspace c"
      using int_text_chars [of c i] digit_not_space [of c] by (auto simp: py_isspace_def char_code_def)
  qed
  then have strip: "strip (int_text i) = int_text i" by (rule strip_id)
  show ?thesis
  proof (cases "i < 0")
    case True
    then show ?thesis
      unfolding int_of_text_def strip by (simp add: int_text_def read_nat_text)
  next
    case False
    obtain c cs where s: "nat_text (nat i) = c # cs" by (cases "nat_text (nat i)") simp_all
    with nat_text_digits [of "nat i"] have "decimal_digit c" by simp
    then have "c \<noteq> CHR ''-''" "c \<noteq> CHR ''+''" by (auto simp: decimal_digit_def char_code_def)
    with False show ?thesis
      unfolding int_of_text_def strip using read_nat_text [of "nat i"] by (simp add: int_text_def s)
  qed
qed

lemma int_text_inject [simp]: "int_text i = int_text j \<longleftrightarrow> i = j"
  by (metis int_of_text_of_int option.inject)

lemma int_text_no_colon: "CHR '':'' \<notin> set (int_text i)"
  using int_text_chars [of "CHR '':''" i] by (auto simp: decimal_digit_def char_code_def)

lemma split_at_single: "d \<notin> set p \<Longrightarrow> split_at d p = [p]"
  by (induction p) auto

lemma split_at_append: "d \<notin> set p \<Longrightarrow> split_at d (p @ d # s) = p # split_at d s"
  by (induction p) auto

text \<open>The text of an identifier, as it stands in Redis keys, in the scope of a limit and in the owner of a lock.\<close>

definition uuid_text :: "nat \<Rightarrow> string" where
  "uuid_text i = nat_text i"

lemma uuid_text_inj: "uuid_text i = uuid_text j \<longleftrightarrow> i = j"
proof
  assume "uuid_text i = uuid_text j"
  then have "int_text (int i) = int_text (int j)" by (simp add: uuid_text_def int_text_def)
  then show "i = j" by simp
qed simp

end
