(* ===== verification/NeuroRepository.thy ===== *)
theory NeuroRepository
  imports Models Decimals
begin

text \<open>
  The queries of \<open>neuro_commenting/repository_core.py\<close> and \<open>repository_activity.py\<close>, and the event
  log of \<open>AnalyticsService.write_event\<close>. A query by primary key is \<open>find\<close>; a join with the campaign
  filters the campaigns of the workspace.
\<close>

section \<open>Queries\<close>

definition get_campaign :: "uuid \<Rightarrow> uuid \<Rightarrow> db \<Rightarrow> neuro_campaign option" where
  "get_campaign c w s = find (\<lambda>k. nc_id k = c \<and> nc_workspace_id k = w) (db_campaigns s)"

definition require_campaign :: "uuid \<Rightarrow> uuid \<Rightarrow> db \<Rightarrow> neuro_campaign result" where
  "require_campaign c w s =
     (case get_campaign c w s of
        None \<Rightarrow> Inl (ValueError ''campaign not found'')
      | Some k \<Rightarrow> Inr k)"

definition campaign_in_workspace :: "uuid \<Rightarrow> uuid \<Rightarrow> db \<Rightarrow> bool" where
  "campaign_in_workspace c w s = list_ex (\<lambda>k. nc_id k = c \<and> nc_workspace_id k = w) (db_campaigns s)"

definition get_account_for_workspace :: "uuid \<Rightarrow> uuid \<Rightarrow> db \<Rightarrow> account option" where
  "get_account_for_workspace a w s = find (\<lambda>r. acc_id r = a \<and> acc_workspace_id r = w) (db_accounts s)"

definition get_campaign_account :: "uuid \<Rightarrow> uuid \<Rightarrow> db \<Rightarrow> campaign_account option" where
  "get_campaign_account c a s =
     find (\<lambda>r. ca_campaign_id r = c \<and> ca_account_id r = a) (db_campaign_accounts s)"

definition list_campaign_accounts :: "uuid \<Rightarrow> db \<Rightarrow> campaign_account list" where
  "list_campaign_accounts c s =
     sort_key ca_rotation_order (filter (\<lambda>r. ca_campaign_id r = c) (db_campaign_accounts s))"

definition get_target :: "uuid \<Rightarrow> uuid \<Rightarrow> db \<Rightarrow> neuro_target option" where
  "get_target t c s = find (\<lambda>r. nt_id r = t \<and> nt_campaign_id r = c) (db_targets s)"

definition require_target :: "uuid \<Rightarrow> uuid \<Rightarrow> db \<Rightarrow> neuro_target result" where
  "require_target t c s =
     (case get_target t c s of None \<Rightarrow> Inl (ValueError ''target not found'') | Some r \<Rightarrow> Inr r)"

text \<open>\<open>_target\<close> of the target services: the target of a campaign of the workspace.\<close>

definition workspace_target :: "uuid \<Rightarrow> uuid \<Rightarrow> db \<Rightarrow> neuro_target result" where
  "workspace_target t w s =
     (case find (\<lambda>r. nt_id r = t \<and> campaign_in_workspace (nt_campaign_id r) w s) (db_targets s) of
        None \<Rightarrow> Inl (ValueError ''target not found'')
      | Some r \<Rightarrow> Inr r)"

definition get_generated_comment :: "uuid \<Rightarrow> uuid \<Rightarrow> db \<Rightarrow> generated_comment option" where
  "get_generated_comment i w s =
     find (\<lambda>g. gc_id g = i \<and> campaign_in_workspace (gc_campaign_id g) w s) (db_comments s)"

definition require_generated_comment :: "uuid \<Rightarrow> uuid \<Rightarrow> db \<Rightarrow> generated_comment result" where
  "require_generated_comment i w s =
     (case get_generated_comment i w s of
        None \<Rightarrow> Inl (ValueError ''generated comment not found'')
      | Some g \<Rightarrow> Inr g)"

definition get_observed_post :: "uuid \<Rightarrow> uuid \<Rightarrow> db \<Rightarrow> observed_post option" where
  "get_observed_post p c s = find (\<lambda>r. op_id r = p \<and> op_campaign_id r = c) (db_observed_posts s)"

definition get_attempt_for_workspace :: "uuid \<Rightarrow> uuid \<Rightarrow> db \<Rightarrow> comment_attempt option" where
  "get_attempt_for_workspace i w s =
     find (\<lambda>r. at_id r = i \<and> campaign_in_workspace (at_campaign_id r) w s) (db_attempts s)"

definition require_attempt_for_workspace :: "uuid \<Rightarrow> uuid \<Rightarrow> db \<Rightarrow> comment_attempt result" where
  "require_attempt_for_workspace i w s =
     (case get_attempt_for_workspace i w s of
        None \<Rightarrow> Inl (NeuroNotFound ''ATTEMPT_NOT_FOUND'')
      | Some r \<Rightarrow> Inr r)"

definition get_attempt_for_generated_comment :: "uuid \<Rightarrow> db \<Rightarrow> comment_attempt option" where
  "get_attempt_for_generated_comment g s = find (\<lambda>r. at_generated_comment_id r = g) (db_attempts s)"

text \<open>\<open>offset((page - 1) * limit).limit(limit)\<close>; the routers admit pages and limits from 1.\<close>

definition page_of :: "nat \<Rightarrow> nat \<Rightarrow> 'a list \<Rightarrow> 'a list" where
  "page_of page limit xs = take limit (drop ((page - 1) * limit) xs)"

section \<open>Updates\<close>

definition put_campaign :: "neuro_campaign \<Rightarrow> db \<Rightarrow> db" where
  "put_campaign k s = s\<lparr>db_campaigns := update_where (\<lambda>r. nc_id r = nc_id k) (\<lambda>_. k) (db_campaigns s)\<rparr>"

definition put_campaign_account :: "campaign_account \<Rightarrow> db \<Rightarrow> db" where
  "put_campaign_account k s =
     s\<lparr>db_campaign_accounts := update_where (\<lambda>r. ca_id r = ca_id k) (\<lambda>_. k) (db_campaign_accounts s)\<rparr>"

definition put_target :: "neuro_target \<Rightarrow> db \<Rightarrow> db" where
  "put_target k s = s\<lparr>db_targets := update_where (\<lambda>r. nt_id r = nt_id k) (\<lambda>_. k) (db_targets s)\<rparr>"

definition put_comment :: "generated_comment \<Rightarrow> db \<Rightarrow> db" where
  "put_comment k s = s\<lparr>db_comments := update_where (\<lambda>r. gc_id r = gc_id k) (\<lambda>_. k) (db_comments s)\<rparr>"

definition put_attempt :: "comment_attempt \<Rightarrow> db \<Rightarrow> db" where
  "put_attempt k s = s\<lparr>db_attempts := update_where (\<lambda>r. at_id r = at_id k) (\<lambda>_. k) (db_attempts s)\<rparr>"

section \<open>Events\<close>

text \<open>What an event refers to.\<close>

record event_refs =
  er_campaign :: "uuid option"
  er_account :: "uuid option"
  er_target :: "uuid option"
  er_post :: "uuid option"
  er_comment :: "uuid option"
  er_attempt :: "uuid option"

definition no_refs :: event_refs where
  "no_refs = \<lparr>er_campaign = None, er_account = None, er_target = None, er_post = None,
              er_comment = None, er_attempt = None\<rparr>"

definition neuro_event_row ::
  "uuid \<Rightarrow> time \<Rightarrow> uuid \<Rightarrow> event_refs \<Rightarrow> string \<Rightarrow> string \<Rightarrow> string \<Rightarrow> (string, json) dict \<Rightarrow> neuro_comment_event" where
  "neuro_event_row i now w refs level event_type msg data =
     \<lparr>ne_id = i, ne_workspace_id = w, ne_campaign_id = er_campaign refs,
      ne_account_id = er_account refs, ne_target_id = er_target refs,
      ne_observed_post_id = er_post refs, ne_generated_comment_id = er_comment refs,
      ne_attempt_id = er_attempt refs, ne_event_type = event_type, ne_event_level = level,
      ne_message = msg, ne_data_json = data, ne_is_published = False, ne_created_at = now\<rparr>"

definition write_event ::
  "time \<Rightarrow> uuid \<Rightarrow> event_refs \<Rightarrow> string \<Rightarrow> string \<Rightarrow> string \<Rightarrow> (string, json) dict \<Rightarrow> db \<Rightarrow> db" where
  "write_event now w refs level event_type msg data s =
     (let (i, s1) = new_id s
      in s1\<lparr>db_neuro_events := db_neuro_events s1 @ [neuro_event_row i now w refs level event_type msg data]\<rparr>)"

text \<open>A running campaign, for examples.\<close>

definition some_campaign :: "uuid \<Rightarrow> uuid \<Rightarrow> neuro_campaign" where
  "some_campaign c w =
     \<lparr>nc_id = c, nc_workspace_id = w, nc_name = ''c'', nc_description = None, nc_status = CRunning,
      nc_mode = ''all_posts'', nc_work_mode = ''manual'', nc_approval_mode = ''manual_required'',
      nc_send_mode = ''manual_approval'', nc_send_strategy = ''comment'',
      nc_rotation_strategy = ''round_robin'', nc_max_comments_total = None,
      nc_max_comments_per_hour = None, nc_max_comments_per_day = None, nc_delay_min_seconds = 60,
      nc_delay_max_seconds = 300, nc_dry_run = False, nc_auto_send_enabled = False,
      nc_safety_enabled = True, nc_safety_preset = ''balanced'', nc_started_at = None,
      nc_stopped_at = None, nc_created_at = 0, nc_updated_at = 0\<rparr>"

section \<open>Lemmas\<close>

text \<open>Writing an event touches nothing but the event table and the identifier supply.\<close>

lemma write_event_view:
  "write_event now w refs level ty msg data s =
     s\<lparr>db_neuro_events := db_neuro_events s @ [neuro_event_row (db_next_id s) now w refs level ty msg data],
       db_next_id := Suc (db_next_id s)\<rparr>"
  by (simp add: write_event_def new_id_def)

lemma require_campaign_Inr:
  "require_campaign c w s = Inr k \<Longrightarrow> k \<in> set (db_campaigns s) \<and> nc_id k = c \<and> nc_workspace_id k = w"
  by (auto simp: require_campaign_def get_campaign_def split: option.splits dest: find_mem)

lemma require_campaign_Inl:
  "require_campaign c w s = Inl e \<longleftrightarrow> get_campaign c w s = None \<and> e = ValueError ''campaign not found''"
  by (auto simp: require_campaign_def split: option.splits)

end
