(* ===== verification/Campaigns.thy ===== *)
theory Campaigns
  imports NeuroRepository "HOL-Library.List_Lexorder" "HOL-Library.Char_ord"
begin

text \<open>
  Campaigns and their accounts: \<open>neuro_commenting/campaign_service.py\<close> and
  \<open>campaign_account_service.py\<close>. A payload is the list of typed values the request schema lets
  through, one per key; the prompt, language, rotation-count and quiet-hours fields, which are only
  stored, are left out, and so is an explicit null, which the NOT NULL columns reject when it is written.
\<close>

section \<open>Payloads\<close>

datatype campaign_change =
    ChName string
  | ChDescription "string option"
  | ChMode string
  | ChWorkMode string
  | ChApprovalMode string
  | ChSendMode string
  | ChSendStrategy string
  | ChRotationStrategy string
  | ChMaxTotal "int option"
  | ChMaxPerHour "int option"
  | ChMaxPerDay "int option"
  | ChDelayMin int
  | ChDelayMax int
  | ChDryRun bool
  | ChAutoSend bool
  | ChSafetyEnabled bool
  | ChSafetyPreset string
  | ChStatus string

fun change_key :: "campaign_change \<Rightarrow> string" where
  "change_key (ChName x) = ''name''"
| "change_key (ChDescription x) = ''description''"
| "change_key (ChMode x) = ''mode''"
| "change_key (ChWorkMode x) = ''work_mode''"
| "change_key (ChApprovalMode x) = ''approval_mode''"
| "change_key (ChSendMode x) = ''send_mode''"
| "change_key (ChSendStrategy x) = ''send_strategy''"
| "change_key (ChRotationStrategy x) = ''rotation_strategy''"
| "change_key (ChMaxTotal x) = ''max_comments_total''"
| "change_key (ChMaxPerHour x) = ''max_comments_per_hour''"
| "change_key (ChMaxPerDay x) = ''max_comments_per_day''"
| "change_key (ChDelayMin x) = ''delay_min_seconds''"
| "change_key (ChDelayMax x) = ''delay_max_seconds''"
| "change_key (ChDryRun x) = ''dry_run''"
| "change_key (ChAutoSend x) = ''auto_send_enabled''"
| "change_key (ChSafetyEnabled x) = ''safety_enabled''"
| "change_key (ChSafetyPreset x) = ''safety_preset''"
| "change_key (ChStatus x) = ''status''"

text \<open>
  \<open>payload.get(key)\<close>, a key being a partial function on the typed values; of two values for a key
  the later one counts.
\<close>

definition pick :: "(campaign_change \<Rightarrow> 'a option) \<Rightarrow> campaign_change list \<Rightarrow> 'a option" where
  "pick f payload = (case rev (List.map_filter f payload) of [] \<Rightarrow> None | x # _ \<Rightarrow> Some x)"

definition pick_or :: "(campaign_change \<Rightarrow> 'a option) \<Rightarrow> campaign_change list \<Rightarrow> 'a \<Rightarrow> 'a" where
  "pick_or f payload d = (case pick f payload of None \<Rightarrow> d | Some x \<Rightarrow> x)"

fun the_name where "the_name (ChName x) = Some x" | "the_name _ = None"
fun the_description where "the_description (ChDescription x) = Some x" | "the_description _ = None"
fun the_mode where "the_mode (ChMode x) = Some x" | "the_mode _ = None"
fun the_work_mode where "the_work_mode (ChWorkMode x) = Some x" | "the_work_mode _ = None"
fun the_approval_mode where "the_approval_mode (ChApprovalMode x) = Some x" | "the_approval_mode _ = None"
fun the_send_mode where "the_send_mode (ChSendMode x) = Some x" | "the_send_mode _ = None"
fun the_send_strategy where "the_send_strategy (ChSendStrategy x) = Some x" | "the_send_strategy _ = None"
fun the_rotation where "the_rotation (ChRotationStrategy x) = Some x" | "the_rotation _ = None"
fun the_max_total where "the_max_total (ChMaxTotal x) = Some x" | "the_max_total _ = None"
fun the_max_per_hour where "the_max_per_hour (ChMaxPerHour x) = Some x" | "the_max_per_hour _ = None"
fun the_max_per_day where "the_max_per_day (ChMaxPerDay x) = Some x" | "the_max_per_day _ = None"
fun the_delay_min where "the_delay_min (ChDelayMin x) = Some x" | "the_delay_min _ = None"
fun the_delay_max where "the_delay_max (ChDelayMax x) = Some x" | "the_delay_max _ = None"
fun the_dry_run where "the_dry_run (ChDryRun x) = Some x" | "the_dry_run _ = None"
fun the_auto_send where "the_auto_send (ChAutoSend x) = Some x" | "the_auto_send _ = None"
fun the_safety_enabled where "the_safety_enabled (ChSafetyEnabled x) = Some x" | "the_safety_enabled _ = None"
fun the_safety_preset where "the_safety_preset (ChSafetyPreset x) = Some x" | "the_safety_preset _ = None"
fun the_status where "the_status (ChStatus x) = Some x" | "the_status _ = None"

definition CAMPAIGN_MODES :: "string list" where
  "CAMPAIGN_MODES = [''all_posts'', ''keyword_match'', ''random_posts'', ''semantic_match'']"

definition WORK_MODES :: "string list" where
  "WORK_MODES = [''by_comment_count'', ''by_time_window'', ''manual'', ''scheduled'']"

definition APPROVAL_MODES :: "string list" where
  "APPROVAL_MODES = [''manual_required'', ''trusted_auto'', ''auto'']"

definition SEND_MODES :: "string list" where
  "SEND_MODES = [''dry_run'', ''manual_approval'', ''semi_auto'', ''auto'']"

definition SEND_STRATEGIES :: "string list" where
  "SEND_STRATEGIES = [''comment'', ''comment_as_channel'', ''emoji_then_edit'']"

definition ROTATION_STRATEGIES :: "string list" where
  "ROTATION_STRATEGIES = [''round_robin'', ''weighted'', ''least_used'', ''random'']"

definition VALID_SAFETY_PRESETS :: "string list" where
  "VALID_SAFETY_PRESETS = [''conservative'', ''balanced'', ''aggressive'']"

definition validate_enum :: "string option \<Rightarrow> string \<Rightarrow> string list \<Rightarrow> unit result" where
  "validate_enum v field allowed =
     (case v of
        None \<Rightarrow> Inr ()
      | Some x \<Rightarrow> if x \<in> set allowed then Inr () else Inl (ValueError (''invalid '' @ field)))"

definition validate_payload :: "bool \<Rightarrow> campaign_change list \<Rightarrow> unit result" where
  "validate_payload partial payload =
     (if \<not> partial \<and> \<not> truthy (pick the_name payload) then Inl (ValueError ''name is required'')
      else result_bind (validate_enum (pick the_mode payload) ''mode'' CAMPAIGN_MODES)
       (\<lambda>_. result_bind (validate_enum (pick the_work_mode payload) ''work_mode'' WORK_MODES)
       (\<lambda>_. result_bind (validate_enum (pick the_approval_mode payload) ''approval_mode'' APPROVAL_MODES)
       (\<lambda>_. result_bind (validate_enum (pick the_send_mode payload) ''send_mode'' SEND_MODES)
       (\<lambda>_. result_bind (validate_enum (pick the_send_strategy payload) ''send_strategy'' SEND_STRATEGIES)
       (\<lambda>_. result_bind (validate_enum (pick the_rotation payload) ''rotation_strategy'' ROTATION_STRATEGIES)
       (\<lambda>_.
          if pick the_send_mode payload = Some ''auto''
          then Inl (ValueError ''auto send mode is disabled in foundation skeleton'')
          else if pick the_send_strategy payload \<noteq> Some ''comment'' \<and> pick the_send_strategy payload \<noteq> None
          then Inl (ValueError ''advanced send strategies are not enabled in foundation skeleton'')
          else if (case (pick the_delay_max payload, pick the_delay_min payload) of
                     (Some hi, Some lo) \<Rightarrow> hi < lo | _ \<Rightarrow> False)
          then Inl (ValueError ''delay_max_seconds must be >= delay_min_seconds'')
          else if (case pick the_safety_preset payload of
                     Some p \<Rightarrow> p \<notin> set VALID_SAFETY_PRESETS | None \<Rightarrow> False)
          then Inl (ValueError ''invalid safety_preset'')
          else Inr ())))))))"

section \<open>Campaigns\<close>

text \<open>The mapper stamps \<open>updated_at\<close> at every change of a row.\<close>

definition campaign_refs :: "uuid \<Rightarrow> event_refs" where
  "campaign_refs c = no_refs\<lparr>er_campaign := Some c\<rparr>"

definition actor_json :: "uuid option \<Rightarrow> json" where
  "actor_json a = (case a of None \<Rightarrow> JNull | Some i \<Rightarrow> JInt (int i))"

definition create_campaign ::
  "time \<Rightarrow> uuid \<Rightarrow> uuid option \<Rightarrow> campaign_change list \<Rightarrow> db \<Rightarrow> neuro_campaign result \<times> db" where
  "create_campaign now w actor payload s =
     (case validate_payload False payload of
        Inl e \<Rightarrow> (Inl e, s)
      | Inr _ \<Rightarrow>
          let dry_run = (if pick the_send_mode payload = Some ''dry_run'' then True
                         else pick_or the_dry_run payload True);
              (i, s1) = new_id s;
              row = \<lparr>nc_id = i, nc_workspace_id = w, nc_name = pick_or the_name payload [],
                nc_description = pick_or the_description payload None, nc_status = CDraft,
                nc_mode = pick_or the_mode payload ''all_posts'',
                nc_work_mode = pick_or the_work_mode payload ''manual'',
                nc_approval_mode = pick_or the_approval_mode payload ''manual_required'',
                nc_send_mode = pick_or the_send_mode payload ''dry_run'',
                nc_send_strategy = pick_or the_send_strategy payload ''comment'',
                nc_rotation_strategy = pick_or the_rotation payload ''round_robin'',
                nc_max_comments_total = pick_or the_max_total payload None,
                nc_max_comments_per_hour = pick_or the_max_per_hour payload None,
                nc_max_comments_per_day = pick_or the_max_per_day payload None,
                nc_delay_min_seconds = pick_or the_delay_min payload 60,
                nc_delay_max_seconds = pick_or the_delay_max payload 300,
                nc_dry_run = dry_run, nc_auto_send_enabled = False,
                nc_safety_enabled = pick_or the_safety_enabled payload True,
                nc_safety_preset = str_or (pick the_safety_preset payload) ''balanced'',
                nc_started_at = None, nc_stopped_at = None, nc_created_at = now, nc_updated_at = now\<rparr>;
              s2 = s1\<lparr>db_campaigns := db_campaigns s1 @ [row]\<rparr>
          in (Inr row, write_event now w (campaign_refs i) ''info'' ''campaign_created''
                ''neuro commenting campaign created'' [(''actor_user_id'', actor_json actor)] s2))"

text \<open>\<open>setattr\<close> for the fields of \<open>_MUTABLE_FIELDS\<close>; the status is not one of them.\<close>

fun change_campaign :: "campaign_change \<Rightarrow> neuro_campaign \<Rightarrow> neuro_campaign" where
  "change_campaign (ChName x) k = k\<lparr>nc_name := x\<rparr>"
| "change_campaign (ChDescription x) k = k\<lparr>nc_description := x\<rparr>"
| "change_campaign (ChMode x) k = k\<lparr>nc_mode := x\<rparr>"
| "change_campaign (ChWorkMode x) k = k\<lparr>nc_work_mode := x\<rparr>"
| "change_campaign (ChApprovalMode x) k = k\<lparr>nc_approval_mode := x\<rparr>"
| "change_campaign (ChSendMode x) k = k\<lparr>nc_send_mode := x\<rparr>"
| "change_campaign (ChSendStrategy x) k = k\<lparr>nc_send_strategy := x\<rparr>"
| "change_campaign (ChRotationStrategy x) k = k\<lparr>nc_rotation_strategy := x\<rparr>"
| "change_campaign (ChMaxTotal x) k = k\<lparr>nc_max_comments_total := x\<rparr>"
| "change_campaign (ChMaxPerHour x) k = k\<lparr>nc_max_comments_per_hour := x\<rparr>"
| "change_campaign (ChMaxPerDay x) k = k\<lparr>nc_max_comments_per_day := x\<rparr>"
| "change_campaign (ChDelayMin x) k = k\<lparr>nc_delay_min_seconds := x\<rparr>"
| "change_campaign (ChDelayMax x) k = k\<lparr>nc_delay_max_seconds := x\<rparr>"
| "change_campaign (ChDryRun x) k = k\<lparr>nc_dry_run := x\<rparr>"
| "change_campaign (ChAutoSend x) k = k\<lparr>nc_auto_send_enabled := x\<rparr>"
| "change_campaign (ChSafetyEnabled x) k = k\<lparr>nc_safety_enabled := x\<rparr>"
| "change_campaign (ChSafetyPreset x) k = k\<lparr>nc_safety_preset := x\<rparr>"
| "change_campaign (ChStatus x) k = k"

definition update_campaign ::
  "time \<Rightarrow> uuid \<Rightarrow> uuid \<Rightarrow> uuid option \<Rightarrow> campaign_change list \<Rightarrow> db \<Rightarrow> neuro_campaign result \<times> db" where
  "update_campaign now c w actor payload s =
     (case require_campaign c w s of
        Inl e \<Rightarrow> (Inl e, s)
      | Inr campaign \<Rightarrow>
          (case validate_payload True payload of
             Inl e \<Rightarrow> (Inl e, s)
           | Inr _ \<Rightarrow>
               if pick the_auto_send payload = Some True
               then (Inl (ValueError ''auto-send is disabled in foundation skeleton''), s)
               else if pick the_status payload \<noteq> None
               then (Inl (ValueError ''use lifecycle endpoints to change campaign status''), s)
               else let row = (fold change_campaign payload campaign)\<lparr>nc_auto_send_enabled := False,
                                nc_updated_at := now\<rparr>
                    in (Inr row, write_event now w (campaign_refs c) ''info'' ''campaign_updated''
                          ''neuro commenting campaign updated''
                          [(''actor_user_id'', actor_json actor),
                           (''fields'', JList (map JStr (sort (remdups (map change_key payload)))))]
                          (put_campaign row s))))"

definition AGE_FORCED_CONSERVATIVE_HOURS :: int where
  "AGE_FORCED_CONSERVATIVE_HOURS = 7 * 24"

definition AGE_FORCES_CONSERVATIVE :: string where
  "AGE_FORCES_CONSERVATIVE = ''age_forces_conservative: campaign has accounts younger than 7 days; '' @
     ''switch safety_preset to conservative before starting''"

definition enforce_age_forced_preset :: "time \<Rightarrow> neuro_campaign \<Rightarrow> db \<Rightarrow> unit result" where
  "enforce_age_forced_preset now campaign s =
     (if nc_safety_preset campaign = ''conservative'' then Inr ()
      else if list_ex (\<lambda>m. ca_campaign_id m = nc_id campaign \<and>
               list_ex (\<lambda>a. acc_id a = ca_account_id m \<and>
                  now - hours AGE_FORCED_CONSERVATIVE_HOURS \<le> acc_created_at a) (db_accounts s))
             (db_campaign_accounts s)
      then Inl (ValueError AGE_FORCES_CONSERVATIVE)
      else Inr ())"

definition start_campaign :: "time \<Rightarrow> uuid \<Rightarrow> uuid \<Rightarrow> uuid option \<Rightarrow> db \<Rightarrow> neuro_campaign result \<times> db" where
  "start_campaign now c w actor s =
     (case require_campaign c w s of
        Inl e \<Rightarrow> (Inl e, s)
      | Inr campaign \<Rightarrow>
          if nc_status campaign \<notin> {CDraft, CReady, CPaused, CStopped}
          then (Inl (ValueError ''campaign status cannot be started''), s)
          else (case enforce_age_forced_preset now campaign s of
                  Inl e \<Rightarrow> (Inl e, s)
                | Inr _ \<Rightarrow>
                    let row = campaign\<lparr>nc_status := CRunning, nc_started_at := Some now,
                                nc_stopped_at := None, nc_auto_send_enabled := False, nc_updated_at := now\<rparr>
                    in (Inr row, write_event now w (campaign_refs c) ''info'' ''campaign_started''
                          ''neuro commenting campaign started in safe manual mode''
                          [(''actor_user_id'', actor_json actor), (''safety_preset'', JStr (nc_safety_preset row))]
                          (put_campaign row s))))"

definition pause_campaign :: "time \<Rightarrow> uuid \<Rightarrow> uuid \<Rightarrow> uuid option \<Rightarrow> db \<Rightarrow> neuro_campaign result \<times> db" where
  "pause_campaign now c w actor s =
     (case require_campaign c w s of
        Inl e \<Rightarrow> (Inl e, s)
      | Inr campaign \<Rightarrow>
          if nc_status campaign \<noteq> CRunning
          then (Inl (ValueError ''only running campaign can be paused''), s)
          else let row = campaign\<lparr>nc_status := CPaused, nc_updated_at := now\<rparr>
               in (Inr row, write_event now w (campaign_refs c) ''info'' ''campaign_paused''
                     ''neuro commenting campaign paused'' [(''actor_user_id'', actor_json actor)]
                     (put_campaign row s)))"

definition stop_campaign :: "time \<Rightarrow> uuid \<Rightarrow> uuid \<Rightarrow> uuid option \<Rightarrow> db \<Rightarrow> neuro_campaign result \<times> db" where
  "stop_campaign now c w actor s =
     (case require_campaign c w s of
        Inl e \<Rightarrow> (Inl e, s)
      | Inr campaign \<Rightarrow>
          if nc_status campaign \<in> {CArchived, CCompleted}
          then (Inl (ValueError ''campaign status cannot be stopped''), s)
          else let row = campaign\<lparr>nc_status := CStopped, nc_stopped_at := Some now,
                           nc_auto_send_enabled := False, nc_updated_at := now\<rparr>
               in (Inr row, write_event now w (campaign_refs c) ''info'' ''campaign_stopped''
                     ''neuro commenting campaign stopped'' [(''actor_user_id'', actor_json actor)]
                     (put_campaign row s)))"

section \<open>Campaign accounts\<close>

definition add_account ::
  "time \<Rightarrow> uuid \<Rightarrow> uuid \<Rightarrow> uuid \<Rightarrow> uuid option \<Rightarrow> int \<Rightarrow> int \<Rightarrow> db \<Rightarrow> campaign_account result \<times> db" where
  "add_account now c a w actor weight order s =
     (case require_campaign c w s of
        Inl e \<Rightarrow> (Inl e, s)
      | Inr campaign \<Rightarrow>
          if get_account_for_workspace a w s = None then (Inl (ValueError ''account not found''), s)
          else case get_campaign_account (nc_id campaign) a s of
            Some existing \<Rightarrow> (Inr existing, s)
          | None \<Rightarrow>
              let (i, s1) = new_id s;
                  row = \<lparr>ca_id = i, ca_campaign_id = nc_id campaign, ca_account_id = a,
                    ca_status = CAActive, ca_rotation_weight = weight, ca_rotation_order = order,
                    ca_comments_sent = 0, ca_comments_failed = 0, ca_last_used_at = None,
                    ca_cooldown_until = None, ca_last_error_code = None\<rparr>;
                  s2 = s1\<lparr>db_campaign_accounts := db_campaign_accounts s1 @ [row]\<rparr>
              in (Inr row, write_event now w ((campaign_refs c)\<lparr>er_account := Some a\<rparr>) ''info''
                    ''campaign_account_added'' ''account added to neuro commenting campaign''
                    [(''actor_user_id'', actor_json actor)] s2))"

definition remove_account ::
  "time \<Rightarrow> uuid \<Rightarrow> uuid \<Rightarrow> uuid \<Rightarrow> uuid option \<Rightarrow> db \<Rightarrow> unit result \<times> db" where
  "remove_account now c a w actor s =
     (case require_campaign c w s of
        Inl e \<Rightarrow> (Inl e, s)
      | Inr campaign \<Rightarrow>
          (case get_campaign_account (nc_id campaign) a s of
             None \<Rightarrow> (Inl (ValueError ''campaign account not found''), s)
           | Some row \<Rightarrow>
               let s1 = s\<lparr>db_campaign_accounts :=
                            filter (\<lambda>r. ca_id r \<noteq> ca_id row) (db_campaign_accounts s)\<rparr>
               in (Inr (), write_event now w ((campaign_refs c)\<lparr>er_account := Some a\<rparr>) ''info''
                     ''campaign_account_removed'' ''account removed from neuro commenting campaign''
                     [(''actor_user_id'', actor_json actor)] s1)))"

section \<open>Payloads and rows\<close>

lemma pick_snoc: "pick f (xs @ [x]) = (case f x of Some y \<Rightarrow> Some y | None \<Rightarrow> pick f xs)"
  by (simp add: pick_def map_filter_simps List.map_filter_def split: option.splits)

lemma pick_Nil [simp]: "pick f [] = None"
  by (simp add: pick_def map_filter_simps)

lemma changed_row:
  "nc_id (fold change_campaign ps k) = nc_id k"
  "nc_workspace_id (fold change_campaign ps k) = nc_workspace_id k"
  "nc_status (fold change_campaign ps k) = nc_status k"
  "nc_started_at (fold change_campaign ps k) = nc_started_at k"
  "nc_stopped_at (fold change_campaign ps k) = nc_stopped_at k"
  "nc_send_mode (fold change_campaign ps k) =
     (case pick the_send_mode ps of None \<Rightarrow> nc_send_mode k | Some x \<Rightarrow> x)"
  "nc_send_strategy (fold change_campaign ps k) =
     (case pick the_send_strategy ps of None \<Rightarrow> nc_send_strategy k | Some x \<Rightarrow> x)"
  "nc_safety_preset (fold change_campaign ps k) =
     (case pick the_safety_preset ps of None \<Rightarrow> nc_safety_preset k | Some x \<Rightarrow> x)"
proof (induction ps rule: rev_induct)
  case Nil
  case 1 show ?case by simp case 2 show ?case by simp case 3 show ?case by simp case 4 show ?case by simp
  case 5 show ?case by simp case 6 show ?case by simp case 7 show ?case by simp case 8 show ?case by simp
next
  case (snoc p ps)
  case 1 show ?case using snoc by (cases p) auto
  case 2 show ?case using snoc by (cases p) auto
  case 3 show ?case using snoc by (cases p) auto
  case 4 show ?case using snoc by (cases p) auto
  case 5 show ?case using snoc by (cases p) auto
  case 6 show ?case using snoc by (cases p) (auto simp: pick_snoc)
  case 7 show ?case using snoc by (cases p) (auto simp: pick_snoc)
  case 8 show ?case using snoc by (cases p) (auto simp: pick_snoc)
qed

text \<open>What validation establishes.\<close>

definition sendable :: "string option \<Rightarrow> string option \<Rightarrow> string option \<Rightarrow> bool" where
  "sendable mode strategy preset \<longleftrightarrow>
     (case mode of None \<Rightarrow> True | Some m \<Rightarrow> m \<in> set SEND_MODES \<and> m \<noteq> ''auto'') \<and>
     (case strategy of None \<Rightarrow> True | Some x \<Rightarrow> x = ''comment'') \<and>
     (case preset of None \<Rightarrow> True | Some p \<Rightarrow> p \<in> set VALID_SAFETY_PRESETS)"

lemma validate_enum_Inr: "validate_enum v f vs = Inr u \<longleftrightarrow> (case v of None \<Rightarrow> True | Some x \<Rightarrow> x \<in> set vs)"
  by (simp add: validate_enum_def split: option.splits)

lemma validated:
  assumes "validate_payload partial ps = Inr u"
  shows "sendable (pick the_send_mode ps) (pick the_send_strategy ps) (pick the_safety_preset ps)"
proof -
  have modes: "validate_enum (pick the_send_mode ps) ''send_mode'' SEND_MODES = Inr ()"
    and rest: "pick the_send_mode ps \<noteq> Some ''auto''"
      "pick the_send_strategy ps = Some ''comment'' \<or> pick the_send_strategy ps = None"
      "\<not> (case pick the_safety_preset ps of Some p \<Rightarrow> p \<notin> set VALID_SAFETY_PRESETS | None \<Rightarrow> False)"
    using assms by (auto simp add: validate_payload_def result_bind_Inr_iff simp del: not_None_eq split: if_split_asm)
  from modes rest show ?thesis
    unfolding validate_enum_Inr sendable_def by (auto split: option.splits)
qed

definition campaign_row_ok :: "neuro_campaign \<Rightarrow> bool" where
  "campaign_row_ok k \<longleftrightarrow>
     \<not> nc_auto_send_enabled k \<and>
     sendable (Some (nc_send_mode k)) (Some (nc_send_strategy k)) (Some (nc_safety_preset k)) \<and>
     (case nc_status k of
        CDraft \<Rightarrow> nc_started_at k = None \<and> nc_stopped_at k = None
      | CRunning \<Rightarrow> nc_started_at k \<noteq> None \<and> nc_stopped_at k = None
      | CPaused \<Rightarrow> nc_started_at k \<noteq> None \<and> nc_stopped_at k = None
      | CStopped \<Rightarrow> nc_stopped_at k \<noteq> None
      | _ \<Rightarrow> False)"

section \<open>Histories\<close>

inductive campaign_step :: "db \<Rightarrow> db \<Rightarrow> bool" where
  create: "campaign_step s (snd (create_campaign now w actor payload s))"
| update: "campaign_step s (snd (update_campaign now c w actor payload s))"
| start: "campaign_step s (snd (start_campaign now c w actor s))"
| pause: "campaign_step s (snd (pause_campaign now c w actor s))"
| stop: "campaign_step s (snd (stop_campaign now c w actor s))"
| add: "campaign_step s (snd (add_account now c a w actor weight order s))"
| remove: "campaign_step s (snd (remove_account now c a w actor s))"

inductive_cases campaign_stepE: "campaign_step s s'"

text \<open>The status an event reports, and the statuses the events of a campaign report, in order.\<close>

definition status_after :: "string \<Rightarrow> campaign_status option" where
  "status_after ty =
     (if ty = ''campaign_created'' then Some CDraft
      else if ty = ''campaign_started'' then Some CRunning
      else if ty = ''campaign_paused'' then Some CPaused
      else if ty = ''campaign_stopped'' then Some CStopped
      else None)"

definition status_trail :: "uuid \<Rightarrow> db \<Rightarrow> campaign_status list" where
  "status_trail c s =
     List.map_filter (\<lambda>e. if ne_campaign_id e = Some c then status_after (ne_event_type e) else None)
       (db_neuro_events s)"

fun may_follow :: "campaign_status \<Rightarrow> campaign_status \<Rightarrow> bool" where
  "may_follow a CRunning \<longleftrightarrow> a \<in> {CDraft, CPaused, CStopped}"
| "may_follow a CPaused \<longleftrightarrow> a = CRunning"
| "may_follow a CStopped \<longleftrightarrow> True"
| "may_follow a b \<longleftrightarrow> False"

definition campaigns_ok :: "db \<Rightarrow> bool" where
  "campaigns_ok s \<longleftrightarrow>
     distinct (map nc_id (db_campaigns s)) \<and>
     (\<forall>e\<in>set (db_neuro_events s). \<forall>c. ne_campaign_id e = Some c \<longrightarrow> c < db_next_id s) \<and>
     (\<forall>k\<in>set (db_campaigns s). campaign_row_ok k \<and> nc_id k < db_next_id s \<and>
        (let trail = status_trail (nc_id k) s
         in trail \<noteq> [] \<and> hd trail = CDraft \<and> last trail = nc_status k \<and> successively may_follow trail))"

text \<open>What an operation can do: log an event, add a draft, or rewrite a row.\<close>

definition logged :: "db \<Rightarrow> db \<Rightarrow> neuro_comment_event \<Rightarrow> bool" where
  "logged s s' e \<longleftrightarrow> db_neuro_events s' = db_neuro_events s @ [e] \<and> db_next_id s \<le> db_next_id s' \<and>
     (case ne_campaign_id e of None \<Rightarrow> True | Some c \<Rightarrow> c < db_next_id s')"

definition rewritten :: "db \<Rightarrow> db \<Rightarrow> neuro_campaign \<Rightarrow> neuro_campaign \<Rightarrow> bool" where
  "rewritten s s' k row \<longleftrightarrow>
     k \<in> set (db_campaigns s) \<and> nc_id row = nc_id k \<and> (campaign_row_ok k \<longrightarrow> campaign_row_ok row) \<and>
     db_campaigns s' = update_where (\<lambda>r. nc_id r = nc_id k) (\<lambda>_. row) (db_campaigns s)"

lemma trail_logged:
  "logged s s' e \<Longrightarrow> status_trail c s' =
     status_trail c s @ (if ne_campaign_id e = Some c
                         then (case status_after (ne_event_type e) of None \<Rightarrow> [] | Some x \<Rightarrow> [x]) else [])"
  by (simp add: logged_def status_trail_def List.map_filter_def split: option.split)

lemma keeps_quiet:
  assumes inv: "campaigns_ok s" and log: "logged s s' e" and "db_campaigns s' = db_campaigns s"
    and quiet: "status_after (ne_event_type e) = None"
  shows "campaigns_ok s'"
proof -
  have "status_trail c s' = status_trail c s" for c using trail_logged [OF log] quiet by simp
  with inv log assms(3) show ?thesis
    by (fastforce simp: campaigns_ok_def logged_def split: option.splits)
qed

lemma keeps_rewritten:
  assumes inv: "campaigns_ok s" and log: "logged s s' e" and rew: "rewritten s s' k row"
    and about: "ne_campaign_id e = Some (nc_id k)"
    and status: "(status_after (ne_event_type e) = None \<and> nc_status row = nc_status k) \<or>
      (status_after (ne_event_type e) = Some (nc_status row) \<and> may_follow (nc_status k) (nc_status row))"
  shows "campaigns_ok s'"
proof -
  let ?new = "case status_after (ne_event_type e) of None \<Rightarrow> [] | Some x \<Rightarrow> [x]"
  have trail: "status_trail c s' = status_trail c s @ (if c = nc_id k then ?new else [])" for c
    using trail_logged [OF log] about by simp
  have k: "k \<in> set (db_campaigns s)" and id: "nc_id row = nc_id k" using rew by (simp_all add: rewritten_def)
  have ids: "map nc_id (db_campaigns s') = map nc_id (db_campaigns s)"
    using rew by (auto simp: rewritten_def update_where_def)
  have old: "campaign_row_ok k" "nc_id k < db_next_id s" "status_trail (nc_id k) s \<noteq> []"
    "hd (status_trail (nc_id k) s) = CDraft" "last (status_trail (nc_id k) s) = nc_status k"
    "successively may_follow (status_trail (nc_id k) s)"
    using inv k by (auto simp: campaigns_ok_def Let_def)
  have row: "campaign_row_ok row" using rew old(1) by (simp add: rewritten_def)
  have t: "status_trail (nc_id k) s' \<noteq> []" "hd (status_trail (nc_id k) s') = CDraft"
    "last (status_trail (nc_id k) s') = nc_status row" "successively may_follow (status_trail (nc_id k) s')"
    using old status unfolding trail by (auto simp: successively_append_iff)
  have each: "campaign_row_ok r \<and> nc_id r < db_next_id s' \<and>
      (let t = status_trail (nc_id r) s' in t \<noteq> [] \<and> hd t = CDraft \<and> last t = nc_status r \<and> successively may_follow t)"
    if "r \<in> set (db_campaigns s')" for r
  proof (cases "nc_id r = nc_id k")
    case True
    have "r = row" using rew that True by (auto simp: rewritten_def update_where_def split: if_splits)
    with row t old(2) log id show ?thesis by (auto simp: logged_def Let_def)
  next
    case False
    then have "r \<in> set (db_campaigns s)" using rew that by (auto simp: rewritten_def update_where_def split: if_splits)
    with inv False log trail show ?thesis by (fastforce simp: campaigns_ok_def logged_def Let_def)
  qed
  have "\<forall>e\<in>set (db_neuro_events s'). \<forall>c. ne_campaign_id e = Some c \<longrightarrow> c < db_next_id s'"
    using inv log by (fastforce simp: campaigns_ok_def logged_def)
  with each inv ids show ?thesis by (simp add: campaigns_ok_def)
qed

lemma keeps_created:
  assumes inv: "campaigns_ok s" and log: "logged s s' e" and "db_campaigns s' = db_campaigns s @ [row]"
    and "nc_id row = db_next_id s" and "db_next_id s < db_next_id s'" and "campaign_row_ok row" and "nc_status row = CDraft"
    and "ne_campaign_id e = Some (nc_id row)" and "ne_event_type e = ''campaign_created''"
  shows "campaigns_ok s'"
proof -
  have created: "status_after ''campaign_created'' = Some CDraft" by (simp add: status_after_def)
  have trail: "status_trail c s' = status_trail c s @ (if c = nc_id row then [CDraft] else [])" for c
    using trail_logged [OF log] assms(8,9) created by simp
  have none: "status_trail (nc_id row) s = []"
  proof -
    have "ne_campaign_id x \<noteq> Some (nc_id row)" if "x \<in> set (db_neuro_events s)" for x
      using inv that assms(4) by (fastforce simp: campaigns_ok_def)
    then show ?thesis by (auto simp: status_trail_def List.map_filter_def filter_empty_conv)
  qed
  have fresh: "nc_id r \<noteq> nc_id row" if "r \<in> set (db_campaigns s)" for r
    using inv that assms(4) by (fastforce simp: campaigns_ok_def)
  have each: "campaign_row_ok r \<and> nc_id r < db_next_id s' \<and>
      (let t = status_trail (nc_id r) s' in t \<noteq> [] \<and> hd t = CDraft \<and> last t = nc_status r \<and> successively may_follow t)"
    if "r \<in> set (db_campaigns s')" for r
  proof (cases "r = row")
    case True
    then show ?thesis using assms(4-7) none [unfolded assms(4)] by (simp add: trail Let_def)
  next
    case False
    then have r: "r \<in> set (db_campaigns s)" using assms(3) that by simp
    with fresh have "status_trail (nc_id r) s' = status_trail (nc_id r) s" by (simp add: trail)
    with inv r assms(5) show ?thesis by (fastforce simp: campaigns_ok_def Let_def)
  qed
  have "\<forall>e\<in>set (db_neuro_events s'). \<forall>c. ne_campaign_id e = Some c \<longrightarrow> c < db_next_id s'"
    using inv log by (fastforce simp: campaigns_ok_def logged_def)
  moreover have "nc_id row \<notin> nc_id ` set (db_campaigns s)" using fresh by force
  then have "distinct (map nc_id (db_campaigns s'))"
    using inv assms(3) by (simp add: campaigns_ok_def)
  ultimately show ?thesis using each by (simp add: campaigns_ok_def)
qed


lemma logs_event:
  "c < db_next_id s \<Longrightarrow> er_campaign refs = Some c \<Longrightarrow>
   db_neuro_events s = db_neuro_events s0 \<Longrightarrow> db_next_id s0 \<le> db_next_id s \<Longrightarrow>
   \<exists>e. logged s0 (write_event now w refs level ty msg data s) e \<and> ne_campaign_id e = Some c \<and> ne_event_type e = ty"
  by (simp add: write_event_view logged_def neuro_event_row_def)

lemma write_event_keeps:
  "db_campaigns (write_event now w refs level ty msg data s) = db_campaigns s"
  by (simp add: write_event_view)

text \<open>An operation on a row of the table: it logs one event about it.\<close>

lemma keeps_row_write:
  assumes inv: "campaigns_ok s" and k: "require_campaign c w s = Inr k"
    and row: "nc_id row = nc_id k" "campaign_row_ok k \<Longrightarrow> campaign_row_ok row"
    and status: "(status_after ty = None \<and> nc_status row = nc_status k) \<or>
      (status_after ty = Some (nc_status row) \<and> may_follow (nc_status k) (nc_status row))"
  shows "campaigns_ok (write_event now w' (campaign_refs c) level ty msg data (put_campaign row s))"
proof -
  have mem: "k \<in> set (db_campaigns s)" and id: "nc_id k = c" using require_campaign_Inr [OF k] by simp_all
  let ?s' = "write_event now w' (campaign_refs c) level ty msg data (put_campaign row s)"
  have small: "c < db_next_id s" using inv mem id by (auto simp: campaigns_ok_def)
  have "\<exists>e. logged s ?s' e \<and> ne_campaign_id e = Some c \<and> ne_event_type e = ty"
    by (rule logs_event) (use small in \<open>simp_all add: put_campaign_def campaign_refs_def\<close>)
  then obtain e where e: "logged s ?s' e" "ne_campaign_id e = Some c" "ne_event_type e = ty" by blast
  have "rewritten s ?s' k row"
    using mem row by (simp add: rewritten_def write_event_keeps put_campaign_def)
  from keeps_rewritten [OF inv e(1) this] e(2,3) id status show ?thesis by simp
qed

lemma keeps_account_write:
  assumes inv: "campaigns_ok s" and k: "require_campaign c w s = Inr k"
    and "db_campaigns s1 = db_campaigns s" and "db_neuro_events s1 = db_neuro_events s"
    and "db_next_id s \<le> db_next_id s1" and "status_after ty = None"
  shows "campaigns_ok (write_event now w' ((campaign_refs c)\<lparr>er_account := a\<rparr>) level ty msg data s1)"
proof -
  have mem: "k \<in> set (db_campaigns s)" and id: "nc_id k = c" using require_campaign_Inr [OF k] by simp_all
  have small: "c < db_next_id s1" using inv mem id assms(5) by (auto simp: campaigns_ok_def)
  let ?s' = "write_event now w' ((campaign_refs c)\<lparr>er_account := a\<rparr>) level ty msg data s1"
  have "\<exists>e. logged s ?s' e \<and> ne_campaign_id e = Some c \<and> ne_event_type e = ty"
    by (rule logs_event [OF small]) (use assms(4,5) in \<open>simp_all add: campaign_refs_def\<close>)
  then obtain e where e: "logged s ?s' e" "ne_event_type e = ty" by blast
  show ?thesis by (rule keeps_quiet [OF inv e(1)]) (use assms(3,6) e(2) in \<open>simp_all add: write_event_keeps\<close>)
qed

lemma status_after_simps [simp]:
  "status_after ''campaign_created'' = Some CDraft" "status_after ''campaign_started'' = Some CRunning"
  "status_after ''campaign_paused'' = Some CPaused" "status_after ''campaign_stopped'' = Some CStopped"
  "status_after ''campaign_updated'' = None" "status_after ''campaign_account_added'' = None"
  "status_after ''campaign_account_removed'' = None"
  by (simp_all add: status_after_def)

lemma create_keeps:
  assumes inv: "campaigns_ok s"
  shows "campaigns_ok (snd (create_campaign now w actor payload s))"
proof (cases "validate_payload False payload")
  case (Inl e)
  with inv show ?thesis by (simp add: create_campaign_def)
next
  case (Inr u)
  obtain row where row: "fst (create_campaign now w actor payload s) = Inr row"
    using Inr by (simp add: create_campaign_def new_id_def Let_def)
  let ?s' = "snd (create_campaign now w actor payload s)"
  have fields: "nc_id row = db_next_id s" "nc_status row = CDraft" "\<not> nc_auto_send_enabled row"
    "nc_started_at row = None" "nc_stopped_at row = None"
    "nc_send_mode row = pick_or the_send_mode payload ''dry_run''"
    "nc_send_strategy row = pick_or the_send_strategy payload ''comment''"
    "nc_safety_preset row = str_or (pick the_safety_preset payload) ''balanced''"
    using row Inr by (auto simp: create_campaign_def new_id_def Let_def)
  have "campaign_row_ok row"
    using validated [OF Inr] fields
    by (auto simp: campaign_row_ok_def sendable_def pick_or_def str_or_def SEND_MODES_def VALID_SAFETY_PRESETS_def
        split: option.splits)
  moreover have "db_campaigns ?s' = db_campaigns s @ [row]" and "db_next_id s < db_next_id ?s'"
    using row Inr by (auto simp: create_campaign_def new_id_def Let_def write_event_view)
  moreover obtain e where "logged s ?s' e" "ne_campaign_id e = Some (nc_id row)" "ne_event_type e = ''campaign_created''"
    using row Inr
    by (auto simp: create_campaign_def new_id_def Let_def write_event_view logged_def neuro_event_row_def
        campaign_refs_def no_refs_def)
  ultimately show ?thesis using keeps_created [OF inv] fields(1,2) by blast
qed

lemma update_keeps:
  assumes inv: "campaigns_ok s"
  shows "campaigns_ok (snd (update_campaign now c w actor payload s))"
proof (cases "require_campaign c w s")
  case (Inl e)
  with inv show ?thesis by (simp add: update_campaign_def)
next
  case (Inr k)
  show ?thesis
  proof (cases "\<exists>u. validate_payload True payload = Inr u \<and> pick the_auto_send payload \<noteq> Some True \<and>
      pick the_status payload = None")
    case False
    with inv Inr show ?thesis by (auto simp: update_campaign_def split: sum.split)
  next
    case True
    then obtain u where v: "validate_payload True payload = Inr u" by blast
    let ?row = "(fold change_campaign payload k)\<lparr>nc_auto_send_enabled := False, nc_updated_at := now\<rparr>"
    have ok: "campaign_row_ok ?row" if "campaign_row_ok k"
      using that validated [OF v]
      by (auto simp: campaign_row_ok_def changed_row sendable_def split: option.splits campaign_status.splits)
    have "campaigns_ok (write_event now w (campaign_refs c) ''info'' ''campaign_updated'' msg data (put_campaign ?row s))"
      for msg data
      by (rule keeps_row_write [OF inv Inr]) (use ok in \<open>simp_all add: changed_row\<close>)
    with True Inr show ?thesis by (simp add: update_campaign_def Let_def)
  qed
qed

lemma start_keeps:
  assumes inv: "campaigns_ok s"
  shows "campaigns_ok (snd (start_campaign now c w actor s))"
proof (cases "fst (start_campaign now c w actor s)")
  case (Inl e)
  then have "snd (start_campaign now c w actor s) = s"
    by (auto simp: start_campaign_def Let_def split: sum.splits if_splits)
  with inv show ?thesis by simp
next
  case (Inr r)
  then obtain k where k: "require_campaign c w s = Inr k" and st: "nc_status k \<in> {CDraft, CReady, CPaused, CStopped}"
    and age: "enforce_age_forced_preset now k s = Inr ()"
    by (auto simp: start_campaign_def split: sum.splits if_splits)
  have mem: "k \<in> set (db_campaigns s)" using require_campaign_Inr [OF k] by simp
  let ?row = "k\<lparr>nc_status := CRunning, nc_started_at := Some now, nc_stopped_at := None,
    nc_auto_send_enabled := False, nc_updated_at := now\<rparr>"
  have "campaign_row_ok k" using inv mem by (simp add: campaigns_ok_def)
  with st have follow: "may_follow (nc_status k) CRunning" by (auto simp: campaign_row_ok_def)
  have "campaigns_ok (write_event now w (campaign_refs c) ''info'' ''campaign_started'' msg data (put_campaign ?row s))"
    for msg data
    by (rule keeps_row_write [OF inv k]) (use follow in \<open>simp_all add: campaign_row_ok_def\<close>)
  with k st age show ?thesis by (auto simp add: start_campaign_def Let_def)
qed

lemma pause_keeps:
  assumes inv: "campaigns_ok s"
  shows "campaigns_ok (snd (pause_campaign now c w actor s))"
proof (cases "require_campaign c w s")
  case (Inl e)
  with inv show ?thesis by (simp add: pause_campaign_def)
next
  case (Inr k)
  have "campaigns_ok (write_event now w (campaign_refs c) ''info'' ''campaign_paused'' msg data
      (put_campaign (k\<lparr>nc_status := CPaused, nc_updated_at := now\<rparr>) s))" if "nc_status k = CRunning" for msg data
    by (rule keeps_row_write [OF inv Inr]) (use that in \<open>simp_all add: campaign_row_ok_def\<close>)
  with inv Inr show ?thesis by (simp add: pause_campaign_def Let_def)
qed

lemma stop_keeps:
  assumes inv: "campaigns_ok s"
  shows "campaigns_ok (snd (stop_campaign now c w actor s))"
proof (cases "require_campaign c w s")
  case (Inl e)
  with inv show ?thesis by (simp add: stop_campaign_def)
next
  case (Inr k)
  have "campaigns_ok (write_event now w (campaign_refs c) ''info'' ''campaign_stopped'' msg data
      (put_campaign (k\<lparr>nc_status := CStopped, nc_stopped_at := Some now, nc_auto_send_enabled := False,
         nc_updated_at := now\<rparr>) s))" for msg data
    by (rule keeps_row_write [OF inv Inr]) (simp_all add: campaign_row_ok_def)
  with inv Inr show ?thesis by (simp add: stop_campaign_def Let_def)
qed

lemma add_account_keeps:
  assumes inv: "campaigns_ok s"
  shows "campaigns_ok (snd (add_account now c a w actor weight order s))"
proof (cases "require_campaign c w s")
  case (Inl e)
  with inv show ?thesis by (simp add: add_account_def)
next
  case (Inr k)
  show ?thesis
    using inv by (auto simp: add_account_def Inr new_id_def Let_def split: option.split intro!: keeps_account_write [OF inv Inr])
qed

lemma remove_account_keeps:
  assumes inv: "campaigns_ok s"
  shows "campaigns_ok (snd (remove_account now c a w actor s))"
proof (cases "require_campaign c w s")
  case (Inl e)
  with inv show ?thesis by (simp add: remove_account_def)
next
  case (Inr k)
  show ?thesis
    using inv by (auto simp: remove_account_def Inr Let_def split: option.split intro!: keeps_account_write [OF inv Inr])
qed

lemma campaign_step_keeps: "campaign_step s s' \<Longrightarrow> campaigns_ok s \<Longrightarrow> campaigns_ok s'"
  by (induction rule: campaign_step.induct)
    (simp_all add: create_keeps update_keeps start_keeps pause_keeps stop_keeps add_account_keeps remove_account_keeps)

section \<open>Properties\<close>

text \<open>
  C23. The life of a campaign is the one its events tell. Through every sequence of creations, updates,
  starts, pauses, stops and changes of accounts: the events of a campaign begin with its creation,
  follow one another only as the state machine allows, and end in the status of its row; automatic
  sending is off, the send mode is never \<open>auto\<close>, the strategy is \<open>comment\<close>, the preset is a known one; a
  running or paused campaign has been started and not stopped, a stopped one has a stop time.
\<close>

theorem campaign_trail_replays:
  assumes "db_campaigns s0 = []" and "db_neuro_events s0 = []" and "campaign_step\<^sup>*\<^sup>* s0 s"
    and "k \<in> set (db_campaigns s)"
  shows "campaign_row_ok k \<and> hd (status_trail (nc_id k) s) = CDraft \<and>
    last (status_trail (nc_id k) s) = nc_status k \<and> successively may_follow (status_trail (nc_id k) s)"
proof -
  have "campaigns_ok s0" using assms(1,2) by (simp add: campaigns_ok_def)
  with assms(3) have "campaigns_ok s" by (induction rule: rtranclp_induct) (auto dest: campaign_step_keeps)
  with assms(4) show ?thesis by (auto simp: campaigns_ok_def Let_def)
qed

definition startable :: "time \<Rightarrow> neuro_campaign \<Rightarrow> db \<Rightarrow> bool" where
  "startable now k s \<longleftrightarrow>
     nc_status k \<in> {CDraft, CReady, CPaused, CStopped} \<and>
     (nc_safety_preset k = ''conservative'' \<or>
      \<not> (\<exists>m\<in>set (db_campaign_accounts s). \<exists>a\<in>set (db_accounts s).
           ca_campaign_id m = nc_id k \<and> acc_id a = ca_account_id m \<and> now - days 7 \<le> acc_created_at a))"

text \<open>
  Starting a campaign: it succeeds exactly when the campaign exists in the workspace, is a draft,
  ready, paused or stopped, and is conservative or has no account younger than seven days; then only
  its row changes (status, times, automatic sending) and one event is logged; otherwise nothing changes.
\<close>

theorem start_campaign_spec:
  "(case start_campaign now c w actor s of
      (Inr row, s') \<Rightarrow>
        \<exists>k. get_campaign c w s = Some k \<and> startable now k s \<and>
          row = k\<lparr>nc_status := CRunning, nc_started_at := Some now, nc_stopped_at := None,
                  nc_auto_send_enabled := False, nc_updated_at := now\<rparr> \<and>
          s' = (put_campaign row s)\<lparr>db_neuro_events := db_neuro_events s @
                 [neuro_event_row (db_next_id s) now w (campaign_refs c) ''info'' ''campaign_started''
                    ''neuro commenting campaign started in safe manual mode''
                    [(''actor_user_id'', actor_json actor), (''safety_preset'', JStr (nc_safety_preset k))]],
                 db_next_id := Suc (db_next_id s)\<rparr>
    | (Inl e, s') \<Rightarrow>
        s' = s \<and> \<not> (\<exists>k. get_campaign c w s = Some k \<and> startable now k s))"
proof (cases "get_campaign c w s")
  case None
  then show ?thesis by (simp add: start_campaign_def require_campaign_def)
next
  case (Some k)
  have cutoff: "now - hours AGE_FORCED_CONSERVATIVE_HOURS = now - days 7"
    by (simp add: AGE_FORCED_CONSERVATIVE_HOURS_def hours_def days_def)
  have young: "list_ex (\<lambda>m. ca_campaign_id m = nc_id k \<and> list_ex (\<lambda>a. acc_id a = ca_account_id m \<and>
        now - days 7 \<le> acc_created_at a) (db_accounts s)) (db_campaign_accounts s) \<longleftrightarrow>
      (\<exists>m\<in>set (db_campaign_accounts s). \<exists>a\<in>set (db_accounts s). ca_campaign_id m = nc_id k \<and>
        acc_id a = ca_account_id m \<and> now - days 7 \<le> acc_created_at a)"
    unfolding list_ex_iff by blast
  show ?thesis
  proof (cases "nc_status k \<in> {CDraft, CReady, CPaused, CStopped}")
    case False
    with Some show ?thesis by (simp add: start_campaign_def require_campaign_def startable_def)
  next
    case True
    with Some show ?thesis
      unfolding start_campaign_def require_campaign_def enforce_age_forced_preset_def cutoff
      by (simp add: young startable_def write_event_view Let_def put_campaign_def)
  qed
qed

text \<open>A campaign created, started, paused and stopped.\<close>

definition storied_db :: db where
  "storied_db =
     (let s1 = snd (create_campaign 0 2 None [ChName ''n'', ChSafetyPreset ''conservative''] empty_db);
          s2 = snd (start_campaign 10 1 2 None s1);
          s3 = snd (pause_campaign 20 1 2 None s2)
      in snd (stop_campaign 30 1 2 None s3))"

lemma lifecycle_lengths:
  "length (db_campaigns (snd (start_campaign now c w actor s))) = length (db_campaigns s)"
  "length (db_campaigns (snd (pause_campaign now c w actor s))) = length (db_campaigns s)"
  "length (db_campaigns (snd (stop_campaign now c w actor s))) = length (db_campaigns s)"
  by (auto simp: start_campaign_def pause_campaign_def stop_campaign_def write_event_view put_campaign_def Let_def
      split: sum.split)

lemma storied_valid: "validate_payload False [ChName ''n'', ChSafetyPreset ''conservative''] = Inr ()"
  by (simp add: validate_payload_def pick_def map_filter_simps validate_enum_def VALID_SAFETY_PRESETS_def)

lemma storied_steps: "campaign_step\<^sup>*\<^sup>* empty_db storied_db"
  unfolding storied_db_def Let_def
  by (rule rtranclp.rtrancl_into_rtrancl [where r = campaign_step, OF _ campaign_step.stop],
      rule rtranclp.rtrancl_into_rtrancl [where r = campaign_step, OF _ campaign_step.pause],
      rule rtranclp.rtrancl_into_rtrancl [where r = campaign_step, OF _ campaign_step.start],
      rule rtranclp.rtrancl_into_rtrancl [where r = campaign_step, OF _ campaign_step.create], rule rtranclp.rtrancl_refl)

theorem campaign_trail_replays_witness:
  "case db_campaigns storied_db of
     [k] \<Rightarrow> campaign_row_ok k \<and> last (status_trail (nc_id k) storied_db) = nc_status k
   | _ \<Rightarrow> False"
proof -
  have one: "length (db_campaigns storied_db) = 1"
    unfolding storied_db_def Let_def lifecycle_lengths storied_valid by (simp add: create_campaign_def storied_valid
        new_id_def Let_def write_event_view empty_db_def)
  then obtain k where k: "db_campaigns storied_db = [k]" by (cases "db_campaigns storied_db") auto
  have "campaign_row_ok k \<and> hd (status_trail (nc_id k) storied_db) = CDraft \<and>
    last (status_trail (nc_id k) storied_db) = nc_status k \<and> successively may_follow (status_trail (nc_id k) storied_db)"
    by (rule campaign_trail_replays [OF _ _ storied_steps]) (simp_all add: empty_db_def k)
  with k show ?thesis by simp
qed

end
