(* ===== verification/GateCache.thy ===== *)
theory GateCache
  imports Models
begin

text \<open>
  What the safety gate keeps outside the database: the verdict caches of
  \<open>account_safety/cache.py\<close> and the cold-call counter of \<open>account_safety/gate.py\<close>. The three caches
  share the interface \<open>gate_cache\<close>. The Redis client is not part of the repository: its commands
  are parameters, and what the code relies on is stated by \<open>redis_values_ok\<close> (SET with EX, GET)
  and \<open>redis_counters_ok\<close> (INCR, EXPIRE). A verdict is stored as the value itself, the JSON text it
  travels as being read back unchanged.
\<close>

section \<open>The interface of a cache\<close>

text \<open>
  \<open>live ttl t t'\<close> says that a value written at \<open>t\<close> may still be served at \<open>t'\<close>. A cache may
  forget anything at any time; what it serves was put there under that key and is still live.
\<close>

locale gate_cache =
  fixes look :: "'c \<Rightarrow> time \<Rightarrow> 'k \<Rightarrow> 'v option"
    and put :: "'k \<Rightarrow> 'v \<Rightarrow> int \<Rightarrow> time \<Rightarrow> 'c \<Rightarrow> 'c"
    and new :: 'c
    and live :: "int \<Rightarrow> time \<Rightarrow> time \<Rightarrow> bool"
  assumes look_new: "look new t k = None"
    and look_put: "look (put k v ttl t c) t' k' = Some v' \<Longrightarrow>
      (k' = k \<and> v' = v \<and> live ttl t t') \<or> look c t' k' = Some v'"
begin

text \<open>Everything a cache serves was written, by a write that \<open>W\<close> records.\<close>

definition backed :: "('k \<Rightarrow> 'v \<Rightarrow> int \<Rightarrow> time \<Rightarrow> bool) \<Rightarrow> 'c \<Rightarrow> bool" where
  "backed W c \<longleftrightarrow> (\<forall>t k v. look c t k = Some v \<longrightarrow> (\<exists>ttl t0. W k v ttl t0 \<and> live ttl t0 t))"

lemma backed_new: "backed W new"
  by (simp add: backed_def look_new)

lemma backed_put: "backed W c \<Longrightarrow> W k v ttl t \<Longrightarrow> backed W (put k v ttl t c)"
  by (auto simp: backed_def dest!: look_put)

lemma backed_mono: "backed W c \<Longrightarrow> (\<And>k v ttl t. W k v ttl t \<Longrightarrow> W' k v ttl t) \<Longrightarrow> backed W' c"
  by (auto simp: backed_def) blast

lemma backed_look: "backed W c \<Longrightarrow> look c t k = Some v \<Longrightarrow> \<exists>ttl t0. W k v ttl t0 \<and> live ttl t0 t"
  by (auto simp: backed_def)

end

section \<open>The caches\<close>

definition null_get :: "unit \<Rightarrow> time \<Rightarrow> 'k \<Rightarrow> 'v option" where
  "null_get c now k = None"

definition null_set :: "'k \<Rightarrow> 'v \<Rightarrow> int \<Rightarrow> time \<Rightarrow> unit \<Rightarrow> unit" where
  "null_set k v ttl_seconds now c = ()"

text \<open>The in-memory cache ignores the time to live.\<close>

definition memory_get :: "('k \<Rightarrow> 'v option) \<Rightarrow> time \<Rightarrow> 'k \<Rightarrow> 'v option" where
  "memory_get c now k = c k"

definition memory_set :: "'k \<Rightarrow> 'v \<Rightarrow> int \<Rightarrow> time \<Rightarrow> ('k \<Rightarrow> 'v option) \<Rightarrow> ('k \<Rightarrow> 'v option)" where
  "memory_set k v ttl_seconds now c = c(k \<mapsto> v)"

text \<open>
  An error of a Redis command: a connection problem, or an error reply, of which the code
  distinguishes the one for an unknown \<open>EVAL\<close>.
\<close>

datatype redis_error = RedisError | ResponseError bool

type_synonym ('k, 'v, 'r) redis_get = "'k \<Rightarrow> time \<Rightarrow> 'r \<Rightarrow> redis_error + 'v option"
type_synonym ('k, 'v, 'r) redis_set = "'k \<Rightarrow> 'v \<Rightarrow> int \<Rightarrow> time \<Rightarrow> 'r \<Rightarrow> (redis_error + unit) \<times> 'r"

definition redis_cache_get :: "('k, 'v, 'r) redis_get \<Rightarrow> 'r \<Rightarrow> time \<Rightarrow> 'k \<Rightarrow> 'v option" where
  "redis_cache_get rget c now k = (case rget k now c of Inl _ \<Rightarrow> None | Inr v \<Rightarrow> v)"

definition redis_cache_set ::
  "('k, 'v, 'r) redis_set \<Rightarrow> 'k \<Rightarrow> 'v \<Rightarrow> int \<Rightarrow> time \<Rightarrow> 'r \<Rightarrow> 'r" where
  "redis_cache_set rset k v ttl_seconds now c =
     (case rset k v (max 1 ttl_seconds) now c of (Inl _, c1) \<Rightarrow> c1 | (Inr _, c1) \<Rightarrow> c1)"

text \<open>
  Redis, as the cache uses it: the empty server has no key, and after \<open>SET key value EX ex\<close>,
  whether or not the client saw it succeed, GET answers the new value during the next \<open>ex\<close>
  seconds or what it would have answered before.
\<close>

definition redis_values_ok :: "('k, 'v, 'r) redis_get \<Rightarrow> ('k, 'v, 'r) redis_set \<Rightarrow> 'r \<Rightarrow> bool" where
  "redis_values_ok rget rset c0 \<longleftrightarrow>
     (\<forall>t k v. rget k t c0 \<noteq> Inr (Some v)) \<and>
     (\<forall>k v ex t r t' k' v'. rget k' t' (snd (rset k v ex t r)) = Inr (Some v') \<longrightarrow>
        (k' = k \<and> v' = v \<and> t' < t + seconds ex) \<or> rget k' t' r = Inr (Some v'))"

definition unexpired :: "int \<Rightarrow> time \<Rightarrow> time \<Rightarrow> bool" where
  "unexpired ttl t t' \<longleftrightarrow> t' < t + seconds (max 1 ttl)"

interpretation null_cache: gate_cache null_get null_set "()" "\<lambda>ttl t t'. False"
  by unfold_locales (simp_all add: null_get_def)

interpretation memory_cache: gate_cache memory_get memory_set "\<lambda>_. None" "\<lambda>ttl t t'. True"
  by unfold_locales (auto simp: memory_get_def memory_set_def split: if_splits)

lemma redis_cache_look: "redis_cache_get rget c now k = Some v \<longleftrightarrow> rget k now c = Inr (Some v)"
  by (simp add: redis_cache_get_def split: sum.splits)

lemma redis_cache_put: "redis_cache_set rset k v ttl now c = snd (rset k v (max 1 ttl) now c)"
  by (simp add: redis_cache_set_def split: prod.splits sum.splits)

lemma redis_cache:
  assumes "redis_values_ok rget rset c0"
  shows "gate_cache (redis_cache_get rget) (redis_cache_set rset) c0 unexpired"
proof
  show "redis_cache_get rget c0 t k = None" for t k
    using assms by (auto simp: redis_values_ok_def redis_cache_get_def split: sum.splits)
       (metis option.exhaust)
  show "(k' = k \<and> v' = v \<and> unexpired ttl t t') \<or> redis_cache_get rget c t' k' = Some v'"
    if "redis_cache_get rget (redis_cache_set rset k v ttl t c) t' k' = Some v'" for k v ttl t c t' k' v'
    using assms that
    unfolding redis_cache_look redis_cache_put redis_values_ok_def unexpired_def by blast
qed

section \<open>The cold-call budget\<close>

record ('k, 'r) redis_counters =
  rc_incr :: "'k \<Rightarrow> time \<Rightarrow> 'r \<Rightarrow> (redis_error + int) \<times> 'r"
  rc_expire :: "'k \<Rightarrow> int \<Rightarrow> time \<Rightarrow> 'r \<Rightarrow> (redis_error + unit) \<times> 'r"

definition COLD_CALL_BUDGET_PER_MINUTE :: int where "COLD_CALL_BUDGET_PER_MINUTE = 1"

text \<open>\<open>_enforce_cold_call_budget\<close>: may one cold evaluation still run this minute?\<close>

definition enforce_cold_call_budget ::
  "('k, 'r) redis_counters option \<Rightarrow> 'k \<Rightarrow> time \<Rightarrow> 'r \<Rightarrow> bool \<times> 'r" where
  "enforce_cold_call_budget redis k now r =
     (case redis of
        None \<Rightarrow> (True, r)
      | Some client \<Rightarrow>
          (case rc_incr client k now r of
             (Inl _, r1) \<Rightarrow> (True, r1)
           | (Inr count, r1) \<Rightarrow>
               if count = 1
               then (case rc_expire client k 60 now r1 of
                       (Inl _, r2) \<Rightarrow> (True, r2)
                     | (Inr _, r2) \<Rightarrow> (count \<le> COLD_CALL_BUDGET_PER_MINUTE, r2))
               else (count \<le> COLD_CALL_BUDGET_PER_MINUTE, r1)))"

text \<open>
  Redis, as the counter uses it: \<open>view r k\<close> is the stored number of a key with its expiry. INCR
  counts from 0 when the key is absent or expired and keeps an expiry that has not passed; EXPIRE
  gives an existing key its expiry.
\<close>

type_synonym ('k, 'r) counter_view = "'r \<Rightarrow> 'k \<Rightarrow> (int \<times> time option) option"

fun counter_live :: "time \<Rightarrow> (int \<times> time option) option \<Rightarrow> (int \<times> time option) option" where
  "counter_live now None = None"
| "counter_live now (Some (n, None)) = Some (n, None)"
| "counter_live now (Some (n, Some e)) = (if now < e then Some (n, Some e) else None)"

definition counter_bump :: "(int \<times> time option) option \<Rightarrow> int \<times> time option" where
  "counter_bump c = (case c of None \<Rightarrow> (1, None) | Some (n, e) \<Rightarrow> (n + 1, e))"

definition redis_counters_ok :: "('k, 'r) redis_counters \<Rightarrow> ('k, 'r) counter_view \<Rightarrow> bool" where
  "redis_counters_ok client view \<longleftrightarrow>
     (\<forall>k now r n r'. rc_incr client k now r = (Inr n, r') \<longrightarrow>
        (let b = counter_bump (counter_live now (view r k)) in n = fst b \<and> view r' = (view r)(k \<mapsto> b))) \<and>
     (\<forall>k ttl now r r'. rc_expire client k ttl now r = (Inr (), r') \<longrightarrow>
        view r' = (view r)(k := map_option (\<lambda>(n, e). (n, Some (now + seconds ttl))) (counter_live now (view r k))))"

lemma incr_answer:
  assumes "redis_counters_ok client view" and "rc_incr client k now r = (Inr n, r')"
  shows "n = fst (counter_bump (counter_live now (view r k)))"
    and "view r' = (view r)(k \<mapsto> counter_bump (counter_live now (view r k)))"
  using assms unfolding redis_counters_ok_def Let_def by blast+

lemma expire_answer:
  assumes "redis_counters_ok client view" and "rc_expire client k ttl now r = (Inr (), r')"
  shows "view r' = (view r)(k := map_option (\<lambda>(n, e). (n, Some (now + seconds ttl))) (counter_live now (view r k)))"
  using assms unfolding redis_counters_ok_def by blast

text \<open>The client answers: none of its commands fails.\<close>

definition redis_up :: "('k, 'r) redis_counters \<Rightarrow> bool" where
  "redis_up client \<longleftrightarrow>
     (\<forall>k now r. \<exists>n r'. rc_incr client k now r = (Inr n, r')) \<and>
     (\<forall>k ttl now r. \<exists>r'. rc_expire client k ttl now r = (Inr (), r'))"

text \<open>A sequence of cold calls and what is granted.\<close>

fun cold_calls ::
  "('k, 'r) redis_counters \<Rightarrow> ('k \<times> time) list \<Rightarrow> 'r \<Rightarrow> bool list" where
  "cold_calls client [] r = []"
| "cold_calls client ((k, now) # cs) r =
     (let (ok, r') = enforce_cold_call_budget (Some client) k now r
      in ok # cold_calls client cs r')"

text \<open>The promise: a grant per key opens a window of 60 seconds in which nothing else is granted.\<close>

fun granted_calls :: "('k \<Rightarrow> time option) \<Rightarrow> ('k \<times> time) list \<Rightarrow> bool list" where
  "granted_calls grant [] = []"
| "granted_calls grant ((k, now) # cs) =
     (let ok = (case grant k of None \<Rightarrow> True | Some t \<Rightarrow> t + seconds 60 \<le> now)
      in ok # granted_calls (if ok then grant(k \<mapsto> now) else grant) cs)"

definition counter_matches :: "time option \<Rightarrow> (int \<times> time option) option \<Rightarrow> bool" where
  "counter_matches grant c \<longleftrightarrow>
     (case grant of None \<Rightarrow> c = None | Some t \<Rightarrow> (\<exists>n\<ge>1. c = Some (n, Some (t + seconds 60))))"

lemma enforce_refines:
  assumes "redis_counters_ok client view" and "redis_up client"
    and "\<forall>k. counter_matches (grant k) (view r k)"
  shows "\<exists>r'. enforce_cold_call_budget (Some client) k now r =
      (case grant k of None \<Rightarrow> True | Some t \<Rightarrow> t + seconds 60 \<le> now, r') \<and>
    (\<forall>j. counter_matches
       ((if case grant k of None \<Rightarrow> True | Some t \<Rightarrow> t + seconds 60 \<le> now then grant(k \<mapsto> now) else grant) j)
       (view r' j))"
proof -
  obtain n r1 where i: "rc_incr client k now r = (Inr n, r1)"
    using assms(2) unfolding redis_up_def by blast
  note n = incr_answer(1) [OF assms(1) i] and v1 = incr_answer(2) [OF assms(1) i]
  obtain r2 where e: "rc_expire client k 60 now r1 = (Inr (), r2)"
    using assms(2) unfolding redis_up_def by blast
  note v2 = expire_answer [OF assms(1) e]
  have m: "counter_matches (grant k) (view r k)" using assms(3) by blast
  show ?thesis
  proof (cases "case grant k of None \<Rightarrow> True | Some t \<Rightarrow> t + seconds 60 \<le> now")
    case True
    then have "counter_live now (view r k) = None"
      using m by (auto simp: counter_matches_def split: option.splits)
    then have n1: "n = 1" and v: "view r2 = (view r)(k \<mapsto> (1, Some (now + seconds 60)))"
      using n v1 v2 by (simp_all add: counter_bump_def)
    have "counter_matches ((grant(k \<mapsto> now)) j) (view r2 j)" for j
      using assms(3) by (cases "j = k") (simp_all add: v, simp add: counter_matches_def)
    then show ?thesis
      using True i n1 e by (simp add: enforce_cold_call_budget_def COLD_CALL_BUDGET_PER_MINUTE_def)
  next
    case False
    then obtain t c where t: "grant k = Some t" "now < t + seconds 60" "1 \<le> c" "view r k = Some (c, Some (t + seconds 60))"
      using m by (auto simp: counter_matches_def split: option.splits)
    then have "n = c + 1" "view r1 = (view r)(k \<mapsto> (c + 1, Some (t + seconds 60)))"
      using n v1 by (simp_all add: counter_bump_def)
    then have "counter_matches (grant j) (view r1 j)" for j
      using assms(3) t by (cases "j = k") (simp_all, simp add: counter_matches_def)
    then show ?thesis
      using False t i \<open>n = c + 1\<close> by (simp add: enforce_cold_call_budget_def COLD_CALL_BUDGET_PER_MINUTE_def)
  qed
qed

lemma cold_calls_from:
  assumes "redis_counters_ok client view" and "redis_up client"
    and "\<forall>k. counter_matches (grant k) (view r k)"
  shows "cold_calls client cs r = granted_calls grant cs"
  using assms(3)
proof (induction cs arbitrary: grant r)
  case (Cons c cs)
  obtain k now where c: "c = (k, now)" by (cases c)
  from enforce_refines [OF assms(1,2) Cons.prems, of k now] Cons.IH
  show ?case by (auto simp: c Let_def simp del: fun_upd_apply)
qed simp

section \<open>A server\<close>

text \<open>A concrete server that behaves as assumed: counters in a map; EXPIRE fails while its flag is set.\<close>

type_synonym 'k counter_server = "bool \<times> ('k \<Rightarrow> (int \<times> time option) option)"

definition map_counters :: "('k, 'k counter_server) redis_counters" where
  "map_counters =
     \<lparr>rc_incr = (\<lambda>k now (f, m). let b = counter_bump (counter_live now (m k)) in (Inr (fst b), (f, m(k \<mapsto> b)))),
      rc_expire = (\<lambda>k ttl now (f, m). if f then (Inl RedisError, (False, m))
        else (Inr (), (f, m(k := map_option (\<lambda>(n, e). (n, Some (now + seconds ttl))) (counter_live now (m k))))))\<rparr>"

lemma map_counters_ok: "redis_counters_ok map_counters snd"
  by (auto simp: redis_counters_ok_def map_counters_def Let_def split: if_splits)

definition healthy_counters :: "('k, 'k \<Rightarrow> (int \<times> time option) option) redis_counters" where
  "healthy_counters =
     \<lparr>rc_incr = (\<lambda>k now m. let b = counter_bump (counter_live now (m k)) in (Inr (fst b), m(k \<mapsto> b))),
      rc_expire = (\<lambda>k ttl now m.
        (Inr (), m(k := map_option (\<lambda>(n, e). (n, Some (now + seconds ttl))) (counter_live now (m k)))))\<rparr>"

lemma healthy_counters_ok: "redis_counters_ok healthy_counters (\<lambda>m. m)" "redis_up healthy_counters"
  by (auto simp: redis_counters_ok_def redis_up_def healthy_counters_def Let_def)

text \<open>A server for the values, which keeps the instant each one expires at.\<close>

definition map_value :: "('k, 'v, 'k \<Rightarrow> ('v \<times> time) option) redis_get" where
  "map_value k now m =
     Inr (case m k of None \<Rightarrow> None | Some (v, e) \<Rightarrow> if now < e then Some v else None)"

definition map_store :: "('k, 'v, 'k \<Rightarrow> ('v \<times> time) option) redis_set" where
  "map_store k v ex now m = (Inr (), m(k \<mapsto> (v, now + seconds ex)))"

lemma map_values_ok: "redis_values_ok map_value map_store (\<lambda>_. None)"
  by (auto simp: redis_values_ok_def map_value_def map_store_def split: if_splits option.splits)

section \<open>Properties\<close>

text \<open>
  C20. While Redis answers, the cold-call counter implements its promise exactly: from an empty
  server, a call is granted if and only if no call for the same account and intent was granted
  during the 60 seconds before it.
\<close>

theorem cold_call_budget_refines:
  assumes "redis_counters_ok client view" and "redis_up client" and "view r = (\<lambda>_. None)"
  shows "cold_calls client cs r = granted_calls (\<lambda>_. None) cs"
  by (rule cold_calls_from [OF assms(1,2)]) (simp add: assms(3) counter_matches_def)

theorem cold_call_budget_refines_witness:
  "cold_calls healthy_counters [(7 :: nat, 0), (7, seconds 59), (8, seconds 59), (7, seconds 60)] (\<lambda>_. None) =
    [True, False, True, True]"
  by (subst cold_call_budget_refines [OF healthy_counters_ok])
    (simp_all add: seconds_def)

text \<open>
  A counter whose EXPIRE is lost never expires: when INCR has created the counter of a key and
  the EXPIRE after it fails, that call is granted, and every later call for the key is refused,
  however long one waits.
\<close>

theorem lost_expire_jams:
  assumes "redis_counters_ok client view" and "view r k = None"
    and "rc_incr client k now r = (Inr n, r1)" and "rc_expire client k 60 now r1 = (Inl e, r2)"
    and "view r2 = view r1" and "\<And>t q. \<exists>m q'. rc_incr client k t q = (Inr m, q')"
  shows "fst (enforce_cold_call_budget (Some client) k now r) \<and>
    cold_calls client (map (\<lambda>t. (k, t)) ts) (snd (enforce_cold_call_budget (Some client) k now r)) =
      replicate (length ts) False"
proof -
  have "n = 1" "view r1 k = Some (1, None)"
    using incr_answer [OF assms(1,3)] assms(2) by (simp_all add: counter_bump_def)
  then have first: "enforce_cold_call_budget (Some client) k now r = (True, r2)" and r2: "view r2 k = Some (1, None)"
    using assms(3,4,5) by (simp_all add: enforce_cold_call_budget_def)
  have "cold_calls client (map (\<lambda>t. (k, t)) ts) q = replicate (length ts) False"
    if "1 \<le> m" "view q k = Some (m, None)" for q m
    using that
  proof (induction ts arbitrary: q m)
    case (Cons t ts)
    obtain c q' where i: "rc_incr client k t q = (Inr c, q')" using assms(6) by blast
    then have "c = m + 1" "view q' k = Some (m + 1, None)"
      using incr_answer [OF assms(1) i] Cons.prems(2) by (simp_all add: counter_bump_def)
    then show ?case
      using Cons.IH [of "m + 1" q'] Cons.prems(1) i
      by (simp add: enforce_cold_call_budget_def COLD_CALL_BUDGET_PER_MINUTE_def)
  qed simp
  from this [OF order_refl r2] first show ?thesis by simp
qed

theorem lost_expire_jams_witness:
  "cold_calls map_counters [(7 :: nat, 0), (7, hours 1), (7, hours 24)] (True, \<lambda>_. None) = [True, False, False]"
proof -
  have "fst (enforce_cold_call_budget (Some map_counters) (7 :: nat) 0 (True, \<lambda>_. None)) \<and>
    cold_calls map_counters (map (\<lambda>t. (7, t)) [hours 1, hours 24])
      (snd (enforce_cold_call_budget (Some map_counters) (7 :: nat) 0 (True, \<lambda>_. None))) = replicate 2 False"
    using lost_expire_jams [OF map_counters_ok, of "(True, \<lambda>_. None)" 7 0 1
        "(True, (\<lambda>_. None)(7 \<mapsto> (1, None)))" RedisError "(False, (\<lambda>_. None)(7 \<mapsto> (1, None)))" "[hours 1, hours 24]"]
    by (simp add: map_counters_def counter_bump_def Let_def split_def numeral_2_eq_2)
  then show ?thesis by (simp add: split_def Let_def numeral_2_eq_2)
qed

end
