(* ===== verification/RateLimiter.thy ===== *)
theory RateLimiter
  imports GateCache Decimals
begin

text \<open>
  The comment rate limiter of the neuro-commenting module: \<open>rate_limiter_shared.py\<close> with its Lua
  script, \<open>rate_limiter_core.py\<close> and \<open>rate_limiter.py\<close>. A reservation takes one unit of every limit
  that matches its scope, in one script run; commit keeps the units of the time windows, rollback
  gives all of them back. The Redis commands and the faults of the client are parameters, what the
  code relies on is stated by \<open>redis_ok\<close>. JSON payloads are stored as the value they encode.
\<close>

section \<open>Keys\<close>

record rate_limit_counter_key =
  ck_workspace_id :: string
  ck_scope_type :: string
  ck_scope_id :: string
  ck_scope_key :: string
  ck_window_number :: int

definition build_rate_limit_counter_key :: "string \<Rightarrow> string \<Rightarrow> string \<Rightarrow> string \<Rightarrow> int \<Rightarrow> string" where
  "build_rate_limit_counter_key workspace_id scope_type scope_id scope_key window_number =
     ''neuro:'' @ workspace_id @ '':limit:'' @ scope_type @ '':'' @ scope_id @ '':'' @ scope_key @ '':'' @
     int_text window_number"

definition build_rate_limit_counter_metadata_key :: "string \<Rightarrow> string \<Rightarrow> string \<Rightarrow> string \<Rightarrow> int \<Rightarrow> string" where
  "build_rate_limit_counter_metadata_key workspace_id scope_type scope_id scope_key window_number =
     ''neuro:'' @ workspace_id @ '':limit_meta:'' @ scope_type @ '':'' @ scope_id @ '':'' @ scope_key @ '':'' @
     int_text window_number"

definition parse_rate_limit_counter_key :: "string \<Rightarrow> rate_limit_counter_key option" where
  "parse_rate_limit_counter_key key =
     (case split_at (CHR '':'') key of
        [p0, p1, p2, p3, p4, p5, p6] \<Rightarrow>
          if p0 \<noteq> ''neuro'' \<or> p2 \<noteq> ''limit'' then None
          else (case int_of_text p6 of
                  None \<Rightarrow> None
                | Some n \<Rightarrow> Some \<lparr>ck_workspace_id = p1, ck_scope_type = p3, ck_scope_id = p4,
                    ck_scope_key = p5, ck_window_number = n\<rparr>)
      | _ \<Rightarrow> None)"

section \<open>Redis\<close>

text \<open>What the limiter stores: counters, plain text, and the JSON of a reservation.\<close>

record delay_key =
  dk_key :: string
  dk_ttl :: int
  dk_reserve_ttl :: int
  dk_name :: string

record reservation_payload =
  rp_status :: string
  rp_counter_keys :: "string list"
  rp_commit_release_keys :: "string list"
  rp_rollback_counter_keys :: "string list"
  rp_last_comment_keys :: "delay_key list"

datatype rvalue = RNum int | RText string | RPayload reservation_payload

text \<open>A command that writes: the new state, and an error reply or an answer.\<close>

type_synonym ('r, 'a) command = "'r \<Rightarrow> (redis_error + 'a) \<times> 'r"

record 'r redis =
  rd_get :: "string \<Rightarrow> time \<Rightarrow> 'r \<Rightarrow> rvalue option"
  rd_ttl :: "string \<Rightarrow> time \<Rightarrow> 'r \<Rightarrow> int"
  rd_keys :: "string \<Rightarrow> string \<Rightarrow> time \<Rightarrow> 'r \<Rightarrow> string list"
  rd_incrby :: "string \<Rightarrow> int \<Rightarrow> time \<Rightarrow> ('r, unit) command"
  rd_expire :: "string \<Rightarrow> int \<Rightarrow> time \<Rightarrow> ('r, unit) command"
  rd_set :: "string \<Rightarrow> rvalue \<Rightarrow> int \<Rightarrow> time \<Rightarrow> ('r, unit) command"
  rd_set_nx :: "string \<Rightarrow> rvalue \<Rightarrow> int \<Rightarrow> time \<Rightarrow> ('r, bool) command"
  rd_del :: "string \<Rightarrow> time \<Rightarrow> ('r, unit) command"
  rd_fault :: "'r \<Rightarrow> (redis_error \<times> bool) option \<times> 'r"

text \<open>
  A call of the client. \<open>rd_fault\<close> says whether it goes through; when it does not, an exception is
  raised and the command has been executed on the server or has not.
\<close>

definition client_call :: "'r redis \<Rightarrow> ('r, 'a) command \<Rightarrow> ('r, 'a) command" where
  "client_call cl c r =
     (let (fault, r0) = rd_fault cl r in
      case fault of
        None \<Rightarrow> c r0
      | Some (e, executed) \<Rightarrow> (Inl e, if executed then snd (c r0) else r0))"

definition command_return :: "'a \<Rightarrow> ('r, 'a) command" where
  "command_return x r = (Inr x, r)"

definition command_bind :: "('r, 'a) command \<Rightarrow> ('a \<Rightarrow> ('r, 'b) command) \<Rightarrow> ('r, 'b) command" where
  "command_bind c f r = (case c r of (Inl e, r1) \<Rightarrow> (Inl e, r1) | (Inr x, r1) \<Rightarrow> f x r1)"

fun command_each :: "('a \<Rightarrow> ('r, unit) command) \<Rightarrow> 'a list \<Rightarrow> ('r, unit) command" where
  "command_each c [] r = (Inr (), r)"
| "command_each c (x # xs) r = command_bind (c x) (\<lambda>_. command_each c xs) r"

text \<open>A pipeline runs all its commands and raises the first error among the answers.\<close>

fun pipeline_execute :: "('r, unit) command list \<Rightarrow> ('r, unit) command" where
  "pipeline_execute [] r = (Inr (), r)"
| "pipeline_execute (c # cs) r =
     (let (x, r1) = c r; (y, r2) = pipeline_execute cs r1
      in (case x of Inl e \<Rightarrow> Inl e | Inr _ \<Rightarrow> y, r2))"

section \<open>The reservation script\<close>

text \<open>One line of \<open>KEYS\<close> and \<open>ARGV\<close> per counter and per minimal delay.\<close>

record counter_arg =
  ca_key :: string
  ca_name :: string
  ca_max_value :: int
  ca_window_seconds :: int

record script_answer =
  sa_flag :: int
  sa_name :: string
  sa_ttl :: int

text \<open>\<open>tonumber(redis.call("GET", key) or "0")\<close>; comparing nil is a script error.\<close>

definition lua_counter :: "rvalue option \<Rightarrow> int option" where
  "lua_counter v = (case v of None \<Rightarrow> Some 0 | Some (RNum n) \<Rightarrow> Some n | Some _ \<Rightarrow> None)"

fun check_counters :: "'r redis \<Rightarrow> time \<Rightarrow> counter_arg list \<Rightarrow> ('r, script_answer option) command" where
  "check_counters cl now [] r = (Inr None, r)"
| "check_counters cl now (a # as) r =
     (case lua_counter (rd_get cl (ca_key a) now r) of
        None \<Rightarrow> (Inl (ResponseError False), r)
      | Some current \<Rightarrow>
          if ca_max_value a \<le> current
          then (Inr (Some \<lparr>sa_flag = 0, sa_name = ca_name a, sa_ttl = rd_ttl cl (ca_key a) now r\<rparr>), r)
          else check_counters cl now as r)"

fun check_delays :: "'r redis \<Rightarrow> time \<Rightarrow> delay_key list \<Rightarrow> 'r \<Rightarrow> script_answer option" where
  "check_delays cl now [] r = None"
| "check_delays cl now (d # ds) r =
     (if rd_get cl (dk_key d) now r \<noteq> None
      then Some \<lparr>sa_flag = 0, sa_name = dk_name d, sa_ttl = rd_ttl cl (dk_key d) now r\<rparr>
      else check_delays cl now ds r)"

definition take_counter :: "'r redis \<Rightarrow> time \<Rightarrow> counter_arg \<Rightarrow> ('r, unit) command" where
  "take_counter cl now a =
     command_bind (rd_incrby cl (ca_key a) 1 now)
       (\<lambda>_ r. if rd_ttl cl (ca_key a) now r < 0 then rd_expire cl (ca_key a) (ca_window_seconds a) now r
              else (Inr (), r))"

definition give_back ::
  "'r redis \<Rightarrow> time \<Rightarrow> string \<Rightarrow> counter_arg list \<Rightarrow> string list \<Rightarrow> ('r, unit) command" where
  "give_back cl now reservation_key counters reserved =
     command_bind (command_each (\<lambda>a. rd_incrby cl (ca_key a) (- 1) now) counters)
       (\<lambda>_. command_each
          (\<lambda>k r. if rd_get cl k now r = Some (RText reservation_key) then rd_del cl k now r else (Inr (), r))
          reserved)"

fun take_delays ::
  "'r redis \<Rightarrow> time \<Rightarrow> string \<Rightarrow> counter_arg list \<Rightarrow> string list \<Rightarrow> delay_key list \<Rightarrow>
   ('r, script_answer option \<times> string list) command" where
  "take_delays cl now reservation_key counters reserved [] r = (Inr (None, reserved), r)"
| "take_delays cl now reservation_key counters reserved (d # ds) r =
     command_bind (rd_set_nx cl (dk_key d) (RText reservation_key) (dk_reserve_ttl d) now)
       (\<lambda>ok. if ok then take_delays cl now reservation_key counters (reserved @ [dk_key d]) ds
             else command_bind (give_back cl now reservation_key counters reserved)
               (\<lambda>_ r1. (Inr (Some \<lparr>sa_flag = 0, sa_name = dk_name d, sa_ttl = rd_ttl cl (dk_key d) now r1\<rparr>,
                             reserved), r1)))
       r"

definition reserve_script ::
  "'r redis \<Rightarrow> time \<Rightarrow> string \<Rightarrow> reservation_payload \<Rightarrow> int \<Rightarrow> counter_arg list \<Rightarrow> delay_key list \<Rightarrow>
   ('r, script_answer) command" where
  "reserve_script cl now reservation_key payload reservation_ttl counters delays r =
     (if rd_get cl reservation_key now r \<noteq> None
      then (Inr \<lparr>sa_flag = 0, sa_name = ''reservation_conflict'', sa_ttl = reservation_ttl\<rparr>, r)
      else case check_counters cl now counters r of
        (Inl e, r1) \<Rightarrow> (Inl e, r1)
      | (Inr (Some denied), r1) \<Rightarrow> (Inr denied, r1)
      | (Inr None, r1) \<Rightarrow>
          (case check_delays cl now delays r1 of
             Some denied \<Rightarrow> (Inr denied, r1)
           | None \<Rightarrow>
               command_bind (command_each (take_counter cl now) counters)
                 (\<lambda>_. command_bind (take_delays cl now reservation_key counters [] delays)
                   (\<lambda>(denied, reserved).
                      case denied of
                        Some a \<Rightarrow> command_return a
                      | None \<Rightarrow>
                          command_bind (rd_set_nx cl reservation_key (RPayload payload) reservation_ttl now)
                            (\<lambda>ok. if ok then command_return \<lparr>sa_flag = 1, sa_name = [], sa_ttl = 0\<rparr>
                                  else command_bind (give_back cl now reservation_key counters reserved)
                                    (\<lambda>_. command_return
                                       \<lparr>sa_flag = 0, sa_name = ''reservation_conflict'',
                                        sa_ttl = reservation_ttl\<rparr>))))
                 r1))"

section \<open>Scopes and limits\<close>

record rate_limit_scope =
  sc_workspace_id :: string
  sc_campaign_id :: string
  sc_account_id :: "string option"
  sc_target_id :: "string option"
  sc_campaign_account_id :: "string option"
  sc_campaign_target_id :: "string option"

record rate_limit_reservation =
  rr_reservation_id :: "string option"
  rr_allowed :: bool
  rr_reason :: "string option"
  rr_retry_after_seconds :: "int option"
  rr_checked_limits :: "string list"

text \<open>A configured limit; and one that matched a scope, its scope id filled in.\<close>

record limit_config =
  lc_scope_type :: string
  lc_scope_id :: "string option"
  lc_limit_type :: string
  lc_max_value :: int
  lc_window_seconds :: int

record matched_limit =
  ml_scope_type :: string
  ml_scope_id :: string
  ml_limit_type :: string
  ml_max_value :: int
  ml_window_seconds :: int

record limiter_settings =
  default_campaign_comments_per_hour :: int
  default_campaign_comments_per_day :: int
  default_min_delay_between_comments_seconds :: int
  default_account_comments_per_hour :: int
  default_account_comments_per_day :: int
  default_target_comments_per_hour :: int

text \<open>The fields of a limiter; \<open>rl_limits\<close> is None or the configured list.\<close>

record rate_limiter =
  rl_settings :: limiter_settings
  rl_limits :: "limit_config list option"
  rl_enabled :: bool
  rl_fail_closed :: bool
  rl_reservation_ttl_seconds :: int

definition denied_reservation :: "string \<Rightarrow> int \<Rightarrow> rate_limit_reservation" where
  "denied_reservation reason retry =
     \<lparr>rr_reservation_id = None, rr_allowed = False, rr_reason = Some reason,
      rr_retry_after_seconds = Some retry, rr_checked_limits = []\<rparr>"

definition scope_id_of :: "rate_limit_scope \<Rightarrow> string \<Rightarrow> string option result" where
  "scope_id_of scope scope_type =
     (if scope_type = ''workspace'' then Inr (Some (sc_workspace_id scope))
      else if scope_type = ''campaign'' then Inr (Some (sc_campaign_id scope))
      else if scope_type = ''account'' then Inr (sc_account_id scope)
      else if scope_type = ''target'' then Inr (sc_target_id scope)
      else if scope_type = ''campaign_account'' then Inr (sc_campaign_account_id scope)
      else if scope_type = ''campaign_target'' then Inr (sc_campaign_target_id scope)
      else Inl (KeyError scope_type))"

definition scope_limit :: "string \<Rightarrow> string \<Rightarrow> string \<Rightarrow> int \<Rightarrow> int \<Rightarrow> limit_config" where
  "scope_limit scope_type scope_id limit_type max_value window_seconds =
     \<lparr>lc_scope_type = scope_type, lc_scope_id = Some scope_id, lc_limit_type = limit_type,
      lc_max_value = max_value, lc_window_seconds = window_seconds\<rparr>"

definition default_limits :: "limiter_settings \<Rightarrow> rate_limit_scope \<Rightarrow> limit_config list" where
  "default_limits cfg scope =
     [scope_limit ''campaign'' (sc_campaign_id scope) ''comments_per_hour''
        (default_campaign_comments_per_hour cfg) 3600,
      scope_limit ''campaign'' (sc_campaign_id scope) ''comments_per_day''
        (default_campaign_comments_per_day cfg) 86400,
      scope_limit ''campaign'' (sc_campaign_id scope) ''min_delay_between_comments''
        (default_min_delay_between_comments_seconds cfg) (default_min_delay_between_comments_seconds cfg)] @
     (case sc_account_id scope of
        None \<Rightarrow> []
      | Some account_id \<Rightarrow>
          [scope_limit ''account'' account_id ''comments_per_hour'' (default_account_comments_per_hour cfg) 3600,
           scope_limit ''account'' account_id ''comments_per_day'' (default_account_comments_per_day cfg) 86400]) @
     (case sc_target_id scope of
        None \<Rightarrow> []
      | Some target_id \<Rightarrow>
          [scope_limit ''target'' target_id ''comments_per_hour'' (default_target_comments_per_hour cfg) 3600])"

definition normalized :: "limit_config \<Rightarrow> string \<Rightarrow> matched_limit" where
  "normalized l scope_id =
     \<lparr>ml_scope_type = lc_scope_type l, ml_scope_id = scope_id, ml_limit_type = lc_limit_type l,
      ml_max_value = lc_max_value l, ml_window_seconds = lc_window_seconds l\<rparr>"

fun match_limits :: "rate_limit_scope \<Rightarrow> limit_config list \<Rightarrow> matched_limit list result" where
  "match_limits scope [] = Inr []"
| "match_limits scope (l # ls) =
     result_bind (scope_id_of scope (lc_scope_type l))
       (\<lambda>actual. result_bind (match_limits scope ls)
          (\<lambda>matched. Inr
             (case actual of
                None \<Rightarrow> matched
              | Some actual_scope_id \<Rightarrow>
                  if lc_scope_id l \<noteq> None \<and> lc_scope_id l \<noteq> Some actual_scope_id then matched
                  else normalized l actual_scope_id # matched)))"

definition matching_limits :: "rate_limiter \<Rightarrow> rate_limit_scope \<Rightarrow> matched_limit list result" where
  "matching_limits rl scope =
     match_limits scope
       (case rl_limits rl of
          None \<Rightarrow> default_limits (rl_settings rl) scope
        | Some ls \<Rightarrow> if ls = [] then default_limits (rl_settings rl) scope else ls)"

definition split_counter_limits :: "matched_limit list \<Rightarrow> matched_limit list \<times> matched_limit list" where
  "split_counter_limits limits =
     (filter (\<lambda>l. ml_limit_type l \<notin> {''min_delay_between_comments'', ''max_parallel_attempts''}) limits,
      filter (\<lambda>l. ml_limit_type l = ''max_parallel_attempts'') limits)"

definition limit_name :: "matched_limit \<Rightarrow> string" where
  "limit_name l = ml_scope_type l @ '':'' @ ml_scope_id l @ '' '' @ ml_limit_type l"

definition limit_key :: "time \<Rightarrow> rate_limit_scope \<Rightarrow> matched_limit \<Rightarrow> string result" where
  "limit_key now scope l =
     (if ml_window_seconds l = 0 then Inl ZeroDivisionError
      else Inr (build_rate_limit_counter_key (sc_workspace_id scope) (ml_scope_type l) (ml_scope_id l)
        (ml_limit_type l) (now div seconds (ml_window_seconds l))))"

definition parallel_key :: "rate_limit_scope \<Rightarrow> matched_limit \<Rightarrow> string" where
  "parallel_key scope l =
     ''neuro:'' @ sc_workspace_id scope @ '':parallel:'' @ ml_scope_type l @ '':'' @ ml_scope_id l"

definition reservation_key :: "string \<Rightarrow> string \<Rightarrow> string" where
  "reservation_key workspace_id reservation_id =
     ''neuro:'' @ workspace_id @ '':reservation:'' @ reservation_id"

definition cooldown_key :: "string \<Rightarrow> string \<Rightarrow> string \<Rightarrow> string" where
  "cooldown_key workspace_id scope_type scope_id =
     ''neuro:'' @ workspace_id @ '':cooldown:'' @ scope_type @ '':'' @ scope_id"

text \<open>\<open>window_seconds or ttl\<close>: zero is falsy.\<close>

definition parallel_window :: "int \<Rightarrow> matched_limit \<Rightarrow> int" where
  "parallel_window ttl l = min (if ml_window_seconds l = 0 then ttl else ml_window_seconds l) ttl"

definition last_comment_keys :: "int \<Rightarrow> rate_limit_scope \<Rightarrow> matched_limit list \<Rightarrow> delay_key list" where
  "last_comment_keys ttl scope limits =
     map (\<lambda>l. \<lparr>dk_key = ''neuro:'' @ sc_workspace_id scope @ '':last_comment:'' @ ml_scope_type l @ '':'' @
                  ml_scope_id l,
              dk_ttl = ml_window_seconds l, dk_reserve_ttl = min (ml_window_seconds l) ttl,
              dk_name = limit_name l\<rparr>)
       (filter (\<lambda>l. ml_limit_type l = ''min_delay_between_comments'') limits)"

fun limit_keys :: "time \<Rightarrow> rate_limit_scope \<Rightarrow> matched_limit list \<Rightarrow> string list result" where
  "limit_keys now scope [] = Inr []"
| "limit_keys now scope (l # ls) =
     result_bind (limit_key now scope l) (\<lambda>k. result_bind (limit_keys now scope ls) (\<lambda>ks. Inr (k # ks)))"

text \<open>\<open>_lua_limit_args\<close> of \<open>_reserve_limits\<close>, zipped with the keys.\<close>

definition counter_args ::
  "int \<Rightarrow> rate_limit_scope \<Rightarrow> matched_limit list \<Rightarrow> string list \<Rightarrow> matched_limit list \<Rightarrow> counter_arg list" where
  "counter_args ttl scope counter_limits window_counter_keys parallel_limits =
     map (\<lambda>(l, k). \<lparr>ca_key = k, ca_name = limit_name l, ca_max_value = ml_max_value l,
                    ca_window_seconds = ml_window_seconds l\<rparr>)
       (zip counter_limits window_counter_keys) @
     map (\<lambda>l. \<lparr>ca_key = parallel_key scope l, ca_name = limit_name l, ca_max_value = ml_max_value l,
               ca_window_seconds = parallel_window ttl l\<rparr>) parallel_limits"

text \<open>\<open>text.split(sep, 1)\<close> on a separator that occurs: what stands before and after it.\<close>

definition text_before :: "char \<Rightarrow> string \<Rightarrow> string" where
  "text_before c s = takeWhile (\<lambda>d. d \<noteq> c) s"

definition after :: "char \<Rightarrow> string \<Rightarrow> string" where
  "after c s = drop 1 (dropWhile (\<lambda>d. d \<noteq> c) s)"

definition denied_reason :: "string \<Rightarrow> string" where
  "denied_reason name =
     (if name = ''reservation_conflict'' then ''reservation_conflict''
      else if CHR '' '' \<notin> set name then name
      else let scope_type = text_before (CHR '':'') (text_before (CHR '' '') name);
               limit_type = after (CHR '' '') name
           in if limit_type = ''min_delay_between_comments'' then scope_type @ '' '' @ limit_type @ '' active''
              else scope_type @ '' '' @ limit_type @ '' limit exceeded'')"

section \<open>The limiter\<close>

text \<open>\<open>_active_cooldown\<close>: the GET and, when a cooldown is there, the TTL.\<close>

fun active_cooldown ::
  "'r redis \<Rightarrow> time \<Rightarrow> rate_limit_scope \<Rightarrow> (string \<times> string option) list \<Rightarrow>
   ('r, rate_limit_reservation option) command" where
  "active_cooldown cl now scope [] r = (Inr None, r)"
| "active_cooldown cl now scope ((scope_type, None) # ss) r = active_cooldown cl now scope ss r"
| "active_cooldown cl now scope ((scope_type, Some scope_id) # ss) r =
     (let key = cooldown_key (sc_workspace_id scope) scope_type scope_id in
      command_bind (client_call cl (\<lambda>r0. (Inr (rd_get cl key now r0), r0)))
        (\<lambda>v. if v \<noteq> None
             then command_bind (client_call cl (\<lambda>r0. (Inr (rd_ttl cl key now r0), r0)))
               (\<lambda>ttl. command_return (Some (denied_reservation (scope_type @ '' cooldown active'') (max 1 ttl))))
             else active_cooldown cl now scope ss) r)"

definition write_counter_metadata ::
  "'r redis \<Rightarrow> time \<Rightarrow> matched_limit list \<Rightarrow> string list \<Rightarrow> 'r \<Rightarrow> 'r" where
  "write_counter_metadata cl now limits counter_keys r =
     snd (client_call cl (pipeline_execute (List.map_filter
       (\<lambda>(l, counter_key).
          map_option
            (\<lambda>p. rd_set cl (build_rate_limit_counter_metadata_key (ck_workspace_id p) (ck_scope_type p)
                   (ck_scope_id p) (ck_scope_key p) (ck_window_number p))
                   (RText (int_text (ml_window_seconds l))) (max 1 (ml_window_seconds l * 2)) now)
            (parse_rate_limit_counter_key counter_key))
       (zip limits counter_keys))) r)"

definition payload_of :: "counter_arg list \<Rightarrow> string list \<Rightarrow> delay_key list \<Rightarrow> reservation_payload" where
  "payload_of counters parallel_counter_keys delays =
     \<lparr>rp_status = ''active'', rp_counter_keys = map ca_key counters,
      rp_commit_release_keys = parallel_counter_keys, rp_rollback_counter_keys = map ca_key counters,
      rp_last_comment_keys = delays\<rparr>"

text \<open>
  \<open>_reserve_with_redis\<close>. The outer error is a Redis error, the inner one any other exception.
\<close>

definition reserve_with_redis ::
  "'r redis \<Rightarrow> rate_limiter \<Rightarrow> string \<Rightarrow> time \<Rightarrow> rate_limit_scope \<Rightarrow>
   ('r, rate_limit_reservation result) command" where
  "reserve_with_redis cl rl reservation_id now scope =
     command_bind
       (active_cooldown cl now scope
          [(''account'', sc_account_id scope), (''target'', sc_target_id scope),
           (''campaign'', Some (sc_campaign_id scope))])
       (\<lambda>cooldown.
          case cooldown of
            Some denied \<Rightarrow> command_return (Inr denied)
          | None \<Rightarrow>
              (case matching_limits rl scope of
                 Inl e \<Rightarrow> command_return (Inl e)
               | Inr limits \<Rightarrow>
                   let (counter_limits, parallel_limits) = split_counter_limits limits in
                   (case limit_keys now scope counter_limits of
                      Inl e \<Rightarrow> command_return (Inl e)
                    | Inr window_counter_keys \<Rightarrow>
                        let ttl = rl_reservation_ttl_seconds rl;
                            counters = counter_args ttl scope counter_limits window_counter_keys parallel_limits;
                            delays = last_comment_keys ttl scope limits;
                            payload = payload_of counters (map (parallel_key scope) parallel_limits) delays
                        in command_bind
                          (client_call cl (reserve_script cl now
                             (reservation_key (sc_workspace_id scope) reservation_id) payload ttl counters delays))
                          (\<lambda>answer r.
                             if sa_flag answer \<noteq> 1
                             then (Inr (Inr (denied_reservation (denied_reason (sa_name answer))
                                     (max 1 (if sa_ttl answer = 0 then 1 else sa_ttl answer)))), r)
                             else (Inr (Inr \<lparr>rr_reservation_id = Some reservation_id, rr_allowed = True,
                                     rr_reason = None, rr_retry_after_seconds = None,
                                     rr_checked_limits = map limit_name limits\<rparr>),
                                   write_counter_metadata cl now counter_limits window_counter_keys r)))))"

definition limiter_reserve ::
  "'r redis \<Rightarrow> rate_limiter \<Rightarrow> string \<Rightarrow> time \<Rightarrow> rate_limit_scope \<Rightarrow> 'r \<Rightarrow>
   rate_limit_reservation result \<times> 'r" where
  "limiter_reserve cl rl reservation_id now scope r =
     (if \<not> rl_enabled rl
      then (Inr \<lparr>rr_reservation_id = None, rr_allowed = True, rr_reason = None,
                 rr_retry_after_seconds = None, rr_checked_limits = []\<rparr>, r)
      else case reserve_with_redis cl rl reservation_id now scope r of
        (Inr v, r1) \<Rightarrow> (v, r1)
      | (Inl _, r1) \<Rightarrow>
          (Inr (if rl_fail_closed rl then denied_reservation ''rate_limiter_unavailable'' 60
                else \<lparr>rr_reservation_id = None, rr_allowed = True,
                      rr_reason = Some ''rate_limiter_unavailable'', rr_retry_after_seconds = None,
                      rr_checked_limits = []\<rparr>), r1))"

definition find_reservation_keys :: "'r redis \<Rightarrow> string \<Rightarrow> time \<Rightarrow> ('r, string list) command" where
  "find_reservation_keys cl reservation_id now =
     client_call cl (\<lambda>r. (Inr (rd_keys cl ''neuro:'' ('':reservation:'' @ reservation_id) now r), r))"

text \<open>\<open>data.get("status") != "active"\<close> ends the loop; \<open>committed\<close> and plain text are not active.\<close>

definition active_payload :: "rvalue option \<Rightarrow> reservation_payload option" where
  "active_payload v =
     (case v of Some (RPayload p) \<Rightarrow> if rp_status p = ''active'' then Some p else None | _ \<Rightarrow> None)"

definition commit_payload :: "'r redis \<Rightarrow> rate_limiter \<Rightarrow> time \<Rightarrow> string \<Rightarrow> reservation_payload \<Rightarrow> ('r, unit) command" where
  "commit_payload cl rl now key p =
     command_bind (client_call cl (rd_set cl key (RPayload (p\<lparr>rp_status := ''committed''\<rparr>))
                                     (rl_reservation_ttl_seconds rl) now))
       (\<lambda>_. command_bind
          (if rp_commit_release_keys p = [] then command_return ()
           else client_call cl (pipeline_execute
             (map (\<lambda>k. rd_incrby cl k (- 1) now) (rp_commit_release_keys p))))
          (\<lambda>_. command_bind
             (command_each (\<lambda>d. client_call cl (rd_set cl (dk_key d) (RText ''1'') (max 1 (dk_ttl d)) now))
                (rp_last_comment_keys p))
             (\<lambda>_. client_call cl (rd_del cl key now))))"

definition rollback_payload :: "'r redis \<Rightarrow> time \<Rightarrow> string \<Rightarrow> reservation_payload \<Rightarrow> ('r, unit) command" where
  "rollback_payload cl now key p =
     client_call cl (pipeline_execute
       (map (\<lambda>k. rd_incrby cl k (- 1) now) (rp_rollback_counter_keys p) @
        map (\<lambda>d. rd_del cl (dk_key d) now) (rp_last_comment_keys p) @
        [rd_del cl key now]))"

fun over_reservations ::
  "'r redis \<Rightarrow> time \<Rightarrow> (string \<Rightarrow> reservation_payload \<Rightarrow> ('r, unit) command) \<Rightarrow> string list \<Rightarrow> ('r, unit) command" where
  "over_reservations cl now f [] r = (Inr (), r)"
| "over_reservations cl now f (key # keys) r =
     command_bind (client_call cl (\<lambda>r0. (Inr (rd_get cl key now r0), r0)))
       (\<lambda>v. case active_payload v of
              None \<Rightarrow> command_return ()
            | Some p \<Rightarrow> command_bind (f key p) (\<lambda>_. over_reservations cl now f keys)) r"

definition limiter_commit :: "'r redis \<Rightarrow> rate_limiter \<Rightarrow> time \<Rightarrow> rate_limit_reservation \<Rightarrow> 'r \<Rightarrow> 'r" where
  "limiter_commit cl rl now v r =
     (case (rr_allowed v, rr_reservation_id v) of
        (True, Some reservation_id) \<Rightarrow>
          snd (command_bind (find_reservation_keys cl reservation_id now)
                 (over_reservations cl now (commit_payload cl rl now)) r)
      | _ \<Rightarrow> r)"

definition limiter_rollback :: "'r redis \<Rightarrow> time \<Rightarrow> rate_limit_reservation \<Rightarrow> 'r \<Rightarrow> 'r" where
  "limiter_rollback cl now v r =
     (case (rr_allowed v, rr_reservation_id v) of
        (True, Some reservation_id) \<Rightarrow>
          snd (command_bind (find_reservation_keys cl reservation_id now)
                 (over_reservations cl now (rollback_payload cl now)) r)
      | _ \<Rightarrow> r)"

definition limiter_cooldown ::
  "'r redis \<Rightarrow> time \<Rightarrow> string \<Rightarrow> string \<Rightarrow> string \<Rightarrow> int \<Rightarrow> string \<Rightarrow> ('r, unit) command" where
  "limiter_cooldown cl now workspace_id scope_type scope_id secs reason =
     client_call cl (rd_set cl (cooldown_key workspace_id scope_type scope_id) (RText reason) (max 1 secs) now)"

end
