(* ===== verification/RateLimits.thy ===== *)
theory RateLimits
  imports RateLimiter
begin

text \<open>
  What the rate limiter promises. \<open>redis_ok\<close> states the documented behaviour of the Redis commands
  over the stored entries, a value with an optional expiry; the lemmas give the effect of each part
  of the reservation script on the entries.
\<close>

section \<open>The commands' laws\<close>

type_synonym entry = "rvalue \<times> time option"

definition live :: "time \<Rightarrow> entry option \<Rightarrow> entry option" where
  "live now x = (case x of Some (v, Some e) \<Rightarrow> if now < e then x else None | _ \<Rightarrow> x)"

definition glob :: "string \<Rightarrow> string \<Rightarrow> string \<Rightarrow> bool" where
  "glob p s k \<longleftrightarrow> (\<exists>m. k = p @ m @ s)"

definition incremented :: "int \<Rightarrow> entry option \<Rightarrow> entry option option" where
  "incremented n x =
     (case x of None \<Rightarrow> Some (Some (RNum n, None))
      | Some (RNum m, e) \<Rightarrow> Some (Some (RNum (m + n), e))
      | _ \<Rightarrow> None)"

definition reads_ok :: "'r redis \<Rightarrow> ('r \<Rightarrow> string \<Rightarrow> entry option) \<Rightarrow> bool" where
  "reads_ok cl entries \<longleftrightarrow>
     (\<forall>k now r. rd_get cl k now r = map_option fst (live now (entries r k))) \<and>
     (\<forall>k now r. rd_ttl cl k now r < 0 \<longleftrightarrow> (\<forall>v e. live now (entries r k) \<noteq> Some (v, Some e))) \<and>
     (\<forall>p s now r. distinct (rd_keys cl p s now r)) \<and>
     (\<forall>p s now r. set (rd_keys cl p s now r) = {k. live now (entries r k) \<noteq> None \<and> glob p s k})"

definition incrby_ok :: "'r redis \<Rightarrow> ('r \<Rightarrow> string \<Rightarrow> entry option) \<Rightarrow> bool" where
  "incrby_ok cl entries \<longleftrightarrow>
     (\<forall>k n now r x. incremented n (live now (entries r k)) = Some x \<longrightarrow>
        (\<exists>r'. rd_incrby cl k n now r = (Inr (), r') \<and> entries r' = (entries r)(k := x))) \<and>
     (\<forall>k n now r. incremented n (live now (entries r k)) = None \<longrightarrow>
        (\<exists>e r'. rd_incrby cl k n now r = (Inl e, r') \<and> entries r' = entries r))"

definition expire_ok :: "'r redis \<Rightarrow> ('r \<Rightarrow> string \<Rightarrow> entry option) \<Rightarrow> bool" where
  "expire_ok cl entries \<longleftrightarrow>
     (\<forall>k s now r. \<exists>r'. rd_expire cl k s now r = (Inr (), r') \<and>
        entries r' = (case live now (entries r k) of
                        None \<Rightarrow> entries r
                      | Some (v, _) \<Rightarrow> (entries r)(k := Some (v, Some (now + seconds s)))))"

definition set_ok :: "'r redis \<Rightarrow> ('r \<Rightarrow> string \<Rightarrow> entry option) \<Rightarrow> bool" where
  "set_ok cl entries \<longleftrightarrow>
     (\<forall>k v ex now r. 0 < ex \<longrightarrow> (\<exists>r'. rd_set cl k v ex now r = (Inr (), r') \<and>
        entries r' = (entries r)(k := Some (v, Some (now + seconds ex))))) \<and>
     (\<forall>k v ex now r. ex \<le> 0 \<longrightarrow> (\<exists>e r'. rd_set cl k v ex now r = (Inl e, r') \<and> entries r' = entries r))"

definition set_nx_ok :: "'r redis \<Rightarrow> ('r \<Rightarrow> string \<Rightarrow> entry option) \<Rightarrow> bool" where
  "set_nx_ok cl entries \<longleftrightarrow>
     (\<forall>k v ex now r. 0 < ex \<and> live now (entries r k) = None \<longrightarrow>
        (\<exists>r'. rd_set_nx cl k v ex now r = (Inr True, r') \<and>
           entries r' = (entries r)(k := Some (v, Some (now + seconds ex))))) \<and>
     (\<forall>k v ex now r. 0 < ex \<and> live now (entries r k) \<noteq> None \<longrightarrow>
        (\<exists>r'. rd_set_nx cl k v ex now r = (Inr False, r') \<and> entries r' = entries r)) \<and>
     (\<forall>k v ex now r. ex \<le> 0 \<longrightarrow> (\<exists>e r'. rd_set_nx cl k v ex now r = (Inl e, r') \<and> entries r' = entries r))"

definition redis_ok :: "'r redis \<Rightarrow> ('r \<Rightarrow> string \<Rightarrow> entry option) \<Rightarrow> bool" where
  "redis_ok cl entries \<longleftrightarrow>
     reads_ok cl entries \<and> incrby_ok cl entries \<and> expire_ok cl entries \<and> set_ok cl entries \<and>
     set_nx_ok cl entries \<and>
     (\<forall>k now r. \<exists>r'. rd_del cl k now r = (Inr (), r') \<and> entries r' = (entries r)(k := None)) \<and>
     (\<forall>r. entries (snd (rd_fault cl r)) = entries r)"

text \<open>A client whose calls go through.\<close>

definition reliable :: "'r redis \<Rightarrow> bool" where
  "reliable cl \<longleftrightarrow> (\<forall>r. fst (rd_fault cl r) = None)"

text \<open>The laws one by one, for rewriting and case analysis.\<close>

lemma redis_laws:
  assumes "redis_ok cl entries"
  shows rget: "rd_get cl k now r = map_option fst (live now (entries r k))"
    and rttl: "rd_ttl cl k now r < 0 \<longleftrightarrow> (\<forall>v e. live now (entries r k) \<noteq> Some (v, Some e))"
    and rkeys: "set (rd_keys cl p s now r) = {k. live now (entries r k) \<noteq> None \<and> glob p s k}"
    and rkeys_distinct: "distinct (rd_keys cl p s now r)"
    and rincr: "incremented n (live now (entries r k)) = Some x \<Longrightarrow>
      \<exists>r'. rd_incrby cl k n now r = (Inr (), r') \<and> entries r' = (entries r)(k := x)"
    and rincr_bad: "incremented n (live now (entries r k)) = None \<Longrightarrow>
      \<exists>e r'. rd_incrby cl k n now r = (Inl e, r') \<and> entries r' = entries r"
    and rexpire: "\<exists>r'. rd_expire cl k s' now r = (Inr (), r') \<and>
      entries r' = (case live now (entries r k) of None \<Rightarrow> entries r
                    | Some (v, _) \<Rightarrow> (entries r)(k := Some (v, Some (now + seconds s'))))"
    and rset: "0 < ex \<Longrightarrow> \<exists>r'. rd_set cl k v ex now r = (Inr (), r') \<and>
      entries r' = (entries r)(k := Some (v, Some (now + seconds ex)))"
    and rset_bad: "ex \<le> 0 \<Longrightarrow> \<exists>e r'. rd_set cl k v ex now r = (Inl e, r') \<and> entries r' = entries r"
    and rset_nx: "0 < ex \<Longrightarrow> live now (entries r k) = None \<Longrightarrow> \<exists>r'. rd_set_nx cl k v ex now r = (Inr True, r') \<and>
      entries r' = (entries r)(k := Some (v, Some (now + seconds ex)))"
    and rset_nx_taken: "0 < ex \<Longrightarrow> live now (entries r k) \<noteq> None \<Longrightarrow>
      \<exists>r'. rd_set_nx cl k v ex now r = (Inr False, r') \<and> entries r' = entries r"
    and rset_nx_bad: "ex \<le> 0 \<Longrightarrow> \<exists>e r'. rd_set_nx cl k v ex now r = (Inl e, r') \<and> entries r' = entries r"
    and rdel: "\<exists>r'. rd_del cl k now r = (Inr (), r') \<and> entries r' = (entries r)(k := None)"
    and rfault: "entries (snd (rd_fault cl r)) = entries r"
proof goal_cases
  case 1
  show ?case using assms unfolding redis_ok_def reads_ok_def by simp
next
  case 2
  show ?case using assms unfolding redis_ok_def reads_ok_def by simp
next
  case 3
  show ?case using assms unfolding redis_ok_def reads_ok_def by simp
next
  case 4
  show ?case using assms unfolding redis_ok_def reads_ok_def by simp
next
  case 5
  then show ?case using assms unfolding redis_ok_def incrby_ok_def by simp
next
  case 6
  then show ?case using assms unfolding redis_ok_def incrby_ok_def by simp
next
  case 7
  show ?case using assms unfolding redis_ok_def expire_ok_def by simp
next
  case 8
  then show ?case using assms unfolding redis_ok_def set_ok_def by simp
next
  case 9
  then show ?case using assms unfolding redis_ok_def set_ok_def by simp
next
  case 10
  then show ?case using assms unfolding redis_ok_def set_nx_ok_def by simp
next
  case 11
  then show ?case using assms unfolding redis_ok_def set_nx_ok_def by simp
next
  case 12
  then show ?case using assms unfolding redis_ok_def set_nx_ok_def by simp
next
  case 13
  show ?case using assms unfolding redis_ok_def by simp
next
  case 14
  show ?case using assms unfolding redis_ok_def by simp
qed

lemma client_call_reliable:
  assumes "redis_ok cl entries" and "reliable cl"
  obtains r0 where "client_call cl c r = c r0" and "entries r0 = entries r"
proof -
  obtain r0 where f: "rd_fault cl r = (None, r0)"
    using assms(2) by (metis prod.collapse reliable_def)
  then have "client_call cl c r = c r0" by (simp add: client_call_def)
  moreover have "entries r0 = entries r" using rfault [OF assms(1), of r] f by simp
  ultimately show thesis using that by blast
qed

section \<open>The script, part by part\<close>

text \<open>A counter's number; a counter that holds no text; a counter taken once.\<close>

definition count_of :: "time \<Rightarrow> entry option \<Rightarrow> int" where
  "count_of now x = (case live now x of Some (RNum n, _) \<Rightarrow> n | _ \<Rightarrow> 0)"

definition numeric :: "time \<Rightarrow> entry option \<Rightarrow> bool" where
  "numeric now x = (case live now x of None \<Rightarrow> True | Some (RNum n, _) \<Rightarrow> True | Some _ \<Rightarrow> False)"

definition bump :: "time \<Rightarrow> int \<Rightarrow> entry option \<Rightarrow> entry option" where
  "bump now w x =
     Some (RNum (count_of now x + 1),
           Some (case live now x of Some (_, Some e) \<Rightarrow> e | _ \<Rightarrow> now + seconds w))"

definition bump_all :: "time \<Rightarrow> counter_arg list \<Rightarrow> (string \<Rightarrow> entry option) \<Rightarrow> (string \<Rightarrow> entry option)" where
  "bump_all now as m = fold (\<lambda>a m. m(ca_key a := bump now (ca_window_seconds a) (m (ca_key a)))) as m"

definition put_delay :: "time \<Rightarrow> string \<Rightarrow> delay_key \<Rightarrow> (string \<Rightarrow> entry option) \<Rightarrow> (string \<Rightarrow> entry option)" where
  "put_delay now rk d m =
     m(dk_key d := Some (RText rk, Some (now + seconds (dk_reserve_ttl d))))"

lemma live_cases: "live now x = None \<or> live now x = x"
  by (auto simp: live_def split: option.splits)

lemma live_alive: "live now x \<noteq> None \<Longrightarrow> live now x = x"
  using live_cases [of now x] by auto

lemma live_live [simp]: "live now (live now x) = live now x"
  by (auto simp: live_def split: option.splits)

lemma live_set [simp]: "live now (Some (v, Some e)) = (if now < e then Some (v, Some e) else None)"
  by (simp add: live_def)

lemma live_forever [simp]: "live now (Some (v, None)) = Some (v, None)" "live now None = None"
  by (simp_all add: live_def)

lemma bump_simps:
  assumes "0 < w"
  shows "live now (bump now w x) = bump now w x" "count_of now (bump now w x) = count_of now x + 1"
    "numeric now (bump now w x)"
  using assms by (auto simp: bump_def count_of_def numeric_def live_def split: option.splits if_splits)

lemma take_counter_effect:
  assumes ok: "redis_ok cl entries" and num: "numeric now (entries r (ca_key a))"
  shows "\<exists>r'. take_counter cl now a r = (Inr (), r') \<and>
    entries r' = (entries r)(ca_key a := bump now (ca_window_seconds a) (entries r (ca_key a)))"
proof -
  let ?x = "live now (entries r (ca_key a))"
  let ?e = "case ?x of Some (_, e) \<Rightarrow> e | None \<Rightarrow> None"
  have inc: "incremented 1 ?x = Some (Some (RNum (count_of now (entries r (ca_key a)) + 1), ?e))"
    using num by (auto simp: incremented_def numeric_def count_of_def split: option.splits rvalue.splits)
  then obtain r1 where r1: "rd_incrby cl (ca_key a) 1 now r = (Inr (), r1)"
    and e1: "entries r1 = (entries r)(ca_key a := Some (RNum (count_of now (entries r (ca_key a)) + 1), ?e))"
    using rincr [OF ok] by blast
  show ?thesis
  proof (cases ?e)
    case None
    then have "rd_ttl cl (ca_key a) now r1 < 0" by (simp add: rttl [OF ok] e1)
    moreover obtain r2 where "rd_expire cl (ca_key a) (ca_window_seconds a) now r1 = (Inr (), r2)"
      and "entries r2 = (entries r1)(ca_key a := Some (RNum (count_of now (entries r (ca_key a)) + 1),
        Some (now + seconds (ca_window_seconds a))))"
      using rexpire [OF ok, of "ca_key a" "ca_window_seconds a" now r1] None by (auto simp: e1)
    moreover have "(case ?x of Some (_, Some e) \<Rightarrow> e | _ \<Rightarrow> now + seconds (ca_window_seconds a)) =
      now + seconds (ca_window_seconds a)"
      using None by (auto split: option.splits)
    ultimately show ?thesis by (simp add: take_counter_def command_bind_def r1 e1 bump_def)
  next
    case (Some e)
    then obtain v where x: "?x = Some (v, Some e)" by (auto split: option.splits)
    then have "now < e" by (auto simp: live_def split: option.splits if_splits)
    then have "\<not> rd_ttl cl (ca_key a) now r1 < 0" by (auto simp: rttl [OF ok] e1 Some)
    then show ?thesis by (simp add: take_counter_def command_bind_def r1 e1 bump_def x)
  qed
qed

lemma take_counters_effect:
  assumes ok: "redis_ok cl entries"
    and "list_all (\<lambda>a. 0 < ca_window_seconds a \<and> numeric now (entries r (ca_key a))) as"
  shows "\<exists>r'. command_each (take_counter cl now) as r = (Inr (), r') \<and> entries r' = bump_all now as (entries r)"
  using assms(2)
proof (induction as arbitrary: r)
  case Nil
  then show ?case by (simp add: bump_all_def)
next
  case (Cons a as)
  from Cons.prems have "numeric now (entries r (ca_key a))" by simp
  from take_counter_effect [OF ok this] obtain r1
    where r1: "take_counter cl now a r = (Inr (), r1)"
      and e1: "entries r1 = (entries r)(ca_key a := bump now (ca_window_seconds a) (entries r (ca_key a)))"
    by blast
  have "list_all (\<lambda>b. 0 < ca_window_seconds b \<and> numeric now (entries r1 (ca_key b))) as"
    using Cons.prems by (auto simp: list_all_iff e1 bump_simps)
  from Cons.IH [OF this] obtain r2
    where "command_each (take_counter cl now) as r1 = (Inr (), r2)" "entries r2 = bump_all now as (entries r1)"
    by blast
  moreover have "bump_all now (a # as) (entries r) = bump_all now as (entries r1)"
    by (simp only: bump_all_def e1 fold_simps)
  ultimately show ?case by (simp add: command_bind_def r1)
qed

lemma bump_all_other: "k \<notin> ca_key ` set as \<Longrightarrow> bump_all now as m k = m k"
  by (induction as arbitrary: m) (auto simp: bump_all_def)

lemma count_bump_all:
  assumes "list_all (\<lambda>a. 0 < ca_window_seconds a) as"
  shows "count_of now (bump_all now as m k) = count_of now (m k) + int (count_list (map ca_key as) k)"
  using assms
proof (induction as arbitrary: m)
  case Nil
  then show ?case by (simp add: bump_all_def)
next
  case (Cons a as)
  then show ?case by (simp add: bump_all_def bump_simps)
qed

lemma numeric_bump_all:
  "list_all (\<lambda>a. 0 < ca_window_seconds a) as \<Longrightarrow> numeric now (m k) \<Longrightarrow> numeric now (bump_all now as m k)"
proof (induction as arbitrary: m)
  case Nil
  then show ?case by (simp add: bump_all_def)
next
  case (Cons a as)
  have "numeric now ((m(ca_key a := bump now (ca_window_seconds a) (m (ca_key a)))) k)"
    using Cons.prems by (simp add: bump_simps)
  with Cons show ?case by (simp add: bump_all_def)
qed

text \<open>The minimal delays: they are all set when they were free, and only when they are distinct.\<close>

lemma take_delays_effect:
  assumes ok: "redis_ok cl entries"
    and "list_all (\<lambda>d. 0 < dk_reserve_ttl d \<and> live now (entries r (dk_key d)) = None) ds"
    and "distinct (map dk_key ds)"
  shows "\<exists>r'. take_delays cl now k as res ds r = (Inr (None, res @ map dk_key ds), r') \<and>
    entries r' = fold (put_delay now k) ds (entries r)"
  using assms(2,3)
proof (induction ds arbitrary: r res)
  case Nil
  then show ?case by simp
next
  case (Cons d ds)
  from Cons.prems have pos: "0 < dk_reserve_ttl d" and free: "live now (entries r (dk_key d)) = None" by simp_all
  from rset_nx [OF ok pos free] obtain r1
    where r1: "rd_set_nx cl (dk_key d) (RText k) (dk_reserve_ttl d) now r = (Inr True, r1)"
      and e1: "entries r1 = (entries r)(dk_key d := Some (RText k, Some (now + seconds (dk_reserve_ttl d))))"
    by blast
  have "dk_key d \<notin> dk_key ` set ds" using Cons.prems(2) by simp
  then have "list_all (\<lambda>d'. 0 < dk_reserve_ttl d' \<and> live now (entries r1 (dk_key d')) = None) ds"
    using Cons.prems(1) unfolding list_all_iff e1 by (metis fun_upd_other image_eqI list.set_intros(2))
  moreover from Cons.prems have "distinct (map dk_key ds)" by simp
  ultimately show ?case
    using Cons.IH [of r1 "res @ [dk_key d]"] e1 by (simp add: command_bind_def r1 put_delay_def)
qed

lemma take_delays_distinct:
  assumes ok: "redis_ok cl entries"
    and "take_delays cl now k as res ds r = (Inr (None, res'), r')"
  shows "distinct (map dk_key ds)" and "list_all (\<lambda>d. live now (entries r (dk_key d)) = None) ds"
proof -
  have "distinct (map dk_key ds) \<and> list_all (\<lambda>d. live now (entries r (dk_key d)) = None) ds"
    using assms(2)
  proof (induction ds arbitrary: r res)
    case Nil
    then show ?case by simp
  next
    case (Cons d ds)
    show ?case
    proof (cases "0 < dk_reserve_ttl d \<and> live now (entries r (dk_key d)) = None")
      case True
      then obtain r1
        where r1: "rd_set_nx cl (dk_key d) (RText k) (dk_reserve_ttl d) now r = (Inr True, r1)"
          and e1: "entries r1 = (entries r)(dk_key d := Some (RText k, Some (now + seconds (dk_reserve_ttl d))))"
        using rset_nx [OF ok] by blast
      from Cons.prems have "take_delays cl now k as (res @ [dk_key d]) ds r1 = (Inr (None, res'), r')"
        by (simp add: command_bind_def r1)
      from Cons.IH [OF this] have IH: "distinct (map dk_key ds)"
        "list_all (\<lambda>d'. live now (entries r1 (dk_key d')) = None) ds" by simp_all
      have "0 < seconds (dk_reserve_ttl d)" using True by simp
      then have "dk_key d \<notin> dk_key ` set ds"
        using IH(2) by (auto simp: list_all_iff e1)
      moreover from this have "list_all (\<lambda>d'. live now (entries r (dk_key d')) = None) ds"
        using IH(2) unfolding list_all_iff e1 by (metis fun_upd_other image_eqI)
      ultimately show ?thesis using IH(1) True by simp
    next
      case False
      then consider "dk_reserve_ttl d \<le> 0" | "0 < dk_reserve_ttl d" "live now (entries r (dk_key d)) \<noteq> None" by linarith
      then show ?thesis
      proof cases
        case 1
        from rset_nx_bad [OF ok this] obtain e r1
          where "rd_set_nx cl (dk_key d) (RText k) (dk_reserve_ttl d) now r = (Inl e, r1)" by blast
        with Cons.prems show ?thesis by (simp add: command_bind_def)
      next
        case 2
        from rset_nx_taken [OF ok 2] obtain r1
          where "rd_set_nx cl (dk_key d) (RText k) (dk_reserve_ttl d) now r = (Inr False, r1)" by blast
        with Cons.prems show ?thesis
          by (simp add: command_bind_def split: prod.splits sum.splits)
      qed
    qed
  qed
  then show "distinct (map dk_key ds)" "list_all (\<lambda>d. live now (entries r (dk_key d)) = None) ds" by simp_all
qed

text \<open>Giving back: every counter loses what the run took, the delays the run set are deleted.\<close>

definition drop_one :: "time \<Rightarrow> string \<Rightarrow> (string \<Rightarrow> entry option) \<Rightarrow> (string \<Rightarrow> entry option)" where
  "drop_one now k m =
     m(k := Some (RNum (count_of now (m k) - 1), case live now (m k) of Some (_, e) \<Rightarrow> e | None \<Rightarrow> None))"

lemma decrement_effect:
  assumes "redis_ok cl entries" and "numeric now (entries r k)"
  shows "\<exists>r'. rd_incrby cl k (- 1) now r = (Inr (), r') \<and> entries r' = drop_one now k (entries r)"
proof -
  let ?x = "live now (entries r k)"
  have "incremented (- 1) ?x =
      Some (Some (RNum (count_of now (entries r k) - 1), case ?x of Some (_, e) \<Rightarrow> e | None \<Rightarrow> None))"
    using assms(2) by (auto simp: incremented_def numeric_def count_of_def split: option.splits rvalue.splits)
  from rincr [OF assms(1) this] show ?thesis by (simp add: drop_one_def)
qed

lemma count_drop_one:
  assumes "numeric now (m k)"
  shows "count_of now (drop_one now k m k') = count_of now (m k') - (if k' = k then 1 else 0)"
    "numeric now (m k') \<Longrightarrow> numeric now (drop_one now k m k')"
  using assms by (auto simp: drop_one_def count_of_def numeric_def live_def split: option.splits if_splits)

lemma drop_one_other: "k' \<noteq> k \<Longrightarrow> drop_one now k m k' = m k'"
  by (simp add: drop_one_def)

lemma decrements_effect:
  assumes ok: "redis_ok cl entries" and "list_all (\<lambda>a. numeric now (entries r (f a))) as"
  shows "\<exists>r'. command_each (\<lambda>a. rd_incrby cl (f a) (- 1) now) as r = (Inr (), r') \<and>
    (\<forall>k. count_of now (entries r' k) = count_of now (entries r k) - int (count_list (map f as) k)) \<and>
    (\<forall>k. k \<notin> f ` set as \<longrightarrow> entries r' k = entries r k)"
  using assms(2)
proof (induction as arbitrary: r)
  case Nil
  then show ?case by simp
next
  case (Cons a as)
  from Cons.prems have num: "numeric now (entries r (f a))" by simp
  from decrement_effect [OF ok this] obtain r1
    where r1: "rd_incrby cl (f a) (- 1) now r = (Inr (), r1)" and e1: "entries r1 = drop_one now (f a) (entries r)"
    by blast
  have "list_all (\<lambda>b. numeric now (entries r1 (f b))) as"
    using Cons.prems count_drop_one(2) [where m = "entries r" and k = "f a", OF num]
    by (simp add: list_all_iff e1)
  from Cons.IH [OF this] show ?case
    using count_drop_one(1) [where m = "entries r" and k = "f a", OF num]
    by (auto simp: command_bind_def r1 e1 drop_one_other)
qed

lemma deletes_effect:
  assumes ok: "redis_ok cl entries"
  shows "\<exists>r'. command_each (\<lambda>k r. if P k r then rd_del cl k now r else (Inr (), r)) ks r = (Inr (), r') \<and>
    (\<forall>k. k \<notin> set ks \<longrightarrow> entries r' k = entries r k)"
proof (induction ks arbitrary: r)
  case Nil
  then show ?case by simp
next
  case (Cons k ks)
  show ?case
  proof (cases "P k r")
    case True
    from rdel [OF ok] obtain r1 where r1: "rd_del cl k now r = (Inr (), r1)" "entries r1 = (entries r)(k := None)"
      by blast
    then show ?thesis using Cons.IH [of r1] True by (auto simp: command_bind_def)
  next
    case False
    then show ?thesis using Cons.IH [of r] by (auto simp: command_bind_def)
  qed
qed

lemma give_back_effect:
  assumes ok: "redis_ok cl entries" and num: "list_all (\<lambda>a. numeric now (entries r (ca_key a))) as"
    and res: "set res \<inter> ca_key ` set as = {}"
  shows "\<exists>r'. give_back cl now rk as res r = (Inr (), r') \<and>
    (\<forall>k\<in>ca_key ` set as. count_of now (entries r' k) = count_of now (entries r k) - int (count_list (map ca_key as) k))"
proof -
  from decrements_effect [OF ok num] obtain r1
    where r1: "command_each (\<lambda>a. rd_incrby cl (ca_key a) (- 1) now) as r = (Inr (), r1)"
      and c1: "\<forall>k. count_of now (entries r1 k) = count_of now (entries r k) - int (count_list (map ca_key as) k)"
    by blast
  from deletes_effect [OF ok, of "\<lambda>k r. rd_get cl k now r = Some (RText rk)" now res r1] obtain r2
    where r2: "command_each (\<lambda>k r. if rd_get cl k now r = Some (RText rk) then rd_del cl k now r else (Inr (), r)) res r1
        = (Inr (), r2)"
      and e2: "\<forall>k. k \<notin> set res \<longrightarrow> entries r2 k = entries r1 k" by blast
  have "give_back cl now rk as res r = (Inr (), r2)"
    by (simp add: give_back_def command_bind_def r1 r2)
  moreover have "count_of now (entries r2 k) = count_of now (entries r k) - int (count_list (map ca_key as) k)"
    if "k \<in> ca_key ` set as" for k
    using that res c1 e2 by (metis disjoint_iff)
  ultimately show ?thesis by blast
qed

lemma take_delays_refused:
  assumes ok: "redis_ok cl entries"
    and "list_all (\<lambda>d. 0 < dk_reserve_ttl d) ds"
    and "list_all (\<lambda>a. numeric now (entries r (ca_key a))) as"
    and "(set res \<union> dk_key ` set ds) \<inter> ca_key ` set as = {}"
  shows "\<exists>x res' r'. take_delays cl now rk as res ds r = (Inr (x, res'), r') \<and>
    (\<forall>a. x = Some a \<longrightarrow> sa_flag a = 0 \<and>
      (\<forall>k\<in>ca_key ` set as.
         count_of now (entries r' k) = count_of now (entries r k) - int (count_list (map ca_key as) k)))"
  using assms(2-4)
proof (induction ds arbitrary: r res)
  case Nil
  then show ?case by simp
next
  case (Cons d ds)
  from Cons.prems have pos: "0 < dk_reserve_ttl d" by simp
  show ?case
  proof (cases "live now (entries r (dk_key d)) = None")
    case True
    from rset_nx [OF ok pos True] obtain r1
      where r1: "rd_set_nx cl (dk_key d) (RText rk) (dk_reserve_ttl d) now r = (Inr True, r1)"
        and e1: "entries r1 = (entries r)(dk_key d := Some (RText rk, Some (now + seconds (dk_reserve_ttl d))))"
      by blast
    have other: "dk_key d \<notin> ca_key ` set as" using Cons.prems(3) by auto
    then have same: "entries r1 (ca_key a) = entries r (ca_key a)" if "a \<in> set as" for a
      using that unfolding e1 by (metis fun_upd_other image_eqI)
    have "list_all (\<lambda>d. 0 < dk_reserve_ttl d) ds"
      "list_all (\<lambda>a. numeric now (entries r1 (ca_key a))) as"
      "(set (res @ [dk_key d]) \<union> dk_key ` set ds) \<inter> ca_key ` set as = {}"
      using Cons.prems same by (auto simp: list_all_iff)
    from Cons.IH [OF this] same show ?thesis
      by (simp add: command_bind_def r1)
  next
    case False
    from rset_nx_taken [OF ok pos False] obtain r1
      where r1: "rd_set_nx cl (dk_key d) (RText rk) (dk_reserve_ttl d) now r = (Inr False, r1)"
        and e1: "entries r1 = entries r" by blast
    have "list_all (\<lambda>a. numeric now (entries r1 (ca_key a))) as" "set res \<inter> ca_key ` set as = {}"
      using Cons.prems by (auto simp: e1)
    from give_back_effect [OF ok this, of rk] e1 show ?thesis
      by (auto simp: command_bind_def r1)
  qed
qed

lemma lua_counter_get:
  assumes "redis_ok cl entries"
  shows "lua_counter (rd_get cl k now r) =
    (if numeric now (entries r k) then Some (count_of now (entries r k)) else None)"
  by (auto simp: rget [OF assms] lua_counter_def numeric_def count_of_def split: option.splits rvalue.splits)

lemma check_counters_effect:
  assumes ok: "redis_ok cl entries" and "list_all (\<lambda>a. numeric now (entries r (ca_key a))) as"
  shows "\<exists>x. check_counters cl now as r = (Inr x, r) \<and> (\<forall>a. x = Some a \<longrightarrow> sa_flag a = 0) \<and>
    (x = None \<longleftrightarrow> list_all (\<lambda>a. count_of now (entries r (ca_key a)) < ca_max_value a) as)"
  using assms(2)
proof (induction as)
  case Nil
  then show ?case by simp
next
  case (Cons a as)
  then show ?case by (auto simp: lua_counter_get [OF ok] not_le)
qed

lemma check_delays_effect:
  assumes ok: "redis_ok cl entries"
  shows "check_delays cl now ds r = None \<longleftrightarrow> list_all (\<lambda>d. live now (entries r (dk_key d)) = None) ds"
    and "check_delays cl now ds r = Some a \<Longrightarrow> sa_flag a = 0"
  by (induction ds) (auto simp: rget [OF ok] simp del: not_None_eq split: if_splits)

text \<open>
  The whole script. Arguments are well formed when the windows and times to live are positive, the
  counters hold numbers, and counters, delays and the reservation have different keys.
\<close>

definition good_args ::
  "time \<Rightarrow> (string \<Rightarrow> entry option) \<Rightarrow> string \<Rightarrow> int \<Rightarrow> counter_arg list \<Rightarrow> delay_key list \<Rightarrow> bool" where
  "good_args now m rk ttl counters delays \<longleftrightarrow>
     0 < ttl \<and> list_all (\<lambda>a. 0 < ca_window_seconds a) counters \<and>
     list_all (\<lambda>d. 0 < dk_reserve_ttl d) delays \<and>
     list_all (\<lambda>a. numeric now (m (ca_key a))) counters \<and>
     ca_key ` set counters \<inter> dk_key ` set delays = {} \<and>
     rk \<notin> ca_key ` set counters \<and> rk \<notin> dk_key ` set delays"

definition may_reserve ::
  "time \<Rightarrow> (string \<Rightarrow> entry option) \<Rightarrow> string \<Rightarrow> counter_arg list \<Rightarrow> delay_key list \<Rightarrow> bool" where
  "may_reserve now m rk counters delays \<longleftrightarrow>
     live now (m rk) = None \<and>
     list_all (\<lambda>a. count_of now (m (ca_key a)) < ca_max_value a) counters \<and>
     list_all (\<lambda>d. live now (m (dk_key d)) = None) delays \<and>
     distinct (map dk_key delays)"

definition reserved_entries ::
  "time \<Rightarrow> string \<Rightarrow> reservation_payload \<Rightarrow> int \<Rightarrow> counter_arg list \<Rightarrow> delay_key list \<Rightarrow>
   (string \<Rightarrow> entry option) \<Rightarrow> (string \<Rightarrow> entry option)" where
  "reserved_entries now rk payload ttl counters delays m =
     (fold (put_delay now rk) delays (bump_all now counters m))
       (rk := Some (RPayload payload, Some (now + seconds ttl)))"

lemma put_delays_other: "k \<notin> dk_key ` set ds \<Longrightarrow> fold (put_delay now rk) ds m k = m k"
  by (induction ds arbitrary: m) (auto simp: put_delay_def)

lemma script_allowed:
  assumes ok: "redis_ok cl entries" and good: "good_args now (entries r) rk ttl counters delays"
    and may: "may_reserve now (entries r) rk counters delays"
  shows "\<exists>r'. reserve_script cl now rk payload ttl counters delays r =
      (Inr \<lparr>sa_flag = 1, sa_name = [], sa_ttl = 0\<rparr>, r') \<and>
    entries r' = reserved_entries now rk payload ttl counters delays (entries r)"
proof -
  have num: "list_all (\<lambda>a. numeric now (entries r (ca_key a))) counters"
    and take: "list_all (\<lambda>a. 0 < ca_window_seconds a \<and> numeric now (entries r (ca_key a))) counters"
    using good by (auto simp: good_args_def list_all_iff)
  have get: "rd_get cl rk now r = None" using may by (simp add: may_reserve_def rget [OF ok])
  have check: "check_counters cl now counters r = (Inr None, r)" "check_delays cl now delays r = None"
    using check_counters_effect [OF ok num] check_delays_effect(1) [OF ok, of now delays r] may
    by (auto simp: may_reserve_def)
  from take_counters_effect [OF ok take] obtain r1
    where r1: "command_each (take_counter cl now) counters r = (Inr (), r1)"
      and e1: "entries r1 = bump_all now counters (entries r)" by blast
  have delay: "dk_key d \<notin> ca_key ` set counters" if "d \<in> set delays" for d
    using that good by (auto simp: good_args_def)
  have "list_all (\<lambda>d. 0 < dk_reserve_ttl d \<and> live now (entries r1 (dk_key d)) = None) delays"
    using good may delay by (auto simp: good_args_def may_reserve_def list_all_iff e1 bump_all_other)
  from take_delays_effect [OF ok this, of rk counters "[]"] may obtain r2
    where r2: "take_delays cl now rk counters [] delays r1 = (Inr (None, map dk_key delays), r2)"
      and e2: "entries r2 = fold (put_delay now rk) delays (bump_all now counters (entries r))"
    by (auto simp: may_reserve_def e1)
  have "live now (entries r2 rk) = None"
    using good may by (simp add: e2 good_args_def may_reserve_def put_delays_other bump_all_other)
  moreover have "0 < ttl" using good by (simp add: good_args_def)
  ultimately obtain r3
    where r3: "rd_set_nx cl rk (RPayload payload) ttl now r2 = (Inr True, r3)"
      and e3: "entries r3 = (entries r2)(rk := Some (RPayload payload, Some (now + seconds ttl)))"
    using rset_nx [OF ok] by blast
  show ?thesis
    by (simp add: reserve_script_def get check command_bind_def r1 r2 r3 command_return_def e3 e2 reserved_entries_def)
qed

lemma script_denied:
  assumes ok: "redis_ok cl entries" and good: "good_args now (entries r) rk ttl counters delays"
    and may: "\<not> may_reserve now (entries r) rk counters delays"
  shows "\<exists>a r'. reserve_script cl now rk payload ttl counters delays r = (Inr a, r') \<and> sa_flag a = 0 \<and>
    (\<forall>k\<in>ca_key ` set counters. count_of now (entries r' k) = count_of now (entries r k))"
proof -
  have num: "list_all (\<lambda>a. numeric now (entries r (ca_key a))) counters"
    and take: "list_all (\<lambda>a. 0 < ca_window_seconds a \<and> numeric now (entries r (ca_key a))) counters"
    and win: "list_all (\<lambda>a. 0 < ca_window_seconds a) counters"
    and pos: "list_all (\<lambda>d. 0 < dk_reserve_ttl d) delays"
    and apart: "dk_key ` set delays \<inter> ca_key ` set counters = {}"
    using good by (auto simp: good_args_def list_all_iff)
  obtain x where x: "check_counters cl now counters r = (Inr x, r)" "\<And>a. x = Some a \<Longrightarrow> sa_flag a = 0"
    "x = None \<longleftrightarrow> list_all (\<lambda>a. count_of now (entries r (ca_key a)) < ca_max_value a) counters"
    using check_counters_effect [OF ok num] by blast
  note d = check_delays_effect [OF ok, of now delays r]
  consider "live now (entries r rk) \<noteq> None" | a where "live now (entries r rk) = None" "x = Some a"
    | a where "live now (entries r rk) = None" "x = None" "check_delays cl now delays r = Some a"
    | "live now (entries r rk) = None" "x = None" "check_delays cl now delays r = None" "\<not> distinct (map dk_key delays)"
    using may d(1) x(3) unfolding may_reserve_def 
    by (cases "live now (entries r rk) = None"; cases x; cases "check_delays cl now delays r")
      (auto simp del: not_None_eq)
  then show ?thesis
  proof cases
    case 1
    then show ?thesis by (simp add: reserve_script_def rget [OF ok])
  next
    case (2 a)
    then show ?thesis using x by (simp add: reserve_script_def rget [OF ok])
  next
    case (3 a)
    then show ?thesis using x(1) d(2) by (simp add: reserve_script_def rget [OF ok])
  next
    case 4
    from take_counters_effect [OF ok take] obtain r1
      where r1: "command_each (take_counter cl now) counters r = (Inr (), r1)"
        and e1: "entries r1 = bump_all now counters (entries r)" by blast
    have num1: "list_all (\<lambda>a. numeric now (entries r1 (ca_key a))) counters"
      using num numeric_bump_all [OF win] by (simp add: list_all_iff e1)
    have apart1: "(set [] \<union> dk_key ` set delays) \<inter> ca_key ` set counters = {}" using apart by simp
    from take_delays_refused [OF ok pos num1 apart1, where rk = rk] obtain y res r2
      where r2: "take_delays cl now rk counters [] delays r1 = (Inr (y, res), r2)"
        and y: "\<And>a. y = Some a \<Longrightarrow> sa_flag a = 0 \<and> (\<forall>k\<in>ca_key ` set counters.
          count_of now (entries r2 k) = count_of now (entries r1 k) - int (count_list (map ca_key counters) k))"
      by metis
    have "y \<noteq> None" using take_delays_distinct(1) [OF ok, of now rk counters "[]" delays r1 res r2] r2 4(4) by auto
    then obtain a where a: "y = Some a" by blast
    with r2 4 x(1) have "reserve_script cl now rk payload ttl counters delays r = (Inr a, r2)"
      by (simp add: reserve_script_def rget [OF ok] command_bind_def r1 command_return_def)
    then show ?thesis using y [OF a] by (simp add: e1 count_bump_all [OF win])
  qed
qed

text \<open>The answer 1 is never given when two delays share a key, whatever the client does.\<close>

lemma script_needs_distinct_delays:
  assumes ok: "redis_ok cl entries"
    and run: "reserve_script cl now rk payload ttl counters delays r = (Inr a, r')" and flag: "sa_flag a = 1"
  shows "distinct (map dk_key delays)"
proof (rule ccontr)
  assume dup: "\<not> distinct (map dk_key delays)"
  have never: "take_delays cl now rk counters [] delays r1 \<noteq> (Inr (None, res), r2)" for r1 res r2
    using take_delays_distinct(1) [OF ok] dup by blast
  have counters0: "check_counters cl now as r0 = (Inr (Some b), r1) \<Longrightarrow> sa_flag b = 0" for as r0 b r1
    by (induction as) (auto split: option.splits if_splits)
  have delays0: "take_delays cl now rk counters res ds r1 = (Inr (Some b, res'), r2) \<Longrightarrow> sa_flag b = 0" for res ds r1 b res' r2
    by (induction ds arbitrary: res r1)
      (auto simp: command_bind_def split: prod.splits sum.splits if_splits)
  show False
    using run flag never counters0 delays0 check_delays_effect(2) [OF ok]
    unfolding reserve_script_def command_bind_def command_return_def
    by (auto split: if_splits prod.splits sum.splits option.splits)
qed

section \<open>Keys\<close>

definition colon_free :: "string \<Rightarrow> bool" where
  "colon_free s \<longleftrightarrow> CHR '':'' \<notin> set s"

lemma split_counter_key:
  assumes "colon_free ws" "colon_free st" "colon_free sid" "colon_free key"
  shows "split_at (CHR '':'') (build_rate_limit_counter_key ws st sid key n) =
      [''neuro'', ws, ''limit'', st, sid, key, int_text n]"
    and "split_at (CHR '':'') (build_rate_limit_counter_metadata_key ws st sid key n) =
      [''neuro'', ws, ''limit_meta'', st, sid, key, int_text n]"
proof -
  have split: "split_at (CHR '':'') (''neuro:'' @ ws @ CHR '':'' # kind @ CHR '':'' # st @ '':'' @ sid @ '':'' @ key @ '':'' @
      int_text n) = [''neuro'', ws, kind, st, sid, key, int_text n]" if "colon_free kind" for kind
    using assms that int_text_no_colon [of n]
    by (simp add: colon_free_def split_at_append split_at_single)
  show "split_at (CHR '':'') (build_rate_limit_counter_key ws st sid key n) =
      [''neuro'', ws, ''limit'', st, sid, key, int_text n]"
    using split [of "''limit''"] by (simp add: build_rate_limit_counter_key_def colon_free_def)
  show "split_at (CHR '':'') (build_rate_limit_counter_metadata_key ws st sid key n) =
      [''neuro'', ws, ''limit_meta'', st, sid, key, int_text n]"
    using split [of "''limit_meta''"] by (simp add: build_rate_limit_counter_metadata_key_def colon_free_def)
qed

text \<open>The kind of a key is its third segment.\<close>

lemma split_kind:
  assumes "colon_free ws" "colon_free kind"
  shows "split_at (CHR '':'') (''neuro:'' @ ws @ CHR '':'' # kind @ CHR '':'' # rest) =
    ''neuro'' # ws # kind # split_at (CHR '':'') rest"
  using assms by (simp add: colon_free_def split_at_append)

lemma split_keys:
  assumes "colon_free ws"
  shows "sc_workspace_id scope = ws \<Longrightarrow> split_at (CHR '':'') (parallel_key scope l) ! 2 = ''parallel''"
    and "split_at (CHR '':'') (reservation_key ws i) ! 2 = ''reservation''"
    and "split_at (CHR '':'') (build_rate_limit_counter_key ws st sid key n) ! 2 = ''limit''"
    and "split_at (CHR '':'') (build_rate_limit_counter_metadata_key ws st sid key n) ! 2 = ''limit_meta''"
    and "d \<in> set (last_comment_keys ttl scope ls) \<Longrightarrow> sc_workspace_id scope = ws \<Longrightarrow>
      split_at (CHR '':'') (dk_key d) ! 2 = ''last_comment''"
proof -
  show "sc_workspace_id scope = ws \<Longrightarrow> split_at (CHR '':'') (parallel_key scope l) ! 2 = ''parallel''"
    using split_kind [OF assms, of "''parallel''"] by (simp add: parallel_key_def colon_free_def)
  show "split_at (CHR '':'') (reservation_key ws i) ! 2 = ''reservation''"
    using split_kind [OF assms, of "''reservation''"] by (simp add: reservation_key_def colon_free_def)
  show "split_at (CHR '':'') (build_rate_limit_counter_key ws st sid key n) ! 2 = ''limit''"
    using split_kind [OF assms, of "''limit''"] by (simp add: build_rate_limit_counter_key_def colon_free_def)
  show "split_at (CHR '':'') (build_rate_limit_counter_metadata_key ws st sid key n) ! 2 = ''limit_meta''"
    using split_kind [OF assms, of "''limit_meta''"]
    by (simp add: build_rate_limit_counter_metadata_key_def colon_free_def)
  show "d \<in> set (last_comment_keys ttl scope ls) \<Longrightarrow> sc_workspace_id scope = ws \<Longrightarrow>
      split_at (CHR '':'') (dk_key d) ! 2 = ''last_comment''"
    using split_kind [OF assms, of "''last_comment''"] by (auto simp: last_comment_keys_def colon_free_def)
qed

lemma reservation_key_id:
  assumes "colon_free i" "colon_free j" and "u @ '':reservation:'' @ i = v @ '':reservation:'' @ j"
  shows "i = j"
proof -
  define mid where "mid = '':reservation:''"
  have mid: "rev mid = CHR '':'' # rev '':reservation''" by (simp add: mid_def)
  have tail: "takeWhile (\<lambda>c. c \<noteq> CHR '':'') (rev (u @ mid @ i)) = rev i" if "colon_free i" for u i
    using that by (auto simp: colon_free_def mid takeWhile_append)
  have "rev i = rev j"
    using tail [OF assms(1), of u] tail [OF assms(2), of v] assms(3) unfolding mid_def [symmetric] by simp
  then show ?thesis by simp
qed

section \<open>What a run of the script can do\<close>

lemma check_counters_state: "check_counters cl now as r = (x, r') \<Longrightarrow> r' = r"
  by (induction as) (auto split: option.splits if_splits)

lemma check_counters_none:
  assumes ok: "redis_ok cl entries" and "check_counters cl now as r = (Inr None, r')"
  shows "list_all (\<lambda>a. numeric now (entries r (ca_key a)) \<and> count_of now (entries r (ca_key a)) < ca_max_value a) as"
  using assms(2)
proof (induction as)
  case Nil
  then show ?case by simp
next
  case (Cons a as)
  then show ?case by (simp add: lua_counter_get [OF ok] split: if_splits)
qed

lemma check_counters_flag: "check_counters cl now as r = (Inr (Some a), r') \<Longrightarrow> sa_flag a = 0"
  by (induction as) (auto split: option.splits if_splits)

lemma script_outcome:
  assumes ok: "redis_ok cl entries"
    and args: "0 < ttl" "list_all (\<lambda>a. 0 < ca_window_seconds a) counters" "list_all (\<lambda>d. 0 < dk_reserve_ttl d) delays"
      "ca_key ` set counters \<inter> dk_key ` set delays = {}" "rk \<notin> ca_key ` set counters" "rk \<notin> dk_key ` set delays"
      "distinct (map dk_key delays)"
    and run: "reserve_script cl now rk payload ttl counters delays r = (x, r')"
  shows "entries r' = entries r \<and> (\<forall>a. x = Inr a \<longrightarrow> sa_flag a = 0) \<or>
    may_reserve now (entries r) rk counters delays \<and>
    entries r' = reserved_entries now rk payload ttl counters delays (entries r)"
proof (cases "live now (entries r rk) = None")
  case False
  then show ?thesis using run by (auto simp: reserve_script_def rget [OF ok])
next
  case free: True
  then have get: "rd_get cl rk now r = None" by (simp add: rget [OF ok])
  obtain y r1 where y: "check_counters cl now counters r = (y, r1)" by (cases "check_counters cl now counters r")
  then have r1: "r1 = r" by (rule check_counters_state)
  show ?thesis
  proof (cases "y = Inr None")
    case False
    then show ?thesis
      using run y get check_counters_flag [of cl now counters r]
      by (auto simp: reserve_script_def r1 split: sum.splits option.splits)
  next
    case True
    with y have "list_all (\<lambda>a. numeric now (entries r (ca_key a)) \<and> count_of now (entries r (ca_key a)) < ca_max_value a) counters"
      using check_counters_none [OF ok] by blast
    then have nums: "list_all (\<lambda>a. numeric now (entries r (ca_key a))) counters"
      and less: "list_all (\<lambda>a. count_of now (entries r (ca_key a)) < ca_max_value a) counters"
      by (simp_all add: list_all_iff)
    show ?thesis
    proof (cases "check_delays cl now delays r")
      case None
      then have may: "may_reserve now (entries r) rk counters delays"
        using free less args(7) check_delays_effect(1) [OF ok] by (simp add: may_reserve_def)
      have "good_args now (entries r) rk ttl counters delays"
        using args nums by (simp add: good_args_def)
      from script_allowed [OF ok this may, of payload] run may show ?thesis by auto
    next
      case (Some a)
      then show ?thesis
        using run y get True check_delays_effect(2) [OF ok Some] by (auto simp: reserve_script_def r1)
    qed
  qed
qed

section \<open>A Redis that obeys the laws\<close>

text \<open>The stored entries as an association list; its client has no faults.\<close>

definition store_ttl :: "entry option \<Rightarrow> time \<Rightarrow> int" where
  "store_ttl x now =
     (case live now x of None \<Rightarrow> - 2 | Some (_, None) \<Rightarrow> - 1 | Some (_, Some e) \<Rightarrow> (e - now) div 1000000)"

definition store_put :: "string \<Rightarrow> rvalue \<Rightarrow> int \<Rightarrow> time \<Rightarrow> (string \<times> entry) list \<Rightarrow> (string \<times> entry) list" where
  "store_put k v ex now r = AList.update k (v, Some (now + seconds ex)) r"

definition store_redis :: "(string \<times> entry) list redis" where
  "store_redis =
     \<lparr>rd_get = (\<lambda>k now r. map_option fst (live now (map_of r k))),
      rd_ttl = (\<lambda>k now r. store_ttl (map_of r k) now),
      rd_keys = (\<lambda>p s now r. filter
        (\<lambda>k. live now (map_of r k) \<noteq> None \<and> starts_with p k \<and> ends_with s (drop (length p) k))
        (remdups (map fst r))),
      rd_incrby = (\<lambda>k n now r.
        case incremented n (live now (map_of r k)) of
          Some (Some x) \<Rightarrow> (Inr (), AList.update k x r)
        | _ \<Rightarrow> (Inl (ResponseError False), r)),
      rd_expire = (\<lambda>k s now r.
        case live now (map_of r k) of
          None \<Rightarrow> (Inr (), r)
        | Some (v, _) \<Rightarrow> (Inr (), store_put k v s now r)),
      rd_set = (\<lambda>k v ex now r.
        if 0 < ex then (Inr (), store_put k v ex now r) else (Inl (ResponseError False), r)),
      rd_set_nx = (\<lambda>k v ex now r.
        if ex \<le> 0 then (Inl (ResponseError False), r)
        else if live now (map_of r k) = None then (Inr True, store_put k v ex now r)
        else (Inr False, r)),
      rd_del = (\<lambda>k now r. (Inr (), filter (\<lambda>(k', _). k' \<noteq> k) r)),
      rd_fault = (\<lambda>r. (None, r))\<rparr>"

lemma store_put_map: "map_of (store_put k v ex now r) = (map_of r)(k := Some (v, Some (now + seconds ex)))"
  by (simp add: store_put_def update_conv')

lemma map_of_without: "map_of (filter (\<lambda>(k', _). k' \<noteq> k) r) = (map_of r)(k := None)"
proof (rule ext)
  show "map_of (filter (\<lambda>(k', _). k' \<noteq> k) r) x = ((map_of r)(k := None)) x" for x
    by (induction r) auto
qed

lemma ends_with_iff: "ends_with s t \<longleftrightarrow> (\<exists>u. t = u @ s)"
  unfolding ends_with_def starts_with_iff by (metis rev_append rev_rev_ident)

lemma glob_iff: "glob p s k \<longleftrightarrow> starts_with p k \<and> ends_with s (drop (length p) k)"
  by (auto simp: glob_def starts_with_iff ends_with_iff)

lemma store_redis_ok: "redis_ok store_redis map_of"
  unfolding redis_ok_def
proof (intro conjI)
  show "reads_ok store_redis map_of"
  proof -
    have "rd_ttl store_redis k now r < 0 \<longleftrightarrow> (\<forall>v e. live now (map_of r k) \<noteq> Some (v, Some e))" for k now r
      by (auto simp: store_redis_def store_ttl_def live_def div_neg_pos_less0 pos_imp_zdiv_neg_iff split: option.splits)
    moreover have "set (rd_keys store_redis p s now r) = {k. live now (map_of r k) \<noteq> None \<and> glob p s k}" for p s now r
    proof -
      have "k \<in> fst ` set r" if "live now (map_of r k) \<noteq> None" for k
        using that by (metis live_forever(2) map_of_eq_None_iff)
      then show ?thesis by (auto simp: store_redis_def glob_iff simp del: not_None_eq)
    qed
    ultimately show ?thesis by (simp add: reads_ok_def) (simp add: store_redis_def)
  qed
  show "incrby_ok store_redis map_of"
    by (auto simp: incrby_ok_def store_redis_def incremented_def update_conv' split: option.splits rvalue.splits)
  show "expire_ok store_redis map_of"
    by (auto simp: expire_ok_def store_redis_def store_put_map split: option.splits)
  show "set_ok store_redis map_of" by (auto simp: set_ok_def store_redis_def store_put_map)
  show "set_nx_ok store_redis map_of" by (auto simp: set_nx_ok_def store_redis_def store_put_map)
  show "\<forall>k now r. \<exists>r'. rd_del store_redis k now r = (Inr (), r') \<and> map_of r' = (map_of r)(k := None)"
    by (simp add: store_redis_def map_of_without)
  show "\<forall>r. map_of (snd (rd_fault store_redis r)) = map_of r" by (simp add: store_redis_def)
qed

end
