(* ===== verification/WindowLimit.thy ===== *)
theory WindowLimit
  imports RateLimits
begin

text \<open>
  The bound a window limit enforces: whatever reservations, commits and rollbacks run during one
  window of a limit, and whatever calls of the client fail, the reservations granted under the limit
  and not rolled back never outnumber its maximum.
\<close>

section \<open>Runs\<close>

datatype limiter_event =
    LReserve string time rate_limit_scope
  | LCommit time rate_limit_reservation
  | LRollback time rate_limit_reservation

fun event_time :: "limiter_event \<Rightarrow> time" where
  "event_time (LReserve i now scope) = now"
| "event_time (LCommit now v) = now"
| "event_time (LRollback now v) = now"

text \<open>The id of a granted reservation.\<close>

definition granted_id :: "rate_limit_reservation result \<Rightarrow> string option" where
  "granted_id x = (case x of Inr v \<Rightarrow> if rr_allowed v then rr_reservation_id v else None | Inl _ \<Rightarrow> None)"

text \<open>A run: the ids granted, each with its scope, the ids rolled back, and the server.\<close>

fun run_limiter ::
  "'r redis \<Rightarrow> rate_limiter \<Rightarrow> limiter_event list \<Rightarrow> 'r \<Rightarrow> (string \<times> rate_limit_scope) list \<times> string list \<times> 'r" where
  "run_limiter cl rl [] r = ([], [], r)"
| "run_limiter cl rl (LReserve i now scope # es) r =
     (let (x, r1) = limiter_reserve cl rl i now scope r; (gs, bs, r2) = run_limiter cl rl es r1
      in (case granted_id x of None \<Rightarrow> gs | Some j \<Rightarrow> (j, scope) # gs, bs, r2))"
| "run_limiter cl rl (LCommit now v # es) r = run_limiter cl rl es (limiter_commit cl rl now v r)"
| "run_limiter cl rl (LRollback now v # es) r =
     (let (gs, bs, r1) = run_limiter cl rl es (limiter_rollback cl now v r)
      in (gs, (case rr_reservation_id v of None \<Rightarrow> bs | Some i \<Rightarrow> i # bs), r1))"

section \<open>Orderly limits\<close>

definition ident :: "matched_limit \<Rightarrow> string \<times> string \<times> string" where
  "ident l = (ml_scope_type l, ml_scope_id l, ml_limit_type l)"

text \<open>
  Limits as the API accepts them: positive windows, texts without a colon, no two limits of one
  kind on one scope; and the limit \<open>lid\<close> has window \<open>W\<close> and maximum \<open>M\<close> wherever it matches.
\<close>

definition orderly :: "rate_limiter \<Rightarrow> rate_limit_scope \<Rightarrow> string \<times> string \<times> string \<Rightarrow> int \<Rightarrow> int \<Rightarrow> bool" where
  "orderly rl scope lid W M \<longleftrightarrow>
     (case matching_limits rl scope of
        Inl _ \<Rightarrow> False
      | Inr ls \<Rightarrow>
          distinct (map ident ls) \<and>
          list_all (\<lambda>l. 0 < ml_window_seconds l \<and> colon_free (ml_scope_type l) \<and> colon_free (ml_scope_id l) \<and>
            colon_free (ml_limit_type l)) ls \<and>
          list_all (\<lambda>l. ident l = lid \<longrightarrow> ml_window_seconds l = W \<and> ml_max_value l = M) ls)"

definition matches :: "rate_limiter \<Rightarrow> string \<times> string \<times> string \<Rightarrow> rate_limit_scope \<Rightarrow> bool" where
  "matches rl lid scope \<longleftrightarrow>
     (case matching_limits rl scope of Inl _ \<Rightarrow> False | Inr ls \<Rightarrow> lid \<in> ident ` set ls)"

definition orderly_event ::
  "rate_limiter \<Rightarrow> string \<Rightarrow> string \<times> string \<times> string \<Rightarrow> int \<Rightarrow> int \<Rightarrow> int \<Rightarrow> limiter_event \<Rightarrow> bool" where
  "orderly_event rl ws lid W M n e \<longleftrightarrow>
     event_time e div seconds W = n \<and>
     (case e of
        LReserve i now scope \<Rightarrow> colon_free i \<and> sc_workspace_id scope = ws \<and> orderly rl scope lid W M
      | LCommit now v \<Rightarrow> True
      | LRollback now v \<Rightarrow> list_all colon_free (case rr_reservation_id v of None \<Rightarrow> [] | Some i \<Rightarrow> [i]))"

fun event_ids :: "limiter_event list \<Rightarrow> string list" where
  "event_ids [] = []"
| "event_ids (LReserve i now scope # es) = i # event_ids es"
| "event_ids (_ # es) = event_ids es"

section \<open>What keeps a property of the entries\<close>

definition active :: "entry option \<Rightarrow> bool" where
  "active x \<longleftrightarrow> (\<exists>p e. x = Some (RPayload p, e) \<and> rp_status p = ''active'')"

definition keeps :: "('r \<Rightarrow> string \<Rightarrow> entry option) \<Rightarrow> ((string \<Rightarrow> entry option) \<Rightarrow> bool) \<Rightarrow> ('r, 'a) command \<Rightarrow> bool" where
  "keeps entries P c \<longleftrightarrow> (\<forall>r. P (entries r) \<longrightarrow> P (entries (snd (c r))))"

text \<open>A property that survives writes to other keys than \<open>K\<close> of values that are no active payload.\<close>

definition stable :: "string \<Rightarrow> ((string \<Rightarrow> entry option) \<Rightarrow> bool) \<Rightarrow> bool" where
  "stable K P \<longleftrightarrow> (\<forall>m k x. P m \<and> k \<noteq> K \<and> \<not> active x \<longrightarrow> P (m(k := x)))"

lemma active_simps [simp]:
  "\<not> active None" "\<not> active (Some (RNum n, e))" "\<not> active (Some (RText t, e))"
  "active (Some (RPayload p, e)) \<longleftrightarrow> rp_status p = ''active''"
  by (auto simp: active_def)

lemma keepsD: "keeps entries P c \<Longrightarrow> P (entries r) \<Longrightarrow> c r = (x, r') \<Longrightarrow> P (entries r')"
  unfolding keeps_def by (metis snd_conv)

lemma keeps_call:
  assumes ok: "redis_ok cl entries" and c: "keeps entries P c"
  shows "keeps entries P (client_call cl c)"
  unfolding keeps_def
proof (intro allI impI)
  fix r assume "P (entries r)"
  then have "P (entries (snd (rd_fault cl r)))" by (simp add: rfault [OF ok])
  with c show "P (entries (snd (client_call cl c r)))"
    by (auto simp: client_call_def keeps_def split: prod.splits option.splits)
qed

lemma keeps_bind: "keeps entries P c \<Longrightarrow> (\<And>x. keeps entries P (f x)) \<Longrightarrow> keeps entries P (command_bind c f)"
  unfolding keeps_def command_bind_def by (auto split: prod.splits sum.splits)

lemma keeps_each: "(\<And>x. x \<in> set xs \<Longrightarrow> keeps entries P (c x)) \<Longrightarrow> keeps entries P (command_each c xs)"
proof (induction xs)
  case Nil
  then show ?case by (simp add: keeps_def)
next
  case (Cons x xs)
  have "keeps entries P (command_bind (c x) (\<lambda>_. command_each c xs))"
    by (rule keeps_bind) (use Cons in auto)
  then show ?case by (simp add: keeps_def)
qed

lemma pipeline_state_Cons: "snd (pipeline_execute (c # cs) r) = snd (pipeline_execute cs (snd (c r)))"
  by (simp add: Let_def split: prod.splits)

lemma pipeline_state: "snd (pipeline_execute (cs @ ds) r) = snd (pipeline_execute ds (snd (pipeline_execute cs r)))"
proof (induction cs arbitrary: r)
  case Nil
  then show ?case by simp
next
  case (Cons c cs)
  then show ?case by (simp add: pipeline_state_Cons del: pipeline_execute.simps)
qed

lemma keeps_pipeline: "(\<And>c. c \<in> set cs \<Longrightarrow> keeps entries P c) \<Longrightarrow> keeps entries P (pipeline_execute cs)"
proof (induction cs)
  case Nil
  then show ?case by (simp add: keeps_def)
next
  case (Cons c cs)
  then show ?case by (simp add: keeps_def pipeline_state_Cons del: pipeline_execute.simps)
qed

text \<open>The primitive commands.\<close>

lemma stableD: "stable K P \<Longrightarrow> P m \<Longrightarrow> k \<noteq> K \<Longrightarrow> \<not> active x \<Longrightarrow> P (m(k := x))"
  by (simp add: stable_def)

lemma keeps_set:
  assumes ok: "redis_ok cl entries" and "stable K P" "k \<noteq> K" "\<And>e. \<not> active (Some (v, e))"
  shows "keeps entries P (rd_set cl k v ex now)"
  unfolding keeps_def
proof (intro allI impI)
  fix r assume P: "P (entries r)"
  show "P (entries (snd (rd_set cl k v ex now r)))"
  proof (cases "0 < ex")
    case True
    then obtain r' where "rd_set cl k v ex now r = (Inr (), r')"
      and "entries r' = (entries r)(k := Some (v, Some (now + seconds ex)))" using rset [OF ok] by blast
    then show ?thesis using stableD [OF assms(2) P assms(3,4)] by (metis snd_conv)
  next
    case False
    with rset_bad [OF ok, of ex k v now r] P show ?thesis by auto
  qed
qed

lemma keeps_del:
  assumes ok: "redis_ok cl entries" and "stable K P" "k \<noteq> K"
  shows "keeps entries P (rd_del cl k now)"
  unfolding keeps_def
proof (intro allI impI)
  fix r assume P: "P (entries r)"
  obtain r' where "rd_del cl k now r = (Inr (), r')" and "entries r' = (entries r)(k := None)"
    using rdel [OF ok] by blast
  then show "P (entries (snd (rd_del cl k now r)))"
    using stableD [OF assms(2) P assms(3) active_simps(1)] by (metis snd_conv)
qed

lemma keeps_incr:
  assumes ok: "redis_ok cl entries" and "stable K P" "k \<noteq> K"
  shows "keeps entries P (rd_incrby cl k n now)"
  unfolding keeps_def
proof (intro allI impI)
  fix r assume P: "P (entries r)"
  show "P (entries (snd (rd_incrby cl k n now r)))"
  proof (cases "incremented n (live now (entries r k))")
    case None
    from rincr_bad [OF ok None] P show ?thesis by auto
  next
    case (Some x)
    then have "\<not> active x" by (auto simp: incremented_def split: option.splits rvalue.splits)
    moreover obtain r' where "rd_incrby cl k n now r = (Inr (), r')" and "entries r' = (entries r)(k := x)"
      using rincr [OF ok Some] by blast
    ultimately show ?thesis using stableD [OF assms(2) P assms(3)] by (metis snd_conv)
  qed
qed

text \<open>Reading through the client changes no entry and answers what is there.\<close>

lemma read_call:
  assumes ok: "redis_ok cl entries" and "client_call cl (\<lambda>r0. (Inr (f r0), r0)) r = (x, r1)"
  shows "entries r1 = entries r" and "x = Inr v \<Longrightarrow> v = f r1"
proof -
  obtain q r0 where q: "rd_fault cl r = (q, r0)" by (cases "rd_fault cl r")
  then have "entries r0 = entries r" using rfault [OF ok, of r] by simp
  then show "entries r1 = entries r" "x = Inr v \<Longrightarrow> v = f r1"
    using assms(2) q by (auto simp: client_call_def split: option.splits)
qed

lemma over_reservations_keeps:
  assumes ok: "redis_ok cl entries"
    and step: "\<And>key p e r. key \<in> set keys \<Longrightarrow> P (entries r) \<Longrightarrow> entries r key = Some (RPayload p, e) \<Longrightarrow>
      rp_status p = ''active'' \<Longrightarrow> P (entries (snd (f key p r)))"
  shows "keeps entries P (over_reservations cl now f keys)"
  using step
proof (induction keys)
  case Nil
  then show ?case by (simp add: keeps_def)
next
  case (Cons key keys)
  have IH: "keeps entries P (over_reservations cl now f keys)" using Cons by auto
  show ?case
    unfolding keeps_def
  proof (intro allI impI)
    fix r assume P: "P (entries r)"
    obtain x r1 where x: "client_call cl (\<lambda>r0. (Inr (rd_get cl key now r0), r0)) r = (x, r1)" by fastforce
    note same = read_call(1) [OF ok x]
    show "P (entries (snd (over_reservations cl now f (key # keys) r)))"
    proof (cases "\<exists>v p. x = Inr v \<and> active_payload v = Some p")
      case False
      then show ?thesis using P same x
        by (auto simp: command_bind_def command_return_def split: sum.splits option.splits)
    next
      case True
      then obtain v p where v: "x = Inr v" "active_payload v = Some p" by blast
      then have "v = rd_get cl key now r1" using read_call(2) [OF ok x] by blast
      with v(2) obtain e where e: "entries r1 key = Some (RPayload p, e)" "rp_status p = ''active''"
        using live_cases [of now "entries r1 key"]
        by (auto simp: rget [OF ok] active_payload_def split: option.splits rvalue.splits if_splits) metis
      have P1: "P (entries (snd (f key p r1)))"
        using Cons.prems [of key r1 p e] P same e by simp
      obtain y r2 where y: "f key p r1 = (y, r2)" by fastforce
      have "P (entries (snd (over_reservations cl now f keys r2)))"
        using IH P1 y by (simp add: keeps_def)
      then show ?thesis using P1 v x y
        by (auto simp: command_bind_def split: sum.splits)
    qed
  qed
qed

section \<open>The invariant\<close>

text \<open>
  The payloads of running reservations spare \<open>K\<close> except for giving it back once; \<open>outstanding\<close> are
  the reservation keys that still hold a unit of \<open>K\<close>: those granted and not rolled back, and those
  whose payload would give \<open>K\<close> back.
\<close>

definition good_payload :: "string \<Rightarrow> reservation_payload \<Rightarrow> bool" where
  "good_payload K p \<longleftrightarrow>
     K \<notin> set (rp_commit_release_keys p) \<and> K \<notin> dk_key ` set (rp_last_comment_keys p) \<and>
     count_list (rp_rollback_counter_keys p) K \<le> 1"

definition holders_of :: "string \<Rightarrow> (string \<Rightarrow> entry option) \<Rightarrow> string set" where
  "holders_of K m = {k. \<exists>p e. m k = Some (RPayload p, e) \<and> rp_status p = ''active'' \<and>
     K \<in> set (rp_rollback_counter_keys p)}"

definition outstanding :: "string \<Rightarrow> string \<Rightarrow> string set \<Rightarrow> string set \<Rightarrow> (string \<Rightarrow> entry option) \<Rightarrow> string set" where
  "outstanding ws K A B m = reservation_key ws ` (A - B) \<union> holders_of K m"

definition stored_count :: "entry option \<Rightarrow> int" where
  "stored_count x = (case x of Some (RNum n, _) \<Rightarrow> n | _ \<Rightarrow> 0)"

definition counter_shape :: "time \<Rightarrow> entry option \<Rightarrow> bool" where
  "counter_shape t1 x \<longleftrightarrow> x = None \<or> (\<exists>n e. x = Some (RNum n, Some e) \<and> t1 \<le> e)"

text \<open>\<open>window_inv\<close> leaves the keys \<open>S\<close> out of the count, and a slack of \<open>d\<close>.\<close>

definition window_inv ::
  "string set \<Rightarrow> int \<Rightarrow> string \<Rightarrow> string \<Rightarrow> int \<Rightarrow> time \<Rightarrow> string set \<Rightarrow> string set \<Rightarrow> string set \<Rightarrow>
   (string \<Rightarrow> entry option) \<Rightarrow> bool" where
  "window_inv S d ws K M t1 A B U m \<longleftrightarrow>
     finite U \<and> A \<subseteq> U \<and> counter_shape t1 (m K) \<and>
     (\<forall>k p e. m k = Some (RPayload p, e) \<longrightarrow> rp_status p = ''active'' \<longrightarrow>
        (K \<in> set (rp_rollback_counter_keys p) \<longrightarrow> k \<in> reservation_key ws ` U) \<and> good_payload K p) \<and>
     int (card (outstanding ws K A B m - S)) + d \<le> stored_count (m K) \<and> stored_count (m K) \<le> max 0 M"

lemma holders_other: "k \<noteq> K \<Longrightarrow> \<not> active x \<Longrightarrow> holders_of K (m(k := x)) \<subseteq> holders_of K m"
  by (auto simp: holders_of_def split: if_splits)

lemma finite_outstanding:
  assumes "window_inv S d ws K M t1 A B U m"
  shows "finite (outstanding ws K A B m)"
proof (rule finite_subset)
  show "outstanding ws K A B m \<subseteq> reservation_key ws ` U"
    using assms by (auto simp: window_inv_def outstanding_def holders_of_def)
  show "finite (reservation_key ws ` U)" using assms by (simp add: window_inv_def)
qed

lemma window_inv_shrink:
  assumes inv: "window_inv S d ws K M t1 A B U m" and "m' K = m K"
    and "\<And>k. active (m' k) \<Longrightarrow> m' k = m k" and "A' \<subseteq> U'" "A' - B' \<subseteq> A - B" "U \<subseteq> U'" "finite U'"
  shows "window_inv S d ws K M t1 A' B' U' m'"
proof -
  have act: "m k = Some (RPayload p, e)" if "m' k = Some (RPayload p, e)" "rp_status p = ''active''" for k p e
    using that assms(3) [of k] by simp
  then have "holders_of K m' \<subseteq> holders_of K m" by (auto simp: holders_of_def)
  then have "outstanding ws K A' B' m' \<subseteq> outstanding ws K A B m"
    using assms(5) by (auto simp: outstanding_def)
  then have "outstanding ws K A' B' m' - S \<subseteq> outstanding ws K A B m - S" by blast
  then have "card (outstanding ws K A' B' m' - S) \<le> card (outstanding ws K A B m - S)"
    by (rule card_mono [rotated]) (simp add: finite_outstanding [OF inv])
  then have card: "int (card (outstanding ws K A' B' m' - S)) \<le> int (card (outstanding ws K A B m - S))" by simp
  have payloads: "(K \<in> set (rp_rollback_counter_keys p) \<longrightarrow> k \<in> reservation_key ws ` U') \<and> good_payload K p"
    if "m' k = Some (RPayload p, e)" "rp_status p = ''active''" for k p e
    using act [OF that] that(2) inv assms(6) unfolding window_inv_def by blast
  show ?thesis
    using inv card assms(2,4,7) payloads unfolding window_inv_def by auto
qed

lemma window_inv_stable: "stable K (window_inv S d ws K M t1 A B U)"
  unfolding stable_def
proof (intro allI impI)
  fix m k x assume *: "window_inv S d ws K M t1 A B U m \<and> k \<noteq> K \<and> \<not> active x"
  then have U: "A \<subseteq> U" "finite U" by (simp_all add: window_inv_def)
  show "window_inv S d ws K M t1 A B U (m(k := x))"
  proof (rule window_inv_shrink [OF conjunct1 [OF *]])
    show "(m(k := x)) k' = m k'" if "active ((m(k := x)) k')" for k'
      using that * by (cases "k' = k") simp_all
  qed (use * U in auto)
qed

lemma inv_payload:
  assumes "window_inv S d ws K M t1 A B U m" "m k = Some (RPayload p, e)" "rp_status p = ''active''"
  shows "good_payload K p" "k \<noteq> K"
  using assms by (auto simp: window_inv_def counter_shape_def)

section \<open>Commit and rollback\<close>

lemma commit_payload_keeps:
  assumes ok: "redis_ok cl entries" and st: "stable K P" and key: "key \<noteq> K" and p: "good_payload K p"
  shows "keeps entries P (commit_payload cl rl now key p)"
proof -
  have 1: "keeps entries P (client_call cl (rd_set cl key (RPayload (p\<lparr>rp_status := ''committed''\<rparr>)) ex now))" for ex
    by (intro keeps_call [OF ok] keeps_set [OF ok st key]) simp
  have 2: "keeps entries P (client_call cl (pipeline_execute
      (map (\<lambda>k. rd_incrby cl k (- 1) now) (rp_commit_release_keys p))))"
    using p by (intro keeps_call [OF ok] keeps_pipeline) (auto simp: good_payload_def intro!: keeps_incr [OF ok st])
  have 3: "keeps entries P (command_each (\<lambda>d. client_call cl (rd_set cl (dk_key d) (RText ''1'') (max 1 (dk_ttl d)) now))
      (rp_last_comment_keys p))"
    using p by (intro keeps_each keeps_call [OF ok] keeps_set [OF ok st]) (auto simp: good_payload_def)
  have 4: "keeps entries P (client_call cl (rd_del cl key now))"
    by (intro keeps_call [OF ok] keeps_del [OF ok st key])
  have 5: "keeps entries P (command_return ())" by (simp add: keeps_def command_return_def)
  show ?thesis
    unfolding commit_payload_def
    by (intro keeps_bind 1 3 4) (use 2 5 in \<open>simp split: if_splits\<close>)
qed

lemma find_keys_call:
  assumes ok: "redis_ok cl entries" and "find_reservation_keys cl i now r = (x, r1)"
  shows "entries r1 = entries r"
    and "x = Inr ks \<Longrightarrow> k \<in> set ks \<Longrightarrow> \<exists>u. k = u @ '':reservation:'' @ i"
proof -
  note call = assms(2) [unfolded find_reservation_keys_def]
  show "entries r1 = entries r" by (rule read_call(1) [OF ok call])
  show "\<exists>u. k = u @ '':reservation:'' @ i" if "x = Inr ks" "k \<in> set ks"
  proof -
    have "ks = rd_keys cl ''neuro:'' ('':reservation:'' @ i) now r1"
      by (rule read_call(2) [OF ok call that(1)])
    then have "glob ''neuro:'' ('':reservation:'' @ i) k" using that rkeys [OF ok] by auto
    then obtain u where "k = ''neuro:'' @ u @ '':reservation:'' @ i" by (auto simp: glob_def)
    then have "k = (''neuro:'' @ u) @ '':reservation:'' @ i" by simp
    then show ?thesis by blast
  qed
qed

lemma commit_keeps:
  assumes ok: "redis_ok cl entries" and inv: "window_inv S d ws K M t1 A B U (entries r)"
  shows "window_inv S d ws K M t1 A B U (entries (limiter_commit cl rl now v r))"
proof (cases "rr_allowed v \<and> rr_reservation_id v \<noteq> None")
  case False
  then show ?thesis using inv by (auto simp: limiter_commit_def split: option.splits bool.splits)
next
  case True
  then obtain i where i: "rr_allowed v" "rr_reservation_id v = Some i" by blast
  obtain x r1 where x: "find_reservation_keys cl i now r = (x, r1)" by fastforce
  have inv1: "window_inv S d ws K M t1 A B U (entries r1)" using inv find_keys_call(1) [OF ok x] by simp
  have "keeps entries (window_inv S d ws K M t1 A B U) (over_reservations cl now (commit_payload cl rl now) ks)" for ks
    using commit_payload_keeps [OF ok window_inv_stable] inv_payload
    by (intro over_reservations_keeps [OF ok]) (auto simp: keeps_def)
  then show ?thesis
    using inv1 x i by (auto simp: limiter_commit_def command_bind_def keeps_def split: sum.splits)
qed

text \<open>The key of a reservation determines its id.\<close>

lemma reservation_key_split: "reservation_key ws i = (''neuro:'' @ ws) @ '':reservation:'' @ i"
  by (simp add: reservation_key_def)

lemma reservation_key_ids:
  assumes "colon_free i" "colon_free j" "reservation_key ws j = u @ '':reservation:'' @ i"
  shows "j = i"
  using reservation_key_id [OF assms(2,1)] assms(3) unfolding reservation_key_split by blast

lemma decrement_here:
  assumes ok: "redis_ok cl entries" and inv: "window_inv {key} 1 ws K M t1 A B U (entries r)" and now: "now < t1"
  shows "window_inv {key} 0 ws K M t1 A B U (entries (snd (rd_incrby cl K (- 1) now r)))"
proof -
  have "1 \<le> stored_count (entries r K)" using inv by (simp add: window_inv_def)
  then obtain n e where K: "entries r K = Some (RNum n, Some e)" "t1 \<le> e"
    using inv by (auto simp: window_inv_def counter_shape_def stored_count_def)
  then have "incremented (- 1) (live now (entries r K)) = Some (Some (RNum (n - 1), Some e))"
    using now by (simp add: incremented_def)
  from rincr [OF ok this] obtain r'
    where r': "rd_incrby cl K (- 1) now r = (Inr (), r')" "entries r' = (entries r)(K := Some (RNum (n - 1), Some e))"
    by blast
  have "holders_of K (entries r') = holders_of K (entries r)"
    using K(1) by (auto simp: holders_of_def r'(2))
  then have "outstanding ws K A B (entries r') = outstanding ws K A B (entries r)"
    by (simp add: outstanding_def)
  then show ?thesis
    using inv K by (auto simp: window_inv_def r' counter_shape_def stored_count_def)
qed

lemma rollback_payload_inv:
  assumes ok: "redis_ok cl entries" and inv: "window_inv {} 0 ws K M t1 A B U (entries r)" and now: "now < t1"
    and i: "i \<in> B" "colon_free i" "\<forall>j\<in>U. colon_free j" "key = u @ '':reservation:'' @ i"
    and p: "entries r key = Some (RPayload p, e)" "rp_status p = ''active''"
  shows "window_inv {} 0 ws K M t1 A B U (entries (snd (rollback_payload cl now key p r)))"
proof -
  note P = inv_payload [OF inv p]
  let ?dels = "map (\<lambda>d. rd_del cl (dk_key d) now) (rp_last_comment_keys p)"
  let ?decr = "map (\<lambda>k. rd_incrby cl k (- 1) now)"
  let ?pipe = "?decr (rp_rollback_counter_keys p) @ ?dels @ [rd_del cl key now]"
  have dels: "keeps entries Q c" if "stable K Q" "c \<in> set (?dels @ [rd_del cl key now])" for Q c
    using that P(1,2) by (auto simp: good_payload_def intro!: keeps_del [OF ok])
  have decr: "keeps entries Q c" if "stable K Q" "K \<notin> set ks" "c \<in> set (?decr ks)" for Q c ks
    using that by (auto intro!: keeps_incr [OF ok])
  have pipe: "window_inv {} 0 ws K M t1 A B U (entries (snd (pipeline_execute ?pipe r0)))" if "entries r0 = entries r" for r0
  proof (cases "K \<in> set (rp_rollback_counter_keys p)")
    case False
    have "keeps entries (window_inv {} 0 ws K M t1 A B U) (pipeline_execute ?pipe)"
      using dels [OF window_inv_stable] decr [OF window_inv_stable False]
      by (intro keeps_pipeline) auto
    then show ?thesis using inv that by (simp add: keeps_def)
  next
    case True
    then obtain xs ys where xs: "rp_rollback_counter_keys p = xs @ K # ys" by (meson split_list)
    with P(1) have free: "K \<notin> set xs" "K \<notin> set ys"
      by (auto simp: good_payload_def count_list_0_iff [symmetric] simp del: count_list_0_iff)
    have mine: "key \<in> outstanding ws K A B (entries r)"
      using p True by (auto simp: outstanding_def holders_of_def)
    have "window_inv {key} 1 ws K M t1 A B U (entries r0)"
      using inv card_Suc_Diff1 [OF finite_outstanding [OF inv] mine] that
      by (simp add: window_inv_def)
    moreover have "keeps entries (window_inv {key} 1 ws K M t1 A B U) (pipeline_execute (?decr xs))"
      by (intro keeps_pipeline decr [OF window_inv_stable free(1)])
    ultimately have 1: "window_inv {key} 1 ws K M t1 A B U (entries (snd (pipeline_execute (?decr xs) r0)))"
      by (simp add: keeps_def)
    let ?r2 = "snd (rd_incrby cl K (- 1) now (snd (pipeline_execute (?decr xs) r0)))"
    note 2 = decrement_here [OF ok 1 now]
    have "keeps entries (window_inv {key} 0 ws K M t1 A B U) (pipeline_execute (?decr ys @ ?dels))"
      using dels [OF window_inv_stable] decr [OF window_inv_stable free(2)]
      by (intro keeps_pipeline) auto
    then have 3: "window_inv {key} 0 ws K M t1 A B U (entries (snd (pipeline_execute (?decr ys @ ?dels) ?r2)))"
      using 2 by (simp add: keeps_def)
    let ?r3 = "snd (pipeline_execute (?decr ys @ ?dels) ?r2)"
    have whole: "snd (pipeline_execute ?pipe r0) = snd (rd_del cl key now ?r3)"
      by (simp add: xs pipeline_state pipeline_state_Cons del: pipeline_execute.simps(2))
    obtain r4 where r4: "rd_del cl key now ?r3 = (Inr (), r4)" "entries r4 = (entries ?r3)(key := None)"
      using rdel [OF ok] by blast
    have 4: "window_inv {key} 0 ws K M t1 A B U (entries r4)"
      unfolding r4(2) by (rule stableD [OF window_inv_stable 3 P(2) active_simps(1)])
    have "key \<notin> reservation_key ws ` (A - B)"
    proof
      assume "key \<in> reservation_key ws ` (A - B)"
      then obtain j where j: "j \<in> A - B" "key = reservation_key ws j" by blast
      then have "j \<in> U" using inv by (auto simp: window_inv_def)
      then have "j = i" using reservation_key_ids [of i j ws u] i(2-4) j(2) by auto
      with j(1) i(1) show False by simp
    qed
    then have "outstanding ws K A B (entries r4) - {key} = outstanding ws K A B (entries r4) - {}"
      by (auto simp: outstanding_def holders_of_def r4(2))
    with 4 have "window_inv {} 0 ws K M t1 A B U (entries r4)" by (simp add: window_inv_def)
    then show ?thesis unfolding whole by (simp add: r4(1))
  qed
  obtain q r0 where q: "rd_fault cl r = (q, r0)" by fastforce
  have r0: "entries r0 = entries r" using rfault [OF ok, of r] q by simp
  show ?thesis
    using pipe [OF r0] inv r0 q by (auto simp: rollback_payload_def client_call_def split: option.splits)
qed

lemma rollback_keeps:
  assumes ok: "redis_ok cl entries" and inv: "window_inv {} 0 ws K M t1 A B U (entries r)" and now: "now < t1"
    and i: "\<forall>i. rr_reservation_id v = Some i \<longrightarrow> i \<in> B \<and> colon_free i" and U: "\<forall>j\<in>U. colon_free j"
  shows "window_inv {} 0 ws K M t1 A B U (entries (limiter_rollback cl now v r))"
proof (cases "rr_allowed v \<and> rr_reservation_id v \<noteq> None")
  case False
  then show ?thesis using inv by (auto simp: limiter_rollback_def split: option.splits bool.splits)
next
  case True
  then obtain j where j: "rr_allowed v" "rr_reservation_id v = Some j" by blast
  obtain x r1 where x: "find_reservation_keys cl j now r = (x, r1)" by fastforce
  have inv1: "window_inv {} 0 ws K M t1 A B U (entries r1)" using inv find_keys_call(1) [OF ok x] by simp
  have "keeps entries (window_inv {} 0 ws K M t1 A B U) (over_reservations cl now (rollback_payload cl now) ks)"
    if ks: "x = Inr ks" for ks
  proof (rule over_reservations_keeps [OF ok])
    fix key p e r
    assume *: "key \<in> set ks" "window_inv {} 0 ws K M t1 A B U (entries r)" "entries r key = Some (RPayload p, e)"
      "rp_status p = ''active''"
    from find_keys_call(2) [OF ok x ks *(1)] obtain u where "key = u @ '':reservation:'' @ j" by blast
    with * i j U show "window_inv {} 0 ws K M t1 A B U (entries (snd (rollback_payload cl now key p r)))"
      by (intro rollback_payload_inv [OF ok *(2) now]) auto
  qed
  then show ?thesis
    using inv1 x j by (auto simp: limiter_rollback_def command_bind_def keeps_def split: sum.splits)
qed

section \<open>The arguments of the script\<close>

lemma limit_keys_map:
  assumes "list_all (\<lambda>l. 0 < ml_window_seconds l) ls"
  shows "limit_keys now scope ls = Inr (map (\<lambda>l. build_rate_limit_counter_key (sc_workspace_id scope)
    (ml_scope_type l) (ml_scope_id l) (ml_limit_type l) (now div seconds (ml_window_seconds l))) ls)"
  using assms by (induction ls) (auto simp: limit_key_def)

definition window_key :: "time \<Rightarrow> rate_limit_scope \<Rightarrow> matched_limit \<Rightarrow> string" where
  "window_key now scope l = build_rate_limit_counter_key (sc_workspace_id scope)
     (ml_scope_type l) (ml_scope_id l) (ml_limit_type l) (now div seconds (ml_window_seconds l))"

definition orderly_limits :: "matched_limit list \<Rightarrow> string \<times> string \<times> string \<Rightarrow> int \<Rightarrow> int \<Rightarrow> bool" where
  "orderly_limits ls lid W M \<longleftrightarrow>
     distinct (map ident ls) \<and>
     list_all (\<lambda>l. 0 < ml_window_seconds l \<and> colon_free (ml_scope_type l) \<and> colon_free (ml_scope_id l) \<and>
       colon_free (ml_limit_type l)) ls \<and>
     list_all (\<lambda>l. ident l = lid \<longrightarrow> ml_window_seconds l = W \<and> ml_max_value l = M) ls"

lemma orderlyD:
  assumes "orderly rl scope lid W M"
  obtains ls where "matching_limits rl scope = Inr ls" "orderly_limits ls lid W M"
    "matches rl lid scope \<longleftrightarrow> lid \<in> ident ` set ls"
  using assms by (auto simp: orderly_def orderly_limits_def matches_def split: sum.splits)

lemma window_key_ident:
  assumes "colon_free (sc_workspace_id scope)" "orderly_limits ls (st, sid, key) W M" "l \<in> set ls"
    and "colon_free st" "colon_free sid" "colon_free key"
  shows "window_key now scope l = build_rate_limit_counter_key (sc_workspace_id scope) st sid key (now div seconds W) \<longleftrightarrow>
    ident l = (st, sid, key)"
proof
  assume *: "window_key now scope l = build_rate_limit_counter_key (sc_workspace_id scope) st sid key (now div seconds W)"
  have "colon_free (ml_scope_type l)" "colon_free (ml_scope_id l)" "colon_free (ml_limit_type l)"
    using assms(2,3) by (auto simp: orderly_limits_def list_all_iff)
  note mine = split_counter_key(1) [OF assms(1) this, of "now div seconds (ml_window_seconds l)"]
  note its = split_counter_key(1) [OF assms(1,4-6), of "now div seconds W"]
  have "split_at (CHR '':'') (window_key now scope l) =
    split_at (CHR '':'') (build_rate_limit_counter_key (sc_workspace_id scope) st sid key (now div seconds W))"
    using * by simp
  then show "ident l = (st, sid, key)" unfolding window_key_def mine its by (simp add: ident_def)
next
  assume "ident l = (st, sid, key)"
  then show "window_key now scope l = build_rate_limit_counter_key (sc_workspace_id scope) st sid key (now div seconds W)"
    using assms(2,3) by (auto simp: orderly_limits_def list_all_iff window_key_def ident_def)
qed

lemma count_list_distinct: "distinct xs \<Longrightarrow> count_list xs x = (if x \<in> set xs then 1 else 0)"
  by (induction xs) auto

lemma distinct_map_coarser:
  assumes "distinct (map g xs)" and "\<And>x y. x \<in> set xs \<Longrightarrow> y \<in> set xs \<Longrightarrow> f x = f y \<Longrightarrow> g x = g y"
  shows "distinct (map f xs)"
  using assms unfolding distinct_map inj_on_def by blast

lemma count_list_map_distinct:
  assumes "distinct (map f xs)" and "\<And>x. x \<in> set xs \<Longrightarrow> g x = y \<longleftrightarrow> f x = z"
  shows "count_list (map g xs) y = (if z \<in> f ` set xs then 1 else 0)"
proof -
  have "count_list (map g xs) y = count_list (map f xs) z"
    using assms(2) by (induction xs) auto
  also have "\<dots> = (if z \<in> f ` set xs then 1 else 0)"
    using count_list_distinct [OF assms(1), of z] by simp
  finally show ?thesis .
qed

definition counters_for :: "int \<Rightarrow> time \<Rightarrow> rate_limit_scope \<Rightarrow> matched_limit list \<Rightarrow> counter_arg list" where
  "counters_for ttl now scope ls =
     (case split_counter_limits ls of (cs, ps) \<Rightarrow> counter_args ttl scope cs (map (window_key now scope) cs) ps)"

lemma counters_for_keys:
  "map ca_key (counters_for ttl now scope ls) =
     map (window_key now scope) (fst (split_counter_limits ls)) @ map (parallel_key scope) (snd (split_counter_limits ls))"
  by (simp add: counters_for_def split_counter_limits_def counter_args_def zip_map2 zip_same_conv_map comp_def)

lemma counters_for_mem:
  assumes "a \<in> set (counters_for ttl now scope ls)"
  shows "(\<exists>l\<in>set ls. ml_limit_type l \<noteq> ''max_parallel_attempts'' \<and> ca_key a = window_key now scope l \<and>
      ca_max_value a = ml_max_value l \<and> ca_window_seconds a = ml_window_seconds l) \<or>
    (\<exists>l\<in>set ls. ca_key a = parallel_key scope l \<and> ca_window_seconds a = parallel_window ttl l)"
  using assms
  by (auto simp: counters_for_def split_counter_limits_def counter_args_def zip_map2 zip_same_conv_map)

text \<open>The facts the script needs, for orderly limits.\<close>

lemma script_args:
  assumes ls: "orderly_limits ls (st, sid, key) W M" and ttl: "0 < ttl"
    and ws: "colon_free ws" "sc_workspace_id scope = ws"
    and free: "colon_free st" "colon_free sid" "colon_free key"
    and kind: "key \<notin> {''min_delay_between_comments'', ''max_parallel_attempts''}"
    and K: "K = build_rate_limit_counter_key ws st sid key (now div seconds W)"
  shows "list_all (\<lambda>a. 0 < ca_window_seconds a) (counters_for ttl now scope ls)"
    and "list_all (\<lambda>d. 0 < dk_reserve_ttl d) (last_comment_keys ttl scope ls)"
    and "ca_key ` set (counters_for ttl now scope ls) \<inter> dk_key ` set (last_comment_keys ttl scope ls) = {}"
    and "reservation_key ws i \<notin> ca_key ` set (counters_for ttl now scope ls)"
    and "reservation_key ws i \<notin> dk_key ` set (last_comment_keys ttl scope ls)"
    and "distinct (map dk_key (last_comment_keys ttl scope ls))"
    and "count_list (map ca_key (counters_for ttl now scope ls)) K = (if (st, sid, key) \<in> ident ` set ls then 1 else 0)"
    and "K \<notin> dk_key ` set (last_comment_keys ttl scope ls)" "K \<noteq> reservation_key ws i"
    and "K \<notin> parallel_key scope ` set ls'"
    and "a \<in> set (counters_for ttl now scope ls) \<Longrightarrow> ca_key a = K \<Longrightarrow> ca_max_value a = M \<and> ca_window_seconds a = W"
proof -
  have win: "0 < ml_window_seconds l" if "l \<in> set ls" for l
    using ls that by (auto simp: orderly_limits_def list_all_iff)
  have pwin: "0 < parallel_window ttl l" if "l \<in> set ls" for l
    using win [OF that] ttl by (simp add: parallel_window_def)
  show "list_all (\<lambda>a. 0 < ca_window_seconds a) (counters_for ttl now scope ls)"
    using counters_for_mem [of _ ttl now scope ls] win pwin unfolding list_all_iff by metis
  show "list_all (\<lambda>d. 0 < dk_reserve_ttl d) (last_comment_keys ttl scope ls)"
    using win ttl by (auto simp: last_comment_keys_def list_all_iff)
  note kinds = split_keys [OF ws(1)]
  have ckind: "split_at (CHR '':'') (ca_key a) ! 2 \<in> {''limit'', ''parallel''}"
    if "a \<in> set (counters_for ttl now scope ls)" for a
    using counters_for_mem [OF that] kinds(1) [OF ws(2)] kinds(3) ws(2) by (auto simp: window_key_def)
  have dkind: "split_at (CHR '':'') (dk_key d) ! 2 = ''last_comment''" if "d \<in> set (last_comment_keys ttl scope ls)" for d
    by (rule kinds(5) [OF that ws(2)])
  have Kkind: "split_at (CHR '':'') K ! 2 = ''limit''" unfolding K by (rule kinds(3))
  have "ca_key a \<noteq> dk_key d"
    if "a \<in> set (counters_for ttl now scope ls)" "d \<in> set (last_comment_keys ttl scope ls)" for a d
    using ckind [OF that(1)] dkind [OF that(2)] by auto
  then show "ca_key ` set (counters_for ttl now scope ls) \<inter> dk_key ` set (last_comment_keys ttl scope ls) = {}"
    by blast
  have "reservation_key ws i \<noteq> ca_key a" if "a \<in> set (counters_for ttl now scope ls)" for a
    using ckind [OF that] kinds(2) [of i] by auto
  then show "reservation_key ws i \<notin> ca_key ` set (counters_for ttl now scope ls)" by blast
  have "reservation_key ws i \<noteq> dk_key d" if "d \<in> set (last_comment_keys ttl scope ls)" for d
    using dkind [OF that] kinds(2) [of i] by auto
  then show "reservation_key ws i \<notin> dk_key ` set (last_comment_keys ttl scope ls)" by blast
  have "K \<noteq> dk_key d" if "d \<in> set (last_comment_keys ttl scope ls)" for d
    using dkind [OF that] Kkind by auto
  then show "K \<notin> dk_key ` set (last_comment_keys ttl scope ls)" by blast
  show "K \<noteq> reservation_key ws i"
    using kinds(2) [of i] Kkind by auto
  have Kpar: "K \<noteq> parallel_key scope l" for l
  proof
    assume "K = parallel_key scope l"
    then show False using kinds(1) [OF ws(2), of l] Kkind by simp
  qed
  then show "K \<notin> parallel_key scope ` set ls'" by blast
  have kid: "window_key now scope l = K \<longleftrightarrow> ident l = (st, sid, key)" if "l \<in> set ls" for l
    using window_key_ident [of scope ls st sid key W M l now] ws ls free that unfolding K by simp
  have "count_list (map (window_key now scope) (fst (split_counter_limits ls))) K =
      (if (st, sid, key) \<in> ident ` set (fst (split_counter_limits ls)) then 1 else 0)"
  proof (rule count_list_map_distinct)
    show "distinct (map ident (fst (split_counter_limits ls)))"
      using ls by (auto simp: split_counter_limits_def orderly_limits_def distinct_map intro: inj_on_subset)
    show "window_key now scope l = K \<longleftrightarrow> ident l = (st, sid, key)" if "l \<in> set (fst (split_counter_limits ls))" for l
      using that by (intro kid) (simp add: split_counter_limits_def)
  qed
  moreover have "(st, sid, key) \<in> ident ` set (fst (split_counter_limits ls)) \<longleftrightarrow> (st, sid, key) \<in> ident ` set ls"
    using kind by (force simp: split_counter_limits_def ident_def)
  moreover have "count_list (map (parallel_key scope) xs) K = 0" for xs
    using Kpar by (induction xs) auto
  ultimately show "count_list (map ca_key (counters_for ttl now scope ls)) K =
      (if (st, sid, key) \<in> ident ` set ls then 1 else 0)"
    by (simp add: counters_for_keys)
  show "a \<in> set (counters_for ttl now scope ls) \<Longrightarrow> ca_key a = K \<Longrightarrow> ca_max_value a = M \<and> ca_window_seconds a = W"
  proof -
    assume a: "a \<in> set (counters_for ttl now scope ls)" "ca_key a = K"
    then obtain l where l: "l \<in> set ls" "window_key now scope l = K" "ca_max_value a = ml_max_value l"
      "ca_window_seconds a = ml_window_seconds l"
      using counters_for_mem [OF a(1)] Kpar by metis
    then have "ident l = (st, sid, key)" using kid [OF l(1)] by simp
    with ls l show ?thesis by (auto simp: orderly_limits_def list_all_iff)
  qed
  show "distinct (map dk_key (last_comment_keys ttl scope ls))"
  proof -
    let ?ds = "filter (\<lambda>l. ml_limit_type l = ''min_delay_between_comments'') ls"
    have "distinct (map ident ?ds)"
      using ls by (auto simp: orderly_limits_def distinct_map intro: inj_on_subset)
    then have "distinct (map (\<lambda>l. split_at (CHR '':'') (ml_scope_type l @ '':'' @ ml_scope_id l)) ?ds)"
    proof (rule distinct_map_coarser)
      fix l l' assume l: "l \<in> set ?ds" "l' \<in> set ?ds"
        "split_at (CHR '':'') (ml_scope_type l @ '':'' @ ml_scope_id l) =
         split_at (CHR '':'') (ml_scope_type l' @ '':'' @ ml_scope_id l')"
      have "colon_free (ml_scope_type l)" "colon_free (ml_scope_id l)"
        "colon_free (ml_scope_type l')" "colon_free (ml_scope_id l')"
        using l(1,2) ls by (auto simp: orderly_limits_def list_all_iff)
      with l show "ident l = ident l'"
        by (simp add: colon_free_def split_at_append split_at_single ident_def)
    qed
    then have "distinct (map (\<lambda>l. prefix @ ml_scope_type l @ '':'' @ ml_scope_id l) ?ds)" for prefix
      by (rule distinct_map_coarser) simp
    from this [of "''neuro:'' @ ws @ '':last_comment:''"] show ?thesis
      by (simp add: last_comment_keys_def ws(2) comp_def)
  qed
qed

section \<open>Reservations\<close>

lemma bump_all_active: "active (bump_all now as m k) \<Longrightarrow> bump_all now as m k = m k"
proof (induction as arbitrary: m)
  case Nil
  then show ?case by (simp add: bump_all_def)
next
  case (Cons a as)
  let ?m = "m(ca_key a := bump now (ca_window_seconds a) (m (ca_key a)))"
  have step: "bump_all now (a # as) m = bump_all now as ?m" by (simp add: bump_all_def)
  have "active (bump_all now as ?m k)" using Cons.prems unfolding step .
  then have eq: "bump_all now as ?m k = ?m k" by (rule Cons.IH)
  show ?case
  proof (cases "k = ca_key a")
    case True
    then have "active (bump now (ca_window_seconds a) (m (ca_key a)))" using Cons.prems eq step by simp
    then show ?thesis by (simp add: bump_def)
  next
    case False
    then show ?thesis using eq step by simp
  qed
qed

lemma put_delays_active: "active (fold (put_delay now rk) ds m k) \<Longrightarrow> fold (put_delay now rk) ds m k = m k"
proof (induction ds arbitrary: m)
  case Nil
  then show ?case by simp
next
  case (Cons d ds)
  have put: "put_delay now rk d m k =
      (if k = dk_key d then Some (RText rk, Some (now + seconds (dk_reserve_ttl d))) else m k)"
    by (simp add: put_delay_def)
  have eq: "fold (put_delay now rk) ds (put_delay now rk d m) k = put_delay now rk d m k"
    using Cons by simp
  then show ?case using Cons.prems put by (cases "k = dk_key d") simp_all
qed

lemma bump_all_once:
  assumes "count_list (map ca_key as) k = 1"
  shows "\<exists>a\<in>set as. ca_key a = k \<and> bump_all now as m k = bump now (ca_window_seconds a) (m k)"
proof -
  from assms have "k \<in> set (map ca_key as)" using count_notin [of k "map ca_key as"] by fastforce
  then obtain ks1 ks2 where "map ca_key as = ks1 @ k # ks2" by (meson split_list)
  then obtain xs a ys where as: "as = xs @ a # ys" "ca_key a = k" by (auto simp: map_eq_append_conv)
  with assms have "count_list (map ca_key xs) k = 0" "count_list (map ca_key ys) k = 0" by simp_all
  then have "k \<notin> ca_key ` set xs" "k \<notin> ca_key ` set ys" by (simp_all add: count_list_0_iff)
  moreover have "bump_all now as m k =
      bump_all now ys ((bump_all now xs m)(k := bump now (ca_window_seconds a) (bump_all now xs m k))) k"
    unfolding as by (simp add: bump_all_def flip: as(2))
  ultimately show ?thesis using as by (auto simp: bump_all_other)
qed

lemma bump_shape:
  assumes "counter_shape t1 x" and "now < t1" and "t1 \<le> now + seconds W"
  shows "counter_shape t1 (bump now W x)" "stored_count (bump now W x) = stored_count x + 1"
    "count_of now x = stored_count x"
  using assms by (auto simp: counter_shape_def bump_def count_of_def stored_count_def)

lemma reserved_inv:
  assumes inv: "window_inv {} 0 ws K M t1 A B U m" and new: "i \<notin> U"
    and now: "now < t1" "t1 \<le> now + seconds W"
    and may: "may_reserve now m (reservation_key ws i) counters delays"
    and once: "count_list (map ca_key counters) K \<le> 1"
      "\<And>a. a \<in> set counters \<Longrightarrow> ca_key a = K \<Longrightarrow> ca_max_value a = M \<and> ca_window_seconds a = W"
    and K: "K \<notin> dk_key ` set delays" "K \<noteq> reservation_key ws i" "K \<notin> set pks"
    and A': "A' = A \<or> A' = insert i A \<and> K \<in> ca_key ` set counters"
  shows "window_inv {} 0 ws K M t1 A' B (insert i U)
    (reserved_entries now (reservation_key ws i) (payload_of counters pks delays) ttl counters delays m)"
proof -
  let ?rk = "reservation_key ws i"
  let ?p = "payload_of counters pks delays"
  let ?m = "reserved_entries now ?rk ?p ttl counters delays m"
  have K': "?m K = bump_all now counters m K"
    using K by (simp add: reserved_entries_def put_delays_other)
  have rk: "?m ?rk = Some (RPayload ?p, Some (now + seconds ttl))" by (simp add: reserved_entries_def)
  have same: "?m k = m k" if "active (?m k)" "k \<noteq> ?rk" for k
  proof -
    have eq: "?m k = fold (put_delay now ?rk) delays (bump_all now counters m) k"
      using that(2) by (simp add: reserved_entries_def)
    have "fold (put_delay now ?rk) delays (bump_all now counters m) k = bump_all now counters m k"
      by (rule put_delays_active) (use that(1) eq in simp)
    moreover from this have "bump_all now counters m k = m k"
      by (intro bump_all_active) (use that(1) eq in simp)
    ultimately show ?thesis using eq by simp
  qed
  have p: "good_payload K ?p"
    using K once(1) by (simp add: good_payload_def payload_of_def)
  have payloads: "(K \<in> set (rp_rollback_counter_keys q) \<longrightarrow> k \<in> reservation_key ws ` insert i U) \<and> good_payload K q"
    if "?m k = Some (RPayload q, e)" "rp_status q = ''active''" for k q e
  proof (cases "k = ?rk")
    case True
    then show ?thesis using that(1) rk p by simp
  next
    case False
    then have "m k = Some (RPayload q, e)" using same [of k] that by simp
    then show ?thesis using inv that(2) unfolding window_inv_def by blast
  qed
  have inv': "finite U" "A \<subseteq> U" "counter_shape t1 (m K)"
    "int (card (outstanding ws K A B m)) \<le> stored_count (m K)" "stored_count (m K) \<le> max 0 M"
    using inv by (simp_all add: window_inv_def)
  have holders: "holders_of K ?m \<subseteq> holders_of K m \<union> (if K \<in> ca_key ` set counters then {?rk} else {})"
  proof
    fix k assume "k \<in> holders_of K ?m"
    then obtain q e where q: "?m k = Some (RPayload q, e)" "rp_status q = ''active''" "K \<in> set (rp_rollback_counter_keys q)"
      by (auto simp: holders_of_def)
    show "k \<in> holders_of K m \<union> (if K \<in> ca_key ` set counters then {?rk} else {})"
    proof (cases "k = ?rk")
      case True
      then have "q = ?p" using q(1) rk by simp
      then show ?thesis using q(3) True by (simp add: payload_of_def)
    next
      case False
      then have "m k = Some (RPayload q, e)" using same [of k] q by simp
      then show ?thesis using q(2,3) by (auto simp: holders_of_def)
    qed
  qed
  have counts: "counter_shape t1 (?m K) \<and> stored_count (?m K) \<le> max 0 M \<and>
      int (card (outstanding ws K A' B ?m)) \<le> stored_count (?m K)"
  proof (cases "K \<in> ca_key ` set counters")
    case False
    then have "?m K = m K" by (simp add: K' bump_all_other)
    moreover have "outstanding ws K A' B ?m \<subseteq> outstanding ws K A B m"
      using holders False A' by (auto simp: outstanding_def)
    then have "card (outstanding ws K A' B ?m) \<le> card (outstanding ws K A B m)"
      by (rule card_mono [OF finite_outstanding [OF inv]])
    ultimately show ?thesis using inv' by simp
  next
    case True
    then have "count_list (map ca_key counters) K \<noteq> 0" by (simp add: count_list_0_iff)
    with once(1) have "count_list (map ca_key counters) K = 1" by simp
    from bump_all_once [OF this, of now m] obtain a where
      a: "a \<in> set counters" "ca_key a = K" "bump_all now counters m K = bump now (ca_window_seconds a) (m K)" by blast
    with once(2) have bump: "?m K = bump now W (m K)" by (simp add: K')
    note b = bump_shape [OF inv'(3) now]
    have "stored_count (m K) < M"
      using may a once(2) [OF a(1,2)] b(3) by (auto simp: may_reserve_def list_all_iff)
    moreover have "outstanding ws K A' B ?m \<subseteq> insert ?rk (outstanding ws K A B m)"
      using holders True A' by (auto simp: outstanding_def)
    then have "card (outstanding ws K A' B ?m) \<le> card (insert ?rk (outstanding ws K A B m))"
      by (rule card_mono [rotated]) (simp add: finite_outstanding [OF inv])
    then have "card (outstanding ws K A' B ?m) \<le> Suc (card (outstanding ws K A B m))"
      using card_insert_le_m1 [of "Suc (card (outstanding ws K A B m))" "outstanding ws K A B m" ?rk] by simp
    ultimately show ?thesis using inv' b by (simp add: bump)
  qed
  have "finite (insert i U)" "A' \<subseteq> insert i U" using inv' A' by auto
  then show ?thesis
    using counts payloads unfolding window_inv_def by auto
qed

lemma split_at_free: "p \<in> set (split_at d s) \<Longrightarrow> d \<notin> set p"
proof (induction s arbitrary: p)
  case Nil
  then show ?case by simp
next
  case (Cons c cs)
  then show ?case by (auto split: if_splits list.splits)
qed

lemma parsed_workspace: "parse_rate_limit_counter_key k = Some q \<Longrightarrow> colon_free (ck_workspace_id q)"
proof -
  assume "parse_rate_limit_counter_key k = Some q"
  then have "ck_workspace_id q \<in> set (split_at (CHR '':'') k)"
    by (auto simp: parse_rate_limit_counter_key_def split: list.splits if_splits option.splits)
  then show ?thesis using split_at_free by (simp add: colon_free_def)
qed

lemma metadata_keeps:
  assumes ok: "redis_ok cl entries" and st: "stable K P" and K: "split_at (CHR '':'') K ! 2 = ''limit''"
    and P: "P (entries r)"
  shows "P (entries (write_counter_metadata cl now ls ks r))"
proof -
  have meta: "build_rate_limit_counter_metadata_key (ck_workspace_id q) a b c d \<noteq> K"
    if "parse_rate_limit_counter_key k = Some q" for q a b c d k
    using split_keys(4) [OF parsed_workspace [OF that], of a b c d] K by auto
  let ?cs = "List.map_filter
       (\<lambda>(l, counter_key).
          map_option
            (\<lambda>p. rd_set cl (build_rate_limit_counter_metadata_key (ck_workspace_id p) (ck_scope_type p)
                   (ck_scope_id p) (ck_scope_key p) (ck_window_number p))
                   (RText (int_text (ml_window_seconds l))) (max 1 (ml_window_seconds l * 2)) now)
            (parse_rate_limit_counter_key counter_key))
       (zip ls ks)"
  have "keeps entries P (client_call cl (pipeline_execute ?cs))"
    by (intro keeps_call [OF ok] keeps_pipeline)
      (auto simp: List.map_filter_def intro!: keeps_set [OF ok st] dest: meta)
  then show ?thesis using P by (simp add: keeps_def write_counter_metadata_def)
qed

lemma active_cooldown_reads:
  assumes ok: "redis_ok cl entries" and "active_cooldown cl now scope ss r = (x, r1)"
  shows "entries r1 = entries r \<and> (\<forall>v. x = Inr (Some v) \<longrightarrow> \<not> rr_allowed v)"
  using assms(2)
proof (induction ss arbitrary: r)
  case Nil
  then show ?case by auto
next
  case (Cons s ss)
  obtain scope_type sid where s: "s = (scope_type, sid)" by (cases s)
  show ?case
  proof (cases sid)
    case None
    then show ?thesis using Cons.IH [of r] Cons.prems s by simp
  next
    case (Some scope_id)
    let ?key = "cooldown_key (sc_workspace_id scope) scope_type scope_id"
    obtain y r0 where y: "client_call cl (\<lambda>r0. (Inr (rd_get cl ?key now r0), r0)) r = (y, r0)" by fastforce
    note r0 = read_call(1) [OF ok y]
    consider e where "y = Inl e" | "y = Inr None" | v where "y = Inr (Some v)"
      by (cases y) auto
    then show ?thesis
    proof cases
      case (1 e)
      then show ?thesis using Cons.prems y r0 by (auto simp: s Some command_bind_def)
    next
      case 2
      then have "active_cooldown cl now scope ss r0 = (x, r1)"
        using Cons.prems y by (simp add: s Some command_bind_def)
      then show ?thesis using Cons.IH [of r0] r0 by simp
    next
      case (3 v)
      obtain z r2 where z: "client_call cl (\<lambda>r0. (Inr (rd_ttl cl ?key now r0), r0)) r0 = (z, r2)" by fastforce
      note r2 = read_call(1) [OF ok z]
      show ?thesis
        using Cons.prems y 3 z r0 r2
        by (auto simp: s Some command_bind_def command_return_def denied_reservation_def split: sum.splits)
    qed
  qed
qed

lemma window_bounds:
  assumes "0 < (d :: int)"
  shows "x < (x div d + 1) * d" "(x div d + 1) * d \<le> x + d"
proof -
  have "x div d * d + x mod d = x" by simp
  moreover have "0 \<le> x mod d" "x mod d < d" using assms by simp_all
  ultimately show "x < (x div d + 1) * d" "(x div d + 1) * d \<le> x + d"
    unfolding distrib_right by linarith+
qed

lemma window_inv_more:
  assumes "window_inv {} 0 ws K M t1 A B U m" "m' = m" "finite U'" "U \<subseteq> U'" "B \<subseteq> B'"
  shows "window_inv {} 0 ws K M t1 A B' U' m'"
  by (rule window_inv_shrink [OF assms(1)]) (use assms in \<open>auto simp: window_inv_def\<close>)

lemma with_redis_inv:
  assumes ok: "redis_ok cl entries" and inv: "window_inv {} 0 ws K M t1 A B U (entries r)" and new: "i \<notin> U"
    and t1: "t1 = (n + 1) * seconds W" "now div seconds W = n" "0 < W"
    and ttl: "0 < rl_reservation_ttl_seconds rl"
    and ws: "colon_free ws" "sc_workspace_id scope = ws"
    and free: "colon_free st" "colon_free sid" "colon_free key"
    and kind: "key \<notin> {''min_delay_between_comments'', ''max_parallel_attempts''}"
    and K: "K = build_rate_limit_counter_key ws st sid key n"
    and ord: "orderly rl scope (st, sid, key) W M"
    and run: "reserve_with_redis cl rl i now scope r = (y, r1)"
  shows "(\<exists>v. y = Inr (Inr v) \<and> rr_allowed v \<and> rr_reservation_id v = Some i) \<and>
      window_inv {} 0 ws K M t1 (if matches rl (st, sid, key) scope then insert i A else A) B (insert i U) (entries r1) \<or>
    (\<forall>v. y = Inr (Inr v) \<longrightarrow> \<not> rr_allowed v) \<and> window_inv {} 0 ws K M t1 A B (insert i U) (entries r1)"
proof -
  let ?ttl = "rl_reservation_ttl_seconds rl"
  have now: "now < t1" "t1 \<le> now + seconds W"
    using window_bounds [of "seconds W" now] t1 by simp_all
  obtain ls where ls: "matching_limits rl scope = Inr ls" "orderly_limits ls (st, sid, key) W M"
    and mat: "matches rl (st, sid, key) scope \<longleftrightarrow> (st, sid, key) \<in> ident ` set ls"
    using orderlyD [OF ord] by blast
  let ?counters = "counters_for ?ttl now scope ls"
  let ?delays = "last_comment_keys ?ttl scope ls"
  let ?rk = "reservation_key ws i"
  obtain cs ps where cs: "split_counter_limits ls = (cs, ps)" by fastforce
  have keys: "limit_keys now scope cs = Inr (map (window_key now scope) cs)"
    using limit_keys_map [of cs now scope] ls(2) cs
    by (auto simp: window_key_def [abs_def] split_counter_limits_def orderly_limits_def list_all_iff)
  have counters: "counter_args ?ttl scope cs (map (window_key now scope) cs) ps = ?counters"
    by (simp add: counters_for_def cs)
  let ?p = "payload_of ?counters (map (parallel_key scope) ps) ?delays"
  note args = script_args [OF ls(2) ttl ws free kind K [folded t1(2)]]
  note inv0 = window_inv_more [OF inv _ finite.insertI [of U i] subset_insertI order_refl]
  have U: "finite U" using inv by (simp add: window_inv_def)
  obtain c r0 where c: "active_cooldown cl now scope [(''account'', sc_account_id scope), (''target'', sc_target_id scope),
           (''campaign'', Some (sc_campaign_id scope))] r = (c, r0)" by fastforce
  note r0 = active_cooldown_reads [OF ok c]
  have inv_r0: "window_inv {} 0 ws K M t1 A B (insert i U) (entries r0)"
    using inv0 [of "entries r0"] r0 U by simp
  show ?thesis
  proof (cases "c = Inr None")
    case False
    then show ?thesis
      using run c r0 inv_r0
      by (auto simp: reserve_with_redis_def command_bind_def command_return_def split: sum.splits option.splits)
  next
    case True
    obtain z r2 where z: "client_call cl (reserve_script cl now ?rk ?p ?ttl ?counters ?delays) r0 = (z, r2)" by fastforce
    have y: "(y, r1) = (case z of Inl e \<Rightarrow> (Inl e, r2)
        | Inr answer \<Rightarrow>
            if sa_flag answer \<noteq> 1
            then (Inr (Inr (denied_reservation (denied_reason (sa_name answer))
                    (max 1 (if sa_ttl answer = 0 then 1 else sa_ttl answer)))), r2)
            else (Inr (Inr \<lparr>rr_reservation_id = Some i, rr_allowed = True, rr_reason = None,
                     rr_retry_after_seconds = None, rr_checked_limits = map limit_name ls\<rparr>),
                  write_counter_metadata cl now cs (map (window_key now scope) cs) r2))"
      using run c True z unfolding reserve_with_redis_def command_bind_def
      by (simp add: ls(1) cs keys counters ws(2) Let_def)
    have script: "z = Inr a \<Longrightarrow> sa_flag a = 0 \<or> window_inv {} 0 ws K M t1
        (if matches rl (st, sid, key) scope then insert i A else A) B (insert i U) (entries r2)"
      and stays: "window_inv {} 0 ws K M t1 A B (insert i U) (entries r2)" for a
    proof -
      obtain q r3 where q: "rd_fault cl r0 = (q, r3)" by fastforce
      have e3: "entries r3 = entries r" using rfault [OF ok, of r0] q r0 by simp
      obtain x r4 where x: "reserve_script cl now ?rk ?p ?ttl ?counters ?delays r3 = (x, r4)" by fastforce
      have outcome: "entries r4 = entries r3 \<and> (\<forall>a. x = Inr a \<longrightarrow> sa_flag a = 0) \<or>
          may_reserve now (entries r3) ?rk ?counters ?delays \<and>
          entries r4 = reserved_entries now ?rk ?p ?ttl ?counters ?delays (entries r3)"
        by (rule script_outcome [OF ok ttl args(1-6) x])
      have reserved: "window_inv {} 0 ws K M t1 A' B (insert i U) (entries r4)"
        if "may_reserve now (entries r3) ?rk ?counters ?delays"
          "entries r4 = reserved_entries now ?rk ?p ?ttl ?counters ?delays (entries r3)"
          "A' = A \<or> A' = insert i A \<and> K \<in> ca_key ` set ?counters" for A'
        unfolding that(2)
        by (rule reserved_inv [OF _ new now that(1) _ _ args(8,9) _ that(3)])
          (use inv e3 args(7,10,11) in auto)
      have matched: "K \<in> ca_key ` set ?counters" if "matches rl (st, sid, key) scope"
      proof -
        have "count_list (map ca_key ?counters) K = 1" using args(7) that mat by simp
        then show ?thesis using count_notin [of K "map ca_key ?counters"] by fastforce
      qed
      have exec: "window_inv {} 0 ws K M t1 A B (insert i U) (entries r4)"
        using outcome reserved [of A] inv0 [of "entries r4"] U e3 by auto
      have unexec: "window_inv {} 0 ws K M t1 A B (insert i U) (entries r3)"
        using inv0 [of "entries r3"] U e3 by simp
      show "window_inv {} 0 ws K M t1 A B (insert i U) (entries r2)"
        using z q x exec unexec by (auto simp: client_call_def split: option.splits)
      show "sa_flag a = 0 \<or> window_inv {} 0 ws K M t1
        (if matches rl (st, sid, key) scope then insert i A else A) B (insert i U) (entries r2)" if za: "z = Inr a"
      proof -
        have "r2 = r4" "x = Inr a" using z q x za by (auto simp: client_call_def split: option.splits)
        then show ?thesis
          using outcome reserved [of "insert i A"] exec matched by auto
      qed
    qed
    have K2: "split_at (CHR '':'') K ! 2 = ''limit''" unfolding K by (rule split_keys(3) [OF ws(1)])
    show ?thesis
    proof (cases "\<exists>a. z = Inr a \<and> sa_flag a = 1")
      case True
      then obtain a where a: "z = Inr a" "sa_flag a = 1" by blast
      then have "window_inv {} 0 ws K M t1 (if matches rl (st, sid, key) scope then insert i A else A) B (insert i U) (entries r2)"
        using script [of a] by simp
      from metadata_keeps [OF ok window_inv_stable K2 this] show ?thesis
        using y a by simp
    next
      case False
      then show ?thesis using y stays by (auto simp: denied_reservation_def split: sum.splits)
    qed
  qed
qed

lemma reserve_inv:
  assumes ok: "redis_ok cl entries" and inv: "window_inv {} 0 ws K M t1 A B U (entries r)" and new: "i \<notin> U"
    and t1: "t1 = (n + 1) * seconds W" "now div seconds W = n" "0 < W"
    and ttl: "0 < rl_reservation_ttl_seconds rl"
    and ws: "colon_free ws" "sc_workspace_id scope = ws"
    and free: "colon_free st" "colon_free sid" "colon_free key"
    and kind: "key \<notin> {''min_delay_between_comments'', ''max_parallel_attempts''}"
    and K: "K = build_rate_limit_counter_key ws st sid key n"
    and ord: "orderly rl scope (st, sid, key) W M"
    and run: "limiter_reserve cl rl i now scope r = (x, r1)"
  shows "(granted_id x = Some i \<and>
      window_inv {} 0 ws K M t1 (if matches rl (st, sid, key) scope then insert i A else A) B (insert i U) (entries r1)) \<or>
    granted_id x = None \<and> window_inv {} 0 ws K M t1 A B (insert i U) (entries r1)"
proof (cases "rl_enabled rl")
  case False
  have "finite U" using inv by (simp add: window_inv_def)
  then show ?thesis
    using False run window_inv_more [OF inv, of "entries r1" "insert i U" B]
    by (auto simp: limiter_reserve_def granted_id_def)
next
  case True
  obtain y r2 where y: "reserve_with_redis cl rl i now scope r = (y, r2)" by fastforce
  note cases = with_redis_inv [OF ok inv new t1 ttl ws free kind K ord y]
  have "r2 = r1" using run True y by (auto simp: limiter_reserve_def split: sum.splits)
  moreover have "granted_id x = (case y of Inr (Inr v) \<Rightarrow> if rr_allowed v then rr_reservation_id v else None | _ \<Rightarrow> None)"
    using run True y
    by (auto simp: limiter_reserve_def granted_id_def denied_reservation_def split: sum.splits)
  ultimately show ?thesis using cases by (auto split: sum.splits)
qed

lemma run_inv:
  assumes ok: "redis_ok cl entries"
    and W: "t1 = (n + 1) * seconds W" "0 < W"
    and ttl: "0 < rl_reservation_ttl_seconds rl" and ws: "colon_free ws"
    and free: "colon_free st" "colon_free sid" "colon_free key"
    and kind: "key \<notin> {''min_delay_between_comments'', ''max_parallel_attempts''}"
    and K: "K = build_rate_limit_counter_key ws st sid key n"
  shows "list_all (orderly_event rl ws (st, sid, key) W M n) es \<Longrightarrow> distinct (event_ids es) \<Longrightarrow>
    set (event_ids es) \<inter> U = {} \<Longrightarrow> \<forall>j\<in>U. colon_free j \<Longrightarrow>
    window_inv {} 0 ws K M t1 A B U (entries r) \<Longrightarrow> run_limiter cl rl es r = (gs, bs, r') \<Longrightarrow>
    \<exists>U'. window_inv {} 0 ws K M t1 (A \<union> {i. \<exists>scope. (i, scope) \<in> set gs \<and> matches rl (st, sid, key) scope})
      (B \<union> set bs) U' (entries r')"
proof (induction es arbitrary: A B U r gs bs r')
  case Nil
  then show ?case by auto
next
  case (Cons e es)
  from Cons.prems(1) have e: "orderly_event rl ws (st, sid, key) W M n e"
    and es: "list_all (orderly_event rl ws (st, sid, key) W M n) es" by simp_all
  show ?case
  proof (cases e)
    case (LReserve i now scope)
    obtain x r1 where x: "limiter_reserve cl rl i now scope r = (x, r1)" by fastforce
    obtain gs1 bs1 r2 where run: "run_limiter cl rl es r1 = (gs1, bs1, r2)" by (metis prod_cases3)
    have ids: "i \<notin> U" "distinct (event_ids es)" "set (event_ids es) \<inter> insert i U = {}"
      "\<forall>j\<in>insert i U. colon_free j"
      using Cons.prems(2-4) e by (auto simp: LReserve orderly_event_def)
    have now: "now div seconds W = n" "sc_workspace_id scope = ws" "orderly rl scope (st, sid, key) W M"
      using e by (auto simp: LReserve orderly_event_def)
    from Cons.prems(6) x run have res: "gs = (case granted_id x of None \<Rightarrow> gs1 | Some j \<Rightarrow> (j, scope) # gs1)"
      "bs = bs1" "r' = r2" by (auto simp: LReserve)
    from reserve_inv [OF ok Cons.prems(5) ids(1) W(1) now(1) W(2) ttl ws now(2) free kind K now(3) x]
    obtain A' where A': "window_inv {} 0 ws K M t1 A' B (insert i U) (entries r1)"
      and g: "A' \<union> {i. \<exists>scope. (i, scope) \<in> set gs1 \<and> matches rl (st, sid, key) scope} =
        A \<union> {i. \<exists>scope. (i, scope) \<in> set gs \<and> matches rl (st, sid, key) scope}"
    proof (elim disjE conjE)
      assume *: "granted_id x = Some i"
        "window_inv {} 0 ws K M t1 (if matches rl (st, sid, key) scope then insert i A else A) B (insert i U) (entries r1)"
      show thesis by (rule that [OF *(2)]) (auto simp: res *(1))
    next
      assume *: "granted_id x = None" "window_inv {} 0 ws K M t1 A B (insert i U) (entries r1)"
      show thesis by (rule that [OF *(2)]) (auto simp: res *(1))
    qed
    from Cons.IH [OF es ids(2-4) A' run] show ?thesis by (simp add: g res)
  next
    case (LCommit now v)
    have "run_limiter cl rl es (limiter_commit cl rl now v r) = (gs, bs, r')"
      using Cons.prems(6) by (simp add: LCommit)
    from Cons.IH [OF es _ _ Cons.prems(4) commit_keeps [OF ok Cons.prems(5)] this] show ?thesis
      using Cons.prems(2,3) by (simp add: LCommit)
  next
    case (LRollback now v)
    obtain bs1 where run: "run_limiter cl rl es (limiter_rollback cl now v r) = (gs, bs1, r')"
      and bs: "bs = (case rr_reservation_id v of None \<Rightarrow> bs1 | Some i \<Rightarrow> i # bs1)"
      using Cons.prems(6) by (auto simp: LRollback split: prod.splits)
    let ?B = "B \<union> set (case rr_reservation_id v of None \<Rightarrow> [] | Some i \<Rightarrow> [i])"
    have "finite U" using Cons.prems(5) by (simp add: window_inv_def)
    from window_inv_more [OF Cons.prems(5) _ this order_refl, of "entries r" ?B]
    have inv: "window_inv {} 0 ws K M t1 A ?B U (entries r)" by simp
    have now: "now div seconds W = n" using e by (simp add: LRollback orderly_event_def)
    have "now < t1" using window_bounds(1) [of "seconds W" now] W now by simp
    from rollback_keeps [OF ok inv this _ Cons.prems(4), of v]
    have "window_inv {} 0 ws K M t1 A ?B U (entries (limiter_rollback cl now v r))"
      using e by (auto simp: LRollback orderly_event_def split: option.splits)
    from Cons.IH [OF es _ _ Cons.prems(4) this run] show ?thesis
      using Cons.prems(2,3) by (auto simp: LRollback bs Un_assoc split: option.splits)
  qed
qed

text \<open>No counter for the window yet, and no running reservation mentions it.\<close>

definition untouched :: "string \<Rightarrow> (string \<Rightarrow> entry option) \<Rightarrow> bool" where
  "untouched K m \<longleftrightarrow> m K = None \<and>
     (\<forall>k p e. m k = Some (RPayload p, e) \<longrightarrow>
        K \<notin> set (rp_rollback_counter_keys p) \<union> set (rp_commit_release_keys p) \<union> dk_key ` set (rp_last_comment_keys p))"

lemma untouched_inv: "untouched K m \<Longrightarrow> window_inv {} 0 ws K M t1 {} {} {} m"
proof -
  assume m: "untouched K m"
  then have "holders_of K m = {}" by (auto simp: untouched_def holders_of_def)
  then show ?thesis
    using m by (auto simp: untouched_def window_inv_def counter_shape_def outstanding_def stored_count_def
        good_payload_def count_notin)
qed

text \<open>
  C4. The limiter keeps its promise. Take a limit of at most \<open>M\<close> comments per window of \<open>W\<close>
  seconds on one scope, the only limit of its kind there, whose counter for the window nobody has used
  yet, and any reservations with distinct identifiers, commits and rollbacks that run during that window,
  with any calls of the client failing before or after the server executed them: the reservations granted
  under the limit and not rolled back are at most \<open>M\<close>. Granted means an answer that carries a
  reservation; a limiter that is switched off or fails open allows without one, and is not counted.
\<close>

theorem window_limit_enforced:
  assumes "redis_ok cl entries" and "0 < W" and "0 < rl_reservation_ttl_seconds rl"
    and "list_all colon_free [ws, st, sid, key]"
    and "key \<notin> {''min_delay_between_comments'', ''max_parallel_attempts''}"
    and "untouched (build_rate_limit_counter_key ws st sid key n) (entries r)"
    and "list_all (orderly_event rl ws (st, sid, key) W M n) es" and "distinct (event_ids es)"
    and "run_limiter cl rl es r = (gs, bs, r')"
  shows "int (card ({i. \<exists>scope. (i, scope) \<in> set gs \<and> matches rl (st, sid, key) scope} - set bs)) \<le> max 0 M"
proof -
  let ?K = "build_rate_limit_counter_key ws st sid key n"
  let ?G = "{i. \<exists>scope. (i, scope) \<in> set gs \<and> matches rl (st, sid, key) scope}"
  have "colon_free ws" "colon_free st" "colon_free sid" "colon_free key" using assms(4) by simp_all
  from run_inv [OF assms(1) refl assms(2,3) this assms(5) refl assms(7,8) _ _ untouched_inv [OF assms(6)] assms(9)]
  obtain U where inv: "window_inv {} 0 ws ?K M ((n + 1) * seconds W) ?G (set bs) U (entries r')" by auto
  have "inj_on (reservation_key ws) (?G - set bs)" by (auto simp: inj_on_def reservation_key_def)
  then have "card (?G - set bs) = card (reservation_key ws ` (?G - set bs))" by (simp add: card_image)
  also have "\<dots> \<le> card (outstanding ws ?K ?G (set bs) (entries r'))"
    by (rule card_mono [OF finite_outstanding [OF inv]]) (simp add: outstanding_def)
  finally show ?thesis using inv by (simp add: window_inv_def)
qed

definition hourly_limiter :: rate_limiter where
  "hourly_limiter =
     \<lparr>rl_settings = \<lparr>default_campaign_comments_per_hour = 30, default_campaign_comments_per_day = 200,
        default_min_delay_between_comments_seconds = 180, default_account_comments_per_hour = 8,
        default_account_comments_per_day = 50, default_target_comments_per_hour = 5\<rparr>,
      rl_limits = Some [scope_limit ''account'' ''a'' ''comments_per_hour'' 2 3600],
      rl_enabled = True, rl_fail_closed = True, rl_reservation_ttl_seconds = 300\<rparr>"

definition some_scope :: rate_limit_scope where
  "some_scope = \<lparr>sc_workspace_id = ''w'', sc_campaign_id = ''c'', sc_account_id = Some ''a'',
     sc_target_id = None, sc_campaign_account_id = None, sc_campaign_target_id = None\<rparr>"

theorem window_limit_enforced_witness:
  "(let (gs, bs, r') = run_limiter store_redis hourly_limiter
       [LReserve ''x'' 0 some_scope, LReserve ''y'' 1 some_scope, LReserve ''z'' 2 some_scope] []
    in int (card ({i. \<exists>scope. (i, scope) \<in> set gs \<and>
         matches hourly_limiter (''account'', ''a'', ''comments_per_hour'') scope} - set bs)) \<le> 2)"
proof -
  let ?es = "[LReserve ''x'' 0 some_scope, LReserve ''y'' 1 some_scope, LReserve ''z'' 2 some_scope]"
  obtain gs bs r' where run: "run_limiter store_redis hourly_limiter ?es [] = (gs, bs, r')" by (metis prod_cases3)
  have limits: "matching_limits hourly_limiter some_scope =
      Inr [\<lparr>ml_scope_type = ''account'', ml_scope_id = ''a'', ml_limit_type = ''comments_per_hour'',
            ml_max_value = 2, ml_window_seconds = 3600\<rparr>]"
    by (simp add: matching_limits_def hourly_limiter_def scope_limit_def some_scope_def scope_id_of_def normalized_def)
  have "orderly hourly_limiter some_scope (''account'', ''a'', ''comments_per_hour'') 3600 2"
    by (simp add: orderly_def limits ident_def colon_free_def)
  then have "list_all (orderly_event hourly_limiter ''w'' (''account'', ''a'', ''comments_per_hour'') 3600 2 0) ?es"
    by (simp add: orderly_event_def colon_free_def seconds_def) (simp add: some_scope_def)
  moreover have "list_all colon_free [''w'', ''account'', ''a'', ''comments_per_hour'']" by (simp add: colon_free_def)
  moreover have "0 < rl_reservation_ttl_seconds hourly_limiter" by (simp add: hourly_limiter_def)
  ultimately have "int (card ({i. \<exists>scope. (i, scope) \<in> set gs \<and>
      matches hourly_limiter (''account'', ''a'', ''comments_per_hour'') scope} - set bs)) \<le> max 0 2"
    by (intro window_limit_enforced [OF store_redis_ok _ _ _ _ _ _ _ run]) (simp_all add: untouched_def)
  then show ?thesis unfolding run Let_def prod.case by simp
qed

section \<open>Keys read back\<close>

text \<open>
  C22. The counter keys can be read back: for parts without a colon, parsing a counter key gives the
  parts it was built from, so different counters have different keys, and the key of a counter's
  metadata is never taken for a counter.
\<close>

theorem counter_key_round_trip:
  assumes "list_all colon_free [ws, st, sid, key]"
  shows "parse_rate_limit_counter_key (build_rate_limit_counter_key ws st sid key n) =
      Some \<lparr>ck_workspace_id = ws, ck_scope_type = st, ck_scope_id = sid, ck_scope_key = key, ck_window_number = n\<rparr> \<and>
    parse_rate_limit_counter_key (build_rate_limit_counter_metadata_key ws st sid key n) = None"
  using split_counter_key [of ws st sid key n] assms by (simp add: parse_rate_limit_counter_key_def)

theorem counter_key_round_trip_witness:
  "parse_rate_limit_counter_key (build_rate_limit_counter_key ''w'' ''account'' ''a'' ''comments_per_hour'' (- 12)) =
     Some \<lparr>ck_workspace_id = ''w'', ck_scope_type = ''account'', ck_scope_id = ''a'',
       ck_scope_key = ''comments_per_hour'', ck_window_number = - 12\<rparr>"
  using counter_key_round_trip [of "''w''" "''account''" "''a''" "''comments_per_hour''" "- 12"]
  by (simp add: colon_free_def)

end
