(* ===== verification/CommentLimits.thy ===== *)
theory CommentLimits
  imports NeuroRepository WindowLimit
begin

text \<open>
  The limits of a campaign: \<open>neuro_commenting/limits_service.py\<close>, and the limiter the sender builds
  from them (\<open>sender_reservations.py\<close>). The payload of a request has passed its schema, so it is a
  record, or a list of typed assignments where the fields are optional.
\<close>

section \<open>The service\<close>

datatype limit_change =
    LScopeType string
  | LScopeId "string option"
  | LLimitType string
  | LMaxValue int
  | LWindowSeconds int
  | LEnabled bool

record limit_payload =
  lp_scope_type :: string
  lp_scope_id :: "string option"
  lp_limit_type :: string
  lp_max_value :: int
  lp_window_seconds :: int
  lp_enabled :: bool

text \<open>\<open>EffectiveLimit\<close>: a limit as the limiter takes it, and whether it is enabled.\<close>

record effective_limit = limit_config +
  el_enabled :: bool

definition list_limits ::
  "uuid \<Rightarrow> uuid \<Rightarrow> nat \<Rightarrow> nat \<Rightarrow> db \<Rightarrow> (neuro_limit list \<times> nat) result" where
  "list_limits c w page limit s =
     result_bind (require_campaign c w s)
       (\<lambda>_. let rows = filter (\<lambda>l. nl_campaign_id l = c) (db_limits s)
            in Inr (page_of page limit (order_desc nl_created_at rows), length rows))"

definition create_limit :: "time \<Rightarrow> uuid \<Rightarrow> uuid \<Rightarrow> limit_payload \<Rightarrow> db \<Rightarrow> neuro_limit result \<times> db" where
  "create_limit now c w p s =
     (case require_campaign c w s of
        Inl e \<Rightarrow> (Inl e, s)
      | Inr _ \<Rightarrow>
          let (i, s1) = new_id s;
              row = \<lparr>nl_id = i, nl_campaign_id = c, nl_scope_type = lp_scope_type p,
                     nl_scope_id = lp_scope_id p, nl_limit_type = lp_limit_type p,
                     nl_max_value = lp_max_value p, nl_window_seconds = lp_window_seconds p,
                     nl_enabled = lp_enabled p, nl_created_at = now, nl_updated_at = now\<rparr>
          in (Inr row, s1\<lparr>db_limits := db_limits s1 @ [row]\<rparr>))"

definition require_limit :: "uuid \<Rightarrow> uuid \<Rightarrow> db \<Rightarrow> neuro_limit result" where
  "require_limit i w s =
     (case find (\<lambda>l. nl_id l = i \<and> campaign_in_workspace (nl_campaign_id l) w s) (db_limits s) of
        None \<Rightarrow> Inl (ValueError ''limit not found'')
      | Some l \<Rightarrow> Inr l)"

fun change_limit :: "limit_change \<Rightarrow> neuro_limit \<Rightarrow> neuro_limit" where
  "change_limit (LScopeType x) l = l\<lparr>nl_scope_type := x\<rparr>"
| "change_limit (LScopeId x) l = l\<lparr>nl_scope_id := x\<rparr>"
| "change_limit (LLimitType x) l = l\<lparr>nl_limit_type := x\<rparr>"
| "change_limit (LMaxValue x) l = l\<lparr>nl_max_value := x\<rparr>"
| "change_limit (LWindowSeconds x) l = l\<lparr>nl_window_seconds := x\<rparr>"
| "change_limit (LEnabled x) l = l\<lparr>nl_enabled := x\<rparr>"

definition update_limit :: "time \<Rightarrow> uuid \<Rightarrow> uuid \<Rightarrow> limit_change list \<Rightarrow> db \<Rightarrow> neuro_limit result \<times> db" where
  "update_limit now i w payload s =
     (case require_limit i w s of
        Inl e \<Rightarrow> (Inl e, s)
      | Inr l \<Rightarrow>
          let row = (fold change_limit payload l)\<lparr>nl_updated_at := now\<rparr>
          in (Inr row, s\<lparr>db_limits := update_where (\<lambda>r. nl_id r = nl_id l) (\<lambda>_. row) (db_limits s)\<rparr>))"

definition delete_limit :: "uuid \<Rightarrow> uuid \<Rightarrow> db \<Rightarrow> unit result \<times> db" where
  "delete_limit i w s =
     (case require_limit i w s of
        Inl e \<Rightarrow> (Inl e, s)
      | Inr l \<Rightarrow> (Inr (), s\<lparr>db_limits := filter (\<lambda>r. nl_id r \<noteq> nl_id l) (db_limits s)\<rparr>))"

definition default_effective ::
  "string \<Rightarrow> string option \<Rightarrow> string \<Rightarrow> int \<Rightarrow> int \<Rightarrow> effective_limit" where
  "default_effective scope_type scope_id limit_type max_value window_seconds =
     \<lparr>lc_scope_type = scope_type, lc_scope_id = scope_id, lc_limit_type = limit_type,
      lc_max_value = max_value, lc_window_seconds = window_seconds, el_enabled = True\<rparr>"

definition service_default_limits :: "limiter_settings \<Rightarrow> string \<Rightarrow> effective_limit list" where
  "service_default_limits cfg campaign_id =
     [default_effective ''campaign'' (Some campaign_id) ''comments_per_hour''
        (default_campaign_comments_per_hour cfg) 3600,
      default_effective ''campaign'' (Some campaign_id) ''comments_per_day''
        (default_campaign_comments_per_day cfg) 86400,
      default_effective ''campaign'' (Some campaign_id) ''min_delay_between_comments''
        (default_min_delay_between_comments_seconds cfg) (default_min_delay_between_comments_seconds cfg),
      default_effective ''account'' None ''comments_per_hour'' (default_account_comments_per_hour cfg) 3600,
      default_effective ''account'' None ''comments_per_day'' (default_account_comments_per_day cfg) 86400,
      default_effective ''target'' None ''comments_per_hour'' (default_target_comments_per_hour cfg) 3600]"

definition explicit_limit :: "neuro_limit \<Rightarrow> effective_limit" where
  "explicit_limit l =
     \<lparr>lc_scope_type = nl_scope_type l, lc_scope_id = nl_scope_id l, lc_limit_type = nl_limit_type l,
      lc_max_value = nl_max_value l, lc_window_seconds = nl_window_seconds l, el_enabled = nl_enabled l\<rparr>"

definition limit_slot :: "effective_limit \<Rightarrow> string \<times> string option \<times> string" where
  "limit_slot l = (lc_scope_type l, lc_scope_id l, lc_limit_type l)"

definition resolve_effective_limits ::
  "limiter_settings \<Rightarrow> uuid \<Rightarrow> uuid \<Rightarrow> db \<Rightarrow> effective_limit list result" where
  "resolve_effective_limits cfg c w s =
     result_bind (require_campaign c w s)
       (\<lambda>campaign.
          let explicit = map explicit_limit (filter (\<lambda>l. nl_campaign_id l = c \<and> nl_enabled l) (db_limits s));
              configured = map limit_slot explicit
          in Inr (explicit @ filter (\<lambda>d. limit_slot d \<notin> set configured)
                    (service_default_limits cfg (uuid_text (nc_id campaign)))))"

text \<open>\<open>_limiter_for_send\<close> on a session: the base limiter with the limits of the campaign.\<close>

definition limiter_for_send :: "rate_limiter \<Rightarrow> uuid \<Rightarrow> uuid \<Rightarrow> db \<Rightarrow> rate_limiter result" where
  "limiter_for_send base c w s =
     result_bind (resolve_effective_limits (rl_settings base) c w s)
       (\<lambda>limits. Inr (base\<lparr>rl_limits := Some (map limit_config.truncate (filter el_enabled limits))\<rparr>))"

section \<open>What is in force\<close>

lemma in_explicit:
  "l \<in> set (map explicit_limit (filter (\<lambda>l. nl_campaign_id l = c \<and> nl_enabled l) (db_limits s))) \<longleftrightarrow>
   (\<exists>r\<in>set (db_limits s). nl_campaign_id r = c \<and> nl_enabled r \<and> l = explicit_limit r)"
  by auto

lemma explicit_enabled: "el_enabled (explicit_limit r) = nl_enabled r"
  by (simp add: explicit_limit_def)

lemma default_enabled: "d \<in> set (service_default_limits cfg cid) \<Longrightarrow> el_enabled d"
  by (auto simp: service_default_limits_def default_effective_def)

lemma resolved_enabled:
  assumes "resolve_effective_limits cfg c w s = Inr ls"
  shows "filter el_enabled ls = ls"
proof -
  have "el_enabled l" if "l \<in> set ls" for l
    using assms that default_enabled
    by (auto simp: resolve_effective_limits_def Let_def result_bind_Inr_iff explicit_enabled)
  then show ?thesis by (simp add: filter_id_conv)
qed

text \<open>Every slot of the defaults is filled: by an explicit row or by the default.\<close>

lemma slot_in_force:
  assumes "resolve_effective_limits cfg c w s = Inr ls"
    and "slot \<in> limit_slot ` set (service_default_limits cfg (uuid_text c))"
  shows "\<exists>y\<in>set ls. limit_slot y = slot"
proof -
  from assms(2) obtain d where d: "d \<in> set (service_default_limits cfg (uuid_text c))" "limit_slot d = slot"
    by blast
  from assms(1) obtain k es where k: "require_campaign c w s = Inr k"
    and ls: "ls = es @ filter (\<lambda>d. limit_slot d \<notin> set (map limit_slot es))
      (service_default_limits cfg (uuid_text (nc_id k)))"
    unfolding resolve_effective_limits_def result_bind_Inr_iff Let_def by blast
  have "nc_id k = c" using require_campaign_Inr [OF k] by simp
  with ls d show ?thesis by (cases "slot \<in> set (map limit_slot es)") auto
qed

section \<open>Matching limits\<close>

text \<open>A limit of the configuration that matches the scope is among the matched ones, in order.\<close>

lemma match_limits_append:
  "match_limits scope (xs @ ys) =
     result_bind (match_limits scope xs) (\<lambda>as. result_bind (match_limits scope ys) (\<lambda>bs. Inr (as @ bs)))"
proof (induction xs)
  case Nil
  then show ?case by (cases "match_limits scope ys") simp_all
next
  case (Cons l xs)
  then show ?case
    by (cases "scope_id_of scope (lc_scope_type l)"; cases "match_limits scope xs"; cases "match_limits scope ys")
      (auto split: option.splits)
qed

lemma match_one:
  assumes "match_limits scope (xs @ l # ys) = Inr ms" and "scope_id_of scope (lc_scope_type l) = Inr (Some i)"
    and "lc_scope_id l = None \<or> lc_scope_id l = Some i"
  obtains as bs where "match_limits scope xs = Inr as" and "match_limits scope ys = Inr bs"
    and "ms = as @ normalized l i # bs"
proof -
  from assms(1) obtain as cs where *: "match_limits scope xs = Inr as" "match_limits scope (l # ys) = Inr cs"
    "ms = as @ cs"
    unfolding match_limits_append result_bind_Inr_iff by blast
  from *(2) assms(2,3) obtain bs where "match_limits scope ys = Inr bs" "cs = normalized l i # bs"
    by (auto simp: result_bind_Inr_iff)
  with * that show thesis by blast
qed

text \<open>Two minimal delays of one scope, in the limits or in the matched limits.\<close>

lemma delay_keys_not_distinct:
  assumes "ms = as @ m1 # bs @ m2 # cs" and "ml_limit_type m1 = ''min_delay_between_comments''"
    and "ml_limit_type m2 = ''min_delay_between_comments''"
    and "ml_scope_type m1 = ml_scope_type m2" and "ml_scope_id m1 = ml_scope_id m2"
  shows "\<not> distinct (map dk_key (last_comment_keys ttl scope ms))"
  using assms by (simp add: last_comment_keys_def)

lemma reserve_needs_distinct_delays:
  assumes ok: "redis_ok cl entries" and enabled: "rl_enabled rl" and closed: "rl_fail_closed rl"
    and run: "fst (limiter_reserve cl rl rid now scope r) = Inr v" and allowed: "rr_allowed v"
  obtains ms where "matching_limits rl scope = Inr ms"
    and "distinct (map dk_key (last_comment_keys (rl_reservation_ttl_seconds rl) scope ms))"
proof -
  obtain r' where res: "limiter_reserve cl rl rid now scope r = (Inr v, r')"
    using run by (metis prod.collapse)
  have w: "reserve_with_redis cl rl rid now scope r = (Inr (Inr v), r')"
    using res enabled closed allowed
    by (auto simp: limiter_reserve_def denied_reservation_def split: prod.splits sum.splits)
  then obtain cd r1 where cd: "active_cooldown cl now scope
       [(''account'', sc_account_id scope), (''target'', sc_target_id scope),
        (''campaign'', Some (sc_campaign_id scope))] r = (Inr cd, r1)"
    unfolding reserve_with_redis_def command_bind_def by (auto split: prod.splits sum.splits)
  have no_cd: "active_cooldown cl now scope ss r = (Inr (Some d), r1) \<Longrightarrow> \<not> rr_allowed d" for ss r r1 d
    by (induction cl now scope ss r arbitrary: r1 rule: active_cooldown.induct)
      (auto simp: command_bind_def command_return_def denied_reservation_def Let_def
        split: prod.splits sum.splits if_splits)
  have cd_none: "cd = None"
  proof (cases cd)
    case (Some d)
    then have "v = d" using w cd unfolding reserve_with_redis_def command_bind_def command_return_def by auto
    with no_cd [OF cd [unfolded Some]] allowed show ?thesis by simp
  qed
  from w cd cd_none obtain ms where limits: "matching_limits rl scope = Inr ms"
    unfolding reserve_with_redis_def command_bind_def command_return_def
    by (auto split: sum.splits)
  obtain cs ps where sp: "split_counter_limits ms = (cs, ps)" by fastforce
  from w cd cd_none limits sp obtain ks where ks: "limit_keys now scope cs = Inr ks"
    unfolding reserve_with_redis_def command_bind_def command_return_def
    by (auto split: sum.splits)
  let ?ttl = "rl_reservation_ttl_seconds rl"
  let ?ds = "last_comment_keys ?ttl scope ms"
  let ?args = "counter_args ?ttl scope cs ks ps"
  let ?run = "reserve_script cl now (reservation_key (sc_workspace_id scope) rid)
    (payload_of ?args (map (parallel_key scope) ps) ?ds) ?ttl ?args ?ds"
  from w cd cd_none limits sp ks obtain answer r2 where script: "client_call cl ?run r1 = (Inr answer, r2)"
    and flag: "sa_flag answer = 1"
    using allowed
    unfolding reserve_with_redis_def command_bind_def command_return_def
    by (auto simp: Let_def denied_reservation_def split: prod.splits sum.splits if_splits)
  obtain r0 where "?run r0 = (Inr answer, r2)"
    using script by (auto simp: client_call_def Let_def split: prod.splits option.splits)
  from script_needs_distinct_delays [OF ok this flag] limits that show thesis by blast
qed

lemma two_in_list:
  assumes "x \<in> set xs" and "y \<in> set xs" and "x \<noteq> y"
  obtains as bs cs where "xs = as @ x # bs @ y # cs" | as bs cs where "xs = as @ y # bs @ x # cs"
proof -
  obtain us vs where xs: "xs = us @ x # vs" using assms(1) by (meson split_list)
  from assms(2,3) xs consider "y \<in> set us" | "y \<in> set vs" by auto
  then show thesis
  proof cases
    case 1
    then obtain as bs where "us = as @ y # bs" by (meson split_list)
    with xs that(2) show ?thesis by simp
  next
    case 2
    then obtain bs cs where "vs = bs @ y # cs" by (meson split_list)
    with xs that(1) show ?thesis by simp
  qed
qed

definition campaign_delay :: "string \<Rightarrow> limit_config \<Rightarrow> bool" where
  "campaign_delay cid l \<longleftrightarrow> lc_scope_type l = ''campaign'' \<and> lc_limit_type l = ''min_delay_between_comments'' \<and>
     (lc_scope_id l = None \<or> lc_scope_id l = Some cid)"

lemma two_campaign_delays:
  assumes "campaign_delay (sc_campaign_id scope) l1" and "campaign_delay (sc_campaign_id scope) l2"
    and "match_limits scope (as @ l1 # bs @ l2 # cs) = Inr ms"
  shows "\<not> distinct (map dk_key (last_comment_keys ttl scope ms))"
proof -
  let ?cid = "sc_campaign_id scope"
  have type: "scope_id_of scope (lc_scope_type l) = Inr (Some ?cid)" if "campaign_delay ?cid l" for l
    using that by (simp add: campaign_delay_def scope_id_of_def)
  have id: "lc_scope_id l = None \<or> lc_scope_id l = Some ?cid" if "campaign_delay ?cid l" for l
    using that by (simp add: campaign_delay_def)
  obtain xs ys where 1: "match_limits scope (bs @ l2 # cs) = Inr ys" "ms = xs @ normalized l1 ?cid # ys"
    using match_one [OF assms(3) type [OF assms(1)] id [OF assms(1)]] by blast
  obtain us vs where 2: "ys = us @ normalized l2 ?cid # vs"
    using match_one [OF 1(1) type [OF assms(2)] id [OF assms(2)]] by blast
  show ?thesis
    by (rule delay_keys_not_distinct [OF 1(2) [unfolded 2]])
      (use assms(1,2) in \<open>simp_all add: campaign_delay_def normalized_def\<close>)
qed

definition grants :: "rate_limit_reservation result \<Rightarrow> bool" where
  "grants x \<longleftrightarrow> (case x of Inl _ \<Rightarrow> False | Inr v \<Rightarrow> rr_allowed v)"

section \<open>Properties\<close>

text \<open>
  C15. An explicit minimal delay stops a campaign. When a campaign has an enabled limit row of type
  \<open>min_delay_between_comments\<close> for scope \<open>campaign\<close> that names no scope id (the default of the API), the
  campaign's own minimal delay (the default one, or a row that names the campaign) stays in force
  next to it; both need the same Redis key, so the limiter the sender builds refuses every
  reservation, whatever Redis holds and whatever the scope is.
\<close>

theorem min_delay_row_jams_campaign:
  assumes ok: "redis_ok cl entries" and "rl_enabled base" and "rl_fail_closed base"
    and row: "row \<in> set (db_limits s)" "nl_campaign_id row = c" "nl_enabled row"
      "nl_scope_type row = ''campaign''" "nl_scope_id row = None"
      "nl_limit_type row = ''min_delay_between_comments''"
    and rl: "limiter_for_send base c w s = Inr rl"
    and scope: "sc_campaign_id scope = uuid_text c"
  shows "\<not> grants (fst (limiter_reserve cl rl rid now scope r))"
proof
  assume "grants (fst (limiter_reserve cl rl rid now scope r))"
  then obtain v where run: "fst (limiter_reserve cl rl rid now scope r) = Inr v" and allowed: "rr_allowed v"
    by (auto simp: grants_def split: sum.splits)
  let ?slot = "(''campaign'', Some (uuid_text c), ''min_delay_between_comments'')"
  obtain ls where ls: "resolve_effective_limits (rl_settings base) c w s = Inr ls"
    and rl': "rl = base\<lparr>rl_limits := Some (map limit_config.truncate ls)\<rparr>"
    using rl resolved_enabled by (auto simp: limiter_for_send_def result_bind_Inr_iff)
  have x: "explicit_limit row \<in> set ls"
    using ls row by (auto simp: resolve_effective_limits_def Let_def result_bind_Inr_iff)
  have "\<exists>y\<in>set ls. limit_slot y = ?slot"
    by (rule slot_in_force [OF ls]) (simp add: service_default_limits_def default_effective_def limit_slot_def)
  then obtain y where y: "y \<in> set ls" "limit_slot y = ?slot" by blast
  have ne: "explicit_limit row \<noteq> y" using y(2) row by (auto simp: limit_slot_def explicit_limit_def)
  have dx: "campaign_delay (sc_campaign_id scope) (limit_config.truncate (explicit_limit row))"
    and dy: "campaign_delay (sc_campaign_id scope) (limit_config.truncate y)"
    using y(2) row scope
    by (auto simp: campaign_delay_def explicit_limit_def limit_slot_def limit_config.truncate_def)
  obtain ms where ms: "matching_limits rl scope = Inr ms"
    and dist: "distinct (map dk_key (last_comment_keys (rl_reservation_ttl_seconds rl) scope ms))"
    using reserve_needs_distinct_delays [OF ok _ _ run allowed] assms(2,3) rl' by auto
  have matched: "match_limits scope (map limit_config.truncate ls) = Inr ms"
    using ms rl' x by (auto simp: matching_limits_def split: if_splits)
  from two_in_list [OF x y(1) ne] show False
  proof cases
    case (1 as bs cs)
    then show False using two_campaign_delays [OF dx dy, of "map limit_config.truncate as"] matched dist by simp
  next
    case (2 as bs cs)
    then show False using two_campaign_delays [OF dy dx, of "map limit_config.truncate as"] matched dist by simp
  qed
qed

text \<open>A running campaign with such a row.\<close>

definition delay_row :: neuro_limit where
  "delay_row = \<lparr>nl_id = 5, nl_campaign_id = 3, nl_scope_type = ''campaign'', nl_scope_id = None,
     nl_limit_type = ''min_delay_between_comments'', nl_max_value = 60, nl_window_seconds = 60,
     nl_enabled = True, nl_created_at = 0, nl_updated_at = 0\<rparr>"

definition jammed_db :: db where
  "jammed_db = empty_db\<lparr>db_campaigns := [some_campaign 3 2], db_limits := [delay_row]\<rparr>"

theorem min_delay_row_jams_campaign_witness:
  "case limiter_for_send hourly_limiter 3 2 jammed_db of
     Inl _ \<Rightarrow> False
   | Inr rl \<Rightarrow> \<not> grants (fst (limiter_reserve store_redis rl ''x'' 0 (some_scope\<lparr>sc_campaign_id := uuid_text 3\<rparr>) []))"
proof -
  obtain rl where rl: "limiter_for_send hourly_limiter 3 2 jammed_db = Inr rl"
    by (simp add: limiter_for_send_def resolve_effective_limits_def jammed_db_def require_campaign_def
        get_campaign_def some_campaign_def)
  have "\<not> grants (fst (limiter_reserve store_redis rl ''x'' 0 (some_scope\<lparr>sc_campaign_id := uuid_text 3\<rparr>) []))"
    by (rule min_delay_row_jams_campaign [OF store_redis_ok _ _ _ _ _ _ _ _ rl, of delay_row])
      (simp_all add: hourly_limiter_def jammed_db_def delay_row_def)
  with rl show ?thesis by simp
qed

end
