(* ===== verification/Numeric.thy ===== *)
theory Numeric
  imports Models
begin

text \<open>
  Python's \<open>round(x, n)\<close> on exact rationals, ties to even, with the facts the scores need: the
  result is a multiple of \<open>10 ^ (- n)\<close>, a multiple is not changed, rounding is monotone and so
  keeps bounds that are multiples themselves. The code computes with binary floating point; the
  two differ only when the exact value is within a float error of a tie.
\<close>

definition round_int :: "rat \<Rightarrow> int" where
  "round_int y =
     (let f = \<lfloor>y\<rfloor>; d = y - of_int f in
      if d < 1 / 2 then f else if d > 1 / 2 then f + 1 else if even f then f else f + 1)"

definition py_round :: "nat \<Rightarrow> rat \<Rightarrow> rat" where
  "py_round n x = of_int (round_int (x * 10 ^ n)) / 10 ^ n"

definition multiple :: "nat \<Rightarrow> rat \<Rightarrow> bool" where
  "multiple n x \<longleftrightarrow> (\<exists>k. x = of_int k / 10 ^ n)"

lemma round_int_of_int [simp]: "round_int (of_int k) = k"
  by (simp add: round_int_def)

lemma round_int_bounds: "\<lfloor>y\<rfloor> \<le> round_int y \<and> round_int y \<le> \<lfloor>y\<rfloor> + 1"
  by (simp add: round_int_def Let_def)

lemma round_int_mono:
  assumes "x \<le> y"
  shows "round_int x \<le> round_int y"
proof (cases "\<lfloor>x\<rfloor> = \<lfloor>y\<rfloor>")
  case True
  then show ?thesis using assms by (simp add: round_int_def Let_def)
next
  case False
  with floor_mono [OF assms] have "\<lfloor>x\<rfloor> + 1 \<le> \<lfloor>y\<rfloor>" by simp
  then show ?thesis using round_int_bounds [of x] round_int_bounds [of y] by linarith
qed

lemma py_round_multiple: "multiple n (py_round n x)"
  by (auto simp: multiple_def py_round_def)

lemma py_round_id: "multiple n x \<Longrightarrow> py_round n x = x"
  by (auto simp: multiple_def py_round_def)

lemma py_round_mono: "x \<le> y \<Longrightarrow> py_round n x \<le> py_round n y"
  by (simp add: py_round_def divide_right_mono round_int_mono)

lemma py_round_ge: "multiple n l \<Longrightarrow> l \<le> x \<Longrightarrow> l \<le> py_round n x"
  using py_round_mono [of l x n] by (simp add: py_round_id)

lemma py_round_le: "multiple n u \<Longrightarrow> x \<le> u \<Longrightarrow> py_round n x \<le> u"
  using py_round_mono [of x u n] by (simp add: py_round_id)

lemma multiple_of_int [simp]: "multiple n (of_int k)"
  unfolding multiple_def by (rule exI [of _ "k * 10 ^ n"]) simp

lemma multiple_numeral [simp]: "multiple n (numeral k)" "multiple n 0" "multiple n 1"
  using multiple_of_int [of n "numeral k"] multiple_of_int [of n 0] multiple_of_int [of n 1] by simp_all

lemma multiple_add: "multiple n x \<Longrightarrow> multiple n y \<Longrightarrow> multiple n (x + y)"
  unfolding multiple_def by (metis add_divide_distrib of_int_add)

lemma multiple_diff: "multiple n x \<Longrightarrow> multiple n y \<Longrightarrow> multiple n (x - y)"
  unfolding multiple_def by (metis diff_divide_distrib of_int_diff)

lemma multiple_max: "multiple n x \<Longrightarrow> multiple n y \<Longrightarrow> multiple n (max x y)"
  by (simp add: max_def)

lemma multiple_min: "multiple n x \<Longrightarrow> multiple n y \<Longrightarrow> multiple n (min x y)"
  by (simp add: min_def)

end
