(* ===== verification/CommentHealth.thy ===== *)
theory CommentHealth
  imports NeuroRepository Numeric
begin

text \<open>
  What the outcome of a comment does to its account and its target, and which targets are allowed:
  \<open>account_health_service.py\<close>, \<open>target_health_service.py\<close>, \<open>rules_policy.py\<close> and
  \<open>channel_rules_service.py\<close> of the neuro-commenting module.
\<close>

section \<open>Accounts\<close>

definition campaign_account_of :: "uuid \<Rightarrow> uuid \<Rightarrow> db \<Rightarrow> campaign_account result" where
  "campaign_account_of c a s =
     (case get_campaign_account c a s of
        None \<Rightarrow> Inl (ValueError ''campaign account not found'')
      | Some r \<Rightarrow> Inr r)"

text \<open>\<open>_stats\<close>: the row of the pair, added when it is not there.\<close>

definition stats_of :: "uuid \<Rightarrow> uuid \<Rightarrow> db \<Rightarrow> account_stats \<times> db" where
  "stats_of c a s =
     (case find (\<lambda>r. as_campaign_id r = c \<and> as_account_id r = a) (db_account_stats s) of
        Some r \<Rightarrow> (r, s)
      | None \<Rightarrow>
          let (i, s1) = new_id s;
              row = \<lparr>as_id = i, as_campaign_id = c, as_account_id = a, as_comments_sent = 0,
                     as_comments_failed = 0, as_flood_wait_count = 0, as_success_rate = 0,
                     as_last_success_at = None, as_last_failure_at = None\<rparr>
          in (row, s1\<lparr>db_account_stats := db_account_stats s1 @ [row]\<rparr>))"

definition put_stats :: "account_stats \<Rightarrow> db \<Rightarrow> db" where
  "put_stats k s = s\<lparr>db_account_stats := update_where (\<lambda>r. as_id r = as_id k) (\<lambda>_. k) (db_account_stats s)\<rparr>"

definition success_rate :: "int \<Rightarrow> int \<Rightarrow> rat" where
  "success_rate sent failed = of_int sent / of_int (max (sent + failed) 1)"

definition record_account_send_success :: "time \<Rightarrow> uuid \<Rightarrow> uuid \<Rightarrow> uuid \<Rightarrow> db \<Rightarrow> unit result \<times> db" where
  "record_account_send_success now c a w s =
     (case require_campaign c w s of
        Inl e \<Rightarrow> (Inl e, s)
      | Inr _ \<Rightarrow>
          (case campaign_account_of c a s of
             Inl e \<Rightarrow> (Inl e, s)
           | Inr r \<Rightarrow>
               let s1 = put_campaign_account (r\<lparr>ca_comments_sent := ca_comments_sent r + 1,
                          ca_last_used_at := Some now, ca_last_error_code := None, ca_status := CAActive\<rparr>) s;
                   (st, s2) = stats_of c a s1;
                   sent = as_comments_sent st + 1
               in (Inr (), put_stats (st\<lparr>as_comments_sent := sent, as_last_success_at := Some now,
                     as_success_rate := success_rate sent (as_comments_failed st)\<rparr>) s2)))"

definition record_account_send_failure ::
  "time \<Rightarrow> uuid \<Rightarrow> uuid \<Rightarrow> uuid \<Rightarrow> string \<Rightarrow> db \<Rightarrow> unit result \<times> db" where
  "record_account_send_failure now c a w error_code s =
     (case require_campaign c w s of
        Inl e \<Rightarrow> (Inl e, s)
      | Inr _ \<Rightarrow>
          (case campaign_account_of c a s of
             Inl e \<Rightarrow> (Inl e, s)
           | Inr r \<Rightarrow>
               let s1 = put_campaign_account (r\<lparr>ca_comments_failed := ca_comments_failed r + 1,
                          ca_last_error_code := Some error_code\<rparr>) s;
                   (st, s2) = stats_of c a s1;
                   failed = as_comments_failed st + 1
               in (Inr (), put_stats (st\<lparr>as_comments_failed := failed, as_last_failure_at := Some now,
                     as_success_rate := success_rate (as_comments_sent st) failed\<rparr>) s2)))"

definition record_account_flood_wait ::
  "time \<Rightarrow> uuid \<Rightarrow> uuid \<Rightarrow> uuid \<Rightarrow> int \<Rightarrow> db \<Rightarrow> unit result \<times> db" where
  "record_account_flood_wait now c a w secs s =
     (case require_campaign c w s of
        Inl e \<Rightarrow> (Inl e, s)
      | Inr _ \<Rightarrow>
          (case campaign_account_of c a s of
             Inl e \<Rightarrow> (Inl e, s)
           | Inr r \<Rightarrow>
               let s1 = put_campaign_account (r\<lparr>ca_status := CACooldown,
                          ca_cooldown_until := Some (now + seconds (max 1 secs)),
                          ca_last_error_code := Some ''FLOOD_WAIT''\<rparr>) s;
                   (st, s2) = stats_of c a s1
               in (Inr (), put_stats (st\<lparr>as_flood_wait_count := as_flood_wait_count st + 1,
                     as_last_failure_at := Some now\<rparr>) s2)))"

section \<open>Targets\<close>

definition failure_delta :: "string \<Rightarrow> rat" where
  "failure_delta error_code =
     (if error_code = ''SEND_FAILED'' then - 10 / 100
      else if error_code = ''FLOOD_WAIT'' then - 25 / 100
      else if error_code = ''COMMENTS_DISABLED'' then - 40 / 100
      else if error_code = ''PERMISSION_DENIED'' then - 30 / 100
      else if error_code = ''DELETED_COMMENT'' then - 20 / 100
      else if error_code = ''NO_DISCUSSION'' then - 30 / 100
      else - 10 / 100)"

definition clamp_health :: "rat \<Rightarrow> rat" where
  "clamp_health x = py_round 4 (min 1 (max 0 x))"

definition target_event :: "time \<Rightarrow> uuid \<Rightarrow> neuro_target \<Rightarrow> string \<Rightarrow> db \<Rightarrow> db" where
  "target_event now w t event_type s =
     write_event now w (no_refs\<lparr>er_campaign := Some (nt_campaign_id t), er_target := Some (nt_id t)\<rparr>) ''info''
       event_type ''neuro commenting target health changed'' [(''health_score'', JNum (nt_health_score t))] s"

text \<open>The four recorders: find the target, rewrite it, log it.\<close>

definition record_target ::
  "(neuro_target \<Rightarrow> neuro_target) \<Rightarrow> time \<Rightarrow> uuid \<Rightarrow> uuid \<Rightarrow> db \<Rightarrow> unit result \<times> db" where
  "record_target f now w t s =
     (case workspace_target t w s of
        Inl e \<Rightarrow> (Inl e, s)
      | Inr r \<Rightarrow> (Inr (), target_event now w (f r) ''target_health_updated'' (put_target (f r) s)))"

definition on_target_success :: "neuro_target \<Rightarrow> neuro_target" where
  "on_target_success r = r\<lparr>nt_success_count := nt_success_count r + 1,
     nt_health_score := clamp_health (nt_health_score r + 5 / 100)\<rparr>"

definition on_target_failure :: "string \<Rightarrow> neuro_target \<Rightarrow> neuro_target" where
  "on_target_failure error_code r = r\<lparr>nt_fail_count := nt_fail_count r + 1,
     nt_health_score := clamp_health (nt_health_score r + failure_delta error_code)\<rparr>"

definition on_target_flood_wait :: "neuro_target \<Rightarrow> neuro_target" where
  "on_target_flood_wait r = r\<lparr>nt_fail_count := nt_fail_count r + 1,
     nt_flood_wait_count := nt_flood_wait_count r + 1,
     nt_health_score := clamp_health (nt_health_score r - 25 / 100)\<rparr>"

definition on_deleted_comment :: "neuro_target \<Rightarrow> neuro_target" where
  "on_deleted_comment r = r\<lparr>nt_deleted_comment_count := nt_deleted_comment_count r + 1,
     nt_health_score := clamp_health (nt_health_score r - 20 / 100)\<rparr>"

definition record_target_success where
  "record_target_success = record_target on_target_success"

definition record_target_failure where
  "record_target_failure error_code = record_target (on_target_failure error_code)"

definition record_target_flood_wait where
  "record_target_flood_wait = record_target on_target_flood_wait"

definition record_target_no_discussion where
  "record_target_no_discussion = record_target_failure ''NO_DISCUSSION''"

definition record_deleted_comment where
  "record_deleted_comment = record_target on_deleted_comment"

definition suggest_rule :: "time \<Rightarrow> uuid \<Rightarrow> neuro_target \<Rightarrow> string \<Rightarrow> db \<Rightarrow> db" where
  "suggest_rule now w t rule_type s =
     (if list_ex (\<lambda>r. cr_workspace_id r = w \<and> cr_target_ref r = nt_channel_ref t \<and> cr_rule_type r = rule_type)
           (db_channel_rules s) then s
      else let (i, s1) = new_id s;
               row = \<lparr>cr_id = i, cr_workspace_id = w, cr_target_ref = nt_channel_ref t,
                      cr_rule_type = rule_type, cr_reason = Some ''target health threshold reached'',
                      cr_created_by = None, cr_created_at = now\<rparr>
           in target_event now w t ''channel_rule_created'' (s1\<lparr>db_channel_rules := db_channel_rules s1 @ [row]\<rparr>))"

definition suggest_rules_for_target :: "time \<Rightarrow> uuid \<Rightarrow> uuid \<Rightarrow> db \<Rightarrow> unit result \<times> db" where
  "suggest_rules_for_target now w t s =
     (case workspace_target t w s of
        Inl e \<Rightarrow> (Inl e, s)
      | Inr r \<Rightarrow>
          let s1 = (if nt_health_score r \<le> 25 / 100 \<and> 3 \<le> nt_fail_count r
                    then suggest_rule now w r ''auto_blacklist_suggested'' s else s);
              s2 = (if 85 / 100 \<le> nt_health_score r \<and> 5 \<le> nt_success_count r \<and> nt_flood_wait_count r = 0
                    then suggest_rule now w r ''auto_whitelist_suggested'' s1 else s1)
          in (Inr (), s2))"

section \<open>Channel rules\<close>

record channel_decision =
  cd_allowed :: bool
  cd_why :: "string option"
  cd_matched_rule_id :: "uuid option"

definition check_target_allowed ::
  "target_status \<Rightarrow> (string \<times> uuid) option \<Rightarrow> bool \<Rightarrow> channel_decision" where
  "check_target_allowed status rule whitelist_required =
     (if status = TPaused then \<lparr>cd_allowed = False, cd_why = Some ''target_paused'', cd_matched_rule_id = None\<rparr>
      else if status \<noteq> TActive
      then \<lparr>cd_allowed = False, cd_why = Some ''target_not_active'', cd_matched_rule_id = None\<rparr>
      else if (case rule of Some (ty, i) \<Rightarrow> ty = ''blacklist'' | None \<Rightarrow> False)
      then \<lparr>cd_allowed = False, cd_why = Some ''blacklisted'', cd_matched_rule_id = map_option snd rule\<rparr>
      else if whitelist_required \<and> (case rule of None \<Rightarrow> True | Some (ty, i) \<Rightarrow> ty \<noteq> ''whitelist'')
      then \<lparr>cd_allowed = False, cd_why = Some ''whitelist_required'', cd_matched_rule_id = None\<rparr>
      else \<lparr>cd_allowed = True, cd_why = None, cd_matched_rule_id = map_option snd rule\<rparr>)"

definition find_rule :: "uuid \<Rightarrow> string \<Rightarrow> db \<Rightarrow> channel_rule option" where
  "find_rule w target_ref s =
     latest_by cr_created_at
       (filter (\<lambda>r. cr_workspace_id r = w \<and> cr_target_ref r = target_ref \<and>
          cr_rule_type r \<in> {''blacklist'', ''whitelist''}) (db_channel_rules s))"

definition target_rule_status :: "uuid \<Rightarrow> string \<Rightarrow> db \<Rightarrow> string" where
  "target_rule_status w target_ref s =
     (case find_rule w target_ref s of None \<Rightarrow> ''none'' | Some r \<Rightarrow> cr_rule_type r)"

definition evaluate_target_allowed :: "uuid \<Rightarrow> neuro_target \<Rightarrow> bool \<Rightarrow> db \<Rightarrow> channel_decision" where
  "evaluate_target_allowed w t whitelist_required s =
     check_target_allowed (nt_status t)
       (map_option (\<lambda>r. (cr_rule_type r, cr_id r)) (find_rule w (nt_channel_ref t) s)) whitelist_required"

definition rule_event_type :: "string \<Rightarrow> string" where
  "rule_event_type rule_type =
     (if rule_type = ''blacklist'' then ''target_blacklisted''
      else if rule_type = ''whitelist'' then ''target_whitelisted''
      else ''channel_rule_created'')"

definition create_rule ::
  "time \<Rightarrow> uuid \<Rightarrow> uuid option \<Rightarrow> string \<Rightarrow> string \<Rightarrow> string option \<Rightarrow> db \<Rightarrow> channel_rule \<times> db" where
  "create_rule now w actor ref rule_type reason s =
     (let target_ref = strip ref in
      case latest_by cr_created_at (filter (\<lambda>r. cr_workspace_id r = w \<and> cr_target_ref r = target_ref \<and>
             cr_rule_type r = rule_type) (db_channel_rules s)) of
        Some existing \<Rightarrow> (existing, s)
      | None \<Rightarrow>
          let (i, s1) = new_id s;
              row = \<lparr>cr_id = i, cr_workspace_id = w, cr_target_ref = target_ref, cr_rule_type = rule_type,
                     cr_reason = reason, cr_created_by = actor, cr_created_at = now\<rparr>;
              s2 = s1\<lparr>db_channel_rules := db_channel_rules s1 @ [row]\<rparr>
          in (row, write_event now w no_refs ''info'' (rule_event_type rule_type)
                ''neuro commenting channel rule created''
                [(''rule_id'', JInt (int i)), (''target_ref'', JStr target_ref), (''rule_type'', JStr rule_type)] s2))"

definition delete_rule :: "time \<Rightarrow> uuid \<Rightarrow> uuid \<Rightarrow> db \<Rightarrow> unit result \<times> db" where
  "delete_rule now w rule_id s =
     (case find (\<lambda>r. cr_id r = rule_id \<and> cr_workspace_id r = w) (db_channel_rules s) of
        None \<Rightarrow> (Inl (ValueError ''channel rule not found''), s)
      | Some r \<Rightarrow>
          (Inr (), write_event now w no_refs ''info'' ''channel_rule_deleted''
             ''neuro commenting channel rule deleted''
             [(''rule_id'', JInt (int rule_id)), (''target_ref'', JStr (cr_target_ref r))]
             (s\<lparr>db_channel_rules := filter (\<lambda>x. cr_id x \<noteq> cr_id r) (db_channel_rules s)\<rparr>)))"

definition set_target_status ::
  "target_status \<Rightarrow> string \<Rightarrow> string \<Rightarrow> time \<Rightarrow> uuid \<Rightarrow> uuid \<Rightarrow> json \<Rightarrow> db \<Rightarrow> neuro_target result \<times> db" where
  "set_target_status status event_type msg now t w actor s =
     (case workspace_target t w s of
        Inl e \<Rightarrow> (Inl e, s)
      | Inr r \<Rightarrow>
          let row = r\<lparr>nt_status := status\<rparr>
          in (Inr row, write_event now w
                (no_refs\<lparr>er_campaign := Some (nt_campaign_id row), er_target := Some (nt_id row)\<rparr>) ''info''
                event_type msg [(''actor_user_id'', actor)] (put_target row s)))"

definition pause_target where
  "pause_target = set_target_status TPaused ''target_paused'' ''neuro commenting target paused''"

definition resume_target where
  "resume_target = set_target_status TActive ''target_resumed'' ''neuro commenting target resumed''"

section \<open>Histories of targets\<close>

inductive target_step :: "db \<Rightarrow> db \<Rightarrow> bool" where
  success: "target_step s (snd (record_target_success now w t s))"
| failure: "target_step s (snd (record_target_failure code now w t s))"
| flood: "target_step s (snd (record_target_flood_wait now w t s))"
| deleted: "target_step s (snd (record_deleted_comment now w t s))"
| suggest: "target_step s (snd (suggest_rules_for_target now w t s))"
| pause: "target_step s (snd (pause_target now t w actor s))"
| resume: "target_step s (snd (resume_target now t w actor s))"
| rule: "target_step s (snd (create_rule now w user ref ty reason s))"
| unrule: "target_step s (snd (delete_rule now w i s))"

definition target_ok :: "neuro_target \<Rightarrow> bool" where
  "target_ok r \<longleftrightarrow>
     0 \<le> nt_health_score r \<and> nt_health_score r \<le> 1 \<and> multiple 4 (nt_health_score r) \<and>
     0 \<le> nt_success_count r \<and> 0 \<le> nt_deleted_comment_count r \<and>
     0 \<le> nt_flood_wait_count r \<and> nt_flood_wait_count r \<le> nt_fail_count r"

definition rule_key :: "channel_rule \<Rightarrow> uuid \<times> string \<times> string" where
  "rule_key r = (cr_workspace_id r, cr_target_ref r, cr_rule_type r)"

definition targets_ok :: "db \<Rightarrow> bool" where
  "targets_ok s \<longleftrightarrow> list_all target_ok (db_targets s) \<and> distinct (map rule_key (db_channel_rules s))"

lemma clamp_bounds: "0 \<le> clamp_health x" "clamp_health x \<le> 1" "multiple 4 (clamp_health x)"
  unfolding clamp_health_def
  by (rule py_round_ge, simp, simp) (rule py_round_le, simp, simp, rule py_round_multiple)

lemma target_changes_ok:
  "target_ok r \<Longrightarrow> target_ok (on_target_success r)" "target_ok r \<Longrightarrow> target_ok (on_target_failure code r)"
  "target_ok r \<Longrightarrow> target_ok (on_target_flood_wait r)" "target_ok r \<Longrightarrow> target_ok (on_deleted_comment r)"
  "target_ok (r\<lparr>nt_status := st\<rparr>) = target_ok r"
  by (simp_all add: target_ok_def clamp_bounds on_target_success_def on_target_failure_def
      on_target_flood_wait_def on_deleted_comment_def)

lemma workspace_target_mem:
  "workspace_target t w s = Inr r \<Longrightarrow> r \<in> set (db_targets s) \<and> nt_id r = t \<and> campaign_in_workspace (nt_campaign_id r) w s"
  by (auto simp: workspace_target_def split: option.splits dest: find_mem)

lemma put_target_ok: "targets_ok s \<Longrightarrow> target_ok k \<Longrightarrow> targets_ok (put_target k s)"
  by (auto simp: targets_ok_def put_target_def list_all_iff query_simps)

lemma event_targets_ok [simp]:
  "targets_ok (write_event now w refs level ty msg data s) = targets_ok s"
  "targets_ok (target_event now w r ty s) = targets_ok s"
  by (simp_all add: targets_ok_def write_event_view target_event_def)

lemma workspace_target_ok: "targets_ok s \<Longrightarrow> workspace_target t w s = Inr r \<Longrightarrow> target_ok r"
  using workspace_target_mem [of t w s r] by (auto simp: targets_ok_def list_all_iff)

lemma record_target_ok:
  "targets_ok s \<Longrightarrow> (\<And>r. target_ok r \<Longrightarrow> target_ok (f r)) \<Longrightarrow> targets_ok (snd (record_target f now w t s))"
  by (cases "workspace_target t w s")
    (simp_all add: record_target_def put_target_ok workspace_target_ok)

lemma set_status_ok: "targets_ok s \<Longrightarrow> targets_ok (snd (set_target_status st ty msg now t w actor s))"
  by (cases "workspace_target t w s")
    (simp_all add: set_target_status_def Let_def put_target_ok target_changes_ok workspace_target_ok)

lemma suggest_rule_ok: "targets_ok s \<Longrightarrow> targets_ok (suggest_rule now w r ty s)"
  by (auto simp: suggest_rule_def new_id_def Let_def targets_ok_def target_event_def write_event_view
      rule_key_def list_ex_iff)

lemma create_rule_ok: "targets_ok s \<Longrightarrow> targets_ok (snd (create_rule now w user ref ty reason s))"
  by (auto simp: create_rule_def new_id_def Let_def targets_ok_def write_event_view rule_key_def latest_by_None
      filter_empty_conv split: option.split)

lemma target_step_keeps: "target_step s s' \<Longrightarrow> targets_ok s \<Longrightarrow> targets_ok s'"
proof (induction rule: target_step.induct)
  case (unrule s now w i)
  then show ?case
    by (auto simp: delete_rule_def targets_ok_def write_event_view distinct_map_filter split: option.split)
qed (auto simp: record_target_success_def record_target_failure_def record_target_flood_wait_def
    record_deleted_comment_def suggest_rules_for_target_def pause_target_def resume_target_def Let_def
    record_target_ok target_changes_ok set_status_ok suggest_rule_ok create_rule_ok split: sum.split)

section \<open>Properties\<close>

text \<open>
  C25. Target health stays in range. Through every sequence of outcomes, suggestions, pauses and rule
  changes the health score of every target is between 0 and 1 with at most four decimals, no target
  has more flood waits than failures, and no workspace has two rules of one type for one channel.
\<close>

theorem target_health_invariant:
  assumes "targets_ok s0" and "target_step\<^sup>*\<^sup>* s0 s" and "r \<in> set (db_targets s)"
  shows "0 \<le> nt_health_score r \<and> nt_health_score r \<le> 1 \<and> multiple 4 (nt_health_score r) \<and>
    nt_flood_wait_count r \<le> nt_fail_count r \<and> distinct (map rule_key (db_channel_rules s))"
proof -
  from assms(2,1) have "targets_ok s"
    by (induction rule: rtranclp_induct) (auto dest: target_step_keeps)
  with assms(3) show ?thesis by (auto simp: targets_ok_def list_all_iff target_ok_def)
qed

definition some_target :: "uuid \<Rightarrow> uuid \<Rightarrow> neuro_target" where
  "some_target t c =
     \<lparr>nt_id = t, nt_campaign_id = c, nt_channel_ref = ''@news'', nt_discussion_chat_id = Some ''100'',
      nt_status = TActive, nt_last_commented_at = None, nt_health_score = 1, nt_success_count = 0,
      nt_fail_count = 0, nt_deleted_comment_count = 0, nt_flood_wait_count = 0\<rparr>"

theorem target_health_invariant_witness:
  "list_all (\<lambda>r. nt_health_score r \<le> 1 \<and> nt_flood_wait_count r \<le> nt_fail_count r)
     (db_targets (snd (record_target_flood_wait 5 2 4 (empty_db\<lparr>db_campaigns := [some_campaign 3 2], db_targets := [some_target 4 3]\<rparr>))))"
proof -
  let ?start = "empty_db\<lparr>db_campaigns := [some_campaign 3 2], db_targets := [some_target 4 3]\<rparr>"
  have ok: "targets_ok ?start" by (simp add: targets_ok_def target_ok_def some_target_def empty_db_def)
  let ?s = "snd (record_target_flood_wait 5 2 4 ?start)"
  have "target_step ?start ?s" by (rule target_step.flood)
  then have "target_step\<^sup>*\<^sup>* ?start ?s" by (rule r_into_rtranclp)
  from target_health_invariant [OF ok this] show ?thesis by (auto simp: list_all_iff)
qed

text \<open>
  A channel that was blacklisted and then whitelisted cannot be blacklisted again: the newer rule
  decides, and creating the blacklist rule once more returns the old rule unchanged, so the target
  stays allowed.
\<close>

theorem second_blacklisting_is_ignored:
  assumes "old \<in> set (db_channel_rules s)" and "cr_workspace_id old = w" and "cr_target_ref old = strip ref"
    and "cr_rule_type old = ''blacklist''"
    and "find_rule w (strip ref) s = Some newer" and "cr_rule_type newer = ''whitelist''"
    and "nt_status t = TActive" and "nt_channel_ref t = strip ref"
  shows "snd (create_rule now w actor ref ''blacklist'' reason s) = s \<and>
    cd_allowed (evaluate_target_allowed w t required (snd (create_rule now w actor ref ''blacklist'' reason s)))"
proof -
  let ?rows = "filter (\<lambda>r. cr_workspace_id r = w \<and> cr_target_ref r = strip ref \<and> cr_rule_type r = ''blacklist'')
    (db_channel_rules s)"
  have "old \<in> set ?rows" using assms by simp
  then have "latest_by cr_created_at ?rows \<noteq> None" unfolding latest_by_None by (metis empty_iff list.set(1))
  then obtain e where "latest_by cr_created_at ?rows = Some e" by blast
  then have "snd (create_rule now w actor ref ''blacklist'' reason s) = s" by (simp add: create_rule_def Let_def)
  with assms show ?thesis by (simp add: evaluate_target_allowed_def check_target_allowed_def)
qed

theorem second_blacklisting_is_ignored_witness:
  "let s1 = snd (create_rule 10 2 None ''@news'' ''blacklist'' None empty_db);
       s2 = snd (create_rule 20 2 None ''@news'' ''whitelist'' None s1);
       s3 = snd (create_rule 30 2 None ''@news'' ''blacklist'' None s2)
   in s3 = s2 \<and> cd_allowed (evaluate_target_allowed 2 (some_target 4 3) True s3)"
proof -
  let ?s1 = "snd (create_rule 10 2 None ''@news'' ''blacklist'' None empty_db)"
  let ?s2 = "snd (create_rule 20 2 None ''@news'' ''whitelist'' None ?s1)"
  have ref: "strip ''@news'' = ''@news''" by code_simp
  let ?row = "\<lambda>i ty t. \<lparr>cr_id = i, cr_workspace_id = 2, cr_target_ref = ''@news'', cr_rule_type = ty,
    cr_reason = None, cr_created_by = None, cr_created_at = t\<rparr>"
  have rules: "db_channel_rules ?s2 = [?row 1 ''blacklist'' 10, ?row 3 ''whitelist'' 20]"
    by (simp add: create_rule_def ref new_id_def write_event_view empty_db_def Let_def)
  show ?thesis
    unfolding Let_def
    by (rule second_blacklisting_is_ignored [where old = "?row 1 ''blacklist'' 10" and newer = "?row 3 ''whitelist'' 20"])
      (simp_all add: rules ref find_rule_def some_target_def)
qed

end
