(* ===== verification/AccountSelector.thy ===== *)
theory AccountSelector
  imports CommentLimits CommentHealth "HOL-Library.Product_Lexorder" "HOL-Library.Option_ord" "HOL-Library.Multiset"
begin

text \<open>
  Which account of a campaign writes the next comment: \<open>neuro_commenting/account_selector.py\<close>. The
  random generator is a parameter: \<open>rng.random()\<close> is a number in the interval from 0 to 1 and
  \<open>rng.choice\<close> an index into the list.
\<close>

section \<open>The selector\<close>

definition HARD_ERROR_CODES :: "string set" where
  "HARD_ERROR_CODES = {''AUTH_FAILED'', ''SESSION_REVOKED'', ''PHONE_BANNED'', ''ACCOUNT_BANNED''}"

definition READY_ACCOUNT_STATES :: "account_state set" where
  "READY_ACCOUNT_STATES = {AuthorizedReady, ExecutionUsable}"

definition READY_RUNTIME_HEALTH :: "string set" where
  "READY_RUNTIME_HEALTH = {''ready'', ''usable''}"

text \<open>\<open>DefaultAccountReadinessProvider.is_ready\<close>.\<close>

definition account_ready :: "uuid \<Rightarrow> db \<Rightarrow> bool" where
  "account_ready a s =
     (case find (\<lambda>r. acc_id r = a) (db_accounts s) of
        None \<Rightarrow> False
      | Some acc \<Rightarrow>
          acc_account_state acc \<in> READY_ACCOUNT_STATES \<and>
          (case acc_runtime_state acc of
             None \<Rightarrow> False
           | Some rt \<Rightarrow> rs_session_present rt \<and> rs_runtime_health rt \<in> READY_RUNTIME_HEALTH))"

record 'r selector =
  sl_redis :: "'r redis"
  sl_limiter :: "rate_limiter option"
  sl_random :: rat
  sl_choice :: "nat \<Rightarrow> nat"

record selection =
  sel_account :: "campaign_account option"
  sel_reason :: "string option"
  sel_considered :: nat
  sel_skipped :: "(uuid \<times> string) list"

definition skip_reason :: "time \<Rightarrow> neuro_campaign \<Rightarrow> db \<Rightarrow> campaign_account \<Rightarrow> string option" where
  "skip_reason now campaign s m =
     (if ca_status m \<noteq> CAActive then Some ''inactive''
      else if (case find (\<lambda>r. acc_id r = ca_account_id m) (db_accounts s) of
                 None \<Rightarrow> True | Some acc \<Rightarrow> acc_workspace_id acc \<noteq> nc_workspace_id campaign)
      then Some ''workspace_mismatch''
      else if (case ca_cooldown_until m of None \<Rightarrow> False | Some u \<Rightarrow> now < u) then Some ''cooldown''
      else if (case ca_last_error_code m of None \<Rightarrow> False | Some e \<Rightarrow> e \<in> HARD_ERROR_CODES)
      then Some ''recent_hard_error''
      else None)"

definition is_target_blocked :: "neuro_campaign \<Rightarrow> db \<Rightarrow> neuro_target \<Rightarrow> bool" where
  "is_target_blocked campaign s target \<longleftrightarrow>
     \<not> cd_allowed (evaluate_target_allowed (nc_workspace_id campaign) target False s)"

text \<open>A reservation is taken and given back at once.\<close>

definition is_rate_limited ::
  "'r selector \<Rightarrow> time \<Rightarrow> neuro_campaign \<Rightarrow> campaign_account \<Rightarrow> neuro_target option \<Rightarrow> db \<times> 'r \<Rightarrow>
   bool result \<times> db \<times> 'r" where
  "is_rate_limited sl now campaign m target sr =
     (case sl_limiter sl of
        None \<Rightarrow> (Inr False, sr)
      | Some rl \<Rightarrow>
          let (s, r) = sr;
              (i, s1) = new_id s;
              scope = \<lparr>sc_workspace_id = uuid_text (nc_workspace_id campaign),
                       sc_campaign_id = uuid_text (nc_id campaign),
                       sc_account_id = Some (uuid_text (ca_account_id m)),
                       sc_target_id = map_option (\<lambda>t. uuid_text (nt_id t)) target,
                       sc_campaign_account_id = Some (uuid_text (ca_id m)), sc_campaign_target_id = None\<rparr>;
              (v, r1) = limiter_reserve (sl_redis sl) rl (uuid_text i) now scope r
          in (case v of
                Inl e \<Rightarrow> (Inl e, s1, r1)
              | Inr rv \<Rightarrow>
                  if \<not> rr_allowed rv then (Inr True, s1, r1)
                  else (Inr False, s1, limiter_rollback (sl_redis sl) now rv r1)))"

text \<open>Why an account is passed over; the limiter is asked last, and only when nothing else speaks.\<close>

definition static_reason ::
  "time \<Rightarrow> neuro_campaign \<Rightarrow> neuro_target option \<Rightarrow> db \<Rightarrow> campaign_account \<Rightarrow> string option" where
  "static_reason now campaign target s m =
     (case skip_reason now campaign s m of
        Some x \<Rightarrow> Some x
      | None \<Rightarrow>
          if \<not> account_ready (ca_account_id m) s then Some ''runtime_not_ready''
          else if (case target of None \<Rightarrow> False | Some t \<Rightarrow> is_target_blocked campaign s t)
          then Some ''blacklisted_for_target''
          else None)"

fun sift_accounts ::
  "'r selector \<Rightarrow> time \<Rightarrow> neuro_campaign \<Rightarrow> neuro_target option \<Rightarrow> campaign_account list \<Rightarrow> db \<times> 'r \<Rightarrow>
   (campaign_account list \<times> (uuid \<times> string) list) result \<times> db \<times> 'r" where
  "sift_accounts sl now campaign target [] sr = (Inr ([], []), sr)"
| "sift_accounts sl now campaign target (m # ms) sr =
     (let (x, sr1) = (case static_reason now campaign target (fst sr) m of
                        Some why \<Rightarrow> (Inr (Some why), sr)
                      | None \<Rightarrow>
                          (case is_rate_limited sl now campaign m target sr of
                             (Inl e, sr1) \<Rightarrow> (Inl e, sr1)
                           | (Inr b, sr1) \<Rightarrow> (Inr (if b then Some ''rate_limited'' else None), sr1)))
      in case x of
           Inl e \<Rightarrow> (Inl e, sr1)
         | Inr why \<Rightarrow>
             (case sift_accounts sl now campaign target ms sr1 of
                (Inl e, sr2) \<Rightarrow> (Inl e, sr2)
              | (Inr (eligible, skipped), sr2) \<Rightarrow>
                  (Inr (case why of None \<Rightarrow> (m # eligible, skipped)
                                  | Some w \<Rightarrow> (eligible, (ca_account_id m, w) # skipped)), sr2)))"

text \<open>\<open>_weighted\<close>: the account in whose share of the total the threshold falls.\<close>

definition rotation_weight :: "campaign_account \<Rightarrow> int" where
  "rotation_weight m = max 1 (ca_rotation_weight m)"

fun weighted_from :: "rat \<Rightarrow> int \<Rightarrow> campaign_account list \<Rightarrow> campaign_account option" where
  "weighted_from threshold cursor [] = None"
| "weighted_from threshold cursor (m # ms) =
     (let cursor1 = cursor + rotation_weight m
      in if threshold < of_int cursor1 then Some m else weighted_from threshold cursor1 ms)"

definition weighted :: "'r selector \<Rightarrow> campaign_account list \<Rightarrow> campaign_account" where
  "weighted sl ms =
     (case weighted_from (sl_random sl * of_int (\<Sum>m\<leftarrow>ms. rotation_weight m)) 0 ms of
        Some m \<Rightarrow> m | None \<Rightarrow> last ms)"

text \<open>An account never used comes first: \<open>_last_used\<close> gives it the earliest moment.\<close>

definition select_by_strategy :: "'r selector \<Rightarrow> string \<Rightarrow> campaign_account list \<Rightarrow> campaign_account" where
  "select_by_strategy sl strategy ms =
     (if strategy = ''weighted'' then weighted sl ms
      else if strategy = ''least_used'' then arg_min_list (\<lambda>m. (ca_comments_sent m, ca_last_used_at m)) ms
      else if strategy = ''random'' then ms ! sl_choice sl (length ms)
      else arg_min_list (\<lambda>m. (ca_rotation_order m, ca_last_used_at m)) ms)"

definition select_account ::
  "'r selector \<Rightarrow> time \<Rightarrow> neuro_campaign \<Rightarrow> campaign_account list \<Rightarrow> neuro_target option \<Rightarrow> db \<times> 'r \<Rightarrow>
   selection result \<times> db \<times> 'r" where
  "select_account sl now campaign accounts target sr =
     (case sift_accounts sl now campaign target accounts sr of
        (Inl e, sr1) \<Rightarrow> (Inl e, sr1)
      | (Inr (eligible, skipped), sr1) \<Rightarrow>
          (Inr \<lparr>sel_account = (if eligible = [] then None
                               else Some (select_by_strategy sl (nc_rotation_strategy campaign) eligible)),
                sel_reason = (if eligible = [] then Some ''no_eligible_account'' else None),
                sel_considered = length accounts, sel_skipped = skipped\<rparr>, sr1))"

section \<open>Shares of the weighted strategy\<close>

definition weight_before :: "nat \<Rightarrow> campaign_account list \<Rightarrow> int" where
  "weight_before i ms = (\<Sum>m\<leftarrow>take i ms. rotation_weight m)"

lemma weighted_from_share:
  assumes "of_int c \<le> x" and "x < of_int (c + (\<Sum>m\<leftarrow>ms. rotation_weight m))"
  shows "\<exists>i<length ms. weighted_from x c ms = Some (ms ! i) \<and>
    of_int (c + weight_before i ms) \<le> x \<and> x < of_int (c + weight_before (Suc i) ms)"
  using assms
proof (induction ms arbitrary: c)
  case (Cons m ms)
  show ?case
  proof (cases "x < of_int (c + rotation_weight m)")
    case True
    then show ?thesis using Cons.prems(1) by (intro exI [of _ 0]) (simp add: weight_before_def Let_def)
  next
    case False
    then obtain i where "i < length ms" "weighted_from x (c + rotation_weight m) ms = Some (ms ! i)"
      "of_int (c + rotation_weight m + weight_before i ms) \<le> x"
      "x < of_int (c + rotation_weight m + weight_before (Suc i) ms)"
      using Cons.IH [of "c + rotation_weight m"] Cons.prems(2) by (auto simp: algebra_simps)
    then show ?thesis using False by (intro exI [of _ "Suc i"]) (simp add: weight_before_def Let_def add.assoc)
  qed
qed simp

lemma rotation_weight_pos: "0 < rotation_weight m"
  by (simp add: rotation_weight_def)

lemma total_weight_pos: "ms \<noteq> [] \<Longrightarrow> 0 < (\<Sum>m\<leftarrow>ms. rotation_weight m)"
proof (induction ms)
  case (Cons m ms)
  then show ?case using rotation_weight_pos [of m] by (cases "ms = []") simp_all
qed simp

text \<open>
  The weighted strategy gives every account its share: with a random number between 0 and 1 it picks
  the account whose interval, of the length of its weight and in the order of the list, contains the
  random part of the total; the fallback to the last account is never taken.
\<close>

theorem weighted_picks_by_share:
  assumes "ms \<noteq> []" and "0 \<le> sl_random sl" and "sl_random sl < 1"
  shows "\<exists>i<length ms. weighted sl ms = ms ! i \<and>
    of_int (weight_before i ms) \<le> sl_random sl * of_int (\<Sum>m\<leftarrow>ms. rotation_weight m) \<and>
    sl_random sl * of_int (\<Sum>m\<leftarrow>ms. rotation_weight m) < of_int (weight_before i ms + rotation_weight (ms ! i))"
proof -
  let ?total = "\<Sum>m\<leftarrow>ms. rotation_weight m"
  have "0 < ?total" using assms(1) by (rule total_weight_pos)
  then have "0 \<le> sl_random sl * of_int ?total" "sl_random sl * of_int ?total < of_int ?total"
    using assms(2,3) by (simp_all add: mult_less_cancel_right)
  then obtain i where "i < length ms" "weighted_from (sl_random sl * of_int ?total) 0 ms = Some (ms ! i)"
    "of_int (weight_before i ms) \<le> sl_random sl * of_int ?total"
    "sl_random sl * of_int ?total < of_int (weight_before (Suc i) ms)"
    using weighted_from_share [of 0 "sl_random sl * of_int ?total" ms] by auto
  then show ?thesis by (intro exI [of _ i]) (simp add: weighted_def weight_before_def take_Suc_conv_app_nth)
qed

text \<open>Two accounts of weights 1 and 3: a random number of one half falls into the share of the second.\<close>

definition some_member :: "uuid \<Rightarrow> int \<Rightarrow> campaign_account" where
  "some_member i weight = \<lparr>ca_id = i, ca_campaign_id = 3, ca_account_id = i, ca_status = CAActive,
     ca_rotation_weight = weight, ca_rotation_order = 0, ca_comments_sent = 0, ca_comments_failed = 0,
     ca_last_used_at = None, ca_cooldown_until = None, ca_last_error_code = None\<rparr>"

definition half_selector :: "(string \<times> entry) list selector" where
  "half_selector = \<lparr>sl_redis = store_redis, sl_limiter = None, sl_random = 1 / 2, sl_choice = (\<lambda>_. 0)\<rparr>"

theorem weighted_picks_by_share_witness:
  "weighted half_selector [some_member 5 1, some_member 6 3] = some_member 6 3"
proof -
  let ?ms = "[some_member 5 1, some_member 6 3]"
  obtain i where "i < length ?ms" "weighted half_selector ?ms = ?ms ! i"
    "of_int (weight_before i ?ms) \<le> sl_random half_selector * of_int (\<Sum>m\<leftarrow>?ms. rotation_weight m)"
    "sl_random half_selector * of_int (\<Sum>m\<leftarrow>?ms. rotation_weight m) < of_int (weight_before i ?ms + rotation_weight (?ms ! i))"
    using weighted_picks_by_share [of ?ms half_selector] by (auto simp: half_selector_def)
  moreover have "i = 0 \<or> i = 1" using \<open>i < length ?ms\<close> by auto
  ultimately show ?thesis
    by (auto simp: half_selector_def rotation_weight_def weight_before_def some_member_def)
qed

section \<open>Selection\<close>

lemma static_reason_new_id: "static_reason now campaign target (snd (new_id s)) = static_reason now campaign target s"
  by (simp add: fun_eq_iff static_reason_def skip_reason_def account_ready_def is_target_blocked_def
      evaluate_target_allowed_def find_rule_def new_id_def cong: option.case_cong)

lemma is_rate_limited_reason:
  "is_rate_limited sl now campaign m target sr = (x, sr1) \<Longrightarrow>
     static_reason now campaign target (fst sr1) = static_reason now campaign target (fst sr)"
  using static_reason_new_id [of now campaign target "fst sr"]
  by (auto simp: is_rate_limited_def new_id_def Let_def split: option.splits prod.splits sum.splits if_splits)

text \<open>Every account is either eligible or skipped, and an eligible one has nothing against it.\<close>

lemma sift_accounts_spec:
  assumes "sift_accounts sl now campaign target ms sr = (Inr (eligible, skipped), sr1)"
  shows "set eligible \<subseteq> {m \<in> set ms. static_reason now campaign target (fst sr) m = None} \<and>
    length eligible + length skipped = length ms \<and>
    mset (map fst skipped) + mset (map ca_account_id eligible) = mset (map ca_account_id ms)"
  using assms
proof (induction ms arbitrary: sr eligible skipped)
  case (Cons m ms)
  have "\<exists>why sr2 e2 k2. sift_accounts sl now campaign target ms sr2 = (Inr (e2, k2), sr1) \<and>
      static_reason now campaign target (fst sr2) = static_reason now campaign target (fst sr) \<and>
      (case why of None \<Rightarrow> static_reason now campaign target (fst sr) m = None \<and> eligible = m # e2 \<and> skipped = k2
                 | Some w \<Rightarrow> eligible = e2 \<and> skipped = (ca_account_id m, w) # k2)"
  proof (cases "static_reason now campaign target (fst sr) m")
    case (Some w)
    then show ?thesis using Cons.prems
      by (intro exI [of _ "Some w"] exI [of _ sr]) (auto split: prod.splits sum.splits)
  next
    case None
    obtain x sr2 where l: "is_rate_limited sl now campaign m target sr = (x, sr2)"
      by (metis surj_pair)
    then obtain b where "x = Inr b" using Cons.prems None by (cases x) simp_all
    then show ?thesis using Cons.prems None l is_rate_limited_reason [OF l]
      by (intro exI [of _ "if b then Some ''rate_limited'' else None"] exI [of _ sr2])
        (auto split: prod.splits sum.splits if_splits)
  qed
  then obtain why sr2 e2 k2 where rest: "sift_accounts sl now campaign target ms sr2 = (Inr (e2, k2), sr1)"
    and same: "static_reason now campaign target (fst sr2) = static_reason now campaign target (fst sr)"
    and why: "case why of None \<Rightarrow> static_reason now campaign target (fst sr) m = None \<and> eligible = m # e2 \<and> skipped = k2
                       | Some w \<Rightarrow> eligible = e2 \<and> skipped = (ca_account_id m, w) # k2"
    by blast
  show ?case using Cons.IH [OF rest] why by (cases why) (auto simp: same)
qed simp

lemma select_by_strategy_mem:
  assumes "ms \<noteq> []" and "sl_choice sl (length ms) < length ms" and "0 \<le> sl_random sl" and "sl_random sl < 1"
  shows "select_by_strategy sl strategy ms \<in> set ms"
proof -
  obtain i where "i < length ms" "weighted sl ms = ms ! i" using weighted_picks_by_share assms(1,3,4) by blast
  then show ?thesis using assms(1,2) by (auto simp: select_by_strategy_def arg_min_list_in)
qed

text \<open>
  The selector is sound and complete: the account it returns is one of the candidates, active, of the
  workspace, not in cooldown, without a hard error, ready to run and with a target the rules allow; it
  returns none exactly when every candidate was skipped, and it lists each skipped one with its reason.
\<close>

theorem select_account_sound:
  assumes "select_account sl now campaign accounts target sr = (Inr sel, sr1)"
    and "\<And>n. 0 < n \<Longrightarrow> sl_choice sl n < n" and "0 \<le> sl_random sl" and "sl_random sl < 1"
  shows "(case sel_account sel of
            None \<Rightarrow> length (sel_skipped sel) = length accounts \<and> sel_reason sel = Some ''no_eligible_account''
          | Some m \<Rightarrow> m \<in> set accounts \<and> ca_status m = CAActive \<and> account_ready (ca_account_id m) (fst sr) \<and>
              static_reason now campaign target (fst sr) m = None \<and>
              length (sel_skipped sel) < length accounts \<and> sel_reason sel = None) \<and>
    set (map fst (sel_skipped sel)) \<subseteq> ca_account_id ` set accounts"
proof -
  obtain eligible skipped where sift: "sift_accounts sl now campaign target accounts sr = (Inr (eligible, skipped), sr1)"
    and sel: "sel_account sel = (if eligible = [] then None
        else Some (select_by_strategy sl (nc_rotation_strategy campaign) eligible))"
      "sel_skipped sel = skipped" "sel_reason sel = (if eligible = [] then Some ''no_eligible_account'' else None)"
    using assms(1) by (auto simp: select_account_def split: prod.splits sum.splits)
  note spec = sift_accounts_spec [OF sift]
  have "set (map fst skipped) \<subseteq> ca_account_id ` set accounts"
    using spec by (metis image_set mset_subset_eq_add_left set_mset_mono set_mset_mset)
  moreover have "ca_status m = CAActive \<and> account_ready (ca_account_id m) (fst sr)"
    if "static_reason now campaign target (fst sr) m = None" for m
    using that by (auto simp: static_reason_def skip_reason_def split: option.splits if_splits)
  moreover have "select_by_strategy sl (nc_rotation_strategy campaign) eligible \<in> set eligible" if "eligible \<noteq> []"
    using that assms(2-4) by (intro select_by_strategy_mem) simp_all
  moreover have "eligible \<noteq> [] \<Longrightarrow> length skipped < length accounts" using spec by (cases eligible) simp_all
  moreover have "eligible = [] \<Longrightarrow> length skipped = length accounts" using spec by simp
  ultimately show ?thesis using spec sel by (cases "eligible = []") (simp_all add: subset_iff)
qed

definition pair_db :: db where
  "pair_db = empty_db\<lparr>db_accounts := [(imported_account 6 2 0)\<lparr>acc_account_state := AuthorizedReady,
     acc_runtime_state := Some \<lparr>rs_session_present = True, rs_authorized_last_confirmed_at = None,
       rs_runtime_health = ''ready'', rs_reauth_required = False, rs_lock_owner = None, rs_lock_epoch = 0,
       rs_recovery_marker = None, rs_updated_at = 0\<rparr>\<rparr>]\<rparr>"

theorem select_account_sound_witness:
  "case fst (select_account half_selector 0 (some_campaign 3 2) [some_member 5 1, some_member 6 3] None (pair_db, [])) of
     Inl _ \<Rightarrow> False
   | Inr sel \<Rightarrow> sel_account sel = Some (some_member 6 3) \<and> account_ready 6 pair_db \<and>
                length (sel_skipped sel) < 2"
proof -
  let ?run = "select_account half_selector 0 (some_campaign 3 2) [some_member 5 1, some_member 6 3] None (pair_db, [])"
  have five: "static_reason 0 (some_campaign 3 2) None pair_db (some_member 5 1) = Some ''workspace_mismatch''"
    by (simp add: static_reason_def skip_reason_def some_member_def pair_db_def imported_account_def)
  have six: "static_reason 0 (some_campaign 3 2) None pair_db (some_member 6 3) = None"
    by (simp add: static_reason_def skip_reason_def some_member_def pair_db_def imported_account_def
        some_campaign_def account_ready_def READY_ACCOUNT_STATES_def READY_RUNTIME_HEALTH_def)
  have run: "\<exists>sel. ?run = (Inr sel, (pair_db, [])) \<and> sel_account sel = Some (some_member 6 3)"
  proof -
    have "nc_rotation_strategy (some_campaign 3 2) = ''round_robin''" "sl_limiter half_selector = None"
      by (simp_all add: some_campaign_def half_selector_def)
    then show ?thesis by (simp add: select_account_def five six is_rate_limited_def select_by_strategy_def)
  qed
  then obtain sel where sel: "?run = (Inr sel, (pair_db, []))" "sel_account sel = Some (some_member 6 3)" by blast
  show ?thesis
    using select_account_sound [OF sel(1)] sel by (simp add: half_selector_def) (simp add: some_member_def)
qed

end
