(* ===== verification/Approval.thy ===== *)
theory Approval
  imports NeuroRepository
begin

text \<open>
  The approval queue: \<open>approval_service.py\<close> and \<open>approval_expirer.py\<close>. The diff that is logged when an
  edited comment is approved comes from \<open>difflib\<close>, and is redacted by regular expressions: both are
  parameters (\<open>diff_tools\<close>).
\<close>

section \<open>Operations\<close>

record diff_tools =
  dt_unified_diff :: "string \<Rightarrow> string \<Rightarrow> string list"
  dt_redact :: "string \<Rightarrow> string"

definition MAX_AUDIT_DIFF_CHARS :: nat where "MAX_AUDIT_DIFF_CHARS = 4096"

definition newline :: char where "newline = char_of (10::nat)"

definition TRUNCATED_MARKER :: string where "TRUNCATED_MARKER = newline # ''[TRUNCATED]''"

definition rstrip :: "string \<Rightarrow> string" where "rstrip s = rev (lstrip (rev s))"

fun join_lines :: "string list \<Rightarrow> string" where
  "join_lines [] = []"
| "join_lines [l] = l"
| "join_lines (l # ls) = l @ newline # join_lines ls"

definition redact_diff :: "diff_tools \<Rightarrow> string \<Rightarrow> string" where
  "redact_diff dt diff =
     (let redacted = dt_redact dt diff in
      if length redacted \<le> MAX_AUDIT_DIFF_CHARS then redacted
      else rstrip (take (MAX_AUDIT_DIFF_CHARS - length TRUNCATED_MARKER) redacted) @ TRUNCATED_MARKER)"

definition comment_refs :: "generated_comment \<Rightarrow> uuid option \<Rightarrow> event_refs" where
  "comment_refs g attempt =
     \<lparr>er_campaign = Some (gc_campaign_id g), er_account = gc_account_id g, er_target = gc_target_id g,
      er_post = gc_observed_post_id g, er_comment = Some (gc_id g), er_attempt = attempt\<rparr>"

definition opt_json :: "uuid option \<Rightarrow> json" where
  "opt_json a = (case a of None \<Rightarrow> JNull | Some i \<Rightarrow> JInt (int i))"

definition edit_comment ::
  "time \<Rightarrow> uuid \<Rightarrow> uuid \<Rightarrow> uuid option \<Rightarrow> string \<Rightarrow> db \<Rightarrow> generated_comment result \<times> db" where
  "edit_comment now i w actor edited s =
     (case require_generated_comment i w s of
        Inl e \<Rightarrow> (Inl e, s)
      | Inr g \<Rightarrow>
          if strip edited = [] then (Inl (ValueError ''edited text is required''), s)
          else let row = g\<lparr>gc_edited_text := Some (strip edited), gc_final_text := Some (strip edited),
                           gc_approval_status := AEdited, gc_updated_at := now\<rparr>
               in (Inr row, write_event now w (comment_refs row None) ''info'' ''comment_edited''
                     ''generated comment edited'' [(''actor_user_id'', opt_json actor)] (put_comment row s)))"

definition maybe_audit_edit ::
  "diff_tools \<Rightarrow> time \<Rightarrow> uuid \<Rightarrow> generated_comment \<Rightarrow> uuid \<Rightarrow> uuid option \<Rightarrow> db \<Rightarrow> db" where
  "maybe_audit_edit dt now w g attempt_id actor s =
     (case gc_edited_text g of
        None \<Rightarrow> s
      | Some edited \<Rightarrow>
          if edited = gc_generated_text g then s
          else let diff_lines = dt_unified_diff dt (gc_generated_text g) edited
               in write_event now w (comment_refs g (Some attempt_id)) ''info'' ''comment_edited_on_approve''
                    ''generated comment edited during approval''
                    [(''diff'', JStr (redact_diff dt (join_lines diff_lines))), (''user_id'', opt_json actor),
                     (''generated_length'', JInt (int (length (gc_generated_text g)))),
                     (''edited_length'', JInt (int (length edited))),
                     (''diff_lines'', JInt (int (length diff_lines)))] s)"

definition new_attempt :: "uuid \<Rightarrow> generated_comment \<Rightarrow> comment_attempt" where
  "new_attempt i g =
     \<lparr>at_id = i, at_campaign_id = gc_campaign_id g, at_generated_comment_id = gc_id g,
      at_account_id = gc_account_id g, at_target_id = gc_target_id g,
      at_observed_post_id = gc_observed_post_id g, at_status = AtCreated, at_telegram_message_id = None,
      at_error_code = None, at_error_message = None, at_flood_wait_seconds = None, at_sent_at = None,
      at_failed_at = None, at_idempotency_key = None, at_external_message_id_provisional = None\<rparr>"

definition create_attempt_for_generated_comment :: "generated_comment \<Rightarrow> db \<Rightarrow> comment_attempt \<times> db" where
  "create_attempt_for_generated_comment g s =
     (let (i, s1) = new_id s in (new_attempt i g, s1\<lparr>db_attempts := db_attempts s1 @ [new_attempt i g]\<rparr>))"

definition attempt_for_comment :: "generated_comment \<Rightarrow> db \<Rightarrow> comment_attempt \<times> db" where
  "attempt_for_comment g s =
     (case get_attempt_for_generated_comment (gc_id g) s of
        Some a \<Rightarrow> (a, s)
      | None \<Rightarrow> create_attempt_for_generated_comment g s)"

text \<open>\<open>comment.edited_text or comment.generated_text\<close>.\<close>

definition final_text_of :: "generated_comment \<Rightarrow> string" where
  "final_text_of g = str_or (gc_edited_text g) (gc_generated_text g)"

definition approve_comment ::
  "diff_tools \<Rightarrow> time \<Rightarrow> uuid \<Rightarrow> uuid \<Rightarrow> uuid option \<Rightarrow> db \<Rightarrow>
   (generated_comment \<times> comment_attempt) result \<times> db" where
  "approve_comment dt now i w actor s =
     (case require_generated_comment i w s of
        Inl e \<Rightarrow> (Inl e, s)
      | Inr g \<Rightarrow>
          if gc_safety_status g = SBlocked then (Inl (ValueError ''blocked comment cannot be approved''), s)
          else
            let row = g\<lparr>gc_approval_status := AApproved, gc_final_text := Some (final_text_of g),
                        gc_approved_by := actor, gc_approved_at := Some now, gc_updated_at := now\<rparr>;
                (attempt, s1) = attempt_for_comment row (put_comment row s);
                s2 = write_event now w (comment_refs row (Some (at_id attempt))) ''info'' ''comment_approved''
                       ''generated comment approved and send attempt prepared''
                       [(''actor_user_id'', opt_json actor), (''auto_send'', JBool False)] s1
            in (Inr (row, attempt), maybe_audit_edit dt now w row (at_id attempt) actor s2))"

definition reject_comment ::
  "time \<Rightarrow> uuid \<Rightarrow> uuid \<Rightarrow> uuid option \<Rightarrow> string \<Rightarrow> db \<Rightarrow> generated_comment result \<times> db" where
  "reject_comment now i w actor reason s =
     (case require_generated_comment i w s of
        Inl e \<Rightarrow> (Inl e, s)
      | Inr g \<Rightarrow>
          let row = g\<lparr>gc_approval_status := ARejected, gc_rejected_reason := Some reason, gc_updated_at := now\<rparr>
          in (Inr row, write_event now w (comment_refs row None) ''info'' ''comment_rejected''
                ''generated comment rejected'' [(''actor_user_id'', opt_json actor)] (put_comment row s)))"

text \<open>The rows of the expirer's query: a stale pending comment and the workspace of its campaign.\<close>

definition stale_approvals :: "time \<Rightarrow> db \<Rightarrow> (generated_comment \<times> uuid) list" where
  "stale_approvals cutoff s =
     sort_key (\<lambda>(g, w). gc_created_at g)
       [(g, nc_workspace_id k). g \<leftarrow> db_comments s, k \<leftarrow> db_campaigns s, gc_campaign_id g = nc_id k \<and>
          gc_approval_status g = APending \<and> gc_created_at g < cutoff]"

definition expire_one :: "time \<Rightarrow> int \<Rightarrow> generated_comment \<times> uuid \<Rightarrow> db \<Rightarrow> db" where
  "expire_one moment ttl_seconds gw s =
     (let (g, w) = gw; row = g\<lparr>gc_approval_status := AExpired, gc_updated_at := moment\<rparr>
      in write_event moment w (comment_refs row None) ''warning'' ''approval_expired''
           ''generated comment approval expired''
           [(''ttl_seconds'', JInt ttl_seconds), (''expired_at'', JTime moment)] (put_comment row s))"

definition expire_stale_approvals :: "time \<Rightarrow> int \<Rightarrow> db \<Rightarrow> nat result \<times> db" where
  "expire_stale_approvals moment ttl_seconds s =
     (if ttl_seconds \<le> 0 then (Inl (ValueError ''ttl_seconds must be positive''), s)
      else let rows = stale_approvals (moment - seconds ttl_seconds) s
           in (Inr (length rows), fold (expire_one moment ttl_seconds) rows s))"

section \<open>What the queue keeps\<close>

definition comment_ok :: "db \<Rightarrow> generated_comment \<Rightarrow> bool" where
  "comment_ok s g \<longleftrightarrow>
     gc_approval_status g \<noteq> AApproved \<or>
     gc_safety_status g \<noteq> SBlocked \<and> gc_final_text g = Some (final_text_of g) \<and> gc_approved_at g \<noteq> None \<and>
     (\<exists>a\<in>set (db_attempts s). at_generated_comment_id a = gc_id g)"

definition queue_ok :: "db \<Rightarrow> bool" where
  "queue_ok s \<longleftrightarrow>
     (\<forall>g\<in>set (db_comments s). comment_ok s g) \<and> distinct (map at_generated_comment_id (db_attempts s))"

inductive approval_step :: "db \<Rightarrow> db \<Rightarrow> bool" where
  edit: "approval_step s (snd (edit_comment now i w actor edited s))"
| approve: "approval_step s (snd (approve_comment dt now i w actor s))"
| reject: "approval_step s (snd (reject_comment now i w actor reason s))"
| expire: "approval_step s (snd (expire_stale_approvals now ttl s))"

lemma queue_ok_event [simp]: "queue_ok (write_event now w refs level ty msg data s) = queue_ok s"
  by (simp add: queue_ok_def comment_ok_def write_event_view)

lemma comment_ok_put [simp]: "comment_ok (put_comment row s) g = comment_ok s g"
  by (simp add: comment_ok_def put_comment_def)

lemma put_comment_ok: "queue_ok s \<Longrightarrow> comment_ok s row \<Longrightarrow> queue_ok (put_comment row s)"
  by (auto simp: queue_ok_def comment_ok_put) (auto simp: put_comment_def query_simps)

lemma queue_ok_audit [simp]: "queue_ok (maybe_audit_edit dt now w g a actor s) = queue_ok s"
  by (simp add: maybe_audit_edit_def Let_def split: option.split)

lemma attempt_for_comment_ok:
  assumes "queue_ok s"
  shows "queue_ok (snd (attempt_for_comment g s))"
    and "\<exists>a\<in>set (db_attempts (snd (attempt_for_comment g s))). at_generated_comment_id a = gc_id g"
proof -
  have "queue_ok (snd (attempt_for_comment g s)) \<and>
    (\<exists>a\<in>set (db_attempts (snd (attempt_for_comment g s))). at_generated_comment_id a = gc_id g)"
  proof (cases "get_attempt_for_generated_comment (gc_id g) s")
    case (Some a)
    with assms show ?thesis
      by (auto simp: attempt_for_comment_def get_attempt_for_generated_comment_def dest: find_mem)
  next
    case None
    then have "\<forall>a\<in>set (db_attempts s). at_generated_comment_id a \<noteq> gc_id g"
      by (simp add: get_attempt_for_generated_comment_def find_none_iff)
    with None assms show ?thesis
      by (auto simp: attempt_for_comment_def create_attempt_for_generated_comment_def new_id_def new_attempt_def
          queue_ok_def comment_ok_def)
  qed
  then show "queue_ok (snd (attempt_for_comment g s))"
    and "\<exists>a\<in>set (db_attempts (snd (attempt_for_comment g s))). at_generated_comment_id a = gc_id g" by simp_all
qed

lemma attempt_for_comment_put:
  "attempt_for_comment g (put_comment row s) =
     (fst (attempt_for_comment g s), put_comment row (snd (attempt_for_comment g s)))"
  by (simp add: attempt_for_comment_def get_attempt_for_generated_comment_def put_comment_def
      create_attempt_for_generated_comment_def new_id_def split: option.split)

lemma approve_keeps: "queue_ok s \<Longrightarrow> queue_ok (snd (approve_comment dt now i w actor s))"
proof (cases "require_generated_comment i w s")
  case (Inl e)
  assume "queue_ok s"
  with Inl show ?thesis by (simp add: approve_comment_def)
next
  case (Inr g)
  assume ok: "queue_ok s"
  let ?row = "g\<lparr>gc_approval_status := AApproved, gc_final_text := Some (final_text_of g),
    gc_approved_by := actor, gc_approved_at := Some now, gc_updated_at := now\<rparr>"
  have "comment_ok (snd (attempt_for_comment ?row s)) ?row" if "gc_safety_status g \<noteq> SBlocked"
    using that attempt_for_comment_ok(2) [OF ok, of ?row] by (simp add: comment_ok_def final_text_of_def)
  then show ?thesis
    using Inr ok put_comment_ok [OF attempt_for_comment_ok(1) [OF ok, of ?row], of ?row]
    by (simp add: approve_comment_def Let_def attempt_for_comment_put)
qed

lemma expire_keeps: "queue_ok s \<Longrightarrow> queue_ok (snd (expire_stale_approvals now ttl s))"
proof -
  have "queue_ok s \<Longrightarrow> queue_ok (fold (expire_one now ttl) rows s)" for rows
  proof (induction rows arbitrary: s)
    case (Cons gw rows)
    have "queue_ok (expire_one now ttl gw s)"
      using Cons.prems by (cases gw) (simp add: expire_one_def Let_def put_comment_ok comment_ok_def)
    with Cons.IH show ?case by simp
  qed simp
  then show "queue_ok s \<Longrightarrow> ?thesis" by (simp add: expire_stale_approvals_def Let_def)
qed

lemma edit_keeps: "queue_ok s \<Longrightarrow> queue_ok (snd (edit_comment now i w actor edited s))"
  by (simp add: edit_comment_def Let_def put_comment_ok comment_ok_def split: sum.split)

lemma reject_keeps: "queue_ok s \<Longrightarrow> queue_ok (snd (reject_comment now i w actor reason s))"
  by (simp add: reject_comment_def Let_def put_comment_ok comment_ok_def split: sum.split)

lemma approval_step_keeps: "approval_step s s' \<Longrightarrow> queue_ok s \<Longrightarrow> queue_ok s'"
  by (induction rule: approval_step.induct) (simp_all add: approve_keeps expire_keeps edit_keeps reject_keeps)

section \<open>What expiry does\<close>

definition stale :: "time \<Rightarrow> db \<Rightarrow> generated_comment \<Rightarrow> bool" where
  "stale cutoff s g \<longleftrightarrow> gc_approval_status g = APending \<and> gc_created_at g < cutoff \<and>
     (\<exists>k\<in>set (db_campaigns s). nc_id k = gc_campaign_id g)"

definition expired_at :: "time \<Rightarrow> generated_comment \<Rightarrow> generated_comment" where
  "expired_at moment g = g\<lparr>gc_approval_status := AExpired, gc_updated_at := moment\<rparr>"

lemma fold_expire:
  "db_comments (fold (expire_one moment ttl) rows s) =
     fold (\<lambda>(g, w) gs. update_where (\<lambda>r. gc_id r = gc_id g) (\<lambda>_. expired_at moment g) gs) rows (db_comments s)"
  by (induction rows arbitrary: s)
    (auto simp: expire_one_def Let_def write_event_view put_comment_def expired_at_def)

lemma fold_replace:
  assumes "distinct (map gc_id gs)" and "\<forall>(g, w)\<in>set rows. g \<in> set gs0" and "distinct (map gc_id gs0)"
    and "gs = map (\<lambda>g. if g \<in> D then expired_at moment g else g) gs0"
  shows "fold (\<lambda>(g, w) gs. update_where (\<lambda>r. gc_id r = gc_id g) (\<lambda>_. expired_at moment g) gs) rows gs =
    map (\<lambda>g. if g \<in> D \<union> fst ` set rows then expired_at moment g else g) gs0"
  using assms
proof (induction rows arbitrary: gs D)
  case Nil
  then show ?case by simp
next
  case (Cons gw rows)
  obtain g w where gw: "gw = (g, w)" by (cases gw)
  have g: "g \<in> set gs0" using Cons.prems(2) gw by simp
  have same: "gc_id r = gc_id g \<longleftrightarrow> r = g" if "r \<in> set gs0" for r
    using that g Cons.prems(3) by (meson distinct_map inj_onD)
  let ?gs = "update_where (\<lambda>r. gc_id r = gc_id g) (\<lambda>_. expired_at moment g) gs"
  have step: "?gs = map (\<lambda>r. if r \<in> insert g D then expired_at moment r else r) gs0"
    unfolding Cons.prems(4) update_where_def using same by (auto simp: expired_at_def)
  have "map gc_id ?gs = map gc_id gs" by (auto simp: update_where_def expired_at_def)
  then have "distinct (map gc_id ?gs)" using Cons.prems(1) by simp
  with Cons.IH [OF this _ Cons.prems(3) step] Cons.prems(2) gw show ?case by simp
qed

lemma set_stale: "fst ` set (stale_approvals cutoff s) = {g \<in> set (db_comments s). stale cutoff s g}"
  by (force simp: stale_approvals_def stale_def image_iff)

lemma one_campaign:
  "distinct (map nc_id ks) \<Longrightarrow>
   length [(g, nc_workspace_id k). k \<leftarrow> ks, c = nc_id k \<and> b] = (if b \<and> (\<exists>k\<in>set ks. nc_id k = c) then 1 else 0)"
  by (induction ks) (auto simp: image_iff)

lemma length_stale:
  assumes "distinct (map nc_id (db_campaigns s))"
  shows "length (stale_approvals cutoff s) = length (filter (stale cutoff s) (db_comments s))"
proof -
  have "length [(g, nc_workspace_id k). g \<leftarrow> gs, k \<leftarrow> db_campaigns s, gc_campaign_id g = nc_id k \<and>
      gc_approval_status g = APending \<and> gc_created_at g < cutoff] = length (filter (stale cutoff s) gs)" for gs
  proof (induction gs)
    case (Cons g gs)
    have "length [(g, nc_workspace_id k). k \<leftarrow> db_campaigns s, gc_campaign_id g = nc_id k \<and>
        (gc_approval_status g = APending \<and> gc_created_at g < cutoff)] = (if stale cutoff s g then 1 else 0)"
      unfolding one_campaign [OF assms] by (auto simp: stale_def)
    with Cons show ?case by simp
  qed simp
  then show ?thesis by (simp add: stale_approvals_def)
qed

section \<open>Properties\<close>

text \<open>
  C24. What an approval means. Through every sequence of edits, approvals, rejections and expiries, a
  comment that stands approved is not one the safety check blocked, carries the edited text, or the
  generated one when nothing was edited, has a time of approval, and has exactly one send attempt.
\<close>

theorem approved_comments_are_ready:
  assumes "queue_ok s0" and "approval_step\<^sup>*\<^sup>* s0 s" and "g \<in> set (db_comments s)"
    and "gc_approval_status g = AApproved"
  shows "gc_safety_status g \<noteq> SBlocked \<and> gc_final_text g = Some (str_or (gc_edited_text g) (gc_generated_text g)) \<and>
    gc_approved_at g \<noteq> None \<and> length (filter (\<lambda>a. at_generated_comment_id a = gc_id g) (db_attempts s)) = 1"
proof -
  from assms(2,1) have ok: "queue_ok s" by (induction rule: rtranclp_induct) (auto dest: approval_step_keeps)
  with assms(3,4) have g: "comment_ok s g" "distinct (map at_generated_comment_id (db_attempts s))"
    by (simp_all add: queue_ok_def)
  then obtain a where a: "a \<in> set (db_attempts s)" "at_generated_comment_id a = gc_id g"
    using assms(4) by (auto simp: comment_ok_def)
  have "distinct (map at_generated_comment_id as) \<Longrightarrow> a \<in> set as \<Longrightarrow>
      length (filter (\<lambda>x. at_generated_comment_id x = gc_id g) as) = 1" for as
    using a(2) by (induction as) (auto simp: image_iff filter_empty_conv)
  from this [OF g(2) a(1)] g(1) assms(4) show ?thesis by (simp add: comment_ok_def final_text_of_def)
qed

text \<open>
  Expiry is exact: for a positive time to live, the comments that were pending, older than it and
  of an existing campaign are expired and counted, and every other comment stays as it was; a time to
  live of zero or less is an error and changes nothing.
\<close>

theorem expiry_is_exact:
  assumes "distinct (map gc_id (db_comments s))" and "distinct (map nc_id (db_campaigns s))"
  shows "case expire_stale_approvals moment ttl s of
      (Inl e, s') \<Rightarrow> ttl \<le> 0 \<and> s' = s
    | (Inr n, s') \<Rightarrow> 0 < ttl \<and>
        n = length (filter (stale (moment - seconds ttl) s) (db_comments s)) \<and>
        db_comments s' = map (\<lambda>g. if stale (moment - seconds ttl) s g then expired_at moment g else g) (db_comments s)"
proof (cases "ttl \<le> 0")
  case True
  then show ?thesis by (simp add: expire_stale_approvals_def)
next
  case False
  let ?cut = "moment - seconds ttl"
  have mem: "\<forall>(g, w)\<in>set (stale_approvals ?cut s). g \<in> set (db_comments s)"
    by (auto simp: stale_approvals_def)
  have "db_comments (fold (expire_one moment ttl) (stale_approvals ?cut s) s) =
      map (\<lambda>g. if g \<in> {} \<union> fst ` set (stale_approvals ?cut s) then expired_at moment g else g) (db_comments s)"
    unfolding fold_expire by (rule fold_replace [OF assms(1) mem assms(1)]) simp
  then have "db_comments (fold (expire_one moment ttl) (stale_approvals ?cut s) s) =
      map (\<lambda>g. if stale ?cut s g then expired_at moment g else g) (db_comments s)"
    unfolding set_stale by auto
  with False length_stale [OF assms(2)] show ?thesis
    by (simp add: expire_stale_approvals_def Let_def)
qed

definition some_comment :: "uuid \<Rightarrow> uuid \<Rightarrow> approval_status \<Rightarrow> time \<Rightarrow> generated_comment" where
  "some_comment i c st t =
     \<lparr>gc_id = i, gc_campaign_id = c, gc_target_id = Some 4, gc_account_id = Some 6, gc_observed_post_id = Some 7,
      gc_generated_text = ''nice'', gc_edited_text = None, gc_final_text = None, gc_safety_status = SPassed,
      gc_approval_status = st, gc_approved_by = None, gc_approved_at = None, gc_rejected_reason = None,
      gc_created_at = t, gc_updated_at = t\<rparr>"

definition queue_db :: db where
  "queue_db = empty_db\<lparr>db_campaigns := [some_campaign 3 2], db_next_id := 20,
     db_comments := [some_comment 8 3 APending 0, some_comment 9 3 APending (seconds 50)]\<rparr>"

definition plain_diff :: diff_tools where
  "plain_diff = \<lparr>dt_unified_diff = (\<lambda>old edited. [CHR ''-'' # old, CHR ''+'' # edited]), dt_redact = id\<rparr>"

theorem approved_comments_are_ready_witness:
  "let s = snd (approve_comment plain_diff 5 8 2 None queue_db)
   in list_all (\<lambda>g. gc_final_text g = Some ''nice'') (filter (\<lambda>g. gc_approval_status g = AApproved) (db_comments s))"
proof -
  let ?s = "snd (approve_comment plain_diff 5 8 2 None queue_db)"
  have ok: "queue_ok queue_db"
    by (simp add: queue_ok_def queue_db_def comment_ok_def some_comment_def empty_db_def)
  have "approval_step queue_db ?s" by (rule approval_step.approve)
  then have steps: "approval_step\<^sup>*\<^sup>* queue_db ?s" by (rule r_into_rtranclp)
  have texts: "gc_edited_text g = None \<and> gc_generated_text g = ''nice''" if "g \<in> set (db_comments ?s)" for g
    using that
    by (auto simp: approve_comment_def queue_db_def require_generated_comment_def get_generated_comment_def
        campaign_in_workspace_def some_campaign_def some_comment_def Let_def write_event_view put_comment_def
        maybe_audit_edit_def attempt_for_comment_def get_attempt_for_generated_comment_def empty_db_def
        create_attempt_for_generated_comment_def new_id_def split: if_splits)
  have "gc_final_text g = Some ''nice''" if "g \<in> set (db_comments ?s)" "gc_approval_status g = AApproved" for g
    using approved_comments_are_ready [OF ok steps that] texts [OF that(1)] by (simp add: str_or_def)
  then show ?thesis by (simp add: Let_def list_all_iff)
qed

theorem expiry_is_exact_witness:
  "case expire_stale_approvals (seconds 100) 60 queue_db of
     (Inl e, s') \<Rightarrow> False
   | (Inr n, s') \<Rightarrow> n = 1 \<and> map gc_approval_status (db_comments s') = [AExpired, APending]"
proof -
  have st: "stale (seconds 40) queue_db (some_comment 8 3 APending 0)"
    "\<not> stale (seconds 40) queue_db (some_comment 9 3 APending (seconds 50))"
    by (simp_all add: stale_def queue_db_def some_comment_def some_campaign_def seconds_def)
  have statuses: "gc_approval_status (expired_at t g) = AExpired" "gc_approval_status (some_comment i c ap t) = ap"
    for t g i c ap by (simp_all add: expired_at_def some_comment_def)
  have cut: "seconds 100 - seconds 60 = seconds 40" by (simp add: seconds_def)
  have cs: "db_comments queue_db = [some_comment 8 3 APending 0, some_comment 9 3 APending (seconds 50)]"
    by (simp add: queue_db_def)
  have "case expire_stale_approvals (seconds 100) 60 queue_db of
      (Inl e, s') \<Rightarrow> (60::int) \<le> 0 \<and> s' = queue_db
    | (Inr n, s') \<Rightarrow> 0 < (60::int) \<and>
        n = length (filter (stale (seconds 100 - seconds 60) queue_db) (db_comments queue_db)) \<and>
        db_comments s' = map (\<lambda>g. if stale (seconds 100 - seconds 60) queue_db g then expired_at (seconds 100) g else g)
          (db_comments queue_db)"
    by (rule expiry_is_exact) (simp_all add: queue_db_def some_comment_def some_campaign_def)
  then show ?thesis
    unfolding cut cs by (auto simp: st statuses split: prod.splits sum.splits)
qed

end
