(* ===== verification/ProfileCompleteness.thy ===== *)
theory ProfileCompleteness
  imports Numeric
begin

text \<open>
  \<open>account_profile_completeness/service.py\<close>: the weighted score of the filled profile fields.
\<close>

datatype profile_field = PF_first_name | PF_bio | PF_profile_photo_asset_id | PF_username | PF_pinned_channel_ref

definition REQUIRED_FIELDS :: "profile_field list" where
  "REQUIRED_FIELDS = [PF_first_name, PF_bio, PF_profile_photo_asset_id]"

definition RECOMMENDED_FIELDS :: "profile_field list" where
  "RECOMMENDED_FIELDS = [PF_username, PF_pinned_channel_ref]"

fun profile_weight :: "profile_field \<Rightarrow> rat" where
  "profile_weight PF_first_name = 30 / 100"
| "profile_weight PF_bio = 30 / 100"
| "profile_weight PF_profile_photo_asset_id = 20 / 100"
| "profile_weight PF_username = 10 / 100"
| "profile_weight PF_pinned_channel_ref = 10 / 100"

definition has_min_length :: "string option \<Rightarrow> nat \<Rightarrow> bool" where
  "has_min_length value minimum =
     (case value of None \<Rightarrow> False | Some v \<Rightarrow> minimum \<le> length (strip v))"

definition profile_breakdown :: "account \<Rightarrow> (profile_field \<times> bool) list" where
  "profile_breakdown a =
     (let profile = acc_profile_state a in
      [(PF_first_name, has_min_length (Option.bind profile ps_first_name) 2),
       (PF_bio, has_min_length (Option.bind profile ps_bio) 10),
       (PF_profile_photo_asset_id, Option.bind profile ps_profile_photo_asset_id \<noteq> None),
       (PF_username,
          (case Option.bind profile ps_username of
             None \<Rightarrow> False | Some u \<Rightarrow> u \<noteq> [] \<and> strip u \<noteq> [])),
       (PF_pinned_channel_ref, truthy (acc_pinned_channel_ref a))])"

record profile_report =
  pr_account_id :: uuid
  pr_score :: rat
  pr_breakdown :: "(profile_field \<times> bool) list"
  pr_missing_required :: "profile_field list"
  pr_missing_recommended :: "profile_field list"
  pr_evaluated_at :: time

definition field_met :: "(profile_field \<times> bool) list \<Rightarrow> profile_field \<Rightarrow> bool" where
  "field_met breakdown f \<longleftrightarrow> map_of breakdown f = Some True"

definition evaluate_profile_completeness :: "time \<Rightarrow> uuid \<Rightarrow> uuid \<Rightarrow> db \<Rightarrow> profile_report result" where
  "evaluate_profile_completeness now w a s =
     (case find (\<lambda>r. acc_workspace_id r = w \<and> acc_id r = a) (db_accounts s) of
        None \<Rightarrow> Inl NotFound
      | Some account \<Rightarrow>
          let breakdown = profile_breakdown account;
              score = py_round 2 (\<Sum>(f, met)\<leftarrow>breakdown. if met then profile_weight f else 0)
          in Inr \<lparr>pr_account_id = acc_id account, pr_score = score, pr_breakdown = breakdown,
                  pr_missing_required = filter (\<lambda>f. \<not> field_met breakdown f) REQUIRED_FIELDS,
                  pr_missing_recommended = filter (\<lambda>f. \<not> field_met breakdown f) RECOMMENDED_FIELDS,
                  pr_evaluated_at = now\<rparr>)"

lemma breakdown_fields: "map fst (profile_breakdown a) =
    [PF_first_name, PF_bio, PF_profile_photo_asset_id, PF_username, PF_pinned_channel_ref]"
  by (simp add: profile_breakdown_def Let_def)

text \<open>The sum of weights is already a multiple of a hundredth, so that rounding does not change it.\<close>

lemma weight_multiple: "multiple 2 (profile_weight f)"
proof -
  have "profile_weight f = of_int (case f of PF_first_name \<Rightarrow> 30 | PF_bio \<Rightarrow> 30 |
      PF_profile_photo_asset_id \<Rightarrow> 20 | PF_username \<Rightarrow> 10 | PF_pinned_channel_ref \<Rightarrow> 10) / 10 ^ 2"
    by (cases f) simp_all
  then show ?thesis unfolding multiple_def by blast
qed

lemma weighted_sum_multiple: "multiple 2 (\<Sum>(f, met)\<leftarrow>xs. if met then profile_weight f else 0)"
  by (induction xs) (auto intro!: multiple_add [OF weight_multiple])

definition profile_flags :: "account \<Rightarrow> bool \<times> bool \<times> bool \<times> bool \<times> bool" where
  "profile_flags a = (let m = field_met (profile_breakdown a) in
     (m PF_first_name, m PF_bio, m PF_profile_photo_asset_id, m PF_username, m PF_pinned_channel_ref))"

lemma score_from_flags:
  assumes "profile_flags a = (b1, b2, b3, b4, b5)"
  shows "py_round 2 (\<Sum>(f, met)\<leftarrow>profile_breakdown a. if met then profile_weight f else 0) =
    (if b1 then 3 / 10 else 0) + (if b2 then 3 / 10 else 0) + (if b3 then 2 / 10 else 0) +
    (if b4 then 1 / 10 else 0) + (if b5 then 1 / 10 else 0)"
  unfolding py_round_id [OF weighted_sum_multiple]
  using assms by (auto simp: profile_flags_def profile_breakdown_def field_met_def Let_def)

text \<open>
  The completeness report: an account outside the workspace is an error; otherwise the score
  lies between 0 and 1, is 1 exactly when nothing is missing, and reaches the 0.8 that commenting
  requires exactly when first name and bio are there together with the photo, or with both the
  username and the pinned channel in its place, although the photo is listed as required.
\<close>

theorem profile_completeness_spec:
  "case evaluate_profile_completeness now w a s of
     Inl e \<Rightarrow> e = NotFound \<and> (\<forall>r\<in>set (db_accounts s). acc_workspace_id r = w \<longrightarrow> acc_id r \<noteq> a)
   | Inr rep \<Rightarrow>
       pr_account_id rep = a \<and> 0 \<le> pr_score rep \<and> pr_score rep \<le> 1 \<and>
       (pr_score rep = 1 \<longleftrightarrow> pr_missing_required rep = [] \<and> pr_missing_recommended rep = []) \<and>
       (8 / 10 \<le> pr_score rep \<longleftrightarrow>
          PF_first_name \<notin> set (pr_missing_required rep) \<and> PF_bio \<notin> set (pr_missing_required rep) \<and>
          (PF_profile_photo_asset_id \<notin> set (pr_missing_required rep) \<or> pr_missing_recommended rep = []))"
proof (cases "find (\<lambda>r. acc_workspace_id r = w \<and> acc_id r = a) (db_accounts s)")
  case None
  moreover have "\<forall>r\<in>set (db_accounts s). acc_workspace_id r = w \<longrightarrow> acc_id r \<noteq> a"
    using None by (auto simp: find_none_iff)
  ultimately show ?thesis by (simp add: evaluate_profile_completeness_def)
next
  case (Some r)
  obtain b1 b2 b3 b4 b5 where f: "profile_flags r = (b1, b2, b3, b4, b5)"
    by (cases "profile_flags r") auto
  then have m: "field_met (profile_breakdown r) PF_first_name = b1"
    "field_met (profile_breakdown r) PF_bio = b2"
    "field_met (profile_breakdown r) PF_profile_photo_asset_id = b3"
    "field_met (profile_breakdown r) PF_username = b4"
    "field_met (profile_breakdown r) PF_pinned_channel_ref = b5"
    by (simp_all add: profile_flags_def Let_def)
  have "acc_id r = a" using find_mem [OF Some] by simp
  then show ?thesis
    using Some by (simp add: evaluate_profile_completeness_def Let_def score_from_flags [OF f] m
        REQUIRED_FIELDS_def RECOMMENDED_FIELDS_def)
qed

definition named_account :: account where
  "named_account = (imported_account 1 7 0)\<lparr>acc_pinned_channel_ref := Some ''@news'',
     acc_profile_state := Some \<lparr>ps_telegram_user_id = None, ps_first_name = Some ''Ann'',
       ps_last_name = None, ps_username = Some ''ann'', ps_bio = Some ''photographer'',
       ps_profile_photo_asset_id = None, ps_bio_hash = None, ps_photo_perceptual_hash = None,
       ps_synced_at = 0\<rparr>\<rparr>"

theorem profile_completeness_spec_witness:
  "8 / 10 \<le> pr_score (projr (evaluate_profile_completeness 0 7 1 (empty_db\<lparr>db_accounts := [named_account]\<rparr>)))"
proof -
  let ?e = "evaluate_profile_completeness 0 7 1 (empty_db\<lparr>db_accounts := [named_account]\<rparr>)"
  have "strip ''Ann'' = ''Ann''" "strip ''ann'' = ''ann''" "strip ''photographer'' = ''photographer''"
    by code_simp+
  then have "?e = Inr (projr ?e) \<and> pr_missing_required (projr ?e) = [PF_profile_photo_asset_id] \<and>
      pr_missing_recommended (projr ?e) = []"
    by (simp add: evaluate_profile_completeness_def named_account_def imported_account_def
        profile_breakdown_def field_met_def has_min_length_def Let_def REQUIRED_FIELDS_def RECOMMENDED_FIELDS_def)
  with profile_completeness_spec [where now = 0 and w = 7 and a = 1
      and s = "empty_db\<lparr>db_accounts := [named_account]\<rparr>"]
  show ?thesis by (auto split: sum.splits)
qed

end
