(* ===== verification/Ggr.thy ===== *)
theory Ggr
  imports ProfileCompleteness KeyedTable Quarantine
begin

text \<open>
  The account survivability score: \<open>account_ggr/components.py\<close> and \<open>account_ggr/calculator.py\<close>.
  Floats are exact rationals; \<open>round\<close> is \<open>py_round\<close>.
\<close>

section \<open>Components\<close>

definition WEIGHTS :: "(string \<times> rat) list" where
  "WEIGHTS =
     [(''age'', 20 / 100), (''origin'', 10 / 100), (''history'', 15 / 100), (''proxy'', 15 / 100),
      (''fingerprint'', 10 / 100), (''ip_change'', 10 / 100), (''session_anomaly'', 10 / 100),
      (''warmup'', 5 / 100), (''profile'', 5 / 100)]"

definition age_score :: "time \<Rightarrow> account \<Rightarrow> rat" where
  "age_score now a =
     (let age = now - acc_created_at a in
      if age < days 1 then 0 else if age < days 7 then 1 / 2
      else if age < days 30 then 8 / 10 else 1)"

fun origin_score :: "account_origin \<Rightarrow> rat" where
  "origin_score OriginCreated = 1"
| "origin_score OriginImported = 7 / 10"
| "origin_score OriginBought = 4 / 10"

definition history_score :: rat where
  "history_score = 1"

definition proxy_score :: "account \<Rightarrow> rat" where
  "proxy_score a =
     (case acc_proxy a of
        None \<Rightarrow> 1 / 2
      | Some p \<Rightarrow>
          let status = (if px_status p = [] then ''unknown'' else px_status p) in
          if status = ''tcp_working'' \<or> status = ''tdlib_working'' then 1
          else if status = ''failed'' \<or> status = ''tdlib_failed'' then 0 else 1 / 2)"

definition fingerprint_score_from_count :: "nat \<Rightarrow> rat" where
  "fingerprint_score_from_count n =
     (if n = 0 then 1 / 2 else if n = 1 then 1 else if n = 2 then 6 / 10 else 2 / 10)"

definition ip_change_score_from_count :: "nat \<Rightarrow> rat" where
  "ip_change_score_from_count n =
     (if n = 0 then 1 / 2 else if n = 1 then 1 else if n = 2 then 7 / 10
      else if n = 3 then 4 / 10 else 1 / 10)"

definition session_anomaly_score_from_failures :: "int option \<Rightarrow> rat" where
  "session_anomaly_score_from_failures latest =
     (case latest of
        None \<Rightarrow> 1 / 2
      | Some n \<Rightarrow> if n = 0 then 1 else if n \<le> 2 then 7 / 10 else if n \<le> 4 then 4 / 10 else 1 / 10)"

definition status_observations :: "account \<Rightarrow> nat \<Rightarrow> db \<Rightarrow> account_status_observation list" where
  "status_observations a limit s =
     take limit (order_desc ob_observed_at
       (filter (\<lambda>o'. ob_workspace_id o' = acc_workspace_id a \<and> ob_account_id o' = acc_id a)
         (db_observations s)))"

definition distinct_count :: "'a option list \<Rightarrow> nat" where
  "distinct_count xs = length (remdups (filter (\<lambda>x. x \<noteq> None) xs))"

definition status_observation_component_scores ::
  "time \<Rightarrow> account_status_observation list \<Rightarrow> (string, rat) dict" where
  "status_observation_component_scores now observations =
     (let recent = filter (\<lambda>o'. now - hours 24 \<le> ob_observed_at o') observations;
          latest_failures = (case observations of [] \<Rightarrow> None | o' # _ \<Rightarrow> Some (ob_consecutive_failures o'))
      in [(''fingerprint'', fingerprint_score_from_count (distinct_count (map ob_device_model_hash recent))),
          (''ip_change'', ip_change_score_from_count (distinct_count (map ob_proxy_ip_hash recent))),
          (''session_anomaly'', session_anomaly_score_from_failures latest_failures)])"

definition latest_warmup :: "account \<Rightarrow> db \<Rightarrow> warmup_session option" where
  "latest_warmup a s =
     latest_by wu_created_at
       (filter (\<lambda>x. wu_workspace_id x = acc_workspace_id a \<and> wu_account_id x = acc_id a) (db_warmups s))"

definition warmup_score :: "account \<Rightarrow> db \<Rightarrow> rat" where
  "warmup_score a s =
     (case latest_warmup a s of
        None \<Rightarrow> 0
      | Some x \<Rightarrow>
          if wu_status x = WCompleted then 1
          else if wu_status x = WActive \<or> wu_status x = WScheduled \<or> wu_status x = WValidating
          then 1 / 2 else 0)"

definition profile_score :: "account \<Rightarrow> rat" where
  "profile_score a =
     (case acc_profile_state a of
        None \<Rightarrow> 0
      | Some p \<Rightarrow>
          of_nat (length (filter id
            [truthy (ps_first_name p), truthy (ps_last_name p), truthy (ps_bio p),
             ps_profile_photo_asset_id p \<noteq> None])) / 4)"

definition compute_components :: "time \<Rightarrow> account \<Rightarrow> db \<Rightarrow> (string, rat) dict" where
  "compute_components now a s =
     (let status_scores = status_observation_component_scores now (status_observations a 100 s);
          result = [(''age'', age_score now a), (''origin'', origin_score (acc_origin a)),
                    (''history'', history_score), (''proxy'', proxy_score a),
                    (''warmup'', warmup_score a s), (''profile'', profile_score a)]
      in dict_merge result status_scores)"

text \<open>\<open>components[k]\<close> of a missing key raises \<open>KeyError\<close>.\<close>

definition compute_score :: "(string, rat) dict \<Rightarrow> rat result" where
  "compute_score components =
     (if list_all (\<lambda>(k, w). dict_get components k \<noteq> None) WEIGHTS
      then Inr (py_round 1 (1 + 9 * (\<Sum>(k, w)\<leftarrow>WEIGHTS. w * the (dict_get components k))))
      else Inl (LookupError ''KeyError''))"

definition compute_bucket :: "rat \<Rightarrow> ggr_bucket" where
  "compute_bucket score = (if 7 \<le> score then Strong else if 4 \<le> score then Medium else Weak)"

section \<open>Calculator\<close>

definition RECALC_INTERVAL :: int where
  "RECALC_INTERVAL = hours 6"

definition MAX_DELTA_PER_CYCLE :: rat where
  "MAX_DELTA_PER_CYCLE = 1"

definition apply_smoothing :: "rat \<Rightarrow> rat option \<Rightarrow> rat" where
  "apply_smoothing new_score previous_score =
     (case previous_score of
        None \<Rightarrow> new_score
      | Some previous \<Rightarrow>
          let delta = new_score - previous in
          if \<bar>delta\<bar> \<le> MAX_DELTA_PER_CYCLE then new_score
          else if 0 < delta then py_round 1 (previous + MAX_DELTA_PER_CYCLE)
          else py_round 1 (previous - MAX_DELTA_PER_CYCLE))"

definition ggr_key :: "account_ggr_score \<Rightarrow> uuid \<times> uuid" where
  "ggr_key r = (ggr_workspace_id r, ggr_account_id r)"

definition get_ggr_score :: "uuid \<Rightarrow> uuid \<Rightarrow> db \<Rightarrow> account_ggr_score option" where
  "get_ggr_score a w s = find (\<lambda>r. ggr_key r = (w, a)) (db_ggr_scores s)"

definition weak_ggr_account_count :: "uuid \<Rightarrow> db \<Rightarrow> nat" where
  "weak_ggr_account_count w s =
     length (filter (\<lambda>r. ggr_workspace_id r = w \<and> ggr_bucket_of r = Weak) (db_ggr_scores s))"

text \<open>What a calculation writes.\<close>

record ggr_write =
  gw_key :: "uuid \<times> uuid"
  gw_score :: rat
  gw_breakdown :: "(string, rat) dict"
  gw_now :: time

definition fresh_ggr :: "ggr_write \<Rightarrow> db \<Rightarrow> account_ggr_score" where
  "fresh_ggr g s =
     \<lparr>ggr_id = db_next_id s, ggr_workspace_id = fst (gw_key g), ggr_account_id = snd (gw_key g),
      ggr_score = gw_score g, ggr_bucket_of = compute_bucket (gw_score g),
      ggr_breakdown_json = gw_breakdown g, ggr_previous_score = None,
      ggr_next_calculation_at = Some (gw_now g + RECALC_INTERVAL),
      ggr_last_calculated_at = Some (gw_now g), ggr_created_at = gw_now g, ggr_updated_at = gw_now g\<rparr>"

definition merge_ggr :: "ggr_write \<Rightarrow> account_ggr_score \<Rightarrow> account_ggr_score" where
  "merge_ggr g r =
     r\<lparr>ggr_previous_score := Some (ggr_score r), ggr_score := gw_score g,
       ggr_bucket_of := compute_bucket (gw_score g), ggr_breakdown_json := gw_breakdown g,
       ggr_last_calculated_at := Some (gw_now g),
       ggr_next_calculation_at := Some (gw_now g + RECALC_INTERVAL), ggr_updated_at := gw_now g\<rparr>"

definition write_ggr :: "ggr_write \<Rightarrow> db \<Rightarrow> db" where
  "write_ggr g s =
     (case find (\<lambda>r. ggr_key r = gw_key g) (db_ggr_scores s) of
        None \<Rightarrow> s\<lparr>db_ggr_scores := db_ggr_scores s @ [fresh_ggr g s], db_next_id := Suc (db_next_id s)\<rparr>
      | Some _ \<Rightarrow> s\<lparr>db_ggr_scores := update_where (\<lambda>r. ggr_key r = gw_key g) (merge_ggr g)
                     (db_ggr_scores s)\<rparr>)"

definition clamp_score :: "rat \<Rightarrow> rat" where
  "clamp_score x = max 1 (min 10 x)"

definition ggr_metrics :: "uuid \<Rightarrow> ggr_bucket option \<Rightarrow> ggr_bucket \<Rightarrow> rat \<Rightarrow> db \<Rightarrow> db" where
  "ggr_metrics w previous_bucket bucket score s =
     (let s1 = emit (M_ggr_score w bucket score) s in
      if Some bucket = previous_bucket then s1
      else
        let s2 = (if bucket = Weak then emit (M_weak_ggr_transition w previous_bucket) s1 else s1)
        in if bucket = Weak \<or> previous_bucket = Some Weak
           then emit (M_weak_ggr_accounts_total w (weak_ggr_account_count w s2)) s2 else s2)"

definition calculate_ggr ::
  "time \<Rightarrow> account \<Rightarrow> uuid \<Rightarrow> bool \<Rightarrow> db \<Rightarrow> account_ggr_score result \<times> db" where
  "calculate_ggr now a w force s =
     (let ggr_row = get_ggr_score (acc_id a) w s in
      case ggr_row of
        Some r \<Rightarrow>
          if \<not> force \<and> (case ggr_next_calculation_at r of None \<Rightarrow> False | Some t \<Rightarrow> now < t)
          then (Inr r, s)
          else
            let components = compute_components now a s in
            (case compute_score components of
               Inl e \<Rightarrow> (Inl e, s)
             | Inr raw_score \<Rightarrow>
                 let score = clamp_score (apply_smoothing raw_score (Some (ggr_score r)));
                     g = \<lparr>gw_key = (w, acc_id a), gw_score = score, gw_breakdown = components, gw_now = now\<rparr>
                 in (Inr (merge_ggr g r),
                     ggr_metrics w (Some (ggr_bucket_of r)) (compute_bucket score) score (write_ggr g s)))
      | None \<Rightarrow>
          let components = compute_components now a s in
          (case compute_score components of
             Inl e \<Rightarrow> (Inl e, s)
           | Inr raw_score \<Rightarrow>
               let score = clamp_score (apply_smoothing raw_score None);
                   g = \<lparr>gw_key = (w, acc_id a), gw_score = score, gw_breakdown = components, gw_now = now\<rparr>
               in (Inr (fresh_ggr g s),
                   ggr_metrics w None (compute_bucket score) score (write_ggr g s))))"

definition default_ggr :: "time \<Rightarrow> uuid \<Rightarrow> uuid \<Rightarrow> uuid \<Rightarrow> account_ggr_score" where
  "default_ggr now i w a =
     \<lparr>ggr_id = i, ggr_workspace_id = w, ggr_account_id = a, ggr_score = 5, ggr_bucket_of = Medium,
      ggr_breakdown_json = [], ggr_previous_score = None, ggr_next_calculation_at = Some now,
      ggr_last_calculated_at = None, ggr_created_at = now, ggr_updated_at = now\<rparr>"

definition backfill_ggr_scores :: "time \<Rightarrow> uuid \<Rightarrow> db \<Rightarrow> nat \<times> db" where
  "backfill_ggr_scores now w s =
     (let existing_ids = map ggr_account_id (filter (\<lambda>r. ggr_workspace_id r = w) (db_ggr_scores s));
          accounts = filter (\<lambda>a. acc_workspace_id a = w) (db_accounts s)
      in fold (\<lambda>a (created, s').
           if acc_id a \<in> set existing_ids then (created, s')
           else let (i, s'') = new_id s' in
             (created + 1, s''\<lparr>db_ggr_scores := db_ggr_scores s'' @ [default_ggr now i w (acc_id a)]\<rparr>))
         accounts (0, s))"

definition ggr_due :: "time \<Rightarrow> uuid \<Rightarrow> account_ggr_score \<Rightarrow> bool" where
  "ggr_due now w r \<longleftrightarrow>
     ggr_workspace_id r = w \<and> (case ggr_next_calculation_at r of None \<Rightarrow> False | Some t \<Rightarrow> t \<le> now)"

text \<open>\<open>calculate_ggr\<close> never raises on a stored account (\<open>calculate_ggr_total\<close> below): the loop runs to its end.\<close>

definition recalculate_due_scores :: "time \<Rightarrow> uuid \<Rightarrow> nat \<Rightarrow> db \<Rightarrow> nat \<times> db" where
  "recalculate_due_scores now w limit s =
     fold (\<lambda>r (recalculated, s').
         case find (\<lambda>a. acc_id a = ggr_account_id r \<and> acc_workspace_id a = w) (db_accounts s') of
           None \<Rightarrow> (recalculated, s')
         | Some a \<Rightarrow> (recalculated + 1, snd (calculate_ggr now a w True s')))
       (take limit (filter (ggr_due now w) (db_ggr_scores s))) (0, s)"

section \<open>Buckets are ordered\<close>

instantiation ggr_bucket :: linorder
begin

fun bucket_rank :: "ggr_bucket \<Rightarrow> nat" where
  "bucket_rank Weak = 0"
| "bucket_rank Medium = 1"
| "bucket_rank Strong = 2"

definition less_eq_ggr_bucket :: "ggr_bucket \<Rightarrow> ggr_bucket \<Rightarrow> bool" where
  "less_eq_ggr_bucket x y \<longleftrightarrow> bucket_rank x \<le> bucket_rank y"

definition less_ggr_bucket :: "ggr_bucket \<Rightarrow> ggr_bucket \<Rightarrow> bool" where
  "less_ggr_bucket x y \<longleftrightarrow> bucket_rank x < bucket_rank y"

instance
proof
  fix x y z :: ggr_bucket
  show "x < y \<longleftrightarrow> x \<le> y \<and> \<not> y \<le> x" by (auto simp: less_eq_ggr_bucket_def less_ggr_bucket_def)
  show "x \<le> x" by (simp add: less_eq_ggr_bucket_def)
  show "x \<le> y \<Longrightarrow> y \<le> z \<Longrightarrow> x \<le> z" by (simp add: less_eq_ggr_bucket_def)
  show "x \<le> y \<Longrightarrow> y \<le> x \<Longrightarrow> x = y" by (cases x; cases y) (simp_all add: less_eq_ggr_bucket_def)
  show "x \<le> y \<or> y \<le> x" by (auto simp: less_eq_ggr_bucket_def)
qed

end

lemma compute_bucket_mono: "x \<le> y \<Longrightarrow> compute_bucket x \<le> compute_bucket y"
  by (simp add: compute_bucket_def less_eq_ggr_bucket_def)

section \<open>Every component lies between 0 and 1\<close>

definition unit_interval :: "rat \<Rightarrow> bool" where
  "unit_interval x \<longleftrightarrow> 0 \<le> x \<and> x \<le> 1"

lemma profile_score_unit: "unit_interval (profile_score a)"
proof (cases "acc_profile_state a")
  case None
  then show ?thesis by (simp add: profile_score_def unit_interval_def)
next
  case (Some p)
  let ?l = "[truthy (ps_first_name p), truthy (ps_last_name p), truthy (ps_bio p), ps_profile_photo_asset_id p \<noteq> None]"
  have "length (filter id ?l) \<le> 4" using length_filter_le [of id ?l] by simp
  then have "(of_nat (length (filter id ?l)) :: rat) \<le> 4"
    by (metis of_nat_le_iff of_nat_numeral)
  with Some show ?thesis by (simp add: profile_score_def unit_interval_def)
qed

lemma component_units:
  "unit_interval (age_score now a)" "unit_interval (origin_score o')" "unit_interval history_score"
  "unit_interval (proxy_score a)" "unit_interval (warmup_score a s)"
  "unit_interval (fingerprint_score_from_count n)" "unit_interval (ip_change_score_from_count n)"
  "unit_interval (session_anomaly_score_from_failures f)"
  by (auto simp: unit_interval_def age_score_def history_score_def proxy_score_def warmup_score_def
      fingerprint_score_from_count_def ip_change_score_from_count_def
      session_anomaly_score_from_failures_def Let_def split: option.split)
    (cases o'; simp)+

definition component_ok :: "(string, rat) dict \<Rightarrow> string \<Rightarrow> bool" where
  "component_ok d k \<longleftrightarrow> (case dict_get d k of None \<Rightarrow> False | Some x \<Rightarrow> unit_interval x)"

lemma component_ok_simps [simp]:
  "component_ok ((k, x) # d) k' \<longleftrightarrow> (if k' = k then unit_interval x else component_ok d k')"
  "\<not> component_ok [] k'"
  by (auto simp: component_ok_def dict_get_def)

lemma compute_components_ok: "list_all (\<lambda>(k, w). component_ok (compute_components now a s) k) WEIGHTS"
  by (simp add: compute_components_def status_observation_component_scores_def Let_def dict_merge_def
      dict_set_def WEIGHTS_def component_units profile_score_unit)

lemma weighted_bounds:
  assumes "list_all (\<lambda>(k, w). component_ok d k) ws" and "list_all (\<lambda>(k, w). 0 \<le> w) ws"
  shows "0 \<le> (\<Sum>(k, w)\<leftarrow>ws. w * the (dict_get d k)) \<and>
    (\<Sum>(k, w)\<leftarrow>ws. w * the (dict_get d k)) \<le> (\<Sum>(k, w)\<leftarrow>ws. w :: rat)"
  using assms
proof (induction ws)
  case (Cons p ws)
  obtain k w where p: "p = (k, w)" by (cases p)
  from Cons.prems p obtain x where x: "dict_get d k = Some x" "0 \<le> x" "x \<le> 1" "0 \<le> w"
    by (auto simp: component_ok_def unit_interval_def split: option.splits)
  then have "0 \<le> w * x" "w * x \<le> w" by (simp_all add: mult_left_le)
  with Cons p x show ?case by auto
qed simp

lemma weights_sum: "(\<Sum>(k, w)\<leftarrow>WEIGHTS. w) = 1" "list_all (\<lambda>(k, w). 0 \<le> w) WEIGHTS"
  by (simp_all add: WEIGHTS_def)

definition score_ok :: "rat \<Rightarrow> bool" where
  "score_ok x \<longleftrightarrow> multiple 1 x \<and> 1 \<le> x \<and> x \<le> 10"

lemma compute_score_total:
  obtains x where "compute_score (compute_components now a s) = Inr x" and "score_ok x"
proof -
  let ?d = "compute_components now a s"
  let ?t = "\<Sum>(k, w)\<leftarrow>WEIGHTS. w * the (dict_get ?d k)"
  have t: "0 \<le> ?t" "?t \<le> 1"
    using weighted_bounds [OF compute_components_ok weights_sum(2), of now a s] weights_sum(1) by auto
  have "list_all (\<lambda>(k, w). dict_get ?d k \<noteq> None) WEIGHTS"
    using compute_components_ok [of now a s]
    by (auto simp: list_all_iff component_ok_def split: option.splits)
  then have "compute_score ?d = Inr (py_round 1 (1 + 9 * ?t))" by (simp add: compute_score_def)
  moreover have "score_ok (py_round 1 (1 + 9 * ?t))"
    unfolding score_ok_def using t by (auto intro!: py_round_multiple py_round_ge py_round_le)
  ultimately show thesis by (rule that)
qed

section \<open>Smoothing\<close>

lemma apply_smoothing_simps:
  assumes "multiple 1 p"
  shows "apply_smoothing x (Some p) = (if \<bar>x - p\<bar> \<le> 1 then x else if p < x then p + 1 else p - 1)"
  using py_round_id [OF multiple_add [OF assms multiple_numeral(3)]]
    py_round_id [OF multiple_diff [OF assms multiple_numeral(3)]]
  by (simp add: apply_smoothing_def MAX_DELTA_PER_CYCLE_def Let_def)

text \<open>A smoothed score stays in range, so that clamping never changes it.\<close>

lemma smoothed_ok:
  assumes "score_ok x" and "score_ok p"
  shows "score_ok (apply_smoothing x (Some p))"
    and "clamp_score (apply_smoothing x (Some p)) = apply_smoothing x (Some p)"
    and "\<bar>apply_smoothing x (Some p) - p\<bar> \<le> 1"
proof -
  have p: "multiple 1 p" using assms(2) by (simp add: score_ok_def)
  show ok: "score_ok (apply_smoothing x (Some p))"
    using assms by (auto simp: apply_smoothing_simps [OF p] score_ok_def intro: multiple_add multiple_diff)
  then show "clamp_score (apply_smoothing x (Some p)) = apply_smoothing x (Some p)"
    by (simp add: clamp_score_def score_ok_def)
  show "\<bar>apply_smoothing x (Some p) - p\<bar> \<le> 1"
    by (simp add: apply_smoothing_simps [OF p])
qed

lemma clamp_ok: "score_ok x \<Longrightarrow> clamp_score x = x"
  by (simp add: clamp_score_def score_ok_def)

section \<open>The score table\<close>

interpretation ggr: upsert_table db_ggr_scores ggr_key write_ggr gw_key merge_ggr fresh_ggr
proof unfold_locales
  fix v :: ggr_write and s :: db
  show "db_ggr_scores (write_ggr v s) = db_ggr_scores s @ [fresh_ggr v s]"
    if "gw_key v \<notin> ggr_key ` set (db_ggr_scores s)"
  proof -
    have "find (\<lambda>r. ggr_key r = gw_key v) (db_ggr_scores s) = None"
      using that unfolding find_none_iff by (metis imageI)
    then show ?thesis by (simp add: write_ggr_def)
  qed
  show "gw_key v \<in> ggr_key ` set (db_ggr_scores s) \<Longrightarrow>
      db_ggr_scores (write_ggr v s) =
      update_where (\<lambda>r. ggr_key r = gw_key v) (merge_ggr v) (db_ggr_scores s)"
    by (auto simp: write_ggr_def find_none_iff split: option.split)
qed (simp_all add: fresh_ggr_def merge_ggr_def ggr_key_def)

lemma ggr_metrics_frame [simp]:
  "db_ggr_scores (ggr_metrics w p b x s) = db_ggr_scores s"
  "db_accounts (ggr_metrics w p b x s) = db_accounts s"
  by (simp_all add: ggr_metrics_def emit_def Let_def)

lemma write_ggr_accounts [simp]: "db_accounts (write_ggr g s) = db_accounts s"
  by (simp add: write_ggr_def split: option.split)

definition ggr_row_ok :: "account_ggr_score \<Rightarrow> bool" where
  "ggr_row_ok r \<longleftrightarrow> score_ok (ggr_score r) \<and> ggr_bucket_of r = compute_bucket (ggr_score r)"

definition ggr_table_ok :: "db \<Rightarrow> bool" where
  "ggr_table_ok s \<longleftrightarrow>
     distinct (map ggr_key (db_ggr_scores s)) \<and> (\<forall>r\<in>set (db_ggr_scores s). ggr_row_ok r)"

lemma get_ggr_row_ok: "ggr_table_ok s \<Longrightarrow> get_ggr_score a w s = Some r \<Longrightarrow> ggr_row_ok r \<and> ggr_key r = (w, a)"
  by (auto simp: ggr_table_ok_def get_ggr_score_def dest!: find_mem)

lemma ggr_lookup: "get_ggr_score a w s = ggr.lookup s (w, a)"
  by (simp add: get_ggr_score_def ggr.lookup_def)

lemma ggr_table_ok_write:
  assumes "ggr_table_ok s" and "score_ok (gw_score g)"
  shows "ggr_table_ok (write_ggr g s)"
proof (cases "gw_key g \<in> ggr_key ` set (db_ggr_scores s)")
  case True
  with assms show ?thesis
    using ggr.put_distinct [of s g]
    by (auto simp: ggr_table_ok_def ggr.put_old in_set_update_where ggr_row_ok_def merge_ggr_def)
next
  case False
  with assms show ?thesis
    using ggr.put_distinct [of s g]
    by (auto simp: ggr_table_ok_def ggr.put_new ggr_row_ok_def fresh_ggr_def)
qed

definition ggr_cached :: "time \<Rightarrow> account_ggr_score \<Rightarrow> bool" where
  "ggr_cached now r \<longleftrightarrow> (case ggr_next_calculation_at r of None \<Rightarrow> False | Some t \<Rightarrow> now < t)"

text \<open>What a calculation does, in one equation: keep a fresh row, or write the smoothed score.\<close>

definition ggr_result :: "time \<Rightarrow> account \<Rightarrow> uuid \<Rightarrow> rat \<Rightarrow> db \<Rightarrow> ggr_write" where
  "ggr_result now a w raw s =
     \<lparr>gw_key = (w, acc_id a), gw_score = apply_smoothing raw (map_option ggr_score (get_ggr_score (acc_id a) w s)),
      gw_breakdown = compute_components now a s, gw_now = now\<rparr>"

lemma calculate_ggr_total [consumes 1, case_names cached written]:
  assumes ok: "ggr_table_ok s"
  obtains (cached) r where "get_ggr_score (acc_id a) w s = Some r" "\<not> force" "ggr_cached now r"
      "calculate_ggr now a w force s = (Inr r, s)"
  | (written) raw row b where "compute_score (compute_components now a s) = Inr raw" "score_ok raw"
      "score_ok (gw_score (ggr_result now a w raw s))"
      "case get_ggr_score (acc_id a) w s of None \<Rightarrow> True | Some r \<Rightarrow> force \<or> \<not> ggr_cached now r"
      "calculate_ggr now a w force s =
         (Inr row, ggr_metrics w (map_option ggr_bucket_of (get_ggr_score (acc_id a) w s)) b
            (gw_score (ggr_result now a w raw s)) (write_ggr (ggr_result now a w raw s) s))"
      "get_ggr_score (acc_id a) w (write_ggr (ggr_result now a w raw s) s) = Some row"
proof -
  obtain raw where raw: "compute_score (compute_components now a s) = Inr raw" "score_ok raw"
    by (rule compute_score_total)
  let ?g = "ggr_result now a w raw s"
  show thesis
  proof (cases "get_ggr_score (acc_id a) w s")
    case None
    have g: "?g = \<lparr>gw_key = (w, acc_id a), gw_score = clamp_score (apply_smoothing raw None),
        gw_breakdown = compute_components now a s, gw_now = now\<rparr>"
      using raw(2) None by (simp add: ggr_result_def clamp_ok apply_smoothing_def)
    show ?thesis
    proof (rule written [OF raw])
      show "score_ok (gw_score ?g)" using raw(2) None by (simp add: ggr_result_def apply_smoothing_def)
      show "calculate_ggr now a w force s = (Inr (fresh_ggr ?g s),
          ggr_metrics w (map_option ggr_bucket_of (get_ggr_score (acc_id a) w s))
            (compute_bucket (gw_score ?g)) (gw_score ?g) (write_ggr ?g s))"
        using None raw(1) by (simp add: calculate_ggr_def Let_def g)
      show "get_ggr_score (acc_id a) w (write_ggr ?g s) = Some (fresh_ggr ?g s)"
        using None by (simp add: ggr_lookup ggr.lookup_put) (simp add: ggr_result_def)
    qed (simp add: None)
  next
    case (Some r)
    have r: "score_ok (ggr_score r)" using get_ggr_row_ok [OF ok Some] by (simp add: ggr_row_ok_def)
    have g: "?g = \<lparr>gw_key = (w, acc_id a), gw_score = clamp_score (apply_smoothing raw (Some (ggr_score r))),
        gw_breakdown = compute_components now a s, gw_now = now\<rparr>"
      using smoothed_ok(2) [OF raw(2) r] Some by (simp add: ggr_result_def)
    show ?thesis
    proof (cases "\<not> force \<and> ggr_cached now r")
      case True
      show ?thesis
        by (rule cached [OF Some]) (use True Some in \<open>simp_all add: calculate_ggr_def ggr_cached_def\<close>)
    next
      case False
      show ?thesis
      proof (rule written [OF raw])
        show "score_ok (gw_score ?g)" using smoothed_ok(1) [OF raw(2) r] Some by (simp add: ggr_result_def)
        show "calculate_ggr now a w force s = (Inr (merge_ggr ?g r),
            ggr_metrics w (map_option ggr_bucket_of (get_ggr_score (acc_id a) w s))
              (compute_bucket (gw_score ?g)) (gw_score ?g) (write_ggr ?g s))"
          using Some raw(1) False by (cases force) (simp_all add: calculate_ggr_def Let_def g ggr_cached_def)
        show "get_ggr_score (acc_id a) w (write_ggr ?g s) = Some (merge_ggr ?g r)"
          using Some by (simp add: ggr_lookup ggr.lookup_put) (simp add: ggr_result_def)
      qed (use False Some in auto)
    qed
  qed
qed

lemma ggr_table_ok_cong: "db_ggr_scores s' = db_ggr_scores s \<Longrightarrow> ggr_table_ok s' = ggr_table_ok s"
  by (simp add: ggr_table_ok_def)

lemma calculate_ggr_ok:
  assumes ok: "ggr_table_ok s"
  shows "ggr_table_ok (snd (calculate_ggr now a w force s))"
  using ok
proof (cases rule: calculate_ggr_total [where a = a and w = w and force = force and now = now])
  case (cached r)
  then show ?thesis using ok by simp
next
  case (written raw row b)
  have "db_ggr_scores (snd (calculate_ggr now a w force s)) =
      db_ggr_scores (write_ggr (ggr_result now a w raw s) s)"
    by (simp add: written(5))
  then show ?thesis
    using ggr_table_ok_write [OF ok written(3)] by (metis ggr_table_ok_cong)
qed

section \<open>Backfill and recalculation\<close>

definition backfill_step ::
  "time \<Rightarrow> uuid \<Rightarrow> uuid set \<Rightarrow> account \<Rightarrow> nat \<times> db \<Rightarrow> nat \<times> db" where
  "backfill_step now w ids a = (\<lambda>(created, s').
     if acc_id a \<in> ids then (created, s')
     else let (i, s'') = new_id s' in
       (created + 1, s''\<lparr>db_ggr_scores := db_ggr_scores s'' @ [default_ggr now i w (acc_id a)]\<rparr>))"

text \<open>The rows a backfill appends: one default row per account without a score, in account order.\<close>

lemma backfill_fold:
  "\<exists>rows. db_ggr_scores (snd (fold (backfill_step now w ids) as (n, s))) = db_ggr_scores s @ rows \<and>
     map ggr_key rows = map (\<lambda>a. (w, acc_id a)) (filter (\<lambda>a. acc_id a \<notin> ids) as) \<and>
     list_all ggr_row_ok rows \<and> fst (fold (backfill_step now w ids) as (n, s)) = n + length rows \<and>
     db_accounts (snd (fold (backfill_step now w ids) as (n, s))) = db_accounts s"
proof (induction as arbitrary: n s)
  case Nil
  then show ?case by simp
next
  case (Cons a as)
  show ?case
  proof (cases "acc_id a \<in> ids")
    case True
    with Cons show ?thesis by (simp add: backfill_step_def)
  next
    case False
    let ?row = "default_ggr now (db_next_id s) w (acc_id a)"
    let ?s = "s\<lparr>db_next_id := Suc (db_next_id s), db_ggr_scores := db_ggr_scores s @ [?row]\<rparr>"
    have step: "backfill_step now w ids a (n, s) = (Suc n, ?s)"
      using False by (simp add: backfill_step_def new_id_def)
    obtain rows where rows:
      "db_ggr_scores (snd (fold (backfill_step now w ids) as (Suc n, ?s))) = db_ggr_scores ?s @ rows"
      "map ggr_key rows = map (\<lambda>a. (w, acc_id a)) (filter (\<lambda>a. acc_id a \<notin> ids) as)"
      "list_all ggr_row_ok rows" "fst (fold (backfill_step now w ids) as (Suc n, ?s)) = Suc n + length rows"
      "db_accounts (snd (fold (backfill_step now w ids) as (Suc n, ?s))) = db_accounts ?s"
      using Cons.IH [of "Suc n" ?s] by blast
    have row: "ggr_key ?row = (w, acc_id a)" "ggr_row_ok ?row"
      by (simp_all add: default_ggr_def ggr_key_def ggr_row_ok_def score_ok_def compute_bucket_def)
    show ?thesis
      by (rule exI [of _ "?row # rows"]) (use rows row False step in simp)
  qed
qed

definition ids_of :: "uuid \<Rightarrow> db \<Rightarrow> uuid set" where
  "ids_of w s = set (map ggr_account_id (filter (\<lambda>r. ggr_workspace_id r = w) (db_ggr_scores s)))"

lemma ids_of_iff: "a \<in> ids_of w s \<longleftrightarrow> (w, a) \<in> ggr_key ` set (db_ggr_scores s)"
  by (auto simp: ids_of_def ggr_key_def image_iff)

lemma backfill_alt:
  "backfill_ggr_scores now w s =
   fold (backfill_step now w (ids_of w s)) (filter (\<lambda>a. acc_workspace_id a = w) (db_accounts s)) (0, s)"
  by (simp add: backfill_ggr_scores_def backfill_step_def [abs_def] ids_of_def Let_def)

text \<open>The accounts of the workspace have distinct identifiers (the primary key).\<close>

definition accounts_ok :: "db \<Rightarrow> bool" where
  "accounts_ok s \<longleftrightarrow> distinct (map acc_id (db_accounts s))"

lemma backfill_ok:
  assumes "ggr_table_ok s" and "accounts_ok s"
  shows "ggr_table_ok (snd (backfill_ggr_scores now w s))"
proof -
  let ?as = "filter (\<lambda>a. acc_workspace_id a = w) (db_accounts s)"
  obtain rows where rows: "db_ggr_scores (snd (backfill_ggr_scores now w s)) = db_ggr_scores s @ rows"
    "map ggr_key rows = map (\<lambda>a. (w, acc_id a)) (filter (\<lambda>a. acc_id a \<notin> ids_of w s) ?as)"
    "list_all ggr_row_ok rows"
    using backfill_fold [of now w "ids_of w s" ?as 0 s] unfolding backfill_alt by blast
  have "distinct (map acc_id (filter (\<lambda>a. acc_id a \<notin> ids_of w s) ?as))"
    using assms(2) unfolding accounts_ok_def by (intro distinct_map_filter)
  then have "distinct (map ggr_key rows)"
    unfolding rows(2) by (auto simp: distinct_map inj_on_def)
  moreover have "ggr_key r \<notin> ggr_key ` set (db_ggr_scores s)" if "r \<in> set rows" for r
  proof -
    have "ggr_key r \<in> set (map ggr_key rows)" using that by simp
    then show ?thesis unfolding rows(2) by (auto simp: ids_of_iff) (metis imageI)
  qed
  ultimately show ?thesis
    using assms(1) rows(1,3) by (fastforce simp: ggr_table_ok_def list_all_iff)
qed

lemma recalculate_ok: "ggr_table_ok s \<Longrightarrow> ggr_table_ok (snd (recalculate_due_scores now w limit s))"
proof -
  have "ggr_table_ok s \<Longrightarrow> ggr_table_ok (snd (fold (\<lambda>r (n, s').
         case find (\<lambda>a. acc_id a = ggr_account_id r \<and> acc_workspace_id a = w) (db_accounts s') of
           None \<Rightarrow> (n, s')
         | Some a \<Rightarrow> (n + 1, snd (calculate_ggr now a w True s'))) rs (n, s)))" for rs n
    by (induction rs arbitrary: n s) (auto intro: calculate_ggr_ok split: option.split)
  then show "ggr_table_ok s \<Longrightarrow> ?thesis" by (simp add: recalculate_due_scores_def)
qed

section \<open>Properties\<close>

text \<open>
  C33. Calculating the score of an account never fails on a consistent score table: a row that is
  not yet due is returned untouched unless forced; otherwise the score of the account becomes the
  computed one when that is at most one point away, and moves by exactly one point towards it when it
  is further up or down; a first score is the computed one. It is a multiple of a tenth between 1
  and 10, with the bucket of that score, the next calculation six hours later and the previous
  score recorded; the scores of all other accounts are unchanged.
\<close>

theorem calculate_ggr_spec:
  assumes "ggr_table_ok s"
  shows "\<exists>row s' raw. calculate_ggr now a w force s = (Inr row, s') \<and>
    get_ggr_score (acc_id a) w s' = Some row \<and> score_ok (ggr_score row) \<and>
    ggr_bucket_of row = compute_bucket (ggr_score row) \<and>
    (\<forall>k. k \<noteq> (w, acc_id a) \<longrightarrow> get_ggr_score (snd k) (fst k) s' = get_ggr_score (snd k) (fst k) s) \<and>
    compute_score (compute_components now a s) = Inr raw \<and> score_ok raw \<and>
    (case get_ggr_score (acc_id a) w s of
       None \<Rightarrow> ggr_score row = raw \<and> ggr_next_calculation_at row = Some (now + hours 6)
     | Some r \<Rightarrow>
         if \<not> force \<and> ggr_cached now r then row = r \<and> s' = s
         else ggr_previous_score row = Some (ggr_score r) \<and>
              ggr_next_calculation_at row = Some (now + hours 6) \<and>
              ggr_score row = (if \<bar>raw - ggr_score r\<bar> \<le> 1 then raw
                               else if ggr_score r < raw then ggr_score r + 1 else ggr_score r - 1))"
  using assms
proof (cases rule: calculate_ggr_total [where a = a and w = w and force = force and now = now])
  case (cached r)
  obtain raw where "compute_score (compute_components now a s) = Inr raw" "score_ok raw"
    by (rule compute_score_total)
  with cached get_ggr_row_ok [OF assms cached(1)] show ?thesis
    by (simp add: ggr_row_ok_def)
next
  case (written raw row b)
  let ?g = "ggr_result now a w raw s"
  let ?s' = "ggr_metrics w (map_option ggr_bucket_of (get_ggr_score (acc_id a) w s)) b (gw_score ?g) (write_ggr ?g s)"
  have at: "get_ggr_score a' w' ?s' = get_ggr_score a' w' (write_ggr ?g s)" for a' w'
    by (simp add: get_ggr_score_def)
  have row: "row = (case get_ggr_score (acc_id a) w s of None \<Rightarrow> fresh_ggr ?g s | Some r \<Rightarrow> merge_ggr ?g r)"
    using written(6) by (simp add: ggr_lookup ggr.lookup_put) (simp add: ggr_result_def)
  have other: "get_ggr_score (snd k) (fst k) ?s' = get_ggr_score (snd k) (fst k) s" if "k \<noteq> (w, acc_id a)" for k
    using that unfolding at by (simp add: ggr_lookup ggr.lookup_put) (simp add: ggr_result_def)
  have stored: "get_ggr_score (acc_id a) w ?s' = Some row" unfolding at by (rule written(6))
  have fields: "ggr_score row = gw_score ?g" "ggr_bucket_of row = compute_bucket (gw_score ?g)"
    "ggr_next_calculation_at row = Some (now + hours 6)"
    by (simp_all add: row fresh_ggr_def merge_ggr_def RECALC_INTERVAL_def ggr_result_def split: option.split)
  have last: "case get_ggr_score (acc_id a) w s of
       None \<Rightarrow> ggr_score row = raw \<and> ggr_next_calculation_at row = Some (now + hours 6)
     | Some r \<Rightarrow>
         if \<not> force \<and> ggr_cached now r then row = r \<and> ?s' = s
         else ggr_previous_score row = Some (ggr_score r) \<and>
              ggr_next_calculation_at row = Some (now + hours 6) \<and>
              ggr_score row = (if \<bar>raw - ggr_score r\<bar> \<le> 1 then raw
                               else if ggr_score r < raw then ggr_score r + 1 else ggr_score r - 1)"
  proof (cases "get_ggr_score (acc_id a) w s")
    case None
    then show ?thesis by (simp add: fields) (simp add: ggr_result_def apply_smoothing_def)
  next
    case (Some r)
    have r: "score_ok (ggr_score r)" using get_ggr_row_ok [OF assms Some] by (simp add: ggr_row_ok_def)
    have score: "ggr_score row = apply_smoothing raw (Some (ggr_score r))"
      using Some by (simp add: fields) (simp add: ggr_result_def)
    have "multiple 1 (ggr_score r)" using r by (simp add: score_ok_def)
    note smoothed = apply_smoothing_simps [OF this, of raw]
    have "ggr_previous_score row = Some (ggr_score r)"
      using Some by (simp add: row merge_ggr_def)
    moreover have "\<not> (\<not> force \<and> ggr_cached now r)" using written(4) Some by simp
    ultimately show ?thesis
      using Some by (simp only: score smoothed fields(3)) auto
  qed
  show ?thesis
    by (rule exI [of _ row], rule exI [of _ ?s'], rule exI [of _ raw])
      (use written(1-3,5) stored other last fields in simp)
qed

theorem calculate_ggr_spec_witness:
  "\<exists>row s'. calculate_ggr 0 (imported_account 1 7 0) 7 False one_account_db = (Inr row, s') \<and>
     ggr_next_calculation_at row = Some (hours 6)"
proof -
  have "ggr_table_ok one_account_db" "get_ggr_score 1 7 one_account_db = None"
    by (simp_all add: ggr_table_ok_def get_ggr_score_def one_account_db_def empty_db_def)
  with calculate_ggr_spec [of one_account_db 0 "imported_account 1 7 0" 7 False] show ?thesis
    by (auto simp: imported_account_def)
qed

inductive ggr_step :: "db \<Rightarrow> db \<Rightarrow> bool" where
  calculated: "ggr_step s (snd (calculate_ggr now a w force s))"
| backfilled: "accounts_ok s \<Longrightarrow> ggr_step s (snd (backfill_ggr_scores now w s))"
| recalculated: "ggr_step s (snd (recalculate_due_scores now w limit s))"

inductive_cases ggr_stepE: "ggr_step s s'"

text \<open>
  C34. Through every history of calculations, backfills and batch recalculations there is at most
  one score per workspace and account, every score is a multiple of a tenth between 1 and 10, and
  every bucket is the bucket of its score.
\<close>

theorem ggr_history_invariant:
  "ggr_step\<^sup>*\<^sup>* s s' \<Longrightarrow> ggr_table_ok s \<Longrightarrow>
   distinct (map ggr_key (db_ggr_scores s')) \<and>
   (\<forall>r\<in>set (db_ggr_scores s'). multiple 1 (ggr_score r) \<and> 1 \<le> ggr_score r \<and> ggr_score r \<le> 10 \<and>
      ggr_bucket_of r = compute_bucket (ggr_score r))"
proof -
  have step: "ggr_step s s' \<Longrightarrow> ggr_table_ok s \<Longrightarrow> ggr_table_ok s'" for s s'
    by (elim ggr_stepE) (auto intro: calculate_ggr_ok backfill_ok recalculate_ok)
  have "ggr_step\<^sup>*\<^sup>* s s' \<Longrightarrow> ggr_table_ok s \<Longrightarrow> ggr_table_ok s'"
    by (induction rule: rtranclp_induct) (auto intro: step)
  then show "ggr_step\<^sup>*\<^sup>* s s' \<Longrightarrow> ggr_table_ok s \<Longrightarrow> ?thesis"
    by (simp add: ggr_table_ok_def ggr_row_ok_def score_ok_def)
qed

theorem ggr_history_invariant_witness:
  "list_all (\<lambda>r. 1 \<le> ggr_score r \<and> ggr_bucket_of r = compute_bucket (ggr_score r))
     (db_ggr_scores (snd (backfill_ggr_scores 0 7 one_account_db)))"
proof -
  have ok: "ggr_table_ok one_account_db"
    by (simp add: ggr_table_ok_def one_account_db_def empty_db_def)
  have "ggr_step\<^sup>*\<^sup>* one_account_db (snd (backfill_ggr_scores 0 7 one_account_db))"
    by (rule r_into_rtranclp, rule backfilled) (simp add: accounts_ok_def one_account_db_def)
  from ggr_history_invariant [OF this ok] show ?thesis by (simp add: list_all_iff)
qed

definition smooth_cycles :: "rat \<Rightarrow> nat \<Rightarrow> rat \<Rightarrow> rat" where
  "smooth_cycles raw n p = ((\<lambda>x. apply_smoothing raw (Some x)) ^^ n) p"

lemma smooth_distance:
  assumes "score_ok p" and "score_ok raw"
  shows "score_ok (smooth_cycles raw n p) \<and>
    \<bar>raw - smooth_cycles raw n p\<bar> \<le> max 0 (\<bar>raw - p\<bar> - of_nat n)"
proof (induction n)
  case 0
  then show ?case using assms by (simp add: smooth_cycles_def)
next
  case (Suc n)
  let ?x = "smooth_cycles raw n p"
  have x: "score_ok ?x" and d: "\<bar>raw - ?x\<bar> \<le> max 0 (\<bar>raw - p\<bar> - of_nat n)" using Suc by auto
  have m: "multiple 1 ?x" using x by (simp add: score_ok_def)
  have "smooth_cycles raw (Suc n) p = apply_smoothing raw (Some ?x)" by (simp add: smooth_cycles_def)
  then show ?case
    using smoothed_ok(1) [OF assms(2) x] d
    by (auto simp: apply_smoothing_simps [OF m] max_def abs_if split: if_splits)
qed

text \<open>
  C35. Smoothing converges: if the computed score stays the same, the stored score moves towards it
  without ever overshooting, reaches it after as many cycles as their distance rounded up, after
  nine at the latest, and the bucket moves monotonically: it never falls while the score rises, and
  never rises while it falls.
\<close>

theorem smoothing_converges:
  assumes "score_ok p" and "score_ok raw"
  shows "\<bar>raw - smooth_cycles raw n p\<bar> \<le> max 0 (\<bar>raw - p\<bar> - of_nat n) \<and>
    (\<bar>raw - p\<bar> \<le> of_nat n \<longrightarrow> smooth_cycles raw n p = raw) \<and>
    smooth_cycles raw 9 p = raw \<and>
    (p \<le> raw \<longrightarrow> smooth_cycles raw n p \<le> raw \<and>
       compute_bucket (smooth_cycles raw n p) \<le> compute_bucket (smooth_cycles raw (Suc n) p)) \<and>
    (raw \<le> p \<longrightarrow> raw \<le> smooth_cycles raw n p \<and>
       compute_bucket (smooth_cycles raw (Suc n) p) \<le> compute_bucket (smooth_cycles raw n p))"
proof -
  note d = smooth_distance [OF assms]
  have m: "multiple 1 (smooth_cycles raw n p)" for n using d [of n] by (simp add: score_ok_def)
  have suc: "smooth_cycles raw (Suc n) p = apply_smoothing raw (Some (smooth_cycles raw n p))" for n
    by (simp add: smooth_cycles_def)
  have below: "p \<le> raw \<Longrightarrow> smooth_cycles raw n p \<le> raw" for n
  proof (induction n)
    case (Suc n)
    then show ?case unfolding suc by (auto simp: apply_smoothing_simps [OF m])
  qed (simp add: smooth_cycles_def)
  have above: "raw \<le> p \<Longrightarrow> raw \<le> smooth_cycles raw n p" for n
  proof (induction n)
    case (Suc n)
    then show ?case unfolding suc by (auto simp: apply_smoothing_simps [OF m])
  qed (simp add: smooth_cycles_def)
  have "p \<le> raw \<Longrightarrow> smooth_cycles raw n p \<le> smooth_cycles raw (Suc n) p"
    using below [of n] unfolding suc by (auto simp: apply_smoothing_simps [OF m])
  moreover have "raw \<le> p \<Longrightarrow> smooth_cycles raw (Suc n) p \<le> smooth_cycles raw n p"
    using above [of n] unfolding suc by (auto simp: apply_smoothing_simps [OF m])
  moreover have reach: "smooth_cycles raw k p = raw" if "\<bar>raw - p\<bar> \<le> of_nat k" for k
    using d [of k] that by (auto simp: max_def split: if_splits)
  moreover have "\<bar>raw - p\<bar> \<le> of_nat 9"
    using assms by (auto simp: score_ok_def)
  ultimately show ?thesis
    using d [of n] compute_bucket_mono reach below [of n] above [of n] by blast
qed

theorem smoothing_converges_witness: "smooth_cycles 10 9 1 = 10"
  using smoothing_converges [of 1 10 9] by (simp add: score_ok_def)

text \<open>
  After a backfill every account of the workspace has a score; existing rows are untouched,
  the answer is the number of rows added, and repeating the backfill adds nothing.
\<close>

theorem backfill_complete:
  "(let (n, s') = backfill_ggr_scores now w s in
    (\<exists>rows. db_ggr_scores s' = db_ggr_scores s @ rows \<and> length rows = n) \<and>
    (\<forall>a. acc_workspace_id a = w \<and> a \<in> set (db_accounts s) \<longrightarrow> get_ggr_score (acc_id a) w s' \<noteq> None) \<and>
    backfill_ggr_scores now' w s' = (0, s'))"
proof -
  let ?as = "filter (\<lambda>a. acc_workspace_id a = w) (db_accounts s)"
  obtain n s' where b: "backfill_ggr_scores now w s = (n, s')" by (cases "backfill_ggr_scores now w s")
  obtain rows where rows: "db_ggr_scores s' = db_ggr_scores s @ rows"
    "map ggr_key rows = map (\<lambda>a. (w, acc_id a)) (filter (\<lambda>a. acc_id a \<notin> ids_of w s) ?as)"
    "n = length rows" "db_accounts s' = db_accounts s"
    using backfill_fold [of now w "ids_of w s" ?as 0 s] b unfolding backfill_alt by auto
  have has: "acc_id a \<in> ids_of w s'" if "a \<in> set ?as" for a
  proof (cases "acc_id a \<in> ids_of w s")
    case True
    then show ?thesis by (auto simp: ids_of_iff rows(1))
  next
    case False
    then have "(w, acc_id a) \<in> set (map ggr_key rows)" using that unfolding rows(2) by auto
    then show ?thesis by (auto simp: ids_of_iff rows(1))
  qed
  have "fold (backfill_step now' w (ids_of w s')) as (k, t) = (k, t)"
    if "set as \<subseteq> set ?as" for as k t
    using that has by (induction as) (auto simp: backfill_step_def)
  then have "backfill_ggr_scores now' w s' = (0, s')"
    unfolding backfill_alt rows(4) by blast
  moreover have "get_ggr_score (acc_id a) w s' \<noteq> None" if "a \<in> set (db_accounts s)" "acc_workspace_id a = w" for a
    using has [of a] that by (auto simp: ids_of_iff get_ggr_score_def find_none_iff)
  ultimately show ?thesis using b rows(1,3) by auto
qed

theorem backfill_complete_witness:
  "get_ggr_score 1 7 (snd (backfill_ggr_scores 0 7 one_account_db)) \<noteq> None"
  using backfill_complete [of 0 7 one_account_db 0]
  by (auto simp: Let_def split_def one_account_db_def imported_account_def)

end
