(* ===== verification/SafetyGate.thy ===== *)
theory SafetyGate
  imports StatusMonitor LoadTracker Ggr GateCache
begin

text \<open>
  The account safety gate: \<open>account_safety/gate.py\<close>, \<open>account_safety/gate_helpers.py\<close> and the
  verdict types of \<open>account_safety/gate_contracts.py\<close>. A verdict is computed from the workspace
  policy, the account, its proxy, warmup, GGR score, profile, quarantines, observations, flood-wait
  cooldowns and cross-module load. \<open>AccountSafetyGate.evaluate\<close> puts the two-level verdict cache
  and the cold-call budget in front of it, and the legacy checks when the pipeline is switched off.
  The text keys of the cache are the constructor terms they are built from; timing histograms are
  not modelled.
\<close>

section \<open>Verdicts\<close>

record gate_reason =
  gr_code :: gate_reason_code
  gr_severity :: reason_severity
  gr_message :: string
  gr_metadata :: "(string, json) dict"

fun reason_code_text :: "gate_reason_code \<Rightarrow> string" where
  "reason_code_text ProxyUnhealthy = ''proxy_unhealthy''"
| "reason_code_text NoWarmup = ''no_warmup''"
| "reason_code_text WarmupIncomplete = ''warmup_incomplete''"
| "reason_code_text AgeTooLow = ''age_too_low''"
| "reason_code_text FloodWaitStreak = ''flood_wait_streak''"
| "reason_code_text FraudScoreHigh = ''fraud_score_high''"
| "reason_code_text GgrTooLow = ''ggr_too_low''"
| "reason_code_text StatusDegraded = ''status_degraded''"
| "reason_code_text ProfileIncomplete = ''profile_incomplete''"
| "reason_code_text ActiveQuarantine = ''active_quarantine''"
| "reason_code_text CrossModuleOverload = ''cross_module_overload''"
| "reason_code_text TerminalStatus = ''terminal_status''"
| "reason_code_text IpChangeCooldown = ''ip_change_cooldown''"

definition reason_json :: "gate_reason \<Rightarrow> json" where
  "reason_json r =
     JObj [(''code'', JStr (reason_code_text (gr_code r))),
           (''severity'', JStr (case gr_severity r of Warning \<Rightarrow> ''warning'' | Blocked \<Rightarrow> ''blocked'')),
           (''message'', JStr (gr_message r)), (''metadata'', JObj (gr_metadata r))]"

datatype verdict_severity = VerdictOk | VerdictWarning | VerdictBlocked

record gate_verdict =
  gv_account_id :: uuid
  gv_intent :: gate_intent
  gv_eligible :: bool
  gv_severity :: verdict_severity
  gv_reasons :: "gate_reason list"
  gv_ggr_score :: "rat option"
  gv_checked_at :: time
  gv_cache_ttl_seconds :: int

definition CACHE_TTL_SECONDS :: int where "CACHE_TTL_SECONDS = 60"
definition STALE_CACHE_TTL_SECONDS :: int where "STALE_CACHE_TTL_SECONDS = 300"

definition TERMINAL_ACCOUNT_STATES :: "account_state list" where
  "TERMINAL_ACCOUNT_STATES = [AccountDisabled, ManualInterventionNeeded]"

definition CRITICAL_ACCOUNT_STATES :: "account_state list" where
  "CRITICAL_ACCOUNT_STATES = TERMINAL_ACCOUNT_STATES @ [RuntimeBroken, ReauthRequired]"

definition gate_reason_of ::
  "gate_reason_code \<Rightarrow> reason_severity \<Rightarrow> string \<Rightarrow> (string, json) dict \<Rightarrow> gate_reason" where
  "gate_reason_of code sev message metadata =
     \<lparr>gr_code = code, gr_severity = sev, gr_message = message, gr_metadata = metadata\<rparr>"

definition proxy_reason :: "reason_severity \<Rightarrow> account \<Rightarrow> gate_reason" where
  "proxy_reason sev account =
     gate_reason_of ProxyUnhealthy sev ''Account proxy is not healthy.''
       [(''status'', json_of_str (map_option px_status (acc_proxy account)))]"

definition terminal_reason :: "account \<Rightarrow> gate_reason" where
  "terminal_reason account =
     gate_reason_of TerminalStatus Blocked ''Account status blocks safety-gated actions.''
       [if acc_terminal_status account \<noteq> TermNone
        then (''status'', JStr (terminal_text (acc_terminal_status account)))
        else (''account_state'', JStr (account_state_text (acc_account_state account)))]"

definition quarantine_reason :: "account_quarantine \<Rightarrow> gate_reason" where
  "quarantine_reason q =
     gate_reason_of ActiveQuarantine Blocked ''Account has an active quarantine.''
       [(''quarantine_id'', JInt (int (q_id q))), (''reason'', JStr (q_reason q))]"

definition aggregate_severity :: "gate_reason list \<Rightarrow> verdict_severity" where
  "aggregate_severity reasons =
     (if list_ex (\<lambda>r. gr_severity r = Blocked) reasons then VerdictBlocked
      else if list_ex (\<lambda>r. gr_severity r = Warning) reasons then VerdictWarning else VerdictOk)"

definition fail_closed_verdict :: "uuid \<Rightarrow> gate_intent \<Rightarrow> time \<Rightarrow> gate_verdict" where
  "fail_closed_verdict a intent now =
     \<lparr>gv_account_id = a, gv_intent = intent, gv_eligible = False, gv_severity = VerdictBlocked,
      gv_reasons = [gate_reason_of CrossModuleOverload Blocked ''Safety gate cold-call budget exceeded.''
                      [(''budget'', JStr ''cold_call'')]],
      gv_ggr_score = None, gv_checked_at = now, gv_cache_ttl_seconds = 0\<rparr>"

section \<open>Facts about the account\<close>

definition proxy_healthy :: "account \<Rightarrow> bool" where
  "proxy_healthy account \<longleftrightarrow>
     (case acc_proxy account of None \<Rightarrow> False | Some p \<Rightarrow> px_status p \<in> set HEALTHY_PROXY_STATUSES)"

definition warmup_complete :: "warmup_session \<Rightarrow> workspace_safety_policy \<Rightarrow> bool" where
  "warmup_complete u policy \<longleftrightarrow> wu_status u = WCompleted \<and> pol_min_warmup_days policy \<le> wu_current_day u"

text \<open>\<open>_age_hours(account) < hours\<close>.\<close>

definition younger_than_hours :: "time \<Rightarrow> account \<Rightarrow> int \<Rightarrow> bool" where
  "younger_than_hours now account h \<longleftrightarrow> now - acc_created_at account < hours h"

definition fraud_score :: "account \<Rightarrow> db \<Rightarrow> rat" where
  "fraud_score account s =
     (case get_ggr_score (acc_id account) (acc_workspace_id account) s of
        None \<Rightarrow> 0
      | Some ggr \<Rightarrow> (case dict_get (ggr_breakdown_json ggr) ''fraud_score'' of None \<Rightarrow> 0 | Some v \<Rightarrow> v))"

definition recent_flood_waits :: "time \<Rightarrow> account \<Rightarrow> db \<Rightarrow> nat" where
  "recent_flood_waits now account s =
     length [c. c \<leftarrow> db_cooldowns s, r \<leftarrow> db_accounts s,
       acc_id r = cd_account_id c \<and> acc_workspace_id r = acc_workspace_id account \<and>
       cd_account_id c = acc_id account \<and> cd_reason_code c = ''recent_flood_wait'' \<and>
       now - hours 24 \<le> cd_started_at c]"

definition latest_status :: "account \<Rightarrow> db \<Rightarrow> account_status_observation option" where
  "latest_status account s = latest_observation (acc_id account) (acc_workspace_id account) s"

definition is_status_degraded :: "account_status_observation \<Rightarrow> int \<Rightarrow> bool" where
  "is_status_degraded status threshold \<longleftrightarrow>
     threshold \<le> ob_consecutive_failures status \<or>
     ob_auto_action_taken status \<in> {Some ActPaused, Some ActQuarantine}"

definition effective_safety_mode :: "account \<Rightarrow> workspace_safety_policy \<Rightarrow> time \<Rightarrow> safety_mode" where
  "effective_safety_mode account policy now =
     (case acc_safety_grace_period_until account of
        None \<Rightarrow> pol_mode policy
      | Some until \<Rightarrow>
          if pol_mode policy \<noteq> Conservative then pol_mode policy
          else if now < until then Balanced else pol_mode policy)"

definition find_account :: "uuid \<Rightarrow> uuid \<Rightarrow> db \<Rightarrow> account option" where
  "find_account w a s = find (\<lambda>r. acc_workspace_id r = w \<and> acc_id r = a) (db_accounts s)"

definition account_not_found :: py_error where
  "account_not_found = LookupError ''account not found''"

section \<open>Computing a verdict\<close>

definition reason_if :: "bool \<Rightarrow> 'a \<Rightarrow> 'a list" where
  "reason_if b x = (if b then [x] else [])"

definition commenting_reasons ::
  "time \<Rightarrow> account \<Rightarrow> workspace_safety_policy \<Rightarrow> rat option \<Rightarrow> db \<Rightarrow> gate_reason list result" where
  "commenting_reasons now account policy ggr s =
     (let r1 = reason_if (pol_require_healthy_proxy policy \<and> \<not> proxy_healthy account) (proxy_reason Blocked account);
          r2 = (if pol_require_warmup_before_commenting policy
                then case latest_warmup account s of
                    None \<Rightarrow> [gate_reason_of NoWarmup Blocked ''Account has no warmup session.'' []]
                  | Some u \<Rightarrow> reason_if (\<not> warmup_complete u policy)
                      (gate_reason_of WarmupIncomplete Blocked ''Account warmup is not complete.''
                         [(''status'', JStr (warmup_status_text (wu_status u))),
                          (''current_day'', JInt (wu_current_day u))])
                else []);
          r3 = reason_if (younger_than_hours now account (pol_min_account_age_hours policy))
                 (gate_reason_of AgeTooLow Blocked
                    ''Account age is below the workspace safety policy minimum.''
                    [(''min_account_age_hours'', JInt (pol_min_account_age_hours policy))]);
          r4 = reason_if (case ggr of None \<Rightarrow> False | Some x \<Rightarrow> x < 4)
                 (gate_reason_of GgrTooLow Blocked ''Account GGR score is too low.'' []);
          fraud = fraud_score account s;
          r5 = reason_if (7 / 10 \<le> fraud)
                 (gate_reason_of FraudScoreHigh Blocked ''Account fraud score is too high.''
                    [(''fraud_score'', JNum fraud)]);
          r6 = reason_if (pol_auto_pause_on_flood_wait_count policy \<le> int (recent_flood_waits now account s))
                 (gate_reason_of FloodWaitStreak Blocked
                    ''Recent flood-wait count reached the workspace safety threshold.''
                    [(''threshold'', JInt (pol_auto_pause_on_flood_wait_count policy))])
      in case evaluate_profile_completeness now (acc_workspace_id account) (acc_id account) s of
           Inl e \<Rightarrow> Inl e
         | Inr profile \<Rightarrow>
             let r7 = reason_if (pr_score profile < 8 / 10)
                   (gate_reason_of ProfileIncomplete Blocked
                      ''Account profile completeness is below the commenting threshold.''
                      [(''score'', JNum (pr_score profile))]);
                 r8 = reason_if (acc_terminal_status account = TermNone \<and>
                            acc_account_state account \<in> set TERMINAL_ACCOUNT_STATES)
                   (terminal_reason account)
             in Inr (r1 @ r2 @ r3 @ r4 @ r5 @ r6 @ r7 @ r8))"

definition warmup_reasons :: "account \<Rightarrow> workspace_safety_policy \<Rightarrow> gate_reason list" where
  "warmup_reasons account policy =
     reason_if (pol_require_healthy_proxy policy \<and> \<not> proxy_healthy account) (proxy_reason Blocked account) @
     reason_if (acc_terminal_status account = TermNone \<and> acc_account_state account \<in> set TERMINAL_ACCOUNT_STATES)
       (terminal_reason account)"

definition editing_reasons :: "account \<Rightarrow> gate_reason list" where
  "editing_reasons account =
     reason_if (\<not> proxy_healthy account) (proxy_reason Warning account) @
     reason_if (acc_terminal_status account = TermNone \<and> acc_account_state account \<in> set CRITICAL_ACCOUNT_STATES)
       (terminal_reason account)"

definition status_reasons ::
  "time \<Rightarrow> account \<Rightarrow> workspace_safety_policy \<Rightarrow> db \<Rightarrow> gate_reason list" where
  "status_reasons now account policy s =
     (case latest_status account s of
        None \<Rightarrow> []
      | Some status \<Rightarrow>
          let threshold = get_consecutive_failure_threshold policy in
          reason_if (ob_auto_action_taken status = Some ActCooldown \<and> now < ob_observed_at status + minutes 30)
            (gate_reason_of IpChangeCooldown Warning ''Account is in an IP-change cooldown window.''
               [(''observed_at'', JTime (ob_observed_at status))]) @
          reason_if (is_status_degraded status threshold)
            (gate_reason_of StatusDegraded Warning ''Recent account status observations are degraded.''
               [(''consecutive_failures'', JInt (ob_consecutive_failures status)),
                (''consecutive_failure_threshold'', JInt threshold)]))"

definition overload_reason :: "reason_severity \<Rightarrow> cross_module_load \<Rightarrow> gate_reason" where
  "overload_reason sev load =
     gate_reason_of CrossModuleOverload sev ''Account has too much cross-module activity.''
       [(''last_hour'', JInt (last_hour load)), (''last_24h'', JInt (last_24h load))]"

definition load_reasons ::
  "time \<Rightarrow> uuid \<Rightarrow> account \<Rightarrow> safety_mode \<Rightarrow> db \<Rightarrow> gate_reason list \<times> db" where
  "load_reasons now w account mode s =
     (let load = current_load now (acc_workspace_id account) (acc_id account) s
      in case evaluate_threshold load mode of
           LoadOk \<Rightarrow> ([], s)
         | LoadWarning \<Rightarrow> ([overload_reason Warning load], emit (M_cross_module_overload w Warning) s)
         | LoadBlocked \<Rightarrow> ([overload_reason Blocked load], emit (M_cross_module_overload w Blocked) s))"

definition verdict_of :: "uuid \<Rightarrow> gate_intent \<Rightarrow> gate_reason list \<Rightarrow> rat option \<Rightarrow> time \<Rightarrow> gate_verdict" where
  "verdict_of a intent reasons ggr now =
     (let sev = aggregate_severity reasons in
      \<lparr>gv_account_id = a, gv_intent = intent, gv_eligible = (sev \<noteq> VerdictBlocked), gv_severity = sev,
       gv_reasons = reasons, gv_ggr_score = ggr, gv_checked_at = now,
       gv_cache_ttl_seconds = CACHE_TTL_SECONDS\<rparr>)"

definition compute_verdict ::
  "time \<Rightarrow> uuid \<Rightarrow> uuid \<Rightarrow> gate_intent \<Rightarrow> workspace_safety_policy \<Rightarrow> db \<Rightarrow> gate_verdict result \<times> db" where
  "compute_verdict now w a intent policy s =
     (case find_account w a s of
        None \<Rightarrow> (Inl account_not_found, s)
      | Some account \<Rightarrow>
          let effective_mode = effective_safety_mode account policy now;
              (ggr, s1) = (case get_ggr_score a w s of
                             Some row \<Rightarrow> (Inr row, s)
                           | None \<Rightarrow> calculate_ggr now account w False s)
          in case ggr of
               Inl e \<Rightarrow> (Inl e, s1)
             | Inr row \<Rightarrow>
                 let score = ggr_score row;
                     own = (case intent of
                              Commenting \<Rightarrow> commenting_reasons now account policy (Some score) s1
                            | Warmup \<Rightarrow> Inr (warmup_reasons account policy)
                            | Editing \<Rightarrow> Inr (editing_reasons account))
                 in case own of
                      Inl e \<Rightarrow> (Inl e, s1)
                    | Inr reasons \<Rightarrow>
                        let r1 = reason_if (acc_terminal_status account \<noteq> TermNone) (terminal_reason account);
                            r2 = (case get_active_quarantine now (acc_id account) (acc_workspace_id account) s1 of
                                    None \<Rightarrow> [] | Some q \<Rightarrow> [quarantine_reason q]);
                            r3 = status_reasons now account policy s1;
                            (r4, s2) = (if intent = Commenting
                                        then load_reasons now w account effective_mode s1 else ([], s1))
                        in (Inr (verdict_of (acc_id account) intent (reasons @ r1 @ r2 @ r3 @ r4) (Some score) now), s2))"

definition legacy_shim_verdict ::
  "time \<Rightarrow> uuid \<Rightarrow> uuid \<Rightarrow> gate_intent \<Rightarrow> db \<Rightarrow> gate_verdict result" where
  "legacy_shim_verdict now w a intent s =
     (case find_account w a s of
        None \<Rightarrow> Inl account_not_found
      | Some account \<Rightarrow>
          let r1 = reason_if (intent \<in> {Commenting, Warmup} \<and> \<not> proxy_healthy account) (proxy_reason Blocked account);
              r2 = reason_if (intent = Commenting \<and> latest_warmup account s = None)
                     (gate_reason_of NoWarmup Blocked ''Account has no warmup session.'' []);
              r3 = (case get_active_quarantine now (acc_id account) (acc_workspace_id account) s of
                      None \<Rightarrow> [] | Some q \<Rightarrow> [quarantine_reason q])
          in Inr (verdict_of (acc_id account) intent (r1 @ r2 @ r3) None now))"

section \<open>Evaluation with caches\<close>

datatype gate_key =
    FreshKey uuid gate_intent time terminal_status "time option"
  | StaleKey uuid gate_intent

text \<open>The collaborators of an \<open>AccountSafetyGate\<close>: its cache and, when there is one, its Redis client.\<close>

record ('c, 'r) gate =
  g_get :: "'c \<Rightarrow> time \<Rightarrow> gate_key \<Rightarrow> gate_verdict option"
  g_set :: "gate_key \<Rightarrow> gate_verdict \<Rightarrow> int \<Rightarrow> time \<Rightarrow> 'c \<Rightarrow> 'c"
  g_redis :: "(uuid \<times> gate_intent, 'r) redis_counters option"

definition record_blocked_verdict :: "uuid \<Rightarrow> gate_verdict \<Rightarrow> db \<Rightarrow> db" where
  "record_blocked_verdict w v s =
     (if gv_severity v \<noteq> VerdictBlocked then s
      else fold (\<lambda>r. emit (M_gate_blocked w (gv_intent v) (gr_code r)))
             (filter (\<lambda>r. gr_severity r = Blocked) (gv_reasons v)) s)"

definition account_cache_state :: "uuid \<Rightarrow> uuid \<Rightarrow> db \<Rightarrow> (terminal_status \<times> time option) result" where
  "account_cache_state w a s =
     (case find_account w a s of
        None \<Rightarrow> Inl account_not_found
      | Some account \<Rightarrow> Inr (acc_terminal_status account, acc_safety_grace_period_until account))"

definition evaluate_gate ::
  "('c, 'r) gate \<Rightarrow> settings \<Rightarrow> time \<Rightarrow> uuid \<Rightarrow> uuid \<Rightarrow> gate_intent \<Rightarrow> 'c \<Rightarrow> 'r \<Rightarrow> db \<Rightarrow>
   gate_verdict result \<times> 'c \<times> 'r \<times> db" where
  "evaluate_gate g cfg now w a intent c r s =
     (if \<not> is_safety_pipeline_v2_enabled s w
      then case legacy_shim_verdict now w a intent s of
          Inl e \<Rightarrow> (Inl e, c, r, s)
        | Inr v \<Rightarrow> (Inr v, c, r, record_blocked_verdict w v s)
      else
        let (policy, s1) = get_workspace_safety_policy cfg now w True s in
        case policy of
          None \<Rightarrow> (Inl (RuntimeError ''workspace safety policy was not created''), c, r, s1)
        | Some pol \<Rightarrow>
            (case account_cache_state w a s1 of
               Inl e \<Rightarrow> (Inl e, c, r, s1)
             | Inr (terminal, grace) \<Rightarrow>
                 let cache_key = FreshKey a intent (pol_updated_at pol) terminal grace;
                     stale_key = StaleKey a intent
                 in case g_get g c now cache_key of
                      Some v \<Rightarrow> (Inr v, c, r, record_blocked_verdict w v s1)
                    | None \<Rightarrow>
                        let (ok, r1) = enforce_cold_call_budget (g_redis g) (a, intent) now r in
                        if \<not> ok
                        then let s2 = emit (M_cold_call_throttled intent) s1;
                                 v = (case g_get g c now stale_key of
                                        Some v \<Rightarrow> v | None \<Rightarrow> fail_closed_verdict a intent now)
                             in (Inr v, c, r1, record_blocked_verdict w v s2)
                        else case compute_verdict now w a intent pol s1 of
                            (Inl e, s2) \<Rightarrow> (Inl e, c, r1, s2)
                          | (Inr v, s2) \<Rightarrow>
                              let c1 = g_set g cache_key v CACHE_TTL_SECONDS now c;
                                  c2 = (if g_redis g = None then c1
                                        else g_set g stale_key v STALE_CACHE_TTL_SECONDS now c1)
                              in (Inr v, c2, r1, record_blocked_verdict w v s2)))"

section \<open>What a computation reads and leaves alone\<close>

text \<open>The tables a verdict is computed from, the scores apart.\<close>

definition gate_view where
  "gate_view s = (db_accounts s, db_quarantines s, db_cooldowns s, db_warmups s, db_observations s, db_load_buckets s)"

lemma gate_view_ggr [simp]:
  "gate_view (ggr_metrics w p b x s) = gate_view s"
  "gate_view (write_ggr g s) = gate_view s"
  "gate_view (emit m s) = gate_view s"
  by (simp_all add: gate_view_def ggr_metrics_def emit_def Let_def write_ggr_def split: option.split)

lemma gate_view_queries:
  assumes "gate_view s' = gate_view s"
  shows "find_account w a s' = find_account w a s"
    "get_active_quarantine now a w s' = get_active_quarantine now a w s"
    "latest_warmup acc s' = latest_warmup acc s"
    "recent_flood_waits now acc s' = recent_flood_waits now acc s"
    "latest_status acc s' = latest_status acc s"
    "current_load now w a s' = current_load now w a s"
    "evaluate_profile_completeness now w a s' = evaluate_profile_completeness now w a s"
  using assms
  by (simp_all add: gate_view_def find_account_def get_active_quarantine_def latest_warmup_def
      recent_flood_waits_def latest_status_def latest_observation_def current_load_def
      evaluate_profile_completeness_def)

lemma find_account_some:
  "find_account w a s = Some acc \<Longrightarrow> acc_workspace_id acc = w \<and> acc_id acc = a \<and> acc \<in> set (db_accounts s)"
  by (auto simp: find_account_def dest: find_mem)

lemma calculate_keeps_view:
  assumes "ggr_table_ok s"
  shows "gate_view (snd (calculate_ggr now acc w force s)) = gate_view s"
  using assms
proof (cases rule: calculate_ggr_total [where a = acc and w = w and force = force and now = now])
  case (cached r)
  then show ?thesis by simp
next
  case (written raw row b)
  then show ?thesis by simp
qed

text \<open>The score a verdict uses: the stored one, calculated first when there is none.\<close>

definition gate_ggr :: "time \<Rightarrow> account \<Rightarrow> uuid \<Rightarrow> uuid \<Rightarrow> db \<Rightarrow> account_ggr_score result \<times> db" where
  "gate_ggr now acc w a s =
     (case get_ggr_score a w s of Some row \<Rightarrow> (Inr row, s) | None \<Rightarrow> calculate_ggr now acc w False s)"

lemma gate_ggr_total:
  assumes "ggr_table_ok s" and "acc_id acc = a"
  obtains row s1 where "gate_ggr now acc w a s = (Inr row, s1)" "get_ggr_score a w s1 = Some row"
    "gate_view s1 = gate_view s" "ggr_table_ok s1"
proof (cases "get_ggr_score a w s")
  case (Some row)
  then show ?thesis using that [of row s] assms(1) by (simp add: gate_ggr_def)
next
  case None
  obtain row s' where "calculate_ggr now acc w False s = (Inr row, s')" "get_ggr_score a w s' = Some row"
    using calculate_ggr_spec [OF assms(1), of now acc w False] assms(2) by blast
  then show ?thesis
    using that [of row s'] None calculate_keeps_view [OF assms(1), of now acc w False]
      calculate_ggr_ok [OF assms(1), of now acc w False]
    by (simp add: gate_ggr_def)
qed

lemma reason_if_simps [simp]:
  "list_ex P (reason_if b x) \<longleftrightarrow> b \<and> P x"
  "set (reason_if b x) = (if b then {x} else {})"
  by (cases b; simp add: reason_if_def)+

lemma reason_fields [simp]:
  "gr_severity (gate_reason_of c sev m d) = sev" "gr_code (gate_reason_of c sev m d) = c"
  "gr_severity (proxy_reason sev acc) = sev" "gr_severity (terminal_reason acc) = Blocked"
  "gr_severity (quarantine_reason q) = Blocked" "gr_severity (overload_reason sev l) = sev"
  by (simp_all only: gate_reason_of_def proxy_reason_def terminal_reason_def quarantine_reason_def
      overload_reason_def gate_reason.simps)

definition blocking :: "gate_reason list \<Rightarrow> bool" where
  "blocking rs \<longleftrightarrow> list_ex (\<lambda>r. gr_severity r = Blocked) rs"

lemma blocking_simps [simp]:
  "\<not> blocking []" "blocking (r # rs) \<longleftrightarrow> gr_severity r = Blocked \<or> blocking rs"
  "blocking (rs @ rs') \<longleftrightarrow> blocking rs \<or> blocking rs'"
  "blocking (reason_if b r) \<longleftrightarrow> b \<and> gr_severity r = Blocked"
  by (auto simp: blocking_def)

lemma verdict_of_simps [simp]:
  "gv_eligible (verdict_of a i rs g now) \<longleftrightarrow> \<not> blocking rs" "gv_account_id (verdict_of a i rs g now) = a"
  "gv_intent (verdict_of a i rs g now) = i" "gv_ggr_score (verdict_of a i rs g now) = g"
  "gv_checked_at (verdict_of a i rs g now) = now" "gv_reasons (verdict_of a i rs g now) = rs"
  "gv_severity (verdict_of a i rs g now) = aggregate_severity rs"
  by (simp_all add: verdict_of_def Let_def aggregate_severity_def blocking_def)

lemma status_never_blocks [simp]: "\<not> blocking (status_reasons now acc pol s)"
  by (simp add: status_reasons_def Let_def split: option.split)

lemma load_blocks:
  "load_reasons now w acc mode s = (rs, s') \<Longrightarrow>
   (blocking rs \<longleftrightarrow> evaluate_threshold (current_load now (acc_workspace_id acc) (acc_id acc) s) mode = LoadBlocked) \<and>
   gate_view s' = gate_view s \<and> db_ggr_scores s' = db_ggr_scores s"
  by (auto simp: load_reasons_def Let_def emit_def gate_view_def split: threshold_verdict.splits)

text \<open>What commenting requires of an account beyond what every intent requires.\<close>

definition profile_ready :: "time \<Rightarrow> account \<Rightarrow> db \<Rightarrow> bool" where
  "profile_ready now acc s \<longleftrightarrow>
     (case evaluate_profile_completeness now (acc_workspace_id acc) (acc_id acc) s of
        Inl _ \<Rightarrow> False | Inr rep \<Rightarrow> 8 / 10 \<le> pr_score rep)"

lemma commenting_reasons_total:
  assumes "find_account w a s = Some acc"
  shows "\<exists>rs. commenting_reasons now acc pol g s = Inr rs \<and>
    (\<not> blocking rs \<longleftrightarrow>
       (pol_require_healthy_proxy pol \<longrightarrow> proxy_healthy acc) \<and>
       (pol_require_warmup_before_commenting pol \<longrightarrow>
          (\<exists>u. latest_warmup acc s = Some u \<and> warmup_complete u pol)) \<and>
       acc_created_at acc + hours (pol_min_account_age_hours pol) \<le> now \<and>
       (\<forall>x. g = Some x \<longrightarrow> 4 \<le> x) \<and> fraud_score acc s < 7 / 10 \<and>
       int (recent_flood_waits now acc s) < pol_auto_pause_on_flood_wait_count pol \<and>
       profile_ready now acc s \<and>
       (acc_terminal_status acc = TermNone \<longrightarrow> acc_account_state acc \<notin> set TERMINAL_ACCOUNT_STATES))"
proof -
  have ids: "acc_workspace_id acc = w" "acc_id acc = a" using find_account_some [OF assms] by simp_all
  then obtain rep where rep: "evaluate_profile_completeness now (acc_workspace_id acc) (acc_id acc) s = Inr rep"
    using assms by (simp add: evaluate_profile_completeness_def find_account_def Let_def)
  show ?thesis
    unfolding commenting_reasons_def Let_def rep profile_ready_def
    by (auto simp: younger_than_hours_def split: option.split)
qed

lemma compute_verdict_alt:
  assumes "find_account w a s = Some acc" and "gate_ggr now acc w a s = (Inr row, s1)"
  shows "compute_verdict now w a intent pol s =
    (case (case intent of
             Commenting \<Rightarrow> commenting_reasons now acc pol (Some (ggr_score row)) s1
           | Warmup \<Rightarrow> Inr (warmup_reasons acc pol)
           | Editing \<Rightarrow> Inr (editing_reasons acc)) of
       Inl e \<Rightarrow> (Inl e, s1)
     | Inr reasons \<Rightarrow>
         let r1 = reason_if (acc_terminal_status acc \<noteq> TermNone) (terminal_reason acc);
             r2 = (case get_active_quarantine now a w s1 of None \<Rightarrow> [] | Some q \<Rightarrow> [quarantine_reason q]);
             r3 = status_reasons now acc pol s1;
             (r4, s2) = (if intent = Commenting
                         then load_reasons now w acc (effective_safety_mode acc pol now) s1 else ([], s1))
         in (Inr (verdict_of a intent (reasons @ r1 @ r2 @ r3 @ r4) (Some (ggr_score row)) now), s2))"
proof -
  have ids: "acc_id acc = a" "acc_workspace_id acc = w" using find_account_some [OF assms(1)] by simp_all
  show ?thesis
    unfolding compute_verdict_def gate_ggr_def [symmetric] Let_def assms(1) option.case assms(2)
      prod.case sum.case ids ..
qed

section \<open>Histories of evaluations\<close>

text \<open>A request against the gate, with the database it finds: between two requests anything may change.\<close>

record gate_request =
  rq_now :: time
  rq_settings :: settings
  rq_workspace :: uuid
  rq_account :: uuid
  rq_intent :: gate_intent
  rq_db :: db

definition request_policy :: "gate_request \<Rightarrow> workspace_safety_policy option \<times> db" where
  "request_policy q = get_workspace_safety_policy (rq_settings q) (rq_now q) (rq_workspace q) True (rq_db q)"

text \<open>The verdict computed from the database of a request, and the key it is cached under.\<close>

definition computed :: "gate_request \<Rightarrow> gate_verdict \<Rightarrow> bool" where
  "computed q v \<longleftrightarrow>
     (case request_policy q of
        (None, s) \<Rightarrow> False
      | (Some pol, s) \<Rightarrow>
          fst (compute_verdict (rq_now q) (rq_workspace q) (rq_account q) (rq_intent q) pol s) = Inr v)"

definition request_key :: "gate_request \<Rightarrow> gate_key option" where
  "request_key q =
     (case request_policy q of
        (None, s) \<Rightarrow> None
      | (Some pol, s) \<Rightarrow>
          (case account_cache_state (rq_workspace q) (rq_account q) s of
             Inl _ \<Rightarrow> None
           | Inr (terminal, grace) \<Rightarrow>
               Some (FreshKey (rq_account q) (rq_intent q) (pol_updated_at pol) terminal grace)))"

definition evaluate_request ::
  "('c, 'r) gate \<Rightarrow> gate_request \<Rightarrow> 'c \<Rightarrow> 'r \<Rightarrow> gate_verdict result \<times> 'c \<times> 'r \<times> db" where
  "evaluate_request g q c r =
     evaluate_gate g (rq_settings q) (rq_now q) (rq_workspace q) (rq_account q) (rq_intent q) c r (rq_db q)"

fun evaluate_requests ::
  "('c, 'r) gate \<Rightarrow> gate_request list \<Rightarrow> 'c \<Rightarrow> 'r \<Rightarrow> gate_verdict result list" where
  "evaluate_requests g [] c r = []"
| "evaluate_requests g (q # qs) c r =
     (let (v, c', r', s') = evaluate_request g q c r in v # evaluate_requests g qs c' r')"

text \<open>
  Where a verdict may come from: it is computed for this request, it was computed for an earlier
  request under the same key and is not older than the cache allows, or, with a Redis client, for
  an earlier request with the same account and intent.
\<close>

definition traceable ::
  "bool \<Rightarrow> (int \<Rightarrow> time \<Rightarrow> time \<Rightarrow> bool) \<Rightarrow> gate_request list \<Rightarrow> gate_request \<Rightarrow> gate_verdict \<Rightarrow> bool" where
  "traceable with_redis live past q v \<longleftrightarrow>
     computed q v \<or>
     (\<exists>p\<in>set past. computed p v \<and> rq_account p = rq_account q \<and> rq_intent p = rq_intent q \<and>
        (request_key p = request_key q \<and> live CACHE_TTL_SECONDS (rq_now p) (rq_now q) \<or>
         with_redis \<and> live STALE_CACHE_TTL_SECONDS (rq_now p) (rq_now q)))"

definition wrote :: "bool \<Rightarrow> gate_request list \<Rightarrow> gate_key \<Rightarrow> gate_verdict \<Rightarrow> int \<Rightarrow> time \<Rightarrow> bool" where
  "wrote with_redis past k v ttl t \<longleftrightarrow>
     (\<exists>p\<in>set past. rq_now p = t \<and> computed p v \<and>
        (request_key p = Some k \<and> ttl = CACHE_TTL_SECONDS \<or>
         with_redis \<and> k = StaleKey (rq_account p) (rq_intent p) \<and> ttl = STALE_CACHE_TTL_SECONDS))"

lemma wrote_mono: "wrote b past k v ttl t \<Longrightarrow> wrote b (past @ [q]) k v ttl t"
  by (auto simp: wrote_def)

lemma request_key_fresh:
  "request_key q = Some k \<Longrightarrow> \<exists>t st gr. k = FreshKey (rq_account q) (rq_intent q) t st gr"
  by (auto simp: request_key_def split: prod.splits option.splits sum.splits)

text \<open>One evaluation, split by the way the verdict is found.\<close>

lemma evaluate_request_cases [consumes 1, case_names failed legacy fresh stale closed cold]:
  assumes e: "evaluate_request g q c r = (res, c', r', s')"
  obtains (failed) err where "res = Inl err" "c' = c"
  | (legacy) v where "\<not> is_safety_pipeline_v2_enabled (rq_db q) (rq_workspace q)" "res = Inr v" "c' = c"
      "legacy_shim_verdict (rq_now q) (rq_workspace q) (rq_account q) (rq_intent q) (rq_db q) = Inr v"
  | (fresh) k v where "request_key q = Some k" "g_get g c (rq_now q) k = Some v" "res = Inr v" "c' = c"
  | (stale) v where "g_redis g \<noteq> None" "g_get g c (rq_now q) (StaleKey (rq_account q) (rq_intent q)) = Some v"
      "res = Inr v" "c' = c"
  | (closed) "g_redis g \<noteq> None" "res = Inr (fail_closed_verdict (rq_account q) (rq_intent q) (rq_now q))" "c' = c"
  | (cold) k v c1 where "request_key q = Some k" "computed q v" "res = Inr v"
      "c1 = g_set g k v CACHE_TTL_SECONDS (rq_now q) c"
      "c' = (if g_redis g = None then c1
             else g_set g (StaleKey (rq_account q) (rq_intent q)) v STALE_CACHE_TTL_SECONDS (rq_now q) c1)"
proof -
  let ?w = "rq_workspace q" and ?a = "rq_account q" and ?i = "rq_intent q" and ?t = "rq_now q"
  note d = e [unfolded evaluate_request_def evaluate_gate_def Let_def]
  obtain pol s1 where p: "request_policy q = (pol, s1)" by (cases "request_policy q")
  show thesis
  proof (cases "is_safety_pipeline_v2_enabled (rq_db q) ?w")
    case False
    show ?thesis
    proof (cases "legacy_shim_verdict ?t ?w ?a ?i (rq_db q)")
      case (Inl err)
      show ?thesis by (rule failed [of err]) (use d False Inl in simp_all)
    next
      case (Inr v)
      show ?thesis by (rule legacy [of v]) (use d False Inr in simp_all)
    qed
  next
    case on: True
    note d1 = d [folded request_policy_def, unfolded p prod.case]
    show ?thesis
    proof (cases pol)
      case None
      then show ?thesis using d1 on failed by auto
    next
      case pol: (Some po)
      show ?thesis
      proof (cases "account_cache_state ?w ?a s1")
        case (Inl err)
        then show ?thesis using d1 on pol failed by auto
      next
        case (Inr tg)
        obtain terminal grace where tg: "tg = (terminal, grace)" by (cases tg)
        let ?k = "FreshKey ?a ?i (pol_updated_at po) terminal grace"
        have k: "request_key q = Some ?k" using p pol Inr tg by (simp add: request_key_def)
        obtain ok r1 where b: "enforce_cold_call_budget (g_redis g) (?a, ?i) ?t r = (ok, r1)"
          by (cases "enforce_cold_call_budget (g_redis g) (?a, ?i) ?t r")
        obtain res2 s2 where v: "compute_verdict ?t ?w ?a ?i po s1 = (res2, s2)"
          by (cases "compute_verdict ?t ?w ?a ?i po s1")
        have redis: "\<not> ok \<Longrightarrow> g_redis g \<noteq> None"
          using b by (cases "g_redis g") (simp_all add: enforce_cold_call_budget_def)
        have comp: "computed q x" if "res2 = Inr x" for x
          using p pol v that by (simp add: computed_def)
        note d2 = d1 [unfolded pol option.case Inr sum.case tg prod.case b v]
        show ?thesis
        proof (cases "g_get g c ?t ?k")
          case (Some x)
          show ?thesis by (rule fresh [OF k Some]) (use d2 on Some in simp_all)
        next
          case none: None
          show ?thesis
          proof (cases ok)
            case True
            show ?thesis
            proof (cases res2)
              case (Inl err)
              show ?thesis by (rule failed [of err]) (use d2 on none True Inl in simp_all)
            next
              case (Inr x)
              show ?thesis by (rule cold [OF k comp [OF Inr] _ refl]) (use d2 on none True Inr in simp_all)
            qed
          next
            case False
            note r = redis [OF False]
            show ?thesis
            proof (cases "g_get g c ?t (StaleKey ?a ?i)")
              case None
              show ?thesis by (rule closed [OF r]) (use d2 on none False None in simp_all)
            next
              case (Some x)
              show ?thesis by (rule stale [OF r Some]) (use d2 on none False Some in simp_all)
            qed
          qed
        qed
      qed
    qed
  qed
qed

definition explained ::
  "bool \<Rightarrow> (int \<Rightarrow> time \<Rightarrow> time \<Rightarrow> bool) \<Rightarrow> gate_request list \<Rightarrow> gate_request \<Rightarrow> gate_verdict \<Rightarrow> bool" where
  "explained with_redis live past q v \<longleftrightarrow>
     with_redis \<and> v = fail_closed_verdict (rq_account q) (rq_intent q) (rq_now q) \<or>
     \<not> is_safety_pipeline_v2_enabled (rq_db q) (rq_workspace q) \<and>
       legacy_shim_verdict (rq_now q) (rq_workspace q) (rq_account q) (rq_intent q) (rq_db q) = Inr v \<or>
     traceable with_redis live past q v"

lemma evaluate_request_explained:
  assumes cache: "gate_cache (g_get g) (g_set g) c0 live"
    and backed: "gate_cache.backed (g_get g) live (wrote (g_redis g \<noteq> None) past) c"
    and e: "evaluate_request g q c r = (res, c', r', s')"
  shows "gate_cache.backed (g_get g) live (wrote (g_redis g \<noteq> None) (past @ [q])) c' \<and>
    (\<forall>v. res = Inr v \<longrightarrow> explained (g_redis g \<noteq> None) live past q v)"
proof -
  let ?W = "wrote (g_redis g \<noteq> None)"
  note look = gate_cache.backed_look [OF cache backed]
  have keep: "gate_cache.backed (g_get g) live (?W (past @ [q])) c"
    by (rule gate_cache.backed_mono [OF cache backed]) (rule wrote_mono)
  from e show ?thesis
  proof (cases rule: evaluate_request_cases)
    case (fresh k v)
    obtain ttl t0 p where "p \<in> set past" "rq_now p = t0" "computed p v" "request_key p = Some k"
      "ttl = CACHE_TTL_SECONDS" "live ttl t0 (rq_now q)"
      using look [OF fresh(2)] request_key_fresh [OF fresh(1)] by (auto simp: wrote_def)
    moreover from this have "rq_account p = rq_account q" "rq_intent p = rq_intent q"
      using request_key_fresh [of p k] request_key_fresh [OF fresh(1)] by auto
    ultimately have "traceable (g_redis g \<noteq> None) live past q v"
      using fresh(1) by (auto simp: traceable_def)
    then show ?thesis using fresh keep by (simp add: explained_def)
  next
    case (stale v)
    obtain ttl t0 p where "p \<in> set past" "rq_now p = t0" "computed p v"
      "rq_account p = rq_account q" "rq_intent p = rq_intent q"
      "ttl = STALE_CACHE_TTL_SECONDS" "live ttl t0 (rq_now q)"
      using look [OF stale(2)] by (auto simp: wrote_def dest!: request_key_fresh)
    then have "traceable (g_redis g \<noteq> None) live past q v"
      using stale(1) by (auto simp: traceable_def)
    then show ?thesis using stale keep by (simp add: explained_def)
  next
    case (cold k v c1)
    have "gate_cache.backed (g_get g) live (?W (past @ [q])) c1"
      unfolding cold(4) by (rule gate_cache.backed_put [OF cache keep]) (auto simp: wrote_def cold(1,2))
    then have "gate_cache.backed (g_get g) live (?W (past @ [q])) c'"
      unfolding cold(5) by (auto intro!: gate_cache.backed_put [OF cache] simp: wrote_def cold(2))
    then show ?thesis using cold by (simp add: explained_def traceable_def)
  qed (use keep in \<open>simp_all add: explained_def\<close>)
qed

lemma evaluate_requests_explained:
  assumes cache: "gate_cache (g_get g) (g_set g) c0 live"
    and "gate_cache.backed (g_get g) live (wrote (g_redis g \<noteq> None) past) c"
    and "i < length qs" and "evaluate_requests g qs c r ! i = Inr v"
  shows "explained (g_redis g \<noteq> None) live (past @ take i qs) (qs ! i) v"
  using assms(2-)
proof (induction qs arbitrary: past c r i)
  case (Cons q qs)
  obtain res c' r' s' where e: "evaluate_request g q c r = (res, c', r', s')"
    by (cases "evaluate_request g q c r")
  note step = evaluate_request_explained [OF cache Cons.prems(1) e]
  show ?case
  proof (cases i)
    case 0
    then show ?thesis using step Cons.prems(3) e by simp
  next
    case (Suc j)
    then show ?thesis
      using Cons.IH [OF conjunct1 [OF step], of j r'] Cons.prems(2,3) e by simp
  qed
qed simp

section \<open>Properties\<close>

text \<open>What every intent requires, and what commenting requires of the load and the account.\<close>

definition not_stopped :: "time \<Rightarrow> account \<Rightarrow> db \<Rightarrow> bool" where
  "not_stopped now acc s \<longleftrightarrow>
     acc_terminal_status acc = TermNone \<and>
     \<not> is_account_quarantined now (acc_id acc) (acc_workspace_id acc) s"

text \<open>
  C13. The gate's decision, for an account of the workspace and a consistent score table: it always
  produces a verdict, and the verdict is eligible exactly when the account has no terminal status
  and no active quarantine and, by intent: for editing, its state is not critical; for warmup,
  its state is not terminal and the proxy is healthy if the policy asks for it; for commenting,
  moreover, the warmup, age, flood-wait and profile requirements of the policy hold, the GGR score
  (computed on the spot when missing) is at least 4, the fraud score is below 0.7 and the
  cross-module load is below both thresholds of the effective mode.
\<close>

theorem gate_verdict_spec:
  assumes "find_account w a s = Some acc" and "ggr_table_ok s"
  shows "\<exists>v s' row. compute_verdict now w a intent pol s = (Inr v, s') \<and>
    get_ggr_score a w s' = Some row \<and> gv_ggr_score v = Some (ggr_score row) \<and>
    gv_account_id v = a \<and> gv_intent v = intent \<and>
    (gv_severity v = VerdictBlocked \<longleftrightarrow> \<not> gv_eligible v) \<and>
    (gv_eligible v \<longleftrightarrow> not_stopped now acc s \<and>
       (case intent of
          Editing \<Rightarrow> acc_account_state acc \<notin> set CRITICAL_ACCOUNT_STATES
        | Warmup \<Rightarrow> acc_account_state acc \<notin> set TERMINAL_ACCOUNT_STATES \<and>
            (pol_require_healthy_proxy pol \<longrightarrow> proxy_healthy acc)
        | Commenting \<Rightarrow> acc_account_state acc \<notin> set TERMINAL_ACCOUNT_STATES \<and>
            (pol_require_healthy_proxy pol \<longrightarrow> proxy_healthy acc) \<and>
            (pol_require_warmup_before_commenting pol \<longrightarrow>
               (\<exists>u. latest_warmup acc s = Some u \<and> warmup_complete u pol)) \<and>
            acc_created_at acc + hours (pol_min_account_age_hours pol) \<le> now \<and>
            4 \<le> ggr_score row \<and> fraud_score acc s' < 7 / 10 \<and>
            int (recent_flood_waits now acc s) < pol_auto_pause_on_flood_wait_count pol \<and>
            profile_ready now acc s \<and>
            last_hour (current_load now w a s) < lt_hour (LOAD_THRESHOLDS (effective_safety_mode acc pol now)) \<and>
            last_24h (current_load now w a s) < lt_day (LOAD_THRESHOLDS (effective_safety_mode acc pol now))))"
proof -
  note ids = find_account_some [OF assms(1)]
  obtain row s1 where g: "gate_ggr now acc w a s = (Inr row, s1)" "get_ggr_score a w s1 = Some row"
    "gate_view s1 = gate_view s"
    using gate_ggr_total [OF assms(2), of acc a now w] ids by blast
  note q = gate_view_queries [OF g(3)]
  note alt = compute_verdict_alt [OF assms(1) g(1), of intent pol]
  have quar: "blocking (case get_active_quarantine now a w s1 of None \<Rightarrow> [] | Some q \<Rightarrow> [quarantine_reason q]) \<longleftrightarrow>
      is_account_quarantined now a w s"
    by (simp add: q is_account_quarantined_def split: option.split)
  have sev: "aggregate_severity rs = VerdictBlocked \<longleftrightarrow> blocking rs" for rs
    by (simp add: aggregate_severity_def blocking_def)
  show ?thesis
  proof (cases "intent = Commenting")
    case True
    obtain rs where rs: "commenting_reasons now acc pol (Some (ggr_score row)) s1 = Inr rs"
      and rs_blocking: "\<not> blocking rs \<longleftrightarrow>
       (pol_require_healthy_proxy pol \<longrightarrow> proxy_healthy acc) \<and>
       (pol_require_warmup_before_commenting pol \<longrightarrow>
          (\<exists>u. latest_warmup acc s1 = Some u \<and> warmup_complete u pol)) \<and>
       acc_created_at acc + hours (pol_min_account_age_hours pol) \<le> now \<and>
       (\<forall>x. Some (ggr_score row) = Some x \<longrightarrow> 4 \<le> x) \<and> fraud_score acc s1 < 7 / 10 \<and>
       int (recent_flood_waits now acc s1) < pol_auto_pause_on_flood_wait_count pol \<and>
       profile_ready now acc s1 \<and>
       (acc_terminal_status acc = TermNone \<longrightarrow> acc_account_state acc \<notin> set TERMINAL_ACCOUNT_STATES)"
      using commenting_reasons_total [of w a s1 acc now pol "Some (ggr_score row)"] assms(1) q(1) by auto
    obtain r4 s2 where load: "load_reasons now w acc (effective_safety_mode acc pol now) s1 = (r4, s2)"
      by (cases "load_reasons now w acc (effective_safety_mode acc pol now) s1")
    have load_blocking: "\<not> blocking r4 \<longleftrightarrow>
        last_hour (current_load now w a s) < lt_hour (LOAD_THRESHOLDS (effective_safety_mode acc pol now)) \<and>
        last_24h (current_load now w a s) < lt_day (LOAD_THRESHOLDS (effective_safety_mode acc pol now))"
      using load_blocks [OF load] ids by (auto simp: q evaluate_threshold_def Let_def)
    have s2: "get_ggr_score b x s2 = get_ggr_score b x s1" for b x
      using load_blocks [OF load] by (simp add: get_ggr_score_def)
    have fraud: "fraud_score acc s2 = fraud_score acc s1" by (simp add: fraud_score_def s2)
    have ready: "profile_ready now acc s1 = profile_ready now acc s" by (simp add: profile_ready_def q)
    let ?v = "verdict_of a intent (rs @ reason_if (acc_terminal_status acc \<noteq> TermNone) (terminal_reason acc) @
        (case get_active_quarantine now a w s1 of None \<Rightarrow> [] | Some q \<Rightarrow> [quarantine_reason q]) @
        status_reasons now acc pol s1 @ r4) (Some (ggr_score row)) now"
    have "compute_verdict now w a intent pol s = (Inr ?v, s2)"
      unfolding alt using True rs load by (simp add: Let_def)
    moreover have "gv_eligible ?v \<longleftrightarrow> not_stopped now acc s \<and> \<not> blocking rs \<and> \<not> blocking r4"
      using quar ids by (auto simp: not_stopped_def)
    ultimately show ?thesis
      using True rs_blocking load_blocking s2 g(2)
      by (auto simp: sev fraud ready q not_stopped_def)
  next
    case False
    let ?rs = "(if intent = Warmup then warmup_reasons acc pol else editing_reasons acc)"
    let ?v = "verdict_of a intent (?rs @ reason_if (acc_terminal_status acc \<noteq> TermNone) (terminal_reason acc) @
        (case get_active_quarantine now a w s1 of None \<Rightarrow> [] | Some q \<Rightarrow> [quarantine_reason q]) @
        status_reasons now acc pol s1) (Some (ggr_score row)) now"
    have "compute_verdict now w a intent pol s = (Inr ?v, s1)"
      unfolding alt using False by (cases intent) (simp_all add: Let_def)
    moreover have "gv_eligible ?v \<longleftrightarrow> not_stopped now acc s \<and> \<not> blocking ?rs"
      using quar ids by (auto simp: not_stopped_def)
    ultimately show ?thesis
      using False g(2)
      by (cases intent) (auto simp: sev not_stopped_def warmup_reasons_def editing_reasons_def)
  qed
qed

text \<open>A workspace on the new pipeline with one imported account that has a score.\<close>

definition gate_db :: db where
  "gate_db = empty_db\<lparr>db_accounts := [imported_account 2 7 0], db_ggr_scores := [default_ggr 0 3 7 2],
     db_workspaces := [\<lparr>ws_id = 7, ws_name = ''w'', ws_slug = ''w'', ws_owner_user_id = 5, ws_status = ''active'',
       ws_safety_pipeline_v2_enabled = True, ws_notification_webhook_url = None, ws_created_at = 0, ws_updated_at = 0\<rparr>]\<rparr>"

lemma gate_db_ok: "find_account 7 2 gate_db = Some (imported_account 2 7 0)" "ggr_table_ok gate_db"
  by (simp_all add: find_account_def gate_db_def imported_account_def ggr_table_ok_def ggr_row_ok_def
      default_ggr_def ggr_key_def score_ok_def compute_bucket_def multiple_def)

theorem gate_verdict_spec_witness:
  "\<exists>v s'. compute_verdict 0 7 2 Editing (build_disabled_policy 7 0) gate_db = (Inr v, s') \<and> gv_eligible v"
proof -
  have "acc_account_state (imported_account 2 7 0) \<notin> set CRITICAL_ACCOUNT_STATES"
    "not_stopped 0 (imported_account 2 7 0) gate_db"
    by (simp_all add: CRITICAL_ACCOUNT_STATES_def TERMINAL_ACCOUNT_STATES_def not_stopped_def quarantined_iff
        imported_account_def gate_db_def empty_db_def)
  then show ?thesis
    using gate_verdict_spec [OF gate_db_ok, of 0 Editing "build_disabled_policy 7 0"]
    by auto
qed

definition editing_request :: "settings \<Rightarrow> time \<Rightarrow> gate_request" where
  "editing_request cfg now =
     \<lparr>rq_now = now, rq_settings = cfg, rq_workspace = 7, rq_account = 2, rq_intent = Editing, rq_db = gate_db\<rparr>"

definition redis_gate where
  "redis_gate rget rset client =
     \<lparr>g_get = redis_cache_get rget, g_set = redis_cache_set rset, g_redis = Some client\<rparr>"

text \<open>
  C18. Behind its Redis caches the gate never lets an account through on an old or invented verdict:
  in every sequence of evaluations, with the database changing freely in between and Redis losing
  or refusing anything, an eligible answer on the new pipeline was computed, for the same account
  and intent, from the database of this request or of one at most five minutes before it.
\<close>

theorem eligible_verdicts_are_recent:
  assumes "redis_values_ok rget rset c0" and "i < length qs"
    and "evaluate_requests (redis_gate rget rset client) qs c0 r0 ! i = Inr v" and "gv_eligible v"
    and "is_safety_pipeline_v2_enabled (rq_db (qs ! i)) (rq_workspace (qs ! i))"
  shows "\<exists>j\<le>i. computed (qs ! j) v \<and> rq_account (qs ! j) = rq_account (qs ! i) \<and>
    rq_intent (qs ! j) = rq_intent (qs ! i) \<and> rq_now (qs ! i) < rq_now (qs ! j) + minutes 5"
proof -
  let ?g = "redis_gate rget rset client"
  have cache: "gate_cache (g_get ?g) (g_set ?g) c0 unexpired"
    using redis_cache [OF assms(1)] by (simp add: redis_gate_def)
  have "explained True unexpired ([] @ take i qs) (qs ! i) v"
    using evaluate_requests_explained [where past = "[]", OF cache gate_cache.backed_new [OF cache] assms(2,3)]
    by (simp add: redis_gate_def)
  then have "traceable True unexpired (take i qs) (qs ! i) v"
    using assms(4,5) by (auto simp: explained_def fail_closed_verdict_def)
  then consider "computed (qs ! i) v"
    | p where "p \<in> set (take i qs)" "computed p v" "rq_account p = rq_account (qs ! i)"
        "rq_intent p = rq_intent (qs ! i)" "rq_now (qs ! i) < rq_now p + minutes 5"
    by (auto simp: traceable_def unexpired_def CACHE_TTL_SECONDS_def STALE_CACHE_TTL_SECONDS_def
        seconds_def minutes_def)
  then show ?thesis
  proof cases
    case 1
    then show ?thesis by (intro exI [of _ i]) (simp add: minutes_def)
  next
    case 2
    then obtain j where "j < i" "qs ! j = p" by (auto simp: in_set_conv_nth)
    with 2 show ?thesis by (intro exI [of _ j]) simp
  qed
qed

lemma editing_on_gate_db:
  "\<exists>v s'. compute_verdict now 7 2 Editing pol gate_db = (Inr v, s') \<and> gv_eligible v"
proof -
  have "gate_ggr now (imported_account 2 7 0) 7 2 gate_db = (Inr (default_ggr 0 3 7 2), gate_db)"
    by (simp add: gate_ggr_def get_ggr_score_def gate_db_def default_ggr_def ggr_key_def)
  moreover have "get_active_quarantine now 2 7 gate_db = None"
    by (simp add: get_active_quarantine_def gate_db_def empty_db_def)
  moreover have "\<not> blocking (editing_reasons (imported_account 2 7 0))" "acc_terminal_status (imported_account 2 7 0) = TermNone"
    by (simp_all add: editing_reasons_def imported_account_def CRITICAL_ACCOUNT_STATES_def TERMINAL_ACCOUNT_STATES_def)
  ultimately show ?thesis
    by (simp add: compute_verdict_alt [OF gate_db_ok(1)] Let_def)
qed

definition kill_switched_run where
  "kill_switched_run =
     evaluate_requests (redis_gate map_value map_store healthy_counters)
       [editing_request disabled_settings 0, editing_request disabled_settings (seconds 30)] (\<lambda>_. None) (\<lambda>_. None)"

lemma kill_switched_run_eq: "\<exists>v. kill_switched_run = [Inr v, Inr v] \<and> gv_eligible v"
proof -
  obtain v s' where v: "compute_verdict 0 7 2 Editing (build_disabled_policy 7 0) gate_db = (Inr v, s')" "gv_eligible v"
    using editing_on_gate_db by blast
  have on: "is_safety_pipeline_v2_enabled gate_db 7"
    by (simp add: is_safety_pipeline_v2_enabled_def gate_db_def)
  show ?thesis
    by (rule exI [of _ v]) (simp add: kill_switched_run_def redis_gate_def evaluate_request_def editing_request_def
        evaluate_gate_def on get_workspace_safety_policy_def account_cache_state_def gate_db_ok v
        enforce_cold_call_budget_def healthy_counters_def counter_bump_def COLD_CALL_BUDGET_PER_MINUTE_def
        redis_cache_get_def redis_cache_set_def map_value_def map_store_def seconds_def
        CACHE_TTL_SECONDS_def STALE_CACHE_TTL_SECONDS_def imported_account_def Let_def)
qed

theorem eligible_verdicts_are_recent_witness:
  "\<exists>v. kill_switched_run ! 1 = Inr v \<and> gv_eligible v \<and>
     (computed (editing_request disabled_settings 0) v \<or> computed (editing_request disabled_settings (seconds 30)) v)"
proof -
  let ?qs = "[editing_request disabled_settings 0, editing_request disabled_settings (seconds 30)]"
  obtain v where v: "kill_switched_run = [Inr v, Inr v]" "gv_eligible v"
    using kill_switched_run_eq by blast
  have "is_safety_pipeline_v2_enabled (rq_db (?qs ! 1)) (rq_workspace (?qs ! 1))"
    by (simp add: editing_request_def is_safety_pipeline_v2_enabled_def gate_db_def)
  then obtain j where "j \<le> 1" "computed (?qs ! j) v"
    using eligible_verdicts_are_recent [OF map_values_ok, of 1 ?qs healthy_counters "\<lambda>_. None" v] v
    by (auto simp: kill_switched_run_def)
  then have "computed (editing_request disabled_settings 0) v \<or> computed (editing_request disabled_settings (seconds 30)) v"
    by (cases j) auto
  moreover have "kill_switched_run ! 1 = Inr v" unfolding v(1) by simp
  ultimately show ?thesis using v(2) by blast
qed

text \<open>
  C19. With the kill switch on, the verdict cache is dead: whatever cache the gate has, requests at
  different instants never share a fresh key, so that without a Redis client every answer on the
  new pipeline is computed anew. The policy the switch substitutes carries the instant of the call
  as its version.
\<close>

theorem kill_switch_defeats_cache:
  assumes "gate_cache (g_get g) (g_set g) c0 live" and "g_redis g = None"
    and "list_all (\<lambda>q. workspace_safety_policy_temporarily_disabled (rq_settings q)) qs"
    and "distinct (map rq_now qs)" and "i < length qs"
    and "is_safety_pipeline_v2_enabled (rq_db (qs ! i)) (rq_workspace (qs ! i))"
    and "evaluate_requests g qs c0 r0 ! i = Inr v"
  shows "computed (qs ! i) v"
proof -
  have "explained False live ([] @ take i qs) (qs ! i) v"
    using evaluate_requests_explained [where past = "[]", OF assms(1) gate_cache.backed_new [OF assms(1)] assms(5,7)]
      assms(2) by simp
  then have "traceable False live (take i qs) (qs ! i) v"
    using assms(6) by (simp add: explained_def)
  moreover have "request_key p \<noteq> request_key (qs ! i) \<or> request_key p = None" if mem: "p \<in> set (take i qs)" for p
  proof -
    obtain j where j: "j < i" "p = qs ! j" using mem by (auto simp: in_set_conv_nth)
    then have "rq_now p \<noteq> rq_now (qs ! i)"
      using assms(4,5) by (auto simp: distinct_conv_nth)
    moreover have "workspace_safety_policy_temporarily_disabled (rq_settings (qs ! k))" if "k < length qs" for k
      using assms(3) that by (simp add: list_all_length)
    ultimately show ?thesis
      using j assms(5)
      by (auto simp: request_key_def request_policy_def get_workspace_safety_policy_def split: sum.splits)
  qed
  moreover have "computed p v \<Longrightarrow> request_key p \<noteq> None" for p
    by (auto simp: computed_def request_key_def account_cache_state_def compute_verdict_def
        split: prod.splits option.splits sum.splits)
  ultimately show ?thesis unfolding traceable_def by metis
qed

theorem kill_switch_defeats_cache_witness:
  "\<exists>v. evaluate_requests \<lparr>g_get = memory_get, g_set = memory_set,
          g_redis = (None :: (uuid \<times> gate_intent, unit) redis_counters option)\<rparr>
       [editing_request disabled_settings 0, editing_request disabled_settings 10] (\<lambda>_. None) () ! 1 = Inr v \<and>
     computed (editing_request disabled_settings 10) v"
proof -
  let ?g = "\<lparr>g_get = memory_get, g_set = memory_set,
    g_redis = (None :: (uuid \<times> gate_intent, unit) redis_counters option)\<rparr>"
  let ?qs = "[editing_request disabled_settings 0, editing_request disabled_settings 10]"
  obtain u s1 where u: "compute_verdict 0 7 2 Editing (build_disabled_policy 7 0) gate_db = (Inr u, s1)"
    using editing_on_gate_db by blast
  obtain v s2 where v: "compute_verdict 10 7 2 Editing (build_disabled_policy 7 10) gate_db = (Inr v, s2)"
    using editing_on_gate_db by blast
  have on: "is_safety_pipeline_v2_enabled gate_db 7"
    by (simp add: is_safety_pipeline_v2_enabled_def gate_db_def)
  have run: "evaluate_requests ?g ?qs (\<lambda>_. None) () ! 1 = Inr v"
    by (simp add: evaluate_request_def editing_request_def evaluate_gate_def on get_workspace_safety_policy_def
        account_cache_state_def gate_db_ok u v enforce_cold_call_budget_def memory_get_def memory_set_def
        imported_account_def Let_def)
  have "computed (?qs ! 1) v"
    by (rule kill_switch_defeats_cache [where g = ?g and live = "\<lambda>ttl t t'. True", OF _ _ _ _ _ _ run])
      (use memory_cache.gate_cache_axioms on in \<open>simp_all add: editing_request_def\<close>)
  with run show ?thesis by (intro exI [of _ v]) simp
qed

end
