(* ===== verification/GateReserve.thy ===== *)
theory GateReserve
  imports SafetyPolicy GateCache "HOL-Library.Finite_Map"
begin

text \<open>
  The concurrency slots of the safety gate: \<open>account_safety/reserve.py\<close>. A reservation is a member
  of a Redis sorted set per account and intent, scored with the instant it was made. The two Lua
  scripts are part of the repository and translated as written; the commands they call, and the
  client that runs them, are parameters with the documented behaviour stated by \<open>zset_ok\<close>.
\<close>

section \<open>Redis sorted sets\<close>

type_synonym slot_key = "uuid \<times> string"

text \<open>
  The commands of the server on sorted sets, and the client: \<open>zc_eval\<close> runs a script in one step
  or fails, \<open>zc_fakeredis\<close> says that the client is the in-process fake.
\<close>

record 'r zset_client =
  zc_zremrangebyscore :: "slot_key \<Rightarrow> time \<Rightarrow> time \<Rightarrow> 'r \<Rightarrow> 'r"
  zc_zcard :: "slot_key \<Rightarrow> time \<Rightarrow> 'r \<Rightarrow> int"
  zc_zadd :: "slot_key \<Rightarrow> time \<Rightarrow> uuid \<Rightarrow> time \<Rightarrow> 'r \<Rightarrow> 'r"
  zc_expire :: "slot_key \<Rightarrow> int \<Rightarrow> time \<Rightarrow> 'r \<Rightarrow> 'r"
  zc_zrem :: "slot_key \<Rightarrow> uuid \<Rightarrow> time \<Rightarrow> 'r \<Rightarrow> int \<times> 'r"
  zc_eval :: "('r \<Rightarrow> int list \<times> 'r) \<Rightarrow> time \<Rightarrow> 'r \<Rightarrow> (redis_error + int list) \<times> 'r"
  zc_fakeredis :: bool

text \<open>What a sorted set holds at an instant: member to score, empty once the key has expired.\<close>

type_synonym 'r zset_view = "'r \<Rightarrow> time \<Rightarrow> slot_key \<Rightarrow> (uuid \<Rightarrow> time option)"

definition above :: "time \<Rightarrow> (uuid \<Rightarrow> time option) \<Rightarrow> (uuid \<Rightarrow> time option)" where
  "above b m = (\<lambda>i. case m i of None \<Rightarrow> None | Some s \<Rightarrow> if b < s then Some s else None)"

definition zset_ok :: "'r zset_client \<Rightarrow> 'r zset_view \<Rightarrow> bool" where
  "zset_ok cl view \<longleftrightarrow>
     (\<forall>k now r. finite (dom (view r now k)) \<and> zc_zcard cl k now r = int (card (dom (view r now k)))) \<and>
     (\<forall>k b now r t k'. now \<le> t \<longrightarrow>
        view (zc_zremrangebyscore cl k b now r) t k' = (if k' = k then above b (view r t k) else view r t k')) \<and>
     (\<forall>k s i now r t k'. now \<le> t \<longrightarrow>
        (k' \<noteq> k \<longrightarrow> view (zc_zadd cl k s i now r) t k' = view r t k') \<and>
        view (zc_zadd cl k s i now r) now k = (view r now k)(i \<mapsto> s)) \<and>
     (\<forall>k ttl now r t k'. now \<le> t \<longrightarrow>
        view (zc_expire cl k ttl now r) t k' =
          (if k' = k then (if t < now + seconds ttl then view r now k else (\<lambda>_. None)) else view r t k')) \<and>
     (\<forall>k i now r n r' t k'. now \<le> t \<longrightarrow> zc_zrem cl k i now r = (n, r') \<longrightarrow>
        n = (if view r now k i = None then 0 else 1) \<and>
        view r' t k' = (if k' = k then (view r t k)(i := None) else view r t k')) \<and>
     (\<forall>p now r xs r'. zc_eval cl p now r = (Inr xs, r') \<longrightarrow> p r = (xs, r'))"

section \<open>Definitions\<close>

definition GATE_RESERVE_TTL_SECONDS :: int where "GATE_RESERVE_TTL_SECONDS = 120"
definition GATE_MAX_CONCURRENT_DEFAULT :: int where "GATE_MAX_CONCURRENT_DEFAULT = 3"

definition reserve_lua ::
  "'r zset_client \<Rightarrow> slot_key \<Rightarrow> time \<Rightarrow> int \<Rightarrow> int \<Rightarrow> uuid \<Rightarrow> 'r \<Rightarrow> int list \<times> 'r" where
  "reserve_lua cl zset_key now ttl max_concurrent reservation_id r =
     (let r1 = zc_zremrangebyscore cl zset_key (now - seconds ttl) now r;
          current = zc_zcard cl zset_key now r1
      in if max_concurrent \<le> current then ([0, current], r1)
         else let r2 = zc_zadd cl zset_key now reservation_id now r1;
                  r3 = zc_expire cl zset_key (ttl * 2) now r2
              in ([1, current + 1], r3))"

definition release_lua :: "'r zset_client \<Rightarrow> slot_key \<Rightarrow> time \<Rightarrow> uuid \<Rightarrow> 'r \<Rightarrow> int list \<times> 'r" where
  "release_lua cl zset_key now reservation_id r =
     (let (removed, r1) = zc_zrem cl zset_key reservation_id now r in ([removed], r1))"

record reservation =
  rv_reservation_id :: uuid
  rv_account_id :: uuid
  rv_intent :: string
  rv_reserved :: bool
  rv_current_count :: int
  rv_max_concurrent :: int
  rv_degraded :: bool

datatype reserve_metric =
    M_reserve_outcome string
  | M_redis_fail_open string
  | M_redis_outage string

definition reservation_of :: "uuid \<Rightarrow> slot_key \<Rightarrow> int \<Rightarrow> bool \<Rightarrow> int \<Rightarrow> bool \<Rightarrow> reservation" where
  "reservation_of i k max_concurrent reserved current_count degraded =
     \<lparr>rv_reservation_id = i, rv_account_id = fst k, rv_intent = snd k, rv_reserved = reserved,
      rv_current_count = current_count, rv_max_concurrent = max_concurrent, rv_degraded = degraded\<rparr>"

definition redis_reserve_outage ::
  "settings \<Rightarrow> uuid \<Rightarrow> slot_key \<Rightarrow> int \<Rightarrow> reservation \<times> reserve_metric list" where
  "redis_reserve_outage cfg i k max_concurrent =
     (if safety_gate_redis_fail_open cfg
      then (reservation_of i k max_concurrent True 0 True,
            [M_redis_fail_open ''reserve'', M_reserve_outcome ''RESERVED''])
      else (reservation_of i k max_concurrent False 0 True,
            [M_redis_outage ''reserve'', M_reserve_outcome ''REDIS_UNAVAILABLE'']))"

definition reserve_without_lua ::
  "'r zset_client \<Rightarrow> slot_key \<Rightarrow> uuid \<Rightarrow> time \<Rightarrow> int \<Rightarrow> int \<Rightarrow> 'r \<Rightarrow> reservation \<times> 'r \<times> reserve_metric list" where
  "reserve_without_lua cl k i now ttl max_concurrent r =
     (let r1 = zc_zremrangebyscore cl k (now - seconds ttl) now r;
          current_count = zc_zcard cl k now r1
      in if max_concurrent \<le> current_count
         then (reservation_of i k max_concurrent False current_count False, r1, [M_reserve_outcome ''RATE_BLOCKED''])
         else let r2 = zc_zadd cl k now i now r1;
                  r3 = zc_expire cl k (ttl * 2) now r2
              in (reservation_of i k max_concurrent True (current_count + 1) False, r3,
                  [M_reserve_outcome ''RESERVED'']))"

fun can_use_test_fallback :: "'r zset_client \<Rightarrow> redis_error \<Rightarrow> bool" where
  "can_use_test_fallback cl RedisError = False"
| "can_use_test_fallback cl (ResponseError unknown_eval) = (unknown_eval \<and> zc_fakeredis cl)"

text \<open>\<open>result[0]\<close> and \<open>result[1]\<close> of the answer.\<close>

definition reserve ::
  "settings \<Rightarrow> 'r zset_client \<Rightarrow> uuid \<Rightarrow> time \<Rightarrow> slot_key \<Rightarrow> int \<Rightarrow> int \<Rightarrow> 'r \<Rightarrow>
   reservation result \<times> 'r \<times> reserve_metric list" where
  "reserve cfg cl reservation_id now k max_concurrent ttl r =
     (case zc_eval cl (reserve_lua cl k now ttl max_concurrent reservation_id) now r of
        (Inl e, r1) \<Rightarrow>
          if can_use_test_fallback cl e
          then let (v, r2, ms) = reserve_without_lua cl k reservation_id now ttl max_concurrent r1
               in (Inr v, r2, ms)
          else let (v, ms) = redis_reserve_outage cfg reservation_id k max_concurrent in (Inr v, r1, ms)
      | (Inr (flag # current # _), r1) \<Rightarrow>
          (Inr (reservation_of reservation_id k max_concurrent (flag = 1) current False), r1,
           [M_reserve_outcome (if flag = 1 then ''RESERVED'' else ''RATE_BLOCKED'')])
      | (Inr _, r1) \<Rightarrow> (Inl (LookupError ''list index out of range''), r1, []))"

definition release ::
  "'r zset_client \<Rightarrow> time \<Rightarrow> reservation \<Rightarrow> 'r \<Rightarrow> bool \<times> 'r \<times> reserve_metric list" where
  "release cl now v r =
     (if \<not> rv_reserved v \<or> rv_degraded v then (False, r, [])
      else let k = (rv_account_id v, rv_intent v) in
        case zc_eval cl (release_lua cl k now (rv_reservation_id v)) now r of
          (Inr xs, r1) \<Rightarrow> (xs = [1], r1, [])
        | (Inl e, r1) \<Rightarrow>
            if can_use_test_fallback cl e
            then let (removed, r2) = zc_zrem cl k (rv_reservation_id v) now r1 in (removed = 1, r2, [])
            else (False, r1, [M_redis_outage ''release'']))"

section \<open>Runs and their specification\<close>

datatype slot_event = Reserve time slot_key uuid | Release time slot_key uuid

fun slot_time :: "slot_event \<Rightarrow> time" where
  "slot_time (Reserve now k i) = now"
| "slot_time (Release now k i) = now"

text \<open>A run with one limit and one time to live: the answers to the reserve calls, and the server.\<close>

fun run_slots ::
  "settings \<Rightarrow> 'r zset_client \<Rightarrow> int \<Rightarrow> int \<Rightarrow> slot_event list \<Rightarrow> 'r \<Rightarrow> reservation result list \<times> 'r" where
  "run_slots cfg cl m ttl [] r = ([], r)"
| "run_slots cfg cl m ttl (Reserve now k i # es) r =
     (let (v, r1, ms) = reserve cfg cl i now k m ttl r; (vs, r2) = run_slots cfg cl m ttl es r1
      in (v # vs, r2))"
| "run_slots cfg cl m ttl (Release now k i # es) r =
     (let (b, r1, ms) = release cl now (reservation_of i k m True 0 False) r
      in run_slots cfg cl m ttl es r1)"

text \<open>
  The promise: each account and intent has at most \<open>m\<close> holders younger than the time to live; a
  reserve call is refused exactly when there are that many.
\<close>

type_synonym holders = "slot_key \<Rightarrow> uuid \<Rightarrow> time option"

definition holding :: "int \<Rightarrow> time \<Rightarrow> (uuid \<Rightarrow> time option) \<Rightarrow> nat" where
  "holding ttl now h = card (dom (above (now - seconds ttl) h))"

definition put_holder :: "slot_key \<Rightarrow> uuid \<Rightarrow> time option \<Rightarrow> holders \<Rightarrow> holders" where
  "put_holder k i x h = h(k := (h k)(i := x))"

fun slots_spec ::
  "int \<Rightarrow> int \<Rightarrow> slot_event list \<Rightarrow> holders \<Rightarrow> (bool \<times> int) list \<times> holders" where
  "slots_spec m ttl [] h = ([], h)"
| "slots_spec m ttl (Reserve now k i # es) h =
     (let n = int (holding ttl now (h k)) in
      if m \<le> n then (let (vs, h') = slots_spec m ttl es h in ((False, n) # vs, h'))
      else (let (vs, h') = slots_spec m ttl es (put_holder k i (Some now) h) in ((True, n + 1) # vs, h')))"
| "slots_spec m ttl (Release now k i # es) h = slots_spec m ttl es (put_holder k i None h)"

section \<open>Lemmas\<close>

lemma above_above: "b \<le> b' \<Longrightarrow> above b' (above b m) = above b' m"
  by (rule ext) (auto simp: above_def split: option.splits)

lemma above_put: "above b (m(i \<mapsto> s)) = (if b < s then (above b m)(i \<mapsto> s) else (above b m)(i := None))"
  by (rule ext) (simp add: above_def)

lemma above_del: "above b (m(i := None)) = (above b m)(i := None)"
  by (rule ext) (simp add: above_def)

lemma above_none: "(\<And>i s. m i = Some s \<Longrightarrow> s \<le> b) \<Longrightarrow> above b m = (\<lambda>_. None)"
  by (rule ext) (fastforce simp: above_def split: option.splits)

lemma above_empty [simp]: "above b (\<lambda>_. None) = (\<lambda>_. None)"
  by (simp add: above_def)

lemma dom_above: "dom (above b m) \<subseteq> dom m"
  by (auto simp: above_def split: option.splits if_splits)

text \<open>The commands' laws one by one.\<close>

lemma zset_laws:
  assumes "zset_ok cl view"
  shows zcard: "zc_zcard cl k now r = int (card (dom (view r now k)))"
    and zfinite: "finite (dom (view r now k))"
    and zremrange: "now \<le> t \<Longrightarrow> view (zc_zremrangebyscore cl k b now r) t k' =
      (if k' = k then above b (view r t k) else view r t k')"
    and zadd_other: "now \<le> t \<Longrightarrow> k' \<noteq> k \<Longrightarrow> view (zc_zadd cl k s i now r) t k' = view r t k'"
    and zadd_here: "view (zc_zadd cl k s i now r) now k = (view r now k)(i \<mapsto> s)"
    and zexpire: "now \<le> t \<Longrightarrow> view (zc_expire cl k ttl now r) t k' =
      (if k' = k then (if t < now + seconds ttl then view r now k else (\<lambda>_. None)) else view r t k')"
    and zrem_count: "zc_zrem cl k i now r = (n, r') \<Longrightarrow> n = (if view r now k i = None then 0 else 1)"
    and zrem_view: "now \<le> t \<Longrightarrow> zc_zrem cl k i now r = (n, r') \<Longrightarrow>
      view r' t k' = (if k' = k then (view r t k)(i := None) else view r t k')"
    and zeval: "zc_eval cl p now r = (Inr xs, r') \<Longrightarrow> p r = (xs, r')"
proof goal_cases
  case 1
  show ?case using assms [unfolded zset_ok_def,  THEN conjunct1, rule_format] by simp
next
  case 2
  show ?case using assms [unfolded zset_ok_def,  THEN conjunct1, rule_format] by simp
next
  case 3
  then show ?case using assms [unfolded zset_ok_def, THEN conjunct2, THEN conjunct1, rule_format] by simp
next
  case 4
  then show ?case using assms [unfolded zset_ok_def, THEN conjunct2, THEN conjunct2, THEN conjunct1, rule_format, OF 4(1)] by simp
next
  case 5
  show ?case using assms [unfolded zset_ok_def, THEN conjunct2, THEN conjunct2, THEN conjunct1, rule_format, OF order_refl] by simp
next
  case 6
  then show ?case using assms [unfolded zset_ok_def, THEN conjunct2, THEN conjunct2, THEN conjunct2, THEN conjunct1, rule_format] by simp
next
  case 7
  then show ?case using assms [unfolded zset_ok_def, THEN conjunct2, THEN conjunct2, THEN conjunct2, THEN conjunct2, THEN conjunct1, rule_format, OF order_refl 7] by simp
next
  case 8
  then show ?case using assms [unfolded zset_ok_def, THEN conjunct2, THEN conjunct2, THEN conjunct2, THEN conjunct2, THEN conjunct1, rule_format, OF 8] by simp
next
  case 9
  then show ?case using assms [unfolded zset_ok_def, THEN conjunct2, THEN conjunct2, THEN conjunct2, THEN conjunct2, THEN conjunct2, rule_format] by simp
qed

definition simulates :: "int \<Rightarrow> 'r zset_view \<Rightarrow> 'r \<Rightarrow> holders \<Rightarrow> time \<Rightarrow> bool" where
  "simulates ttl view r h now \<longleftrightarrow>
     (\<forall>k. (\<forall>i s. h k i = Some s \<longrightarrow> s \<le> now) \<and>
        (\<forall>t\<ge>now. above (t - seconds ttl) (view r t k) = above (t - seconds ttl) (h k)))"

lemma simulates_later: "simulates ttl view r h t \<Longrightarrow> t \<le> t' \<Longrightarrow> simulates ttl view r h t'"
  unfolding simulates_def by (meson order_trans)

lemma simulatesD:
  assumes "simulates ttl view r h now"
  shows "h k i = Some s \<Longrightarrow> s \<le> now"
    and "now \<le> t \<Longrightarrow> above (t - seconds ttl) (view r t k) = above (t - seconds ttl) (h k)"
  using assms unfolding simulates_def by blast+

lemma simulates_holding:
  assumes "zset_ok cl view" and "simulates ttl view r h now"
  shows "zc_zcard cl k now (zc_zremrangebyscore cl k (now - seconds ttl) now r) = int (holding ttl now (h k))"
  by (simp add: zcard [OF assms(1)] zremrange [OF assms(1)] simulatesD(2) [OF assms(2)] holding_def)

lemma reserve_lua_simulates:
  assumes ok: "zset_ok cl view" and sim: "simulates ttl view r h now" and ttl: "0 < ttl"
    and run: "reserve_lua cl k now ttl m i r = (xs, r')"
  shows "if m \<le> int (holding ttl now (h k))
    then xs = [0, int (holding ttl now (h k))] \<and> simulates ttl view r' h now
    else xs = [1, int (holding ttl now (h k)) + 1] \<and> simulates ttl view r' (put_holder k i (Some now) h) now"
proof -
  let ?r1 = "zc_zremrangebyscore cl k (now - seconds ttl) now r"
  note n = simulates_holding [OF ok sim, of k]
  note older = simulatesD(1) [OF sim]
  note same = simulatesD(2) [OF sim]
  have v1: "view ?r1 t k' = (if k' = k then above (now - seconds ttl) (view r t k) else view r t k')" if "now \<le> t" for t k'
    by (rule zremrange [OF ok that])
  show ?thesis
  proof (cases "m \<le> int (holding ttl now (h k))")
    case True
    have "simulates ttl view ?r1 h now"
      unfolding simulates_def
      using older same v1 by (auto simp: above_above)
    then show ?thesis using True run n by (auto simp: reserve_lua_def Let_def)
  next
    case False
    let ?r2 = "zc_zadd cl k now i now ?r1"
    let ?r3 = "zc_expire cl k (ttl * 2) now ?r2"
    let ?h = "put_holder k i (Some now) h"
    have h: "?h k = (h k)(i \<mapsto> now)" "k' \<noteq> k \<Longrightarrow> ?h k' = h k'" for k' by (simp_all add: put_holder_def)
    have here: "above (t - seconds ttl) (view ?r3 t k) = above (t - seconds ttl) (?h k)" if t: "now \<le> t" for t
    proof (cases "t < now + seconds (ttl * 2)")
      case True
      have "above (t - seconds ttl) (view r now k) = above (t - seconds ttl) (h k)"
        using same [of now k] t above_above [of "now - seconds ttl" "t - seconds ttl"] by (metis diff_right_mono order_refl)
      then show ?thesis
        using True t by (simp add: h zexpire [OF ok] zadd_here [OF ok] v1 above_put above_above)
    next
      case False
      then have late: "now \<le> t - seconds ttl" using ttl by (simp add: seconds_def)
      have "above (t - seconds ttl) (?h k) = (\<lambda>_. None)"
        by (rule above_none) (use late older [of k] in \<open>auto simp: h split: if_splits intro: order_trans\<close>)
      then show ?thesis
        using False t by (simp add: zexpire [OF ok])
    qed
    have "view ?r3 t k' = view r t k'" if "now \<le> t" "k' \<noteq> k" for t k'
      using that by (simp add: zexpire [OF ok] zadd_other [OF ok] v1)
    with here have "simulates ttl view ?r3 ?h now"
      unfolding simulates_def using older same h by (auto simp: put_holder_def split: if_splits)
    then show ?thesis using False run n by (auto simp: reserve_lua_def Let_def)
  qed
qed

lemma release_lua_simulates:
  assumes ok: "zset_ok cl view" and sim: "simulates ttl view r h now"
    and run: "release_lua cl k now i r = (xs, r')"
  shows "simulates ttl view r' (put_holder k i None h) now"
proof -
  obtain n where z: "zc_zrem cl k i now r = (n, r')"
    using run by (auto simp: release_lua_def split: prod.splits)
  show ?thesis
    unfolding simulates_def
    using simulatesD [OF sim] zrem_view [OF ok _ z] by (auto simp: above_del put_holder_def split: if_splits)
qed

definition zset_up :: "'r zset_client \<Rightarrow> bool" where
  "zset_up cl \<longleftrightarrow> (\<forall>p now r. \<exists>xs r'. zc_eval cl p now r = (Inr xs, r'))"

definition answers :: "reservation result list \<Rightarrow> (bool \<times> int) option list" where
  "answers vs = map (\<lambda>v. case v of Inl _ \<Rightarrow> None | Inr x \<Rightarrow> Some (rv_reserved x, rv_current_count x)) vs"

lemma answers_simps [simp]:
  "answers [] = []"
  "answers (Inr (reservation_of i k m b n d) # vs) = Some (b, n) # answers vs"
  by (simp_all add: answers_def reservation_of_def)

lemma run_slots_simulates:
  assumes ok: "zset_ok cl view" and up: "zset_up cl" and ttl: "0 < ttl"
  shows "simulates ttl view r h now \<Longrightarrow> sorted (now # map slot_time es) \<Longrightarrow>
    answers (fst (run_slots cfg cl m ttl es r)) = map Some (fst (slots_spec m ttl es h)) \<and>
    simulates ttl view (snd (run_slots cfg cl m ttl es r)) (snd (slots_spec m ttl es h))
      (last (now # map slot_time es))"
proof (induction es arbitrary: r h now)
  case (Cons e es)
  have now: "now \<le> slot_time e" and es: "sorted (slot_time e # map slot_time es)" using Cons.prems(2) by auto
  have sim: "simulates ttl view r h (slot_time e)" by (rule simulates_later [OF Cons.prems(1) now])
  show ?case
  proof (cases e)
    case (Reserve t k i)
    obtain xs r1 where ev: "zc_eval cl (reserve_lua cl k t ttl m i) t r = (Inr xs, r1)"
      using up unfolding zset_up_def by blast
    have lua: "reserve_lua cl k t ttl m i r = (xs, r1)" by (rule zeval [OF ok ev])
    note step = reserve_lua_simulates [OF ok sim [unfolded Reserve slot_time.simps] ttl lua]
    show ?thesis
    proof (cases "m \<le> int (holding ttl t (h k))")
      case True
      then show ?thesis
        using step ev Cons.IH [of r1 h t] es Reserve
        by (auto simp: reserve_def Let_def split_def)
    next
      case False
      then show ?thesis
        using step ev Cons.IH [of r1 "put_holder k i (Some t) h" t] es Reserve
        by (auto simp: reserve_def Let_def split_def)
    qed
  next
    case (Release t k i)
    obtain xs r1 where ev: "zc_eval cl (release_lua cl k t i) t r = (Inr xs, r1)"
      using up unfolding zset_up_def by blast
    have lua: "release_lua cl k t i r = (xs, r1)" by (rule zeval [OF ok ev])
    note step = release_lua_simulates [OF ok sim [unfolded Release slot_time.simps] lua]
    show ?thesis
      using Cons.IH [OF step] es Release ev
      by (auto simp: release_def reservation_of_def Let_def)
  qed
qed simp

lemma holding_put: "finite (dom h) \<Longrightarrow> holding ttl now (h(i \<mapsto> now)) \<le> holding ttl now h + 1"
proof -
  assume fin: "finite (dom h)"
  then have f: "finite (dom (above (now - seconds ttl) h))" by (rule finite_subset [OF dom_above])
  have "dom (above (now - seconds ttl) (h(i \<mapsto> now))) \<subseteq> insert i (dom (above (now - seconds ttl) h))"
    by (auto simp: above_put split: if_splits)
  then have "holding ttl now (h(i \<mapsto> now)) \<le> card (insert i (dom (above (now - seconds ttl) h)))"
    unfolding holding_def using f by (intro card_mono) auto
  also have "\<dots> \<le> holding ttl now h + 1" unfolding holding_def using f by (simp add: card_insert_if)
  finally show ?thesis .
qed

lemma holding_mono:
  assumes "finite (dom h)" and "\<And>i s. h' i = Some s \<Longrightarrow> h i = Some s" and "now \<le> t"
  shows "holding ttl t h' \<le> holding ttl now h"
  unfolding holding_def
proof (rule card_mono)
  show "finite (dom (above (now - seconds ttl) h))" using dom_above assms(1) by (rule finite_subset)
  show "dom (above (t - seconds ttl) h') \<subseteq> dom (above (now - seconds ttl) h)"
    using assms(2,3) by (force simp: above_def split: option.splits if_splits)
qed

lemma slots_spec_bounded:
  assumes "sorted (now # map slot_time es)" and "\<And>k. finite (dom (h k))" and "\<And>k. int (holding ttl now (h k)) \<le> m"
    and "0 \<le> m"
  shows "finite (dom (snd (slots_spec m ttl es h) k)) \<and>
    int (holding ttl (last (now # map slot_time es)) (snd (slots_spec m ttl es h) k)) \<le> m"
  using assms
proof (induction es arbitrary: h now)
  case (Cons e es)
  have now: "now \<le> slot_time e" and es: "sorted (slot_time e # map slot_time es)" using Cons.prems(1) by auto
  have later: "int (holding ttl (slot_time e) (h k)) \<le> m" for k
    using holding_mono [OF Cons.prems(2), of "h k" k now "slot_time e" ttl] now Cons.prems(3) [of k] by simp
  show ?case
  proof (cases e)
    case (Reserve t k i)
    show ?thesis
    proof (cases "m \<le> int (holding ttl t (h k))")
      case True
      then show ?thesis
        using Cons.IH [of t h] es Reserve later Cons.prems(2,4) by (simp add: Let_def split_def)
    next
      case False
      have "int (holding ttl t (put_holder k i (Some t) h k')) \<le> m" "finite (dom (put_holder k i (Some t) h k'))" for k'
        using holding_put [OF Cons.prems(2), of ttl t k i] False later [of k'] Reserve Cons.prems(2)
        by (auto simp: put_holder_def)
      then show ?thesis
        using False Cons.IH [of t "put_holder k i (Some t) h"] es Reserve Cons.prems(2,4)
        by (simp add: Let_def split_def)
    qed
  next
    case (Release t k i)
    have "holding ttl t ((h k)(i := None)) \<le> holding ttl t (h k)"
      by (rule holding_mono [OF Cons.prems(2)]) (auto split: if_splits)
    then have "int (holding ttl t (put_holder k i None h k')) \<le> m" "finite (dom (put_holder k i None h k'))" for k'
      using later [of k'] Release Cons.prems(2) [of k'] Cons.prems(2) [of k] by (auto simp: put_holder_def)
    then show ?thesis
      using Cons.IH [of t "put_holder k i None h"] es Release Cons.prems(2,4) by simp
  qed
qed simp

section \<open>A server\<close>

text \<open>Sorted sets as finite maps with an expiry, every command succeeding.\<close>

type_synonym zset_server = "slot_key \<Rightarrow> (uuid, time) fmap \<times> time option"

definition zset_live :: "time \<Rightarrow> time option \<Rightarrow> bool" where
  "zset_live t e \<longleftrightarrow> (case e of None \<Rightarrow> True | Some x \<Rightarrow> t < x)"

definition zset_now :: "time \<Rightarrow> (uuid, time) fmap \<times> time option \<Rightarrow> (uuid, time) fmap" where
  "zset_now t z = (if zset_live t (snd z) then fst z else fmempty)"

definition map_view :: "zset_server zset_view" where
  "map_view r t k = fmlookup (zset_now t (r k))"

definition map_zsets :: "bool \<Rightarrow> redis_error option \<Rightarrow> zset_server zset_client" where
  "map_zsets fake fault =
     \<lparr>zc_zremrangebyscore = (\<lambda>k b now r. r(k := (fmfilter (\<lambda>i. b < the (fmlookup (fst (r k)) i)) (fst (r k)), snd (r k)))),
      zc_zcard = (\<lambda>k now r. int (card (dom (map_view r now k)))),
      zc_zadd = (\<lambda>k s i now r. r(k := (fmupd i s (zset_now now (r k)),
                                     if zset_live now (snd (r k)) then snd (r k) else None))),
      zc_expire = (\<lambda>k ttl now r. r(k := (zset_now now (r k), Some (now + seconds ttl)))),
      zc_zrem = (\<lambda>k i now r. (if map_view r now k i = None then 0 else 1, r(k := (fmdrop i (fst (r k)), snd (r k))))),
      zc_eval = (\<lambda>p now r. case fault of Some e \<Rightarrow> (Inl e, r) | None \<Rightarrow> (let (xs, r') = p r in (Inr xs, r'))),
      zc_fakeredis = fake\<rparr>"

lemma above_filter: "fmlookup (fmfilter (\<lambda>i. b < the (fmlookup m i)) m) = above b (fmlookup m)"
  by (rule ext) (auto simp: above_def split: option.split)

lemma map_zsets_ok: "zset_ok (map_zsets fake fault) map_view"
  unfolding zset_ok_def map_zsets_def map_view_def
  by (auto simp: zset_now_def zset_live_def above_filter above_def Let_def split: option.splits prod.splits if_splits)

lemma map_zsets_up: "zset_up (map_zsets fake None)"
  by (simp add: zset_up_def map_zsets_def split: prod.split)

definition no_slots :: zset_server where "no_slots = (\<lambda>_. (fmempty, None))"

lemma no_slots_view: "map_view no_slots t k = (\<lambda>_. None)"
  by (rule ext) (simp add: map_view_def no_slots_def zset_now_def)

lemma simulates_empty: "(\<And>t k. view r t k = (\<lambda>_. None)) \<Longrightarrow> simulates ttl view r (\<lambda>_ _. None) now"
  by (simp add: simulates_def)

section \<open>Properties\<close>

text \<open>
  C14. While Redis answers, reservations implement their promise: on an empty server, along every
  time-ordered sequence of reserve and release calls with one limit and time to live, each reserve
  call answers what the specification answers, refused exactly when the account and intent has
  \<open>max_concurrent\<close> unreleased grants younger than the time to live, with their number as the count.
\<close>

theorem reserve_refines_slots:
  assumes "zset_ok cl view" and "zset_up cl" and "0 < ttl"
    and "\<And>t k. view r t k = (\<lambda>_. None)" and "sorted (map slot_time es)"
  shows "answers (fst (run_slots cfg cl m ttl es r)) = map Some (fst (slots_spec m ttl es (\<lambda>_ _. None)))"
proof (cases es)
  case (Cons e es')
  have "sorted (slot_time e # map slot_time es)" using assms(5) Cons by simp
  then show ?thesis
    using run_slots_simulates [OF assms(1-3) simulates_empty [of view r ttl "slot_time e", OF assms(4)]] by blast
qed simp

theorem reserve_refines_slots_witness:
  "answers (fst (run_slots disabled_settings (map_zsets False None) 1 120
     [Reserve 0 (7, ''commenting'') 5, Reserve (seconds 60) (7, ''commenting'') 6,
      Reserve (seconds 121) (7, ''commenting'') 8] no_slots)) =
   [Some (True, 1), Some (False, 1), Some (True, 1)]"
proof -
  let ?es = "[Reserve 0 (7, ''commenting'') 5, Reserve (seconds 60) (7, ''commenting'') 6,
      Reserve (seconds 121) (7, ''commenting'') 8]"
  have "fst (slots_spec 1 120 ?es (\<lambda>_ _. None)) = [(True, 1), (False, 1), (True, 1)]"
    by (simp add: holding_def put_holder_def above_put seconds_def Let_def)
  then show ?thesis
    by (subst reserve_refines_slots [OF map_zsets_ok map_zsets_up, of 120])
      (simp_all add: no_slots_view seconds_def)
qed

text \<open>
  The bound itself: after any such sequence Redis never holds more than \<open>max_concurrent\<close>
  reservations younger than the time to live for any account and intent.
\<close>

theorem slots_bounded:
  assumes "zset_ok cl view" and "zset_up cl" and "0 < ttl" and "0 \<le> m"
    and "\<And>t k. view r t k = (\<lambda>_. None)" and "sorted (map slot_time (e # es))"
  shows "int (card {i. \<exists>s. view (snd (run_slots cfg cl m ttl (e # es) r)) (last (map slot_time (e # es))) k i = Some s \<and>
      last (map slot_time (e # es)) - seconds ttl < s}) \<le> m"
proof -
  let ?now = "last (map slot_time (e # es))" and ?r = "snd (run_slots cfg cl m ttl (e # es) r)"
    and ?h = "snd (slots_spec m ttl (e # es) (\<lambda>_ _. None))"
  have sorted: "sorted (slot_time e # map slot_time (e # es))" using assms(6) by simp
  have last: "last (slot_time e # map slot_time (e # es)) = ?now" by simp
  have "simulates ttl view ?r ?h ?now"
    using run_slots_simulates [OF assms(1-3) simulates_empty [of view r ttl "slot_time e", OF assms(5)] sorted]
    unfolding last by blast
  then have "above (?now - seconds ttl) (view ?r ?now k) = above (?now - seconds ttl) (?h k)"
    by (rule simulatesD(2)) simp
  moreover have "int (holding ttl ?now (?h k)) \<le> m"
    using slots_spec_bounded [OF sorted, of "\<lambda>_ _. None" ttl m k] assms(4) unfolding last
    by (simp add: holding_def above_def)
  moreover have "{i. \<exists>s. f i = Some s \<and> b < s} = dom (above b f)" for f :: "uuid \<Rightarrow> time option" and b
    by (auto simp: above_def split: option.splits if_splits)
  ultimately show ?thesis by (simp add: holding_def)
qed

theorem slots_bounded_witness:
  "int (card {i. \<exists>s. map_view (snd (run_slots disabled_settings (map_zsets False None) 1 120
      [Reserve 0 (7, ''commenting'') 5, Reserve 10 (7, ''commenting'') 6] no_slots)) 10 (7, ''commenting'') i = Some s \<and>
      10 - seconds 120 < s}) \<le> 1"
  using slots_bounded [OF map_zsets_ok map_zsets_up, of 120 1 no_slots "Reserve 0 (7, ''commenting'') 5"
      "[Reserve 10 (7, ''commenting'') 6]"]
  by (simp add: no_slots_view del: run_slots.simps)

text \<open>
  The path without Lua, taken for the fake client that does not know EVAL, does what the
  script does: same answer, same metric, same server state.
\<close>

theorem reserve_fallback_equivalent:
  assumes "zc_eval cl (reserve_lua cl k now ttl m i) now r = (Inl (ResponseError True), r)" and "zc_fakeredis cl"
    and "\<And>p t q. zc_eval cl' p t q = (let (xs, q') = p q in (Inr xs, q'))"
    and "zc_zremrangebyscore cl' = zc_zremrangebyscore cl" and "zc_zcard cl' = zc_zcard cl"
    and "zc_zadd cl' = zc_zadd cl" and "zc_expire cl' = zc_expire cl"
  shows "reserve cfg cl i now k m ttl r = reserve cfg cl' i now k m ttl r"
proof -
  have "reserve_lua cl' = reserve_lua cl"
    by (intro ext) (simp only: reserve_lua_def assms(4-7))
  then show ?thesis
    using assms(1-3) by (simp add: reserve_def reserve_without_lua_def reserve_lua_def Let_def)
qed

theorem reserve_fallback_equivalent_witness:
  "reserve disabled_settings (map_zsets True (Some (ResponseError True))) 5 0 (7, ''commenting'') 3 120 no_slots =
   reserve disabled_settings (map_zsets True None) 5 0 (7, ''commenting'') 3 120 no_slots"
  by (rule reserve_fallback_equivalent) (simp_all add: map_zsets_def)

text \<open>
  C21. A Redis outage is safe by default: when the script cannot be run (and no fallback applies)
  the call answers without touching the server from the client side, degraded and with count 0,
  and reserves only if the operator has opted into failing open; releasing such an answer is a
  no-op that reports False.
\<close>

theorem reserve_outage_spec:
  assumes "zc_eval cl (reserve_lua cl k now ttl m i) now r = (Inl e, r1)" and "\<not> can_use_test_fallback cl e"
  shows "\<exists>v ms. reserve cfg cl i now k m ttl r = (Inr v, r1, ms) \<and>
    rv_reserved v = safety_gate_redis_fail_open cfg \<and> rv_degraded v \<and> rv_current_count v = 0 \<and>
    (M_redis_fail_open ''reserve'' \<in> set ms \<longleftrightarrow> safety_gate_redis_fail_open cfg) \<and>
    (M_redis_outage ''reserve'' \<in> set ms \<longleftrightarrow> \<not> safety_gate_redis_fail_open cfg) \<and>
    release cl now' v r' = (False, r', [])"
  using assms by (simp add: reserve_def redis_reserve_outage_def reservation_of_def release_def)

theorem reserve_outage_spec_witness:
  "\<exists>v ms. reserve disabled_settings (map_zsets False (Some RedisError)) 5 0 (7, ''commenting'') 3 120 no_slots =
     (Inr v, no_slots, ms) \<and> \<not> rv_reserved v"
proof -
  have "zc_eval (map_zsets False (Some RedisError)) p 0 no_slots = (Inl RedisError, no_slots)" for p
    by (simp add: map_zsets_def)
  from reserve_outage_spec [where k = "(7, ''commenting'')" and i = 5 and m = 3 and ttl = 120
      and cfg = disabled_settings and now' = 0 and r' = no_slots, OF this] show ?thesis
    by (auto simp: disabled_settings_def)
qed

end
