(* ===== verification/CommentSender.thy ===== *)
theory CommentSender
  imports AccountSelector Approval SafetyGate GateReserve
begin

text \<open>
  Sending a comment: \<open>sender_service.py\<close>, \<open>sender_flow.py\<close>, \<open>sender_preflight.py\<close>,
  \<open>sender_reservations.py\<close>, \<open>sender_results.py\<close> and \<open>sender_runtime.py\<close>. The flow composes the safety gate,
  a gate slot, the channel rules, the rate limiter and the health services as the code does. The
  client that talks to Telegram is the parameter \<open>en_send\<close>; the behaviour emulator is switched off,
  which is the default of its setting.
\<close>

section \<open>The service and its collaborators\<close>

record send_request =
  sq_account_id :: uuid
  sq_discussion_chat_id :: string
  sq_reply_to_message_id :: string
  sq_text :: string
  sq_random_id :: int

text \<open>\<open>SentCommentResult\<close>, \<open>TelegramCommentSendError\<close> (code, text, seconds) or any other exception.\<close>

datatype send_outcome =
    Delivered string time
  | SendError string string "int option"
  | Unexpected string string

text \<open>\<open>SenderService\<close>: its settings and clients; \<open>en_slots\<close> is None when there is no Redis client.\<close>

record ('c, 'q, 'z, 'r, 't) sender_env =
  en_gate :: "('c, 'q) gate"
  en_settings :: settings
  en_send_enabled :: bool
  en_require_limiter :: bool
  en_slots :: "'z zset_client option"
  en_limiter :: "rate_limiter option"
  en_limiter_base :: rate_limiter
  en_redis :: "'r redis"
  en_random_id :: "uuid \<Rightarrow> int"
  en_send :: "send_request \<Rightarrow> 't \<Rightarrow> send_outcome \<times> 't"

text \<open>What a call reads and changes; \<open>ss_reservation\<close> is the field \<open>_gate_reservation\<close>.\<close>

record ('c, 'q, 'z, 'r, 't) sender_state =
  ss_db :: db
  ss_cache :: 'c
  ss_counters :: 'q
  ss_slots :: 'z
  ss_limits :: 'r
  ss_telegram :: 't
  ss_reservation :: "reservation option"

definition on_db :: "(db \<Rightarrow> db) \<Rightarrow> ('c, 'q, 'z, 'r, 't) sender_state \<Rightarrow> ('c, 'q, 'z, 'r, 't) sender_state" where
  "on_db f st = st\<lparr>ss_db := f (ss_db st)\<rparr>"

record send_context =
  cx_attempt :: comment_attempt
  cx_campaign :: neuro_campaign
  cx_comment :: generated_comment
  cx_observed_post :: "observed_post option"
  cx_target :: "neuro_target option"
  cx_campaign_account :: "campaign_account option"

section \<open>Context and guards\<close>

definition target_or_none :: "uuid option \<Rightarrow> uuid \<Rightarrow> db \<Rightarrow> neuro_target option" where
  "target_or_none t c s = (case t of None \<Rightarrow> None | Some i \<Rightarrow> get_target i c s)"

definition campaign_account_or_none :: "uuid \<Rightarrow> uuid option \<Rightarrow> db \<Rightarrow> campaign_account option" where
  "campaign_account_or_none c a s = (case a of None \<Rightarrow> None | Some i \<Rightarrow> get_campaign_account c i s)"

definition load_context :: "uuid \<Rightarrow> uuid \<Rightarrow> db \<Rightarrow> send_context result" where
  "load_context attempt_id w s =
     result_bind (require_attempt_for_workspace attempt_id w s)
       (\<lambda>attempt. result_bind (require_campaign (at_campaign_id attempt) w s)
         (\<lambda>campaign. result_bind (require_generated_comment (at_generated_comment_id attempt) w s)
           (\<lambda>comment. Inr \<lparr>cx_attempt = attempt, cx_campaign = campaign, cx_comment = comment,
              cx_observed_post = (case at_observed_post_id attempt of None \<Rightarrow> None
                                  | Some p \<Rightarrow> get_observed_post p (nc_id campaign) s),
              cx_target = target_or_none (at_target_id attempt) (nc_id campaign) s,
              cx_campaign_account = campaign_account_or_none (nc_id campaign) (at_account_id attempt) s\<rparr>)))"

definition validate_send :: "send_context \<Rightarrow> unit result" where
  "validate_send cx =
     (let campaign = cx_campaign cx; comment = cx_comment cx in
      if nc_status campaign \<noteq> CRunning then Inl (NeuroConflict ''CAMPAIGN_NOT_RUNNING'')
      else if nc_dry_run campaign then Inl (NeuroConflict ''CAMPAIGN_DRY_RUN'')
      else if gc_approval_status comment \<noteq> AApproved then Inl (NeuroValidation ''COMMENT_NOT_APPROVED'')
      else if gc_safety_status comment = SBlocked then Inl (NeuroValidation ''COMMENT_BLOCKED'')
      else if \<not> truthy (gc_final_text comment) then Inl (NeuroValidation ''COMMENT_TEXT_MISSING'')
      else case cx_observed_post cx of
        None \<Rightarrow> Inl (NeuroConflict ''OBSERVED_POST_REQUIRED'')
      | Some post \<Rightarrow>
          if \<not> truthy (op_discussion_message_id post) then Inl (NeuroConflict ''DISCUSSION_MESSAGE_NOT_RESOLVED'')
          else case cx_target cx of
            None \<Rightarrow> Inl (NeuroConflict ''TARGET_NO_DISCUSSION'')
          | Some target \<Rightarrow>
              if \<not> (truthy (op_discussion_chat_id post) \<or> truthy (nt_discussion_chat_id target))
              then Inl (NeuroConflict ''TARGET_NO_DISCUSSION'')
              else if nt_status target \<noteq> TActive then Inl (NeuroConflict ''TARGET_NOT_ACTIVE'')
              else if (case cx_campaign_account cx of None \<Rightarrow> True | Some m \<Rightarrow> ca_status m \<noteq> CAActive)
              then Inl (NeuroConflict ''ACCOUNT_NOT_ACTIVE'')
              else Inr ())"

definition opt_or :: "'a option \<Rightarrow> 'a option \<Rightarrow> 'a option" where
  "opt_or x y = (case x of Some a \<Rightarrow> Some a | None \<Rightarrow> y)"

text \<open>\<open>attempt.account_id or comment.account_id\<close>, and the same for the target.\<close>

definition cx_account_id :: "send_context \<Rightarrow> uuid option" where
  "cx_account_id cx = opt_or (at_account_id (cx_attempt cx)) (gc_account_id (cx_comment cx))"

definition cx_target_id :: "send_context \<Rightarrow> uuid option" where
  "cx_target_id cx = opt_or (at_target_id (cx_attempt cx)) (gc_target_id (cx_comment cx))"

definition cx_refs :: "send_context \<Rightarrow> event_refs" where
  "cx_refs cx =
     \<lparr>er_campaign = Some (nc_id (cx_campaign cx)), er_account = at_account_id (cx_attempt cx),
      er_target = at_target_id (cx_attempt cx), er_post = at_observed_post_id (cx_attempt cx),
      er_comment = Some (gc_id (cx_comment cx)), er_attempt = Some (at_id (cx_attempt cx))\<rparr>"

definition discussion_chat_id :: "send_context \<Rightarrow> string" where
  "discussion_chat_id cx =
     (case (cx_observed_post cx, cx_target cx) of
        (Some post, Some target) \<Rightarrow> str_or (op_discussion_chat_id post) (str_or (nt_discussion_chat_id target) [])
      | _ \<Rightarrow> [])"

definition comment_text :: "send_context \<Rightarrow> string" where
  "comment_text cx =
     str_or (gc_final_text (cx_comment cx))
       (str_or (gc_edited_text (cx_comment cx)) (gc_generated_text (cx_comment cx)))"

text \<open>An attempt that is skipped, with the reason.\<close>

definition skip_attempt :: "string \<Rightarrow> string option \<Rightarrow> comment_attempt \<Rightarrow> comment_attempt" where
  "skip_attempt code msg a = a\<lparr>at_status := AtSkipped, at_error_code := Some code, at_error_message := msg\<rparr>"

definition raise_if_send_disabled ::
  "('c, 'q, 'z, 'r, 't) sender_env \<Rightarrow> time \<Rightarrow> uuid \<Rightarrow> send_context \<Rightarrow>
   ('c, 'q, 'z, 'r, 't) sender_state \<Rightarrow> unit result \<times> ('c, 'q, 'z, 'r, 't) sender_state" where
  "raise_if_send_disabled en now w cx st =
     (if en_send_enabled en then (Inr (), st)
      else (Inl (NeuroRuntimeDisabled ''NEURO_COMMENT_SEND_DISABLED''),
            on_db (write_event now w ((cx_refs cx)\<lparr>er_post := None\<rparr>) ''info'' ''manual_send_blocked''
              ''TDLib neuro-comment sending is disabled.''
              [(''error_code'', JStr ''NEURO_COMMENT_SEND_DISABLED'')]) st))"

definition evaluate_commenting_gate ::
  "('c, 'q, 'z, 'r, 't) sender_env \<Rightarrow> time \<Rightarrow> uuid \<Rightarrow> send_context \<Rightarrow>
   ('c, 'q, 'z, 'r, 't) sender_state \<Rightarrow> gate_verdict option result \<times> ('c, 'q, 'z, 'r, 't) sender_state" where
  "evaluate_commenting_gate en now w cx st =
     (case cx_account_id cx of
        None \<Rightarrow> (Inr None, st)
      | Some a \<Rightarrow>
          let (v, c, q, s) = evaluate_gate (en_gate en) (en_settings en) now w a Commenting
                (ss_cache st) (ss_counters st) (ss_db st);
              st1 = st\<lparr>ss_cache := c, ss_counters := q, ss_db := s\<rparr>
          in (case v of Inl e \<Rightarrow> (Inl e, st1) | Inr verdict \<Rightarrow> (Inr (Some verdict), st1)))"

definition try_gate_reserve ::
  "('c, 'q, 'z, 'r, 't) sender_env \<Rightarrow> time \<Rightarrow> send_context \<Rightarrow>
   ('c, 'q, 'z, 'r, 't) sender_state \<Rightarrow> reservation option result \<times> ('c, 'q, 'z, 'r, 't) sender_state" where
  "try_gate_reserve en now cx st =
     (case (en_slots en, cx_account_id cx) of
        (Some cl, Some a) \<Rightarrow>
          let (i, s) = new_id (ss_db st);
              (v, z, ms) = reserve (en_settings en) cl i now (a, ''commenting'')
                GATE_MAX_CONCURRENT_DEFAULT GATE_RESERVE_TTL_SECONDS (ss_slots st);
              st1 = st\<lparr>ss_db := s, ss_slots := z\<rparr>
          in (case v of Inl e \<Rightarrow> (Inl e, st1) | Inr rv \<Rightarrow> (Inr (Some rv), st1))
      | _ \<Rightarrow> (Inr None, st))"

definition release_gate_reservation ::
  "('c, 'q, 'z, 'r, 't) sender_env \<Rightarrow> time \<Rightarrow> ('c, 'q, 'z, 'r, 't) sender_state \<Rightarrow> ('c, 'q, 'z, 'r, 't) sender_state" where
  "release_gate_reservation en now st =
     (case ss_reservation st of
        None \<Rightarrow> st
      | Some v \<Rightarrow>
          if \<not> rv_reserved v then st
          else (case en_slots en of
                  None \<Rightarrow> st\<lparr>ss_reservation := None\<rparr>
                | Some cl \<Rightarrow>
                    let (b, z, ms) = release cl now v (ss_slots st)
                    in st\<lparr>ss_slots := z, ss_reservation := None\<rparr>))"

text \<open>\<open>_block_by_safety_gate\<close>: the attempt when it is blocked, None when it may go on.\<close>

definition take_gate_slot ::
  "('c, 'q, 'z, 'r, 't) sender_env \<Rightarrow> time \<Rightarrow> uuid \<Rightarrow> send_context \<Rightarrow> ('c, 'q, 'z, 'r, 't) sender_state \<Rightarrow>
   comment_attempt option result \<times> ('c, 'q, 'z, 'r, 't) sender_state" where
  "take_gate_slot en now w cx st =
     (case try_gate_reserve en now cx st of
        (Inl e, st1) \<Rightarrow> (Inl e, st1)
      | (Inr slot, st1) \<Rightarrow>
          let st2 = st1\<lparr>ss_reservation := slot\<rparr> in
          (case slot of
             None \<Rightarrow> (Inr None, st2)
           | Some v \<Rightarrow>
               if rv_reserved v then (Inr None, st2)
               else let row = skip_attempt ''GATE_CONCURRENCY_LIMIT'' (Some ''Account concurrency limit reached.'')
                                (cx_attempt cx)
                    in (Inr (Some row), on_db (\<lambda>s. write_event now w (cx_refs cx) ''warning''
                          ''neuro_comment_send_blocked_by_gate_concurrency''
                          ''neuro-comment send blocked by gate concurrency limit''
                          [(''current_count'', JInt (rv_current_count v))] (put_attempt row s)) st2)))"

definition block_by_safety_gate ::
  "('c, 'q, 'z, 'r, 't) sender_env \<Rightarrow> time \<Rightarrow> uuid \<Rightarrow> send_context \<Rightarrow> ('c, 'q, 'z, 'r, 't) sender_state \<Rightarrow>
   comment_attempt option result \<times> ('c, 'q, 'z, 'r, 't) sender_state" where
  "block_by_safety_gate en now w cx st =
     (case evaluate_commenting_gate en now w cx st of
        (Inl e, st1) \<Rightarrow> (Inl e, st1)
      | (Inr None, st1) \<Rightarrow> take_gate_slot en now w cx st1
      | (Inr (Some v), st1) \<Rightarrow>
          if gv_severity v \<noteq> VerdictBlocked then take_gate_slot en now w cx st1
          else let codes = map (\<lambda>r. reason_code_text (gr_code r)) (gv_reasons v);
                   row = skip_attempt ''ACCOUNT_SAFETY_BLOCKED'' (Some (join_with ''; '' codes)) (cx_attempt cx)
               in (Inr (Some row), on_db (\<lambda>s. write_event now w (cx_refs cx) ''warning''
                     ''neuro_comment_send_blocked_by_gate'' ''neuro-comment send blocked by account safety gate''
                     [(''reasons'', JList (map JStr codes))] (put_attempt row s)) st1))"

definition block_by_channel_rule ::
  "time \<Rightarrow> uuid \<Rightarrow> send_context \<Rightarrow> ('c, 'q, 'z, 'r, 't) sender_state \<Rightarrow>
   comment_attempt option \<times> ('c, 'q, 'z, 'r, 't) sender_state" where
  "block_by_channel_rule now w cx st =
     (case cx_target cx of
        None \<Rightarrow> (None, st)
      | Some target \<Rightarrow>
          let decision = evaluate_target_allowed w target False (ss_db st) in
          if cd_allowed decision then (None, st)
          else let row = skip_attempt ''CHANNEL_RULE_BLOCKED'' (cd_why decision) (cx_attempt cx)
               in (Some row, on_db (\<lambda>s. write_event now w (cx_refs cx) ''warning'' ''channel_rule_blocked''
                     (str_or (cd_why decision) ''channel rule blocked send'')
                     [(''matched_rule_id'', opt_json (cd_matched_rule_id decision))] (put_attempt row s)) st))"

text \<open>\<open>preflight_attempt\<close>: the checks before a manual send, without a slot and without a reservation.\<close>

definition validate_preflight_guards ::
  "('c, 'q, 'z, 'r, 't) sender_env \<Rightarrow> time \<Rightarrow> uuid \<Rightarrow> send_context \<Rightarrow>
   ('c, 'q, 'z, 'r, 't) sender_state \<Rightarrow> unit result \<times> ('c, 'q, 'z, 'r, 't) sender_state" where
  "validate_preflight_guards en now w cx st =
     (if \<not> en_send_enabled en then (Inr (), st)
      else if (case cx_target cx of
                 None \<Rightarrow> False | Some t \<Rightarrow> \<not> cd_allowed (evaluate_target_allowed w t False (ss_db st)))
      then (Inl (NeuroConflict ''CHANNEL_RULE_BLOCKED''), st)
      else if (case cx_campaign_account cx of None \<Rightarrow> False | Some m \<Rightarrow> \<not> account_ready (ca_account_id m) (ss_db st))
      then (Inl (NeuroConflict ''ACCOUNT_RUNTIME_NOT_READY''), st)
      else case evaluate_commenting_gate en now w cx st of
        (Inl e, st1) \<Rightarrow> (Inl e, st1)
      | (Inr None, st1) \<Rightarrow> (Inr (), st1)
      | (Inr (Some v), st1) \<Rightarrow>
          (if gv_severity v = VerdictBlocked then Inl (NeuroConflict ''ACCOUNT_SAFETY_BLOCKED'') else Inr (), st1))"

definition preflight_attempt ::
  "('c, 'q, 'z, 'r, 't) sender_env \<Rightarrow> time \<Rightarrow> uuid \<Rightarrow> uuid \<Rightarrow> ('c, 'q, 'z, 'r, 't) sender_state \<Rightarrow>
   comment_attempt result \<times> ('c, 'q, 'z, 'r, 't) sender_state" where
  "preflight_attempt en now attempt_id w st =
     (case load_context attempt_id w (ss_db st) of
        Inl e \<Rightarrow> (Inl e, st)
      | Inr cx \<Rightarrow>
          if at_status (cx_attempt cx) = AtSent \<and> truthy (at_telegram_message_id (cx_attempt cx))
          then (Inr (cx_attempt cx), st)
          else case validate_send cx of
            Inl e \<Rightarrow> (Inl e, st)
          | Inr _ \<Rightarrow>
              (case validate_preflight_guards en now w cx st of
                 (Inl e, st1) \<Rightarrow> (Inl e, st1)
               | (Inr _, st1) \<Rightarrow> (Inr (cx_attempt cx), st1)))"

section \<open>Reservations\<close>

definition send_scope :: "uuid \<Rightarrow> send_context \<Rightarrow> rate_limit_scope" where
  "send_scope w cx =
     \<lparr>sc_workspace_id = uuid_text w, sc_campaign_id = uuid_text (nc_id (cx_campaign cx)),
      sc_account_id = map_option uuid_text (cx_account_id cx),
      sc_target_id = map_option uuid_text (cx_target_id cx),
      sc_campaign_account_id = None, sc_campaign_target_id = None\<rparr>"

text \<open>\<open>self._limiter or self._limiter_for_send(...)\<close>, and the limiter that commits and rolls back.\<close>

definition sending_limiter ::
  "('c, 'q, 'z, 'r, 't) sender_env \<Rightarrow> send_context \<Rightarrow> db \<Rightarrow> rate_limiter result" where
  "sending_limiter en cx s =
     (case en_limiter en of
        Some rl \<Rightarrow> Inr rl
      | None \<Rightarrow> limiter_for_send (en_limiter_base en) (nc_id (cx_campaign cx)) (nc_workspace_id (cx_campaign cx)) s)"

definition settling_limiter :: "('c, 'q, 'z, 'r, 't) sender_env \<Rightarrow> rate_limiter" where
  "settling_limiter en = (case en_limiter en of Some rl \<Rightarrow> rl | None \<Rightarrow> en_limiter_base en)"

text \<open>The attempt as the call leaves it, and the reservation when there is one.\<close>

definition reserve_for_attempt ::
  "('c, 'q, 'z, 'r, 't) sender_env \<Rightarrow> time \<Rightarrow> uuid \<Rightarrow> send_context \<Rightarrow> ('c, 'q, 'z, 'r, 't) sender_state \<Rightarrow>
   (rate_limit_reservation option \<times> comment_attempt) result \<times> ('c, 'q, 'z, 'r, 't) sender_state" where
  "reserve_for_attempt en now w cx st =
     (if \<not> en_require_limiter en then (Inr (None, cx_attempt cx), st)
      else case sending_limiter en cx (ss_db st) of
        Inl e \<Rightarrow> (Inl e, st)
      | Inr rl \<Rightarrow>
          let (i, s) = new_id (ss_db st);
              (v, r) = limiter_reserve (en_redis en) rl (uuid_text i) now (send_scope w cx) (ss_limits st);
              st1 = st\<lparr>ss_db := s, ss_limits := r\<rparr>
          in (case v of
                Inl e \<Rightarrow> (Inl e, st1)
              | Inr rv \<Rightarrow>
                  if \<not> rr_allowed rv
                  then let row = skip_attempt ''RATE_LIMIT_DENIED'' (rr_reason rv) (cx_attempt cx)
                       in (Inr (None, row), on_db (\<lambda>s. write_event now w (cx_refs cx) ''warning''
                             ''rate_limit_denied'' (str_or (rr_reason rv) ''rate limit denied'')
                             [(''checked_limits'', JList (map JStr (rr_checked_limits rv)))] (put_attempt row s)) st1)
                  else (Inr (Some rv, cx_attempt cx), on_db (write_event now w (cx_refs cx) ''info''
                          ''rate_limit_reserved'' ''neuro-comment send rate limit reserved''
                          [(''reservation_id'', json_of_str (rr_reservation_id rv))]) st1)))"

definition commit_reservation ::
  "('c, 'q, 'z, 'r, 't) sender_env \<Rightarrow> time \<Rightarrow> rate_limit_reservation option \<Rightarrow>
   ('c, 'q, 'z, 'r, 't) sender_state \<Rightarrow> ('c, 'q, 'z, 'r, 't) sender_state" where
  "commit_reservation en now v st =
     (case v of
        None \<Rightarrow> st
      | Some rv \<Rightarrow> st\<lparr>ss_limits := limiter_commit (en_redis en) (settling_limiter en) now rv (ss_limits st)\<rparr>)"

definition rollback_reservation ::
  "('c, 'q, 'z, 'r, 't) sender_env \<Rightarrow> time \<Rightarrow> rate_limit_reservation option \<Rightarrow>
   ('c, 'q, 'z, 'r, 't) sender_state \<Rightarrow> ('c, 'q, 'z, 'r, 't) sender_state" where
  "rollback_reservation en now v st =
     (case v of
        None \<Rightarrow> st
      | Some rv \<Rightarrow> st\<lparr>ss_limits := limiter_rollback (en_redis en) now rv (ss_limits st)\<rparr>)"

section \<open>Results\<close>

definition res_then :: "unit result \<times> db \<Rightarrow> (db \<Rightarrow> unit result \<times> db) \<Rightarrow> unit result \<times> db" where
  "res_then x f = (case x of (Inl e, s) \<Rightarrow> (Inl e, s) | (Inr _, s) \<Rightarrow> f s)"

definition record_attempt_success ::
  "time \<Rightarrow> send_context \<Rightarrow> db \<Rightarrow> unit result \<times> db" where
  "record_attempt_success now cx s =
     (let w = nc_workspace_id (cx_campaign cx) in
      res_then
        (case cx_account_id cx of
           None \<Rightarrow> (Inr (), s)
         | Some a \<Rightarrow> record_account_send_success now (nc_id (cx_campaign cx)) a w s)
        (\<lambda>s1. case cx_target_id cx of
           None \<Rightarrow> (Inr (), s1)
         | Some t \<Rightarrow> res_then (record_target_success now w t s1) (suggest_rules_for_target now w t)))"

definition sent_attempt :: "string \<Rightarrow> time \<Rightarrow> comment_attempt \<Rightarrow> comment_attempt" where
  "sent_attempt message_id sent_at a =
     a\<lparr>at_external_message_id_provisional :=
         (case int_of_text message_id of None \<Rightarrow> at_external_message_id_provisional a | Some n \<Rightarrow> Some n),
       at_status := AtSent, at_telegram_message_id := Some message_id, at_sent_at := Some sent_at,
       at_error_code := None, at_error_message := None\<rparr>"

text \<open>\<open>record_attempt_success\<close> keeps the fields \<open>_mark_attempt_sent\<close> has set; an empty id is kept too.\<close>

definition mark_attempt_sent ::
  "time \<Rightarrow> uuid \<Rightarrow> send_context \<Rightarrow> string \<Rightarrow> time \<Rightarrow> uuid \<Rightarrow> db \<Rightarrow> comment_attempt result \<times> db" where
  "mark_attempt_sent now w cx message_id sent_at idem s =
     (let row = sent_attempt message_id sent_at (cx_attempt cx);
          s1 = put_attempt row s
      in case record_attempt_success now cx s1 of
           (Inl e, s2) \<Rightarrow> (Inl e, s2)
         | (Inr _, s2) \<Rightarrow>
             (case cx_target cx of
                None \<Rightarrow> (Inl AssertionError, s2)
              | Some target \<Rightarrow>
                  let s3 = s2\<lparr>db_targets := update_where (\<lambda>t. nt_id t = nt_id target)
                             (\<lambda>t. t\<lparr>nt_last_commented_at := Some sent_at\<rparr>) (db_targets s2)\<rparr>;
                      data = [(''attempt_id'', JInt (int (at_id row)))];
                      s4 = write_event now w (cx_refs cx) ''info'' ''comment_sent_provisional''
                             ''outbox: comment_sent_provisional''
                             (data @ [(''idempotency_key'', JInt (int idem))]) s3
                  in (Inr row, write_event now w (cx_refs cx) ''info'' ''comment_sent''
                        ''manual neuro-comment sent'' data s4)))"

text \<open>What a failed send does to the account and to the target.\<close>

definition account_after_error ::
  "time \<Rightarrow> uuid \<Rightarrow> comment_attempt \<Rightarrow> string \<Rightarrow> int option \<Rightarrow> db \<Rightarrow> unit result \<times> db" where
  "account_after_error now w row code flood s =
     (let c = at_campaign_id row in
      case campaign_account_or_none c (at_account_id row) s of
        None \<Rightarrow> (Inr (), s)
      | Some m \<Rightarrow>
          if code = ''FLOOD_WAIT''
          then (case flood of
                  None \<Rightarrow> (Inr (), s)
                | Some secs \<Rightarrow> record_account_flood_wait now c (ca_account_id m) w secs
                    (put_campaign_account (m\<lparr>ca_cooldown_until := Some (now + seconds secs)\<rparr>) s))
          else record_account_send_failure now c (ca_account_id m) w code s)"

definition target_after_error ::
  "time \<Rightarrow> uuid \<Rightarrow> comment_attempt \<Rightarrow> string \<Rightarrow> db \<Rightarrow> unit result \<times> db" where
  "target_after_error now w row code s =
     (case at_target_id row of
        None \<Rightarrow> (Inr (), s)
      | Some t \<Rightarrow>
          res_then (if code = ''FLOOD_WAIT'' then record_target_flood_wait now w t s
                    else record_target_failure code now w t s)
            (suggest_rules_for_target now w t))"

definition failed_attempt :: "time \<Rightarrow> string \<Rightarrow> string \<Rightarrow> int option \<Rightarrow> comment_attempt \<Rightarrow> comment_attempt" where
  "failed_attempt now code msg flood attempt =
     (let row = attempt\<lparr>at_error_code := Some code, at_error_message := Some (take 300 msg),
                        at_failed_at := Some now\<rparr>
      in if code = ''FLOOD_WAIT'' then row\<lparr>at_status := AtFloodWait, at_flood_wait_seconds := flood\<rparr>
         else row\<lparr>at_status := AtFailed\<rparr>)"

definition mark_send_error ::
  "time \<Rightarrow> uuid \<Rightarrow> comment_attempt \<Rightarrow> string \<Rightarrow> string \<Rightarrow> int option \<Rightarrow> db \<Rightarrow> comment_attempt result \<times> db" where
  "mark_send_error now w attempt code msg flood s =
     (let row = failed_attempt now code msg flood attempt in
      case res_then (account_after_error now w row code flood (put_attempt row s))
             (target_after_error now w row code) of
        (Inl e, s1) \<Rightarrow> (Inl e, s1)
      | (Inr _, s1) \<Rightarrow>
          (Inr row, write_event now w
             \<lparr>er_campaign = Some (at_campaign_id row), er_account = at_account_id row,
              er_target = at_target_id row, er_post = at_observed_post_id row,
              er_comment = Some (at_generated_comment_id row), er_attempt = Some (at_id row)\<rparr>
             ''warning'' (if code = ''FLOOD_WAIT'' then ''comment_flood_wait'' else ''comment_send_failed'')
             ''manual neuro-comment send failed'' [(''error_code'', JStr code)] s1))"

definition mark_unexpected_error ::
  "time \<Rightarrow> uuid \<Rightarrow> send_context \<Rightarrow> string \<Rightarrow> string \<Rightarrow> db \<Rightarrow> db" where
  "mark_unexpected_error now w cx ty msg s =
     write_event now w (cx_refs cx) ''error'' ''comment_send_unexpected_error''
       (ty @ '': '' @ take 200 msg) [(''error_class'', JStr ty)]
       (put_attempt ((cx_attempt cx)\<lparr>at_status := AtFailed, at_failed_at := Some now,
          at_error_code := Some ''sender_unexpected_error'',
          at_error_message := Some (take 300 (ty @ '': '' @ msg))\<rparr>) s)"

section \<open>The flow\<close>

definition send_request_of ::
  "('c, 'q, 'z, 'r, 't) sender_env \<Rightarrow> send_context \<Rightarrow> uuid \<Rightarrow> send_request" where
  "send_request_of en cx idem =
     \<lparr>sq_account_id = (case at_account_id (cx_attempt cx) of None \<Rightarrow> 0 | Some a \<Rightarrow> a),
      sq_discussion_chat_id = discussion_chat_id cx,
      sq_reply_to_message_id =
        (case cx_observed_post cx of None \<Rightarrow> [] | Some p \<Rightarrow> str_or (op_discussion_message_id p) []),
      sq_text = comment_text cx, sq_random_id = en_random_id en idem\<rparr>"

text \<open>
  From the attempt marked as being sent: the key in Redis, the call to Telegram and what follows it.
  The slot is released in every case but a clash of keys or a failing SET, which leave by an exception.
\<close>

definition deliver ::
  "('c, 'q, 'z, 'r, 't) sender_env \<Rightarrow> time \<Rightarrow> uuid \<Rightarrow> send_context \<Rightarrow> uuid \<Rightarrow> rate_limit_reservation option \<Rightarrow>
   ('c, 'q, 'z, 'r, 't) sender_state \<Rightarrow> comment_attempt result \<times> ('c, 'q, 'z, 'r, 't) sender_state" where
  "deliver en now w cx idem reservation st =
     (let st1 = on_db (write_event now w (cx_refs cx) ''info'' ''comment_send_started''
                  ''manual neuro-comment send started'' [(''idempotency_key'', JInt (int idem))]) st;
          (outcome, t) = en_send en (send_request_of en cx idem) (ss_telegram st1);
          st2 = st1\<lparr>ss_telegram := t\<rparr>
      in case outcome of
           Delivered message_id sent_at \<Rightarrow>
             let st3 = commit_reservation en now reservation (release_gate_reservation en now st2);
                 (x, s) = mark_attempt_sent now w cx message_id sent_at idem (ss_db st3);
                 st4 = st3\<lparr>ss_db := s\<rparr>
             in (case x of Inl e \<Rightarrow> (Inl e, st4) | Inr row \<Rightarrow> (Inr row, release_gate_reservation en now st4))
         | SendError code msg flood \<Rightarrow>
             let st3 = release_gate_reservation en now (rollback_reservation en now reservation st2);
                 (x, s) = mark_send_error now w (cx_attempt cx) code msg flood (ss_db st3)
             in (x, st3\<lparr>ss_db := s\<rparr>)
         | Unexpected ty msg \<Rightarrow>
             let st3 = release_gate_reservation en now (rollback_reservation en now reservation st2)
             in (Inl (RuntimeError (ty @ '': '' @ msg)), on_db (mark_unexpected_error now w cx ty msg) st3))"

definition idempotency_key_name :: "uuid \<Rightarrow> string" where
  "idempotency_key_name key = ''attempt:idem:'' @ uuid_text key"

definition reserve_idempotency_key ::
  "('c, 'q, 'z, 'r, 't) sender_env \<Rightarrow> time \<Rightarrow> uuid \<Rightarrow> uuid \<Rightarrow> ('c, 'q, 'z, 'r, 't) sender_state \<Rightarrow>
   unit result \<times> ('c, 'q, 'z, 'r, 't) sender_state" where
  "reserve_idempotency_key en now key attempt_id st =
     (if en_slots en = None then (Inr (), st)
      else let (x, r) = client_call (en_redis en)
                 (rd_set_nx (en_redis en) (idempotency_key_name key) (RText (uuid_text attempt_id)) 3600 now)
                 (ss_limits st);
               st1 = st\<lparr>ss_limits := r\<rparr>
           in (case x of
                 Inl e \<Rightarrow> (Inl RedisFailure, st1)
               | Inr ok \<Rightarrow> if ok then (Inr (), st1) else (Inl IdempotencyConflict, st1)))"

text \<open>From the rate limiter on: a denied attempt is skipped, any other is marked and delivered.\<close>

definition send_cleared ::
  "('c, 'q, 'z, 'r, 't) sender_env \<Rightarrow> time \<Rightarrow> uuid \<Rightarrow> uuid \<Rightarrow> send_context \<Rightarrow> ('c, 'q, 'z, 'r, 't) sender_state \<Rightarrow>
   comment_attempt result \<times> ('c, 'q, 'z, 'r, 't) sender_state" where
  "send_cleared en now attempt_id w cx st =
     (case reserve_for_attempt en now w cx st of
        (Inl e, st1) \<Rightarrow> (Inl e, st1)
      | (Inr (reservation, attempt), st1) \<Rightarrow>
          if reservation = None \<and> at_status attempt = AtSkipped \<and>
             at_error_code attempt = Some ''RATE_LIMIT_DENIED''
          then (Inr attempt, st1)
          else
            let (idem, s) = new_id (ss_db st1);
                row = attempt\<lparr>at_idempotency_key := Some idem, at_status := AtSending\<rparr>;
                st2 = st1\<lparr>ss_db := put_attempt row s\<rparr>
            in (case reserve_idempotency_key en now idem attempt_id st2 of
                  (Inl e, st3) \<Rightarrow> (Inl e, st3)
                | (Inr _, st3) \<Rightarrow> deliver en now w (cx\<lparr>cx_attempt := row\<rparr>) idem reservation st3))"

definition send_attempt ::
  "('c, 'q, 'z, 'r, 't) sender_env \<Rightarrow> time \<Rightarrow> uuid \<Rightarrow> uuid \<Rightarrow> ('c, 'q, 'z, 'r, 't) sender_state \<Rightarrow>
   comment_attempt result \<times> ('c, 'q, 'z, 'r, 't) sender_state" where
  "send_attempt en now attempt_id w st =
     (case load_context attempt_id w (ss_db st) of
        Inl e \<Rightarrow> (Inl e, st)
      | Inr cx \<Rightarrow>
          if at_status (cx_attempt cx) = AtSent \<and> truthy (at_telegram_message_id (cx_attempt cx))
          then (Inr (cx_attempt cx), st)
          else case validate_send cx of
            Inl e \<Rightarrow> (Inl e, st)
          | Inr _ \<Rightarrow>
              (case raise_if_send_disabled en now w cx st of
                 (Inl e, st1) \<Rightarrow> (Inl e, st1)
               | (Inr _, st1) \<Rightarrow>
                   (case block_by_safety_gate en now w cx st1 of
                      (Inl e, st2) \<Rightarrow> (Inl e, st2)
                    | (Inr (Some row), st2) \<Rightarrow> (Inr row, st2)
                    | (Inr None, st2) \<Rightarrow>
                        (case block_by_channel_rule now w cx st2 of
                           (Some row, st3) \<Rightarrow> (Inr row, st3)
                         | (None, st3) \<Rightarrow> send_cleared en now attempt_id w cx st3))))"

end
