(* ===== verification/GateFrame.thy ===== *)
theory GateFrame
  imports SafetyGate
begin

text \<open>
  What an evaluation of the safety gate leaves alone. A client of the gate observes some tables of
  the database; when its view is not changed by the few writes the gate makes (metrics, scores,
  the default workspace, a policy row), it is not changed by an evaluation.
\<close>

locale gate_observer =
  fixes view :: "db \<Rightarrow> 'v"
  assumes view_emit: "view (emit m s) = view s"
    and view_ggr: "view (write_ggr g s) = view s"
    and view_bootstrap: "view (ensure_default_workspace now s) = view s"
    and view_policies: "view (s\<lparr>db_next_id := n, db_policies := ps\<rparr>) = view s"
begin

lemma view_emits: "view (fold (\<lambda>r. emit (f r)) rs s) = view s"
  by (induction rs arbitrary: s) (simp_all add: view_emit)

lemma view_ggr_metrics: "view (ggr_metrics w p b x s) = view s"
  by (simp add: ggr_metrics_def Let_def view_emit split: option.split)

lemma view_calculate: "view (snd (calculate_ggr now a w force s)) = view s"
  by (auto simp: calculate_ggr_def Let_def view_ggr_metrics view_ggr split: option.split sum.split)

lemma view_create_policy: "view (snd (create_workspace_safety_policy now w m s)) = view s"
  using view_policies [where s = s] view_policies [where s = "ensure_default_workspace now s"]
  by (simp add: create_workspace_safety_policy_def new_id_def Let_def view_bootstrap)

lemma view_policy: "view (snd (get_workspace_safety_policy cfg now w create s)) = view s"
  using view_create_policy [of now w Balanced s]
  by (auto simp: get_workspace_safety_policy_def case_prod_unfold Let_def split: option.split)

lemma view_load: "view (snd (load_reasons now w a mode s)) = view s"
  by (simp add: load_reasons_def Let_def view_emit split: threshold_verdict.split)

lemma view_verdict: "view (snd (compute_verdict now w a i pol s)) = view s"
  using view_calculate [of now _ w False s]
  by (auto simp: compute_verdict_def Let_def view_load case_prod_unfold split: option.split sum.split)

lemma view_record: "view (record_blocked_verdict w v s) = view s"
  by (simp add: record_blocked_verdict_def view_emits)

lemma view_gate:
  assumes "evaluate_gate g cfg now w a i c r s = (v, c1, r1, s1)"
  shows "view s1 = view s"
proof (cases "is_safety_pipeline_v2_enabled s w")
  case False
  then show ?thesis using assms
    by (auto simp: evaluate_gate_def view_record split: sum.splits)
next
  case True
  obtain policy s2 where p: "get_workspace_safety_policy cfg now w True s = (policy, s2)" by fastforce
  then have s2: "view s2 = view s" by (metis view_policy snd_conv)
  have cv: "view s3 = view s2" if "compute_verdict now w a i pol s2 = (x, s3)" for pol x s3
    using view_verdict [of now w a i pol s2] that by simp
  show ?thesis using assms True p s2 cv
    by (auto simp: evaluate_gate_def Let_def view_record view_emit
        split: option.splits sum.splits prod.splits if_splits)
qed

end

end
