(* ===== verification/SendSafety.thy ===== *)
theory SendSafety
  imports CommentSender GateFrame
begin

text \<open>
  What holds of \<open>SenderService.send_attempt\<close>: when Telegram is called, what a delivered comment leaves
  behind, and what the error paths leave behind.
\<close>

section \<open>What the steps before the call leave alone\<close>

text \<open>The tables of neuro-commenting, the event log apart.\<close>

definition neuro_view where
  "neuro_view s = (db_campaigns s, db_campaign_accounts s, db_targets s, db_observed_posts s, db_comments s,
     db_attempts s, db_limits s, db_account_stats s, db_channel_rules s)"

lemma neuro_view_keeps [simp]:
  "neuro_view (emit m s) = neuro_view s"
  "neuro_view (write_event now w refs level ty msg data s) = neuro_view s"
  "neuro_view (snd (new_id s)) = neuro_view s"
  by (simp_all add: neuro_view_def emit_def write_event_view new_id_def)

interpretation neuro: gate_observer neuro_view
  by unfold_locales (simp_all add: neuro_view_def write_ggr_def bootstrap_defs Let_def emit_def split: option.split)

lemmas neuro_view_gate = neuro.view_gate

section \<open>When a comment may be sent\<close>

text \<open>The guards on the rows, the verdict of the gate, the slot, the channel rule and the limiter.\<close>

definition publishable :: "send_context \<Rightarrow> bool" where
  "publishable cx \<longleftrightarrow>
     nc_status (cx_campaign cx) = CRunning \<and> \<not> nc_dry_run (cx_campaign cx) \<and>
     gc_approval_status (cx_comment cx) = AApproved \<and> gc_safety_status (cx_comment cx) \<noteq> SBlocked \<and>
     truthy (gc_final_text (cx_comment cx)) \<and>
     (case (cx_observed_post cx, cx_target cx, cx_campaign_account cx) of
        (Some post, Some target, Some member) \<Rightarrow>
          truthy (op_discussion_message_id post) \<and> nt_status target = TActive \<and> ca_status member = CAActive \<and>
          (truthy (op_discussion_chat_id post) \<or> truthy (nt_discussion_chat_id target))
      | _ \<Rightarrow> False)"

lemma validate_send_Inr: "validate_send cx = Inr () \<longleftrightarrow> publishable cx"
  by (auto simp: validate_send_def publishable_def Let_def split: option.split)

definition gate_clears :: "('c, 'q, 'z, 'r, 't) sender_env \<Rightarrow> time \<Rightarrow> uuid \<Rightarrow> send_context \<Rightarrow>
   ('c, 'q, 'z, 'r, 't) sender_state \<Rightarrow> bool" where
  "gate_clears en now w cx st \<longleftrightarrow>
     (case cx_account_id cx of
        None \<Rightarrow> True
      | Some a \<Rightarrow> (case fst (evaluate_gate (en_gate en) (en_settings en) now w a Commenting
                           (ss_cache st) (ss_counters st) (ss_db st)) of
                    Inl e \<Rightarrow> False | Inr v \<Rightarrow> gv_severity v \<noteq> VerdictBlocked))"

definition slot_granted :: "('c, 'q, 'z, 'r, 't) sender_env \<Rightarrow> time \<Rightarrow> send_context \<Rightarrow>
   ('c, 'q, 'z, 'r, 't) sender_state \<Rightarrow> reservation option \<Rightarrow> 'z \<Rightarrow> bool" where
  "slot_granted en now cx st v z \<longleftrightarrow>
     (case (en_slots en, cx_account_id cx) of
        (Some cl, Some a) \<Rightarrow>
          (\<exists>i rv ms. reserve (en_settings en) cl i now (a, ''commenting'')
             GATE_MAX_CONCURRENT_DEFAULT GATE_RESERVE_TTL_SECONDS (ss_slots st) = (Inr rv, z, ms) \<and>
             rv_reserved rv \<and> v = Some rv)
      | _ \<Rightarrow> v = None \<and> z = ss_slots st)"

definition rule_allows :: "uuid \<Rightarrow> send_context \<Rightarrow> ('c, 'q, 'z, 'r, 't) sender_state \<Rightarrow> bool" where
  "rule_allows w cx st \<longleftrightarrow>
     (case cx_target cx of None \<Rightarrow> True | Some t \<Rightarrow> cd_allowed (evaluate_target_allowed w t False (ss_db st)))"

definition limiter_grants :: "('c, 'q, 'z, 'r, 't) sender_env \<Rightarrow> time \<Rightarrow> uuid \<Rightarrow> send_context \<Rightarrow>
   ('c, 'q, 'z, 'r, 't) sender_state \<Rightarrow> bool" where
  "limiter_grants en now w cx st \<longleftrightarrow>
     (en_require_limiter en \<longrightarrow>
        (\<exists>rl i rv r. sending_limiter en cx (ss_db st) = Inr rl \<and>
           limiter_reserve (en_redis en) rl (uuid_text i) now (send_scope w cx) (ss_limits st) = (Inr rv, r) \<and>
           rr_allowed rv))"

definition already_sent :: "comment_attempt \<Rightarrow> bool" where
  "already_sent a \<longleftrightarrow> at_status a = AtSent \<and> truthy (at_telegram_message_id a)"

definition cleared :: "('c, 'q, 'z, 'r, 't) sender_env \<Rightarrow> time \<Rightarrow> uuid \<Rightarrow> send_context \<Rightarrow>
   ('c, 'q, 'z, 'r, 't) sender_state \<Rightarrow> bool" where
  "cleared en now w cx st \<longleftrightarrow>
     \<not> already_sent (cx_attempt cx) \<and> publishable cx \<and> en_send_enabled en \<and> gate_clears en now w cx st \<and>
     (\<exists>v z. slot_granted en now cx st v z) \<and> rule_allows w cx st \<and> limiter_grants en now w cx st"

text \<open>Few operations change the rows of campaign accounts.\<close>

lemma members_same [simp]:
  "db_campaign_accounts (write_event now w refs level ty msg data s) = db_campaign_accounts s"
  "db_campaign_accounts (put_target t s) = db_campaign_accounts s"
  "db_campaign_accounts (put_attempt x s) = db_campaign_accounts s"
  "db_campaign_accounts (put_stats y s) = db_campaign_accounts s"
  "db_campaign_accounts (snd (new_id s)) = db_campaign_accounts s"
  "db_campaign_accounts (snd (stats_of c a s)) = db_campaign_accounts s"
  "db_campaign_accounts (suggest_rule now w t ty s) = db_campaign_accounts s"
  by (simp_all add: write_event_view put_target_def put_attempt_def put_stats_def stats_of_def suggest_rule_def
      target_event_def new_id_def Let_def split: option.split)

abbreviation members where "members st \<equiv> db_campaign_accounts (ss_db st)"

lemma members_of_view: "neuro_view s' = neuro_view s \<Longrightarrow> db_campaign_accounts s' = db_campaign_accounts s"
  by (simp add: neuro_view_def)

section \<open>The steps of a send\<close>

lemma take_gate_slot_passes:
  assumes "take_gate_slot en now w cx st = (Inr None, st2)"
  shows "slot_granted en now cx st (ss_reservation st2) (ss_slots st2)"
    and "neuro_view (ss_db st2) = neuro_view (ss_db st)"
    and "ss_telegram st2 = ss_telegram st" and "ss_limits st2 = ss_limits st"
  using assms
  by (auto simp: take_gate_slot_def try_gate_reserve_def slot_granted_def on_db_def new_id_def Let_def neuro_view_def
      split: option.splits prod.splits sum.splits if_splits) blast

lemma take_gate_slot_quiet:
  "take_gate_slot en now w cx st = (x, st2) \<Longrightarrow>
     ss_telegram st2 = ss_telegram st \<and> ss_limits st2 = ss_limits st \<and> members st2 = members st"
  by (auto simp: take_gate_slot_def try_gate_reserve_def on_db_def new_id_def Let_def
      split: option.splits prod.splits sum.splits if_splits)

text \<open>The gate changes its cache, its counters and the database, and no table of neuro-commenting.\<close>

lemma evaluate_commenting_gate_frame:
  assumes "evaluate_commenting_gate en now w cx st = (x, st1)"
  obtains c q s where "st1 = st\<lparr>ss_cache := c, ss_counters := q, ss_db := s\<rparr>" "neuro_view s = neuro_view (ss_db st)"
proof (cases "cx_account_id cx")
  case None
  then have "st1 = st" using assms by (simp add: evaluate_commenting_gate_def)
  then show ?thesis using that [where c = "ss_cache st" and q = "ss_counters st" and s = "ss_db st"] by simp
next
  case (Some a)
  obtain v c q s where g: "evaluate_gate (en_gate en) (en_settings en) now w a Commenting (ss_cache st)
      (ss_counters st) (ss_db st) = (v, c, q, s)" by (metis prod_cases4)
  have "st1 = st\<lparr>ss_cache := c, ss_counters := q, ss_db := s\<rparr>"
    using assms Some g by (auto simp: evaluate_commenting_gate_def Let_def split: sum.splits)
  then show ?thesis using that neuro_view_gate [OF g] by blast
qed

lemma evaluate_commenting_gate_clears:
  assumes "evaluate_commenting_gate en now w cx st = (Inr x, st1)"
    and "case x of None \<Rightarrow> True | Some v \<Rightarrow> gv_severity v \<noteq> VerdictBlocked"
  shows "gate_clears en now w cx st"
  using assms
  by (auto simp: evaluate_commenting_gate_def gate_clears_def Let_def split: option.splits prod.splits sum.splits)

lemma slot_granted_frame:
  "slot_granted en now cx (st\<lparr>ss_cache := c, ss_counters := q, ss_db := s\<rparr>) v z = slot_granted en now cx st v z"
  by (simp add: slot_granted_def split: option.split)

lemma block_by_safety_gate_passes:
  assumes "block_by_safety_gate en now w cx st = (Inr None, st2)"
  shows "gate_clears en now w cx st"
    and "slot_granted en now cx st (ss_reservation st2) (ss_slots st2)"
    and "neuro_view (ss_db st2) = neuro_view (ss_db st)"
    and "ss_telegram st2 = ss_telegram st" and "ss_limits st2 = ss_limits st"
proof -
  obtain x st1 where g: "evaluate_commenting_gate en now w cx st = (Inr x, st1)"
    and t: "take_gate_slot en now w cx st1 = (Inr None, st2)"
    and clear: "case x of None \<Rightarrow> True | Some v \<Rightarrow> gv_severity v \<noteq> VerdictBlocked"
    using assms by (auto simp: block_by_safety_gate_def Let_def
        split: prod.splits sum.splits option.splits if_splits)
  obtain c q s where st1: "st1 = st\<lparr>ss_cache := c, ss_counters := q, ss_db := s\<rparr>"
    "neuro_view s = neuro_view (ss_db st)" using evaluate_commenting_gate_frame [OF g] .
  note passes = take_gate_slot_passes [OF t]
  show "gate_clears en now w cx st" using evaluate_commenting_gate_clears [OF g clear] .
  show "slot_granted en now cx st (ss_reservation st2) (ss_slots st2)"
    using passes(1) by (simp add: st1 slot_granted_frame)
  show "neuro_view (ss_db st2) = neuro_view (ss_db st)" using passes(2) st1 by simp
  show "ss_telegram st2 = ss_telegram st" and "ss_limits st2 = ss_limits st" using passes(3,4) st1 by simp_all
qed

lemma block_by_safety_gate_quiet:
  assumes "block_by_safety_gate en now w cx st = (x, st2)"
  shows "ss_telegram st2 = ss_telegram st \<and> ss_limits st2 = ss_limits st \<and> members st2 = members st"
proof -
  obtain y st1 where g: "evaluate_commenting_gate en now w cx st = (y, st1)" by fastforce
  then obtain c q s where "st1 = st\<lparr>ss_cache := c, ss_counters := q, ss_db := s\<rparr>"
    and "db_campaign_accounts s = members st"
    using evaluate_commenting_gate_frame members_of_view by metis
  then show ?thesis using assms g
    by (auto simp: block_by_safety_gate_def on_db_def Let_def
        split: sum.splits option.splits if_splits dest!: take_gate_slot_quiet)
qed

lemma neuro_view_lookups:
  assumes "neuro_view s' = neuro_view s"
  shows "evaluate_target_allowed w t b s' = evaluate_target_allowed w t b s"
    and "require_campaign c w s' = require_campaign c w s"
    and "resolve_effective_limits ls c w s' = resolve_effective_limits ls c w s"
    and "require_attempt_for_workspace i w s' = require_attempt_for_workspace i w s"
    and "require_generated_comment g w s' = require_generated_comment g w s"
    and "get_observed_post p c s' = get_observed_post p c s"
    and "get_target t' c s' = get_target t' c s"
    and "get_campaign_account c a s' = get_campaign_account c a s"
    and "workspace_target t' w s' = workspace_target t' w s"
  using assms
  by (simp_all add: neuro_view_def evaluate_target_allowed_def find_rule_def resolve_effective_limits_def
      require_campaign_def get_campaign_def require_attempt_for_workspace_def get_attempt_for_workspace_def
      require_generated_comment_def get_generated_comment_def campaign_in_workspace_def get_observed_post_def
      get_target_def get_campaign_account_def workspace_target_def)

lemma neuro_view_queries:
  assumes "neuro_view s' = neuro_view s"
  shows "sending_limiter en cx s' = sending_limiter en cx s" and "load_context i w s' = load_context i w s"
  unfolding sending_limiter_def limiter_for_send_def load_context_def target_or_none_def
    campaign_account_or_none_def neuro_view_lookups [OF assms]
  by (rule refl)+

lemma block_by_channel_rule_passes:
  "block_by_channel_rule now w cx st = (None, st') \<Longrightarrow> st' = st \<and> rule_allows w cx st"
  by (auto simp: block_by_channel_rule_def rule_allows_def Let_def split: option.splits if_splits)

lemma block_by_channel_rule_quiet:
  "block_by_channel_rule now w cx st = (x, st') \<Longrightarrow>
     ss_telegram st' = ss_telegram st \<and> ss_slots st' = ss_slots st \<and> ss_reservation st' = ss_reservation st \<and>
     members st' = members st"
  by (auto simp: block_by_channel_rule_def on_db_def Let_def split: option.splits if_splits)

lemma reserve_for_attempt_quiet:
  "reserve_for_attempt en now w cx st = (x, st') \<Longrightarrow>
     ss_telegram st' = ss_telegram st \<and> ss_slots st' = ss_slots st \<and> ss_reservation st' = ss_reservation st \<and>
     members st' = members st"
  by (auto simp: reserve_for_attempt_def on_db_def new_id_def Let_def
      split: sum.splits if_splits prod.splits)

text \<open>A reservation that lets the send go on: granted, or not asked for.\<close>

definition denied :: "rate_limit_reservation option \<Rightarrow> comment_attempt \<Rightarrow> bool" where
  "denied v a \<longleftrightarrow> v = None \<and> at_status a = AtSkipped \<and> at_error_code a = Some ''RATE_LIMIT_DENIED''"

lemma reserve_for_attempt_passes:
  assumes "reserve_for_attempt en now w cx st = (Inr (v, a), st')" and "\<not> denied v a"
  shows "a = cx_attempt cx" and "limiter_grants en now w cx st"
    and "neuro_view (ss_db st') = neuro_view (ss_db st)"
proof -
  have "a = cx_attempt cx \<and> limiter_grants en now w cx st \<and> neuro_view (ss_db st') = neuro_view (ss_db st)"
  proof (cases "en_require_limiter en")
    case False
    then show ?thesis using assms(1) by (simp add: reserve_for_attempt_def limiter_grants_def)
  next
    case True
    then obtain rl rv r where l: "sending_limiter en cx (ss_db st) = Inr rl"
      "limiter_reserve (en_redis en) rl (uuid_text (db_next_id (ss_db st))) now (send_scope w cx) (ss_limits st)
         = (Inr rv, r)" "rr_allowed rv"
      using assms
      by (auto simp: reserve_for_attempt_def new_id_def Let_def denied_def skip_attempt_def
          split: sum.splits prod.splits if_splits)
    then have "limiter_grants en now w cx st" unfolding limiter_grants_def by blast
    then show ?thesis using assms(1) True l
      by (auto simp: reserve_for_attempt_def new_id_def Let_def on_db_def neuro_view_def write_event_view)
  qed
  then show "a = cx_attempt cx" and "limiter_grants en now w cx st"
    and "neuro_view (ss_db st') = neuro_view (ss_db st)" by simp_all
qed

lemma reserve_idempotency_key_quiet:
  "reserve_idempotency_key en now k i st = (x, st') \<Longrightarrow> \<exists>r. st' = st\<lparr>ss_limits := r\<rparr>"
  by (auto simp: reserve_idempotency_key_def Let_def split: prod.splits sum.splits if_splits)
    (metis sender_state.surjective sender_state.update_convs(5))

section \<open>What a delivery leaves behind\<close>

text \<open>The health services leave campaigns and attempts alone.\<close>

definition attempt_view where
  "attempt_view s = (db_campaigns s, db_attempts s)"

lemma attempt_view_keeps [simp]:
  "attempt_view (write_event now w refs level ty msg data s) = attempt_view s"
  "attempt_view (put_target t s) = attempt_view s"
  "attempt_view (put_campaign_account m s) = attempt_view s"
  "attempt_view (put_stats x s) = attempt_view s"
  "attempt_view (snd (stats_of c a s)) = attempt_view s"
  "attempt_view (suggest_rule now w t ty s) = attempt_view s"
  "attempt_view (s\<lparr>db_targets := ts\<rparr>) = attempt_view s"
  by (simp_all add: attempt_view_def write_event_view put_target_def put_campaign_account_def put_stats_def
      stats_of_def suggest_rule_def target_event_def new_id_def Let_def split: option.split)

lemma attempt_view_targets [simp]:
  "attempt_view (snd (record_target f now w t s)) = attempt_view s"
  "attempt_view (snd (suggest_rules_for_target now w t s)) = attempt_view s"
  by (auto simp: record_target_def suggest_rules_for_target_def target_event_def Let_def split: sum.split)

lemma attempt_view_accounts [simp]:
  "attempt_view (snd (record_account_send_success now c a w s)) = attempt_view s"
  "attempt_view (snd (record_account_send_failure now c a w code s)) = attempt_view s"
  "attempt_view (snd (record_account_flood_wait now c a w secs s)) = attempt_view s"
  using attempt_view_keeps(5)
  by (auto simp: record_account_send_success_def record_account_send_failure_def record_account_flood_wait_def
      Let_def case_prod_unfold split: sum.split)

lemma attempt_view_then:
  assumes "attempt_view (snd x) = attempt_view s" and "\<And>s'. attempt_view (snd (f s')) = attempt_view s'"
  shows "attempt_view (snd (res_then x f)) = attempt_view s"
  using assms by (auto simp: res_then_def split: prod.split sum.split)

lemma attempt_view_suggested:
  assumes "attempt_view (snd x) = attempt_view s"
  shows "attempt_view (snd (res_then x (suggest_rules_for_target now w t))) = attempt_view s"
  using assms by (rule attempt_view_then) simp

lemma attempt_view_success: "attempt_view (snd (record_attempt_success now cx s)) = attempt_view s"
proof -
  have "attempt_view (snd (case t of None \<Rightarrow> (Inr (), s') | Some i \<Rightarrow>
      res_then (record_target_success now w i s') (suggest_rules_for_target now w i))) = attempt_view s'" for t w s'
    by (cases t) (simp_all add: record_target_success_def attempt_view_suggested)
  then show ?thesis
    unfolding record_attempt_success_def Let_def
    by (intro attempt_view_then) (auto split: option.split)
qed

lemma find_put:
  assumes "find P xs = Some a" and "P row" and "\<And>r. P r \<Longrightarrow> Q r"
  shows "find P (update_where Q (\<lambda>_. row) xs) = Some row"
  using assms(1) by (induction xs) (simp_all add: assms(2,3) split: if_splits)

lemma put_attempt_found:
  assumes "require_attempt_for_workspace i w s = Inr a" and "at_id row = at_id a"
    and "at_campaign_id row = at_campaign_id a" and "attempt_view s' = attempt_view (put_attempt row s)"
  shows "require_attempt_for_workspace i w s' = Inr row"
proof -
  have found: "find (\<lambda>r. at_id r = i \<and> campaign_in_workspace (at_campaign_id r) w s) (db_attempts s) = Some a"
    using assms(1) by (auto simp: require_attempt_for_workspace_def get_attempt_for_workspace_def split: option.splits)
  from find_put [OF found] have "find (\<lambda>r. at_id r = i \<and> campaign_in_workspace (at_campaign_id r) w s)
      (update_where (\<lambda>r. at_id r = at_id row) (\<lambda>_. row) (db_attempts s)) = Some row"
    using find_mem [OF found] assms(2,3) by auto
  then show ?thesis using assms(4)
    by (auto simp: require_attempt_for_workspace_def get_attempt_for_workspace_def attempt_view_def
        put_attempt_def campaign_in_workspace_def)
qed

text \<open>The rows the health services look up are there, so they do not fail.\<close>

definition rows_present :: "uuid \<Rightarrow> uuid \<Rightarrow> uuid \<Rightarrow> uuid \<Rightarrow> db \<Rightarrow> bool" where
  "rows_present c w a t s \<longleftrightarrow>
     (\<exists>k. require_campaign c w s = Inr k) \<and> get_campaign_account c a s \<noteq> None \<and> (\<exists>r. workspace_target t w s = Inr r)"

definition target_view where
  "target_view s = (db_campaigns s, db_targets s)"

lemma target_view_keeps [simp]:
  "target_view (write_event now w refs level ty msg data s) = target_view s"
  "target_view (put_attempt x s) = target_view s"
  "target_view (put_campaign_account m s) = target_view s"
  "target_view (put_stats y s) = target_view s"
  "target_view (snd (stats_of c a s)) = target_view s"
  "target_view (suggest_rule now w t ty s) = target_view s"
  by (simp_all add: target_view_def write_event_view put_attempt_def put_campaign_account_def put_stats_def
      stats_of_def suggest_rule_def target_event_def new_id_def Let_def split: option.split)

lemma target_view_accounts [simp]:
  "target_view (snd (record_account_send_success now c a w s)) = target_view s"
  "target_view (snd (record_account_send_failure now c a w code s)) = target_view s"
  "target_view (snd (record_account_flood_wait now c a w secs s)) = target_view s"
  using target_view_keeps(5)
  by (auto simp: record_account_send_success_def record_account_send_failure_def record_account_flood_wait_def
      Let_def case_prod_unfold split: sum.split)

lemma workspace_target_view:
  "target_view s' = target_view s \<Longrightarrow> workspace_target t w s' = workspace_target t w s"
  by (simp add: target_view_def workspace_target_def campaign_in_workspace_def)

lemma record_target_found:
  assumes "workspace_target t w s = Inr r" and "nt_id (f r) = nt_id r" and "nt_campaign_id (f r) = nt_campaign_id r"
  shows "fst (record_target f now w t s) = Inr ()" and "workspace_target t w (snd (record_target f now w t s)) = Inr (f r)"
proof -
  show "fst (record_target f now w t s) = Inr ()" using assms(1) by (simp add: record_target_def)
  have found: "find (\<lambda>r. nt_id r = t \<and> campaign_in_workspace (nt_campaign_id r) w s) (db_targets s) = Some r"
    using assms(1) by (auto simp: workspace_target_def split: option.splits)
  then have id: "nt_id r = t" "campaign_in_workspace (nt_campaign_id r) w s" using find_mem by fast+
  have "find (\<lambda>r. nt_id r = t \<and> campaign_in_workspace (nt_campaign_id r) w s)
      (update_where (\<lambda>x. nt_id x = t) (\<lambda>_. f r) (db_targets s)) = Some (f r)"
    using find_put [OF found] id assms(2,3) by simp
  then have "workspace_target t w (put_target (f r) s) = Inr (f r)"
    using id assms(2) by (simp add: workspace_target_def put_target_def campaign_in_workspace_def)
  then show "workspace_target t w (snd (record_target f now w t s)) = Inr (f r)"
    using assms(1) workspace_target_view [of "snd (record_target f now w t s)" "put_target (f r) s"]
    by (simp add: record_target_def target_event_def)
qed

lemma suggest_found: "workspace_target t w s = Inr r \<Longrightarrow> fst (suggest_rules_for_target now w t s) = Inr ()"
  by (simp add: suggest_rules_for_target_def Let_def)

lemma record_account_found:
  assumes "require_campaign c w s = Inr k" and "get_campaign_account c a s = Some m"
  shows "fst (record_account_send_success now c a w s) = Inr ()"
    and "fst (record_account_send_failure now c a w code s) = Inr ()"
    and "fst (record_account_flood_wait now c a w secs s) = Inr ()"
  using assms
  by (simp_all add: record_account_send_success_def record_account_send_failure_def record_account_flood_wait_def
      campaign_account_of_def Let_def case_prod_unfold)

lemma res_then_ok:
  "fst x = Inr () \<Longrightarrow> fst (res_then x f) = fst (f (snd x))"
  "fst x = Inr () \<Longrightarrow> snd (res_then x f) = snd (f (snd x))"
  by (auto simp: res_then_def split: prod.splits)

lemma rows_present_put_attempt [simp]:
  "rows_present c w a t (put_attempt x s) = rows_present c w a t s"
  by (simp add: rows_present_def put_attempt_def require_campaign_def get_campaign_def get_campaign_account_def
      workspace_target_def campaign_in_workspace_def)

lemma target_outcome_ok:
  assumes "workspace_target t w s = Inr r" and "\<And>x. nt_id (f x) = nt_id x \<and> nt_campaign_id (f x) = nt_campaign_id x"
  shows "fst (res_then (record_target f now w t s) (suggest_rules_for_target now w t)) = Inr ()"
  using record_target_found [of t w s r f now] assms suggest_found by (simp add: res_then_ok)

lemma record_attempt_success_ok:
  assumes "rows_present (nc_id (cx_campaign cx)) (nc_workspace_id (cx_campaign cx)) a t s"
    and "cx_account_id cx = Some a" and "cx_target_id cx = Some t"
  shows "fst (record_attempt_success now cx s) = Inr ()"
proof -
  let ?c = "nc_id (cx_campaign cx)" and ?w = "nc_workspace_id (cx_campaign cx)"
  let ?s1 = "snd (record_account_send_success now ?c a ?w s)"
  obtain r where "workspace_target t ?w s = Inr r" using assms(1) by (auto simp: rows_present_def)
  then have "workspace_target t ?w ?s1 = Inr r" using workspace_target_view [of ?s1 s] by simp
  then show ?thesis
    using assms record_account_found(1) [of ?c ?w s _ a]
    by (auto simp: record_attempt_success_def Let_def res_then_ok rows_present_def record_target_success_def
        on_target_success_def intro!: target_outcome_ok)
qed

lemma sent_attempt_fields [simp]:
  "at_id (sent_attempt m d x) = at_id x" "at_campaign_id (sent_attempt m d x) = at_campaign_id x"
  "at_status (sent_attempt m d x) = AtSent" "at_telegram_message_id (sent_attempt m d x) = Some m"
  "at_sent_at (sent_attempt m d x) = Some d"
  by (simp_all add: sent_attempt_def)

text \<open>An attempt of the database that is being sent, as \<open>send_attempt\<close> has it when it calls Telegram.\<close>

definition sending :: "uuid \<Rightarrow> uuid \<Rightarrow> send_context \<Rightarrow> db \<Rightarrow> bool" where
  "sending i w cx s \<longleftrightarrow>
     nc_workspace_id (cx_campaign cx) = w \<and> at_campaign_id (cx_attempt cx) = nc_id (cx_campaign cx) \<and>
     cx_target cx \<noteq> None \<and>
     (\<exists>a t. at_account_id (cx_attempt cx) = Some a \<and> at_target_id (cx_attempt cx) = Some t \<and>
        rows_present (nc_id (cx_campaign cx)) w a t s) \<and>
     (\<exists>x. require_attempt_for_workspace i w s = Inr x \<and> at_id (cx_attempt cx) = at_id x \<and>
        at_campaign_id (cx_attempt cx) = at_campaign_id x)"

lemma mark_attempt_sent_spec:
  assumes "sending i w cx s"
  obtains s' where "mark_attempt_sent now w cx m d idem s = (Inr (sent_attempt m d (cx_attempt cx)), s')"
    and "require_attempt_for_workspace i w s' = Inr (sent_attempt m d (cx_attempt cx))"
proof -
  let ?row = "sent_attempt m d (cx_attempt cx)"
  let ?s1 = "put_attempt ?row s"
  obtain a t target x where p: "nc_workspace_id (cx_campaign cx) = w" "at_account_id (cx_attempt cx) = Some a"
    "at_target_id (cx_attempt cx) = Some t" "rows_present (nc_id (cx_campaign cx)) w a t s" "cx_target cx = Some target"
    and x: "require_attempt_for_workspace i w s = Inr x" "at_id (cx_attempt cx) = at_id x"
      "at_campaign_id (cx_attempt cx) = at_campaign_id x"
    using assms unfolding sending_def by blast
  have ok: "fst (record_attempt_success now cx ?s1) = Inr ()"
    using p by (intro record_attempt_success_ok [where a = a and t = t])
      (simp_all add: cx_account_id_def cx_target_id_def opt_or_def)
  obtain s2 where s2: "record_attempt_success now cx ?s1 = (Inr (), s2)" using ok by (cases "record_attempt_success now cx ?s1") simp
  have keep: "attempt_view s2 = attempt_view ?s1" using attempt_view_success [of now cx ?s1] s2 by simp
  obtain s' where s': "mark_attempt_sent now w cx m d idem s = (Inr ?row, s')" "attempt_view s' = attempt_view s2"
    by (simp add: mark_attempt_sent_def Let_def s2 p(5))
  then show ?thesis using that put_attempt_found [OF x(1), of ?row s'] x keep by simp
qed

text \<open>What the outcome of the call makes of the attempt and of the result.\<close>

fun recorded :: "send_outcome \<Rightarrow> comment_attempt \<Rightarrow> comment_attempt result \<Rightarrow> bool" where
  "recorded (Delivered m d) row x \<longleftrightarrow>
     x = Inr row \<and> at_status row = AtSent \<and> at_telegram_message_id row = Some m \<and> at_sent_at row = Some d"
| "recorded (SendError code msg flood) row x \<longleftrightarrow>
     x = Inr row \<and> at_status row = (if code = ''FLOOD_WAIT'' then AtFloodWait else AtFailed) \<and>
     at_error_code row = Some code \<and> at_failed_at row \<noteq> None"
| "recorded (Unexpected ty msg) row x \<longleftrightarrow>
     x = Inl (RuntimeError (ty @ '': '' @ msg)) \<and> at_status row = AtFailed \<and>
     at_error_code row = Some ''sender_unexpected_error'' \<and> at_failed_at row \<noteq> None"

lemma mark_unexpected_error_spec:
  assumes "sending i w cx s"
  shows "\<exists>row. require_attempt_for_workspace i w (mark_unexpected_error now w cx ty msg s) = Inr row \<and>
    recorded (Unexpected ty msg) row (Inl (RuntimeError (ty @ '': '' @ msg)))"
proof -
  obtain x where x: "require_attempt_for_workspace i w s = Inr x" "at_id (cx_attempt cx) = at_id x"
      "at_campaign_id (cx_attempt cx) = at_campaign_id x"
    using assms unfolding sending_def by blast
  show ?thesis
    using put_attempt_found [OF x(1), where s' = "mark_unexpected_error now w cx ty msg s" and
        row = "(cx_attempt cx)\<lparr>at_status := AtFailed, at_failed_at := Some now,
          at_error_code := Some ''sender_unexpected_error'',
          at_error_message := Some (take 300 (ty @ '': '' @ msg))\<rparr>"] x(2,3)
    by (auto simp: mark_unexpected_error_def)
qed

lemma failed_attempt_fields [simp]:
  "at_id (failed_attempt now code msg flood x) = at_id x"
  "at_campaign_id (failed_attempt now code msg flood x) = at_campaign_id x"
  "at_account_id (failed_attempt now code msg flood x) = at_account_id x"
  "at_target_id (failed_attempt now code msg flood x) = at_target_id x"
  by (simp_all add: failed_attempt_def Let_def)

lemma attempt_view_error:
  "attempt_view (snd (account_after_error now w row code flood s)) = attempt_view s"
  "attempt_view (snd (target_after_error now w row code s)) = attempt_view s"
  by (simp_all add: account_after_error_def target_after_error_def Let_def record_target_flood_wait_def
      record_target_failure_def attempt_view_suggested split: option.split)

lemma get_campaign_account_Some:
  "get_campaign_account c a s = Some m \<Longrightarrow>
     m \<in> set (db_campaign_accounts s) \<and> ca_campaign_id m = c \<and> ca_account_id m = a"
  by (auto simp: get_campaign_account_def dest: find_mem)

lemma campaign_account_or_none_Some:
  "campaign_account_or_none c a s = Some m \<Longrightarrow> a = Some (ca_account_id m) \<and> get_campaign_account c (ca_account_id m) s = Some m"
  by (auto simp: campaign_account_or_none_def split: option.splits dest: get_campaign_account_Some)

lemma member_still_there:
  assumes "get_campaign_account c a s = Some m" and "ca_id m' = ca_id m" "ca_campaign_id m' = c" "ca_account_id m' = a"
  shows "\<exists>m2. get_campaign_account c a (put_campaign_account m' s) = Some m2"
proof -
  have "m \<in> set (db_campaign_accounts s)" using get_campaign_account_Some [OF assms(1)] by simp
  then have "m' \<in> set (update_where (\<lambda>r. ca_id r = ca_id m') (\<lambda>_. m') (db_campaign_accounts s))"
    using assms(2) by (auto simp: in_set_update_where)
  then show ?thesis using assms(3,4)
    by (fastforce simp: get_campaign_account_def put_campaign_account_def find_none_iff simp flip: not_None_eq)
qed

lemma account_after_error_ok:
  assumes "require_campaign (at_campaign_id row) w s = Inr k"
  shows "fst (account_after_error now w row code flood s) = Inr ()"
    and "target_view (snd (account_after_error now w row code flood s)) = target_view s"
proof -
  let ?c = "at_campaign_id row"
  show "target_view (snd (account_after_error now w row code flood s)) = target_view s"
    by (simp add: account_after_error_def Let_def split: option.split)
  have "fst (account_after_error now w row code flood s) = Inr ()"
    if m: "campaign_account_or_none ?c (at_account_id row) s = Some m" for m
  proof -
    have g: "get_campaign_account ?c (ca_account_id m) s = Some m"
      using campaign_account_or_none_Some [OF m] by simp
    have "ca_campaign_id m = ?c" using get_campaign_account_Some [OF g] by simp
    then have "\<exists>m2. get_campaign_account ?c (ca_account_id m)
        (put_campaign_account (m\<lparr>ca_cooldown_until := Some u\<rparr>) s) = Some m2" for u
      using member_still_there [OF g, of "m\<lparr>ca_cooldown_until := Some u\<rparr>"] by simp
    moreover have "require_campaign ?c w (put_campaign_account x s) = Inr k" for x
      using assms by (simp add: require_campaign_def get_campaign_def put_campaign_account_def)
    ultimately have "fst (record_account_flood_wait now ?c (ca_account_id m) w secs
        (put_campaign_account (m\<lparr>ca_cooldown_until := Some u\<rparr>) s)) = Inr ()" for secs u
      using record_account_found(3) by blast
    then show ?thesis
      using record_account_found(2) [OF assms g] by (simp add: account_after_error_def Let_def m split: option.split)
  qed
  then show "fst (account_after_error now w row code flood s) = Inr ()"
    by (cases "campaign_account_or_none ?c (at_account_id row) s") (simp_all add: account_after_error_def)
qed

lemma target_after_error_ok:
  assumes "at_target_id row = Some t" and "workspace_target t w s = Inr r"
  shows "fst (target_after_error now w row code s) = Inr ()"
  using target_outcome_ok [OF assms(2)]
  by (simp add: target_after_error_def assms(1) record_target_flood_wait_def record_target_failure_def
      on_target_flood_wait_def on_target_failure_def)

lemma mark_send_error_spec:
  assumes "sending i w cx s"
  obtains row s' where "mark_send_error now w (cx_attempt cx) code msg flood s = (Inr row, s')"
    and "require_attempt_for_workspace i w s' = Inr row" and "recorded (SendError code msg flood) row (Inr row)"
proof -
  let ?at = "cx_attempt cx" and ?c = "nc_id (cx_campaign cx)"
  let ?row = "failed_attempt now code msg flood ?at"
  let ?s1 = "put_attempt ?row s"
  obtain a t where p: "at_campaign_id ?at = ?c" "at_target_id ?at = Some t" "rows_present ?c w a t s"
    using assms unfolding sending_def by blast
  obtain x where x: "require_attempt_for_workspace i w s = Inr x" "at_id ?at = at_id x"
      "at_campaign_id ?at = at_campaign_id x"
    using assms unfolding sending_def by blast
  have "rows_present ?c w a t ?s1" using p(3) by simp
  then obtain k r where k: "require_campaign ?c w ?s1 = Inr k" "workspace_target t w ?s1 = Inr r"
    unfolding rows_present_def by blast
  obtain s2 where s2: "account_after_error now w ?row code flood ?s1 = (Inr (), s2)"
    using account_after_error_ok(1) [of ?row w ?s1 k now code flood] k(1) p(1)
    by (cases "account_after_error now w ?row code flood ?s1") simp
  have "workspace_target t w s2 = Inr r"
    using workspace_target_view [of s2 ?s1] account_after_error_ok(2) [of ?row w ?s1 k now code flood] k p(1) s2
    by simp
  then obtain s3 where s3: "target_after_error now w ?row code s2 = (Inr (), s3)"
    using target_after_error_ok [of ?row t w s2 r now code] p(2)
    by (cases "target_after_error now w ?row code s2") simp
  have "attempt_view s3 = attempt_view ?s1"
    using attempt_view_error(1) [of now w ?row code flood ?s1] attempt_view_error(2) [of now w ?row code s2] s2 s3
    by simp
  moreover obtain s' where s': "mark_send_error now w ?at code msg flood s = (Inr ?row, s')" "attempt_view s' = attempt_view s3"
    by (simp add: mark_send_error_def Let_def s2 s3 res_then_def)
  ultimately have "require_attempt_for_workspace i w s' = Inr ?row"
    using put_attempt_found [OF x(1), of ?row s'] x(2,3) by simp
  moreover have "recorded (SendError code msg flood) ?row (Inr ?row)" by (simp add: failed_attempt_def Let_def)
  ultimately show thesis using that s'(1) by blast
qed

text \<open>
  Once Telegram is called the attempt is settled: whatever the outcome, its row says what became of it,
  and the slot of the call is no longer held.
\<close>

lemma sending_view:
  assumes "neuro_view s' = neuro_view s"
  shows "sending i w cx s' = sending i w cx s"
  unfolding sending_def rows_present_def neuro_view_lookups [OF assms] by (rule refl)

lemma release_gate_frame [simp]:
  "ss_db (release_gate_reservation en now st) = ss_db st"
  "ss_telegram (release_gate_reservation en now st) = ss_telegram st"
  by (simp_all add: release_gate_reservation_def Let_def case_prod_unfold split: option.split)

lemma settle_frame [simp]:
  "ss_db (commit_reservation en now v st) = ss_db st" "ss_db (rollback_reservation en now v st) = ss_db st"
  "ss_telegram (commit_reservation en now v st) = ss_telegram st"
  "ss_telegram (rollback_reservation en now v st) = ss_telegram st"
  by (simp_all add: commit_reservation_def rollback_reservation_def split: option.split)

definition slot_held :: "('c, 'q, 'z, 'r, 't) sender_state \<Rightarrow> bool" where
  "slot_held st \<longleftrightarrow> (case ss_reservation st of None \<Rightarrow> False | Some v \<Rightarrow> rv_reserved v)"

lemma slot_held_frame [simp]:
  "\<not> slot_held (release_gate_reservation en now st)"
  "slot_held (st\<lparr>ss_db := s\<rparr>) = slot_held st" "slot_held (on_db f st) = slot_held st"
  "slot_held (commit_reservation en now v st) = slot_held st"
  by (simp_all add: slot_held_def release_gate_reservation_def on_db_def commit_reservation_def Let_def case_prod_unfold
      split: option.split)

text \<open>
  What the call leaves in the sorted sets: releasing twice is releasing once, and no other step of a
  delivery touches them.
\<close>

lemma release_slots_cong:
  "ss_slots st' = ss_slots st \<Longrightarrow> ss_reservation st' = ss_reservation st \<Longrightarrow>
     ss_slots (release_gate_reservation en now st') = ss_slots (release_gate_reservation en now st) \<and>
     ss_reservation (release_gate_reservation en now st') = ss_reservation (release_gate_reservation en now st)"
  by (simp add: release_gate_reservation_def Let_def case_prod_unfold split: option.split)

lemma release_without_slot:
  "\<not> slot_held st \<Longrightarrow> release_gate_reservation en now st = st"
  by (cases "ss_reservation st") (simp_all add: slot_held_def release_gate_reservation_def)

lemma settle_slots [simp]:
  "ss_slots (commit_reservation en now v st) = ss_slots st" "ss_slots (rollback_reservation en now v st) = ss_slots st"
  "ss_reservation (commit_reservation en now v st) = ss_reservation st"
  "ss_reservation (rollback_reservation en now v st) = ss_reservation st"
  by (simp_all add: commit_reservation_def rollback_reservation_def split: option.split)

lemma deliver_slots:
  "ss_slots (snd (deliver en now w cx idem v st)) = ss_slots (release_gate_reservation en now st)"
proof -
  define st1 where "st1 = on_db (write_event now w (cx_refs cx) ''info'' ''comment_send_started''
    ''manual neuro-comment send started'' [(''idempotency_key'', JInt (int idem))]) st"
  obtain outcome t where o: "en_send en (send_request_of en cx idem) (ss_telegram st1) = (outcome, t)" by fastforce
  let ?st2 = "st1\<lparr>ss_telegram := t\<rparr>"
  have same: "ss_slots (release_gate_reservation en now u) = ss_slots (release_gate_reservation en now st)"
    if "ss_slots u = ss_slots st" "ss_reservation u = ss_reservation st" for u
    using release_slots_cong [OF that] by simp
  have st2: "ss_slots ?st2 = ss_slots st" "ss_reservation ?st2 = ss_reservation st"
    by (simp_all add: st1_def on_db_def)
  show ?thesis
  proof (cases outcome)
    case (Delivered m d)
    let ?st3 = "commit_reservation en now v (release_gate_reservation en now ?st2)"
    obtain x s where m: "mark_attempt_sent now w cx m d idem (ss_db ?st3) = (x, s)" by fastforce
    have "\<not> slot_held (?st3\<lparr>ss_db := s\<rparr>)" by simp
    then have "release_gate_reservation en now (?st3\<lparr>ss_db := s\<rparr>) = ?st3\<lparr>ss_db := s\<rparr>" by (rule release_without_slot)
    moreover have "ss_slots (?st3\<lparr>ss_db := s\<rparr>) = ss_slots (release_gate_reservation en now st)"
      using same [OF st2] by simp
    moreover have "snd (deliver en now w cx idem v st) =
        (case x of Inl e \<Rightarrow> ?st3\<lparr>ss_db := s\<rparr> | Inr row \<Rightarrow> release_gate_reservation en now (?st3\<lparr>ss_db := s\<rparr>))"
      using o Delivered m by (simp add: deliver_def st1_def Let_def split: sum.split)
    ultimately show ?thesis by (simp split: sum.split)
  next
    case (SendError code msg flood)
    let ?st3 = "release_gate_reservation en now (rollback_reservation en now v ?st2)"
    obtain x s where m: "mark_send_error now w (cx_attempt cx) code msg flood (ss_db ?st3) = (x, s)" by fastforce
    have "snd (deliver en now w cx idem v st) = ?st3\<lparr>ss_db := s\<rparr>"
      unfolding deliver_def Let_def st1_def [symmetric] o SendError prod.case send_outcome.case m snd_conv by (rule refl)
    then show ?thesis using same [of "rollback_reservation en now v ?st2"] st2 by simp
  next
    case (Unexpected ty msg)
    let ?st3 = "release_gate_reservation en now (rollback_reservation en now v ?st2)"
    have "snd (deliver en now w cx idem v st) = on_db (mark_unexpected_error now w cx ty msg) ?st3"
      unfolding deliver_def Let_def st1_def [symmetric] o Unexpected prod.case send_outcome.case snd_conv by (rule refl)
    then show ?thesis using same [of "rollback_reservation en now v ?st2"] st2 by (simp add: on_db_def)
  qed
qed

text \<open>
  \<open>slots_given_back en now z z'\<close>: between \<open>z\<close> and \<open>z'\<close> no holder of a slot was added. Without a Redis
  client the sorted sets are untouched; with one whose commands do what Redis documents and whose scripts
  run, whoever holds a slot from now on held the same one before, and of those whose lease had not run
  out all but one identifier (that of the call) hold it still.
\<close>

definition slots_given_back :: "('c, 'q, 'z, 'r, 't) sender_env \<Rightarrow> time \<Rightarrow> 'z \<Rightarrow> 'z \<Rightarrow> bool" where
  "slots_given_back en now z z' \<longleftrightarrow>
     (case en_slots en of
        None \<Rightarrow> z' = z
      | Some cl \<Rightarrow>
          (\<forall>view. zset_ok cl view \<and> zset_up cl \<longrightarrow>
             (\<forall>t k i. now \<le> t \<longrightarrow> view z' t k i \<in> {None, view z t k i, view z now k i}) \<and>
             (\<exists>j. \<forall>k i. i \<noteq> j \<longrightarrow> above (now - seconds GATE_RESERVE_TTL_SECONDS) (view z' now k) i =
                                 above (now - seconds GATE_RESERVE_TTL_SECONDS) (view z now k) i)))"

lemma above_cases: "above b m i \<in> {None, m i}"
  by (simp add: above_def split: option.split)

text \<open>A granted reservation and its release leave nothing behind.\<close>

lemma reserve_then_release:
  assumes ok: "zset_ok cl view" and up: "zset_up cl" and ttl: "0 < ttl"
    and res: "reserve cfg cl i now k m ttl z = (Inr rv, z1, ms)" and granted: "rv_reserved rv"
    and rel: "release cl now rv z1 = (b, z2, ms')"
  shows "now \<le> t \<Longrightarrow> view z2 t k' j \<in> {None, view z t k' j, view z now k' j}"
    and "j \<noteq> i \<Longrightarrow> above (now - seconds ttl) (view z2 now k') j = above (now - seconds ttl) (view z now k') j"
proof -
  obtain xs r1 where ev: "zc_eval cl (reserve_lua cl k now ttl m i) now z = (Inr xs, r1)"
    using up unfolding zset_up_def by blast
  let ?r0 = "zc_zremrangebyscore cl k (now - seconds ttl) now z"
  let ?r2 = "zc_zadd cl k now i now ?r0"
  let ?r3 = "zc_expire cl k (ttl * 2) now ?r2"
  have lua: "reserve_lua cl k now ttl m i z = (xs, r1)" by (rule zeval [OF ok ev])
  have z1: "z1 = ?r3" and rv: "rv_reservation_id rv = i" "(rv_account_id rv, rv_intent rv) = k" "\<not> rv_degraded rv"
    using res granted lua ev by (auto simp: reserve_def reserve_lua_def reservation_of_def Let_def split: if_splits)
  obtain ys r4 where ev2: "zc_eval cl (release_lua cl k now i) now z1 = (Inr ys, r4)"
    using up unfolding zset_up_def by blast
  have lua2: "release_lua cl k now i z1 = (ys, r4)" by (rule zeval [OF ok ev2])
  have "z2 = r4" using rel ev2 granted rv by (simp add: release_def)
  then obtain n where rem: "zc_zrem cl k i now z1 = (n, z2)"
    using lua2 by (auto simp: release_lua_def split: prod.splits)
  let ?live = "above (now - seconds ttl) (view z now k)"
  have other: "view z2 t k' = view z t k'" if "now \<le> t" "k' \<noteq> k" for t k'
    using that zrem_view [OF ok that(1) rem] zexpire [OF ok that(1)] zadd_other [OF ok that(1)] zremrange [OF ok that(1)]
    by (simp add: z1)
  have here: "view z2 t k = (if t < now + seconds (ttl * 2) then ?live(i := None) else (\<lambda>_. None))" if "now \<le> t" for t
    using zrem_view [OF ok that rem, where k' = k] zexpire [OF ok that, where k = k and k' = k and ttl = "ttl * 2" and r = ?r2]
      zadd_here [OF ok, where k = k and s = now and i = i and now = now and r = ?r0]
      zremrange [OF ok order_refl, where k = k and k' = k and b = "now - seconds ttl" and now = now and r = z]
    by (auto simp: z1)
  show "now \<le> t \<Longrightarrow> view z2 t k' j \<in> {None, view z t k' j, view z now k' j}"
    using other here above_cases [of "now - seconds ttl" "view z now k" j] by (cases "k' = k") auto
  have "now < now + seconds (ttl * 2)" using ttl by (simp add: seconds_def)
  then show "above (now - seconds ttl) (view z2 now k') j = above (now - seconds ttl) (view z now k') j" if "j \<noteq> i"
    using other [of now k'] here [of now] that by (cases "k' = k") (auto simp: above_def split: option.split)
qed

lemma deliver_calls:
  "ss_telegram (snd (deliver en now w cx idem v st)) = snd (en_send en (send_request_of en cx idem) (ss_telegram st))"
  by (simp add: deliver_def Let_def on_db_def split: prod.split send_outcome.split sum.split)

lemma deliver_settles:
  assumes "sending i w cx (ss_db st)"
    and "deliver en now w cx idem v st = (x, st')"
  shows "ss_telegram st' = snd (en_send en (send_request_of en cx idem) (ss_telegram st))"
    and "\<not> slot_held st'"
    and "\<exists>row. require_attempt_for_workspace i w (ss_db st') = Inr row \<and>
           recorded (fst (en_send en (send_request_of en cx idem) (ss_telegram st))) row x"
proof -
  let ?rq = "send_request_of en cx idem"
  define s1 where "s1 = ss_db (on_db (write_event now w (cx_refs cx) ''info'' ''comment_send_started''
    ''manual neuro-comment send started'' [(''idempotency_key'', JInt (int idem))]) st)"
  have s1: "sending i w cx s1" using assms(1) sending_view [of s1 "ss_db st"] by (simp add: s1_def on_db_def)
  obtain outcome t where o: "en_send en ?rq (ss_telegram st) = (outcome, t)" by fastforce
  have "ss_telegram st' = t \<and> \<not> slot_held st' \<and>
      (\<exists>row. require_attempt_for_workspace i w (ss_db st') = Inr row \<and> recorded outcome row x)"
  proof (cases outcome)
    case (Delivered m d)
    from s1 obtain s' where "mark_attempt_sent now w cx m d idem s1 = (Inr (sent_attempt m d (cx_attempt cx)), s')"
      and "require_attempt_for_workspace i w s' = Inr (sent_attempt m d (cx_attempt cx))"
      by (rule mark_attempt_sent_spec)
    moreover from this(1) have "x = Inr (sent_attempt m d (cx_attempt cx)) \<and> ss_db st' = s' \<and>
        ss_telegram st' = t \<and> \<not> slot_held st'"
      using assms(2) o Delivered by (auto simp: deliver_def Let_def on_db_def s1_def)
    ultimately show ?thesis using Delivered by simp
  next
    case (SendError code msg flood)
    from s1 obtain row s' where "mark_send_error now w (cx_attempt cx) code msg flood s1 = (Inr row, s')"
      and "require_attempt_for_workspace i w s' = Inr row" and "recorded (SendError code msg flood) row (Inr row)"
      by (rule mark_send_error_spec)
    moreover from this(1) have "x = Inr row \<and> ss_db st' = s' \<and> ss_telegram st' = t \<and> \<not> slot_held st'"
      using assms(2) o SendError by (auto simp: deliver_def Let_def on_db_def s1_def)
    ultimately show ?thesis using SendError by blast
  next
    case (Unexpected ty msg)
    then show ?thesis using assms(2) o mark_unexpected_error_spec [OF s1, of now ty msg]
      by (auto simp: deliver_def Let_def on_db_def s1_def)
  qed
  then show "ss_telegram st' = snd (en_send en ?rq (ss_telegram st))" and "\<not> slot_held st'"
    and "\<exists>row. require_attempt_for_workspace i w (ss_db st') = Inr row \<and>
           recorded (fst (en_send en ?rq (ss_telegram st))) row x"
    using o by simp_all
qed

section \<open>The flow as a whole\<close>

lemma load_context_Inr:
  assumes "load_context i w s = Inr cx"
  shows "require_attempt_for_workspace i w s = Inr (cx_attempt cx)"
    and "require_campaign (at_campaign_id (cx_attempt cx)) w s = Inr (cx_campaign cx)"
    and "cx_target cx = target_or_none (at_target_id (cx_attempt cx)) (nc_id (cx_campaign cx)) s"
    and "cx_campaign_account cx = campaign_account_or_none (nc_id (cx_campaign cx)) (at_account_id (cx_attempt cx)) s"
  using assms by (auto simp: load_context_def result_bind_Inr_iff)

text \<open>The attempt as it is marked before the call.\<close>

definition marked :: "uuid \<Rightarrow> comment_attempt \<Rightarrow> comment_attempt" where
  "marked idem a = a\<lparr>at_idempotency_key := Some idem, at_status := AtSending\<rparr>"

lemma marked_fields [simp]:
  "at_id (marked k a) = at_id a" "at_campaign_id (marked k a) = at_campaign_id a"
  "at_account_id (marked k a) = at_account_id a" "at_target_id (marked k a) = at_target_id a"
  by (simp_all add: marked_def)

lemma workspace_target_of_campaign:
  assumes "get_target t c s = Some target" and "campaign_in_workspace c w s"
  shows "\<exists>r. workspace_target t w s = Inr r"
proof -
  have "target \<in> set (db_targets s)" "nt_id target = t" "nt_campaign_id target = c"
    using assms(1) by (auto simp: get_target_def dest: find_mem)
  then have "find (\<lambda>r. nt_id r = t \<and> campaign_in_workspace (nt_campaign_id r) w s) (db_targets s) \<noteq> None"
    using assms(2) by (auto simp: find_none_iff simp del: not_None_eq)
  then show ?thesis by (auto simp: workspace_target_def)
qed

lemma load_context_sending:
  assumes load: "load_context i w s = Inr cx" and pub: "publishable cx"
  shows "sending i w (cx\<lparr>cx_attempt := marked k (cx_attempt cx)\<rparr>) (put_attempt (marked k (cx_attempt cx)) s)"
proof -
  let ?at = "cx_attempt cx" and ?c = "nc_id (cx_campaign cx)" and ?s = "put_attempt (marked k (cx_attempt cx)) s"
  note l = load_context_Inr [OF load]
  have c: "cx_campaign cx \<in> set (db_campaigns s)" "?c = at_campaign_id ?at" "nc_workspace_id (cx_campaign cx) = w"
    using require_campaign_Inr [OF l(2)] by simp_all
  obtain target member where tm: "cx_target cx = Some target" "cx_campaign_account cx = Some member"
    using pub by (auto simp: publishable_def split: option.splits)
  obtain t where t: "at_target_id ?at = Some t" "get_target t ?c s = Some target"
    using tm(1) l(3) by (auto simp: target_or_none_def split: option.splits)
  obtain a where a: "at_account_id ?at = Some a" "get_campaign_account ?c a s = Some member"
    using tm(2) l(4) by (auto simp: campaign_account_or_none_def split: option.splits)
  have "campaign_in_workspace ?c w s" using c by (auto simp: campaign_in_workspace_def list_ex_iff)
  then have "rows_present ?c w a t s"
    using workspace_target_of_campaign [OF t(2)] a(2) l(2) c(2) by (auto simp: rows_present_def)
  then have "rows_present ?c w a t ?s" by simp
  moreover have "require_attempt_for_workspace i w ?s = Inr (marked k ?at)"
    by (rule put_attempt_found [OF l(1)]) simp_all
  ultimately show ?thesis using c a t tm by (auto simp: sending_def)
qed

lemma neuro_view_put_attempt:
  "neuro_view s' = neuro_view s \<Longrightarrow> neuro_view (put_attempt r s') = neuro_view (put_attempt r s)"
  by (simp add: neuro_view_def put_attempt_def)

text \<open>A slot that was granted to a send, and is released, was not there before and is not there after.\<close>

lemma granted_slot_released:
  assumes "slot_granted en now cx st0 (ss_reservation st) (ss_slots st)"
  shows "slots_given_back en now (ss_slots st0) (ss_slots (release_gate_reservation en now st))"
proof (cases "en_slots en")
  case None
  then show ?thesis using assms
    by (simp add: slots_given_back_def slot_granted_def release_gate_reservation_def)
next
  case (Some cl)
  show ?thesis
  proof (cases "cx_account_id cx")
    case None
    then show ?thesis using assms Some
      by (simp add: slots_given_back_def slot_granted_def release_gate_reservation_def)
  next
    case (Some a)
    obtain i rv ms where r: "reserve (en_settings en) cl i now (a, ''commenting'')
        GATE_MAX_CONCURRENT_DEFAULT GATE_RESERVE_TTL_SECONDS (ss_slots st0) = (Inr rv, ss_slots st, ms)"
      "rv_reserved rv" "ss_reservation st = Some rv"
      using assms \<open>en_slots en = Some cl\<close> Some by (auto simp: slot_granted_def)
    obtain b z2 ms' where rel: "release cl now rv (ss_slots st) = (b, z2, ms')" using prod_cases3 by blast
    have z2: "ss_slots (release_gate_reservation en now st) = z2"
      using \<open>en_slots en = Some cl\<close> r(2,3) rel by (simp add: release_gate_reservation_def)
    have "0 < GATE_RESERVE_TTL_SECONDS" by (simp add: GATE_RESERVE_TTL_SECONDS_def)
    note gone = reserve_then_release [OF _ _ this r(1,2) rel]
    show ?thesis unfolding slots_given_back_def \<open>en_slots en = Some cl\<close> option.case z2
      by (intro allI impI conjI exI [of _ i]; elim conjE; (rule gone(1) | rule gone(2)); assumption)
  qed
qed

text \<open>From the limiter on: nothing is sent, or the limiter has granted and the attempt is delivered.\<close>

lemma send_cleared_cases [consumes 1, case_names quiet calls]:
  assumes "send_cleared en now i w cx st = (x, st')"
  obtains "ss_telegram st' = ss_telegram st" "ss_slots st' = ss_slots st" "ss_reservation st' = ss_reservation st"
      "members st' = members st"
  | idem v st2 where "limiter_grants en now w cx st"
    "neuro_view (ss_db st2) = neuro_view (put_attempt (marked idem (cx_attempt cx)) (ss_db st))"
    "ss_telegram st2 = ss_telegram st" "ss_slots st2 = ss_slots st" "ss_reservation st2 = ss_reservation st"
    "deliver en now w (cx\<lparr>cx_attempt := marked idem (cx_attempt cx)\<rparr>) idem v st2 = (x, st')"
proof -
  obtain r st1 where res: "reserve_for_attempt en now w cx st = (r, st1)" by fastforce
  note quiet = reserve_for_attempt_quiet [OF res]
  note d = assms [unfolded send_cleared_def res prod.case denied_def [symmetric] marked_def [symmetric]]
  consider (skip) "st' = st1" | (go) v a where "r = Inr (v, a)" "\<not> denied v a"
    using d by (fastforce split: sum.splits prod.splits if_splits)
  then show ?thesis
  proof cases
    case skip
    then show ?thesis using that(1) quiet by simp
  next
    case go
    note granted = reserve_for_attempt_passes [OF res [unfolded go(1)] go(2)]
    let ?k = "db_next_id (ss_db st1)"
    define st2 where "st2 = st1\<lparr>ss_db := put_attempt (marked ?k (cx_attempt cx)) (snd (new_id (ss_db st1)))\<rparr>"
    obtain y st3 where key: "reserve_idempotency_key en now ?k i st2 = (y, st3)" by fastforce
    then obtain q where st3: "st3 = st2\<lparr>ss_limits := q\<rparr>" using reserve_idempotency_key_quiet by blast
    have fin: "(case y of Inl e \<Rightarrow> (Inl e, st3) | Inr u \<Rightarrow>
        deliver en now w (cx\<lparr>cx_attempt := marked ?k (cx_attempt cx)\<rparr>) ?k v st3) = (x, st')"
      using d go key granted(1) by (simp add: new_id_def Let_def st2_def)
    have "neuro_view (ss_db st3) = neuro_view (put_attempt (marked ?k (cx_attempt cx)) (ss_db st))"
      using neuro_view_put_attempt [of "snd (new_id (ss_db st1))" "ss_db st"] granted(3) by (simp add: st3 st2_def)
    then show ?thesis
      using that(1) that(2) [where idem = ?k and ?st2.0 = st3 and v = v] fin granted(2) quiet by (cases y) (auto simp: st3 st2_def)
  qed
qed

lemma clears_frame:
  assumes "neuro_view (ss_db st') = neuro_view (ss_db st)"
  shows "rule_allows w cx st' = rule_allows w cx st"
    and "ss_limits st' = ss_limits st \<Longrightarrow> limiter_grants en now w cx st' = limiter_grants en now w cx st"
  unfolding rule_allows_def limiter_grants_def neuro_view_lookups [OF assms] neuro_view_queries [OF assms]
  by simp_all

lemma send_attempt_guards [consumes 2, case_names quiet goes]:
  assumes "send_attempt en now i w st = (x, st')" and "load_context i w (ss_db st) = Inr cx"
  obtains "ss_telegram st' = ss_telegram st" "members st' = members st"
  | st2 where "\<not> already_sent (cx_attempt cx)" "publishable cx" "en_send_enabled en"
      "block_by_safety_gate en now w cx st = (Inr None, st2)"
      "block_by_channel_rule now w cx st2 = (None, st2)" "send_cleared en now i w cx st2 = (x, st')"
proof (cases "already_sent (cx_attempt cx) \<or> validate_send cx \<noteq> Inr () \<or> \<not> en_send_enabled en")
  case True
  then show ?thesis using assms that(1)
    by (auto simp: send_attempt_def already_sent_def raise_if_send_disabled_def on_db_def split: sum.splits if_splits)
next
  case False
  then have ok: "\<not> already_sent (cx_attempt cx)" "publishable cx" "en_send_enabled en"
    by (simp_all add: validate_send_Inr)
  have "raise_if_send_disabled en now w cx st = (Inr (), st)" using ok(3) by (simp add: raise_if_send_disabled_def)
  note d = assms(1) [unfolded send_attempt_def assms(2) sum.case already_sent_def [symmetric] this prod.case]
  obtain y st2 where gate: "block_by_safety_gate en now w cx st = (y, st2)" by fastforce
  obtain z st3 where rule3: "block_by_channel_rule now w cx st2 = (z, st3)" by fastforce
  note quiet = block_by_safety_gate_quiet [OF gate] block_by_channel_rule_quiet [OF rule3]
  consider "y = Inr None" "z = None" | "st' = st2 \<or> st' = st3"
    using d False ok(1) gate rule3 by (cases z) (auto split: sum.splits option.splits)
  then show ?thesis
  proof cases
    case 1
    note same = block_by_channel_rule_passes [OF rule3 [unfolded 1]]
    have "send_cleared en now i w cx st2 = (x, st')" using d False ok(1) gate rule3 1 same by simp
    then show ?thesis using that(2) ok gate rule3 1 same by simp
  next
    case 2
    then show ?thesis using that(1) quiet by auto
  qed
qed

lemma send_attempt_cases [consumes 1, case_names quiet calls]:
  assumes "send_attempt en now i w st = (x, st')"
  obtains "ss_telegram st' = ss_telegram st" "members st' = members st"
  | cx idem v st5 where "load_context i w (ss_db st) = Inr cx" "cleared en now w cx st"
    "sending i w (cx\<lparr>cx_attempt := marked idem (cx_attempt cx)\<rparr>) (ss_db st5)"
    "ss_telegram st5 = ss_telegram st" "members st5 = members st"
    "deliver en now w (cx\<lparr>cx_attempt := marked idem (cx_attempt cx)\<rparr>) idem v st5 = (x, st')"
    "slot_granted en now cx st (ss_reservation st5) (ss_slots st5)"
proof (cases "load_context i w (ss_db st)")
  case (Inl e)
  then show ?thesis using assms that(1) by (simp add: send_attempt_def)
next
  case load: (Inr cx)
  from assms load show ?thesis
  proof (cases rule: send_attempt_guards)
    case (goes st2)
    note gate = block_by_safety_gate_passes [OF goes(4)]
    have rule: "rule_allows w cx st" using block_by_channel_rule_passes [OF goes(5)] clears_frame(1) [OF gate(3)] by simp
    from goes(6) show ?thesis
    proof (cases rule: send_cleared_cases)
      case quiet
      then show ?thesis using that(1) gate(4) members_of_view [OF gate(3)] by simp
    next
      case (calls idem v st5)
      have "cleared en now w cx st"
        using goes gate(1,2) rule calls(1) clears_frame(2) [OF gate(3,5)] by (auto simp: cleared_def)
      moreover have "neuro_view (ss_db st5) = neuro_view (put_attempt (marked idem (cx_attempt cx)) (ss_db st))"
        using calls(2) neuro_view_put_attempt [OF gate(3)] by simp
      then have "sending i w (cx\<lparr>cx_attempt := marked idem (cx_attempt cx)\<rparr>) (ss_db st5)"
        using sending_view load_context_sending [OF load goes(2)] by blast
      moreover have "members st5 = members st"
        using members_of_view [OF calls(2)] members_of_view [OF gate(3)] by simp
      ultimately show ?thesis using that(2) load calls gate(2,4) by simp
    qed
  qed (use that(1) in simp)
qed

section \<open>Theorems\<close>

lemma send_request_marked [simp]: "send_request_of en (cx\<lparr>cx_attempt := marked k (cx_attempt cx)\<rparr>) j = send_request_of en cx j"
  by (simp add: send_request_of_def discussion_chat_id_def comment_text_def)

text \<open>
  C1. \<open>SenderService.send_attempt\<close> calls Telegram at most once, and only when every guard clears the
  send: the attempt is not sent yet, the campaign runs and is no dry run, the comment is approved, not
  blocked and has a text, the post is resolved, the target and the account are active, sending is
  enabled, the safety gate does not block the account, a slot was reserved when there is a Redis client,
  no channel rule forbids the target and the rate limiter, when it is required, grants a reservation.
\<close>

theorem telegram_called_only_when_cleared:
  "ss_telegram (snd (send_attempt en now i w st)) = ss_telegram st \<or>
   (\<exists>cx idem. load_context i w (ss_db st) = Inr cx \<and> cleared en now w cx st \<and>
      ss_telegram (snd (send_attempt en now i w st)) =
        snd (en_send en (send_request_of en cx idem) (ss_telegram st)))"
proof -
  obtain x st' where e: "send_attempt en now i w st = (x, st')" by fastforce
  then show ?thesis
  proof (cases rule: send_attempt_cases)
    case (calls cx idem v st5)
    then show ?thesis using deliver_settles(1) [OF calls(3,6)] e by auto
  qed (simp add: e)
qed

text \<open>The attempt says what came of the call, the caller learns it, and the slot is given back.\<close>

definition settled ::
  "uuid \<Rightarrow> uuid \<Rightarrow> send_outcome \<Rightarrow> comment_attempt result \<Rightarrow> ('c, 'q, 'z, 'r, 't) sender_state \<Rightarrow> bool" where
  "settled i w outcome x st \<longleftrightarrow>
     \<not> slot_held st \<and>
     (\<exists>row. require_attempt_for_workspace i w (ss_db st) = Inr row \<and> recorded outcome row x)"

text \<open>
  C2. Whenever a send reaches Telegram, the attempt is settled whatever the outcome: a delivered comment
  is SENT with the message id and time Telegram gave, a flood wait is FLOOD_WAIT, any other error is
  FAILED, no attempt is left SENDING, the result tells the same, and no error can follow a delivery. The
  slot of the gate is given back: the service holds no reservation, and as long as Redis does what it
  documents, nobody holds a slot in Redis afterwards who did not hold it before the send, and the leases
  of all others go on.
\<close>

theorem called_attempts_are_settled:
  "case send_attempt en now i w st of (x, st') \<Rightarrow>
     ss_telegram st' = ss_telegram st \<or>
     (\<exists>rq. ss_telegram st' = snd (en_send en rq (ss_telegram st)) \<and>
        settled i w (fst (en_send en rq (ss_telegram st))) x st' \<and>
        slots_given_back en now (ss_slots st) (ss_slots st'))"
proof -
  obtain x st' where e: "send_attempt en now i w st = (x, st')" by fastforce
  then have "ss_telegram st' = ss_telegram st \<or>
     (\<exists>rq. ss_telegram st' = snd (en_send en rq (ss_telegram st)) \<and>
        settled i w (fst (en_send en rq (ss_telegram st))) x st' \<and>
        slots_given_back en now (ss_slots st) (ss_slots st'))"
  proof (cases rule: send_attempt_cases)
    case (calls cx idem v st5)
    have "slots_given_back en now (ss_slots st) (ss_slots st')"
      using granted_slot_released [OF calls(7)] deliver_slots [of en now w _ idem v st5] calls(6) by (metis snd_conv)
    then show ?thesis using deliver_settles [OF calls(3,6)] calls(4) unfolding settled_def by auto
  qed simp
  then show ?thesis using e by simp
qed

text \<open>Sends of one attempt, one after the other, by any services, with a client that writes down its calls.\<close>

type_synonym send_log = "(send_request \<times> send_outcome) list"

definition recording ::
  "(send_request \<Rightarrow> send_log \<Rightarrow> send_outcome) \<Rightarrow> ('c, 'q, 'z, 'r, send_log) sender_env \<Rightarrow>
   ('c, 'q, 'z, 'r, send_log) sender_env" where
  "recording script en = en\<lparr>en_send := (\<lambda>rq log. (script rq log, log @ [(rq, script rq log)]))\<rparr>"

fun run_sends where
  "run_sends [] i w st = st"
| "run_sends ((en, script, now) # steps) i w st =
     run_sends steps i w (snd (send_attempt (recording script en) now i w st))"

fun acknowledged :: "send_request \<times> send_outcome \<Rightarrow> bool" where
  "acknowledged (rq, Delivered m d) = (m \<noteq> [])"
| "acknowledged (rq, _) = False"

definition attempt_sent :: "uuid \<Rightarrow> uuid \<Rightarrow> ('c, 'q, 'z, 'r, 't) sender_state \<Rightarrow> bool" where
  "attempt_sent i w st \<longleftrightarrow> (\<exists>row. require_attempt_for_workspace i w (ss_db st) = Inr row \<and> already_sent row)"

lemma sent_attempt_stays:
  assumes "attempt_sent i w st"
  shows "snd (send_attempt en now i w st) = st"
proof (cases "load_context i w (ss_db st)")
  case (Inr cx)
  then have "already_sent (cx_attempt cx)"
    using assms load_context_Inr(1) [OF Inr] by (auto simp: attempt_sent_def)
  then show ?thesis using Inr by (simp add: send_attempt_def already_sent_def)
qed (simp add: send_attempt_def)

definition once :: "uuid \<Rightarrow> uuid \<Rightarrow> ('c, 'q, 'z, 'r, send_log) sender_state \<Rightarrow> bool" where
  "once i w st \<longleftrightarrow>
     filter acknowledged (ss_telegram st) = [] \<or>
     length (filter acknowledged (ss_telegram st)) = 1 \<and> attempt_sent i w st"

lemma send_keeps_once:
  assumes "once i w st"
  shows "once i w (snd (send_attempt (recording script en) now i w st))"
proof (cases "attempt_sent i w st")
  case True
  then show ?thesis using assms sent_attempt_stays by metis
next
  case False
  then have none: "filter acknowledged (ss_telegram st) = []" using assms by (simp add: once_def)
  obtain x st' where e: "send_attempt (recording script en) now i w st = (x, st')" by fastforce
  then show ?thesis
  proof (cases rule: send_attempt_cases)
    case (calls cx idem v st5)
    let ?rq = "send_request_of (recording script en) cx idem"
    let ?o = "script ?rq (ss_telegram st)"
    have log: "ss_telegram st' = ss_telegram st @ [(?rq, ?o)]"
      using deliver_settles(1) [OF calls(3,6)] calls(4) by (simp add: recording_def)
    obtain row where row: "require_attempt_for_workspace i w (ss_db st') = Inr row" "recorded ?o row x"
      using deliver_settles(3) [OF calls(3,6)] calls(4) by (auto simp: recording_def)
    then have "acknowledged (?rq, ?o) \<Longrightarrow> attempt_sent i w st'"
      by (cases ?o) (auto simp: attempt_sent_def already_sent_def)
    then show ?thesis using log none e by (simp add: once_def)
  qed (simp add: e once_def none)
qed

text \<open>
  C3. However often an attempt is sent, by whichever services and with whatever outcomes, one send after
  the other: Telegram acknowledges the comment with a message id at most once.
\<close>

theorem delivered_at_most_once:
  "length (filter acknowledged (ss_telegram (run_sends steps i w (st\<lparr>ss_telegram := []\<rparr>)))) \<le> 1"
proof -
  have "once i w (run_sends steps i w st')" if "once i w st'" for st'
    using that by (induction steps i w st' rule: run_sends.induct) (simp_all add: send_keeps_once)
  from this [of "st\<lparr>ss_telegram := []\<rparr>"] show ?thesis by (auto simp: once_def)
qed

section \<open>What the error paths leave behind\<close>

lemma block_by_safety_gate_row:
  assumes "block_by_safety_gate en now w cx st = (Inr (Some row), st')"
  shows "at_error_code row \<in> {Some ''ACCOUNT_SAFETY_BLOCKED'', Some ''GATE_CONCURRENCY_LIMIT''}"
  using assms
  by (auto simp: block_by_safety_gate_def take_gate_slot_def skip_attempt_def Let_def
      split: sum.splits option.splits prod.splits if_splits)

lemma recorded_not_skipped: "recorded outcome row (Inr row') \<Longrightarrow> at_status row' \<noteq> AtSkipped"
  by (cases outcome) auto

lemma send_cleared_skipped:
  assumes load: "load_context i w (ss_db st0) = Inr cx" and "publishable cx"
    and "neuro_view (ss_db st) = neuro_view (ss_db st0)"
    and "send_cleared en now i w cx st = (Inr row, st')" and "at_status row = AtSkipped"
  shows "ss_slots st' = ss_slots st \<and> ss_reservation st' = ss_reservation st"
  using assms(4)
proof (cases rule: send_cleared_cases)
  case (calls idem v st5)
  have "neuro_view (ss_db st5) = neuro_view (put_attempt (marked idem (cx_attempt cx)) (ss_db st0))"
    using calls(2) neuro_view_put_attempt [OF assms(3)] by simp
  then have "sending i w (cx\<lparr>cx_attempt := marked idem (cx_attempt cx)\<rparr>) (ss_db st5)"
    using sending_view load_context_sending [OF load assms(2)] by blast
  then show ?thesis using deliver_settles(3) [OF _ calls(6)] recorded_not_skipped assms(5) by blast
qed simp

text \<open>
  C16. When a channel rule or the rate limiter stops a send, the slot the gate has just granted is not
  given back: it stays taken in Redis until its lease runs out.
\<close>

theorem denied_send_keeps_slot:
  assumes "send_attempt en now i w st = (Inr row, st')"
    and "at_status row = AtSkipped"
    and "at_error_code row = Some ''RATE_LIMIT_DENIED'' \<or> at_error_code row = Some ''CHANNEL_RULE_BLOCKED''"
  shows "\<exists>cx v. load_context i w (ss_db st) = Inr cx \<and>
           slot_granted en now cx st v (ss_slots st') \<and> ss_reservation st' = v"
proof -
  obtain cx where load: "load_context i w (ss_db st) = Inr cx"
    using assms(1) by (auto simp: send_attempt_def split: sum.splits)
  note d = assms(1) [unfolded send_attempt_def load sum.case]
  have ok: "validate_send cx = Inr ()" "en_send_enabled en"
    using d assms(2) by (auto simp: raise_if_send_disabled_def split: sum.splits if_splits)
  have "raise_if_send_disabled en now w cx st = (Inr (), st)" using ok(2) by (simp add: raise_if_send_disabled_def)
  note d1 = d [unfolded this ok(1) prod.case sum.case]
  obtain st2 where gate: "block_by_safety_gate en now w cx st = (Inr None, st2)"
    using d1 assms(2,3) block_by_safety_gate_row
    by (fastforce split: sum.splits option.splits prod.splits if_splits)
  note granted = block_by_safety_gate_passes(2) [OF gate]
  obtain z st3 where rule3: "block_by_channel_rule now w cx st2 = (z, st3)" by fastforce
  note same = block_by_channel_rule_quiet [OF rule3]
  have "ss_slots st' = ss_slots st3 \<and> ss_reservation st' = ss_reservation st3"
  proof (cases z)
    case (Some r)
    then show ?thesis using d1 gate rule3 assms(2) by (auto split: if_splits)
  next
    case None
    then have "send_cleared en now i w cx st2 = (Inr row, st')"
      using d1 gate rule3 assms(2) block_by_channel_rule_passes by (fastforce split: if_splits)
    then show ?thesis
      using send_cleared_skipped [OF load _ block_by_safety_gate_passes(3) [OF gate] _ assms(2)]
        ok(1) same validate_send_Inr by simp
  qed
  then show ?thesis using load granted same by auto
qed

section \<open>Accounts in a flood wait\<close>

text \<open>The rows of campaign accounts that are in cooldown.\<close>

definition cooling :: "db \<Rightarrow> uuid set" where
  "cooling s = {ca_id m | m. m \<in> set (db_campaign_accounts s) \<and> ca_status m = CACooldown}"

definition members_distinct :: "db \<Rightarrow> bool" where
  "members_distinct s \<longleftrightarrow> distinct (map ca_id (db_campaign_accounts s))"

text \<open>A change of the database that takes no row out of its cooldown.\<close>

definition keeps_cooling :: "db \<Rightarrow> db \<Rightarrow> bool" where
  "keeps_cooling s s' \<longleftrightarrow> (members_distinct s \<longrightarrow> members_distinct s' \<and> cooling s \<subseteq> cooling s')"

lemma keeps_cooling_trans: "keeps_cooling s s1 \<Longrightarrow> keeps_cooling s1 s2 \<Longrightarrow> keeps_cooling s s2"
  by (auto simp: keeps_cooling_def)

lemma keeps_cooling_same: "db_campaign_accounts s' = db_campaign_accounts s \<Longrightarrow> keeps_cooling s s'"
  by (simp add: keeps_cooling_def cooling_def members_distinct_def)

lemma keeps_cooling_put:
  assumes "r \<in> set (db_campaign_accounts s)" and "ca_id r' = ca_id r"
    and "ca_status r = CACooldown \<Longrightarrow> ca_status r' = CACooldown"
  shows "keeps_cooling s (put_campaign_account r' s)"
proof -
  let ?ms = "db_campaign_accounts s"
  have ids: "map ca_id (update_where (\<lambda>m. ca_id m = ca_id r') (\<lambda>_. r') ?ms) = map ca_id ?ms"
    by (induction ?ms) (auto simp: update_where_def)
  have stays: "(if ca_id m = ca_id r then r' else m) \<in> set (db_campaign_accounts (put_campaign_account r' s))"
    if "m \<in> set ?ms" for m
    using that assms(2) by (auto simp: put_campaign_account_def in_set_update_where)
  have "ca_id m \<in> cooling (put_campaign_account r' s)"
    if "members_distinct s" "m \<in> set ?ms" "ca_status m = CACooldown" for m
  proof (cases "ca_id m = ca_id r")
    case True
    then have "m = r" using that(1,2) assms(1) by (auto simp: members_distinct_def distinct_map dest: inj_onD)
    then show ?thesis using assms(2,3) that(3) stays [OF that(2)] unfolding cooling_def mem_Collect_eq
      by (intro exI [of _ r']) simp
  next
    case False
    then show ?thesis using that(3) stays [OF that(2)] unfolding cooling_def mem_Collect_eq by (intro exI [of _ m]) simp
  qed
  then show ?thesis unfolding keeps_cooling_def
    by (auto simp: members_distinct_def put_campaign_account_def ids) (auto simp: cooling_def)
qed

lemma members_same_targets [simp]:
  "db_campaign_accounts (snd (record_target f now w t s)) = db_campaign_accounts s"
  "db_campaign_accounts (snd (suggest_rules_for_target now w t s)) = db_campaign_accounts s"
  by (auto simp: record_target_def suggest_rules_for_target_def target_event_def Let_def split: sum.split)

lemma keeps_cooling_then:
  "keeps_cooling s (snd x) \<Longrightarrow> (\<And>s'. keeps_cooling s' (snd (f s'))) \<Longrightarrow> keeps_cooling s (snd (res_then x f))"
  by (cases x) (auto simp: res_then_def split: sum.split intro: keeps_cooling_trans)

lemma keeps_cooling_put_stats:
  assumes "get_campaign_account c a s = Some r" and "ca_id r' = ca_id r"
    and "ca_status r = CACooldown \<Longrightarrow> ca_status r' = CACooldown"
  shows "keeps_cooling s (put_stats y (snd (stats_of c' a' (put_campaign_account r' s))))"
proof -
  have "r \<in> set (db_campaign_accounts s)" using get_campaign_account_Some [OF assms(1)] by simp
  then have "keeps_cooling s (put_campaign_account r' s)" using assms(2,3) by (rule keeps_cooling_put)
  then show ?thesis by (rule keeps_cooling_trans) (simp add: keeps_cooling_same)
qed

lemma keeps_cooling_accounts:
  "keeps_cooling s (snd (record_account_send_failure now c a w code s))"
  "keeps_cooling s (snd (record_account_flood_wait now c a w secs s))"
  "(\<And>m. get_campaign_account c a s = Some m \<Longrightarrow> ca_status m \<noteq> CACooldown) \<Longrightarrow>
     keeps_cooling s (snd (record_account_send_success now c a w s))"
  by (auto simp: record_account_send_failure_def record_account_flood_wait_def record_account_send_success_def
      campaign_account_of_def Let_def case_prod_unfold keeps_cooling_same split: sum.split option.split
      intro: keeps_cooling_put_stats)

lemma keeps_cooling_targets:
  "keeps_cooling s (snd (record_target f now w t s))" "keeps_cooling s (snd (suggest_rules_for_target now w t s))"
  by (simp_all add: keeps_cooling_same)

lemma keeps_cooling_success:
  assumes "cx_account_id cx = Some a"
    and "\<And>m. get_campaign_account (nc_id (cx_campaign cx)) a s = Some m \<Longrightarrow> ca_status m \<noteq> CACooldown"
  shows "keeps_cooling s (snd (record_attempt_success now cx s))"
  unfolding record_attempt_success_def Let_def assms(1) option.case
  by (intro keeps_cooling_then keeps_cooling_accounts(3) assms(2))
    (auto simp: record_target_success_def split: option.split
      intro: keeps_cooling_same keeps_cooling_then keeps_cooling_targets)

lemma keeps_cooling_error:
  "keeps_cooling s (snd (account_after_error now w row code flood s))"
  "keeps_cooling s (snd (target_after_error now w row code s))"
proof -
  show "keeps_cooling s (snd (account_after_error now w row code flood s))"
  proof (cases "campaign_account_or_none (at_campaign_id row) (at_account_id row) s")
    case (Some m)
    then have "m \<in> set (db_campaign_accounts s)"
      using campaign_account_or_none_Some get_campaign_account_Some by blast
    then have "keeps_cooling s (put_campaign_account (m\<lparr>ca_cooldown_until := u\<rparr>) s)" for u
      by (rule keeps_cooling_put) simp_all
    then show ?thesis using Some keeps_cooling_accounts(1)
      by (auto simp: account_after_error_def Let_def split: option.split
          intro: keeps_cooling_same keeps_cooling_trans [OF _ keeps_cooling_accounts(2)])
  qed (simp add: account_after_error_def keeps_cooling_same)
  show "keeps_cooling s (snd (target_after_error now w row code s))"
    by (auto simp: target_after_error_def record_target_flood_wait_def record_target_failure_def split: option.split
        intro!: keeps_cooling_then keeps_cooling_targets)
      (simp add: keeps_cooling_same)
qed

lemma get_campaign_account_members:
  "db_campaign_accounts s' = db_campaign_accounts s \<Longrightarrow> get_campaign_account c a s' = get_campaign_account c a s"
  by (simp add: get_campaign_account_def)

lemma keeps_cooling_around:
  "keeps_cooling s1 s2 \<Longrightarrow> db_campaign_accounts s1 = db_campaign_accounts s \<Longrightarrow>
     db_campaign_accounts s' = db_campaign_accounts s2 \<Longrightarrow> keeps_cooling s s'"
  by (simp add: keeps_cooling_def cooling_def members_distinct_def)

definition not_cooling :: "send_context \<Rightarrow> db \<Rightarrow> bool" where
  "not_cooling cx s \<longleftrightarrow>
     (\<exists>a m. at_account_id (cx_attempt cx) = Some a \<and>
        get_campaign_account (nc_id (cx_campaign cx)) a s = Some m \<and> ca_status m = CAActive)"

lemma keeps_cooling_marks:
  "not_cooling cx s \<Longrightarrow> keeps_cooling s (snd (mark_attempt_sent now w cx m d idem s))"
  "keeps_cooling s (snd (mark_send_error now w (cx_attempt cx) code msg flood s))"
  "keeps_cooling s (mark_unexpected_error now w cx ty msg s)"
proof -
  show "keeps_cooling s (snd (mark_attempt_sent now w cx m d idem s))" if active: "not_cooling cx s"
  proof -
    let ?s1 = "put_attempt (sent_attempt m d (cx_attempt cx)) s"
    obtain a where "cx_account_id cx = Some a"
      "\<And>m. get_campaign_account (nc_id (cx_campaign cx)) a ?s1 = Some m \<Longrightarrow> ca_status m \<noteq> CACooldown"
      using active get_campaign_account_members [of ?s1 s]
      by (auto simp: not_cooling_def cx_account_id_def opt_or_def)
    then have "keeps_cooling ?s1 (snd (record_attempt_success now cx ?s1))" by (rule keeps_cooling_success)
    then show ?thesis
      by (rule keeps_cooling_around) (auto simp: mark_attempt_sent_def Let_def split: prod.split sum.split option.split)
  qed
  let ?row = "failed_attempt now code msg flood (cx_attempt cx)"
  let ?s1 = "put_attempt ?row s"
  have "keeps_cooling ?s1 (snd (res_then (account_after_error now w ?row code flood ?s1)
      (target_after_error now w ?row code)))"
    by (intro keeps_cooling_then keeps_cooling_error)
  then show "keeps_cooling s (snd (mark_send_error now w (cx_attempt cx) code msg flood s))"
    by (rule keeps_cooling_around) (auto simp: mark_send_error_def Let_def split: prod.split sum.split)
  show "keeps_cooling s (mark_unexpected_error now w cx ty msg s)"
    by (simp add: mark_unexpected_error_def keeps_cooling_same)
qed

lemma deliver_keeps_cooling:
  assumes "deliver en now w cx idem v st = (x, st')" and "not_cooling cx (ss_db st)"
  shows "keeps_cooling (ss_db st) (ss_db st')"
proof -
  define s1 where "s1 = write_event now w (cx_refs cx) ''info'' ''comment_send_started''
    ''manual neuro-comment send started'' [(''idempotency_key'', JInt (int idem))] (ss_db st)"
  have s1: "db_campaign_accounts s1 = members st" by (simp add: s1_def)
  then have "not_cooling cx s1"
    using assms(2) get_campaign_account_members [OF s1] by (simp add: not_cooling_def)
  then have "keeps_cooling s1 (ss_db st')"
    using assms(1) keeps_cooling_marks [where cx = cx and s = s1]
    by (auto simp: deliver_def Let_def on_db_def s1_def [symmetric] split: prod.splits sum.splits send_outcome.splits)
      (metis snd_conv)+
  then show ?thesis using s1 by (rule keeps_cooling_around) simp
qed

lemma send_keeps_cooling: "keeps_cooling (ss_db st) (ss_db (snd (send_attempt en now i w st)))"
proof -
  obtain x st' where e: "send_attempt en now i w st = (x, st')" by fastforce
  then show ?thesis
  proof (cases rule: send_attempt_cases)
    case (calls cx idem v st5)
    have "publishable cx" using calls(2) by (simp add: cleared_def)
    then obtain m where m: "cx_campaign_account cx = Some m" "ca_status m = CAActive"
      by (auto simp: publishable_def split: option.splits)
    then have "campaign_account_or_none (nc_id (cx_campaign cx)) (at_account_id (cx_attempt cx)) (ss_db st) = Some m"
      using load_context_Inr(4) [OF calls(1)] by simp
    then have "not_cooling (cx\<lparr>cx_attempt := marked idem (cx_attempt cx)\<rparr>) (ss_db st5)"
      using campaign_account_or_none_Some m(2) get_campaign_account_members [OF calls(5)]
      by (fastforce simp: not_cooling_def)
    then have "keeps_cooling (ss_db st5) (ss_db st')" by (rule deliver_keeps_cooling [OF calls(6)])
    then show ?thesis using calls(5) by (rule keeps_cooling_around) (simp add: e)
  qed (simp add: e keeps_cooling_same)
qed

text \<open>Sends of any attempts by any services, in any order.\<close>

fun run_any_sends where
  "run_any_sends [] st = st"
| "run_any_sends ((en, now, i, w) # steps) st = run_any_sends steps (snd (send_attempt en now i w st))"

text \<open>
  C17. A flood wait is for ever: whatever is sent, by whichever service and however much later, a campaign
  account in COOLDOWN stays in COOLDOWN, because only a successful send makes an account active again and
  a send needs an active account; the time the cooldown ends at plays no part.
\<close>

theorem flood_wait_is_for_ever:
  assumes "members_distinct (ss_db st)"
  shows "cooling (ss_db st) \<subseteq> cooling (ss_db (run_any_sends steps st))"
proof -
  have "keeps_cooling (ss_db st) (ss_db (run_any_sends steps st))"
    by (induction steps st rule: run_any_sends.induct)
      (auto intro: keeps_cooling_same keeps_cooling_trans [OF send_keeps_cooling])
  then show ?thesis using assms by (simp add: keeps_cooling_def)
qed

section \<open>An example\<close>

text \<open>An approved comment of a running campaign, with an account the gate lets through.\<close>

definition ready_account :: account where
  "ready_account = (imported_account 6 2 0)\<lparr>acc_proxy := Some
     \<lparr>px_proxy_type = ''socks5'', px_proxy_category = ''mobile'', px_host = ''h'', px_port = 1, px_username = None,
      px_password_encrypted = None, px_status = ''ok'', px_last_checked_at = None, px_last_check_scope = None,
      px_last_error_code = None, px_last_error_message = None, px_tdlib_verified_at = None, px_tdlib_last_error_code = None,
      px_tdlib_last_error_message = None, px_created_at = 0, px_updated_at = 0\<rparr>\<rparr>"

definition ready_member :: "campaign_account_status \<Rightarrow> campaign_account" where
  "ready_member status = \<lparr>ca_id = 5, ca_campaign_id = 3, ca_account_id = 6, ca_status = status, ca_rotation_weight = 1,
     ca_rotation_order = 0, ca_comments_sent = 0, ca_comments_failed = 0, ca_last_used_at = None,
     ca_cooldown_until = None, ca_last_error_code = None\<rparr>"

definition ready_comment :: generated_comment where
  "ready_comment = (some_comment 9 3 AApproved 0)\<lparr>gc_final_text := Some ''nice''\<rparr>"

definition ready_post :: observed_post where
  "ready_post = \<lparr>op_id = 7, op_campaign_id = 3, op_target_id = 4, op_discussion_chat_id = Some ''100'',
     op_discussion_message_id = Some ''12'', op_status = OpSeen\<rparr>"

definition ready_db :: "channel_rule list \<Rightarrow> db" where
  "ready_db rules = empty_db\<lparr>db_campaigns := [some_campaign 3 2], db_targets := [some_target 4 3],
     db_observed_posts := [ready_post], db_comments := [ready_comment], db_attempts := [new_attempt 8 ready_comment],
     db_campaign_accounts := [ready_member CAActive], db_accounts := [ready_account],
     db_warmups := [\<lparr>wu_id = 10, wu_workspace_id = 2, wu_account_id = 6, wu_strategy_id = 11, wu_status = WCompleted,
       wu_current_day = 9, wu_cadence_hours = 1, wu_next_step_at = None, wu_last_step_at = None, wu_started_at = None,
       wu_paused_at = None, wu_completed_at = None, wu_next_attempt_at = None, wu_flood_wait_count = 0,
       wu_consecutive_failures = 0, wu_worker_id = None, wu_duration_days = 9, wu_timezone = None,
       wu_last_micro_session_at = None, wu_next_micro_session_at = None, wu_cold_soak_until = None,
       wu_execution_mode = DryRun, wu_daily_counters_json = [], wu_proxy_snapshot_json = None,
       wu_personality_seed_json = [], wu_disabled_actions_json = [], wu_lifecycle_state = ''warming'',
       wu_strategy_snapshot_json = None, wu_cycle_config_json = None,
       wu_created_at = 0, wu_updated_at = 0\<rparr>],
     db_channel_rules := rules, db_next_id := 20\<rparr>"

definition ready_context :: send_context where
  "ready_context = \<lparr>cx_attempt = new_attempt 8 ready_comment, cx_campaign = some_campaign 3 2,
     cx_comment = ready_comment, cx_observed_post = Some ready_post, cx_target = Some (some_target 4 3),
     cx_campaign_account = Some (ready_member CAActive)\<rparr>"

definition ready_env :: "(unit, unit, zset_server, (string \<times> entry) list, send_log) sender_env" where
  "ready_env = \<lparr>en_gate = \<lparr>g_get = (\<lambda>_ _ _. None), g_set = (\<lambda>_ _ _ _ c. c), g_redis = None\<rparr>,
     en_settings = disabled_settings, en_send_enabled = True, en_require_limiter = False,
     en_slots = Some (map_zsets False None), en_limiter = None, en_limiter_base = hourly_limiter,
     en_redis = store_redis, en_random_id = int,
     en_send = (\<lambda>rq log. (Delivered ''55'' 9, log @ [(rq, Delivered ''55'' 9)]))\<rparr>"

definition ready_state ::
  "channel_rule list \<Rightarrow> (unit, unit, zset_server, (string \<times> entry) list, send_log) sender_state" where
  "ready_state rules = \<lparr>ss_db = ready_db rules, ss_cache = (), ss_counters = (), ss_slots = no_slots, ss_limits = [],
     ss_telegram = [], ss_reservation = None\<rparr>"

lemmas ready_defs = ready_db_def ready_context_def ready_member_def ready_comment_def ready_post_def ready_account_def
  some_campaign_def some_target_def some_comment_def new_attempt_def empty_db_def imported_account_def

lemma ready_load: "load_context 8 2 (ready_db rules) = Inr ready_context"
  by (simp add: load_context_def require_attempt_for_workspace_def get_attempt_for_workspace_def
      campaign_in_workspace_def require_campaign_def get_campaign_def require_generated_comment_def
      get_generated_comment_def get_observed_post_def target_or_none_def get_target_def
      campaign_account_or_none_def get_campaign_account_def ready_defs)

lemma ready_valid: "validate_send ready_context = Inr ()"
  by (simp add: validate_send_Inr publishable_def ready_defs)

lemma ready_account_id: "cx_account_id ready_context = Some 6"
  by (simp add: cx_account_id_def opt_or_def ready_defs)

lemma ready_gate:
  "\<exists>v. evaluate_gate (en_gate ready_env) (en_settings ready_env) 0 2 6 Commenting () () (ready_db rules) =
     (Inr v, (), (), ready_db rules) \<and> gv_severity v \<noteq> VerdictBlocked"
  by (simp add: evaluate_gate_def is_safety_pipeline_v2_enabled_def legacy_shim_verdict_def find_account_def
      proxy_healthy_def HEALTHY_PROXY_STATUSES_def latest_warmup_def get_active_quarantine_def
      verdict_of_def aggregate_severity_def record_blocked_verdict_def Let_def ready_defs)

lemma ready_slot:
  "\<exists>rv z ms. reserve (en_settings ready_env) (map_zsets False None) i 0 (6, ''commenting'')
     GATE_MAX_CONCURRENT_DEFAULT GATE_RESERVE_TTL_SECONDS no_slots = (Inr rv, z, ms) \<and> rv_reserved rv"
  by (simp add: reserve_def reserve_lua_def map_zsets_def no_slots_def map_view_def zset_now_def
      GATE_MAX_CONCURRENT_DEFAULT_def reservation_of_def Let_def)

lemma ready_passes_gate:
  "\<exists>st2. block_by_safety_gate ready_env 0 2 ready_context (ready_state rules) = (Inr None, st2)"
proof -
  obtain v where v: "evaluate_gate (en_gate ready_env) (en_settings ready_env) 0 2 6 Commenting () () (ready_db rules) =
     (Inr v, (), (), ready_db rules)" "gv_severity v \<noteq> VerdictBlocked" using ready_gate by blast
  have gate: "evaluate_commenting_gate ready_env 0 2 ready_context (ready_state rules) = (Inr (Some v), ready_state rules)"
    using v(1) by (simp add: evaluate_commenting_gate_def ready_account_id ready_state_def)
  obtain rv z ms where slot: "reserve (en_settings ready_env) (map_zsets False None) 20 0 (6, ''commenting'')
     GATE_MAX_CONCURRENT_DEFAULT GATE_RESERVE_TTL_SECONDS no_slots = (Inr rv, z, ms)" "rv_reserved rv"
    using ready_slot by blast
  have env: "en_slots ready_env = Some (map_zsets False None)" by (simp add: ready_env_def)
  have state: "ss_slots (ready_state rules) = no_slots" "db_next_id (ss_db (ready_state rules)) = 20"
    by (simp_all add: ready_state_def ready_db_def)
  have "\<exists>st2. take_gate_slot ready_env 0 2 ready_context (ready_state rules) = (Inr None, st2)"
    by (simp add: take_gate_slot_def try_gate_reserve_def env ready_account_id new_id_def state slot Let_def)
  then show ?thesis using gate v(2) by (simp add: block_by_safety_gate_def)
qed

definition blacklisted :: "channel_rule list" where
  "blacklisted = [\<lparr>cr_id = 15, cr_workspace_id = 2, cr_target_ref = ''@news'', cr_rule_type = ''blacklist'',
     cr_reason = None, cr_created_by = None, cr_created_at = 0\<rparr>]"

lemma blacklisted_send:
  "\<exists>st'. send_attempt ready_env 0 8 2 (ready_state blacklisted) =
     (Inr (skip_attempt ''CHANNEL_RULE_BLOCKED'' (Some ''blacklisted'') (new_attempt 8 ready_comment)), st')"
proof -
  obtain st2 where gate: "block_by_safety_gate ready_env 0 2 ready_context (ready_state blacklisted) = (Inr None, st2)"
    using ready_passes_gate by blast
  have "evaluate_target_allowed 2 (some_target 4 3) False (ready_db blacklisted) =
      \<lparr>cd_allowed = False, cd_why = Some ''blacklisted'', cd_matched_rule_id = Some 15\<rparr>"
    by (simp add: evaluate_target_allowed_def find_rule_def check_target_allowed_def blacklisted_def ready_defs)
  then have rule: "evaluate_target_allowed 2 (some_target 4 3) False (ss_db st2) =
      \<lparr>cd_allowed = False, cd_why = Some ''blacklisted'', cd_matched_rule_id = Some 15\<rparr>"
    using neuro_view_lookups(1) [OF block_by_safety_gate_passes(3) [OF gate]] by (simp add: ready_state_def)
  have cx: "cx_target ready_context = Some (some_target 4 3)" "cx_attempt ready_context = new_attempt 8 ready_comment"
    "at_status (new_attempt 8 ready_comment) = AtCreated" by (simp_all add: ready_context_def new_attempt_def)
  have load: "load_context 8 2 (ss_db (ready_state blacklisted)) = Inr ready_context"
    by (simp add: ready_state_def ready_load)
  have "en_send_enabled ready_env" by (simp add: ready_env_def)
  then show ?thesis
    by (simp add: send_attempt_def load ready_valid raise_if_send_disabled_def gate block_by_channel_rule_def cx rule Let_def)
qed

theorem denied_send_keeps_slot_witness:
  "\<exists>v. slot_granted ready_env 0 ready_context (ready_state blacklisted) v
         (ss_slots (snd (send_attempt ready_env 0 8 2 (ready_state blacklisted)))) \<and>
       ss_reservation (snd (send_attempt ready_env 0 8 2 (ready_state blacklisted))) = v \<and> v \<noteq> None"
proof -
  obtain st' where e: "send_attempt ready_env 0 8 2 (ready_state blacklisted) =
     (Inr (skip_attempt ''CHANNEL_RULE_BLOCKED'' (Some ''blacklisted'') (new_attempt 8 ready_comment)), st')"
    using blacklisted_send by blast
  have "load_context 8 2 (ss_db (ready_state blacklisted)) = Inr ready_context"
    by (simp add: ready_state_def ready_load)
  then have "\<exists>v. slot_granted ready_env 0 ready_context (ready_state blacklisted) v (ss_slots st') \<and> ss_reservation st' = v"
    using denied_send_keeps_slot [OF e] by (auto simp: skip_attempt_def)
  then show ?thesis using e
    by (auto simp: slot_granted_def ready_account_id ready_env_def)
qed

text \<open>Without the rule the comment is delivered, so the statements above are not empty.\<close>

lemma ready_send_delivers:
  "\<exists>rq. ss_telegram (snd (send_attempt ready_env 0 8 2 (ready_state []))) = [(rq, Delivered ''55'' 9)] \<and>
     sq_text rq = ''nice''"
proof -
  obtain st2 where gate: "block_by_safety_gate ready_env 0 2 ready_context (ready_state []) = (Inr None, st2)"
    using ready_passes_gate by blast
  note passed = block_by_safety_gate_passes [OF gate]
  have limits: "ss_limits st2 = []" "ss_telegram st2 = []" using passed(4,5) by (simp_all add: ready_state_def)
  have "evaluate_target_allowed 2 (some_target 4 3) False (ready_db []) =
      \<lparr>cd_allowed = True, cd_why = None, cd_matched_rule_id = None\<rparr>"
    by (simp add: evaluate_target_allowed_def find_rule_def check_target_allowed_def ready_defs)
  then have "evaluate_target_allowed 2 (some_target 4 3) False (ss_db st2) =
      \<lparr>cd_allowed = True, cd_why = None, cd_matched_rule_id = None\<rparr>"
    using neuro_view_lookups(1) [OF passed(3)] by (simp add: ready_state_def)
  then have rule: "block_by_channel_rule 0 2 ready_context st2 = (None, st2)"
    by (simp add: block_by_channel_rule_def ready_context_def)
  have cx: "at_status (cx_attempt ready_context) = AtCreated" by (simp add: ready_context_def new_attempt_def)
  have res: "reserve_for_attempt ready_env 0 2 ready_context st2 = (Inr (None, cx_attempt ready_context), st2)"
    by (simp add: reserve_for_attempt_def ready_env_def)
  have key: "\<exists>q. reserve_idempotency_key ready_env 0 k 8 (st2\<lparr>ss_db := s\<rparr>) = (Inr (), st2\<lparr>ss_db := s, ss_limits := q\<rparr>)"
    for k s
    by (simp add: reserve_idempotency_key_def ready_env_def client_call_def store_redis_def limits live_def Let_def) blast
  let ?k = "db_next_id (ss_db st2)"
  obtain st3 where "send_cleared ready_env 0 8 2 ready_context st2 =
      deliver ready_env 0 2 (ready_context\<lparr>cx_attempt := marked ?k (cx_attempt ready_context)\<rparr>) ?k None st3"
    and st3: "ss_telegram st3 = []"
    using key [of ?k "put_attempt (marked ?k (cx_attempt ready_context)) (snd (new_id (ss_db st2)))"] limits
    by (auto simp: send_cleared_def res cx marked_def new_id_def Let_def)
  moreover have "load_context 8 2 (ss_db (ready_state [])) = Inr ready_context"
    by (simp add: ready_state_def ready_load)
  moreover have "en_send_enabled ready_env" by (simp add: ready_env_def)
  ultimately have "send_attempt ready_env 0 8 2 (ready_state []) =
      deliver ready_env 0 2 (ready_context\<lparr>cx_attempt := marked ?k (cx_attempt ready_context)\<rparr>) ?k None st3"
    by (simp add: send_attempt_def cx ready_valid raise_if_send_disabled_def gate rule)
  then have "ss_telegram (snd (send_attempt ready_env 0 8 2 (ready_state []))) =
      [(send_request_of ready_env ready_context ?k, Delivered ''55'' 9)]"
    by (simp add: deliver_calls st3) (simp add: ready_env_def)
  moreover have "sq_text (send_request_of ready_env ready_context ?k) = ''nice''"
    by (simp add: send_request_of_def comment_text_def str_or_def ready_defs)
  ultimately show ?thesis by blast
qed

theorem called_attempts_are_settled_witness:
  "\<exists>row. require_attempt_for_workspace 8 2 (ss_db (snd (send_attempt ready_env 0 8 2 (ready_state [])))) = Inr row \<and>
     at_status row = AtSent \<and>
     map_view (ss_slots (snd (send_attempt ready_env 0 8 2 (ready_state [])))) 0 (6, ''commenting'') 20 = None"
proof -
  obtain x st' where e: "send_attempt ready_env 0 8 2 (ready_state []) = (x, st')" by fastforce
  have sent: "ss_telegram st' \<noteq> ss_telegram (ready_state [])" using ready_send_delivers e by (auto simp: ready_state_def)
  with called_attempts_are_settled [where en = ready_env and now = 0 and i = 8 and w = 2 and st = "ready_state []"] e
  obtain rq where settled: "settled 8 2 (fst (en_send ready_env rq (ss_telegram (ready_state [])))) x st'"
    and slots: "slots_given_back ready_env 0 (ss_slots (ready_state [])) (ss_slots st')"
    by auto
  have "map_view (ss_slots st') 0 (6, ''commenting'') 20 = None"
    using slots map_zsets_ok [of False None] map_zsets_up [of False]
    by (force simp: slots_given_back_def ready_env_def ready_state_def no_slots_view)
  then show ?thesis using settled e by (auto simp: settled_def ready_env_def)
qed

theorem flood_wait_is_for_ever_witness:
  "5 \<in> cooling (ss_db (run_any_sends [(ready_env, 0, 8, 2), (ready_env, seconds 9999999, 8, 2)]
     ((ready_state [])\<lparr>ss_db := (ready_db [])\<lparr>db_campaign_accounts := [ready_member CACooldown]\<rparr>\<rparr>)))"
proof -
  let ?st = "(ready_state [])\<lparr>ss_db := (ready_db [])\<lparr>db_campaign_accounts := [ready_member CACooldown]\<rparr>\<rparr>"
  have "members_distinct (ss_db ?st)" "5 \<in> cooling (ss_db ?st)"
    by (simp_all add: members_distinct_def cooling_def ready_member_def)
  then show ?thesis
    using flood_wait_is_for_ever [of ?st "[(ready_env, 0, 8, 2), (ready_env, seconds 9999999, 8, 2)]"]
    by (simp del: run_any_sends.simps) blast
qed

end
