(* ===== verification/WarmupEvents.thy ===== *)
theory WarmupEvents
  imports StatusMonitor Decimals
begin

text \<open>
  What the modules of \<open>backend/app/modules/warmup\<close> share: the settings they read, the random
  generator, the warm-up row as an object that is written back, and the event log (\<open>events.py\<close>).

  The warm-up operations run in one transaction that their caller commits, and abandons when an
  exception escapes. An operation therefore returns the new database only when it succeeds: its
  result is an error, or a value with the database.
\<close>

section \<open>Settings\<close>

record warmup_settings =
  wc_base :: settings
  wc_workers_enabled :: bool
  wc_default_cadence_hours :: int
  wc_default_duration_days :: int
  wc_cold_soak_min_hours :: int
  wc_cold_soak_max_hours :: int
  wc_max_consecutive_failures :: int
  wc_batch_limit :: nat
  wc_live_enabled :: bool
  wc_stagger_min_seconds :: int
  wc_stagger_max_seconds :: int
  wc_idle_detection_enabled :: bool
  wc_idle_threshold_minutes :: int
  wc_pre_production_enabled :: bool
  wc_pre_production_duration_hours :: int
  wc_circadian_enabled :: bool
  wc_lazy_day_probability :: rat
  wc_micro_session_min_minutes :: int
  wc_micro_session_max_minutes :: int
  wc_quiet_start :: int
  wc_quiet_end :: int

text \<open>The settings as \<open>config.py\<close> has them.\<close>

definition default_warmup_settings :: "settings \<Rightarrow> warmup_settings" where
  "default_warmup_settings base =
     \<lparr>wc_base = base, wc_workers_enabled = False, wc_default_cadence_hours = 24,
      wc_default_duration_days = 14, wc_cold_soak_min_hours = 12, wc_cold_soak_max_hours = 24,
      wc_max_consecutive_failures = 3, wc_batch_limit = 50, wc_live_enabled = False,
      wc_stagger_min_seconds = 15, wc_stagger_max_seconds = 30, wc_idle_detection_enabled = False,
      wc_idle_threshold_minutes = 60, wc_pre_production_enabled = False,
      wc_pre_production_duration_hours = 2, wc_circadian_enabled = True,
      wc_lazy_day_probability = 1 / 10, wc_micro_session_min_minutes = 2,
      wc_micro_session_max_minutes = 7, wc_quiet_start = 23, wc_quiet_end = 8\<rparr>"

section \<open>Random numbers\<close>

text \<open>
  A \<open>random.Random\<close> as an explicit state: \<open>random()\<close>, \<open>randint(a, b)\<close>, and the indices that
  \<open>sample(population, k)\<close> and \<open>shuffle(population)\<close> draw, which depend only on the sizes.
\<close>

record 'g rng =
  rg_random :: "'g \<Rightarrow> rat \<times> 'g"
  rg_randint :: "int \<Rightarrow> int \<Rightarrow> 'g \<Rightarrow> int \<times> 'g"
  rg_sample :: "nat \<Rightarrow> nat \<Rightarrow> 'g \<Rightarrow> nat list \<times> 'g"

definition rng_ok :: "'g rng \<Rightarrow> bool" where
  "rng_ok rg \<longleftrightarrow>
     (\<forall>g. 0 \<le> fst (rg_random rg g) \<and> fst (rg_random rg g) < 1) \<and>
     (\<forall>a b g. a \<le> b \<longrightarrow> a \<le> fst (rg_randint rg a b g) \<and> fst (rg_randint rg a b g) \<le> b) \<and>
     (\<forall>n k g. k \<le> n \<longrightarrow> length (fst (rg_sample rg n k g)) = k \<and> distinct (fst (rg_sample rg n k g)) \<and>
        (\<forall>i\<in>set (fst (rg_sample rg n k g)). i < n))"

definition rng_sample :: "'g rng \<Rightarrow> 'a list \<Rightarrow> nat \<Rightarrow> 'g \<Rightarrow> 'a list \<times> 'g" where
  "rng_sample rg xs k g = (let (is, g1) = rg_sample rg (length xs) k g in (map (\<lambda>i. xs ! i) is, g1))"

text \<open>\<open>xs[rng.randint(0, len(xs) - 1)]\<close>, on a list that is not empty.\<close>

definition rng_pick :: "'g rng \<Rightarrow> 'a list \<Rightarrow> 'g \<Rightarrow> 'a \<times> 'g" where
  "rng_pick rg xs g = (let (i, g1) = rg_randint rg 0 (int (length xs) - 1) g in (xs ! nat i, g1))"

text \<open>An instance: the lowest number, the first elements.\<close>

definition least_rng :: "unit rng" where
  "least_rng = \<lparr>rg_random = (\<lambda>g. (0, g)), rg_randint = (\<lambda>a b g. (a, g)), rg_sample = (\<lambda>n k g. ([0..<k], g))\<rparr>"

lemma least_rng_ok: "rng_ok least_rng"
  by (simp add: rng_ok_def least_rng_def)

lemma rng_random_bounds:
  "rng_ok rg \<Longrightarrow> rg_random rg g = (x, g') \<Longrightarrow> 0 \<le> x \<and> x < 1"
  unfolding rng_ok_def by (metis fst_conv)

lemma rng_randint_bounds:
  "rng_ok rg \<Longrightarrow> a \<le> b \<Longrightarrow> rg_randint rg a b g = (x, g') \<Longrightarrow> a \<le> x \<and> x \<le> b"
  unfolding rng_ok_def by (metis fst_conv)

lemma rng_pick_mem:
  assumes "rng_ok rg" and "xs \<noteq> []" and "rng_pick rg xs g = (x, g')"
  shows "x \<in> set xs"
proof -
  obtain i g1 where i: "rg_randint rg 0 (int (length xs) - 1) g = (i, g1)" by fastforce
  have "0 \<le> int (length xs) - 1" using assms(2) by (cases xs) auto
  from rng_randint_bounds [OF assms(1) this i] have "nat i < length xs" by linarith
  then show ?thesis using assms(3) by (auto simp: rng_pick_def i)
qed

lemma rng_sample_spec:
  assumes "rng_ok rg" and "k \<le> length xs" and "rng_sample rg xs k g = (ys, g')"
  shows "length ys = k \<and> set ys \<subseteq> set xs \<and> (distinct xs \<longrightarrow> distinct ys)"
proof -
  obtain js g1 where js: "rg_sample rg (length xs) k g = (js, g1)" by fastforce
  with assms(1,2) have "length js = k" "distinct js" "\<forall>i\<in>set js. i < length xs"
    unfolding rng_ok_def by (metis fst_conv)+
  moreover have "ys = map (\<lambda>i. xs ! i) js" using assms(3) by (simp add: rng_sample_def js)
  ultimately show ?thesis by (auto simp: distinct_map inj_on_def nth_eq_iff_index_eq)
qed

section \<open>The event log\<close>

definition WARMUP_EVENT_SEVERITIES :: "string list" where
  "WARMUP_EVENT_SEVERITIES = [''info'', ''success'', ''warning'', ''error'', ''debug'']"

definition EVENT_SEVERITY_DEFAULTS :: "(string, string) dict" where
  "EVENT_SEVERITY_DEFAULTS =
     [(''action_executed_ok'', ''success''), (''channel_blacklisted'', ''warning''),
      (''circuit_breaker_triggered'', ''error''), (''circuit_breaker_tripped'', ''error''),
      (''dispatch_skipped_cold_soak'', ''debug''), (''p2p_contact_recording_failed'', ''warning''),
      (''queue_enqueue_failed'', ''error''), (''session_action_executed'', ''success''),
      (''session_action_simulated'', ''success''), (''task_executed'', ''success''),
      (''task_failed'', ''error''), (''warmup_dispatch_blocked_by_gate'', ''warning'')]"

definition SKIP_WARNING_REASONS :: "string list" where
  "SKIP_WARNING_REASONS = [''safety_gate_blocked'', ''flood_wait'']"

text \<open>\<open>str(payload.get("reason") or "")\<close>; only texts are compared with texts.\<close>

definition payload_reason :: "(string, json) dict \<Rightarrow> string" where
  "payload_reason d = (case dict_get d ''reason'' of Some (JStr r) \<Rightarrow> r | _ \<Rightarrow> [])"

definition event_severity :: "string \<Rightarrow> (string, json) dict \<Rightarrow> string" where
  "event_severity event_type d =
     (if event_type = ''task_skipped''
      then let reason = payload_reason d
           in if reason \<in> set SKIP_WARNING_REASONS then ''warning''
              else if reason = ''cyclic_inactive_window'' then ''debug'' else ''info''
      else if event_type = ''micro_session_window_opened'' then ''info''
      else case dict_get EVENT_SEVERITY_DEFAULTS event_type of Some v \<Rightarrow> v | None \<Rightarrow> ''info'')"

definition resolve_event_severity ::
  "string \<Rightarrow> (string, json) dict \<Rightarrow> string option \<Rightarrow> string result" where
  "resolve_event_severity event_type d explicit =
     (case explicit of
        Some v \<Rightarrow> if v \<in> set WARMUP_EVENT_SEVERITIES then Inr v
                  else Inl (ValueError (''invalid warmup event severity: '' @ v))
      | None \<Rightarrow> Inr (event_severity event_type d))"

definition warmup_event_row ::
  "uuid \<Rightarrow> time \<Rightarrow> warmup_session \<Rightarrow> string \<Rightarrow> (string, json) dict \<Rightarrow> warmup_event" where
  "warmup_event_row i now x event_type payload =
     (let d = sanitize_warmup_event_payload payload in
      \<lparr>we_id = i, we_workspace_id = wu_workspace_id x, we_session_id = wu_id x,
       we_event_type = event_type, we_severity = event_severity event_type d,
       we_payload_json = d, we_created_at = now\<rparr>)"

text \<open>No caller passes a severity of its own.\<close>

definition write_warmup_event ::
  "time \<Rightarrow> warmup_session \<Rightarrow> string \<Rightarrow> (string, json) dict \<Rightarrow> db \<Rightarrow> db" where
  "write_warmup_event now x event_type payload s =
     (let (i, s1) = new_id s in
      s1\<lparr>db_warmup_events := db_warmup_events s1 @ [warmup_event_row i now x event_type payload]\<rparr>)"

lemma severity_allowed: "event_severity ty d \<in> set WARMUP_EVENT_SEVERITIES"
proof -
  have "dict_get EVENT_SEVERITY_DEFAULTS ty = Some v \<Longrightarrow> v \<in> set WARMUP_EVENT_SEVERITIES" for v
    unfolding EVENT_SEVERITY_DEFAULTS_def dict_get_def WARMUP_EVENT_SEVERITIES_def
    by (auto split: if_splits dest!: map_of_SomeD)
  then show ?thesis
    by (auto simp: event_severity_def Let_def WARMUP_EVENT_SEVERITIES_def split: option.splits)
qed

lemma resolve_severity_allowed:
  "resolve_event_severity ty d explicit = Inr v \<Longrightarrow> v \<in> set WARMUP_EVENT_SEVERITIES"
  using severity_allowed by (auto simp: resolve_event_severity_def split: option.splits if_splits)

section \<open>The session as an object\<close>

text \<open>
  The operations change the fields of a loaded \<open>WarmupSession\<close>; its row in the table follows at the
  next flush. Here the changed row replaces the one with its identifier.
\<close>

definition save_session :: "warmup_session \<Rightarrow> db \<Rightarrow> db" where
  "save_session x s = s\<lparr>db_warmups := update_where (\<lambda>r. wu_id r = wu_id x) (\<lambda>_. x) (db_warmups s)\<rparr>"

definition find_session :: "uuid \<Rightarrow> db \<Rightarrow> warmup_session option" where
  "find_session i s = find (\<lambda>x. wu_id x = i) (db_warmups s)"

text \<open>\<open>advance\<close> as part of a transaction.\<close>

definition advance_in ::
  "account \<Rightarrow> lifecycle_state \<Rightarrow> time \<Rightarrow> string \<Rightarrow> (string, json) dict \<Rightarrow> db \<Rightarrow> db result" where
  "advance_in a target now reason md s =
     (case advance a target now reason None False md s of (Inl e, _) \<Rightarrow> Inl e | (Inr _, s') \<Rightarrow> Inr s')"

text \<open>The account of a session; the foreign key excludes that there is none.\<close>

definition session_account :: "warmup_session \<Rightarrow> db \<Rightarrow> account result" where
  "session_account x s =
     (case account_by_id s (wu_account_id x) of None \<Rightarrow> Inl (LookupError ''account'') | Some a \<Rightarrow> Inr a)"

definition session_metadata :: "warmup_session \<Rightarrow> (string, json) dict" where
  "session_metadata x = [(''warmup_session_id'', JStr (uuid_text (wu_id x)))]"

end
