(* ===== verification/WarmupPeers.thy ===== *)
theory WarmupPeers
  imports WarmupEvents "HOL-Library.Product_Lexorder" "HOL-Library.Multiset"
begin

text \<open>
  Trusted peers and friends of the warm-up: \<open>warmup/p2p_graph.py\<close> (who may write to whom) and
  \<open>warmup/p2p.py\<close> (the peer of a message, and what is recorded after it). The generator that
  \<open>_deterministic_rng\<close> seeds with a digest of workspace and account is a parameter, and so is \<open>ord\<close>, the
  order of the identifiers: those of new links are random (\<open>uuid4\<close>), so that links made at the same
  time are read in any order.
\<close>

section \<open>Friends\<close>

text \<open>\<open>list(dict.fromkeys(xs))\<close>: the first occurrence of every element.\<close>

definition dedupe :: "'a list \<Rightarrow> 'a list" where
  "dedupe xs = rev (remdups (rev xs))"

definition friend_rows :: "(uuid \<Rightarrow> nat) \<Rightarrow> uuid \<Rightarrow> uuid \<Rightarrow> db \<Rightarrow> friend_link list" where
  "friend_rows ord a w s =
     sort_key (\<lambda>l. (fl_created_at l, ord (fl_id l)))
       (filter (\<lambda>l. fl_workspace_id l = w \<and> fl_account_id l = a) (db_friend_links s))"

definition get_friends :: "(uuid \<Rightarrow> nat) \<Rightarrow> uuid \<Rightarrow> uuid \<Rightarrow> db \<Rightarrow> uuid list" where
  "get_friends ord a w s = map fl_friend_account_id (friend_rows ord a w s)"

definition touch_friend_interaction :: "uuid \<Rightarrow> uuid \<Rightarrow> uuid \<Rightarrow> time \<Rightarrow> db \<Rightarrow> db" where
  "touch_friend_interaction w a f now s =
     s\<lparr>db_friend_links := update_where
         (\<lambda>l. fl_workspace_id l = w \<and>
              (fl_account_id l = a \<and> fl_friend_account_id l = f \<or>
               fl_account_id l = f \<and> fl_friend_account_id l = a))
         (\<lambda>l. l\<lparr>fl_last_interaction_at := Some now\<rparr>) (db_friend_links s)\<rparr>"

definition peer_open :: "uuid \<Rightarrow> trusted_peer \<Rightarrow> bool" where
  "peer_open w p \<longleftrightarrow>
     tp_workspace_id p = w \<and> tp_revoked_at p = None \<and> tp_current_contacts p < tp_max_active_contacts p"

definition eligible_friend_candidates :: "uuid \<Rightarrow> uuid \<Rightarrow> db \<Rightarrow> uuid list" where
  "eligible_friend_candidates a w s =
     dedupe (take 100
       (concat (map (\<lambda>p. map acc_id
           (filter (\<lambda>r. acc_id r = tp_account_id p \<and> acc_workspace_id r = w \<and> acc_id r \<noteq> a \<and>
                        acc_telegram_user_id r \<noteq> None) (db_accounts s)))
         (filter (peer_open w) (sort_key tp_created_at (db_trusted_peers s))))))"

definition add_link :: "uuid \<Rightarrow> uuid \<Rightarrow> uuid \<Rightarrow> time \<Rightarrow> db \<Rightarrow> db" where
  "add_link w a f now s =
     (if a = f then s
      else if list_ex (\<lambda>l. fl_workspace_id l = w \<and> fl_account_id l = a \<and> fl_friend_account_id l = f)
                (db_friend_links s) then s
      else let (i, s1) = new_id s in
        s1\<lparr>db_friend_links := db_friend_links s1 @
             [\<lparr>fl_id = i, fl_workspace_id = w, fl_account_id = a, fl_friend_account_id = f,
               fl_created_at = now, fl_last_interaction_at = None\<rparr>]\<rparr>)"

fun link_friends ::
  "'g rng \<Rightarrow> uuid \<Rightarrow> uuid \<Rightarrow> time \<Rightarrow> uuid list \<Rightarrow> 'g \<Rightarrow> db \<Rightarrow> db" where
  "link_friends rg w a now [] g s = s"
| "link_friends rg w a now (f # fs) g s =
     (let s1 = add_link w a f now s;
          (x, g1) = rg_random rg g;
          s2 = (if x < 1 / 2 then add_link w f a now s1 else s1)
      in link_friends rg w a now fs g1 s2)"

definition assign_friends ::
  "(uuid \<Rightarrow> nat) \<Rightarrow> 'g rng \<Rightarrow> 'g \<Rightarrow> int \<Rightarrow> uuid \<Rightarrow> uuid \<Rightarrow> time \<Rightarrow> db \<Rightarrow> uuid list \<times> db" where
  "assign_friends ord rg g k a w now s =
     (let existing = get_friends ord a w s in
      if existing \<noteq> [] then (existing, s)
      else let candidates = eligible_friend_candidates a w s in
        if candidates = [] then ([], s)
        else let (chosen, g1) = rng_sample rg candidates (min (nat (max k 0)) (length candidates)) g
             in (chosen, link_friends rg w a now chosen g1 s))"

section \<open>Peers\<close>

record peer_candidate =
  pc_peer_row_id :: uuid
  pc_account_id :: uuid
  pc_telegram_user_id :: string
  pc_current_contacts :: int
  pc_max_active_contacts :: int

text \<open>The join of peers, accounts and links, with its \<open>WHERE\<close> clause and its order.\<close>

definition peer_rows :: "uuid \<Rightarrow> uuid \<Rightarrow> uuid list \<Rightarrow> time \<Rightarrow> db \<Rightarrow> (trusted_peer \<times> account \<times> friend_link) list" where
  "peer_rows w a friends now s =
     sort_key (\<lambda>(p, r, l). (case fl_last_interaction_at l of None \<Rightarrow> (0::int, 0) | Some t \<Rightarrow> (1, t), fl_created_at l))
       (filter (\<lambda>(p, r, l).
           acc_id r = tp_account_id p \<and>
           fl_workspace_id l = w \<and> fl_account_id l = a \<and> fl_friend_account_id l = acc_id r \<and>
           peer_open w p \<and> tp_account_id p \<in> set friends \<and> tp_eligible_from p \<le> now \<and>
           acc_workspace_id r = w \<and> acc_telegram_user_id r \<noteq> None)
         (List.product (db_trusted_peers s) (List.product (db_accounts s) (db_friend_links s))))"

definition candidate_of :: "trusted_peer \<Rightarrow> account \<Rightarrow> peer_candidate" where
  "candidate_of p r =
     \<lparr>pc_peer_row_id = tp_id p, pc_account_id = acc_id r,
      pc_telegram_user_id = (case acc_telegram_user_id r of None \<Rightarrow> ''None'' | Some t \<Rightarrow> t),
      pc_current_contacts = tp_current_contacts p, pc_max_active_contacts = tp_max_active_contacts p\<rparr>"

definition select_eligible_peer ::
  "(uuid \<Rightarrow> nat) \<Rightarrow> 'g rng \<Rightarrow> 'g \<Rightarrow> uuid \<Rightarrow> uuid \<Rightarrow> time \<Rightarrow> uuid list \<Rightarrow> db \<Rightarrow> peer_candidate option \<times> db" where
  "select_eligible_peer ord rg g w a now exclude s =
     (let known = get_friends ord a w s;
          (friends, s1) = (if known = [] then assign_friends ord rg g 3 a w now s else (known, s))
      in if friends = [] then (None, s1)
         else (case find (\<lambda>(p, r, l). acc_id r \<notin> set exclude \<and> acc_id r \<noteq> a) (peer_rows w a friends now s1) of
                 None \<Rightarrow> (None, s1) | Some (p, r, l) \<Rightarrow> (Some (candidate_of p r), s1)))"

definition find_peer :: "uuid \<Rightarrow> uuid \<Rightarrow> db \<Rightarrow> trusted_peer option" where
  "find_peer w a s = find (\<lambda>p. tp_workspace_id p = w \<and> tp_account_id p = a) (db_trusted_peers s)"

definition count_contact :: "uuid \<Rightarrow> uuid \<Rightarrow> time \<Rightarrow> db \<Rightarrow> db" where
  "count_contact w a now s =
     s\<lparr>db_trusted_peers := update_where (\<lambda>p. tp_workspace_id p = w \<and> tp_account_id p = a)
         (\<lambda>p. p\<lparr>tp_current_contacts := tp_current_contacts p + 1, tp_updated_at := now\<rparr>) (db_trusted_peers s)\<rparr>"

text \<open>The counts after the contact: of the receiver and, when it is in the pool, of the sender.\<close>

definition record_p2p_contact ::
  "uuid \<Rightarrow> uuid \<Rightarrow> uuid \<Rightarrow> time \<Rightarrow> db \<Rightarrow> (int \<times> int option \<times> db) result" where
  "record_p2p_contact w sender receiver now s =
     (case find_peer w receiver s of
        None \<Rightarrow> Inl (ValueError ''receiver is not in trusted-peer pool'')
      | Some _ \<Rightarrow>
          let s1 = touch_friend_interaction w sender receiver now (count_contact w receiver now s);
              s2 = (case find_peer w sender s1 of None \<Rightarrow> s1 | Some _ \<Rightarrow> count_contact w sender now s1)
          in Inr (case find_peer w receiver s2 of None \<Rightarrow> 0 | Some p \<Rightarrow> tp_current_contacts p,
                  map_option tp_current_contacts (find_peer w sender s2), s2))"

section \<open>The friend graph\<close>

lemma set_dedupe [simp]: "set (dedupe xs) = set xs"
  by (simp add: dedupe_def)

lemma distinct_dedupe [simp]: "distinct (dedupe xs)"
  by (simp add: dedupe_def)

text \<open>Links are unique, never lead back to their account, and were numbered before the next identifier.\<close>

definition links_ok :: "db \<Rightarrow> bool" where
  "links_ok s \<longleftrightarrow>
     distinct (map (\<lambda>l. (fl_workspace_id l, fl_account_id l, fl_friend_account_id l)) (db_friend_links s)) \<and>
     (\<forall>l\<in>set (db_friend_links s). fl_account_id l \<noteq> fl_friend_account_id l \<and> fl_id l < db_next_id s)"

lemma add_link_ok: "links_ok s \<Longrightarrow> links_ok (add_link w a f now s)"
  unfolding links_ok_def add_link_def new_id_def
  by (auto simp: list_ex_iff less_Suc_eq)

lemma link_friends_ok: "links_ok s \<Longrightarrow> links_ok (link_friends rg w a now fs g s)"
  by (induction fs arbitrary: g s) (auto simp: Let_def add_link_ok split: prod.split)

lemma assign_friends_ok: "links_ok s \<Longrightarrow> links_ok (snd (assign_friends ord rg g k a w now s))"
  by (auto simp: assign_friends_def Let_def link_friends_ok split: prod.split)

lemma touch_ok: "links_ok s \<Longrightarrow> links_ok (touch_friend_interaction w a f now s)"
  unfolding links_ok_def touch_friend_interaction_def
  by (auto simp: map_update_where query_simps split: if_splits)

lemma candidates_spec:
  "f \<in> set (eligible_friend_candidates a w s) \<Longrightarrow>
     f \<noteq> a \<and> (\<exists>p\<in>set (db_trusted_peers s). peer_open w p \<and> tp_account_id p = f) \<and>
     (\<exists>r\<in>set (db_accounts s). acc_id r = f \<and> acc_workspace_id r = w \<and> acc_telegram_user_id r \<noteq> None)"
  unfolding eligible_friend_candidates_def by (force dest!: in_set_takeD)

text \<open>What one link adds.\<close>

lemma friend_filter_add:
  assumes "\<And>l. l \<in> set (db_friend_links s) \<Longrightarrow> \<not> (fl_workspace_id l = w \<and> fl_account_id l = a \<and> fl_friend_account_id l = f)"
    and "a \<noteq> f"
  shows "db_friend_links (add_link w a f now s) = db_friend_links s @
    [\<lparr>fl_id = db_next_id s, fl_workspace_id = w, fl_account_id = a, fl_friend_account_id = f,
      fl_created_at = now, fl_last_interaction_at = None\<rparr>]"
    "db_next_id (add_link w a f now s) = Suc (db_next_id s)"
  using assms by (auto simp: add_link_def new_id_def list_ex_iff)

definition own_links :: "uuid \<Rightarrow> uuid \<Rightarrow> db \<Rightarrow> friend_link list" where
  "own_links a w s = filter (\<lambda>l. fl_workspace_id l = w \<and> fl_account_id l = a) (db_friend_links s)"

lemma own_links_back: "f \<noteq> a \<Longrightarrow> own_links a w (add_link w f a now s) = own_links a w s"
  by (auto simp: own_links_def add_link_def new_id_def)

lemma own_links_add:
  assumes "f \<notin> fl_friend_account_id ` set (own_links a w s)" and "a \<noteq> f"
  shows "own_links a w (add_link w a f now s) = own_links a w s @
    [\<lparr>fl_id = db_next_id s, fl_workspace_id = w, fl_account_id = a, fl_friend_account_id = f,
      fl_created_at = now, fl_last_interaction_at = None\<rparr>]"
  using assms by (auto simp: own_links_def add_link_def new_id_def list_ex_iff)

text \<open>The links an assignment adds: one for each friend.\<close>

lemma link_friends_own:
  assumes "distinct fs" and "a \<notin> set fs" and "set fs \<inter> fl_friend_account_id ` set (own_links a w s) = {}"
  shows "map fl_friend_account_id (own_links a w (link_friends rg w a now fs g s)) =
    map fl_friend_account_id (own_links a w s) @ fs"
  using assms
proof (induction fs arbitrary: g s)
  case (Cons f fs)
  obtain x g1 where x: "rg_random rg g = (x, g1)" by fastforce
  let ?s1 = "add_link w a f now s"
  let ?s2 = "if x < 1 / 2 then add_link w f a now ?s1 else ?s1"
  have own1: "own_links a w ?s1 = own_links a w s @
    [\<lparr>fl_id = db_next_id s, fl_workspace_id = w, fl_account_id = a, fl_friend_account_id = f,
      fl_created_at = now, fl_last_interaction_at = None\<rparr>]"
    using Cons.prems by (intro own_links_add) auto
  have own2: "own_links a w ?s2 = own_links a w ?s1" using Cons.prems(2) by (auto simp: own_links_back)
  have "map fl_friend_account_id (own_links a w (link_friends rg w a now fs g1 ?s2)) =
    map fl_friend_account_id (own_links a w ?s2) @ fs"
  proof (rule Cons.IH)
    show "set fs \<inter> fl_friend_account_id ` set (own_links a w ?s2) = {}"
      using Cons.prems unfolding own2 own1 by auto
  qed (use Cons.prems in auto)
  then show ?case by (simp only: link_friends.simps x Let_def prod.case own2 own1) simp
qed simp

text \<open>The friends of an account are those of its links, whatever the order of the identifiers.\<close>

lemma friends_of_links: "mset (get_friends ord a w s) = mset (map fl_friend_account_id (own_links a w s))"
  by (simp add: get_friends_def friend_rows_def own_links_def)

lemma get_friends_own: "get_friends ord a w s = [] \<longleftrightarrow> own_links a w s = []"
  using friends_of_links [of ord a w s] by (metis map_is_Nil_conv mset_zero_iff)

section \<open>What an assignment gives\<close>

text \<open>
  C38. The friends of an account are chosen once. An assignment to an account without friends picks
  at most \<open>k\<close> distinct candidates (accounts of the workspace other than itself, with a Telegram
  identity and an open place in the pool) and leaves exactly them, each once, as the friends that
  \<open>get_friends\<close> reads. Any later assignment, whatever the pool has become, returns these friends, in the
  order their links are read in, and changes nothing. No order is promised: the links share one time and
  their identifiers are random. The links stay unique, and none leads back to its own account.
\<close>

theorem friends_are_assigned_once:
  assumes "rng_ok rg" and "links_ok s" and "get_friends ord a w s = []"
    and "assign_friends ord rg g k a w now s = (fs, s')" and "fs \<noteq> []"
  shows "links_ok s' \<and> mset (get_friends ord' a w s') = mset fs \<and> distinct fs \<and> int (length fs) \<le> k \<and> a \<notin> set fs \<and>
    set fs \<subseteq> set (eligible_friend_candidates a w s) \<and>
    (\<forall>(rg' :: 'h rng) g' k' now' t. db_friend_links t = db_friend_links s' \<longrightarrow>
       assign_friends ord' rg' g' k' a w now' t = (get_friends ord' a w s', t))"
proof -
  let ?cs = "eligible_friend_candidates a w s"
  let ?k = "min (nat (max k 0)) (length ?cs)"
  have cs: "?cs \<noteq> []" using assms(3-5) by (auto simp: assign_friends_def)
  obtain chosen g1 where c: "rng_sample rg ?cs ?k g = (chosen, g1)" by fastforce
  have fs: "fs = chosen" "s' = link_friends rg w a now fs g1 s"
    using assms(3,4) cs c by (auto simp: assign_friends_def)
  have sample: "length fs = ?k" "set fs \<subseteq> set ?cs" "distinct fs"
    using rng_sample_spec [OF assms(1) _ c] fs by (auto simp: eligible_friend_candidates_def)
  have a: "a \<notin> set fs" using sample(2) candidates_spec by blast
  have own: "own_links a w s = []" using assms(3) get_friends_own by blast
  have friends: "mset (get_friends ord' a w s') = mset fs"
    using link_friends_own [OF sample(3) a, of w s rg now g1] own unfolding friends_of_links fs(2) by simp
  have "links_ok s'" using assign_friends_ok [OF assms(2), of ord rg g k a w now] assms(4) by simp
  moreover have "int (length fs) \<le> k" using sample(1) assms(5) by (cases fs) auto
  moreover have "assign_friends ord' rg' g' k' a w now' t = (get_friends ord' a w s', t)"
    if "db_friend_links t = db_friend_links s'" for rg' :: "'h rng" and g' k' now' t
  proof -
    have "get_friends ord' a w t = get_friends ord' a w s'" using that by (simp add: get_friends_def friend_rows_def)
    moreover have "get_friends ord' a w s' \<noteq> []" using friends assms(5) by auto
    ultimately show ?thesis by (simp add: assign_friends_def)
  qed
  ultimately show ?thesis using sample a friends by blast
qed

definition peer_account :: "uuid \<Rightarrow> account" where
  "peer_account a = (imported_account a 2 0)\<lparr>acc_telegram_user_id := Some ''77''\<rparr>"

definition some_peer :: "uuid \<Rightarrow> uuid \<Rightarrow> trusted_peer" where
  "some_peer i a = \<lparr>tp_id = i, tp_workspace_id = 2, tp_account_id = a, tp_eligible_from = 0,
     tp_max_active_contacts = 3, tp_current_contacts = 0, tp_revoked_at = None, tp_created_at = 0, tp_updated_at = 0\<rparr>"

definition peer_db :: db where
  "peer_db = empty_db\<lparr>db_accounts := [peer_account 6, peer_account 7, peer_account 8],
     db_trusted_peers := [some_peer 4 7, some_peer 5 8], db_next_id := 20\<rparr>"

lemmas peer_db_defs = peer_db_def peer_account_def some_peer_def imported_account_def empty_db_def

lemma peer_db_assigns:
  "assign_friends id least_rng () 3 6 2 0 peer_db = ([7, 8], snd (assign_friends id least_rng () 3 6 2 0 peer_db))"
  by code_simp

text \<open>Identifiers that happen to sort backwards give the friends in the other order; they are the same friends.\<close>

lemma friends_read_backwards:
  "get_friends (\<lambda>i. 99 - i) 6 2 (snd (assign_friends id least_rng () 3 6 2 0 peer_db)) = [8, 7]"
  by code_simp

lemma friends_are_assigned_once_witness:
  "mset (get_friends (\<lambda>i. 99 - i) 6 2 (snd (assign_friends id least_rng () 3 6 2 0 peer_db))) = {#7, 8#} \<and>
   assign_friends (\<lambda>i. 99 - i) least_rng () 5 6 2 1 (snd (assign_friends id least_rng () 3 6 2 0 peer_db)) =
     ([8, 7], snd (assign_friends id least_rng () 3 6 2 0 peer_db))"
proof -
  have "links_ok peer_db" "get_friends id 6 2 peer_db = []"
    by (simp_all add: links_ok_def get_friends_def friend_rows_def peer_db_defs)
  from friends_are_assigned_once [OF least_rng_ok this peer_db_assigns, where ord' = "\<lambda>i. 99 - i" and 'h = unit]
  show ?thesis by (simp add: friends_read_backwards)
qed

section \<open>The peer of a message\<close>

text \<open>The friends of an account it may write to now.\<close>

definition may_write_to :: "uuid \<Rightarrow> uuid \<Rightarrow> uuid list \<Rightarrow> time \<Rightarrow> db \<Rightarrow> uuid \<Rightarrow> bool" where
  "may_write_to w a exclude now s f \<longleftrightarrow>
     f \<in> fl_friend_account_id ` set (own_links a w s) \<and> f \<noteq> a \<and> f \<notin> set exclude \<and>
     (\<exists>p\<in>set (db_trusted_peers s). tp_account_id p = f \<and> peer_open w p \<and> tp_eligible_from p \<le> now) \<and>
     (\<exists>r\<in>set (db_accounts s). acc_id r = f \<and> acc_workspace_id r = w \<and> acc_telegram_user_id r \<noteq> None)"

lemma friend_link_mem:
  "f \<in> set (get_friends ord a w s) \<longleftrightarrow>
     (\<exists>l\<in>set (db_friend_links s). fl_workspace_id l = w \<and> fl_account_id l = a \<and> fl_friend_account_id l = f)"
  "f \<in> fl_friend_account_id ` set (own_links a w s) \<longleftrightarrow>
     (\<exists>l\<in>set (db_friend_links s). fl_workspace_id l = w \<and> fl_account_id l = a \<and> fl_friend_account_id l = f)"
  by (auto simp: get_friends_def friend_rows_def own_links_def)

lemma peer_rows_mem:
  "(p, r, l) \<in> set (peer_rows w a friends now s) \<longleftrightarrow>
     p \<in> set (db_trusted_peers s) \<and> r \<in> set (db_accounts s) \<and> l \<in> set (db_friend_links s) \<and>
     acc_id r = tp_account_id p \<and> fl_workspace_id l = w \<and> fl_account_id l = a \<and>
     fl_friend_account_id l = acc_id r \<and> peer_open w p \<and> tp_account_id p \<in> set friends \<and>
     tp_eligible_from p \<le> now \<and> acc_workspace_id r = w \<and> acc_telegram_user_id r \<noteq> None"
  by (auto simp: peer_rows_def)

lemma select_peer_sound:
  assumes "get_friends ord a w s \<noteq> []" and "select_eligible_peer ord rg g w a now exclude s = (Some c, s')"
  shows "s' = s \<and> may_write_to w a exclude now s (pc_account_id c)"
proof -
  from assms obtain p r l where
    f: "find (\<lambda>(p, r, l). acc_id r \<notin> set exclude \<and> acc_id r \<noteq> a) (peer_rows w a (get_friends ord a w s) now s) = Some (p, r, l)"
    and c: "c = candidate_of p r" "s' = s"
    by (auto simp: select_eligible_peer_def Let_def split: option.splits prod.splits)
  from find_mem [OF f] have "(p, r, l) \<in> set (peer_rows w a (get_friends ord a w s) now s)"
    "acc_id r \<notin> set exclude" "acc_id r \<noteq> a" by auto
  then show ?thesis
    unfolding peer_rows_mem may_write_to_def friend_link_mem by (auto simp: c candidate_of_def)
qed

text \<open>
  C39. An account with friends gets a peer to write to exactly when one of its friends may be written
  to now: an account of the workspace other than itself, not excluded, with a Telegram identity,
  not revoked, old enough in the pool and with a place left. The peer is such a friend, and the
  database is not changed. So an account all of whose friends are revoked or full gets none,
  whoever else is in the pool: its friends are never chosen again.
\<close>

theorem peer_exactly_when_friend_open:
  assumes "get_friends ord a w s \<noteq> []"
  shows "(case select_eligible_peer ord rg g w a now exclude s of
      (Some c, s') \<Rightarrow> s' = s \<and> may_write_to w a exclude now s (pc_account_id c)
    | (None, s') \<Rightarrow> s' = s \<and> (\<nexists>f. may_write_to w a exclude now s f))"
proof (cases "fst (select_eligible_peer ord rg g w a now exclude s)")
  case (Some c)
  then obtain s' where "select_eligible_peer ord rg g w a now exclude s = (Some c, s')"
    by (cases "select_eligible_peer ord rg g w a now exclude s") simp
  with select_peer_sound [OF assms this] show ?thesis by simp
next
  case None
  let ?P = "\<lambda>(p, r, l). acc_id r \<notin> set exclude \<and> acc_id r \<noteq> a"
  from None assms have f: "find ?P (peer_rows w a (get_friends ord a w s) now s) = None"
    and s: "select_eligible_peer ord rg g w a now exclude s = (None, s)"
    by (auto simp: select_eligible_peer_def Let_def split: option.splits prod.splits)
  have "\<not> may_write_to w a exclude now s f" for f
  proof
    assume "may_write_to w a exclude now s f"
    then obtain p r l where "(p, r, l) \<in> set (peer_rows w a (get_friends ord a w s) now s)" "?P (p, r, l)"
      unfolding may_write_to_def friend_link_mem peer_rows_mem by fastforce
    with f show False by (auto simp: find_none_iff)
  qed
  with s show ?thesis by simp
qed

lemma peer_exactly_when_friend_open_witness:
  "(let s = snd (assign_friends id least_rng () 3 6 2 0 peer_db) in
    case select_eligible_peer id least_rng () 2 6 0 [] s of
      (Some c, s') \<Rightarrow> s' = s \<and> may_write_to 2 6 [] 0 s (pc_account_id c)
    | (None, s') \<Rightarrow> s' = s \<and> (\<nexists>f. may_write_to 2 6 [] 0 s f))"
proof -
  have "get_friends id 6 2 (snd (assign_friends id least_rng () 3 6 2 0 peer_db)) \<noteq> []" by code_simp
  from peer_exactly_when_friend_open [OF this] show ?thesis unfolding Let_def .
qed

text \<open>A contact counts once for the receiver, and for a sender in the pool whether or not it has a place left.\<close>

lemma find_count_contact:
  "find_peer w b (count_contact w a now s) =
     map_option (\<lambda>p. if b = a then p\<lparr>tp_current_contacts := tp_current_contacts p + 1, tp_updated_at := now\<rparr> else p)
       (find_peer w b s)"
  unfolding find_peer_def count_contact_def
  by (simp add: find_update_where) (auto intro!: option.map_cong0 dest: find_mem)

lemma find_peer_touch [simp]: "find_peer w b (touch_friend_interaction w' a f now s) = find_peer w b s"
  by (simp add: find_peer_def touch_friend_interaction_def)

lemma record_contact_counts:
  assumes "record_p2p_contact w sender receiver now s = Inr (n, m, s')" and "sender \<noteq> receiver"
  shows "map_option tp_current_contacts (find_peer w receiver s) = Some (n - 1) \<and>
    map_option tp_current_contacts (find_peer w receiver s') = Some n \<and>
    map_option tp_current_contacts (find_peer w sender s') = m \<and>
    m = map_option (\<lambda>p. tp_current_contacts p + 1) (find_peer w sender s)"
  using assms
  by (auto simp: record_p2p_contact_def Let_def find_count_contact split: option.splits)

end
