(* ===== verification/WarmupSessions.thy ===== *)
theory WarmupSessions
  imports WarmupPeers ReadinessRisk Numeric "HOL-Library.List_Lexorder" "HOL-Library.Char_ord"
begin

text \<open>
  The life of a warm-up session up to its first step: the rules on its status (\<open>policies.py\<close>), the
  isolation of its account (\<open>isolation.py\<close>), the adaptation to a proxy (\<open>proxy_adaptation.py\<close>), the
  readiness check (\<open>readiness.py\<close>), the personality (\<open>circadian/personality.py\<close>), the cold soak
  (\<open>cold_soak.py\<close>), and the commands that create, pause, resume, restrict and delete a session
  (\<open>commands.py\<close>). The messages of the readiness checks are represented by the keys of the checks.
\<close>

section \<open>Status rules\<close>

definition is_live_warmup_mode :: "execution_mode \<Rightarrow> bool" where
  "is_live_warmup_mode m \<longleftrightarrow> m \<noteq> DryRun"

definition ACTIVE_WARMUP_STATUSES :: "warmup_status list" where
  "ACTIVE_WARMUP_STATUSES = [WValidating, WScheduled, WActive, WPausedRisk, WPausedManual]"

definition can_create_warmup_session :: "string list \<Rightarrow> unit result" where
  "can_create_warmup_session reasons =
     (if reasons = [] then Inr ()
      else Inl (WarmupSessionRejected (foldl (\<lambda>t r. t @ ''; '' @ r) (hd reasons) (tl reasons))))"

definition can_pause_warmup_session :: "warmup_status \<Rightarrow> unit result" where
  "can_pause_warmup_session st =
     (if st \<in> {WScheduled, WActive} then Inr () else Inl WarmupPauseRejected)"

definition can_resume_warmup_session :: "warmup_status \<Rightarrow> time option \<Rightarrow> time \<Rightarrow> unit result" where
  "can_resume_warmup_session st next_attempt_at now =
     (if st \<notin> {WPausedManual, WPausedRisk} then Inl (WarmupResumeRejected None)
      else case next_attempt_at of
          Some t \<Rightarrow> if now < t then Inl (WarmupResumeRejected (Some t)) else Inr ()
        | None \<Rightarrow> Inr ())"

definition validate_session_status_transition ::
  "string \<Rightarrow> warmup_status \<Rightarrow> time option \<Rightarrow> time option \<Rightarrow> unit result" where
  "validate_session_status_transition action st next_attempt_at now =
     (if action = ''pause'' then can_pause_warmup_session st
      else if action = ''resume''
      then (case now of None \<Rightarrow> Inl (WarmupResumeRejected None)
            | Some t \<Rightarrow> can_resume_warmup_session st next_attempt_at t)
      else Inl (WarmupSessionRejected (''unsupported warmup status transition: '' @ action)))"

record operation_policy =
  wop_session_id :: "uuid option"
  wop_status :: "warmup_status option"
  wop_current_day :: "int option"
  wop_is_locked :: bool

definition warmup_operation_policy :: "warmup_session option \<Rightarrow> string \<Rightarrow> operation_policy" where
  "warmup_operation_policy x operation =
     \<lparr>wop_session_id = map_option wu_id x, wop_status = map_option wu_status x,
      wop_current_day = map_option wu_current_day x,
      wop_is_locked = (x \<noteq> None \<and> operation \<in> {''profile_update'', ''proxy_change'', ''account_delete''})\<rparr>"

definition active_warmup_for_account :: "uuid \<Rightarrow> uuid \<Rightarrow> db \<Rightarrow> warmup_session option" where
  "active_warmup_for_account a w s =
     latest_by wu_updated_at
       (filter (\<lambda>x. wu_workspace_id x = w \<and> wu_account_id x = a \<and> wu_status x \<in> set ACTIVE_WARMUP_STATUSES)
         (db_warmups s))"

definition get_warmup_session :: "uuid \<Rightarrow> uuid \<Rightarrow> db \<Rightarrow> warmup_session result" where
  "get_warmup_session i w s =
     (case find (\<lambda>x. wu_id x = i \<and> wu_workspace_id x = w) (db_warmups s) of
        None \<Rightarrow> Inl WarmupSessionNotFound | Some x \<Rightarrow> Inr x)"

section \<open>Isolation\<close>

definition get_claim :: "uuid \<Rightarrow> db \<Rightarrow> isolation_claim option" where
  "get_claim a s = find (\<lambda>c. ic_account_id c = a) (db_isolation_claims s)"

text \<open>The insert conflicts with nothing but a concurrent one, which is not modelled.\<close>

definition acquire_claim :: "uuid \<Rightarrow> uuid \<Rightarrow> string \<Rightarrow> string \<Rightarrow> time \<Rightarrow> db \<Rightarrow> bool \<times> db" where
  "acquire_claim a w held_by reason now s =
     (case get_claim a s of
        Some c \<Rightarrow> (ic_held_by c = held_by, s)
      | None \<Rightarrow> (True, s\<lparr>db_isolation_claims := db_isolation_claims s @
          [\<lparr>ic_account_id = a, ic_workspace_id = w, ic_held_by = held_by, ic_reason = reason,
            ic_acquired_at = now\<rparr>]\<rparr>))"

definition release_claim :: "uuid \<Rightarrow> string \<Rightarrow> db \<Rightarrow> bool \<times> db" where
  "release_claim a held_by s =
     (case get_claim a s of
        None \<Rightarrow> (False, s)
      | Some c \<Rightarrow> if ic_held_by c \<noteq> held_by then (False, s)
          else (True, s\<lparr>db_isolation_claims := filter (\<lambda>c. ic_account_id c \<noteq> a) (db_isolation_claims s)\<rparr>))"

definition ensure_not_isolated :: "uuid \<Rightarrow> db \<Rightarrow> unit result" where
  "ensure_not_isolated a s = (if get_claim a s = None then Inr () else Inl AccountIsolated)"

definition list_claims_for_workspace :: "uuid \<Rightarrow> db \<Rightarrow> isolation_claim list" where
  "list_claims_for_workspace w s = filter (\<lambda>c. ic_workspace_id c = w) (db_isolation_claims s)"

definition isolation_owner :: "uuid \<Rightarrow> string" where
  "isolation_owner i = ''warmup:'' @ uuid_text i"

section \<open>Actions and proxies\<close>

definition SUPPORTED_PASSIVE_ACTIONS :: "string list" where
  "SUPPORTED_PASSIVE_ACTIONS =
     [''feed_read'', ''channel_browse'', ''view_dialogs'', ''scroll_channels'', ''mark_as_read'',
      ''search_messages'', ''vote_poll'', ''watch_video'', ''listen_voice'', ''search_gif'',
      ''view_stickers'', ''inline_bot'', ''link_preview'', ''view_profile'', ''check_settings'',
      ''view_story'', ''ping_proxy'', ''get_me'']"

definition SUPPORTED_ADVANCED_ACTIONS :: "string list" where
  "SUPPORTED_ADVANCED_ACTIONS =
     SUPPORTED_PASSIVE_ACTIONS @ [''join_chat''] @
     [''react_to_post'', ''p2p_send'', ''forward_message'', ''saved_messages'', ''sync_contacts'',
      ''archive_chat'', ''mute_chat'', ''simulate_typing'', ''emoji_status'', ''drafts'',
      ''scheduled_messages'', ''update_profile_gradual'', ''notification_settings'']"

definition WRITE_ACTION_TYPES :: "string list" where
  "WRITE_ACTION_TYPES =
     [''join_chat'', ''react_to_post'', ''p2p_send'', ''forward_message'', ''saved_messages'',
      ''sync_contacts'', ''archive_chat'', ''mute_chat'', ''simulate_typing'', ''emoji_status'',
      ''drafts'', ''scheduled_messages'', ''update_profile_gradual'', ''notification_settings'']"

definition TRAFFIC_HEAVY_ACTIONS :: "string list" where
  "TRAFFIC_HEAVY_ACTIONS =
     [''scroll_channels'', ''watch_video'', ''listen_voice'', ''search_gif'', ''view_stickers'', ''link_preview'']"

definition normalize_proxy_category :: "string option \<Rightarrow> string" where
  "normalize_proxy_category c =
     (let v = lower (strip (str_or c ''unknown'')) in if v = [] then ''unknown'' else v)"

definition select_preset_by_proxy :: "string option \<Rightarrow> string" where
  "select_preset_by_proxy c =
     (let k = normalize_proxy_category c in
      if k = ''datacenter'' then ''full'' else if k = ''residential'' then ''balanced''
      else if k = ''mobile'' then ''economic'' else ''balanced'')"

definition compute_disabled_actions_for_proxy :: "string option \<Rightarrow> string list" where
  "compute_disabled_actions_for_proxy c =
     (if normalize_proxy_category c \<notin> {''mobile'', ''residential''} then []
      else filter (\<lambda>t. t \<in> set TRAFFIC_HEAVY_ACTIONS) SUPPORTED_ADVANCED_ACTIONS)"

record proxy_adaptation =
  pa_proxy_category :: string
  pa_applied_preset :: string
  pa_disabled_actions :: "string list"

definition adaptation_for_proxy :: "string option \<Rightarrow> proxy_adaptation" where
  "adaptation_for_proxy c =
     (let k = normalize_proxy_category c in
      \<lparr>pa_proxy_category = k, pa_applied_preset = select_preset_by_proxy (Some k),
       pa_disabled_actions = compute_disabled_actions_for_proxy (Some k)\<rparr>)"

definition adaptation_payload :: "proxy_adaptation \<Rightarrow> (string, json) dict" where
  "adaptation_payload p =
     [(''proxy_category'', JStr (pa_proxy_category p)), (''applied_preset'', JStr (pa_applied_preset p)),
      (''disabled_actions'', JList (map JStr (pa_disabled_actions p)))]"

section \<open>Readiness\<close>

record warmup_check =
  wk_key :: string
  wk_passed :: bool
  wk_blocking :: bool

definition blocking_session :: "uuid \<Rightarrow> uuid \<Rightarrow> warmup_session \<Rightarrow> bool" where
  "blocking_session w a x \<longleftrightarrow>
     wu_workspace_id x = w \<and> wu_account_id x = a \<and>
     (wu_status x \<in> set ACTIVE_WARMUP_STATUSES \<or> wu_status x = WColdSoak)"

definition runtime_ready :: "account option \<Rightarrow> bool" where
  "runtime_ready a =
     (case a of None \<Rightarrow> False
      | Some acc \<Rightarrow> (case acc_runtime_state acc of None \<Rightarrow> False
          | Some r \<Rightarrow> rs_session_present r \<and> \<not> rs_reauth_required r \<and> rs_runtime_health r = ''ready'' \<and>
              acc_account_state acc = ExecutionUsable))"

definition load_strategy :: "uuid \<Rightarrow> uuid \<Rightarrow> db \<Rightarrow> warmup_strategy option" where
  "load_strategy i w s =
     find (\<lambda>t. wst_id t = i \<and> (wst_workspace_id t = Some w \<or> wst_workspace_id t = None)) (db_strategies s)"

definition validate_warmup_readiness :: "uuid \<Rightarrow> uuid \<Rightarrow> uuid \<Rightarrow> db \<Rightarrow> warmup_check list" where
  "validate_warmup_readiness a strategy w s =
     (let account = lookup_account a (Some w) s in
      [\<lparr>wk_key = ''account_exists'', wk_passed = (account \<noteq> None), wk_blocking = True\<rparr>,
       \<lparr>wk_key = ''strategy_exists'', wk_passed = (load_strategy strategy w s \<noteq> None), wk_blocking = True\<rparr>,
       \<lparr>wk_key = ''runtime_ready'', wk_passed = runtime_ready account, wk_blocking = True\<rparr>,
       \<lparr>wk_key = ''no_active_session'',
        wk_passed = (account = None \<or> \<not> list_ex (blocking_session w a) (db_warmups s)), wk_blocking = True\<rparr>] @
      (case account of None \<Rightarrow> []
       | Some acc \<Rightarrow>
           [\<lparr>wk_key = ''proxy_status'',
             wk_passed = (case acc_proxy acc of None \<Rightarrow> True
                | Some p \<Rightarrow> px_status p \<in> {''unknown'', ''tcp_working'', ''tdlib_working''}),
             wk_blocking = False\<rparr>]))"

definition blocking_reasons :: "warmup_check list \<Rightarrow> string list" where
  "blocking_reasons cs = map wk_key (filter (\<lambda>c. wk_blocking c \<and> \<not> wk_passed c) cs)"

section \<open>Personality\<close>

text \<open>The emojis as their UTF-8 bytes.\<close>

definition FAVORITE_EMOJI_POOL :: "string list" where
  "FAVORITE_EMOJI_POOL = map (map char_of)
     [[240::nat, 159, 145, 141], [226, 157, 164, 239, 184, 143], [240, 159, 148, 165], [240, 159, 152, 129],
      [240, 159, 142, 137], [240, 159, 145, 143], [240, 159, 164, 148]]"

definition SESSION_LENGTH_PREFS :: "string list" where
  "SESSION_LENGTH_PREFS = [''short'', ''medium'', ''long'']"

definition PACE_PREFS :: "string list" where
  "PACE_PREFS = [''slow'', ''normal'', ''fast'']"

definition PREFERRED_HOUR_POOL :: "int list" where
  "PREFERRED_HOUR_POOL = [7..22]"

text \<open>\<open>round(rng.uniform(a, b), n)\<close>.\<close>

definition rng_uniform :: "'g rng \<Rightarrow> rat \<Rightarrow> rat \<Rightarrow> nat \<Rightarrow> 'g \<Rightarrow> rat \<times> 'g" where
  "rng_uniform rg a b n g = (let (x, g1) = rg_random rg g in (py_round n (a + (b - a) * x), g1))"

fun action_preferences :: "'g rng \<Rightarrow> string list \<Rightarrow> 'g \<Rightarrow> (string \<times> rat) list \<times> 'g" where
  "action_preferences rg [] g = ([], g)"
| "action_preferences rg (t # ts) g =
     (let (x, g1) = rng_uniform rg (65 / 100) (135 / 100) 3 g; (ps, g2) = action_preferences rg ts g1
      in ((t, x) # ps, g2))"

record personality =
  pe_account_id :: uuid
  pe_preferred_hours :: "int list"
  pe_typing_speed_cps :: rat
  pe_favorite_emojis :: "string list"
  pe_session_length_pref :: string
  pe_pace :: string
  pe_action_preferences :: "(string \<times> rat) list"

definition generate_personality :: "'g rng \<Rightarrow> 'g \<Rightarrow> uuid \<Rightarrow> personality" where
  "generate_personality rg g a =
     (let (k, g1) = rg_randint rg 4 7 g;
          (hs, g2) = rng_sample rg PREFERRED_HOUR_POOL (nat k) g1;
          (speed, g3) = rng_uniform rg 4 8 2 g2;
          (emojis, g4) = rng_sample rg FAVORITE_EMOJI_POOL 3 g3;
          (len, g5) = rng_pick rg SESSION_LENGTH_PREFS g4;
          (pace, g6) = rng_pick rg PACE_PREFS g5;
          (prefs, g7) = action_preferences rg SUPPORTED_ADVANCED_ACTIONS g6
      in \<lparr>pe_account_id = a, pe_preferred_hours = sort hs, pe_typing_speed_cps = speed,
          pe_favorite_emojis = emojis, pe_session_length_pref = len, pe_pace = pace,
          pe_action_preferences = prefs\<rparr>)"

definition personality_json :: "personality \<Rightarrow> (string, json) dict" where
  "personality_json p =
     [(''account_id'', JStr (uuid_text (pe_account_id p))),
      (''preferred_hours'', JList (map JInt (pe_preferred_hours p))),
      (''typing_speed_cps'', JNum (pe_typing_speed_cps p)),
      (''favorite_emojis'', JList (map JStr (pe_favorite_emojis p))),
      (''session_length_pref'', JStr (pe_session_length_pref p)), (''pace'', JStr (pe_pace p)),
      (''action_preferences'', JObj (map (\<lambda>(t, x). (t, JNum x)) (pe_action_preferences p)))]"

definition personality_event_payload :: "personality \<Rightarrow> (string, json) dict" where
  "personality_event_payload p =
     filter (\<lambda>(k, v). k \<notin> {''account_id'', ''action_preferences''}) (personality_json p)"

end
