(* ===== verification/WarmupCommands.thy ===== *)
theory WarmupCommands
  imports WarmupSessions
begin

text \<open>
  The cold soak (\<open>cold_soak.py\<close>) and the commands of \<open>commands.py\<close>: creating, pausing, resuming,
  restricting and deleting a warm-up session. The generators that the code seeds, and the state of
  the module generator that draws the length of the soak, are part of the environment, as is the order of
  the random identifiers.
\<close>

section \<open>Cold soak\<close>

definition compute_cold_soak_window :: "warmup_settings \<Rightarrow> 'g rng \<Rightarrow> 'g \<Rightarrow> time \<Rightarrow> time" where
  "compute_cold_soak_window cfg rg g now =
     now + seconds (fst (rg_randint rg (wc_cold_soak_min_hours cfg * 3600) (wc_cold_soak_max_hours cfg * 3600) g))"

definition is_cold_soak_complete :: "warmup_session \<Rightarrow> time \<Rightarrow> bool" where
  "is_cold_soak_complete x now =
     (if wu_status x \<noteq> WColdSoak then True
      else case wu_cold_soak_until x of None \<Rightarrow> True | Some t \<Rightarrow> t \<le> now)"

text \<open>An account that another path left in \<open>imported\<close> catches up first.\<close>

definition catch_up ::
  "warmup_session \<Rightarrow> time \<Rightarrow> string \<Rightarrow> db \<Rightarrow> db result" where
  "catch_up x now reason s =
     result_bind (session_account x s) (\<lambda>a.
       if acc_lifecycle_state a = LImported
       then advance_in a LColdSoak now reason (session_metadata x) s else Inr s)"

definition advance_account_to_warming :: "warmup_session \<Rightarrow> time \<Rightarrow> db \<Rightarrow> db result" where
  "advance_account_to_warming x now s =
     result_bind (catch_up x now ''legacy_cold_soak_catchup'' s) (\<lambda>s1.
     result_bind (session_account x s1) (\<lambda>a.
       advance_in a LWarming now ''cold_soak_completed'' (session_metadata x) s1))"

definition advance_from_cold_soak :: "warmup_session \<Rightarrow> time \<Rightarrow> db \<Rightarrow> (warmup_session \<times> db) result" where
  "advance_from_cold_soak x now s =
     (if wu_status x \<noteq> WColdSoak then Inr (x, s)
      else
        let x1 = x\<lparr>wu_status := WScheduled, wu_next_step_at := Some now,
                   wu_next_micro_session_at :=
                     (if wu_execution_mode x \<noteq> DryRun then Some now else wu_next_micro_session_at x),
                   wu_updated_at := now\<rparr>
        in result_bind (advance_account_to_warming x1 now (save_session x1 s)) (\<lambda>s1.
             Inr (x1, write_warmup_event now x1 ''cold_soak_completed'' [(''transitioned_at'', JTime now)] s1)))"

definition should_write_in_progress_event :: "warmup_session \<Rightarrow> time \<Rightarrow> db \<Rightarrow> bool" where
  "should_write_in_progress_event x now s =
     (\<not> list_ex (\<lambda>e. we_workspace_id e = wu_workspace_id x \<and> we_session_id e = wu_id x \<and>
                we_event_type e = ''cold_soak_in_progress'' \<and> now - hours 1 \<le> we_created_at e)
        (db_warmup_events s))"

definition record_cold_soak_in_progress :: "warmup_session \<Rightarrow> time \<Rightarrow> db \<Rightarrow> warmup_session \<times> db" where
  "record_cold_soak_in_progress x now s =
     (let x1 = (case wu_cold_soak_until x of None \<Rightarrow> x
                | Some t \<Rightarrow> x\<lparr>wu_next_step_at := Some t,
                    wu_next_micro_session_at :=
                      (if wu_execution_mode x \<noteq> DryRun then Some t else wu_next_micro_session_at x)\<rparr>);
          x2 = x1\<lparr>wu_updated_at := now\<rparr>;
          s1 = save_session x2 s
      in (x2, if should_write_in_progress_event x2 now s1
              then write_warmup_event now x2 ''cold_soak_in_progress''
                     [(''until'', case wu_cold_soak_until x2 of None \<Rightarrow> JNull | Some t \<Rightarrow> JTime t)] s1
              else s1))"

section \<open>Creating a session\<close>

record 'g creation_env =
  ce_settings :: warmup_settings
  ce_rng :: "'g rng"
  ce_soak :: 'g
  ce_account_rng :: "uuid \<Rightarrow> 'g"
  ce_friend_rng :: "uuid \<Rightarrow> uuid \<Rightarrow> 'g"
  ce_uuid_order :: "uuid \<Rightarrow> nat"

fun execution_mode_text :: "execution_mode \<Rightarrow> string" where
  "execution_mode_text DryRun = ''dry_run''"
| "execution_mode_text Shadow = ''shadow''"
| "execution_mode_text Passive = ''passive''"
| "execution_mode_text Network = ''network''"
| "execution_mode_text Advanced = ''advanced''"

definition build_proxy_snapshot :: "uuid \<Rightarrow> db \<Rightarrow> (string, json) dict option" where
  "build_proxy_snapshot a s =
     (case account_by_id s a of None \<Rightarrow> None
      | Some acc \<Rightarrow> map_option (\<lambda>p.
          [(''proxy_type'', JStr (px_proxy_type p)), (''proxy_category'', JStr (px_proxy_category p)),
           (''host'', JStr (px_host p)), (''port'', JInt (px_port p)), (''status'', JStr (px_status p)),
           (''last_checked_at'', case px_last_checked_at p of None \<Rightarrow> JNull | Some t \<Rightarrow> JTime t)]) (acc_proxy acc))"

definition snapshot_category :: "(string, json) dict option \<Rightarrow> string option" where
  "snapshot_category d =
     (case d of None \<Rightarrow> None
      | Some e \<Rightarrow> (case dict_get e ''proxy_category'' of Some (JStr c) \<Rightarrow> Some c | _ \<Rightarrow> None))"

definition get_strategy :: "uuid \<Rightarrow> db \<Rightarrow> warmup_strategy option" where
  "get_strategy i s = find (\<lambda>t. wst_id t = i) (db_strategies s)"

definition strategy_name :: "warmup_strategy option \<Rightarrow> json" where
  "strategy_name t = (case t of None \<Rightarrow> JNull | Some x \<Rightarrow> JStr (wst_name x))"

definition new_session ::
  "'g creation_env \<Rightarrow> time \<Rightarrow> uuid \<Rightarrow> uuid \<Rightarrow> uuid \<Rightarrow> uuid \<Rightarrow> db \<Rightarrow> warmup_session" where
  "new_session ce now i a strategy_id w s =
     (let strategy = get_strategy strategy_id s;
          mode = (case strategy of None \<Rightarrow> DryRun | Some t \<Rightarrow> wst_execution_mode t);
          until = compute_cold_soak_window (ce_settings ce) (ce_rng ce) (ce_soak ce) now;
          snapshot = build_proxy_snapshot a s
      in \<lparr>wu_id = i, wu_workspace_id = w, wu_account_id = a, wu_strategy_id = strategy_id,
          wu_status = WColdSoak, wu_current_day = 0,
          wu_cadence_hours = wc_default_cadence_hours (ce_settings ce),
          wu_next_step_at = Some until, wu_last_step_at = None, wu_started_at = None, wu_paused_at = None,
          wu_completed_at = None, wu_next_attempt_at = None, wu_flood_wait_count = 0,
          wu_consecutive_failures = 0, wu_worker_id = None,
          wu_duration_days = (case strategy of None \<Rightarrow> wc_default_duration_days (ce_settings ce)
                              | Some t \<Rightarrow> wst_duration_days t),
          wu_timezone = None, wu_last_micro_session_at = None,
          wu_next_micro_session_at = (if is_live_warmup_mode mode then Some until else None),
          wu_cold_soak_until = Some until, wu_execution_mode = mode, wu_daily_counters_json = [],
          wu_proxy_snapshot_json = snapshot,
          wu_personality_seed_json = personality_json (generate_personality (ce_rng ce) (ce_account_rng ce a) a),
          wu_disabled_actions_json = pa_disabled_actions (adaptation_for_proxy (snapshot_category snapshot)),
          wu_lifecycle_state = ''warming'', wu_strategy_snapshot_json = None, wu_cycle_config_json = None,
          wu_created_at = now, wu_updated_at = now\<rparr>)"

text \<open>The events of a creation.\<close>

definition creation_events ::
  "'g creation_env \<Rightarrow> time \<Rightarrow> warmup_session \<Rightarrow> warmup_strategy option \<Rightarrow> db \<Rightarrow> db" where
  "creation_events ce now x strategy s =
     (let a = wu_account_id x;
          s1 = write_warmup_event now x ''session_created''
            [(''status'', JStr ''cold_soak''), (''strategy_id'', JStr (uuid_text (wu_strategy_id x))),
             (''execution_mode'', JStr (execution_mode_text (wu_execution_mode x))),
             (''duration_days'', JInt (wu_duration_days x)),
             (''proxy_snapshot'', case wu_proxy_snapshot_json x of None \<Rightarrow> JNull | Some d \<Rightarrow> JObj d),
             (''personality_seed'',
              JObj (personality_event_payload (generate_personality (ce_rng ce) (ce_account_rng ce a) a)))] s;
          s2 = write_warmup_event now x ''proxy_adaptation_applied''
            (adaptation_payload (adaptation_for_proxy (snapshot_category (wu_proxy_snapshot_json x)))) s1
      in write_warmup_event now x ''cold_soak_started''
           [(''until'', case wu_cold_soak_until x of None \<Rightarrow> JNull | Some t \<Rightarrow> JTime t),
            (''strategy_name'', strategy_name strategy)] s2)"

definition claim_isolation :: "warmup_session \<Rightarrow> time \<Rightarrow> db \<Rightarrow> db result" where
  "claim_isolation x now s =
     (if \<not> is_live_warmup_mode (wu_execution_mode x) then Inr s
      else
        let mode = execution_mode_text (wu_execution_mode x);
            (ok, s1) = acquire_claim (wu_account_id x) (wu_workspace_id x) (isolation_owner (wu_id x))
                         (''warmup execution_mode='' @ mode) now s
        in if \<not> ok then Inl WarmupIsolationConflict
           else Inr (write_warmup_event now x ''isolation_claimed''
                  [(''held_by'', JStr (isolation_owner (wu_id x))), (''execution_mode'', JStr mode)] s1))"

definition create_warmup_session ::
  "'g creation_env \<Rightarrow> time \<Rightarrow> uuid \<Rightarrow> uuid \<Rightarrow> uuid \<Rightarrow> db \<Rightarrow> (warmup_session \<times> db) result" where
  "create_warmup_session ce now a strategy_id w s =
     result_bind (can_create_warmup_session (blocking_reasons (validate_warmup_readiness a strategy_id w s))) (\<lambda>_.
     case lookup_account a (Some w) s of
       None \<Rightarrow> Inl (WarmupSessionRejected ''account not found'')
     | Some account \<Rightarrow>
         let strategy = get_strategy strategy_id s;
             (i, s1) = new_id s;
             x = new_session ce now i a strategy_id w s;
             s2 = s1\<lparr>db_warmups := db_warmups s1 @ [x]\<rparr>
         in result_bind (advance_in account LColdSoak now ''warmup_session_created''
                (session_metadata x @ [(''strategy_id'', JStr (uuid_text strategy_id))]) s2) (\<lambda>s3.
            let s4 = creation_events ce now x strategy s3;
                s5 = on_warmup_started a w now (Some strategy_id) (map_option wst_name strategy) s4;
                s6 = snd (assign_friends (ce_uuid_order ce) (ce_rng ce) (ce_friend_rng ce w a) 3 a w now s5)
            in result_bind (claim_isolation x now s6) (\<lambda>s7. Inr (x, s7))))"

text \<open>
  The use case commits, then enqueues; \<open>enqueue\<close> says whether the queue took the job of the mode.
  An error of the creation leaves the database as it was.
\<close>

definition create_warmup_session_use_case ::
  "'g creation_env \<Rightarrow> (execution_mode \<Rightarrow> bool) \<Rightarrow> time \<Rightarrow> uuid \<Rightarrow> uuid \<Rightarrow> uuid \<Rightarrow> db \<Rightarrow>
   warmup_session result \<times> db" where
  "create_warmup_session_use_case ce enqueue now a strategy_id w s =
     (case create_warmup_session ce now a strategy_id w s of
        Inl e \<Rightarrow> (Inl e, s)
      | Inr (x, s1) \<Rightarrow>
          if wc_workers_enabled (ce_settings ce) \<and> \<not> enqueue (wu_execution_mode x)
          then let x1 = x\<lparr>wu_status := WFailed\<rparr>;
                   s2 = write_warmup_event now x1 ''queue_enqueue_failed'' [] (save_session x1 s1)
               in (Inl WarmupQueueUnavailable,
                   snd (release_claim (wu_account_id x) (isolation_owner (wu_id x)) s2))
          else (Inr x, s1))"

section \<open>Pausing, resuming, restricting, deleting\<close>

definition pause_warmup_session ::
  "time \<Rightarrow> uuid \<Rightarrow> uuid \<Rightarrow> string \<Rightarrow> db \<Rightarrow> (warmup_session \<times> db) result" where
  "pause_warmup_session now i w reason s =
     result_bind (get_warmup_session i w s) (\<lambda>x.
     result_bind (validate_session_status_transition ''pause'' (wu_status x) None None) (\<lambda>_.
       let x1 = x\<lparr>wu_status := WPausedManual, wu_paused_at := Some now, wu_updated_at := now\<rparr>
       in Inr (x1, write_warmup_event now x1 ''paused'' [(''reason'', JStr reason)] (save_session x1 s))))"

definition resume_warmup_session :: "time \<Rightarrow> uuid \<Rightarrow> uuid \<Rightarrow> db \<Rightarrow> (warmup_session \<times> db) result" where
  "resume_warmup_session now i w s =
     result_bind (get_warmup_session i w s) (\<lambda>x.
     result_bind (validate_session_status_transition ''resume'' (wu_status x) (wu_next_attempt_at x) (Some now)) (\<lambda>_.
       let x1 = x\<lparr>wu_status := WScheduled, wu_paused_at := None, wu_consecutive_failures := 0, wu_updated_at := now\<rparr>
       in Inr (x1, write_warmup_event now x1 ''resumed'' [] (save_session x1 s))))"

definition normalize_disabled_actions :: "string list \<Rightarrow> string list result" where
  "normalize_disabled_actions actions =
     (let requested = filter (\<lambda>t. t \<noteq> []) (map strip actions);
          unknown = sort (filter (\<lambda>t. t \<notin> set SUPPORTED_ADVANCED_ACTIONS) requested)
      in case unknown of
           t # _ \<Rightarrow> Inl (WarmupSessionRejected (''unknown disabled action: '' @ t))
         | [] \<Rightarrow> Inr (filter (\<lambda>t. t \<in> set requested) SUPPORTED_ADVANCED_ACTIONS))"

text \<open>A limit above zero: an integer, a float, or the \<open>bool\<close> that Python counts as one.\<close>

definition positive_number :: "json \<Rightarrow> bool" where
  "positive_number v = (case v of JInt n \<Rightarrow> 0 < n | JNum x \<Rightarrow> 0 < x | JBool b \<Rightarrow> b | _ \<Rightarrow> False)"

definition planned_action_types :: "(string, json) dict \<Rightarrow> string list" where
  "planned_action_types limits =
     concat (map (\<lambda>(_, v). case v of JObj d \<Rightarrow> map fst (filter (\<lambda>(_, n). positive_number n) d) | _ \<Rightarrow> []) limits)"

definition leaves_enabled_action :: "warmup_strategy option \<Rightarrow> string list \<Rightarrow> unit result" where
  "leaves_enabled_action strategy disabled =
     (let planned = planned_action_types (case strategy of None \<Rightarrow> [] | Some t \<Rightarrow> wst_daily_action_limits_json t);
          pool = (if planned = [] then SUPPORTED_ADVANCED_ACTIONS else planned)
      in if set pool \<subseteq> set disabled
         then Inl (WarmupSessionRejected ''at least one warmup action must remain enabled'') else Inr ())"

definition set_disabled_actions ::
  "time \<Rightarrow> uuid \<Rightarrow> uuid \<Rightarrow> string list \<Rightarrow> uuid option \<Rightarrow> db \<Rightarrow> (warmup_session \<times> db) result" where
  "set_disabled_actions now i w actions actor s =
     result_bind (get_warmup_session i w s) (\<lambda>x.
     result_bind (normalize_disabled_actions actions) (\<lambda>disabled.
     result_bind (leaves_enabled_action (get_strategy (wu_strategy_id x) s) disabled) (\<lambda>_.
       let x1 = x\<lparr>wu_disabled_actions_json := disabled, wu_updated_at := now\<rparr>
       in Inr (x1, write_warmup_event now x1 ''disabled_actions_updated''
            [(''previous_actions'', JList (map JStr (wu_disabled_actions_json x))),
             (''disabled_actions'', JList (map JStr disabled)),
             (''actor_user_id'', json_of_str (map_option uuid_text actor))] (save_session x1 s)))))"

text \<open>Deleting a session deletes its events and task runs, and clears the source of its pre-production rows.\<close>

definition delete_session_rows :: "uuid \<Rightarrow> db \<Rightarrow> db" where
  "delete_session_rows i s =
     s\<lparr>db_warmups := filter (\<lambda>x. wu_id x \<noteq> i) (db_warmups s),
       db_warmup_events := filter (\<lambda>e. we_session_id e \<noteq> i) (db_warmup_events s),
       db_task_runs := filter (\<lambda>t. tr_session_id t \<noteq> i) (db_task_runs s),
       db_pre_productions := update_where (\<lambda>p. pp_source_warmup_session_id p = Some i)
         (\<lambda>p. p\<lparr>pp_source_warmup_session_id := None\<rparr>) (db_pre_productions s)\<rparr>"

definition delete_warmup_session :: "uuid \<Rightarrow> uuid \<Rightarrow> db \<Rightarrow> db result" where
  "delete_warmup_session i w s =
     result_bind (get_warmup_session i w s) (\<lambda>x.
       Inr (delete_session_rows (wu_id x)
              (snd (release_claim (wu_account_id x) (isolation_owner (wu_id x)) s))))"

end
