(* ===== verification/PreProduction.thy ===== *)
theory PreProduction
  imports WarmupCommands SafetyGate
begin

text \<open>
  Pre-production (\<open>pre_production.py\<close>): the short dry run between the end of a warm-up and the active
  life of an account. The safety gate is a parameter that carries a state of its own (its caches and
  Redis); \<open>warmup_gate\<close> is the gate of this development in that form. The digest that varies the
  planned counts, and \<open>str\<close> of a JSON value that is not a text, are parameters.
\<close>

section \<open>The environment\<close>

type_synonym 'x gate_call = "time \<Rightarrow> uuid \<Rightarrow> uuid \<Rightarrow> 'x \<Rightarrow> db \<Rightarrow> gate_verdict result \<times> 'x \<times> db"

definition warmup_gate :: "('c, 'q) gate \<Rightarrow> settings \<Rightarrow> ('c \<times> 'q) gate_call" where
  "warmup_gate g cfg now w a x s =
     (let (v, c, q, s1) = evaluate_gate g cfg now w a Warmup (fst x) (snd x) s in (v, (c, q), s1))"

record 'x pre_env =
  pv_settings :: warmup_settings
  pv_gate :: "'x gate_call"
  pv_digest :: "string \<Rightarrow> nat"
  pv_str :: "json \<Rightarrow> string"

definition json_truthy :: "json \<Rightarrow> bool" where
  "json_truthy v =
     (case v of JNull \<Rightarrow> False | JBool b \<Rightarrow> b | JInt n \<Rightarrow> n \<noteq> 0 | JNum x \<Rightarrow> x \<noteq> 0 | JStr t \<Rightarrow> t \<noteq> []
      | JTime _ \<Rightarrow> True | JList xs \<Rightarrow> xs \<noteq> [] | JObj d \<Rightarrow> d \<noteq> [])"

definition object_at :: "(string, json) dict \<Rightarrow> string \<Rightarrow> (string, json) dict list" where
  "object_at d k = (case dict_get d k of Some (JObj e) \<Rightarrow> [e] | _ \<Rightarrow> [])"

section \<open>What the strategy asks for\<close>

definition snapshot_of :: "warmup_session \<Rightarrow> (string, json) dict" where
  "snapshot_of x = (case wu_strategy_snapshot_json x of None \<Rightarrow> [] | Some d \<Rightarrow> d)"

definition strategy_flag_sources :: "warmup_session \<Rightarrow> db \<Rightarrow> (string, json) dict list" where
  "strategy_flag_sources x s =
     snapshot_of x # object_at (snapshot_of x) ''tier_limits_json'' @ object_at (snapshot_of x) ''ui_summary_json'' @
     (case get_strategy (wu_strategy_id x) s of None \<Rightarrow> []
      | Some t \<Rightarrow> [wst_tier_limits_json t, wst_ui_summary_json t])"

definition should_start_pre_production :: "warmup_settings \<Rightarrow> warmup_session \<Rightarrow> db \<Rightarrow> bool" where
  "should_start_pre_production cfg x s =
     (wc_pre_production_enabled cfg \<and>
      list_ex (\<lambda>d. case dict_get d ''enable_pre_production'' of None \<Rightarrow> False | Some v \<Rightarrow> json_truthy v)
        (strategy_flag_sources x s))"

definition first_truthy :: "json option list \<Rightarrow> json option" where
  "first_truthy vs = (case filter (\<lambda>v. case v of None \<Rightarrow> False | Some j \<Rightarrow> json_truthy j) vs of [] \<Rightarrow> None | v # _ \<Rightarrow> v)"

definition target_channels_from_warmup :: "warmup_session option \<Rightarrow> db \<Rightarrow> json list" where
  "target_channels_from_warmup x s =
     (case x of None \<Rightarrow> []
      | Some w \<Rightarrow>
          let d = snapshot_of w;
              v = (case dict_get d ''target_channels_json'' of
                     Some j \<Rightarrow> if json_truthy j then Some j else dict_get d ''target_channels''
                   | None \<Rightarrow> dict_get d ''target_channels'')
          in case v of Some (JList xs) \<Rightarrow> xs
             | _ \<Rightarrow> (case get_strategy (wu_strategy_id w) s of None \<Rightarrow> []
                     | Some t \<Rightarrow> map JObj (wst_target_channels_json t)))"

definition normalize_target_channels :: "'x pre_env \<Rightarrow> json list \<Rightarrow> string list" where
  "normalize_target_channels pv raw =
     take 10 (filter (\<lambda>t. t \<noteq> []) (map (\<lambda>v. strip (
       let u = (case v of
                  JObj d \<Rightarrow> (case first_truthy [dict_get d ''channel_ref'', dict_get d ''ref'', dict_get d ''id''] of
                               None \<Rightarrow> JStr [] | Some j \<Rightarrow> j)
                | _ \<Rightarrow> v)
       in case u of JStr t \<Rightarrow> t | _ \<Rightarrow> pv_str pv u)) raw))"

definition stable_count :: "'x pre_env \<Rightarrow> uuid \<Rightarrow> int \<Rightarrow> int \<Rightarrow> string \<Rightarrow> int" where
  "stable_count pv a minimum maximum salt =
     minimum + int (pv_digest pv (uuid_text a @ '':'' @ salt)) mod (maximum - minimum + 1)"

definition pre_production_duration :: "warmup_settings \<Rightarrow> int option \<Rightarrow> int" where
  "pre_production_duration cfg override =
     max 1 (min 2 (case override of Some n \<Rightarrow> n | None \<Rightarrow> wc_pre_production_duration_hours cfg))"

definition pre_production_plan :: "'x pre_env \<Rightarrow> uuid \<Rightarrow> string list \<Rightarrow> (string, json) dict" where
  "pre_production_plan pv a channels =
     [(''mode'', JStr ''dry_run''), (''empty_profile_required'', JBool True),
      (''neuro_comment'', JObj
         [(''source_module'', JStr ''neuro_commenting''), (''mode'', JStr ''dry_run''),
          (''action'', JStr ''neuro_comment''), (''comment_count'', JInt (stable_count pv a 3 5 ''comments'')),
          (''target_channels'', JList (map JStr channels))]),
      (''mass_react'', JObj
         [(''source_module'', JStr ''warmup.react_to_post''), (''mode'', JStr ''dry_run''),
          (''action'', JStr ''react_to_post''), (''reaction_count'', JInt (stable_count pv a 5 10 ''reactions'')),
          (''target_channels'', JList (map JStr channels))])]"

section \<open>Starting\<close>

definition ensure_empty_profile :: "account \<Rightarrow> unit result" where
  "ensure_empty_profile a =
     (let bio = (case acc_profile_state a of None \<Rightarrow> False
                 | Some p \<Rightarrow> truthy (ps_bio p) \<and> strip (str_or (ps_bio p) []) \<noteq> []);
          photo = (case acc_profile_state a of None \<Rightarrow> False | Some p \<Rightarrow> ps_profile_photo_asset_id p \<noteq> None)
      in if bio then Inl (PreProductionRejected ''profile bio must be empty'')
         else if photo then Inl (PreProductionRejected ''profile photo must be empty'')
         else if truthy (acc_pinned_channel_ref a) then Inl (PreProductionRejected ''profile links must be empty'')
         else Inr ())"

definition ensure_pre_production_state :: "account \<Rightarrow> time \<Rightarrow> uuid option \<Rightarrow> db \<Rightarrow> db result" where
  "ensure_pre_production_state a now source s =
     (if acc_lifecycle_state a = LPreProduction then Inr s
      else if acc_lifecycle_state a \<noteq> LWarming
      then Inl (PreProductionRejected ''account must be warming or pre_production'')
      else advance_in a LPreProduction now ''pre_production_started''
             [(''warmup_session_id'', json_of_str (map_option uuid_text source))] s)"

definition active_pre_production_session :: "uuid \<Rightarrow> uuid \<Rightarrow> db \<Rightarrow> pre_production_session option" where
  "active_pre_production_session a w s =
     latest_by pp_started_at
       (filter (\<lambda>p. pp_workspace_id p = w \<and> pp_account_id p = a \<and> pp_status p = PPRunning) (db_pre_productions s))"

definition open_pre_production ::
  "'x pre_env \<Rightarrow> time \<Rightarrow> account \<Rightarrow> int option \<Rightarrow> uuid option \<Rightarrow> warmup_session option \<Rightarrow> json list option \<Rightarrow>
   db \<Rightarrow> pre_production_session \<times> db" where
  "open_pre_production pv now acc duration source_id source channels s =
     (case active_pre_production_session (acc_id acc) (acc_workspace_id acc) s of
        Some p \<Rightarrow> (p, s)
      | None \<Rightarrow>
          let h = pre_production_duration (pv_settings pv) duration;
              cs = normalize_target_channels pv
                     (case channels of Some v \<Rightarrow> v | None \<Rightarrow> target_channels_from_warmup source s);
              (i, s1) = new_id s;
              p = \<lparr>pp_id = i, pp_workspace_id = acc_workspace_id acc, pp_account_id = acc_id acc,
                   pp_source_warmup_session_id = source_id, pp_status = PPRunning, pp_duration_hours = h,
                   pp_started_at = now, pp_ends_at = now + hours h, pp_completed_at = None,
                   pp_failure_code = None, pp_failure_message = None,
                   pp_task_plan_json = pre_production_plan pv (acc_id acc) cs, pp_task_result_json = [],
                   pp_created_at = now, pp_updated_at = now\<rparr>;
              s2 = s1\<lparr>db_pre_productions := db_pre_productions s1 @ [p]\<rparr>
          in (p, case source of None \<Rightarrow> s2
                 | Some x \<Rightarrow> write_warmup_event now x ''pre_production_started''
                     [(''pre_production_session_id'', JStr (uuid_text i)), (''duration_hours'', JInt h),
                      (''target_channel_count'', JInt (int (length cs)))] s2))"

definition start_pre_production ::
  "'x pre_env \<Rightarrow> time \<Rightarrow> uuid \<Rightarrow> uuid \<Rightarrow> int option \<Rightarrow> uuid option \<Rightarrow> warmup_session option \<Rightarrow> json list option \<Rightarrow>
   'x \<Rightarrow> db \<Rightarrow> (pre_production_session \<times> db) result \<times> 'x" where
  "start_pre_production pv now a w duration source_id source channels x s =
     (if \<not> wc_pre_production_enabled (pv_settings pv)
      then (Inl (PreProductionRejected ''pre-production is disabled''), x)
      else case lookup_account a (Some w) s of
          None \<Rightarrow> (Inl (ValueError ''account not found''), x)
        | Some acc \<Rightarrow>
            (case ensure_empty_profile acc of
               Inl e \<Rightarrow> (Inl e, x)
             | Inr _ \<Rightarrow>
                 (case pv_gate pv now (acc_workspace_id acc) (acc_id acc) x s of
                    (Inl e, x1, s1) \<Rightarrow> (Inl e, x1)
                  | (Inr v, x1, s1) \<Rightarrow>
                      if \<not> gv_eligible v
                      then (Inl (PreProductionRejected ''safety gate blocked pre-production''), x1)
                      else (result_bind (ensure_pre_production_state acc now source_id s1) (\<lambda>s2.
                              Inr (open_pre_production pv now acc duration source_id source channels s2)), x1))))"

section \<open>Completing\<close>

definition is_flood_wait :: "string option \<Rightarrow> bool" where
  "is_flood_wait code = contains ''flood_wait'' (lower (str_or code []))"

definition save_pre_production :: "pre_production_session \<Rightarrow> db \<Rightarrow> db" where
  "save_pre_production p s =
     s\<lparr>db_pre_productions := update_where (\<lambda>r. pp_id r = pp_id p) (\<lambda>_. p) (db_pre_productions s)\<rparr>"

definition complete_pre_production_session ::
  "time \<Rightarrow> uuid \<Rightarrow> uuid \<Rightarrow> bool \<Rightarrow> string option \<Rightarrow> string option \<Rightarrow> db \<Rightarrow> (pre_production_session \<times> db) result" where
  "complete_pre_production_session now i w success code message s =
     (case find (\<lambda>p. pp_id p = i \<and> pp_workspace_id p = w) (db_pre_productions s) of
        None \<Rightarrow> Inl (ValueError ''pre-production session not found'')
      | Some p \<Rightarrow>
          if pp_status p \<noteq> PPRunning then Inr (p, s)
          else case lookup_account (pp_account_id p) (Some w) s of
              None \<Rightarrow> Inl (ValueError ''account not found'')
            | Some acc \<Rightarrow>
                let p1 = p\<lparr>pp_completed_at := Some now, pp_updated_at := now\<rparr>;
                    md = [(''pre_production_session_id'', JStr (uuid_text (pp_id p)))]
                in if success
                   then let p2 = p1\<lparr>pp_status := PPCompleted, pp_task_result_json :=
                                   [(''status'', JStr ''completed''), (''completed_at'', JTime now)]\<rparr>
                        in result_bind (advance_in acc LActive now ''pre_production_completed'' md (save_pre_production p2 s))
                             (\<lambda>s1. Inr (p2, s1))
                   else let c = str_or code ''pre_production_failed'';
                            p2 = p1\<lparr>pp_status := PPFailed, pp_failure_code := Some c, pp_failure_message := message,
                                   pp_task_result_json :=
                                     [(''status'', JStr ''failed''), (''failure_code'', JStr c), (''failed_at'', JTime now)]\<rparr>
                        in result_bind (advance_in acc LColdSoak now
                               (if is_flood_wait (Some c) then ''pre_production_flood_wait'' else ''pre_production_failed'')
                               (md @ [(''failure_code'', JStr c)]) (save_pre_production p2 s))
                             (\<lambda>s1. Inr (p2, s1)))"

definition due_pre_productions :: "uuid option \<Rightarrow> time \<Rightarrow> db \<Rightarrow> pre_production_session list" where
  "due_pre_productions w now s =
     filter (\<lambda>p. pp_status p = PPRunning \<and> pp_ends_at p \<le> now \<and>
                (case w of None \<Rightarrow> True | Some v \<Rightarrow> pp_workspace_id p = v)) (db_pre_productions s)"

fun complete_all :: "time \<Rightarrow> pre_production_session list \<Rightarrow> db \<Rightarrow> db result" where
  "complete_all now [] s = Inr s"
| "complete_all now (p # ps) s =
     result_bind (complete_pre_production_session now (pp_id p) (pp_workspace_id p) True None None s)
       (\<lambda>(_, s1). complete_all now ps s1)"

definition complete_due_pre_production_sessions :: "uuid option \<Rightarrow> time \<Rightarrow> db \<Rightarrow> (nat \<times> db) result" where
  "complete_due_pre_production_sessions w now s =
     (let ps = due_pre_productions w now s in result_bind (complete_all now ps s) (\<lambda>s1. Inr (length ps, s1)))"

text \<open>The sweep of the scheduler: its transaction is dropped when a row fails.\<close>

definition run_warmup_pre_production_sweep :: "time \<Rightarrow> db \<Rightarrow> nat result \<times> db" where
  "run_warmup_pre_production_sweep now s =
     (case complete_due_pre_production_sessions None now s of Inl e \<Rightarrow> (Inl e, s) | Inr (n, s1) \<Rightarrow> (Inr n, s1))"

end
