(* ===== verification/WarmupWorker.thy ===== *)
theory WarmupWorker
  imports PreProduction
begin

text \<open>
  The dry-run worker (\<open>worker.py\<close>), the circuit breaker and the runtime lock it shares with the
  dispatcher, and the completion of a session (\<open>dispatch_results.py\<close>).

  A batch loads its sessions once and handles them one after the other in one transaction; an
  exception ends the batch and drops the transaction. The session object a step works on is the row
  as the steps before it left it.
\<close>

section \<open>Batches\<close>

text \<open>The value of a step is whether it counts as processed; \<open>'x\<close> is the state outside the database.\<close>

type_synonym 'x session_step = "warmup_session \<Rightarrow> 'x \<Rightarrow> db \<Rightarrow> (bool \<times> db) result \<times> 'x"

fun run_batch :: "'x session_step \<Rightarrow> uuid list \<Rightarrow> nat \<Rightarrow> 'x \<Rightarrow> db \<Rightarrow> (nat \<times> db) result \<times> 'x" where
  "run_batch f [] n x s = (Inr (n, s), x)"
| "run_batch f (i # is) n x s =
     (case find_session i s of
        None \<Rightarrow> run_batch f is n x s
      | Some w \<Rightarrow>
          (case f w x s of
             (Inl e, x1) \<Rightarrow> (Inl e, x1)
           | (Inr (b, s1), x1) \<Rightarrow> run_batch f is (if b then Suc n else n) x1 s1))"

definition commit_batch :: "(nat \<times> db) result \<times> 'x \<Rightarrow> db \<Rightarrow> nat result \<times> 'x \<times> db" where
  "commit_batch r s = (case r of (Inl e, x) \<Rightarrow> (Inl e, x, s) | (Inr (n, s1), x) \<Rightarrow> (Inr n, x, s1))"

definition batch_size :: "warmup_settings \<Rightarrow> nat option \<Rightarrow> nat" where
  "batch_size cfg limit = (case limit of None \<Rightarrow> wc_batch_limit cfg | Some n \<Rightarrow> if n = 0 then wc_batch_limit cfg else n)"

definition at_or_none :: "time option \<Rightarrow> time \<Rightarrow> bool" where
  "at_or_none t now = (case t of None \<Rightarrow> True | Some u \<Rightarrow> u \<le> now)"

section \<open>Failures and locks\<close>

definition handle_warmup_step_failure ::
  "warmup_settings \<Rightarrow> warmup_session \<Rightarrow> string \<Rightarrow> int option \<Rightarrow> time \<Rightarrow> warmup_status \<Rightarrow> db \<Rightarrow>
   bool \<times> warmup_session \<times> db" where
  "handle_warmup_step_failure cfg x err max_failures now target s =
     (let threshold = (case max_failures of Some n \<Rightarrow> n | None \<Rightarrow> wc_max_consecutive_failures cfg);
          x1 = x\<lparr>wu_consecutive_failures := wu_consecutive_failures x + 1, wu_updated_at := now\<rparr>
      in if threshold \<le> wu_consecutive_failures x1
         then let x2 = x1\<lparr>wu_status := target,
                         wu_paused_at := (if target = WPausedRisk then Some now else wu_paused_at x1)\<rparr>
              in (True, x2, write_warmup_event now x2 ''circuit_breaker_triggered''
                   [(''error'', JStr err), (''consecutive_failures'', JInt (wu_consecutive_failures x2)),
                    (''threshold'', JInt threshold), (''target_status'', JStr (warmup_status_text target))]
                   (save_session x2 s))
         else (False, x1, write_warmup_event now x1 ''task_skipped''
                 [(''reason'', JStr ''worker_failure''), (''error'', JStr err)] (save_session x1 s)))"

definition set_runtime :: "uuid \<Rightarrow> (account_runtime_state \<Rightarrow> account_runtime_state) \<Rightarrow> db \<Rightarrow> db" where
  "set_runtime a f s =
     s\<lparr>db_accounts := update_where (\<lambda>r. acc_id r = a)
         (\<lambda>r. r\<lparr>acc_runtime_state := map_option f (acc_runtime_state r)\<rparr>) (db_accounts s)\<rparr>"

definition runtime_of :: "uuid \<Rightarrow> db \<Rightarrow> account_runtime_state option" where
  "runtime_of a s = (case account_by_id s a of None \<Rightarrow> None | Some r \<Rightarrow> acc_runtime_state r)"

definition claim_account_runtime_lock :: "uuid \<Rightarrow> string \<Rightarrow> time \<Rightarrow> db \<Rightarrow> bool \<times> db" where
  "claim_account_runtime_lock a owner now s =
     (case runtime_of a s of
        None \<Rightarrow> (False, s)
      | Some r \<Rightarrow> if rs_lock_owner r \<noteq> None then (False, s)
          else (True, set_runtime a (\<lambda>r. r\<lparr>rs_lock_owner := Some owner, rs_lock_epoch := rs_lock_epoch r + 1,
                  rs_recovery_marker := Some (''warmup_lock_acquired:'' @ owner), rs_updated_at := now\<rparr>) s))"

definition release_account_runtime_lock :: "uuid \<Rightarrow> string \<Rightarrow> time \<Rightarrow> db \<Rightarrow> db" where
  "release_account_runtime_lock a owner now s =
     set_runtime a (\<lambda>r. if rs_lock_owner r = Some owner
       then r\<lparr>rs_lock_owner := None, rs_recovery_marker := Some (''warmup_lock_released:'' @ owner), rs_updated_at := now\<rparr>
       else r) s"

section \<open>Completion\<close>

definition catch_up_to_warming :: "warmup_session \<Rightarrow> time \<Rightarrow> db \<Rightarrow> db result" where
  "catch_up_to_warming x now s =
     result_bind (catch_up x now ''legacy_completion_catchup'' s) (\<lambda>s1.
     result_bind (session_account x s1) (\<lambda>a.
       if acc_lifecycle_state a = LColdSoak
       then advance_in a LWarming now ''legacy_completion_catchup'' (session_metadata x) s1 else Inr s1))"

definition advance_account_to_pre_production :: "warmup_session \<Rightarrow> time \<Rightarrow> db \<Rightarrow> db result" where
  "advance_account_to_pre_production x now s =
     result_bind (catch_up_to_warming x now s) (\<lambda>s1.
     result_bind (session_account x s1) (\<lambda>a.
       advance_in a LPreProduction now ''warmup_session_completed'' (session_metadata x) s1))"

text \<open>What follows the change of the session row, for the worker and for the dispatcher.\<close>

definition completion_effects :: "'x pre_env \<Rightarrow> warmup_session \<Rightarrow> time \<Rightarrow> 'x \<Rightarrow> db \<Rightarrow> db result \<times> 'x" where
  "completion_effects pv x now y s =
     (case advance_account_to_pre_production x now s of
        Inl e \<Rightarrow> (Inl e, y)
      | Inr s1 \<Rightarrow>
          let (r, y1) = (if should_start_pre_production (pv_settings pv) x s1
                         then (case start_pre_production pv now (wu_account_id x) (wu_workspace_id x) None
                                      (Some (wu_id x)) (Some x) None y s1 of
                                 (Inl e, y1) \<Rightarrow> (Inl e, y1) | (Inr (_, s2), y1) \<Rightarrow> (Inr s2, y1))
                         else (Inr s1, y))
          in (result_bind r (\<lambda>s2.
                let s3 = on_warmup_completed (wu_account_id x) (wu_workspace_id x) now s2;
                    (released, s4) = release_claim (wu_account_id x) (isolation_owner (wu_id x)) s3
                in Inr (if released
                        then write_warmup_event now x ''isolation_released'' [(''reason'', JStr ''session_completed'')] s4
                        else s4)), y1))"

definition complete_session :: "'x pre_env \<Rightarrow> warmup_session \<Rightarrow> time \<Rightarrow> 'x \<Rightarrow> db \<Rightarrow> db result \<times> 'x" where
  "complete_session pv x now y s =
     (let x1 = x\<lparr>wu_status := WCompleted, wu_completed_at := Some now, wu_next_step_at := None, wu_updated_at := now\<rparr>
      in completion_effects pv x1 now y
           (write_warmup_event now x1 ''completed'' [(''day'', JInt (wu_current_day x1))] (save_session x1 s)))"

definition complete_dispatch_session :: "'x pre_env \<Rightarrow> warmup_session \<Rightarrow> time \<Rightarrow> 'x \<Rightarrow> db \<Rightarrow> db result \<times> 'x" where
  "complete_dispatch_session pv x now y s =
     (let x1 = x\<lparr>wu_status := WCompleted, wu_completed_at := Some now, wu_next_step_at := None,
                wu_next_micro_session_at := None, wu_updated_at := now\<rparr>
      in completion_effects pv x1 now y
           (write_warmup_event now x1 ''completed''
              [(''day'', JInt (wu_current_day x1)),
               (''execution_mode'', JStr (execution_mode_text (wu_execution_mode x1)))] (save_session x1 s)))"

section \<open>One dry-run step\<close>

definition DRY_RUN_TASK_TYPE :: string where
  "DRY_RUN_TASK_TYPE = ''dry_run_day''"

definition task_done :: "warmup_session \<Rightarrow> db \<Rightarrow> bool" where
  "task_done x s =
     list_ex (\<lambda>t. tr_session_id t = wu_id x \<and> tr_day t = wu_current_day x \<and> tr_task_type t = DRY_RUN_TASK_TYPE)
       (db_task_runs s)"

definition add_task_run :: "warmup_session \<Rightarrow> time \<Rightarrow> string \<Rightarrow> db \<Rightarrow> db" where
  "add_task_run x now worker s =
     (let (i, s1) = new_id s in
      s1\<lparr>db_task_runs := db_task_runs s1 @
          [\<lparr>tr_id = i, tr_workspace_id = wu_workspace_id x, tr_session_id = wu_id x, tr_day = wu_current_day x,
            tr_task_type = DRY_RUN_TASK_TYPE, tr_status = ''completed'', tr_worker_id = Some worker,
            tr_metadata_json = [(''dry_run'', JBool True)], tr_started_at = now, tr_completed_at = Some now\<rparr>]\<rparr>)"

definition run_dry_day :: "'x pre_env \<Rightarrow> time \<Rightarrow> string \<Rightarrow> warmup_session \<Rightarrow> 'x \<Rightarrow> db \<Rightarrow> db result \<times> 'x" where
  "run_dry_day pv now worker x y s =
     (let day = wu_current_day x;
          s1 = add_task_run x now worker s;
          x1 = x\<lparr>wu_current_day := day + 1, wu_last_step_at := Some now, wu_worker_id := Some worker,
                 wu_consecutive_failures := 0, wu_updated_at := now\<rparr>;
          s2 = write_warmup_event now x1 ''task_executed''
                 [(''task_type'', JStr DRY_RUN_TASK_TYPE), (''day'', JInt day), (''dry_run'', JBool True)]
                 (save_session x1 s1);
          s3 = write_warmup_event now x1 ''day_advanced'' [(''day'', JInt (day + 1))] s2
      in if wu_duration_days x1 \<le> day + 1 then complete_session pv x1 now y s3
         else (Inr (save_session (x1\<lparr>wu_status := WActive,
                      wu_started_at := (case wu_started_at x1 of None \<Rightarrow> Some now | t \<Rightarrow> t),
                      wu_next_step_at := Some (now + hours (wu_cadence_hours x1))\<rparr>) s3), y))"

definition process_one_locked_session :: "'x pre_env \<Rightarrow> time \<Rightarrow> string \<Rightarrow> 'x session_step" where
  "process_one_locked_session pv now worker x y s =
     (if wu_status x = WColdSoak \<and> \<not> is_cold_soak_complete x now
      then (Inr (False, snd (record_cold_soak_in_progress x now s)), y)
      else case advance_from_cold_soak x now s of
          Inl e \<Rightarrow> (Inl e, y)
        | Inr (x1, s1) \<Rightarrow>
            if task_done x1 s1
            then (Inr (False, write_warmup_event now x1 ''task_skipped''
                    [(''reason'', JStr ''duplicate_task_run''), (''day'', JInt (wu_current_day x1))] s1), y)
            else let (r, y1) = (if wu_duration_days x1 \<le> wu_current_day x1 then complete_session pv x1 now y s1
                                else run_dry_day pv now worker x1 y s1)
                 in (result_bind r (\<lambda>s2. Inr (True, s2)), y1))"

definition lock_owner :: "string \<Rightarrow> warmup_session \<Rightarrow> string" where
  "lock_owner worker x = ''warmup:'' @ worker @ '':'' @ uuid_text (wu_id x)"

definition process_one_due_session :: "'x pre_env \<Rightarrow> time \<Rightarrow> string \<Rightarrow> 'x session_step" where
  "process_one_due_session pv now worker x y s =
     (let (locked, s1) = claim_account_runtime_lock (wu_account_id x) (lock_owner worker x) now s in
      if \<not> locked
      then (Inr (False, write_warmup_event now x ''task_skipped''
              [(''reason'', JStr ''account_locked''), (''day'', JInt (wu_current_day x))] s1), y)
      else let (r, y1) = process_one_locked_session pv now worker x y s1
           in (result_bind r (\<lambda>(b, s2).
                 Inr (b, release_account_runtime_lock (wu_account_id x) (lock_owner worker x) now s2)), y1))"

section \<open>The dry-run batch\<close>

definition dry_run_due :: "uuid option \<Rightarrow> time \<Rightarrow> warmup_session \<Rightarrow> bool" where
  "dry_run_due w now x \<longleftrightarrow>
     (case w of None \<Rightarrow> True | Some v \<Rightarrow> wu_workspace_id x = v) \<and> wu_execution_mode x = DryRun \<and>
     (wu_status x \<in> {WScheduled, WActive} \<and> at_or_none (wu_next_step_at x) now \<or>
      wu_status x = WColdSoak \<and>
        (at_or_none (wu_next_step_at x) now \<or> (case wu_cold_soak_until x of None \<Rightarrow> False | Some t \<Rightarrow> t \<le> now)))"

definition dry_run_batch :: "warmup_settings \<Rightarrow> uuid option \<Rightarrow> time \<Rightarrow> nat option \<Rightarrow> db \<Rightarrow> uuid list" where
  "dry_run_batch cfg w now limit s =
     map wu_id (take (batch_size cfg limit) (sort_key wu_updated_at (filter (dry_run_due w now) (db_warmups s))))"

definition process_due_warmup_sessions ::
  "'x pre_env \<Rightarrow> uuid option \<Rightarrow> time \<Rightarrow> string \<Rightarrow> nat option \<Rightarrow> 'x \<Rightarrow> db \<Rightarrow> nat result \<times> 'x \<times> db" where
  "process_due_warmup_sessions pv w now worker limit y s =
     commit_batch (run_batch (process_one_due_session pv now worker)
       (dry_run_batch (pv_settings pv) w now limit s) 0 y s) s"

end
