(* ===== verification/WarmupIdle.thy ===== *)
theory WarmupIdle
  imports WarmupWorker
begin

text \<open>
  Idle accounts: \<open>account_lifecycle/idle_detector.py\<close> finds them, \<open>warmup/idle_session.py\<close> gives them a
  read-only keep-alive session and takes it away again.
\<close>

section \<open>Detection\<close>

definition ACTIVE_JOB_STATES :: "job_state list" where
  "ACTIVE_JOB_STATES = [JobQueued, JobRunning, JobWaitingLock]"

definition at_or_after :: "time option \<Rightarrow> time \<Rightarrow> bool" where
  "at_or_after t cutoff = (case t of None \<Rightarrow> False | Some u \<Rightarrow> cutoff \<le> u)"

definition idle_account :: "uuid \<Rightarrow> time \<Rightarrow> db \<Rightarrow> account \<Rightarrow> bool" where
  "idle_account w cutoff s a \<longleftrightarrow>
     acc_workspace_id a = w \<and> acc_lifecycle_state a = LActive \<and>
     \<not> list_ex (\<lambda>j. job_workspace_id j = w \<and> job_account_id j = acc_id a \<and>
                 (job_job_state j \<in> set ACTIVE_JOB_STATES \<or>
                  at_or_after (job_finished_at j) cutoff \<or> at_or_after (job_started_at j) cutoff \<or>
                  at_or_after (job_queued_at j) cutoff)) (db_jobs s) \<and>
     \<not> list_ex (\<lambda>x. wu_workspace_id x = w \<and> wu_account_id x = acc_id a \<and>
                 wu_status x \<in> set ACTIVE_WARMUP_STATUSES) (db_warmups s)"

definition detect_idle_accounts :: "uuid \<Rightarrow> int \<Rightarrow> time \<Rightarrow> db \<Rightarrow> uuid list" where
  "detect_idle_accounts w threshold_minutes now s =
     map acc_id (sort_key (\<lambda>a. (acc_updated_at a, acc_id a))
       (filter (idle_account w (now - minutes threshold_minutes) s) (db_accounts s)))"

definition list_idle_candidate_workspaces :: "db \<Rightarrow> uuid list" where
  "list_idle_candidate_workspaces s =
     sort (remdups (map acc_workspace_id (filter (\<lambda>a. acc_lifecycle_state a = LActive) (db_accounts s))))"

section \<open>Keep-alive sessions\<close>

definition IDLE_KEEPALIVE_STRATEGY_NAME :: string where
  "IDLE_KEEPALIVE_STRATEGY_NAME = ''IDLE_KEEPALIVE''"

definition IDLE_KEEPALIVE_DURATION_DAYS :: int where
  "IDLE_KEEPALIVE_DURATION_DAYS = 30"

definition IDLE_KEEPALIVE_CADENCE_HOURS :: int where
  "IDLE_KEEPALIVE_CADENCE_HOURS = 12"

definition IDLE_KEEPALIVE_ACTION_LIMITS :: "(string, json) dict" where
  "IDLE_KEEPALIVE_ACTION_LIMITS = [(''feed_read'', JInt 3), (''view_dialogs'', JInt 2)]"

definition idle_strategy_row :: "uuid \<Rightarrow> uuid \<Rightarrow> warmup_strategy" where
  "idle_strategy_row i w =
     \<lparr>wst_id = i, wst_workspace_id = Some w, wst_name = IDLE_KEEPALIVE_STRATEGY_NAME,
      wst_description = Some ''Read-only idle keepalive warmup for accounts outside combat work.'',
      wst_tier_limits_json = [(''cadence_hours'', JInt IDLE_KEEPALIVE_CADENCE_HOURS), (''profile_required'', JBool False)],
      wst_target_channels_json = [], wst_is_preset = True, wst_execution_mode = DryRun,
      wst_preset_kind = ''custom'', wst_duration_days = IDLE_KEEPALIVE_DURATION_DAYS,
      wst_daily_action_limits_json = map (\<lambda>d. (int_text d, JObj IDLE_KEEPALIVE_ACTION_LIMITS))
        [1..IDLE_KEEPALIVE_DURATION_DAYS],
      wst_session_window_config_json =
        [(''micro_sessions_per_day'', JObj [(''min'', JInt 1), (''max'', JInt 2)]),
         (''minutes_per_session'', JObj [(''min'', JInt 5), (''max'', JInt 15)])],
      wst_ui_summary_json =
        [(''audience_hint'', JStr ''Idle account keepalive''), (''risk_level'', JStr ''low''), (''read_only'', JBool True)]\<rparr>"

definition get_or_create_idle_strategy :: "uuid \<Rightarrow> db \<Rightarrow> warmup_strategy \<times> db" where
  "get_or_create_idle_strategy w s =
     (case find (\<lambda>t. wst_workspace_id t = Some w \<and> wst_name t = IDLE_KEEPALIVE_STRATEGY_NAME) (db_strategies s) of
        Some t \<Rightarrow> (t, s)
      | None \<Rightarrow> let (i, s1) = new_id s; t = idle_strategy_row i w
                in (t, s1\<lparr>db_strategies := db_strategies s1 @ [t]\<rparr>))"

definition account_or_raise :: "uuid \<Rightarrow> uuid \<Rightarrow> db \<Rightarrow> account result" where
  "account_or_raise a w s =
     (case lookup_account a (Some w) s of None \<Rightarrow> Inl (ValueError ''account not found'') | Some r \<Rightarrow> Inr r)"

definition idle_session :: "time \<Rightarrow> uuid \<Rightarrow> uuid \<Rightarrow> uuid \<Rightarrow> uuid \<Rightarrow> warmup_session" where
  "idle_session now i a strategy w =
     \<lparr>wu_id = i, wu_workspace_id = w, wu_account_id = a, wu_strategy_id = strategy, wu_status = WScheduled,
      wu_current_day = 0, wu_cadence_hours = IDLE_KEEPALIVE_CADENCE_HOURS, wu_next_step_at = Some now,
      wu_last_step_at = None, wu_started_at = None, wu_paused_at = None, wu_completed_at = None,
      wu_next_attempt_at = None, wu_flood_wait_count = 0, wu_consecutive_failures = 0, wu_worker_id = None,
      wu_duration_days = IDLE_KEEPALIVE_DURATION_DAYS, wu_timezone = None, wu_last_micro_session_at = None,
      wu_next_micro_session_at = None, wu_cold_soak_until = None, wu_execution_mode = DryRun,
      wu_daily_counters_json = [], wu_proxy_snapshot_json = None, wu_personality_seed_json = [],
      wu_disabled_actions_json = sort WRITE_ACTION_TYPES, wu_lifecycle_state = ''idle'',
      wu_strategy_snapshot_json = None, wu_cycle_config_json = None, wu_created_at = now, wu_updated_at = now\<rparr>"

definition create_idle_warmup_session :: "time \<Rightarrow> uuid \<Rightarrow> uuid \<Rightarrow> db \<Rightarrow> (warmup_session \<times> db) result" where
  "create_idle_warmup_session now a w s =
     (case active_warmup_for_account a w s of
        Some x \<Rightarrow> Inr (x, s)
      | None \<Rightarrow>
          result_bind (account_or_raise a w s) (\<lambda>acc.
            if acc_lifecycle_state acc \<noteq> LIdle then Inl (ValueError ''account is not idle'')
            else let (t, s1) = get_or_create_idle_strategy w s;
                     (i, s2) = new_id s1;
                     x = idle_session now i a (wst_id t) w
                 in Inr (x, write_warmup_event now x ''idle_warmup_session_created''
                      [(''strategy_name'', JStr IDLE_KEEPALIVE_STRATEGY_NAME),
                       (''read_only_actions'', JList (map JStr (sort (map fst IDLE_KEEPALIVE_ACTION_LIMITS))))]
                      (s2\<lparr>db_warmups := db_warmups s2 @ [x]\<rparr>))))"

fun idle_all :: "int \<Rightarrow> time \<Rightarrow> uuid \<Rightarrow> uuid list \<Rightarrow> db \<Rightarrow> db result" where
  "idle_all threshold now w [] s = Inr s"
| "idle_all threshold now w (a # as) s =
     result_bind (account_or_raise a w s) (\<lambda>acc.
     result_bind (advance_in acc LIdle now ''idle_detection_threshold_elapsed''
         [(''threshold_minutes'', JInt threshold)] s) (\<lambda>s1.
     result_bind (create_idle_warmup_session now a w s1) (\<lambda>(_, s2). idle_all threshold now w as s2)))"

definition run_idle_warmup_sweep :: "warmup_settings \<Rightarrow> uuid \<Rightarrow> time \<Rightarrow> db \<Rightarrow> (nat \<times> db) result" where
  "run_idle_warmup_sweep cfg w now s =
     (if \<not> wc_idle_detection_enabled cfg then Inr (0, s)
      else let ids = detect_idle_accounts w (wc_idle_threshold_minutes cfg) now s
           in result_bind (idle_all (wc_idle_threshold_minutes cfg) now w ids s) (\<lambda>s1. Inr (length ids, s1)))"

fun sweep_workspaces :: "warmup_settings \<Rightarrow> time \<Rightarrow> uuid list \<Rightarrow> nat \<Rightarrow> db \<Rightarrow> (nat \<times> db) result" where
  "sweep_workspaces cfg now [] n s = Inr (n, s)"
| "sweep_workspaces cfg now (w # ws) n s =
     result_bind (run_idle_warmup_sweep cfg w now s) (\<lambda>(k, s1). sweep_workspaces cfg now ws (n + k) s1)"

definition run_idle_warmup_sweep_all_workspaces :: "warmup_settings \<Rightarrow> time \<Rightarrow> db \<Rightarrow> (nat \<times> db) result" where
  "run_idle_warmup_sweep_all_workspaces cfg now s =
     (if \<not> wc_idle_detection_enabled cfg then Inr (0, s)
      else sweep_workspaces cfg now (list_idle_candidate_workspaces s) 0 s)"

definition resume_account_from_idle ::
  "time \<Rightarrow> uuid \<Rightarrow> uuid \<Rightarrow> string \<Rightarrow> db \<Rightarrow> (warmup_session option \<times> db) result" where
  "resume_account_from_idle now a w reason s =
     result_bind (account_or_raise a w s) (\<lambda>acc.
       if acc_lifecycle_state acc \<noteq> LIdle then Inr (None, s)
       else
         let x = active_warmup_for_account a w s;
             (y, s1) = (case x of
                 None \<Rightarrow> (None, s)
               | Some v \<Rightarrow> if wu_lifecycle_state v \<noteq> ''idle'' then (Some v, s)
                   else let v1 = v\<lparr>wu_status := WCompleted, wu_completed_at := Some now, wu_next_step_at := None,
                                 wu_next_micro_session_at := None, wu_updated_at := now\<rparr>
                        in (Some v1, write_warmup_event now v1 ''idle_session_stopped'' [(''reason'', JStr reason)]
                                       (save_session v1 s)))
         in result_bind (advance_in acc LActive now reason [] s1) (\<lambda>s2. Inr (y, s2)))"

end
