(* ===== verification/WarmupFrames.thy ===== *)
theory WarmupFrames
  imports WarmupIdle GateFrame
begin

text \<open>
  What the steps of a warm-up session leave alone. A step is made of a few kinds of writes; the locale
  \<open>session_frame\<close> lifts a relation between databases that every such write of one session respects to
  whole steps: the cold soak, the completion, the dry-run step. It is used for what a step on one
  session leaves of another, and for where the session rows come from.
\<close>

section \<open>The gate\<close>

definition warm_tables where
  "warm_tables s = (db_warmups s, db_accounts s, db_task_runs s, db_isolation_claims s, db_pre_productions s,
     db_strategies s, db_channel_states s, db_friend_links s, db_trusted_peers s, db_bootstrap_channels s)"

interpretation warm: gate_observer warm_tables
  by unfold_locales (simp_all add: warm_tables_def write_ggr_def bootstrap_defs Let_def emit_def split: option.split)

definition gate_frames :: "'x gate_call \<Rightarrow> bool" where
  "gate_frames gate \<longleftrightarrow>
     (\<forall>now w a x s v x1 s1. gate now w a x s = (v, x1, s1) \<longrightarrow> warm_tables s1 = warm_tables s)"

lemma warmup_gate_frames: "gate_frames (warmup_gate g cfg)"
  unfolding gate_frames_def warmup_gate_def
  using warm.view_gate [of g cfg] by (auto simp: Let_def split: prod.splits)

lemma gate_framesD: "gate_frames gate \<Longrightarrow> gate now w a x s = (v, x1, s1) \<Longrightarrow> warm_tables s1 = warm_tables s"
  unfolding gate_frames_def by blast

section \<open>Writes\<close>

lemma advance_in_tables:
  assumes "advance_in acc t now reason md s = Inr s'"
  shows "db_warmups s' = db_warmups s" "db_task_runs s' = db_task_runs s"
    "db_isolation_claims s' = db_isolation_claims s" "db_pre_productions s' = db_pre_productions s"
    "db_strategies s' = db_strategies s" "db_friend_links s' = db_friend_links s"
    "db_channel_states s' = db_channel_states s" "db_trusted_peers s' = db_trusted_peers s"
  using assms by (auto simp: advance_in_def advance_def Let_def new_id_def split: if_splits)

lemma ensure_metric_tables: "warm_tables (snd (ensure_metric w a imp now s)) = warm_tables s"
  by (auto simp: ensure_metric_def get_metric_def flush_metrics_def new_id_def Let_def warm_tables_def
      split: option.splits)

lemma save_metric_tables: "warm_tables (save_metric w a row s) = warm_tables s"
  by (simp add: save_metric_def warm_tables_def)

lemma survival_tables:
  "warm_tables (on_warmup_started a w now i n s) = warm_tables s"
  "warm_tables (on_warmup_completed a w now s) = warm_tables s"
  "warm_tables (on_flood_wait a w now s) = warm_tables s"
proof -
  note e = ensure_metric_tables [of w a now now s]
  show "warm_tables (on_warmup_started a w now i n s) = warm_tables s"
    unfolding on_warmup_started_def safe_hook_def mark_warmup_started_def Let_def split_def snd_conv save_metric_tables
    by (rule e)
  show "warm_tables (on_warmup_completed a w now s) = warm_tables s"
    unfolding on_warmup_completed_def safe_hook_def mark_warmup_completed_def Let_def split_def snd_conv save_metric_tables
    by (rule e)
  show "warm_tables (on_flood_wait a w now s) = warm_tables s"
    unfolding on_flood_wait_def safe_hook_def increment_flood_wait_def Let_def split_def
    by (cases "sm_flood_wait_count (fst (ensure_metric w a now now s))")
      (simp_all only: option.case snd_conv save_metric_tables e)
qed

lemma session_account_id: "session_account x s = Inr acc \<Longrightarrow> acc_id acc = wu_account_id x"
  by (auto simp: session_account_def account_by_id_def split: option.splits dest: find_mem)

lemma lookup_account_id: "lookup_account a w s = Some acc \<Longrightarrow> acc_id acc = a"
  by (auto simp: lookup_account_def split: option.splits dest: find_mem)

text \<open>
  A relation \<open>keeps i a\<close> between the database before and after writes on behalf of the session \<open>i\<close> of
  the account \<open>a\<close>.
\<close>

locale session_frame =
  fixes keeps :: "uuid \<Rightarrow> uuid \<Rightarrow> db \<Rightarrow> db \<Rightarrow> bool"
  assumes trans: "keeps i a s s1 \<Longrightarrow> keeps i a s1 s2 \<Longrightarrow> keeps i a s s2"
    and tables: "warm_tables s' = warm_tables s \<Longrightarrow> keeps i a s s'"
    and save: "wu_id x = i \<Longrightarrow> wu_account_id x = a \<Longrightarrow> keeps i a s (save_session x s)"
    and task: "wu_id x = i \<Longrightarrow> keeps i a s (add_task_run x now worker s)"
    and runtime: "keeps i a s (set_runtime a f s)"
    and advance: "advance_in acc t now reason md s = Inr s' \<Longrightarrow> acc_id acc = a \<Longrightarrow> keeps i a s s'"
    and release: "keeps i a s (snd (release_claim a h s))"
    and rows: "keeps i a s (s\<lparr>db_next_id := n, db_pre_productions := ps\<rparr>)"
begin

lemma refl: "keeps i a s s"
  by (rule tables) (rule HOL.refl)

lemma event: "keeps i a s (write_warmup_event now x ty d s)"
  by (rule tables) (simp add: write_warmup_event_def new_id_def warm_tables_def)

lemma event_after: "keeps i a s s' \<Longrightarrow> keeps i a s (write_warmup_event now x ty d s')"
  by (rule trans [OF _ event])

lemma save_after: "keeps i a s s' \<Longrightarrow> wu_id x = i \<Longrightarrow> wu_account_id x = a \<Longrightarrow> keeps i a s (save_session x s')"
  by (rule trans [OF _ save])

lemma claim_lock: "keeps i a s (snd (claim_account_runtime_lock a owner now s))"
  by (simp add: claim_account_runtime_lock_def refl runtime split: option.split)

lemma release_lock: "keeps i a s s' \<Longrightarrow> keeps i a s (release_account_runtime_lock a owner now s')"
  unfolding release_account_runtime_lock_def by (rule trans [OF _ runtime])

lemma catch_up:
  assumes "catch_up x now reason s = Inr s'" and "wu_account_id x = a"
  shows "keeps i a s s'"
  using assms
  by (auto simp: catch_up_def result_bind_Inr_iff refl dest!: session_account_id split: if_splits intro: advance)

lemma to_warming:
  assumes "advance_account_to_warming x now s = Inr s'" and "wu_account_id x = a"
  shows "keeps i a s s'"
proof -
  from assms(1) obtain s1 acc where "WarmupCommands.catch_up x now ''legacy_cold_soak_catchup'' s = Inr s1"
    "session_account x s1 = Inr acc" "advance_in acc LWarming now ''cold_soak_completed'' (session_metadata x) s1 = Inr s'"
    by (auto simp: advance_account_to_warming_def result_bind_Inr_iff)
  with catch_up [OF _ assms(2)] advance session_account_id assms(2) show ?thesis by (blast intro: trans)
qed

lemma to_pre_production:
  assumes "advance_account_to_pre_production x now s = Inr s'" and "wu_account_id x = a"
  shows "keeps i a s s'"
proof -
  from assms(1) obtain s0 s1 acc acc1 where s0: "WarmupCommands.catch_up x now ''legacy_completion_catchup'' s = Inr s0"
    "session_account x s0 = Inr acc"
    and s1: "(if acc_lifecycle_state acc = LColdSoak
       then advance_in acc LWarming now ''legacy_completion_catchup'' (session_metadata x) s0 else Inr s0) = Inr s1"
    and s': "session_account x s1 = Inr acc1"
      "advance_in acc1 LPreProduction now ''warmup_session_completed'' (session_metadata x) s1 = Inr s'"
    by (auto simp: advance_account_to_pre_production_def catch_up_to_warming_def result_bind_Inr_iff)
  have "keeps i a s s0" using catch_up [OF s0(1) assms(2)] .
  moreover have "keeps i a s0 s1"
    using s1 session_account_id [OF s0(2)] assms(2) by (auto simp: refl intro: advance split: if_splits)
  moreover have "keeps i a s1 s'" using s'(2) session_account_id [OF s'(1)] assms(2) by (auto intro: advance)
  ultimately show ?thesis by (blast intro: trans)
qed

lemma from_cold_soak:
  assumes "advance_from_cold_soak x now s = Inr (x', s')" and "wu_id x = i" and "wu_account_id x = a"
  shows "keeps i a s s' \<and> wu_id x' = i \<and> wu_account_id x' = a"
proof (cases "wu_status x = WColdSoak")
  case True
  define x1 where "x1 = x\<lparr>wu_status := WScheduled, wu_next_step_at := Some now,
    wu_next_micro_session_at := (if wu_execution_mode x \<noteq> DryRun then Some now else wu_next_micro_session_at x),
    wu_updated_at := now\<rparr>"
  have x1: "wu_id x1 = i" "wu_account_id x1 = a" using assms(2,3) by (simp_all add: x1_def)
  from assms(1) True obtain s1 where w: "advance_account_to_warming x1 now (save_session x1 s) = Inr s1"
    and r: "x' = x1" "s' = write_warmup_event now x1 ''cold_soak_completed'' [(''transitioned_at'', JTime now)] s1"
    by (auto simp: advance_from_cold_soak_def Let_def result_bind_Inr_iff x1_def)
  from to_warming [OF w x1(2)] save [OF x1] have "keeps i a s s1" by (blast intro: trans)
  with r x1 show ?thesis by (auto intro: event_after)
qed (use assms in \<open>simp add: advance_from_cold_soak_def refl\<close>)

lemma in_progress:
  assumes "wu_id x = i" and "wu_account_id x = a"
  shows "keeps i a s (snd (record_cold_soak_in_progress x now s))"
proof -
  let ?x = "fst (record_cold_soak_in_progress x now s)"
  have x: "wu_id ?x = i" "wu_account_id ?x = a"
    using assms by (auto simp: record_cold_soak_in_progress_def Let_def split: option.split)
  have "snd (record_cold_soak_in_progress x now s) =
    (if should_write_in_progress_event ?x now (save_session ?x s)
     then write_warmup_event now ?x ''cold_soak_in_progress''
       [(''until'', case wu_cold_soak_until ?x of None \<Rightarrow> JNull | Some t \<Rightarrow> JTime t)] (save_session ?x s)
     else save_session ?x s)"
    unfolding record_cold_soak_in_progress_def Let_def fst_conv snd_conv by (rule HOL.refl)
  then show ?thesis by (simp add: event_after save x split: if_split)
qed

lemma start_pre_production:
  assumes "gate_frames (pv_gate pv)"
    and "start_pre_production pv now a w d sid source cs y s = (Inr (p, s'), y')"
  shows "keeps i a s s'"
proof -
  from assms(2) obtain acc v s1 s2 where acc: "lookup_account a (Some w) s = Some acc"
    and g: "pv_gate pv now (acc_workspace_id acc) (acc_id acc) y s = (Inr v, y', s1)"
    and e: "ensure_pre_production_state acc now sid s1 = Inr s2"
    and s': "s' = snd (open_pre_production pv now acc d sid source cs s2)"
    by (auto simp: start_pre_production_def result_bind_Inr_iff split: if_splits option.splits sum.splits prod.splits)
  have "keeps i a s s1" using gate_framesD [OF assms(1) g] by (rule tables)
  moreover have "keeps i a s1 s2"
    using e lookup_account_id [OF acc]
    by (auto simp: ensure_pre_production_state_def refl intro: advance split: if_splits)
  moreover have "keeps i a s2 s'"
    using rows [of i a s2] by (auto simp: s' open_pre_production_def new_id_def Let_def refl intro: event_after split: option.split)
  ultimately show ?thesis by (blast intro: trans)
qed

lemma completion:
  assumes "gate_frames (pv_gate pv)" and "wu_account_id x = a"
    and "completion_effects pv x now y s = (Inr s', y')"
  shows "keeps i a s s'"
proof -
  from assms(3) obtain s1 where s1: "advance_account_to_pre_production x now s = Inr s1"
    by (auto simp: completion_effects_def split: sum.splits)
  obtain r y1 where r: "(if should_start_pre_production (pv_settings pv) x s1
      then (case PreProduction.start_pre_production pv now (wu_account_id x) (wu_workspace_id x) None (Some (wu_id x)) (Some x) None y s1 of
              (Inl e, y1) \<Rightarrow> (Inl e, y1) | (Inr (_, s2), y1) \<Rightarrow> (Inr s2, y1))
      else (Inr s1, y)) = (r, y1)" by fastforce
  from assms(3) s1 r obtain s2 where s2: "r = Inr s2"
    by (cases r) (auto simp: completion_effects_def)
  have k1: "keeps i a s s1" using to_pre_production [OF s1 assms(2)] .
  have k2: "keeps i a s1 s2"
    using r s2 assms(2) start_pre_production [OF assms(1)]
    by (auto simp: refl split: if_splits prod.splits sum.splits)
  let ?s3 = "on_warmup_completed (wu_account_id x) (wu_workspace_id x) now s2"
  have "keeps i a s2 ?s3" by (rule tables) (rule survival_tables)
  then have k3: "keeps i a s2 (snd (release_claim a (isolation_owner (wu_id x)) ?s3))" by (blast intro: trans release)
  have "s' = snd (release_claim a (isolation_owner (wu_id x)) ?s3) \<or>
    s' = write_warmup_event now x ''isolation_released'' [(''reason'', JStr ''session_completed'')]
           (snd (release_claim a (isolation_owner (wu_id x)) ?s3))"
    using assms(2,3) s1 r s2 by (auto simp: completion_effects_def Let_def case_prod_unfold split: if_splits)
  moreover have "keeps i a s (snd (release_claim a (isolation_owner (wu_id x)) ?s3))"
    by (rule trans [OF trans [OF k1 k2] k3])
  ultimately show ?thesis by (elim disjE) (simp_all only: event_after)
qed

lemma complete_session:
  assumes "gate_frames (pv_gate pv)" and "wu_account_id x = a" and "wu_id x = i"
    and "complete_session pv x now y s = (Inr s', y')"
  shows "keeps i a s s'"
proof -
  define x1 where "x1 = x\<lparr>wu_status := WCompleted, wu_completed_at := Some now, wu_next_step_at := None,
    wu_updated_at := now\<rparr>"
  let ?s = "write_warmup_event now x1 ''completed'' [(''day'', JInt (wu_current_day x1))] (save_session x1 s)"
  have x1: "wu_id x1 = i" "wu_account_id x1 = a" using assms(2,3) by (simp_all add: x1_def)
  from assms(4) have c: "completion_effects pv x1 now y ?s = (Inr s', y')"
    unfolding complete_session_def Let_def x1_def .
  have "keeps i a s ?s" by (intro event_after save x1)
  with completion [OF assms(1) x1(2) c] show ?thesis by (blast intro: trans)
qed

lemma complete_dispatch_session:
  assumes "gate_frames (pv_gate pv)" and "wu_account_id x = a" and "wu_id x = i"
    and "complete_dispatch_session pv x now y s = (Inr s', y')"
  shows "keeps i a s s'"
proof -
  define x1 where "x1 = x\<lparr>wu_status := WCompleted, wu_completed_at := Some now, wu_next_step_at := None,
    wu_next_micro_session_at := None,
    wu_updated_at := now\<rparr>"
  let ?s = "write_warmup_event now x1 ''completed'' [(''day'', JInt (wu_current_day x1)), (''execution_mode'', JStr (execution_mode_text (wu_execution_mode x1)))] (save_session x1 s)"
  have x1: "wu_id x1 = i" "wu_account_id x1 = a" using assms(2,3) by (simp_all add: x1_def)
  from assms(4) have c: "completion_effects pv x1 now y ?s = (Inr s', y')"
    unfolding complete_dispatch_session_def Let_def x1_def .
  have "keeps i a s ?s" by (intro event_after save x1)
  with completion [OF assms(1) x1(2) c] show ?thesis by (blast intro: trans)
qed

lemma dry_day:
  assumes "gate_frames (pv_gate pv)" and "wu_account_id x = a" and "wu_id x = i"
    and "run_dry_day pv now worker x y s = (Inr s', y')"
  shows "keeps i a s s'"
proof -
  define x1 where "x1 = x\<lparr>wu_current_day := wu_current_day x + 1, wu_last_step_at := Some now, wu_worker_id := Some worker,
    wu_consecutive_failures := 0, wu_updated_at := now\<rparr>"
  define s3 where "s3 = write_warmup_event now x1 ''day_advanced'' [(''day'', JInt (wu_current_day x + 1))]
    (write_warmup_event now x1 ''task_executed''
       [(''task_type'', JStr DRY_RUN_TASK_TYPE), (''day'', JInt (wu_current_day x)), (''dry_run'', JBool True)]
       (save_session x1 (add_task_run x now worker s)))"
  have x1: "wu_id x1 = i" "wu_account_id x1 = a" using assms(2,3) by (simp_all add: x1_def)
  have s3: "keeps i a s s3" unfolding s3_def by (intro event_after save_after task assms x1)
  show ?thesis
  proof (cases "wu_duration_days x1 \<le> wu_current_day x + 1")
    case True
    with assms(4) have "WarmupWorker.complete_session pv x1 now y s3 = (Inr s', y')"
      by (simp add: run_dry_day_def Let_def x1_def s3_def)
    with complete_session [OF assms(1) x1(2,1)] s3 show ?thesis by (blast intro: trans)
  next
    case False
    let ?x = "x1\<lparr>wu_status := WActive,
      wu_started_at := (case wu_started_at x1 of None \<Rightarrow> Some now | t \<Rightarrow> t),
      wu_next_step_at := Some (now + hours (wu_cadence_hours x1))\<rparr>"
    have "s' = save_session ?x s3" using assms(4) False by (simp add: run_dry_day_def Let_def x1_def s3_def)
    moreover have "wu_id ?x = i" "wu_account_id ?x = a" using x1 by simp_all
    ultimately show ?thesis using s3 by (simp only: save_after)
  qed
qed

lemma locked_step:
  assumes "gate_frames (pv_gate pv)" and "wu_account_id x = a" and "wu_id x = i"
    and "process_one_locked_session pv now worker x y s = (Inr (b, s'), y')"
  shows "keeps i a s s'"
proof (cases "wu_status x = WColdSoak \<and> \<not> is_cold_soak_complete x now")
  case True
  with assms(4) show ?thesis using in_progress [OF assms(3,2)] by (auto simp: process_one_locked_session_def)
next
  case False
  with assms(4) obtain x1 s1 where x1: "advance_from_cold_soak x now s = Inr (x1, s1)"
    by (auto simp: process_one_locked_session_def split: sum.splits)
  from from_cold_soak [OF x1 assms(3,2)] have k: "keeps i a s s1" "wu_id x1 = i" "wu_account_id x1 = a" by auto
  show ?thesis
  proof (cases "task_done x1 s1")
    case True
    with assms(4) False x1 k(1) show ?thesis by (auto simp: process_one_locked_session_def intro: event_after)
  next
    case todo: False
    obtain r2 y2 where r2: "(if wu_duration_days x1 \<le> wu_current_day x1 then WarmupWorker.complete_session pv x1 now y s1
        else run_dry_day pv now worker x1 y s1) = (r2, y2)" by fastforce
    with assms(4) False x1 todo have "r2 = Inr s'"
      by (auto simp: process_one_locked_session_def result_bind_Inr_iff)
    with r2 have "keeps i a s1 s'"
      using complete_session [OF assms(1) k(3,2)] dry_day [OF assms(1) k(3,2)] by (auto split: if_splits)
    with k(1) show ?thesis by (rule trans)
  qed
qed

lemma dry_step:
  assumes "gate_frames (pv_gate pv)"
    and "process_one_due_session pv now worker x y s = (Inr (b, s'), y')"
  shows "keeps (wu_id x) (wu_account_id x) s s'"
proof -
  obtain locked s1 where l: "claim_account_runtime_lock (wu_account_id x) (lock_owner worker x) now s = (locked, s1)" by fastforce
  then have k1: "keeps (wu_id x) (wu_account_id x) s s1" using claim_lock by (metis snd_conv)
  show ?thesis
  proof (cases locked)
    case False
    with assms(2) l k1 show ?thesis by (auto simp: process_one_due_session_def intro: event_after)
  next
    case True
    obtain r y1 where r: "process_one_locked_session pv now worker x y s1 = (r, y1)" by fastforce
    with assms(2) l True obtain s2 where "r = Inr (b, s2)"
      and s': "s' = release_account_runtime_lock (wu_account_id x) (lock_owner worker x) now s2"
      by (auto simp: process_one_due_session_def result_bind_Inr_iff)
    with r have "keeps (wu_id x) (wu_account_id x) s1 s2" by (auto intro: locked_step [OF assms(1)])
    with k1 show ?thesis unfolding s' by (blast intro: trans release_lock)
  qed
qed

end

section \<open>Another session\<close>

definition warm_view where
  "warm_view i a s = (find_session i s, account_by_id s a, filter (\<lambda>t. tr_session_id t = i) (db_task_runs s))"

definition leaves_others :: "uuid \<Rightarrow> uuid \<Rightarrow> db \<Rightarrow> db \<Rightarrow> bool" where
  "leaves_others i a s s' \<longleftrightarrow> (\<forall>j b. j \<noteq> i \<longrightarrow> b \<noteq> a \<longrightarrow> warm_view j b s' = warm_view j b s)"

text \<open>The session rows are those of before, but for the one written.\<close>

definition rows_of :: "uuid \<Rightarrow> uuid \<Rightarrow> db \<Rightarrow> db \<Rightarrow> bool" where
  "rows_of i a s s' \<longleftrightarrow>
     map wu_id (db_warmups s') = map wu_id (db_warmups s) \<and>
     (\<forall>x\<in>set (db_warmups s'). x \<in> set (db_warmups s) \<or> wu_id x = i \<and> wu_account_id x = a)"

lemma find_save_session:
  "find_session i (save_session y s) =
     (if wu_id y = i then map_option (\<lambda>_. y) (find_session i s) else find_session i s)"
proof -
  have "find (\<lambda>x. wu_id x = i) (update_where (\<lambda>r. wu_id r = wu_id y) (\<lambda>_. y) xs) =
    (if wu_id y = i then map_option (\<lambda>_. y) (find (\<lambda>x. wu_id x = i) xs) else find (\<lambda>x. wu_id x = i) xs)" for xs
    by (induction xs) auto
  then show ?thesis by (simp add: find_session_def save_session_def)
qed

lemma account_by_id_update:
  "(\<And>r. acc_id (f r) = acc_id r) \<Longrightarrow> b \<noteq> a \<Longrightarrow>
   find (\<lambda>r. acc_id r = a) (update_where (\<lambda>r. acc_id r = b) f xs) = find (\<lambda>r. acc_id r = a) xs"
  by (induction xs) auto

lemma advance_in_other:
  assumes "advance_in acc t now reason md s = Inr s'" and "acc_id acc \<noteq> a"
  shows "account_by_id s' a = account_by_id s a"
  using assms
  by (auto simp: advance_in_def advance_def Let_def new_id_def account_by_id_def account_by_id_update split: if_splits)

lemma map_ids_save [simp]: "map wu_id (db_warmups (save_session x s)) = map wu_id (db_warmups s)"
  by (simp add: save_session_def update_where_def)

interpretation others: session_frame leaves_others
proof
  fix i a s and x :: warmup_session
  assume "wu_id x = i"
  then show "leaves_others i a s (save_session x s)"
    unfolding leaves_others_def warm_view_def find_save_session
    by (simp add: account_by_id_def) (simp add: save_session_def)
next
  fix i a s s' acc t now reason md
  assume "advance_in acc t now reason md s = Inr s'" and "acc_id acc = a"
  then show "leaves_others i a s s'"
    using advance_in_tables [of acc t now reason md s s'] advance_in_other [of acc t now reason md s s']
    by (auto simp: leaves_others_def warm_view_def find_session_def)
qed (auto simp: leaves_others_def warm_view_def find_session_def account_by_id_def warm_tables_def add_task_run_def
    new_id_def set_runtime_def account_by_id_update release_claim_def split: option.split)

interpretation rows: session_frame rows_of
proof
  fix i a s s' acc t now reason md
  assume "advance_in acc t now reason md s = Inr s'" and "acc_id acc = a"
  then show "rows_of i a s s'" using advance_in_tables [of acc t now reason md s s'] by (simp add: rows_of_def)
next
  fix i a s and x :: warmup_session
  assume "wu_id x = i" and "wu_account_id x = a"
  then show "rows_of i a s (save_session x s)"
    unfolding rows_of_def map_ids_save by (auto simp: save_session_def query_simps split: if_splits)
qed (auto simp: rows_of_def warm_tables_def add_task_run_def new_id_def set_runtime_def release_claim_def
    split: option.split)

end
