(* ===== verification/WarmupSteps.thy ===== *)
theory WarmupSteps
  imports WarmupFrames
begin

text \<open>
  What a due step of the dry-run worker does to its own session and to the account: the lemmas the
  properties of the warm-up rest on. The lifecycle state of an account and its runtime state are read
  by \<open>lifecycle_of\<close> and \<open>runtime_of\<close>.
\<close>

section \<open>Reading through the writes\<close>

definition lifecycle_of :: "uuid \<Rightarrow> db \<Rightarrow> lifecycle_state option" where
  "lifecycle_of a s = map_option acc_lifecycle_state (account_by_id s a)"

lemma reads_event [simp]:
  "find_session i (write_warmup_event now x ty d s) = find_session i s"
  "account_by_id (write_warmup_event now x ty d s) a = account_by_id s a"
  "db_task_runs (write_warmup_event now x ty d s) = db_task_runs s"
  by (simp_all add: write_warmup_event_def new_id_def find_session_def account_by_id_def)

lemma reads_save [simp]:
  "account_by_id (save_session x s) a = account_by_id s a"
  "db_task_runs (save_session x s) = db_task_runs s"
  by (simp_all add: save_session_def account_by_id_def)

lemma reads_task_run [simp]:
  "find_session i (add_task_run x now worker s) = find_session i s"
  "account_by_id (add_task_run x now worker s) a = account_by_id s a"
  by (simp_all add: add_task_run_def new_id_def find_session_def account_by_id_def)

lemma reads_runtime [simp]:
  "find_session i (set_runtime a f s) = find_session i s"
  "db_task_runs (set_runtime a f s) = db_task_runs s"
  by (simp_all add: set_runtime_def find_session_def)

lemma account_by_id_set_runtime:
  "account_by_id (set_runtime a f s) b =
     map_option (\<lambda>r. if b = a then r\<lparr>acc_runtime_state := map_option f (acc_runtime_state r)\<rparr> else r) (account_by_id s b)"
proof -
  have "find (\<lambda>r. acc_id r = b) (update_where (\<lambda>r. acc_id r = a)
      (\<lambda>r. r\<lparr>acc_runtime_state := map_option f (acc_runtime_state r)\<rparr>) xs) =
    map_option (\<lambda>r. if b = a then r\<lparr>acc_runtime_state := map_option f (acc_runtime_state r)\<rparr> else r)
      (find (\<lambda>r. acc_id r = b) xs)" for xs
    by (induction xs) auto
  then show ?thesis by (simp add: account_by_id_def set_runtime_def)
qed

lemma lifecycle_set_runtime [simp]: "lifecycle_of b (set_runtime a f s) = lifecycle_of b s"
  by (simp add: lifecycle_of_def account_by_id_set_runtime option.map_comp comp_def if_distrib cong: if_cong)

lemma runtime_set_runtime: "runtime_of b (set_runtime a f s) = (if b = a then map_option f (runtime_of b s) else runtime_of b s)"
  by (auto simp: runtime_of_def account_by_id_set_runtime split: option.split)

lemma lifecycle_reads [simp]:
  "lifecycle_of a (write_warmup_event now x ty d s) = lifecycle_of a s"
  "lifecycle_of a (save_session x s) = lifecycle_of a s"
  "lifecycle_of a (add_task_run x now worker s) = lifecycle_of a s"
  by (simp_all add: lifecycle_of_def)

lemma runtime_reads [simp]:
  "runtime_of a (write_warmup_event now x ty d s) = runtime_of a s"
  "runtime_of a (save_session x s) = runtime_of a s"
  "runtime_of a (add_task_run x now worker s) = runtime_of a s"
  by (simp_all add: runtime_of_def)

lemma release_claim_reads [simp]:
  "find_session i (snd (release_claim a h s)) = find_session i s"
  "lifecycle_of b (snd (release_claim a h s)) = lifecycle_of b s"
  "runtime_of b (snd (release_claim a h s)) = runtime_of b s"
  "db_task_runs (snd (release_claim a h s)) = db_task_runs s"
  by (simp_all add: release_claim_def find_session_def lifecycle_of_def runtime_of_def account_by_id_def split: option.split)

lemma warm_tables_reads:
  assumes "warm_tables s' = warm_tables s"
  shows "find_session i s' = find_session i s" "account_by_id s' a = account_by_id s a"
    "lifecycle_of a s' = lifecycle_of a s" "runtime_of a s' = runtime_of a s" "db_task_runs s' = db_task_runs s"
    "db_warmups s' = db_warmups s" "db_isolation_claims s' = db_isolation_claims s"
  using assms by (simp_all add: warm_tables_def find_session_def lifecycle_of_def runtime_of_def account_by_id_def)

lemmas survival_reads [simp] = survival_tables [THEN warm_tables_reads(1)] survival_tables [THEN warm_tables_reads(3)]
  survival_tables [THEN warm_tables_reads(4)] survival_tables [THEN warm_tables_reads(5)]

section \<open>The account\<close>

lemma advance_in_ok:
  assumes "account_by_id s a = Some acc"
    and "acc_lifecycle_state acc = t \<or> is_transition_allowed (acc_lifecycle_state acc) t False"
  shows "\<exists>s'. advance_in acc t now reason md s = Inr s' \<and> lifecycle_of a s' = Some t \<and>
    runtime_of a s' = runtime_of a s \<and> (\<forall>i. find_session i s' = find_session i s) \<and> db_task_runs s' = db_task_runs s"
proof (cases "acc_lifecycle_state acc = t")
  case True
  with assms(1) show ?thesis by (simp add: advance_in_def advance_unchanged lifecycle_of_def)
next
  case False
  with assms(2) have allowed: "is_transition_allowed (acc_lifecycle_state acc) t False" by simp
  have id: "acc_id acc = a" using assms(1) by (auto simp: account_by_id_def dest: find_mem)
  have f: "find (\<lambda>r. acc_id r = a) (update_where (\<lambda>r. acc_id r = a) (moved t now) xs) =
      map_option (moved t now) (find (\<lambda>r. acc_id r = a) xs)" for xs
    by (induction xs) auto
  from advance_moves [OF allowed, of now reason None md s] obtain e where
    e: "advance acc t now reason None False md s =
      (Inr (Some e), s\<lparr>db_accounts := update_where (\<lambda>r. acc_id r = a) (moved t now) (db_accounts s),
                     db_next_id := Suc (db_next_id s), db_lifecycle_events := db_lifecycle_events s @ [e]\<rparr>)"
    unfolding id by blast
  let ?s = "s\<lparr>db_accounts := update_where (\<lambda>r. acc_id r = a) (moved t now) (db_accounts s),
      db_next_id := Suc (db_next_id s), db_lifecycle_events := db_lifecycle_events s @ [e]\<rparr>"
  have "account_by_id ?s a = Some (moved t now acc)" using assms(1) by (simp add: account_by_id_def f)
  moreover have "acc_runtime_state (moved t now acc) = acc_runtime_state acc" by (simp add: moved_def)
  ultimately have "lifecycle_of a ?s = Some t \<and> runtime_of a ?s = runtime_of a s \<and>
      (\<forall>i. find_session i ?s = find_session i s) \<and> db_task_runs ?s = db_task_runs s"
    using assms(1) by (simp add: lifecycle_of_def runtime_of_def find_session_def)
  then show ?thesis by (simp add: advance_in_def e)
qed

lemma lifecycle_account: "lifecycle_of a s = Some l \<Longrightarrow> \<exists>acc. account_by_id s a = Some acc \<and> acc_lifecycle_state acc = l"
  by (auto simp: lifecycle_of_def)

text \<open>\<open>kept a s s'\<close>: a change of the lifecycle state of the account \<open>a\<close> and of nothing a step reads.\<close>

definition kept :: "uuid \<Rightarrow> db \<Rightarrow> db \<Rightarrow> bool" where
  "kept a s s' \<longleftrightarrow> runtime_of a s' = runtime_of a s \<and> (\<forall>i. find_session i s' = find_session i s) \<and>
     db_task_runs s' = db_task_runs s"

lemma kept_refl [simp]: "kept a s s"
  by (simp add: kept_def)

lemma kept_trans [trans]: "kept a s s1 \<Longrightarrow> kept a s1 s2 \<Longrightarrow> kept a s s2"
  by (simp add: kept_def)

text \<open>The move of a session's account from one state to another.\<close>

lemma move_account:
  assumes "lifecycle_of (wu_account_id x) s = Some l" and "l = t \<or> is_transition_allowed l t False"
  shows "\<exists>acc s'. session_account x s = Inr acc \<and> acc_lifecycle_state acc = l \<and>
    advance_in acc t now reason md s = Inr s' \<and> lifecycle_of (wu_account_id x) s' = Some t \<and> kept (wu_account_id x) s s'"
proof -
  from lifecycle_account [OF assms(1)] obtain acc where acc: "account_by_id s (wu_account_id x) = Some acc" "acc_lifecycle_state acc = l"
    by blast
  with advance_in_ok [OF acc(1), of t now reason md] assms(2) show ?thesis
    by (auto simp: session_account_def kept_def)
qed

lemma catch_up_ok:
  assumes "lifecycle_of (wu_account_id x) s = Some l"
  shows "\<exists>s'. catch_up x now reason s = Inr s' \<and>
    lifecycle_of (wu_account_id x) s' = Some (if l = LImported then LColdSoak else l) \<and> kept (wu_account_id x) s s'"
proof (cases "l = LImported")
  case True
  with move_account [OF assms, of LColdSoak now reason "session_metadata x"] show ?thesis
    by (auto simp: catch_up_def transition_defs)
next
  case False
  with move_account [OF assms, of l now reason "session_metadata x"] assms show ?thesis
    by (auto simp: catch_up_def)
qed

lemma to_warming_ok:
  assumes "lifecycle_of (wu_account_id x) s = Some l" and "l \<in> {LImported, LColdSoak, LWarming}"
  shows "\<exists>s'. advance_account_to_warming x now s = Inr s' \<and>
    lifecycle_of (wu_account_id x) s' = Some LWarming \<and> kept (wu_account_id x) s s'"
proof -
  from catch_up_ok [OF assms(1)] obtain s1 where s1: "catch_up x now ''legacy_cold_soak_catchup'' s = Inr s1"
    "lifecycle_of (wu_account_id x) s1 = Some (if l = LImported then LColdSoak else l)" "kept (wu_account_id x) s s1" by blast
  from move_account [OF s1(2), of LWarming now "''cold_soak_completed''" "session_metadata x"] assms(2)
  show ?thesis using s1 kept_trans [OF s1(3)]
    by (auto simp: advance_account_to_warming_def transition_defs)
qed

definition pre_production_reachable :: "lifecycle_state \<Rightarrow> bool" where
  "pre_production_reachable l \<longleftrightarrow> l \<in> {LImported, LColdSoak, LWarming, LPreProduction}"

lemma to_pre_production_ok:
  assumes "lifecycle_of (wu_account_id x) s = Some l" and "pre_production_reachable l"
  shows "\<exists>s'. advance_account_to_pre_production x now s = Inr s' \<and>
    lifecycle_of (wu_account_id x) s' = Some LPreProduction \<and> kept (wu_account_id x) s s'"
proof -
  let ?a = "wu_account_id x"
  from catch_up_ok [OF assms(1)] obtain s1 where s1: "catch_up x now ''legacy_completion_catchup'' s = Inr s1"
    "lifecycle_of ?a s1 = Some (if l = LImported then LColdSoak else l)" "kept ?a s s1" by blast
  define l1 where "l1 = (if l = LImported then LColdSoak else l)"
  have l1: "lifecycle_of ?a s1 = Some l1" "l1 \<in> {LColdSoak, LWarming, LPreProduction}"
    using s1(2) assms(2) by (auto simp: l1_def pre_production_reachable_def)
  obtain acc s2 l2 where acc: "session_account x s1 = Inr acc" and
    s2: "(if acc_lifecycle_state acc = LColdSoak
       then advance_in acc LWarming now ''legacy_completion_catchup'' (session_metadata x) s1 else Inr s1) = Inr s2"
    "lifecycle_of ?a s2 = Some l2" "l2 \<in> {LWarming, LPreProduction}" "kept ?a s1 s2"
  proof (cases "l1 = LColdSoak")
    case True
    with move_account [OF l1(1), of LWarming now "''legacy_completion_catchup''" "session_metadata x"] that
    show ?thesis by (auto simp: transition_defs)
  next
    case False
    with lifecycle_account [OF l1(1)] l1 that show ?thesis by (auto simp: session_account_def)
  qed
  from move_account [OF s2(2), of LPreProduction now "''warmup_session_completed''" "session_metadata x"] s2(3)
  obtain acc2 s3 where "session_account x s2 = Inr acc2"
    "advance_in acc2 LPreProduction now ''warmup_session_completed'' (session_metadata x) s2 = Inr s3"
    "lifecycle_of ?a s3 = Some LPreProduction" "kept ?a s2 s3" by (auto simp: transition_defs)
  with s1 acc s2 show ?thesis
    by (auto simp: advance_account_to_pre_production_def catch_up_to_warming_def intro: kept_trans)
qed

text \<open>An account that pre-production cannot be reached from blocks the completion of its session.\<close>

lemma to_pre_production_fails:
  assumes "lifecycle_of (wu_account_id x) s = Some l" and "\<not> pre_production_reachable l"
  shows "advance_account_to_pre_production x now s = Inl InvalidTransition"
proof -
  from lifecycle_account [OF assms(1)] obtain acc where acc: "account_by_id s (wu_account_id x) = Some acc" "acc_lifecycle_state acc = l"
    by blast
  have "l \<noteq> LImported" "l \<noteq> LColdSoak" "l \<noteq> LPreProduction" "\<not> is_transition_allowed l LPreProduction False"
    using assms(2) by (cases l; simp add: pre_production_reachable_def transition_defs)+
  with acc show ?thesis
    by (simp add: advance_account_to_pre_production_def catch_up_to_warming_def catch_up_def session_account_def
        advance_in_def advance_unchanged)
qed

section \<open>Completion\<close>

definition completed :: "time \<Rightarrow> warmup_session \<Rightarrow> warmup_session" where
  "completed now x = x\<lparr>wu_status := WCompleted, wu_completed_at := Some now, wu_next_step_at := None, wu_updated_at := now\<rparr>"

lemma completed_simps [simp]:
  "wu_id (completed now x) = wu_id x" "wu_account_id (completed now x) = wu_account_id x"
  "wu_current_day (completed now x) = wu_current_day x" "wu_duration_days (completed now x) = wu_duration_days x"
  "wu_status (completed now x) = WCompleted"
  by (simp_all add: completed_def)

lemma completion_ok:
  assumes "\<not> wc_pre_production_enabled (pv_settings pv)"
    and "lifecycle_of (wu_account_id x) s = Some l" and "pre_production_reachable l"
  shows "\<exists>s'. completion_effects pv x now y s = (Inr s', y) \<and>
    lifecycle_of (wu_account_id x) s' = Some LPreProduction \<and> kept (wu_account_id x) s s'"
proof -
  from to_pre_production_ok [OF assms(2,3)] obtain s1 where s1: "advance_account_to_pre_production x now s = Inr s1"
    "lifecycle_of (wu_account_id x) s1 = Some LPreProduction" "kept (wu_account_id x) s s1" by blast
  have "\<not> should_start_pre_production (pv_settings pv) x s1" using assms(1) by (simp add: should_start_pre_production_def)
  with s1 show ?thesis by (auto simp: completion_effects_def kept_def Let_def case_prod_unfold)
qed

lemma completion_fails:
  assumes "lifecycle_of (wu_account_id x) s = Some l" and "\<not> pre_production_reachable l"
  shows "completion_effects pv x now y s = (Inl InvalidTransition, y)"
  using to_pre_production_fails [OF assms] by (simp add: completion_effects_def)

lemma complete_session_ok:
  assumes "\<not> wc_pre_production_enabled (pv_settings pv)" and "find_session (wu_id x) s \<noteq> None"
    and "lifecycle_of (wu_account_id x) s = Some l" and "pre_production_reachable l"
  shows "\<exists>s'. complete_session pv x now y s = (Inr s', y) \<and> find_session (wu_id x) s' = Some (completed now x) \<and>
    lifecycle_of (wu_account_id x) s' = Some LPreProduction \<and>
    runtime_of (wu_account_id x) s' = runtime_of (wu_account_id x) s \<and> db_task_runs s' = db_task_runs s"
proof -
  let ?s = "write_warmup_event now (completed now x) ''completed'' [(''day'', JInt (wu_current_day (completed now x)))]
    (save_session (completed now x) s)"
  have "lifecycle_of (wu_account_id (completed now x)) ?s = Some l" using assms(3) by simp
  from completion_ok [OF assms(1) this assms(4), of now y] obtain s' where
    s': "completion_effects pv (completed now x) now y ?s = (Inr s', y)"
    "lifecycle_of (wu_account_id x) s' = Some LPreProduction" "kept (wu_account_id x) ?s s'" by auto
  moreover have "find_session (wu_id x) ?s = Some (completed now x)" using assms(2) by (auto simp: find_save_session)
  ultimately show ?thesis by (auto simp: complete_session_def Let_def kept_def completed_def [symmetric])
qed

lemma complete_session_fails:
  assumes "lifecycle_of (wu_account_id x) s = Some l" and "\<not> pre_production_reachable l"
  shows "complete_session pv x now y s = (Inl InvalidTransition, y)"
  using assms by (simp add: complete_session_def Let_def completed_def [symmetric] completion_fails [where l = l])

section \<open>A day\<close>

definition day_done :: "time \<Rightarrow> string \<Rightarrow> warmup_session \<Rightarrow> warmup_session" where
  "day_done now worker x = x\<lparr>wu_current_day := wu_current_day x + 1, wu_last_step_at := Some now,
     wu_worker_id := Some worker, wu_consecutive_failures := 0, wu_updated_at := now\<rparr>"

definition next_day :: "time \<Rightarrow> warmup_session \<Rightarrow> warmup_session" where
  "next_day now x = x\<lparr>wu_status := WActive,
     wu_started_at := (case wu_started_at x of None \<Rightarrow> Some now | t \<Rightarrow> t),
     wu_next_step_at := Some (now + hours (wu_cadence_hours x))\<rparr>"

lemma day_simps [simp]:
  "wu_id (day_done now worker x) = wu_id x" "wu_account_id (day_done now worker x) = wu_account_id x"
  "wu_current_day (day_done now worker x) = wu_current_day x + 1"
  "wu_duration_days (day_done now worker x) = wu_duration_days x"
  "wu_status (day_done now worker x) = wu_status x"
  "wu_id (next_day now x) = wu_id x" "wu_account_id (next_day now x) = wu_account_id x"
  "wu_current_day (next_day now x) = wu_current_day x" "wu_duration_days (next_day now x) = wu_duration_days x"
  "wu_status (next_day now x) = WActive"
  by (simp_all add: day_done_def next_day_def)

definition dry_day_rows where
  "dry_day_rows now worker x s =
     write_warmup_event now (day_done now worker x) ''day_advanced'' [(''day'', JInt (wu_current_day x + 1))]
       (write_warmup_event now (day_done now worker x) ''task_executed''
          [(''task_type'', JStr DRY_RUN_TASK_TYPE), (''day'', JInt (wu_current_day x)), (''dry_run'', JBool True)]
          (save_session (day_done now worker x) (add_task_run x now worker s)))"

lemma run_dry_day_eq:
  "run_dry_day pv now worker x y s =
     (if wu_duration_days x \<le> wu_current_day x + 1
      then complete_session pv (day_done now worker x) now y (dry_day_rows now worker x s)
      else (Inr (save_session (next_day now (day_done now worker x)) (dry_day_rows now worker x s)), y))"
  unfolding run_dry_day_def dry_day_rows_def day_done_def next_day_def Let_def by simp

lemma dry_day_rows_reads [simp]:
  "lifecycle_of a (dry_day_rows now worker x s) = lifecycle_of a s"
  "runtime_of a (dry_day_rows now worker x s) = runtime_of a s"
  "db_task_runs (dry_day_rows now worker x s) = db_task_runs (add_task_run x now worker s)"
  "find_session i (dry_day_rows now worker x s) =
     (if wu_id x = i then map_option (\<lambda>_. day_done now worker x) (find_session i s) else find_session i s)"
  by (simp_all add: dry_day_rows_def find_save_session)

definition tasks_before :: "uuid \<Rightarrow> int \<Rightarrow> db \<Rightarrow> bool" where
  "tasks_before i d s \<longleftrightarrow> list_all (\<lambda>t. tr_session_id t = i \<longrightarrow> tr_day t < d) (db_task_runs s)"

lemma tasks_before_add: "tasks_before (wu_id x) (wu_current_day x) s \<Longrightarrow>
    tasks_before (wu_id x) (wu_current_day x + 1) (add_task_run x now worker s)"
  by (auto simp: tasks_before_def add_task_run_def new_id_def list_all_iff)

lemma tasks_before_cong: "db_task_runs s' = db_task_runs s \<Longrightarrow> tasks_before i d s' = tasks_before i d s"
  by (simp add: tasks_before_def)

definition day_row :: "time \<Rightarrow> string \<Rightarrow> warmup_session \<Rightarrow> warmup_session" where
  "day_row now worker x =
     (if wu_duration_days x \<le> wu_current_day x then completed now x
      else if wu_duration_days x \<le> wu_current_day x + 1 then completed now (day_done now worker x)
      else next_day now (day_done now worker x))"

lemma day_row_simps [simp]:
  "wu_id (day_row now worker x) = wu_id x" "wu_account_id (day_row now worker x) = wu_account_id x"
  "wu_duration_days (day_row now worker x) = wu_duration_days x"
  "wu_status (day_row now worker x) = (if wu_duration_days x \<le> wu_current_day x + 1 then WCompleted else WActive)"
  "wu_current_day (day_row now worker x) =
     (if wu_duration_days x \<le> wu_current_day x then wu_current_day x else wu_current_day x + 1)"
  by (simp_all add: day_row_def)

lemma dry_day_ok:
  assumes "\<not> wc_pre_production_enabled (pv_settings pv)" and "find_session (wu_id x) s \<noteq> None"
    and "lifecycle_of (wu_account_id x) s = Some l" and "pre_production_reachable l"
    and "tasks_before (wu_id x) (wu_current_day x) s"
  shows "\<exists>s' l'. (if wu_duration_days x \<le> wu_current_day x then complete_session pv x now y s
      else run_dry_day pv now worker x y s) = (Inr s', y) \<and>
    find_session (wu_id x) s' = Some (day_row now worker x) \<and>
    lifecycle_of (wu_account_id x) s' = Some l' \<and> pre_production_reachable l' \<and>
    (wu_status (day_row now worker x) = WCompleted \<longrightarrow> l' = LPreProduction) \<and>
    runtime_of (wu_account_id x) s' = runtime_of (wu_account_id x) s \<and>
    tasks_before (wu_id x) (wu_current_day (day_row now worker x)) s'"
proof (cases "wu_duration_days x \<le> wu_current_day x")
  case True
  with complete_session_ok [OF assms(1-4), of now y] assms(5) show ?thesis
    by (auto simp: day_row_def pre_production_reachable_def tasks_before_def)
next
  case False
  let ?x = "day_done now worker x" and ?s = "dry_day_rows now worker x s"
  have tasks: "tasks_before (wu_id x) (wu_current_day x + 1) ?s"
    using tasks_before_add [OF assms(5)] by (simp add: tasks_before_def)
  show ?thesis
  proof (cases "wu_duration_days x \<le> wu_current_day x + 1")
    case True
    from complete_session_ok [OF assms(1), of ?x ?s l now y] assms obtain s' where
      "complete_session pv ?x now y ?s = (Inr s', y)" "find_session (wu_id x) s' = Some (completed now ?x)"
      "lifecycle_of (wu_account_id x) s' = Some LPreProduction"
      "runtime_of (wu_account_id x) s' = runtime_of (wu_account_id x) s" "db_task_runs s' = db_task_runs ?s" by auto
    with False True tasks show ?thesis
      by (simp add: run_dry_day_eq day_row_def pre_production_reachable_def tasks_before_def)
  next
    case more: False
    with False tasks assms show ?thesis
      by (auto simp: run_dry_day_eq day_row_def find_save_session tasks_before_def)
  qed
qed

section \<open>A step\<close>

definition waiting :: "time \<Rightarrow> warmup_session \<Rightarrow> warmup_session" where
  "waiting now x = (case wu_cold_soak_until x of None \<Rightarrow> x
      | Some t \<Rightarrow> x\<lparr>wu_next_step_at := Some t, wu_next_micro_session_at :=
          (if wu_execution_mode x \<noteq> DryRun then Some t else wu_next_micro_session_at x)\<rparr>)\<lparr>wu_updated_at := now\<rparr>"

definition soaked :: "time \<Rightarrow> warmup_session \<Rightarrow> warmup_session" where
  "soaked now x = (if wu_status x \<noteq> WColdSoak then x
     else x\<lparr>wu_status := WScheduled, wu_next_step_at := Some now,
       wu_next_micro_session_at := (if wu_execution_mode x \<noteq> DryRun then Some now else wu_next_micro_session_at x),
       wu_updated_at := now\<rparr>)"

lemma soak_simps [simp]:
  "wu_id (waiting now x) = wu_id x" "wu_account_id (waiting now x) = wu_account_id x"
  "wu_status (waiting now x) = wu_status x" "wu_current_day (waiting now x) = wu_current_day x"
  "wu_duration_days (waiting now x) = wu_duration_days x"
  "wu_id (soaked now x) = wu_id x" "wu_account_id (soaked now x) = wu_account_id x"
  "wu_current_day (soaked now x) = wu_current_day x" "wu_duration_days (soaked now x) = wu_duration_days x"
  "wu_status (soaked now x) = (if wu_status x = WColdSoak then WScheduled else wu_status x)"
  by (auto simp: waiting_def soaked_def split: option.split)

text \<open>The row after a step: a soak goes on, or ends and the session does its day.\<close>

definition stepped :: "time \<Rightarrow> string \<Rightarrow> warmup_session \<Rightarrow> warmup_session" where
  "stepped now worker x =
     (if wu_status x = WColdSoak \<and> \<not> is_cold_soak_complete x now then waiting now x
      else day_row now worker (soaked now x))"

lemma stepped_ids [simp]:
  "wu_id (stepped now worker x) = wu_id x" "wu_account_id (stepped now worker x) = wu_account_id x"
  "wu_duration_days (stepped now worker x) = wu_duration_days x"
  by (simp_all add: stepped_def)

definition step_possible :: "warmup_status \<Rightarrow> lifecycle_state \<Rightarrow> bool" where
  "step_possible st l \<longleftrightarrow> (if st = WColdSoak then l \<in> {LImported, LColdSoak, LWarming} else pre_production_reachable l)"

lemma from_cold_soak_ok:
  assumes "find_session (wu_id x) s \<noteq> None" and "find_session (wu_id x) s = Some x"
    and "lifecycle_of (wu_account_id x) s = Some l" and "step_possible (wu_status x) l"
  shows "\<exists>s' l'. advance_from_cold_soak x now s = Inr (soaked now x, s') \<and>
    find_session (wu_id x) s' = Some (soaked now x) \<and> lifecycle_of (wu_account_id x) s' = Some l' \<and>
    pre_production_reachable l' \<and> runtime_of (wu_account_id x) s' = runtime_of (wu_account_id x) s \<and>
    db_task_runs s' = db_task_runs s"
proof (cases "wu_status x = WColdSoak")
  case True
  let ?x = "soaked now x"
  from to_warming_ok [of ?x "save_session ?x s" l now] assms True obtain s1 where
    s1: "advance_account_to_warming ?x now (save_session ?x s) = Inr s1"
    "lifecycle_of (wu_account_id x) s1 = Some LWarming" "kept (wu_account_id x) (save_session ?x s) s1"
    by (auto simp: step_possible_def)
  have "advance_from_cold_soak x now s =
      Inr (?x, write_warmup_event now ?x ''cold_soak_completed'' [(''transitioned_at'', JTime now)] s1)"
    using True s1(1) by (simp add: advance_from_cold_soak_def soaked_def Let_def)
  with s1 assms(2) show ?thesis by (auto simp: kept_def find_save_session pre_production_reachable_def)
next
  case False
  with assms show ?thesis by (auto simp: advance_from_cold_soak_def soaked_def step_possible_def)
qed

lemma in_progress_reads:
  assumes "find_session (wu_id x) s \<noteq> None"
  shows "let s' = snd (record_cold_soak_in_progress x now s) in
    find_session (wu_id x) s' = Some (waiting now x) \<and> lifecycle_of a s' = lifecycle_of a s \<and>
    runtime_of a s' = runtime_of a s \<and> db_task_runs s' = db_task_runs s"
proof -
  have "snd (record_cold_soak_in_progress x now s) =
    (if should_write_in_progress_event (waiting now x) now (save_session (waiting now x) s)
     then write_warmup_event now (waiting now x) ''cold_soak_in_progress''
       [(''until'', case wu_cold_soak_until (waiting now x) of None \<Rightarrow> JNull | Some t \<Rightarrow> JTime t)]
       (save_session (waiting now x) s)
     else save_session (waiting now x) s)"
    unfolding record_cold_soak_in_progress_def waiting_def Let_def snd_conv by (rule HOL.refl)
  with assms show ?thesis by (auto simp: Let_def find_save_session)
qed

section \<open>A due session\<close>

text \<open>
  A session is ready when its account exists, its runtime lock is free, the next move of the lifecycle
  is allowed, and the days that are recorded as done lie before the current one.
\<close>

definition ready :: "uuid \<Rightarrow> db \<Rightarrow> bool" where
  "ready i s =
     (case find_session i s of None \<Rightarrow> False
      | Some x \<Rightarrow>
          (case (lifecycle_of (wu_account_id x) s, runtime_of (wu_account_id x) s) of
             (Some l, Some r) \<Rightarrow> step_possible (wu_status x) l \<and> rs_lock_owner r = None \<and> tasks_before i (wu_current_day x) s
           | _ \<Rightarrow> False))"

lemma readyE:
  assumes "ready i s" and "find_session i s = Some x"
  obtains l r where "lifecycle_of (wu_account_id x) s = Some l" "runtime_of (wu_account_id x) s = Some r"
    "step_possible (wu_status x) l" "rs_lock_owner r = None" "tasks_before i (wu_current_day x) s"
  using assms by (auto simp: ready_def split: option.splits)

lemma readyI:
  assumes "find_session i s = Some x" and "lifecycle_of (wu_account_id x) s = Some l"
    and "runtime_of (wu_account_id x) s = Some r" and "step_possible (wu_status x) l" and "rs_lock_owner r = None"
    and "tasks_before i (wu_current_day x) s"
  shows "ready i s"
  using assms by (simp add: ready_def)

lemma find_session_id: "find_session i s = Some x \<Longrightarrow> wu_id x = i"
  by (auto simp: find_session_def dest: find_mem)

lemma task_not_done: "tasks_before (wu_id x) (wu_current_day x) s \<Longrightarrow> \<not> task_done x s"
  by (auto simp: tasks_before_def task_done_def list_all_iff list_ex_iff)

lemma locked_step_ok:
  assumes "\<not> wc_pre_production_enabled (pv_settings pv)" and "find_session (wu_id x) s = Some x"
    and "lifecycle_of (wu_account_id x) s = Some l" and "step_possible (wu_status x) l"
    and "tasks_before (wu_id x) (wu_current_day x) s"
  shows "\<exists>b s' l'. process_one_locked_session pv now worker x y s = (Inr (b, s'), y) \<and>
    find_session (wu_id x) s' = Some (stepped now worker x) \<and> lifecycle_of (wu_account_id x) s' = Some l' \<and>
    step_possible (wu_status (stepped now worker x)) l' \<and>
    (wu_status (stepped now worker x) = WCompleted \<longrightarrow> l' = LPreProduction) \<and>
    runtime_of (wu_account_id x) s' = runtime_of (wu_account_id x) s \<and>
    tasks_before (wu_id x) (wu_current_day (stepped now worker x)) s'"
proof (cases "wu_status x = WColdSoak \<and> \<not> is_cold_soak_complete x now")
  case True
  with in_progress_reads [of x s now "wu_account_id x"] assms show ?thesis
    by (auto simp: process_one_locked_session_def stepped_def Let_def tasks_before_def)
next
  case False
  from assms(2) have found: "find_session (wu_id x) s \<noteq> None" by simp
  from from_cold_soak_ok [OF found assms(2-4), of now] obtain s1 l1 where s1:
    "advance_from_cold_soak x now s = Inr (soaked now x, s1)" "find_session (wu_id x) s1 = Some (soaked now x)"
    "lifecycle_of (wu_account_id x) s1 = Some l1" "pre_production_reachable l1"
    "runtime_of (wu_account_id x) s1 = runtime_of (wu_account_id x) s" "db_task_runs s1 = db_task_runs s" by blast
  let ?x = "soaked now x"
  have tasks: "tasks_before (wu_id ?x) (wu_current_day ?x) s1" using assms(5) s1(6) by (simp add: tasks_before_def)
  have "\<exists>s' l'. (if wu_duration_days ?x \<le> wu_current_day ?x then complete_session pv ?x now y s1
      else run_dry_day pv now worker ?x y s1) = (Inr s', y) \<and>
    find_session (wu_id ?x) s' = Some (day_row now worker ?x) \<and>
    lifecycle_of (wu_account_id ?x) s' = Some l' \<and> pre_production_reachable l' \<and>
    (wu_status (day_row now worker ?x) = WCompleted \<longrightarrow> l' = LPreProduction) \<and>
    runtime_of (wu_account_id ?x) s' = runtime_of (wu_account_id ?x) s1 \<and>
    tasks_before (wu_id ?x) (wu_current_day (day_row now worker ?x)) s'"
    by (rule dry_day_ok [OF assms(1) _ _ s1(4) tasks]) (use s1 in simp_all)
  then obtain s2 l2 where s2: "(if wu_duration_days ?x \<le> wu_current_day ?x then complete_session pv ?x now y s1
      else run_dry_day pv now worker ?x y s1) = (Inr s2, y)"
    "find_session (wu_id x) s2 = Some (day_row now worker ?x)" "lifecycle_of (wu_account_id x) s2 = Some l2"
    "pre_production_reachable l2" "wu_status (day_row now worker ?x) = WCompleted \<longrightarrow> l2 = LPreProduction"
    "runtime_of (wu_account_id x) s2 = runtime_of (wu_account_id x) s"
    "tasks_before (wu_id x) (wu_current_day (day_row now worker ?x)) s2"
    using s1(5) unfolding soak_simps by metis
  have row: "stepped now worker x = day_row now worker ?x" using False by (auto simp: stepped_def)
  have "process_one_locked_session pv now worker x y s = (Inr (True, s2), y)"
    using False task_not_done [OF tasks] s1(1) s2(1) by (simp add: process_one_locked_session_def)
  with s2 show ?thesis unfolding row by (auto simp: step_possible_def)
qed

lemma claim_free:
  assumes "runtime_of a s = Some r" and "rs_lock_owner r = None"
  shows "\<exists>s'. claim_account_runtime_lock a owner now s = (True, s') \<and>
    map_option rs_lock_owner (runtime_of a s') = Some (Some owner) \<and>
    lifecycle_of a s' = lifecycle_of a s \<and> (\<forall>i. find_session i s' = find_session i s) \<and> db_task_runs s' = db_task_runs s"
  using assms by (simp add: claim_account_runtime_lock_def runtime_set_runtime)

lemma release_own:
  assumes "map_option rs_lock_owner (runtime_of a s) = Some (Some owner)"
  shows "map_option rs_lock_owner (runtime_of a (release_account_runtime_lock a owner now s)) = Some None"
    "lifecycle_of a (release_account_runtime_lock a owner now s) = lifecycle_of a s"
    "find_session i (release_account_runtime_lock a owner now s) = find_session i s"
    "db_task_runs (release_account_runtime_lock a owner now s) = db_task_runs s"
  using assms by (auto simp: release_account_runtime_lock_def runtime_set_runtime)

theorem due_step_ok:
  assumes "\<not> wc_pre_production_enabled (pv_settings pv)" and "find_session i s = Some x" and "ready i s"
  shows "\<exists>b s'. process_one_due_session pv now worker x y s = (Inr (b, s'), y) \<and>
    find_session i s' = Some (stepped now worker x) \<and> ready i s' \<and>
    (wu_status (stepped now worker x) = WCompleted \<longrightarrow> lifecycle_of (wu_account_id x) s' = Some LPreProduction)"
proof -
  have i: "i = wu_id x" using find_session_id [OF assms(2)] by simp
  let ?a = "wu_account_id x" and ?o = "lock_owner worker x"
  from readyE [OF assms(3,2)] obtain l r where lr: "lifecycle_of ?a s = Some l" "runtime_of ?a s = Some r"
    "step_possible (wu_status x) l" "rs_lock_owner r = None" "tasks_before i (wu_current_day x) s" by blast
  from claim_free [OF lr(2,4), of ?o now] obtain s1 where s1: "claim_account_runtime_lock ?a ?o now s = (True, s1)"
    "map_option rs_lock_owner (runtime_of ?a s1) = Some (Some ?o)" "lifecycle_of ?a s1 = Some l"
    "find_session (wu_id x) s1 = Some x" "db_task_runs s1 = db_task_runs s"
    using lr(1) assms(2) i by auto
  from locked_step_ok [OF assms(1) s1(4,3) lr(3), of now worker y] lr(5) s1(5) obtain b s2 l2 where s2:
    "process_one_locked_session pv now worker x y s1 = (Inr (b, s2), y)"
    "find_session (wu_id x) s2 = Some (stepped now worker x)" "lifecycle_of ?a s2 = Some l2"
    "step_possible (wu_status (stepped now worker x)) l2"
    "wu_status (stepped now worker x) = WCompleted \<longrightarrow> l2 = LPreProduction" "runtime_of ?a s2 = runtime_of ?a s1"
    "tasks_before (wu_id x) (wu_current_day (stepped now worker x)) s2"
    unfolding i tasks_before_def by auto
  let ?s = "release_account_runtime_lock ?a ?o now s2"
  have lock: "map_option rs_lock_owner (runtime_of ?a s2) = Some (Some ?o)" using s1(2) s2(6) by simp
  from release_own(1) [OF lock] obtain r' where r': "runtime_of ?a ?s = Some r'" "rs_lock_owner r' = None"
    by auto
  have found: "find_session i ?s = Some (stepped now worker x)" using s2(2) release_own(3) [OF lock] i by simp
  have "ready i ?s"
    by (rule readyI [OF found, of l2 r']) (use s2 r' release_own(2,4) [OF lock] in \<open>simp_all add: i tasks_before_def\<close>)
  moreover have "process_one_due_session pv now worker x y s = (Inr (b, ?s), y)"
    using s1(1) s2(1) by (simp add: process_one_due_session_def)
  ultimately show ?thesis using found s2(3,5) release_own(2) [OF lock] by auto
qed

text \<open>A session at its last day whose account cannot go to pre-production.\<close>

lemma due_step_fails:
  assumes "find_session i s = Some x" and "wu_status x \<noteq> WColdSoak" and "wu_duration_days x \<le> wu_current_day x + 1"
    and "lifecycle_of (wu_account_id x) s = Some l" and "\<not> pre_production_reachable l"
    and "runtime_of (wu_account_id x) s = Some r" and "rs_lock_owner r = None" and "tasks_before i (wu_current_day x) s"
  shows "process_one_due_session pv now worker x y s = (Inl InvalidTransition, y)"
proof -
  let ?a = "wu_account_id x"
  from claim_free [OF assms(6,7), of "lock_owner worker x" now] obtain s1 where
    s1: "claim_account_runtime_lock ?a (lock_owner worker x) now s = (True, s1)"
    "lifecycle_of ?a s1 = Some l" "db_task_runs s1 = db_task_runs s" using assms(4) by auto
  have "\<not> task_done x s1"
    using assms(8) find_session_id [OF assms(1)] s1(3) by (intro task_not_done) (simp add: tasks_before_def)
  moreover have "complete_session pv x now y s1 = (Inl InvalidTransition, y)"
    by (rule complete_session_fails [OF s1(2) assms(5)])
  moreover have "complete_session pv (day_done now worker x) now y (dry_day_rows now worker x s1) = (Inl InvalidTransition, y)"
    by (rule complete_session_fails [where l = l]) (use s1(2) assms(5) in simp_all)
  ultimately have "process_one_locked_session pv now worker x y s1 = (Inl InvalidTransition, y)"
    using assms(2,3) by (simp add: process_one_locked_session_def advance_from_cold_soak_def run_dry_day_eq)
  with s1(1) show ?thesis by (simp add: process_one_due_session_def)
qed

end
