(* ===== verification/WarmupTicks.thy ===== *)
theory WarmupTicks
  imports WarmupSteps
begin

text \<open>
  Ticks of the dry-run worker: a batch of ready sessions of different accounts is served in full, the
  table stays well formed, and a session that gets its ticks completes; one session at its last day
  whose account cannot go to pre-production fails every batch it is in.
\<close>

section \<open>Frames of a batch\<close>

lemma leaves_others_reads:
  assumes "leaves_others i a s s'" and "j \<noteq> i"
  shows "find_session j s' = find_session j s" "tasks_before j d s' = tasks_before j d s"
proof -
  from assms have *: "warm_view j (Suc a) s' = warm_view j (Suc a) s" by (simp add: leaves_others_def)
  then show "find_session j s' = find_session j s" by (simp add: warm_view_def)
  have eq: "tasks_before j d u = list_all (\<lambda>t. tr_day t < d) (filter (\<lambda>t. tr_session_id t = j) (db_task_runs u))" for u
    by (auto simp: tasks_before_def list_all_iff)
  from * show "tasks_before j d s' = tasks_before j d s" unfolding eq by (simp add: warm_view_def)
qed

lemma leaves_others_account:
  assumes "leaves_others i a s s'" and "b \<noteq> a"
  shows "account_by_id s' b = account_by_id s b" "lifecycle_of b s' = lifecycle_of b s" "runtime_of b s' = runtime_of b s"
proof -
  from assms have "warm_view (Suc i) b s' = warm_view (Suc i) b s" by (simp add: leaves_others_def)
  then show "account_by_id s' b = account_by_id s b" by (simp add: warm_view_def)
  then show "lifecycle_of b s' = lifecycle_of b s" "runtime_of b s' = runtime_of b s"
    by (simp_all add: lifecycle_of_def runtime_of_def)
qed

lemma leaves_others_ready:
  assumes "leaves_others i a s s'" and "j \<noteq> i" and "find_session j s = Some x" and "wu_account_id x \<noteq> a"
  shows "ready j s' = ready j s"
  using leaves_others_reads [OF assms(1,2)] leaves_others_account [OF assms(1,4)] assms(3) by (simp add: ready_def split: option.split)

text \<open>The accounts of the sessions of a batch.\<close>

definition batch_accounts :: "uuid list \<Rightarrow> db \<Rightarrow> uuid list" where
  "batch_accounts is s = map wu_account_id (concat (map (\<lambda>i. case find_session i s of None \<Rightarrow> [] | Some x \<Rightarrow> [x]) is))"

lemma batch_accounts_simps [simp]:
  "batch_accounts [] s = []"
  "batch_accounts (i # is) s =
     (case find_session i s of None \<Rightarrow> [] | Some x \<Rightarrow> [wu_account_id x]) @ batch_accounts is s"
  by (simp_all add: batch_accounts_def split: option.split)

lemma batch_accounts_cong: "(\<And>i. i \<in> set is \<Longrightarrow> find_session i s' = find_session i s) \<Longrightarrow> batch_accounts is s' = batch_accounts is s"
  by (induction "is") auto

lemma batch_accounts_iff:
  "b \<in> set (batch_accounts is s) \<longleftrightarrow> (\<exists>i\<in>set is. \<exists>x. find_session i s = Some x \<and> wu_account_id x = b)"
proof (induction "is")
  case (Cons i "is")
  then show ?case by (cases "find_session i s") auto
qed simp

lemma batch_accounts_mem: "i \<in> set is \<Longrightarrow> find_session i s = Some x \<Longrightarrow> wu_account_id x \<in> set (batch_accounts is s)"
  unfolding batch_accounts_iff by blast

text \<open>A session that a batch completed has taken its account to pre-production.\<close>

definition finished :: "uuid \<Rightarrow> db \<Rightarrow> bool" where
  "finished i s = (case find_session i s of None \<Rightarrow> False
     | Some x \<Rightarrow> wu_status x = WCompleted \<longrightarrow> lifecycle_of (wu_account_id x) s = Some LPreProduction)"

lemma run_batch_ok:
  assumes "gate_frames (pv_gate pv)" and "\<not> wc_pre_production_enabled (pv_settings pv)"
    and "distinct is" and "distinct (batch_accounts is s)" and "\<forall>i\<in>set is. ready i s"
  shows "\<exists>m s'. run_batch (process_one_due_session pv now worker) is n y s = (Inr (m, s'), y) \<and>
    map wu_id (db_warmups s') = map wu_id (db_warmups s) \<and>
    (\<forall>i\<in>set is. find_session i s' = map_option (stepped now worker) (find_session i s) \<and> ready i s' \<and> finished i s') \<and>
    (\<forall>j. j \<notin> set is \<longrightarrow> find_session j s' = find_session j s \<and> (\<forall>d. tasks_before j d s' = tasks_before j d s)) \<and>
    (\<forall>b. b \<notin> set (batch_accounts is s) \<longrightarrow> lifecycle_of b s' = lifecycle_of b s \<and> runtime_of b s' = runtime_of b s)"
  using assms(3-)
proof (induction "is" arbitrary: n s)
  case Nil
  then show ?case by simp
next
  case (Cons i "is")
  from Cons.prems obtain x where x: "find_session i s = Some x" by (auto simp: ready_def split: option.splits)
  have id: "wu_id x = i" using find_session_id [OF x] .
  let ?a = "wu_account_id x"
  from due_step_ok [OF assms(2) x, of now worker y] Cons.prems obtain b s1 where
    s1: "process_one_due_session pv now worker x y s = (Inr (b, s1), y)"
    "find_session i s1 = Some (stepped now worker x)" "ready i s1" "finished i s1" by (auto simp: finished_def)
  from others.dry_step [OF assms(1) s1(1)] rows.dry_step [OF assms(1) s1(1)]
  have fr: "leaves_others i ?a s s1" "map wu_id (db_warmups s1) = map wu_id (db_warmups s)"
    unfolding id by (simp_all add: rows_of_def)
  have i: "i \<notin> set is" and a: "?a \<notin> set (batch_accounts is s)" using Cons.prems x by auto
  have same: "find_session j s1 = find_session j s" if "j \<in> set is" for j
    using leaves_others_reads(1) [OF fr(1)] that i by metis
  have ready1: "ready j s1" if j: "j \<in> set is" for j
  proof -
    from j Cons.prems(3) obtain z where z: "find_session j s = Some z" by (auto simp: ready_def split: option.splits)
    have "wu_account_id z \<noteq> ?a" using batch_accounts_mem [OF j z] a by auto
    with leaves_others_ready [OF fr(1) _ z] i j Cons.prems(3) show ?thesis by auto
  qed
  have accs: "batch_accounts is s1 = batch_accounts is s" by (rule batch_accounts_cong) (rule same)
  have ex: "\<exists>m s'. run_batch (process_one_due_session pv now worker) is (if b then Suc n else n) y s1 = (Inr (m, s'), y) \<and>
    map wu_id (db_warmups s') = map wu_id (db_warmups s1) \<and>
    (\<forall>i\<in>set is. find_session i s' = map_option (stepped now worker) (find_session i s1) \<and> ready i s' \<and> finished i s') \<and>
    (\<forall>j. j \<notin> set is \<longrightarrow> find_session j s' = find_session j s1 \<and> (\<forall>d. tasks_before j d s' = tasks_before j d s1)) \<and>
    (\<forall>b. b \<notin> set (batch_accounts is s1) \<longrightarrow> lifecycle_of b s' = lifecycle_of b s1 \<and> runtime_of b s' = runtime_of b s1)"
    by (rule Cons.IH) (use Cons.prems x ready1 accs in auto)
  then obtain m s' where s': "run_batch (process_one_due_session pv now worker) is (if b then Suc n else n) y s1 = (Inr (m, s'), y)"
    "map wu_id (db_warmups s') = map wu_id (db_warmups s1)"
    "\<forall>i\<in>set is. find_session i s' = map_option (stepped now worker) (find_session i s1) \<and> ready i s' \<and> finished i s'"
    "\<forall>j. j \<notin> set is \<longrightarrow> find_session j s' = find_session j s1 \<and> (\<forall>d. tasks_before j d s' = tasks_before j d s1)"
    "\<forall>b. b \<notin> set (batch_accounts is s1) \<longrightarrow> lifecycle_of b s' = lifecycle_of b s1 \<and> runtime_of b s' = runtime_of b s1"
    by blast
  have "run_batch (process_one_due_session pv now worker) (i # is) n y s = (Inr (m, s'), y)" using x s1(1) s'(1) by simp
  moreover have "find_session i s' = Some (stepped now worker x)" using s'(4) i s1(2) by auto
  moreover have "ready i s'" "finished i s'" using s'(4,5) i a accs s1(2-4)
    by (simp_all add: ready_def finished_def split: option.splits)
  moreover have "find_session j s' = find_session j s \<and> tasks_before j d s' = tasks_before j d s" if "j \<notin> set (i # is)" for j d
    using that s'(4) leaves_others_reads [OF fr(1), of j] by auto
  moreover have "lifecycle_of b s' = lifecycle_of b s \<and> runtime_of b s' = runtime_of b s"
    if "b \<notin> set (batch_accounts (i # is) s)" for b
    using that x s'(5) accs leaves_others_account [OF fr(1), of b] by auto
  ultimately show ?case using s'(2,3) fr(2) same x by auto
qed

section \<open>The table of sessions\<close>

definition open_dry :: "warmup_session \<Rightarrow> bool" where
  "open_dry x \<longleftrightarrow> wu_execution_mode x = DryRun \<and> wu_status x \<in> {WScheduled, WActive, WColdSoak}"

text \<open>Every open dry-run session is ready, and none shares its account with another.\<close>

definition warmups_ok :: "db \<Rightarrow> bool" where
  "warmups_ok s \<longleftrightarrow>
     distinct (map wu_id (db_warmups s)) \<and>
     distinct (map wu_account_id (filter open_dry (db_warmups s))) \<and>
     list_all (\<lambda>x. ready (wu_id x) s) (filter open_dry (db_warmups s))"

lemma find_session_mem:
  assumes "distinct (map wu_id (db_warmups s))"
  shows "find_session i s = Some x \<longleftrightarrow> x \<in> set (db_warmups s) \<and> wu_id x = i"
proof -
  have "distinct (map wu_id xs) \<Longrightarrow> find (\<lambda>x. wu_id x = i) xs = Some x \<longleftrightarrow> x \<in> set xs \<and> wu_id x = i" for xs
    by (induction xs) force+
  with assms show ?thesis by (simp add: find_session_def)
qed

lemma rows_from_find:
  assumes "map wu_id ys = map wu_id xs" and "distinct (map wu_id xs)"
    and "\<And>i. find (\<lambda>x. wu_id x = i) ys = map_option f (find (\<lambda>x. wu_id x = i) xs)"
  shows "ys = map f xs"
  using assms
proof (induction xs arbitrary: ys)
  case Nil
  then show ?case by simp
next
  case (Cons x xs)
  then obtain y ys' where ys: "ys = y # ys'" "wu_id y = wu_id x" "map wu_id ys' = map wu_id xs" by (cases ys) auto
  from Cons.prems(3) [of "wu_id x"] have y: "y = f x" using ys by simp
  have none: "find (\<lambda>z. wu_id z = wu_id x) zs = None" if "map wu_id zs = map wu_id xs" for zs
  proof -
    have "wu_id x \<notin> set (map wu_id zs)" using Cons.prems(2) that by simp
    then show ?thesis by (force simp: find_none_iff)
  qed
  have "find (\<lambda>z. wu_id z = i) ys' = map_option f (find (\<lambda>z. wu_id z = i) xs)" for i
  proof (cases "i = wu_id x")
    case True
    then show ?thesis using none [of ys'] none [of xs] ys by simp
  next
    case False
    then show ?thesis using Cons.prems(3) [of i] ys by simp
  qed
  with Cons.IH [of ys'] Cons.prems(2) ys y show ?case by simp
qed

lemma distinct_map_filter_mono:
  assumes "distinct (map k (filter P xs))" and "\<And>x. x \<in> set xs \<Longrightarrow> P (f x) \<Longrightarrow> P x" and "\<And>x. k (f x) = k x"
  shows "distinct (map k (filter P (map f xs)))"
  using assms(1,2)
proof (induction xs)
  case (Cons x xs)
  have "k x \<notin> k ` set (filter P (map f xs))" if "P (f x)"
  proof
    assume "k x \<in> k ` set (filter P (map f xs))"
    then obtain z where z: "z \<in> set xs" "P (f z)" "k (f z) = k x" by auto
    then have "P z" "k z = k x" using Cons.prems(2) assms(3) by auto
    moreover have "P x" using Cons.prems(2) that by simp
    ultimately show False using z(1) Cons.prems(1) by (auto simp: image_iff)
  qed
  moreover have "distinct (map k (filter P (map f xs)))" using Cons by (auto split: if_splits)
  ultimately show ?case using assms(3) by auto
qed simp

lemma stepped_mode [simp]: "wu_execution_mode (stepped now worker x) = wu_execution_mode x"
  by (simp add: stepped_def waiting_def day_row_def soaked_def completed_def next_day_def day_done_def split: option.split)

text \<open>What a tick makes of the rows.\<close>

definition batch_row :: "time \<Rightarrow> string \<Rightarrow> uuid list \<Rightarrow> warmup_session \<Rightarrow> warmup_session" where
  "batch_row now worker is x = (if wu_id x \<in> set is then stepped now worker x else x)"

lemma batch_row_ids [simp]:
  "wu_id (batch_row now worker is x) = wu_id x" "wu_account_id (batch_row now worker is x) = wu_account_id x"
  by (simp_all add: batch_row_def)

lemma due_open: "dry_run_due w now x \<Longrightarrow> open_dry x"
  by (auto simp: dry_run_due_def open_dry_def)

lemma batch_mem:
  "i \<in> set (dry_run_batch cfg w now limit s) \<Longrightarrow> \<exists>x\<in>set (db_warmups s). wu_id x = i \<and> dry_run_due w now x"
  unfolding dry_run_batch_def by (force dest!: in_set_takeD)

lemma distinct_take_sort_filter:
  assumes "distinct (map k (filter P xs))" and "\<And>x. Q x \<Longrightarrow> P x"
  shows "distinct (map k (take n (sort_key f (filter Q xs))))"
proof -
  have "distinct (map k (filter Q xs))"
  proof -
    have "filter Q xs = filter Q (filter P xs)" using assms(2) by (simp add: filter_filter) (meson)
    with assms(1) show ?thesis by (metis distinct_map_filter)
  qed
  then have "distinct (map k (sort_key f (filter Q xs)))" by (simp add: distinct_map)
  then show ?thesis unfolding take_map [symmetric] by (rule distinct_take)
qed

lemma batch_accounts_rows:
  assumes "distinct (map wu_id (db_warmups s))" and "set xs \<subseteq> set (db_warmups s)"
  shows "batch_accounts (map wu_id xs) s = map wu_account_id xs"
  using assms(2)
proof (induction xs)
  case (Cons x xs)
  have "find_session (wu_id x) s = Some x" using find_session_mem [OF assms(1)] Cons.prems by simp
  with Cons show ?case by simp
qed simp

lemma batch_ok:
  assumes "warmups_ok s" and is_def: "is = dry_run_batch cfg w now limit s"
  shows "distinct is" "distinct (batch_accounts is s)" "\<forall>i\<in>set is. ready i s"
proof -
  let ?xs = "take (batch_size cfg limit) (sort_key wu_updated_at (filter (dry_run_due w now) (db_warmups s)))"
  have ids: "distinct (map wu_id (db_warmups s))" and accs: "distinct (map wu_account_id (filter open_dry (db_warmups s)))"
    and r: "\<And>x. x \<in> set (db_warmups s) \<Longrightarrow> open_dry x \<Longrightarrow> ready (wu_id x) s"
    using assms(1) by (auto simp: warmups_ok_def list_all_iff)
  show "distinct is" unfolding is_def dry_run_batch_def
    by (rule distinct_take_sort_filter [where P = "\<lambda>_. True"]) (use ids in simp_all)
  have "batch_accounts is s = map wu_account_id ?xs" unfolding is_def dry_run_batch_def
    by (rule batch_accounts_rows [OF ids]) (auto dest!: in_set_takeD)
  then show "distinct (batch_accounts is s)"
    using distinct_take_sort_filter [OF accs, of "dry_run_due w now"] due_open by metis
  show "\<forall>i\<in>set is. ready i s"
    using batch_mem r due_open unfolding is_def by metis
qed

text \<open>A tick on a table that is well formed serves its whole batch, and leaves the table well formed.\<close>

theorem dry_tick_ok:
  assumes "warmups_ok s" and "gate_frames (pv_gate pv)" and "\<not> wc_pre_production_enabled (pv_settings pv)"
  shows "\<exists>n s'. process_due_warmup_sessions pv w now worker limit y s = (Inr n, y, s') \<and>
    db_warmups s' = map (batch_row now worker (dry_run_batch (pv_settings pv) w now limit s)) (db_warmups s) \<and> warmups_ok s' \<and>
    (\<forall>i\<in>set (dry_run_batch (pv_settings pv) w now limit s). finished i s') \<and>
    (\<forall>b. b \<notin> set (batch_accounts (dry_run_batch (pv_settings pv) w now limit s) s) \<longrightarrow> lifecycle_of b s' = lifecycle_of b s)"
proof -
  let ?is = "dry_run_batch (pv_settings pv) w now limit s"
  have ids: "distinct (map wu_id (db_warmups s))" and accs: "distinct (map wu_account_id (filter open_dry (db_warmups s)))"
    and ready: "\<And>x. x \<in> set (db_warmups s) \<Longrightarrow> open_dry x \<Longrightarrow> ready (wu_id x) s"
    using assms(1) by (auto simp: warmups_ok_def list_all_iff)
  note b = batch_ok [OF assms(1) HOL.refl, of "pv_settings pv" w now limit]
  from run_batch_ok [OF assms(2,3) b, of now worker 0 y] obtain m s' where
    run: "run_batch (process_one_due_session pv now worker) ?is 0 y s = (Inr (m, s'), y)"
    and rows: "map wu_id (db_warmups s') = map wu_id (db_warmups s)"
    and served: "\<forall>i\<in>set ?is. find_session i s' = map_option (stepped now worker) (find_session i s) \<and> ready i s' \<and> finished i s'"
    and rest: "\<forall>j. j \<notin> set ?is \<longrightarrow> find_session j s' = find_session j s \<and> (\<forall>d. tasks_before j d s' = tasks_before j d s)"
    and accounts: "\<forall>b. b \<notin> set (batch_accounts ?is s) \<longrightarrow> lifecycle_of b s' = lifecycle_of b s \<and> runtime_of b s' = runtime_of b s"
    by blast
  let ?f = "batch_row now worker ?is"
  have "find_session i s' = map_option ?f (find_session i s)" for i
    using served rest find_session_id [of i s] by (cases "find_session i s"; cases "i \<in> set ?is") (auto simp: batch_row_def)
  then have table: "db_warmups s' = map ?f (db_warmups s)"
    by (intro rows_from_find [OF rows ids]) (simp add: find_session_def)
  have still: "open_dry x" if "x \<in> set (db_warmups s)" "open_dry (?f x)" for x
  proof (cases "wu_id x \<in> set ?is")
    case True
    with batch_mem obtain z where "z \<in> set (db_warmups s)" "wu_id z = wu_id x" "dry_run_due w now z" by metis
    with that(1) ids due_open show ?thesis by (metis find_session_mem option.inject)
  qed (use that in \<open>simp add: batch_row_def\<close>)
  have "ready (wu_id x) s'" if x: "x \<in> set (db_warmups s)" "open_dry (?f x)" for x
  proof (cases "wu_id x \<in> set ?is")
    case False
    have found: "find_session (wu_id x) s = Some x" using find_session_mem [OF ids] x(1) by simp
    have "wu_account_id x \<notin> set (batch_accounts ?is s)"
    proof
      assume "wu_account_id x \<in> set (batch_accounts ?is s)"
      then obtain z where "z \<in> set (db_warmups s)" "wu_account_id z = wu_account_id x" "wu_id z \<in> set ?is" "open_dry z"
        by (auto simp: batch_accounts_def split: option.splits dest: find_session_id)
          (metis batch_mem due_open find_session_mem ids option.inject)
      moreover have "open_dry x" using still x by blast
      ultimately have "z = x" using accs x(1) by (auto simp: distinct_map inj_on_def)
      with \<open>wu_id z \<in> set ?is\<close> False show False by simp
    qed
    with rest accounts False found ready [OF x(1) still [OF x]] show ?thesis
      by (simp add: ready_def split: option.splits)
  qed (use served in blast)
  then have "list_all (\<lambda>x. ready (wu_id x) s') (filter open_dry (db_warmups s'))"
    by (auto simp: table list_all_iff)
  moreover have "distinct (map wu_account_id (filter open_dry (db_warmups s')))"
    unfolding table by (rule distinct_map_filter_mono [OF accs still]) simp_all
  ultimately have "warmups_ok s'" using ids rows by (simp add: warmups_ok_def)
  then show ?thesis using run table served accounts by (simp add: process_due_warmup_sessions_def commit_batch_def)
qed

section \<open>Runs\<close>

fun dry_ticks ::
  "'x pre_env \<Rightarrow> uuid option \<Rightarrow> string \<Rightarrow> nat option \<Rightarrow> time list \<Rightarrow> 'x \<Rightarrow> db \<Rightarrow> db result" where
  "dry_ticks pv w worker limit [] y s = Inr s"
| "dry_ticks pv w worker limit (t # ts) y s =
     (case process_due_warmup_sessions pv w t worker limit y s of
        (Inl e, y1, s1) \<Rightarrow> Inl e
      | (Inr n, y1, s1) \<Rightarrow> dry_ticks pv w worker limit ts y1 s1)"

definition whole_table :: "warmup_settings \<Rightarrow> nat option \<Rightarrow> db \<Rightarrow> bool" where
  "whole_table cfg limit s \<longleftrightarrow> length (db_warmups s) \<le> batch_size cfg limit"

lemma due_in_batch:
  assumes "whole_table cfg limit s" and "x \<in> set (db_warmups s)" and "dry_run_due w now x"
  shows "wu_id x \<in> set (dry_run_batch cfg w now limit s)"
proof -
  have "length (sort_key wu_updated_at (filter (dry_run_due w now) (db_warmups s))) \<le> batch_size cfg limit"
    using assms(1) le_trans [OF length_filter_le [of "dry_run_due w now" "db_warmups s"]] by (simp add: whole_table_def)
  with assms(2,3) show ?thesis by (simp add: dry_run_batch_def)
qed

lemma not_due_not_in_batch:
  assumes "distinct (map wu_id (db_warmups s))" and "x \<in> set (db_warmups s)" and "\<not> dry_run_due w now x"
  shows "wu_id x \<notin> set (dry_run_batch cfg w now limit s)"
proof
  assume "wu_id x \<in> set (dry_run_batch cfg w now limit s)"
  with batch_mem obtain z where "z \<in> set (db_warmups s)" "wu_id z = wu_id x" "dry_run_due w now z" by metis
  with assms show False by (metis find_session_mem option.inject)
qed

text \<open>A session that is over, with its account in pre-production and no other open session of it.\<close>

definition over :: "warmup_session \<Rightarrow> db \<Rightarrow> bool" where
  "over x s \<longleftrightarrow> x \<in> set (db_warmups s) \<and> wu_status x = WCompleted \<and>
     lifecycle_of (wu_account_id x) s = Some LPreProduction \<and>
     (\<forall>z\<in>set (db_warmups s). wu_account_id z = wu_account_id x \<longrightarrow> \<not> open_dry z)"

lemma batch_account_open:
  assumes "distinct (map wu_id (db_warmups s))" and "b \<in> set (batch_accounts (dry_run_batch cfg w now limit s) s)"
  shows "\<exists>z\<in>set (db_warmups s). wu_account_id z = b \<and> open_dry z"
proof -
  from assms(2) obtain z i where z: "i \<in> set (dry_run_batch cfg w now limit s)" "find_session i s = Some z" "wu_account_id z = b"
    unfolding batch_accounts_iff by blast
  with batch_mem [OF z(1)] find_session_mem [OF assms(1)] due_open show ?thesis by (metis option.inject)
qed

lemma batch_row_open:
  assumes "distinct (map wu_id (db_warmups s))" and "x \<in> set (db_warmups s)"
    and "open_dry (batch_row now worker (dry_run_batch cfg w now limit s) x)"
  shows "open_dry x"
proof (cases "wu_id x \<in> set (dry_run_batch cfg w now limit s)")
  case True
  with not_due_not_in_batch [OF assms(1,2)] due_open show ?thesis by blast
qed (use assms(3) in \<open>simp add: batch_row_def\<close>)

lemma over_kept:
  assumes "over x s" and "distinct (map wu_id (db_warmups s))"
    and "db_warmups s' = map (batch_row now worker (dry_run_batch cfg w now limit s)) (db_warmups s)"
    and "\<forall>b. b \<notin> set (batch_accounts (dry_run_batch cfg w now limit s) s) \<longrightarrow> lifecycle_of b s' = lifecycle_of b s"
  shows "over x s'"
proof -
  let ?is = "dry_run_batch cfg w now limit s"
  have x: "x \<in> set (db_warmups s)" "wu_status x = WCompleted" using assms(1) by (simp_all add: over_def)
  have "\<not> dry_run_due w now x" using x(2) by (auto simp: dry_run_due_def)
  then have "batch_row now worker ?is x = x"
    using not_due_not_in_batch [OF assms(2) x(1)] by (simp add: batch_row_def)
  with x(1) have "x \<in> set (db_warmups s')" unfolding assms(3) by (metis image_eqI set_map)
  moreover have "wu_account_id x \<notin> set (batch_accounts ?is s)"
    using batch_account_open [OF assms(2)] assms(1) unfolding over_def by blast
  moreover have "\<not> open_dry z" if "z \<in> set (db_warmups s')" "wu_account_id z = wu_account_id x" for z
    using that assms(1) batch_row_open [OF assms(2)] unfolding assms(3) over_def by auto
  ultimately show ?thesis using assms(1,4) by (simp add: over_def)
qed

lemma dry_ticks_over:
  assumes "warmups_ok s" and "gate_frames (pv_gate pv)" and "\<not> wc_pre_production_enabled (pv_settings pv)" and "over x s"
  shows "\<exists>s'. dry_ticks pv w worker limit ts y s = Inr s' \<and> over x s'"
  using assms
proof (induction ts arbitrary: s)
  case (Cons t ts)
  have ids: "distinct (map wu_id (db_warmups s))" using Cons.prems(1) by (simp add: warmups_ok_def)
  from dry_tick_ok [OF Cons.prems(1-3), of w t worker limit y] obtain n s1 where s1:
    "process_due_warmup_sessions pv w t worker limit y s = (Inr n, y, s1)"
    "db_warmups s1 = map (batch_row t worker (dry_run_batch (pv_settings pv) w t limit s)) (db_warmups s)" "warmups_ok s1"
    "\<forall>b. b \<notin> set (batch_accounts (dry_run_batch (pv_settings pv) w t limit s) s) \<longrightarrow> lifecycle_of b s1 = lifecycle_of b s"
    by blast
  from Cons.IH [OF s1(3) Cons.prems(2,3) over_kept [OF Cons.prems(4) ids s1(2,4)]] s1(1) show ?case by simp
qed simp

lemma stepped_active:
  assumes "wu_status x \<in> {WScheduled, WActive}"
  shows "stepped now worker x = day_row now worker x"
  using assms by (auto simp: stepped_def soaked_def)

lemma day_row_goes_on:
  assumes "\<not> wu_duration_days x \<le> wu_current_day x + 1"
  shows "wu_next_step_at (day_row now worker x) = Some (now + hours (wu_cadence_hours x))"
    "wu_cadence_hours (day_row now worker x) = wu_cadence_hours x"
    "wu_workspace_id (day_row now worker x) = wu_workspace_id x"
    "wu_execution_mode (day_row now worker x) = wu_execution_mode x"
  using assms by (simp_all add: day_row_def next_day_def day_done_def)

lemma dry_ticks_complete:
  assumes "warmups_ok s" and "gate_frames (pv_gate pv)" and "\<not> wc_pre_production_enabled (pv_settings pv)"
    and "whole_table (pv_settings pv) limit s" and "x \<in> set (db_warmups s)"
    and "wu_execution_mode x = DryRun" and "wu_status x \<in> {WScheduled, WActive}"
    and "w = None \<or> w = Some (wu_workspace_id x)"
    and "ts \<noteq> []" and "at_or_none (wu_next_step_at x) (hd ts)"
    and "successively (\<lambda>t u. t + hours (wu_cadence_hours x) \<le> u) ts"
    and "wu_duration_days x \<le> wu_current_day x + int (length ts)"
  shows "\<exists>s' x'. dry_ticks pv w worker limit ts y s = Inr s' \<and> over x' s' \<and> wu_id x' = wu_id x \<and>
    wu_account_id x' = wu_account_id x \<and> wu_current_day x' = max (wu_current_day x) (wu_duration_days x)"
  using assms
proof (induction ts arbitrary: s x)
  case (Cons t ts)
  let ?is = "dry_run_batch (pv_settings pv) w t limit s"
  have ids: "distinct (map wu_id (db_warmups s))" and accs: "distinct (map wu_account_id (filter open_dry (db_warmups s)))"
    using Cons.prems(1) by (simp_all add: warmups_ok_def)
  from dry_tick_ok [OF Cons.prems(1-3), of w t worker limit y] obtain n s1 where s1:
    "process_due_warmup_sessions pv w t worker limit y s = (Inr n, y, s1)"
    "db_warmups s1 = map (batch_row t worker ?is) (db_warmups s)" "warmups_ok s1" "\<forall>i\<in>set ?is. finished i s1"
    by blast
  have "dry_run_due w t x" using Cons.prems(6-8,10) by (auto simp: dry_run_due_def)
  then have served: "wu_id x \<in> set ?is" by (rule due_in_batch [OF Cons.prems(4,5)])
  define x1 where "x1 = day_row t worker x"
  have row: "batch_row t worker ?is x = x1"
    using served stepped_active [OF Cons.prems(7)] by (simp add: batch_row_def x1_def)
  with Cons.prems(5) have x1: "x1 \<in> set (db_warmups s1)" unfolding s1(2) by (metis image_eqI set_map)
  show ?case
  proof (cases "wu_duration_days x \<le> wu_current_day x + 1")
    case True
    have c: "wu_status x1 = WCompleted" "wu_id x1 = wu_id x" "wu_account_id x1 = wu_account_id x"
      using True by (simp_all add: x1_def)
    have "find_session (wu_id x) s1 = Some x1"
      using x1 s1(3) c(2) by (subst find_session_mem) (simp_all add: warmups_ok_def)
    with s1(4) served c have l: "lifecycle_of (wu_account_id x1) s1 = Some LPreProduction" by (auto simp: finished_def)
    have "\<not> open_dry z" if z: "z \<in> set (db_warmups s1)" "wu_account_id z = wu_account_id x1" for z
    proof
      assume o: "open_dry z"
      from z obtain u where u: "u \<in> set (db_warmups s)" "z = batch_row t worker ?is u" "wu_account_id u = wu_account_id x"
        unfolding s1(2) c(3) by auto
      have "open_dry u" using batch_row_open [OF ids u(1)] o u(2) by simp
      moreover have "open_dry x" using Cons.prems(6,7) by (auto simp: open_dry_def)
      ultimately have "u = x" using accs u(1,3) Cons.prems(5) by (auto simp: distinct_map inj_on_def)
      with o u(2) row c(1) show False by (simp add: open_dry_def)
    qed
    with x1 c(1) l have "over x1 s1" by (simp add: over_def)
    from dry_ticks_over [OF s1(3) Cons.prems(2,3) this, of w worker limit ts y] obtain s' where
      "dry_ticks pv w worker limit ts y s1 = Inr s'" "over x1 s'" by blast
    moreover have "wu_current_day x1 = max (wu_current_day x) (wu_duration_days x)"
      using True by (auto simp: x1_def)
    ultimately show ?thesis using s1(1) c by auto
  next
    case False
    have nonempty: "ts \<noteq> []" using Cons.prems(12) False by auto
    have gap: "at_or_none (wu_next_step_at x1) (hd ts)" "successively (\<lambda>t u. t + hours (wu_cadence_hours x1) \<le> u) ts"
      using Cons.prems(11) nonempty unfolding x1_def day_row_goes_on [OF False]
      by (cases ts; simp add: at_or_none_def)+
    have ex: "\<exists>s' x'. dry_ticks pv w worker limit ts y s1 = Inr s' \<and> over x' s' \<and> wu_id x' = wu_id x1 \<and>
      wu_account_id x' = wu_account_id x1 \<and> wu_current_day x' = max (wu_current_day x1) (wu_duration_days x1)"
    proof (rule Cons.IH [OF s1(3) Cons.prems(2,3) _ x1 _ _ _ nonempty gap])
      show "whole_table (pv_settings pv) limit s1" using Cons.prems(4) by (simp add: whole_table_def s1(2))
      show "wu_execution_mode x1 = DryRun" "w = None \<or> w = Some (wu_workspace_id x1)"
        using Cons.prems(6,8) unfolding x1_def day_row_goes_on [OF False] by simp_all
      show "wu_status x1 \<in> {WScheduled, WActive}" using False by (simp add: x1_def)
      show "wu_duration_days x1 \<le> wu_current_day x1 + int (length ts)" using Cons.prems(12) False by (simp add: x1_def)
    qed
    have "max (wu_current_day x1) (wu_duration_days x1) = max (wu_current_day x) (wu_duration_days x)"
      using False by (simp add: x1_def)
    with ex s1(1) show ?thesis by (auto simp: x1_def)
  qed
qed simp

lemma dry_ticks_rows:
  assumes "warmups_ok s" and "gate_frames (pv_gate pv)" and "\<not> wc_pre_production_enabled (pv_settings pv)"
    and "dry_ticks pv w worker limit ts y s = Inr s'"
  shows "distinct (map wu_id (db_warmups s'))"
  using assms
proof (induction ts arbitrary: s)
  case Nil
  then show ?case by (simp add: warmups_ok_def)
next
  case (Cons t ts)
  from dry_tick_ok [OF Cons.prems(1-3), of w t worker limit y] obtain n s1 where
    "process_due_warmup_sessions pv w t worker limit y s = (Inr n, y, s1)" "warmups_ok s1" by blast
  with Cons show ?case by simp
qed

end
