(* ===== verification/WarmupSafety.thy ===== *)
theory WarmupSafety
  imports WarmupTicks
begin

text \<open>
  What the commands and the worker of the warm-up module promise together, on the safety gate of this
  development: sessions complete in time, what can stop them, and what a creation and a deletion leave.
\<close>

section \<open>A small world\<close>

definition warmup_env :: "((gate_key \<Rightarrow> (gate_verdict \<times> time) option) \<times> (uuid \<times> gate_intent \<Rightarrow> (int \<times> time option) option)) pre_env" where
  "warmup_env =
     \<lparr>pv_settings = default_warmup_settings disabled_settings,
      pv_gate = warmup_gate (redis_gate map_value map_store healthy_counters) disabled_settings,
      pv_digest = length, pv_str = (\<lambda>_. [])\<rparr>"

definition fresh_runtime :: account_runtime_state where
  "fresh_runtime =
     \<lparr>rs_session_present = True, rs_authorized_last_confirmed_at = Some 0, rs_runtime_health = ''ready'',
      rs_reauth_required = False, rs_lock_owner = None, rs_lock_epoch = 0, rs_recovery_marker = None, rs_updated_at = 0\<rparr>"

definition account_in :: "lifecycle_state \<Rightarrow> uuid \<Rightarrow> account" where
  "account_in l a = (imported_account a 2 0)
     \<lparr>acc_account_state := ExecutionUsable, acc_lifecycle_state := l, acc_runtime_state := Some fresh_runtime\<rparr>"

text \<open>Account 5 is warming, on the first of three days; account 6 is idle, at its last day.\<close>

definition running_session :: warmup_session where
  "running_session = (idle_session 0 8 5 9 2)\<lparr>wu_duration_days := 3, wu_lifecycle_state := ''warming''\<rparr>"

definition last_idle_session :: warmup_session where
  "last_idle_session = (idle_session 0 7 6 9 2)\<lparr>wu_current_day := 29, wu_status := WActive\<rparr>"

definition warming_db :: db where
  "warming_db = empty_db\<lparr>db_accounts := [account_in LWarming 5], db_warmups := [running_session], db_next_id := 20\<rparr>"

definition idle_db :: db where
  "idle_db = empty_db\<lparr>db_accounts := [account_in LWarming 5, account_in LIdle 6],
     db_warmups := [running_session, last_idle_session], db_next_id := 20\<rparr>"

lemmas small_world = warmup_env_def fresh_runtime_def account_in_def running_session_def last_idle_session_def
  warming_db_def idle_db_def imported_account_def empty_db_def idle_session_def default_warmup_settings_def

section \<open>Sessions complete\<close>

text \<open>
  C5. A dry-run session completes. Take a table of sessions that is well formed (every open dry-run session
  has an account with a free runtime lock whose next lifecycle move is allowed, and no two share an
  account), no larger than a batch, with pre-production off as it is by default. Then no tick of the
  worker fails; and after as many ticks as the session has days left, the first when its step is due
  and each at least a cadence after the one before, the session is completed at its last day and its
  account is in pre-production. Ticks beyond that change neither.
\<close>

theorem dry_run_completes:
  assumes "warmups_ok s" and "pv_gate pv = warmup_gate g cfg" and "\<not> wc_pre_production_enabled (pv_settings pv)"
    and "whole_table (pv_settings pv) limit s" and "find_session i s = Some x"
    and "wu_execution_mode x = DryRun" and "wu_status x \<in> {WScheduled, WActive}"
    and "w = None \<or> w = Some (wu_workspace_id x)"
    and "ts \<noteq> []" and "at_or_none (wu_next_step_at x) (hd ts)"
    and "successively (\<lambda>t u. t + hours (wu_cadence_hours x) \<le> u) ts"
    and "wu_duration_days x \<le> wu_current_day x + int (length ts)"
  shows "\<exists>s' x'. dry_ticks pv w worker limit ts y s = Inr s' \<and> find_session i s' = Some x' \<and>
    wu_status x' = WCompleted \<and> wu_current_day x' = max (wu_current_day x) (wu_duration_days x) \<and>
    lifecycle_of (wu_account_id x) s' = Some LPreProduction"
proof -
  have frames: "gate_frames (pv_gate pv)" using warmup_gate_frames assms(2) by simp
  have x: "x \<in> set (db_warmups s)" "wu_id x = i"
    using assms(5) by (auto simp: find_session_def dest: find_mem)
  from dry_ticks_complete [OF assms(1) frames assms(3,4) x(1) assms(6-12), of worker y] obtain s' x' where
    *: "dry_ticks pv w worker limit ts y s = Inr s'" "over x' s'" "wu_id x' = wu_id x"
      "wu_account_id x' = wu_account_id x" "wu_current_day x' = max (wu_current_day x) (wu_duration_days x)" by blast
  from dry_ticks_rows [OF assms(1) frames assms(3) *(1)] *(2,3) x(2) have "find_session i s' = Some x'"
    by (subst find_session_mem) (auto simp: over_def)
  with * show ?thesis by (auto simp: over_def)
qed

lemma dry_run_completes_witness:
  "\<exists>s' x'. dry_ticks warmup_env None ''w'' None [0, hours 12, hours 24] (\<lambda>_. None, \<lambda>_. None) warming_db = Inr s' \<and>
     find_session 8 s' = Some x' \<and> wu_status x' = WCompleted \<and> wu_current_day x' = 3 \<and>
     lifecycle_of 5 s' = Some LPreProduction"
proof -
  have "warmups_ok warming_db" "whole_table (pv_settings warmup_env) None warming_db"
    by (simp_all add: warmups_ok_def ready_def whole_table_def batch_size_def lifecycle_of_def runtime_of_def
        account_by_id_def find_session_def step_possible_def pre_production_reachable_def tasks_before_def
        open_dry_def small_world)
  moreover have "find_session 8 warming_db = Some running_session" by (simp add: find_session_def small_world)
  ultimately have "\<exists>s' x'. dry_ticks warmup_env None ''w'' None [0, hours 12, hours 24] (\<lambda>_. None, \<lambda>_. None) warming_db = Inr s' \<and>
     find_session 8 s' = Some x' \<and> wu_status x' = WCompleted \<and>
     wu_current_day x' = max (wu_current_day running_session) (wu_duration_days running_session) \<and>
     lifecycle_of (wu_account_id running_session) s' = Some LPreProduction"
    by (intro dry_run_completes [where g = "redis_gate map_value map_store healthy_counters" and cfg = disabled_settings])
      (simp_all add: small_world IDLE_KEEPALIVE_CADENCE_HOURS_def at_or_none_def hours_def)
  then show ?thesis by (simp add: small_world)
qed

section \<open>A session that stops the worker\<close>

lemma run_batch_fails:
  assumes "gate_frames (pv_gate pv)" and "find_session i s = Some x" and "wu_status x \<noteq> WColdSoak"
    and "wu_duration_days x \<le> wu_current_day x + 1"
    and "lifecycle_of (wu_account_id x) s = Some l" and "\<not> pre_production_reachable l"
    and "runtime_of (wu_account_id x) s = Some r" and "rs_lock_owner r = None" and "tasks_before i (wu_current_day x) s"
    and "i \<in> set is"
    and "\<forall>z\<in>set (db_warmups s). wu_account_id z = wu_account_id x \<and> wu_id z \<in> set is \<longrightarrow> wu_id z = i"
  shows "\<exists>e y'. run_batch (process_one_due_session pv now worker) is n y s = (Inl e, y')"
  using assms(2,5,7,9-11)
proof (induction "is" arbitrary: n y s)
  case (Cons j js)
  let ?f = "process_one_due_session pv now worker"
  show ?case
  proof (cases "j = i")
    case True
    with due_step_fails [OF Cons.prems(1) assms(3,4) Cons.prems(2) assms(6) Cons.prems(3) assms(8) Cons.prems(4),
        of pv now worker y]
    show ?thesis using Cons.prems(1) by simp
  next
    case False
    show ?thesis
    proof (cases "find_session j s")
      case None
      with Cons False show ?thesis by simp
    next
      case (Some z)
      then have z: "z \<in> set (db_warmups s)" "wu_id z = j" by (auto simp: find_session_def dest: find_mem)
      then have other: "wu_account_id z \<noteq> wu_account_id x" using Cons.prems(6) False by auto
      consider b s1 y1 where "?f z y s = (Inr (b, s1), y1)" | e y1 where "?f z y s = (Inl e, y1)"
        by (metis old.prod.exhaust old.sum.exhaust surj_pair)
      then show ?thesis
      proof cases
        case 1
        from others.dry_step [OF assms(1) 1] have lo: "leaves_others j (wu_account_id z) s s1" using z(2) by simp
        from rows.dry_step [OF assms(1) 1] have "rows_of j (wu_account_id z) s s1" using z(2) by simp
        then have "\<forall>u\<in>set (db_warmups s1). wu_account_id u = wu_account_id x \<and> wu_id u \<in> set js \<longrightarrow> wu_id u = i"
          using Cons.prems(6) other unfolding rows_of_def by (metis list.set_intros(2))
        moreover have "find_session i s1 = Some x" "tasks_before i (wu_current_day x) s1"
          using leaves_others_reads [OF lo, of i] False Cons.prems(1,4) by auto
        moreover have "lifecycle_of (wu_account_id x) s1 = Some l" "runtime_of (wu_account_id x) s1 = Some r"
          using leaves_others_account [OF lo, of "wu_account_id x"] other Cons.prems(2,3) by auto
        moreover have "i \<in> set js" using Cons.prems(5) False by simp
        ultimately have "\<exists>e y'. run_batch ?f js (if b then Suc n else n) y1 s1 = (Inl e, y')"
          by (intro Cons.IH)
        with Some 1 show ?thesis by simp
      qed (use Some in simp)
    qed
  qed
qed simp

text \<open>
  C8. One finished keep-alive session stops the dry-run worker of every tenant. A session that has
  reached its last day while its account cannot move to pre-production (an idle account under a
  keep-alive session, or an account that became active, retired or banned) makes every tick whose
  batch contains it fail, whatever else the batch contains: the tick returns an error and the
  database is what it was before, so the session is due again at the next tick, and the steps of
  all other sessions of the batch are lost each time.
\<close>

theorem finished_idle_session_jams_worker:
  assumes "pv_gate pv = warmup_gate g cfg" and "find_session i s = Some x" and "wu_status x \<noteq> WColdSoak"
    and "wu_duration_days x \<le> wu_current_day x + 1"
    and "lifecycle_of (wu_account_id x) s = Some l" and "\<not> pre_production_reachable l"
    and "runtime_of (wu_account_id x) s = Some r" and "rs_lock_owner r = None" and "tasks_before i (wu_current_day x) s"
    and "i \<in> set (dry_run_batch (pv_settings pv) w now limit s)"
    and "\<forall>z\<in>set (db_warmups s).
      wu_account_id z = wu_account_id x \<and> wu_id z \<in> set (dry_run_batch (pv_settings pv) w now limit s) \<longrightarrow> wu_id z = i"
  shows "\<exists>e y'. process_due_warmup_sessions pv w now worker limit y s = (Inl e, y', s)"
proof -
  have "gate_frames (pv_gate pv)" using warmup_gate_frames assms(1) by simp
  from run_batch_fails [OF this assms(2-11), of now worker 0 y] obtain e y' where
    "run_batch (process_one_due_session pv now worker) (dry_run_batch (pv_settings pv) w now limit s) 0 y s = (Inl e, y')"
    by blast
  then show ?thesis by (simp add: process_due_warmup_sessions_def commit_batch_def)
qed

lemma finished_idle_session_jams_worker_witness:
  "\<exists>e y'. process_due_warmup_sessions warmup_env None (hours 1) ''w'' None (\<lambda>_. None, \<lambda>_. None) idle_db = (Inl e, y', idle_db)"
proof (rule finished_idle_session_jams_worker [where i = 7 and x = last_idle_session and l = LIdle and r = fresh_runtime])
  show "7 \<in> set (dry_run_batch (pv_settings warmup_env) None (hours 1) None idle_db)"
    "\<forall>z\<in>set (db_warmups idle_db). wu_account_id z = wu_account_id last_idle_session \<and>
       wu_id z \<in> set (dry_run_batch (pv_settings warmup_env) None (hours 1) None idle_db) \<longrightarrow> wu_id z = 7"
    by (simp_all add: small_world dry_run_batch_def dry_run_due_def batch_size_def at_or_none_def hours_def)
qed (simp_all add: small_world find_session_def lifecycle_of_def runtime_of_def account_by_id_def
    pre_production_reachable_def tasks_before_def IDLE_KEEPALIVE_DURATION_DAYS_def)

end
