(* ===== verification/WarmupCreation.thy ===== *)
theory WarmupCreation
  imports WarmupSafety
begin

text \<open>
  What a creation and a deletion of a warm-up session leave in the tables, and the isolation claims
  that the commands and the worker keep in step with the sessions.
\<close>

section \<open>Accounts found by their identifier\<close>

definition accounts_ok :: "db \<Rightarrow> bool" where
  "accounts_ok s \<longleftrightarrow> distinct (map acc_id (db_accounts s))"

lemma find_by_key: "distinct (map k xs) \<Longrightarrow> find (\<lambda>r. k r = a \<and> P r) xs = Some y \<Longrightarrow> find (\<lambda>r. k r = a) xs = Some y"
proof (induction xs)
  case (Cons x xs)
  show ?case
  proof (cases "k x = a")
    case True
    with Cons.prems(1) have "\<not> k z = a" if "z \<in> set xs" for z
      using that by (metis distinct.simps(2) image_eqI list.simps(9) set_map)
    then have "find (\<lambda>r. k r = a \<and> P r) xs = None" by (simp add: find_none_iff)
    with Cons.prems(2) True show ?thesis by (simp split: if_splits)
  qed (use Cons in simp)
qed simp

lemma lookup_account_by_id:
  assumes "accounts_ok s" and "lookup_account a (Some w) s = Some acc"
  shows "account_by_id s a = Some acc" "acc_workspace_id acc = w" "acc_id acc = a"
proof -
  from assms(2) have f: "find (\<lambda>r. acc_id r = a \<and> acc_workspace_id r = w) (db_accounts s) = Some acc"
    by (simp add: lookup_account_def)
  from find_by_key [OF assms(1)[unfolded accounts_ok_def] f] show "account_by_id s a = Some acc"
    by (simp add: account_by_id_def)
  from find_mem [OF f] show "acc_workspace_id acc = w" "acc_id acc = a" by auto
qed

lemma advance_in_ids:
  assumes "advance_in acc t now reason md s = Inr s'"
  shows "map acc_id (db_accounts s') = map acc_id (db_accounts s)"
  using assms by (auto simp: advance_in_def advance_def Let_def new_id_def update_where_def split: if_splits)

section \<open>The parts of a creation\<close>

definition creation_view where
  "creation_view s = (db_warmups s, db_accounts s, db_task_runs s, db_isolation_claims s, db_pre_productions s,
     db_strategies s)"

lemma creation_view_warm: "warm_tables s' = warm_tables s \<Longrightarrow> creation_view s' = creation_view s"
  by (simp add: warm_tables_def creation_view_def)

lemma creation_view_event [simp]: "creation_view (write_warmup_event now x ty d s) = creation_view s"
  by (simp add: write_warmup_event_def new_id_def creation_view_def)

lemma creation_view_events [simp]: "creation_view (creation_events ce now x st s) = creation_view s"
  by (simp add: creation_events_def Let_def)

lemma creation_view_add [simp]: "creation_view (add_link w a f now s) = creation_view s"
  by (simp add: add_link_def new_id_def creation_view_def)

lemma creation_view_links [simp]: "creation_view (link_friends rg w a now fs g s) = creation_view s"
  by (induction fs arbitrary: g s) (simp_all add: Let_def case_prod_unfold)

lemma creation_view_friends [simp]: "creation_view (snd (assign_friends ord rg g k a w now s)) = creation_view s"
  by (simp add: assign_friends_def Let_def case_prod_unfold)

lemma creation_view_survival [simp]: "creation_view (on_warmup_started a w now i n s) = creation_view s"
  by (rule creation_view_warm) (rule survival_tables)

lemma creation_view_reads:
  assumes "creation_view s' = creation_view s"
  shows "db_warmups s' = db_warmups s" "db_accounts s' = db_accounts s" "db_isolation_claims s' = db_isolation_claims s"
    "db_pre_productions s' = db_pre_productions s" "lifecycle_of a s' = lifecycle_of a s" "get_claim a s' = get_claim a s"
  using assms by (simp_all add: creation_view_def lifecycle_of_def account_by_id_def get_claim_def)

definition claim_of :: "warmup_session \<Rightarrow> time \<Rightarrow> isolation_claim" where
  "claim_of x now = \<lparr>ic_account_id = wu_account_id x, ic_workspace_id = wu_workspace_id x,
     ic_held_by = isolation_owner (wu_id x),
     ic_reason = ''warmup execution_mode='' @ execution_mode_text (wu_execution_mode x), ic_acquired_at = now\<rparr>"

lemma claim_isolation_spec:
  assumes "claim_isolation x now s = Inr s'"
  shows "db_warmups s' = db_warmups s \<and> db_accounts s' = db_accounts s \<and> db_pre_productions s' = db_pre_productions s \<and>
    (if is_live_warmup_mode (wu_execution_mode x)
     then map_option ic_held_by (get_claim (wu_account_id x) s') = Some (isolation_owner (wu_id x)) \<and>
       db_isolation_claims s' =
         (if get_claim (wu_account_id x) s = None then db_isolation_claims s @ [claim_of x now] else db_isolation_claims s)
     else db_isolation_claims s' = db_isolation_claims s)"
proof (cases "is_live_warmup_mode (wu_execution_mode x)")
  case True
  have append: "find P (cs @ [c]) = Some c" if "find P cs = None" "P c" for P and cs :: "isolation_claim list" and c
    using that by (induction cs) (auto split: if_splits)
  show ?thesis using assms True
    by (auto simp: claim_isolation_def acquire_claim_def Let_def claim_of_def write_warmup_event_def new_id_def
        get_claim_def append split: option.splits if_splits)
qed (use assms in \<open>simp add: claim_isolation_def\<close>)

lemma no_blocking_reasons: "blocking_reasons cs = [] \<longleftrightarrow> list_all (\<lambda>c. wk_blocking c \<longrightarrow> wk_passed c) cs"
  by (auto simp: blocking_reasons_def filter_empty_conv list_all_iff)

text \<open>What a creation that succeeds has found and left.\<close>

lemma create_warmup_session_spec:
  assumes "create_warmup_session ce now a strategy w s = Inr (x, s')" and "accounts_ok s"
  shows "\<exists>acc. lookup_account a (Some w) s = Some acc \<and> runtime_ready (Some acc) \<and>
      (acc_lifecycle_state acc = LColdSoak \<or> is_transition_allowed (acc_lifecycle_state acc) LColdSoak False) \<and>
      \<not> list_ex (blocking_session w a) (db_warmups s)"
    and "x = new_session ce now (db_next_id s) a strategy w s"
    and "db_warmups s' = db_warmups s @ [x]" and "lifecycle_of a s' = Some LColdSoak"
    and "db_pre_productions s' = db_pre_productions s" and "accounts_ok s'"
    and "if is_live_warmup_mode (wu_execution_mode x)
      then map_option ic_held_by (get_claim a s') = Some (isolation_owner (wu_id x)) \<and>
        db_isolation_claims s' =
          (if get_claim a s = None then db_isolation_claims s @ [claim_of x now] else db_isolation_claims s)
      else db_isolation_claims s' = db_isolation_claims s"
proof -
  let ?st = "get_strategy strategy s" and ?x = "new_session ce now (db_next_id s) a strategy w s"
  let ?s2 = "snd (new_id s)\<lparr>db_warmups := db_warmups (snd (new_id s)) @ [?x]\<rparr>"
  from assms(1) obtain acc s3 where checks: "blocking_reasons (validate_warmup_readiness a strategy w s) = []"
    and acc: "lookup_account a (Some w) s = Some acc"
    and s3: "advance_in acc LColdSoak now ''warmup_session_created''
        (session_metadata ?x @ [(''strategy_id'', JStr (uuid_text strategy))]) ?s2 = Inr s3"
    and fin: "x = ?x" "claim_isolation ?x now (snd (assign_friends (ce_uuid_order ce) (ce_rng ce) (ce_friend_rng ce w a) 3 a w now
        (on_warmup_started a w now (Some strategy) (map_option wst_name ?st) (creation_events ce now ?x ?st s3)))) = Inr s'"
    by (auto simp: create_warmup_session_def result_bind_Inr_iff can_create_warmup_session_def new_id_def Let_def
        split: option.splits if_splits)
  let ?s6 = "snd (assign_friends (ce_uuid_order ce) (ce_rng ce) (ce_friend_rng ce w a) 3 a w now
        (on_warmup_started a w now (Some strategy) (map_option wst_name ?st) (creation_events ce now ?x ?st s3)))"
  note by_id = lookup_account_by_id [OF assms(2) acc]
  have view: "creation_view ?s6 = creation_view s3" by simp
  have x: "wu_account_id ?x = a" by (simp add: new_session_def Let_def)
  have "account_by_id ?s2 a = Some acc" using by_id(1) by (simp add: account_by_id_def new_id_def)
  moreover have allowed: "acc_lifecycle_state acc = LColdSoak \<or> is_transition_allowed (acc_lifecycle_state acc) LColdSoak False"
    using s3 by (auto simp: advance_in_def advance_def Let_def split: if_splits)
  ultimately have l: "lifecycle_of a s3 = Some LColdSoak"
    using advance_in_ok [where s = ?s2 and a = a and acc = acc and t = LColdSoak and now = now and
        reason = "''warmup_session_created''" and
        md = "session_metadata ?x @ [(''strategy_id'', JStr (uuid_text strategy))]"] s3 by auto
  note t3 = advance_in_tables [OF s3]
  note c = claim_isolation_spec [OF fin(2)]
  have gc: "get_claim a ?s6 = get_claim a s"
    using creation_view_reads(6) [OF view, of a] t3(3) by (simp add: get_claim_def new_id_def)
  show "\<exists>acc. lookup_account a (Some w) s = Some acc \<and> runtime_ready (Some acc) \<and>
      (acc_lifecycle_state acc = LColdSoak \<or> is_transition_allowed (acc_lifecycle_state acc) LColdSoak False) \<and>
      \<not> list_ex (blocking_session w a) (db_warmups s)"
    using checks acc allowed
    by (auto simp: no_blocking_reasons validate_warmup_readiness_def Let_def)
  show "x = ?x" by (rule fin)
  show "db_warmups s' = db_warmups s @ [x]"
    using c creation_view_reads(1) [OF view] t3(1) fin(1) by (simp add: new_id_def)
  show "lifecycle_of a s' = Some LColdSoak"
    using c creation_view_reads(2) [OF view] l by (simp add: lifecycle_of_def account_by_id_def)
  show "db_pre_productions s' = db_pre_productions s"
    using c creation_view_reads(4) [OF view] t3(4) by (simp add: new_id_def)
  show "accounts_ok s'"
    using c creation_view_reads(2) [OF view] advance_in_ids [OF s3] assms(2) by (simp add: accounts_ok_def new_id_def)
  show "if is_live_warmup_mode (wu_execution_mode x)
      then map_option ic_held_by (get_claim a s') = Some (isolation_owner (wu_id x)) \<and>
        db_isolation_claims s' =
          (if get_claim a s = None then db_isolation_claims s @ [claim_of x now] else db_isolation_claims s)
      else db_isolation_claims s' = db_isolation_claims s"
    using c unfolding fin(1) x gc creation_view_reads(3) [OF view] t3(3) by (simp add: new_id_def)
qed

section \<open>Creating\<close>

text \<open>
  C10. A creation that succeeds adds exactly one session, in its cold soak for a time between the
  configured bounds with its next step at the end of the soak, and moves the account to
  \<open>cold_soak\<close>. The account was ready to run and had no session that blocks another. A live session
  holds the isolation of its account from then on; a dry run takes none.
\<close>

theorem created_session_spec:
  assumes "create_warmup_session ce now a strategy w s = Inr (x, s')" and "accounts_ok s"
    and "rng_ok (ce_rng ce)" and "wc_cold_soak_min_hours (ce_settings ce) \<le> wc_cold_soak_max_hours (ce_settings ce)"
  shows "db_warmups s' = db_warmups s @ [x] \<and> wu_status x = WColdSoak \<and> wu_current_day x = 0 \<and> wu_account_id x = a \<and>
    (\<exists>t. wu_cold_soak_until x = Some t \<and> wu_next_step_at x = Some t \<and>
       now + hours (wc_cold_soak_min_hours (ce_settings ce)) \<le> t \<and> t \<le> now + hours (wc_cold_soak_max_hours (ce_settings ce))) \<and>
    lifecycle_of a s' = Some LColdSoak \<and> runtime_ready (lookup_account a (Some w) s) \<and>
    \<not> list_ex (blocking_session w a) (db_warmups s) \<and>
    (if is_live_warmup_mode (wu_execution_mode x)
     then map_option ic_held_by (get_claim a s') = Some (isolation_owner (wu_id x))
     else db_isolation_claims s' = db_isolation_claims s)"
proof -
  note spec = create_warmup_session_spec [OF assms(1,2)]
  let ?lo = "wc_cold_soak_min_hours (ce_settings ce) * 3600" and ?hi = "wc_cold_soak_max_hours (ce_settings ce) * 3600"
  obtain n g' where n: "rg_randint (ce_rng ce) ?lo ?hi (ce_soak ce) = (n, g')" by fastforce
  with rng_randint_bounds [OF assms(3) _ n] assms(4) have "?lo \<le> n" "n \<le> ?hi" by auto
  then have "now + hours (wc_cold_soak_min_hours (ce_settings ce)) \<le> now + seconds n"
    "now + seconds n \<le> now + hours (wc_cold_soak_max_hours (ce_settings ce))"
    by (simp_all add: hours_def seconds_def)
  moreover have "wu_status x = WColdSoak" "wu_current_day x = 0" "wu_account_id x = a"
    "wu_cold_soak_until x = Some (now + seconds n)" "wu_next_step_at x = Some (now + seconds n)"
    unfolding spec(2) by (simp_all add: new_session_def Let_def compute_cold_soak_window_def n)
  ultimately show ?thesis using spec(1,3,4,7) by (auto split: if_splits)
qed

definition creation :: "unit creation_env" where
  "creation = \<lparr>ce_settings = default_warmup_settings disabled_settings, ce_rng = least_rng, ce_soak = (),
     ce_account_rng = (\<lambda>_. ()), ce_friend_rng = (\<lambda>_ _. ()), ce_uuid_order = id\<rparr>"

definition soft_strategy :: "execution_mode \<Rightarrow> warmup_strategy" where
  "soft_strategy m = (idle_strategy_row 9 2)\<lparr>wst_name := ''soft'', wst_execution_mode := m\<rparr>"

text \<open>One account that can run, in a state of its life.\<close>

definition ready_db :: "lifecycle_state \<Rightarrow> db" where
  "ready_db l = empty_db\<lparr>db_accounts := [account_in l 5], db_strategies := [soft_strategy Passive], db_next_id := 20\<rparr>"

lemma claim_isolation_free:
  "get_claim (wu_account_id x) s = None \<Longrightarrow> \<exists>s'. claim_isolation x now s = Inr s'"
  by (simp add: claim_isolation_def acquire_claim_def Let_def)

lemma create_succeeds:
  assumes "accounts_ok s" and "blocking_reasons (validate_warmup_readiness a strategy w s) = []"
    and "lookup_account a (Some w) s = Some acc"
    and "acc_lifecycle_state acc = LColdSoak \<or> is_transition_allowed (acc_lifecycle_state acc) LColdSoak False"
    and "get_claim a s = None"
  shows "\<exists>x s'. create_warmup_session ce now a strategy w s = Inr (x, s')"
proof -
  let ?st = "get_strategy strategy s" and ?x = "new_session ce now (db_next_id s) a strategy w s"
  let ?s2 = "snd (new_id s)\<lparr>db_warmups := db_warmups (snd (new_id s)) @ [?x]\<rparr>"
  let ?md = "session_metadata ?x @ [(''strategy_id'', JStr (uuid_text strategy))]"
  have "account_by_id ?s2 a = Some acc"
    using lookup_account_by_id(1) [OF assms(1,3)] by (simp add: account_by_id_def new_id_def)
  from advance_in_ok [OF this assms(4), of now "''warmup_session_created''" ?md] obtain s3 where
    s3: "advance_in acc LColdSoak now ''warmup_session_created'' ?md ?s2 = Inr s3" by blast
  let ?s6 = "snd (assign_friends (ce_uuid_order ce) (ce_rng ce) (ce_friend_rng ce w a) 3 a w now
        (on_warmup_started a w now (Some strategy) (map_option wst_name ?st) (creation_events ce now ?x ?st s3)))"
  have "creation_view ?s6 = creation_view s3" by simp
  from creation_view_reads(6) [OF this] have "get_claim a ?s6 = None"
    using advance_in_tables(3) [OF s3] assms(5) by (simp add: get_claim_def new_id_def)
  then have "\<exists>s7. claim_isolation ?x now ?s6 = Inr s7"
    by (intro claim_isolation_free) (simp add: new_session_def Let_def)
  then show ?thesis using assms(2,3) s3
    by (auto simp: create_warmup_session_def can_create_warmup_session_def new_id_def Let_def)
qed

lemmas ready_db_defs = ready_db_def soft_strategy_def idle_strategy_row_def creation_def small_world

lemma ready_db_creates:
  assumes "l \<in> {LImported, LPreProduction}"
  shows "\<exists>x s'. create_warmup_session creation 0 5 9 2 (ready_db l) = Inr (x, s')"
proof (rule create_succeeds [where acc = "account_in l 5"])
  show "blocking_reasons (validate_warmup_readiness 5 9 2 (ready_db l)) = []"
    by (simp add: no_blocking_reasons validate_warmup_readiness_def lookup_account_def runtime_ready_def
        load_strategy_def Let_def ready_db_defs)
  show "acc_lifecycle_state (account_in l 5) = LColdSoak \<or>
      is_transition_allowed (acc_lifecycle_state (account_in l 5)) LColdSoak False"
    using assms by (auto simp: transition_defs account_in_def)
qed (simp_all add: accounts_ok_def lookup_account_def get_claim_def ready_db_defs)

lemma created_session_spec_witness:
  "\<exists>x s'. create_warmup_session creation 0 5 9 2 (ready_db LImported) = Inr (x, s') \<and>
     map_option ic_held_by (get_claim 5 s') = Some (isolation_owner (wu_id x)) \<and> lifecycle_of 5 s' = Some LColdSoak"
proof -
  from ready_db_creates [of LImported] obtain x s' where
    c: "create_warmup_session creation 0 5 9 2 (ready_db LImported) = Inr (x, s')" by blast
  have ok: "accounts_ok (ready_db LImported)" by (simp add: accounts_ok_def ready_db_defs)
  have "wc_cold_soak_min_hours (ce_settings creation) \<le> wc_cold_soak_max_hours (ce_settings creation)" "rng_ok (ce_rng creation)"
    by (simp_all add: creation_def default_warmup_settings_def least_rng_ok)
  from created_session_spec [OF c ok this(2,1)] create_warmup_session_spec(2) [OF c ok] c show ?thesis
    by (simp add: new_session_def Let_def is_live_warmup_mode_def get_strategy_def ready_db_defs)
qed

section \<open>Deleting\<close>

text \<open>
  C11. Deleting a warm-up session can strand its account. A deletion takes the session, its events and
  its claim, in any status, but leaves the account where it is in its life. When that is a state from
  which the lifecycle does not lead back to \<open>cold_soak\<close> without an operator (warming above all), no
  new session can be created for the account: every later creation is an error.
\<close>

theorem deleted_session_strands_account:
  assumes "accounts_ok s" and "get_warmup_session i w s = Inr x" and "lifecycle_of (wu_account_id x) s = Some l"
    and "l \<in> {LWarming, LIdle, LRetired, LBanned, LDeleted}"
  shows "\<exists>s'. delete_warmup_session i w s = Inr s' \<and> find_session i s' = None \<and>
    lifecycle_of (wu_account_id x) s' = Some l \<and>
    (\<forall>(ce :: 'h creation_env) now strategy. is_error (create_warmup_session ce now (wu_account_id x) strategy w s'))"
proof -
  have i: "wu_id x = i" using assms(2) by (auto simp: get_warmup_session_def split: option.splits dest: find_mem)
  let ?s1 = "snd (release_claim (wu_account_id x) (isolation_owner i) s)"
  let ?s' = "delete_session_rows i ?s1"
  have accs: "db_accounts ?s' = db_accounts s"
    by (simp add: delete_session_rows_def release_claim_def split: option.split)
  have l: "lifecycle_of (wu_account_id x) ?s' = Some l"
    using assms(3) by (simp add: lifecycle_of_def account_by_id_def accs)
  have "find_session i ?s' = None"
    by (simp add: find_session_def delete_session_rows_def find_none_iff)
  moreover have "is_error (create_warmup_session ce now (wu_account_id x) strategy w ?s')" for ce :: "'h creation_env" and now strategy
  proof (rule ccontr)
    assume "\<not> is_error (create_warmup_session ce now (wu_account_id x) strategy w ?s')"
    then obtain z t where c: "create_warmup_session ce now (wu_account_id x) strategy w ?s' = Inr (z, t)"
      by (cases "create_warmup_session ce now (wu_account_id x) strategy w ?s'") auto
    have ok: "accounts_ok ?s'" using assms(1) by (simp add: accounts_ok_def accs)
    from create_warmup_session_spec(1) [OF c ok] obtain acc where
      acc: "lookup_account (wu_account_id x) (Some w) ?s' = Some acc"
      "acc_lifecycle_state acc = LColdSoak \<or> is_transition_allowed (acc_lifecycle_state acc) LColdSoak False" by blast
    with lookup_account_by_id(1) [OF ok acc(1)] l assms(4) show False
      by (auto simp: lifecycle_of_def transition_defs)
  qed
  ultimately show ?thesis using assms(2) l by (auto simp: delete_warmup_session_def i)
qed

lemma deleted_session_strands_account_witness:
  "\<exists>s'. delete_warmup_session 8 2 warming_db = Inr s' \<and> find_session 8 s' = None \<and> lifecycle_of 5 s' = Some LWarming \<and>
     (\<forall>(ce :: unit creation_env) now strategy. is_error (create_warmup_session ce now 5 strategy 2 s'))"
proof -
  have "\<exists>s'. delete_warmup_session 8 2 warming_db = Inr s' \<and> find_session 8 s' = None \<and>
      lifecycle_of (wu_account_id running_session) s' = Some LWarming \<and>
      (\<forall>(ce :: unit creation_env) now strategy.
        is_error (create_warmup_session ce now (wu_account_id running_session) strategy 2 s'))"
    by (rule deleted_session_strands_account)
      (simp_all add: accounts_ok_def get_warmup_session_def lifecycle_of_def account_by_id_def small_world)
  then show ?thesis by (simp add: small_world)
qed

section \<open>Restarting during pre-production\<close>

definition cannot_activate :: "lifecycle_state \<Rightarrow> bool" where
  "cannot_activate l \<longleftrightarrow> l \<notin> {LPreProduction, LIdle, LActive}"

definition running_row :: "pre_production_session \<Rightarrow> db \<Rightarrow> bool" where
  "running_row p s \<longleftrightarrow> find (\<lambda>r. pp_id r = pp_id p \<and> pp_workspace_id r = pp_workspace_id p) (db_pre_productions s) = Some p \<and>
     pp_status p = PPRunning"

lemma advance_in_other_lifecycle:
  "advance_in acc t now reason md s = Inr s' \<Longrightarrow> acc_id acc \<noteq> a \<Longrightarrow> lifecycle_of a s' = lifecycle_of a s"
  using advance_in_other by (simp add: lifecycle_of_def)

text \<open>A completion that succeeds is not of the account that cannot be activated, and leaves it and its row.\<close>

lemma completion_of_other:
  assumes "complete_pre_production_session now (pp_id q) (pp_workspace_id q) True c m s = Inr (r, s')"
    and "accounts_ok s" and "lifecycle_of (pp_account_id p) s = Some l" and "cannot_activate l" and "running_row p s"
    and "pp_id q = pp_id p \<Longrightarrow> q = p"
  shows "q \<noteq> p \<and> accounts_ok s' \<and> lifecycle_of (pp_account_id p) s' = Some l \<and> running_row p s'"
proof -
  from assms(1) obtain q' where
    q': "find (\<lambda>r. pp_id r = pp_id q \<and> pp_workspace_id r = pp_workspace_id q) (db_pre_productions s) = Some q'"
    by (auto simp: complete_pre_production_session_def split: option.splits)
  show ?thesis
  proof (cases "pp_status q' = PPRunning")
    case False
    with assms q' have "s' = s" by (simp add: complete_pre_production_session_def)
    with False assms q' show ?thesis by (auto simp: running_row_def)
  next
    case True
    let ?p = "q'\<lparr>pp_completed_at := Some now, pp_updated_at := now, pp_status := PPCompleted,
      pp_task_result_json := [(''status'', JStr ''completed''), (''completed_at'', JTime now)]\<rparr>"
    from assms(1) q' True obtain acc where
      acc: "lookup_account (pp_account_id q') (Some (pp_workspace_id q)) s = Some acc"
      and adv: "advance_in acc LActive now ''pre_production_completed''
        [(''pre_production_session_id'', JStr (uuid_text (pp_id q')))] (save_pre_production ?p s) = Inr s'"
      by (auto simp: complete_pre_production_session_def Let_def result_bind_Inr_iff split: option.splits)
    note by_id = lookup_account_by_id [OF assms(2) acc]
    have other: "pp_account_id q' \<noteq> pp_account_id p"
    proof
      assume "pp_account_id q' = pp_account_id p"
      with by_id assms(3) have "acc_lifecycle_state acc = l" by (simp add: lifecycle_of_def)
      with assms(4) have "\<not> is_transition_allowed (acc_lifecycle_state acc) LActive False" "acc_lifecycle_state acc \<noteq> LActive"
        by (cases l; simp add: cannot_activate_def transition_defs)+
      with adv show False by (simp add: advance_in_def advance_unchanged)
    qed
    then have qp: "q \<noteq> p" using q' assms(5) by (auto simp: running_row_def)
    then have ids: "pp_id q' \<noteq> pp_id p" using assms(6) q' by (auto dest: find_mem)
    have "lifecycle_of (pp_account_id p) s' = lifecycle_of (pp_account_id p) (save_pre_production ?p s)"
      using advance_in_other_lifecycle [OF adv] by_id(3) other by simp
    then have "lifecycle_of (pp_account_id p) s' = Some l"
      using assms(3) by (simp add: lifecycle_of_def account_by_id_def save_pre_production_def)
    moreover have "accounts_ok s'" using advance_in_ids [OF adv] assms(2) by (simp add: accounts_ok_def save_pre_production_def)
    moreover have "running_row p s'"
    proof -
      have "find (\<lambda>r. pp_id r = pp_id p \<and> pp_workspace_id r = pp_workspace_id p)
          (update_where (\<lambda>r. pp_id r = pp_id q') (\<lambda>_. ?p) xs) =
        find (\<lambda>r. pp_id r = pp_id p \<and> pp_workspace_id r = pp_workspace_id p) xs" for xs
        using ids by (induction xs) auto
      then show ?thesis using advance_in_tables(4) [OF adv] assms(5) by (simp add: running_row_def save_pre_production_def)
    qed
    ultimately show ?thesis using qp by blast
  qed
qed

lemma complete_all_fails:
  assumes "accounts_ok s" and "lifecycle_of (pp_account_id p) s = Some l" and "cannot_activate l" and "running_row p s"
    and "p \<in> set ps" and "\<forall>q\<in>set ps. pp_id q = pp_id p \<longrightarrow> q = p"
  shows "\<exists>e. complete_all now ps s = Inl e"
  using assms
proof (induction ps arbitrary: s)
  case (Cons q qs)
  show ?case
  proof (cases "complete_pre_production_session now (pp_id q) (pp_workspace_id q) True None None s")
    case (Inr v)
    obtain r s1 where v: "v = (r, s1)" by fastforce
    from completion_of_other [OF Inr[unfolded v] Cons.prems(1-4)] Cons.prems(6)
    have "q \<noteq> p \<and> accounts_ok s1 \<and> lifecycle_of (pp_account_id p) s1 = Some l \<and> running_row p s1" by simp
    with Cons.IH [of s1] Cons.prems Inr v show ?thesis by auto
  qed simp
qed simp

text \<open>
  C12. Restarting the warm-up of an account in pre-production stops the pre-production sweep of every
  tenant. The creation is accepted, and takes the account back to \<open>cold_soak\<close> without ending its
  running pre-production; when that is due, the sweep raises on it, so that none of the rows it
  handles is completed, its own or another's, and the database stays as it was for the next sweep.
\<close>

theorem restarted_account_jams_sweep:
  assumes "create_warmup_session ce now a strategy w s = Inr (x, s')" and "accounts_ok s"
    and "distinct (map pp_id (db_pre_productions s))" and "p \<in> set (db_pre_productions s)"
    and "pp_status p = PPRunning" and "pp_account_id p = a" and "pp_ends_at p \<le> t"
  shows "\<exists>e. run_warmup_pre_production_sweep t s' = (Inl e, s')"
proof -
  note spec = create_warmup_session_spec [OF assms(1,2)]
  have unique: "q = p" if "q \<in> set (db_pre_productions s)" "pp_id q = pp_id p" for q
    using that assms(3,4) by (auto simp: distinct_map inj_on_def)
  have "find (\<lambda>r. pp_id r = pp_id p \<and> pp_workspace_id r = pp_workspace_id p) (db_pre_productions s) = Some p"
  proof (cases "find (\<lambda>r. pp_id r = pp_id p \<and> pp_workspace_id r = pp_workspace_id p) (db_pre_productions s)")
    case None
    with assms(4) show ?thesis by (auto simp: find_none_iff)
  next
    case (Some q)
    with unique find_mem [OF Some] show ?thesis by auto
  qed
  with spec(5) assms(5) have row: "running_row p s'" by (simp add: running_row_def)
  let ?ps = "due_pre_productions None t s'"
  have "p \<in> set ?ps" "\<forall>q\<in>set ?ps. pp_id q = pp_id p \<longrightarrow> q = p"
    using assms(4,5,7) spec(5) unique by (auto simp: due_pre_productions_def)
  moreover have "lifecycle_of (pp_account_id p) s' = Some LColdSoak" using spec(4) assms(6) by simp
  ultimately have "\<exists>e. complete_all t ?ps s' = Inl e"
    using complete_all_fails [OF spec(6) _ _ row, of LColdSoak ?ps t] by (simp add: cannot_activate_def)
  then show ?thesis
    by (auto simp: run_warmup_pre_production_sweep_def complete_due_pre_production_sessions_def Let_def)
qed

definition some_pre_production :: pre_production_session where
  "some_pre_production =
     \<lparr>pp_id = 3, pp_workspace_id = 2, pp_account_id = 5, pp_source_warmup_session_id = None, pp_status = PPRunning,
      pp_duration_hours = 2, pp_started_at = 0, pp_ends_at = hours 2, pp_completed_at = None,
      pp_failure_code = None, pp_failure_message = None, pp_task_plan_json = [], pp_task_result_json = [],
      pp_created_at = 0, pp_updated_at = 0\<rparr>"

definition pre_production_db :: db where
  "pre_production_db = (ready_db LPreProduction)\<lparr>db_pre_productions := [some_pre_production]\<rparr>"

lemma pre_production_db_creates: "\<exists>x s'. create_warmup_session creation 0 5 9 2 pre_production_db = Inr (x, s')"
proof (rule create_succeeds [where acc = "account_in LPreProduction 5"])
  show "blocking_reasons (validate_warmup_readiness 5 9 2 pre_production_db) = []"
    by (simp add: no_blocking_reasons validate_warmup_readiness_def lookup_account_def runtime_ready_def
        load_strategy_def Let_def pre_production_db_def ready_db_defs)
  show "acc_lifecycle_state (account_in LPreProduction 5) = LColdSoak \<or>
      is_transition_allowed (acc_lifecycle_state (account_in LPreProduction 5)) LColdSoak False"
    by (auto simp: transition_defs account_in_def)
qed (simp_all add: accounts_ok_def lookup_account_def get_claim_def pre_production_db_def ready_db_defs)

lemma restarted_account_jams_sweep_witness:
  "\<exists>x s' e. create_warmup_session creation 0 5 9 2 pre_production_db = Inr (x, s') \<and>
     run_warmup_pre_production_sweep (hours 3) s' = (Inl e, s')"
proof -
  from pre_production_db_creates obtain x s' where
    c: "create_warmup_session creation 0 5 9 2 pre_production_db = Inr (x, s')" by blast
  have "\<exists>e. run_warmup_pre_production_sweep (hours 3) s' = (Inl e, s')"
    by (rule restarted_account_jams_sweep [OF c, where p = some_pre_production])
      (simp_all add: accounts_ok_def some_pre_production_def pre_production_db_def ready_db_defs hours_def)
  with c show ?thesis by blast
qed

end
