(* ===== verification/WarmupIsolation.thy ===== *)
theory WarmupIsolation
  imports WarmupCreation
begin

text \<open>
  The isolation of an account: whatever the commands, the dry-run worker and the completion of live
  sessions do, every claim belongs to a live session of its account that is not over.
\<close>

section \<open>The invariant\<close>

definition holds :: "isolation_claim \<Rightarrow> warmup_session \<Rightarrow> bool" where
  "holds c x \<longleftrightarrow> ic_held_by c = isolation_owner (wu_id x) \<and> wu_account_id x = ic_account_id c \<and>
     is_live_warmup_mode (wu_execution_mode x) \<and> wu_status x \<notin> {WCompleted, WFailed}"

definition isolation_ok :: "db \<Rightarrow> bool" where
  "isolation_ok s \<longleftrightarrow>
     distinct (map wu_id (db_warmups s)) \<and> distinct (map ic_account_id (db_isolation_claims s)) \<and>
     list_all (\<lambda>c. list_ex (holds c) (db_warmups s)) (db_isolation_claims s)"

lemma isolation_owner_inj: "isolation_owner i = isolation_owner j \<longleftrightarrow> i = j"
  by (simp add: isolation_owner_def uuid_text_inj)

lemma isolation_ids: "isolation_ok s \<Longrightarrow> distinct (map wu_id (db_warmups s))"
  by (simp add: isolation_ok_def)

lemma isolation_holder:
  assumes "isolation_ok s" and "c \<in> set (db_isolation_claims s)"
  obtains x where "x \<in> set (db_warmups s)" "holds c x"
  using assms by (auto simp: isolation_ok_def list_all_iff list_ex_iff)

text \<open>Fewer claims, each with a holder.\<close>

lemma isolation_okI:
  assumes "isolation_ok s" and "distinct (map wu_id (db_warmups s'))"
    and "db_isolation_claims s' = filter P (db_isolation_claims s)"
    and "\<And>c x. c \<in> set (db_isolation_claims s') \<Longrightarrow> x \<in> set (db_warmups s) \<Longrightarrow> holds c x \<Longrightarrow> \<exists>z\<in>set (db_warmups s'). holds c z"
  shows "isolation_ok s'"
proof -
  have "\<exists>z\<in>set (db_warmups s'). holds c z" if c: "c \<in> set (db_isolation_claims s')" for c
  proof -
    from c assms(3) have "c \<in> set (db_isolation_claims s)" by simp
    from isolation_holder [OF assms(1) this] assms(4) [OF c] show ?thesis by blast
  qed
  then show ?thesis using assms(1-3) by (simp add: isolation_ok_def list_all_iff list_ex_iff distinct_map_filter)
qed

lemma filter_all: "filter (\<lambda>_. True) xs = xs"
  by simp

text \<open>The row of a session is replaced by one that holds what it held.\<close>

lemma isolation_save:
  assumes "isolation_ok s" and "find_session (wu_id y) s = Some x"
    and "\<And>c. c \<in> set (db_isolation_claims s) \<Longrightarrow> holds c x \<Longrightarrow> holds c y"
  shows "isolation_ok (save_session y s)"
proof (rule isolation_okI [OF assms(1)])
  show "distinct (map wu_id (db_warmups (save_session y s)))" using isolation_ids [OF assms(1)] by simp
  show "db_isolation_claims (save_session y s) = filter (\<lambda>_. True) (db_isolation_claims s)"
    by (simp add: save_session_def)
  fix c z assume c: "c \<in> set (db_isolation_claims (save_session y s))" and z: "z \<in> set (db_warmups s)" "holds c z"
  show "\<exists>v\<in>set (db_warmups (save_session y s)). holds c v"
  proof (cases "wu_id z = wu_id y")
    case True
    then have "z = x" using z(1) assms(2) find_session_mem [OF isolation_ids [OF assms(1)]] by (metis option.inject)
    moreover have "y \<in> set (db_warmups (save_session y s))"
      using z(1) True by (auto simp: save_session_def query_simps)
    moreover have "c \<in> set (db_isolation_claims s)" using c by (simp add: save_session_def)
    ultimately show ?thesis using assms(3) z(2) by blast
  next
    case False
    with z show ?thesis by (force simp: save_session_def query_simps)
  qed
qed

lemma isolation_event [simp]: "isolation_ok (write_warmup_event now x ty d s) = isolation_ok s"
  by (simp add: isolation_ok_def write_warmup_event_def new_id_def)

section \<open>Releasing\<close>

definition released :: "uuid \<Rightarrow> string \<Rightarrow> db \<Rightarrow> bool" where
  "released a h s \<longleftrightarrow> list_all (\<lambda>c. \<not> (ic_account_id c = a \<and> ic_held_by c = h)) (db_isolation_claims s)"

lemma find_claim: "distinct (map ic_account_id cs) \<Longrightarrow> c \<in> set cs \<Longrightarrow> find (\<lambda>d. ic_account_id d = ic_account_id c) cs = Some c"
proof (induction cs)
  case (Cons d cs)
  then show ?case by (metis (mono_tags, lifting) distinct.simps(2) find.simps(2) image_eqI list.simps(9) set_ConsD set_map)
qed simp

lemma release_released:
  assumes "distinct (map ic_account_id (db_isolation_claims s))"
  shows "released a h (snd (release_claim a h s))"
proof (cases "get_claim a s")
  case None
  then have "ic_account_id c \<noteq> a" if "c \<in> set (db_isolation_claims s)" for c
    using that by (auto simp: get_claim_def find_none_iff)
  with None show ?thesis by (auto simp: release_claim_def released_def list_all_iff)
next
  case (Some c)
  have only: "d = c" if "d \<in> set (db_isolation_claims s)" "ic_account_id d = a" for d
    using find_claim [OF assms that(1)] that(2) Some by (simp add: get_claim_def)
  show ?thesis
  proof (cases "ic_held_by c = h")
    case True
    with Some show ?thesis by (simp add: release_claim_def released_def list_all_iff)
  next
    case False
    with Some only show ?thesis by (auto simp: release_claim_def released_def list_all_iff)
  qed
qed

text \<open>The claims after a step are some of those before.\<close>

definition claims_shrink :: "uuid \<Rightarrow> uuid \<Rightarrow> db \<Rightarrow> db \<Rightarrow> bool" where
  "claims_shrink i a s s' \<longleftrightarrow> (\<exists>P. db_isolation_claims s' = filter P (db_isolation_claims s))"

lemma claims_same: "db_isolation_claims s' = db_isolation_claims s \<Longrightarrow> claims_shrink i a s s'"
  unfolding claims_shrink_def by (metis filter_all)

interpretation claims: session_frame claims_shrink
proof
  show "claims_shrink i a s s1 \<Longrightarrow> claims_shrink i a s1 s2 \<Longrightarrow> claims_shrink i a s s2" for i a s s1 s2
    unfolding claims_shrink_def by (metis filter_filter)
next
  show "claims_shrink i a s (snd (release_claim a h s))" for i a s h
    unfolding claims_shrink_def release_claim_def
    by (cases "get_claim a s") (auto intro: exI [of _ "\<lambda>_. True"] exI [of _ "\<lambda>c. ic_account_id c \<noteq> a"])
qed (auto intro!: claims_same dest: advance_in_tables(3) simp: warm_tables_def save_session_def add_task_run_def
    new_id_def set_runtime_def)

lemma shrink_claims:
  assumes "claims_shrink i a s s'"
  shows "distinct (map ic_account_id (db_isolation_claims s)) \<Longrightarrow> distinct (map ic_account_id (db_isolation_claims s'))"
    "set (db_isolation_claims s') \<subseteq> set (db_isolation_claims s)"
  using assms by (auto simp: claims_shrink_def distinct_map_filter)

text \<open>A completion ends without a claim of its session.\<close>

lemma completion_releases:
  assumes "gate_frames (pv_gate pv)" and "distinct (map ic_account_id (db_isolation_claims s))"
    and "completion_effects pv x now y s = (Inr s', y')"
  shows "released (wu_account_id x) (isolation_owner (wu_id x)) s'"
proof -
  let ?a = "wu_account_id x" and ?h = "isolation_owner (wu_id x)"
  from assms(3) obtain s1 where s1: "advance_account_to_pre_production x now s = Inr s1"
    by (auto simp: completion_effects_def split: sum.splits)
  obtain r y1 where r: "(if should_start_pre_production (pv_settings pv) x s1
      then (case start_pre_production pv now ?a (wu_workspace_id x) None (Some (wu_id x)) (Some x) None y s1 of
              (Inl e, y1) \<Rightarrow> (Inl e, y1) | (Inr (_, s2), y1) \<Rightarrow> (Inr s2, y1))
      else (Inr s1, y)) = (r, y1)" by fastforce
  from assms(3) s1 r obtain s2 where s2: "r = Inr s2"
    by (cases r) (auto simp: completion_effects_def)
  have k1: "claims_shrink (wu_id x) ?a s s1" using claims.to_pre_production [OF s1 HOL.refl] .
  have k2: "claims_shrink (wu_id x) ?a s1 s2"
    using r s2 claims.start_pre_production [OF assms(1)]
    by (auto simp: claims.refl split: if_splits prod.splits sum.splits)
  let ?s3 = "on_warmup_completed ?a (wu_workspace_id x) now s2"
  have "db_isolation_claims ?s3 = db_isolation_claims s2" by (rule warm_tables_reads(7)) (rule survival_tables)
  then have "distinct (map ic_account_id (db_isolation_claims ?s3))"
    using shrink_claims(1) [OF claims.trans [OF k1 k2] assms(2)] by simp
  then have rel: "released ?a ?h (snd (release_claim ?a ?h ?s3))" by (rule release_released)
  have ev: "released ?a ?h (write_warmup_event now x ty d u) = released ?a ?h u" for ty d u
    by (simp add: released_def write_warmup_event_def new_id_def)
  have "s' = snd (release_claim ?a ?h ?s3) \<or>
    s' = write_warmup_event now x ''isolation_released'' [(''reason'', JStr ''session_completed'')]
           (snd (release_claim ?a ?h ?s3))"
    using assms(3) s1 r s2 by (auto simp: completion_effects_def Let_def case_prod_unfold split: if_splits)
  with rel ev show ?thesis by auto
qed

text \<open>A session is over, or was a dry run: it holds nothing any more.\<close>

lemma isolation_over:
  assumes "isolation_ok s" and "find_session i s = Some x" and "distinct (map wu_id (db_warmups s'))"
    and "claims_shrink i a s s'" and "\<And>j. j \<noteq> i \<Longrightarrow> find_session j s' = find_session j s"
    and "released (wu_account_id x) (isolation_owner i) s' \<or> \<not> is_live_warmup_mode (wu_execution_mode x)"
  shows "isolation_ok s'"
proof -
  from assms(4) obtain P where P: "db_isolation_claims s' = filter P (db_isolation_claims s)"
    by (auto simp: claims_shrink_def)
  show ?thesis
  proof (rule isolation_okI [OF assms(1,3) P])
    fix c z assume c: "c \<in> set (db_isolation_claims s')" and z: "z \<in> set (db_warmups s)" "holds c z"
    have found: "find_session (wu_id z) s = Some z" using find_session_mem [OF isolation_ids [OF assms(1)]] z(1) by simp
    have "wu_id z \<noteq> i"
    proof
      assume "wu_id z = i"
      with found assms(2) have "z = x" "wu_id x = i" by auto
      with assms(6) z(2) c show False by (auto simp: holds_def released_def list_all_iff)
    qed
    with assms(5) found have "find_session (wu_id z) s' = Some z" by simp
    then have "z \<in> set (db_warmups s')" by (auto simp: find_session_def dest: find_mem)
    with z(2) show "\<exists>v\<in>set (db_warmups s'). holds c v" by blast
  qed
qed

section \<open>Steps\<close>

text \<open>The worker: a batch of dry runs.\<close>

lemma isolation_batch:
  assumes "gate_frames (pv_gate pv)" and "isolation_ok s" and "distinct is"
    and "\<forall>i\<in>set is. \<forall>x. find_session i s = Some x \<longrightarrow> \<not> is_live_warmup_mode (wu_execution_mode x)"
    and "run_batch (process_one_due_session pv now worker) is n y s = (Inr (m, s'), y')"
  shows "isolation_ok s'"
  using assms(2-5)
proof (induction "is" arbitrary: n y s)
  case (Cons i "is")
  show ?case
  proof (cases "find_session i s")
    case None
    with Cons show ?thesis by simp
  next
    case (Some x)
    then have i: "wu_id x = i" by (rule find_session_id)
    from Cons.prems(4) Some obtain b s1 y1 where s1: "process_one_due_session pv now worker x y s = (Inr (b, s1), y1)"
      and rest: "run_batch (process_one_due_session pv now worker) is (if b then Suc n else n) y1 s1 = (Inr (m, s'), y')"
      by (auto split: prod.splits sum.splits)
    from others.dry_step [OF assms(1) s1] rows.dry_step [OF assms(1) s1] claims.dry_step [OF assms(1) s1]
    have fr: "leaves_others i (wu_account_id x) s s1" "map wu_id (db_warmups s1) = map wu_id (db_warmups s)"
      "claims_shrink i (wu_account_id x) s s1" unfolding i by (simp_all add: rows_of_def)
    note same = leaves_others_reads(1) [OF fr(1)]
    have ok: "isolation_ok s1"
      by (rule isolation_over [OF Cons.prems(1) Some _ fr(3) same])
        (use fr(2) isolation_ids [OF Cons.prems(1)] Cons.prems(3) Some in auto)
    moreover have "\<forall>j\<in>set is. \<forall>x. find_session j s1 = Some x \<longrightarrow> \<not> is_live_warmup_mode (wu_execution_mode x)"
      using Cons.prems(2,3) same by (metis distinct.simps(2) list.set_intros(2))
    ultimately show ?thesis using Cons.IH [OF ok _ _ rest] Cons.prems(2) by simp
  qed
qed simp

lemma isolation_tick:
  assumes "gate_frames (pv_gate pv)" and "isolation_ok s"
    and "process_due_warmup_sessions pv w now worker limit y s = (r, y', s')"
  shows "isolation_ok s'"
proof (cases "fst (run_batch (process_one_due_session pv now worker) (dry_run_batch (pv_settings pv) w now limit s) 0 y s)")
  case (Inl e)
  with assms show ?thesis
    by (auto simp: process_due_warmup_sessions_def commit_batch_def split: prod.splits)
next
  case (Inr v)
  let ?is = "dry_run_batch (pv_settings pv) w now limit s"
  obtain m s1 y1 where run: "run_batch (process_one_due_session pv now worker) ?is 0 y s = (Inr (m, s1), y1)"
    using Inr by (metis prod.collapse)
  have ids: "distinct (map wu_id (db_warmups s))" by (rule isolation_ids [OF assms(2)])
  have "distinct ?is" unfolding dry_run_batch_def
    by (rule distinct_take_sort_filter [where P = "\<lambda>_. True"]) (use ids in simp_all)
  moreover have "\<forall>i\<in>set ?is. \<forall>x. find_session i s = Some x \<longrightarrow> \<not> is_live_warmup_mode (wu_execution_mode x)"
  proof (intro ballI allI impI)
    fix i x assume i: "i \<in> set ?is" "find_session i s = Some x"
    from batch_mem [OF i(1)] obtain z where "z \<in> set (db_warmups s)" "wu_id z = i" "dry_run_due w now z" by blast
    with i(2) find_session_mem [OF ids] have "dry_run_due w now x" by (metis option.inject)
    then show "\<not> is_live_warmup_mode (wu_execution_mode x)" by (simp add: dry_run_due_def is_live_warmup_mode_def)
  qed
  ultimately have "isolation_ok s1" by (rule isolation_batch [OF assms(1,2) _ _ run])
  with assms(3) run show ?thesis by (simp add: process_due_warmup_sessions_def commit_batch_def)
qed

lemma isolation_complete_dispatch:
  assumes "gate_frames (pv_gate pv)" and "isolation_ok s" and "find_session i s = Some x"
    and "complete_dispatch_session pv x now y s = (Inr s', y')"
  shows "isolation_ok s'"
proof -
  have i: "wu_id x = i" using find_session_id [OF assms(3)] .
  note fr = others.complete_dispatch_session [OF assms(1) HOL.refl i assms(4)]
    rows.complete_dispatch_session [OF assms(1) HOL.refl i assms(4)]
    claims.complete_dispatch_session [OF assms(1) HOL.refl i assms(4)]
  define x1 where "x1 = x\<lparr>wu_status := WCompleted, wu_completed_at := Some now, wu_next_step_at := None,
    wu_next_micro_session_at := None, wu_updated_at := now\<rparr>"
  let ?s = "write_warmup_event now x1 ''completed'' [(''day'', JInt (wu_current_day x1)),
    (''execution_mode'', JStr (execution_mode_text (wu_execution_mode x1)))] (save_session x1 s)"
  have "completion_effects pv x1 now y ?s = (Inr s', y')"
    using assms(4) unfolding complete_dispatch_session_def Let_def x1_def .
  moreover have "distinct (map ic_account_id (db_isolation_claims ?s))"
    using assms(2) by (simp add: isolation_ok_def write_warmup_event_def new_id_def save_session_def)
  ultimately have "released (wu_account_id x1) (isolation_owner (wu_id x1)) s'"
    by (intro completion_releases [OF assms(1)])
  then have "released (wu_account_id x) (isolation_owner i) s'" by (simp add: x1_def i)
  then show ?thesis
    using isolation_over [OF assms(2,3) _ fr(3) leaves_others_reads(1) [OF fr(1)]] fr(2) isolation_ids [OF assms(2)]
    by (simp add: rows_of_def)
qed

lemma get_session_found:
  assumes "isolation_ok s" and "get_warmup_session i w s = Inr x"
  shows "find_session i s = Some x" "wu_id x = i"
proof -
  from assms(2) have f: "find (\<lambda>x. wu_id x = i \<and> wu_workspace_id x = w) (db_warmups s) = Some x"
    by (simp add: get_warmup_session_def split: option.splits)
  from find_by_key [OF isolation_ids [OF assms(1)] f] show "find_session i s = Some x" by (simp add: find_session_def)
  from find_mem [OF f] show "wu_id x = i" by simp
qed

lemma isolation_pause:
  assumes "isolation_ok s" and "pause_warmup_session now i w reason s = Inr (y, s')"
  shows "isolation_ok s'"
proof -
  from assms(2) obtain x where x: "get_warmup_session i w s = Inr x"
    and y: "y = x\<lparr>wu_status := WPausedManual, wu_paused_at := Some now, wu_updated_at := now\<rparr>"
      "s' = write_warmup_event now y ''paused'' [(''reason'', JStr reason)] (save_session y s)"
    by (auto simp: pause_warmup_session_def result_bind_Inr_iff Let_def)
  have "isolation_ok (save_session y s)"
    by (rule isolation_save [OF assms(1)]) (use get_session_found [OF assms(1) x] in \<open>auto simp: y(1) holds_def\<close>)
  then show ?thesis by (simp add: y(2))
qed

lemma isolation_resume:
  assumes "isolation_ok s" and "resume_warmup_session now i w s = Inr (y, s')"
  shows "isolation_ok s'"
proof -
  from assms(2) obtain x where x: "get_warmup_session i w s = Inr x"
    and y: "y = x\<lparr>wu_status := WScheduled, wu_paused_at := None, wu_consecutive_failures := 0, wu_updated_at := now\<rparr>"
      "s' = write_warmup_event now y ''resumed'' [] (save_session y s)"
    by (auto simp: resume_warmup_session_def result_bind_Inr_iff Let_def)
  have "isolation_ok (save_session y s)"
    by (rule isolation_save [OF assms(1)]) (use get_session_found [OF assms(1) x] in \<open>auto simp: y(1) holds_def\<close>)
  then show ?thesis by (simp add: y(2))
qed

lemma isolation_restrict:
  assumes "isolation_ok s" and "set_disabled_actions now i w actions actor s = Inr (y, s')"
  shows "isolation_ok s'"
proof -
  from assms(2) obtain x d ty pl where x: "get_warmup_session i w s = Inr x"
    and y: "y = x\<lparr>wu_disabled_actions_json := d, wu_updated_at := now\<rparr>"
      "s' = write_warmup_event now y ty pl (save_session y s)"
    by (auto simp: set_disabled_actions_def result_bind_Inr_iff Let_def)
  have "isolation_ok (save_session y s)"
    by (rule isolation_save [OF assms(1)]) (use get_session_found [OF assms(1) x] in \<open>auto simp: y(1) holds_def\<close>)
  then show ?thesis by (simp add: y(2))
qed

lemma isolation_delete:
  assumes "isolation_ok s" and "delete_warmup_session i w s = Inr s'"
  shows "isolation_ok s'"
proof -
  from assms(2) obtain x where x: "get_warmup_session i w s = Inr x"
    and s': "s' = delete_session_rows (wu_id x) (snd (release_claim (wu_account_id x) (isolation_owner (wu_id x)) s))"
    by (auto simp: delete_warmup_session_def result_bind_Inr_iff)
  note found = get_session_found [OF assms(1) x]
  let ?s1 = "snd (release_claim (wu_account_id x) (isolation_owner i) s)"
  have rows1: "db_warmups ?s1 = db_warmups s" by (simp add: release_claim_def split: option.split)
  have rows: "db_warmups s' = filter (\<lambda>x. wu_id x \<noteq> i) (db_warmups s)"
    and claims: "db_isolation_claims s' = db_isolation_claims ?s1"
    by (simp_all add: s' found(2) delete_session_rows_def rows1)
  have shrink: "claims_shrink i (wu_account_id x) s s'"
    using claims.release [of i "wu_account_id x" s "isolation_owner i"] claims by (simp add: claims_shrink_def)
  have "released (wu_account_id x) (isolation_owner i) s'"
    using release_released assms(1) claims by (simp add: isolation_ok_def released_def)
  moreover have "find_session j s' = find_session j s" if "j \<noteq> i" for j
  proof -
    have "find (\<lambda>x. wu_id x = j) (filter (\<lambda>x. wu_id x \<noteq> i) xs) = find (\<lambda>x. wu_id x = j) xs" for xs
      using that by (induction xs) auto
    then show ?thesis by (simp add: find_session_def rows)
  qed
  ultimately show ?thesis
    using isolation_over [OF assms(1) found(1) _ shrink] isolation_ids [OF assms(1)] rows
    by (simp add: distinct_map_filter)
qed

lemma find_session_append:
  "db_warmups s' = db_warmups s @ [x] \<Longrightarrow> wu_id x \<notin> wu_id ` set (db_warmups s) \<Longrightarrow>
   find_session j s' = (if j = wu_id x then Some x else find_session j s)"
proof -
  have "wu_id x \<notin> wu_id ` set xs \<Longrightarrow> find (\<lambda>r. wu_id r = j) (xs @ [x]) =
    (if j = wu_id x then Some x else find (\<lambda>r. wu_id r = j) xs)" for xs
    by (induction xs) auto
  then show "db_warmups s' = db_warmups s @ [x] \<Longrightarrow> wu_id x \<notin> wu_id ` set (db_warmups s) \<Longrightarrow> ?thesis"
    by (simp add: find_session_def)
qed

text \<open>A new session, with a claim of its own or none.\<close>

lemma isolation_add:
  assumes "isolation_ok s" and "db_warmups s' = db_warmups s @ [x]" and "wu_id x \<notin> wu_id ` set (db_warmups s)"
    and "db_isolation_claims s' = db_isolation_claims s \<or>
      (\<exists>c. db_isolation_claims s' = db_isolation_claims s @ [c] \<and> holds c x \<and> get_claim (ic_account_id c) s = None)"
  shows "isolation_ok s'"
proof -
  have old: "list_ex (holds c) (db_warmups s')" if "c \<in> set (db_isolation_claims s)" for c
    using assms(1,2) that by (simp add: isolation_ok_def list_all_iff)
  have ids: "distinct (map wu_id (db_warmups s'))" using assms(2,3) isolation_ids [OF assms(1)] by auto
  from assms(4) show ?thesis
  proof (elim disjE exE conjE)
    assume "db_isolation_claims s' = db_isolation_claims s"
    with old ids assms(1) show ?thesis by (simp add: isolation_ok_def list_all_iff)
  next
    fix c assume c: "db_isolation_claims s' = db_isolation_claims s @ [c]" "holds c x" "get_claim (ic_account_id c) s = None"
    have "ic_account_id c \<notin> ic_account_id ` set (db_isolation_claims s)"
      using c(3) by (auto simp: get_claim_def find_none_iff)
    with old ids c assms(1,2) show ?thesis by (simp add: isolation_ok_def list_all_iff)
  qed
qed

lemma isolation_create:
  assumes "isolation_ok s" and "accounts_ok s" and "db_next_id s \<notin> wu_id ` set (db_warmups s)"
    and "create_warmup_session ce now a strategy w s = Inr (x, s')"
  shows "isolation_ok s'" "find_session (wu_id x) s' = Some x" "wu_account_id x = a"
proof -
  note spec = create_warmup_session_spec [OF assms(4,2)]
  have x: "wu_id x = db_next_id s" "wu_account_id x = a" "wu_status x = WColdSoak"
    unfolding spec(2) by (simp_all add: new_session_def Let_def)
  show "wu_account_id x = a" by (rule x)
  show "find_session (wu_id x) s' = Some x"
    using find_session_append [OF spec(3)] assms(3) x(1) by simp
  have "db_isolation_claims s' = db_isolation_claims s \<or>
      (\<exists>c. db_isolation_claims s' = db_isolation_claims s @ [c] \<and> holds c x \<and> get_claim (ic_account_id c) s = None)"
    using spec(7) x by (auto simp: holds_def claim_of_def split: if_splits)
  from isolation_add [OF assms(1) spec(3) _ this] assms(3) x(1) show "isolation_ok s'" by simp
qed

lemma isolation_create_use_case:
  assumes "isolation_ok s" and "accounts_ok s" and "db_next_id s \<notin> wu_id ` set (db_warmups s)"
    and "create_warmup_session_use_case ce enqueue now a strategy w s = (r, s')"
  shows "isolation_ok s'"
proof (cases "create_warmup_session ce now a strategy w s")
  case (Inl e)
  with assms(1,4) show ?thesis by (simp add: create_warmup_session_use_case_def)
next
  case (Inr v)
  then obtain x s1 where c: "create_warmup_session ce now a strategy w s = Inr (x, s1)" by (cases v) auto
  note ok = isolation_create [OF assms(1-3) c]
  define x1 where "x1 = x\<lparr>wu_status := WFailed\<rparr>"
  let ?s2 = "write_warmup_event now x1 ''queue_enqueue_failed'' [] (save_session x1 s1)"
  let ?s3 = "snd (release_claim (wu_account_id x) (isolation_owner (wu_id x)) ?s2)"
  have x1: "wu_id x1 = wu_id x" by (simp add: x1_def)
  have cl2: "db_isolation_claims ?s2 = db_isolation_claims s1"
    by (simp add: write_warmup_event_def new_id_def save_session_def)
  have rows: "map wu_id (db_warmups ?s3) = map wu_id (db_warmups s1)"
    by (simp add: release_claim_def write_warmup_event_def new_id_def split: option.split)
  have "isolation_ok ?s3"
  proof (rule isolation_over [OF ok(1,2)])
    show "distinct (map wu_id (db_warmups ?s3))" using rows isolation_ids [OF ok(1)] by simp
    show "claims_shrink (wu_id x) (wu_account_id x) s1 ?s3"
      by (rule claims.trans [OF claims_same [OF cl2] claims.release])
    show "find_session j ?s3 = find_session j s1" if "j \<noteq> wu_id x" for j
      using that by (simp add: find_save_session x1)
    have "distinct (map ic_account_id (db_isolation_claims ?s2))" using ok(1) cl2 by (simp add: isolation_ok_def)
    then show "released (wu_account_id x) (isolation_owner (wu_id x)) ?s3 \<or> \<not> is_live_warmup_mode (wu_execution_mode x)"
      using release_released by blast
  qed
  with assms(4) c ok(1) show ?thesis
    by (auto simp: create_warmup_session_use_case_def Let_def x1_def split: if_splits)
qed

lemma isolation_idle:
  assumes "isolation_ok s"
    and "db_next_id (snd (get_or_create_idle_strategy w s)) \<notin> wu_id ` set (db_warmups s)"
    and "create_idle_warmup_session now a w s = Inr (x, s')"
  shows "isolation_ok s'"
proof (cases "active_warmup_for_account a w s")
  case (Some y)
  with assms(1,3) show ?thesis by (simp add: create_idle_warmup_session_def)
next
  case None
  obtain t s1 where s1: "get_or_create_idle_strategy w s = (t, s1)" by fastforce
  then have s1': "db_warmups s1 = db_warmups s" "db_isolation_claims s1 = db_isolation_claims s"
    by (auto simp: get_or_create_idle_strategy_def Let_def new_id_def split: option.splits)
  from assms(3) None s1 have "db_warmups s' = db_warmups s @ [x] \<and> db_isolation_claims s' = db_isolation_claims s \<and>
      wu_id x = db_next_id s1"
    by (auto simp: create_idle_warmup_session_def result_bind_Inr_iff Let_def new_id_def write_warmup_event_def
        idle_session_def s1' split: if_splits)
  with assms(2) s1 isolation_add [OF assms(1)] show ?thesis by simp
qed

text \<open>
  A change of the tables by a request, by the dry-run worker, or by the completion of a live session.
  The premises on identifiers are the primary keys: a new row gets an identifier of its own.
\<close>

inductive warmup_step :: "'g creation_env \<Rightarrow> 'x pre_env \<Rightarrow> db \<Rightarrow> db \<Rightarrow> bool" for ce pv where
  create: "warmup_step ce pv s s'"
    if "create_warmup_session_use_case ce enqueue now a strategy w s = (r, s')" and "accounts_ok s"
      and "db_next_id s \<notin> wu_id ` set (db_warmups s)"
| pause: "warmup_step ce pv s s'" if "pause_warmup_session now i w reason s = Inr (x, s')"
| resume: "warmup_step ce pv s s'" if "resume_warmup_session now i w s = Inr (x, s')"
| restrict: "warmup_step ce pv s s'" if "set_disabled_actions now i w actions actor s = Inr (x, s')"
| delete: "warmup_step ce pv s s'" if "delete_warmup_session i w s = Inr s'"
| keep_alive: "warmup_step ce pv s s'"
    if "create_idle_warmup_session now a w s = Inr (x, s')"
      and "db_next_id (snd (get_or_create_idle_strategy w s)) \<notin> wu_id ` set (db_warmups s)"
| tick: "warmup_step ce pv s s'" if "process_due_warmup_sessions pv w now worker limit y s = (r, y', s')"
| finish: "warmup_step ce pv s s'"
    if "find_session i s = Some x" and "complete_dispatch_session pv x now y s = (Inr s', y')"

lemma warmup_step_isolation:
  assumes "warmup_step ce pv s s'" and "gate_frames (pv_gate pv)" and "isolation_ok s"
  shows "isolation_ok s'"
  using assms
proof (induction rule: warmup_step.induct)
  case create
  then show ?case by (blast intro: isolation_create_use_case)
next
  case pause
  then show ?case by (blast intro: isolation_pause)
next
  case resume
  then show ?case by (blast intro: isolation_resume)
next
  case restrict
  then show ?case by (blast intro: isolation_restrict)
next
  case delete
  then show ?case by (blast intro: isolation_delete)
next
  case keep_alive
  then show ?case by (blast intro: isolation_idle)
next
  case tick
  then show ?case by (blast intro: isolation_tick)
next
  case finish
  then show ?case by (blast intro: isolation_complete_dispatch)
qed

text \<open>
  C9. The isolation of an account always has an owner that will release it. Through any sequence of
  creations (with and without a queue that answers), pauses, resumptions, restrictions, deletions,
  keep-alive sessions, ticks of the dry-run worker, failed ones too, and completions of live sessions,
  an account has at most one claim, and every claim belongs to a live session of that account that is
  neither completed nor failed. No claim outlives its session, and no dry run holds one.
\<close>

theorem isolation_claims_have_sessions:
  assumes "isolation_ok s" and "pv_gate pv = warmup_gate g cfg" and "(warmup_step ce pv)\<^sup>*\<^sup>* s s'"
  shows "distinct (map ic_account_id (db_isolation_claims s')) \<and>
    list_all (\<lambda>c. list_ex (\<lambda>x. ic_held_by c = isolation_owner (wu_id x) \<and> wu_account_id x = ic_account_id c \<and>
      wu_execution_mode x \<noteq> DryRun \<and> wu_status x \<noteq> WCompleted \<and> wu_status x \<noteq> WFailed) (db_warmups s'))
      (db_isolation_claims s')"
proof -
  have frames: "gate_frames (pv_gate pv)" using warmup_gate_frames assms(2) by simp
  from assms(3) have "isolation_ok s'"
  proof (induction rule: rtranclp_induct)
    case base
    show ?case by (rule assms(1))
  next
    case (step t u)
    then show ?case using warmup_step_isolation [OF _ frames] by blast
  qed
  then show ?thesis by (simp add: isolation_ok_def holds_def [abs_def] is_live_warmup_mode_def)
qed

lemma isolation_claims_have_sessions_witness:
  "\<exists>s'. (warmup_step creation warmup_env)\<^sup>*\<^sup>* (ready_db LImported) s' \<and>
     length (db_warmups s') = 1 \<and> distinct (map ic_account_id (db_isolation_claims s'))"
proof -
  from ready_db_creates [of LImported] obtain x s' where
    c: "create_warmup_session creation 0 5 9 2 (ready_db LImported) = Inr (x, s')" by blast
  have ok: "accounts_ok (ready_db LImported)" "isolation_ok (ready_db LImported)"
    "db_next_id (ready_db LImported) \<notin> wu_id ` set (db_warmups (ready_db LImported))" "db_warmups (ready_db LImported) = []"
    by (simp_all add: accounts_ok_def isolation_ok_def ready_db_defs)
  have "create_warmup_session_use_case creation (\<lambda>_. True) 0 5 9 2 (ready_db LImported) = (Inr x, s')"
    by (simp add: create_warmup_session_use_case_def c)
  then have run: "(warmup_step creation warmup_env)\<^sup>*\<^sup>* (ready_db LImported) s'"
    using warmup_step.create ok by blast
  have "pv_gate warmup_env = warmup_gate (redis_gate map_value map_store healthy_counters) disabled_settings"
    by (simp add: warmup_env_def)
  from isolation_claims_have_sessions [OF ok(2) this run] create_warmup_session_spec(3) [OF c ok(1)] ok(4) run
  show ?thesis by auto
qed

end
