(* ===== verification/WarmupClock.thy ===== *)
theory WarmupClock
  imports WarmupSessions
begin

text \<open>
  The local clock of a warm-up: quiet hours and the next micro-session (\<open>dispatch_schedule.py\<close>,
  \<open>circadian/windows.py\<close>), and the daily windows of a cyclic warm-up (\<open>cyclic.py\<close>). A time zone of the
  time zone database is a parameter: the wall clock at an instant, and the instant of a wall clock.
  Wall clocks are microseconds, as instants are; arithmetic on a local \<open>datetime\<close> is arithmetic on its
  wall clock.
\<close>

section \<open>Zones\<close>

record zone =
  zn_local :: "time \<Rightarrow> int"
  zn_utc :: "int \<Rightarrow> time"

definition utc_zone :: zone where
  "utc_zone = \<lparr>zn_local = (\<lambda>t. t), zn_utc = (\<lambda>t. t)\<rparr>"

definition resolve_zone :: "(string \<Rightarrow> zone option) \<Rightarrow> string option \<Rightarrow> zone" where
  "resolve_zone zones name =
     (case name of None \<Rightarrow> utc_zone
      | Some n \<Rightarrow> if n = [] then utc_zone else case zones n of None \<Rightarrow> utc_zone | Some z \<Rightarrow> z)"

definition local_date :: "zone \<Rightarrow> time \<Rightarrow> int" where
  "local_date z t = zn_local z t div days 1"

definition wall_hour :: "int \<Rightarrow> int" where
  "wall_hour l = l mod days 1 div hours 1"

definition local_hour :: "zone \<Rightarrow> time \<Rightarrow> int" where
  "local_hour z t = wall_hour (zn_local z t)"

definition local_datetime :: "zone \<Rightarrow> int \<Rightarrow> int \<Rightarrow> time" where
  "local_datetime z d h = zn_utc z (days d + hours h)"

section \<open>Quiet hours\<close>

definition is_hour_in_quiet_window :: "int \<Rightarrow> int \<Rightarrow> int \<Rightarrow> bool" where
  "is_hour_in_quiet_window hour start end_hour =
     (if start = end_hour then False
      else if start < end_hour then start \<le> hour \<and> hour < end_hour else start \<le> hour \<or> hour < end_hour)"

definition is_in_quiet_hours :: "warmup_settings \<Rightarrow> zone \<Rightarrow> time \<Rightarrow> bool" where
  "is_in_quiet_hours cfg z t = is_hour_in_quiet_window (local_hour z t) (wc_quiet_start cfg) (wc_quiet_end cfg)"

definition next_quiet_hours_end :: "warmup_settings \<Rightarrow> zone \<Rightarrow> time \<Rightarrow> time" where
  "next_quiet_hours_end cfg z t =
     (let l = zn_local z t;
          c = days (l div days 1) + hours (wc_quiet_end cfg);
          c1 = (if c \<le> l then c + days 1 else c);
          c2 = days (c1 div days 1) + hours (wc_quiet_end cfg);
          c3 = (if c2 \<le> l then c2 + days 1 else c2)
      in zn_utc z c3)"

section \<open>The next micro-session\<close>

definition DEFAULT_HOUR_WEIGHTS :: "(int, rat) dict" where
  "DEFAULT_HOUR_WEIGHTS =
     [(7, 3 / 10), (8, 1 / 2), (9, 7 / 10), (10, 8 / 10), (11, 7 / 10), (12, 1), (13, 1), (14, 9 / 10), (15, 6 / 10),
      (16, 1 / 2), (17, 6 / 10), (18, 7 / 10), (19, 12 / 10), (20, 13 / 10), (21, 12 / 10), (22, 8 / 10), (23, 1 / 10),
      (0, 0), (1, 0), (2, 0), (3, 0), (4, 0), (5, 0), (6, 1 / 10)]"

definition preferred_hour :: "(string, json) dict \<Rightarrow> int \<Rightarrow> bool" where
  "preferred_hour seed h =
     (case dict_get seed ''preferred_hours'' of
        Some (JList vs) \<Rightarrow> JInt (h mod 24) \<in> set vs \<or> JNum (of_int (h mod 24)) \<in> set vs
      | _ \<Rightarrow> False)"

definition hour_weight :: "int \<Rightarrow> (string, json) dict \<Rightarrow> rat" where
  "hour_weight h seed =
     (let w = (case dict_get DEFAULT_HOUR_WEIGHTS (h mod 24) of None \<Rightarrow> 0 | Some w \<Rightarrow> w);
          w1 = (if preferred_hour seed h then w * (3 / 2) else w)
      in max 0 (min (3 / 2) w1))"

text \<open>The slots as wall clocks of full hours, with their weights.\<close>

definition candidate_slots :: "warmup_settings \<Rightarrow> (string, json) dict \<Rightarrow> int \<Rightarrow> (int \<times> rat) list" where
  "candidate_slots cfg seed l =
     (let base = l div hours 1 * hours 1 in
      concat (map (\<lambda>offset.
        let slot = base + hours offset;
            w = hour_weight (wall_hour slot) seed
        in if slot + minutes 59 \<le> l then []
           else if w \<le> 0 \<or> is_hour_in_quiet_window (wall_hour slot) (wc_quiet_start cfg) (wc_quiet_end cfg) then []
           else [(slot, w)]) [0..12]))"

text \<open>The first slot whose cumulated weight reaches the threshold; of a list that is not empty.\<close>

fun first_reaching :: "rat \<Rightarrow> rat \<Rightarrow> (int \<times> rat) list \<Rightarrow> int option" where
  "first_reaching threshold acc [] = None"
| "first_reaching threshold acc ((slot, w) # slots) =
     (if threshold \<le> acc + w then Some slot else first_reaching threshold (acc + w) slots)"

definition weighted_choice :: "'g rng \<Rightarrow> (int \<times> rat) list \<Rightarrow> 'g \<Rightarrow> int \<times> 'g" where
  "weighted_choice rg slots g =
     (let (x, g1) = rg_random rg g;
          total = sum_list (map snd slots)
      in (case first_reaching (x * total) 0 slots of Some s \<Rightarrow> s | None \<Rightarrow> fst (last slots), g1))"

definition pick_next_window ::
  "warmup_settings \<Rightarrow> 'g rng \<Rightarrow> time \<Rightarrow> zone \<Rightarrow> (string, json) dict \<Rightarrow> 'g \<Rightarrow> time \<times> 'g" where
  "pick_next_window cfg rg now z seed g =
     (let l = zn_local z now; slots = candidate_slots cfg seed l in
      if slots = [] then (now + hours 1, g)
      else
        let (selected, g1) = weighted_choice rg slots g;
            min_minute = (if selected = l div hours 1 * hours 1 then l mod hours 1 div minutes 1 + 1 else 0);
            (m, g2) = rg_randint rg (min min_minute 59) 59 g1;
            candidate = selected + minutes m;
            candidate1 = (if candidate \<le> l then candidate + hours 1 else candidate)
        in (zn_utc z candidate1, g2))"

text \<open>
  \<open>lazy\<close> is the number that the generator seeded with the digest of account and date draws first.
\<close>

definition is_lazy_day :: "warmup_settings \<Rightarrow> (string \<Rightarrow> int \<Rightarrow> rat) \<Rightarrow> time \<Rightarrow> (string, json) dict \<Rightarrow> bool" where
  "is_lazy_day cfg lazy now seed =
     (let p = max 0 (min 1 (wc_lazy_day_probability cfg));
          account = (case dict_get seed ''account_id'' of Some (JStr a) \<Rightarrow> a | _ \<Rightarrow> ''account'')
      in if p \<le> 0 then False else lazy account (now div days 1) < p)"

definition lazy_day_already_used ::
  "warmup_settings \<Rightarrow> (string \<Rightarrow> int \<Rightarrow> rat) \<Rightarrow> time \<Rightarrow> zone \<Rightarrow> (string, json) dict \<Rightarrow> time option \<Rightarrow> bool" where
  "lazy_day_already_used cfg lazy now z seed last_at =
     (case last_at of None \<Rightarrow> False
      | Some t \<Rightarrow> is_lazy_day cfg lazy now seed \<and> local_date z now = local_date z t)"

definition next_day_first_window :: "warmup_settings \<Rightarrow> 'g rng \<Rightarrow> time \<Rightarrow> zone \<Rightarrow> 'g \<Rightarrow> time \<times> 'g" where
  "next_day_first_window cfg rg now z g =
     (let (m, g1) = rg_randint rg 0 180 g;
          candidate = now + hours 12 + minutes m
      in (if is_in_quiet_hours cfg z candidate then next_quiet_hours_end cfg z candidate else candidate, g1))"

definition schedule_within_day ::
  "warmup_settings \<Rightarrow> 'g rng \<Rightarrow> (string \<Rightarrow> int \<Rightarrow> rat) \<Rightarrow> time \<Rightarrow> zone \<Rightarrow> (string, json) dict \<Rightarrow> time option \<Rightarrow>
   'g \<Rightarrow> time \<times> 'g" where
  "schedule_within_day cfg rg lazy now z seed last_at g =
     (if wc_circadian_enabled cfg
      then if lazy_day_already_used cfg lazy now z seed last_at then next_day_first_window cfg rg now z g
           else pick_next_window cfg rg now z seed g
      else
        let span_min = max 1 (wc_micro_session_min_minutes cfg);
            span_max = max span_min (wc_micro_session_max_minutes cfg);
            (m, g1) = rg_randint rg (span_min * 6) (span_max * 12) g;
            candidate = now + minutes m
        in (if is_in_quiet_hours cfg z candidate then next_quiet_hours_end cfg z candidate else candidate, g1))"

section \<open>Cyclic warm-ups\<close>

definition MAX_CYCLE_DAYS :: int where
  "MAX_CYCLE_DAYS = 30"

definition valid_hour :: "int \<Rightarrow> int" where
  "valid_hour h = max 0 (min 23 h)"

definition clamp_days :: "int \<Rightarrow> int" where
  "clamp_days n = max 1 (min MAX_CYCLE_DAYS n)"

text \<open>A number of the configuration; its only writer, \<open>setup_cyclic_warmup\<close>, writes integers.\<close>

definition config_int :: "(string, json) dict \<Rightarrow> string \<Rightarrow> int \<Rightarrow> int" where
  "config_int d k n0 = (case dict_get d k of Some (JInt n) \<Rightarrow> n | _ \<Rightarrow> n0)"

definition cycle_start_hour :: "(string, json) dict \<Rightarrow> int" where
  "cycle_start_hour d = valid_hour (config_int d ''start_hour'' 0)"

definition cycle_end_hour :: "(string, json) dict \<Rightarrow> int" where
  "cycle_end_hour d = valid_hour (config_int d ''end_hour'' 0)"

definition cycle_days :: "(string, json) dict \<Rightarrow> int" where
  "cycle_days d = clamp_days (config_int d ''days_total'' 1)"

definition parse_started_at :: "(string, json) dict \<Rightarrow> time \<Rightarrow> time" where
  "parse_started_at d now = (case dict_get d ''started_at'' of Some (JTime t) \<Rightarrow> t | _ \<Rightarrow> now)"

definition cycle_number :: "(string, json) dict \<Rightarrow> time \<Rightarrow> zone \<Rightarrow> time \<Rightarrow> int" where
  "cycle_number d window_start z now =
     local_date z window_start - local_date z (parse_started_at d now) + 1"

definition compute_cycle_active_window :: "(string, json) dict \<Rightarrow> time \<Rightarrow> zone \<Rightarrow> (time \<times> time) option" where
  "compute_cycle_active_window d now z =
     (let s = cycle_start_hour d; e = cycle_end_hour d; today = local_date z now in
      if s = e then None
      else
        let (start, stop) =
              (if s < e then (local_datetime z today s, local_datetime z today e)
               else if s \<le> local_hour z now then (local_datetime z today s, local_datetime z (today + 1) e)
               else (local_datetime z (today - 1) s, local_datetime z today e));
            n = cycle_number d start z now
        in if \<not> (start \<le> now \<and> now < stop) then None
           else if n < 1 \<or> cycle_days d < n then None
           else Some (start, stop))"

definition is_in_active_window :: "(string, json) dict \<Rightarrow> time \<Rightarrow> zone \<Rightarrow> bool" where
  "is_in_active_window d now z = (compute_cycle_active_window d now z \<noteq> None)"

definition compute_total_active_hours :: "(string, json) dict \<Rightarrow> int" where
  "compute_total_active_hours d =
     (let s = cycle_start_hour d; e = cycle_end_hour d in
      if s = e then 0 else (if s < e then e - s else 24 - s + e) * cycle_days d)"

definition next_window_start :: "(string, json) dict \<Rightarrow> time \<Rightarrow> zone \<Rightarrow> time option" where
  "next_window_start d now z =
     find (\<lambda>c. now < c \<and> 1 \<le> cycle_number d c z now \<and> cycle_number d c z now \<le> cycle_days d)
       (map (\<lambda>offset. local_datetime z (local_date z now + offset) (cycle_start_hour d)) [0..cycle_days d])"

definition current_cycle :: "(string, json) dict \<Rightarrow> time \<Rightarrow> zone \<Rightarrow> int" where
  "current_cycle d now z = max 1 (local_date z now - local_date z (parse_started_at d now) + 1)"

record cycle_status =
  cy_in_window :: bool
  cy_completed :: bool
  cy_active_window :: "(time \<times> time) option"
  cy_next_window_start :: "time option"
  cy_current_cycle :: int
  cy_active_hours_total :: int

definition cycle_window_status ::
  "(string, json) dict option \<Rightarrow> time \<Rightarrow> zone \<Rightarrow> cycle_status option" where
  "cycle_window_status config now z =
     (case config of None \<Rightarrow> None
      | Some d \<Rightarrow>
          if d = [] then None
          else case compute_cycle_active_window d now z of
              Some (start, stop) \<Rightarrow>
                Some \<lparr>cy_in_window = (start \<le> now \<and> now < stop), cy_completed = False,
                      cy_active_window = Some (start, stop), cy_next_window_start = None,
                      cy_current_cycle = cycle_number d start z now,
                      cy_active_hours_total = compute_total_active_hours d\<rparr>
            | None \<Rightarrow>
                let next = next_window_start d now z in
                Some \<lparr>cy_in_window = False, cy_completed = (next = None), cy_active_window = None,
                      cy_next_window_start = next, cy_current_cycle = current_cycle d now z,
                      cy_active_hours_total = compute_total_active_hours d\<rparr>)"

definition schedule_next_cycle :: "warmup_session \<Rightarrow> zone \<Rightarrow> time \<Rightarrow> warmup_session" where
  "schedule_next_cycle x z now =
     (case cycle_window_status (wu_cycle_config_json x) now z of
        None \<Rightarrow> x
      | Some st \<Rightarrow>
          let d = (case wu_cycle_config_json x of None \<Rightarrow> [] | Some d \<Rightarrow> d);
              total = (let n = config_int d ''days_total'' 1 in if n = 0 then 1 else n);
              x1 = x\<lparr>wu_cycle_config_json := Some (dict_set ''current_cycle'' (JInt (min (cy_current_cycle st) total)) d)\<rparr>;
              x2 = (case cy_next_window_start st of None \<Rightarrow> x1
                    | Some t \<Rightarrow> x1\<lparr>wu_next_micro_session_at := Some t, wu_next_step_at := Some t\<rparr>)
          in x2\<lparr>wu_updated_at := now\<rparr>)"

section \<open>Zones without clock changes\<close>

definition fixed_zone :: "int \<Rightarrow> zone \<Rightarrow> bool" where
  "fixed_zone off z \<longleftrightarrow> (\<forall>t. zn_local z t = t + off) \<and> (\<forall>l. zn_utc z l = l - off)"

lemma utc_fixed: "fixed_zone 0 utc_zone"
  by (simp add: fixed_zone_def utc_zone_def)

lemma fixed_zone_reads:
  assumes "fixed_zone off z"
  shows "local_datetime z d h = days d + hours h - off" "local_date z t = (t + off) div days 1"
    "local_hour z t = (t + off) mod days 1 div hours 1"
  using assms by (simp_all add: fixed_zone_def local_datetime_def local_date_def local_hour_def wall_hour_def)

lemma valid_hour_bounds: "0 \<le> valid_hour h \<and> valid_hour h < 24"
  by (simp add: valid_hour_def)

lemma clamp_days_bounds: "1 \<le> clamp_days n \<and> clamp_days n \<le> 30"
  by (simp add: clamp_days_def MAX_CYCLE_DAYS_def)

text \<open>Dates and hours of instants, as inequalities.\<close>

lemma date_iff: "(l::int) div days 1 = d \<longleftrightarrow> days d \<le> l \<and> l < days (d + 1)"
  by (auto simp: days_def)

lemma date_of_hour: "0 \<le> h \<Longrightarrow> h < 24 \<Longrightarrow> (days d + hours h) div days 1 = d"
  by (simp add: date_iff) (simp add: days_def hours_def)

lemma le_div_hour: "h \<le> x div hours 1 \<longleftrightarrow> hours h \<le> x"
proof -
  have x: "x = x div hours 1 * 3600000000 + x mod hours 1" using div_mult_mod_eq [of x "hours 1"] by (simp add: hours_def)
  have r: "0 \<le> x mod hours 1" "x mod hours 1 < 3600000000" by (simp_all add: hours_def)
  show ?thesis
  proof
    assume "h \<le> x div hours 1"
    with x r(1) show "hours h \<le> x" unfolding hours_def [of h] by linarith
  next
    assume "hours h \<le> x"
    with x r(2) show "h \<le> x div hours 1" unfolding hours_def [of h] by linarith
  qed
qed

lemma hour_ge:
  assumes "days d \<le> l" and "l < days (d + 1)"
  shows "h \<le> l mod days 1 div hours 1 \<longleftrightarrow> days d + hours h \<le> l"
proof -
  from assms have "l div days 1 = d" by (simp add: date_iff)
  then have "l mod days 1 = l - days d" using div_mult_mod_eq [of l "days 1"] by (simp add: days_def)
  then show ?thesis unfolding le_div_hour by linarith
qed

section \<open>Cycles\<close>

text \<open>The reference: cycle \<open>k\<close> is the window that starts on the \<open>k\<close>-th local day, counted from the start of the warm-up.\<close>

definition cycle_open :: "(string, json) dict \<Rightarrow> zone \<Rightarrow> time \<Rightarrow> int \<Rightarrow> time" where
  "cycle_open d z started k = local_datetime z (local_date z started + k - 1) (cycle_start_hour d)"

definition cycle_close :: "(string, json) dict \<Rightarrow> zone \<Rightarrow> time \<Rightarrow> int \<Rightarrow> time" where
  "cycle_close d z started k =
     local_datetime z (local_date z started + k - 1 + (if cycle_start_hour d < cycle_end_hour d then 0 else 1)) (cycle_end_hour d)"

lemma cycle_number_open:
  assumes "fixed_zone off z"
  shows "cycle_number d (local_datetime z n (cycle_start_hour d)) z now = n - local_date z (parse_started_at d now) + 1"
  using valid_hour_bounds date_of_hour
  by (simp add: cycle_number_def fixed_zone_reads [OF assms] cycle_start_hour_def)

lemma active_window_day:
  assumes "fixed_zone off z" and "cycle_start_hour d \<noteq> cycle_end_hour d"
  shows "compute_cycle_active_window d now z = Some (a, b) \<longleftrightarrow>
    (\<exists>n. a = local_datetime z n (cycle_start_hour d) \<and>
       b = local_datetime z (n + (if cycle_start_hour d < cycle_end_hour d then 0 else 1)) (cycle_end_hour d) \<and>
       a \<le> now \<and> now < b \<and> 1 \<le> cycle_number d a z now \<and> cycle_number d a z now \<le> cycle_days d)"
    (is "?L \<longleftrightarrow> (\<exists>n. ?R n)")
proof -
  let ?s = "cycle_start_hour d" and ?e = "cycle_end_hour d" and ?l = "now + off"
  let ?today = "local_date z now"
  note zone = fixed_zone_reads [OF assms(1)]
  have h: "0 \<le> ?s" "?s < 24" "0 \<le> ?e" "?e < 24"
    using valid_hour_bounds by (simp_all add: cycle_start_hour_def cycle_end_hour_def)
  have today: "days ?today \<le> ?l" "?l < days (?today + 1)"
    using date_iff [of ?l ?today] by (simp_all add: zone)
  have hour: "?s \<le> local_hour z now \<longleftrightarrow> days ?today + hours ?s \<le> ?l"
    using hour_ge [OF today, of ?s] by (simp add: zone)
  define n where "n = (if ?s < ?e \<or> ?s \<le> local_hour z now then ?today else ?today - 1)"
  have code: "?L \<longleftrightarrow> ?R n"
    using assms(2) unfolding n_def compute_cycle_active_window_def Let_def by auto
  have only: "m = n" if "?R m" for m
  proof (cases "?s < ?e")
    case True
    with that have "days m + hours ?s \<le> ?l" "?l < days m + hours ?e" by (auto simp: zone)
    then have "days m \<le> ?l" "?l < days (m + 1)" using h by (auto simp: days_def hours_def)
    then have "m = ?today" using date_iff [of ?l m] by (simp add: zone)
    with True show ?thesis by (simp add: n_def)
  next
    case False
    with that have m: "days m + hours ?s \<le> ?l" "?l < days (m + 1) + hours ?e" by (auto simp: zone)
    show ?thesis
    proof (cases "?l < days (m + 1)")
      case True
      then have "m = ?today" using m(1) h(1) date_iff [of ?l m] by (simp add: zone hours_def)
      with m(1) hour show ?thesis by (simp add: n_def)
    next
      case late: False
      then have "?today = m + 1" using m(2) h(4) date_iff [of ?l "m + 1"] by (simp add: zone days_def hours_def)
      with m(2) False hour assms(2) show ?thesis by (auto simp: n_def hours_def)
    qed
  qed
  show ?thesis using code only by blast
qed

text \<open>
  C37. The daily windows of a cyclic warm-up are computed right. In a zone without clock changes, and
  with different hours, the window that the code finds for an instant is a cycle of the warm-up, one of
  as many as there are days, counted from the local day on which it was started, that contains the
  instant; and when it finds none, there is none. This holds for windows inside a day and for windows
  over midnight, where the hours after midnight still belong to the cycle of the day before.
\<close>

theorem active_window_is_a_cycle:
  assumes "fixed_zone off z" and "cycle_start_hour d \<noteq> cycle_end_hour d"
  shows "compute_cycle_active_window d now z = Some (a, b) \<longleftrightarrow>
    (\<exists>k. 1 \<le> k \<and> k \<le> cycle_days d \<and> a = cycle_open d z (parse_started_at d now) k \<and>
       b = cycle_close d z (parse_started_at d now) k \<and> a \<le> now \<and> now < b)"
proof -
  let ?D = "local_date z (parse_started_at d now)"
  have "compute_cycle_active_window d now z = Some (a, b) \<longleftrightarrow>
    (\<exists>n. a = local_datetime z n (cycle_start_hour d) \<and>
       b = local_datetime z (n + (if cycle_start_hour d < cycle_end_hour d then 0 else 1)) (cycle_end_hour d) \<and>
       a \<le> now \<and> now < b \<and> 1 \<le> n - ?D + 1 \<and> n - ?D + 1 \<le> cycle_days d)"
    unfolding active_window_day [OF assms] using cycle_number_open [OF assms(1)] by auto
  also have "\<dots> \<longleftrightarrow> (\<exists>k. 1 \<le> k \<and> k \<le> cycle_days d \<and> a = cycle_open d z (parse_started_at d now) k \<and>
       b = cycle_close d z (parse_started_at d now) k \<and> a \<le> now \<and> now < b)"
  proof
    assume "\<exists>n. a = local_datetime z n (cycle_start_hour d) \<and>
       b = local_datetime z (n + (if cycle_start_hour d < cycle_end_hour d then 0 else 1)) (cycle_end_hour d) \<and>
       a \<le> now \<and> now < b \<and> 1 \<le> n - ?D + 1 \<and> n - ?D + 1 \<le> cycle_days d"
    then obtain n where n: "a = local_datetime z n (cycle_start_hour d)"
       "b = local_datetime z (n + (if cycle_start_hour d < cycle_end_hour d then 0 else 1)) (cycle_end_hour d)"
       "a \<le> now" "now < b" "1 \<le> n - ?D + 1" "n - ?D + 1 \<le> cycle_days d" by blast
    have "a = cycle_open d z (parse_started_at d now) (n - ?D + 1)" "b = cycle_close d z (parse_started_at d now) (n - ?D + 1)"
      by (simp_all add: n(1,2) cycle_open_def cycle_close_def)
    with n(3-6) show "\<exists>k. 1 \<le> k \<and> k \<le> cycle_days d \<and> a = cycle_open d z (parse_started_at d now) k \<and>
       b = cycle_close d z (parse_started_at d now) k \<and> a \<le> now \<and> now < b" by blast
  next
    assume "\<exists>k. 1 \<le> k \<and> k \<le> cycle_days d \<and> a = cycle_open d z (parse_started_at d now) k \<and>
       b = cycle_close d z (parse_started_at d now) k \<and> a \<le> now \<and> now < b"
    then obtain k where k: "1 \<le> k" "k \<le> cycle_days d" "a = cycle_open d z (parse_started_at d now) k"
       "b = cycle_close d z (parse_started_at d now) k" "a \<le> now" "now < b" by blast
    then show "\<exists>n. a = local_datetime z n (cycle_start_hour d) \<and>
       b = local_datetime z (n + (if cycle_start_hour d < cycle_end_hour d then 0 else 1)) (cycle_end_hour d) \<and>
       a \<le> now \<and> now < b \<and> 1 \<le> n - ?D + 1 \<and> n - ?D + 1 \<le> cycle_days d"
      by (intro exI [of _ "?D + k - 1"]) (simp add: cycle_open_def cycle_close_def)
  qed
  finally show ?thesis .
qed

definition night_cycle :: "(string, json) dict" where
  "night_cycle = [(''start_hour'', JInt 22), (''end_hour'', JInt 2), (''days_total'', JInt 3), (''current_cycle'', JInt 1),
     (''started_at'', JTime (hours 12)), (''active_hours_total'', JInt 12)]"

text \<open>One in the morning of the fourth day is in the third cycle; the window began at ten in the evening.\<close>

lemma active_window_is_a_cycle_witness:
  "compute_cycle_active_window night_cycle (days 3 + hours 1) utc_zone = Some (days 2 + hours 22, days 3 + hours 2)"
  by (subst active_window_is_a_cycle [OF utc_fixed])
    (auto intro!: exI [of _ 3] simp: night_cycle_def cycle_start_hour_def cycle_end_hour_def cycle_days_def cycle_open_def
      cycle_close_def config_int_def dict_get_def valid_hour_def clamp_days_def MAX_CYCLE_DAYS_def parse_started_at_def
      local_datetime_def local_date_def utc_zone_def duration_defs)

text \<open>The next window is the first cycle after now; when there is none, all cycles have begun.\<close>

lemma next_window_spec:
  assumes "fixed_zone off z" and "parse_started_at d now \<le> now"
  shows "(case next_window_start d now z of
      Some c \<Rightarrow> now < c \<and> (\<exists>k. 1 \<le> k \<and> k \<le> cycle_days d \<and> c = cycle_open d z (parse_started_at d now) k) \<and>
        (\<forall>k. 1 \<le> k \<longrightarrow> k \<le> cycle_days d \<longrightarrow> now < cycle_open d z (parse_started_at d now) k \<longrightarrow>
           c \<le> cycle_open d z (parse_started_at d now) k)
    | None \<Rightarrow> (\<forall>k. 1 \<le> k \<longrightarrow> k \<le> cycle_days d \<longrightarrow> cycle_open d z (parse_started_at d now) k \<le> now))"
proof -
  let ?D = "local_date z (parse_started_at d now)" and ?T = "local_date z now" and ?n = "cycle_days d"
  let ?c = "\<lambda>v. local_datetime z (?T + v) (cycle_start_hour d)"
  let ?P = "\<lambda>c. now < c \<and> 1 \<le> cycle_number d c z now \<and> cycle_number d c z now \<le> ?n"
  note zone = fixed_zone_reads [OF assms(1)]
  have num: "cycle_number d (?c v) z now = ?T - ?D + v + 1" for v
    using cycle_number_open [OF assms(1)] by simp
  have opens: "?c v = cycle_open d z (parse_started_at d now) (?T - ?D + v + 1)" for v
    by (simp add: cycle_open_def algebra_simps)
  have DT: "?D \<le> ?T" using assms(2) by (simp add: zone zdiv_mono1 days_def)
  have early: "?c v \<le> now" if "v < 0" for v
  proof -
    have "days (?T + v) + hours (cycle_start_hour d) < days (?T + v + 1)"
      using valid_hour_bounds [of "config_int d ''start_hour'' 0"] by (simp add: cycle_start_hour_def days_def hours_def)
    moreover have "days (?T + v + 1) \<le> days ?T" using that by (simp add: days_def)
    moreover have "days ?T \<le> now + off" using date_iff [of "now + off" ?T] by (simp add: zone)
    ultimately show ?thesis by (simp add: zone)
  qed
  have mono: "v \<le> m \<Longrightarrow> ?c v \<le> ?c m" for v m by (simp add: zone days_def)
  have offset: "\<exists>v\<in>{0..?n}. cycle_open d z (parse_started_at d now) k = ?c v \<and> k = ?T - ?D + v + 1"
    if k: "1 \<le> k" "k \<le> ?n" "now < cycle_open d z (parse_started_at d now) k" for k
  proof -
    define m where "m = k - 1 - (?T - ?D)"
    then have eq: "k = ?T - ?D + m + 1" by simp
    have "0 \<le> m" using early [of m] k(3) opens [of m] eq by (cases "m < 0") auto
    moreover have "m \<le> ?n" using k(2) DT by (simp add: m_def)
    ultimately show ?thesis using opens eq by (metis atLeastAtMost_iff)
  qed
  show ?thesis
  proof (cases "next_window_start d now z")
    case None
    then have none: "\<not> ?P (?c v)" if "v \<in> {0..?n}" for v
      using that by (auto simp: next_window_start_def find_none_iff)
    have "cycle_open d z (parse_started_at d now) k \<le> now" if "1 \<le> k" "k \<le> ?n" for k
    proof (rule ccontr)
      assume "\<not> cycle_open d z (parse_started_at d now) k \<le> now"
      with offset [of k] that obtain v where "v \<in> {0..?n}" "cycle_open d z (parse_started_at d now) k = ?c v" "k = ?T - ?D + v + 1"
        by auto
      with none [of v] num that \<open>\<not> cycle_open d z (parse_started_at d now) k \<le> now\<close> show False by auto
    qed
    with None show ?thesis by simp
  next
    case (Some c)
    then have f: "find ?P (map ?c [0..?n]) = Some c" by (simp add: next_window_start_def)
    then obtain i where i: "i < length [0..?n]" "?P (?c ([0..?n] ! i))" "c = ?c ([0..?n] ! i)"
      and before: "\<And>j. j < i \<Longrightarrow> \<not> ?P (?c ([0..?n] ! j))"
      by (auto simp: find_Some_iff)
    have nth: "[0..?n] ! j = int j" if "j < length [0..?n]" for j using that by simp
    have c: "c = ?c (int i)" "?P (?c (int i))" using i nth [of i] by auto
    have least: "c \<le> cycle_open d z (parse_started_at d now) k"
      if k: "1 \<le> k" "k \<le> ?n" "now < cycle_open d z (parse_started_at d now) k" for k
    proof -
      from offset [OF k] obtain v where v: "v \<in> {0..?n}" "cycle_open d z (parse_started_at d now) k = ?c v"
        "k = ?T - ?D + v + 1" by blast
      have "int i \<le> v"
      proof (rule ccontr)
        assume "\<not> int i \<le> v"
        then have "nat v < i" using v(1) by auto
        moreover have "[0..?n] ! nat v = v" using v(1) nth [of "nat v"] by auto
        ultimately have "\<not> ?P (?c v)" using before [of "nat v"] by simp
        with k v num show False by auto
      qed
      with mono v(2) c(1) show ?thesis by simp
    qed
    have "\<exists>k. 1 \<le> k \<and> k \<le> ?n \<and> c = cycle_open d z (parse_started_at d now) k"
      by (rule exI [of _ "?T - ?D + int i + 1"]) (use c num [of "int i"] opens [of "int i"] in simp)
    moreover have "now < c" using c by simp
    ultimately show ?thesis using Some least by simp
  qed
qed

section \<open>The hours of the next session\<close>

lemma wall_hour_alt: "wall_hour l = l div hours 1 mod 24"
proof -
  have "l mod days 1 = hours 1 * (l div hours 1 mod 24) + l mod hours 1"
    using zmod_zmult2_eq [of 24 l "hours 1"] by (simp add: days_def hours_def)
  then show ?thesis by (simp add: wall_hour_def hours_def)
qed

lemma quiet_end_later:
  assumes "fixed_zone off z" and "0 \<le> wc_quiet_end cfg" and "wc_quiet_end cfg < 24"
  shows "t < next_quiet_hours_end cfg z t" "\<not> is_in_quiet_hours cfg z (next_quiet_hours_end cfg z t)"
proof -
  let ?e = "wc_quiet_end cfg" and ?l = "t + off"
  let ?d = "?l div days 1"
  define d where "d = (if days ?d + hours ?e \<le> ?l then ?d + 1 else ?d)"
  have l: "days ?d \<le> ?l" "?l < days (?d + 1)" using date_iff [of ?l ?d] by simp_all
  have c1: "(if days ?d + hours ?e \<le> ?l then days ?d + hours ?e + days 1 else days ?d + hours ?e) = days d + hours ?e"
    by (simp add: d_def days_def)
  have c2: "(days d + hours ?e) div days 1 = d" using date_of_hour assms(2,3) by simp
  have later: "?l < days d + hours ?e"
    using l(2) assms(2) by (auto simp: d_def hours_def)
  have q: "next_quiet_hours_end cfg z t = days d + hours ?e - off"
    using assms(1) later by (simp add: next_quiet_hours_end_def fixed_zone_def Let_def c1 c2)
  then show "t < next_quiet_hours_end cfg z t" using later by simp
  have "local_hour z (next_quiet_hours_end cfg z t) = ?e"
  proof -
    have "(days d + hours ?e) div hours 1 = 24 * d + ?e" by (simp add: days_def hours_def)
    then have "wall_hour (days d + hours ?e) = ?e" using assms(2,3) by (simp add: wall_hour_alt)
    then show ?thesis using assms(1) q by (simp add: local_hour_def fixed_zone_def)
  qed
  then show "\<not> is_in_quiet_hours cfg z (next_quiet_hours_end cfg z t)"
    by (simp add: is_in_quiet_hours_def is_hour_in_quiet_window_def)
qed

lemma slot_spec:
  assumes "(slot, w) \<in> set (candidate_slots cfg seed l)"
  shows "\<exists>k. slot = hours k" "l < slot + minutes 59" "l div hours 1 * hours 1 \<le> slot" "slot \<le> l + hours 12"
    "\<not> is_hour_in_quiet_window (wall_hour slot) (wc_quiet_start cfg) (wc_quiet_end cfg)"
proof -
  from assms obtain k where k: "k \<in> {0..12}" "slot = l div hours 1 * hours 1 + hours k" "l < slot + minutes 59"
    and q: "\<not> is_hour_in_quiet_window (wall_hour slot) (wc_quiet_start cfg) (wc_quiet_end cfg)"
    by (auto simp: candidate_slots_def Let_def split: if_splits)
  have "l div hours 1 * hours 1 \<le> l" proof -
    have "0 \<le> l mod hours 1" by (simp add: hours_def)
    then show ?thesis using div_mult_mod_eq [of l "hours 1"] by linarith
  qed
  with k show "slot \<le> l + hours 12" by (simp add: hours_def)
  show "\<exists>k. slot = hours k" by (rule exI [of _ "l div hours 1 + k"]) (simp add: k(2) hours_def algebra_simps)
  show "l div hours 1 * hours 1 \<le> slot" using k by (simp add: hours_def)
  show "l < slot + minutes 59" "\<not> is_hour_in_quiet_window (wall_hour slot) (wc_quiet_start cfg) (wc_quiet_end cfg)"
    using k q by simp_all
qed

lemma first_reaching_mem: "first_reaching t acc slots = Some s \<Longrightarrow> s \<in> fst ` set slots"
  by (induction t acc slots rule: first_reaching.induct) (auto split: if_splits)

lemma weighted_choice_mem:
  "slots \<noteq> [] \<Longrightarrow> weighted_choice rg slots g = (s, g1) \<Longrightarrow> s \<in> fst ` set slots"
  by (auto simp: weighted_choice_def Let_def case_prod_unfold dest: first_reaching_mem split: option.splits)

lemma pick_next_window_spec:
  assumes "fixed_zone off z" and "rng_ok rg" and "candidate_slots cfg seed (zn_local z now) \<noteq> []"
    and "pick_next_window cfg rg now z seed g = (t, g')"
  shows "now < t" "t < now + hours 13" "\<not> is_in_quiet_hours cfg z t"
proof -
  let ?l = "now + off"
  have l: "zn_local z now = ?l" using assms(1) by (simp add: fixed_zone_def)
  obtain s g1 where s: "weighted_choice rg (candidate_slots cfg seed ?l) g = (s, g1)" by fastforce
  from weighted_choice_mem [OF _ s] assms(3) l obtain w where "(s, w) \<in> set (candidate_slots cfg seed ?l)" by force
  note slot = slot_spec [OF this]
  from slot(1) obtain k where k: "s = hours k" by blast
  let ?min = "if s = ?l div hours 1 * hours 1 then ?l mod hours 1 div minutes 1 + 1 else 0"
  obtain m g2 where m: "rg_randint rg (min ?min 59) 59 g1 = (m, g2)" by fastforce
  have base: "?l = ?l div hours 1 * hours 1 + ?l mod hours 1" "0 \<le> ?l mod hours 1" "?l mod hours 1 < hours 1"
    by (simp_all add: hours_def)
  from rng_randint_bounds [OF assms(2) _ m] have bm: "min ?min 59 \<le> m" "m \<le> 59" by auto
  have min0: "0 \<le> min ?min 59" using base(2) by (auto simp: minutes_def pos_imp_zdiv_nonneg_iff)
  have later: "?l < s + minutes m"
  proof (cases "s = ?l div hours 1 * hours 1")
    case True
    let ?r = "?l mod hours 1"
    have r: "?r = ?r div minutes 1 * minutes 1 + ?r mod minutes 1" "?r mod minutes 1 < minutes 1" "0 \<le> ?r mod minutes 1"
      by (simp_all add: minutes_def)
    have "?r < minutes 59" using slot(2) base(1) True by linarith
    then have "?r div minutes 1 < 59" using r(1,3) by (simp add: minutes_def)
    then have "?r div minutes 1 + 1 \<le> m" using bm(1) True by simp
    then have "?r < minutes m" using r by (simp add: minutes_def)
    then show ?thesis using base(1) True by linarith
  next
    case False
    with slot(3) k have "?l div hours 1 * hours 1 < hours k" by simp
    then have "?l div hours 1 + 1 \<le> k" by (simp add: hours_def)
    then have "?l div hours 1 * hours 1 + hours 1 \<le> s" by (simp add: k hours_def)
    moreover have "0 \<le> minutes m" using bm(1) min0 by (simp add: minutes_def)
    ultimately show ?thesis using base(1,3) by linarith
  qed
  have t: "t = s + minutes m - off"
    using assms(1,3,4) s m later
    by (simp add: pick_next_window_def l Let_def fixed_zone_def split: prod.splits)
  show "now < t" using t later by simp
  have "minutes m < hours 1" using bm(2) by (simp add: minutes_def hours_def)
  then show "t < now + hours 13" using t slot(4) by (simp add: hours_def)
  have m0: "0 \<le> minutes m" using bm(1) min0 by (simp add: minutes_def)
  have "(s + minutes m) div hours 1 = k"
    using m0 \<open>minutes m < hours 1\<close> by (simp add: k hours_def)
  moreover have "s div hours 1 = k" by (simp add: k hours_def)
  ultimately have "wall_hour (s + minutes m) = wall_hour s" by (simp add: wall_hour_alt)
  then show "\<not> is_in_quiet_hours cfg z t"
    using slot(5) assms(1) t by (simp add: is_in_quiet_hours_def local_hour_def fixed_zone_def)
qed

end
