(* ===== verification/WarmupChannels.thy ===== *)
theory WarmupChannels
  imports WarmupPeers WarmupSessions
begin

text \<open>
  What a warm-up knows of the channels of an account: their health (\<open>channel_state/health.py\<close>), the rows
  (\<open>channel_state/repository.py\<close>, \<open>service.py\<close>), and the choice of actions and channels for a micro-session
  (\<open>channel_state/selector.py\<close>). A \<open>ChannelStateSnapshot\<close> is the row it is taken from.
\<close>

section \<open>Health\<close>

definition HEALTH_THRESHOLD_EXCLUDE :: rat where
  "HEALTH_THRESHOLD_EXCLUDE = 1 / 4"

definition MAX_STALE_PENALTY :: rat where
  "MAX_STALE_PENALTY = 1 / 5"

definition channel_stale_penalty :: "time option \<Rightarrow> time \<Rightarrow> rat" where
  "channel_stale_penalty last_success now =
     (case last_success of None \<Rightarrow> 0
      | Some t \<Rightarrow>
          let age = now - t in
          if age \<le> days 1 then 0
          else min MAX_STALE_PENALTY (of_int (age - days 1) / of_int (days 7 - days 1) * MAX_STALE_PENALTY))"

definition clamp_channel_health :: "rat \<Rightarrow> rat" where
  "clamp_channel_health x = min 1 (max 0 (py_round 4 x))"

definition compute_health_score :: "int \<Rightarrow> int \<Rightarrow> time option \<Rightarrow> time \<Rightarrow> rat" where
  "compute_health_score success_count fail_count last_success now =
     (let s = max 0 success_count; f = max 0 fail_count in
      if s = 0 \<and> f = 0 then 1
      else clamp_channel_health (of_int (s + 1) / of_int (s + f + 2) - channel_stale_penalty last_success now))"

definition is_channel_healthy :: "channel_state \<Rightarrow> bool" where
  "is_channel_healthy c = (HEALTH_THRESHOLD_EXCLUDE \<le> cs_health_score c)"

section \<open>Rows\<close>

record action_result =
  ar_status :: string
  ar_metadata :: "(string, json) dict"
  ar_error_class :: "string option"
  ar_error_code :: "string option"
  ar_retry_after_seconds :: "int option"

definition is_ok :: "action_result \<Rightarrow> bool" where
  "is_ok r = (ar_status r = ''ok'')"

definition state_key :: "uuid \<Rightarrow> uuid \<Rightarrow> string \<Rightarrow> channel_state \<Rightarrow> bool" where
  "state_key w a ref c = (cs_workspace_id c = w \<and> cs_account_id c = a \<and> cs_channel_ref c = ref)"

definition find_state :: "uuid \<Rightarrow> uuid \<Rightarrow> string \<Rightarrow> db \<Rightarrow> channel_state option" where
  "find_state w a ref s = find (state_key w a ref) (db_channel_states s)"

definition get_states_for_account :: "uuid \<Rightarrow> uuid \<Rightarrow> string list \<Rightarrow> db \<Rightarrow> channel_state list" where
  "get_states_for_account w a refs s =
     concat (map (\<lambda>ref. case find_state w a ref s of None \<Rightarrow> [] | Some c \<Rightarrow> [c]) (dedupe refs))"

definition new_state :: "uuid \<Rightarrow> uuid \<Rightarrow> string \<Rightarrow> time \<Rightarrow> channel_state" where
  "new_state w a ref now =
     \<lparr>cs_workspace_id = w, cs_account_id = a, cs_channel_ref = ref, cs_subscribed_at = None,
      cs_last_feed_read_at = None, cs_last_story_view_at = None, cs_last_react_at = None, cs_last_browse_at = None,
      cs_has_stories = None, cs_has_reactions = None, cs_available_reactions_json = [], cs_health_score = 1,
      cs_success_count = 0, cs_fail_count = 0, cs_created_at = now, cs_updated_at = now\<rparr>"

definition get_or_create_state :: "uuid \<Rightarrow> uuid \<Rightarrow> string \<Rightarrow> time \<Rightarrow> db \<Rightarrow> channel_state \<times> db" where
  "get_or_create_state w a ref now s =
     (case find_state w a ref s of
        Some c \<Rightarrow> (c, s)
      | None \<Rightarrow> (new_state w a ref now, s\<lparr>db_channel_states := db_channel_states s @ [new_state w a ref now]\<rparr>))"

definition save_state :: "channel_state \<Rightarrow> db \<Rightarrow> db" where
  "save_state c s =
     s\<lparr>db_channel_states := update_where (state_key (cs_workspace_id c) (cs_account_id c) (cs_channel_ref c)) (\<lambda>_. c)
         (db_channel_states s)\<rparr>"

definition upsert_subscribed :: "uuid \<Rightarrow> uuid \<Rightarrow> string \<Rightarrow> time \<Rightarrow> db \<Rightarrow> channel_state \<times> db" where
  "upsert_subscribed w a ref now s =
     (let (c, s1) = get_or_create_state w a ref now s;
          c1 = c\<lparr>cs_subscribed_at := (case cs_subscribed_at c of None \<Rightarrow> Some now | t \<Rightarrow> t), cs_updated_at := now\<rparr>
      in (c1, save_state c1 s1))"

text \<open>The column of \<open>_ACTION_TIMESTAMP_COLUMNS\<close>.\<close>

definition stamp_action :: "string \<Rightarrow> time \<Rightarrow> channel_state \<Rightarrow> channel_state" where
  "stamp_action action now c =
     (if action = ''feed_read'' then c\<lparr>cs_last_feed_read_at := Some now\<rparr>
      else if action = ''view_story'' then c\<lparr>cs_last_story_view_at := Some now\<rparr>
      else if action = ''react_to_post'' then c\<lparr>cs_last_react_at := Some now\<rparr>
      else if action \<in> {''channel_browse'', ''scroll_channels''} then c\<lparr>cs_last_browse_at := Some now\<rparr>
      else if action = ''join_chat'' then c\<lparr>cs_subscribed_at := Some now\<rparr>
      else c)"

definition bool_or_none :: "json option \<Rightarrow> bool option" where
  "bool_or_none v = (case v of Some (JBool b) \<Rightarrow> Some b | _ \<Rightarrow> None)"

text \<open>\<open>to_text\<close> is \<open>str\<close> of a value that is not a text.\<close>

definition apply_capability_metadata ::
  "(json \<Rightarrow> string) \<Rightarrow> (string, json) dict \<Rightarrow> channel_state \<Rightarrow> channel_state" where
  "apply_capability_metadata to_text md c =
     (let c1 = (if dict_get md ''has_stories'' = None then c
                else c\<lparr>cs_has_stories := bool_or_none (dict_get md ''has_stories'')\<rparr>);
          c2 = (if dict_get md ''has_reactions'' = None then c1
                else c1\<lparr>cs_has_reactions := bool_or_none (dict_get md ''has_reactions'')\<rparr>)
      in case dict_get md ''available_reactions'' of
           None \<Rightarrow> c2
         | Some v \<Rightarrow> c2\<lparr>cs_available_reactions_json :=
             (case v of JList vs \<Rightarrow>
                filter (\<lambda>t. strip t \<noteq> []) (map (\<lambda>v. case v of JStr t \<Rightarrow> t | _ \<Rightarrow> to_text v) vs)
              | _ \<Rightarrow> [])\<rparr>)"

definition last_success_at :: "channel_state \<Rightarrow> time option" where
  "last_success_at c =
     (let ts = concat (map (case_option [] (\<lambda>t. [t]))
          [cs_subscribed_at c, cs_last_feed_read_at c, cs_last_story_view_at c, cs_last_react_at c, cs_last_browse_at c])
      in if ts = [] then None else Some (Max (set ts)))"

definition crossed_blacklist_threshold :: "rat \<Rightarrow> rat \<Rightarrow> bool" where
  "crossed_blacklist_threshold previous next_health =
     (HEALTH_THRESHOLD_EXCLUDE \<le> previous \<and> next_health < HEALTH_THRESHOLD_EXCLUDE)"

definition mark_channel_success ::
  "(json \<Rightarrow> string) \<Rightarrow> uuid \<Rightarrow> uuid \<Rightarrow> string \<Rightarrow> string \<Rightarrow> (string, json) dict \<Rightarrow> time \<Rightarrow> db \<Rightarrow>
   (channel_state \<times> bool) \<times> db" where
  "mark_channel_success to_text w a ref action md now s =
     (let (c, s1) = get_or_create_state w a ref now s;
          c1 = apply_capability_metadata to_text md (stamp_action action now c);
          n = cs_success_count c1 + 1;
          c2 = c1\<lparr>cs_success_count := n, cs_health_score := compute_health_score n (cs_fail_count c1) (Some now) now,
                 cs_updated_at := now\<rparr>
      in ((c2, crossed_blacklist_threshold (cs_health_score c) (cs_health_score c2)), save_state c2 s1))"

definition mark_channel_failure ::
  "uuid \<Rightarrow> uuid \<Rightarrow> string \<Rightarrow> time \<Rightarrow> db \<Rightarrow> (channel_state \<times> bool) \<times> db" where
  "mark_channel_failure w a ref now s =
     (let (c, s1) = get_or_create_state w a ref now s;
          n = cs_fail_count c + 1;
          c1 = c\<lparr>cs_fail_count := n, cs_health_score := compute_health_score (cs_success_count c) n (last_success_at c) now,
                 cs_updated_at := now\<rparr>
      in ((c1, crossed_blacklist_threshold (cs_health_score c) (cs_health_score c1)), save_state c1 s1))"

definition update_capabilities ::
  "uuid \<Rightarrow> uuid \<Rightarrow> string \<Rightarrow> bool option \<Rightarrow> bool option \<Rightarrow> string list \<Rightarrow> time \<Rightarrow> db \<Rightarrow> channel_state \<times> db" where
  "update_capabilities w a ref stories reactions available now s =
     (let (c, s1) = get_or_create_state w a ref now s;
          c1 = c\<lparr>cs_has_stories := stories, cs_has_reactions := reactions, cs_available_reactions_json := available,
                 cs_updated_at := now\<rparr>
      in (c1, save_state c1 s1))"

text \<open>The adapter answers with what the channel has: stories, reactions, and which.\<close>

definition discover_capabilities ::
  "(uuid \<Rightarrow> string \<Rightarrow> bool option \<times> bool option \<times> string list) \<Rightarrow> uuid \<Rightarrow> uuid \<Rightarrow> string \<Rightarrow> time \<Rightarrow> db \<Rightarrow>
   (bool option \<times> bool option \<times> string list) \<times> db" where
  "discover_capabilities discover w a ref now s =
     (let (stories, reactions, available) = discover a ref
      in ((stories, reactions, available), snd (update_capabilities w a ref stories reactions available now s)))"

definition record_action_result ::
  "(json \<Rightarrow> string) \<Rightarrow> time \<Rightarrow> warmup_session \<Rightarrow> string \<Rightarrow> string \<Rightarrow> action_result \<Rightarrow> db \<Rightarrow> db" where
  "record_action_result to_text now x action ref r s =
     (let ((c, crossed), s1) =
            (if is_ok r then mark_channel_success to_text (wu_workspace_id x) (wu_account_id x) ref action (ar_metadata r) now s
             else mark_channel_failure (wu_workspace_id x) (wu_account_id x) ref now s)
      in if crossed
         then write_warmup_event now x ''channel_blacklisted''
                [(''day'', JInt (wu_current_day x)), (''channel_ref'', JStr ref), (''health_score'', JNum (cs_health_score c)),
                 (''success_count'', JInt (cs_success_count c)), (''fail_count'', JInt (cs_fail_count c))] s1
         else s1)"

section \<open>The choice of actions\<close>

definition DEFAULT_ACTION_PRIORITY :: "string list" where
  "DEFAULT_ACTION_PRIORITY =
     [''feed_read'', ''view_dialogs'', ''mark_as_read'', ''channel_browse'', ''scroll_channels'', ''search_messages'',
      ''vote_poll'', ''watch_video'', ''listen_voice'', ''search_gif'', ''view_stickers'', ''inline_bot'',
      ''link_preview'', ''view_story'', ''join_chat'', ''react_to_post'', ''p2p_send'', ''forward_message'',
      ''saved_messages'', ''sync_contacts'', ''archive_chat'', ''mute_chat'', ''simulate_typing'', ''view_profile'',
      ''check_settings'', ''emoji_status'', ''drafts'', ''scheduled_messages'', ''update_profile_gradual'',
      ''notification_settings'']"

definition CHANNEL_STALE_AFTER :: int where
  "CHANNEL_STALE_AFTER = hours 6"

text \<open>The three sets of actions that ask for any channel the account has joined.\<close>

definition SUBSCRIBED_CHANNEL_ACTIONS :: "string list" where
  "SUBSCRIBED_CHANNEL_ACTIONS =
     [''vote_poll'', ''watch_video'', ''listen_voice'', ''forward_message'', ''simulate_typing'', ''drafts'']"

record selected_action =
  sa_action_type :: string
  sa_channel_ref :: "string option"
  sa_metadata :: "(string, json) dict"

definition plain_action :: "string \<Rightarrow> selected_action" where
  "plain_action t = \<lparr>sa_action_type = t, sa_channel_ref = None, sa_metadata = []\<rparr>"

definition is_stale :: "time option \<Rightarrow> time \<Rightarrow> bool" where
  "is_stale v now = (case v of None \<Rightarrow> True | Some t \<Rightarrow> CHANNEL_STALE_AFTER \<le> now - t)"

text \<open>\<open>number\<close> is \<open>float\<close> of a text.\<close>

definition action_preference :: "(string \<Rightarrow> rat option) \<Rightarrow> string \<Rightarrow> (string, json) dict \<Rightarrow> rat" where
  "action_preference number t seed =
     (case dict_get seed ''action_preferences'' of
        Some (JObj d) \<Rightarrow>
          (let v = (case dict_get d t of
                 None \<Rightarrow> Some 1
               | Some (JInt n) \<Rightarrow> Some (of_int n) | Some (JNum x) \<Rightarrow> Some x
               | Some (JBool b) \<Rightarrow> Some (if b then 1 else 0)
               | Some (JStr u) \<Rightarrow> number u
               | Some _ \<Rightarrow> None)
           in case v of None \<Rightarrow> 1 | Some x \<Rightarrow> max (1 / 10) (min 3 x))
      | _ \<Rightarrow> 1)"

definition priority_index :: "string \<Rightarrow> nat" where
  "priority_index t = length (takeWhile (\<lambda>u. u \<noteq> t) DEFAULT_ACTION_PRIORITY)"

definition plan_get :: "(string, int) dict \<Rightarrow> string \<Rightarrow> int" where
  "plan_get d t = (case dict_get d t of None \<Rightarrow> 0 | Some n \<Rightarrow> n)"

definition pending_action_types ::
  "(string \<Rightarrow> rat option) \<Rightarrow> (string, int) dict \<Rightarrow> (string, int) dict \<Rightarrow> (string, json) dict \<Rightarrow> string list" where
  "pending_action_types number plan counters seed =
     filter (\<lambda>t. 0 < plan_get plan t - plan_get counters t)
       (sort_key (\<lambda>t. (- action_preference number t seed, priority_index t, t)) (map fst plan))"

definition pick_ref :: "'g rng \<Rightarrow> string list \<Rightarrow> 'g \<Rightarrow> string option \<times> 'g" where
  "pick_ref rg refs g = (let (r, g1) = rng_pick rg refs g in (Some r, g1))"

definition with_reason :: "string \<Rightarrow> 'g rng \<Rightarrow> string list \<Rightarrow> string \<Rightarrow> 'g \<Rightarrow> selected_action option \<times> 'g" where
  "with_reason t rg refs reason g =
     (let (r, g1) = pick_ref rg refs g
      in (Some \<lparr>sa_action_type = t, sa_channel_ref = r, sa_metadata = [(''reason'', JStr reason)]\<rparr>, g1))"

text \<open>\<open>states\<close> are the healthy rows, the last one of each channel; \<open>excluded\<close> the channels with an unhealthy row.\<close>

definition select_action ::
  "'g rng \<Rightarrow> string \<Rightarrow> channel_state list \<Rightarrow> string list \<Rightarrow> string list \<Rightarrow> time \<Rightarrow> 'g \<Rightarrow> selected_action option \<times> 'g" where
  "select_action rg t states excluded targets now g =
     (let subscribed = filter (\<lambda>c. cs_subscribed_at c \<noteq> None) states;
          refs = map cs_channel_ref;
          none_or = (\<lambda>b. (if b then Some (plain_action t) else None, g))
      in if t = ''join_chat''
         then let cands = filter (\<lambda>r. r \<notin> set excluded \<and> r \<notin> set (refs subscribed)) targets
              in if cands = [] then none_or (targets = []) else with_reason t rg cands ''not_subscribed'' g
         else if t = ''channel_browse''
         then let cands = refs (filter (\<lambda>c. is_stale (cs_last_browse_at c) now) subscribed)
              in if cands = [] then none_or (targets = [] \<and> states = [])
                 else with_reason t rg cands ''never_browsed_or_stale'' g
         else if t = ''scroll_channels''
         then let cands = refs (filter (\<lambda>c. is_stale (cs_last_browse_at c) now) subscribed)
              in if cands = [] then none_or (targets \<noteq> [])
                 else with_reason t rg cands ''subscribed_channel_stale'' g
         else if t \<in> set SUBSCRIBED_CHANNEL_ACTIONS
         then if subscribed = [] then (Some (plain_action t), g)
              else with_reason t rg (refs subscribed) ''subscribed_channel'' g
         else if t = ''view_story''
         then let cands = refs (filter (\<lambda>c. cs_has_stories c = Some True \<and> is_stale (cs_last_story_view_at c) now) subscribed)
              in if cands \<noteq> [] then with_reason t rg cands ''story_available'' g
                 else if subscribed \<noteq> []
                 then let (r, g1) = pick_ref rg (refs subscribed) g
                      in (Some \<lparr>sa_action_type = t, sa_channel_ref = r, sa_metadata = []\<rparr>, g1)
                 else none_or (targets \<noteq> [])
         else if t = ''react_to_post''
         then let cands = refs (filter (\<lambda>c. cs_has_reactions c = Some True \<and> cs_available_reactions_json c \<noteq> [] \<and>
                      is_stale (cs_last_react_at c) now) subscribed)
              in if cands \<noteq> [] then with_reason t rg cands ''reaction_available'' g
                 else if subscribed \<noteq> []
                 then let (r, g1) = pick_ref rg (refs subscribed) g
                      in (Some \<lparr>sa_action_type = t, sa_channel_ref = r, sa_metadata = []\<rparr>, g1)
                 else none_or (targets \<noteq> [])
         else if t = ''p2p_send''
         then (Some \<lparr>sa_action_type = t, sa_channel_ref = None, sa_metadata = [(''reason'', JStr ''peer_selected_in_context'')]\<rparr>, g)
         else (Some (plain_action t), g))"

fun choose_from ::
  "'g rng \<Rightarrow> channel_state list \<Rightarrow> string list \<Rightarrow> string list \<Rightarrow> time \<Rightarrow> nat \<Rightarrow> string list \<Rightarrow> 'g \<Rightarrow> selected_action list \<times> 'g" where
  "choose_from rg states excluded targets now left [] g = ([], g)"
| "choose_from rg states excluded targets now left (t # ts) g =
     (if left = 0 then ([], g)
      else
        let (x, g1) = rg_random rg g in
        if 85 / 100 \<le> x then choose_from rg states excluded targets now left ts g1
        else case select_action rg t states excluded targets now g1 of
            (None, g2) \<Rightarrow> choose_from rg states excluded targets now left ts g2
          | (Some a, g2) \<Rightarrow>
              let (as, g3) = choose_from rg states excluded targets now (left - 1) ts g2 in (a # as, g3))"

text \<open>The states come from \<open>get_states_for_account\<close>, one for each channel.\<close>

definition choose_actions ::
  "(string \<Rightarrow> rat option) \<Rightarrow> 'g rng \<Rightarrow> (string, int) dict \<Rightarrow> (string, int) dict \<Rightarrow> channel_state list \<Rightarrow> string list \<Rightarrow>
   time \<Rightarrow> nat \<Rightarrow> (string, json) dict \<Rightarrow> 'g \<Rightarrow> selected_action list \<times> 'g" where
  "choose_actions number rg plan counters states targets now max_actions seed g =
     choose_from rg (filter is_channel_healthy states)
       (map cs_channel_ref (filter (\<lambda>c. \<not> is_channel_healthy c) states)) targets now max_actions
       (pending_action_types number plan counters seed) g"

end
