(* ===== verification/WarmupPlan.thy ===== *)
theory WarmupPlan
  imports WarmupClock WarmupChannels PreProduction
begin

text \<open>
  The plan of a warm-up day: the counts a strategy asks for, the adjustment to the last three days
  (\<open>adaptive_plan.py\<close>), the counters of the day (\<open>dispatch_schedule.py\<close>), the shared pool of
  channels for sessions whose strategy names none (\<open>bootstrap_pool/repository.py\<close>, \<open>service.py\<close>), and the
  presets of actions (\<open>action_presets.py\<close>).
\<close>

section \<open>Numbers in JSON\<close>

text \<open>\<open>int(value)\<close>, \<open>None\<close> when it raises.\<close>

definition py_int :: "json \<Rightarrow> int option" where
  "py_int v =
     (case v of JInt n \<Rightarrow> Some n | JBool b \<Rightarrow> Some (if b then 1 else 0)
      | JNum x \<Rightarrow> Some (if 0 \<le> x then \<lfloor>x\<rfloor> else \<lceil>x\<rceil>) | JStr t \<Rightarrow> int_of_text t | _ \<Rightarrow> None)"

definition coerce_int :: "json \<Rightarrow> int" where
  "coerce_int v = (case py_int v of None \<Rightarrow> 0 | Some n \<Rightarrow> n)"

section \<open>Adjustment\<close>

definition MIN_ADAPTIVE_MULTIPLIER :: rat where "MIN_ADAPTIVE_MULTIPLIER = 1 / 4"
definition MAX_ADAPTIVE_MULTIPLIER :: rat where "MAX_ADAPTIVE_MULTIPLIER = 2"
definition ADAPTIVE_ACCELERATE_MULTIPLIER :: rat where "ADAPTIVE_ACCELERATE_MULTIPLIER = 12 / 10"
definition ADAPTIVE_SLOWDOWN_MULTIPLIER :: rat where "ADAPTIVE_SLOWDOWN_MULTIPLIER = 1 / 2"
definition ADAPTIVE_LOOKBACK_DAYS :: int where "ADAPTIVE_LOOKBACK_DAYS = 3"

definition clamp_multiplier :: "rat \<Rightarrow> rat" where
  "clamp_multiplier x = min MAX_ADAPTIVE_MULTIPLIER (max MIN_ADAPTIVE_MULTIPLIER x)"

record plan_adjustment =
  pj_multipliers :: "(string, rat) dict"
  pj_multiplier :: rat
  pj_reason :: "string option"

definition adjustment_is_active :: "plan_adjustment \<Rightarrow> bool" where
  "adjustment_is_active p = (pj_reason p \<noteq> None \<and> pj_multiplier p \<noteq> 1)"

definition adjustment_event_type :: "plan_adjustment \<Rightarrow> string option" where
  "adjustment_event_type p =
     (if pj_reason p = Some ''3_clean_days'' then Some ''plan_adjusted_up''
      else if pj_reason p \<in> {Some ''recent_failures'', Some ''flood_wait''} then Some ''plan_adjusted_down''
      else None)"

definition session_strategy :: "warmup_session \<Rightarrow> db \<Rightarrow> warmup_strategy option" where
  "session_strategy x s = get_strategy (wu_strategy_id x) s"

definition strategy_limits :: "warmup_session \<Rightarrow> db \<Rightarrow> (string, json) dict" where
  "strategy_limits x s = (case session_strategy x s of None \<Rightarrow> [] | Some t \<Rightarrow> wst_daily_action_limits_json t)"

definition is_adaptive_enabled :: "warmup_session \<Rightarrow> db \<Rightarrow> bool" where
  "is_adaptive_enabled x s =
     (let d = (case session_strategy x s of None \<Rightarrow> [] | Some t \<Rightarrow> wst_session_window_config_json t) in
      dict_get d ''adaptive_enabled'' = Some (JBool True) \<or>
      (case dict_get d ''adaptive'' of Some (JObj e) \<Rightarrow> dict_get e ''enabled'' = Some (JBool True) | _ \<Rightarrow> False))"

definition strategy_action_types :: "warmup_session \<Rightarrow> db \<Rightarrow> string list" where
  "strategy_action_types x s =
     dedupe (concat (map (\<lambda>(_, v). case v of
         JObj d \<Rightarrow> map fst (filter (\<lambda>(_, n). 0 < coerce_int n) d) | _ \<Rightarrow> []) (strategy_limits x s)))"

fun day_snapshots :: "(string, json) dict \<Rightarrow> int list \<Rightarrow> (string, json) dict list option" where
  "day_snapshots counters [] = Some []"
| "day_snapshots counters (d # ds) =
     (case dict_get counters (int_text d) of
        Some (JObj e) \<Rightarrow> map_option (\<lambda>es. e # es) (day_snapshots counters ds)
      | _ \<Rightarrow> None)"

definition recent_day_counters :: "warmup_session \<Rightarrow> (string, json) dict list" where
  "recent_day_counters x =
     (let start = wu_current_day x - ADAPTIVE_LOOKBACK_DAYS in
      if start < 0 then []
      else case day_snapshots (wu_daily_counters_json x) [start..wu_current_day x - 1] of None \<Rightarrow> [] | Some es \<Rightarrow> es)"

definition counter_value :: "(string, json) dict \<Rightarrow> string \<Rightarrow> int" where
  "counter_value d k = max 0 (case dict_get d k of None \<Rightarrow> 0 | Some v \<Rightarrow> coerce_int v)"

definition make_adjustment :: "string list \<Rightarrow> rat \<Rightarrow> string option \<Rightarrow> plan_adjustment" where
  "make_adjustment types m reason =
     (let c = clamp_multiplier m in \<lparr>pj_multipliers = map (\<lambda>t. (t, c)) types, pj_multiplier = c, pj_reason = reason\<rparr>)"

definition describe_next_day_adjustment :: "warmup_session \<Rightarrow> db \<Rightarrow> plan_adjustment" where
  "describe_next_day_adjustment x s =
     (let types = strategy_action_types x s in
      if \<not> is_adaptive_enabled x s \<or> types = [] then \<lparr>pj_multipliers = [], pj_multiplier = 1, pj_reason = None\<rparr>
      else
        let snapshots = recent_day_counters x in
        if int (length snapshots) < ADAPTIVE_LOOKBACK_DAYS then make_adjustment types 1 None
        else
          let failures = sum_list (map (\<lambda>d. counter_value d ''failures'') snapshots);
              flood_waits = sum_list (map (\<lambda>d. counter_value d ''flood_waits'') snapshots)
          in if 0 < flood_waits then make_adjustment types ADAPTIVE_SLOWDOWN_MULTIPLIER (Some ''flood_wait'')
             else if 0 < failures then make_adjustment types ADAPTIVE_SLOWDOWN_MULTIPLIER (Some ''recent_failures'')
             else make_adjustment types ADAPTIVE_ACCELERATE_MULTIPLIER (Some ''3_clean_days''))"

definition apply_plan_adjustment :: "(string, int) dict \<Rightarrow> (string, rat) dict \<Rightarrow> (string, int) dict" where
  "apply_plan_adjustment plan adjustment =
     map (\<lambda>(t, limit).
       (t, let m = clamp_multiplier (case dict_get adjustment t of None \<Rightarrow> 1 | Some x \<Rightarrow> x)
           in if limit \<le> 0 then 0 else max 1 \<lceil>of_int limit * m\<rceil>)) plan"

section \<open>The plan and the counters of a day\<close>

text \<open>The entries of a JSON object that are numbers, not below zero.\<close>

definition int_entries :: "(string, json) dict \<Rightarrow> (string, int) dict" where
  "int_entries d = concat (map (\<lambda>(k, v). case py_int v of None \<Rightarrow> [] | Some n \<Rightarrow> [(k, max 0 n)]) d)"

definition raw_day_plan :: "warmup_session \<Rightarrow> db \<Rightarrow> json option" where
  "raw_day_plan x s =
     (let limits = strategy_limits x s in
      case dict_get limits (int_text (wu_current_day x + 1)) of
        Some v \<Rightarrow> if json_truthy v then Some v else dict_get limits (int_text (wu_current_day x))
      | None \<Rightarrow> dict_get limits (int_text (wu_current_day x)))"

definition resolve_day_plan :: "warmup_session \<Rightarrow> db \<Rightarrow> (string, int) dict" where
  "resolve_day_plan x s =
     (case raw_day_plan x s of
        Some (JObj d) \<Rightarrow> apply_plan_adjustment (int_entries d) (pj_multipliers (describe_next_day_adjustment x s))
      | _ \<Rightarrow> [])"

definition resolve_day_counters :: "warmup_session \<Rightarrow> (string, int) dict" where
  "resolve_day_counters x =
     (case dict_get (wu_daily_counters_json x) (int_text (wu_current_day x)) of Some (JObj d) \<Rightarrow> int_entries d | _ \<Rightarrow> [])"

definition persist_day_counters :: "(string, json) dict \<Rightarrow> int \<Rightarrow> (string, int) dict \<Rightarrow> (string, json) dict" where
  "persist_day_counters counters day d = dict_set (int_text day) (JObj (map (\<lambda>(k, n). (k, JInt n)) d)) counters"

definition is_day_complete :: "(string, int) dict \<Rightarrow> (string, int) dict \<Rightarrow> bool" where
  "is_day_complete plan counters = list_all (\<lambda>(t, total). total \<le> plan_get counters t) plan"

definition MAX_ACTIONS_PER_MICRO_SESSION :: nat where
  "MAX_ACTIONS_PER_MICRO_SESSION = 3"

section \<open>The pool of channels\<close>

definition BOOTSTRAP_CATEGORIES :: "string list" where
  "BOOTSTRAP_CATEGORIES = [''news'', ''tech'', ''lifestyle'', ''sports'', ''entertainment'', ''business'']"

definition list_channels :: "string option \<Rightarrow> string option \<Rightarrow> bool \<Rightarrow> db \<Rightarrow> bootstrap_channel list" where
  "list_channels category language active_only s =
     filter (\<lambda>c. (truthy category \<longrightarrow> Some (bc_category c) = category) \<and>
                 (truthy language \<longrightarrow> Some (bc_language c) = language) \<and> (active_only \<longrightarrow> bc_is_active c))
       (sort_key bc_channel_ref (db_bootstrap_channels s))"

definition normalize_channel_ref :: "string \<Rightarrow> string result" where
  "normalize_channel_ref v =
     (let ref = strip v in
      if \<not> starts_with ''@'' ref \<or> length ref < 2 then Inl (ValueError ''channel_ref must be a public @username'')
      else if CHR ''/'' \<in> set ref \<or> CHR '' '' \<in> set ref
      then Inl (ValueError ''channel_ref must not contain spaces or invite links'') else Inr ref)"

definition normalize_category :: "string \<Rightarrow> string result" where
  "normalize_category v =
     (let c = lower (strip v) in
      if c \<in> set BOOTSTRAP_CATEGORIES then Inr c else Inl (ValueError ''unsupported bootstrap channel category''))"

definition normalize_language :: "string \<Rightarrow> string result" where
  "normalize_language v = (let l = lower (strip v) in if l = [] then Inl (ValueError ''language is required'') else Inr l)"

definition normalize_country :: "string option \<Rightarrow> string option" where
  "normalize_country v =
     (case v of None \<Rightarrow> None | Some t \<Rightarrow> let c = upper (strip t) in if c = [] then None else Some c)"

definition candidate_refs :: "string option \<Rightarrow> string option \<Rightarrow> string list \<Rightarrow> db \<Rightarrow> string list result" where
  "candidate_refs language country exclude s =
     result_bind (normalize_language (str_or language ''en'')) (\<lambda>l.
       let c = normalize_country country;
           rows = filter (\<lambda>r. bc_channel_ref r \<notin> set exclude) (list_channels None None True s);
           tiers = [filter (\<lambda>r. bc_language r = l \<and> (c = None \<or> bc_country r = c)) rows,
                    filter (\<lambda>r. bc_language r = l) rows, filter (\<lambda>r. bc_language r = ''en'') rows, rows]
       in Inr (case filter (\<lambda>t. t \<noteq> []) tiers of [] \<Rightarrow> [] | t # _ \<Rightarrow> dedupe (map bc_channel_ref t)))"

text \<open>A shuffle draws the order of all elements.\<close>

definition get_random_channels ::
  "'g rng \<Rightarrow> string option \<Rightarrow> string option \<Rightarrow> nat \<Rightarrow> string list \<Rightarrow> 'g \<Rightarrow> db \<Rightarrow> string list result \<times> 'g" where
  "get_random_channels rg language country n exclude g s =
     (case candidate_refs language country exclude s of
        Inl e \<Rightarrow> (Inl e, g)
      | Inr refs \<Rightarrow>
          if refs = [] then (Inr [], g)
          else let (rs, g1) = rng_sample rg refs (if length refs \<le> n then length refs else n) g in (Inr rs, g1))"

definition target_channel_refs :: "warmup_session \<Rightarrow> db \<Rightarrow> string list" where
  "target_channel_refs x s =
     dedupe (concat (map (\<lambda>d.
         case first_truthy [dict_get d ''username'', dict_get d ''chat_username'', dict_get d ''target''] of
           Some (JStr t) \<Rightarrow> if strip t = [] then [] else [strip t] | _ \<Rightarrow> [])
       (case session_strategy x s of None \<Rightarrow> [] | Some t \<Rightarrow> wst_target_channels_json t)))"

definition snapshot_text :: "warmup_session \<Rightarrow> string \<Rightarrow> string option" where
  "snapshot_text x k =
     (case dict_get (snapshot_of x) k of Some (JStr t) \<Rightarrow> if strip t = [] then None else Some t | _ \<Rightarrow> None)"

definition resolve_available_targets :: "'g rng \<Rightarrow> warmup_session \<Rightarrow> 'g \<Rightarrow> db \<Rightarrow> string list result \<times> 'g" where
  "resolve_available_targets rg x g s =
     (let refs = target_channel_refs x s in
      if refs \<noteq> [] then (Inr refs, g)
      else get_random_channels rg (Some (str_or (snapshot_text x ''bootstrap_language'') ''en''))
             (snapshot_text x ''bootstrap_country'') 8 [] g s)"

definition upsert_channel ::
  "time \<Rightarrow> string \<Rightarrow> string \<Rightarrow> string \<Rightarrow> string option \<Rightarrow> time option \<Rightarrow> uuid option \<Rightarrow> bool \<Rightarrow> db \<Rightarrow>
   ((bootstrap_channel \<times> bool) \<times> db) result" where
  "upsert_channel now ref category language country verified added_by active s =
     result_bind (normalize_channel_ref ref) (\<lambda>r.
     result_bind (normalize_category category) (\<lambda>cat.
     result_bind (normalize_language language) (\<lambda>lang.
       case find (\<lambda>c. bc_channel_ref c = r) (db_bootstrap_channels s) of
         None \<Rightarrow>
           let (i, s1) = new_id s;
               c = \<lparr>bc_id = i, bc_channel_ref = r, bc_category = cat, bc_language = lang,
                    bc_country = normalize_country country,
                    bc_verified_safe_at = (case verified of None \<Rightarrow> Some now | t \<Rightarrow> t), bc_added_by = added_by,
                    bc_is_active = active, bc_updated_at = now\<rparr>
           in Inr ((c, True), s1\<lparr>db_bootstrap_channels := db_bootstrap_channels s1 @ [c]\<rparr>)
       | Some e \<Rightarrow>
           let c = e\<lparr>bc_category := cat, bc_language := lang, bc_country := normalize_country country,
                     bc_verified_safe_at := (case verified of None \<Rightarrow> bc_verified_safe_at e | t \<Rightarrow> t),
                     bc_added_by := (case added_by of None \<Rightarrow> bc_added_by e | u \<Rightarrow> u),
                     bc_is_active := active, bc_updated_at := now\<rparr>
           in Inr ((c, False), s\<lparr>db_bootstrap_channels :=
                update_where (\<lambda>d. bc_id d = bc_id e) (\<lambda>_. c) (db_bootstrap_channels s)\<rparr>))))"

text \<open>A field that is not given is kept.\<close>

definition patch_channel ::
  "time \<Rightarrow> uuid \<Rightarrow> string option \<Rightarrow> string option \<Rightarrow> string option \<Rightarrow> bool option \<Rightarrow> db \<Rightarrow>
   (bootstrap_channel option \<times> db) result" where
  "patch_channel now i category language country active s =
     (case find (\<lambda>c. bc_id c = i) (db_bootstrap_channels s) of
        None \<Rightarrow> Inr (None, s)
      | Some e \<Rightarrow>
          result_bind (case category of None \<Rightarrow> Inr (bc_category e) | Some v \<Rightarrow> normalize_category v) (\<lambda>cat.
          result_bind (case language of None \<Rightarrow> Inr (bc_language e) | Some v \<Rightarrow> normalize_language v) (\<lambda>lang.
            let c = e\<lparr>bc_category := cat, bc_language := lang,
                      bc_country := (if country = None then bc_country e else normalize_country country),
                      bc_is_active := (case active of None \<Rightarrow> bc_is_active e | Some b \<Rightarrow> b), bc_updated_at := now\<rparr>
            in Inr (Some c, s\<lparr>db_bootstrap_channels :=
                 update_where (\<lambda>d. bc_id d = i) (\<lambda>_. c) (db_bootstrap_channels s)\<rparr>))))"

definition is_locally_safe :: "bootstrap_channel \<Rightarrow> bool" where
  "is_locally_safe c \<longleftrightarrow>
     \<not> is_error (normalize_channel_ref (bc_channel_ref c)) \<and> \<not> is_error (normalize_category (bc_category c)) \<and>
     \<not> is_error (normalize_language (bc_language c))"

definition run_bootstrap_channel_health_check :: "time \<Rightarrow> db \<Rightarrow> nat \<times> db" where
  "run_bootstrap_channel_health_check now s =
     (length (list_channels None None True s),
      s\<lparr>db_bootstrap_channels :=
          update_where (\<lambda>c. bc_is_active c \<and> \<not> is_locally_safe c) (\<lambda>c. c\<lparr>bc_is_active := False, bc_updated_at := now\<rparr>)
            (db_bootstrap_channels s)\<rparr>)"

section \<open>Presets of actions\<close>

datatype action_preset = PresetEconomic | PresetAll | PresetMinimal

definition ALL_ACTIONS :: "string list" where
  "ALL_ACTIONS = dedupe SUPPORTED_ADVANCED_ACTIONS"

definition ECONOMIC_ACTIONS :: "string list" where
  "ECONOMIC_ACTIONS =
     [''feed_read'', ''view_dialogs'', ''mark_as_read'', ''search_messages'', ''saved_messages'', ''check_settings'']"

definition MINIMAL_ACTIONS :: "string list" where
  "MINIMAL_ACTIONS = [''feed_read'', ''view_dialogs'']"

fun PRESET_ACTIONS :: "action_preset \<Rightarrow> string list" where
  "PRESET_ACTIONS PresetEconomic = ECONOMIC_ACTIONS"
| "PRESET_ACTIONS PresetAll = ALL_ACTIONS"
| "PRESET_ACTIONS PresetMinimal = MINIMAL_ACTIONS"

text \<open>Keys of a day sort by number, others last, then by text.\<close>

definition day_keys :: "(string, json) dict \<Rightarrow> int \<Rightarrow> string list" where
  "day_keys source duration =
     (if source \<noteq> []
      then sort_key (\<lambda>k. (case int_of_text k of None \<Rightarrow> 10000 | Some n \<Rightarrow> n, k)) (map fst source)
      else map int_text [1..max 1 duration])"

definition next_limit :: "json option \<Rightarrow> string \<Rightarrow> string list \<Rightarrow> int" where
  "next_limit v t enabled =
     (if t \<notin> set enabled then 0
      else let n = (case v of None \<Rightarrow> 0 | Some j \<Rightarrow> coerce_int j) in if 0 < n then n else 1)"

definition apply_action_preset :: "(string, json) dict \<Rightarrow> action_preset \<Rightarrow> int \<Rightarrow> (string, json) dict" where
  "apply_action_preset source preset duration =
     map (\<lambda>k. (k, JObj (map (\<lambda>t.
         (t, JInt (next_limit (case dict_get source k of Some (JObj d) \<Rightarrow> dict_get d t | _ \<Rightarrow> None) t (PRESET_ACTIONS preset))))
       ALL_ACTIONS))) (day_keys source duration)"

end
