(* ===== verification/WarmupActions.thy ===== *)
theory WarmupActions
  imports WarmupPlan WarmupWorker
begin

text \<open>
  One action of a micro-session: what it is given (\<open>dispatch_context.py\<close>), whether and how it is
  executed (\<open>dispatch_actions.py\<close>), and what is recorded of it (\<open>dispatch_results.py\<close>).

  The Telegram adapter and the text provider are arguments, as they are of the code
  (\<open>WarmupTdlibAdapter\<close>, \<open>WarmupTextProvider\<close>); so are the random generators, the time zones and the
  SHA-256 digest. What the gate and the adapter keep outside the database is the state \<open>'x\<close>; the state
  of the generator is threaded beside it.
\<close>

section \<open>Effects\<close>

text \<open>A step may raise, draws from the generator, and changes the outside state and the database.\<close>

type_synonym ('g, 'x) world = "'g \<times> 'x"
type_synonym ('w, 'a) eff = "'w \<Rightarrow> db \<Rightarrow> ('a \<times> db) result \<times> 'w"

definition eff_return :: "'a \<Rightarrow> ('w, 'a) eff" where
  "eff_return a w s = (Inr (a, s), w)"

definition eff_bind :: "('w, 'a) eff \<Rightarrow> ('a \<Rightarrow> ('w, 'b) eff) \<Rightarrow> ('w, 'b) eff" where
  "eff_bind m f w s = (case m w s of (Inl e, w1) \<Rightarrow> (Inl e, w1) | (Inr (a, s1), w1) \<Rightarrow> f a w1 s1)"

definition eff_db :: "(db \<Rightarrow> db) \<Rightarrow> ('w, unit) eff" where
  "eff_db f w s = (Inr ((), f s), w)"

definition eff_draw :: "('g \<Rightarrow> 'a \<times> 'g) \<Rightarrow> ('g \<times> 'x, 'a) eff" where
  "eff_draw f w s = (let (a, g) = f (fst w) in (Inr (a, s), (g, snd w)))"

section \<open>Interfaces\<close>

text \<open>An adapter answers with a result, or raises an exception of a class with a message.\<close>

record 'x warmup_adapter =
  ad_provider_name :: string
  ad_is_available :: "'x \<Rightarrow> bool"
  ad_supports_action :: "string \<Rightarrow> 'x \<Rightarrow> bool"
  ad_execute_action :: "uuid \<Rightarrow> string \<Rightarrow> (string, json) dict \<Rightarrow> 'x \<Rightarrow> ((string \<times> string) + action_result) \<times> 'x"
  ad_close :: "'x \<Rightarrow> 'x"

text \<open>A text provider is deterministic in its seed; it gives a text and the name of the provider.\<close>

record warmup_text_provider =
  tx_provider_name :: string
  tx_is_available :: bool
  tx_compose_p2p_message :: "string \<Rightarrow> string \<times> string"

text \<open>
  \<open>de_sha\<close> is the hexadecimal digest of a text, \<open>de_friend_seed\<close> the state of the generator that a
  workspace and an account seed, \<open>de_uuid_order\<close> the order of the random identifiers, \<open>de_clock\<close> the clock read when a failure is recorded.
\<close>

record ('g, 'x) dispatch_env =
  de_pre :: "'x pre_env"
  de_rng :: "'g rng"
  de_zones :: "string \<Rightarrow> zone option"
  de_lazy :: "string \<Rightarrow> int \<Rightarrow> rat"
  de_number :: "string \<Rightarrow> rat option"
  de_friend_seed :: "uuid \<Rightarrow> uuid \<Rightarrow> 'g"
  de_uuid_order :: "uuid \<Rightarrow> nat"
  de_sha :: "string \<Rightarrow> string"
  de_clock :: time
  de_adapter :: "'x warmup_adapter"
  de_text :: warmup_text_provider

abbreviation de_settings :: "('g, 'x) dispatch_env \<Rightarrow> warmup_settings" where
  "de_settings en \<equiv> pv_settings (de_pre en)"

section \<open>Targets and derived values\<close>

definition SEARCH_MESSAGE_QUERIES :: "string list" where
  "SEARCH_MESSAGE_QUERIES = ['''', ''news'', ''today'', ''update'', ''photo'', ''video'', ''link'']"

definition ENTERTAINMENT_QUERIES :: "string list" where
  "ENTERTAINMENT_QUERIES = [''cat'', ''dog'', ''party'', ''work'', ''food'', ''travel'', ''music'']"

definition ENTERTAINMENT_URLS :: "string list" where
  "ENTERTAINMENT_URLS =
     [''https://en.wikipedia.org/wiki/Telegram_(software)'', ''https://en.wikipedia.org/wiki/Internet'',
      ''https://example.com/'']"

definition APPROVED_INLINE_BOTS :: "string list" where
  "APPROVED_INLINE_BOTS = [''@gif'', ''@pic'', ''@sticker'', ''@vid'']"

definition SAVED_MESSAGE_NOTES :: "string list" where
  "SAVED_MESSAGE_NOTES = [''todo'', ''remember'', ''read later'', ''check link'', ''idea'']"

definition SETTINGS_OPTIONS :: "string list" where
  "SETTINGS_OPTIONS = [''notification_group_count_max'', ''archive_and_mute_new_chats_from_unknown_users'']"

definition PROFILE_BIOS :: "string list" where
  "PROFILE_BIOS = [''reading'', ''back soon'', ''notes'', ''quiet mode'']"

definition NOTIFICATION_SCOPES :: "string list" where
  "NOTIFICATION_SCOPES = [''private'', ''group'', ''channel'']"

definition ACTIVITY_CONTENT_SKIP_REASONS :: "(string, string) dict" where
  "ACTIVITY_CONTENT_SKIP_REASONS =
     [(''vote_poll'', ''no_open_poll_found''), (''watch_video'', ''no_video_found''),
      (''listen_voice'', ''no_voice_found'')]"

text \<open>\<open>xs[rng.randint(0, len(xs) - 1)]\<close> of a list that is not empty.\<close>

definition draw_one :: "('g, 'x) dispatch_env \<Rightarrow> 'a list \<Rightarrow> ('g \<times> 'x, 'a) eff" where
  "draw_one en xs = eff_draw (\<lambda>g. let (i, g1) = rg_randint (de_rng en) 0 (int (length xs) - 1) g in (xs ! nat i, g1))"

definition draw_int :: "('g, 'x) dispatch_env \<Rightarrow> int \<Rightarrow> int \<Rightarrow> ('g \<times> 'x, int) eff" where
  "draw_int en a b = eff_draw (rg_randint (de_rng en) a b)"

definition chat_target_candidates :: "warmup_session \<Rightarrow> db \<Rightarrow> string list" where
  "chat_target_candidates x s =
     concat (map (\<lambda>d.
         case first_truthy [dict_get d ''username'', dict_get d ''chat_username'', dict_get d ''target''] of
           Some (JStr t) \<Rightarrow> if strip t = [] then [] else [strip t] | _ \<Rightarrow> [])
       (case session_strategy x s of None \<Rightarrow> [] | Some t \<Rightarrow> wst_target_channels_json t))"

definition select_chat_target :: "('g, 'x) dispatch_env \<Rightarrow> warmup_session \<Rightarrow> ('g \<times> 'x, string option) eff" where
  "select_chat_target en x w s =
     (let cs = chat_target_candidates x s in
      if cs = [] then eff_return None w s else eff_bind (draw_one en cs) (\<lambda>c. eff_return (Some c)) w s)"

definition selected_or_target ::
  "('g, 'x) dispatch_env \<Rightarrow> warmup_session \<Rightarrow> string option \<Rightarrow> ('g \<times> 'x, string option) eff" where
  "selected_or_target en x ref = (if truthy ref then eff_return ref else select_chat_target en x)"

definition subscribed_channel_states :: "warmup_session \<Rightarrow> string option \<Rightarrow> db \<Rightarrow> channel_state list" where
  "subscribed_channel_states x ref s =
     filter (\<lambda>c. cs_subscribed_at c \<noteq> None \<and> is_channel_healthy c)
       (get_states_for_account (wu_workspace_id x) (wu_account_id x)
          (case ref of Some r \<Rightarrow> [r] | None \<Rightarrow> target_channel_refs x s) s)"

definition is_channel_subscribed :: "warmup_session \<Rightarrow> string \<Rightarrow> db \<Rightarrow> bool" where
  "is_channel_subscribed x ref s =
     (case get_states_for_account (wu_workspace_id x) (wu_account_id x) [ref] s of
        [] \<Rightarrow> False | c # _ \<Rightarrow> cs_subscribed_at c \<noteq> None \<and> is_channel_healthy c)"

definition derive_text_seed :: "('g, 'x) dispatch_env \<Rightarrow> warmup_session \<Rightarrow> string \<Rightarrow> string" where
  "derive_text_seed en x t =
     take 32 (de_sha en (uuid_text (wu_id x) @ ''|'' @ int_text (wu_current_day x) @ ''|'' @ t))"

definition hex_digit :: "char \<Rightarrow> nat" where
  "hex_digit c = (if decimal_digit c then digit_of c else char_code (lower_char c) - 87)"

text \<open>\<open>int(text, 16)\<close> of a text of hexadecimal digits.\<close>

definition hex_value :: "string \<Rightarrow> nat" where
  "hex_value t = foldl (\<lambda>n c. 16 * n + hex_digit c) 0 t"

definition derive_from_options :: "('g, 'x) dispatch_env \<Rightarrow> warmup_session \<Rightarrow> string \<Rightarrow> string list \<Rightarrow> string" where
  "derive_from_options en x t options =
     options ! (hex_value (take 8 (derive_text_seed en x t)) mod length options)"

section \<open>The context of an action\<close>

datatype resolution =
    Context "(string, json) dict"
  | SkipAction string "(string, json) dict"

text \<open>\<open>{**base, ...}\<close>, of keys that \<open>base\<close> does not have.\<close>

definition base_context :: "warmup_session \<Rightarrow> (string, json) dict" where
  "base_context x =
     [(''execution_mode'', JStr (execution_mode_text (wu_execution_mode x))),
      (''current_day'', JInt (wu_current_day x)),
      (''proxy_category'', case wu_proxy_snapshot_json x of None \<Rightarrow> JNull
         | Some d \<Rightarrow> (case dict_get d ''proxy_category'' of None \<Rightarrow> JNull | Some v \<Rightarrow> v)),
      (''personality_seed'', JObj (wu_personality_seed_json x))]"

definition give :: "warmup_session \<Rightarrow> (string, json) dict \<Rightarrow> ('w, resolution) eff" where
  "give x d = eff_return (Context (base_context x @ d))"

definition skip :: "string \<Rightarrow> ('w, resolution) eff" where
  "skip reason = eff_return (SkipAction reason [])"

text \<open>The actions on a channel that has been chosen and joined; what else they are given may be drawn.\<close>

definition on_subscribed ::
  "warmup_session \<Rightarrow> string option \<Rightarrow> string \<Rightarrow> string \<Rightarrow> (string \<Rightarrow> ('w, resolution) eff) \<Rightarrow> ('w, resolution) eff" where
  "on_subscribed x ref none_reason not_joined_reason f w s =
     (case ref of None \<Rightarrow> skip none_reason w s
      | Some r \<Rightarrow> if is_channel_subscribed x r s then f r w s else skip not_joined_reason w s)"

definition browse_context :: "('g, 'x) dispatch_env \<Rightarrow> warmup_session \<Rightarrow> string \<Rightarrow> ('g \<times> 'x, resolution) eff" where
  "browse_context en x ref w s =
     eff_bind (draw_int en 10 30) (\<lambda>n. give x
       [(''channel_ref'', JStr ref), (''history_limit'', JInt n),
        (''channel_subscribed'', JBool (is_channel_subscribed x ref s))]) w s"

definition story_context :: "('g, 'x) dispatch_env \<Rightarrow> warmup_session \<Rightarrow> string option \<Rightarrow> ('g \<times> 'x, resolution) eff" where
  "story_context en x ref w s =
     (let subscribed = subscribed_channel_states x ref s;
          cands = filter (\<lambda>c. cs_has_stories c \<noteq> Some False) subscribed
      in if subscribed = [] then skip ''not_subscribed'' w s
         else if cands = [] then skip ''no_stories_in_channel'' w s
         else eff_bind (draw_one en cands) (\<lambda>c. give x
           [(''channel_ref'', JStr (cs_channel_ref c)), (''channel_subscribed'', JBool True),
            (''has_stories'', case cs_has_stories c of None \<Rightarrow> JNull | Some b \<Rightarrow> JBool b)]) w s)"

definition reaction_channel :: "('g, 'x) dispatch_env \<Rightarrow> warmup_session \<Rightarrow> string option \<Rightarrow> ('g \<times> 'x, resolution) eff" where
  "reaction_channel en x ref w s =
     (let subscribed = subscribed_channel_states x ref s;
          cands = filter (\<lambda>c. cs_has_reactions c = Some True \<and> cs_available_reactions_json c \<noteq> []) subscribed
      in if subscribed = [] then skip ''not_subscribed'' w s
         else if cands = [] then skip ''no_reactions_in_channel'' w s
         else eff_bind (draw_one en cands) (\<lambda>c. give x
           [(''channel_ref'', JStr (cs_channel_ref c)), (''channel_subscribed'', JBool True),
            (''has_reactions'', JBool True),
            (''available_reactions'', JList (map JStr (cs_available_reactions_json c)))]) w s)"

definition ask_gate :: "('g, 'x) dispatch_env \<Rightarrow> time \<Rightarrow> warmup_session \<Rightarrow> ('g \<times> 'x, gate_verdict) eff" where
  "ask_gate en now x w s =
     (case pv_gate (de_pre en) now (wu_workspace_id x) (wu_account_id x) (snd w) s of
        (Inl e, y, s1) \<Rightarrow> (Inl e, (fst w, y)) | (Inr v, y, s1) \<Rightarrow> (Inr (v, s1), (fst w, y)))"

definition react_context ::
  "('g, 'x) dispatch_env \<Rightarrow> time \<Rightarrow> warmup_session \<Rightarrow> string option \<Rightarrow> ('g \<times> 'x, resolution) eff" where
  "react_context en now x ref =
     eff_bind (ask_gate en now x) (\<lambda>v.
       if gv_severity v = VerdictBlocked
       then eff_return (SkipAction ''safety_gate_blocked'' [(''reasons'', JList (map reason_json (gv_reasons v)))])
       else reaction_channel en x ref)"

definition peer_context :: "('g, 'x) dispatch_env \<Rightarrow> time \<Rightarrow> warmup_session \<Rightarrow> ('g \<times> 'x, resolution) eff" where
  "peer_context en now x w s =
     (let (peer, s1) = select_eligible_peer (de_uuid_order en) (de_rng en)
                         (de_friend_seed en (wu_workspace_id x) (wu_account_id x)) (wu_workspace_id x) (wu_account_id x) now [] s;
          seed = derive_text_seed en x ''p2p_send'';
          (text, provider) = tx_compose_p2p_message (de_text en) seed
      in case peer of
           None \<Rightarrow> skip ''no_friends_available'' w s1
         | Some p \<Rightarrow>
             if \<not> tx_is_available (de_text en)
             then eff_return (SkipAction ''text_provider_unavailable''
                    [(''provider'', JStr (tx_provider_name (de_text en)))]) w s1
             else if text = []
             then eff_return (SkipAction ''text_provider_empty_render'' [(''provider'', JStr provider)]) w s1
             else give x
               [(''peer_account_id'', JStr (uuid_text (pc_account_id p))),
                (''peer_telegram_user_id'', JStr (pc_telegram_user_id p)),
                (''peer_row_id'', JStr (uuid_text (pc_peer_row_id p))), (''text'', JStr text),
                (''text_seed'', JStr seed), (''text_provider'', JStr provider)] w s1)"

definition resolve_action_context ::
  "('g, 'x) dispatch_env \<Rightarrow> time \<Rightarrow> warmup_session \<Rightarrow> string \<Rightarrow> string option \<Rightarrow> ('g \<times> 'x, resolution) eff" where
  "resolve_action_context en now x t ref =
     (let derive = derive_from_options en x t in
      if t = ''join_chat'' then
        eff_bind (selected_or_target en x ref) (\<lambda>target.
          case target of None \<Rightarrow> skip ''no_target_channels_configured''
          | Some c \<Rightarrow> give x [(''chat_target'', JStr c), (''channel_ref'', JStr c)])
      else if t = ''channel_browse'' then
        eff_bind (selected_or_target en x ref) (\<lambda>target.
          case target of None \<Rightarrow> skip ''no_browse_target_available'' | Some c \<Rightarrow> browse_context en x c)
      else if t = ''scroll_channels'' then
        on_subscribed x ref ''no_scroll_channel_available'' ''not_subscribed'' (\<lambda>c.
          eff_bind (draw_int en 20 40) (\<lambda>n. give x
            [(''channel_ref'', JStr c), (''history_limit'', JInt n), (''channel_subscribed'', JBool True)]))
      else if t = ''search_messages'' then give x [(''search_query'', JStr (derive SEARCH_MESSAGE_QUERIES))]
      else if t = ''search_gif'' then give x [(''search_query'', JStr (derive ENTERTAINMENT_QUERIES))]
      else if t = ''inline_bot'' then
        give x [(''inline_bot_username'', JStr (derive APPROVED_INLINE_BOTS)),
                (''inline_query'', JStr (derive_from_options en x (t @ '':query'') ENTERTAINMENT_QUERIES)),
                (''inline_chat_id'', JInt 0)]
      else if t = ''link_preview'' then give x [(''preview_url'', JStr (derive ENTERTAINMENT_URLS))]
      else if t = ''forward_message'' then
        on_subscribed x ref ''no_forward_source_available'' ''no_forward_source_available'' (\<lambda>c.
          eff_bind (draw_int en 5 15) (\<lambda>n. give x
            [(''channel_ref'', JStr c), (''history_limit'', JInt n), (''channel_subscribed'', JBool True)]))
      else if t = ''saved_messages'' then give x [(''note_text'', JStr (derive SAVED_MESSAGE_NOTES))]
      else if t = ''sync_contacts'' then skip ''no_contacts_pool_available''
      else if t = ''simulate_typing'' then
        on_subscribed x ref ''no_chat_target_available'' ''no_chat_target_available'' (\<lambda>c.
          eff_bind (draw_int en 3 8) (\<lambda>n. give x
            [(''channel_ref'', JStr c), (''channel_subscribed'', JBool True), (''typing_duration_seconds'', JInt n)]))
      else if t = ''drafts'' then
        on_subscribed x ref ''no_chat_target_available'' ''no_chat_target_available'' (\<lambda>c. give x
          [(''channel_ref'', JStr c), (''channel_subscribed'', JBool True),
           (''draft_text'', JStr (derive SAVED_MESSAGE_NOTES)), (''temporary'', JBool True)])
      else if t = ''check_settings'' then give x [(''option_name'', JStr (derive SETTINGS_OPTIONS))]
      else if t = ''emoji_status'' then skip ''non_premium_account''
      else if t = ''scheduled_messages'' then
        eff_bind (draw_int en 300 900) (\<lambda>n. give x
          [(''note_text'', JStr (derive SAVED_MESSAGE_NOTES)), (''schedule_delay_seconds'', JInt n),
           (''temporary'', JBool True)])
      else if t = ''update_profile_gradual'' then
        give x [(''profile_field'', JStr ''bio''), (''bio'', JStr (derive PROFILE_BIOS))]
      else if t = ''notification_settings'' then
        eff_bind (draw_int en 0 3600) (\<lambda>n. give x
          [(''notification_scope'', JStr (derive NOTIFICATION_SCOPES)), (''mute_for_seconds'', JInt n)])
      else case dict_get ACTIVITY_CONTENT_SKIP_REASONS t of
          Some reason \<Rightarrow>
            on_subscribed x ref reason reason (\<lambda>c.
              eff_bind (draw_int en 15 30) (\<lambda>n. give x
                ([(''channel_ref'', JStr c), (''history_limit'', JInt n), (''channel_subscribed'', JBool True)] @
                 (if t = ''vote_poll'' then [(''safety_hint'', JStr ''avoid_empty_or_new_accounts'')] else []))))
        | None \<Rightarrow>
            if t = ''view_story'' then story_context en x ref
            else if t = ''react_to_post'' then react_context en now x ref
            else if t = ''p2p_send'' then peer_context en now x
            else give x [])"

section \<open>Recording\<close>

definition write_dispatch_skip ::
  "time \<Rightarrow> warmup_session \<Rightarrow> string \<Rightarrow> string \<Rightarrow> (string, json) dict \<Rightarrow> db \<Rightarrow> db" where
  "write_dispatch_skip now x t reason md =
     write_warmup_event now x ''task_skipped''
       [(''day'', JInt (wu_current_day x)), (''action_type'', JStr t),
        (''execution_mode'', JStr (execution_mode_text (wu_execution_mode x))), (''reason'', JStr reason),
        (''metadata'', JObj md)]"

definition write_write_action_disabled_skip :: "time \<Rightarrow> warmup_session \<Rightarrow> string \<Rightarrow> db \<Rightarrow> db" where
  "write_write_action_disabled_skip now x t =
     write_warmup_event now x ''task_skipped''
       [(''day'', JInt (wu_current_day x)), (''action_type'', JStr t),
        (''execution_mode'', JStr (execution_mode_text (wu_execution_mode x))),
        (''reason'', JStr ''write_action_not_enabled'')]"

definition record_channel_action_result_if_needed ::
  "('g, 'x) dispatch_env \<Rightarrow> time \<Rightarrow> warmup_session \<Rightarrow> string \<Rightarrow> action_result \<Rightarrow> (string, json) dict \<Rightarrow> db \<Rightarrow> db" where
  "record_channel_action_result_if_needed en now x t r ctx s =
     (case dict_get ctx ''channel_ref'' of
        Some (JStr ref) \<Rightarrow>
          if ref = [] then s
          else if t \<noteq> ''join_chat'' \<and> dict_get ctx ''channel_subscribed'' \<noteq> Some (JBool True) then s
          else record_action_result (pv_str (de_pre en)) now x t ref r s
      | _ \<Rightarrow> s)"

definition context_uuid :: "(string, json) dict \<Rightarrow> string \<Rightarrow> uuid option" where
  "context_uuid d k = (case dict_get d k of Some (JStr t) \<Rightarrow> map_option nat (int_of_text t) | _ \<Rightarrow> None)"

definition record_p2p_contact_if_needed ::
  "time \<Rightarrow> warmup_session \<Rightarrow> string \<Rightarrow> (string, json) dict \<Rightarrow> bool \<Rightarrow> db \<Rightarrow> db" where
  "record_p2p_contact_if_needed now x t ctx live s =
     (if t \<noteq> ''p2p_send'' \<or> \<not> live then s
      else case context_uuid ctx ''peer_account_id'' of
          None \<Rightarrow> s
        | Some receiver \<Rightarrow>
            let d = [(''day'', JInt (wu_current_day x)), (''receiver_account_id'', JStr (uuid_text receiver))] in
            (case record_p2p_contact (wu_workspace_id x) (wu_account_id x) receiver now s of
               Inr (n, m, s1) \<Rightarrow>
                 write_warmup_event now x ''p2p_contact_recorded''
                   (d @ [(''receiver_contacts'', JInt n),
                         (''sender_contacts'', case m of None \<Rightarrow> JNull | Some k \<Rightarrow> JInt k)]) s1
             | Inl e \<Rightarrow>
                 write_warmup_event now x ''p2p_contact_recording_failed''
                   (d @ [(''error'', JStr (case e of ValueError t \<Rightarrow> t | _ \<Rightarrow> []))]) s))"

definition json_of_int :: "int option \<Rightarrow> json" where
  "json_of_int v = (case v of None \<Rightarrow> JNull | Some n \<Rightarrow> JInt n)"

definition failure_fields :: "action_result \<Rightarrow> (string, json) dict" where
  "failure_fields r =
     [(''status'', JStr (ar_status r)), (''error_code'', json_of_str (ar_error_code r)),
      (''error_class'', json_of_str (ar_error_class r)),
      (''retry_after_seconds'', json_of_int (ar_retry_after_seconds r)), (''metadata'', JObj (ar_metadata r))]"

definition record_dispatch_action_failure ::
  "('g, 'x) dispatch_env \<Rightarrow> time \<Rightarrow> warmup_session \<Rightarrow> string \<Rightarrow> action_result \<Rightarrow> (string, json) dict \<Rightarrow> db \<Rightarrow> db" where
  "record_dispatch_action_failure en now x t r ctx s =
     (let s1 = write_warmup_event now x ''task_failed''
            ([(''day'', JInt (wu_current_day x)), (''action_type'', JStr t),
              (''execution_mode'', JStr (execution_mode_text (wu_execution_mode x)))] @ failure_fields r) s;
          s2 = (if starts_with ''flood_wait'' (lower (str_or (ar_error_code r) []))
                then on_flood_wait (wu_account_id x) (wu_workspace_id x) (de_clock en) s1 else s1)
      in record_channel_action_result_if_needed en now x t r ctx s2)"

definition record_dispatch_action_success ::
  "('g, 'x) dispatch_env \<Rightarrow> time \<Rightarrow> warmup_session \<Rightarrow> string \<Rightarrow> action_result \<Rightarrow> (string, json) dict \<Rightarrow> bool \<Rightarrow> db \<Rightarrow> db" where
  "record_dispatch_action_success en now x t r ctx live s =
     write_warmup_event now x (if live then ''session_action_executed'' else ''session_action_simulated'')
       [(''day'', JInt (wu_current_day x)), (''action_type'', JStr t),
        (''execution_mode'', JStr (execution_mode_text (wu_execution_mode x))), (''simulated'', JBool (\<not> live)),
        (''metadata'', JObj (ar_metadata r))]
       (record_channel_action_result_if_needed en now x t r ctx (record_p2p_contact_if_needed now x t ctx live s))"

section \<open>Executing\<close>

definition ok_result :: "(string, json) dict \<Rightarrow> action_result" where
  "ok_result md =
     \<lparr>ar_status = ''ok'', ar_metadata = md, ar_error_class = None, ar_error_code = None, ar_retry_after_seconds = None\<rparr>"

definition execute_live_action ::
  "('g, 'x) dispatch_env \<Rightarrow> warmup_session \<Rightarrow> string \<Rightarrow> (string, json) dict \<Rightarrow> ('g \<times> 'x, action_result) eff" where
  "execute_live_action en x t ctx w s =
     (case ad_execute_action (de_adapter en) (wu_account_id x) t ctx (snd w) of
        (Inr r, y) \<Rightarrow> (Inr (r, s), (fst w, y))
      | (Inl (cls, message), y) \<Rightarrow>
          (Inr (\<lparr>ar_status = ''network_error'', ar_metadata = [(''exception_message'', JStr (take 200 message))],
                 ar_error_class = Some cls, ar_error_code = Some ''adapter_raised'',
                 ar_retry_after_seconds = None\<rparr>, s), (fst w, y)))"

text \<open>The result with its context; \<open>None\<close> when the action was skipped.\<close>

definition dispatch_action ::
  "('g, 'x) dispatch_env \<Rightarrow> time \<Rightarrow> warmup_session \<Rightarrow> string \<Rightarrow> string option \<Rightarrow> bool \<Rightarrow>
   ('g \<times> 'x, (action_result \<times> (string, json) dict) option) eff" where
  "dispatch_action en now x t ref live =
     (let skipped = (\<lambda>reason md. eff_bind (eff_db (write_dispatch_skip now x t reason md)) (\<lambda>_. eff_return None)) in
      if t \<in> set (wu_disabled_actions_json x)
      then skipped ''disabled_by_operator'' [(''disabled_actions'', JList (map JStr (wu_disabled_actions_json x)))]
      else if \<not> live then eff_return (Some (ok_result [(''simulated'', JBool True)], []))
      else eff_bind (resolve_action_context en now x t ref) (\<lambda>res.
        case res of
          SkipAction reason md \<Rightarrow> skipped reason md
        | Context ctx \<Rightarrow>
            (\<lambda>w s. if t \<in> set WRITE_ACTION_TYPES \<and> \<not> ad_supports_action (de_adapter en) t (snd w)
              then eff_bind (eff_db (write_write_action_disabled_skip now x t)) (\<lambda>_. eff_return None) w s
              else eff_bind (execute_live_action en x t ctx) (\<lambda>r.
                if ar_status r = ''skipped''
                then skipped (if truthy (ar_error_code r) then str_or (ar_error_code r) [] else ''adapter_skipped'') (ar_metadata r)
                else eff_return (Some (r, ctx))) w s)))"

end
