(* ===== verification/WarmupDispatch.thy ===== *)
theory WarmupDispatch
  imports WarmupActions
begin

text \<open>
  The live dispatcher: one micro-session of a warm-up (\<open>dispatch_processor.py\<close>), the batch, the single
  session and the staggered queue (\<open>dispatcher.py\<close>), and the jobs that call them (\<open>jobs.py\<close>). The
  session object of a micro-session is a value; it is written back wherever the code has changed it.
\<close>

section \<open>The parts of a micro-session\<close>

definition LIVE_EXECUTION_MODES :: "execution_mode list" where
  "LIVE_EXECUTION_MODES = [Passive, Network, Advanced]"

definition eff_event :: "time \<Rightarrow> warmup_session \<Rightarrow> string \<Rightarrow> (string, json) dict \<Rightarrow> ('w, unit) eff" where
  "eff_event now x ty d = eff_db (write_warmup_event now x ty d)"

definition eff_save :: "warmup_session \<Rightarrow> ('w, unit) eff" where
  "eff_save x = eff_db (save_session x)"

definition eff_complete :: "('g, 'x) dispatch_env \<Rightarrow> time \<Rightarrow> warmup_session \<Rightarrow> ('g \<times> 'x, unit) eff" where
  "eff_complete en now x w s =
     (let (r, y) = complete_dispatch_session (de_pre en) x now (snd w) s
      in (result_bind r (\<lambda>s1. Inr ((), s1)), (fst w, y)))"

definition session_zone :: "('g, 'x) dispatch_env \<Rightarrow> warmup_session \<Rightarrow> zone" where
  "session_zone en x = resolve_zone (de_zones en) (wu_timezone x)"

definition draw_within_day :: "('g, 'x) dispatch_env \<Rightarrow> time \<Rightarrow> warmup_session \<Rightarrow> ('g \<times> 'x, time) eff" where
  "draw_within_day en now x =
     eff_draw (schedule_within_day (de_settings en) (de_rng en) (de_lazy en) now (session_zone en x)
       (wu_personality_seed_json x) (wu_last_micro_session_at x))"

definition draw_next_day :: "('g, 'x) dispatch_env \<Rightarrow> time \<Rightarrow> warmup_session \<Rightarrow> ('g \<times> 'x, time) eff" where
  "draw_next_day en now x = eff_draw (next_day_first_window (de_settings en) (de_rng en) now (session_zone en x))"

text \<open>The session that goes on; \<open>None\<close> when the micro-session ends here.\<close>

definition skip_if_outside_cyclic_window ::
  "('g, 'x) dispatch_env \<Rightarrow> time \<Rightarrow> warmup_session \<Rightarrow> ('g \<times> 'x, warmup_session option) eff" where
  "skip_if_outside_cyclic_window en now x =
     (let z = session_zone en x; x1 = schedule_next_cycle x z now in
      case cycle_window_status (wu_cycle_config_json x) now z of
        None \<Rightarrow> eff_return (Some x)
      | Some st \<Rightarrow>
          if cy_in_window st then eff_bind (eff_save x1) (\<lambda>_. eff_return (Some x1))
          else if cy_completed st then
            eff_bind (eff_event now x ''cyclic.completed''
              [(''current_cycle'', JInt (cy_current_cycle st)), (''active_hours_total'', JInt (cy_active_hours_total st))]) (\<lambda>_.
            eff_bind (eff_complete en now x) (\<lambda>_. eff_return None))
          else
            eff_bind (eff_save x1) (\<lambda>_.
            eff_bind (eff_event now x1 ''task_skipped''
              [(''reason'', JStr ''cyclic_inactive_window''), (''current_cycle'', JInt (cy_current_cycle st)),
               (''next_window_start'', case cy_next_window_start st of None \<Rightarrow> JNull | Some t \<Rightarrow> JTime t)]) (\<lambda>_.
            eff_return None)))"

definition skip_quiet_hours :: "('g, 'x) dispatch_env \<Rightarrow> time \<Rightarrow> warmup_session \<Rightarrow> ('g \<times> 'x, bool) eff" where
  "skip_quiet_hours en now x =
     (let t = next_quiet_hours_end (de_settings en) (session_zone en x) now;
          x1 = x\<lparr>wu_next_micro_session_at := Some t, wu_updated_at := now\<rparr>
      in eff_bind (eff_save x1) (\<lambda>_.
         eff_bind (eff_event now x1 ''task_skipped'' [(''reason'', JStr ''quiet_hours''), (''reschedule_at'', JTime t)]) (\<lambda>_.
         eff_return False)))"

definition pause_if_blocked_by_safety_gate ::
  "('g, 'x) dispatch_env \<Rightarrow> time \<Rightarrow> string \<Rightarrow> warmup_session \<Rightarrow> ('g \<times> 'x, bool) eff" where
  "pause_if_blocked_by_safety_gate en now worker x =
     eff_bind (ask_gate en now x) (\<lambda>v.
       if gv_severity v \<noteq> VerdictBlocked then eff_return False
       else
         let x1 = x\<lparr>wu_status := WPausedRisk, wu_next_micro_session_at := None, wu_next_step_at := None,
                    wu_worker_id := Some worker, wu_updated_at := now\<rparr>
         in eff_bind (eff_save x1) (\<lambda>_.
            eff_bind (eff_event now x1 ''warmup_dispatch_blocked_by_gate''
              [(''reasons'', JList (map reason_json (gv_reasons v)))]) (\<lambda>_. eff_return True)))"

definition skip_unavailable :: "('g, 'x) dispatch_env \<Rightarrow> time \<Rightarrow> warmup_session \<Rightarrow> ('g \<times> 'x, bool) eff" where
  "skip_unavailable en now x =
     eff_bind (draw_within_day en now x) (\<lambda>t.
       let x1 = x\<lparr>wu_next_micro_session_at := Some t, wu_next_step_at := Some t, wu_updated_at := now\<rparr>
       in eff_bind (eff_save x1) (\<lambda>_.
          eff_bind (eff_event now x1 ''task_skipped''
            [(''reason'', JStr ''passive_disabled''),
             (''execution_mode'', JStr (execution_mode_text (wu_execution_mode x1))),
             (''provider'', JStr (ad_provider_name (de_adapter en)))]) (\<lambda>_.
          eff_return False)))"

section \<open>The window\<close>

record window_tally =
  wt_counters :: "(string, int) dict"
  wt_performed :: "string list"
  wt_failed :: "(string \<times> action_result) list"

primrec run_selected ::
  "('g, 'x) dispatch_env \<Rightarrow> time \<Rightarrow> warmup_session \<Rightarrow> bool \<Rightarrow> selected_action list \<Rightarrow> window_tally \<Rightarrow>
   ('g \<times> 'x, window_tally) eff" where
  "run_selected en now x live [] w = eff_return w"
| "run_selected en now x live (a # as) w =
     (let t = sa_action_type a in
      eff_bind (dispatch_action en now x t (sa_channel_ref a) live) (\<lambda>r.
        case r of
          None \<Rightarrow> run_selected en now x live as w
        | Some (res, ctx) \<Rightarrow>
            if \<not> is_ok res
            then eff_bind (eff_db (record_dispatch_action_failure en now x t res ctx)) (\<lambda>_.
                   run_selected en now x live as (w\<lparr>wt_failed := wt_failed w @ [(t, res)]\<rparr>))
            else eff_bind (eff_db (record_dispatch_action_success en now x t res ctx live)) (\<lambda>_.
                   run_selected en now x live as
                     (w\<lparr>wt_counters := dict_set t (plan_get (wt_counters w) t + 1) (wt_counters w),
                        wt_performed := wt_performed w @ [t]\<rparr>))))"

definition is_flood_wait_failure :: "action_result \<Rightarrow> bool" where
  "is_flood_wait_failure r =
     (lower (ar_status r) = ''flood_wait'' \<or> starts_with ''flood_wait'' (lower (str_or (ar_error_code r) [])))"

definition record_failed_actions_in_counters :: "(string, int) dict \<Rightarrow> (string \<times> action_result) list \<Rightarrow> (string, int) dict" where
  "record_failed_actions_in_counters d failed =
     (let d1 = dict_set ''failures'' (plan_get d ''failures'' + int (length failed)) d;
          n = int (length (filter (\<lambda>(t, r). is_flood_wait_failure r) failed))
      in if n = 0 then d1 else dict_set ''flood_waits'' (plan_get d1 ''flood_waits'' + n) d1)"

definition max_retry_after_seconds :: "(string \<times> action_result) list \<Rightarrow> int option" where
  "max_retry_after_seconds failed =
     (let vs = concat (map (\<lambda>(t, r). case ar_retry_after_seconds r of None \<Rightarrow> [] | Some n \<Rightarrow> [max 0 n]) failed)
      in if vs = [] then None else Some (Max (set vs)))"

definition error_summary :: "(string \<times> action_result) list \<Rightarrow> string" where
  "error_summary failed =
     join_with ''; '' (map (\<lambda>(t, r). t @ '':'' @ (case ar_error_code r of None \<Rightarrow> ''None'' | Some c \<Rightarrow> c)) failed)"

definition window_closed :: "time \<Rightarrow> warmup_session \<Rightarrow> window_tally \<Rightarrow> ('w, unit) eff" where
  "window_closed now x w =
     eff_event now x ''micro_session_window_closed''
       [(''day'', JInt (wu_current_day x)), (''performed_actions'', JList (map JStr (wt_performed w))),
        (''failed_actions'', JList (map (\<lambda>(t, r). JObj ((''action_type'', JStr t) # failure_fields r)) (wt_failed w))),
        (''counters'', JObj (map (\<lambda>(k, n). (k, JInt n)) (wt_counters w)))]"

definition write_plan_adjustment_event_if_needed :: "time \<Rightarrow> warmup_session \<Rightarrow> db \<Rightarrow> db" where
  "write_plan_adjustment_event_if_needed now x s =
     (let p = describe_next_day_adjustment x s in
      case adjustment_event_type p of
        None \<Rightarrow> s
      | Some ty \<Rightarrow>
          if \<not> adjustment_is_active p then s
          else write_warmup_event now x ty
            [(''day'', JInt (wu_current_day x)), (''multiplier'', JNum (pj_multiplier p)),
             (''reason'', json_of_str (pj_reason p)),
             (''action_types'', JList (map (\<lambda>(t, m). JStr t) (pj_multipliers p)))] s)"

definition schedule_next :: "time \<Rightarrow> warmup_session \<Rightarrow> time \<Rightarrow> ('w, bool) eff" where
  "schedule_next now x t =
     eff_bind (eff_save (x\<lparr>wu_next_micro_session_at := Some t, wu_next_step_at := Some t, wu_updated_at := now\<rparr>))
       (\<lambda>_. eff_return True)"

text \<open>What follows the actions of a window: the end of the day, of the session, or the next window.\<close>

definition close_window ::
  "('g, 'x) dispatch_env \<Rightarrow> time \<Rightarrow> (string, int) dict \<Rightarrow> warmup_session \<Rightarrow> window_tally \<Rightarrow> ('g \<times> 'x, bool) eff" where
  "close_window en now plan x w =
     eff_bind (window_closed now x w) (\<lambda>_.
       if \<not> is_day_complete plan (wt_counters w)
       then eff_bind (draw_within_day en now x) (schedule_next now x)
       else
         let x1 = x\<lparr>wu_current_day := wu_current_day x + 1\<rparr> in
         eff_bind (eff_save x1) (\<lambda>_.
         eff_bind (eff_event now x1 ''day_advanced''
           [(''day'', JInt (wu_current_day x1)), (''execution_mode'', JStr (execution_mode_text (wu_execution_mode x1)))]) (\<lambda>_.
           if wu_duration_days x1 \<le> wu_current_day x1
           then eff_bind (eff_complete en now x1) (\<lambda>_. eff_return True)
           else
             eff_bind (eff_db (write_plan_adjustment_event_if_needed now x1)) (\<lambda>_.
             eff_bind (draw_next_day en now x1) (schedule_next now x1)))))"

definition after_success :: "time \<Rightarrow> string \<Rightarrow> window_tally \<Rightarrow> warmup_session \<Rightarrow> warmup_session" where
  "after_success now worker w x =
     x\<lparr>wu_daily_counters_json := persist_day_counters (wu_daily_counters_json x) (wu_current_day x) (wt_counters w),
       wu_last_micro_session_at := Some now, wu_last_step_at := Some now, wu_consecutive_failures := 0,
       wu_worker_id := Some worker, wu_status := WActive,
       wu_started_at := (case wu_started_at x of None \<Rightarrow> Some now | t \<Rightarrow> t)\<rparr>"

definition after_failure :: "time \<Rightarrow> string \<Rightarrow> window_tally \<Rightarrow> warmup_session \<Rightarrow> warmup_session" where
  "after_failure now worker w x =
     (let x1 = x\<lparr>wu_daily_counters_json := persist_day_counters (wu_daily_counters_json x) (wu_current_day x) (wt_counters w),
                 wu_worker_id := Some worker\<rparr>
      in case max_retry_after_seconds (wt_failed w) of
           None \<Rightarrow> x1
         | Some n \<Rightarrow> x1\<lparr>wu_next_attempt_at := Some (now + seconds n), wu_next_micro_session_at := Some (now + seconds n),
                        wu_next_step_at := Some (now + seconds n)\<rparr>)"

text \<open>No action of the window was performed and some failed: the circuit breaker, then the retry.\<close>

definition close_failed_window ::
  "('g, 'x) dispatch_env \<Rightarrow> time \<Rightarrow> string \<Rightarrow> (string, int) dict \<Rightarrow> warmup_session \<Rightarrow> window_tally \<Rightarrow> ('g \<times> 'x, bool) eff" where
  "close_failed_window en now worker plan x w ww s =
     (let (tripped, x2, s2) = handle_warmup_step_failure (de_settings en) (after_failure now worker w x)
                                (error_summary (wt_failed w)) None now WPausedRisk s
      in if tripped
         then let x3 = x2\<lparr>wu_next_micro_session_at := None, wu_next_step_at := None\<rparr>
              in eff_bind (eff_save x3) (\<lambda>_. eff_bind (window_closed now x3 w) (\<lambda>_. eff_return True)) ww s2
         else if max_retry_after_seconds (wt_failed w) \<noteq> None
         then let x3 = x2\<lparr>wu_updated_at := now\<rparr>
              in eff_bind (eff_save x3) (\<lambda>_. eff_bind (window_closed now x3 w) (\<lambda>_. eff_return True)) ww s2
         else close_window en now plan x2 w ww s2)"

definition settle_window ::
  "('g, 'x) dispatch_env \<Rightarrow> time \<Rightarrow> string \<Rightarrow> (string, int) dict \<Rightarrow> warmup_session \<Rightarrow> window_tally \<Rightarrow> ('g \<times> 'x, bool) eff" where
  "settle_window en now worker plan x w0 =
     (let w = (if wt_failed w0 = [] then w0
               else w0\<lparr>wt_counters := record_failed_actions_in_counters (wt_counters w0) (wt_failed w0)\<rparr>)
      in if wt_performed w \<noteq> []
         then let x1 = after_success now worker w x in eff_bind (eff_save x1) (\<lambda>_. close_window en now plan x1 w)
         else if wt_failed w \<noteq> [] then close_failed_window en now worker plan x w
         else close_window en now plan x w)"

text \<open>The choice of the actions of a window, with the plan and the counters of the day.\<close>

definition select_actions ::
  "('g, 'x) dispatch_env \<Rightarrow> time \<Rightarrow> warmup_session \<Rightarrow> ('g \<times> 'x, selected_action list) eff" where
  "select_actions en now x w s =
     (let (targets, g1) = resolve_available_targets (de_rng en) x (fst w) s in
      case targets of
        Inl e \<Rightarrow> (Inl e, (g1, snd w))
      | Inr ts \<Rightarrow>
          let (as, g2) = choose_actions (de_number en) (de_rng en) (resolve_day_plan x s) (resolve_day_counters x)
                           (get_states_for_account (wu_workspace_id x) (wu_account_id x) ts s) ts now
                           MAX_ACTIONS_PER_MICRO_SESSION (wu_personality_seed_json x) g1
          in (Inr (as, s), (g2, snd w)))"

definition window_opened :: "time \<Rightarrow> warmup_session \<Rightarrow> selected_action list \<Rightarrow> ('w, unit) eff" where
  "window_opened now x as =
     eff_event now x ''micro_session_window_opened''
       [(''day'', JInt (wu_current_day x)), (''execution_mode'', JStr (execution_mode_text (wu_execution_mode x))),
        (''planned_actions'', JList (map (\<lambda>a. JStr (sa_action_type a)) as)),
        (''planned_action_targets'', JList (map (\<lambda>a. JObj
           [(''action_type'', JStr (sa_action_type a)), (''channel_ref'', json_of_str (sa_channel_ref a)),
            (''metadata'', JObj (sa_metadata a))]) as))]"

definition run_window ::
  "('g, 'x) dispatch_env \<Rightarrow> time \<Rightarrow> string \<Rightarrow> bool \<Rightarrow> warmup_session \<Rightarrow> ('g \<times> 'x, bool) eff" where
  "run_window en now worker live x w s =
     (let plan = resolve_day_plan x s in
      eff_bind (select_actions en now x) (\<lambda>as.
      eff_bind (window_opened now x as) (\<lambda>_.
      eff_bind (run_selected en now x live as \<lparr>wt_counters = resolve_day_counters x, wt_performed = [], wt_failed = []\<rparr>)
        (settle_window en now worker plan x))) w s)"

section \<open>One micro-session\<close>

definition dispatch_awake :: "('g, 'x) dispatch_env \<Rightarrow> time \<Rightarrow> string \<Rightarrow> warmup_session \<Rightarrow> ('g \<times> 'x, bool) eff" where
  "dispatch_awake en now worker x =
     (let live = wu_execution_mode x \<in> set LIVE_EXECUTION_MODES in
      eff_bind (pause_if_blocked_by_safety_gate en now worker x) (\<lambda>blocked.
        if blocked then eff_return True
        else (\<lambda>w s.
          if live \<and> \<not> ad_is_available (de_adapter en) (snd w) then skip_unavailable en now x w s
          else run_window en now worker live x w s)))"

definition process_one_dispatch :: "('g, 'x) dispatch_env \<Rightarrow> time \<Rightarrow> string \<Rightarrow> ('g \<times> 'x) session_step" where
  "process_one_dispatch en now worker x w s =
     (if wu_status x = WColdSoak \<and> \<not> is_cold_soak_complete x now
      then (Inr (False, snd (record_cold_soak_in_progress x now s)), w)
      else case advance_from_cold_soak x now s of
          Inl e \<Rightarrow> (Inl e, w)
        | Inr (x0, s0) \<Rightarrow>
            eff_bind (skip_if_outside_cyclic_window en now x0) (\<lambda>r.
              case r of
                None \<Rightarrow> eff_return False
              | Some x1 \<Rightarrow>
                  if is_in_quiet_hours (de_settings en) (session_zone en x1) now then skip_quiet_hours en now x1
                  else dispatch_awake en now worker x1) w s0)"

section \<open>Batches and jobs\<close>

definition dispatch_due :: "uuid option \<Rightarrow> time \<Rightarrow> warmup_session \<Rightarrow> bool" where
  "dispatch_due ws now x \<longleftrightarrow>
     (case ws of None \<Rightarrow> True | Some v \<Rightarrow> wu_workspace_id x = v) \<and> wu_execution_mode x \<noteq> DryRun \<and>
     (wu_status x \<in> {WScheduled, WActive} \<and> at_or_none (wu_next_micro_session_at x) now \<or>
      wu_status x = WColdSoak \<and>
        (at_or_none (wu_next_micro_session_at x) now \<or>
         (case wu_cold_soak_until x of None \<Rightarrow> False | Some t \<Rightarrow> t \<le> now)))"

text \<open>\<open>injected\<close>: the caller gave an adapter.\<close>

definition dispatch_batch :: "warmup_settings \<Rightarrow> uuid option \<Rightarrow> time \<Rightarrow> nat option \<Rightarrow> bool \<Rightarrow> db \<Rightarrow> uuid list" where
  "dispatch_batch cfg ws now limit injected s =
     map wu_id (take (batch_size cfg limit) (sort_key wu_updated_at
       (filter (\<lambda>x. dispatch_due ws now x \<and> (wc_live_enabled cfg \<or> injected \<or> wu_execution_mode x = Shadow))
         (db_warmups s))))"

definition close_adapter :: "('g, 'x) dispatch_env \<Rightarrow> 'a result \<times> ('g \<times> 'x) \<times> db \<Rightarrow> 'a result \<times> ('g \<times> 'x) \<times> db" where
  "close_adapter en r = (case r of (v, (g, y), s) \<Rightarrow> (v, (g, ad_close (de_adapter en) y), s))"

definition process_due_warmup_dispatches ::
  "('g, 'x) dispatch_env \<Rightarrow> uuid option \<Rightarrow> time \<Rightarrow> string \<Rightarrow> nat option \<Rightarrow> bool \<Rightarrow> 'g \<times> 'x \<Rightarrow> db \<Rightarrow>
   nat result \<times> ('g \<times> 'x) \<times> db" where
  "process_due_warmup_dispatches en ws now worker limit injected w s =
     close_adapter en (commit_batch (run_batch (process_one_dispatch en now worker)
       (dispatch_batch (de_settings en) ws now limit injected s) 0 w s) s)"

definition dispatch_session_due :: "warmup_session \<Rightarrow> time \<Rightarrow> bool" where
  "dispatch_session_due x now =
     (if wu_status x \<in> {WScheduled, WActive} then at_or_none (wu_next_micro_session_at x) now
      else if wu_status x = WColdSoak
      then at_or_none (wu_next_micro_session_at x) now \<or>
           (wu_cold_soak_until x \<noteq> None \<and> at_or_none (wu_cold_soak_until x) now)
      else False)"

definition process_warmup_dispatch_session ::
  "('g, 'x) dispatch_env \<Rightarrow> uuid \<Rightarrow> time \<Rightarrow> string \<Rightarrow> bool \<Rightarrow> 'g \<times> 'x \<Rightarrow> db \<Rightarrow> nat result \<times> ('g \<times> 'x) \<times> db" where
  "process_warmup_dispatch_session en i now worker injected w s =
     (case find_session i s of
        None \<Rightarrow> (Inr 0, w, s)
      | Some x \<Rightarrow>
          if wu_execution_mode x = DryRun then (Inr 0, w, s)
          else if \<not> wc_live_enabled (de_settings en) \<and> \<not> injected \<and> wu_execution_mode x \<noteq> Shadow then (Inr 0, w, s)
          else if \<not> dispatch_session_due x now then (Inr 0, w, s)
          else close_adapter en (case process_one_dispatch en now worker x w s of
              (Inl e, w1) \<Rightarrow> (Inl e, w1, s)
            | (Inr (b, s1), w1) \<Rightarrow> (Inr (if b then 1 else 0), w1, s1)))"

text \<open>A queue may fail to take a job; \<open>None\<close> of \<open>due_dispatch_sessions\<close> sorts last, as in PostgreSQL.\<close>

record 'q dispatch_queue =
  dq_enqueue_at :: "time \<Rightarrow> uuid \<Rightarrow> string \<Rightarrow> 'q \<Rightarrow> bool \<times> 'q"

definition due_dispatch_sessions :: "warmup_settings \<Rightarrow> uuid option \<Rightarrow> time \<Rightarrow> nat option \<Rightarrow> db \<Rightarrow> warmup_session list" where
  "due_dispatch_sessions cfg ws now limit s =
     take (batch_size cfg limit)
       (sort_key (\<lambda>x. (wu_workspace_id x,
            (case wu_next_micro_session_at x of None \<Rightarrow> (1::int, 0) | Some t \<Rightarrow> (0, t)), wu_updated_at x))
         (filter (dispatch_due ws now) (db_warmups s)))"

definition next_stagger_delay :: "warmup_settings \<Rightarrow> 'g rng \<Rightarrow> 'g \<Rightarrow> int \<times> 'g" where
  "next_stagger_delay cfg rg g =
     (let a = max 0 (wc_stagger_min_seconds cfg); b = max a (wc_stagger_max_seconds cfg)
      in if b \<le> 0 then (0, g) else rg_randint rg a b g)"

definition dispatch_stagger_enabled :: "warmup_settings \<Rightarrow> bool" where
  "dispatch_stagger_enabled cfg = (0 < max (wc_stagger_min_seconds cfg) (wc_stagger_max_seconds cfg))"

definition MAX_STAGGER_SPAN_SECONDS :: int where
  "MAX_STAGGER_SPAN_SECONDS = 3600"

definition WARMUP_DISPATCH_SESSION_JOB_ID_PREFIX :: string where
  "WARMUP_DISPATCH_SESSION_JOB_ID_PREFIX = ''warmup-dispatch-session''"

text \<open>The number of sessions scheduled, and the database; \<open>None\<close> when the queue failed.\<close>

primrec stagger_sessions ::
  "warmup_settings \<Rightarrow> 'g rng \<Rightarrow> 'q dispatch_queue \<Rightarrow> time \<Rightarrow> warmup_session list \<Rightarrow> (uuid, time) dict \<Rightarrow> nat \<Rightarrow> 'g \<Rightarrow> 'q \<Rightarrow>
   db \<Rightarrow> (nat \<times> db) option \<times> 'g \<times> 'q" where
  "stagger_sessions cfg rg qu now [] cursors n g q s = (Some (n, s), g, q)"
| "stagger_sessions cfg rg qu now (x # xs) cursors n g q s =
     (let (delay, g1) = next_stagger_delay cfg rg g;
          c = (case dict_get cursors (wu_workspace_id x) of None \<Rightarrow> now | Some t \<Rightarrow> t) + seconds delay;
          job = WARMUP_DISPATCH_SESSION_JOB_ID_PREFIX @ ''-'' @ uuid_text (wu_id x)
      in if seconds MAX_STAGGER_SPAN_SECONDS < c - now then (Some (n, s), g1, q)
         else let (ok, q1) = dq_enqueue_at qu c (wu_id x) job q in
           if \<not> ok then (None, g1, q1)
           else
             let x1 = x\<lparr>wu_next_micro_session_at := Some c, wu_next_step_at := Some c\<rparr>;
                 s1 = write_warmup_event now x1 ''connection_stagger_scheduled''
                   [(''scheduled_at'', JTime c), (''job_id'', JStr job),
                    (''stagger_min_seconds'', JInt (wc_stagger_min_seconds cfg)),
                    (''stagger_max_seconds'', JInt (wc_stagger_max_seconds cfg))] (save_session x1 s)
             in stagger_sessions cfg rg qu now xs (dict_set (wu_workspace_id x) c cursors) (Suc n) g1 q1 s1)"

definition enqueue_due_warmup_dispatch_sessions ::
  "warmup_settings \<Rightarrow> 'g rng \<Rightarrow> 'q dispatch_queue \<Rightarrow> uuid option \<Rightarrow> time \<Rightarrow> nat option \<Rightarrow> 'g \<Rightarrow> 'q \<Rightarrow> db \<Rightarrow> bool \<times> 'g \<times> 'q \<times> db" where
  "enqueue_due_warmup_dispatch_sessions cfg rg qu ws now limit g q s =
     (case stagger_sessions cfg rg qu now (due_dispatch_sessions cfg ws now limit s) [] 0 g q s of
        (None, g1, q1) \<Rightarrow> (False, g1, q1, s)
      | (Some (n, s1), g1, q1) \<Rightarrow> (True, g1, q1, s1))"

definition run_warmup_dispatch_tick ::
  "('g, 'x) dispatch_env \<Rightarrow> 'q dispatch_queue \<Rightarrow> time \<Rightarrow> string \<Rightarrow> 'g \<times> 'x \<Rightarrow> 'q \<Rightarrow> db \<Rightarrow>
   nat result \<times> ('g \<times> 'x) \<times> 'q \<times> db" where
  "run_warmup_dispatch_tick en qu now worker w q s =
     (if dispatch_stagger_enabled (de_settings en)
      then case enqueue_due_warmup_dispatch_sessions (de_settings en) (de_rng en) qu None now None (fst w) q s of
          (ok, g1, q1, s1) \<Rightarrow> (Inr (if ok then 1 else 0), (g1, snd w), q1, s1)
      else case process_due_warmup_dispatches en None now worker None False w s of (r, w1, s1) \<Rightarrow> (r, w1, q, s1))"

definition run_warmup_dispatch_session ::
  "('g, 'x) dispatch_env \<Rightarrow> uuid \<Rightarrow> time option \<Rightarrow> time \<Rightarrow> string \<Rightarrow> 'g \<times> 'x \<Rightarrow> db \<Rightarrow> nat result \<times> ('g \<times> 'x) \<times> db" where
  "run_warmup_dispatch_session en i scheduled now worker w s =
     (if (case scheduled of None \<Rightarrow> False | Some t \<Rightarrow> now < t) then (Inr 0, w, s)
      else process_warmup_dispatch_session en i now worker False w s)"

end
