(* ===== verification/WarmupDispatchFrames.thy ===== *)
theory WarmupDispatchFrames
  imports WarmupDispatch WarmupFrames
begin

text \<open>
  What a micro-session leaves alone. The effects of the dispatcher are handled through the condition
  under which a step ends well (\<open>wp\<close>); the locale \<open>dispatch_frame\<close> extends \<open>session_frame\<close> by the writes
  only the dispatcher makes (channels, friends, peers) and lifts a relation between databases to a
  whole micro-session.
\<close>

section \<open>Effects\<close>

text \<open>The step ends with a value, state and database in \<open>Q\<close>, or raises in a state in \<open>E\<close>.\<close>

definition wp :: "('w, 'a) eff \<Rightarrow> 'w \<Rightarrow> db \<Rightarrow> ('a \<Rightarrow> 'w \<Rightarrow> db \<Rightarrow> bool) \<Rightarrow> ('w \<Rightarrow> bool) \<Rightarrow> bool" where
  "wp m w s Q E = (case m w s of (Inl e, w1) \<Rightarrow> E w1 | (Inr (a, s1), w1) \<Rightarrow> Q a w1 s1)"

lemma wp_return [simp]: "wp (eff_return a) w s Q E = Q a w s"
  by (simp add: wp_def eff_return_def)

lemma wp_bind [simp]: "wp (eff_bind m f) w s Q E = wp m w s (\<lambda>a w1 s1. wp (f a) w1 s1 Q E) E"
  by (simp add: wp_def eff_bind_def split: prod.split sum.split)

lemma wp_db [simp]: "wp (eff_db f) w s Q E = Q () w (f s)"
  by (simp add: wp_def eff_db_def)

lemma wp_draw [simp]: "wp (eff_draw f) w s Q E = Q (fst (f (fst w))) (snd (f (fst w)), snd w) s"
  by (simp add: wp_def eff_draw_def split: prod.split)

lemma wp_if: "wp (if b then m else n) w s Q E = (if b then wp m w s Q E else wp n w s Q E)"
  by simp

lemma wp_at: "F w s = m w s \<Longrightarrow> wp F w s Q E = wp m w s Q E"
  by (simp add: wp_def)

lemma wp_mono:
  "wp m w s Q E \<Longrightarrow> (\<And>a w1 s1. Q a w1 s1 \<Longrightarrow> Q' a w1 s1) \<Longrightarrow> (\<And>w1. E w1 \<Longrightarrow> E' w1) \<Longrightarrow> wp m w s Q' E'"
  by (auto simp: wp_def split: prod.splits sum.splits)

lemma wp_conj:
  "wp m w s Q E \<Longrightarrow> wp m w s Q' E \<Longrightarrow> wp m w s (\<lambda>a w1 s1. Q a w1 s1 \<and> Q' a w1 s1) E"
  by (auto simp: wp_def split: prod.splits sum.splits)

lemma wpD: "wp m w s Q E \<Longrightarrow> m w s = (Inr (a, s1), w1) \<Longrightarrow> Q a w1 s1"
  by (simp add: wp_def)

lemma wp_gate:
  "wp (ask_gate en now x) w s Q E =
     (case pv_gate (de_pre en) now (wu_workspace_id x) (wu_account_id x) (snd w) s of
        (Inl e, y, s1) \<Rightarrow> E (fst w, y) | (Inr v, y, s1) \<Rightarrow> Q v (fst w, y) s1)"
  by (simp add: wp_def ask_gate_def split: prod.split sum.split)

lemma wp_subscribed:
  "wp (on_subscribed x ref n m f) w s Q E =
     (case ref of None \<Rightarrow> wp (skip n) w s Q E
      | Some r \<Rightarrow> if is_channel_subscribed x r s then wp (f r) w s Q E else wp (skip m) w s Q E)"
  by (simp add: wp_def on_subscribed_def split: option.split)

lemma wp_give [simp]: "wp (give x d) w s Q E = Q (Context (base_context x @ d)) w s"
  by (simp add: give_def)

lemma wp_skip [simp]: "wp (skip r) w s Q E = Q (SkipAction r []) w s"
  by (simp add: skip_def)

lemma wp_option: "wp (case v of None \<Rightarrow> m | Some u \<Rightarrow> f u) w s Q E =
  (case v of None \<Rightarrow> wp m w s Q E | Some u \<Rightarrow> wp (f u) w s Q E)"
  by (simp split: option.split)

section \<open>Writes of the dispatcher\<close>

text \<open>The tables the dispatcher writes only through the session, its account, its claim and its completion.\<close>

definition core_tables where
  "core_tables s = (db_warmups s, db_accounts s, db_task_runs s, db_isolation_claims s, db_pre_productions s,
     db_strategies s)"

lemma core_of_warm: "warm_tables s' = warm_tables s \<Longrightarrow> core_tables s' = core_tables s"
  by (simp add: core_tables_def warm_tables_def)

lemma get_or_create_core: "core_tables (snd (get_or_create_state w a ref now s)) = core_tables s"
  by (simp add: get_or_create_state_def core_tables_def split: option.split)

lemma save_state_core: "core_tables (save_state c s) = core_tables s"
  by (simp add: save_state_def core_tables_def)

lemma event_core: "core_tables (write_warmup_event now x ty d s) = core_tables s"
  by (simp add: write_warmup_event_def new_id_def core_tables_def)

lemma channel_result_core: "core_tables (record_action_result f now x t ref r s) = core_tables s"
proof -
  have "core_tables (snd (mark_channel_success f w a ref t md now s)) = core_tables s" for w a md
    unfolding mark_channel_success_def Let_def split_def snd_conv by (simp add: save_state_core get_or_create_core)
  moreover have "core_tables (snd (mark_channel_failure w a ref now s)) = core_tables s" for w a
    unfolding mark_channel_failure_def Let_def split_def snd_conv by (simp add: save_state_core get_or_create_core)
  ultimately show ?thesis
    unfolding record_action_result_def Let_def split_def by (simp add: event_core)
qed

lemma channel_if_needed_core: "core_tables (record_channel_action_result_if_needed en now x t r ctx s) = core_tables s"
  by (simp add: record_channel_action_result_if_needed_def channel_result_core split: option.split json.split)

lemma add_link_core: "core_tables (add_link w a f now s) = core_tables s"
  by (simp add: add_link_def new_id_def core_tables_def)

lemma link_friends_core: "core_tables (link_friends rg w a now fs g s) = core_tables s"
  by (induction fs arbitrary: g s) (simp_all add: Let_def split_def add_link_core)

lemma select_peer_core: "core_tables (snd (select_eligible_peer ord rg g w a now ex s)) = core_tables s"
proof -
  have "core_tables (snd (assign_friends ord rg g 3 a w now s)) = core_tables s"
    by (simp add: assign_friends_def Let_def split_def link_friends_core)
  then show ?thesis
    by (auto simp: select_eligible_peer_def Let_def split: prod.split option.split)
qed

lemma contact_core: "core_tables (record_p2p_contact_if_needed now x t ctx live s) = core_tables s"
proof -
  have "record_p2p_contact w a b now s = Inr (n, m, s') \<Longrightarrow> core_tables s' = core_tables s" for w a b n m s'
    by (auto simp: record_p2p_contact_def touch_friend_interaction_def count_contact_def Let_def core_tables_def
        split: option.splits)
  then show ?thesis
    by (auto simp: record_p2p_contact_if_needed_def Let_def event_core split: option.split sum.split)
qed

lemma failure_core: "core_tables (record_dispatch_action_failure en now x t r ctx s) = core_tables s"
  by (simp add: record_dispatch_action_failure_def Let_def channel_if_needed_core event_core
      core_of_warm [OF survival_tables(3)])

lemma success_core: "core_tables (record_dispatch_action_success en now x t r ctx live s) = core_tables s"
  by (simp add: record_dispatch_action_success_def event_core channel_if_needed_core contact_core)

lemma adjustment_core: "core_tables (write_plan_adjustment_event_if_needed now x s) = core_tables s"
  by (simp add: write_plan_adjustment_event_if_needed_def Let_def event_core split: option.split)

section \<open>Micro-sessions\<close>

text \<open>Choosing, executing and recording actions: no session row is written.\<close>

locale action_frame =
  fixes keeps :: "uuid \<Rightarrow> uuid \<Rightarrow> db \<Rightarrow> db \<Rightarrow> bool"
  assumes compose: "keeps i a s s1 \<Longrightarrow> keeps i a s1 s2 \<Longrightarrow> keeps i a s s2"
    and core: "core_tables s' = core_tables s \<Longrightarrow> keeps i a s s'"
begin

lemma same: "keeps i a s s"
  by (rule core) (rule HOL.refl)

definition kept :: "uuid \<Rightarrow> uuid \<Rightarrow> ('w, 'a) eff \<Rightarrow> bool" where
  "kept i a m \<longleftrightarrow> (\<forall>w s. wp m w s (\<lambda>_ _ s'. keeps i a s s') (\<lambda>_. True))"

lemma keptD:
  assumes "kept i a m" and "m w s = (Inr (b, s'), w')"
  shows "keeps i a s s'"
proof -
  have "wp m w s (\<lambda>_ _ s'. keeps i a s s') (\<lambda>_. True)" using assms(1) unfolding kept_def by blast
  with assms(2) show ?thesis by (simp add: wp_def)
qed

lemma kept_return [simp]: "kept i a (eff_return v)"
  by (simp add: kept_def same)

lemma kept_bind: "kept i a m \<Longrightarrow> (\<And>v. kept i a (f v)) \<Longrightarrow> kept i a (eff_bind m f)"
  unfolding kept_def wp_bind by (blast intro: wp_mono compose)

lemma kept_db: "(\<And>s. keeps i a s (f s)) \<Longrightarrow> kept i a (eff_db f)"
  by (simp add: kept_def)

lemma kept_draw [simp]: "kept i a (eff_draw f)"
  by (simp add: kept_def same)

lemma kept_if: "kept i a m \<Longrightarrow> kept i a n \<Longrightarrow> kept i a (if b then m else n)"
  by simp

lemma kept_option: "kept i a m \<Longrightarrow> (\<And>u. kept i a (f u)) \<Longrightarrow> kept i a (case v of None \<Rightarrow> m | Some u \<Rightarrow> f u)"
  by (simp split: option.split)

lemma kept_event [simp]: "kept i a (eff_event now x ty d)"
  unfolding eff_event_def by (rule kept_db) (rule core, rule event_core)

lemma kept_simps [simp]:
  "kept i a (give x d)" "kept i a (skip r)" "kept i a (draw_one en xs)" "kept i a (draw_int en m n)"
  by (simp_all add: give_def skip_def draw_one_def draw_int_def)

lemma kept_gate: "gate_frames (pv_gate (de_pre en)) \<Longrightarrow> kept i a (ask_gate en now x)"
  unfolding kept_def wp_gate
  by (auto split: prod.splits sum.splits intro!: core core_of_warm dest: gate_framesD)

lemma kept_target: "kept i a (selected_or_target en x ref)"
  by (auto simp: kept_def same selected_or_target_def select_chat_target_def Let_def draw_one_def wp_def eff_bind_def
      eff_draw_def eff_return_def split: prod.split)

lemma kept_subscribed: "(\<And>r. kept i a (f r)) \<Longrightarrow> kept i a (on_subscribed x ref n m f)"
  by (simp add: kept_def wp_subscribed same split: option.split)

lemma kept_browse: "kept i a (browse_context en x ref)"
proof -
  have "wp (browse_context en x ref) w s (\<lambda>_ _ s'. keeps i a s s') (\<lambda>_. True)" for w s
    unfolding wp_def browse_context_def
    by (simp add: give_def draw_int_def eff_bind_def eff_draw_def eff_return_def same split: prod.split)
  then show ?thesis by (simp add: kept_def)
qed

lemma kept_story: "kept i a (story_context en x ref)"
proof -
  have "wp (story_context en x ref) w s (\<lambda>_ _ s'. keeps i a s s') (\<lambda>_. True)" for w s
    unfolding wp_def story_context_def Let_def
    by (simp add: skip_def give_def draw_one_def eff_bind_def eff_draw_def eff_return_def same split: prod.split)
  then show ?thesis by (simp add: kept_def)
qed

lemma kept_react: "gate_frames (pv_gate (de_pre en)) \<Longrightarrow> kept i a (react_context en now x ref)"
proof -
  assume g: "gate_frames (pv_gate (de_pre en))"
  have "wp (reaction_channel en x ref) w s (\<lambda>_ _ s'. keeps i a s s') (\<lambda>_. True)" for w s
    unfolding wp_def reaction_channel_def Let_def
    by (simp add: skip_def give_def draw_one_def eff_bind_def eff_draw_def eff_return_def same split: prod.split)
  then have "kept i a (reaction_channel en x ref)" by (simp add: kept_def)
  then show ?thesis unfolding react_context_def by (intro kept_bind kept_gate kept_if kept_return g)
qed

lemma kept_peer: "kept i a (peer_context en now x)"
  unfolding kept_def wp_def peer_context_def
  by (simp add: core [OF select_peer_core] Let_def give_def skip_def eff_return_def split_def split: option.split)

lemma kept_context: "gate_frames (pv_gate (de_pre en)) \<Longrightarrow> kept i a (resolve_action_context en now x t ref)"
  unfolding resolve_action_context_def Let_def
  by (intro kept_if kept_bind kept_option kept_target kept_subscribed kept_browse kept_story kept_react kept_peer kept_simps)

lemma kept_record:
  "kept i a (eff_db (write_dispatch_skip now x t r md))" "kept i a (eff_db (write_write_action_disabled_skip now x t))"
  "kept i a (eff_db (record_dispatch_action_failure en now x t res ctx))"
  "kept i a (eff_db (record_dispatch_action_success en now x t res ctx live))"
  "kept i a (eff_db (write_plan_adjustment_event_if_needed now x))"
  by (intro kept_db core failure_core success_core adjustment_core;
      simp add: write_dispatch_skip_def write_write_action_disabled_skip_def event_core)+

lemma kept_execute: "kept i a (execute_live_action en x t ctx)"
  by (simp add: kept_def wp_def execute_live_action_def same split: prod.split sum.split)

lemma kept_branch: "kept i a m \<Longrightarrow> kept i a n \<Longrightarrow> kept i a (\<lambda>w s. if b w s then m w s else n w s)"
  by (simp add: kept_def wp_def)

lemma kept_resolution:
  "(\<And>c. kept i a (f c)) \<Longrightarrow> (\<And>r md. kept i a (g r md)) \<Longrightarrow>
   kept i a (case res of SkipAction r md \<Rightarrow> g r md | Context c \<Rightarrow> f c)"
  by (simp split: resolution.split)

lemma kept_action: "gate_frames (pv_gate (de_pre en)) \<Longrightarrow> kept i a (dispatch_action en now x t ref live)"
  unfolding dispatch_action_def Let_def
  by (intro kept_if kept_bind kept_record kept_return kept_context kept_resolution kept_branch kept_execute)

lemma kept_actions:
  assumes "gate_frames (pv_gate (de_pre en))"
  shows "kept i a (run_selected en now x live as w)"
proof (induction as arbitrary: w)
  case (Cons b as)
  show ?case
    unfolding run_selected.simps Let_def
    by (intro kept_bind kept_option kept_action [OF assms] Cons.IH)
      (simp split: prod.split add: kept_bind kept_record Cons.IH)
qed simp

lemma kept_select: "kept i a (select_actions en now x)"
  by (auto simp: kept_def wp_def select_actions_def Let_def same split: prod.split sum.split)

end

locale dispatch_frame = session_frame keeps + action_frame keeps for keeps :: "uuid \<Rightarrow> uuid \<Rightarrow> db \<Rightarrow> db \<Rightarrow> bool"
begin

lemma kept_save: "wu_id x = i \<Longrightarrow> wu_account_id x = a \<Longrightarrow> kept i a (eff_save x)"
  unfolding eff_save_def by (rule kept_db) (rule save)

lemma kept_complete:
  assumes "gate_frames (pv_gate (de_pre en))" and "wu_account_id x = a" and "wu_id x = i"
  shows "kept i a (eff_complete en now x)"
  using complete_dispatch_session [OF assms]
  by (auto simp: kept_def wp_def eff_complete_def result_bind_def split: prod.splits sum.splits)

lemma kept_close:
  assumes "gate_frames (pv_gate (de_pre en))" and "wu_account_id x = a" and "wu_id x = i"
  shows "kept i a (close_window en now plan x w)"
  unfolding close_window_def window_closed_def schedule_next_def draw_within_day_def draw_next_day_def Let_def
  by (intro kept_bind kept_if kept_event kept_save kept_draw kept_return kept_record kept_complete; simp add: assms)

lemma kept_failed_close:
  assumes "gate_frames (pv_gate (de_pre en))" and "wu_account_id x = a" and "wu_id x = i"
  shows "kept i a (close_failed_window en now worker plan x w)"
proof -
  let ?x = "after_failure now worker w x"
  have x: "wu_account_id ?x = a" "wu_id ?x = i"
    using assms(2,3) by (simp_all add: after_failure_def Let_def split: option.split)
  have "keeps i a s s2 \<and> wu_account_id x2 = a \<and> wu_id x2 = i"
    if "handle_warmup_step_failure cfg ?x e None now WPausedRisk s = (b, x2, s2)" for cfg e b x2 s s2
    using that x by (auto simp: handle_warmup_step_failure_def Let_def intro!: event_after save split: if_splits)
  note f = this
  have "wp (close_failed_window en now worker plan x w) ww s (\<lambda>_ _ s'. keeps i a s s') (\<lambda>_. True)" for ww s
  proof -
    obtain b x2 s2 where h: "handle_warmup_step_failure (de_settings en) ?x (error_summary (wt_failed w)) None now WPausedRisk s
      = (b, x2, s2)" by (metis prod_cases3)
    note k = f [OF h]
    define m where "m = (if b
         then let x3 = x2\<lparr>wu_next_micro_session_at := None, wu_next_step_at := None\<rparr>
              in eff_bind (eff_save x3) (\<lambda>_. eff_bind (window_closed now x3 w) (\<lambda>_. eff_return True))
         else if max_retry_after_seconds (wt_failed w) \<noteq> None
         then let x3 = x2\<lparr>wu_updated_at := now\<rparr>
              in eff_bind (eff_save x3) (\<lambda>_. eff_bind (window_closed now x3 w) (\<lambda>_. eff_return True))
         else close_window en now plan x2 w)"
    have "kept i a m"
      unfolding m_def Let_def window_closed_def
      by (intro kept_if kept_bind kept_event kept_save kept_return kept_close assms(1); simp add: k)
    then have "wp m ww s2 (\<lambda>_ _ s'. keeps i a s2 s') (\<lambda>_. True)" unfolding kept_def by blast
    then have "wp m ww s2 (\<lambda>_ _ s'. keeps i a s s') (\<lambda>_. True)"
      by (rule wp_mono) (use k trans in blast)+
    moreover have "close_failed_window en now worker plan x w ww s = m ww s2"
      by (simp add: close_failed_window_def h m_def Let_def)
    ultimately show ?thesis by (simp add: wp_def)
  qed
  then show ?thesis by (simp add: kept_def)
qed

lemma kept_settle:
  assumes "gate_frames (pv_gate (de_pre en))" and "wu_account_id x = a" and "wu_id x = i"
  shows "kept i a (settle_window en now worker plan x w)"
  unfolding settle_window_def Let_def
  by (intro kept_if kept_bind kept_save kept_close kept_failed_close assms) (simp_all add: after_success_def assms)

lemma kept_window:
  assumes "gate_frames (pv_gate (de_pre en))" and "wu_account_id x = a" and "wu_id x = i"
  shows "kept i a (run_window en now worker live x)"
proof -
  have k: "kept i a (eff_bind (select_actions en now x) (\<lambda>as.
      eff_bind (window_opened now x as) (\<lambda>_.
      eff_bind (run_selected en now x live as \<lparr>wt_counters = resolve_day_counters x, wt_performed = [], wt_failed = []\<rparr>)
        (settle_window en now worker plan x))))" for plan
    unfolding window_opened_def by (intro kept_bind kept_select kept_event kept_actions kept_settle assms)
  then show ?thesis by (simp add: kept_def wp_def run_window_def Let_def)
qed

lemma kept_awake:
  assumes "gate_frames (pv_gate (de_pre en))" and "wu_account_id x = a" and "wu_id x = i"
  shows "kept i a (dispatch_awake en now worker x)"
  unfolding dispatch_awake_def Let_def pause_if_blocked_by_safety_gate_def skip_unavailable_def draw_within_day_def
  by (intro kept_bind kept_if kept_branch kept_window kept_gate kept_event kept_save kept_draw kept_return assms)
    (simp_all add: assms)

lemma kept_cycle:
  assumes "gate_frames (pv_gate (de_pre en))" and "wu_account_id x = a" and "wu_id x = i"
  shows "kept i a (skip_if_outside_cyclic_window en now x)"
proof -
  have "wu_account_id (schedule_next_cycle x z now) = a" "wu_id (schedule_next_cycle x z now) = i" for z
    using assms(2,3) by (simp_all add: schedule_next_cycle_def Let_def split: option.split)
  then show ?thesis
    unfolding skip_if_outside_cyclic_window_def Let_def
    by (intro kept_option kept_if kept_bind kept_save kept_event kept_return kept_complete assms)
qed

text \<open>A whole micro-session; the session that goes on in its cycle is the same row.\<close>

lemma cycle_session:
  assumes "wu_account_id x = a" and "wu_id x = i"
    and "skip_if_outside_cyclic_window en now x w s = (Inr (Some x1, s1), w1)"
  shows "wu_account_id x1 = a \<and> wu_id x1 = i"
proof -
  have "wu_account_id (schedule_next_cycle x z now) = a" "wu_id (schedule_next_cycle x z now) = i" for z
    using assms(1,2) by (simp_all add: schedule_next_cycle_def Let_def split: option.split)
  then have "wp (skip_if_outside_cyclic_window en now x) w s
    (\<lambda>r _ _. case r of None \<Rightarrow> True | Some y \<Rightarrow> wu_account_id y = a \<and> wu_id y = i) (\<lambda>_. True)"
    using assms(1,2)
    by (auto simp: skip_if_outside_cyclic_window_def Let_def eff_save_def eff_event_def wp_option wp_def
        eff_bind_def eff_db_def eff_return_def split: option.split sum.split prod.split)
  from wpD [OF this assms(3)] show ?thesis by simp
qed

lemma dispatch_step:
  assumes "gate_frames (pv_gate (de_pre en))"
    and "process_one_dispatch en now worker x w s = (Inr (b, s'), w')"
  shows "keeps (wu_id x) (wu_account_id x) s s'"
proof (cases "wu_status x = WColdSoak \<and> \<not> is_cold_soak_complete x now")
  case True
  with assms(2) show ?thesis
    using in_progress [where i = "wu_id x" and a = "wu_account_id x" and x = x]
    by (auto simp: process_one_dispatch_def)
next
  case False
  let ?i = "wu_id x" and ?a = "wu_account_id x"
  from False assms(2) obtain x0 s0 where x0: "advance_from_cold_soak x now s = Inr (x0, s0)"
    by (auto simp: process_one_dispatch_def split: sum.splits)
  from from_cold_soak [OF x0 HOL.refl HOL.refl] have k0: "keeps ?i ?a s s0" "wu_id x0 = ?i" "wu_account_id x0 = ?a" by auto
  let ?f = "\<lambda>r. case r of
       None \<Rightarrow> eff_return False
     | Some x1 \<Rightarrow>
         if is_in_quiet_hours (de_settings en) (session_zone en x1) now then skip_quiet_hours en now x1
         else dispatch_awake en now worker x1"
  have run: "eff_bind (skip_if_outside_cyclic_window en now x0) ?f w s0 = (Inr (b, s'), w')"
    using False x0 assms(2) by (auto simp: process_one_dispatch_def)
  then obtain r w1 s1 where r: "skip_if_outside_cyclic_window en now x0 w s0 = (Inr (r, s1), w1)"
    and f: "?f r w1 s1 = (Inr (b, s'), w')"
    by (auto simp: eff_bind_def split: prod.splits sum.splits)
  have k1: "keeps ?i ?a s0 s1"
    using keptD [OF kept_cycle [OF assms(1) k0(3,2)] r] .
  have "kept ?i ?a (?f r)"
  proof (cases r)
    case (Some x1)
    from cycle_session [OF k0(3,2) r [unfolded Some]] have x1: "wu_account_id x1 = ?a" "wu_id x1 = ?i" by auto
    have "kept ?i ?a (skip_quiet_hours en now x1)"
      unfolding skip_quiet_hours_def Let_def by (intro kept_bind kept_save kept_event kept_return) (simp_all add: x1)
    then show ?thesis using kept_awake [OF assms(1) x1] Some by simp
  qed simp
  then have "keeps ?i ?a s1 s'" using f by (rule keptD)
  with k0(1) k1 show ?thesis by (blast intro: trans)
qed

end

section \<open>The frames\<close>

definition keeps_strategies :: "uuid \<Rightarrow> uuid \<Rightarrow> db \<Rightarrow> db \<Rightarrow> bool" where
  "keeps_strategies i a s s' \<longleftrightarrow> db_strategies s' = db_strategies s"

interpretation cores: action_frame "\<lambda>i a s s'. core_tables s' = core_tables s"
  by unfold_locales simp_all

interpretation strategies: dispatch_frame keeps_strategies
  by unfold_locales
    (auto simp: keeps_strategies_def warm_tables_def core_tables_def save_session_def add_task_run_def new_id_def
      set_runtime_def release_claim_def dest: advance_in_tables split: option.split)

interpretation others: dispatch_frame leaves_others
  by unfold_locales
    (auto simp: leaves_others_def warm_view_def find_session_def account_by_id_def core_tables_def)

interpretation rows: dispatch_frame rows_of
  by unfold_locales (auto simp: rows_of_def core_tables_def)

text \<open>A step of the dispatcher keeps the session rows, their order and their accounts.\<close>

lemmas dispatch_others = others.dispatch_step
lemmas dispatch_rows = rows.dispatch_step
lemmas dispatch_strategies = strategies.dispatch_step

end
