(* ===== verification/WarmupStall.thy ===== *)
theory WarmupStall
  imports WarmupDispatchFrames WarmupSafety
begin

text \<open>
  A live session whose plan asks for an action it cannot execute. The day of a session ends when every
  count of its plan is reached; an action that the operator or the proxy has disabled, and the two
  actions the dispatcher never gives a context, are skipped each time and never counted. Such a session
  stays on its day, at every tick of the dispatcher.
\<close>

section \<open>The plan of a session\<close>

definition never_executed :: "warmup_session \<Rightarrow> string \<Rightarrow> bool" where
  "never_executed x t \<longleftrightarrow>
     t \<in> set (wu_disabled_actions_json x) \<or>
     wu_execution_mode x \<in> set LIVE_EXECUTION_MODES \<and> t \<in> {''sync_contacts'', ''emoji_status''}"

definition stalled :: "string \<Rightarrow> warmup_session \<Rightarrow> db \<Rightarrow> bool" where
  "stalled t x s \<longleftrightarrow>
     never_executed x t \<and> t \<notin> {''failures'', ''flood_waits''} \<and> wu_cycle_config_json x = None \<and>
     plan_get (resolve_day_counters x) t < plan_get (resolve_day_plan x s) t"

text \<open>The session has gone through micro-sessions of the same day; \<open>n\<close> is what the plan asks of \<open>t\<close>.\<close>

definition same_day :: "string \<Rightarrow> int \<Rightarrow> warmup_session \<Rightarrow> warmup_session \<Rightarrow> bool" where
  "same_day t n x y \<longleftrightarrow>
     wu_id y = wu_id x \<and> wu_account_id y = wu_account_id x \<and> wu_strategy_id y = wu_strategy_id x \<and>
     wu_current_day y = wu_current_day x \<and> wu_disabled_actions_json y = wu_disabled_actions_json x \<and>
     wu_execution_mode y = wu_execution_mode x \<and> wu_cycle_config_json y = wu_cycle_config_json x \<and>
     wu_status y \<noteq> WCompleted \<and> plan_get (resolve_day_counters y) t < n \<and>
     (\<forall>k. k < wu_current_day x \<longrightarrow>
        dict_get (wu_daily_counters_json y) (int_text k) = dict_get (wu_daily_counters_json x) (int_text k))"

lemma same_day_update:
  assumes "same_day t n x y"
    and "wu_id y' = wu_id y" "wu_account_id y' = wu_account_id y" "wu_strategy_id y' = wu_strategy_id y"
      "wu_current_day y' = wu_current_day y" "wu_disabled_actions_json y' = wu_disabled_actions_json y"
      "wu_execution_mode y' = wu_execution_mode y" "wu_cycle_config_json y' = wu_cycle_config_json y"
      "wu_status y' \<noteq> WCompleted" "wu_daily_counters_json y' = wu_daily_counters_json y"
  shows "same_day t n x y'"
proof -
  have "resolve_day_counters y' = resolve_day_counters y" by (simp only: resolve_day_counters_def assms)
  with assms show ?thesis by (simp add: same_day_def)
qed

lemma same_day_open: "same_day t n x y \<Longrightarrow> wu_status y \<noteq> WCompleted"
  by (simp add: same_day_def)

lemma int_entries_nonneg: "0 \<le> plan_get (int_entries d) t"
proof -
  have "(k, n) \<in> set (int_entries d) \<Longrightarrow> 0 \<le> n" for k n
    by (auto simp: int_entries_def split: option.splits)
  then show ?thesis by (auto simp: plan_get_def dict_get_def split: option.split dest: map_of_SomeD)
qed

lemma counters_nonneg: "0 \<le> plan_get (resolve_day_counters x) t"
proof -
  have "resolve_day_counters x = [] \<or> (\<exists>d. resolve_day_counters x = int_entries d)"
    by (auto simp: resolve_day_counters_def split: option.split json.split)
  then show ?thesis using int_entries_nonneg by (elim disjE exE) (simp_all, simp add: plan_get_def dict_get_def)
qed

lemma int_entries_of_ints: "plan_get (int_entries (map (\<lambda>(k, n). (k, JInt n)) d)) t = max 0 (plan_get d t)"
  by (induction d) (auto simp: plan_get_def dict_get_def int_entries_def py_int_def)

lemma persisted_counters:
  "wu_daily_counters_json y = persist_day_counters (wu_daily_counters_json x) (wu_current_day y) c \<Longrightarrow>
   plan_get (resolve_day_counters y) t = max 0 (plan_get c t)"
  by (simp add: resolve_day_counters_def persist_day_counters_def dict_get_set int_entries_of_ints)

text \<open>The plan of a day depends on the strategy, the day and the counters of the days before it.\<close>

lemma plan_cong:
  assumes "wu_strategy_id y = wu_strategy_id x" and "wu_current_day y = wu_current_day x"
    and "\<And>k. k < wu_current_day x \<Longrightarrow>
      dict_get (wu_daily_counters_json y) (int_text k) = dict_get (wu_daily_counters_json x) (int_text k)"
    and "db_strategies s' = db_strategies s"
  shows "resolve_day_plan y s' = resolve_day_plan x s"
proof -
  have snap: "day_snapshots (wu_daily_counters_json y) ds = day_snapshots (wu_daily_counters_json x) ds"
    if "\<forall>k\<in>set ds. k < wu_current_day x" for ds
    using that by (induction ds) (simp_all add: assms(3) split: option.split json.split)
  have recent: "recent_day_counters y = recent_day_counters x"
    using snap by (simp add: recent_day_counters_def assms(2))
  have "session_strategy y s' = session_strategy x s"
    by (simp add: session_strategy_def get_strategy_def assms)
  then have strategy: "strategy_limits y s' = strategy_limits x s" "is_adaptive_enabled y s' = is_adaptive_enabled x s"
    by (simp_all add: strategy_limits_def is_adaptive_enabled_def)
  then have types: "strategy_action_types y s' = strategy_action_types x s" by (simp add: strategy_action_types_def)
  have "describe_next_day_adjustment y s' = describe_next_day_adjustment x s"
    unfolding describe_next_day_adjustment_def strategy(2) recent types by (rule refl)
  moreover have "raw_day_plan y s' = raw_day_plan x s"
    unfolding raw_day_plan_def strategy(1) assms(2) by (rule refl)
  ultimately show ?thesis by (simp add: resolve_day_plan_def split: option.split json.split)
qed

lemma plan_same: "same_day t n x y \<Longrightarrow> db_strategies s' = db_strategies s \<Longrightarrow> resolve_day_plan y s' = resolve_day_plan x s"
  by (rule plan_cong) (simp_all add: same_day_def)

lemma plan_incomplete:
  assumes "plan_get counters t < plan_get plan t" and "0 \<le> plan_get counters t"
  shows "\<not> is_day_complete plan counters"
proof -
  obtain n where n: "map_of plan t = Some n" "plan_get plan t = n"
    using assms by (cases "map_of plan t") (simp_all add: plan_get_def dict_get_def)
  then have "(t, n) \<in> set plan" by (simp add: map_of_SomeD)
  then show ?thesis using assms(1) n(2) by (force simp: is_day_complete_def list_all_iff)
qed

section \<open>The actions of a window\<close>

lemma no_context:
  "resolve_action_context en now x ''sync_contacts'' ref = skip ''no_contacts_pool_available''"
  "resolve_action_context en now x ''emoji_status'' ref = skip ''non_premium_account''"
  by (simp_all add: resolve_action_context_def Let_def)

lemma never_dispatched:
  assumes "never_executed x t"
  shows "wp (dispatch_action en now x t ref (wu_execution_mode x \<in> set LIVE_EXECUTION_MODES)) w s
    (\<lambda>r _ _. r = None) (\<lambda>_. True)"
proof (cases "t \<in> set (wu_disabled_actions_json x)")
  case True
  then show ?thesis by (simp add: dispatch_action_def Let_def)
next
  case False
  with assms have "wu_execution_mode x \<in> set LIVE_EXECUTION_MODES" "t = ''sync_contacts'' \<or> t = ''emoji_status''"
    by (auto simp: never_executed_def)
  with False show ?thesis by (elim disjE) (simp_all add: dispatch_action_def Let_def no_context)
qed

lemma never_counted:
  assumes "gate_frames (pv_gate (de_pre en))" and "never_executed x t"
  shows "wp (run_selected en now x (wu_execution_mode x \<in> set LIVE_EXECUTION_MODES) as c) w s
    (\<lambda>c' _ s'. plan_get (wt_counters c') t = plan_get (wt_counters c) t \<and> core_tables s' = core_tables s) (\<lambda>_. True)"
proof -
  let ?live = "wu_execution_mode x \<in> set LIVE_EXECUTION_MODES"
  have "wp (run_selected en now x ?live as c) w s
    (\<lambda>c' _ s'. plan_get (wt_counters c') t = plan_get (wt_counters c) t) (\<lambda>_. True)" for c w s
  proof (induction as arbitrary: c w s)
    case (Cons a as)
    show ?case
    proof (cases "sa_action_type a = t")
      case True
      show ?thesis
        unfolding run_selected.simps Let_def wp_bind True
        by (rule wp_mono [OF never_dispatched [OF assms(2)]]) (use Cons.IH in simp_all)
    next
      case False
      have go: "plan_get (dict_set (sa_action_type a) m d) t = plan_get d t" for m d
        using False by (simp add: plan_get_def dict_get_set)
      have "wp (dispatch_action en now x (sa_action_type a) (sa_channel_ref a) ?live) w s (\<lambda>_ _ _. True) (\<lambda>_. True)"
        by (simp add: wp_def split: prod.split sum.split)
      then show ?thesis
        unfolding run_selected.simps Let_def wp_bind
      proof (rule wp_mono)
        fix r w1 s1
        show "wp (case r of None \<Rightarrow> run_selected en now x ?live as c
          | Some (res, ctx) \<Rightarrow>
              if \<not> is_ok res
              then eff_bind (eff_db (record_dispatch_action_failure en now x (sa_action_type a) res ctx)) (\<lambda>_.
                     run_selected en now x ?live as (c\<lparr>wt_failed := wt_failed c @ [(sa_action_type a, res)]\<rparr>))
              else eff_bind (eff_db (record_dispatch_action_success en now x (sa_action_type a) res ctx ?live)) (\<lambda>_.
                     run_selected en now x ?live as
                       (c\<lparr>wt_counters := dict_set (sa_action_type a) (plan_get (wt_counters c) (sa_action_type a) + 1) (wt_counters c),
                          wt_performed := wt_performed c @ [sa_action_type a]\<rparr>))) w1 s1
          (\<lambda>c' _ s'. plan_get (wt_counters c') t = plan_get (wt_counters c) t) (\<lambda>_. True)"
          using Cons.IH [of c w1 s1] Cons.IH [of "c\<lparr>wt_failed := wt_failed c @ [(sa_action_type a, _)]\<rparr>"]
            Cons.IH [of "c\<lparr>wt_counters := dict_set (sa_action_type a) (plan_get (wt_counters c) (sa_action_type a) + 1) (wt_counters c),
                          wt_performed := wt_performed c @ [sa_action_type a]\<rparr>"]
          by (cases r) (simp_all add: go split: prod.split)
      qed simp
    qed
  qed simp
  moreover have "wp (run_selected en now x ?live as c) w s (\<lambda>_ _ s'. core_tables s' = core_tables s) (\<lambda>_. True)"
    using cores.kept_actions [OF assms(1)] unfolding cores.kept_def by blast
  ultimately show ?thesis by (rule wp_conj)
qed

section \<open>One micro-session\<close>

text \<open>The row of the session, at the same day.\<close>

definition stays :: "string \<Rightarrow> int \<Rightarrow> warmup_session \<Rightarrow> db \<Rightarrow> bool" where
  "stays t n x s \<longleftrightarrow> (\<exists>y. find_session (wu_id x) s = Some y \<and> same_day t n x y)"

lemma stays_core: "core_tables s' = core_tables s \<Longrightarrow> stays t n x s' = stays t n x s"
  by (simp add: stays_def core_tables_def find_session_def)

lemma stays_event [simp]: "stays t n x (write_warmup_event now y ty d s) = stays t n x s"
  by (rule stays_core) (rule event_core)

lemma stays_save: "stays t n x s \<Longrightarrow> same_day t n x y \<Longrightarrow> stays t n x (save_session y s)"
  by (auto simp: stays_def find_save_session same_day_def)

lemma gate_core: "gate_frames (pv_gate (de_pre en)) \<Longrightarrow>
  wp (ask_gate en now x) w s (\<lambda>_ _ s'. core_tables s' = core_tables s) (\<lambda>_. True)"
  using cores.kept_gate unfolding cores.kept_def by blast

lemma close_stays:
  assumes "plan_get (wt_counters c) t < plan_get plan t" and "0 \<le> plan_get (wt_counters c) t"
    and "stays t n x s" and "same_day t n x y"
  shows "wp (close_window en now plan y c) w s (\<lambda>_ _ s'. stays t n x s') (\<lambda>_. True)"
proof -
  have y: "same_day t n x (y\<lparr>wu_next_micro_session_at := u, wu_next_step_at := v, wu_updated_at := z\<rparr>)" for u v z
    by (rule same_day_update [OF assms(4)]) (simp_all add: same_day_open [OF assms(4)])
  show ?thesis
    using plan_incomplete [OF assms(1,2)] assms(3)
    by (simp add: close_window_def window_closed_def eff_event_def draw_within_day_def schedule_next_def eff_save_def
        stays_save y)
qed

text \<open>The counters of the window, written back; what else changes does not matter.\<close>

lemma counted_stays:
  assumes "same_day t n x y" and "plan_get c t < n" and "0 < n"
    and "wu_daily_counters_json y' = persist_day_counters (wu_daily_counters_json y) (wu_current_day y) c"
    and "wu_id y' = wu_id y" "wu_account_id y' = wu_account_id y" "wu_strategy_id y' = wu_strategy_id y"
      "wu_current_day y' = wu_current_day y" "wu_disabled_actions_json y' = wu_disabled_actions_json y"
      "wu_execution_mode y' = wu_execution_mode y" "wu_cycle_config_json y' = wu_cycle_config_json y"
      "wu_status y' \<noteq> WCompleted"
  shows "same_day t n x y'"
proof -
  have "plan_get (resolve_day_counters y') t = max 0 (plan_get c t)"
    by (rule persisted_counters [where x = y]) (simp add: assms)
  then show ?thesis
    using assms by (auto simp: same_day_def persist_day_counters_def dict_get_set)
qed

lemma failed_counters:
  "t \<notin> {''failures'', ''flood_waits''} \<Longrightarrow> plan_get (record_failed_actions_in_counters d failed) t = plan_get d t"
  by (simp add: record_failed_actions_in_counters_def Let_def plan_get_def dict_get_set)

lemma failed_close_stays:
  assumes "plan_get (wt_counters c) t < plan_get plan t" and "0 \<le> plan_get (wt_counters c) t"
    and "plan_get (wt_counters c) t < n" and "stays t n x s" and "same_day t n x y"
  shows "wp (close_failed_window en now worker plan y c) w s (\<lambda>_ _ s'. stays t n x s') (\<lambda>_. True)"
proof -
  let ?y = "after_failure now worker c y"
  have y: "same_day t n x ?y"
    by (rule counted_stays [OF assms(5,3)])
      (use assms(2,3,5) in \<open>auto simp: after_failure_def Let_def same_day_def split: option.split\<close>)
  obtain b y2 s2 where h: "handle_warmup_step_failure (de_settings en) ?y (error_summary (wt_failed c)) None now WPausedRisk s
    = (b, y2, s2)" by (metis prod_cases3)
  have "\<And>u v p q. same_day t n x (?y\<lparr>wu_consecutive_failures := u, wu_updated_at := v\<rparr>) \<and>
      same_day t n x (?y\<lparr>wu_consecutive_failures := u, wu_updated_at := v, wu_status := WPausedRisk, wu_paused_at := p\<rparr>)"
    by (intro conjI same_day_update [OF y]) (simp_all add: same_day_open [OF y])
  then have y2: "same_day t n x y2" "stays t n x s2"
    using h assms(4) by (auto simp: handle_warmup_step_failure_def Let_def stays_save split: if_splits)
  then have y3: "same_day t n x (y2\<lparr>wu_next_micro_session_at := None, wu_next_step_at := None\<rparr>)"
    "same_day t n x (y2\<lparr>wu_updated_at := now\<rparr>)"
    by (intro same_day_update [OF y2(1)]; simp add: same_day_open [OF y2(1)])+
  have close: "wp (close_window en now plan y2 c) w s2 (\<lambda>_ _ s'. stays t n x s') (\<lambda>_. True)"
    by (rule close_stays [OF assms(1,2) y2(2,1)])
  have stop: "same_day t n x z \<Longrightarrow>
    wp (eff_bind (eff_save z) (\<lambda>_. eff_bind (window_closed now z c) (\<lambda>_. eff_return True))) w s2
      (\<lambda>_ _ s'. stays t n x s') (\<lambda>_. True)" for z
    by (simp add: window_closed_def eff_event_def eff_save_def stays_save y2(2))
  show ?thesis
    using close stop [OF y3(1)] stop [OF y3(2)]
    by (simp add: wp_def close_failed_window_def h Let_def del: not_None_eq)
qed

lemma settle_stays:
  assumes "plan_get (wt_counters c) t < plan_get plan t" and "0 \<le> plan_get (wt_counters c) t"
    and "plan_get (wt_counters c) t < n" and "t \<notin> {''failures'', ''flood_waits''}"
    and "stays t n x s" and "same_day t n x y"
  shows "wp (settle_window en now worker plan y c) w s (\<lambda>_ _ s'. stays t n x s') (\<lambda>_. True)"
proof -
  define d where "d = (if wt_failed c = [] then c
    else c\<lparr>wt_counters := record_failed_actions_in_counters (wt_counters c) (wt_failed c)\<rparr>)"
  have d: "plan_get (wt_counters d) t = plan_get (wt_counters c) t"
    using failed_counters [OF assms(4)] by (simp add: d_def)
  let ?y = "after_success now worker d y"
  have y: "same_day t n x ?y"
    by (rule counted_stays [OF assms(6)]) (use assms(2,3,6) d in \<open>auto simp: after_success_def same_day_def\<close>)
  have 1: "wp (close_window en now plan ?y d) w (save_session ?y s) (\<lambda>_ _ s'. stays t n x s') (\<lambda>_. True)"
    by (rule close_stays) (use assms d y stays_save in auto)
  have 2: "wp (close_failed_window en now worker plan y d) w s (\<lambda>_ _ s'. stays t n x s') (\<lambda>_. True)"
    by (rule failed_close_stays) (use assms d in auto)
  have 3: "wp (close_window en now plan y d) w s (\<lambda>_ _ s'. stays t n x s') (\<lambda>_. True)"
    by (rule close_stays) (use assms d in auto)
  show ?thesis
    unfolding settle_window_def Let_def d_def [symmetric] using 1 2 3 by (simp add: eff_save_def)
qed

lemma same_day_fields:
  "same_day t n x y \<Longrightarrow> never_executed y t = never_executed x t"
  by (simp add: same_day_def never_executed_def)

lemma awake_stays:
  assumes gate: "gate_frames (pv_gate (de_pre en))"
    and "stalled t x s" and "n = plan_get (resolve_day_plan x s) t" and "stays t n x s" and "same_day t n x y"
  shows "wp (dispatch_awake en now worker y) w s (\<lambda>_ _ s'. stays t n x s') (\<lambda>_. True)"
proof -
  let ?live = "wu_execution_mode y \<in> set LIVE_EXECUTION_MODES"
  have never: "never_executed y t" "t \<notin> {''failures'', ''flood_waits''}"
    using assms(2) same_day_fields [OF assms(5)] by (simp_all add: stalled_def)
  have window: "wp (run_window en now worker ?live y) w1 s1 (\<lambda>_ _ s'. stays t n x s') (\<lambda>_. True)"
    if s1: "core_tables s1 = core_tables s" for w1 s1
  proof -
    let ?plan = "resolve_day_plan y s1" and ?c = "\<lparr>wt_counters = resolve_day_counters y, wt_performed = [], wt_failed = []\<rparr>"
    have plan: "plan_get ?plan t = n"
      using plan_same [OF assms(5), of s1 s] s1 assms(3) by (simp add: core_tables_def)
    have cnt: "plan_get (resolve_day_counters y) t < n" using assms(5) by (simp add: same_day_def)
    have select: "wp (select_actions en now y) w1 s1 (\<lambda>_ _ s2. core_tables s2 = core_tables s1) (\<lambda>_. True)"
      using cores.kept_select unfolding cores.kept_def by blast
    have act: "wp (run_selected en now y ?live as ?c) w2 s2
        (\<lambda>c' w3 s3. wp (settle_window en now worker ?plan y c') w3 s3 (\<lambda>_ _ s'. stays t n x s') (\<lambda>_. True)) (\<lambda>_. True)"
      if s2: "core_tables s2 = core_tables s1" for as w2 s2
    proof (rule wp_mono [OF never_counted [OF gate never(1)]])
      fix c' :: window_tally and w3 and s3 :: db
      assume c': "plan_get (wt_counters c') t = plan_get (wt_counters ?c) t \<and> core_tables s3 = core_tables s2"
      have "stays t n x s3" using assms(4) stays_core [of s3 s] c' s1 s2 by simp
      moreover have "0 \<le> plan_get (wt_counters c') t" using c' counters_nonneg [of y t] by simp
      ultimately show "wp (settle_window en now worker ?plan y c') w3 s3 (\<lambda>_ _ s'. stays t n x s') (\<lambda>_. True)"
        using c' cnt plan by (intro settle_stays assms(5) never(2)) simp_all
    qed simp
    have "wp (eff_bind (select_actions en now y) (\<lambda>as. eff_bind (window_opened now y as) (\<lambda>_.
        eff_bind (run_selected en now y ?live as ?c) (settle_window en now worker ?plan y)))) w1 s1
        (\<lambda>_ _ s'. stays t n x s') (\<lambda>_. True)"
      unfolding wp_bind window_opened_def eff_event_def wp_db
      by (rule wp_mono [OF select]) (simp_all add: act event_core)
    then show ?thesis by (simp add: wp_def run_window_def Let_def)
  qed
  have pause: "same_day t n x (y\<lparr>wu_status := WPausedRisk, wu_next_micro_session_at := None, wu_next_step_at := None,
      wu_worker_id := Some worker, wu_updated_at := now\<rparr>)"
    by (rule same_day_update [OF assms(5)]) (simp_all add: same_day_open [OF assms(5)])
  have later: "same_day t n x (y\<lparr>wu_next_micro_session_at := u, wu_next_step_at := v, wu_updated_at := now\<rparr>)" for u v
    by (rule same_day_update [OF assms(5)]) (simp_all add: same_day_open [OF assms(5)])
  have unavailable: "wp (skip_unavailable en now y) w1 s1 (\<lambda>_ _ s'. stays t n x s') (\<lambda>_. True)"
    if "core_tables s1 = core_tables s" for w1 s1
    using that assms(4) stays_core [of s1 s]
    by (simp add: skip_unavailable_def draw_within_day_def eff_save_def eff_event_def Let_def stays_save later)
  have "wp (pause_if_blocked_by_safety_gate en now worker y) w s
      (\<lambda>b _ s1. if b then stays t n x s1 else core_tables s1 = core_tables s) (\<lambda>_. True)"
    unfolding pause_if_blocked_by_safety_gate_def wp_bind
  proof (rule wp_mono [OF gate_core [OF gate]])
    fix v :: gate_verdict and w1 and s1 :: db
    assume c: "core_tables s1 = core_tables s"
    then have "stays t n x s1" using assms(4) stays_core [of s1 s] by simp
    with c show "wp (if gv_severity v \<noteq> VerdictBlocked then eff_return False
       else
         let x1 = y\<lparr>wu_status := WPausedRisk, wu_next_micro_session_at := None, wu_next_step_at := None,
                    wu_worker_id := Some worker, wu_updated_at := now\<rparr>
         in eff_bind (eff_save x1) (\<lambda>_.
            eff_bind (eff_event now x1 ''warmup_dispatch_blocked_by_gate''
              [(''reasons'', JList (map reason_json (gv_reasons v)))]) (\<lambda>_. eff_return True))) w1 s1
      (\<lambda>b _ s1. if b then stays t n x s1 else core_tables s1 = core_tables s) (\<lambda>_. True)"
      by (simp add: eff_save_def eff_event_def Let_def stays_save pause)
  qed simp
  then show ?thesis
    unfolding dispatch_awake_def Let_def wp_bind
  proof (rule wp_mono)
    fix b w1 s1
    assume b: "if b then stays t n x s1 else core_tables s1 = core_tables s"
    show "wp (if b then eff_return True
        else (\<lambda>w s. if ?live \<and> \<not> ad_is_available (de_adapter en) (snd w) then skip_unavailable en now y w s
                else run_window en now worker ?live y w s)) w1 s1 (\<lambda>_ _ s'. stays t n x s') (\<lambda>_. True)"
      using b window [of s1 w1] unavailable [of s1 w1] by (cases b) (simp_all add: wp_def eff_return_def)
  qed simp
qed

text \<open>
  A micro-session of a stalled session leaves it on its day, whatever the adapter, the generators and
  the gate answer.
\<close>

lemma stalled_step:
  assumes gate: "gate_frames (pv_gate (de_pre en))"
    and x: "find_session (wu_id x) s = Some x" "stalled t x s" "wu_status x \<noteq> WCompleted"
    and n: "n = plan_get (resolve_day_plan x s) t"
  shows "wp (process_one_dispatch en now worker x) w s (\<lambda>_ _ s'. stays t n x s') (\<lambda>_. True)"
proof -
  have x0: "same_day t n x x" using x by (simp add: same_day_def stalled_def n)
  then have s0: "stays t n x s" using x(1) by (auto simp: stays_def)
  show ?thesis
  proof (cases "wu_status x = WColdSoak \<and> \<not> is_cold_soak_complete x now")
    case True
    let ?y = "fst (record_cold_soak_in_progress x now s)"
    have y: "same_day t n x ?y"
      by (rule same_day_update [OF x0])
        (simp_all add: record_cold_soak_in_progress_def Let_def same_day_open [OF x0] split: option.split)
    have "snd (record_cold_soak_in_progress x now s) =
      (if should_write_in_progress_event ?y now (save_session ?y s)
       then write_warmup_event now ?y ''cold_soak_in_progress''
         [(''until'', case wu_cold_soak_until ?y of None \<Rightarrow> JNull | Some t \<Rightarrow> JTime t)] (save_session ?y s)
       else save_session ?y s)"
      unfolding record_cold_soak_in_progress_def Let_def fst_conv snd_conv by (rule refl)
    then have "stays t n x (snd (record_cold_soak_in_progress x now s))"
      using stays_save [OF s0 y] by simp
    with True show ?thesis by (simp add: wp_def process_one_dispatch_def)
  next
    case False
    show ?thesis
    proof (cases "advance_from_cold_soak x now s")
      case (Inl e)
      with False show ?thesis by (auto simp: wp_def process_one_dispatch_def)
    next
      case (Inr p)
      obtain y s1 where p: "p = (y, s1)" by fastforce
      have ys: "same_day t n x y \<and> stays t n x s1 \<and> db_strategies s1 = db_strategies s"
      proof (cases "wu_status x = WColdSoak")
        case True
        define x1 where "x1 = x\<lparr>wu_status := WScheduled, wu_next_step_at := Some now,
          wu_next_micro_session_at := (if wu_execution_mode x \<noteq> DryRun then Some now else wu_next_micro_session_at x),
          wu_updated_at := now\<rparr>"
        have x1: "same_day t n x x1" by (rule same_day_update [OF x0]) (simp_all add: x1_def)
        from Inr True obtain s2 where w: "advance_account_to_warming x1 now (save_session x1 s) = Inr s2"
          and r: "y = x1" "s1 = write_warmup_event now x1 ''cold_soak_completed'' [(''transitioned_at'', JTime now)] s2"
          by (auto simp: advance_from_cold_soak_def Let_def result_bind_Inr_iff x1_def p)
        have "db_strategies s1 = db_strategies s"
          using strategies.from_cold_soak [of x now s y s1 "wu_id x" "wu_account_id x"] Inr p by (simp add: keeps_strategies_def)
        moreover have "db_warmups s2 = db_warmups (save_session x1 s)"
          using w by (auto simp: advance_account_to_warming_def catch_up_def result_bind_Inr_iff split: if_splits
              dest!: advance_in_tables(1))
        then have "stays t n x s2"
          using stays_save [OF s0 x1] by (simp add: stays_def find_session_def)
        ultimately show ?thesis using r x1 by simp
      qed (use Inr p x0 s0 in \<open>simp add: advance_from_cold_soak_def\<close>)
      have plan: "plan_get (resolve_day_plan x s1) t = n" "stalled t x s1"
        using plan_same [OF x0, of s1 s] ys x(2) n by (simp_all add: stalled_def)
      have cyc: "wu_cycle_config_json y = None" using ys x(2) by (simp add: same_day_def stalled_def)
      have q: "same_day t n x (y\<lparr>wu_next_micro_session_at := u, wu_updated_at := now\<rparr>)" for u
        by (rule same_day_update [of t n x y]) (use ys same_day_open [of t n x y] in simp_all)
      have quiet: "wp (skip_quiet_hours en now y) w s1 (\<lambda>_ _ s'. stays t n x s') (\<lambda>_. True)"
        using ys by (simp add: skip_quiet_hours_def Let_def eff_save_def eff_event_def stays_save q)
      have awake: "wp (dispatch_awake en now worker y) w s1 (\<lambda>_ _ s'. stays t n x s') (\<lambda>_. True)"
        by (rule awake_stays [OF gate plan(2) _ _]) (use ys plan in simp_all)
      have "process_one_dispatch en now worker x w s =
        (if is_in_quiet_hours (de_settings en) (session_zone en y) now then skip_quiet_hours en now y w s1
         else dispatch_awake en now worker y w s1)"
        using False Inr p
        by (auto simp: process_one_dispatch_def eff_bind_def skip_if_outside_cyclic_window_def cycle_window_status_def
            cyc Let_def eff_return_def)
      with quiet awake show ?thesis by (simp add: wp_def)
    qed
  qed
qed

section \<open>The jobs\<close>

text \<open>
  The databases that the dispatch jobs reach, at any times, with any of the environments and queues
  \<open>E\<close>: a tick, staggered or not, and the job of a single session.
\<close>

inductive dispatched ::
  "(('g, 'x) dispatch_env \<times> 'q dispatch_queue) set \<Rightarrow> db \<Rightarrow> db \<Rightarrow> bool" for E and s0 where
  dispatched_start: "dispatched E s0 s0"
| dispatched_tick:
    "dispatched E s0 s \<Longrightarrow> (en, qu) \<in> E \<Longrightarrow> run_warmup_dispatch_tick en qu now worker w q s = (r, w1, q1, s1) \<Longrightarrow>
     dispatched E s0 s1"
| dispatched_session:
    "dispatched E s0 s \<Longrightarrow> (en, qu) \<in> E \<Longrightarrow> run_warmup_dispatch_session en i scheduled now worker w s = (r, w1, s1) \<Longrightarrow>
     dispatched E s0 s1"

lemma same_day_trans: "same_day t n x y \<Longrightarrow> same_day t n y z \<Longrightarrow> same_day t n x z"
  by (simp add: same_day_def)

definition stall_inv :: "string \<Rightarrow> warmup_session \<Rightarrow> db \<Rightarrow> db \<Rightarrow> bool" where
  "stall_inv t x s0 s \<longleftrightarrow>
     stalled t x s0 \<and> distinct (map wu_id (db_warmups s)) \<and>
     stays t (plan_get (resolve_day_plan x s0) t) x s \<and> db_strategies s = db_strategies s0"

lemma inv_row: "stall_inv t x s0 s \<Longrightarrow> \<exists>y. find_session (wu_id x) s = Some y \<and> stalled t y s \<and> wu_status y \<noteq> WCompleted \<and>
    same_day t (plan_get (resolve_day_plan x s0) t) x y \<and>
    plan_get (resolve_day_plan y s) t = plan_get (resolve_day_plan x s0) t"
proof -
  assume inv: "stall_inv t x s0 s"
  then obtain y where y: "find_session (wu_id x) s = Some y" "same_day t (plan_get (resolve_day_plan x s0) t) x y"
    by (auto simp: stall_inv_def stays_def)
  have "resolve_day_plan y s = resolve_day_plan x s0"
    using plan_same [OF y(2)] inv by (simp add: stall_inv_def)
  then show ?thesis using inv y by (auto simp: stall_inv_def stalled_def same_day_def never_executed_def)
qed

lemma inv_step:
  assumes inv: "stall_inv t x s0 s" and gate: "gate_frames (pv_gate (de_pre en))"
    and row: "find_session j s = Some z" and step: "process_one_dispatch en now worker z w s = (Inr (b, s1), w1)"
  shows "stall_inv t x s0 s1"
proof -
  let ?n = "plan_get (resolve_day_plan x s0) t"
  have z: "wu_id z = j" using row by (auto simp: find_session_def dest: find_mem)
  have "stays t ?n x s1"
  proof (cases "j = wu_id x")
    case True
    obtain y where y: "find_session (wu_id x) s = Some y" "stalled t y s" "wu_status y \<noteq> WCompleted" "same_day t ?n x y"
      "plan_get (resolve_day_plan y s) t = ?n" using inv_row [OF inv] by blast
    then have zy: "z = y" using row True by simp
    have id: "wu_id y = wu_id x" using y(4) by (simp add: same_day_def)
    have "stays t ?n y s1"
      using wpD [OF stalled_step [OF gate _ y(2,3) y(5) [symmetric], of now worker w] step [unfolded zy]] y(1) id by simp
    then show ?thesis using same_day_trans [OF y(4)] id by (auto simp: stays_def)
  next
    case False
    have "find_session (wu_id x) s1 = find_session (wu_id x) s"
      using dispatch_others [OF gate step] z False
      unfolding leaves_others_def warm_view_def by (metis n_not_Suc_n prod.inject)
    then show ?thesis using inv by (simp add: stall_inv_def stays_def)
  qed
  moreover have "db_strategies s1 = db_strategies s" "map wu_id (db_warmups s1) = map wu_id (db_warmups s)"
    using dispatch_strategies [OF gate step] dispatch_rows [OF gate step] by (simp_all add: keeps_strategies_def rows_of_def)
  ultimately show ?thesis using inv by (simp add: stall_inv_def del: distinct_map)
qed

lemma inv_batch:
  assumes "stall_inv t x s0 s" and "gate_frames (pv_gate (de_pre en))"
    and "run_batch (process_one_dispatch en now worker) is k w s = (Inr (m, s1), w1)"
  shows "stall_inv t x s0 s1"
  using assms(1,3)
proof (induction "is" arbitrary: k w s)
  case (Cons j js)
  show ?case
  proof (cases "find_session j s")
    case (Some z)
    with Cons.prems(2) obtain b w2 s2 where step: "process_one_dispatch en now worker z w s = (Inr (b, s2), w2)"
      and rest: "run_batch (process_one_dispatch en now worker) js (if b then Suc k else k) w2 s2 = (Inr (m, s1), w1)"
      by (auto split: prod.splits sum.splits)
    from Cons.IH [OF inv_step [OF Cons.prems(1) assms(2) Some step] rest] show ?thesis .
  qed (use Cons in simp)
qed simp

lemma inv_stagger:
  assumes "stall_inv t x s0 s"
    and "\<And>y. y \<in> set xs \<Longrightarrow> wu_id y = wu_id x \<Longrightarrow> same_day t (plan_get (resolve_day_plan x s0) t) x y"
    and "stagger_sessions cfg rg qu now xs cs k g q s = (Some (m, s1), g1, q1)"
  shows "stall_inv t x s0 s1"
  using assms
proof (induction xs arbitrary: cs k g q s)
  case (Cons y ys)
  show ?case
  proof (cases "stagger_sessions cfg rg qu now (y # ys) cs k g q s = (Some (k, s), g1, q1)")
    case True
    with Cons.prems show ?thesis by simp
  next
    case False
    from Cons.prems(3) False obtain c k' cs' g' q' d ty where
      rest: "stagger_sessions cfg rg qu now ys cs' k' g' q' (write_warmup_event now
          (y\<lparr>wu_next_micro_session_at := Some c, wu_next_step_at := Some c\<rparr>) ty d
          (save_session (y\<lparr>wu_next_micro_session_at := Some c, wu_next_step_at := Some c\<rparr>) s)) = (Some (m, s1), g1, q1)"
      by (auto simp: Let_def split: prod.splits if_splits)
    let ?y = "y\<lparr>wu_next_micro_session_at := Some c, wu_next_step_at := Some c\<rparr>"
    have "stays t (plan_get (resolve_day_plan x s0) t) x (save_session ?y s)"
    proof (cases "wu_id y = wu_id x")
      case True
      with Cons.prems(2) have y: "same_day t (plan_get (resolve_day_plan x s0) t) x y" by simp
      have "same_day t (plan_get (resolve_day_plan x s0) t) x ?y"
        by (rule same_day_update [OF y]) (simp_all add: same_day_open [OF y])
      with Cons.prems(1) show ?thesis by (simp add: stall_inv_def stays_save)
    next
      case False
      with Cons.prems(1) show ?thesis by (simp add: stall_inv_def stays_def find_save_session)
    qed
    moreover have "core_tables (write_warmup_event now ?y ty d (save_session ?y s)) = core_tables (save_session ?y s)"
      by (rule event_core)
    moreover have "db_strategies (save_session ?y s) = db_strategies s" by (simp add: save_session_def)
    moreover have "map wu_id (db_warmups (save_session ?y s)) = map wu_id (db_warmups s)" by simp
    ultimately have "stall_inv t x s0 (write_warmup_event now ?y ty d (save_session ?y s))"
      using Cons.prems(1) by (simp add: stall_inv_def core_tables_def del: distinct_map)
    from Cons.IH [OF this _ rest] Cons.prems(2) show ?thesis by simp
  qed
qed simp

lemma inv_due:
  assumes inv: "stall_inv t x s0 s" and "y \<in> set (due_dispatch_sessions cfg ws now limit s)" and "wu_id y = wu_id x"
  shows "same_day t (plan_get (resolve_day_plan x s0) t) x y"
proof -
  obtain z where z: "find_session (wu_id x) s = Some z" "same_day t (plan_get (resolve_day_plan x s0) t) x z"
    using inv_row [OF inv] by blast
  have "y \<in> set (db_warmups s)" "z \<in> set (db_warmups s)" "wu_id z = wu_id x"
    using assms(2) z(1) by (auto simp: due_dispatch_sessions_def find_session_def dest!: in_set_takeD dest: find_mem)
  moreover have "inj_on wu_id (set (db_warmups s))"
    using inv by (simp add: stall_inv_def distinct_map)
  ultimately have "y = z" using assms(3) by (metis inj_onD)
  with z show ?thesis by simp
qed

lemma inv_dispatched:
  assumes "dispatched E s0 s" and "\<And>en qu. (en, qu) \<in> E \<Longrightarrow> gate_frames (pv_gate (de_pre en))"
    and "stall_inv t x s0 s0"
  shows "stall_inv t x s0 s"
  using assms(1)
proof induction
  case (dispatched_tick s en qu now worker w q r w1 q1 s1)
  note gate = assms(2) [OF dispatched_tick(2)] and inv = dispatched_tick(4)
  show ?case
  proof (cases "dispatch_stagger_enabled (de_settings en)")
    case True
    obtain o1 g2 q2 where st: "stagger_sessions (de_settings en) (de_rng en) qu now
        (due_dispatch_sessions (de_settings en) None now None s) [] 0 (fst w) q s = (o1, g2, q2)" by (metis prod_cases3)
    show ?thesis
    proof (cases o1)
      case None
      with True st dispatched_tick(3) inv show ?thesis
        by (simp add: run_warmup_dispatch_tick_def enqueue_due_warmup_dispatch_sessions_def)
    next
      case (Some p)
      obtain m s2 where p: "p = (m, s2)" by fastforce
      have "stall_inv t x s0 s2" by (rule inv_stagger [OF inv _ st [unfolded Some p]]) (rule inv_due [OF inv])
      with True st Some p dispatched_tick(3) show ?thesis
        by (simp add: run_warmup_dispatch_tick_def enqueue_due_warmup_dispatch_sessions_def)
    qed
  next
    case False
    obtain v w2 where b: "run_batch (process_one_dispatch en now worker)
        (dispatch_batch (de_settings en) None now None False s) 0 w s = (v, w2)" by (metis surj_pair)
    show ?thesis
    proof (cases v)
      case (Inl e)
      with False b dispatched_tick(3) inv show ?thesis
        by (simp add: run_warmup_dispatch_tick_def process_due_warmup_dispatches_def commit_batch_def close_adapter_def
            split: prod.splits)
    next
      case (Inr p)
      obtain m s2 where p: "p = (m, s2)" by fastforce
      have "stall_inv t x s0 s2" by (rule inv_batch [OF inv gate b [unfolded Inr p]])
      with False b Inr p dispatched_tick(3) show ?thesis
        by (simp add: run_warmup_dispatch_tick_def process_due_warmup_dispatches_def commit_batch_def close_adapter_def
            split: prod.splits)
    qed
  qed
next
  case (dispatched_session s en qu i scheduled now worker w r w1 s1)
  note gate = assms(2) [OF dispatched_session(2)] and inv = dispatched_session(4)
  from dispatched_session(3) have "s1 = s \<or>
    (\<exists>z b w2. find_session i s = Some z \<and> process_one_dispatch en now worker z w s = (Inr (b, s1), w2))"
    by (auto simp: run_warmup_dispatch_session_def process_warmup_dispatch_session_def close_adapter_def
        split: if_splits option.splits prod.splits sum.splits)
  then show ?case using inv inv_step [OF inv gate] by blast
qed (rule assms(3))

section \<open>Stalled sessions\<close>

text \<open>
  C7. A session that is planned an action it never executes never ends its day. Take a live or shadow
  session without a cycle whose plan for the day still asks for an action that the operator or the
  proxy has disabled, or, when it is live, for \<open>sync_contacts\<close> or \<open>emoji_status\<close> (which the preset of all
  actions contains). Whatever ticks and jobs of the dispatcher follow, staggered or not, at whatever times,
  with whatever adapters, texts, random draws and verdicts of the gate: the session stays on that day,
  is not completed, and its plan still asks for the action. So the dispatcher alone never
  takes the session to its next day.
\<close>

theorem stalled_session_never_completes:
  assumes "dispatched E s0 s" and "\<forall>(en, qu)\<in>E. gate_frames (pv_gate (de_pre en))"
    and "find_session i s0 = Some x" and "stalled t x s0" and "wu_status x \<noteq> WCompleted"
    and "distinct (map wu_id (db_warmups s0))"
  shows "\<exists>y. find_session i s = Some y \<and> wu_current_day y = wu_current_day x \<and> wu_status y \<noteq> WCompleted \<and> stalled t y s"
proof -
  have id: "wu_id x = i" using assms(3) by (auto simp: find_session_def dest: find_mem)
  have "same_day t (plan_get (resolve_day_plan x s0) t) x x" using assms(4,5) by (simp add: same_day_def stalled_def)
  then have "stall_inv t x s0 s0" using assms(3-6) id by (auto simp: stall_inv_def stays_def)
  from inv_row [OF inv_dispatched [OF assms(1) _ this]] assms(2) id show ?thesis by (auto simp: same_day_def)
qed

text \<open>The plan of a day under the preset of all actions asks for every action.\<close>

lemma apply_preset_entry:
  assumes "k \<in> set (day_keys source d)"
  shows "\<exists>e. dict_get (apply_action_preset source p d) k = Some (JObj e) \<and>
    (\<forall>t. dict_get e t = (if t \<in> set ALL_ACTIONS
       then Some (JInt (next_limit (case dict_get source k of Some (JObj d) \<Rightarrow> dict_get d t | _ \<Rightarrow> None) t (PRESET_ACTIONS p)))
       else None))"
proof -
  have m: "map_of (map (\<lambda>k. (k, f k)) ks) k = (if k \<in> set ks then Some (f k) else None)" for f ks and k :: string
    by (induction ks) auto
  show ?thesis using assms by (simp add: apply_action_preset_def dict_get_def m)
qed

lemma plan_get_adjusted: "0 < plan_get d t \<Longrightarrow> 0 < plan_get (apply_plan_adjustment d adj) t"
  by (induction d) (auto simp: apply_plan_adjustment_def plan_get_def dict_get_def)

lemma int_entries_Cons:
  "int_entries ((k, v) # d) = (case py_int v of None \<Rightarrow> [] | Some n \<Rightarrow> [(k, max 0 n)]) @ int_entries d"
  by (simp add: int_entries_def)

lemma int_entries_get: "dict_get d t = Some (JInt n) \<Longrightarrow> 0 < n \<Longrightarrow> plan_get (int_entries d) t = n"
proof (induction d)
  case (Cons p d)
  obtain k v where p: "p = (k, v)" by fastforce
  show ?case
  proof (cases "k = t")
    case True
    with Cons.prems p show ?thesis by (simp add: int_entries_Cons dict_get_def plan_get_def py_int_def)
  next
    case False
    with Cons p show ?thesis
      by (cases "py_int v") (simp_all add: int_entries_Cons dict_get_def plan_get_def)
  qed
qed (simp add: dict_get_def)

definition stall_session :: warmup_session where
  "stall_session = (idle_session 0 8 5 9 2)\<lparr>wu_execution_mode := Advanced, wu_disabled_actions_json := []\<rparr>"

definition stall_strategy :: warmup_strategy where
  "stall_strategy = (idle_strategy_row 9 2)\<lparr>wst_execution_mode := Advanced,
     wst_daily_action_limits_json := apply_action_preset [] PresetAll 7\<rparr>"

definition stall_db :: db where
  "stall_db = empty_db\<lparr>db_accounts := [account_in LWarming 5], db_warmups := [stall_session],
     db_strategies := [stall_strategy], db_next_id := 20\<rparr>"

definition willing_adapter :: "'x warmup_adapter" where
  "willing_adapter =
     \<lparr>ad_provider_name = ''demo'', ad_is_available = (\<lambda>_. True), ad_supports_action = (\<lambda>_ _. True),
      ad_execute_action = (\<lambda>_ _ _ y. (Inr (ok_result []), y)), ad_close = (\<lambda>y. y)\<rparr>"

definition demo_dispatch :: "(unit, (gate_key \<Rightarrow> (gate_verdict \<times> time) option) \<times> (uuid \<times> gate_intent \<Rightarrow> (int \<times> time option) option)) dispatch_env" where
  "demo_dispatch =
     \<lparr>de_pre = warmup_env\<lparr>pv_settings := (default_warmup_settings disabled_settings)\<lparr>wc_live_enabled := True\<rparr>\<rparr>,
      de_rng = least_rng, de_zones = (\<lambda>_. None), de_lazy = (\<lambda>_ _. 1), de_number = (\<lambda>_. None),
      de_friend_seed = (\<lambda>_ _. ()), de_uuid_order = id, de_sha = (\<lambda>t. t), de_clock = 0, de_adapter = willing_adapter,
      de_text = \<lparr>tx_provider_name = ''demo'', tx_is_available = True, tx_compose_p2p_message = (\<lambda>t. (''hi'', ''demo''))\<rparr>\<rparr>"

definition full_queue :: "unit dispatch_queue" where
  "full_queue = \<lparr>dq_enqueue_at = (\<lambda>_ _ _ q. (True, q))\<rparr>"

lemma stall_plan: "stalled ''sync_contacts'' stall_session stall_db"
proof -
  have s: "strategy_limits stall_session stall_db = apply_action_preset [] PresetAll 7"
    by (simp add: strategy_limits_def session_strategy_def get_strategy_def stall_session_def stall_db_def stall_strategy_def
        idle_session_def idle_strategy_row_def)
  have "''1'' \<in> set (day_keys ([] :: (string, json) dict) 7)" by code_simp
  from apply_preset_entry [OF this, of PresetAll] obtain e where
    e: "dict_get (apply_action_preset [] PresetAll 7) ''1'' = Some (JObj e)"
    and g: "\<And>t. dict_get e t = (if t \<in> set ALL_ACTIONS
       then Some (JInt (next_limit (case dict_get ([] :: (string, json) dict) ''1'' of Some (JObj d) \<Rightarrow> dict_get d t | _ \<Rightarrow> None) t ALL_ACTIONS))
       else None)" by auto
  have sync: "''sync_contacts'' \<in> set ALL_ACTIONS" by code_simp
  then have 1: "dict_get e ''sync_contacts'' = Some (JInt 1)"
    using g [of "''sync_contacts''"] by (simp add: next_limit_def dict_get_def)
  then have "e \<noteq> []" by (auto simp: dict_get_def)
  moreover have "wu_current_day stall_session = 0" by (simp add: stall_session_def idle_session_def)
  moreover have "int_text 1 = ''1''" by code_simp
  ultimately have "raw_day_plan stall_session stall_db = Some (JObj e)"
    using e by (simp add: raw_day_plan_def s Let_def json_truthy_def)
  then have "0 < plan_get (resolve_day_plan stall_session stall_db) ''sync_contacts''"
    using int_entries_get [OF 1] by (simp add: resolve_day_plan_def plan_get_adjusted)
  moreover have "resolve_day_counters stall_session = []"
    by (simp add: resolve_day_counters_def stall_session_def idle_session_def dict_get_def)
  ultimately show ?thesis
    by (simp add: stalled_def never_executed_def plan_get_def dict_get_def stall_session_def idle_session_def LIVE_EXECUTION_MODES_def)
qed

text \<open>A tick at noon, on the preset of all actions, with an adapter that executes whatever it is asked.\<close>

lemma stalled_session_never_completes_witness:
  "\<exists>y. find_session 8 (snd (snd (snd (run_warmup_dispatch_tick demo_dispatch full_queue (hours 12) ''w''
      ((), \<lambda>_. None, \<lambda>_. None) () stall_db)))) = Some y \<and> wu_current_day y = 0 \<and> wu_status y \<noteq> WCompleted \<and>
    stalled ''sync_contacts'' y (snd (snd (snd (run_warmup_dispatch_tick demo_dispatch full_queue (hours 12) ''w''
      ((), \<lambda>_. None, \<lambda>_. None) () stall_db))))"
proof -
  let ?E = "{(demo_dispatch, full_queue)}"
  have d: "dispatched ?E stall_db (snd (snd (snd (run_warmup_dispatch_tick demo_dispatch full_queue (hours 12) ''w''
      ((), \<lambda>_. None, \<lambda>_. None) () stall_db))))"
  proof -
    obtain r w1 q1 s1 where run: "run_warmup_dispatch_tick demo_dispatch full_queue (hours 12) ''w''
      ((), \<lambda>_. None, \<lambda>_. None) () stall_db = (r, w1, q1, s1)" by (metis prod_cases4)
    have "dispatched ?E stall_db s1" by (rule dispatched_tick [OF dispatched_start _ run]) simp
    with run show ?thesis by simp
  qed
  have "gate_frames (pv_gate (de_pre demo_dispatch))"
    by (simp add: demo_dispatch_def warmup_env_def warmup_gate_frames)
  then have g: "\<forall>(en, qu)\<in>?E. gate_frames (pv_gate (de_pre en))" by simp
  have f: "find_session 8 stall_db = Some stall_session" "wu_status stall_session \<noteq> WCompleted"
    "distinct (map wu_id (db_warmups stall_db))" "wu_current_day stall_session = 0"
    by (simp_all add: find_session_def stall_db_def stall_session_def idle_session_def)
  from stalled_session_never_completes [OF d g f(1) stall_plan f(2,3)] f(4) show ?thesis by simp
qed

end
