(* ===== verification/WarmupLive.thy ===== *)
theory WarmupLive
  imports WarmupStall
begin

text \<open>
  What the dispatcher does to the outside. \<open>log_env\<close> is an environment whose outside state also keeps a
  log of the verdicts of the safety gate and of the actions the Telegram adapter was asked for; the log
  of a micro-session shows which actions reach Telegram, and when.
\<close>

section \<open>Logs\<close>

datatype outside = Verdict verdict_severity | Call uuid string

definition log_gate :: "'x gate_call \<Rightarrow> ('x \<times> outside list) gate_call" where
  "log_gate gate now w a y s =
     (let (v, y1, s1) = gate now w a (fst y) s
      in (v, (y1, snd y @ (case v of Inl _ \<Rightarrow> [] | Inr u \<Rightarrow> [Verdict (gv_severity u)])), s1))"

definition log_adapter :: "'x warmup_adapter \<Rightarrow> ('x \<times> outside list) warmup_adapter" where
  "log_adapter ad =
     \<lparr>ad_provider_name = ad_provider_name ad, ad_is_available = (\<lambda>y. ad_is_available ad (fst y)),
      ad_supports_action = (\<lambda>t y. ad_supports_action ad t (fst y)),
      ad_execute_action = (\<lambda>a t ctx y. let (r, y1) = ad_execute_action ad a t ctx (fst y) in (r, (y1, snd y @ [Call a t]))),
      ad_close = (\<lambda>y. (ad_close ad (fst y), snd y))\<rparr>"

definition log_env :: "('g, 'x) dispatch_env \<Rightarrow> ('g, 'x \<times> outside list) dispatch_env" where
  "log_env en =
     \<lparr>de_pre = \<lparr>pv_settings = pv_settings (de_pre en), pv_gate = log_gate (pv_gate (de_pre en)),
        pv_digest = pv_digest (de_pre en), pv_str = pv_str (de_pre en)\<rparr>,
      de_rng = de_rng en, de_zones = de_zones en, de_lazy = de_lazy en, de_number = de_number en,
      de_friend_seed = de_friend_seed en, de_uuid_order = de_uuid_order en, de_sha = de_sha en, de_clock = de_clock en,
      de_adapter = log_adapter (de_adapter en), de_text = de_text en\<rparr>"

lemma log_env_simps [simp]:
  "pv_settings (de_pre (log_env en)) = pv_settings (de_pre en)"
  "pv_gate (de_pre (log_env en)) = log_gate (pv_gate (de_pre en))"
  "de_rng (log_env en) = de_rng en" "de_zones (log_env en) = de_zones en"
  "de_adapter (log_env en) = log_adapter (de_adapter en)" "session_zone (log_env en) x = session_zone en x"
  by (simp_all add: log_env_def session_zone_def)

lemma log_gate_frames: "gate_frames gate \<Longrightarrow> gate_frames (log_gate gate)"
  by (auto simp: gate_frames_def log_gate_def Let_def split: prod.splits)

definition calls :: "outside list \<Rightarrow> (uuid \<times> string) list" where
  "calls l = concat (map (\<lambda>e. case e of Call a t \<Rightarrow> [(a, t)] | Verdict _ \<Rightarrow> []) l)"

lemma calls_simps [simp]:
  "calls [] = []" "calls (Verdict v # l) = calls l" "calls (Call a t # l) = (a, t) # calls l"
  "calls (l @ m) = calls l @ calls m"
  by (simp_all add: calls_def)

text \<open>A reaction is asked for only directly after a verdict that does not block.\<close>

fun reactions_cleared :: "outside option \<Rightarrow> outside list \<Rightarrow> bool" where
  "reactions_cleared p [] = True"
| "reactions_cleared p (Verdict v # l) = reactions_cleared (Some (Verdict v)) l"
| "reactions_cleared p (Call a t # l) =
     ((t = ''react_to_post'' \<longrightarrow> p \<in> {Some (Verdict VerdictOk), Some (Verdict VerdictWarning)}) \<and>
      reactions_cleared (Some (Call a t)) l)"

lemma reactions_mono:
  assumes "reactions_cleared None l"
  shows "reactions_cleared p l"
proof (cases l)
  case (Cons e m)
  then show ?thesis using assms by (cases e) auto
qed simp

lemma reactions_append: "reactions_cleared p l \<Longrightarrow> reactions_cleared None m \<Longrightarrow> reactions_cleared p (l @ m)"
  by (induction p l rule: reactions_cleared.induct) (simp_all add: reactions_mono)

text \<open>What a step adds to the log, whether it ends well or raises.\<close>

definition adds :: "(outside list \<Rightarrow> bool) \<Rightarrow> ('g \<times> 'x \<times> outside list, 'a) eff \<Rightarrow> bool" where
  "adds P m \<longleftrightarrow> (\<forall>g y l s. wp m (g, y, l) s
     (\<lambda>_ w1 _. \<exists>e. snd (snd w1) = l @ e \<and> P e) (\<lambda>w1. \<exists>e. snd (snd w1) = l @ e \<and> P e))"

lemma addsD: "adds P m \<Longrightarrow> wp m (g, y, l) s
     (\<lambda>_ w1 _. \<exists>e. snd (snd w1) = l @ e \<and> P e) (\<lambda>w1. \<exists>e. snd (snd w1) = l @ e \<and> P e)"
  unfolding adds_def by blast

lemma adds_weaken: "adds P m \<Longrightarrow> (\<And>e. P e \<Longrightarrow> Q e) \<Longrightarrow> adds Q m"
  unfolding adds_def by (blast intro: wp_mono)

lemma adds_seq:
  fixes m :: "('g \<times> 'x \<times> outside list, 'a) eff"
  assumes "adds P m" and "\<And>v. adds Q (f v)" and "\<And>l k. P l \<Longrightarrow> Q k \<Longrightarrow> R (l @ k)" and "\<And>l. P l \<Longrightarrow> R l"
  shows "adds R (eff_bind m f)"
  unfolding adds_def wp_bind
proof (intro allI)
  fix g y l s
  show "wp m (g, y, l) s
    (\<lambda>a w1 s1. wp (f a) w1 s1 (\<lambda>_ w1 _. \<exists>e. snd (snd w1) = l @ e \<and> R e) (\<lambda>w1. \<exists>e. snd (snd w1) = l @ e \<and> R e))
    (\<lambda>w1. \<exists>e. snd (snd w1) = l @ e \<and> R e)"
  proof (rule wp_mono)
    show "wp m (g, y, l) s (\<lambda>_ w1 _. \<exists>e. snd (snd w1) = l @ e \<and> P e) (\<lambda>w1. \<exists>e. snd (snd w1) = l @ e \<and> P e)"
      using assms(1) by (simp add: adds_def)
  next
    fix a and w1 :: "'g \<times> 'x \<times> outside list" and s1
    assume "\<exists>e. snd (snd w1) = l @ e \<and> P e"
    then obtain e where e: "snd (snd w1) = l @ e" "P e" by blast
    obtain g1 y1 l1 where w1: "w1 = (g1, y1, l1)" by (metis prod_cases3)
    have run: "wp (f a) w1 s1 (\<lambda>_ w2 _. \<exists>e'. snd (snd w2) = l1 @ e' \<and> Q e') (\<lambda>w2. \<exists>e'. snd (snd w2) = l1 @ e' \<and> Q e')"
      using assms(2) [of a] w1 by (simp add: adds_def)
    have shift: "\<exists>e. l2 = l @ e \<and> R e" if "\<exists>e'. l2 = l1 @ e' \<and> Q e'" for l2
      using that e w1 assms(3) [OF e(2)] by auto
    show "wp (f a) w1 s1 (\<lambda>_ w2 _. \<exists>e. snd (snd w2) = l @ e \<and> R e) (\<lambda>w2. \<exists>e. snd (snd w2) = l @ e \<and> R e)"
      using run by (rule wp_mono) (rule shift, assumption)+
  qed (use assms(4) in blast)
qed

lemma adds_db_then: "adds P m \<Longrightarrow> adds P (eff_bind (eff_db f) (\<lambda>_. m))"
  by (simp add: adds_def)

lemma adds_ite: "adds P m \<Longrightarrow> adds P n \<Longrightarrow> adds P (if b then m else n)"
  by simp

text \<open>A set of logs that contains the empty log and is closed under appending.\<close>

locale log_set =
  fixes P :: "outside list \<Rightarrow> bool"
  assumes nil: "P []" and append: "P l \<Longrightarrow> P m \<Longrightarrow> P (l @ m)"
begin

lemma adds_return [simp]: "adds P (eff_return a)"
  by (auto simp: adds_def nil)

lemma adds_db [simp]: "adds P (eff_db f)"
  by (auto simp: adds_def nil)

lemma adds_draw [simp]: "adds P (eff_draw f)"
  by (auto simp: adds_def nil)

lemma adds_bind: "adds P m \<Longrightarrow> (\<And>v. adds P (f v)) \<Longrightarrow> adds P (eff_bind m f)"
  by (rule adds_seq [where P = P and Q = P]) (auto intro: append)

lemma adds_if: "adds P m \<Longrightarrow> adds P n \<Longrightarrow> adds P (if b then m else n)"
  by simp

lemma adds_option: "adds P m \<Longrightarrow> (\<And>u. adds P (f u)) \<Longrightarrow> adds P (case v of None \<Rightarrow> m | Some u \<Rightarrow> f u)"
  by (simp split: option.split)

lemma adds_branch: "adds P m \<Longrightarrow> adds P n \<Longrightarrow> adds P (\<lambda>w s. if b w s then m w s else n w s)"
  by (simp add: adds_def wp_def)

lemma adds_simps [simp]:
  "adds P (give x d)" "adds P (skip r)" "adds P (draw_one en xs)" "adds P (draw_int en m n)"
  "adds P (eff_save x)" "adds P (eff_event now x ty d)"
  by (simp_all add: give_def skip_def draw_one_def draw_int_def eff_save_def eff_event_def)

lemma adds_target: "adds P (selected_or_target en x ref)"
  by (auto simp: adds_def nil selected_or_target_def select_chat_target_def Let_def draw_one_def wp_def eff_bind_def
      eff_draw_def eff_return_def split: prod.split)

lemma adds_subscribed: "(\<And>r. adds P (f r)) \<Longrightarrow> adds P (on_subscribed x ref n m f)"
  by (simp add: adds_def wp_subscribed nil split: option.split)

lemma adds_channels: "adds P (browse_context en x c)" "adds P (story_context en x ref)" "adds P (reaction_channel en x ref)"
  unfolding adds_def wp_def browse_context_def story_context_def reaction_channel_def Let_def
  by (simp_all add: skip_def give_def draw_one_def draw_int_def eff_bind_def eff_draw_def eff_return_def nil split: prod.split)

lemma adds_peer: "adds P (peer_context en now x)"
  unfolding adds_def wp_def peer_context_def
  by (simp add: Let_def give_def skip_def eff_return_def nil split_def split: option.split)

lemma adds_context: "t \<noteq> ''react_to_post'' \<Longrightarrow> adds P (resolve_action_context en now x t ref)"
  unfolding resolve_action_context_def Let_def
  by (simp only: if_False refl)
    (intro adds_if adds_bind adds_option adds_target adds_subscribed adds_channels adds_peer adds_simps)

lemma adds_select: "adds P (select_actions en now x)"
  by (auto simp: adds_def wp_def select_actions_def Let_def nil split: prod.split sum.split)

end

interpretation silent: log_set "\<lambda>e. e = []"
  by unfold_locales simp_all

interpretation no_calls: log_set "\<lambda>e. calls e = []"
  by unfold_locales simp_all

section \<open>One action\<close>

lemma gate_logs:
  "wp (ask_gate (log_env en) now x) (g, y, l) s
     (\<lambda>v w1 _. snd (snd w1) = l @ [Verdict (gv_severity v)]) (\<lambda>w1. snd (snd w1) = l)"
  by (auto simp: wp_gate log_gate_def split: prod.split sum.split)

lemma gate_adds: "adds (\<lambda>e. calls e = []) (ask_gate (log_env en) now x)"
  unfolding adds_def
proof (intro allI)
  fix g y l s
  show "wp (ask_gate (log_env en) now x) (g, y, l) s
    (\<lambda>_ w1 _. \<exists>e. snd (snd w1) = l @ e \<and> calls e = []) (\<lambda>w1. \<exists>e. snd (snd w1) = l @ e \<and> calls e = [])"
    by (rule wp_mono [OF gate_logs]) auto
qed

lemma resolve_react:
  "resolve_action_context en now x ''react_to_post'' ref = react_context en now x ref"
  by (simp add: resolve_action_context_def ACTIVITY_CONTENT_SKIP_REASONS_def dict_get_def)

text \<open>Before an action is executed, only a reaction has asked the gate, which did not block.\<close>

definition prepared :: "string \<Rightarrow> resolution option \<Rightarrow> outside list \<Rightarrow> bool" where
  "prepared t res e \<longleftrightarrow>
     (if t = ''react_to_post''
      then e = [] \<and> res = None \<or>
           (\<exists>v. e = [Verdict v] \<and> (v = VerdictBlocked \<longrightarrow> (case res of Some (Context c) \<Rightarrow> False | _ \<Rightarrow> True)))
      else e = [])"

lemma context_logs:
  "wp (resolve_action_context (log_env en) now x t ref) (g, y, l) s
     (\<lambda>res w1 _. \<exists>e. snd (snd w1) = l @ e \<and> prepared t (Some res) e)
     (\<lambda>w1. \<exists>e. snd (snd w1) = l @ e \<and> prepared t None e)"
proof (cases "t = ''react_to_post''")
  case False
  then have "adds (\<lambda>e. e = []) (resolve_action_context (log_env en) now x t ref)" by (rule silent.adds_context)
  then have "wp (resolve_action_context (log_env en) now x t ref) (g, y, l) s
    (\<lambda>_ w1 _. \<exists>e. snd (snd w1) = l @ e \<and> e = []) (\<lambda>w1. \<exists>e. snd (snd w1) = l @ e \<and> e = [])"
    by (simp add: adds_def)
  then show ?thesis by (rule wp_mono) (auto simp: prepared_def False)
next
  case True
  show ?thesis
    unfolding True resolve_react react_context_def wp_bind
  proof (rule wp_mono [OF gate_logs])
    fix v :: gate_verdict and w1 :: "'a \<times> 'b \<times> outside list" and s1
    assume l: "snd (snd w1) = l @ [Verdict (gv_severity v)]"
    obtain g1 y1 l1 where w1: "w1 = (g1, y1, l1)" by (metis prod_cases3)
    have "wp (reaction_channel (log_env en) x ref) (g1, y1, l1) s1
      (\<lambda>_ w2 _. \<exists>e. snd (snd w2) = l1 @ e \<and> e = []) (\<lambda>w2. \<exists>e. snd (snd w2) = l1 @ e \<and> e = [])"
      using silent.adds_channels(3) [of "log_env en" x ref, unfolded adds_def] by simp
    then have "gv_severity v \<noteq> VerdictBlocked \<Longrightarrow> wp (reaction_channel (log_env en) x ref) w1 s1
      (\<lambda>res w2 _. \<exists>e. snd (snd w2) = l @ e \<and> prepared ''react_to_post'' (Some res) e)
      (\<lambda>w2. \<exists>e. snd (snd w2) = l @ e \<and> prepared ''react_to_post'' None e)"
      unfolding w1 by (rule wp_mono) (use l w1 in \<open>auto simp: prepared_def\<close>)
    then show "wp (if gv_severity v = VerdictBlocked
        then eff_return (SkipAction ''safety_gate_blocked'' [(''reasons'', JList (map reason_json (gv_reasons v)))])
        else reaction_channel (log_env en) x ref) w1 s1
      (\<lambda>res w2 _. \<exists>e. snd (snd w2) = l @ e \<and> prepared ''react_to_post'' (Some res) e)
      (\<lambda>w2. \<exists>e. snd (snd w2) = l @ e \<and> prepared ''react_to_post'' None e)"
      using l by (simp add: prepared_def)
  qed (auto simp: prepared_def)
qed

text \<open>The log of a session: only enabled actions of \<open>T\<close> for its account.\<close>

definition permitted :: "warmup_session \<Rightarrow> string set \<Rightarrow> outside list \<Rightarrow> bool" where
  "permitted x T e \<longleftrightarrow>
     list_all (\<lambda>(a, t). a = wu_account_id x \<and> t \<notin> set (wu_disabled_actions_json x) \<and> t \<in> T) (calls e) \<and>
     reactions_cleared None e"

lemma permitted_append: "permitted x T l \<Longrightarrow> permitted x T m \<Longrightarrow> permitted x T (l @ m)"
  by (simp add: permitted_def reactions_append)

lemma permitted_silent: "calls e = [] \<Longrightarrow> permitted x T e"
proof -
  have "calls e = [] \<Longrightarrow> reactions_cleared p e" for p
  proof (induction e arbitrary: p)
    case (Cons a e)
    then show ?case by (cases a) auto
  qed simp
  then show "calls e = [] \<Longrightarrow> permitted x T e" by (simp add: permitted_def)
qed

lemma prepared_silent: "prepared t res e \<Longrightarrow> calls e = []"
  by (auto simp: prepared_def split: if_splits)

lemma action_adds:
  "adds (\<lambda>e. permitted x {t} e \<and> length (calls e) \<le> (if live then 1 else 0))
     (dispatch_action (log_env en) now x t ref live)"
proof (cases "t \<in> set (wu_disabled_actions_json x) \<or> \<not> live")
  case True
  have "adds (\<lambda>e. e = []) (dispatch_action (log_env en) now x t ref live)"
    unfolding dispatch_action_def Let_def
    using True by (auto intro!: silent.adds_bind)
  then show ?thesis by (rule adds_weaken) (simp add: permitted_def)
next
  case False
  define tail where "tail = (\<lambda>res.
        case res of
          SkipAction reason md \<Rightarrow> eff_bind (eff_db (write_dispatch_skip now x t reason md)) (\<lambda>_. eff_return None)
        | Context ctx \<Rightarrow>
            (\<lambda>w s. if t \<in> set WRITE_ACTION_TYPES \<and> \<not> ad_supports_action (de_adapter (log_env en)) t (snd w)
              then eff_bind (eff_db (write_write_action_disabled_skip now x t)) (\<lambda>_. eff_return None) w s
              else eff_bind (execute_live_action (log_env en) x t ctx) (\<lambda>r.
                if ar_status r = ''skipped''
                then eff_bind (eff_db (write_dispatch_skip now x t
                  (if truthy (ar_error_code r) then str_or (ar_error_code r) [] else ''adapter_skipped'') (ar_metadata r)))
                  (\<lambda>_. eff_return None)
                else eff_return (Some (r, ctx))) w s))"
  have unfold: "dispatch_action (log_env en) now x t ref live =
    eff_bind (resolve_action_context (log_env en) now x t ref) tail"
    unfolding dispatch_action_def Let_def tail_def using False by (simp only: de_Morgan_disj not_not if_False if_True simp_thms)
  have exec: "wp (execute_live_action (log_env en) x t ctx) (g, y, l) s
    (\<lambda>_ w1 _. snd (snd w1) = l @ [Call (wu_account_id x) t]) (\<lambda>_. False)" for ctx g y l s
    by (auto simp: wp_def execute_live_action_def log_adapter_def split: prod.split sum.split)
  have tail: "wp (tail res) (g, y, l) s
    (\<lambda>_ w1 _. snd (snd w1) = l \<or> (\<exists>c. res = Context c) \<and> snd (snd w1) = l @ [Call (wu_account_id x) t]) (\<lambda>_. False)"
    for res g y l s
  proof (cases res)
    case (SkipAction r md)
    then show ?thesis by (simp add: tail_def)
  next
    case (Context c)
    let ?k = "\<lambda>r. if ar_status r = ''skipped''
                then eff_bind (eff_db (write_dispatch_skip now x t
                  (if truthy (ar_error_code r) then str_or (ar_error_code r) [] else ''adapter_skipped'') (ar_metadata r)))
                  (\<lambda>_. eff_return None)
                else eff_return (Some (r, c))"
    have run: "wp (eff_bind (execute_live_action (log_env en) x t c) ?k) (g, y, l) s
      (\<lambda>_ w1 _. snd (snd w1) = l \<or> (\<exists>c. res = Context c) \<and> snd (snd w1) = l @ [Call (wu_account_id x) t]) (\<lambda>_. False)"
      unfolding wp_bind by (rule wp_mono [OF exec]) (simp_all add: Context)
    show ?thesis
    proof (cases "t \<in> set WRITE_ACTION_TYPES \<and> \<not> ad_supports_action (de_adapter (log_env en)) t (snd (g, y, l))")
      case True
      then have "tail res (g, y, l) s =
        eff_bind (eff_db (write_write_action_disabled_skip now x t)) (\<lambda>_. eff_return None) (g, y, l) s"
        unfolding tail_def Context by simp
      then show ?thesis unfolding wp_def [of "tail res"] by (simp add: eff_bind_def eff_db_def eff_return_def)
    next
      case False
      then have "tail res (g, y, l) s = eff_bind (execute_live_action (log_env en) x t c) ?k (g, y, l) s"
        unfolding tail_def Context resolution.case by (rule if_not_P)
      with run show ?thesis unfolding wp_def by (simp only:)
    qed
  qed
  show ?thesis
    unfolding unfold adds_def wp_bind
  proof (intro allI, rule wp_mono [OF context_logs])
    fix l s res and w1 :: "'a \<times> 'b \<times> outside list" and s1
    assume "\<exists>e. snd (snd w1) = l @ e \<and> prepared t (Some res) e"
    then obtain e where e: "snd (snd w1) = l @ e" "prepared t (Some res) e" by blast
    obtain g1 y1 l1 where w1: "w1 = (g1, y1, l1)" by (metis prod_cases3)
    have "permitted x {t} (e @ [Call (wu_account_id x) t])" if "\<exists>c. res = Context c"
      using that e(2) False by (cases "t = ''react_to_post''") (auto simp: permitted_def prepared_def, (metis verdict_severity.exhaust)?)
    then show "wp (tail res) w1 s1
      (\<lambda>_ w2 _. \<exists>e. snd (snd w2) = l @ e \<and> permitted x {t} e \<and> length (calls e) \<le> (if live then 1 else 0))
      (\<lambda>w2. \<exists>e. snd (snd w2) = l @ e \<and> permitted x {t} e \<and> length (calls e) \<le> (if live then 1 else 0))"
      unfolding w1
      by (intro wp_mono [OF tail])
        (use e w1 False prepared_silent [OF e(2)] permitted_silent [of e x "{t}"] in auto)
  qed (use prepared_silent permitted_silent in fastforce)
qed

section \<open>A window\<close>

lemma selected_adds:
  "adds (\<lambda>e. permitted x (sa_action_type ` set as) e \<and> length (calls e) \<le> (if live then length as else 0))
     (run_selected (log_env en) now x live as w)"
proof (induction as arbitrary: w)
  case Nil
  show ?case by (auto simp: adds_def permitted_def)
next
  case (Cons a as)
  let ?T = "sa_action_type ` set (a # as)"
  show ?case
    unfolding run_selected.simps Let_def
  proof (rule adds_seq [OF action_adds])
    fix r :: "(action_result \<times> (string, json) dict) option"
    show "adds (\<lambda>e. permitted x (sa_action_type ` set as) e \<and> length (calls e) \<le> (if live then length as else 0))
      (case r of None \<Rightarrow> run_selected (log_env en) now x live as w
       | Some (res, ctx) \<Rightarrow>
           if \<not> is_ok res
           then eff_bind (eff_db (record_dispatch_action_failure (log_env en) now x (sa_action_type a) res ctx)) (\<lambda>_.
                  run_selected (log_env en) now x live as (w\<lparr>wt_failed := wt_failed w @ [(sa_action_type a, res)]\<rparr>))
           else eff_bind (eff_db (record_dispatch_action_success (log_env en) now x (sa_action_type a) res ctx live)) (\<lambda>_.
                  run_selected (log_env en) now x live as
                    (w\<lparr>wt_counters := dict_set (sa_action_type a) (plan_get (wt_counters w) (sa_action_type a) + 1) (wt_counters w),
                       wt_performed := wt_performed w @ [sa_action_type a]\<rparr>)))"
    proof (cases r)
      case None
      show ?thesis unfolding None option.case by (rule Cons.IH)
    next
      case (Some p)
      obtain res ctx where p: "p = (res, ctx)" by fastforce
      show ?thesis unfolding Some p option.case prod.case by (intro adds_ite adds_db_then Cons.IH)
    qed
  next
    fix l k
    assume l: "permitted x {sa_action_type a} l \<and> length (calls l) \<le> (if live then 1 else 0)"
      and k: "permitted x (sa_action_type ` set as) k \<and> length (calls k) \<le> (if live then length as else 0)"
    have "permitted x ?T l" "permitted x ?T k" using l k by (auto simp: permitted_def list_all_iff)
    then show "permitted x ?T (l @ k) \<and> length (calls (l @ k)) \<le> (if live then length (a # as) else 0)"
      using l k by (simp add: permitted_append split: if_splits)
  qed (auto simp: permitted_def list_all_iff)
qed

text \<open>A completion asks the gate at most once, and nothing else.\<close>

lemma completion_world:
  "snd (complete_dispatch_session pv x now y s) = y \<or>
   (\<exists>w a s1. snd (complete_dispatch_session pv x now y s) = fst (snd (pv_gate pv now w a y s1)))"
proof -
  have "snd (start_pre_production pv now a w d sid src cs y s) =
    (if \<not> wc_pre_production_enabled (pv_settings pv) then y
     else case lookup_account a (Some w) s of None \<Rightarrow> y
       | Some acc \<Rightarrow> (case ensure_empty_profile acc of Inl e \<Rightarrow> y
           | Inr _ \<Rightarrow> fst (snd (pv_gate pv now (acc_workspace_id acc) (acc_id acc) y s))))" for a w d sid src cs s
    by (simp add: start_pre_production_def split: option.split sum.split prod.split)
  note eq = this
  have start: "snd (start_pre_production pv now a w d sid src cs y s) = y \<or>
    (\<exists>v b s1. snd (start_pre_production pv now a w d sid src cs y s) = fst (snd (pv_gate pv now v b y s1)))"
    for a w d sid src cs s
  proof -
    have "snd (start_pre_production pv now a w d sid src cs y s)
      \<in> insert y (range (\<lambda>acc :: account. fst (snd (pv_gate pv now (acc_workspace_id acc) (acc_id acc) y s))))"
      unfolding eq by (auto split: option.split sum.split)
    then show ?thesis by blast
  qed
  have "snd (completion_effects pv x now y s) = (case advance_account_to_pre_production x now s of Inl e \<Rightarrow> y
      | Inr s1 \<Rightarrow> if should_start_pre_production (pv_settings pv) x s1
          then snd (start_pre_production pv now (wu_account_id x) (wu_workspace_id x) None (Some (wu_id x)) (Some x) None y s1)
          else y)" for x s
    by (simp add: completion_effects_def Let_def split_def split: sum.split)
  then have "snd (completion_effects pv x now y s) = y \<or>
    (\<exists>w a s1. snd (completion_effects pv x now y s) = fst (snd (pv_gate pv now w a y s1)))" for x s
    using start by (simp split: sum.split if_split)
  then show ?thesis unfolding complete_dispatch_session_def Let_def by blast
qed

lemma complete_adds: "adds (\<lambda>e. calls e = []) (eff_complete (log_env en) now x)"
  unfolding adds_def
proof (intro allI)
  fix g y l s
  let ?c = "complete_dispatch_session (de_pre (log_env en)) x now (y, l) s"
  have "\<exists>e. snd (fst (snd (log_gate gate now w a (y, l) s1))) = l @ e \<and> calls e = []" for gate w a s1
    by (simp add: log_gate_def split_def Let_def split: sum.split)
  note verdicts = this
  have "\<exists>e. snd (snd ?c) = l @ e \<and> calls e = []"
    using completion_world [of "de_pre (log_env en)" x now "(y, l)" s] verdicts [of "pv_gate (de_pre en)"]
    unfolding log_env_simps by (elim disjE exE) auto
  then show "wp (eff_complete (log_env en) now x) (g, y, l) s
     (\<lambda>_ w1 _. \<exists>e. snd (snd w1) = l @ e \<and> calls e = []) (\<lambda>w1. \<exists>e. snd (snd w1) = l @ e \<and> calls e = [])"
    by (simp add: wp_def eff_complete_def split_def Let_def result_bind_def split: sum.split)
qed

lemma close_adds: "adds (\<lambda>e. calls e = []) (close_window (log_env en) now plan x w)"
  unfolding close_window_def window_closed_def schedule_next_def draw_within_day_def draw_next_day_def Let_def
  by (intro no_calls.adds_bind no_calls.adds_if no_calls.adds_simps no_calls.adds_draw no_calls.adds_return
      no_calls.adds_db complete_adds)

lemma settle_adds:
  fixes en :: "('g, 'x) dispatch_env"
  shows "adds (\<lambda>e. calls e = []) (settle_window (log_env en) now worker plan x w)"
proof -
  have failed: "adds (\<lambda>e. calls e = []) (close_failed_window (log_env en) now worker plan x w)" for w
    unfolding adds_def
  proof (intro allI)
    fix g :: 'g and y :: 'x and l s
    let ?Q = "\<lambda>w1. \<exists>e. snd (snd w1) = l @ e \<and> calls e = []"
    obtain b x2 s2 where h: "handle_warmup_step_failure (de_settings (log_env en)) (after_failure now worker w x)
      (error_summary (wt_failed w)) None now WPausedRisk s = (b, x2, s2)" by (metis prod_cases3)
    have stop: "adds (\<lambda>e. calls e = []) (eff_bind (eff_save z) (\<lambda>_. eff_bind (window_closed now z w) (\<lambda>_. eff_return True)))" for z
      unfolding window_closed_def by (intro no_calls.adds_bind no_calls.adds_simps no_calls.adds_return)
    have "wp (eff_bind (eff_save z) (\<lambda>_. eff_bind (window_closed now z w) (\<lambda>_. eff_return True))) (g, y, l) s2 (\<lambda>_ w1 _. ?Q w1) ?Q" for z
      by (rule addsD) (rule stop)
    moreover have "wp (close_window (log_env en) now plan x2 w) (g, y, l) s2 (\<lambda>_ w1 _. ?Q w1) ?Q"
      by (rule addsD) (rule close_adds)
    ultimately show "wp (close_failed_window (log_env en) now worker plan x w) (g, y, l) s (\<lambda>_ w1 _. ?Q w1) ?Q"
      unfolding wp_def close_failed_window_def h Let_def prod.case by (simp only: split: if_split) blast
  qed
  show ?thesis
    unfolding settle_window_def Let_def
    by (intro no_calls.adds_bind no_calls.adds_if no_calls.adds_simps close_adds failed)
qed

text \<open>The actions the plan of the day still asks for.\<close>

definition pending :: "warmup_session \<Rightarrow> db \<Rightarrow> string set" where
  "pending x s = {t. plan_get (resolve_day_counters x) t < plan_get (resolve_day_plan x s) t}"

lemma select_action_type: "select_action rg t st ex tg now g = (Some a, g1) \<Longrightarrow> sa_action_type a = t"
  by (auto simp: select_action_def with_reason_def plain_action_def Let_def split: if_splits prod.splits)

lemma choose_from_spec:
  "choose_from rg st ex tg now k ts g = (as, g1) \<Longrightarrow> length as \<le> k \<and> sa_action_type ` set as \<subseteq> set ts"
proof (induction ts arbitrary: k g as g1)
  case (Cons t ts)
  obtain u g2 where u: "rg_random rg g = (u, g2)" by fastforce
  show ?case
  proof (cases "k = 0 \<or> 85 / 100 \<le> u")
    case True
    with Cons u show ?thesis by (fastforce split: if_splits)
  next
    case False
    obtain b g3 where b: "select_action rg t st ex tg now g2 = (b, g3)" by fastforce
    show ?thesis
    proof (cases b)
      case None
      with Cons.prems False u b have "choose_from rg st ex tg now k ts g3 = (as, g1)" by simp
      from Cons.IH [OF this] show ?thesis by auto
    next
      case (Some a)
      obtain as1 g4 where r: "choose_from rg st ex tg now (k - 1) ts g3 = (as1, g4)" by fastforce
      have "as = a # as1" using Cons.prems False u b Some r by simp
      with Cons.IH [OF r] select_action_type [OF b [unfolded Some]] False show ?thesis by auto
    qed
  qed
qed simp

lemma choose_actions_spec:
  "choose_actions nu rg (resolve_day_plan x s) (resolve_day_counters x) st ts now MAX_ACTIONS_PER_MICRO_SESSION seed g = (as, g1) \<Longrightarrow>
   length as \<le> 3 \<and> sa_action_type ` set as \<subseteq> pending x s"
  unfolding choose_actions_def
  by (drule choose_from_spec) (auto simp: MAX_ACTIONS_PER_MICRO_SESSION_def pending_action_types_def pending_def)

lemma select_logs:
  "wp (select_actions (log_env en) now x) (g, y, l) s
     (\<lambda>as w1 s1. s1 = s \<and> snd (snd w1) = l \<and> length as \<le> 3 \<and> sa_action_type ` set as \<subseteq> pending x s)
     (\<lambda>w1. snd (snd w1) = l)"
  by (auto simp: wp_def select_actions_def Let_def log_env_def split: prod.split sum.split dest!: choose_actions_spec)

definition cleared :: "warmup_session \<Rightarrow> string set \<Rightarrow> outside list \<Rightarrow> bool" where
  "cleared x T e \<longleftrightarrow>
     calls e = [] \<or>
     (\<exists>v k. e = Verdict v # k \<and> v \<noteq> VerdictBlocked \<and> wu_execution_mode x \<in> set LIVE_EXECUTION_MODES \<and>
        permitted x T k \<and> length (calls k) \<le> 3)"

lemma window_logs:
  fixes en :: "('g, 'x) dispatch_env"
  assumes "live = (wu_execution_mode x \<in> set LIVE_EXECUTION_MODES)"
  shows "wp (run_window (log_env en) now worker live x) (g, y, l) s
     (\<lambda>_ w1 _. \<exists>e. snd (snd w1) = l @ e \<and> permitted x (pending x s) e \<and> length (calls e) \<le> (if live then 3 else 0))
     (\<lambda>w1. \<exists>e. snd (snd w1) = l @ e \<and> permitted x (pending x s) e \<and> length (calls e) \<le> (if live then 3 else 0))"
proof -
  let ?R = "\<lambda>e. permitted x (pending x s) e \<and> length (calls e) \<le> (if live then 3 else 0)"
  let ?Q = "\<lambda>w1 :: 'g \<times> 'x \<times> outside list. \<exists>e. snd (snd w1) = l @ e \<and> ?R e"
  let ?c = "\<lparr>wt_counters = resolve_day_counters x, wt_performed = [], wt_failed = []\<rparr>"
  have acts: "adds ?R (eff_bind (run_selected (log_env en) now x live as ?c) (settle_window (log_env en) now worker plan x))"
    if as: "length as \<le> 3" "sa_action_type ` set as \<subseteq> pending x s" for as :: "selected_action list" and plan
  proof (rule adds_seq [OF selected_adds settle_adds])
    have up: "permitted x (sa_action_type ` set as) k \<Longrightarrow> permitted x (pending x s) k" for k
      using as(2) by (auto simp: permitted_def list_all_iff)
    show "?R k" if "permitted x (sa_action_type ` set as) k \<and> length (calls k) \<le> (if live then length as else 0)" for k
      using that up as(1) by (auto split: if_splits)
    then show "?R (k @ m)" if "permitted x (sa_action_type ` set as) k \<and> length (calls k) \<le> (if live then length as else 0)"
        and "calls m = []" for k m
      using that permitted_append [OF _ permitted_silent [OF that(2)]] by auto
  qed
  have "wp (eff_bind (select_actions (log_env en) now x) (\<lambda>as.
      eff_bind (window_opened now x as) (\<lambda>_.
      eff_bind (run_selected (log_env en) now x live as ?c)
        (settle_window (log_env en) now worker (resolve_day_plan x s) x)))) (g, y, l) s (\<lambda>_ w1 _. ?Q w1) ?Q"
    unfolding wp_bind [of "select_actions (log_env en) now x"]
  proof (rule wp_mono [OF select_logs])
    fix as :: "selected_action list" and w1 :: "'g \<times> 'x \<times> outside list" and s1 :: db
    assume as: "s1 = s \<and> snd (snd w1) = l \<and> length as \<le> 3 \<and> sa_action_type ` set as \<subseteq> pending x s"
    obtain g1 y1 where w1: "w1 = (g1, y1, l)" using as by (metis prod.collapse)
    have "adds ?R (eff_bind (window_opened now x as) (\<lambda>_.
      eff_bind (run_selected (log_env en) now x live as ?c)
        (settle_window (log_env en) now worker (resolve_day_plan x s) x)))"
      unfolding window_opened_def eff_event_def by (rule adds_db_then) (use as acts in blast)
    then show "wp (eff_bind (window_opened now x as) (\<lambda>_.
      eff_bind (run_selected (log_env en) now x live as ?c)
        (settle_window (log_env en) now worker (resolve_day_plan x s) x))) w1 s1 (\<lambda>_ w1 _. ?Q w1) ?Q"
      unfolding w1 by (rule addsD)
  qed (auto simp: permitted_def)
  then show ?thesis unfolding wp_def run_window_def Let_def .
qed

lemma wp_both:
  "wp m w s Q E \<Longrightarrow> wp m w s Q' E' \<Longrightarrow> wp m w s (\<lambda>a w1 s1. Q a w1 s1 \<and> Q' a w1 s1) (\<lambda>w1. E w1 \<and> E' w1)"
  by (auto simp: wp_def split: prod.splits sum.splits)

lemma pending_cong:
  assumes "wu_strategy_id y = wu_strategy_id x" and "wu_current_day y = wu_current_day x"
    and "wu_daily_counters_json y = wu_daily_counters_json x" and "db_strategies s' = db_strategies s"
  shows "pending y s' = pending x s"
proof -
  have "resolve_day_plan y s' = resolve_day_plan x s" by (rule plan_cong) (simp_all add: assms)
  moreover have "resolve_day_counters y = resolve_day_counters x" by (simp only: resolve_day_counters_def assms)
  ultimately show ?thesis by (simp add: pending_def)
qed

lemma awake_logs:
  fixes en :: "('g, 'x) dispatch_env"
  assumes gate: "gate_frames (pv_gate (de_pre en))"
  shows "wp (dispatch_awake (log_env en) now worker x) (g, y, l) s
     (\<lambda>_ w1 _. \<exists>e. snd (snd w1) = l @ e \<and> cleared x (pending x s) e)
     (\<lambda>w1. \<exists>e. snd (snd w1) = l @ e \<and> cleared x (pending x s) e)"
proof -
  let ?live = "wu_execution_mode x \<in> set LIVE_EXECUTION_MODES"
  let ?Q = "\<lambda>w1 :: 'g \<times> 'x \<times> outside list. \<exists>e. snd (snd w1) = l @ e \<and> cleared x (pending x s) e"
  have lg: "gate_frames (pv_gate (de_pre (log_env en)))" using log_gate_frames [OF gate] by simp
  have pause: "wp (pause_if_blocked_by_safety_gate (log_env en) now worker x) (g, y, l) s
    (\<lambda>b w1 s1. \<exists>v. snd (snd w1) = l @ [Verdict v] \<and> (\<not> b \<longrightarrow> v \<noteq> VerdictBlocked \<and> core_tables s1 = core_tables s))
    (\<lambda>w1. snd (snd w1) = l)"
    unfolding pause_if_blocked_by_safety_gate_def wp_bind [of "ask_gate (log_env en) now x"]
    by (rule wp_mono [OF wp_both [OF gate_logs gate_core [OF lg]]])
      (auto simp: Let_def eff_save_def eff_event_def)
  show ?thesis
    unfolding dispatch_awake_def Let_def wp_bind [of "pause_if_blocked_by_safety_gate (log_env en) now worker x"]
  proof (rule wp_mono [OF pause])
    fix b :: bool and w1 :: "'g \<times> 'x \<times> outside list" and s1 :: db
    assume "\<exists>v. snd (snd w1) = l @ [Verdict v] \<and> (\<not> b \<longrightarrow> v \<noteq> VerdictBlocked \<and> core_tables s1 = core_tables s)"
    then obtain v where v: "snd (snd w1) = l @ [Verdict v]" "\<not> b \<Longrightarrow> v \<noteq> VerdictBlocked" "\<not> b \<Longrightarrow> core_tables s1 = core_tables s"
      by blast
    obtain g1 y1 l1 where w1: "w1 = (g1, y1, l1)" by (metis prod_cases3)
    show "wp (if b then eff_return True
        else (\<lambda>w s. if ?live \<and> \<not> ad_is_available (de_adapter (log_env en)) (snd w) then skip_unavailable (log_env en) now x w s
                else run_window (log_env en) now worker ?live x w s)) w1 s1 (\<lambda>_ w1 _. ?Q w1) ?Q"
    proof (cases b)
      case True
      with v show ?thesis by (simp add: cleared_def)
    next
      case False
      have T: "pending x s1 = pending x s" by (rule pending_cong) (use v(3) [OF False] in \<open>simp_all add: core_tables_def\<close>)
      have "adds (\<lambda>e. e = []) (skip_unavailable (log_env en) now x)"
        unfolding skip_unavailable_def draw_within_day_def Let_def
        by (intro silent.adds_bind silent.adds_simps silent.adds_draw silent.adds_return)
      then have un: "wp (skip_unavailable (log_env en) now x) w1 s1 (\<lambda>_ w1 _. ?Q w1) ?Q"
        unfolding w1 by (intro wp_mono [OF addsD]) (use v(1) w1 in \<open>auto simp: cleared_def\<close>)
      have run: "wp (run_window (log_env en) now worker ?live x) w1 s1 (\<lambda>_ w1 _. ?Q w1) ?Q"
        unfolding w1
      proof (rule wp_mono [OF window_logs [OF refl]])
        fix w2 :: "'g \<times> 'x \<times> outside list"
        assume "\<exists>e. snd (snd w2) = l1 @ e \<and> permitted x (pending x s1) e \<and> length (calls e) \<le> (if ?live then 3 else 0)"
        then obtain e where e: "snd (snd w2) = l1 @ e" "permitted x (pending x s1) e" "length (calls e) \<le> (if ?live then 3 else 0)"
          by blast
        have "cleared x (pending x s) (Verdict v # e)"
          using e(2,3) v(2) [OF False] T by (auto simp: cleared_def split: if_splits)
        then show "?Q w2" using e(1) v(1) w1 by auto
        then show "?Q w2" .
      qed
      from False un run show ?thesis by (simp add: wp_def)
    qed
  qed (auto simp: cleared_def)
qed

section \<open>One micro-session\<close>

text \<open>The fields that decide what a session may do; the cold soak and the cycle do not change them.\<close>

definition same_rights :: "warmup_session \<Rightarrow> warmup_session \<Rightarrow> bool" where
  "same_rights x y \<longleftrightarrow>
     wu_account_id y = wu_account_id x \<and> wu_strategy_id y = wu_strategy_id x \<and> wu_current_day y = wu_current_day x \<and>
     wu_daily_counters_json y = wu_daily_counters_json x \<and> wu_disabled_actions_json y = wu_disabled_actions_json x \<and>
     wu_execution_mode y = wu_execution_mode x \<and> wu_timezone y = wu_timezone x"

lemma same_rights_cleared: "same_rights x y \<Longrightarrow> cleared y T e = cleared x T e"
  by (simp add: same_rights_def cleared_def permitted_def)

definition in_cycle :: "('g, 'x) dispatch_env \<Rightarrow> time \<Rightarrow> warmup_session \<Rightarrow> bool" where
  "in_cycle en now x \<longleftrightarrow>
     (case cycle_window_status (wu_cycle_config_json x) now (session_zone en x) of None \<Rightarrow> True | Some st \<Rightarrow> cy_in_window st)"

lemma cycle_logs:
  fixes en :: "('g, 'x) dispatch_env"
  shows "wp (skip_if_outside_cyclic_window (log_env en) now x) (g, y, l) s
     (\<lambda>r w1 s1. case r of
        None \<Rightarrow> \<exists>e. snd (snd w1) = l @ e \<and> calls e = []
      | Some z \<Rightarrow> snd (snd w1) = l \<and> same_rights x z \<and> in_cycle en now x \<and> db_strategies s1 = db_strategies s)
     (\<lambda>w1. \<exists>e. snd (snd w1) = l @ e \<and> calls e = [])"
proof -
  let ?z = "session_zone en x"
  have same: "same_rights x x" "same_rights x (schedule_next_cycle x ?z now)"
    by (simp_all add: same_rights_def schedule_next_cycle_def Let_def split: option.split)
  have strategies: "db_strategies (save_session v s) = db_strategies s" for v by (simp add: save_session_def)
  have ended: "wp (eff_complete (log_env en) now x) (g, y, l) s1
    (\<lambda>_ w1 _. \<exists>e. snd (snd w1) = l @ e \<and> calls e = []) (\<lambda>w1. \<exists>e. snd (snd w1) = l @ e \<and> calls e = [])" for s1
    by (rule addsD) (rule complete_adds)
  show ?thesis
    by (cases "cycle_window_status (wu_cycle_config_json x) now ?z")
      (use same ended in \<open>simp_all add: skip_if_outside_cyclic_window_def Let_def in_cycle_def eff_save_def eff_event_def strategies\<close>)
qed

lemma cold_soak_rights:
  assumes "advance_from_cold_soak x now s = Inr (z, s1)"
  shows "same_rights x z \<and> wu_cycle_config_json z = wu_cycle_config_json x \<and> db_strategies s1 = db_strategies s"
proof -
  have "same_rights x z \<and> wu_cycle_config_json z = wu_cycle_config_json x"
    using assms by (auto simp: advance_from_cold_soak_def same_rights_def Let_def result_bind_Inr_iff split: if_splits)
  then show ?thesis
    using strategies.from_cold_soak [OF assms, of "wu_id x" "wu_account_id x"] by (simp add: keeps_strategies_def)
qed

text \<open>
  C6. What reaches Telegram. Take the log of one micro-session of the dispatcher, whether it ends well or
  raises, and suppose the adapter was asked for some action. Then the session is live, its cold soak is
  over, it is within its cycle and outside the quiet hours of its time zone; the first thing in the log is
  a verdict of the safety gate that does not block; at most three actions were asked for, all for the
  account of the session, none of them disabled by the operator or the proxy, and each still asked for by
  the plan of the day; and every reaction follows directly upon a second verdict that does not block.
\<close>

theorem live_actions_are_cleared:
  fixes en :: "('g, 'x) dispatch_env"
  assumes gate: "gate_frames (pv_gate (de_pre en))"
    and run: "process_one_dispatch (log_env en) now worker x (g, y, []) s = (r, g1, y1, l)"
    and called: "calls l \<noteq> []"
  shows "wu_execution_mode x \<in> set LIVE_EXECUTION_MODES \<and> (wu_status x = WColdSoak \<longrightarrow> is_cold_soak_complete x now) \<and>
    in_cycle en now x \<and> \<not> is_in_quiet_hours (de_settings en) (session_zone en x) now \<and>
    hd l \<in> {Verdict VerdictOk, Verdict VerdictWarning} \<and> length (calls l) \<le> 3 \<and>
    list_all (\<lambda>(a, t). a = wu_account_id x \<and> t \<notin> set (wu_disabled_actions_json x) \<and> t \<in> pending x s) (calls l) \<and>
    reactions_cleared None l"
proof -
  let ?G = "\<lambda>w1 :: 'g \<times> 'x \<times> outside list. calls (snd (snd w1)) \<noteq> [] \<longrightarrow>
    in_cycle en now x \<and> \<not> is_in_quiet_hours (de_settings en) (session_zone en x) now \<and> cleared x (pending x s) (snd (snd w1))"
  have soak: "\<not> (wu_status x = WColdSoak \<and> \<not> is_cold_soak_complete x now)"
    using run called by (auto simp: process_one_dispatch_def split: if_splits)
  obtain z s0 where z: "advance_from_cold_soak x now s = Inr (z, s0)"
    using run called soak by (auto simp: process_one_dispatch_def split: sum.splits)
  note rights = cold_soak_rights [OF z]
  let ?f = "\<lambda>r. case r of
       None \<Rightarrow> eff_return False
     | Some v \<Rightarrow>
         if is_in_quiet_hours (de_settings (log_env en)) (session_zone (log_env en) v) now then skip_quiet_hours (log_env en) now v
         else dispatch_awake (log_env en) now worker v"
  have "wp (eff_bind (skip_if_outside_cyclic_window (log_env en) now z) ?f) (g, y, []) s0 (\<lambda>_ w1 _. ?G w1) ?G"
    unfolding wp_bind [of "skip_if_outside_cyclic_window (log_env en) now z"]
  proof (rule wp_mono [OF cycle_logs])
    fix q :: "warmup_session option" and w1 :: "'g \<times> 'x \<times> outside list" and s1 :: db
    assume q: "case q of None \<Rightarrow> \<exists>e. snd (snd w1) = [] @ e \<and> calls e = []
      | Some v \<Rightarrow> snd (snd w1) = [] \<and> same_rights z v \<and> in_cycle en now z \<and> db_strategies s1 = db_strategies s0"
    show "wp (?f q) w1 s1 (\<lambda>_ w1 _. ?G w1) ?G"
    proof (cases q)
      case None
      with q show ?thesis by auto
    next
      case (Some v)
      with q have v: "snd (snd w1) = []" "same_rights z v" "in_cycle en now z" "db_strategies s1 = db_strategies s0" by auto
      have xv: "same_rights x v" using rights v(2) by (simp add: same_rights_def)
      then have zone: "session_zone en v = session_zone en x" "session_zone en z = session_zone en x"
        using rights by (simp_all add: same_rights_def session_zone_def)
      have cyc: "in_cycle en now x" using v(3) rights zone by (simp add: in_cycle_def)
      have T: "pending v s1 = pending x s"
        by (rule pending_cong) (use xv v(4) rights in \<open>simp_all add: same_rights_def\<close>)
      obtain g2 y2 where w1: "w1 = (g2, y2, [])" using v(1) by (metis prod.collapse)
      have quiet: "wp (skip_quiet_hours (log_env en) now v) w1 s1 (\<lambda>_ w1 _. ?G w1) ?G"
        by (simp add: skip_quiet_hours_def Let_def eff_save_def eff_event_def w1)
      have awake: "wp (dispatch_awake (log_env en) now worker v) w1 s1 (\<lambda>_ w1 _. ?G w1) ?G"
        if "\<not> is_in_quiet_hours (de_settings en) (session_zone en x) now"
        unfolding w1 by (rule wp_mono [OF awake_logs [OF gate]])
          (use that cyc T same_rights_cleared [OF xv] in auto)
      have e: "is_in_quiet_hours (de_settings (log_env en)) (session_zone (log_env en) v) now =
        is_in_quiet_hours (de_settings en) (session_zone en x) now" using zone by simp
      show ?thesis
      proof (cases "is_in_quiet_hours (de_settings en) (session_zone en x) now")
        case True
        show ?thesis unfolding Some option.case e if_P [OF True] by (rule quiet)
      next
        case False
        show ?thesis unfolding Some option.case e if_not_P [OF False] by (rule awake [OF False])
      qed
    qed
  qed auto
  moreover have "process_one_dispatch (log_env en) now worker x (g, y, []) s =
    eff_bind (skip_if_outside_cyclic_window (log_env en) now z) ?f (g, y, []) s0"
    using soak z by (auto simp: process_one_dispatch_def)
  ultimately have "?G (g1, y1, l)" using run by (cases r) (auto simp: wp_def split: prod.splits)
  then have G: "in_cycle en now x" "\<not> is_in_quiet_hours (de_settings en) (session_zone en x) now" "cleared x (pending x s) l"
    using called by simp_all
  then obtain v k where k: "l = Verdict v # k" "v \<noteq> VerdictBlocked" "wu_execution_mode x \<in> set LIVE_EXECUTION_MODES"
    "permitted x (pending x s) k" "length (calls k) \<le> 3"
    using called by (auto simp: cleared_def)
  have "v \<in> {VerdictOk, VerdictWarning}" using k(2) by (cases v) auto
  with G k soak show ?thesis by (auto simp: permitted_def reactions_mono)
qed

definition calm_env :: "(unit, unit) dispatch_env" where
  "calm_env =
     \<lparr>de_pre = \<lparr>pv_settings = (default_warmup_settings disabled_settings)\<lparr>wc_live_enabled := True\<rparr>,
        pv_gate = (\<lambda>now w a y s. (Inr \<lparr>gv_account_id = a, gv_intent = Warmup, gv_eligible = True, gv_severity = VerdictOk,
          gv_reasons = [], gv_ggr_score = None, gv_checked_at = now, gv_cache_ttl_seconds = 60\<rparr>, y, s)),
        pv_digest = length, pv_str = (\<lambda>_. [])\<rparr>,
      de_rng = least_rng, de_zones = (\<lambda>_. None), de_lazy = (\<lambda>_ _. 1), de_number = (\<lambda>_. None),
      de_friend_seed = (\<lambda>_ _. ()), de_uuid_order = id, de_sha = (\<lambda>t. t), de_clock = 0, de_adapter = willing_adapter,
      de_text = \<lparr>tx_provider_name = ''demo'', tx_is_available = True, tx_compose_p2p_message = (\<lambda>t. (''hi'', ''demo''))\<rparr>\<rparr>"

definition calm_db :: db where
  "calm_db = empty_db\<lparr>db_warmups := [stall_session], db_strategies := [stall_strategy
     \<lparr>wst_daily_action_limits_json := [(''1'', JObj [(''feed_read'', JInt 1), (''sync_contacts'', JInt 1)])]\<rparr>], db_next_id := 20\<rparr>"

definition calm_log :: "outside list" where
  "calm_log = snd (snd (snd (process_one_dispatch (log_env calm_env) (hours 12) ''w'' stall_session ((), (), []) calm_db)))"

lemma calm_log_calls: "calm_log = [Verdict VerdictOk, Call 5 ''feed_read'']"
  unfolding calm_log_def by code_simp

text \<open>
  A warm-up on the sixth day of its cold soak, at noon: the plan of the day still asks for a feed read and
  for the contacts, which the operator has disabled. The one session of the dispatcher asks the gate, then
  reads the feed.
\<close>

theorem live_actions_are_cleared_witness:
  "wu_execution_mode stall_session \<in> set LIVE_EXECUTION_MODES \<and> in_cycle calm_env (hours 12) stall_session \<and>
    \<not> is_in_quiet_hours (de_settings calm_env) (session_zone calm_env stall_session) (hours 12) \<and>
    hd calm_log \<in> {Verdict VerdictOk, Verdict VerdictWarning} \<and> calls calm_log = [(5, ''feed_read'')] \<and>
    list_all (\<lambda>(a, t). a = wu_account_id stall_session \<and> t \<notin> set (wu_disabled_actions_json stall_session) \<and>
      t \<in> pending stall_session calm_db) (calls calm_log) \<and>
    reactions_cleared None calm_log"
proof -
  obtain r g1 y1 where run: "process_one_dispatch (log_env calm_env) (hours 12) ''w'' stall_session ((), (), []) calm_db =
      (r, g1, y1, calm_log)"
    unfolding calm_log_def by (metis prod.collapse)
  have calls: "calls calm_log = [(5, ''feed_read'')]" by (simp add: calm_log_calls)
  have gate: "gate_frames (pv_gate (de_pre calm_env))" by (simp add: gate_frames_def calm_env_def)
  show ?thesis using live_actions_are_cleared [OF gate run] calls by auto
qed

end
