(* ===== verification/Spec2Isabelle.thy ===== *)
theory Spec2Isabelle
  imports Survival MonitorTick Cooldowns ActionGate Campaigns SendSafety WarmupIsolation WarmupLive
begin

text \<open>
  A model of the backend of StylistTG (\<open>src/backend/app\<close>): the part that decides what a Telegram
  account may do, and that counts what it has done.

  The program and its model. A workspace owns Telegram accounts. Warm-up, profile editing and
  neuro-commenting act through them, and every action first asks the account safety layer:

  \<^item> \<open>SafetyPolicy\<close> (\<open>modules/account_safety/policy_rules.py\<close>, \<open>policy_repository.py\<close>): the policy row of
    a workspace with its presets, its validation, the diff of two policies, and the kill switch that
    replaces every policy by an inert one.
  \<^item> \<open>StatusMonitor\<close>, \<open>MonitorTick\<close> (\<open>status_monitor.py\<close>, \<open>status_monitor_helpers.py\<close>,
    \<open>terminal_status.py\<close>): one probe of an account and what it writes (observation, terminal status,
    pausing of warm-up and campaigns), then the paged tick over a workspace.
  \<^item> \<open>SafetyGate\<close>, \<open>GateCache\<close> (\<open>gate.py\<close>, \<open>gate_helpers.py\<close>, \<open>gate_contracts.py\<close>, \<open>cache.py\<close>): the verdict
    for an intent (editing, warm-up, commenting) from policy, quarantine, observation, GGR score,
    completeness and load, behind a fresh and a stale cache and a budget of cold calls.
  \<^item> \<open>GateReserve\<close> (\<open>reserve.py\<close>): a verdict and one of a bounded number of commenting slots.
  \<^item> \<open>Quarantine\<close>, \<open>Lifecycle\<close>, \<open>Survival\<close>: the quarantine history, the audited lifecycle state machine
    and the survival counters. \<open>Cooldowns\<close>, \<open>ReadinessRisk\<close>, \<open>ActionGate\<close>: cooldowns of operations, the
    readiness score and the decision about a sensitive action.
  \<^item> \<open>Ggr\<close> (\<open>modules/account_ggr\<close>), \<open>ProfileCompleteness\<close>, \<open>LoadTracker\<close>: the reputation score, the
    profile checklist and the hour buckets the gate reads.
  \<^item> \<open>RateLimiter\<close>, \<open>RateLimits\<close>, \<open>WindowLimit\<close> (\<open>modules/neuro_commenting/rate_limiter*.py\<close>): the limits on
    comments, reserved by one Lua script, committed or rolled back later.
  \<^item> \<open>NeuroRepository\<close>, \<open>Campaigns\<close>, \<open>CommentLimits\<close>, \<open>CommentHealth\<close>, \<open>Approval\<close>, \<open>AccountSelector\<close> (the
    other services of \<open>modules/neuro_commenting\<close>): the life of a campaign with its accounts, the limit rows
    and the limiter built from them, the health of accounts and targets with the channel rules, editing,
    approval, rejection and expiry of comments, and the choice of the account that writes.
  \<^item> \<open>CommentSender\<close>, \<open>SendSafety\<close> (\<open>sender_*.py\<close>): one send, through the guards on its rows, the gate, a
    slot, the channel rules and the limiter to Telegram, and every way it may end; then what holds of
    sends, alone and in sequence.
  \<^item> \<open>WarmupEvents\<close>, \<open>WarmupPeers\<close> (\<open>modules/warmup/events.py\<close>, \<open>p2p_graph.py\<close>, \<open>p2p.py\<close>): the settings, the
    event log and the friends of a warm-up; \<open>WarmupSessions\<close>, \<open>WarmupCommands\<close> (\<open>policies.py\<close>, \<open>isolation.py\<close>,
    \<open>readiness.py\<close>, \<open>proxy_adaptation.py\<close>, \<open>circadian/personality.py\<close>, \<open>cold_soak.py\<close>, \<open>commands.py\<close>): the rules
    of a session, and the commands that create, pause, resume, restrict and delete one.
  \<^item> \<open>PreProduction\<close>, \<open>WarmupWorker\<close>, \<open>WarmupIdle\<close> (\<open>pre_production.py\<close>, \<open>worker.py\<close>, \<open>dispatch_results.py\<close>,
    \<open>idle_session.py\<close>, \<open>account_lifecycle/idle_detector.py\<close>): the last stage before an account works, the
    worker that moves dry-run sessions a day at a time, the completion of a session, and the keep-alive
    sessions of idle accounts.
  \<^item> \<open>WarmupClock\<close>, \<open>WarmupPlan\<close>, \<open>WarmupChannels\<close> (\<open>cyclic.py\<close>, \<open>circadian/windows.py\<close>, \<open>dispatch_schedule.py\<close>,
    \<open>adaptive_plan.py\<close>, \<open>action_presets.py\<close>, \<open>bootstrap_pool\<close>, \<open>channel_state\<close>): when a live session may act,
    the plan of its day, and the channels it acts on. \<open>WarmupActions\<close>, \<open>WarmupDispatch\<close>
    (\<open>dispatch_context.py\<close>, \<open>dispatch_actions.py\<close>, \<open>dispatch_results.py\<close>, \<open>dispatch_processor.py\<close>,
    \<open>dispatcher.py\<close>, \<open>jobs.py\<close>): one action, one micro-session, and the jobs that run them.
    \<open>WarmupDispatchFrames\<close>, \<open>WarmupStall\<close>, \<open>WarmupLive\<close>: a predicate transformer for the steps of a
    micro-session with the locales of what they leave alone, the sessions whose day never ends, and the
    log of what reaches Telegram.
  \<^item> \<open>GateFrame\<close>, \<open>WarmupFrames\<close>, \<open>WarmupSteps\<close>, \<open>WarmupTicks\<close>, \<open>WarmupSafety\<close>, \<open>WarmupCreation\<close>,
    \<open>WarmupIsolation\<close>: what an evaluation of the gate and a step of one session leave alone (two locales,
    interpreted on the views the proofs need), the effect of a step and of a tick, and the properties of
    the warm-up: completion in time, the sessions and accounts that stop a worker, isolation.
  \<^item> \<open>SecretRedaction\<close> (\<open>services/secret_redaction.py\<close>): what logs and audit rows may contain.

  \<open>Prelude\<close>, \<open>Numeric\<close>, \<open>Decimals\<close> and \<open>KeyedTable\<close> hold what the components share: results and errors,
  rounding, decimal text, and the locale of a table with one row per key, interpreted by the
  policies, the load buckets, the GGR scores, the survival metrics and the cooldowns. \<open>Models\<close> holds
  the tables (\<open>app/models.py\<close>, \<open>app/model_defs\<close>) as records and the database as a record of row lists.

  How to read the definitions.
  \<^item> A function that uses a session takes the database and returns it changed; exceptions are values
    of \<open>py_error\<close> in a sum. A nested savepoint that fails returns the database it began with. The
    warm-up operations run in a transaction of their caller, which an exception drops: they return
    the new database only when they succeed.
  \<^item> Time is an integer of microseconds. One call reads the clock once, and the value is an argument.
  \<^item> Identifiers are naturals; a new row takes the next one. \<open>uuid4\<close> is assumed never to repeat. Where
    the code orders new rows by their random identifiers, that order is a parameter (\<open>WarmupPeers\<close>).
  \<^item> Floats are exact rationals, \<open>round\<close> is round half to even. Text is ASCII.
  \<^item> Redis is a parameter: its commands and its faults are fields of a record, and what the code relies
    on is stated by \<open>redis_values_ok\<close>, \<open>redis_counters_ok\<close>, \<open>zset_ok\<close> and \<open>redis_ok\<close>, each with an
    executable instance. A call may fail before or after the server has executed it.
  \<^item> TDLib, the client that talks to Telegram, difflib, the hash function, the random generators, time zones,
    the job queue and the settings are parameters. The adapter of the warm-up and the random generator are
    a state that each step returns.
  \<^item> JSON written to Redis or to a JSON column is read back as it was written.

  What the lemmas show. Each component has the invariant of its tables and its preservation by every
  operation, the effect of each operation on every branch, and the properties below that span
  several operations: histories of policies, quarantines and scores; refinement of the slot set,
  of the cold-call budget and of the hour buckets by what they promise; equality of the batch
  queries with the single ones; coverage of a workspace by the monitor; the limit on the comments
  of a window through any interleaving of reservations, commits, rollbacks and faults; histories of
  campaigns, comments and targets; and for sends, when Telegram is called, that a call always settles
  its attempt, that an attempt is delivered at most once by sends that follow one another, and what
  is left behind when a send is stopped half-way; for the warm-up, that a well-formed table of dry-run
  sessions is served to the end in as many ticks as there are days, which sessions make every batch
  fail, that every isolation claim has a live session, that a live session acts only after the gate has
  cleared it, within its cycle and awake, and which plans keep it on the same day for ever.

  Not modelled: database constraint failures and lost updates between concurrent sessions, except
  where the code handles them; \<open>SKIP LOCKED\<close> and lock time-outs; metrics and logging; the HTTP layer;
  TDLib and the language models; the modules listed as such in the manifest, which are input and
  output around these decisions (the generation of comments, the deletion of accounts); the creation of a
  cyclic warm-up and of a stored preset. The behaviour emulator of the sender is off, as by default.
\<close>

end
